(* ===== verification/DydxPrelude.thy ===== *)
theory DydxPrelude
  imports Main "HOL-Library.Word" "HOL-Library.Signed_Division" "HOL-Library.List_Lexorder"
    "HOL-Library.Char_ord"
begin

text \<open>
  Shared vocabulary of the development: Go results (a value, an error return or a panic), Go's
  machine integers as words, the division operations of \<^verbatim>\<open>math/big\<close>, Go maps as key-sorted
  association lists (so that iteration in sorted key order, the only order the modelled code
  depends on, is computable), and loops with early return.
\<close>

named_theorems res_simps \<open>elimination of the result type\<close>
named_theorems big_simps \<open>rewriting of big-integer helpers to integer arithmetic\<close>
named_theorems map_simps \<open>lookup and update of Go maps\<close>

section \<open>Results\<close>

text \<open>
  A Go function that can fail returns a value of \<open>'a res\<close>: \<open>Inl (Err n)\<close> is an error return whose
  sentinel is \<open>n\<close>, \<open>Inl (Panic n)\<close> a panic, \<open>Inr x\<close> a normal return.
\<close>

datatype error = Err string | Panic string

type_synonym 'a res = "error + 'a"

definition bindr :: "'a res \<Rightarrow> ('a \<Rightarrow> 'b res) \<Rightarrow> 'b res" where
  "bindr m f = (case m of Inl e \<Rightarrow> Inl e | Inr x \<Rightarrow> f x)"

text \<open>A loop over a slice whose body updates a loop state and may return early with an error.\<close>

fun for_res :: "('x \<Rightarrow> 's \<Rightarrow> 's res) \<Rightarrow> 'x list \<Rightarrow> 's \<Rightarrow> 's res" where
  "for_res f [] s = Inr s"
| "for_res f (x # xs) s = bindr (f x s) (for_res f xs)"

text \<open>A loop that collects one result per element.\<close>

fun map_res :: "('x \<Rightarrow> 'y res) \<Rightarrow> 'x list \<Rightarrow> 'y list res" where
  "map_res f [] = Inr []"
| "map_res f (x # xs) = bindr (f x) (\<lambda>y. bindr (map_res f xs) (\<lambda>ys. Inr (y # ys)))"

definition is_panic :: "'a res \<Rightarrow> bool" where
  "is_panic r = (case r of Inl (Panic n) \<Rightarrow> True | _ \<Rightarrow> False)"

text \<open>
  A Go method that changes a store and may fail: it returns its result together with the state it
  leaves behind, also when it fails (a Go error does not undo the writes made before it).
\<close>

type_synonym ('s, 'a) step = "'s \<Rightarrow> 'a res \<times> 's"

definition retM :: "'a \<Rightarrow> ('s, 'a) step" where
  "retM x s = (Inr x, s)"

definition failM :: "error \<Rightarrow> ('s, 'a) step" where
  "failM e s = (Inl e, s)"

definition liftM :: "('s \<Rightarrow> 'a res) \<Rightarrow> ('s, 'a) step" where
  "liftM f s = (f s, s)"

definition modifyM :: "('s \<Rightarrow> 's) \<Rightarrow> ('s, unit) step" where
  "modifyM f s = (Inr (), f s)"

definition bindM :: "('s, 'a) step \<Rightarrow> ('a \<Rightarrow> ('s, 'b) step) \<Rightarrow> ('s, 'b) step" where
  "bindM m f s = (case m s of (Inl e, s') \<Rightarrow> (Inl e, s') | (Inr x, s') \<Rightarrow> f x s')"

fun forM :: "('x \<Rightarrow> ('s, unit) step) \<Rightarrow> 'x list \<Rightarrow> ('s, unit) step" where
  "forM f [] = retM ()"
| "forM f (x # xs) = bindM (f x) (\<lambda>_. forM f xs)"

section \<open>Integers\<close>

type_synonym uint32 = "32 word"
type_synonym uint64 = "64 word"

text \<open>Go's \<open>int32\<close> and \<open>int64\<close> are words read with \<^const>\<open>sint\<close>.\<close>

type_synonym int32 = "32 word"
type_synonym int64 = "64 word"

text \<open>
  \<^verbatim>\<open>big.Int.Div\<close> is Euclidean division (the remainder is never negative);
  \<^verbatim>\<open>big.Int.Quo\<close> truncates towards zero and is \<open>sdiv\<close> of the library.
\<close>

definition ediv :: "int \<Rightarrow> int \<Rightarrow> int" where
  "ediv a b = (if b < 0 then - (a div (- b)) else a div b)"

definition emod :: "int \<Rightarrow> int \<Rightarrow> int" where
  "emod a b = a - b * ediv a b"

definition cmp_int :: "int \<Rightarrow> int \<Rightarrow> int" where
  "cmp_int a b = (if a < b then -1 else if a = b then 0 else 1)"

section \<open>Go maps\<close>

type_synonym ('k, 'v) gomap = "('k \<times> 'v) list"

fun gm_set :: "'k::linorder \<Rightarrow> 'v \<Rightarrow> ('k, 'v) gomap \<Rightarrow> ('k, 'v) gomap" where
  "gm_set k v [] = [(k, v)]"
| "gm_set k v ((k', v') # m) =
     (if k < k' then (k, v) # (k', v') # m
      else if k = k' then (k, v) # m
      else (k', v') # gm_set k v m)"

definition gm_get :: "('k, 'v) gomap \<Rightarrow> 'k \<Rightarrow> 'v option" where
  "gm_get m k = map_of m k"

definition gm_del :: "'k \<Rightarrow> ('k, 'v) gomap \<Rightarrow> ('k, 'v) gomap" where
  "gm_del k m = filter (\<lambda>p. fst p \<noteq> k) m"

definition gm_keys :: "('k, 'v) gomap \<Rightarrow> 'k list" where
  "gm_keys m = map fst m"

definition gm_vals :: "('k, 'v) gomap \<Rightarrow> 'v list" where
  "gm_vals m = map snd m"

definition gm_inv :: "('k::linorder, 'v) gomap \<Rightarrow> bool" where
  "gm_inv m = sorted_wrt (<) (map fst m)"

definition gm_of_list :: "('v \<Rightarrow> 'k::linorder) \<Rightarrow> 'v list \<Rightarrow> ('k, 'v) gomap" where
  "gm_of_list key vs = fold (\<lambda>v m. gm_set (key v) v m) vs []"

section \<open>Lemmas on results and loops\<close>

lemma bindr_Inl [simp]: "bindr (Inl e) f = Inl e"
  by (simp add: bindr_def)

lemma bindr_Inr [simp]: "bindr (Inr x) f = f x"
  by (simp add: bindr_def)

lemma bindr_eq_Inr [res_simps]: "bindr m f = Inr y \<longleftrightarrow> (\<exists>x. m = Inr x \<and> f x = Inr y)"
  by (cases m) simp_all

lemma bindr_eq_Inl [res_simps]:
  "bindr m f = Inl e \<longleftrightarrow> m = Inl e \<or> (\<exists>x. m = Inr x \<and> f x = Inl e)"
  by (cases m) auto

lemma bindr_Inr_right [simp]: "bindr m Inr = m"
  by (cases m) simp_all

lemma bindr_assoc: "bindr (bindr m f) g = bindr m (\<lambda>x. bindr (f x) g)"
  by (cases m) simp_all

lemma bindr_cong [fundef_cong]:
  "m = m' \<Longrightarrow> (\<And>x. m' = Inr x \<Longrightarrow> f x = f' x) \<Longrightarrow> bindr m f = bindr m' f'"
  by (cases m') auto

lemma is_panic_simps [simp]:
  "is_panic (Inl (Panic n))" "\<not> is_panic (Inl (Err n))" "\<not> is_panic (Inr x)"
  by (simp_all add: is_panic_def)

lemma for_res_append: "for_res f (xs @ ys) s = bindr (for_res f xs s) (for_res f ys)"
proof (induction xs arbitrary: s)
  case Nil
  then show ?case by simp
next
  case (Cons x xs)
  then show ?case by (cases "f x s") simp_all
qed

lemma for_res_invariant:
  assumes "for_res f xs s = Inr t" and "P s"
    and "\<And>x s t. x \<in> set xs \<Longrightarrow> P s \<Longrightarrow> f x s = Inr t \<Longrightarrow> P t"
  shows "P t"
  using assms
proof (induction xs arbitrary: s)
  case Nil
  then show ?case by simp
next
  case (Cons x xs)
  from Cons.prems(1) obtain u where u: "f x s = Inr u" "for_res f xs u = Inr t"
    by (auto simp: res_simps)
  with Cons.prems have "P u" by auto
  with u(2) Cons.prems(3) show ?case by (intro Cons.IH[of u]) auto
qed

lemma for_res_total:
  assumes "P s" and "\<And>x s. x \<in> set xs \<Longrightarrow> P s \<Longrightarrow> \<exists>t. f x s = Inr t \<and> P t"
  shows "\<exists>t. for_res f xs s = Inr t \<and> P t"
  using assms
proof (induction xs arbitrary: s)
  case Nil
  then show ?case by simp
next
  case (Cons x xs)
  then obtain u where "f x s = Inr u" "P u" by (metis list.set_intros(1))
  with Cons show ?case by auto
qed

lemma map_res_Inr [res_simps]: "map_res f xs = Inr ys \<longleftrightarrow> list_all2 (\<lambda>x y. f x = Inr y) xs ys"
proof (induction xs arbitrary: ys)
  case Nil
  then show ?case by auto
next
  case (Cons x xs)
  then show ?case by (cases ys) (auto simp: res_simps)
qed

section \<open>Lemmas on stateful steps\<close>

named_theorems step_simps \<open>elimination of the stateful result type\<close>

lemma retM_eq [step_simps]: "retM x s = (r, s') \<longleftrightarrow> r = Inr x \<and> s' = s"
  by (auto simp: retM_def)

lemma failM_eq [step_simps]: "failM e s = (r, s') \<longleftrightarrow> r = Inl e \<and> s' = s"
  by (auto simp: failM_def)

lemma liftM_eq [step_simps]: "liftM f s = (r, s') \<longleftrightarrow> f s = r \<and> s' = s"
  by (auto simp: liftM_def)

lemma modifyM_eq [step_simps]: "modifyM f s = (r, s') \<longleftrightarrow> r = Inr () \<and> s' = f s"
  by (auto simp: modifyM_def)

lemma bindM_Inr [step_simps]:
  "bindM m f s = (Inr y, t) \<longleftrightarrow> (\<exists>x u. m s = (Inr x, u) \<and> f x u = (Inr y, t))"
  by (auto simp: bindM_def split: prod.splits sum.splits)

lemma bindM_Inl [step_simps]:
  "bindM m f s = (Inl e, t) \<longleftrightarrow> m s = (Inl e, t) \<or> (\<exists>x u. m s = (Inr x, u) \<and> f x u = (Inl e, t))"
  by (auto simp: bindM_def split: prod.splits sum.splits)

lemma bindM_simps [simp]:
  "bindM (retM x) f = f x" "bindM (failM e) f = failM e"
  "m s = (Inr x, u) \<Longrightarrow> bindM m f s = f x u" "m s = (Inl e, u) \<Longrightarrow> bindM m f s = (Inl e, u)"
  by (auto simp: bindM_def retM_def failM_def)

text \<open>
  A relation between the states before and after, closed under composition, is kept by sequencing
  and by loops, on success and on failure.
\<close>

definition keeps :: "('s \<Rightarrow> 's \<Rightarrow> bool) \<Rightarrow> ('s, 'a) step \<Rightarrow> bool" where
  "keeps R m \<longleftrightarrow> (\<forall>s. R s (snd (m s)))"

lemma keeps_basic [intro]:
  "reflp R \<Longrightarrow> keeps R (retM x)" "reflp R \<Longrightarrow> keeps R (failM e)" "reflp R \<Longrightarrow> keeps R (liftM f)"
  by (simp_all add: keeps_def retM_def failM_def liftM_def reflpD)

lemma keeps_bind:
  assumes "transp R" "keeps R m" "\<And>x. keeps R (f x)"
  shows "keeps R (bindM m f)"
  unfolding keeps_def
proof
  fix s
  obtain r u where m: "m s = (r, u)" by fastforce
  then have "R s u" using assms(2) unfolding keeps_def by (metis snd_conv)
  then show "R s (snd (bindM m f s))"
  proof (cases r)
    case (Inr x)
    then show ?thesis
      using m \<open>R s u\<close> assms(1,3) by (simp add: keeps_def) (metis transpD)
  qed (use m in simp)
qed

lemma keeps_forM:
  assumes "reflp R" "transp R" "\<And>x. x \<in> set xs \<Longrightarrow> keeps R (f x)"
  shows "keeps R (forM f xs)"
  using assms(3) by (induction xs) (auto intro: keeps_bind assms(1,2))

lemma keeps_same:
  assumes "keeps (\<lambda>s t. g t = g s) m" "m s = (r, t)"
  shows "g t = g s"
  using assms unfolding keeps_def by (metis snd_conv)

lemma keepsD: "keeps R m \<Longrightarrow> m s = (x, t) \<Longrightarrow> R s t"
  unfolding keeps_def by (metis snd_conv)

lemma keeps_bind_lift:
  assumes "reflp R" "\<And>s x. f s = Inr x \<Longrightarrow> keeps R (g x)"
  shows "keeps R (bindM (liftM f) g)"
  unfolding keeps_def
proof
  fix s
  show "R s (snd (bindM (liftM f) g s))"
    using assms(1) assms(2)[of s] by (cases "f s") (auto simp: bindM_def liftM_def keeps_def reflpD)
qed

lemma keeps_bind_at:
  assumes "transp R" "keeps R m" "\<And>x. keeps R (f x)"
  shows "R s (snd (bindM m f s))"
  using keeps_bind[OF assms] by (simp add: keeps_def)

lemma keeps_branches:
  "keeps R m \<Longrightarrow> keeps R n \<Longrightarrow> keeps R (if b then m else n)"
  "keeps R m \<Longrightarrow> (\<And>y. keeps R (g y)) \<Longrightarrow> keeps R (case x of None \<Rightarrow> m | Some y \<Rightarrow> g y)"
  by (auto split: option.split)

text \<open>Inverting a successful run step by step.\<close>

lemma bind_lift_elim:
  "bindM (liftM g) f s = (Inr y, t) \<Longrightarrow> (\<And>x. g s = Inr x \<Longrightarrow> f x s = (Inr y, t) \<Longrightarrow> P) \<Longrightarrow> P"
  by (auto simp: step_simps)

lemma bind_elim:
  "bindM m f s = (Inr y, t) \<Longrightarrow> (\<And>x u. m s = (Inr x, u) \<Longrightarrow> f x u = (Inr y, t) \<Longrightarrow> P) \<Longrightarrow> P"
  by (auto simp: step_simps)

lemma guard_elim:
  "(if c then failM e else m) s = (Inr y, t) \<Longrightarrow> (\<not> c \<Longrightarrow> m s = (Inr y, t) \<Longrightarrow> P) \<Longrightarrow> P"
  by (auto simp: step_simps split: if_splits)

lemmas run_elims = bind_lift_elim bind_elim guard_elim

text \<open>A step that neither panics nor leaves a set of states.\<close>

definition safe_step :: "('s \<Rightarrow> bool) \<Rightarrow> ('s, 'a) step \<Rightarrow> bool" where
  "safe_step I m \<longleftrightarrow> (\<forall>s. I s \<longrightarrow> \<not> is_panic (fst (m s)) \<and> I (snd (m s)))"

lemma safe_basic [intro]:
  "safe_step I (retM x)" "safe_step I (failM (Err n))"
  "(\<And>s. I s \<Longrightarrow> \<not> is_panic (f s)) \<Longrightarrow> safe_step I (liftM f)"
  by (simp_all add: safe_step_def retM_def failM_def liftM_def)

lemma safe_bind:
  assumes "safe_step I m" "\<And>x. safe_step I (f x)"
  shows "safe_step I (bindM m f)"
  unfolding safe_step_def
proof (intro allI impI)
  fix s assume "I s"
  obtain r u where m: "m s = (r, u)" by fastforce
  then have r: "\<not> is_panic r" "I u" using assms(1) \<open>I s\<close> unfolding safe_step_def by (metis fst_conv snd_conv)+
  then show "\<not> is_panic (fst (bindM m f s)) \<and> I (snd (bindM m f s))"
    using m assms(2) by (cases r) (auto simp: bindM_def safe_step_def is_panic_def split: error.splits)
qed

text \<open>The continuation may rely on what the first step returned.\<close>

lemma safe_bind_lift:
  assumes "\<And>s. I s \<Longrightarrow> \<not> is_panic (f s)" "\<And>s x. I s \<Longrightarrow> f s = Inr x \<Longrightarrow> safe_step I (g x)"
  shows "safe_step I (bindM (liftM f) g)"
  unfolding safe_step_def
proof (intro allI impI)
  fix s assume s: "I s"
  then show "\<not> is_panic (fst (bindM (liftM f) g s)) \<and> I (snd (bindM (liftM f) g s))"
    using assms(1)[OF s] assms(2)[OF s]
    by (cases "f s") (auto simp: bindM_def liftM_def safe_step_def is_panic_def split: error.splits)
qed

lemma safe_forM:
  assumes "\<And>x. x \<in> set xs \<Longrightarrow> safe_step I (f x)"
  shows "safe_step I (forM f xs)"
  using assms by (induction xs) (auto intro: safe_bind)

section \<open>Lemmas on integers\<close>

lemma ediv_pos [big_simps]: "0 \<le> b \<Longrightarrow> ediv a b = a div b"
  by (simp add: ediv_def)

lemma emod_bounds: "b \<noteq> 0 \<Longrightarrow> 0 \<le> emod a b \<and> emod a b < \<bar>b\<bar>"
proof (cases "b < 0")
  case True
  have "emod a b = a mod (- b)"
    using True minus_div_mult_eq_mod[of a "- b"]
    by (simp add: emod_def ediv_def algebra_simps)
  moreover have "0 \<le> a mod (- b)" "a mod (- b) < - b"
    using True by simp_all
  ultimately show ?thesis using True by simp
next
  case False
  assume "b \<noteq> 0"
  with False have "0 < b" by simp
  then show ?thesis
    using minus_mult_div_eq_mod[of a b] by (simp add: emod_def ediv_def)
qed

lemma cmp_int_simps [simp]:
  "cmp_int a b = 0 \<longleftrightarrow> a = b" "0 < cmp_int a b \<longleftrightarrow> b < a" "cmp_int a b < 0 \<longleftrightarrow> a < b"
  by (auto simp: cmp_int_def)

lemma sdiv_nonneg [big_simps]: "0 \<le> a \<Longrightarrow> 0 \<le> b \<Longrightarrow> a sdiv b = a div (b::int)"
  by (cases "a = 0"; cases "b = 0") (simp_all add: signed_divide_int_def)

lemma sdiv_minus_left: "(- a) sdiv b = - (a sdiv (b::int))"
  by (simp add: signed_divide_int_def)

lemma uint_pos_iff: "0 < uint w \<longleftrightarrow> w \<noteq> 0"
  by (simp add: word_neq_0_conv word_less_def)

section \<open>Lemmas on Go maps\<close>

lemma gm_get_Nil [simp]: "gm_get [] k = None"
  by (simp add: gm_get_def)

lemma gm_get_set [simp, map_simps]: "gm_get (gm_set k v m) = (gm_get m)(k \<mapsto> v)"
  by (induction k v m rule: gm_set.induct) (auto simp: gm_get_def fun_eq_iff)

lemma gm_get_del [simp, map_simps]: "gm_get (gm_del k m) = (gm_get m)(k := None)"
  by (induction m) (auto simp: gm_get_def gm_del_def fun_eq_iff)

lemma set_gm_set_keys: "fst ` set (gm_set k v m) = insert k (fst ` set m)"
  by (induction k v m rule: gm_set.induct) auto

lemma gm_inv_Nil [simp]: "gm_inv []"
  by (simp add: gm_inv_def)

lemma gm_inv_set [simp]: "gm_inv m \<Longrightarrow> gm_inv (gm_set k v m)"
proof (induction k v m rule: gm_set.induct)
  case (1 k v)
  then show ?case by (simp add: gm_inv_def)
next
  case (2 k v k' v' m)
  have keys: "fst ` set (gm_set k v m) = insert k (fst ` set m)"
    by (rule set_gm_set_keys)
  show ?case
    using 2 keys by (auto simp: gm_inv_def)
qed

lemma gm_inv_del [simp]: "gm_inv m \<Longrightarrow> gm_inv (gm_del k m)"
  by (induction m) (auto simp: gm_inv_def gm_del_def)

lemma gm_inv_distinct: "gm_inv m \<Longrightarrow> distinct (map fst m)"
  unfolding gm_inv_def using strict_sorted_iff by blast

lemma gm_get_Some_iff: "gm_inv m \<Longrightarrow> gm_get m k = Some v \<longleftrightarrow> (k, v) \<in> set m"
  by (simp add: gm_get_def gm_inv_distinct)

lemma gm_get_None_iff: "gm_get m k = None \<longleftrightarrow> k \<notin> fst ` set m"
  by (simp add: gm_get_def map_of_eq_None_iff)

lemma dom_gm_get: "dom (gm_get m) = set (gm_keys m)"
  using gm_get_None_iff[of m] by (auto simp: dom_def gm_keys_def)

lemma set_gm_keys_set: "set (gm_keys (gm_set k v m)) = insert k (set (gm_keys m))"
  by (simp add: gm_keys_def set_gm_set_keys)

lemma set_gm_keys_del: "set (gm_keys (gm_del k m)) = set (gm_keys m) - {k}"
  by (auto simp: gm_keys_def gm_del_def)

lemma gm_keys_sorted: "gm_inv m \<Longrightarrow> sorted_wrt (<) (gm_keys m)"
  by (simp add: gm_inv_def gm_keys_def)

text \<open>Two maps with the same lookups are the same list: the representation is canonical.\<close>

lemma gm_rebuild: "gm_inv m \<Longrightarrow> map (\<lambda>k. (k, the (gm_get m k))) (gm_keys m) = m"
proof -
  assume inv: "gm_inv m"
  have "(fst p, the (gm_get m (fst p))) = p" if "p \<in> set m" for p
    using that inv by (metis gm_get_Some_iff option.sel prod.collapse)
  then show ?thesis by (simp add: gm_keys_def comp_def map_idI)
qed

lemma gm_eqI:
  assumes "gm_inv m" "gm_inv m'" "gm_get m = gm_get m'"
  shows "m = m'"
proof -
  have "gm_keys m = gm_keys m'"
    using assms dom_gm_get[of m] dom_gm_get[of m']
    by (intro strict_sorted_equal gm_keys_sorted) simp_all
  then show ?thesis
    using assms gm_rebuild by metis
qed

section \<open>Sums over Go maps\<close>

lemma sum_gm_set:
  fixes g :: "'v \<Rightarrow> 'a::ab_group_add"
  assumes "gm_inv m"
  shows "(\<Sum>w\<leftarrow>gm_vals (gm_set k v m). g w) =
    (\<Sum>w\<leftarrow>gm_vals m. g w) - (case gm_get m k of None \<Rightarrow> 0 | Some w \<Rightarrow> g w) + g v"
  using assms
proof (induction k v m rule: gm_set.induct)
  case (2 k v k' v' m)
  have none: "gm_get m k = None" if "k < k'"
    using 2(2) that by (force simp: gm_inv_def gm_get_None_iff)
  have same: "gm_get m k' = None"
    using 2(2) by (force simp: gm_inv_def gm_get_None_iff)
  have "gm_inv m" using 2(2) by (simp add: gm_inv_def)
  then show ?case
    using 2(1) none same by (auto simp: gm_vals_def gm_get_def algebra_simps split: option.splits)
qed (simp add: gm_vals_def)

lemma sum_gm_del:
  fixes g :: "'v \<Rightarrow> 'a::ab_group_add"
  assumes "gm_inv m"
  shows "(\<Sum>w\<leftarrow>gm_vals (gm_del k m). g w) =
    (\<Sum>w\<leftarrow>gm_vals m. g w) - (case gm_get m k of None \<Rightarrow> 0 | Some w \<Rightarrow> g w)"
  using assms
proof (induction m)
  case (Cons p m)
  obtain k' v' where p: "p = (k', v')" by fastforce
  have none: "gm_get m k' = None"
    using Cons(2) p by (force simp: gm_inv_def gm_get_None_iff)
  then have del: "gm_del k' m = m"
    unfolding gm_del_def gm_get_None_iff by (metis (mono_tags, lifting) filter_True image_eqI)
  have "gm_inv m" using Cons(2) by (simp add: gm_inv_def)
  then show ?case
    using Cons(1) none del p by (auto simp: gm_vals_def gm_del_def gm_get_def algebra_simps)
qed (simp add: gm_vals_def gm_del_def)

lemma fold_gm_set_same:
  assumes "gm_inv m"
  shows "fold (\<lambda>(k, v) m. gm_set k v m) m [] = m"
proof -
  have get: "gm_get (fold (\<lambda>(k, v) m. gm_set k v m) xs a) = gm_get a ++ map_of (rev xs)"
    and inv: "gm_inv a \<Longrightarrow> gm_inv (fold (\<lambda>(k, v) m. gm_set k v m) xs a)" for xs a
    by (induction xs arbitrary: a) (auto simp: map_add_def fun_eq_iff split: option.splits)
  have "distinct (map fst m)" "distinct (map fst (rev m))"
    using assms gm_inv_distinct by (simp_all add: rev_map[symmetric])
  then have "map_of (rev m) k = Some v \<longleftrightarrow> map_of m k = Some v" for k v
    by (metis map_of_eq_Some_iff set_rev)
  then have "map_of (rev m) = map_of m"
    by (intro ext) (metis not_None_eq)
  then show ?thesis
    using assms by (intro gm_eqI inv) (simp_all add: get gm_get_def map_add_def fun_eq_iff split: option.split)
qed

end
