(* ===== verification/BigMath.thy ===== *)
theory BigMath
  imports DydxPrelude Complex_Main
begin

text \<open>
  The arithmetic library of the protocol: \<^verbatim>\<open>lib/big_math.go\<close>, \<^verbatim>\<open>lib/math.go\<close>,
  \<^verbatim>\<open>lib/quantums.go\<close> and the constants of \<^verbatim>\<open>lib/constants.go\<close> they use.
  \<^verbatim>\<open>*big.Int\<close> is \<^typ>\<open>int\<close> and \<^verbatim>\<open>*big.Rat\<close> is \<^typ>\<open>rat\<close> (its normalised numerator
  and denominator are those of \<^const>\<open>quotient_of\<close>); machine integers are words. In-place
  updates of a \<^verbatim>\<open>big.Int\<close> receiver become \<^theory_text>\<open>let\<close> bindings.
\<close>

section \<open>Definitions: lib/big\_math.go\<close>

definition OneMillion :: uint32 where
  "OneMillion = 1000000"

definition QuoteCurrencyAtomicResolution :: int32 where
  "QuoteCurrencyAtomicResolution = - 6"

definition BigIntOneMillion :: int where
  "BigIntOneMillion = 1000000"

definition BigU :: "'a::len word \<Rightarrow> int" where
  "BigU u = uint u"

text \<open>The body of \<^verbatim>\<open>BigDivCeil\<close> once the divisor is known to be nonzero.\<close>

definition quo_ceil :: "int \<Rightarrow> int \<Rightarrow> int" where
  "quo_ceil a b =
     (let result = a sdiv b; remainder = a smod b
      in if sgn remainder \<noteq> 0 \<and> sgn a = sgn b then result + 1 else result)"

definition BigDivCeil :: "int \<Rightarrow> int \<Rightarrow> int res" where
  "BigDivCeil a b = (if b = 0 then Inl (Panic ''division by zero'') else Inr (quo_ceil a b))"

definition BigDivFloor :: "int \<Rightarrow> int \<Rightarrow> int res" where
  "BigDivFloor a b =
     (if b = 0 then Inl (Panic ''division by zero'')
      else let result = a sdiv b; remainder = a smod b
           in Inr (if sgn remainder \<noteq> 0 \<and> sgn a \<noteq> sgn b then result - 1 else result))"

definition BigMulPpm :: "int \<Rightarrow> int \<Rightarrow> bool \<Rightarrow> int" where
  "BigMulPpm val ppm roundUp =
     (let result = val * ppm; oneMillion = BigIntOneMillion
      in if roundUp then quo_ceil result oneMillion else ediv result oneMillion)"

text \<open>The memo of powers of ten: each entry is parsed from the digits of \<open>10 ^ i\<close>.\<close>

definition dec_value :: "string \<Rightarrow> int" where
  "dec_value s = foldl (\<lambda>acc c. 10 * acc + (of_char c - 48)) 0 s"

fun warmCache_loop :: "nat \<Rightarrow> nat \<Rightarrow> string \<Rightarrow> (nat, int) gomap \<Rightarrow> (nat, int) gomap" where
  "warmCache_loop 0 i exponentString m = m"
| "warmCache_loop (Suc k) i exponentString m =
     warmCache_loop k (Suc i) (exponentString @ ''0'') (gm_set i (dec_value exponentString) m)"

definition warmCache :: "(nat, int) gomap" where
  "warmCache = warmCache_loop 100 0 ''1'' []"

definition bigPow10Memo :: "nat \<Rightarrow> int option" where
  "bigPow10Memo = gm_get warmCache"

lemma warmCache_loop_covers:
  "i \<le> e \<Longrightarrow> e < i + k \<Longrightarrow> gm_get (warmCache_loop k i s m) e \<noteq> None"
proof (induction k arbitrary: i s m)
  case 0
  then show ?case by simp
next
  case (Suc k)
  have keep: "gm_get m' e \<noteq> None \<Longrightarrow> gm_get (warmCache_loop j i' s' m') e \<noteq> None" for j i' s' m'
    by (induction j arbitrary: i' s' m') simp_all
  show ?case
  proof (cases "e = i")
    case True
    have "gm_get (gm_set i (dec_value s) m) e \<noteq> None" using True by simp
    then show ?thesis using keep by simp
  next
    case False
    then show ?thesis using Suc by simp
  qed
qed

lemma bigPow10Memo_total: "e < 100 \<Longrightarrow> bigPow10Memo e \<noteq> None"
  unfolding bigPow10Memo_def warmCache_def using warmCache_loop_covers[of 0 e 100] by simp

function bigPow10Helper :: "nat \<Rightarrow> int" where
  "bigPow10Helper exponent =
     (case bigPow10Memo exponent of
        Some m \<Rightarrow> m
      | None \<Rightarrow>
          (let e1 = exponent div 2; e2 = exponent - e1
           in bigPow10Helper e1 * bigPow10Helper e2))"
  by pat_completeness auto
termination
proof (relation "measure id", goal_cases)
  case 1
  show ?case by simp
next
  case (2 e e1 e2)
  then have "100 \<le> e" using bigPow10Memo_total by (meson linorder_not_less)
  with 2 show ?case by simp
next
  case (3 e e1 e2)
  then have "100 \<le> e" using bigPow10Memo_total by (meson linorder_not_less)
  with 3 show ?case by simp
qed

declare bigPow10Helper.simps [simp del]

text \<open>The instance of \<^verbatim>\<open>BigPow10\<close> at \<^verbatim>\<open>int32\<close>: negation and conversion happen at their widths.\<close>

definition BigPow10 :: "int32 \<Rightarrow> int \<times> bool" where
  "BigPow10 exponent =
     (let inverse = sint exponent < 0;
          absExponent = (if inverse then scast (- exponent) else scast exponent :: uint64)
      in (bigPow10Helper (unat absExponent), inverse))"

definition BigIntMulPow10 :: "int \<Rightarrow> int32 \<Rightarrow> bool \<Rightarrow> int" where
  "BigIntMulPow10 input exponent roundUp =
     (let (p10, inverse) = BigPow10 exponent
      in if inverse then (if roundUp then quo_ceil input p10 else ediv input p10)
         else p10 * input)"

definition BigIntMulPpm :: "int \<Rightarrow> uint32 \<Rightarrow> int" where
  "BigIntMulPpm input ppm = ediv (input * uint ppm) (uint OneMillion)"

definition BigMin :: "int \<Rightarrow> int \<Rightarrow> int" where
  "BigMin a b = (if cmp_int a b > 0 then b else a)"

definition BigMax :: "int \<Rightarrow> int \<Rightarrow> int" where
  "BigMax a b = (if cmp_int a b > 0 then a else b)"

definition BigRatMin :: "rat \<Rightarrow> rat \<Rightarrow> rat" where
  "BigRatMin a b = (if a > b then b else a)"

definition BigRatMulPpm :: "rat \<Rightarrow> uint32 \<Rightarrow> rat" where
  "BigRatMulPpm input ppm =
     (let (num, den) = quotient_of input
      in Fract (num * uint ppm) (den * uint OneMillion))"

definition bigGenericClamp :: "'a::linorder \<Rightarrow> 'a \<Rightarrow> 'a \<Rightarrow> 'a" where
  "bigGenericClamp n lowerBound upperBound =
     (if n < lowerBound then lowerBound else if n > upperBound then upperBound else n)"

definition BigRatClamp :: "rat \<Rightarrow> rat \<Rightarrow> rat \<Rightarrow> rat" where
  "BigRatClamp n lowerBound upperBound = bigGenericClamp n lowerBound upperBound"

definition BigIntClamp :: "int \<Rightarrow> int \<Rightarrow> int \<Rightarrow> int" where
  "BigIntClamp n lowerBound upperBound = bigGenericClamp n lowerBound upperBound"

definition BigRatRound :: "rat \<Rightarrow> bool \<Rightarrow> int" where
  "BigRatRound n roundUp =
     (let (numeratorBig, denominatorBig) = quotient_of n;
          resultBig = ediv numeratorBig denominatorBig;
          remainderBig = emod numeratorBig denominatorBig
      in if sgn remainderBig > 0 \<and> roundUp then resultBig + 1 else resultBig)"

definition BigIntRoundToMultiple :: "int \<Rightarrow> int \<Rightarrow> bool \<Rightarrow> int res" where
  "BigIntRoundToMultiple n multiple roundUp =
     (if sgn multiple \<le> 0
      then Inl (Panic ''BigIntRoundToMultiple: multiple must be positive'')
      else let result = ediv n multiple; remainder = emod n multiple;
               result = (if roundUp \<and> sgn remainder > 0 then result + 1 else result)
           in Inr (result * multiple))"

definition BigInt32Clamp :: "int \<Rightarrow> int32 \<Rightarrow> int32 \<Rightarrow> int32" where
  "BigInt32Clamp n lowerBound upperBound =
     (if cmp_int n (sint lowerBound) = -1 then lowerBound
      else if cmp_int n (sint upperBound) = 1 then upperBound
      else ucast (word_of_int n :: int64))"

definition BigUint64Clamp :: "int \<Rightarrow> uint64 \<Rightarrow> uint64 \<Rightarrow> uint64" where
  "BigUint64Clamp n lowerBound upperBound =
     (if cmp_int n (uint lowerBound) = -1 then lowerBound
      else if cmp_int n (uint upperBound) = 1 then upperBound
      else word_of_int n)"

definition MustConvertBigIntToInt32 :: "int \<Rightarrow> int32 res" where
  "MustConvertBigIntToInt32 n =
     (if cmp_int n (2 ^ 31 - 1) > 0 \<or> cmp_int n (- (2 ^ 31)) < 0
      then Inl (Panic ''MustConvertBigIntToInt32'')
      else Inr (ucast (word_of_int n :: int64)))"

section \<open>Definitions: lib/quantums.go\<close>

definition BaseToQuoteQuantums :: "int \<Rightarrow> int32 \<Rightarrow> uint64 \<Rightarrow> int32 \<Rightarrow> int" where
  "BaseToQuoteQuantums bigBaseQuantums baseCurrencyAtomicResolution priceValue priceExponent =
     (let numResult = uint priceValue * bigBaseQuantums;
          exponent = priceExponent + baseCurrencyAtomicResolution - QuoteCurrencyAtomicResolution
      in if exponent = 0 then numResult
         else let (pow10, inverse) = BigPow10 exponent
              in if inverse then numResult sdiv pow10 else numResult * pow10)"

definition QuoteToBaseQuantums :: "int \<Rightarrow> int32 \<Rightarrow> uint64 \<Rightarrow> int32 \<Rightarrow> int res" where
  "QuoteToBaseQuantums bigQuoteQuantums baseCurrencyAtomicResolution priceValue priceExponent =
     (let exponent = priceExponent + baseCurrencyAtomicResolution - QuoteCurrencyAtomicResolution;
          (p10, inverse) = BigPow10 exponent;
          result = (if inverse then bigQuoteQuantums * p10 else bigQuoteQuantums sdiv p10)
      in if priceValue = 0 then Inl (Panic ''division by zero'')
         else Inr (result sdiv uint priceValue))"

definition BigRatRoundToMultiple :: "rat \<Rightarrow> int \<Rightarrow> bool \<Rightarrow> int res" where
  "BigRatRoundToMultiple value multiple roundUp =
     (let (num, den) = quotient_of value; valueInt = ediv num den
      in if multiple = 0 then Inl (Panic ''division by zero'')
         else let remainder = emod valueInt multiple
              in Inr (if roundUp \<and> sgn remainder \<noteq> 0 then valueInt + (multiple - remainder)
                      else valueInt - remainder))"

section \<open>Definitions: lib/math.go\<close>

definition AbsDiffUint64 :: "uint64 \<Rightarrow> uint64 \<Rightarrow> uint64" where
  "AbsDiffUint64 x y = (if x > y then x - y else y - x)"

definition Int64MulPpm :: "int64 \<Rightarrow> uint32 \<Rightarrow> int64 res" where
  "Int64MulPpm x ppm =
     (let xMulPpm = BigIntMulPpm (sint x) ppm
      in if \<not> (- (2 ^ 63) \<le> xMulPpm \<and> xMulPpm < 2 ^ 63) then Inl (Panic ''IntMulPpm overflow'')
         else Inr (word_of_int xMulPpm))"

definition Uint64MulPpm :: "uint64 \<Rightarrow> uint32 \<Rightarrow> uint64 res" where
  "Uint64MulPpm x ppm =
     (let xMulPpm = BigIntMulPpm (uint x) ppm
      in if \<not> (0 \<le> xMulPpm \<and> xMulPpm < 2 ^ 64) then Inl (Panic ''UintMulPpm overflow'')
         else Inr (word_of_int xMulPpm))"

definition Uint64LinearInterpolate :: "uint64 \<Rightarrow> uint64 \<Rightarrow> uint32 \<Rightarrow> uint64 res" where
  "Uint64LinearInterpolate v0 v1 cPpm =
     (if cPpm > OneMillion then Inl (Err ''uint64 interpolation'')
      else bindr (Uint64MulPpm (AbsDiffUint64 v0 v1) cPpm) (\<lambda>absDelta.
        if v0 > v1 then Inr (v0 - absDelta) else Inr (v0 + absDelta)))"

definition AddUint32 :: "int64 \<Rightarrow> uint32 \<Rightarrow> int64 res" where
  "AddUint32 a b =
     (let sum = a + ucast b
      in if sint sum < sint a then Inl (Err ''int64 overflow'') else Inr sum)"

definition MustDivideUint32RoundUp :: "uint32 \<Rightarrow> uint32 \<Rightarrow> uint32 res" where
  "MustDivideUint32RoundUp x y =
     (let uint64X = ucast x :: uint64; uint64Y = ucast y :: uint64
      in if uint64Y = 0 then Inl (Panic ''integer divide by zero'')
         else Inr (ucast ((uint64X + uint64Y - 1) div uint64Y)))"

definition Max_go :: "'a::linorder \<Rightarrow> 'a \<Rightarrow> 'a" where
  "Max_go x y = (if x < y then y else x)"

definition Min_go :: "'a::linorder \<Rightarrow> 'a \<Rightarrow> 'a" where
  "Min_go x y = (if x > y then y else x)"

definition AbsInt32 :: "int32 \<Rightarrow> uint32" where
  "AbsInt32 i = (if sint i < 0 then 0 - i else i)"

definition AbsInt64 :: "int64 \<Rightarrow> uint64" where
  "AbsInt64 i = (if sint i < 0 then 0 - i else i)"

definition AvgInt32MaxArrayLength :: nat where
  "AvgInt32MaxArrayLength = 2 ^ 32"

definition AvgInt32 :: "int32 list \<Rightarrow> int32 res" where
  "AvgInt32 nums =
     (if length nums > AvgInt32MaxArrayLength then Inl (Panic ''AvgInt32 length'')
      else let sum = fold (\<lambda>num sum. sum + (scast num :: int64)) nums 0
           in if nums = [] then Inl (Panic ''integer divide by zero'')
              else let avg = sint sum sdiv int (length nums)
                   in if avg > 2 ^ 31 - 1 \<or> avg < - (2 ^ 31) then Inl (Panic ''AvgInt32 overflow'')
                      else Inr (word_of_int avg))"

text \<open>
  \<^verbatim>\<open>Median\<close> is generic over four integer types; the model is generic over the type's width and
  signedness, and every arithmetic operation wraps at that type.
\<close>

datatype inttype = UnsignedT nat | SignedT nat

fun wrap :: "inttype \<Rightarrow> int \<Rightarrow> int" where
  "wrap (UnsignedT w) x = x mod 2 ^ w"
| "wrap (SignedT w) x = (x + 2 ^ (w - 1)) mod 2 ^ w - 2 ^ (w - 1)"

fun in_type :: "inttype \<Rightarrow> int \<Rightarrow> bool" where
  "in_type (UnsignedT w) x = (0 \<le> x \<and> x < 2 ^ w)"
| "in_type (SignedT w) x = (0 < w \<and> - (2 ^ (w - 1)) \<le> x \<and> x < 2 ^ (w - 1))"

definition Median :: "inttype \<Rightarrow> int list \<Rightarrow> int res" where
  "Median V input =
     (let l = length input
      in if l = 0 then Inl (Err ''input cannot be empty'')
         else let inputCopy = sort input; midIdx = l div 2
              in if l mod 2 = 1 then Inr (inputCopy ! midIdx)
                 else let x = inputCopy ! (midIdx - 1); y = inputCopy ! midIdx
                      in if x \<le> 0 \<and> y \<ge> 0
                         then let sum = wrap V (x + y)
                              in Inr (wrap V (wrap V (sum sdiv 2) + wrap V (sum smod 2)))
                         else if y > 0
                         then Inr (wrap V (y - wrap V (wrap V (y - x) sdiv 2)))
                         else Inr (wrap V (x + wrap V (wrap V (y - x) sdiv 2))))"

definition MustGetMedian :: "inttype \<Rightarrow> int list \<Rightarrow> int res" where
  "MustGetMedian V input =
     (case Median V input of Inl e \<Rightarrow> Inl (Panic ''MustGetMedian'') | Inr m \<Rightarrow> Inr m)"

section \<open>Lemmas: powers, rounding and parts per million\<close>

lemma smod_eq_0_iff_dvd: "a smod b = 0 \<longleftrightarrow> b dvd (a::int)"
  by (auto simp: signed_modulo_int_def sgn_eq_0_iff dvd_eq_mod_eq_0[symmetric])

lemma sgn_minus_neq: "a \<noteq> 0 \<Longrightarrow> b \<noteq> 0 \<Longrightarrow> - sgn a = sgn b \<longleftrightarrow> sgn a \<noteq> sgn (b::int)"
  by (auto simp: sgn_if)

lemma quo_ceil_eq [big_simps]: "b \<noteq> 0 \<Longrightarrow> quo_ceil a b = - ((- a) div b)"
  using sgn_minus_neq[of a b]
  by (auto simp: quo_ceil_def Let_def divide_int_eq_signed_divide_int[of "- a"] sdiv_minus_left
      sgn_eq_0_iff smod_eq_0_iff_dvd)

lemma BigDivFloor_eq [big_simps]: "b \<noteq> 0 \<Longrightarrow> BigDivFloor a b = Inr (a div b)"
  by (auto simp: BigDivFloor_def Let_def divide_int_eq_signed_divide_int[of a]
      sgn_eq_0_iff smod_eq_0_iff_dvd)

lemma dec_value_zero: "dec_value (s @ ''0'') = 10 * dec_value s"
  by (simp add: dec_value_def)

lemma warmCache_loop_pow:
  "dec_value s = 10 ^ i \<Longrightarrow> (\<forall>e v. gm_get m e = Some v \<longrightarrow> v = 10 ^ e) \<Longrightarrow>
   gm_get (warmCache_loop k i s m) e = Some v \<Longrightarrow> v = 10 ^ e"
proof (induction k arbitrary: i s m)
  case 0
  then show ?case by simp
next
  case (Suc k)
  show ?case
    by (rule Suc.IH[of "s @ ''0''" "Suc i" "gm_set i (dec_value s) m"])
      (use Suc.prems in \<open>auto simp: dec_value_zero split: if_splits\<close>)
qed

lemma bigPow10Memo_pow: "bigPow10Memo e = Some v \<Longrightarrow> v = 10 ^ e"
  unfolding bigPow10Memo_def warmCache_def
  by (rule warmCache_loop_pow[of "''1''" 0 "[]"]) (simp_all add: dec_value_def)

lemma bigPow10Helper_eq [simp, code]: "bigPow10Helper e = 10 ^ e"
proof (induction e rule: bigPow10Helper.induct)
  case (1 e)
  show ?case
  proof (cases "bigPow10Memo e")
    case None
    then have "bigPow10Helper e = 10 ^ (e div 2) * 10 ^ (e - e div 2)"
      using 1 by (simp add: bigPow10Helper.simps[of e] Let_def)
    also have "\<dots> = 10 ^ e" by (simp flip: power_add)
    finally show ?thesis .
  next
    case (Some m)
    then show ?thesis using bigPow10Memo_pow by (simp add: bigPow10Helper.simps[of e])
  qed
qed


lemma sint_minus_int32: "sint (e::int32) \<noteq> - (2 ^ 31) \<Longrightarrow> sint (- e) = - sint e"
proof -
  assume "sint e \<noteq> - (2 ^ 31)"
  moreover have "- (2 ^ 31) \<le> sint e" "sint e < 2 ^ 31"
    using sint_ge[of e] sint_lt[of e] by simp_all
  ultimately show ?thesis
    by (simp add: sint_word_ariths signed_take_bit_int_eq_self)
qed

lemma unat_scast_int32: "0 \<le> sint (e::int32) \<Longrightarrow> unat (scast e :: uint64) = nat (sint e)"
proof -
  assume nn: "0 \<le> sint e"
  have "sint e < 2 ^ 64" using sint_lt[of e] by simp
  then have "uint (word_of_int (sint e) :: uint64) = sint e"
    using nn by (simp only: uint_word_of_int) (simp add: mod_pos_pos_trivial)
  then have "uint (scast e :: uint64) = sint e"
    by (simp only: scast_eq)
  then show ?thesis by (simp add: unat_eq_nat_uint)
qed

lemma BigPow10_eq:
  assumes "sint e \<noteq> - (2 ^ 31)"
  shows "BigPow10 e = (10 ^ nat \<bar>sint e\<bar>, sint e < 0)"
proof (cases "sint e < 0")
  case True
  with sint_minus_int32[OF assms] have "unat (scast (- e) :: uint64) = nat (- sint e)"
    by (simp add: unat_scast_int32)
  with True show ?thesis by (simp add: BigPow10_def Let_def)
next
  case False
  then have "unat (scast e :: uint64) = nat (sint e)"
    by (simp add: unat_scast_int32)
  with False show ?thesis by (simp add: BigPow10_def Let_def)
qed

lemma BigPow10_pos: "0 < fst (BigPow10 e)"
  by (simp add: BigPow10_def Let_def)

lemma BigPow10_pair: "BigPow10 e = (p, i) \<Longrightarrow> 0 < p \<and> i = (sint e < 0)"
  by (auto simp: BigPow10_def Let_def)

lemma BigMulPpm_eq [big_simps]:
  "BigMulPpm v p False = v * p div 1000000"
  "BigMulPpm v p True = - ((- (v * p)) div 1000000)"
  by (simp_all add: BigMulPpm_def BigIntOneMillion_def big_simps Let_def)

lemma BigMinMax_eq [big_simps]: "BigMin a b = min a b" "BigMax a b = max a b"
  by (simp_all add: BigMin_def BigMax_def min_def max_def)

lemma BigIntMulPpm_eq [big_simps]: "BigIntMulPpm v p = v * uint p div 1000000"
  by (simp add: BigIntMulPpm_def OneMillion_def big_simps)

text \<open>Rounding helpers agree with the rational floor and ceiling.\<close>

lemma floor_div: "floor (of_int a / of_int b :: rat) = a div b"
  by (rule floor_divide_of_int_eq)

lemma BigDivCeil_ceiling: "b \<noteq> 0 \<Longrightarrow> BigDivCeil a b = Inr (ceiling (of_int a / of_int b :: rat))"
  by (simp add: BigDivCeil_def big_simps ceiling_divide_eq_div)

lemma BigMulPpm_bounds:
  "BigMulPpm v p False * 1000000 \<le> v * p" "v * p < (BigMulPpm v p False + 1) * 1000000"
  "v * p \<le> BigMulPpm v p True * 1000000" "(BigMulPpm v p True - 1) * 1000000 < v * p"
  by (simp_all add: big_simps)

lemma BigMulPpm_nonneg: "0 \<le> v \<Longrightarrow> 0 \<le> p \<Longrightarrow> 0 \<le> BigMulPpm v p r"
  by (cases r) (simp_all add: big_simps pos_imp_zdiv_nonneg_iff div_nonpos_pos_le0)

lemma BigMulPpm_mono: "v * p \<le> w * q \<Longrightarrow> BigMulPpm v p r \<le> BigMulPpm w q r"
  by (cases r) (simp_all add: big_simps zdiv_mono1)


section \<open>Quantum conversions\<close>

lemma BaseToQuoteQuantums_minus:
  "BaseToQuoteQuantums (- q) r p e = - BaseToQuoteQuantums q r p e"
  by (simp add: BaseToQuoteQuantums_def Let_def sdiv_minus_left split: prod.split)

lemma BaseToQuoteQuantums_mono:
  assumes "0 \<le> q" "q \<le> q'"
  shows "BaseToQuoteQuantums q r p e \<le> BaseToQuoteQuantums q' r p e"
  using assms BigPow10_pos[of "e + r - QuoteCurrencyAtomicResolution"]
  by (auto simp: BaseToQuoteQuantums_def Let_def sdiv_nonneg zdiv_mono1 mult_left_mono mult_right_mono
      split: prod.split)

lemma BaseToQuoteQuantums_zero [simp]: "BaseToQuoteQuantums 0 r p e = 0"
  by (simp add: BaseToQuoteQuantums_def Let_def signed_divide_int_def split: prod.split)

lemma BaseToQuoteQuantums_nonneg: "0 \<le> q \<Longrightarrow> 0 \<le> BaseToQuoteQuantums q r p e"
  using BaseToQuoteQuantums_mono[of 0 q] by simp

lemma BaseToQuoteQuantums_abs: "BaseToQuoteQuantums \<bar>q\<bar> r p e = \<bar>BaseToQuoteQuantums q r p e\<bar>"
  using BaseToQuoteQuantums_minus[of q] BaseToQuoteQuantums_nonneg[of q r p e]
    BaseToQuoteQuantums_nonneg[of "- q" r p e]
  by (cases "0 \<le> q") (simp_all add: abs_if)

definition trunc_rat :: "rat \<Rightarrow> int" where
  "trunc_rat x = (if 0 \<le> x then floor x else ceiling x)"

lemma trunc_rat_div: "0 < b \<Longrightarrow> trunc_rat (of_int a / of_int b) = a sdiv b"
  by (cases "0 \<le> a")
    (auto simp: trunc_rat_def floor_divide_of_int_eq ceiling_divide_eq_div signed_divide_int_def
      zero_le_divide_iff sgn_if divide_less_0_iff not_le)

lemma sint_exponent:
  fixes pe ar :: int32
  assumes "- (2 ^ 31) < sint pe + sint ar + 6" "sint pe + sint ar + 6 < 2 ^ 31"
  shows "sint (pe + ar - QuoteCurrencyAtomicResolution) = sint pe + sint ar + 6"
proof -
  have "pe + ar - QuoteCurrencyAtomicResolution = word_of_int (sint pe + sint ar + 6)"
    by (simp add: QuoteCurrencyAtomicResolution_def)
  then show ?thesis
    using assms by (simp only: sint_sbintrunc') (simp add: signed_take_bit_int_eq_self)
qed

text \<open>
  Conversion of base to quote quantums is exact rational arithmetic: the result is the product of
  the size, the price and ten to the combined exponent, truncated towards zero, for every size,
  price and pair of 32-bit exponents whose combination does not overflow.
\<close>

theorem BaseToQuoteQuantums_exact:
  assumes "- (2 ^ 31) < sint pe + sint ar + 6" "sint pe + sint ar + 6 < 2 ^ 31"
  shows "BaseToQuoteQuantums q ar p pe =
    trunc_rat (of_int q * of_int (uint p) * 10 powi (sint pe + sint ar + 6))"
proof -
  let ?e = "pe + ar - QuoteCurrencyAtomicResolution" and ?E = "sint pe + sint ar + 6"
  define n where "n = nat \<bar>?E\<bar>"
  define u where "u = uint p"
  have E: "sint ?e = ?E" using assms by (rule sint_exponent)
  then have pow: "BigPow10 ?e = (10 ^ n, ?E < 0)"
    using assms BigPow10_eq[of ?e] by (simp add: n_def)
  have z: "?e = 0 \<Longrightarrow> ?E = 0" using E by simp
  have lhs: "BaseToQuoteQuantums q ar p pe = (if ?E < 0 then (q * u) sdiv 10 ^ n else q * u * 10 ^ n)"
    using z pow by (auto simp: BaseToQuoteQuantums_def Let_def n_def u_def mult.commute)
  have "of_int q * of_int u * 10 powi ?E =
      (if ?E < 0 then of_int (q * u) / of_int (10 ^ n) else of_int (q * u * 10 ^ n) :: rat)"
    by (simp add: power_int_def n_def field_simps)
  moreover have "trunc_rat (of_int x) = x" for x
    by (simp add: trunc_rat_def)
  ultimately have "trunc_rat (of_int q * of_int u * 10 powi ?E) = BaseToQuoteQuantums q ar p pe"
    unfolding lhs using trunc_rat_div[of "10 ^ n" "q * u"]
    by (cases "?E < 0") (simp_all only: if_True if_False simp_thms zero_less_power zero_less_numeral)
  then show ?thesis unfolding u_def by (rule sym)
qed


theorem BaseToQuoteQuantums_exact_witness:
  "BaseToQuoteQuantums (-15) (-8) 123 (-2) = trunc_rat (- 1845 / 10000)"
proof -
  have "BaseToQuoteQuantums (-15) (-8) 123 (-2) =
      trunc_rat (of_int (-15) * of_int (uint (123 :: uint64)) * 10 powi (sint (-2 :: int32) + sint (-8 :: int32) + 6))"
    by (rule BaseToQuoteQuantums_exact) simp_all
  then show ?thesis by (simp add: power_int_def power_divide)
qed

lemma sdiv_sdiv: "0 < a \<Longrightarrow> 0 < b \<Longrightarrow> x sdiv a sdiv b = x sdiv (a * (b::int))"
proof -
  assume ab: "0 < a" "0 < b"
  have nn: "y sdiv a sdiv b = y sdiv (a * b)" if "0 \<le> y" for y
    using that ab by (simp add: sdiv_nonneg pos_imp_zdiv_nonneg_iff zdiv_zmult2_eq)
  show ?thesis
    using nn[of x] nn[of "- x"] by (cases "0 \<le> x") (simp_all add: sdiv_minus_left)
qed

text \<open>The two divisions of \<^verbatim>\<open>QuoteToBaseQuantums\<close> amount to one.\<close>

lemma QuoteToBaseQuantums_eq:
  assumes "p \<noteq> 0" "BigPow10 (e + r - QuoteCurrencyAtomicResolution) = (p10, ivs)"
  shows "QuoteToBaseQuantums q r p e =
    Inr (if ivs then (q * p10) sdiv uint p else q sdiv (p10 * uint p))"
  using assms BigPow10_pair[of "e + r - QuoteCurrencyAtomicResolution" p10 ivs]
  by (simp add: QuoteToBaseQuantums_def Let_def sdiv_sdiv word_neq_0_conv word_less_def)

text \<open>
  Converting base quantums to quote quantums and back at the same non-zero price never gains
  value: the result is between zero and the original size, and equals it when the combined
  exponent is not negative.
\<close>

theorem QuoteToBase_BaseToQuote:
  assumes "p \<noteq> 0" "0 \<le> q"
  shows "\<exists>q'. QuoteToBaseQuantums (BaseToQuoteQuantums q r p e) r p e = Inr q' \<and> 0 \<le> q' \<and> q' \<le> q \<and>
    (0 \<le> sint (e + r - QuoteCurrencyAtomicResolution) \<longrightarrow> q' = q)"
proof -
  let ?e = "e + r - QuoteCurrencyAtomicResolution"
  obtain p10 ivs where pow: "BigPow10 ?e = (p10, ivs)" by fastforce
  then have p10: "0 < p10" and ivs: "ivs = (sint ?e < 0)" using BigPow10_pair by blast+
  have up: "0 < uint p" using assms(1) by (simp add: word_neq_0_conv word_less_def)
  show ?thesis
  proof (cases ivs)
    case True
    with ivs have "?e \<noteq> 0" by auto
    with True pow have b2q: "BaseToQuoteQuantums q r p e = (uint p * q) div p10"
      using assms(2) p10 by (simp add: BaseToQuoteQuantums_def Let_def sdiv_nonneg)
    let ?q' = "(uint p * q div p10) * p10 div uint p"
    have nn: "0 \<le> (uint p * q div p10) * p10"
      using assms(2) p10 by (simp add: pos_imp_zdiv_nonneg_iff)
    have "(uint p * q div p10) * p10 \<le> uint p * q"
      using div_mult_mod_eq[of "uint p * q" p10] pos_mod_sign[OF p10, of "uint p * q"] by linarith
    then have "?q' \<le> (uint p * q) div uint p" using up by (intro zdiv_mono1) auto
    then have "?q' \<le> q" using up by simp
    moreover have "0 \<le> ?q'" using nn up by (simp add: pos_imp_zdiv_nonneg_iff)
    moreover have "QuoteToBaseQuantums (BaseToQuoteQuantums q r p e) r p e = Inr ?q'"
      using QuoteToBaseQuantums_eq[OF assms(1) pow] True nn b2q by (simp add: sdiv_nonneg)
    ultimately show ?thesis using True ivs by simp
  next
    case False
    have one: "?e = 0 \<Longrightarrow> p10 = 1" using pow BigPow10_eq[of 0] by simp
    have b2q: "BaseToQuoteQuantums q r p e = uint p * q * p10"
      using False pow one by (auto simp: BaseToQuoteQuantums_def Let_def)
    have "(uint p * q * p10) sdiv (p10 * uint p) = q"
      using assms(2) p10 up by (simp add: sdiv_nonneg mult.commute mult.left_commute)
    then show ?thesis
      using QuoteToBaseQuantums_eq[OF assms(1) pow] False assms(2) b2q by simp
  qed
qed


theorem QuoteToBase_BaseToQuote_witness:
  "\<exists>q'. QuoteToBaseQuantums (BaseToQuoteQuantums 19 (-8) 3 0) (-8) 3 0 = Inr q' \<and> 0 \<le> q' \<and> q' \<le> 19"
  using QuoteToBase_BaseToQuote[of 3 19 "-8" 0] by auto

section \<open>Medians and interpolation\<close>

lemma wrap_id: "in_type V x \<Longrightarrow> wrap V x = x"
proof (cases V)
  case (SignedT w)
  assume "in_type V x"
  with SignedT obtain k where "w = Suc k" "- (2 ^ k) \<le> x" "x < 2 ^ k"
    by (cases w) auto
  with SignedT show ?thesis by (simp add: mod_pos_pos_trivial)
qed (simp add: mod_pos_pos_trivial)

lemma in_type_between: "in_type V x \<Longrightarrow> in_type V y \<Longrightarrow> x \<le> z \<Longrightarrow> z \<le> y \<Longrightarrow> in_type V z"
  by (cases V) auto

lemma in_type_0: "in_type V x \<Longrightarrow> in_type V 0"
  by (cases V) auto

lemma sort_nth_in: "i < length xs \<Longrightarrow> sort xs ! i \<in> set xs"
  by (metis length_sort nth_mem set_sort)

definition avg_away :: "int \<Rightarrow> int \<Rightarrow> int" where
  "avg_away x y = (if 0 \<le> x + y then (x + y + 1) div 2 else - ((- (x + y) + 1) div 2))"

definition median_spec :: "int list \<Rightarrow> int" where
  "median_spec xs = (let s = sort xs; m = length xs div 2
     in if odd (length xs) then s ! m else avg_away (s ! (m - 1)) (s ! m))"

lemma half_in_type:
  assumes "in_type V x" "in_type V y" "x \<le> y" "0 < x \<or> y < 0"
  shows "in_type V (y - x)" "in_type V ((y - x) div 2)"
proof -
  show a: "in_type V (y - x)"
    using assms by (cases V) auto
  have "0 \<le> (y - x) div 2" "(y - x) div 2 \<le> y - x" using assms(3) by auto
  then show "in_type V ((y - x) div 2)"
    using in_type_between[OF in_type_0[OF a] a] by simp
qed

lemma sdiv2_smod2: "(a::int) sdiv 2 + a smod 2 = (if 0 \<le> a then (a + 1) div 2 else - ((- a + 1) div 2))"
  by (auto simp: signed_divide_int_def signed_modulo_int_def sgn_if) presburger+

lemma in_type_toward0:
  "in_type V a \<Longrightarrow> 0 \<le> z \<and> z \<le> a \<or> a \<le> z \<and> z \<le> 0 \<Longrightarrow> in_type V z"
  using in_type_between in_type_0 by blast

lemma sdiv2_cases: "(a::int) sdiv 2 = (if 0 \<le> a then a div 2 else - ((- a) div 2))"
  "(a::int) smod 2 = (if 0 \<le> a then a mod 2 else - ((- a) mod 2))"
  by (auto simp: signed_divide_int_def signed_modulo_int_def sgn_if)

lemma halves_in_type:
  assumes "in_type V a"
  shows "in_type V (a sdiv 2)" "in_type V (a smod 2)" "in_type V (a sdiv 2 + a smod 2)"
proof -
  have b: "0 \<le> z div 2 \<and> z div 2 \<le> z" "0 \<le> z mod 2 \<and> z mod 2 \<le> z"
    "0 \<le> z div 2 + z mod 2 \<and> z div 2 + z mod 2 \<le> z" if "0 \<le> z" for z :: int
    using that by presburger+
  define z where "z = \<bar>a\<bar>"
  have e: "a sdiv 2 = sgn a * (z div 2)" "a smod 2 = sgn a * (z mod 2)"
    by (simp_all add: signed_divide_int_def signed_modulo_int_def z_def)
  have sum: "a sdiv 2 + a smod 2 = sgn a * (z div 2 + z mod 2)"
    unfolding e by (simp add: distrib_left)
  have "in_type V (sgn a * y)" if "0 \<le> y \<and> y \<le> z" for y
    using that by (intro in_type_toward0[OF assms]) (auto simp: sgn_if z_def)
  moreover have "0 \<le> z" by (simp add: z_def)
  ultimately show "in_type V (a sdiv 2)" "in_type V (a smod 2)" "in_type V (a sdiv 2 + a smod 2)"
    unfolding sum unfolding e using b[of z] by blast+
qed

text \<open>
  The median of a non-empty list of machine integers of any width and signedness is computed
  without overflow: it is the middle element, or the mean of the two middle elements rounded away
  from zero, although the additions and subtractions inside wrap around.
\<close>

theorem Median_exact:
  assumes "xs \<noteq> []" "list_all (in_type V) xs"
  shows "Median V xs = Inr (median_spec xs)"
proof (cases "odd (length xs)")
  case True
  then show ?thesis using assms by (simp add: Median_def median_spec_def Let_def odd_iff_mod_2_eq_one)
next
  case False
  define x where "x = sort xs ! (length xs div 2 - 1)"
  define y where "y = sort xs ! (length xs div 2)"
  have len: "length xs div 2 < length xs" "length xs div 2 - 1 < length xs"
    using assms(1) by (simp_all add: div_less_dividend less_imp_diff_less)
  then have x: "in_type V x" and y: "in_type V y"
    using assms(2) sort_nth_in[of _ xs] by (simp_all add: x_def y_def list_all_iff)
  have xy: "x \<le> y"
    unfolding x_def y_def using len by (intro sorted_nth_mono) simp_all
  have med: "median_spec xs = avg_away x y"
    using False by (simp add: median_spec_def Let_def x_def y_def)
  have unf: "Median V xs = Inr (if x \<le> 0 \<and> y \<ge> 0
      then let sum = wrap V (x + y) in wrap V (wrap V (sum sdiv 2) + wrap V (sum smod 2))
      else if y > 0 then wrap V (y - wrap V (wrap V (y - x) sdiv 2))
      else wrap V (x + wrap V (wrap V (y - x) sdiv 2)))"
    using False assms(1) by (simp add: Median_def Let_def x_def y_def even_iff_mod_2_eq_zero)
  consider (mixed) "x \<le> 0 \<and> y \<ge> 0" | (pos) "0 < x" | (neg) "y < 0" by linarith
  then show ?thesis
  proof cases
    case mixed
    then have "in_type V (x + y)" using in_type_between[OF x y] by simp
    moreover have e: "(x + y) sdiv 2 + (x + y) smod 2 = avg_away x y"
      by (simp add: sdiv2_smod2 avg_away_def)
    moreover note halves_in_type(3)[of V "x + y"]
    ultimately show ?thesis
      using mixed by (simp add: unf med wrap_id halves_in_type(1,2))
  next
    case pos
    have "in_type V (y - (y - x) div 2)"
      using pos xy by (intro in_type_between[OF x y]) auto
    moreover have "y - (y - x) div 2 = (x + y + 1) div 2" by presburger
    ultimately show ?thesis
      using pos xy half_in_type[OF x y xy]
      by (simp add: unf med wrap_id sdiv_nonneg avg_away_def)
  next
    case neg
    have "in_type V (x + (y - x) div 2)"
      using neg xy by (intro in_type_between[OF x y]) auto
    moreover have "x + (y - x) div 2 = - ((- (x + y) + 1) div 2)" by presburger
    ultimately show ?thesis
      using neg xy half_in_type[OF x y xy]
      by (simp add: unf med wrap_id sdiv_nonneg avg_away_def)
  qed
qed

theorem Median_exact_witness:
  "([2 ^ 63 - 1, -3, 2 ^ 63 - 2, -4] :: int list) \<noteq> [] \<and>
   list_all (in_type (SignedT 64)) [2 ^ 63 - 1, -3, 2 ^ 63 - 2, -4] \<and>
   Median (SignedT 64) [2 ^ 63 - 1, -3, 2 ^ 63 - 2, -4] = Inr 4611686018427387902"
proof -
  have h: "list_all (in_type (SignedT 64)) [2 ^ 63 - 1, -3, 2 ^ 63 - 2, -4]" by simp
  have m: "median_spec [2 ^ 63 - 1, -3, 2 ^ 63 - 2, -4] = 4611686018427387902" by code_simp
  show ?thesis using Median_exact[OF _ h] h m by simp
qed

lemma BigMul_le: "0 \<le> x \<Longrightarrow> 0 \<le> p \<Longrightarrow> p \<le> 1000000 \<Longrightarrow> x * p div 1000000 \<le> (x::int)"
  using zdiv_mono1[of "x * p" "x * 1000000" 1000000] by (simp add: mult_left_mono)

theorem Uint64LinearInterpolate_between:
  "Uint64LinearInterpolate v0 v1 c =
     (if uint c > 1000000 then Inl (Err ''uint64 interpolation'')
      else Inr (word_of_int (if v0 > v1 then uint v0 - (uint v0 - uint v1) * uint c div 1000000
                     else uint v0 + (uint v1 - uint v0) * uint c div 1000000)))"
proof (cases "uint c > 1000000")
  case True
  then show ?thesis by (simp add: Uint64LinearInterpolate_def OneMillion_def word_less_def)
next
  case False
  define d where "d = \<bar>uint v0 - uint v1\<bar>"
  have diff: "uint (AbsDiffUint64 v0 v1) = d"
    by (auto simp: AbsDiffUint64_def d_def word_less_def uint_minus_simple_alt[THEN iffD1] word_le_def)
  have "0 \<le> d" "d < 2 ^ 64" using diff uint_bounded[of "AbsDiffUint64 v0 v1"] by (simp_all add: d_def)
  then have "0 \<le> d * uint c div 1000000" "d * uint c div 1000000 < 2 ^ 64"
    using False BigMul_le[of d "uint c"] by (simp_all add: pos_imp_zdiv_nonneg_iff)
  then have mul: "Uint64MulPpm (AbsDiffUint64 v0 v1) c = Inr (word_of_int (d * uint c div 1000000))"
    by (simp add: Uint64MulPpm_def big_simps diff)
  show ?thesis
    using False mul
    by (auto simp: Uint64LinearInterpolate_def OneMillion_def word_less_def d_def)
qed


section \<open>Fixed-width helpers\<close>

lemma uint_AbsInt32: "uint (AbsInt32 i) = \<bar>sint i\<bar>"
proof (cases "sint i < 0")
  case True
  have r: "- (2 ^ 31) \<le> sint i" using sint_ge[of i] by simp
  have "- i = word_of_int (- sint i)" by simp
  then have "uint (- i) = (- sint i) mod 2 ^ 32"
    by (simp only: uint_word_of_int) simp
  with True r show ?thesis by (simp add: AbsInt32_def mod_pos_pos_trivial)
next
  case False
  moreover have "sint i < 2 ^ 32" using sint_lt[of i] by simp
  ultimately have "uint i = sint i" by (simp add: uint_sint take_bit_int_eq_self)
  with False show ?thesis by (simp add: AbsInt32_def)
qed

theorem AddUint32_correct:
  "AddUint32 a b = (if sint a + uint b < 2 ^ 63 then Inr (word_of_int (sint a + uint b))
     else Inl (Err ''int64 overflow''))"
proof -
  have ra: "- (2 ^ 63) \<le> sint a" "sint a < 2 ^ 63"
    using sint_ge[of a] sint_lt[of a] by simp_all
  have rb: "0 \<le> uint b" "uint b < 2 ^ 32" using uint_bounded[of b] by simp_all
  have sum: "a + ucast b = (word_of_int (sint a + uint b) :: int64)" by simp
  have "sint (a + ucast b) = (sint a + uint b + 2 ^ 63) mod 2 ^ 64 - 2 ^ 63"
    unfolding sum by (simp only: int_word_sint) simp
  moreover have "(sint a + uint b + 2 ^ 63) mod 2 ^ 64 =
      (if sint a + uint b < 2 ^ 63 then sint a + uint b + 2 ^ 63 else sint a + uint b + 2 ^ 63 - 2 ^ 64)"
  proof (cases "sint a + uint b < 2 ^ 63")
    case True
    have "0 \<le> sint a + uint b + 2 ^ 63" using ra(1) rb(1) by linarith
    with True show ?thesis by (simp add: mod_pos_pos_trivial)
  next
    case False
    have "(sint a + uint b + 2 ^ 63) mod 2 ^ 64 = sint a + uint b + 2 ^ 63 - 2 ^ 64"
      by (rule int_mod_pos_eq[where q = 1]) (use False ra rb in simp_all)
    with False show ?thesis by simp
  qed
  ultimately have st: "sint (a + ucast b) < sint a \<longleftrightarrow> \<not> sint a + uint b < 2 ^ 63"
    using ra rb by simp
  show ?thesis
  proof (cases "sint a + uint b < 2 ^ 63")
    case True
    then have "AddUint32 a b = Inr (a + ucast b)" using st by (simp add: AddUint32_def Let_def)
    with True show ?thesis by (simp only: sum if_True)
  next
    case False
    then show ?thesis using st by (simp add: AddUint32_def Let_def)
  qed
qed

lemma div_round_up: "0 < (y::int) \<Longrightarrow> (x + y - 1) div y = - ((- x) div y)"
proof -
  assume y: "0 < y"
  have e: "x mod y + y * (x div y) = x" by simp
  have m: "0 \<le> x mod y" "x mod y < y" using y by simp_all
  have "(x + y - 1) div y = x div y + (if x mod y = 0 then 0 else 1)"
  proof (cases "x mod y = 0")
    case True
    have "(x + y - 1) div y = (y - 1 + y * (x div y)) div y" using e True by (simp add: algebra_simps)
    then show ?thesis using y True by (simp add: div_pos_pos_trivial)
  next
    case False
    have "(x + y - 1) div y = ((x mod y - 1) + y * (x div y + 1)) div y"
      using e by (simp add: algebra_simps)
    also have "\<dots> = (x mod y - 1) div y + (x div y + 1)" using y by (subst div_mult_self2) auto
    finally show ?thesis using False m y by (simp add: div_pos_pos_trivial)
  qed
  then show ?thesis using y by (simp add: zdiv_zminus1_eq_if)
qed

theorem MustDivideUint32RoundUp_correct:
  assumes "y \<noteq> 0"
  shows "MustDivideUint32RoundUp x y = Inr (word_of_int (- ((- uint x) div uint y)))"
proof -
  have b: "0 \<le> uint x" "uint x < 2 ^ 32" "0 < uint y" "uint y < 2 ^ 32"
    using uint_bounded[of x] uint_bounded[of y] assms by (simp_all add: word_neq_0_conv word_less_def)
  have nn: "0 \<le> uint x + uint y - 1" using b by linarith
  have u: "uint (ucast x :: uint64) = uint x" "uint (ucast y :: uint64) = uint y"
    using b by (simp_all add: unsigned_ucast_eq take_bit_int_eq_self)
  have "ucast x + ucast y - 1 = (word_of_int (uint x + uint y - 1) :: uint64)"
    by simp
  then have "uint (ucast x + ucast y - 1 :: uint64) = uint x + uint y - 1"
    using nn b(2,4) by (simp only: uint_word_of_int) (simp add: mod_pos_pos_trivial)
  then have "uint ((ucast x + ucast y - 1) div ucast y :: uint64) = - ((- uint x) div uint y)"
    by (simp add: uint_div u div_round_up b)
  then have "(ucast ((ucast x + ucast y - 1) div ucast y :: uint64) :: uint32) =
      word_of_int (- ((- uint x) div uint y))"
    by (metis ucast_eq)
  moreover have "(ucast y :: uint64) \<noteq> 0" using u(2) b(3) by auto
  ultimately show ?thesis by (simp add: MustDivideUint32RoundUp_def)
qed

lemma AvgInt32_sum:
  "fold (\<lambda>num sum. sum + (scast num :: int64)) nums s =
   word_of_int (sint s + sum_list (map sint nums))"
proof (induction nums arbitrary: s)
  case Nil
  then show ?case by simp
next
  case (Cons x xs)
  show ?case unfolding fold_simps comp_def Cons.IH
    by (simp add: signed_eq_0_iff)
qed

lemma sum_list_sint_bounds:
  "- (2 ^ 31) * int (length nums) \<le> sum_list (map sint (nums :: int32 list))"
  "sum_list (map sint nums) \<le> (2 ^ 31 - 1) * int (length nums)"
proof (induction nums)
  case (Cons x xs)
  have "- (2 ^ 31) \<le> sint x" "sint x \<le> 2 ^ 31 - 1" using sint_ge[of x] sint_lt[of x] by simp_all
  with Cons show "- (2 ^ 31) * int (length (x # xs)) \<le> sum_list (map sint (x # xs))"
    "sum_list (map sint (x # xs)) \<le> (2 ^ 31 - 1) * int (length (x # xs))"
    by (simp_all add: algebra_simps)
qed simp_all

lemma sdiv_bounds:
  assumes "0 < (n::int)" "- m * n \<le> a" "a \<le> M * n" "0 \<le> m" "0 \<le> M"
  shows "- m \<le> a sdiv n \<and> a sdiv n \<le> M"
proof (cases "0 \<le> a")
  case True
  have "a div n \<le> M" using zdiv_mono1[OF assms(3,1)] assms(1) by simp
  moreover have "0 \<le> a div n" using True assms(1) by (simp add: pos_imp_zdiv_nonneg_iff)
  ultimately show ?thesis using True assms(1,4) by (simp add: sdiv_nonneg)
next
  case False
  have "(- a) div n \<le> m" using zdiv_mono1[of "- a" "m * n" n] assms by simp
  moreover have "a sdiv n = - ((- a) div n)"
    using False assms(1) by (simp add: signed_divide_int_def sgn_if)
  moreover have "0 \<le> (- a) div n" using False assms(1) by (simp add: pos_imp_zdiv_nonneg_iff)
  ultimately show ?thesis using assms(5) by linarith
qed

text \<open>
  The average of at most \<open>2 ^ 32\<close> 32-bit integers, accumulated in 64 bits, neither overflows nor
  panics and is the truncated mean.
\<close>

theorem AvgInt32_correct:
  assumes "nums \<noteq> []" "length nums \<le> 2 ^ 32"
  shows "\<exists>r. AvgInt32 nums = Inr r \<and> sint r = sum_list (map sint nums) sdiv int (length nums)"
proof -
  let ?S = "sum_list (map sint nums)" and ?n = "int (length nums)"
  have n: "0 < ?n" "?n \<le> 2 ^ 32" using assms by simp_all
  have S: "- (2 ^ 31) * ?n \<le> ?S" "?S \<le> (2 ^ 31 - 1) * ?n" by (rule sum_list_sint_bounds)+
  have "- (2 ^ 63) \<le> ?S" using S n by simp
  moreover have "?S < 2 ^ 63" using S n by simp
  ultimately have sum: "sint (fold (\<lambda>num sum. sum + (scast num :: int64)) nums 0) = ?S"
    unfolding AvgInt32_sum by (simp only: int_word_sint) (simp add: mod_pos_pos_trivial)
  have avg: "- (2 ^ 31) \<le> ?S sdiv ?n" "?S sdiv ?n \<le> 2 ^ 31 - 1"
    using sdiv_bounds[OF n(1) S] by simp_all
  then have "sint (word_of_int (?S sdiv ?n) :: int32) = ?S sdiv ?n"
    by (simp only: int_word_sint) (simp add: mod_pos_pos_trivial)
  then show ?thesis
    using assms avg sum by (auto simp: AvgInt32_def AvgInt32MaxArrayLength_def Let_def)
qed

theorem AvgInt32_correct_witness: "\<exists>r. AvgInt32 [2147483647, 2147483647, -1] = Inr r \<and> sint r = 1431655764"
  using AvgInt32_correct[of "[2147483647, 2147483647, -1]"] by (simp add: signed_divide_int_def)

lemma BigIntRoundToMultiple_spec:
  assumes "0 < m"
  shows "\<exists>r. BigIntRoundToMultiple n m up = Inr r \<and> m dvd r \<and>
    (if up then n \<le> r \<and> r < n + m else r \<le> n \<and> n < r + m)"
proof -
  have md: "0 \<le> n mod m" "n mod m < m" using assms by simp_all
  have em: "emod n m = n mod m" using assms by (simp add: emod_def ediv_pos minus_mult_div_eq_mod)
  have split: "m * (n div m) = n - n mod m" by (simp add: minus_mod_eq_mult_div)
  have "BigIntRoundToMultiple n m up =
      Inr (m * (n div m) + (if up \<and> 0 < n mod m then m else 0))"
    using assms by (simp add: BigIntRoundToMultiple_def Let_def em ediv_pos sgn_if algebra_simps)
  moreover have "m dvd m * (n div m) + (if up \<and> 0 < n mod m then m else 0)" by simp
  ultimately show ?thesis using md split by auto
qed

lemma uint_gt_0_iff: "0 < uint w \<longleftrightarrow> w \<noteq> 0"
  by (metis less_le uint_0_iff uint_ge_0)

lemma div_step:
  fixes n m :: int
  assumes "0 < m"
  shows "n div m * m \<le> n" "n < n div m * m + m"
  using pos_mod_bound[of m n] pos_mod_sign[of m n] div_mult_mod_eq[of n m] assms by linarith+

lemma ceil_div_bounds:
  fixes a b :: int
  assumes "0 \<le> a" "0 < b"
  shows "0 \<le> ceiling (of_int a / of_int b :: rat)" "ceiling (of_int a / of_int b :: rat) \<le> a"
proof -
  have "0 \<le> (of_int a :: rat) / of_int b" using assms by simp
  then show "0 \<le> ceiling (of_int a / of_int b :: rat)" by linarith
  have "(of_int a :: rat) / of_int b \<le> of_int a" using assms by (simp add: divide_le_eq mult_le_cancel_left1)
  then show "ceiling (of_int a / of_int b :: rat) \<le> a" by (simp add: ceiling_le_iff)
qed

lemma BigRatRound_floor: "BigRatRound x False = \<lfloor>x\<rfloor>"
  using quotient_of_denom_pos'[of x] by (auto simp: BigRatRound_def rat_floor_code Let_def ediv_pos split: prod.splits)

lemma BigRatRound_ceiling: "BigRatRound x True = \<lceil>x\<rceil>"
proof -
  obtain n d where q: "quotient_of x = (n, d)" by (cases "quotient_of x")
  have d: "0 < d" using quotient_of_denom_pos[OF q] .
  have x: "x = of_int n / of_int d" using quotient_of_div[OF q] .
  have "emod n d = n mod d" using d by (simp add: emod_def ediv_pos minus_mult_div_eq_mod)
  then have "BigRatRound x True = (if 0 < n mod d then n div d + 1 else n div d)"
    using d by (simp add: BigRatRound_def q ediv_pos)
  moreover have "\<lceil>x\<rceil> = - (- n div d)" unfolding x by (simp add: ceiling_divide_eq_div)
  moreover have "- (- n div d) = (if 0 < n mod d then n div d + 1 else n div d)"
    using d zdiv_zminus1_eq_if[of d n] pos_mod_sign[OF d, of n] by (auto simp: less_le)
  ultimately show ?thesis by simp
qed

end
