(* ===== verification/Margin.thy ===== *)
theory Margin
  imports BigMath "HOL-Library.Product_Lexorder"
begin

text \<open>
  \<^verbatim>\<open>lib/margin/risk.go\<close>: net collateral and margin requirements of an account, the
  collateralisation predicates and the risk comparison. A nil \<^verbatim>\<open>*big.Int\<close> field is identified
  with 0, as \<^verbatim>\<open>mustExist\<close> does.
\<close>

section \<open>Definitions\<close>

record Risk =
  MMR :: int
  IMR :: int
  NC :: int

definition ZeroRisk :: Risk where
  "ZeroRisk = \<lparr>MMR = 0, IMR = 0, NC = 0\<rparr>"

definition AddInPlace :: "Risk \<Rightarrow> Risk \<Rightarrow> Risk" where
  "AddInPlace a b = \<lparr>MMR = MMR a + MMR b, IMR = IMR a + IMR b, NC = NC a + NC b\<rparr>"

definition IsInitialCollateralized :: "Risk \<Rightarrow> bool" where
  "IsInitialCollateralized a = (cmp_int (NC a) (IMR a) \<ge> 0)"

definition IsMaintenanceCollateralized :: "Risk \<Rightarrow> bool" where
  "IsMaintenanceCollateralized a = (cmp_int (NC a) (MMR a) \<ge> 0)"

definition IsLiquidatable :: "Risk \<Rightarrow> bool" where
  "IsLiquidatable a = (sgn (MMR a) > 0 \<and> cmp_int (MMR a) (NC a) > 0)"

definition Risk_Cmp :: "Risk \<Rightarrow> Risk \<Rightarrow> int" where
  "Risk_Cmp a b =
     (let aNcMultBMmr = NC a * MMR b;
          bNcMultAMmr = NC b * MMR a;
          result = cmp_int bNcMultAMmr aNcMultBMmr
      in if result = 0
         then if sgn (MMR a) = 0 \<and> sgn (MMR b) = 0 then cmp_int (NC b) (NC a)
              else cmp_int (MMR a) (MMR b)
         else result)"

section \<open>The risk order\<close>

text \<open>
  The order the comparison computes: accounts without positions and with non-negative collateral
  are the safest (the more collateral the safer), then the accounts with positions by decreasing
  collateral ratio and, at equal ratios, by increasing maintenance margin, and last the accounts
  without positions whose collateral is negative.
\<close>

definition risk_key :: "Risk \<Rightarrow> nat \<times> rat \<times> int" where
  "risk_key r =
     (if MMR r = 0 then (if 0 \<le> NC r then 0 else 2, of_int (- NC r), 0)
      else (1, of_int (- NC r) / of_int (MMR r), MMR r))"

definition more_risky :: "Risk \<Rightarrow> Risk \<Rightarrow> bool" where
  "more_risky a b = (Risk_Cmp a b > 0)"

definition wf_risk :: "Risk \<Rightarrow> bool" where
  "wf_risk r = (0 \<le> MMR r)"

lemma AddInPlace_sel [simp]:
  "MMR (AddInPlace a b) = MMR a + MMR b" "IMR (AddInPlace a b) = IMR a + IMR b"
  "NC (AddInPlace a b) = NC a + NC b"
  by (simp_all add: AddInPlace_def)

lemma ZeroRisk_sel [simp]: "MMR ZeroRisk = 0" "IMR ZeroRisk = 0" "NC ZeroRisk = 0"
  by (simp_all add: ZeroRisk_def)

lemma collateralized_iff [simp]:
  "IsInitialCollateralized a \<longleftrightarrow> IMR a \<le> NC a"
  "IsMaintenanceCollateralized a \<longleftrightarrow> MMR a \<le> NC a"
  "IsLiquidatable a \<longleftrightarrow> 0 < MMR a \<and> NC a < MMR a"
  by (auto simp: IsInitialCollateralized_def IsMaintenanceCollateralized_def IsLiquidatable_def
      cmp_int_def sgn_if)

lemma ratio_less_iff:
  fixes a b m n :: int
  assumes "0 < m" "0 < n"
  shows "(of_int (- a) / of_int m < (of_int (- b) / of_int n :: rat)) \<longleftrightarrow> b * m < a * n"
proof -
  have "(of_int (- a) / of_int m < (of_int (- b) / of_int n :: rat)) \<longleftrightarrow>
      (of_int (- a * n) :: rat) < of_int (- b * m)"
    using assms by (simp add: divide_less_eq less_divide_eq field_simps)
  also have "\<dots> \<longleftrightarrow> b * m < a * n" by (subst of_int_less_iff) simp
  finally show ?thesis .
qed

lemma ratio_eq_iff:
  fixes a b m n :: int
  assumes "0 < m" "0 < n"
  shows "(of_int (- a) / of_int m = (of_int (- b) / of_int n :: rat)) \<longleftrightarrow> b * m = a * n"
  using ratio_less_iff[of m n a b] ratio_less_iff[of n m b a] assms
  by (metis linorder_neq_iff order_less_irrefl)

text \<open>On risks with a non-negative maintenance requirement the comparison is the order of the keys.\<close>

lemma Risk_Cmp_key:
  assumes "wf_risk a" "wf_risk b"
  shows "Risk_Cmp a b =
    (if risk_key b < risk_key a then 1 else if risk_key a = risk_key b then 0 else -1)"
proof -
  have nn: "0 \<le> MMR a" "0 \<le> MMR b" using assms by (simp_all add: wf_risk_def)
  consider "MMR a = 0" "MMR b = 0" | "MMR a = 0" "0 < MMR b" | "0 < MMR a" "MMR b = 0"
    | "0 < MMR a" "0 < MMR b" using nn by linarith
  then show ?thesis
  proof cases
    case 4
    then show ?thesis
      using ratio_less_iff[of "MMR b" "MMR a" "NC b" "NC a"] ratio_eq_iff[of "MMR a" "MMR b" "NC a" "NC b"]
      by (auto simp: Risk_Cmp_def risk_key_def Let_def cmp_int_def sgn_if mult.commute)
  qed (auto simp: Risk_Cmp_def risk_key_def Let_def cmp_int_def sgn_if mult_less_0_iff
      zero_less_mult_iff)
qed

lemma risk_key_inj:
  assumes "wf_risk a" "wf_risk b"
  shows "risk_key a = risk_key b \<longleftrightarrow> MMR a = MMR b \<and> NC a = NC b"
  using assms ratio_eq_iff[of "MMR a" "MMR b" "NC a" "NC b"]
  by (auto simp: risk_key_def wf_risk_def split: if_splits)

lemma more_risky_key: "wf_risk a \<Longrightarrow> wf_risk b \<Longrightarrow> more_risky a b \<longleftrightarrow> risk_key b < risk_key a"
  by (simp add: more_risky_def Risk_Cmp_key)

text \<open>
  C30: On risks with non-negative maintenance margin, \<^verbatim>\<open>Risk.Cmp\<close> is a strict total order up to
  equality of margin and collateral: it is antisymmetric, it returns 0 exactly for equal
  (maintenance margin, net collateral) pairs, and "more risky" is transitive. The cross
  multiplication therefore sorts accounts consistently, including those with zero margin.
\<close>

theorem Risk_Cmp_total_order:
  assumes "wf_risk a" "wf_risk b" "wf_risk c"
  shows "Risk_Cmp a b = - Risk_Cmp b a
    \<and> (Risk_Cmp a b = 0 \<longleftrightarrow> MMR a = MMR b \<and> NC a = NC b)
    \<and> (Risk_Cmp a b > 0 \<and> Risk_Cmp b c > 0 \<longrightarrow> Risk_Cmp a c > 0)"
  using assms risk_key_inj[of a b] by (auto simp: Risk_Cmp_key)

theorem Risk_Cmp_total_order_witness:
  "Risk_Cmp \<lparr>MMR = 0, IMR = 0, NC = -1\<rparr> \<lparr>MMR = 10, IMR = 20, NC = 5\<rparr> =
     - Risk_Cmp \<lparr>MMR = 10, IMR = 20, NC = 5\<rparr> \<lparr>MMR = 0, IMR = 0, NC = -1\<rparr> \<and>
   Risk_Cmp \<lparr>MMR = 0, IMR = 0, NC = -1\<rparr> \<lparr>MMR = 0, IMR = 0, NC = 3\<rparr> = 1"
  using Risk_Cmp_total_order[of "\<lparr>MMR = 0, IMR = 0, NC = -1\<rparr>" "\<lparr>MMR = 10, IMR = 20, NC = 5\<rparr>"
      "\<lparr>MMR = 0, IMR = 0, NC = 3\<rparr>"]
  by (simp add: wf_risk_def Risk_Cmp_def cmp_int_def)

end
