(* ===== verification/Perpetuals.thy ===== *)
theory Perpetuals
  imports Margin
begin

text \<open>
  Perpetual markets: the data of \<^verbatim>\<open>x/perpetuals\<close> and \<^verbatim>\<open>x/prices\<close> that margin computations read
  (the protobuf messages as records), \<^verbatim>\<open>types/liquidity_tier.go\<close>, \<^verbatim>\<open>lib/lib.go\<close>,
  \<^verbatim>\<open>funding/funding.go\<close>, \<^verbatim>\<open>x/assets/lib/lib.go\<close>, and the store operations of the perpetuals
  keeper that the subaccounts keeper calls. A nil \<^verbatim>\<open>SerializableInt\<close> is identified with 0.
\<close>

section \<open>Definitions: data\<close>

datatype PerpetualMarketType =
    PERPETUAL_MARKET_TYPE_UNSPECIFIED
  | PERPETUAL_MARKET_TYPE_CROSS
  | PERPETUAL_MARKET_TYPE_ISOLATED

record PerpetualParams =
  pp_Id :: uint32
  pp_Ticker :: string
  pp_MarketId :: uint32
  pp_AtomicResolution :: int32
  pp_DefaultFundingPpm :: int32
  pp_LiquidityTier :: uint32
  pp_MarketType :: PerpetualMarketType

record Perpetual =
  p_Params :: PerpetualParams
  p_FundingIndex :: int
  p_OpenInterest :: int

record LiquidityTier =
  lt_Id :: uint32
  lt_Name :: string
  lt_InitialMarginPpm :: uint32
  lt_MaintenanceFractionPpm :: uint32
  lt_ImpactNotional :: uint64
  lt_OpenInterestLowerCap :: uint64
  lt_OpenInterestUpperCap :: uint64

record MarketPrice =
  mp_Id :: uint32
  mp_Exponent :: int32
  mp_Price :: uint64

record PerpInfo =
  pi_Perpetual :: Perpetual
  pi_Price :: MarketPrice
  pi_LiquidityTier :: LiquidityTier

type_synonym PerpInfos = "uint32 \<Rightarrow> PerpInfo option"

definition MustGet :: "PerpInfos \<Rightarrow> uint32 \<Rightarrow> PerpInfo res" where
  "MustGet pis perpetualId =
     (case pis perpetualId of
        None \<Rightarrow> Inl (Panic ''ErrPerpetualInfoDoesNotExist'')
      | Some p \<Rightarrow> Inr p)"

section \<open>Definitions: x/perpetuals/types\<close>

definition MaxInitialMarginPpm :: uint32 where
  "MaxInitialMarginPpm = OneMillion"

definition MaxMaintenanceFractionPpm :: uint32 where
  "MaxMaintenanceFractionPpm = OneMillion"

definition MaxDefaultFundingPpmAbs :: uint32 where
  "MaxDefaultFundingPpmAbs = OneMillion"

definition PerpetualParams_Validate :: "PerpetualParams \<Rightarrow> unit res" where
  "PerpetualParams_Validate p =
     (if pp_MarketType p \<noteq> PERPETUAL_MARKET_TYPE_CROSS
         \<and> pp_MarketType p \<noteq> PERPETUAL_MARKET_TYPE_ISOLATED
      then Inl (Err ''ErrInvalidMarketType'')
      else if length (pp_Ticker p) = 0 then Inl (Err ''ErrTickerEmptyString'')
      else if AbsInt32 (pp_DefaultFundingPpm p) > MaxDefaultFundingPpmAbs
      then Inl (Err ''ErrDefaultFundingPpmMagnitudeExceedsMax'')
      else Inr ())"

definition LiquidityTier_Validate :: "LiquidityTier \<Rightarrow> unit res" where
  "LiquidityTier_Validate t =
     (if lt_InitialMarginPpm t > MaxInitialMarginPpm
      then Inl (Err ''ErrInitialMarginPpmExceedsMax'')
      else if lt_MaintenanceFractionPpm t > MaxMaintenanceFractionPpm
      then Inl (Err ''ErrMaintenanceFractionPpmExceedsMax'')
      else if lt_ImpactNotional t = 0 then Inl (Err ''ErrImpactNotionalIsZero'')
      else if lt_OpenInterestLowerCap t > lt_OpenInterestUpperCap t
      then Inl (Err ''ErrOpenInterestLowerCapLargerThanUpperCap'')
      else Inr ())"

definition GetMaintenanceMarginPpm :: "LiquidityTier \<Rightarrow> uint32 res" where
  "GetMaintenanceMarginPpm t =
     (if lt_MaintenanceFractionPpm t > MaxMaintenanceFractionPpm
      then Inl (Panic ''ErrMaintenanceFractionPpmExceedsMax'')
      else let bigMaintenanceMarginPpm =
                 BigIntMulPpm (uint (lt_InitialMarginPpm t)) (lt_MaintenanceFractionPpm t)
           in Inr (ucast (word_of_int bigMaintenanceMarginPpm :: uint64)))"

definition GetMaxAbsFundingClampPpm :: "LiquidityTier \<Rightarrow> uint32 \<Rightarrow> int res" where
  "GetMaxAbsFundingClampPpm t clampFactorPpm =
     bindr (GetMaintenanceMarginPpm t) (\<lambda>maintenanceMarginPpm.
       if maintenanceMarginPpm > lt_InitialMarginPpm t
       then Inl (Panic ''ErrMaintenanceMarginLargerThanInitialMargin'')
       else Inr (BigIntMulPpm (uint clampFactorPpm)
                   (lt_InitialMarginPpm t - maintenanceMarginPpm)))"

definition GetAdjustedInitialMarginPpm :: "LiquidityTier \<Rightarrow> int \<Rightarrow> int res" where
  "GetAdjustedInitialMarginPpm t oiQuoteQuantums =
     (let oiCapUpper = BigU (lt_OpenInterestUpperCap t);
          oiCapLower = BigU (lt_OpenInterestLowerCap t)
      in if sgn oiCapUpper = 0 \<or> cmp_int oiQuoteQuantums oiCapLower \<le> 0
         then Inr (BigU (lt_InitialMarginPpm t))
         else if sgn oiCapUpper > 0 \<and> cmp_int oiQuoteQuantums oiCapUpper \<ge> 0
         then Inr (BigU OneMillion)
         else let capNum = oiQuoteQuantums - oiCapLower; capDen = oiCapUpper - oiCapLower
              in if sgn capNum < 0 \<or> sgn capDen \<le> 0 \<or> cmp_int capDen capNum < 0
                 then Inl (Panic ''invalid open interest values'')
                 else if cmp_int oiCapLower oiCapUpper > 0
                 then Inl (Panic ''ErrOpenInterestLowerCapLargerThanUpperCap'')
                 else if lt_InitialMarginPpm t > OneMillion
                 then Inl (Panic ''ErrInitialMarginPpmExceedsMax'')
                 else let capScalePpm = BigU (OneMillion - lt_InitialMarginPpm t)
                      in Inr (ediv (capScalePpm * capNum) capDen + BigU (lt_InitialMarginPpm t)))"

definition GetInitialMarginQuoteQuantums :: "LiquidityTier \<Rightarrow> int \<Rightarrow> int \<Rightarrow> int \<Rightarrow> int res" where
  "GetInitialMarginQuoteQuantums t quoteQuantums oiQuoteQuantums custom_imf_ppm =
     bindr (GetAdjustedInitialMarginPpm t oiQuoteQuantums) (\<lambda>totalImfPpm.
       let totalImfPpm =
             (if sgn custom_imf_ppm > 0 then BigMax totalImfPpm custom_imf_ppm else totalImfPpm)
       in Inr (BigMulPpm quoteQuantums totalImfPpm True))"

section \<open>Definitions: x/perpetuals/lib and x/perpetuals/funding\<close>

definition GetSettlementPpmWithPerpetual :: "Perpetual \<Rightarrow> int \<Rightarrow> int \<Rightarrow> int \<times> int" where
  "GetSettlementPpmWithPerpetual perpetual quantums index =
     (let fundingIndex = p_FundingIndex perpetual
      in if cmp_int fundingIndex index = 0 then (0, fundingIndex)
         else (- ((fundingIndex - index) * quantums), fundingIndex))"

definition GetNetNotionalInQuoteQuantums :: "Perpetual \<Rightarrow> MarketPrice \<Rightarrow> int \<Rightarrow> int" where
  "GetNetNotionalInQuoteQuantums perpetual marketPrice bigQuantums =
     BaseToQuoteQuantums bigQuantums (pp_AtomicResolution (p_Params perpetual))
       (mp_Price marketPrice) (mp_Exponent marketPrice)"

definition GetMarginRequirementsInQuoteQuantums ::
  "Perpetual \<Rightarrow> MarketPrice \<Rightarrow> LiquidityTier \<Rightarrow> int \<Rightarrow> uint32 \<Rightarrow> (int \<times> int) res" where
  "GetMarginRequirementsInQuoteQuantums perpetual marketPrice liquidityTier bigQuantums custom_imf_ppm =
     (let bigAbsQuantums = \<bar>bigQuantums\<bar>;
          bigQuoteQuantums =
            BaseToQuoteQuantums bigAbsQuantums (pp_AtomicResolution (p_Params perpetual))
              (mp_Price marketPrice) (mp_Exponent marketPrice);
          openInterestQuoteQuantums =
            BaseToQuoteQuantums (p_OpenInterest perpetual) (pp_AtomicResolution (p_Params perpetual))
              (mp_Price marketPrice) (mp_Exponent marketPrice)
      in bindr (GetInitialMarginQuoteQuantums liquidityTier bigQuoteQuantums 0 0)
           (\<lambda>bigBaseInitialMarginQuoteQuantums.
         let bigMaintenanceMarginQuoteQuantums =
               BigMulPpm bigBaseInitialMarginQuoteQuantums
                 (BigU (lt_MaintenanceFractionPpm liquidityTier)) True
         in bindr (GetInitialMarginQuoteQuantums liquidityTier bigQuoteQuantums
                     openInterestQuoteQuantums (BigU custom_imf_ppm))
              (\<lambda>bigInitialMarginQuoteQuantums.
            Inr (bigInitialMarginQuoteQuantums, bigMaintenanceMarginQuoteQuantums))))"

definition GetPositionNetNotionalValueAndMarginRequirements ::
  "Perpetual \<Rightarrow> MarketPrice \<Rightarrow> LiquidityTier \<Rightarrow> int \<Rightarrow> uint32 \<Rightarrow> Risk res" where
  "GetPositionNetNotionalValueAndMarginRequirements perpetual marketPrice liquidityTier quantums
     custom_imf_ppm =
     (let nc = GetNetNotionalInQuoteQuantums perpetual marketPrice quantums
      in bindr (GetMarginRequirementsInQuoteQuantums perpetual marketPrice liquidityTier quantums
                  custom_imf_ppm)
           (\<lambda>(imr, mmr). Inr \<lparr>MMR = mmr, IMR = imr, NC = nc\<rparr>))"

definition perp_GetNetCollateralAndMarginRequirements ::
  "Perpetual \<Rightarrow> MarketPrice \<Rightarrow> LiquidityTier \<Rightarrow> int \<Rightarrow> int \<Rightarrow> uint32 \<Rightarrow> Risk res" where
  "perp_GetNetCollateralAndMarginRequirements perpetual marketPrice liquidityTier quantums
     quoteBalance custom_imf_ppm =
     bindr (GetPositionNetNotionalValueAndMarginRequirements perpetual marketPrice liquidityTier
              quantums custom_imf_ppm)
       (\<lambda>risk. Inr (risk\<lparr>NC := NC risk + quoteBalance\<rparr>))"

definition GetFundingIndexDelta :: "Perpetual \<Rightarrow> MarketPrice \<Rightarrow> int \<Rightarrow> uint32 \<Rightarrow> int" where
  "GetFundingIndexDelta perp marketPrice big8hrFundingRatePpm timeSinceLastFunding =
     (let result = uint timeSinceLastFunding;
          result = result * big8hrFundingRatePpm;
          result = BaseToQuoteQuantums result (pp_AtomicResolution (p_Params perp))
                     (mp_Price marketPrice) (mp_Exponent marketPrice)
      in result sdiv (60 * 60 * 8))"

section \<open>Definitions: x/assets/lib\<close>

definition AssetUsdcId :: uint32 where
  "AssetUsdcId = 0"

definition assets_GetNetCollateralAndMarginRequirements :: "uint32 \<Rightarrow> int \<Rightarrow> Risk res" where
  "assets_GetNetCollateralAndMarginRequirements assetId bigQuantums =
     (let risk = ZeroRisk
      in if bigQuantums = 0 then Inr risk
         else if assetId = AssetUsdcId then Inr (risk\<lparr>NC := bigQuantums\<rparr>)
         else if sgn bigQuantums = 1 then Inl (Err ''ErrNotImplementedMulticollateral'')
         else Inl (Err ''ErrNotImplementedMargin''))"

section \<open>Definitions: the perpetuals and prices stores\<close>

record perp_store =
  ps_perpetuals :: "uint32 \<Rightarrow> Perpetual option"
  ps_tiers :: "uint32 \<Rightarrow> LiquidityTier option"
  ps_prices :: "uint32 \<Rightarrow> MarketPrice option"

definition GetPerpetual :: "perp_store \<Rightarrow> uint32 \<Rightarrow> Perpetual res" where
  "GetPerpetual s perpId =
     (case ps_perpetuals s perpId of
        None \<Rightarrow> Inl (Err ''ErrPerpetualDoesNotExist'')
      | Some val \<Rightarrow> Inr val)"

definition setPerpetual :: "perp_store \<Rightarrow> Perpetual \<Rightarrow> perp_store" where
  "setPerpetual s perpetual =
     s\<lparr>ps_perpetuals := (ps_perpetuals s)(pp_Id (p_Params perpetual) \<mapsto> perpetual)\<rparr>"

definition GetMarketPrice :: "perp_store \<Rightarrow> uint32 \<Rightarrow> MarketPrice res" where
  "GetMarketPrice s i =
     (case ps_prices s i of
        None \<Rightarrow> Inl (Err ''ErrMarketPriceDoesNotExist'')
      | Some p \<Rightarrow> Inr p)"

definition GetLiquidityTier :: "perp_store \<Rightarrow> uint32 \<Rightarrow> LiquidityTier res" where
  "GetLiquidityTier s i =
     (case ps_tiers s i of
        None \<Rightarrow> Inl (Err ''ErrLiquidityTierDoesNotExist'')
      | Some t \<Rightarrow> Inr t)"

definition IsIsolatedPerpetual :: "perp_store \<Rightarrow> uint32 \<Rightarrow> bool res" where
  "IsIsolatedPerpetual s perpetualId =
     bindr (GetPerpetual s perpetualId) (\<lambda>perpetual.
       Inr (pp_MarketType (p_Params perpetual) = PERPETUAL_MARKET_TYPE_ISOLATED))"

definition ModifyFundingIndex :: "perp_store \<Rightarrow> uint32 \<Rightarrow> int \<Rightarrow> perp_store res" where
  "ModifyFundingIndex s perpetualId bigFundingIndexDelta =
     bindr (GetPerpetual s perpetualId) (\<lambda>perpetual.
       let bigFundingIndex = p_FundingIndex perpetual + bigFundingIndexDelta
       in Inr (setPerpetual s (perpetual\<lparr>p_FundingIndex := bigFundingIndex\<rparr>)))"

definition ModifyOpenInterest :: "perp_store \<Rightarrow> uint32 \<Rightarrow> int \<Rightarrow> perp_store res" where
  "ModifyOpenInterest s perpetualId openInterestDeltaBaseQuantums =
     (if sgn openInterestDeltaBaseQuantums = 0 then Inr s
      else bindr (GetPerpetual s perpetualId) (\<lambda>perpetual.
        let bigOpenInterest = p_OpenInterest perpetual + openInterestDeltaBaseQuantums
        in if sgn bigOpenInterest < 0 then Inl (Err ''ErrOpenInterestWouldBecomeNegative'')
           else Inr (setPerpetual s (perpetual\<lparr>p_OpenInterest := bigOpenInterest\<rparr>))))"

definition GetPerpetualAndMarketPrice ::
  "perp_store \<Rightarrow> uint32 \<Rightarrow> (Perpetual \<times> MarketPrice) res" where
  "GetPerpetualAndMarketPrice s perpetualId =
     bindr (GetPerpetual s perpetualId) (\<lambda>perpetual.
       case GetMarketPrice s (pp_MarketId (p_Params perpetual)) of
         Inl e \<Rightarrow> (if e = Err ''ErrMarketPriceDoesNotExist'' then Inl (Err ''ErrMarketDoesNotExist'')
                   else Inl e)
       | Inr marketPrice \<Rightarrow> Inr (perpetual, marketPrice))"

definition GetPerpetualAndMarketPriceAndLiquidityTier ::
  "perp_store \<Rightarrow> uint32 \<Rightarrow> (Perpetual \<times> MarketPrice \<times> LiquidityTier) res" where
  "GetPerpetualAndMarketPriceAndLiquidityTier s perpetualId =
     bindr (GetPerpetual s perpetualId) (\<lambda>perpetual.
     bindr (GetMarketPrice s (pp_MarketId (p_Params perpetual))) (\<lambda>marketPrice.
     bindr (GetLiquidityTier s (pp_LiquidityTier (p_Params perpetual))) (\<lambda>liquidityTier.
       Inr (perpetual, marketPrice, liquidityTier))))"

definition IsPositionUpdatable :: "perp_store \<Rightarrow> uint32 \<Rightarrow> bool res" where
  "IsPositionUpdatable s perpetualId =
     bindr (GetPerpetualAndMarketPrice s perpetualId) (\<lambda>(_, oraclePrice).
       if mp_Price oraclePrice = 0 then Inr False else Inr True)"

definition validatePerpetual :: "perp_store \<Rightarrow> Perpetual \<Rightarrow> unit res" where
  "validatePerpetual s perpetual =
     bindr (PerpetualParams_Validate (p_Params perpetual)) (\<lambda>_.
     bindr (GetMarketPrice s (pp_MarketId (p_Params perpetual))) (\<lambda>_.
       if ps_tiers s (pp_LiquidityTier (p_Params perpetual)) = None
       then Inl (Err ''ErrLiquidityTierDoesNotExist'') else Inr ()))"

definition ValidateAndSetPerpetual :: "perp_store \<Rightarrow> Perpetual \<Rightarrow> perp_store res" where
  "ValidateAndSetPerpetual s perpetual =
     bindr (validatePerpetual s perpetual) (\<lambda>_. Inr (setPerpetual s perpetual))"

section \<open>Margin requirements of a position\<close>

definition valid_tier :: "LiquidityTier \<Rightarrow> bool" where
  "valid_tier t = (LiquidityTier_Validate t = Inr ())"

text \<open>The effective initial margin fraction as the documentation of the method describes it.\<close>

definition effective_imf :: "LiquidityTier \<Rightarrow> int \<Rightarrow> int" where
  "effective_imf t oi =
     (let imf = uint (lt_InitialMarginPpm t); lo = uint (lt_OpenInterestLowerCap t);
          up = uint (lt_OpenInterestUpperCap t)
      in if up = 0 \<or> oi \<le> lo then imf
         else if up \<le> oi then 1000000
         else imf + (1000000 - imf) * (oi - lo) div (up - lo))"

lemma valid_tierD:
  assumes "valid_tier t"
  shows "uint (lt_InitialMarginPpm t) \<le> 1000000" "uint (lt_MaintenanceFractionPpm t) \<le> 1000000"
    "uint (lt_OpenInterestLowerCap t) \<le> uint (lt_OpenInterestUpperCap t)"
  using assms
  by (auto simp: valid_tier_def LiquidityTier_Validate_def MaxInitialMarginPpm_def
      MaxMaintenanceFractionPpm_def OneMillion_def word_less_def not_less split: if_splits)

lemma GetAdjustedInitialMarginPpm_eq:
  assumes "valid_tier t"
  shows "GetAdjustedInitialMarginPpm t oi = Inr (effective_imf t oi)"
proof -
  note v = valid_tierD[OF assms]
  have sub: "uint (OneMillion - lt_InitialMarginPpm t) = 1000000 - uint (lt_InitialMarginPpm t)"
    using v(1) by (simp add: uint_sub_lem[THEN iffD1] OneMillion_def)
  have om: "BigU OneMillion = 1000000" by (simp add: BigU_def OneMillion_def)
  show ?thesis
    using v sub om
    by (auto simp: GetAdjustedInitialMarginPpm_def effective_imf_def Let_def BigU_def cmp_int_def
        sgn_if word_less_def OneMillion_def ediv_pos uint_pos_iff split: if_splits)
qed

lemma effective_imf_bounds:
  assumes "valid_tier t"
  shows "uint (lt_InitialMarginPpm t) \<le> effective_imf t oi" "effective_imf t oi \<le> 1000000"
proof -
  note v = valid_tierD[OF assms]
  let ?i = "uint (lt_InitialMarginPpm t)" and ?l = "uint (lt_OpenInterestLowerCap t)"
    and ?u = "uint (lt_OpenInterestUpperCap t)"
  have "0 \<le> (1000000 - ?i) * (oi - ?l) div (?u - ?l) \<and>
      (1000000 - ?i) * (oi - ?l) div (?u - ?l) \<le> 1000000 - ?i" if "?l < oi" "oi < ?u"
  proof
    show "0 \<le> (1000000 - ?i) * (oi - ?l) div (?u - ?l)"
      using that v by (simp add: pos_imp_zdiv_nonneg_iff)
    have "(1000000 - ?i) * (oi - ?l) \<le> (1000000 - ?i) * (?u - ?l)"
      using that v by (intro mult_left_mono) auto
    then have "(1000000 - ?i) * (oi - ?l) div (?u - ?l) \<le> (1000000 - ?i) * (?u - ?l) div (?u - ?l)"
      using that by (intro zdiv_mono1) auto
    then show "(1000000 - ?i) * (oi - ?l) div (?u - ?l) \<le> 1000000 - ?i"
      using that by simp
  qed
  with v(1) show "?i \<le> effective_imf t oi" "effective_imf t oi \<le> 1000000"
    by (force simp: effective_imf_def Let_def)+
qed

lemma effective_imf_mono:
  assumes "valid_tier t" "oi \<le> oi'"
  shows "effective_imf t oi \<le> effective_imf t oi'"
proof -
  let ?i = "uint (lt_InitialMarginPpm t)" and ?l = "uint (lt_OpenInterestLowerCap t)"
    and ?u = "uint (lt_OpenInterestUpperCap t)"
  note v = valid_tierD[OF assms(1)]
  consider "?u = 0 \<or> oi \<le> ?l" | "?u \<noteq> 0" "?u \<le> oi'" | "?u \<noteq> 0" "?l < oi" "oi' < ?u" by linarith
  then show ?thesis
  proof cases
    case 1
    then have "effective_imf t oi = ?i" by (auto simp: effective_imf_def)
    then show ?thesis using effective_imf_bounds(1)[OF assms(1)] by simp
  next
    case 2
    then have "effective_imf t oi' = 1000000 \<or> oi' \<le> ?l" by (auto simp: effective_imf_def Let_def)
    then show ?thesis
      using effective_imf_bounds[OF assms(1), of oi] assms(2) v 
      by (auto simp: effective_imf_def Let_def)
  next
    case 3
    have "(1000000 - ?i) * (oi - ?l) div (?u - ?l) \<le> (1000000 - ?i) * (oi' - ?l) div (?u - ?l)"
      using 3 assms(2) v by (intro zdiv_mono1 mult_left_mono) auto
    with 3 assms(2) show ?thesis by (auto simp: effective_imf_def Let_def)
  qed
qed

definition total_imf :: "LiquidityTier \<Rightarrow> int \<Rightarrow> int \<Rightarrow> int" where
  "total_imf t oi c = (if 0 < c then max (effective_imf t oi) c else effective_imf t oi)"

lemma GetInitialMarginQuoteQuantums_eq:
  "valid_tier t \<Longrightarrow> GetInitialMarginQuoteQuantums t q oi c = Inr (BigMulPpm q (total_imf t oi c) True)"
  by (auto simp: GetInitialMarginQuoteQuantums_def GetAdjustedInitialMarginPpm_eq total_imf_def
      BigMinMax_eq sgn_if Let_def)

lemma BigMulPpm_le_self: "0 \<le> v \<Longrightarrow> p \<le> 1000000 \<Longrightarrow> BigMulPpm v p True \<le> v"
  using BigMulPpm_mono[of v p v 1000000 True] by (simp add: big_simps mult_left_mono)

definition notional :: "PerpInfo \<Rightarrow> int \<Rightarrow> int" where
  "notional i q = BaseToQuoteQuantums q (pp_AtomicResolution (p_Params (pi_Perpetual i)))
     (mp_Price (pi_Price i)) (mp_Exponent (pi_Price i))"

definition base_imr :: "PerpInfo \<Rightarrow> int \<Rightarrow> int" where
  "base_imr i q = BigMulPpm \<bar>notional i q\<bar> (uint (lt_InitialMarginPpm (pi_LiquidityTier i))) True"

definition position_mmr :: "PerpInfo \<Rightarrow> int \<Rightarrow> int" where
  "position_mmr i q = BigMulPpm (base_imr i q) (uint (lt_MaintenanceFractionPpm (pi_LiquidityTier i))) True"

definition position_imr :: "PerpInfo \<Rightarrow> int \<Rightarrow> uint32 \<Rightarrow> int" where
  "position_imr i q c = BigMulPpm \<bar>notional i q\<bar>
     (total_imf (pi_LiquidityTier i) (notional i (p_OpenInterest (pi_Perpetual i))) (uint c)) True"

lemma margin_requirements_eq:
  assumes "valid_tier (pi_LiquidityTier i)"
  shows "GetMarginRequirementsInQuoteQuantums (pi_Perpetual i) (pi_Price i) (pi_LiquidityTier i) q c =
    Inr (position_imr i q c, position_mmr i q)"
proof -
  have z: "total_imf (pi_LiquidityTier i) 0 0 = uint (lt_InitialMarginPpm (pi_LiquidityTier i))"
    by (simp add: total_imf_def effective_imf_def Let_def)
  show ?thesis
    by (simp add: GetMarginRequirementsInQuoteQuantums_def GetInitialMarginQuoteQuantums_eq[OF assms]
        Let_def position_imr_def position_mmr_def base_imr_def notional_def BaseToQuoteQuantums_abs
        BigU_def z)
qed

lemma position_risk_eq:
  assumes "valid_tier (pi_LiquidityTier i)"
  shows "perp_GetNetCollateralAndMarginRequirements (pi_Perpetual i) (pi_Price i) (pi_LiquidityTier i)
      q qb c = Inr \<lparr>MMR = position_mmr i q, IMR = position_imr i q c, NC = notional i q + qb\<rparr>"
  by (simp add: perp_GetNetCollateralAndMarginRequirements_def
      GetPositionNetNotionalValueAndMarginRequirements_def margin_requirements_eq[OF assms]
      GetNetNotionalInQuoteQuantums_def notional_def Let_def)

lemma position_mmr_nonneg: "0 \<le> position_mmr i q"
  by (simp add: position_mmr_def base_imr_def BigMulPpm_nonneg)

lemma position_mmr_le_imr:
  assumes "valid_tier (pi_LiquidityTier i)"
  shows "position_mmr i q \<le> position_imr i q c"
proof -
  note v = valid_tierD[OF assms]
  have "position_mmr i q \<le> base_imr i q"
    using v(2) by (simp add: position_mmr_def base_imr_def BigMulPpm_nonneg BigMulPpm_le_self)
  also have "\<dots> \<le> position_imr i q c"
    unfolding base_imr_def position_imr_def
    using effective_imf_bounds(1)[OF assms]
    by (intro BigMulPpm_mono mult_left_mono) (auto simp: total_imf_def intro: order.trans max.coboundedI1)
  finally show ?thesis .
qed

lemma notional_mono: "\<bar>q\<bar> \<le> \<bar>q'\<bar> \<Longrightarrow> \<bar>notional i q\<bar> \<le> \<bar>notional i q'\<bar>"
  unfolding notional_def by (simp flip: BaseToQuoteQuantums_abs add: BaseToQuoteQuantums_mono)

lemma position_mmr_mono: "\<bar>q\<bar> \<le> \<bar>q'\<bar> \<Longrightarrow> position_mmr i q \<le> position_mmr i q'"
  unfolding position_mmr_def base_imr_def
  using notional_mono[of q q' i] by (intro BigMulPpm_mono mult_right_mono) auto

text \<open>
  C28: For every liquidity tier that passes \<^verbatim>\<open>Validate\<close>, the margin computation of a position never
  panics, and the maintenance requirement is non-negative and at most the initial requirement,
  whatever the position size, open interest, price and user-configured margin fraction.
\<close>

theorem margin_requirements_ordered:
  fixes i :: PerpInfo
  assumes "LiquidityTier_Validate (pi_LiquidityTier i) = Inr ()"
  shows "\<exists>imr mmr. GetMarginRequirementsInQuoteQuantums (pi_Perpetual i) (pi_Price i)
      (pi_LiquidityTier i) q c = Inr (imr, mmr) \<and> 0 \<le> mmr \<and> mmr \<le> imr"
  using assms margin_requirements_eq[of i q c] position_mmr_nonneg[of i q] position_mmr_le_imr[of i q c]
  by (simp add: valid_tier_def)


section \<open>Witness market and store invariant\<close>

text \<open>A bitcoin market at 50,000 USD with a five percent initial margin, for the witnesses.\<close>

definition ex_tier :: LiquidityTier where
  "ex_tier = \<lparr>lt_Id = 0, lt_Name = ''Large-Cap'', lt_InitialMarginPpm = 50000,
     lt_MaintenanceFractionPpm = 600000, lt_ImpactNotional = 10000000000,
     lt_OpenInterestLowerCap = 25000000000000, lt_OpenInterestUpperCap = 50000000000000\<rparr>"

definition ex_perpetual :: "uint32 \<Rightarrow> PerpetualMarketType \<Rightarrow> Perpetual" where
  "ex_perpetual i ty = \<lparr>p_Params = \<lparr>pp_Id = i, pp_Ticker = ''BTC-USD'', pp_MarketId = 0,
     pp_AtomicResolution = -10, pp_DefaultFundingPpm = 0, pp_LiquidityTier = 0, pp_MarketType = ty\<rparr>,
     p_FundingIndex = 0, p_OpenInterest = 10000000000\<rparr>"

definition ex_price :: MarketPrice where
  "ex_price = \<lparr>mp_Id = 0, mp_Exponent = -5, mp_Price = 5000000000\<rparr>"

definition ex_info :: "uint32 \<Rightarrow> PerpetualMarketType \<Rightarrow> PerpInfo" where
  "ex_info i ty = \<lparr>pi_Perpetual = ex_perpetual i ty, pi_Price = ex_price, pi_LiquidityTier = ex_tier\<rparr>"

lemmas ex_defs = ex_tier_def ex_perpetual_def ex_price_def ex_info_def

theorem margin_requirements_ordered_witness:
  "LiquidityTier_Validate ex_tier = Inr () \<and>
   (\<exists>imr mmr. GetMarginRequirementsInQuoteQuantums (pi_Perpetual (ex_info 0 PERPETUAL_MARKET_TYPE_CROSS))
      (pi_Price (ex_info 0 PERPETUAL_MARKET_TYPE_CROSS)) ex_tier 10000000000 0 = Inr (imr, mmr) \<and>
      0 \<le> mmr \<and> mmr \<le> imr) \<and>
   GetMarginRequirementsInQuoteQuantums (pi_Perpetual (ex_info 0 PERPETUAL_MARKET_TYPE_CROSS))
      (pi_Price (ex_info 0 PERPETUAL_MARKET_TYPE_CROSS)) ex_tier 10000000000 0 =
      Inr (2500000000, 1500000000)"
proof -
  have h: "LiquidityTier_Validate ex_tier = Inr ()" by code_simp
  have v: "GetMarginRequirementsInQuoteQuantums (pi_Perpetual (ex_info 0 PERPETUAL_MARKET_TYPE_CROSS))
      (pi_Price (ex_info 0 PERPETUAL_MARKET_TYPE_CROSS)) ex_tier 10000000000 0 =
      Inr (2500000000, 1500000000)"
    by code_simp
  from margin_requirements_ordered[of "ex_info 0 PERPETUAL_MARKET_TYPE_CROSS" 10000000000 0] h v
  show ?thesis by (simp add: ex_info_def)
qed

text \<open>
  C29: The open-interest scaled initial margin fraction of a validated liquidity tier never panics,
  lies between the base fraction and one, never decreases when open interest grows, equals the
  base fraction up to the lower cap (or when the upper cap is 0) and one from the upper cap on.
\<close>

theorem GetAdjustedInitialMarginPpm_scaling:
  assumes "LiquidityTier_Validate t = Inr ()" "oi \<le> oi'"
  shows "\<exists>f f'. GetAdjustedInitialMarginPpm t oi = Inr f \<and> GetAdjustedInitialMarginPpm t oi' = Inr f' \<and>
    uint (lt_InitialMarginPpm t) \<le> f \<and> f \<le> f' \<and> f' \<le> 1000000 \<and>
    (lt_OpenInterestUpperCap t = 0 \<or> oi \<le> uint (lt_OpenInterestLowerCap t) \<longrightarrow>
       f = uint (lt_InitialMarginPpm t)) \<and>
    (lt_OpenInterestUpperCap t \<noteq> 0 \<and> uint (lt_OpenInterestUpperCap t) \<le> oi \<and>
       uint (lt_OpenInterestLowerCap t) < oi \<longrightarrow> f = 1000000)"
proof -
  have v: "valid_tier t" using assms(1) by (simp add: valid_tier_def)
  show ?thesis
    using GetAdjustedInitialMarginPpm_eq[OF v] effective_imf_bounds[OF v] effective_imf_mono[OF v assms(2)]
    by (auto simp: effective_imf_def Let_def unsigned_eq_0_iff)
qed

theorem GetAdjustedInitialMarginPpm_scaling_witness:
  "LiquidityTier_Validate ex_tier = Inr () \<and>
   (\<exists>f f'. GetAdjustedInitialMarginPpm ex_tier 25000000000000 = Inr f \<and>
      GetAdjustedInitialMarginPpm ex_tier 37500000000000 = Inr f' \<and> f \<le> f' \<and> f = 50000) \<and>
   GetAdjustedInitialMarginPpm ex_tier 37500000000000 = Inr 525000"
proof -
  have h: "LiquidityTier_Validate ex_tier = Inr ()" by code_simp
  have v: "GetAdjustedInitialMarginPpm ex_tier 37500000000000 = Inr 525000" by code_simp
  from GetAdjustedInitialMarginPpm_scaling[OF h, of 25000000000000 37500000000000] h v
  show ?thesis by (auto simp: ex_tier_def)
qed

definition perp_store_ok :: "perp_store \<Rightarrow> bool" where
  "perp_store_ok s \<longleftrightarrow> (\<forall>k p. ps_perpetuals s k = Some p \<longrightarrow> pp_Id (p_Params p) = k \<and> 0 \<le> p_OpenInterest p)"

lemma ModifyOpenInterest_spec:
  assumes "perp_store_ok s" "ModifyOpenInterest s k d = Inr s'"
  shows "perp_store_ok s' \<and> ps_tiers s' = ps_tiers s \<and> ps_prices s' = ps_prices s \<and>
    (\<forall>j. ps_perpetuals s' j =
      (if j = k then map_option (\<lambda>p. p\<lparr>p_OpenInterest := p_OpenInterest p + d\<rparr>) (ps_perpetuals s j)
       else ps_perpetuals s j))"
  using assms
  by (auto simp: ModifyOpenInterest_def perp_store_ok_def setPerpetual_def GetPerpetual_def res_simps
      Let_def sgn_if option.map_ident split: if_splits option.splits)

lemma ModifyFundingIndex_ok:
  "perp_store_ok s \<Longrightarrow> ModifyFundingIndex s k d = Inr s' \<Longrightarrow> perp_store_ok s'"
  by (auto simp: ModifyFundingIndex_def perp_store_ok_def setPerpetual_def GetPerpetual_def res_simps
      Let_def split: if_splits option.splits)

lemma ValidateAndSetPerpetual_ok:
  "perp_store_ok s \<Longrightarrow> 0 \<le> p_OpenInterest p \<Longrightarrow> ValidateAndSetPerpetual s p = Inr s' \<Longrightarrow> perp_store_ok s'"
  by (auto simp: ValidateAndSetPerpetual_def perp_store_ok_def setPerpetual_def res_simps split: if_splits)


end
