(* ===== verification/SubaccountLib.thy ===== *)
theory SubaccountLib
  imports Perpetuals
begin

text \<open>
  Subaccounts: the data of \<^verbatim>\<open>x/subaccounts/types\<close>, and the stateless rules of
  \<^verbatim>\<open>x/subaccounts/lib\<close> (settlement of funding, application of position updates, account risk, the
  validity of transitions of undercollateralised accounts, open-interest deltas). Pointers to
  positions are values: the code only mutates positions it has just unmarshalled or deep-copied.
\<close>

section \<open>Definitions: data\<close>

record SubaccountId =
  sid_Owner :: string
  sid_Number :: uint32

record AssetPosition =
  ap_AssetId :: uint32
  ap_Quantums :: int
  ap_Index :: uint64

record PerpetualPosition =
  po_PerpetualId :: uint32
  po_Quantums :: int
  po_FundingIndex :: int
  po_QuoteBalance :: int

record Subaccount =
  sa_Id :: SubaccountId
  sa_AssetPositions :: "AssetPosition list"
  sa_PerpetualPositions :: "PerpetualPosition list"
  sa_MarginEnabled :: bool

record AssetUpdate =
  au_AssetId :: uint32
  au_BigQuantumsDelta :: int

record PerpetualUpdate =
  pu_PerpetualId :: uint32
  pu_BigQuantumsDelta :: int
  pu_BigQuoteBalanceDelta :: int

record Update =
  u_SubaccountId :: SubaccountId
  u_AssetUpdates :: "AssetUpdate list"
  u_PerpetualUpdates :: "PerpetualUpdate list"

text \<open>A nil leverage map is \<^const>\<open>None\<close>; a missing key reads as 0.\<close>

type_synonym LeverageMap = "(uint32, uint32) gomap"

record SettledUpdate =
  su_SettledSubaccount :: Subaccount
  su_AssetUpdates :: "AssetUpdate list"
  su_PerpetualUpdates :: "PerpetualUpdate list"
  su_LeverageMap :: "LeverageMap option"

datatype UpdateResult =
    Success
  | NewlyUndercollateralized
  | StillUndercollateralized
  | WithdrawalsAndTransfersBlocked
  | UpdateCausedError
  | ViolatesIsolatedSubaccountConstraints

datatype UpdateType =
    UpdateTypeUnspecified | Withdrawal | Transfer | Deposit | Match | CollatCheck

definition IsSuccess :: "UpdateResult \<Rightarrow> bool" where
  "IsSuccess u = (u = Success)"

text \<open>The error of a batch: the first failed result, or a panic when none failed.\<close>

definition GetErrorFromUpdateResults :: "bool \<Rightarrow> UpdateResult list \<Rightarrow> Update list \<Rightarrow> unit res" where
  "GetErrorFromUpdateResults success successPerUpdate updates =
     (if success then Inr ()
      else case find (\<lambda>r. \<not> IsSuccess r) successPerUpdate of
             Some r \<Rightarrow> Inl (Err ''ErrFailedToUpdateSubaccounts'')
           | None \<Rightarrow> Inl (Panic ''UpdateResults''))"

section \<open>Definitions: x/subaccounts/types/subaccount.go\<close>

definition MaxSubaccountIdNumber :: uint32 where
  "MaxSubaccountIdNumber = 128000"

definition GetPerpetualPositionForId :: "Subaccount \<Rightarrow> uint32 \<Rightarrow> PerpetualPosition option" where
  "GetPerpetualPositionForId m perpetualId =
     find (\<lambda>position. po_PerpetualId position = perpetualId) (sa_PerpetualPositions m)"

definition getUsdcAssetPosition :: "Subaccount \<Rightarrow> AssetPosition option" where
  "getUsdcAssetPosition m =
     (case sa_AssetPositions m of
        [] \<Rightarrow> None
      | firstAsset # _ \<Rightarrow> if ap_AssetId firstAsset \<noteq> AssetUsdcId then None else Some firstAsset)"

definition GetUsdcPosition :: "Subaccount \<Rightarrow> int" where
  "GetUsdcPosition m =
     (case getUsdcAssetPosition m of None \<Rightarrow> 0 | Some p \<Rightarrow> ap_Quantums p)"

definition SetUsdcAssetPosition :: "Subaccount \<Rightarrow> int \<Rightarrow> Subaccount" where
  "SetUsdcAssetPosition m newUsdcPosition =
     (if sgn newUsdcPosition = 0
      then (case getUsdcAssetPosition m of
              None \<Rightarrow> m
            | Some _ \<Rightarrow> m\<lparr>sa_AssetPositions := tl (sa_AssetPositions m)\<rparr>)
      else (case getUsdcAssetPosition m of
              None \<Rightarrow> m\<lparr>sa_AssetPositions :=
                \<lparr>ap_AssetId = AssetUsdcId, ap_Quantums = newUsdcPosition, ap_Index = 0\<rparr>
                  # sa_AssetPositions m\<rparr>
            | Some p \<Rightarrow> m\<lparr>sa_AssetPositions :=
                p\<lparr>ap_Quantums := newUsdcPosition\<rparr> # tl (sa_AssetPositions m)\<rparr>))"

section \<open>Definitions: x/subaccounts/lib/updates.go\<close>

text \<open>One iteration of the settlement loop: the state is (total ppm, new positions, payments).\<close>

definition settle_position ::
  "PerpInfos \<Rightarrow> PerpetualPosition \<Rightarrow> int \<times> PerpetualPosition list \<times> (uint32, int) gomap
   \<Rightarrow> (int \<times> PerpetualPosition list \<times> (uint32, int) gomap) res" where
  "settle_position perpInfos p st =
     (case st of (totalNetSettlementPpm, newPerpetualPositions, fundingPayments) \<Rightarrow>
      bindr (MustGet perpInfos (po_PerpetualId p)) (\<lambda>perpInfo.
        let (bigNetSettlementPpm, newFundingIndex) =
              GetSettlementPpmWithPerpetual (pi_Perpetual perpInfo) (po_Quantums p) (po_FundingIndex p);
            fundingPayments =
              (if bigNetSettlementPpm \<noteq> 0
               then gm_set (po_PerpetualId p) (- ediv bigNetSettlementPpm BigIntOneMillion) fundingPayments
               else fundingPayments)
        in Inr (totalNetSettlementPpm + bigNetSettlementPpm,
                newPerpetualPositions @ [p\<lparr>po_FundingIndex := newFundingIndex\<rparr>],
                fundingPayments)))"

definition GetSettledSubaccountWithPerpetuals ::
  "Subaccount \<Rightarrow> PerpInfos \<Rightarrow> (Subaccount \<times> (uint32, int) gomap) res" where
  "GetSettledSubaccountWithPerpetuals subaccount perpInfos =
     bindr (for_res (settle_position perpInfos) (sa_PerpetualPositions subaccount) (0, [], []))
       (\<lambda>(totalNetSettlementPpm, newPerpetualPositions, fundingPayments).
         let newSubaccount = subaccount\<lparr>sa_PerpetualPositions := newPerpetualPositions\<rparr>;
             newUsdcPosition =
               GetUsdcPosition subaccount + ediv totalNetSettlementPpm BigIntOneMillion
         in Inr (SetUsdcAssetPosition newSubaccount newUsdcPosition, fundingPayments))"

definition IsValidStateTransitionForUndercollateralizedSubaccount :: "Risk \<Rightarrow> Risk \<Rightarrow> UpdateResult" where
  "IsValidStateTransitionForUndercollateralizedSubaccount riskCur riskNew =
     (let underCollateralizationResult =
            (if cmp_int (IMR riskCur) (NC riskCur) \<le> 0 then NewlyUndercollateralized
             else StillUndercollateralized)
      in if cmp_int (MMR riskNew) (MMR riskCur) > 0 then underCollateralizationResult
         else if MMR riskNew = 0 \<or> MMR riskCur = 0
         then if MMR riskNew = 0 \<and> MMR riskCur = 0 \<and> cmp_int (NC riskNew) (NC riskCur) > 0
              then Success else underCollateralizationResult
         else if Risk_Cmp riskNew riskCur > 0 then underCollateralizationResult
         else Success)"

definition GetUpdatedAssetPositions :: "SettledUpdate \<Rightarrow> AssetPosition list" where
  "GetUpdatedAssetPositions update =
     (let assetIdToPositionMap =
            gm_of_list ap_AssetId (sa_AssetPositions (su_SettledSubaccount update));
          updatedAssetIds = gm_of_list au_AssetId (su_AssetUpdates update)
      in sort_key ap_AssetId
           (map (\<lambda>updatedId. case gm_get assetIdToPositionMap updatedId of
                    Some assetPosition \<Rightarrow> assetPosition
                  | None \<Rightarrow> \<lparr>ap_AssetId = updatedId, ap_Quantums = 0, ap_Index = 0\<rparr>)
              (gm_keys updatedAssetIds)))"

definition GetUpdatedPerpetualPositions ::
  "SettledUpdate \<Rightarrow> (uint32, int) gomap \<Rightarrow> PerpetualPosition list" where
  "GetUpdatedPerpetualPositions update fundingPayments =
     (let perpetualIdToPositionMap =
            gm_of_list po_PerpetualId (sa_PerpetualPositions (su_SettledSubaccount update));
          updatedPerpetualIds =
            gm_of_list (\<lambda>i. i) (map pu_PerpetualId (su_PerpetualUpdates update) @ gm_keys fundingPayments)
      in sort_key po_PerpetualId
           (map (\<lambda>updatedId. case gm_get perpetualIdToPositionMap updatedId of
                    Some perpetualPosition \<Rightarrow> perpetualPosition
                  | None \<Rightarrow> \<lparr>po_PerpetualId = updatedId, po_Quantums = 0, po_FundingIndex = 0,
                              po_QuoteBalance = 0\<rparr>)
              (gm_keys updatedPerpetualIds)))"

definition apply_asset_update ::
  "AssetUpdate \<Rightarrow> (uint32, AssetPosition) gomap \<Rightarrow> (uint32, AssetPosition) gomap" where
  "apply_asset_update update positionsMap =
     (case gm_get positionsMap (au_AssetId update) of
        Some pos \<Rightarrow>
          (let quantums = ap_Quantums pos + au_BigQuantumsDelta update
           in if quantums = 0 then gm_del (au_AssetId update) positionsMap
              else gm_set (au_AssetId update) (pos\<lparr>ap_Quantums := quantums\<rparr>) positionsMap)
      | None \<Rightarrow>
          gm_set (au_AssetId update)
            \<lparr>ap_AssetId = au_AssetId update, ap_Quantums = au_BigQuantumsDelta update, ap_Index = 0\<rparr>
            positionsMap)"

definition CalculateUpdatedAssetPositions ::
  "AssetPosition list \<Rightarrow> AssetUpdate list \<Rightarrow> AssetPosition list" where
  "CalculateUpdatedAssetPositions assetPositions updates =
     gm_vals (fold apply_asset_update updates (gm_of_list ap_AssetId assetPositions))"

definition apply_perpetual_update ::
  "PerpInfos \<Rightarrow> PerpetualUpdate \<Rightarrow> (uint32, PerpetualPosition) gomap
   \<Rightarrow> (uint32, PerpetualPosition) gomap res" where
  "apply_perpetual_update perpInfos update positionsMap =
     (case gm_get positionsMap (pu_PerpetualId update) of
        Some pos \<Rightarrow>
          (let quantums = po_Quantums pos + pu_BigQuantumsDelta update;
               quoteBalance = po_QuoteBalance pos + pu_BigQuoteBalanceDelta update
           in if quantums = 0 \<and> quoteBalance = 0
              then Inr (gm_del (pu_PerpetualId update) positionsMap)
              else Inr (gm_set (pu_PerpetualId update)
                     (pos\<lparr>po_Quantums := quantums, po_QuoteBalance := quoteBalance\<rparr>) positionsMap))
      | None \<Rightarrow>
          bindr (MustGet perpInfos (pu_PerpetualId update)) (\<lambda>perpInfo.
            Inr (gm_set (pu_PerpetualId update)
              \<lparr>po_PerpetualId = pu_PerpetualId update,
               po_Quantums = pu_BigQuantumsDelta update,
               po_FundingIndex = p_FundingIndex (pi_Perpetual perpInfo),
               po_QuoteBalance = pu_BigQuoteBalanceDelta update\<rparr> positionsMap)))"

definition CalculateUpdatedPerpetualPositions ::
  "PerpetualPosition list \<Rightarrow> PerpetualUpdate list \<Rightarrow> PerpInfos \<Rightarrow> PerpetualPosition list res" where
  "CalculateUpdatedPerpetualPositions positions updates perpInfos =
     bindr (for_res (apply_perpetual_update perpInfos) updates (gm_of_list po_PerpetualId positions))
       (\<lambda>positionsMap. Inr (gm_vals positionsMap))"

definition CalculateUpdatedSubaccount :: "SettledUpdate \<Rightarrow> PerpInfos \<Rightarrow> Subaccount res" where
  "CalculateUpdatedSubaccount settledUpdate perpInfos =
     (let result = su_SettledSubaccount settledUpdate;
          result = result\<lparr>sa_AssetPositions :=
            CalculateUpdatedAssetPositions (sa_AssetPositions result) (su_AssetUpdates settledUpdate)\<rparr>
      in bindr (CalculateUpdatedPerpetualPositions (sa_PerpetualPositions result)
                  (su_PerpetualUpdates settledUpdate) perpInfos)
           (\<lambda>ps. Inr (result\<lparr>sa_PerpetualPositions := ps\<rparr>)))"

definition leverage_of :: "LeverageMap option \<Rightarrow> uint32 \<Rightarrow> uint32" where
  "leverage_of leverageMap perpetualId =
     (case leverageMap of
        None \<Rightarrow> 0
      | Some m \<Rightarrow> (case gm_get m perpetualId of None \<Rightarrow> 0 | Some v \<Rightarrow> v))"

definition add_asset_risk :: "AssetPosition \<Rightarrow> Risk \<Rightarrow> Risk res" where
  "add_asset_risk pos risk =
     bindr (assets_GetNetCollateralAndMarginRequirements (ap_AssetId pos) (ap_Quantums pos))
       (\<lambda>r. Inr (AddInPlace risk r))"

definition add_perpetual_risk ::
  "PerpInfos \<Rightarrow> LeverageMap option \<Rightarrow> PerpetualPosition \<Rightarrow> Risk \<Rightarrow> Risk res" where
  "add_perpetual_risk perpInfos leverageMap pos risk =
     bindr (MustGet perpInfos (po_PerpetualId pos)) (\<lambda>perpInfo.
       let custom_imf_ppm = leverage_of leverageMap (po_PerpetualId pos)
       in bindr (perp_GetNetCollateralAndMarginRequirements (pi_Perpetual perpInfo)
                   (pi_Price perpInfo) (pi_LiquidityTier perpInfo) (po_Quantums pos)
                   (po_QuoteBalance pos) custom_imf_ppm)
            (\<lambda>r. Inr (AddInPlace risk r)))"

definition GetRiskForSubaccount ::
  "Subaccount \<Rightarrow> PerpInfos \<Rightarrow> LeverageMap option \<Rightarrow> Risk res" where
  "GetRiskForSubaccount subaccount perpInfos leverageMap =
     bindr (for_res add_asset_risk (sa_AssetPositions subaccount) ZeroRisk) (\<lambda>risk.
       for_res (add_perpetual_risk perpInfos leverageMap) (sa_PerpetualPositions subaccount) risk)"

definition GetRiskForSettledUpdate :: "SettledUpdate \<Rightarrow> PerpInfos \<Rightarrow> Risk res" where
  "GetRiskForSettledUpdate settledUpdate perpInfos =
     bindr (CalculateUpdatedSubaccount settledUpdate perpInfos) (\<lambda>updatedSubaccount.
       GetRiskForSubaccount updatedSubaccount perpInfos (su_LeverageMap settledUpdate))"

section \<open>Definitions: x/subaccounts/lib/oimf.go\<close>

definition getDeltaLongFromSettledUpdate :: "SettledUpdate \<Rightarrow> uint32 \<Rightarrow> int res" where
  "getDeltaLongFromSettledUpdate u updatedPerpId =
     (let perpPosition =
            fold (\<lambda>p acc. if po_PerpetualId p = updatedPerpId then Some p else acc)
              (sa_PerpetualPositions (su_SettledSubaccount u)) None;
          prevQuantums = (case perpPosition of None \<Rightarrow> 0 | Some p \<Rightarrow> po_Quantums p)
      in case su_PerpetualUpdates u of
           [] \<Rightarrow> Inl (Panic ''index out of range'')
         | pu # _ \<Rightarrow>
             (let afterQuantums = prevQuantums + pu_BigQuantumsDelta pu;
                  prevLong = (if sgn prevQuantums < 0 then 0 else prevQuantums);
                  afterLong = (if sgn afterQuantums < 0 then 0 else afterQuantums)
              in Inr (afterLong - prevLong)))"

text \<open>The result is the pair of the perpetual and its open-interest delta, if there is one.\<close>

definition GetDeltaOpenInterestFromUpdates ::
  "SettledUpdate list \<Rightarrow> UpdateType \<Rightarrow> (uint32 \<times> int) option res" where
  "GetDeltaOpenInterestFromUpdates settledUpdates updateType =
     (if updateType \<noteq> Match then Inr None
      else case settledUpdates of
        [u0, u1] \<Rightarrow>
          (case (su_PerpetualUpdates u0, su_PerpetualUpdates u1) of
             ([perpUpdate0], [perpUpdate1]) \<Rightarrow>
               (if pu_PerpetualId perpUpdate0 \<noteq> pu_PerpetualId perpUpdate1
                then Inl (Panic ''ErrMatchUpdatesMustBeSamePerpId'')
                else let updatedPerpId = pu_PerpetualId perpUpdate0
                     in if sgn (pu_BigQuantumsDelta perpUpdate0) * sgn (pu_BigQuantumsDelta perpUpdate1) > 0
                           \<or> \<bar>pu_BigQuantumsDelta perpUpdate0\<bar> \<noteq> \<bar>pu_BigQuantumsDelta perpUpdate1\<bar>
                        then Inl (Panic ''ErrMatchUpdatesInvalidSize'')
                        else bindr (for_res (\<lambda>u baseQuantumsDelta.
                               bindr (getDeltaLongFromSettledUpdate u updatedPerpId)
                                 (\<lambda>deltaLong. Inr (baseQuantumsDelta + deltaLong))) settledUpdates 0)
                             (\<lambda>baseQuantumsDelta.
                               if sgn baseQuantumsDelta = 0 then Inr None
                               else Inr (Some (updatedPerpId, baseQuantumsDelta))))
           | _ \<Rightarrow> Inl (Panic ''ErrMatchUpdatesMustUpdateOnePerp''))
      | _ \<Rightarrow> Inl (Panic ''ErrMatchUpdatesMustHaveTwoUpdates''))"

section \<open>Keyed position maps\<close>

lemma gm_set_append: "\<forall>p \<in> set m. fst p < k \<Longrightarrow> gm_set k v m = m @ [(k, v)]"
  by (induction k v m rule: gm_set.induct) auto

lemma gm_of_list_sorted:
  "sorted_wrt (<) (map key vs) \<Longrightarrow> gm_of_list key vs = map (\<lambda>v. (key v, v)) vs"
proof (induction vs rule: rev_induct)
  case Nil
  then show ?case by (simp add: gm_of_list_def)
next
  case (snoc v vs)
  then have "gm_of_list key (vs @ [v]) = gm_set (key v) v (map (\<lambda>v. (key v, v)) vs)"
    by (simp add: gm_of_list_def sorted_wrt_append)
  also have "\<dots> = map (\<lambda>v. (key v, v)) vs @ [(key v, v)]"
    using snoc.prems by (intro gm_set_append) (auto simp: sorted_wrt_append)
  finally show ?case by simp
qed

definition keyed_ok :: "('p \<Rightarrow> 'k::linorder) \<Rightarrow> ('k, 'p) gomap \<Rightarrow> bool" where
  "keyed_ok key m \<longleftrightarrow> gm_inv m \<and> (\<forall>k v. gm_get m k = Some v \<longrightarrow> key v = k)"

definition keyed_qty :: "('p \<Rightarrow> int) \<Rightarrow> ('k, 'p) gomap \<Rightarrow> 'k \<Rightarrow> int" where
  "keyed_qty qty m k = (case gm_get m k of None \<Rightarrow> 0 | Some p \<Rightarrow> qty p)"

lemma keyed_ok_of_list:
  "sorted_wrt (<) (map key vs) \<Longrightarrow> keyed_ok key (gm_of_list key vs)"
  by (auto simp: keyed_ok_def gm_of_list_sorted gm_inv_def comp_def gm_get_def dest!: map_of_SomeD)

lemma keyed_ok_vals_keys: "keyed_ok key m \<Longrightarrow> map key (gm_vals m) = gm_keys m"
proof -
  assume ok: "keyed_ok key m"
  then have "key (snd p) = fst p" if "p \<in> set m" for p
    using that unfolding keyed_ok_def by (metis gm_get_Some_iff prod.collapse)
  then show ?thesis by (simp add: gm_vals_def gm_keys_def)
qed

lemma keyed_ok_vals_sorted: "keyed_ok key m \<Longrightarrow> sorted_wrt (<) (map key (gm_vals m))"
  using keyed_ok_vals_keys[of key m] gm_keys_sorted[of m] by (simp add: keyed_ok_def)

lemma gm_of_list_vals: "keyed_ok key m \<Longrightarrow> gm_of_list key (gm_vals m) = m"
proof -
  assume ok: "keyed_ok key m"
  then have "(key (snd p), snd p) = p" if "p \<in> set m" for p
    using that unfolding keyed_ok_def by (metis gm_get_Some_iff prod.collapse)
  then show ?thesis
    unfolding gm_of_list_sorted[OF keyed_ok_vals_sorted[OF ok]]
    by (simp add: gm_vals_def comp_def map_idI)
qed

lemma keyed_ok_set: "keyed_ok key m \<Longrightarrow> key v = k \<Longrightarrow> keyed_ok key (gm_set k v m)"
  by (auto simp: keyed_ok_def split: if_splits)

lemma keyed_ok_del: "keyed_ok key m \<Longrightarrow> keyed_ok key (gm_del k m)"
  by (auto simp: keyed_ok_def split: if_splits)

text \<open>
  The contract of a position-update step: it keeps the map keyed and sorted, and moves the
  quantity of the updated key, and of no other key, by the update's delta.
\<close>

locale position_updates =
  fixes key :: "'p \<Rightarrow> 'k::linorder"
    and qty :: "'p \<Rightarrow> int"
    and ukey :: "'u \<Rightarrow> 'k"
    and delta :: "'u \<Rightarrow> int"
    and step :: "'u \<Rightarrow> ('k, 'p) gomap \<Rightarrow> ('k, 'p) gomap res"
  assumes step_ok: "keyed_ok key m \<Longrightarrow> step u m = Inr m' \<Longrightarrow> keyed_ok key m'"
    and step_qty: "keyed_ok key m \<Longrightarrow> step u m = Inr m' \<Longrightarrow>
      keyed_qty qty m' k = keyed_qty qty m k + (if ukey u = k then delta u else 0)"
begin

lemma steps_qty:
  assumes "for_res step us m = Inr m'" "keyed_ok key m"
  shows "keyed_ok key m' \<and>
    (\<forall>k. keyed_qty qty m' k = keyed_qty qty m k + (\<Sum>u\<leftarrow>us. if ukey u = k then delta u else 0))"
  using assms
proof (induction us arbitrary: m)
  case Nil
  then show ?case by simp
next
  case (Cons u us)
  then obtain m1 where m1: "step u m = Inr m1" "for_res step us m1 = Inr m'"
    by (auto simp: res_simps)
  with Cons.prems(2) step_ok have "keyed_ok key m1" by blast
  with Cons.IH[OF m1(2)] step_qty[OF Cons.prems(2) m1(1)] show ?case by simp
qed

lemma updated_list_qty:
  assumes "for_res step us (gm_of_list key ps) = Inr m'" "sorted_wrt (<) (map key ps)"
  shows "sorted_wrt (<) (map key (gm_vals m')) \<and>
    (\<forall>k. keyed_qty qty (gm_of_list key (gm_vals m')) k =
       keyed_qty qty (gm_of_list key ps) k + (\<Sum>u\<leftarrow>us. if ukey u = k then delta u else 0))"
  using steps_qty[OF assms(1) keyed_ok_of_list[OF assms(2)]]
  by (auto simp: keyed_ok_vals_sorted gm_of_list_vals)

end

interpretation asset_updates:
  position_updates ap_AssetId ap_Quantums au_AssetId au_BigQuantumsDelta "\<lambda>u m. Inr (apply_asset_update u m)"
proof (unfold_locales, goal_cases)
  case (1 m u m')
  then show ?case
    by (auto simp: apply_asset_update_def Let_def keyed_ok_del split: option.splits intro!: keyed_ok_set)
      (auto simp: keyed_ok_def)
next
  case (2 m u m' k)
  then show ?case
    by (auto simp: apply_asset_update_def Let_def keyed_qty_def split: option.splits if_splits)
qed

lemma apply_perpetual_update_ok:
  assumes "keyed_ok po_PerpetualId m" "apply_perpetual_update pis u m = Inr m'"
  shows "keyed_ok po_PerpetualId m'"
  using assms
  by (auto simp: apply_perpetual_update_def Let_def keyed_ok_del res_simps
      split: option.splits if_splits intro!: keyed_ok_set)
    (auto simp: keyed_ok_def)

interpretation perp_updates:
  position_updates po_PerpetualId po_Quantums pu_PerpetualId pu_BigQuantumsDelta "apply_perpetual_update pis"
  for pis
proof (unfold_locales, goal_cases)
  case (1 m u m')
  then show ?case by (rule apply_perpetual_update_ok)
next
  case (2 m u m' k)
  then show ?case
    by (auto simp: apply_perpetual_update_def Let_def keyed_qty_def res_simps split: option.splits if_splits)
qed

interpretation perp_quote_updates:
  position_updates po_PerpetualId po_QuoteBalance pu_PerpetualId pu_BigQuoteBalanceDelta
    "apply_perpetual_update pis" for pis
proof (unfold_locales, goal_cases)
  case (1 m u m')
  then show ?case by (rule apply_perpetual_update_ok)
next
  case (2 m u m' k)
  then show ?case
    by (auto simp: apply_perpetual_update_def Let_def keyed_qty_def res_simps split: option.splits if_splits)
qed


section \<open>Correctness of position updates\<close>

text \<open>The quantity a position list holds for a key, 0 when it has no position.\<close>

definition held :: "('p \<Rightarrow> 'k) \<Rightarrow> ('p \<Rightarrow> int) \<Rightarrow> 'p list \<Rightarrow> 'k \<Rightarrow> int" where
  "held key qty ps k = (case find (\<lambda>p. key p = k) ps of None \<Rightarrow> 0 | Some p \<Rightarrow> qty p)"

lemma map_of_find: "map_of (map (\<lambda>v. (key v, v)) vs) k = find (\<lambda>p. key p = k) vs"
  by (induction vs) auto

lemma keyed_qty_held:
  "sorted_wrt (<) (map key ps) \<Longrightarrow> keyed_qty qty (gm_of_list key ps) = held key qty ps"
  by (rule ext) (simp add: keyed_qty_def held_def gm_of_list_sorted gm_get_def map_of_find)

context position_updates
begin

lemma updated_list_held:
  assumes "for_res step us (gm_of_list key ps) = Inr m'" "sorted_wrt (<) (map key ps)"
  shows "sorted_wrt (<) (map key (gm_vals m')) \<and>
    (\<forall>k. held key qty (gm_vals m') k =
       held key qty ps k + (\<Sum>u\<leftarrow>us. if ukey u = k then delta u else 0))"
  using updated_list_qty[OF assms] assms(2) by (auto simp: keyed_qty_held)

end

lemma for_res_pure: "for_res (\<lambda>x s. Inr (f x s)) xs s = Inr (fold f xs s)"
  by (induction xs arbitrary: s) simp_all

lemma CalculateUpdatedAssetPositions_adds:
  assumes "sorted_wrt (<) (map ap_AssetId ps)"
  shows "sorted_wrt (<) (map ap_AssetId (CalculateUpdatedAssetPositions ps us))"
    and "held ap_AssetId ap_Quantums (CalculateUpdatedAssetPositions ps us) a =
      held ap_AssetId ap_Quantums ps a + (\<Sum>u\<leftarrow>us. if au_AssetId u = a then au_BigQuantumsDelta u else 0)"
  using asset_updates.updated_list_held[OF for_res_pure assms]
  unfolding CalculateUpdatedAssetPositions_def by blast+

lemma MustGet_perp_total:
  assumes "\<forall>u \<in> set us. pis (pu_PerpetualId u) \<noteq> None"
  shows "\<exists>m'. for_res (apply_perpetual_update pis) us m = Inr m'"
  using assms
proof (induction us arbitrary: m)
  case Nil
  then show ?case by simp
next
  case (Cons u us)
  then have "\<exists>m1. apply_perpetual_update pis u m = Inr m1"
    by (auto simp: apply_perpetual_update_def MustGet_def Let_def split: option.splits)
  with Cons show ?case by auto
qed

text \<open>
  C26: Applying perpetual updates to a sorted position list never panics when every updated
  perpetual is known, and is exact: the result is strictly sorted by perpetual id and, for every
  perpetual, both the size and the quote balance it holds are the old ones plus the sum of the
  deltas of that perpetual's updates (closed positions are dropped, new ones are opened).
\<close>

theorem CalculateUpdatedPerpetualPositions_adds:
  assumes "sorted_wrt (<) (map po_PerpetualId ps)"
    and "\<forall>u \<in> set us. pis (pu_PerpetualId u) \<noteq> None"
  shows "\<exists>ps'. CalculateUpdatedPerpetualPositions ps us pis = Inr ps' \<and>
    sorted_wrt (<) (map po_PerpetualId ps') \<and>
    (\<forall>k. held po_PerpetualId po_Quantums ps' k = held po_PerpetualId po_Quantums ps k +
           (\<Sum>u\<leftarrow>us. if pu_PerpetualId u = k then pu_BigQuantumsDelta u else 0)) \<and>
    (\<forall>k. held po_PerpetualId po_QuoteBalance ps' k = held po_PerpetualId po_QuoteBalance ps k +
           (\<Sum>u\<leftarrow>us. if pu_PerpetualId u = k then pu_BigQuoteBalanceDelta u else 0))"
proof -
  obtain m' where m': "for_res (apply_perpetual_update pis) us (gm_of_list po_PerpetualId ps) = Inr m'"
    using MustGet_perp_total[OF assms(2)] by blast
  show ?thesis
    using perp_updates.updated_list_held[OF m' assms(1)]
      perp_quote_updates.updated_list_held[OF m' assms(1)] m'
    by (simp add: CalculateUpdatedPerpetualPositions_def)
qed


theorem CalculateUpdatedPerpetualPositions_adds_witness:
  "\<exists>ps'. CalculateUpdatedPerpetualPositions
      [\<lparr>po_PerpetualId = 3, po_Quantums = 5, po_FundingIndex = 0, po_QuoteBalance = 0\<rparr>]
      [\<lparr>pu_PerpetualId = 3, pu_BigQuantumsDelta = -5, pu_BigQuoteBalanceDelta = 0\<rparr>,
       \<lparr>pu_PerpetualId = 1, pu_BigQuantumsDelta = 7, pu_BigQuoteBalanceDelta = 2\<rparr>]
      (\<lambda>k. Some (ex_info k PERPETUAL_MARKET_TYPE_CROSS)) = Inr ps' \<and>
    held po_PerpetualId po_Quantums ps' 3 = 0 \<and> held po_PerpetualId po_Quantums ps' 1 = 7"
  using CalculateUpdatedPerpetualPositions_adds[of
      "[\<lparr>po_PerpetualId = 3, po_Quantums = 5, po_FundingIndex = 0, po_QuoteBalance = 0\<rparr>]"
      "[\<lparr>pu_PerpetualId = 3, pu_BigQuantumsDelta = -5, pu_BigQuoteBalanceDelta = 0\<rparr>,
       \<lparr>pu_PerpetualId = 1, pu_BigQuantumsDelta = 7, pu_BigQuoteBalanceDelta = 2\<rparr>]"
      "\<lambda>k. Some (ex_info k PERPETUAL_MARKET_TYPE_CROSS)"]
  by (auto simp: held_def)

text \<open>
  C25: An account below its initial margin may only move to a state with a positive maintenance
  requirement that is not above the one before, without worsening its ratio of collateral to maintenance
  margin, or, with a maintenance requirement of zero before and after, to strictly more collateral: the
  transition check accepts exactly these moves. In particular it rejects every move from a positive
  maintenance requirement to none.
\<close>

theorem undercollateralized_transition:
  assumes "wf_risk riskCur" "wf_risk riskNew"
  shows "IsValidStateTransitionForUndercollateralizedSubaccount riskCur riskNew = Success \<longleftrightarrow>
    (MMR riskNew = 0 \<and> MMR riskCur = 0 \<and> NC riskCur < NC riskNew) \<or>
    (0 < MMR riskNew \<and> MMR riskNew \<le> MMR riskCur \<and>
     NC riskCur * MMR riskNew \<le> NC riskNew * MMR riskCur)"
  using assms
  by (auto simp: IsValidStateTransitionForUndercollateralizedSubaccount_def Let_def wf_risk_def
      Risk_Cmp_def cmp_int_def sgn_if)

theorem undercollateralized_transition_witness:
  "IsValidStateTransitionForUndercollateralizedSubaccount
     \<lparr>MMR = 10, IMR = 20, NC = 5\<rparr> \<lparr>MMR = 8, IMR = 16, NC = 4\<rparr> = Success"
  using undercollateralized_transition[of "\<lparr>MMR = 10, IMR = 20, NC = 5\<rparr>" "\<lparr>MMR = 8, IMR = 16, NC = 4\<rparr>"]
  by (simp add: wf_risk_def)

section \<open>Correctness of settlement\<close>

definition market_index :: "PerpInfos \<Rightarrow> uint32 \<Rightarrow> int" where
  "market_index pis k = (case pis k of None \<Rightarrow> 0 | Some i \<Rightarrow> p_FundingIndex (pi_Perpetual i))"

definition settlement_ppm :: "PerpInfos \<Rightarrow> PerpetualPosition \<Rightarrow> int" where
  "settlement_ppm pis p = (po_FundingIndex p - market_index pis (po_PerpetualId p)) * po_Quantums p"

definition settled_position :: "PerpInfos \<Rightarrow> PerpetualPosition \<Rightarrow> PerpetualPosition" where
  "settled_position pis p = p\<lparr>po_FundingIndex := market_index pis (po_PerpetualId p)\<rparr>"

definition infos_cover :: "PerpInfos \<Rightarrow> Subaccount \<Rightarrow> bool" where
  "infos_cover pis s = (\<forall>p \<in> set (sa_PerpetualPositions s). pis (po_PerpetualId p) \<noteq> None)"

definition sorted_subaccount :: "Subaccount \<Rightarrow> bool" where
  "sorted_subaccount s = (sorted_wrt (<) (map ap_AssetId (sa_AssetPositions s)) \<and>
     sorted_wrt (<) (map po_PerpetualId (sa_PerpetualPositions s)))"

lemma settle_position_eq:
  assumes "pis (po_PerpetualId p) \<noteq> None"
  shows "\<exists>f'. settle_position pis p (t, acc, f) =
    Inr (t + settlement_ppm pis p, acc @ [settled_position pis p], f')"
  using assms
  by (auto simp: settle_position_def MustGet_def GetSettlementPpmWithPerpetual_def settlement_ppm_def
      settled_position_def market_index_def Let_def algebra_simps)

lemma settle_positions_eq:
  assumes "\<forall>p \<in> set ps. pis (po_PerpetualId p) \<noteq> None"
  shows "\<exists>f'. for_res (settle_position pis) ps (t, acc, f) =
    Inr (t + (\<Sum>p\<leftarrow>ps. settlement_ppm pis p), acc @ map (settled_position pis) ps, f')"
  using assms
proof (induction ps arbitrary: t acc f)
  case Nil
  then show ?case by simp
next
  case (Cons p ps)
  then obtain f1 where "settle_position pis p (t, acc, f) =
      Inr (t + settlement_ppm pis p, acc @ [settled_position pis p], f1)"
    using settle_position_eq[of pis p t acc f] by auto
  moreover obtain f2 where "for_res (settle_position pis) ps
      (t + settlement_ppm pis p, acc @ [settled_position pis p], f1) =
      Inr (t + settlement_ppm pis p + (\<Sum>p\<leftarrow>ps. settlement_ppm pis p),
        (acc @ [settled_position pis p]) @ map (settled_position pis) ps, f2)"
    using Cons by (metis list.set_intros(2))
  ultimately show ?case by (simp add: add.assoc)
qed

lemma GetUsdcPosition_held:
  assumes "sorted_wrt (<) (map ap_AssetId (sa_AssetPositions s))"
  shows "GetUsdcPosition s = held ap_AssetId ap_Quantums (sa_AssetPositions s) AssetUsdcId"
proof (cases "sa_AssetPositions s")
  case Nil
  then show ?thesis by (simp add: GetUsdcPosition_def getUsdcAssetPosition_def held_def)
next
  case (Cons a as)
  have "find (\<lambda>p. ap_AssetId p = 0) as = None"
    using assms Cons by (auto simp: find_None_iff AssetUsdcId_def)
  then show ?thesis
    using Cons by (simp add: GetUsdcPosition_def getUsdcAssetPosition_def held_def AssetUsdcId_def)
qed

lemma uint32_lt_0 [simp]: "\<not> (w::uint32) < 0"
  by simp

lemma SetUsdcAssetPosition_get [simp]:
  "sorted_wrt (<) (map ap_AssetId (sa_AssetPositions s)) \<Longrightarrow>
   GetUsdcPosition (SetUsdcAssetPosition s v) = v"
  by (cases "sa_AssetPositions s"; cases "tl (sa_AssetPositions s)")
    (auto simp: GetUsdcPosition_def getUsdcAssetPosition_def SetUsdcAssetPosition_def AssetUsdcId_def
      sgn_0_0)

lemma SetUsdcAssetPosition_sorted:
  "sorted_wrt (<) (map ap_AssetId (sa_AssetPositions s)) \<Longrightarrow>
   sorted_wrt (<) (map ap_AssetId (sa_AssetPositions (SetUsdcAssetPosition s v)))"
  by (cases "sa_AssetPositions s")
    (auto simp: getUsdcAssetPosition_def SetUsdcAssetPosition_def AssetUsdcId_def word_neq_0_conv
      intro: order.strict_trans)

lemma SetUsdcAssetPosition_other [simp]:
  "sa_PerpetualPositions (SetUsdcAssetPosition s v) = sa_PerpetualPositions s"
  "sa_Id (SetUsdcAssetPosition s v) = sa_Id s"
  by (auto simp: SetUsdcAssetPosition_def split: option.splits)

lemma settled_position_sel [simp]:
  "po_PerpetualId (settled_position pis p) = po_PerpetualId p"
  "po_Quantums (settled_position pis p) = po_Quantums p"
  "po_QuoteBalance (settled_position pis p) = po_QuoteBalance p"
  "settlement_ppm pis (settled_position pis p) = 0"
  "settled_position pis (settled_position pis p) = settled_position pis p"
  by (simp_all add: settled_position_def settlement_ppm_def)

lemma settled_subaccount_eq:
  assumes "infos_cover pis s"
  shows "\<exists>f. GetSettledSubaccountWithPerpetuals s pis =
    Inr (SetUsdcAssetPosition (s\<lparr>sa_PerpetualPositions := map (settled_position pis) (sa_PerpetualPositions s)\<rparr>)
      (GetUsdcPosition s + (\<Sum>p\<leftarrow>sa_PerpetualPositions s. settlement_ppm pis p) div 1000000), f)"
  using settle_positions_eq[of "sa_PerpetualPositions s" pis 0 "[]" "[]"] assms
  by (auto simp: GetSettledSubaccountWithPerpetuals_def infos_cover_def ediv_pos BigIntOneMillion_def)

lemma SetUsdcAssetPosition_twice:
  "sorted_wrt (<) (map ap_AssetId (sa_AssetPositions s)) \<Longrightarrow>
   SetUsdcAssetPosition ((SetUsdcAssetPosition s v)\<lparr>sa_PerpetualPositions := sa_PerpetualPositions s\<rparr>) v =
   SetUsdcAssetPosition s v"
  by (cases "sa_AssetPositions s"; cases "tl (sa_AssetPositions s)"; cases s)
    (auto simp: getUsdcAssetPosition_def SetUsdcAssetPosition_def AssetUsdcId_def sgn_0_0)

lemma resettle_positions:
  assumes "\<forall>p \<in> set ps. pis (po_PerpetualId p) \<noteq> None"
  shows "for_res (settle_position pis) (map (settled_position pis) ps) (0, acc, f) =
    Inr (0, acc @ map (settled_position pis) ps, f)"
  using assms
proof (induction ps arbitrary: acc)
  case Nil
  then show ?case by simp
next
  case (Cons p ps)
  then have "settle_position pis (settled_position pis p) (0, acc, f) =
      Inr (0, acc @ [settled_position pis p], f)"
    by (auto simp: settle_position_def MustGet_def GetSettlementPpmWithPerpetual_def
        settled_position_def market_index_def Let_def)
  with Cons show ?case by simp
qed

text \<open>
  C24: Settling the funding of a subaccount whose markets are known never panics; it keeps the
  position lists strictly sorted, leaves sizes and quote balances alone, moves every position to
  its market's funding index, credits USDC with the total settlement in ppm divided by a million
  and rounded down (never in the account's favour), and is idempotent: settling again changes
  nothing and reports no payment.
\<close>

theorem settlement_correct:
  assumes "infos_cover pis s" "sorted_subaccount s"
  shows "\<exists>s' f. GetSettledSubaccountWithPerpetuals s pis = Inr (s', f) \<and>
     sorted_subaccount s' \<and>
     GetUsdcPosition s' = GetUsdcPosition s + (\<Sum>p\<leftarrow>sa_PerpetualPositions s. settlement_ppm pis p) div 1000000 \<and>
     sa_PerpetualPositions s' = map (settled_position pis) (sa_PerpetualPositions s) \<and>
     GetSettledSubaccountWithPerpetuals s' pis = Inr (s', [])"
proof -
  let ?n = "s\<lparr>sa_PerpetualPositions := map (settled_position pis) (sa_PerpetualPositions s)\<rparr>"
  let ?v = "GetUsdcPosition s + (\<Sum>p\<leftarrow>sa_PerpetualPositions s. settlement_ppm pis p) div 1000000"
  let ?s = "SetUsdcAssetPosition ?n ?v"
  obtain f where f: "GetSettledSubaccountWithPerpetuals s pis = Inr (?s, f)"
    using settled_subaccount_eq[OF assms(1)] by auto
  have sorted: "sorted_wrt (<) (map ap_AssetId (sa_AssetPositions ?n))"
    "sorted_wrt (<) (map po_PerpetualId (sa_PerpetualPositions ?n))"
    using assms(2) by (simp_all add: sorted_subaccount_def comp_def)
  have "GetSettledSubaccountWithPerpetuals ?s pis = Inr (?s, [])"
    using resettle_positions[of "sa_PerpetualPositions s" pis "[]"] assms(1)
      SetUsdcAssetPosition_get[OF sorted(1), of ?v] SetUsdcAssetPosition_twice[OF sorted(1), of ?v]
    by (simp add: GetSettledSubaccountWithPerpetuals_def infos_cover_def ediv_pos BigIntOneMillion_def)
  with f sorted show ?thesis
    using SetUsdcAssetPosition_get[OF sorted(1), of ?v] SetUsdcAssetPosition_sorted[OF sorted(1), of ?v]
    by (auto simp: sorted_subaccount_def)
qed

definition ex_subaccount :: "uint32 \<Rightarrow> int \<Rightarrow> int \<Rightarrow> Subaccount" where
  "ex_subaccount n usdc btc = \<lparr>sa_Id = \<lparr>sid_Owner = ''alice'', sid_Number = n\<rparr>,
     sa_AssetPositions = [\<lparr>ap_AssetId = 0, ap_Quantums = usdc, ap_Index = 0\<rparr>],
     sa_PerpetualPositions = [\<lparr>po_PerpetualId = 0, po_Quantums = btc, po_FundingIndex = 3, po_QuoteBalance = 0\<rparr>],
     sa_MarginEnabled = True\<rparr>"

theorem settlement_correct_witness:
  "\<exists>s' f. GetSettledSubaccountWithPerpetuals (ex_subaccount 0 100 (-500000))
      (\<lambda>k. Some (ex_info k PERPETUAL_MARKET_TYPE_CROSS)) = Inr (s', f) \<and> GetUsdcPosition s' = 98"
  using settlement_correct[of "\<lambda>k. Some (ex_info k PERPETUAL_MARKET_TYPE_CROSS)" "ex_subaccount 0 100 (-500000)"]
  by (auto simp: infos_cover_def sorted_subaccount_def ex_subaccount_def settlement_ppm_def
      market_index_def ex_defs GetUsdcPosition_def getUsdcAssetPosition_def AssetUsdcId_def)

section \<open>Open interest\<close>

lemma fold_last_find:
  fixes key :: "'p \<Rightarrow> 'k::linorder"
  assumes "sorted_wrt (<) (map key ps)"
  shows "fold (\<lambda>p acc. if key p = k then Some p else acc) ps None = find (\<lambda>p. key p = k) ps"
proof -
  have keep: "fold (\<lambda>p acc. if key p = k then Some p else acc) qs a = a"
    if "\<forall>q \<in> set qs. key q \<noteq> k" for qs a k
    using that by (induction qs arbitrary: a) auto
  show ?thesis
    using assms by (induction ps) (auto intro!: keep)
qed

text \<open>The long side of a position, and its change under a delta.\<close>

definition delta_long :: "SettledUpdate \<Rightarrow> uint32 \<Rightarrow> int \<Rightarrow> int" where
  "delta_long u k d =
     (let q = held po_PerpetualId po_Quantums (sa_PerpetualPositions (su_SettledSubaccount u)) k
      in max 0 (q + d) - max 0 q)"

lemma getDeltaLong_eq:
  assumes "sorted_subaccount (su_SettledSubaccount u)" "su_PerpetualUpdates u = [pu]"
  shows "getDeltaLongFromSettledUpdate u k =
    Inr (delta_long u k (pu_BigQuantumsDelta pu))"
proof -
  have "fold (\<lambda>p acc. if po_PerpetualId p = k then Some p else acc)
      (sa_PerpetualPositions (su_SettledSubaccount u)) None =
      find (\<lambda>p. po_PerpetualId p = k) (sa_PerpetualPositions (su_SettledSubaccount u))"
    using assms(1) by (intro fold_last_find) (simp add: sorted_subaccount_def)
  then show ?thesis
    using assms by (auto simp: getDeltaLongFromSettledUpdate_def delta_long_def Let_def held_def sorted_subaccount_def
       sgn_if max_def split: option.splits)
qed


text \<open>
  For a match (two accounts, opposite deltas of the same perpetual) the reported change of open
  interest is the change of the sum of the two accounts' long sides, no delta is reported when
  that change is zero, and its magnitude never exceeds the size of the match.
\<close>

theorem open_interest_delta_of_match:
  assumes "sorted_subaccount (su_SettledSubaccount u0)" "sorted_subaccount (su_SettledSubaccount u1)"
    and "su_PerpetualUpdates u0 = [p0]" "su_PerpetualUpdates u1 = [p1]"
    and "pu_PerpetualId p0 = k" "pu_PerpetualId p1 = k"
    and "pu_BigQuantumsDelta p1 = - pu_BigQuantumsDelta p0"
  shows "GetDeltaOpenInterestFromUpdates [u0, u1] Match =
      (let d = delta_long u0 k (pu_BigQuantumsDelta p0) + delta_long u1 k (pu_BigQuantumsDelta p1)
       in Inr (if d = 0 then None else Some (k, d)))
    \<and> \<bar>delta_long u0 k (pu_BigQuantumsDelta p0) + delta_long u1 k (pu_BigQuantumsDelta p1)\<bar>
        \<le> \<bar>pu_BigQuantumsDelta p0\<bar>"
proof
  show "GetDeltaOpenInterestFromUpdates [u0, u1] Match =
      (let d = delta_long u0 k (pu_BigQuantumsDelta p0) + delta_long u1 k (pu_BigQuantumsDelta p1)
       in Inr (if d = 0 then None else Some (k, d)))"
    using assms getDeltaLong_eq[OF assms(1,3)] getDeltaLong_eq[OF assms(2,4)]
    by (auto simp: GetDeltaOpenInterestFromUpdates_def Let_def sgn_0_0 sgn_if)
  show "\<bar>delta_long u0 k (pu_BigQuantumsDelta p0) + delta_long u1 k (pu_BigQuantumsDelta p1)\<bar>
        \<le> \<bar>pu_BigQuantumsDelta p0\<bar>"
    using assms(7) by (auto simp: delta_long_def Let_def max_def)
qed

theorem open_interest_delta_of_match_witness:
  "GetDeltaOpenInterestFromUpdates
     [\<lparr>su_SettledSubaccount = ex_subaccount 0 0 3, su_AssetUpdates = [],
       su_PerpetualUpdates = [\<lparr>pu_PerpetualId = 0, pu_BigQuantumsDelta = -5, pu_BigQuoteBalanceDelta = 0\<rparr>],
       su_LeverageMap = None\<rparr>,
      \<lparr>su_SettledSubaccount = ex_subaccount 1 0 1, su_AssetUpdates = [],
       su_PerpetualUpdates = [\<lparr>pu_PerpetualId = 0, pu_BigQuantumsDelta = 5, pu_BigQuoteBalanceDelta = 0\<rparr>],
       su_LeverageMap = None\<rparr>] Match = Inr (Some (0, 2))"
  using open_interest_delta_of_match[of
     "\<lparr>su_SettledSubaccount = ex_subaccount 0 0 3, su_AssetUpdates = [],
       su_PerpetualUpdates = [\<lparr>pu_PerpetualId = 0, pu_BigQuantumsDelta = -5, pu_BigQuoteBalanceDelta = 0\<rparr>],
       su_LeverageMap = None\<rparr>"
     "\<lparr>su_SettledSubaccount = ex_subaccount 1 0 1, su_AssetUpdates = [],
       su_PerpetualUpdates = [\<lparr>pu_PerpetualId = 0, pu_BigQuantumsDelta = 5, pu_BigQuoteBalanceDelta = 0\<rparr>],
       su_LeverageMap = None\<rparr>"]
  by (simp add: sorted_subaccount_def ex_subaccount_def delta_long_def held_def)

end
