(* ===== verification/Assets.thy ===== *)
theory Assets
  imports Perpetuals
begin

text \<open>
  \<^verbatim>\<open>x/assets\<close>: the asset store and the conversion between asset quantums and bank coins
  (\<^verbatim>\<open>keeper/asset.go\<close>, \<^verbatim>\<open>types/genesis.go\<close>, \<^verbatim>\<open>genesis.go\<close>). The coin constructor of the Cosmos SDK
  is a parameter; \<^verbatim>\<open>sdk.NewCoin\<close> is documented to panic on a negative amount.
\<close>

section \<open>Definitions\<close>

record Asset =
  a_Id :: uint32
  a_Symbol :: string
  a_Denom :: string
  a_DenomExponent :: int32
  a_HasMarket :: bool
  a_MarketId :: uint32
  a_AtomicResolution :: int32

record Coin =
  co_Denom :: string
  co_Amount :: int

type_synonym asset_store = "(uint32, Asset) gomap"

definition UusdcDenom :: string where
  "UusdcDenom = ''ibc/8E27BA2D5493AF5636760E354E46004562C46AB7EC0CC4C1CA14E9E20E2545B5''"

definition AssetUsdc :: Asset where
  "AssetUsdc = \<lparr>a_Id = 0, a_Symbol = ''USDC'', a_Denom = UusdcDenom, a_DenomExponent = - 6,
     a_HasMarket = False, a_MarketId = 0, a_AtomicResolution = QuoteCurrencyAtomicResolution\<rparr>"

definition MaxAssetUnitExponentAbs :: uint32 where
  "MaxAssetUnitExponentAbs = 32"

definition GetAsset :: "asset_store \<Rightarrow> uint32 \<Rightarrow> Asset option" where
  "GetAsset s i = gm_get s i"

definition setAsset :: "Asset \<Rightarrow> asset_store \<Rightarrow> asset_store" where
  "setAsset asset s = gm_set (a_Id asset) asset s"

definition GetAllAssets :: "asset_store \<Rightarrow> Asset list" where
  "GetAllAssets s = sort_key a_Id (gm_vals s)"

definition CreateAsset ::
  "perp_store \<Rightarrow> uint32 \<Rightarrow> string \<Rightarrow> string \<Rightarrow> int32 \<Rightarrow> bool \<Rightarrow> uint32 \<Rightarrow> int32 \<Rightarrow> asset_store
   \<Rightarrow> asset_store res" where
  "CreateAsset prices assetId symbol denom denomExponent hasMarket marketId atomicResolution s =
     (if GetAsset s assetId \<noteq> None then Inl (Err ''ErrAssetIdAlreadyExists'')
      else if assetId = a_Id AssetUsdc \<and> denom \<noteq> a_Denom AssetUsdc then Inl (Err ''ErrUsdcMustBeAssetZero'')
      else if assetId = a_Id AssetUsdc \<and> denomExponent \<noteq> a_DenomExponent AssetUsdc
        then Inl (Err ''ErrUnexpectedUsdcDenomExponent'')
      else if assetId \<noteq> a_Id AssetUsdc \<and> denom = a_Denom AssetUsdc then Inl (Err ''ErrUsdcMustBeAssetZero'')
      else if \<exists>asset \<in> set (GetAllAssets s). a_Denom asset = denom
        then Inl (Err ''ErrAssetDenomAlreadyExists'')
      else let asset = \<lparr>a_Id = assetId, a_Symbol = symbol, a_Denom = denom, a_DenomExponent = denomExponent,
                 a_HasMarket = hasMarket, a_MarketId = marketId, a_AtomicResolution = atomicResolution\<rparr>
           in if hasMarket
              then bindr (GetMarketPrice prices marketId) (\<lambda>_. Inr (setAsset asset s))
              else if marketId > 0 then Inl (Err ''ErrInvalidMarketId'')
              else Inr (setAsset asset s))"

definition ModifyAsset ::
  "perp_store \<Rightarrow> uint32 \<Rightarrow> bool \<Rightarrow> uint32 \<Rightarrow> asset_store \<Rightarrow> asset_store res" where
  "ModifyAsset prices i hasMarket marketId s =
     (case GetAsset s i of
        None \<Rightarrow> Inl (Err ''ErrAssetDoesNotExist'')
      | Some asset \<Rightarrow>
          bindr (GetMarketPrice prices marketId) (\<lambda>_.
            Inr (setAsset (asset\<lparr>a_HasMarket := hasMarket, a_MarketId := marketId\<rparr>) s)))"

definition ConvertAssetToCoin ::
  "(string \<Rightarrow> int \<Rightarrow> Coin res) \<Rightarrow> asset_store \<Rightarrow> uint32 \<Rightarrow> int \<Rightarrow> (int \<times> Coin) res" where
  "ConvertAssetToCoin NewCoin s assetId quantums =
     (case GetAsset s assetId of
        None \<Rightarrow> Inl (Err ''ErrAssetDoesNotExist'')
      | Some asset \<Rightarrow>
          if AbsInt32 (a_AtomicResolution asset) > MaxAssetUnitExponentAbs
          then Inl (Err ''ErrInvalidAssetAtomicResolution'')
          else if AbsInt32 (a_DenomExponent asset) > MaxAssetUnitExponentAbs
          then Inl (Err ''ErrInvalidDenomExponent'')
          else let exponent = a_AtomicResolution asset - a_DenomExponent asset;
                   (p10, inverse) = BigPow10 exponent;
                   (resultDenom, resultQuantums) =
                     (if inverse then (ediv quantums p10, ediv quantums p10 * p10)
                      else (quantums * p10, ediv (quantums * p10) p10))
               in bindr (NewCoin (a_Denom asset) resultDenom) (\<lambda>coin. Inr (resultQuantums, coin)))"

definition assets_IsPositionUpdatable :: "asset_store \<Rightarrow> uint32 \<Rightarrow> bool res" where
  "assets_IsPositionUpdatable s i =
     (case GetAsset s i of None \<Rightarrow> Inl (Err ''ErrAssetDoesNotExist'') | Some _ \<Rightarrow> Inr True)"

text \<open>One iteration of the genesis validation loop: the seen ids, the seen denoms, the next id.\<close>

definition validate_asset ::
  "Asset \<Rightarrow> uint32 set \<times> string set \<times> uint32 \<Rightarrow> (uint32 set \<times> string set \<times> uint32) res" where
  "validate_asset asset st =
     (case st of (assetIdSet, denomSet, expectedId) \<Rightarrow>
      if a_Id asset \<in> assetIdSet then Inl (Err ''ErrAssetIdAlreadyExists'')
      else if a_Denom asset \<in> denomSet then Inl (Err ''ErrAssetDenomAlreadyExists'')
      else if a_Id asset \<noteq> expectedId then Inl (Err ''ErrGapFoundInAssetId'')
      else if \<not> a_HasMarket asset \<and> a_MarketId asset > 0 then Inl (Err ''ErrInvalidMarketId'')
      else Inr (insert (a_Id asset) assetIdSet, insert (a_Denom asset) denomSet, expectedId + 1))"

definition assets_GenesisState_Validate :: "Asset list \<Rightarrow> unit res" where
  "assets_GenesisState_Validate assets =
     (case assets of
        [] \<Rightarrow> Inl (Err ''ErrNoAssetInGenesis'')
      | a # _ \<Rightarrow>
          if a \<noteq> AssetUsdc then Inl (Err ''ErrUsdcMustBeAssetZero'')
          else bindr (for_res validate_asset assets ({}, {}, 0)) (\<lambda>_. Inr ()))"

definition create_genesis_asset :: "perp_store \<Rightarrow> Asset \<Rightarrow> asset_store \<Rightarrow> asset_store res" where
  "create_genesis_asset prices asset s =
     (case CreateAsset prices (a_Id asset) (a_Symbol asset) (a_Denom asset) (a_DenomExponent asset)
             (a_HasMarket asset) (a_MarketId asset) (a_AtomicResolution asset) s of
        Inl e \<Rightarrow> Inl (Panic ''InitGenesis'')
      | Inr s' \<Rightarrow> Inr s')"

definition assets_InitGenesis :: "perp_store \<Rightarrow> Asset list \<Rightarrow> asset_store \<Rightarrow> asset_store res" where
  "assets_InitGenesis prices assets s = for_res (create_genesis_asset prices) assets s"

section \<open>The store invariant\<close>

text \<open>Assets are stored under their ids, denominations are unique, and USDC is asset zero.\<close>

definition asset_store_ok :: "asset_store \<Rightarrow> bool" where
  "asset_store_ok s \<longleftrightarrow> gm_inv s \<and>
     (\<forall>i a. gm_get s i = Some a \<longrightarrow> a_Id a = i \<and> (a_Denom a = UusdcDenom \<longleftrightarrow> i = 0)) \<and>
     (\<forall>i j a b. gm_get s i = Some a \<and> gm_get s j = Some b \<and> a_Denom a = a_Denom b \<longrightarrow> i = j)"

lemma set_GetAllAssets: "gm_inv s \<Longrightarrow> set (GetAllAssets s) = {a. \<exists>i. gm_get s i = Some a}"
  by (force simp: GetAllAssets_def gm_vals_def gm_get_Some_iff)

lemma CreateAsset_Inr:
  assumes "CreateAsset pr i sb d de hm mk ar s = Inr s'"
  shows "s' = setAsset \<lparr>a_Id = i, a_Symbol = sb, a_Denom = d, a_DenomExponent = de,
      a_HasMarket = hm, a_MarketId = mk, a_AtomicResolution = ar\<rparr> s"
    and "GetAsset s i = None" "i = 0 \<longleftrightarrow> d = UusdcDenom" "\<forall>a \<in> set (GetAllAssets s). a_Denom a \<noteq> d"
  using assms
  by (auto simp: CreateAsset_def AssetUsdc_def Let_def res_simps split: if_splits)

lemma CreateAsset_store_ok:
  assumes ok: "asset_store_ok s" and cr: "CreateAsset pr i sb d de hm mk ar s = Inr s'"
  shows "asset_store_ok s'"
proof -
  have inv: "gm_inv s" using ok by (simp add: asset_store_ok_def)
  have fresh: "gm_get s j = Some a \<Longrightarrow> a_Denom a \<noteq> d" for j a
    using CreateAsset_Inr(4)[OF cr] set_GetAllAssets[OF inv] by auto
  show ?thesis
    using ok CreateAsset_Inr(1,3)[OF cr] fresh
    by (auto simp: asset_store_ok_def setAsset_def split: if_splits)
qed

lemma asset_store_ok_replace:
  assumes ok: "asset_store_ok s" and a: "gm_get s i = Some a" "a_Id b = a_Id a" "a_Denom b = a_Denom a"
  shows "asset_store_ok (gm_set i b s)"
proof -
  have old: "\<exists>c. gm_get s j = Some c \<and> a_Id c = a_Id d \<and> a_Denom c = a_Denom d"
    if "gm_get (gm_set i b s) j = Some d" for j d
    using that a by (auto split: if_splits)
  have key: "a_Id d = j \<and> (a_Denom d = UusdcDenom \<longleftrightarrow> j = 0)" if "gm_get (gm_set i b s) j = Some d" for j d
    using old[OF that] ok unfolding asset_store_ok_def by metis
  have uniq: "j = l" if d: "gm_get (gm_set i b s) j = Some d" "gm_get (gm_set i b s) l = Some f"
    "a_Denom d = a_Denom f" for j l d f
    using old[OF d(1)] old[OF d(2)] d(3) ok unfolding asset_store_ok_def by metis
  have "gm_inv (gm_set i b s)" using ok by (simp add: asset_store_ok_def)
  with key uniq show ?thesis unfolding asset_store_ok_def by blast
qed

lemma ModifyAsset_store_ok:
  assumes ok: "asset_store_ok s" and mod: "ModifyAsset pr i hm mk s = Inr s'"
  shows "asset_store_ok s'"
proof -
  obtain a where a: "gm_get s i = Some a" "s' = setAsset (a\<lparr>a_HasMarket := hm, a_MarketId := mk\<rparr>) s"
    using mod by (auto simp: ModifyAsset_def GetAsset_def res_simps split: option.splits)
  moreover have "a_Id a = i" using ok a(1) by (simp add: asset_store_ok_def)
  ultimately show ?thesis
    using asset_store_ok_replace[OF ok a(1)] by (simp add: setAsset_def)
qed

text \<open>What the genesis validation loop has seen, related to what the store holds.\<close>

definition genesis_rel :: "uint32 set \<times> string set \<times> uint32 \<Rightarrow> asset_store \<Rightarrow> bool" where
  "genesis_rel st s \<longleftrightarrow> (case st of (ids, denoms, e) \<Rightarrow>
     asset_store_ok s \<and> (\<forall>i. gm_get s i \<noteq> None \<longleftrightarrow> i \<in> ids) \<and>
     (\<forall>a \<in> set (GetAllAssets s). a_Denom a \<in> denoms) \<and> 0 \<in> ids \<and> UusdcDenom \<in> denoms)"

lemma create_genesis_asset_step:
  assumes rel: "genesis_rel st s" and val: "validate_asset a st = Inr st'"
    and market: "a_HasMarket a \<longrightarrow> ps_prices pr (a_MarketId a) \<noteq> None"
  shows "create_genesis_asset pr a s = Inr (setAsset a s) \<and> genesis_rel st' (setAsset a s)"
proof -
  obtain ids denoms e where st: "st = (ids, denoms, e)" by (cases st)
  have v: "a_Id a \<notin> ids" "a_Denom a \<notin> denoms" "a_HasMarket a \<or> a_MarketId a = 0"
    "st' = (insert (a_Id a) ids, insert (a_Denom a) denoms, e + 1)"
    using val by (auto simp: validate_asset_def st word_neq_0_conv split: if_splits)
  have r: "GetAsset s (a_Id a) = None" "a_Id a \<noteq> 0" "a_Denom a \<noteq> UusdcDenom"
    "\<forall>b \<in> set (GetAllAssets s). a_Denom b \<noteq> a_Denom a"
    using rel v(1,2) by (auto simp: genesis_rel_def st GetAsset_def)
  have cr: "CreateAsset pr (a_Id a) (a_Symbol a) (a_Denom a) (a_DenomExponent a) (a_HasMarket a)
      (a_MarketId a) (a_AtomicResolution a) s = Inr (setAsset a s)"
    using r v(3) market by (cases a) (auto simp: CreateAsset_def AssetUsdc_def GetMarketPrice_def Let_def)
  have ok: "asset_store_ok (setAsset a s)"
    using rel CreateAsset_store_ok[OF _ cr] by (simp add: genesis_rel_def st)
  have inv: "gm_inv s" "gm_inv (setAsset a s)"
    using rel ok by (simp_all add: genesis_rel_def st asset_store_ok_def)
  have "genesis_rel st' (setAsset a s)"
    using rel ok inv by (auto simp: genesis_rel_def st v(4) set_GetAllAssets setAsset_def split: if_splits)
  with cr show ?thesis by (simp add: create_genesis_asset_def)
qed

lemma create_genesis_assets:
  assumes "genesis_rel st s" "for_res validate_asset as st = Inr st'"
    and "\<forall>a \<in> set as. a_HasMarket a \<longrightarrow> ps_prices pr (a_MarketId a) \<noteq> None"
  shows "\<exists>s'. for_res (create_genesis_asset pr) as s = Inr s' \<and> genesis_rel st' s' \<and>
    set (GetAllAssets s') = set (GetAllAssets s) \<union> set as"
  using assms
proof (induction as arbitrary: st s)
  case Nil
  then show ?case by simp
next
  case (Cons a as)
  then obtain st1 where st1: "validate_asset a st = Inr st1" "for_res validate_asset as st1 = Inr st'"
    by (auto simp: res_simps)
  have step: "create_genesis_asset pr a s = Inr (setAsset a s)" "genesis_rel st1 (setAsset a s)"
    using create_genesis_asset_step[OF Cons.prems(1) st1(1)] Cons.prems(3) by auto
  have "a_Id a \<notin> fst st"
    using st1(1) by (auto simp: validate_asset_def split: prod.splits if_splits)
  then have "gm_get s (a_Id a) = None"
    using Cons.prems(1) by (auto simp: genesis_rel_def split: prod.splits)
  moreover have "gm_inv s" "gm_inv (setAsset a s)"
    using Cons.prems(1) step(2) by (auto simp: genesis_rel_def asset_store_ok_def)
  ultimately have "set (GetAllAssets (setAsset a s)) = insert a (set (GetAllAssets s))"
    by (simp add: set_GetAllAssets setAsset_def) (use \<open>gm_get s (a_Id a) = None\<close> in force)
  with Cons.IH[OF step(2) st1(2)] Cons.prems(3) step(1) show ?case by auto
qed

text \<open>
  C39: A genesis state that passes \<^verbatim>\<open>Validate\<close>, and each of whose assets with a market has a price
  for it in the prices module, initialises without panicking, to a store that holds exactly its assets, each under its own id, with unique
  denominations and USDC, and only USDC, as asset zero.
\<close>

theorem assets_genesis_total:
  assumes "assets_GenesisState_Validate assets = Inr ()"
    and "\<forall>a \<in> set assets. a_HasMarket a \<longrightarrow> ps_prices pr (a_MarketId a) \<noteq> None"
  shows "\<exists>s. assets_InitGenesis pr assets [] = Inr s \<and> asset_store_ok s \<and>
    set (GetAllAssets s) = set assets \<and> GetAsset s 0 = Some AssetUsdc"
proof -
  obtain as st where as: "assets = AssetUsdc # as" "for_res validate_asset assets ({}, {}, 0) = Inr st"
    using assms(1) by (auto simp: assets_GenesisState_Validate_def res_simps split: list.splits if_splits)
  then have tail: "for_res validate_asset as ({0}, {UusdcDenom}, 1) = Inr st"
    by (simp add: validate_asset_def AssetUsdc_def)
  let ?s = "[(0, AssetUsdc)]"
  have head: "create_genesis_asset pr AssetUsdc [] = Inr ?s"
    by (simp add: create_genesis_asset_def CreateAsset_def AssetUsdc_def GetAsset_def GetAllAssets_def
        setAsset_def gm_vals_def)
  have "genesis_rel ({0}, {UusdcDenom}, 1) ?s"
    by (auto simp: genesis_rel_def asset_store_ok_def AssetUsdc_def GetAllAssets_def gm_get_def gm_inv_def
        gm_vals_def split: if_splits)
  from create_genesis_assets[OF this tail, of pr] assms(2) as(1) obtain s' where s':
    "for_res (create_genesis_asset pr) as ?s = Inr s'" "genesis_rel st s'"
    "set (GetAllAssets s') = set (GetAllAssets ?s) \<union> set as" by auto
  have all: "set (GetAllAssets s') = set assets"
    using s'(3) as(1) by (simp add: GetAllAssets_def gm_vals_def)
  have ok: "asset_store_ok s'" using s'(2) by (auto simp: genesis_rel_def)
  then have "AssetUsdc \<in> {a. \<exists>i. gm_get s' i = Some a}"
    using all as(1) set_GetAllAssets[of s'] by (auto simp: asset_store_ok_def)
  then have "GetAsset s' 0 = Some AssetUsdc"
    using ok by (force simp: asset_store_ok_def GetAsset_def AssetUsdc_def)
  with s'(1) ok all head as(1) show ?thesis by (simp add: assets_InitGenesis_def)
qed

theorem assets_genesis_total_witness:
  "\<exists>s. assets_InitGenesis (\<lparr>ps_perpetuals = \<lambda>_. None, ps_tiers = \<lambda>_. None, ps_prices = \<lambda>_. None\<rparr>)
      [AssetUsdc] [] = Inr s \<and> GetAsset s 0 = Some AssetUsdc"
  using assets_genesis_total[of "[AssetUsdc]" "\<lparr>ps_perpetuals = \<lambda>_. None, ps_tiers = \<lambda>_. None, ps_prices = \<lambda>_. None\<rparr>"]
  by (auto simp: assets_GenesisState_Validate_def validate_asset_def AssetUsdc_def)

section \<open>Conversion to coins\<close>

lemma AbsInt32_le_32: "AbsInt32 i \<le> MaxAssetUnitExponentAbs \<longleftrightarrow> \<bar>sint i\<bar> \<le> 32"
  using uint_AbsInt32[of i] by (simp add: MaxAssetUnitExponentAbs_def word_le_def)


lemma sint_diff_small:
  assumes "\<bar>sint (a::int32)\<bar> \<le> 32" "\<bar>sint (b::int32)\<bar> \<le> 32"
  shows "sint (a - b) = sint a - sint b"
proof -
  have "a - b = word_of_int (sint a - sint b)" by simp
  then show ?thesis
    using assms by (simp only: sint_sbintrunc') (simp add: signed_take_bit_int_eq_self)
qed

text \<open>
  The conversion of asset quantums to a bank coin is exact: the coin amount is the quantums
  scaled by ten to the difference of the exponents and rounded down, the returned quantums are
  worth exactly that amount, never exceed the input, fall short of it by less than one coin unit,
  and converting them again gives the same coin, so no fund is lost or created by rounding.
\<close>

theorem ConvertAssetToCoin_exact:
  fixes q :: int
  assumes "GetAsset s i = Some a"
    and "\<bar>sint (a_AtomicResolution a)\<bar> \<le> 32" "\<bar>sint (a_DenomExponent a)\<bar> \<le> 32"
  shows "\<exists>cq n. (let e = sint (a_AtomicResolution a) - sint (a_DenomExponent a) in
      n = floor (of_int q * 10 powi e :: rat) \<and> of_int cq * 10 powi e = (of_int n :: rat) \<and>
      cq \<le> q \<and> of_int (q - cq) * 10 powi e < (1::rat)) \<and>
      ConvertAssetToCoin NewCoin s i q = bindr (NewCoin (a_Denom a) n) (\<lambda>coin. Inr (cq, coin)) \<and>
      ConvertAssetToCoin NewCoin s i cq = ConvertAssetToCoin NewCoin s i q"
proof -
  let ?e = "sint (a_AtomicResolution a) - sint (a_DenomExponent a)"
  define p :: int where "p = 10 ^ nat \<bar>?e\<bar>"
  have p: "0 < p" by (simp add: p_def)
  have pow: "BigPow10 (a_AtomicResolution a - a_DenomExponent a) = (p, ?e < 0)"
    using BigPow10_eq[of "a_AtomicResolution a - a_DenomExponent a"] assms(2,3)
    by (simp add: sint_diff_small p_def)
  have bounds: "\<not> MaxAssetUnitExponentAbs < AbsInt32 (a_AtomicResolution a)"
    "\<not> MaxAssetUnitExponentAbs < AbsInt32 (a_DenomExponent a)"
    using assms(2,3) AbsInt32_le_32 by (simp_all add: not_less)
  have conv: "ConvertAssetToCoin NewCoin s i x =
      (if ?e < 0 then bindr (NewCoin (a_Denom a) (x div p)) (\<lambda>coin. Inr (x div p * p, coin))
       else bindr (NewCoin (a_Denom a) (x * p)) (\<lambda>coin. Inr (x, coin)))" for x
    using assms(1) p bounds by (simp add: ConvertAssetToCoin_def pow ediv_pos)
  show ?thesis
  proof (cases "?e < 0")
    case True
    then have e: "10 powi ?e = (1 / of_int p :: rat)"
      by (simp add: p_def power_int_def field_simps)
    have "floor (of_int q * 10 powi ?e :: rat) = q div p" by (simp add: e floor_div)
    moreover have "q div p * p \<le> q" "q - q div p * p < p"
      using p minus_div_mult_eq_mod[of q p] pos_mod_sign[of p q] pos_mod_bound[of p q] by linarith+
    moreover have "(of_int (q - q div p * p) :: rat) < of_int p"
      using \<open>q - q div p * p < p\<close> by (simp only: of_int_less_iff)
    ultimately show ?thesis
      using True p conv e
      by (rule_tac exI[of _ "q div p * p"], rule_tac exI[of _ "q div p"]) (simp add: Let_def)
  next
    case False
    then have e: "10 powi ?e = (of_int p :: rat)" by (simp add: p_def power_int_def)
    have "floor (of_int q * of_int p :: rat) = q * p"
      by (metis floor_of_int of_int_mult)
    then show ?thesis
      using False conv e 
      by (rule_tac exI[of _ q], rule_tac exI[of _ "q * p"]) (simp add: Let_def)
  qed
qed

theorem ConvertAssetToCoin_exact_witness:
  "ConvertAssetToCoin (\<lambda>d n. Inr \<lparr>co_Denom = d, co_Amount = n\<rparr>)
     [(1, \<lparr>a_Id = 1, a_Symbol = ''ISO'', a_Denom = ''iso'', a_DenomExponent = - 7, a_HasMarket = False,
       a_MarketId = 0, a_AtomicResolution = - 8\<rparr>)] 1 101 = Inr (100, \<lparr>co_Denom = ''iso'', co_Amount = 10\<rparr>)"
proof -
  let ?a = "\<lparr>a_Id = 1, a_Symbol = ''ISO'', a_Denom = ''iso'', a_DenomExponent = - 7, a_HasMarket = False,
       a_MarketId = 0, a_AtomicResolution = - 8\<rparr>"
  have "GetAsset [(1, ?a)] 1 = Some ?a" by (simp add: GetAsset_def gm_get_def)
  moreover have "\<lfloor>101 / 10 :: rat\<rfloor> = 10" by (rule floor_unique) auto
  ultimately show ?thesis
    using ConvertAssetToCoin_exact[of "[(1, ?a)]" 1 ?a 101 "\<lambda>d n. Inr \<lparr>co_Denom = d, co_Amount = n\<rparr>"]
    by (auto simp: Let_def)
qed

end
