(* ===== verification/Blocktime.thy ===== *)
theory Blocktime
  imports DydxPrelude
begin

text \<open>
  \<^verbatim>\<open>x/blocktime\<close>: the keeper that records, for each observed duration, the last block before which
  the chain was down at least that long. Times are nanoseconds since Go's zero time, durations
  are nanoseconds; \<^verbatim>\<open>Time.Sub\<close> saturates at the bounds of a 64-bit duration. The module is a state
  machine (genesis, begin block, end block, parameter updates by governance); its invariant is
  proved by rule induction over the reachable states.
\<close>

section \<open>Definitions: data\<close>

record BlockInfo =
  bi_Height :: uint32
  bi_Timestamp :: int

record DowntimeInfo =
  di_Duration :: int
  di_BlockInfo :: BlockInfo

record SynchronyParams =
  sp_NextBlockDelay :: int

text \<open>The store of the module; a missing value is the zero value the getters return.\<close>

record blocktime_store =
  bt_AllDowntimeInfo :: "DowntimeInfo list"
  bt_PreviousBlockInfo :: BlockInfo
  bt_DowntimeParams :: "int list"
  bt_SynchronyParams :: "SynchronyParams option"

text \<open>What the code reads of the context: block height (an \<^verbatim>\<open>int64\<close>) and block time.\<close>

record block_ctx =
  ctx_BlockHeight :: int64
  ctx_BlockTime :: int

section \<open>Definitions: operations\<close>

definition maxDuration :: int where
  "maxDuration = 2 ^ 63 - 1"

definition minDuration :: int where
  "minDuration = - (2 ^ 63)"

definition Time_Sub :: "int \<Rightarrow> int \<Rightarrow> int" where
  "Time_Sub t u = max minDuration (min maxDuration (t - u))"

definition height32 :: "block_ctx \<Rightarrow> uint32" where
  "height32 ctx = ucast (ctx_BlockHeight ctx)"

definition current_block_info :: "block_ctx \<Rightarrow> BlockInfo" where
  "current_block_info ctx = \<lparr>bi_Height = height32 ctx, bi_Timestamp = ctx_BlockTime ctx\<rparr>"

definition GetTimeSinceLastBlock :: "block_ctx \<Rightarrow> blocktime_store \<Rightarrow> int" where
  "GetTimeSinceLastBlock ctx s = Time_Sub (ctx_BlockTime ctx) (bi_Timestamp (bt_PreviousBlockInfo s))"

definition SetPreviousBlockInfo :: "BlockInfo \<Rightarrow> blocktime_store \<Rightarrow> blocktime_store" where
  "SetPreviousBlockInfo info s = s\<lparr>bt_PreviousBlockInfo := info\<rparr>"

text \<open>The loop of \<^verbatim>\<open>UpdateAllDowntimeInfo\<close>: it stops at the first duration above the delta.\<close>

fun update_infos :: "int \<Rightarrow> BlockInfo \<Rightarrow> DowntimeInfo list \<Rightarrow> DowntimeInfo list" where
  "update_infos delta b [] = []"
| "update_infos delta b (info # infos) =
     (if delta \<ge> di_Duration info then info\<lparr>di_BlockInfo := b\<rparr> # update_infos delta b infos
      else info # infos)"

definition UpdateAllDowntimeInfo :: "block_ctx \<Rightarrow> blocktime_store \<Rightarrow> blocktime_store" where
  "UpdateAllDowntimeInfo ctx s =
     (let delta = Time_Sub (ctx_BlockTime ctx) (bi_Timestamp (bt_PreviousBlockInfo s))
      in s\<lparr>bt_AllDowntimeInfo := update_infos delta (current_block_info ctx) (bt_AllDowntimeInfo s)\<rparr>)"

text \<open>The loop shared by \<^verbatim>\<open>GetDowntimeInfoFor\<close> and \<^verbatim>\<open>SetDowntimeParams\<close>: the last info before the
  first one whose duration exceeds the given duration.\<close>

fun last_info_upto :: "int \<Rightarrow> DowntimeInfo list \<Rightarrow> DowntimeInfo \<Rightarrow> DowntimeInfo" where
  "last_info_upto duration [] ret = ret"
| "last_info_upto duration (info # infos) ret =
     (if duration \<ge> di_Duration info then last_info_upto duration infos info else ret)"

definition GetDowntimeInfoFor :: "block_ctx \<Rightarrow> int \<Rightarrow> blocktime_store \<Rightarrow> DowntimeInfo" where
  "GetDowntimeInfoFor ctx duration s =
     last_info_upto duration (bt_AllDowntimeInfo s)
       \<lparr>di_Duration = 0, di_BlockInfo = current_block_info ctx\<rparr>"

fun increasing :: "int list \<Rightarrow> bool" where
  "increasing (d # e # ds) = (d < e \<and> increasing (e # ds))"
| "increasing _ = True"

definition DowntimeParams_Validate :: "int list \<Rightarrow> unit res" where
  "DowntimeParams_Validate durations =
     (if \<exists>d \<in> set durations. d \<le> 0 then Inl (Err ''ErrNonpositiveDuration'')
      else if \<not> increasing durations then Inl (Err ''ErrUnorderedDurations'')
      else Inr ())"

definition SynchronyParams_Validate :: "SynchronyParams \<Rightarrow> unit res" where
  "SynchronyParams_Validate s =
     (if sp_NextBlockDelay s < 0 then Inl (Err ''ErrNegativeNextBlockDelay'') else Inr ())"

definition SetDowntimeParams :: "block_ctx \<Rightarrow> int list \<Rightarrow> blocktime_store \<Rightarrow> blocktime_store res" where
  "SetDowntimeParams ctx durations s =
     bindr (DowntimeParams_Validate durations) (\<lambda>_.
       let newInfos = map (\<lambda>d. \<lparr>di_Duration = d, di_BlockInfo = current_block_info ctx\<rparr>) durations;
           newInfos = map (\<lambda>info. info\<lparr>di_BlockInfo :=
             di_BlockInfo (last_info_upto (di_Duration info) (bt_AllDowntimeInfo s) info)\<rparr>) newInfos
       in Inr (s\<lparr>bt_DowntimeParams := durations, bt_AllDowntimeInfo := newInfos\<rparr>))"

definition GetSynchronyParams :: "blocktime_store \<Rightarrow> SynchronyParams" where
  "GetSynchronyParams s =
     (case bt_SynchronyParams s of None \<Rightarrow> \<lparr>sp_NextBlockDelay = 0\<rparr> | Some p \<Rightarrow> p)"

definition SetSynchronyParams :: "SynchronyParams \<Rightarrow> blocktime_store \<Rightarrow> blocktime_store" where
  "SetSynchronyParams params s = s\<lparr>bt_SynchronyParams := Some params\<rparr>"

definition GetBlockDelay :: "blocktime_store \<Rightarrow> int" where
  "GetBlockDelay s = sp_NextBlockDelay (GetSynchronyParams s)"

definition UpdateDowntimeParams ::
  "string set \<Rightarrow> block_ctx \<Rightarrow> string \<Rightarrow> int list \<Rightarrow> blocktime_store \<Rightarrow> blocktime_store res" where
  "UpdateDowntimeParams authorities ctx authority params s =
     (if authority \<notin> authorities then Inl (Err ''ErrInvalidSigner'')
      else SetDowntimeParams ctx params s)"

definition UpdateSynchronyParams ::
  "string set \<Rightarrow> string \<Rightarrow> SynchronyParams \<Rightarrow> blocktime_store \<Rightarrow> blocktime_store res" where
  "UpdateSynchronyParams authorities authority params s =
     (if authority \<notin> authorities then Inl (Err ''ErrInvalidSigner'')
      else Inr (SetSynchronyParams params s))"

definition blocktime_InitGenesis :: "block_ctx \<Rightarrow> int list \<Rightarrow> blocktime_store \<Rightarrow> blocktime_store res" where
  "blocktime_InitGenesis ctx params s =
     (case SetDowntimeParams ctx params s of
        Inl e \<Rightarrow> Inl (Panic ''InitGenesis'')
      | Inr s' \<Rightarrow> Inr (SetPreviousBlockInfo (current_block_info ctx) s'))"

definition blocktime_BeginBlock :: "block_ctx \<Rightarrow> blocktime_store \<Rightarrow> blocktime_store" where
  "blocktime_BeginBlock = UpdateAllDowntimeInfo"

definition blocktime_EndBlock :: "block_ctx \<Rightarrow> blocktime_store \<Rightarrow> blocktime_store" where
  "blocktime_EndBlock ctx s = SetPreviousBlockInfo (current_block_info ctx) s"

definition empty_blocktime_store :: blocktime_store where
  "empty_blocktime_store = \<lparr>bt_AllDowntimeInfo = [], bt_PreviousBlockInfo = \<lparr>bi_Height = 0, bi_Timestamp = 0\<rparr>,
     bt_DowntimeParams = [], bt_SynchronyParams = None\<rparr>"

section \<open>The module as a state machine\<close>

text \<open>
  A block begins, messages are delivered, the block ends. Heights fit in 32 bits and never
  decrease from one step to the next, which is what consensus gives.
\<close>

inductive blocktime_reachable :: "block_ctx \<Rightarrow> blocktime_store \<Rightarrow> bool" where
  genesis: "blocktime_InitGenesis ctx params empty_blocktime_store = Inr s \<Longrightarrow> blocktime_reachable ctx s"
| begin_block: "blocktime_reachable ctx s \<Longrightarrow> height32 ctx \<le> height32 ctx' \<Longrightarrow>
    blocktime_reachable ctx' (blocktime_BeginBlock ctx' s)"
| end_block: "blocktime_reachable ctx s \<Longrightarrow> blocktime_reachable ctx (blocktime_EndBlock ctx s)"
| update_downtime: "blocktime_reachable ctx s \<Longrightarrow>
    UpdateDowntimeParams authorities ctx authority params s = Inr s' \<Longrightarrow> blocktime_reachable ctx s'"
| update_synchrony: "blocktime_reachable ctx s \<Longrightarrow>
    UpdateSynchronyParams authorities authority sp s = Inr s' \<Longrightarrow> blocktime_reachable ctx s'"

definition blocktime_inv :: "block_ctx \<Rightarrow> blocktime_store \<Rightarrow> bool" where
  "blocktime_inv ctx s =
     (sorted_wrt (<) (map di_Duration (bt_AllDowntimeInfo s)) \<and>
      sorted_wrt (\<ge>) (map (\<lambda>i. bi_Height (di_BlockInfo i)) (bt_AllDowntimeInfo s)) \<and>
      (\<forall>i \<in> set (bt_AllDowntimeInfo s). 0 < di_Duration i \<and> bi_Height (di_BlockInfo i) \<le> height32 ctx) \<and>
      map di_Duration (bt_AllDowntimeInfo s) = bt_DowntimeParams s)"

lemma increasing_sorted: "increasing ds \<longleftrightarrow> sorted_wrt (<) ds"
  by (induction ds rule: increasing.induct) (auto intro: order.strict_trans)

lemma update_infos_eq:
  "sorted_wrt (<) (map di_Duration infos) \<Longrightarrow>
   update_infos delta b infos = map (\<lambda>i. if di_Duration i \<le> delta then i\<lparr>di_BlockInfo := b\<rparr> else i) infos"
proof (induction infos)
  case Nil
  then show ?case by simp
next
  case (Cons i infos)
  show ?case
  proof (cases "di_Duration i \<le> delta")
    case True
    then show ?thesis using Cons by simp
  next
    case False
    then have "map (\<lambda>i. if di_Duration i \<le> delta then i\<lparr>di_BlockInfo := b\<rparr> else i) infos = infos"
      using Cons.prems by (intro map_idI) auto
    with False show ?thesis by simp
  qed
qed

definition info_height :: "DowntimeInfo \<Rightarrow> uint32" where
  "info_height i = bi_Height (di_BlockInfo i)"

lemma last_info_upto_in:
  "last_info_upto d infos r = r \<or>
   last_info_upto d infos r \<in> set infos \<and> di_Duration (last_info_upto d infos r) \<le> d"
proof (induction infos arbitrary: r)
  case Nil
  then show ?case by simp
next
  case (Cons i infos)
  from Cons[of i] show ?case by auto
qed

lemma last_info_upto_duration:
  "di_Duration r \<le> d \<Longrightarrow> di_Duration (last_info_upto d infos r) \<le> d"
  by (induction infos arbitrary: r) auto

lemma last_info_upto_le:
  assumes "sorted_wrt (\<ge>) (map info_height infos)" "\<forall>i \<in> set infos. info_height i \<le> info_height r"
  shows "info_height (last_info_upto d infos r) \<le> info_height r"
  using last_info_upto_in[of d infos r] assms(2) by auto

lemma last_info_upto_antitone:
  assumes "sorted_wrt (\<ge>) (map info_height infos)" "\<forall>i \<in> set infos. info_height i \<le> info_height r"
    and "d \<le> d'" "info_height r' = info_height r"
  shows "info_height (last_info_upto d' infos r') \<le> info_height (last_info_upto d infos r)"
  using assms
proof (induction infos arbitrary: r r')
  case Nil
  then show ?case by simp
next
  case (Cons i infos)
  show ?case
  proof (cases "di_Duration i \<le> d")
    case True
    then show ?thesis using Cons by auto
  next
    case False
    have "info_height (last_info_upto d' infos i) \<le> info_height i"
      using Cons.prems by (intro last_info_upto_le) auto
    with False Cons.prems show ?thesis by auto
  qed
qed

lemma blocktime_inv_alt: "blocktime_inv ctx s \<longleftrightarrow>
    sorted_wrt (<) (map di_Duration (bt_AllDowntimeInfo s)) \<and>
    sorted_wrt (\<ge>) (map info_height (bt_AllDowntimeInfo s)) \<and>
    (\<forall>i \<in> set (bt_AllDowntimeInfo s). 0 < di_Duration i \<and> info_height i \<le> height32 ctx) \<and>
    map di_Duration (bt_AllDowntimeInfo s) = bt_DowntimeParams s"
  by (simp add: blocktime_inv_def info_height_def[abs_def])

lemma info_height_update [simp]:
  "info_height (i\<lparr>di_BlockInfo := b\<rparr>) = bi_Height b"
  "info_height \<lparr>di_Duration = d, di_BlockInfo = b\<rparr> = bi_Height b"
  "bi_Height (di_BlockInfo i) = info_height i"
  by (simp_all add: info_height_def)

lemma bi_Height_current [simp]: "bi_Height (current_block_info ctx) = height32 ctx"
  by (simp add: current_block_info_def)

lemma sorted_antitone_updates:
  assumes "sorted_wrt (<) (map di_Duration infos)" "sorted_wrt (\<ge>) (map info_height infos)"
    and "\<forall>i \<in> set infos. info_height i \<le> bi_Height b"
  shows "sorted_wrt (\<ge>) (map info_height (update_infos delta b infos))"
  using assms by (induction infos) (auto simp: update_infos_eq)

lemma BeginBlock_inv:
  assumes inv: "blocktime_inv ctx s" and le: "height32 ctx \<le> height32 ctx'"
  shows "blocktime_inv ctx' (blocktime_BeginBlock ctx' s)"
proof -
  have "\<forall>i \<in> set (bt_AllDowntimeInfo s). info_height i \<le> height32 ctx'"
    using inv le by (auto simp: blocktime_inv_alt)
  with inv show ?thesis
    using sorted_antitone_updates[of "bt_AllDowntimeInfo s" "current_block_info ctx'"]
    by (auto simp: blocktime_inv_alt blocktime_BeginBlock_def UpdateAllDowntimeInfo_def Let_def
        update_infos_eq comp_def if_distrib cong: if_cong)
qed

lemma SetDowntimeParams_inv:
  assumes inv: "blocktime_inv ctx s" and set: "SetDowntimeParams ctx ds s = Inr s'"
  shows "blocktime_inv ctx s'"
proof -
  let ?new = "\<lambda>d. \<lparr>di_Duration = d, di_BlockInfo = current_block_info ctx\<rparr>"
  let ?h = "\<lambda>d. info_height (last_info_upto d (bt_AllDowntimeInfo s) (?new d))"
  have ds: "sorted_wrt (<) ds" "\<forall>d \<in> set ds. 0 < d"
    using set by (auto simp: SetDowntimeParams_def DowntimeParams_Validate_def res_simps increasing_sorted
        not_le split: if_splits)
  have mono: "?h d' \<le> ?h d" if "d < d'" for d d'
    using inv that by (intro last_info_upto_antitone) (auto simp: blocktime_inv_alt)
  have bound: "?h d \<le> height32 ctx" for d
    using last_info_upto_in[of d "bt_AllDowntimeInfo s" "?new d"] inv by (auto simp: blocktime_inv_alt)
  have "sorted_wrt (\<ge>) (map ?h ds)"
    unfolding sorted_wrt_map by (rule sorted_wrt_mono_rel[OF _ ds(1)]) (use mono in blast)
  with ds bound show ?thesis
    using set by (auto simp: SetDowntimeParams_def res_simps blocktime_inv_alt Let_def comp_def)
qed

lemma blocktime_reachable_inv: "blocktime_reachable ctx s \<Longrightarrow> blocktime_inv ctx s"
proof (induction rule: blocktime_reachable.induct)
  case (genesis ctx params s)
  then obtain s1 where s1: "SetDowntimeParams ctx params empty_blocktime_store = Inr s1"
    "s = SetPreviousBlockInfo (current_block_info ctx) s1"
    by (cases "SetDowntimeParams ctx params empty_blocktime_store") (simp_all add: blocktime_InitGenesis_def)
  have "blocktime_inv ctx empty_blocktime_store"
    by (simp add: blocktime_inv_def empty_blocktime_store_def)
  from SetDowntimeParams_inv[OF this s1(1)] s1(2) show ?case
    by (auto simp: blocktime_inv_def SetPreviousBlockInfo_def)
next
  case (begin_block ctx s ctx')
  then show ?case by (intro BeginBlock_inv)
next
  case (end_block ctx s)
  then show ?case by (auto simp: blocktime_EndBlock_def SetPreviousBlockInfo_def blocktime_inv_def)
next
  case (update_downtime ctx s authorities authority params s')
  then show ?case using SetDowntimeParams_inv by (auto simp: UpdateDowntimeParams_def split: if_splits)
next
  case (update_synchrony ctx s authorities authority sp s')
  then show ?case by (auto simp: UpdateSynchronyParams_def SetSynchronyParams_def blocktime_inv_def split: if_splits)
qed

text \<open>
  C40: In every reachable state of the blocktime module an outage is never missed: after a block
  begins, the downtime reported for any non-negative duration \<open>d\<close> (observed or not) is the current
  block whenever the time since the previous block is at least \<open>d\<close>; and a change of the observed
  durations by governance never makes the reported block older, for any duration.
\<close>

theorem outage_never_missed:
  assumes "blocktime_reachable ctx s" "height32 ctx \<le> height32 ctx'"
  shows "(0 \<le> d \<and> d \<le> GetTimeSinceLastBlock ctx' s \<longrightarrow>
      bi_Height (di_BlockInfo (GetDowntimeInfoFor ctx' d (blocktime_BeginBlock ctx' s))) = height32 ctx') \<and>
    (SetDowntimeParams ctx ds s = Inr s' \<longrightarrow>
      bi_Height (di_BlockInfo (GetDowntimeInfoFor ctx d s)) \<le>
      bi_Height (di_BlockInfo (GetDowntimeInfoFor ctx d s')))"
proof (intro conjI impI)
  let ?cur = "\<lparr>di_Duration = 0, di_BlockInfo = current_block_info ctx'\<rparr>"
  have inv: "blocktime_inv ctx s" using assms(1) by (rule blocktime_reachable_inv)
  { assume d: "0 \<le> d \<and> d \<le> GetTimeSinceLastBlock ctx' s"
    let ?infos = "bt_AllDowntimeInfo (blocktime_BeginBlock ctx' s)"
    let ?l = "last_info_upto d ?infos ?cur"
    have "di_Duration ?l \<le> d" using d by (intro last_info_upto_duration) simp
    moreover have "?l = ?cur \<or> ?l \<in> set ?infos" using last_info_upto_in by blast
    ultimately have "info_height ?l = height32 ctx'"
      using d inv by (auto simp: blocktime_BeginBlock_def UpdateAllDowntimeInfo_def Let_def update_infos_eq
          blocktime_inv_alt GetTimeSinceLastBlock_def split: if_splits)
    then show "bi_Height (di_BlockInfo (GetDowntimeInfoFor ctx' d (blocktime_BeginBlock ctx' s))) = height32 ctx'"
      by (simp add: GetDowntimeInfoFor_def) }
  { assume set: "SetDowntimeParams ctx ds s = Inr s'"
    let ?cur = "\<lparr>di_Duration = 0, di_BlockInfo = current_block_info ctx\<rparr>"
    let ?l = "last_info_upto d (bt_AllDowntimeInfo s') ?cur"
    have old: "info_height (last_info_upto d (bt_AllDowntimeInfo s) ?cur) \<le> height32 ctx"
      using last_info_upto_in[of d "bt_AllDowntimeInfo s" ?cur] inv by (auto simp: blocktime_inv_alt)
    have "?l = ?cur \<or> ?l \<in> set (bt_AllDowntimeInfo s') \<and> di_Duration ?l \<le> d"
      by (rule last_info_upto_in)
    then have "info_height (last_info_upto d (bt_AllDowntimeInfo s) ?cur) \<le> info_height ?l"
    proof
      assume l: "?l \<in> set (bt_AllDowntimeInfo s') \<and> di_Duration ?l \<le> d"
      then obtain e where e: "di_Duration ?l = e"
        "info_height ?l = info_height (last_info_upto e (bt_AllDowntimeInfo s)
           \<lparr>di_Duration = e, di_BlockInfo = current_block_info ctx\<rparr>)"
        using set by (auto simp: SetDowntimeParams_def res_simps Let_def)
      with l inv show ?thesis
        unfolding e(2) by (intro last_info_upto_antitone) (auto simp: blocktime_inv_alt)
    qed (use old in simp)
    then show "bi_Height (di_BlockInfo (GetDowntimeInfoFor ctx d s)) \<le>
      bi_Height (di_BlockInfo (GetDowntimeInfoFor ctx d s'))"
      by (simp add: GetDowntimeInfoFor_def) }
qed

text \<open>A chain that observes 5 and 30 minutes and restarts at height 10 after six minutes.\<close>

definition ex_genesis_store :: blocktime_store where
  "ex_genesis_store = \<lparr>bt_AllDowntimeInfo =
      [\<lparr>di_Duration = 300, di_BlockInfo = \<lparr>bi_Height = 1, bi_Timestamp = 1000\<rparr>\<rparr>,
       \<lparr>di_Duration = 1800, di_BlockInfo = \<lparr>bi_Height = 1, bi_Timestamp = 1000\<rparr>\<rparr>],
     bt_PreviousBlockInfo = \<lparr>bi_Height = 1, bi_Timestamp = 1000\<rparr>,
     bt_DowntimeParams = [300, 1800], bt_SynchronyParams = None\<rparr>"

definition ex_ctx :: "int64 \<Rightarrow> int \<Rightarrow> block_ctx" where
  "ex_ctx h t = \<lparr>ctx_BlockHeight = h, ctx_BlockTime = t\<rparr>"

lemma ex_genesis_reachable: "blocktime_reachable (ex_ctx 1 1000) ex_genesis_store"
  by (rule blocktime_reachable.genesis[where params = "[300, 1800]"])
    (simp add: blocktime_InitGenesis_def SetDowntimeParams_def DowntimeParams_Validate_def
      empty_blocktime_store_def ex_genesis_store_def SetPreviousBlockInfo_def current_block_info_def
      height32_def ex_ctx_def)

theorem outage_never_missed_witness:
  "bi_Height (di_BlockInfo (GetDowntimeInfoFor (ex_ctx 10 1360) 320
     (blocktime_BeginBlock (ex_ctx 10 1360) ex_genesis_store))) = 10"
  using outage_never_missed[OF ex_genesis_reachable, of "ex_ctx 10 1360" 320]
  by (simp add: ex_ctx_def height32_def GetTimeSinceLastBlock_def ex_genesis_store_def Time_Sub_def
      maxDuration_def minDuration_def)

end
