(* ===== verification/SubaccountKeeper.thy ===== *)
theory SubaccountKeeper
  imports SubaccountLib Assets Blocktime
begin

text \<open>
  The subaccounts keeper (\<^verbatim>\<open>x/subaccounts/keeper\<close>: \<^verbatim>\<open>subaccount.go\<close>, \<^verbatim>\<open>isolated_subaccount.go\<close>,
  \<^verbatim>\<open>negative_tnc_subaccount.go\<close>, \<^verbatim>\<open>leverage.go\<close>). The state is a record of the stores the keeper
  reads and writes (its own, and those of the perpetuals, prices, assets, blocktime and bank
  keepers it calls). Mutating methods are steps: they return a result together with the state they
  leave behind, also on an error. The Cosmos SDK (bank transfers, module addresses, coins, bech32)
  is a record of parameters. Metrics, logs and full-node streaming are not modelled.
\<close>

section \<open>Definitions: state\<close>

datatype subaccount_event =
    SubaccountUpdateEvent SubaccountId "PerpetualPosition list" "AssetPosition list" "(uint32, int) gomap"
  | SettledFundingEvent SubaccountId uint32 int

record 'b keeper_state =
  ks_subaccounts :: "SubaccountId \<Rightarrow> Subaccount option"
  ks_leverage :: "SubaccountId \<Rightarrow> (uint32 \<times> uint32) list option"
  ks_negTnc :: "string \<Rightarrow> uint32 option"
  ks_perps :: perp_store
  ks_assets :: asset_store
  ks_blocktime :: blocktime_store
  ks_ctx :: block_ctx
  ks_bank :: 'b
  ks_events :: "subaccount_event list"

record 'b sdk =
  x_SendCoins :: "string \<Rightarrow> string \<Rightarrow> Coin list \<Rightarrow> ('b, unit) step"
  x_GetBalance :: "'b \<Rightarrow> string \<Rightarrow> string \<Rightarrow> int"
  x_BlockedAddr :: "string \<Rightarrow> bool"
  x_NewModuleAddress :: "string \<Rightarrow> string"
  x_AccAddressFromBech32 :: "string \<Rightarrow> string res"
  x_NewCoin :: "string \<Rightarrow> int \<Rightarrow> Coin res"

text \<open>A bank operation run on the bank's part of the state.\<close>

definition on_bank :: "('b, 'a) step \<Rightarrow> ('b keeper_state, 'a) step" where
  "on_bank m s = (case m (ks_bank s) of (r, b) \<Rightarrow> (r, s\<lparr>ks_bank := b\<rparr>))"

fun FormatUint :: "nat \<Rightarrow> string" where
  "FormatUint n = (if n < 10 then [char_of (48 + n)]
     else FormatUint (n div 10) @ [char_of (48 + n mod 10)])"

declare FormatUint.simps [simp del]

definition UintToString :: "uint32 \<Rightarrow> string" where
  "UintToString i = FormatUint (unat i)"

definition subaccounts_ModuleName :: string where
  "subaccounts_ModuleName = ''subaccounts''"

definition ModuleAddress :: "'b sdk \<Rightarrow> string" where
  "ModuleAddress x = x_NewModuleAddress x subaccounts_ModuleName"

definition CrossCollateralSuffix :: string where
  "CrossCollateralSuffix = ''cross''"

section \<open>Definitions: subaccount store\<close>

definition SetSubaccount :: "Subaccount \<Rightarrow> 'b keeper_state \<Rightarrow> 'b keeper_state" where
  "SetSubaccount subaccount s =
     (if length (sa_PerpetualPositions subaccount) = 0 \<and> length (sa_AssetPositions subaccount) = 0
      then s\<lparr>ks_subaccounts := (ks_subaccounts s)(sa_Id subaccount := None)\<rparr>
      else s\<lparr>ks_subaccounts := (ks_subaccounts s)(sa_Id subaccount \<mapsto> subaccount)\<rparr>)"

definition GetSubaccount :: "'b keeper_state \<Rightarrow> SubaccountId \<Rightarrow> Subaccount" where
  "GetSubaccount s i =
     (case ks_subaccounts s i of
        None \<Rightarrow> \<lparr>sa_Id = i, sa_AssetPositions = [], sa_PerpetualPositions = [], sa_MarginEnabled = False\<rparr>
      | Some val \<Rightarrow> val)"

definition GetCollateralPoolFromPerpetualId :: "'b sdk \<Rightarrow> 'b keeper_state \<Rightarrow> uint32 \<Rightarrow> string res" where
  "GetCollateralPoolFromPerpetualId x s perpetualId =
     bindr (GetPerpetual (ks_perps s) perpetualId) (\<lambda>perpetual.
       if pp_MarketType (p_Params perpetual) = PERPETUAL_MARKET_TYPE_ISOLATED
       then Inr (x_NewModuleAddress x
                  (subaccounts_ModuleName @ '':'' @ UintToString (pp_Id (p_Params perpetual))))
       else Inr (x_NewModuleAddress x subaccounts_ModuleName))"

definition getCollateralPoolForSubaccount :: "'b sdk \<Rightarrow> 'b keeper_state \<Rightarrow> Subaccount \<Rightarrow> string res" where
  "getCollateralPoolForSubaccount x s subaccount =
     (case sa_PerpetualPositions subaccount of
        [] \<Rightarrow> Inr (ModuleAddress x)
      | p # _ \<Rightarrow> GetCollateralPoolFromPerpetualId x s (po_PerpetualId p))"

definition GetCollateralPoolForSubaccount :: "'b sdk \<Rightarrow> 'b keeper_state \<Rightarrow> SubaccountId \<Rightarrow> string res" where
  "GetCollateralPoolForSubaccount x s i = getCollateralPoolForSubaccount x s (GetSubaccount s i)"

section \<open>Definitions: leverage store\<close>

definition SetLeverage :: "SubaccountId \<Rightarrow> LeverageMap \<Rightarrow> 'b keeper_state \<Rightarrow> 'b keeper_state" where
  "SetLeverage subaccountId leverageMap s =
     s\<lparr>ks_leverage := (ks_leverage s)(subaccountId \<mapsto>
        map (\<lambda>perpetualId. (perpetualId, the (gm_get leverageMap perpetualId))) (gm_keys leverageMap))\<rparr>"

definition GetLeverage :: "'b keeper_state \<Rightarrow> SubaccountId \<Rightarrow> LeverageMap option" where
  "GetLeverage s subaccountId =
     map_option (\<lambda>entries. fold (\<lambda>(k, v) m. gm_set k v m) entries []) (ks_leverage s subaccountId)"

section \<open>Definitions: settled updates\<close>

record settle_state =
  st_idToSettledSubaccount :: "SubaccountId \<Rightarrow> Subaccount option"
  st_idToLeverageMap :: "SubaccountId \<Rightarrow> LeverageMap option"
  st_fundingPayments :: "SubaccountId \<Rightarrow> (uint32, int) gomap"
  st_settledUpdates :: "SettledUpdate list"

definition settle_update ::
  "'b keeper_state \<Rightarrow> PerpInfos \<Rightarrow> bool \<Rightarrow> Update \<Rightarrow> settle_state \<Rightarrow> settle_state res" where
  "settle_update s perpInfos requireUniqueSubaccount u st =
     (let i = u_SubaccountId u
      in case st_idToSettledSubaccount st i of
        Some settledSubaccount \<Rightarrow>
          if requireUniqueSubaccount then Inl (Err ''ErrNonUniqueUpdatesSubaccount'')
          else let leverageMap =
                     (if length (u_PerpetualUpdates u) > 0
                         \<or> length (sa_PerpetualPositions settledSubaccount) > 0
                      then st_idToLeverageMap st i else None)
               in Inr (st\<lparr>st_settledUpdates := st_settledUpdates st @
                    [\<lparr>su_SettledSubaccount = settledSubaccount, su_AssetUpdates = u_AssetUpdates u,
                      su_PerpetualUpdates = u_PerpetualUpdates u, su_LeverageMap = leverageMap\<rparr>]\<rparr>)
      | None \<Rightarrow>
          bindr (GetSettledSubaccountWithPerpetuals (GetSubaccount s i) perpInfos)
            (\<lambda>(settledSubaccount, fundingPayments).
              let leverageMap =
                    (if length (u_PerpetualUpdates u) > 0
                        \<or> length (sa_PerpetualPositions settledSubaccount) > 0
                     then GetLeverage s i else None)
              in Inr (st\<lparr>st_idToSettledSubaccount := (st_idToSettledSubaccount st)(i \<mapsto> settledSubaccount),
                   st_idToLeverageMap := (st_idToLeverageMap st)(i := leverageMap),
                   st_fundingPayments := (st_fundingPayments st)(i := fundingPayments),
                   st_settledUpdates := st_settledUpdates st @
                    [\<lparr>su_SettledSubaccount = settledSubaccount, su_AssetUpdates = u_AssetUpdates u,
                      su_PerpetualUpdates = u_PerpetualUpdates u, su_LeverageMap = leverageMap\<rparr>]\<rparr>)))"

definition getSettledUpdates ::
  "'b keeper_state \<Rightarrow> Update list \<Rightarrow> PerpInfos \<Rightarrow> bool
   \<Rightarrow> (SettledUpdate list \<times> (SubaccountId \<Rightarrow> (uint32, int) gomap)) res" where
  "getSettledUpdates s updates perpInfos requireUniqueSubaccount =
     bindr (for_res (settle_update s perpInfos requireUniqueSubaccount) updates
              \<lparr>st_idToSettledSubaccount = (\<lambda>_. None), st_idToLeverageMap = (\<lambda>_. None),
               st_fundingPayments = (\<lambda>_. []), st_settledUpdates = []\<rparr>)
       (\<lambda>st. Inr (st_settledUpdates st, st_fundingPayments st))"

text \<open>The perpetuals of the updated accounts and of the updates, with a cache of liquidity tiers.\<close>

definition relevant_perp_ids :: "'b keeper_state \<Rightarrow> Update list \<Rightarrow> uint32 list" where
  "relevant_perp_ids s updates =
     gm_keys (gm_of_list (\<lambda>k. k) (concat (map (\<lambda>u.
       map po_PerpetualId (sa_PerpetualPositions (GetSubaccount s (u_SubaccountId u))) @
       map pu_PerpetualId (u_PerpetualUpdates u)) updates)))"

definition add_perp_info ::
  "perp_store \<Rightarrow> uint32 \<Rightarrow> (uint32 \<Rightarrow> LiquidityTier option) \<times> PerpInfos
   \<Rightarrow> ((uint32 \<Rightarrow> LiquidityTier option) \<times> PerpInfos) res" where
  "add_perp_info ps perpId st =
     (case st of (ltCache, perpInfos) \<Rightarrow>
      bindr (GetPerpetualAndMarketPrice ps perpId) (\<lambda>(perpetual, price).
        let ltId = pp_LiquidityTier (p_Params perpetual)
        in bindr (case ltCache ltId of
                    Some liquidityTier \<Rightarrow> Inr (liquidityTier, ltCache)
                  | None \<Rightarrow> bindr (GetLiquidityTier ps ltId) (\<lambda>liquidityTier.
                      Inr (liquidityTier, ltCache(ltId \<mapsto> liquidityTier))))
             (\<lambda>(liquidityTier, ltCache).
               Inr (ltCache, perpInfos(perpId \<mapsto>
                 \<lparr>pi_Perpetual = perpetual, pi_Price = price, pi_LiquidityTier = liquidityTier\<rparr>)))))"

definition GetAllRelevantPerpetuals :: "'b keeper_state \<Rightarrow> Update list \<Rightarrow> PerpInfos res" where
  "GetAllRelevantPerpetuals s updates =
     bindr (for_res (add_perp_info (ks_perps s)) (relevant_perp_ids s updates) (\<lambda>_. None, \<lambda>_. None))
       (\<lambda>(_, perpInfos). Inr perpInfos)"

section \<open>Definitions: isolated perpetuals\<close>

definition is_isolated_info :: "PerpInfo \<Rightarrow> bool" where
  "is_isolated_info i = (pp_MarketType (p_Params (pi_Perpetual i)) = PERPETUAL_MARKET_TYPE_ISOLATED)"

text \<open>The search loop: the first id of an isolated perpetual; unknown ids before it panic.\<close>

fun first_isolated :: "PerpInfos \<Rightarrow> uint32 list \<Rightarrow> uint32 option res" where
  "first_isolated perpInfos [] = Inr None"
| "first_isolated perpInfos (k # ks) =
     bindr (MustGet perpInfos k) (\<lambda>perpInfo.
       if is_isolated_info perpInfo then Inr (Some k) else first_isolated perpInfos ks)"

definition isValidIsolatedPerpetualUpdates :: "SettledUpdate \<Rightarrow> PerpInfos \<Rightarrow> UpdateResult res" where
  "isValidIsolatedPerpetualUpdates settledUpdate perpInfos =
     (if length (su_PerpetualUpdates settledUpdate) = 0 then Inr Success
      else bindr (first_isolated perpInfos (map pu_PerpetualId (su_PerpetualUpdates settledUpdate)))
       (\<lambda>isolatedUpdate.
        bindr (first_isolated perpInfos
                (map po_PerpetualId (sa_PerpetualPositions (su_SettledSubaccount settledUpdate))))
         (\<lambda>isolatedPosition.
          let hasIsolatedUpdate = (isolatedUpdate \<noteq> None);
              isolatedUpdatePerpetualId = (case isolatedUpdate of Some k \<Rightarrow> k | None \<Rightarrow> -1);
              isIsolatedSubaccount = (isolatedPosition \<noteq> None);
              isolatedPositionPerpetualId = (case isolatedPosition of Some k \<Rightarrow> k | None \<Rightarrow> -1);
              hasPerpetualPositions =
                (length (sa_PerpetualPositions (su_SettledSubaccount settledUpdate)) > 0)
          in if isIsolatedSubaccount \<and> \<not> hasIsolatedUpdate
             then Inr ViolatesIsolatedSubaccountConstraints
             else if \<not> isIsolatedSubaccount \<and> hasPerpetualPositions \<and> hasIsolatedUpdate
             then Inr ViolatesIsolatedSubaccountConstraints
             else if hasIsolatedUpdate \<and> length (su_PerpetualUpdates settledUpdate) > 1
             then Inr ViolatesIsolatedSubaccountConstraints
             else if isIsolatedSubaccount \<and> hasIsolatedUpdate
                     \<and> isolatedPositionPerpetualId \<noteq> isolatedUpdatePerpetualId
             then Inr ViolatesIsolatedSubaccountConstraints
             else Inr Success)))"

definition checkIsolatedSubaccountConstraints ::
  "SettledUpdate list \<Rightarrow> PerpInfos \<Rightarrow> (bool \<times> UpdateResult list) res" where
  "checkIsolatedSubaccountConstraints settledUpdates perpInfos =
     bindr (map_res (\<lambda>u. isValidIsolatedPerpetualUpdates u perpInfos) settledUpdates)
       (\<lambda>successPerUpdate. Inr (list_all (\<lambda>r. r = Success) successPerUpdate, successPerUpdate))"

datatype PositionStateTransition = Opened | Closed

record IsolatedPerpetualPositionStateTransition =
  it_SubaccountId :: SubaccountId
  it_PerpetualId :: uint32
  it_QuoteQuantums :: int
  it_Transition :: PositionStateTransition

definition GetIsolatedPerpetualStateTransition ::
  "SettledUpdate \<Rightarrow> PerpInfos \<Rightarrow> IsolatedPerpetualPositionStateTransition option res" where
  "GetIsolatedPerpetualStateTransition settledUpdate perpInfos =
     (let updatedSubaccount = su_SettledSubaccount settledUpdate
      in case su_PerpetualUpdates settledUpdate of
        [] \<Rightarrow> Inr None
      | perpetualUpdate # rest \<Rightarrow>
          if rest \<noteq> [] \<or> length (sa_PerpetualPositions updatedSubaccount) > 1 then Inr None
          else bindr (MustGet perpInfos (pu_PerpetualId perpetualUpdate)) (\<lambda>perpInfo.
            if \<not> is_isolated_info perpInfo then Inr None
            else case sa_PerpetualPositions updatedSubaccount of
              [] \<Rightarrow> Inr (Some \<lparr>it_SubaccountId = sa_Id updatedSubaccount,
                      it_PerpetualId = pu_PerpetualId perpetualUpdate,
                      it_QuoteQuantums = GetUsdcPosition updatedSubaccount, it_Transition = Closed\<rparr>)
            | perpetualPosition # _ \<Rightarrow>
                if pu_BigQuantumsDelta perpetualUpdate = po_Quantums perpetualPosition
                then (case su_AssetUpdates settledUpdate of
                        [assetUpdate] \<Rightarrow>
                          if au_AssetId assetUpdate \<noteq> AssetUsdcId
                          then Inl (Err ''ErrFailedToUpdateSubaccounts'')
                          else Inr (Some \<lparr>it_SubaccountId = sa_Id updatedSubaccount,
                            it_PerpetualId = pu_PerpetualId perpetualUpdate,
                            it_QuoteQuantums = GetUsdcPosition updatedSubaccount
                              - au_BigQuantumsDelta assetUpdate, it_Transition = Opened\<rparr>)
                      | _ \<Rightarrow> Inl (Err ''ErrFailedToUpdateSubaccounts''))
                else Inr None))"

text \<open>The branch for an unknown transition value is unreachable: the type has only two values.\<close>

definition transferCollateralForIsolatedPerpetual ::
  "'b sdk \<Rightarrow> IsolatedPerpetualPositionStateTransition option \<Rightarrow> ('b keeper_state, unit) step" where
  "transferCollateralForIsolatedPerpetual x stateTransition =
     (case stateTransition of
        None \<Rightarrow> retM ()
      | Some t \<Rightarrow>
          if sgn (it_QuoteQuantums t) = 0 then retM ()
          else bindM (liftM (\<lambda>s. GetCollateralPoolFromPerpetualId x s (it_PerpetualId t)))
            (\<lambda>isolatedCollateralPoolAddr.
              let (fromModuleAddr, toModuleAddr) =
                    (case it_Transition t of
                       Opened \<Rightarrow> (ModuleAddress x, isolatedCollateralPoolAddr)
                     | Closed \<Rightarrow> (isolatedCollateralPoolAddr, ModuleAddress x))
              in if sgn (it_QuoteQuantums t) = -1
                 then failM (Err ''ErrFailedToUpdateSubaccounts'')
                 else bindM (liftM (\<lambda>s. ConvertAssetToCoin (x_NewCoin x) (ks_assets s) AssetUsdcId
                              (it_QuoteQuantums t)))
                   (\<lambda>(_, coinToTransfer).
                     on_bank (x_SendCoins x fromModuleAddr toModuleAddr [coinToTransfer]))))"

definition computeAndExecuteCollateralTransfer ::
  "'b sdk \<Rightarrow> PerpInfos \<Rightarrow> SettledUpdate \<Rightarrow> ('b keeper_state, unit) step" where
  "computeAndExecuteCollateralTransfer x perpInfos settledUpdate =
     bindM (liftM (\<lambda>_. GetIsolatedPerpetualStateTransition settledUpdate perpInfos))
       (transferCollateralForIsolatedPerpetual x)"

section \<open>Definitions: negative total net collateral\<close>

definition getNegativeTncSubaccountStoreSuffix :: "'b keeper_state \<Rightarrow> uint32 \<Rightarrow> string res" where
  "getNegativeTncSubaccountStoreSuffix s perpetualId =
     bindr (IsIsolatedPerpetual (ks_perps s) perpetualId) (\<lambda>isIsolated.
       Inr (if isIsolated then UintToString perpetualId else CrossCollateralSuffix))"

definition GetNegativeTncSubaccountSeenAtBlock :: "'b keeper_state \<Rightarrow> uint32 \<Rightarrow> uint32 option res" where
  "GetNegativeTncSubaccountSeenAtBlock s perpetualId =
     bindr (getNegativeTncSubaccountStoreSuffix s perpetualId) (\<lambda>suffix. Inr (ks_negTnc s suffix))"

definition SetNegativeTncSubaccountSeenAtBlock ::
  "uint32 \<Rightarrow> uint32 \<Rightarrow> ('b keeper_state, unit) step" where
  "SetNegativeTncSubaccountSeenAtBlock perpetualId blockHeight =
     bindM (liftM (\<lambda>s. getNegativeTncSubaccountStoreSuffix s perpetualId)) (\<lambda>storeSuffix.
     bindM (liftM (\<lambda>s. Inr (ks_negTnc s storeSuffix))) (\<lambda>currentValue.
       if (case currentValue of Some v \<Rightarrow> blockHeight < v | None \<Rightarrow> False)
       then failM (Panic ''SetNegativeTncSubaccountSeenAtBlock'')
       else modifyM (\<lambda>s. s\<lparr>ks_negTnc := (ks_negTnc s)(storeSuffix \<mapsto> blockHeight)\<rparr>)))"

text \<open>The suffixes of the collateral pools of the settled accounts, without duplicates.\<close>

definition add_suffix :: "'b keeper_state \<Rightarrow> SettledUpdate \<Rightarrow> string list \<Rightarrow> string list res" where
  "add_suffix s u suffixes =
     bindr (case sa_PerpetualPositions (su_SettledSubaccount u) of
              [] \<Rightarrow> Inr CrossCollateralSuffix
            | p # _ \<Rightarrow> getNegativeTncSubaccountStoreSuffix s (po_PerpetualId p))
       (\<lambda>suffix. Inr (if suffix \<in> set suffixes then suffixes else suffixes @ [suffix]))"

definition getNegativeTncSubaccountStoresuffixes ::
  "'b keeper_state \<Rightarrow> SettledUpdate list \<Rightarrow> string list res" where
  "getNegativeTncSubaccountStoresuffixes s settledUpdates = for_res (add_suffix s) settledUpdates []"

definition getLastBlockNegativeSubaccountSeen ::
  "'b keeper_state \<Rightarrow> SettledUpdate list \<Rightarrow> (uint32 \<times> bool) res" where
  "getLastBlockNegativeSubaccountSeen s settledUpdates =
     bindr (getNegativeTncSubaccountStoresuffixes s settledUpdates) (\<lambda>suffixes.
       Inr (fold (\<lambda>suffix (last, exists).
              case ks_negTnc s suffix of
                Some blockHeight \<Rightarrow> if blockHeight > last then (blockHeight, True) else (last, exists)
              | None \<Rightarrow> (last, exists)) suffixes (0, False)))"

section \<open>Definitions: validation and application of updates\<close>

definition BLOCKED_AFTER_NEGATIVE_TNC_BLOCKS :: uint32 where
  "BLOCKED_AFTER_NEGATIVE_TNC_BLOCKS = 50"

definition BLOCKED_AFTER_CHAIN_OUTAGE_DURATION :: int where
  "BLOCKED_AFTER_CHAIN_OUTAGE_DURATION = 5 * 60 * 1000000000"

text \<open>The gate on withdrawals and transfers; block numbers are subtracted in 32 bits.\<close>

definition withdrawals_blocked :: "'b keeper_state \<Rightarrow> SettledUpdate list \<Rightarrow> bool res" where
  "withdrawals_blocked s settledUpdates =
     bindr (getLastBlockNegativeSubaccountSeen s settledUpdates)
       (\<lambda>(lastBlockNegativeTncSubaccountSeen, negativeTncSubaccountExists).
         let currentBlock = height32 (ks_ctx s)
         in if negativeTncSubaccountExists \<and> currentBlock < lastBlockNegativeTncSubaccountSeen
            then Inl (Panic ''internalCanUpdateSubaccounts: negative TNC block'')
            else let downtimeInfo =
                       GetDowntimeInfoFor (ks_ctx s) BLOCKED_AFTER_CHAIN_OUTAGE_DURATION (ks_blocktime s);
                     outageHeight = bi_Height (di_BlockInfo downtimeInfo);
                     chainOutageExists = (outageHeight > 0 \<and> di_Duration downtimeInfo > 0)
                 in if chainOutageExists \<and> currentBlock < outageHeight
                    then Inl (Panic ''internalCanUpdateSubaccounts: chain outage block'')
                    else let negativeTncSubaccountSeen =
                               (negativeTncSubaccountExists
                                \<and> currentBlock - lastBlockNegativeTncSubaccountSeen
                                    < BLOCKED_AFTER_NEGATIVE_TNC_BLOCKS);
                             chainOutageSeen =
                               (chainOutageExists
                                \<and> currentBlock - outageHeight < BLOCKED_AFTER_NEGATIVE_TNC_BLOCKS)
                         in Inr (negativeTncSubaccountSeen \<or> chainOutageSeen))"

definition check_perp_updatable :: "'b keeper_state \<Rightarrow> PerpetualUpdate \<Rightarrow> unit \<Rightarrow> unit res" where
  "check_perp_updatable s perpUpdate _ =
     bindr (IsPositionUpdatable (ks_perps s) (pu_PerpetualId perpUpdate)) (\<lambda>updatable.
       if updatable then Inr () else Inl (Err ''ErrProductPositionNotUpdatable''))"

definition check_asset_updatable :: "'b keeper_state \<Rightarrow> AssetUpdate \<Rightarrow> unit \<Rightarrow> unit res" where
  "check_asset_updatable s assetUpdate _ =
     bindr (assets_IsPositionUpdatable (ks_assets s) (au_AssetId assetUpdate)) (\<lambda>updatable.
       if updatable then Inr () else Inl (Err ''ErrProductPositionNotUpdatable''))"

text \<open>One iteration over the settled updates: the cache of current risks, the overall success and
  the results so far.\<close>

definition check_settled_update ::
  "'b keeper_state \<Rightarrow> PerpInfos \<Rightarrow> SettledUpdate
   \<Rightarrow> (SubaccountId \<Rightarrow> Risk option) \<times> bool \<times> UpdateResult list
   \<Rightarrow> ((SubaccountId \<Rightarrow> Risk option) \<times> bool \<times> UpdateResult list) res" where
  "check_settled_update s perpInfos u st =
     (case st of (riskCurMap, success, results) \<Rightarrow>
      bindr (for_res (check_perp_updatable s) (su_PerpetualUpdates u) ()) (\<lambda>_.
      bindr (for_res (check_asset_updatable s) (su_AssetUpdates u) ()) (\<lambda>_.
      bindr (GetRiskForSettledUpdate u perpInfos) (\<lambda>riskNew.
        if IsInitialCollateralized riskNew then Inr (riskCurMap, success, results @ [Success])
        else let saKey = sa_Id (su_SettledSubaccount u)
             in bindr (case riskCurMap saKey of
                         Some riskCur \<Rightarrow> Inr (riskCur, riskCurMap)
                       | None \<Rightarrow>
                           bindr (GetRiskForSubaccount (su_SettledSubaccount u) perpInfos (su_LeverageMap u))
                             (\<lambda>riskCur. Inr (riskCur, riskCurMap(saKey \<mapsto> riskCur))))
                  (\<lambda>(riskCur, riskCurMap).
                    let result = IsValidStateTransitionForUndercollateralizedSubaccount riskCur riskNew
                    in Inr (riskCurMap, success \<and> IsSuccess result, results @ [result]))))))"

text \<open>Open interest is changed in the local copy of the perpetual infos only, and restored on return.\<close>

definition with_open_interest_delta :: "(uint32 \<times> int) option \<Rightarrow> PerpInfos \<Rightarrow> PerpInfos res" where
  "with_open_interest_delta perpOpenInterestDelta perpInfos =
     (case perpOpenInterestDelta of
        None \<Rightarrow> Inr perpInfos
      | Some (perpetualId, baseQuantums) \<Rightarrow>
          bindr (MustGet perpInfos perpetualId) (\<lambda>perpInfo.
            let perpetual = pi_Perpetual perpInfo;
                perpetual = perpetual\<lparr>p_OpenInterest := p_OpenInterest perpetual + baseQuantums\<rparr>
            in Inr (perpInfos(perpetualId \<mapsto> perpInfo\<lparr>pi_Perpetual := perpetual\<rparr>))))"

definition internalCanUpdateSubaccountsWithLeverage ::
  "'b keeper_state \<Rightarrow> SettledUpdate list \<Rightarrow> UpdateType \<Rightarrow> PerpInfos \<Rightarrow> (bool \<times> UpdateResult list) res" where
  "internalCanUpdateSubaccountsWithLeverage s settledUpdates updateType perpInfos =
     bindr (checkIsolatedSubaccountConstraints settledUpdates perpInfos) (\<lambda>(success, successPerUpdate).
       if \<not> success then Inr (success, successPerUpdate)
       else bindr (if updateType = Withdrawal \<or> updateType = Transfer
                   then withdrawals_blocked s settledUpdates else Inr False) (\<lambda>blocked.
         if blocked
         then Inr (False, map (\<lambda>_. WithdrawalsAndTransfersBlocked) settledUpdates)
         else bindr (GetDeltaOpenInterestFromUpdates settledUpdates updateType) (\<lambda>perpOpenInterestDelta.
              bindr (with_open_interest_delta perpOpenInterestDelta perpInfos) (\<lambda>perpInfos.
              bindr (for_res (check_settled_update s perpInfos) settledUpdates (\<lambda>_. None, success, []))
                (\<lambda>(_, success, successPerUpdate). Inr (success, successPerUpdate))))))"

definition CanUpdateSubaccounts ::
  "'b keeper_state \<Rightarrow> Update list \<Rightarrow> UpdateType \<Rightarrow> (bool \<times> UpdateResult list) res" where
  "CanUpdateSubaccounts s updates updateType =
     bindr (GetAllRelevantPerpetuals s updates) (\<lambda>perpInfos.
     bindr (getSettledUpdates s updates perpInfos False) (\<lambda>(settledUpdates, _).
       internalCanUpdateSubaccountsWithLeverage s settledUpdates updateType perpInfos))"

definition modify_open_interest :: "(uint32 \<times> int) option \<Rightarrow> ('b keeper_state, unit) step" where
  "modify_open_interest perpOpenInterestDelta s =
     (case perpOpenInterestDelta of
        None \<Rightarrow> (Inr (), s)
      | Some (perpetualId, baseQuantums) \<Rightarrow>
          (case ModifyOpenInterest (ks_perps s) perpetualId baseQuantums of
             Inl e \<Rightarrow> (Inl (Err ''ErrCannotModifyPerpOpenInterestForOIMF''), s)
           | Inr ps \<Rightarrow> (Inr (), s\<lparr>ks_perps := ps\<rparr>)))"

definition apply_settled_update :: "PerpInfos \<Rightarrow> SettledUpdate \<Rightarrow> SettledUpdate res" where
  "apply_settled_update perpInfos u =
     bindr (CalculateUpdatedSubaccount u perpInfos) (\<lambda>sa. Inr (u\<lparr>su_SettledSubaccount := sa\<rparr>))"

text \<open>Writes one updated account and emits its indexer event and its funding events.\<close>

definition store_settled_update ::
  "(SubaccountId \<Rightarrow> (uint32, int) gomap) \<Rightarrow> SettledUpdate \<Rightarrow> 'b keeper_state \<Rightarrow> 'b keeper_state" where
  "store_settled_update subaccountIdToFundingPayments u s =
     (let s = SetSubaccount (su_SettledSubaccount u) s;
          i = sa_Id (su_SettledSubaccount u);
          fundingPayments = subaccountIdToFundingPayments i
      in s\<lparr>ks_events := ks_events s @
           SubaccountUpdateEvent i (GetUpdatedPerpetualPositions u fundingPayments)
             (GetUpdatedAssetPositions u) fundingPayments
           # map (\<lambda>(perpetualId, fundingPaid). SettledFundingEvent i perpetualId fundingPaid) fundingPayments\<rparr>)"

definition UpdateSubaccounts ::
  "'b sdk \<Rightarrow> Update list \<Rightarrow> UpdateType \<Rightarrow> ('b keeper_state, bool \<times> UpdateResult list) step" where
  "UpdateSubaccounts x updates updateType =
     bindM (liftM (\<lambda>s. GetAllRelevantPerpetuals s updates)) (\<lambda>perpInfos.
     bindM (liftM (\<lambda>s. getSettledUpdates s updates perpInfos True))
       (\<lambda>(settledUpdates, subaccountIdToFundingPayments).
     bindM (liftM (\<lambda>s. internalCanUpdateSubaccountsWithLeverage s settledUpdates updateType perpInfos))
       (\<lambda>(success, successPerUpdate).
       if \<not> success then retM (success, successPerUpdate)
       else bindM (liftM (\<lambda>_. GetDeltaOpenInterestFromUpdates settledUpdates updateType))
              (\<lambda>perpOpenInterestDelta.
            bindM (modify_open_interest perpOpenInterestDelta) (\<lambda>_.
            bindM (liftM (\<lambda>_. map_res (apply_settled_update perpInfos) settledUpdates)) (\<lambda>settledUpdates.
            bindM (forM (computeAndExecuteCollateralTransfer x perpInfos) settledUpdates) (\<lambda>_.
            bindM (forM (\<lambda>u. modifyM (store_settled_update subaccountIdToFundingPayments u)) settledUpdates)
              (\<lambda>_. retM (success, successPerUpdate)))))))))"

section \<open>Definitions: risk queries and leverage updates\<close>

definition GetNetCollateralAndMarginRequirementsWithLeverage ::
  "'b keeper_state \<Rightarrow> Update \<Rightarrow> LeverageMap option \<Rightarrow> Risk res" where
  "GetNetCollateralAndMarginRequirementsWithLeverage s update leverageMap =
     (let subaccount = GetSubaccount s (u_SubaccountId update)
      in bindr (GetAllRelevantPerpetuals s [update]) (\<lambda>perpInfos.
         bindr (GetSettledSubaccountWithPerpetuals subaccount perpInfos) (\<lambda>(settledSubaccount, _).
         bindr (CalculateUpdatedSubaccount
                  \<lparr>su_SettledSubaccount = settledSubaccount, su_AssetUpdates = u_AssetUpdates update,
                   su_PerpetualUpdates = u_PerpetualUpdates update, su_LeverageMap = None\<rparr> perpInfos)
           (\<lambda>updatedSubaccount. GetRiskForSubaccount updatedSubaccount perpInfos leverageMap))))"

definition GetNetCollateralAndMarginRequirements :: "'b keeper_state \<Rightarrow> Update \<Rightarrow> Risk res" where
  "GetNetCollateralAndMarginRequirements s update =
     GetNetCollateralAndMarginRequirementsWithLeverage s update (GetLeverage s (u_SubaccountId update))"

definition GetMinImfForPerpetual :: "'b keeper_state \<Rightarrow> uint32 \<Rightarrow> uint32 res" where
  "GetMinImfForPerpetual s perpetualId =
     bindr (GetPerpetualAndMarketPriceAndLiquidityTier (ks_perps s) perpetualId)
       (\<lambda>(_, _, liquidityTier).
         if lt_InitialMarginPpm liquidityTier = 0 then Inl (Err ''ErrInitialMarginPpmIsZero'')
         else Inr (lt_InitialMarginPpm liquidityTier))"

text \<open>The loops over the leverage map visit its keys; which error of several comes first in the
  second loop depends on Go's map order, here it is the order of the keys.\<close>

definition check_leverage_perpetual ::
  "'b keeper_state \<Rightarrow> SubaccountId \<Rightarrow> LeverageMap \<Rightarrow> uint32 \<Rightarrow> unit \<Rightarrow> unit res" where
  "check_leverage_perpetual s subaccountId leverageMap perpetualId _ =
     bindr (GetNetCollateralAndMarginRequirementsWithLeverage s
              \<lparr>u_SubaccountId = subaccountId, u_AssetUpdates = [],
               u_PerpetualUpdates = [\<lparr>pu_PerpetualId = perpetualId, pu_BigQuantumsDelta = 0,
                                      pu_BigQuoteBalanceDelta = 0\<rparr>]\<rparr> (Some leverageMap)) (\<lambda>risk.
       if IsInitialCollateralized risk then Inr ()
       else Inl (Err ''ErrLeverageViolatesMarginRequirements''))"

definition checkNewLeverageAgainstMarginRequirements ::
  "'b keeper_state \<Rightarrow> SubaccountId \<Rightarrow> LeverageMap \<Rightarrow> unit res" where
  "checkNewLeverageAgainstMarginRequirements s subaccountId leverageMap =
     for_res (check_leverage_perpetual s subaccountId leverageMap) (gm_keys leverageMap) ()"

definition check_min_imf :: "'b keeper_state \<Rightarrow> LeverageMap \<Rightarrow> uint32 \<Rightarrow> unit \<Rightarrow> unit res" where
  "check_min_imf s perpetualLeverage perpetualId _ =
     (case GetMinImfForPerpetual s perpetualId of
        Inl e \<Rightarrow> Inl (Err ''ErrInvalidLeverage'')
      | Inr minImfPpm \<Rightarrow>
          if the (gm_get perpetualLeverage perpetualId) < minImfPpm
          then Inl (Err ''ErrLeverageExceedsMaximum'') else Inr ())"

definition UpdateLeverage :: "SubaccountId \<Rightarrow> LeverageMap \<Rightarrow> ('b keeper_state, unit) step" where
  "UpdateLeverage subaccountId perpetualLeverage =
     bindM (liftM (\<lambda>s. for_res (check_min_imf s perpetualLeverage) (gm_keys perpetualLeverage) ())) (\<lambda>_.
     bindM (liftM (\<lambda>s. Inr (case GetLeverage s subaccountId of None \<Rightarrow> [] | Some m \<Rightarrow> m)))
       (\<lambda>existingLeverage.
         let existingLeverage = fold (\<lambda>(k, v) m. gm_set k v m) perpetualLeverage existingLeverage
         in bindM (liftM (\<lambda>s. checkNewLeverageAgainstMarginRequirements s subaccountId perpetualLeverage))
              (\<lambda>_. modifyM (SetLeverage subaccountId existingLeverage))))"

section \<open>Definitions: insurance funds\<close>

definition InsuranceFundName :: string where
  "InsuranceFundName = ''insurance_fund''"

definition GetInsuranceFundName :: "'b keeper_state \<Rightarrow> uint32 \<Rightarrow> string res" where
  "GetInsuranceFundName s perpetualId =
     bindr (GetPerpetual (ks_perps s) perpetualId) (\<lambda>perpetual.
       case pp_MarketType (p_Params perpetual) of
         PERPETUAL_MARKET_TYPE_ISOLATED \<Rightarrow> Inr (InsuranceFundName @ '':'' @ UintToString perpetualId)
       | PERPETUAL_MARKET_TYPE_CROSS \<Rightarrow> Inr InsuranceFundName
       | PERPETUAL_MARKET_TYPE_UNSPECIFIED \<Rightarrow> Inl (Panic ''invalid market type''))"

definition GetInsuranceFundModuleAddress :: "'b sdk \<Rightarrow> 'b keeper_state \<Rightarrow> uint32 \<Rightarrow> string res" where
  "GetInsuranceFundModuleAddress x s perpetualId =
     bindr (GetInsuranceFundName s perpetualId) (\<lambda>n. Inr (x_NewModuleAddress x n))"

text \<open>A nil balance, returned when the fund's address cannot be computed, is \<^const>\<open>None\<close>.\<close>

definition GetInsuranceFundBalance :: "'b sdk \<Rightarrow> 'b keeper_state \<Rightarrow> uint32 \<Rightarrow> int option res" where
  "GetInsuranceFundBalance x s perpetualId =
     (case GetAsset (ks_assets s) AssetUsdcId of
        None \<Rightarrow> Inl (Panic ''GetInsuranceFundBalance: Usdc asset not found in state'')
      | Some usdcAsset \<Rightarrow>
          (case GetInsuranceFundModuleAddress x s perpetualId of
             Inl (Panic n) \<Rightarrow> Inl (Panic n)
           | Inl (Err n) \<Rightarrow> Inr None
           | Inr insuranceFundAddr \<Rightarrow>
               Inr (Some (x_GetBalance x (ks_bank s) insuranceFundAddr (a_Denom usdcAsset)))))"

definition GetCrossInsuranceFundBalance :: "'b sdk \<Rightarrow> 'b keeper_state \<Rightarrow> int res" where
  "GetCrossInsuranceFundBalance x s =
     (case GetAsset (ks_assets s) AssetUsdcId of
        None \<Rightarrow> Inl (Panic ''GetCrossInsuranceFundBalance: Usdc asset not found in state'')
      | Some usdcAsset \<Rightarrow>
          Inr (x_GetBalance x (ks_bank s) (x_NewModuleAddress x InsuranceFundName) (a_Denom usdcAsset)))"

end
