(* ===== verification/SubaccountSafety.thy ===== *)
theory SubaccountSafety
  imports SubaccountKeeper
begin

text \<open>
  Correctness of the subaccounts keeper: the stages of a batch of updates, what each stage leaves
  alone, the store invariant and its preservation, solvency of every account an accepted batch
  touches, the gate on withdrawals and transfers, exactness of open interest under matches, and
  the behaviour of leverage updates.
\<close>

section \<open>Settled updates\<close>

definition settled_of :: "'b keeper_state \<Rightarrow> PerpInfos \<Rightarrow> Update \<Rightarrow> SettledUpdate \<Rightarrow> bool" where
  "settled_of s pis u su \<longleftrightarrow>
     (\<exists>f. GetSettledSubaccountWithPerpetuals (GetSubaccount s (u_SubaccountId u)) pis =
            Inr (su_SettledSubaccount su, f)) \<and>
     su_AssetUpdates su = u_AssetUpdates u \<and> su_PerpetualUpdates su = u_PerpetualUpdates u \<and>
     su_LeverageMap su =
       (if u_PerpetualUpdates u \<noteq> [] \<or> sa_PerpetualPositions (su_SettledSubaccount su) \<noteq> []
        then GetLeverage s (u_SubaccountId u) else None)"

lemma settle_updates_settled:
  assumes "for_res (settle_update s pis True) us st = Inr st'"
  shows "\<exists>sus. st_settledUpdates st' = st_settledUpdates st @ sus \<and> list_all2 (settled_of s pis) us sus \<and>
    distinct (map u_SubaccountId us) \<and>
    (\<forall>u \<in> set us. st_idToSettledSubaccount st (u_SubaccountId u) = None)"
  using assms
proof (induction us arbitrary: st)
  case Nil
  then show ?case by simp
next
  case (Cons u us)
  then obtain st1 where st1: "settle_update s pis True u st = Inr st1"
    "for_res (settle_update s pis True) us st1 = Inr st'"
    by (auto simp: res_simps)
  define su where "su = last (st_settledUpdates st1)"
  from st1(1) obtain sa f where su: "st_idToSettledSubaccount st (u_SubaccountId u) = None"
    "GetSettledSubaccountWithPerpetuals (GetSubaccount s (u_SubaccountId u)) pis = Inr (sa, f)"
    "st_settledUpdates st1 = st_settledUpdates st @ [su]" "settled_of s pis u su"
    "st_idToSettledSubaccount st1 = (st_idToSettledSubaccount st)(u_SubaccountId u \<mapsto> sa)"
    by (auto simp: settle_update_def Let_def res_simps settled_of_def su_def split: option.splits)
  from Cons.IH[OF st1(2)] obtain sus where sus: "st_settledUpdates st' = st_settledUpdates st1 @ sus"
    "list_all2 (settled_of s pis) us sus" "distinct (map u_SubaccountId us)"
    "\<forall>v \<in> set us. st_idToSettledSubaccount st1 (u_SubaccountId v) = None" by auto
  have fresh: "u_SubaccountId v \<noteq> u_SubaccountId u \<and> st_idToSettledSubaccount st (u_SubaccountId v) = None"
    if "v \<in> set us" for v
    using sus(4) that by (auto simp: su(5) split: if_splits)
  show ?case
  proof (intro exI[of _ "su # sus"] conjI)
    show "st_settledUpdates st' = st_settledUpdates st @ su # sus" using sus(1) su(3) by simp
    show "list_all2 (settled_of s pis) (u # us) (su # sus)" using su(4) sus(2) by simp
    show "distinct (map u_SubaccountId (u # us))" using sus(3) fresh by force
    show "\<forall>v \<in> set (u # us). st_idToSettledSubaccount st (u_SubaccountId v) = None" using fresh su(1) by auto
  qed
qed

lemma getSettledUpdates_settled:
  assumes "getSettledUpdates s us pis True = Inr (sus, fps)"
  shows "list_all2 (settled_of s pis) us sus" "distinct (map u_SubaccountId us)"
  using assms by (auto simp: getSettledUpdates_def res_simps dest: settle_updates_settled)

text \<open>What an accepted batch satisfies, update by update.\<close>

definition accepted :: "PerpInfos \<Rightarrow> SettledUpdate \<Rightarrow> bool" where
  "accepted pis u \<longleftrightarrow> (\<exists>riskNew. GetRiskForSettledUpdate u pis = Inr riskNew \<and>
     (IsInitialCollateralized riskNew \<or>
      (\<exists>riskCur. GetRiskForSubaccount (su_SettledSubaccount u) pis (su_LeverageMap u) = Inr riskCur \<and>
        IsValidStateTransitionForUndercollateralizedSubaccount riskCur riskNew = Success)))"

lemma check_settled_updates_accepted:
  assumes "for_res (check_settled_update s pis) us (m, b, rs) = Inr (m', True, rs')"
    and "distinct (map (\<lambda>u. sa_Id (su_SettledSubaccount u)) us)"
    and "\<forall>u \<in> set us. m (sa_Id (su_SettledSubaccount u)) = None"
  shows "b \<and> (\<forall>u \<in> set us. accepted pis u) \<and> rs' = rs @ map (\<lambda>_. Success) us"
  using assms
proof (induction us arbitrary: m b rs)
  case Nil
  then show ?case by simp
next
  case (Cons u us)
  from Cons.prems(1) obtain m1 b1 rs1 where 1: "check_settled_update s pis u (m, b, rs) = Inr (m1, b1, rs1)"
    "for_res (check_settled_update s pis) us (m1, b1, rs1) = Inr (m', True, rs')"
    by (auto simp: res_simps)
  have m: "m (sa_Id (su_SettledSubaccount u)) = None" using Cons.prems(3) by simp
  have step: "(b1 \<longrightarrow> b \<and> accepted pis u \<and> rs1 = rs @ [Success]) \<and>
      (\<forall>j. j \<noteq> sa_Id (su_SettledSubaccount u) \<longrightarrow> m1 j = m j)"
    using 1(1) m
    by (auto simp: check_settled_update_def res_simps Let_def accepted_def IsSuccess_def
        simp del: collateralized_iff split: if_splits)
  have "\<forall>v \<in> set us. m1 (sa_Id (su_SettledSubaccount v)) = None"
    using Cons.prems(2,3) step by (auto simp: image_iff)
  with Cons.IH[OF 1(2)] Cons.prems(2) step show ?case by simp
qed


section \<open>Open interest does not affect the updated positions\<close>

definition same_index :: "PerpInfos \<Rightarrow> PerpInfos \<Rightarrow> bool" where
  "same_index pis pis' \<longleftrightarrow>
     (\<forall>k. map_option (\<lambda>i. p_FundingIndex (pi_Perpetual i)) (pis k) =
          map_option (\<lambda>i. p_FundingIndex (pi_Perpetual i)) (pis' k))"

lemma apply_perpetual_update_same_index:
  assumes "same_index pis pis'"
  shows "apply_perpetual_update pis u m = apply_perpetual_update pis' u m"
proof -
  have "map_option (\<lambda>i. p_FundingIndex (pi_Perpetual i)) (pis (pu_PerpetualId u)) =
      map_option (\<lambda>i. p_FundingIndex (pi_Perpetual i)) (pis' (pu_PerpetualId u))"
    using assms by (simp add: same_index_def)
  then show ?thesis
    by (cases "pis (pu_PerpetualId u)"; cases "pis' (pu_PerpetualId u)")
      (auto simp: apply_perpetual_update_def MustGet_def Let_def split: option.splits)
qed

lemma CalculateUpdatedSubaccount_same_index:
  assumes "same_index pis pis'"
  shows "CalculateUpdatedSubaccount u pis = CalculateUpdatedSubaccount u pis'"
proof -
  have "apply_perpetual_update pis = apply_perpetual_update pis'"
    using apply_perpetual_update_same_index[OF assms] by blast
  then show ?thesis
    by (simp add: CalculateUpdatedSubaccount_def CalculateUpdatedPerpetualPositions_def)
qed

lemma with_open_interest_delta_same_index:
  "with_open_interest_delta d pis = Inr pis' \<Longrightarrow> same_index pis pis'"
  by (auto simp: with_open_interest_delta_def same_index_def MustGet_def res_simps Let_def
      split: option.splits)

section \<open>Frame properties\<close>

lemma on_bank_frame:
  "on_bank m s = (r, s') \<Longrightarrow> s' = s\<lparr>ks_bank := ks_bank s'\<rparr>"
  by (auto simp: on_bank_def split: prod.splits)

text \<open>A collateral transfer touches nothing but the bank.\<close>

definition bank_only :: "'b keeper_state \<Rightarrow> 'b keeper_state \<Rightarrow> bool" where
  "bank_only s s' \<longleftrightarrow> s' = s\<lparr>ks_bank := ks_bank s'\<rparr>"

lemma bank_only_refl: "reflp bank_only"
  by (simp add: bank_only_def reflp_def)

lemma bank_only_trans: "transp bank_only"
  by (auto simp: bank_only_def transp_def) (metis (no_types, lifting) keeper_state.surjective keeper_state.update_convs(8))

lemma keeps_on_bank: "keeps bank_only (on_bank m)"
  by (auto simp: keeps_def bank_only_def on_bank_def split: prod.splits)

lemmas keeps_bank_intros = keeps_on_bank keeps_basic[OF bank_only_refl] keeps_bind[OF bank_only_trans]
  keeps_forM[OF bank_only_refl bank_only_trans]

lemma computeAndExecuteCollateralTransfer_bank_only:
  "keeps bank_only (computeAndExecuteCollateralTransfer x pis u)"
  unfolding computeAndExecuteCollateralTransfer_def transferCollateralForIsolatedPerpetual_def
  by (auto intro!: keeps_bank_intros simp: Let_def split: option.splits prod.splits PositionStateTransition.splits)

lemma forM_modify: "forM (\<lambda>u. modifyM (f u)) us s = (Inr (), fold f us s)"
  by (induction us arbitrary: s) (simp_all add: retM_def bindM_def modifyM_def)

lemma internalCan_success:
  assumes "internalCanUpdateSubaccountsWithLeverage s sus ty pis = Inr (True, rs)"
  obtains rs0 d pis' m where "checkIsolatedSubaccountConstraints sus pis = Inr (True, rs0)"
    "ty = Withdrawal \<or> ty = Transfer \<longrightarrow> withdrawals_blocked s sus = Inr False"
    "GetDeltaOpenInterestFromUpdates sus ty = Inr d" "with_open_interest_delta d pis = Inr pis'"
    "for_res (check_settled_update s pis') sus (\<lambda>_. None, True, []) = Inr (m, True, rs)"
  using assms
  by (auto simp: internalCanUpdateSubaccountsWithLeverage_def res_simps split: if_splits)

text \<open>The stages of a successful batch.\<close>

lemma UpdateSubaccounts_success:
  assumes "UpdateSubaccounts x us ty s = (Inr (True, rs), s')"
  obtains pis sus fps d nus s1 s2 where
    "GetAllRelevantPerpetuals s us = Inr pis"
    "getSettledUpdates s us pis True = Inr (sus, fps)"
    "internalCanUpdateSubaccountsWithLeverage s sus ty pis = Inr (True, rs)"
    "GetDeltaOpenInterestFromUpdates sus ty = Inr d"
    "modify_open_interest d s = (Inr (), s1)"
    "map_res (apply_settled_update pis) sus = Inr nus"
    "forM (computeAndExecuteCollateralTransfer x pis) nus s1 = (Inr (), s2)"
    "s' = fold (store_settled_update fps) nus s2"
  using assms
  by (auto simp: UpdateSubaccounts_def step_simps forM_modify simp del: map_res_Inr split: if_splits)

lemma modify_open_interest_frame:
  "modify_open_interest d s = (r, s') \<Longrightarrow> s' = s\<lparr>ks_perps := ks_perps s'\<rparr>"
  by (auto simp: modify_open_interest_def split: option.splits sum.splits)

lemma collateral_transfers_bank_only:
  assumes "forM (computeAndExecuteCollateralTransfer x pis) us s = (r, s')"
  shows "bank_only s s'"
proof -
  have "keeps bank_only (forM (computeAndExecuteCollateralTransfer x pis) us)"
    by (intro keeps_bank_intros computeAndExecuteCollateralTransfer_bank_only)
  then show ?thesis using assms unfolding keeps_def by (metis snd_conv)
qed

lemma UpdateSubaccounts_failure:
  assumes "UpdateSubaccounts x us ty s = (r, s')" "\<forall>rs. r \<noteq> Inr (True, rs)"
  shows "s' = s\<lparr>ks_perps := ks_perps s', ks_bank := ks_bank s'\<rparr> \<and> (\<forall>rs. r = Inr (False, rs) \<longrightarrow> s' = s)"
proof (cases r)
  case (Inr p)
  then obtain rs where r: "r = Inr (False, rs)" using assms(2) by (cases p) (metis (full_types))
  then have "s' = s"
    using assms(1) by (auto simp: UpdateSubaccounts_def step_simps split: if_splits)
  with r show ?thesis by simp
next
  case (Inl e)
  from assms(1)[unfolded Inl] consider "s' = s"
    | d where "modify_open_interest d s = (Inl e, s')"
    | d pis nus s1 where "modify_open_interest d s = (Inr (), s1)"
        "forM (computeAndExecuteCollateralTransfer x pis) nus s1 = (Inl e, s')"
    | d s1 where "modify_open_interest d s = (Inr (), s1)" "s' = s1"
    by (auto simp: UpdateSubaccounts_def step_simps forM_modify split: if_splits)
  then show ?thesis
  proof cases
    case 3
    have "bank_only s1 s'"
      using 3(2) by (rule collateral_transfers_bank_only)
    then obtain b where b: "s' = s1\<lparr>ks_bank := b\<rparr>" unfolding bank_only_def by blast
    obtain p where "s1 = s\<lparr>ks_perps := p\<rparr>" using modify_open_interest_frame[OF 3(1)] by blast
    with b Inl show ?thesis by simp
  next
    case (2 d)
    then obtain p where "s' = s\<lparr>ks_perps := p\<rparr>" using modify_open_interest_frame by blast
    with Inl show ?thesis by simp
  next
    case (4 d s1)
    then obtain p where "s' = s\<lparr>ks_perps := p\<rparr>" using modify_open_interest_frame by blast
    with Inl show ?thesis by simp
  qed (use Inl in simp)
qed


section \<open>The store invariant\<close>

definition isolated_perp :: "perp_store \<Rightarrow> uint32 \<Rightarrow> bool" where
  "isolated_perp ps k = (case ps_perpetuals ps k of None \<Rightarrow> False
     | Some p \<Rightarrow> pp_MarketType (p_Params p) = PERPETUAL_MARKET_TYPE_ISOLATED)"

text \<open>An account with a position in an isolated perpetual has no other position.\<close>

definition isolated_ok :: "perp_store \<Rightarrow> PerpetualPosition list \<Rightarrow> bool" where
  "isolated_ok ps positions \<longleftrightarrow>
     ((\<exists>p \<in> set positions. isolated_perp ps (po_PerpetualId p)) \<longrightarrow> length positions \<le> 1)"

definition account_ok :: "perp_store \<Rightarrow> SubaccountId \<Rightarrow> Subaccount \<Rightarrow> bool" where
  "account_ok ps i sa \<longleftrightarrow> sa_Id sa = i \<and> sorted_subaccount sa \<and>
     isolated_ok ps (sa_PerpetualPositions sa)"

definition keeper_ok :: "'b keeper_state \<Rightarrow> bool" where
  "keeper_ok s \<longleftrightarrow> perp_store_ok (ks_perps s) \<and>
     (\<forall>i sa. ks_subaccounts s i = Some sa \<longrightarrow> account_ok (ks_perps s) i sa \<and>
        (sa_AssetPositions sa \<noteq> [] \<or> sa_PerpetualPositions sa \<noteq> []))"

lemma keeper_ok_account: "keeper_ok s \<Longrightarrow> account_ok (ks_perps s) i (GetSubaccount s i)"
  by (auto simp: keeper_ok_def GetSubaccount_def account_ok_def sorted_subaccount_def isolated_ok_def
      split: option.splits)

definition is_empty_account :: "Subaccount \<Rightarrow> bool" where
  "is_empty_account sa \<longleftrightarrow> sa_AssetPositions sa = [] \<and> sa_PerpetualPositions sa = []"

lemma ks_subaccounts_store:
  "ks_subaccounts (store_settled_update fps u s) =
   (ks_subaccounts s)(sa_Id (su_SettledSubaccount u) :=
      if is_empty_account (su_SettledSubaccount u) then None else Some (su_SettledSubaccount u))"
  by (auto simp: store_settled_update_def SetSubaccount_def is_empty_account_def Let_def)

lemma store_settled_update_frame [simp]:
  "ks_perps (store_settled_update fps u s) = ks_perps s" "ks_bank (store_settled_update fps u s) = ks_bank s"
  "ks_assets (store_settled_update fps u s) = ks_assets s" "ks_leverage (store_settled_update fps u s) = ks_leverage s"
  "ks_negTnc (store_settled_update fps u s) = ks_negTnc s" "ks_ctx (store_settled_update fps u s) = ks_ctx s"
  "ks_blocktime (store_settled_update fps u s) = ks_blocktime s"
  by (simp_all add: store_settled_update_def SetSubaccount_def Let_def)

lemma fold_store_frame [simp]:
  "ks_perps (fold (store_settled_update fps) us s) = ks_perps s"
  "ks_bank (fold (store_settled_update fps) us s) = ks_bank s"
  "ks_assets (fold (store_settled_update fps) us s) = ks_assets s"
  "ks_leverage (fold (store_settled_update fps) us s) = ks_leverage s"
  "ks_negTnc (fold (store_settled_update fps) us s) = ks_negTnc s"
  "ks_ctx (fold (store_settled_update fps) us s) = ks_ctx s"
  "ks_blocktime (fold (store_settled_update fps) us s) = ks_blocktime s"
  by (induction us arbitrary: s) simp_all

lemma fold_store_other:
  "i \<notin> (\<lambda>u. sa_Id (su_SettledSubaccount u)) ` set us \<Longrightarrow>
   ks_subaccounts (fold (store_settled_update fps) us s) i = ks_subaccounts s i"
  by (induction us arbitrary: s) (auto simp: ks_subaccounts_store)

lemma fold_store_in:
  assumes "distinct (map (\<lambda>u. sa_Id (su_SettledSubaccount u)) us)" "u \<in> set us"
  shows "ks_subaccounts (fold (store_settled_update fps) us s) (sa_Id (su_SettledSubaccount u)) =
    (if is_empty_account (su_SettledSubaccount u) then None else Some (su_SettledSubaccount u))"
  using assms
proof (induction us arbitrary: s)
  case Nil
  then show ?case by simp
next
  case (Cons v us)
  then show ?case
    by (cases "u = v") (auto simp: ks_subaccounts_store fold_store_other image_iff)
qed

lemma settled_subaccount_id:
  "GetSettledSubaccountWithPerpetuals sa pis = Inr (sa', f) \<Longrightarrow> sa_Id sa' = sa_Id sa"
  by (auto simp: GetSettledSubaccountWithPerpetuals_def res_simps Let_def)

lemma CalculateUpdatedSubaccount_id:
  "CalculateUpdatedSubaccount u pis = Inr sa \<Longrightarrow> sa_Id sa = sa_Id (su_SettledSubaccount u)"
  by (auto simp: CalculateUpdatedSubaccount_def res_simps Let_def)

lemma settled_of_id:
  "keeper_ok s \<Longrightarrow> settled_of s pis u su \<Longrightarrow> sa_Id (su_SettledSubaccount su) = u_SubaccountId u"
  using keeper_ok_account[of s "u_SubaccountId u"]
  by (auto simp: settled_of_def account_ok_def dest: settled_subaccount_id)

text \<open>The account an update leads to: settle, then apply the deltas.\<close>

definition updated_account :: "'b keeper_state \<Rightarrow> PerpInfos \<Rightarrow> Update \<Rightarrow> Subaccount res" where
  "updated_account s pis u =
     bindr (GetSettledSubaccountWithPerpetuals (GetSubaccount s (u_SubaccountId u)) pis) (\<lambda>(sa, _).
       CalculateUpdatedSubaccount \<lparr>su_SettledSubaccount = sa, su_AssetUpdates = u_AssetUpdates u,
         su_PerpetualUpdates = u_PerpetualUpdates u, su_LeverageMap = None\<rparr> pis)"

lemma CalculateUpdatedSubaccount_leverage:
  "CalculateUpdatedSubaccount u pis = CalculateUpdatedSubaccount (u\<lparr>su_LeverageMap := l\<rparr>) pis"
  by (simp add: CalculateUpdatedSubaccount_def)

lemma applied_updated_account:
  assumes "settled_of s pis u su" "apply_settled_update pis su = Inr nu"
  shows "updated_account s pis u = Inr (su_SettledSubaccount nu) \<and>
    CalculateUpdatedSubaccount su pis = Inr (su_SettledSubaccount nu) \<and>
    su_PerpetualUpdates nu = u_PerpetualUpdates u \<and> su_AssetUpdates nu = u_AssetUpdates u"
  using assms CalculateUpdatedSubaccount_leverage[of su pis None]
  by (cases su) (auto simp: settled_of_def apply_settled_update_def updated_account_def res_simps)

section \<open>The perpetual infos of a batch\<close>

definition infos_from :: "perp_store \<Rightarrow> PerpInfos \<Rightarrow> bool" where
  "infos_from ps pis \<longleftrightarrow> (\<forall>k i. pis k = Some i \<longrightarrow>
     ps_perpetuals ps k = Some (pi_Perpetual i) \<and>
     ps_prices ps (pp_MarketId (p_Params (pi_Perpetual i))) = Some (pi_Price i) \<and>
     ps_tiers ps (pp_LiquidityTier (p_Params (pi_Perpetual i))) = Some (pi_LiquidityTier i))"

lemma add_perp_infos_from:
  assumes "for_res (add_perp_info ps) ks (c, pis) = Inr (c', pis')"
    and "infos_from ps pis" "\<forall>k t. c k = Some t \<longrightarrow> ps_tiers ps k = Some t"
  shows "infos_from ps pis' \<and> dom pis' = dom pis \<union> set ks"
  using assms
proof (induction ks arbitrary: c pis)
  case Nil
  then show ?case by simp
next
  case (Cons k ks)
  then obtain c1 pis1 where 1: "add_perp_info ps k (c, pis) = Inr (c1, pis1)"
    "for_res (add_perp_info ps) ks (c1, pis1) = Inr (c', pis')"
    by (auto simp: res_simps)
  have step: "infos_from ps pis1 \<and> (\<forall>k t. c1 k = Some t \<longrightarrow> ps_tiers ps k = Some t) \<and> dom pis1 = insert k (dom pis)"
    using 1(1) Cons.prems(2,3)
    by (auto simp: add_perp_info_def infos_from_def GetPerpetualAndMarketPrice_def GetPerpetual_def
        GetMarketPrice_def GetLiquidityTier_def Let_def res_simps split: option.splits sum.splits if_splits)
  with Cons.IH[OF 1(2)] show ?case by auto
qed

lemma set_gm_keys_of_list: "set (gm_keys (gm_of_list key vs)) = key ` set vs"
proof -
  have "set (gm_keys (fold (\<lambda>v m. gm_set (key v) v m) vs m)) = set (gm_keys m) \<union> key ` set vs" for m
    by (induction vs arbitrary: m) (auto simp: gm_keys_def set_gm_set_keys)
  from this[of "[]"] show ?thesis by (simp add: gm_of_list_def gm_keys_def)
qed

lemma GetAllRelevantPerpetuals_infos:
  assumes "GetAllRelevantPerpetuals s us = Inr pis"
  shows "infos_from (ks_perps s) pis"
    and "u \<in> set us \<Longrightarrow> infos_cover pis (GetSubaccount s (u_SubaccountId u))"
    and "u \<in> set us \<Longrightarrow> \<forall>p \<in> set (u_PerpetualUpdates u). pis (pu_PerpetualId p) \<noteq> None"
proof -
  obtain c where c: "for_res (add_perp_info (ks_perps s)) (relevant_perp_ids s us) (\<lambda>_. None, \<lambda>_. None) = Inr (c, pis)"
    using assms by (auto simp: GetAllRelevantPerpetuals_def res_simps)
  have r: "infos_from (ks_perps s) pis \<and> dom pis = set (relevant_perp_ids s us)"
    using add_perp_infos_from[OF c] by (simp add: infos_from_def)
  then show "infos_from (ks_perps s) pis" by simp
  have d: "pis k \<noteq> None" if "k \<in> set (relevant_perp_ids s us)" for k
    using r that by auto
  show "infos_cover pis (GetSubaccount s (u_SubaccountId u))" if "u \<in> set us"
    unfolding infos_cover_def using that
    by (intro ballI d) (force simp: relevant_perp_ids_def set_gm_keys_of_list)
  show "\<forall>p \<in> set (u_PerpetualUpdates u). pis (pu_PerpetualId p) \<noteq> None" if "u \<in> set us"
    using that by (intro ballI d) (force simp: relevant_perp_ids_def set_gm_keys_of_list)
qed

section \<open>Preservation of the store invariant\<close>

lemma settled_account_ok:
  assumes "account_ok ps i sa" "infos_cover pis sa" "GetSettledSubaccountWithPerpetuals sa pis = Inr (sa', f)"
  shows "account_ok ps i sa'" "map po_PerpetualId (sa_PerpetualPositions sa') = map po_PerpetualId (sa_PerpetualPositions sa)"
proof -
  have sorted: "sorted_subaccount sa" using assms(1) by (simp add: account_ok_def)
  let ?n = "sa\<lparr>sa_PerpetualPositions := map (settled_position pis) (sa_PerpetualPositions sa)\<rparr>"
  have sa': "sa' = SetUsdcAssetPosition ?n
      (GetUsdcPosition sa + (\<Sum>p\<leftarrow>sa_PerpetualPositions sa. settlement_ppm pis p) div 1000000)"
    using settled_subaccount_eq[OF assms(2)] assms(3) by auto
  then show ids: "map po_PerpetualId (sa_PerpetualPositions sa') = map po_PerpetualId (sa_PerpetualPositions sa)"
    by (simp add: comp_def)
  have "sorted_subaccount sa'"
    using sorted ids SetUsdcAssetPosition_sorted[of ?n] by (simp add: sorted_subaccount_def sa' comp_def)
  moreover have "isolated_ok ps (sa_PerpetualPositions sa')"
    using assms(1) by (auto simp: account_ok_def isolated_ok_def sa')
  ultimately show "account_ok ps i sa'"
    using assms(1) by (simp add: account_ok_def sa')
qed

lemma gm_keys_apply_perpetual_update:
  "apply_perpetual_update pis u m = Inr m' \<Longrightarrow> set (gm_keys m') \<subseteq> insert (pu_PerpetualId u) (set (gm_keys m))"
  by (auto simp: apply_perpetual_update_def set_gm_keys_set set_gm_keys_del Let_def res_simps
      split: option.splits if_splits)

lemma gm_keys_apply_perpetual_updates:
  "for_res (apply_perpetual_update pis) us m = Inr m' \<Longrightarrow>
   set (gm_keys m') \<subseteq> pu_PerpetualId ` set us \<union> set (gm_keys m)"
proof (induction us arbitrary: m)
  case Nil
  then show ?case by simp
next
  case (Cons u us)
  then obtain m1 where m1: "apply_perpetual_update pis u m = Inr m1"
    "for_res (apply_perpetual_update pis) us m1 = Inr m'" by (auto simp: res_simps)
  from gm_keys_apply_perpetual_update[OF m1(1)] Cons.IH[OF m1(2)] show ?case by auto
qed

lemma updated_position_ids:
  assumes "sorted_wrt (<) (map po_PerpetualId ps)" "CalculateUpdatedPerpetualPositions ps us pis = Inr ps'"
  shows "po_PerpetualId ` set ps' \<subseteq> pu_PerpetualId ` set us \<union> po_PerpetualId ` set ps"
    and "sorted_wrt (<) (map po_PerpetualId ps')"
proof -
  obtain m where m: "for_res (apply_perpetual_update pis) us (gm_of_list po_PerpetualId ps) = Inr m" "ps' = gm_vals m"
    using assms(2) by (auto simp: CalculateUpdatedPerpetualPositions_def res_simps)
  have ok: "keyed_ok po_PerpetualId m"
    using perp_updates.steps_qty[OF m(1) keyed_ok_of_list[OF assms(1)]] by simp
  then have "map po_PerpetualId ps' = gm_keys m"
    using keyed_ok_vals_keys[OF ok] m(2) by simp
  then have "po_PerpetualId ` set ps' = set (gm_keys m)" by (metis list.set_map)
  with gm_keys_apply_perpetual_updates[OF m(1)] show
    "po_PerpetualId ` set ps' \<subseteq> pu_PerpetualId ` set us \<union> po_PerpetualId ` set ps"
    by (simp add: set_gm_keys_of_list)
  show "sorted_wrt (<) (map po_PerpetualId ps')"
    using keyed_ok_vals_sorted[OF ok] m(2) by simp
qed


lemma first_isolated_None:
  "first_isolated pis ks = Inr None \<Longrightarrow> k \<in> set ks \<Longrightarrow> \<exists>i. pis k = Some i \<and> \<not> is_isolated_info i"
  by (induction ks) (auto simp: MustGet_def res_simps split: option.splits if_splits)

lemma first_isolated_Some:
  "first_isolated pis ks = Inr (Some k) \<Longrightarrow> k \<in> set ks \<and> (\<exists>i. pis k = Some i \<and> is_isolated_info i)"
  by (induction ks) (auto simp: MustGet_def res_simps split: option.splits if_splits)

lemma infos_from_isolated:
  "infos_from ps pis \<Longrightarrow> pis k = Some i \<Longrightarrow> isolated_perp ps k = is_isolated_info i"
  by (auto simp: infos_from_def isolated_perp_def is_isolated_info_def)

lemma sorted_singleton_length: "sorted_wrt (<) (map f xs) \<Longrightarrow> f ` set xs \<subseteq> {k::'a::linorder} \<Longrightarrow> length xs \<le> 1"
proof -
  assume a: "sorted_wrt (<) (map f xs)" "f ` set xs \<subseteq> {k}"
  then have "distinct (map f xs)" using strict_sorted_iff by blast
  then have "length xs = card (f ` set xs)" by (metis distinct_card length_map list.set_map)
  also have "\<dots> \<le> card {k}" using a(2) by (intro card_mono) auto
  finally show ?thesis by simp
qed

lemma gm_vals_of_list: "sorted_wrt (<) (map key vs) \<Longrightarrow> gm_vals (gm_of_list key vs) = vs"
  by (simp add: gm_of_list_sorted gm_vals_def comp_def)

lemma isolated_update_ok:
  assumes inf: "infos_from ps pis" and iso: "isolated_ok ps qs" and sorted: "sorted_wrt (<) (map po_PerpetualId qs)"
    and valid: "isValidIsolatedPerpetualUpdates su pis = Inr Success"
    and su: "sa_PerpetualPositions (su_SettledSubaccount su) = qs" "su_PerpetualUpdates su = us"
    and upd: "CalculateUpdatedPerpetualPositions qs us pis' = Inr qs'"
  shows "isolated_ok ps qs'"
proof (cases "us = []")
  case True
  then have "qs' = qs"
    using upd sorted by (simp add: CalculateUpdatedPerpetualPositions_def gm_vals_of_list)
  with iso show ?thesis by simp
next
  case False
  then obtain a b where ab: "first_isolated pis (map pu_PerpetualId us) = Inr a"
    "first_isolated pis (map po_PerpetualId qs) = Inr b"
    using valid su by (auto simp: isValidIsolatedPerpetualUpdates_def res_simps)
  have cases: "(a = None \<and> b = None) \<or> (\<exists>k. a = Some k \<and> length us = 1 \<and> (b = Some k \<or> b = None \<and> qs = []))"
    using valid su False ab by (auto simp: isValidIsolatedPerpetualUpdates_def Let_def not_less le_Suc_eq split: if_splits option.splits)
  note ids = updated_position_ids[OF sorted upd]
  from cases show ?thesis
  proof
    assume "a = None \<and> b = None"
    then have "\<not> isolated_perp ps k" if "k \<in> pu_PerpetualId ` set us \<union> po_PerpetualId ` set qs" for k
      using that first_isolated_None[of pis "map pu_PerpetualId us" k]
        first_isolated_None[of pis "map po_PerpetualId qs" k] ab infos_from_isolated[OF inf] by auto
    then show ?thesis using ids(1) by (auto simp: isolated_ok_def)
  next
    assume "\<exists>k. a = Some k \<and> length us = 1 \<and> (b = Some k \<or> b = None \<and> qs = [])"
    then obtain k where k: "a = Some k" "length us = 1" "b = Some k \<or> b = None \<and> qs = []" by blast
    have us: "pu_PerpetualId ` set us = {k}"
      using first_isolated_Some ab(1) k(1,2) by (cases us) fastforce+
    have "po_PerpetualId ` set qs \<subseteq> {k}"
    proof (cases "b = None")
      case False
      then have b: "k \<in> po_PerpetualId ` set qs" "isolated_perp ps k"
        using first_isolated_Some[of pis "map po_PerpetualId qs" k] ab(2) k(3) infos_from_isolated[OF inf] by auto
      then have "length qs \<le> 1" using iso by (auto simp: isolated_ok_def)
      with b(1) show ?thesis by (cases qs) auto
    qed (use k(3) in auto)
    with us ids have "length qs' \<le> 1"
      by (intro sorted_singleton_length[of po_PerpetualId qs' k]) auto
    then show ?thesis by (simp add: isolated_ok_def)
  qed
qed


lemma updated_account_ok:
  assumes inf: "infos_from ps pis" and ok: "account_ok ps i (su_SettledSubaccount su)"
    and valid: "isValidIsolatedPerpetualUpdates su pis = Inr Success"
    and upd: "CalculateUpdatedSubaccount su pis' = Inr sa"
  shows "account_ok ps i sa"
proof -
  let ?old = "su_SettledSubaccount su"
  obtain qs where qs: "CalculateUpdatedPerpetualPositions (sa_PerpetualPositions ?old) (su_PerpetualUpdates su) pis' = Inr qs"
    "sa = ?old\<lparr>sa_AssetPositions := CalculateUpdatedAssetPositions (sa_AssetPositions ?old) (su_AssetUpdates su),
      sa_PerpetualPositions := qs\<rparr>"
    using upd by (auto simp: CalculateUpdatedSubaccount_def Let_def res_simps)
  have sorted: "sorted_wrt (<) (map ap_AssetId (sa_AssetPositions ?old))"
    "sorted_wrt (<) (map po_PerpetualId (sa_PerpetualPositions ?old))" "isolated_ok ps (sa_PerpetualPositions ?old)"
    using ok by (simp_all add: account_ok_def sorted_subaccount_def)
  have "isolated_ok ps qs"
    using isolated_update_ok[OF inf sorted(3,2) valid refl refl qs(1)] .
  moreover have "sorted_subaccount sa"
    using CalculateUpdatedAssetPositions_adds(1)[OF sorted(1)] updated_position_ids(2)[OF sorted(2) qs(1)]
    by (simp add: sorted_subaccount_def qs(2))
  ultimately show ?thesis using ok by (simp add: account_ok_def qs(2))
qed

lemma checkIsolated_all:
  assumes "checkIsolatedSubaccountConstraints sus pis = Inr (True, rs)" "su \<in> set sus"
  shows "isValidIsolatedPerpetualUpdates su pis = Inr Success"
proof -
  have "list_all2 (\<lambda>u r. isValidIsolatedPerpetualUpdates u pis = Inr r) sus rs" "\<forall>r \<in> set rs. r = Success"
    using assms(1) by (auto simp: checkIsolatedSubaccountConstraints_def res_simps list_all_iff)
  with assms(2) show ?thesis
    by (auto simp: list_all2_conv_all_nth in_set_conv_nth all_set_conv_all_nth)
qed

lemma modify_open_interest_ok:
  assumes "keeper_ok s" "modify_open_interest d s = (Inr (), s1)"
  shows "perp_store_ok (ks_perps s1) \<and> isolated_perp (ks_perps s1) = isolated_perp (ks_perps s) \<and>
    ks_subaccounts s1 = ks_subaccounts s"
proof (cases d)
  case None
  then show ?thesis using assms by (simp add: modify_open_interest_def keeper_ok_def)
next
  case (Some kd)
  obtain k q where kd: "d = Some (k, q)" using Some by (cases kd) auto
  then obtain ps where ps: "ModifyOpenInterest (ks_perps s) k q = Inr ps" "s1 = s\<lparr>ks_perps := ps\<rparr>"
    using assms(2) by (auto simp: modify_open_interest_def split: sum.splits)
  then show ?thesis
    using ModifyOpenInterest_spec[OF _ ps(1)] assms(1)
    by (auto simp: keeper_ok_def isolated_perp_def fun_eq_iff split: option.splits)
qed

text \<open>A successful batch: its infos, its settled updates, the updated accounts and what is stored.\<close>

definition batch_run ::
  "'b keeper_state \<Rightarrow> Update list \<Rightarrow> UpdateType \<Rightarrow> UpdateResult list \<Rightarrow> 'b keeper_state \<Rightarrow>
   PerpInfos \<Rightarrow> SettledUpdate list \<Rightarrow> SettledUpdate list \<Rightarrow> bool" where
  "batch_run s us ty rs s' pis sus nus \<longleftrightarrow>
     GetAllRelevantPerpetuals s us = Inr pis \<and>
     list_all2 (settled_of s pis) us sus \<and>
     list_all2 (\<lambda>su nu. apply_settled_update pis su = Inr nu) sus nus \<and>
     internalCanUpdateSubaccountsWithLeverage s sus ty pis = Inr (True, rs) \<and>
     distinct (map u_SubaccountId us) \<and>
     map (\<lambda>u. sa_Id (su_SettledSubaccount u)) sus = map u_SubaccountId us \<and>
     map (\<lambda>u. sa_Id (su_SettledSubaccount u)) nus = map u_SubaccountId us \<and>
     (\<forall>nu \<in> set nus. ks_subaccounts s' (sa_Id (su_SettledSubaccount nu)) =
       (if is_empty_account (su_SettledSubaccount nu) then None else Some (su_SettledSubaccount nu))) \<and>
     (\<forall>i. i \<notin> u_SubaccountId ` set us \<longrightarrow> ks_subaccounts s' i = ks_subaccounts s i) \<and>
     perp_store_ok (ks_perps s') \<and> isolated_perp (ks_perps s') = isolated_perp (ks_perps s) \<and>
     (\<exists>d s1. GetDeltaOpenInterestFromUpdates sus ty = Inr d \<and> modify_open_interest d s = (Inr (), s1) \<and>
        ks_perps s' = ks_perps s1)"

lemma UpdateSubaccounts_batch:
  assumes ok: "keeper_ok s" and upd: "UpdateSubaccounts x us ty s = (Inr (True, rs), s')"
  obtains pis sus nus where "batch_run s us ty rs s' pis sus nus"
proof -
  from UpdateSubaccounts_success[OF upd] obtain pis sus fps d nus s1 s2 where
    u: "GetAllRelevantPerpetuals s us = Inr pis" "getSettledUpdates s us pis True = Inr (sus, fps)"
    "internalCanUpdateSubaccountsWithLeverage s sus ty pis = Inr (True, rs)"
    "modify_open_interest d s = (Inr (), s1)" "map_res (apply_settled_update pis) sus = Inr nus"
    "forM (computeAndExecuteCollateralTransfer x pis) nus s1 = (Inr (), s2)"
    "s' = fold (store_settled_update fps) nus s2"
    "GetDeltaOpenInterestFromUpdates sus ty = Inr d" by metis
  have settled: "list_all2 (settled_of s pis) us sus" "distinct (map u_SubaccountId us)"
    using getSettledUpdates_settled[OF u(2)] .
  have applied: "list_all2 (\<lambda>su nu. apply_settled_update pis su = Inr nu) sus nus"
    using u(5) by (simp add: res_simps)
  have ids: "map (\<lambda>u. sa_Id (su_SettledSubaccount u)) sus = map u_SubaccountId us"
    using settled(1) by (induction rule: list_all2_induct) (auto dest: settled_of_id[OF ok])
  have "map (\<lambda>u. sa_Id (su_SettledSubaccount u)) nus = map (\<lambda>u. sa_Id (su_SettledSubaccount u)) sus"
    using applied by (induction rule: list_all2_induct)
      (auto simp: apply_settled_update_def res_simps dest: CalculateUpdatedSubaccount_id)
  with ids have ids': "map (\<lambda>u. sa_Id (su_SettledSubaccount u)) nus = map u_SubaccountId us" by simp
  then have dist: "distinct (map (\<lambda>u. sa_Id (su_SettledSubaccount u)) nus)" using settled(2) by simp
  have set_ids: "(\<lambda>u. sa_Id (su_SettledSubaccount u)) ` set nus = u_SubaccountId ` set us"
    using ids' by (metis list.set_map)
  obtain b where s2: "s2 = s1\<lparr>ks_bank := b\<rparr>"
    using collateral_transfers_bank_only[OF u(6)] unfolding bank_only_def by blast
  note oi = modify_open_interest_ok[OF ok u(4)]
  have stored: "\<forall>nu \<in> set nus. ks_subaccounts s' (sa_Id (su_SettledSubaccount nu)) =
      (if is_empty_account (su_SettledSubaccount nu) then None else Some (su_SettledSubaccount nu))"
    using fold_store_in[OF dist] u(7) by blast
  have others: "\<forall>i. i \<notin> u_SubaccountId ` set us \<longrightarrow> ks_subaccounts s' i = ks_subaccounts s i"
    using oi by (auto simp: u(7) s2 fold_store_other set_ids)
  have perps: "ks_perps s' = ks_perps s1" by (simp add: u(7) s2)
  have ok': "perp_store_ok (ks_perps s')" "isolated_perp (ks_perps s') = isolated_perp (ks_perps s)"
    using oi perps by simp_all
  show ?thesis
    by (rule that[of pis sus nus], unfold batch_run_def, intro conjI exI[of _ d] exI[of _ s1]) fact+
qed

lemma list_all2_compose_in:
  assumes "list_all2 P xs ys" "list_all2 Q ys zs" "map f zs = map g xs" "x \<in> set xs"
  obtains y z where "P x y" "Q y z" "z \<in> set zs" "y \<in> set ys" "f z = g x"
proof -
  obtain n where n: "n < length xs" "x = xs ! n" using assms(4) by (auto simp: in_set_conv_nth)
  have len: "length ys = length xs" "length zs = length xs"
    using list_all2_lengthD[OF assms(1)] list_all2_lengthD[OF assms(2)] by simp_all
  have "f (zs ! n) = g (xs ! n)"
    using arg_cong[OF assms(3), of "\<lambda>l. l ! n"] n(1) len by simp
  then show ?thesis
    using that[of "ys ! n" "zs ! n"] assms(1,2) n len by (auto simp: list_all2_conv_all_nth)
qed

lemma UpdateSubaccounts_keeper_ok_success:
  assumes ok: "keeper_ok s" and upd: "UpdateSubaccounts x us ty s = (Inr (True, rs), s')"
  shows "keeper_ok s'"
proof -
  obtain pis sus nus where run: "batch_run s us ty rs s' pis sus nus"
    using UpdateSubaccounts_batch[OF ok upd] .
  have r: "GetAllRelevantPerpetuals s us = Inr pis" "list_all2 (settled_of s pis) us sus"
    "list_all2 (\<lambda>su nu. apply_settled_update pis su = Inr nu) sus nus"
    "map (\<lambda>u. sa_Id (su_SettledSubaccount u)) nus = map u_SubaccountId us"
    "perp_store_ok (ks_perps s')" "isolated_perp (ks_perps s') = isolated_perp (ks_perps s)"
    using run by (simp_all add: batch_run_def)
  obtain rs0 where iso: "checkIsolatedSubaccountConstraints sus pis = Inr (True, rs0)"
    using run internalCan_success unfolding batch_run_def by metis
  have same: "account_ok (ks_perps s') i sa \<longleftrightarrow> account_ok (ks_perps s) i sa" for i sa
    by (simp add: account_ok_def isolated_ok_def r(6))
  have "account_ok (ks_perps s) i sa \<and> \<not> is_empty_account sa" if i: "ks_subaccounts s' i = Some sa" for i sa
  proof (cases "i \<in> u_SubaccountId ` set us")
    case False
    then show ?thesis using run i ok by (auto simp: batch_run_def keeper_ok_def is_empty_account_def)
  next
    case True
    then obtain u where u: "u \<in> set us" "i = u_SubaccountId u" by blast
    from list_all2_compose_in[OF r(2,3,4) u(1)] obtain su nu where
      n: "settled_of s pis u su" "apply_settled_update pis su = Inr nu" "nu \<in> set nus" "su \<in> set sus"
      "sa_Id (su_SettledSubaccount nu) = i" using u(2) by metis
    have sa: "sa = su_SettledSubaccount nu" "\<not> is_empty_account sa"
      using run n(3,5) i by (auto simp: batch_run_def split: if_splits)
    obtain f where "GetSettledSubaccountWithPerpetuals (GetSubaccount s i) pis = Inr (su_SettledSubaccount su, f)"
      using n(1) u(2) by (auto simp: settled_of_def)
    then have "account_ok (ks_perps s) i (su_SettledSubaccount su)"
      using settled_account_ok(1)[OF keeper_ok_account[OF ok]] GetAllRelevantPerpetuals_infos(2)[OF r(1) u(1)] u(2)
      by blast
    then have "account_ok (ks_perps s) i (su_SettledSubaccount nu)"
      using updated_account_ok[OF GetAllRelevantPerpetuals_infos(1)[OF r(1)] _ checkIsolated_all[OF iso n(4)]]
        applied_updated_account[OF n(1,2)] by blast
    with sa show ?thesis by simp
  qed
  with r(5) same show ?thesis by (auto simp: keeper_ok_def is_empty_account_def)
qed

text \<open>
  C2: The store invariant of the subaccounts keeper (every account stored under its own id, position
  lists strictly sorted, no empty account stored, an account with a position in an isolated
  perpetual holds no other position, open interest never negative) is preserved by every batch of
  updates of every type that the keeper accepts, and a rejected batch changes no state at all; a
  batch that returns an error or panics leaves every account, leverage setting and event as it was.
\<close>

theorem UpdateSubaccounts_keeper_ok:
  assumes "keeper_ok s" "UpdateSubaccounts x us ty s = (r, s')"
  shows "case r of
      Inr (True, rs) \<Rightarrow> keeper_ok s'
    | Inr (False, rs) \<Rightarrow> s' = s
    | Inl e \<Rightarrow> ks_subaccounts s' = ks_subaccounts s \<and> ks_leverage s' = ks_leverage s \<and>
        ks_negTnc s' = ks_negTnc s \<and> ks_events s' = ks_events s \<and> ks_assets s' = ks_assets s"
proof (cases r)
  case (Inl e)
  have "s' = s\<lparr>ks_perps := ks_perps s', ks_bank := ks_bank s'\<rparr>"
    using UpdateSubaccounts_failure[OF assms(2)] Inl by blast
  then obtain p b where "s' = s\<lparr>ks_perps := p, ks_bank := b\<rparr>" by blast
  with Inl show ?thesis by simp
next
  case (Inr q)
  then obtain t rs where q: "r = Inr (t, rs)" by (cases q) auto
  show ?thesis
  proof (cases t)
    case True
    then show ?thesis using UpdateSubaccounts_keeper_ok_success[OF assms(1)] assms(2) q by simp
  next
    case False
    then show ?thesis using UpdateSubaccounts_failure[OF assms(2)] q by simp
  qed
qed

section \<open>Solvency of accepted batches\<close>

lemma valid_transition_less_risky:
  "IsValidStateTransitionForUndercollateralizedSubaccount riskCur riskNew = Success \<Longrightarrow>
   MMR riskNew \<le> MMR riskCur \<and> \<not> more_risky riskNew riskCur"
  by (cases "MMR riskNew = 0 \<or> MMR riskCur = 0")
    (auto simp: IsValidStateTransitionForUndercollateralizedSubaccount_def Let_def more_risky_def
      Risk_Cmp_def[of _ "riskCur"] split: if_splits)

lemma infos_from_after:
  assumes ok: "keeper_ok s" and inf: "infos_from (ks_perps s) pis"
    and pis': "with_open_interest_delta d pis = Inr pis'" and m: "modify_open_interest d s = (Inr (), s1)"
  shows "infos_from (ks_perps s1) pis'"
proof (cases d)
  case None
  then show ?thesis using assms by (simp add: modify_open_interest_def with_open_interest_delta_def)
next
  case (Some kd)
  obtain k q where kd: "d = Some (k, q)" using Some by (cases kd) auto
  then obtain ps where ps: "ModifyOpenInterest (ks_perps s) k q = Inr ps" "s1 = s\<lparr>ks_perps := ps\<rparr>"
    using m by (auto simp: modify_open_interest_def split: sum.splits)
  have "perp_store_ok (ks_perps s)" using ok by (simp add: keeper_ok_def)
  note spec = ModifyOpenInterest_spec[OF this ps(1)]
  obtain i where i: "pis k = Some i" "pis' = pis(k \<mapsto> i\<lparr>pi_Perpetual :=
      (pi_Perpetual i)\<lparr>p_OpenInterest := p_OpenInterest (pi_Perpetual i) + q\<rparr>\<rparr>)"
    using pis' kd by (auto simp: with_open_interest_delta_def MustGet_def res_simps Let_def split: option.splits)
  show ?thesis
    using inf spec i ps(2) by (auto simp: infos_from_def split: if_splits)
qed

text \<open>
  C1: Every account touched by an accepted batch ends up exactly at its settled state with the deltas
  applied (an empty account is removed from the store), and at the prices and with the open
  interest of the state after the batch it either meets its initial margin requirement or has a maintenance
  requirement no larger than before and is not riskier than before; accounts outside the batch are
  unchanged. No accepted update, of any type, can push an account into undercollateralisation.
\<close>

theorem UpdateSubaccounts_solvent:
  assumes ok: "keeper_ok s" and upd: "UpdateSubaccounts x us ty s = (Inr (True, rs), s')"
  shows "(\<forall>u \<in> set us. \<exists>pis pis' sa0 f sa1 riskNew. let i = u_SubaccountId u;
        lev = (if u_PerpetualUpdates u \<noteq> [] \<or> sa_PerpetualPositions sa0 \<noteq> [] then GetLeverage s i else None) in
      GetAllRelevantPerpetuals s us = Inr pis \<and> infos_from (ks_perps s') pis' \<and>
      GetSettledSubaccountWithPerpetuals (GetSubaccount s i) pis = Inr (sa0, f) \<and>
      updated_account s pis u = Inr sa1 \<and>
      ks_subaccounts s' i = (if is_empty_account sa1 then None else Some sa1) \<and>
      GetRiskForSubaccount sa1 pis' lev = Inr riskNew \<and>
      (IMR riskNew \<le> NC riskNew \<or>
       (\<exists>riskCur. GetRiskForSubaccount sa0 pis' lev = Inr riskCur \<and>
          MMR riskNew \<le> MMR riskCur \<and> \<not> more_risky riskNew riskCur))) \<and>
    (\<forall>i. i \<notin> u_SubaccountId ` set us \<longrightarrow> ks_subaccounts s' i = ks_subaccounts s i)"
proof (intro conjI ballI)
  obtain pis sus nus where run: "batch_run s us ty rs s' pis sus nus"
    using UpdateSubaccounts_batch[OF ok upd] .
  have r: "list_all2 (settled_of s pis) us sus"
    "list_all2 (\<lambda>su nu. apply_settled_update pis su = Inr nu) sus nus"
    "map (\<lambda>u. sa_Id (su_SettledSubaccount u)) nus = map u_SubaccountId us"
    "internalCanUpdateSubaccountsWithLeverage s sus ty pis = Inr (True, rs)"
    "distinct (map (\<lambda>u. sa_Id (su_SettledSubaccount u)) sus)"
    using run by (simp_all add: batch_run_def)
  show "\<forall>i. i \<notin> u_SubaccountId ` set us \<longrightarrow> ks_subaccounts s' i = ks_subaccounts s i"
    using run by (simp add: batch_run_def)
  obtain d pis' m where acc: "with_open_interest_delta d pis = Inr pis'"
    "for_res (check_settled_update s pis') sus (\<lambda>_. None, True, []) = Inr (m, True, rs)"
    "GetDeltaOpenInterestFromUpdates sus ty = Inr d"
    using internalCan_success[OF r(4)] by metis
  have after: "infos_from (ks_perps s') pis'"
    using run acc(1,3) infos_from_after[OF ok GetAllRelevantPerpetuals_infos(1)]
    by (auto simp: batch_run_def)
  fix u assume u: "u \<in> set us"
  from list_all2_compose_in[OF r(1,2,3) u] obtain su nu where
    n: "settled_of s pis u su" "apply_settled_update pis su = Inr nu" "nu \<in> set nus" "su \<in> set sus"
    "sa_Id (su_SettledSubaccount nu) = u_SubaccountId u" by metis
  have "accepted pis' su"
    using check_settled_updates_accepted[OF acc(2) r(5)] n(4) by simp
  moreover have "CalculateUpdatedSubaccount su pis' = Inr (su_SettledSubaccount nu)"
    using applied_updated_account[OF n(1,2)]
      CalculateUpdatedSubaccount_same_index[OF with_open_interest_delta_same_index[OF acc(1)]] by simp
  ultimately obtain riskNew where new:
    "GetRiskForSubaccount (su_SettledSubaccount nu) pis' (su_LeverageMap su) = Inr riskNew"
    "IMR riskNew \<le> NC riskNew \<or>
     (\<exists>riskCur. GetRiskForSubaccount (su_SettledSubaccount su) pis' (su_LeverageMap su) = Inr riskCur \<and>
        MMR riskNew \<le> MMR riskCur \<and> \<not> more_risky riskNew riskCur)"
    by (auto simp: accepted_def GetRiskForSettledUpdate_def res_simps dest!: valid_transition_less_risky)
  obtain f where "GetSettledSubaccountWithPerpetuals (GetSubaccount s (u_SubaccountId u)) pis =
      Inr (su_SettledSubaccount su, f)" using n(1) by (auto simp: settled_of_def)
  moreover have "ks_subaccounts s' (u_SubaccountId u) =
      (if is_empty_account (su_SettledSubaccount nu) then None else Some (su_SettledSubaccount nu))"
    using run n(3,5) by (auto simp: batch_run_def)
  moreover have "GetAllRelevantPerpetuals s us = Inr pis" using run by (simp add: batch_run_def)
  moreover have "updated_account s pis u = Inr (su_SettledSubaccount nu)"
    using applied_updated_account[OF n(1,2)] by simp
  moreover have "su_LeverageMap su = (if u_PerpetualUpdates u \<noteq> [] \<or>
      sa_PerpetualPositions (su_SettledSubaccount su) \<noteq> [] then GetLeverage s (u_SubaccountId u) else None)"
    using n(1) by (simp add: settled_of_def)
  ultimately show "\<exists>pis pis' sa0 f sa1 riskNew. let i = u_SubaccountId u;
        lev = (if u_PerpetualUpdates u \<noteq> [] \<or> sa_PerpetualPositions sa0 \<noteq> [] then GetLeverage s i else None) in
      GetAllRelevantPerpetuals s us = Inr pis \<and> infos_from (ks_perps s') pis' \<and>
      GetSettledSubaccountWithPerpetuals (GetSubaccount s i) pis = Inr (sa0, f) \<and>
      updated_account s pis u = Inr sa1 \<and>
      ks_subaccounts s' i = (if is_empty_account sa1 then None else Some sa1) \<and>
      GetRiskForSubaccount sa1 pis' lev = Inr riskNew \<and>
      (IMR riskNew \<le> NC riskNew \<or>
       (\<exists>riskCur. GetRiskForSubaccount sa0 pis' lev = Inr riskCur \<and>
          MMR riskNew \<le> MMR riskCur \<and> \<not> more_risky riskNew riskCur))"
    using after new unfolding Let_def
    by (intro exI[of _ pis] exI[of _ pis'] exI[of _ "su_SettledSubaccount su"] exI[of _ f]
        exI[of _ "su_SettledSubaccount nu"] exI[of _ riskNew]) simp
qed

text \<open>A chain with one cross-margined market, two accounts, and a bank that accepts every transfer.\<close>

definition ex_sdk :: "unit sdk" where
  "ex_sdk = \<lparr>x_SendCoins = \<lambda>_ _ _ s. (Inr (), s), x_GetBalance = \<lambda>_ _ _. 0, x_BlockedAddr = \<lambda>_. False,
     x_NewModuleAddress = \<lambda>n. n, x_AccAddressFromBech32 = \<lambda>a. Inr a,
     x_NewCoin = \<lambda>d n. Inr \<lparr>co_Denom = d, co_Amount = n\<rparr>\<rparr>"

definition ex_perps :: perp_store where
  "ex_perps = \<lparr>ps_perpetuals = [0 \<mapsto> ex_perpetual 0 PERPETUAL_MARKET_TYPE_CROSS],
     ps_tiers = [0 \<mapsto> ex_tier], ps_prices = [0 \<mapsto> ex_price]\<rparr>"

definition ex_id :: "uint32 \<Rightarrow> SubaccountId" where
  "ex_id n = \<lparr>sid_Owner = ''alice'', sid_Number = n\<rparr>"

definition ex_state :: "unit keeper_state" where
  "ex_state = \<lparr>ks_subaccounts = [ex_id 0 \<mapsto> ex_subaccount 0 10000000000 10000000000,
       ex_id 1 \<mapsto> ex_subaccount 1 900000000000 (-10000000000)],
     ks_leverage = Map.empty, ks_negTnc = Map.empty, ks_perps = ex_perps,
     ks_assets = [(0, AssetUsdc)], ks_blocktime = ex_genesis_store, ks_ctx = ex_ctx 100 2000, ks_bank = (),
     ks_events = []\<rparr>"

definition ex_deposit :: Update where
  "ex_deposit = \<lparr>u_SubaccountId = ex_id 0, u_AssetUpdates = [\<lparr>au_AssetId = 0, au_BigQuantumsDelta = 1000\<rparr>],
     u_PerpetualUpdates = []\<rparr>"

lemma ex_run: "fst (UpdateSubaccounts ex_sdk [ex_deposit] Deposit ex_state) = Inr (True, [Success])"
  by code_simp

lemma ex_state_ok: "keeper_ok ex_state"
  by (auto simp: keeper_ok_def perp_store_ok_def ex_state_def ex_perps_def ex_defs account_ok_def
      sorted_subaccount_def ex_subaccount_def isolated_ok_def ex_id_def split: if_splits)

theorem UpdateSubaccounts_solvent_witness:
  "\<exists>sa1. ks_subaccounts (snd (UpdateSubaccounts ex_sdk [ex_deposit] Deposit ex_state)) (ex_id 0) =
      (if is_empty_account sa1 then None else Some sa1) \<and>
    ks_subaccounts (snd (UpdateSubaccounts ex_sdk [ex_deposit] Deposit ex_state)) (ex_id 1) =
      ks_subaccounts ex_state (ex_id 1)"
proof -
  have "UpdateSubaccounts ex_sdk [ex_deposit] Deposit ex_state =
      (Inr (True, [Success]), snd (UpdateSubaccounts ex_sdk [ex_deposit] Deposit ex_state))"
    using ex_run by (metis prod.collapse)
  from UpdateSubaccounts_solvent[OF ex_state_ok this]
  show ?thesis by (auto simp: ex_deposit_def ex_id_def Let_def)
qed

section \<open>The gate on withdrawals and transfers\<close>

definition pool_suffix :: "'b keeper_state \<Rightarrow> Subaccount \<Rightarrow> string res" where
  "pool_suffix s sa = (case sa_PerpetualPositions sa of
      [] \<Rightarrow> Inr CrossCollateralSuffix
    | p # _ \<Rightarrow> getNegativeTncSubaccountStoreSuffix s (po_PerpetualId p))"

text \<open>A negative account was seen in the pool, or the chain was down, less than 50 blocks ago.\<close>

definition recently_unsafe :: "'b keeper_state \<Rightarrow> Subaccount \<Rightarrow> bool" where
  "recently_unsafe s sa \<longleftrightarrow>
     (\<exists>suffix b. pool_suffix s sa = Inr suffix \<and> ks_negTnc s suffix = Some b \<and> 0 < b \<and>
        b \<le> height32 (ks_ctx s) \<and> height32 (ks_ctx s) - b < 50) \<or>
     (let info = GetDowntimeInfoFor (ks_ctx s) (5 * 60 * 1000000000) (ks_blocktime s);
          b = bi_Height (di_BlockInfo info)
      in 0 < b \<and> 0 < di_Duration info \<and> height32 (ks_ctx s) - b < 50)"

lemma add_suffix_eq:
  "add_suffix s u acc = bindr (pool_suffix s (su_SettledSubaccount u))
     (\<lambda>suffix. Inr (if suffix \<in> set acc then acc else acc @ [suffix]))"
  by (simp add: add_suffix_def pool_suffix_def)

lemma add_suffixes_in:
  "for_res (add_suffix s) us acc = Inr sfx \<Longrightarrow> set acc \<subseteq> set sfx \<and>
   (\<forall>u \<in> set us. \<exists>c. pool_suffix s (su_SettledSubaccount u) = Inr c \<and> c \<in> set sfx)"
proof (induction us arbitrary: acc)
  case Nil
  then show ?case by simp
next
  case (Cons u us)
  from Cons.prems obtain acc1 where acc1: "add_suffix s u acc = Inr acc1" "for_res (add_suffix s) us acc1 = Inr sfx"
    by (auto simp: res_simps)
  from acc1(1) obtain c where c: "pool_suffix s (su_SettledSubaccount u) = Inr c"
    "acc1 = (if c \<in> set acc then acc else acc @ [c])"
    by (auto simp: res_simps add_suffix_eq)
  from Cons.IH[OF acc1(2)] c show ?case by (auto split: if_splits)
qed

lemma last_negative_block_ge:
  fixes sfx :: "string list" and s :: "'b keeper_state"
  defines "f \<equiv> (\<lambda>suffix (last, exists).
      case ks_negTnc s suffix of
        Some blockHeight \<Rightarrow> if blockHeight > last then (blockHeight, True) else (last, exists)
      | None \<Rightarrow> (last, exists))"
  shows "fold f sfx (l, e) = (l', e') \<Longrightarrow> (0 < l \<longrightarrow> e) \<Longrightarrow> l \<le> l' \<and> (0 < l' \<longrightarrow> e') \<and>
    (\<forall>c \<in> set sfx. \<forall>b. ks_negTnc s c = Some b \<longrightarrow> b \<le> l')"
proof (induction sfx arbitrary: l e)
  case Nil
  then show ?case by simp
next
  case (Cons c sfx)
  obtain l1 e1 where 1: "f c (l, e) = (l1, e1)" by fastforce
  have step: "l \<le> l1 \<and> (0 < l1 \<longrightarrow> e1) \<and> (\<forall>b. ks_negTnc s c = Some b \<longrightarrow> b \<le> l1)"
    using 1 Cons.prems(2) by (auto simp: f_def not_less split: option.splits if_splits)
  from Cons.IH[of l1 e1] Cons.prems(1) 1 step show ?case
    by (auto intro: order_trans)
qed

lemma word_diff_less_mono:
  fixes a b c n :: uint32
  assumes "b \<le> c" "c \<le> a" "a - b < n"
  shows "a - c < n"
proof -
  have "unat (a - c) \<le> unat (a - b)"
    using assms(1,2) by (simp add: unat_sub word_le_nat_alt)
  with assms(3) show ?thesis by (simp add: word_less_nat_alt)
qed

lemma withdrawals_blocked_unsafe:
  assumes "recently_unsafe s (su_SettledSubaccount su)" "su \<in> set sus"
  shows "withdrawals_blocked s sus \<noteq> Inr False"
proof
  let ?h = "height32 (ks_ctx s)"
  assume nb: "withdrawals_blocked s sus = Inr False"
  then obtain l e where le: "getLastBlockNegativeSubaccountSeen s sus = Inr (l, e)"
    by (auto simp: withdrawals_blocked_def res_simps)
  from nb le have gate: "\<not> (e \<and> ?h < l)" "\<not> (e \<and> ?h - l < 50)"
    "let info = GetDowntimeInfoFor (ks_ctx s) (5 * 60 * 1000000000) (ks_blocktime s);
       b = bi_Height (di_BlockInfo info)
     in \<not> (0 < b \<and> 0 < di_Duration info \<and> ?h - b < 50)"
    by (auto simp: withdrawals_blocked_def Let_def BLOCKED_AFTER_NEGATIVE_TNC_BLOCKS_def
        BLOCKED_AFTER_CHAIN_OUTAGE_DURATION_def split: if_splits)
  with assms(1) obtain suffix b where b: "pool_suffix s (su_SettledSubaccount su) = Inr suffix"
    "ks_negTnc s suffix = Some b" "0 < b" "b \<le> ?h" "?h - b < 50"
    by (auto simp: recently_unsafe_def Let_def)
  obtain sfx where sfx: "for_res (add_suffix s) sus [] = Inr sfx"
    using le by (auto simp: getLastBlockNegativeSubaccountSeen_def getNegativeTncSubaccountStoresuffixes_def res_simps)
  then have "suffix \<in> set sfx" using add_suffixes_in[OF sfx] assms(2) b(1) by auto
  moreover have "(0 < l \<longrightarrow> e) \<and> (\<forall>c \<in> set sfx. \<forall>b. ks_negTnc s c = Some b \<longrightarrow> b \<le> l)"
    using last_negative_block_ge[of s sfx 0 False l e] le sfx
    by (simp add: getLastBlockNegativeSubaccountSeen_def getNegativeTncSubaccountStoresuffixes_def)
  ultimately have "b \<le> l" "0 < l \<longrightarrow> e" using b(2) by auto
  with b gate(1,2) show False
    using word_diff_less_mono[of b l ?h 50] by (metis not_less order.strict_trans2)
qed


lemma recently_unsafe_same_ids:
  assumes "map po_PerpetualId (sa_PerpetualPositions sa') = map po_PerpetualId (sa_PerpetualPositions sa)"
  shows "recently_unsafe s sa' = recently_unsafe s sa"
proof -
  have "pool_suffix s sa' = pool_suffix s sa"
    using assms by (auto simp: pool_suffix_def split: list.splits)
  then show ?thesis by (simp add: recently_unsafe_def)
qed

text \<open>
  C13: Withdrawals and transfers are blocked for 50 blocks: if an account with negative collateral was
  seen in the collateral pool of any account of the batch, or the chain was down for five minutes
  or more, less than 50 blocks ago, then a withdrawal or transfer touching that account never
  succeeds and no account changes.
\<close>

theorem withdrawals_gated:
  assumes "keeper_ok s" "UpdateSubaccounts x us ty s = (r, s')" "ty = Withdrawal \<or> ty = Transfer"
    and "u \<in> set us" "recently_unsafe s (GetSubaccount s (u_SubaccountId u))"
  shows "(\<forall>rs. r \<noteq> Inr (True, rs)) \<and> ks_subaccounts s' = ks_subaccounts s"
proof -
  have no: "r \<noteq> Inr (True, rs)" for rs
  proof
    assume "r = Inr (True, rs)"
    then obtain pis sus nus where run: "batch_run s us ty rs s' pis sus nus"
      using UpdateSubaccounts_batch[OF assms(1)] assms(2) by metis
    then have r: "list_all2 (settled_of s pis) us sus" "GetAllRelevantPerpetuals s us = Inr pis"
      "withdrawals_blocked s sus = Inr False"
      using assms(3) internalCan_success[of s sus ty pis rs] by (auto simp: batch_run_def)
    obtain su where su: "su \<in> set sus" "settled_of s pis u su"
      using r(1) assms(4) by (metis list_all2_conv_all_nth in_set_conv_nth)
    then obtain f where f: "GetSettledSubaccountWithPerpetuals (GetSubaccount s (u_SubaccountId u)) pis =
        Inr (su_SettledSubaccount su, f)" by (auto simp: settled_of_def)
    have "recently_unsafe s (su_SettledSubaccount su)"
      using settled_account_ok(2)[OF keeper_ok_account[OF assms(1)] GetAllRelevantPerpetuals_infos(2)[OF r(2) assms(4)] f]
        recently_unsafe_same_ids assms(5) by blast
    from withdrawals_blocked_unsafe[OF this su(1)] r(3) show False by simp
  qed
  have "s' = s\<lparr>ks_perps := ks_perps s', ks_bank := ks_bank s'\<rparr>"
    using UpdateSubaccounts_failure[OF assms(2)] no by blast
  then obtain p b where "s' = s\<lparr>ks_perps := p, ks_bank := b\<rparr>" by blast
  with no show ?thesis by simp
qed

definition ex_withdrawal :: Update where
  "ex_withdrawal = ex_deposit\<lparr>u_AssetUpdates := [\<lparr>au_AssetId = 0, au_BigQuantumsDelta = - 1000\<rparr>]\<rparr>"

theorem withdrawals_gated_witness:
  "ks_subaccounts (snd (UpdateSubaccounts ex_sdk [ex_withdrawal] Withdrawal
     (ex_state\<lparr>ks_negTnc := [''cross'' \<mapsto> 60]\<rparr>))) (ex_id 0) = ks_subaccounts ex_state (ex_id 0)"
proof -
  let ?s = "ex_state\<lparr>ks_negTnc := [''cross'' \<mapsto> 60]\<rparr>"
  have ok: "keeper_ok ?s" using ex_state_ok by (simp add: keeper_ok_def)
  have "recently_unsafe ?s (GetSubaccount ?s (ex_id 0))"
    by (simp add: recently_unsafe_def pool_suffix_def GetSubaccount_def ex_state_def ex_id_def ex_subaccount_def
        getNegativeTncSubaccountStoreSuffix_def IsIsolatedPerpetual_def GetPerpetual_def ex_perps_def ex_defs
        CrossCollateralSuffix_def ex_ctx_def height32_def)
  from withdrawals_gated[OF ok surjective_pairing, of Withdrawal ex_withdrawal "[ex_withdrawal]"] this
  show ?thesis by (simp add: ex_withdrawal_def ex_deposit_def)
qed

theorem UpdateSubaccounts_keeper_ok_witness:
  "keeper_ok (snd (UpdateSubaccounts ex_sdk [ex_deposit] Deposit ex_state))"
proof -
  have "UpdateSubaccounts ex_sdk [ex_deposit] Deposit ex_state =
      (Inr (True, [Success]), snd (UpdateSubaccounts ex_sdk [ex_deposit] Deposit ex_state))"
    using ex_run by (metis prod.collapse)
  from UpdateSubaccounts_keeper_ok[OF ex_state_ok this] show ?thesis by simp
qed

section \<open>Open interest\<close>

definition long :: "'b keeper_state \<Rightarrow> uint32 \<Rightarrow> SubaccountId \<Rightarrow> int" where
  "long s k i = max 0 (held po_PerpetualId po_Quantums (sa_PerpetualPositions (GetSubaccount s i)) k)"

text \<open>Open interest is the sum of the long positions; \<open>A\<close> holds every account with a position.\<close>

definition open_interest_inv :: "SubaccountId set \<Rightarrow> 'b keeper_state \<Rightarrow> bool" where
  "open_interest_inv A s \<longleftrightarrow> finite A \<and> (\<forall>i. i \<notin> A \<longrightarrow> sa_PerpetualPositions (GetSubaccount s i) = []) \<and>
     (\<forall>k p. ps_perpetuals (ks_perps s) k = Some p \<longrightarrow> p_OpenInterest p = (\<Sum>i\<in>A. long s k i))"

lemma GetDelta_match:
  assumes "GetDeltaOpenInterestFromUpdates sus Match = Inr d"
    and "\<forall>su \<in> set sus. sorted_subaccount (su_SettledSubaccount su)"
  obtains su0 su1 p0 p1 where "sus = [su0, su1]" "su_PerpetualUpdates su0 = [p0]" "su_PerpetualUpdates su1 = [p1]"
    "pu_PerpetualId p1 = pu_PerpetualId p0" "pu_BigQuantumsDelta p1 = - pu_BigQuantumsDelta p0"
    "d = (let k = pu_PerpetualId p0; D = delta_long su0 k (pu_BigQuantumsDelta p0) + delta_long su1 k (pu_BigQuantumsDelta p1)
          in if D = 0 then None else Some (k, D))"
proof -
  from assms(1) obtain su0 su1 p0 p1 where su: "sus = [su0, su1]" "su_PerpetualUpdates su0 = [p0]"
    "su_PerpetualUpdates su1 = [p1]" "pu_PerpetualId p1 = pu_PerpetualId p0"
    "\<not> sgn (pu_BigQuantumsDelta p0) * sgn (pu_BigQuantumsDelta p1) > 0"
    "\<bar>pu_BigQuantumsDelta p0\<bar> = \<bar>pu_BigQuantumsDelta p1\<bar>"
    by (auto simp: GetDeltaOpenInterestFromUpdates_def Let_def split: list.splits if_splits)
  have neg: "pu_BigQuantumsDelta p1 = - pu_BigQuantumsDelta p0"
    using su(5,6) by (auto simp: abs_if sgn_if split: if_splits)
  let ?k = "pu_PerpetualId p0"
  let ?D = "delta_long su0 ?k (pu_BigQuantumsDelta p0) + delta_long su1 ?k (pu_BigQuantumsDelta p1)"
  have g: "getDeltaLongFromSettledUpdate su0 ?k = Inr (delta_long su0 ?k (pu_BigQuantumsDelta p0))"
    "getDeltaLongFromSettledUpdate su1 ?k = Inr (delta_long su1 ?k (pu_BigQuantumsDelta p1))"
    using getDeltaLong_eq[OF _ su(2)] getDeltaLong_eq[OF _ su(3)] assms(2) su(1) by simp_all
  have "GetDeltaOpenInterestFromUpdates sus Match = Inr (if ?D = 0 then None else Some (?k, ?D))"
    using su(5,6) unfolding su(1) GetDeltaOpenInterestFromUpdates_def
    by (simp add: su(2,3,4) g Let_def sgn_0_0)
  then show ?thesis
    using that[OF su(1-4) neg] assms(1) by (simp add: Let_def)
qed

lemma held_updated:
  assumes "sorted_wrt (<) (map po_PerpetualId ps)" "CalculateUpdatedPerpetualPositions ps us pis = Inr ps'"
  shows "held po_PerpetualId po_Quantums ps' k = held po_PerpetualId po_Quantums ps k +
    (\<Sum>u\<leftarrow>us. if pu_PerpetualId u = k then pu_BigQuantumsDelta u else 0)"
  using assms(2) perp_updates.updated_list_held[OF _ assms(1)]
  by (auto simp: CalculateUpdatedPerpetualPositions_def res_simps)

lemma held_settled: "held po_PerpetualId po_Quantums (map (settled_position pis) ps) = held po_PerpetualId po_Quantums ps"
proof -
  have "find (\<lambda>p. po_PerpetualId p = k) (map (settled_position pis) ps) =
      map_option (settled_position pis) (find (\<lambda>p. po_PerpetualId p = k) ps)" for k
    by (induction ps) auto
  then show ?thesis by (auto simp: held_def fun_eq_iff split: option.splits)
qed

lemma GetSubaccount_stored:
  "ks_subaccounts s' i = (if is_empty_account sa then None else Some sa) \<Longrightarrow>
   sa_PerpetualPositions (GetSubaccount s' i) = sa_PerpetualPositions sa"
  by (auto simp: GetSubaccount_def is_empty_account_def)

lemma batch_held:
  assumes ok: "keeper_ok s" and all: "GetAllRelevantPerpetuals s us = Inr pis" "u \<in> set us"
    and st: "settled_of s pis u su" "apply_settled_update pis su = Inr nu"
    and stored: "ks_subaccounts s' (u_SubaccountId u) =
      (if is_empty_account (su_SettledSubaccount nu) then None else Some (su_SettledSubaccount nu))"
  shows "sorted_subaccount (su_SettledSubaccount su)"
    and "held po_PerpetualId po_Quantums (sa_PerpetualPositions (su_SettledSubaccount su)) k =
      held po_PerpetualId po_Quantums (sa_PerpetualPositions (GetSubaccount s (u_SubaccountId u))) k"
    and "held po_PerpetualId po_Quantums (sa_PerpetualPositions (GetSubaccount s' (u_SubaccountId u))) k =
      held po_PerpetualId po_Quantums (sa_PerpetualPositions (GetSubaccount s (u_SubaccountId u))) k +
      (\<Sum>p\<leftarrow>u_PerpetualUpdates u. if pu_PerpetualId p = k then pu_BigQuantumsDelta p else 0)"
proof -
  let ?sa = "GetSubaccount s (u_SubaccountId u)"
  have cover: "infos_cover pis ?sa" using GetAllRelevantPerpetuals_infos(2)[OF all] .
  obtain f where f: "GetSettledSubaccountWithPerpetuals ?sa pis = Inr (su_SettledSubaccount su, f)"
    "su_PerpetualUpdates su = u_PerpetualUpdates u"
    using st(1) by (auto simp: settled_of_def)
  show sorted: "sorted_subaccount (su_SettledSubaccount su)"
    using settled_account_ok(1)[OF keeper_ok_account[OF ok] cover f(1)] by (simp add: account_ok_def)
  have "sa_PerpetualPositions (su_SettledSubaccount su) = map (settled_position pis) (sa_PerpetualPositions ?sa)"
    using settled_subaccount_eq[OF cover] f(1) by auto
  then show held: "held po_PerpetualId po_Quantums (sa_PerpetualPositions (su_SettledSubaccount su)) k =
      held po_PerpetualId po_Quantums (sa_PerpetualPositions ?sa) k"
    by (simp add: held_settled)
  have upd: "CalculateUpdatedPerpetualPositions (sa_PerpetualPositions (su_SettledSubaccount su)) (su_PerpetualUpdates su) pis =
      Inr (sa_PerpetualPositions (su_SettledSubaccount nu))"
    using st(2) by (auto simp: apply_settled_update_def CalculateUpdatedSubaccount_def res_simps Let_def)
  have "sorted_wrt (<) (map po_PerpetualId (sa_PerpetualPositions (su_SettledSubaccount su)))"
    using sorted by (simp add: sorted_subaccount_def)
  from held_updated[OF this upd, of k] held f(2) GetSubaccount_stored[OF stored] show
    "held po_PerpetualId po_Quantums (sa_PerpetualPositions (GetSubaccount s' (u_SubaccountId u))) k =
      held po_PerpetualId po_Quantums (sa_PerpetualPositions ?sa) k +
      (\<Sum>p\<leftarrow>u_PerpetualUpdates u. if pu_PerpetualId p = k then pu_BigQuantumsDelta p else 0)"
    by simp
qed


lemma sum_two:
  assumes "finite A" "a \<in> A" "b \<in> A" "a \<noteq> b" "\<And>i. i \<in> A \<Longrightarrow> i \<noteq> a \<Longrightarrow> i \<noteq> b \<Longrightarrow> f i = g i"
  shows "sum f A = sum g A + (f a - g a) + (f b - g b :: int)"
proof -
  have "sum f A = f a + f b + sum f (A - {a} - {b})" "sum g A = g a + g b + sum g (A - {a} - {b})"
    using assms(1-4) by (simp_all add: sum.remove[of A a] sum.remove[of "A - {a}" b])
  moreover have "sum f (A - {a} - {b}) = sum g (A - {a} - {b})"
    using assms(5) by (intro sum.cong) auto
  ultimately show ?thesis by simp
qed

lemma batch_nth:
  assumes ok: "keeper_ok s" and run: "batch_run s us ty rs s' pis sus nus" and n: "n < length sus"
  shows "sorted_subaccount (su_SettledSubaccount (sus ! n))"
    and "held po_PerpetualId po_Quantums (sa_PerpetualPositions (su_SettledSubaccount (sus ! n))) k =
      held po_PerpetualId po_Quantums (sa_PerpetualPositions (GetSubaccount s (u_SubaccountId (us ! n)))) k"
    and "held po_PerpetualId po_Quantums (sa_PerpetualPositions (GetSubaccount s' (u_SubaccountId (us ! n)))) k =
      held po_PerpetualId po_Quantums (sa_PerpetualPositions (GetSubaccount s (u_SubaccountId (us ! n)))) k +
      (\<Sum>p\<leftarrow>su_PerpetualUpdates (sus ! n). if pu_PerpetualId p = k then pu_BigQuantumsDelta p else 0)"
proof -
  have r: "list_all2 (settled_of s pis) us sus" "GetAllRelevantPerpetuals s us = Inr pis"
    "list_all2 (\<lambda>su nu. apply_settled_update pis su = Inr nu) sus nus"
    "map (\<lambda>u. sa_Id (su_SettledSubaccount u)) nus = map u_SubaccountId us"
    "\<forall>nu \<in> set nus. ks_subaccounts s' (sa_Id (su_SettledSubaccount nu)) =
       (if is_empty_account (su_SettledSubaccount nu) then None else Some (su_SettledSubaccount nu))"
    using run by (simp_all add: batch_run_def)
  have len: "length us = length sus" "length nus = length sus"
    using list_all2_lengthD[OF r(1)] list_all2_lengthD[OF r(3)] by simp_all
  have st: "settled_of s pis (us ! n) (sus ! n)" "apply_settled_update pis (sus ! n) = Inr (nus ! n)"
    using r(1,3) n len by (simp_all add: list_all2_conv_all_nth)
  have "sa_Id (su_SettledSubaccount (nus ! n)) = u_SubaccountId (us ! n)"
    using arg_cong[OF r(4), of "\<lambda>l. l ! n"] n len by simp
  then have stored: "ks_subaccounts s' (u_SubaccountId (us ! n)) =
      (if is_empty_account (su_SettledSubaccount (nus ! n)) then None else Some (su_SettledSubaccount (nus ! n)))"
    using r(5) n len by (metis nth_mem)
  have u: "us ! n \<in> set us" using n len by simp
  note b = batch_held[OF ok r(2) u st stored]
  show "sorted_subaccount (su_SettledSubaccount (sus ! n))" by (rule b(1))
  show "held po_PerpetualId po_Quantums (sa_PerpetualPositions (su_SettledSubaccount (sus ! n))) k =
    held po_PerpetualId po_Quantums (sa_PerpetualPositions (GetSubaccount s (u_SubaccountId (us ! n)))) k"
    by (rule b(2))
  show "held po_PerpetualId po_Quantums (sa_PerpetualPositions (GetSubaccount s' (u_SubaccountId (us ! n)))) k =
    held po_PerpetualId po_Quantums (sa_PerpetualPositions (GetSubaccount s (u_SubaccountId (us ! n)))) k +
    (\<Sum>p\<leftarrow>su_PerpetualUpdates (sus ! n). if pu_PerpetualId p = k then pu_BigQuantumsDelta p else 0)"
    using b(3)[of k] st(1) by (simp add: settled_of_def)
qed

lemma modify_open_interest_amount:
  assumes "keeper_ok s" "modify_open_interest (if D = 0 then None else Some (k, D)) s = (Inr (), s1)"
    and "ps_perpetuals (ks_perps s1) j = Some p"
  shows "\<exists>p'. ps_perpetuals (ks_perps s) j = Some p' \<and> p_OpenInterest p = p_OpenInterest p' + (if j = k then D else 0)"
  using assms ModifyOpenInterest_spec[of "ks_perps s"]
  by (auto simp: modify_open_interest_def keeper_ok_def split: if_splits sum.splits)

text \<open>A match moves the long sides of two different accounts, and open interest by their sum.\<close>

lemma match_longs:
  assumes ok: "keeper_ok s" and run: "batch_run s us Match rs s' pis sus nus"
  obtains a b k Da Db where "u_SubaccountId ` set us = {a, b}" "a \<noteq> b"
    "\<forall>i. i \<noteq> a \<and> i \<noteq> b \<longrightarrow> GetSubaccount s' i = GetSubaccount s i"
    "\<forall>j. long s' j a - long s j a = (if j = k then Da else 0)"
    "\<forall>j. long s' j b - long s j b = (if j = k then Db else 0)"
    "\<forall>j p. ps_perpetuals (ks_perps s') j = Some p \<longrightarrow>
       (\<exists>p'. ps_perpetuals (ks_perps s) j = Some p' \<and> p_OpenInterest p = p_OpenInterest p' + (if j = k then Da + Db else 0))"
proof -
  obtain d s1 where d: "GetDeltaOpenInterestFromUpdates sus Match = Inr d"
    "modify_open_interest d s = (Inr (), s1)" "ks_perps s' = ks_perps s1"
    using run by (auto simp: batch_run_def)
  note held = batch_nth[OF ok run]
  have sorted: "\<forall>su \<in> set sus. sorted_subaccount (su_SettledSubaccount su)"
    using held(1) by (auto simp: in_set_conv_nth)
  obtain su0 su1 p0 p1 where m: "sus = [su0, su1]" "su_PerpetualUpdates su0 = [p0]" "su_PerpetualUpdates su1 = [p1]"
    "pu_PerpetualId p1 = pu_PerpetualId p0"
    "d = (let k = pu_PerpetualId p0; D = delta_long su0 k (pu_BigQuantumsDelta p0) + delta_long su1 k (pu_BigQuantumsDelta p1)
          in if D = 0 then None else Some (k, D))"
    using GetDelta_match[OF d(1) sorted] by metis
  have "length us = 2" using run m(1) by (auto simp: batch_run_def dest!: list_all2_lengthD)
  then obtain u0 u1 where us: "us = [u0, u1]" by (auto simp: length_Suc_conv eval_nat_numeral)
  let ?a = "u_SubaccountId u0" and ?b = "u_SubaccountId u1" and ?k = "pu_PerpetualId p0"
  show ?thesis
  proof (rule that[of ?a ?b ?k "delta_long su0 ?k (pu_BigQuantumsDelta p0)" "delta_long su1 ?k (pu_BigQuantumsDelta p1)"])
    show "u_SubaccountId ` set us = {?a, ?b}" "?a \<noteq> ?b" using us run by (auto simp: batch_run_def)
    show "\<forall>i. i \<noteq> ?a \<and> i \<noteq> ?b \<longrightarrow> GetSubaccount s' i = GetSubaccount s i"
      using run us by (auto simp: batch_run_def GetSubaccount_def)
    show "\<forall>j. long s' j ?a - long s j ?a = (if j = ?k then delta_long su0 ?k (pu_BigQuantumsDelta p0) else 0)"
      using held(2,3)[of 0] m(1,2) us by (auto simp: long_def delta_long_def Let_def)
    show "\<forall>j. long s' j ?b - long s j ?b = (if j = ?k then delta_long su1 ?k (pu_BigQuantumsDelta p1) else 0)"
      using held(2,3)[of 1] m(1,3,4) us by (auto simp: long_def delta_long_def Let_def)
    show "\<forall>j p. ps_perpetuals (ks_perps s') j = Some p \<longrightarrow>
       (\<exists>p'. ps_perpetuals (ks_perps s) j = Some p' \<and> p_OpenInterest p = p_OpenInterest p' +
          (if j = ?k then delta_long su0 ?k (pu_BigQuantumsDelta p0) + delta_long su1 ?k (pu_BigQuantumsDelta p1) else 0))"
      using modify_open_interest_amount[OF ok d(2)[unfolded m(5) Let_def]] d(3) by simp
  qed
qed

text \<open>
  C8: Open interest is exact: if the stored open interest of every perpetual equals the sum of all
  long positions, it still does after every accepted match, whichever sides of the two accounts
  are opened, closed or flipped.
\<close>

theorem match_keeps_open_interest:
  assumes ok: "keeper_ok s" and upd: "UpdateSubaccounts x us Match s = (Inr (True, rs), s')"
    and inv: "open_interest_inv A s" and A: "u_SubaccountId ` set us \<subseteq> A"
  shows "open_interest_inv A s'"
proof -
  obtain pis sus nus where run: "batch_run s us Match rs s' pis sus nus"
    using UpdateSubaccounts_batch[OF ok upd] .
  obtain a b k Da Db where m: "u_SubaccountId ` set us = {a, b}" "a \<noteq> b"
    "\<forall>i. i \<noteq> a \<and> i \<noteq> b \<longrightarrow> GetSubaccount s' i = GetSubaccount s i"
    "\<forall>j. long s' j a - long s j a = (if j = k then Da else 0)"
    "\<forall>j. long s' j b - long s j b = (if j = k then Db else 0)"
    "\<forall>j p. ps_perpetuals (ks_perps s') j = Some p \<longrightarrow>
       (\<exists>p'. ps_perpetuals (ks_perps s) j = Some p' \<and> p_OpenInterest p = p_OpenInterest p' + (if j = k then Da + Db else 0))"
    by (rule match_longs[OF ok run])
  have ab: "a \<in> A" "b \<in> A" using A m(1) by auto
  have sum: "(\<Sum>i\<in>A. long s' j i) = (\<Sum>i\<in>A. long s j i) + (if j = k then Da + Db else 0)" for j
  proof -
    have "long s' j i = long s j i" if "i \<noteq> a" "i \<noteq> b" for i
      using m(3) that by (simp add: long_def)
    then show ?thesis
      using sum_two[of A a b "long s' j" "long s j"] inv ab m(2) m(4)[rule_format, of j] m(5)[rule_format, of j]
      by (auto simp: open_interest_inv_def)
  qed
  show ?thesis
    unfolding open_interest_inv_def
  proof (intro conjI allI impI)
    show "finite A" using inv by (simp add: open_interest_inv_def)
    show "sa_PerpetualPositions (GetSubaccount s' i) = []" if "i \<notin> A" for i
      using that m(3) ab inv by (metis open_interest_inv_def)
    show "p_OpenInterest p = (\<Sum>i\<in>A. long s' j i)" if "ps_perpetuals (ks_perps s') j = Some p" for j p
      using m(6)[rule_format, OF that] sum[of j] inv by (auto simp: open_interest_inv_def)
  qed
qed

definition ex_match :: "Update list" where
  "ex_match =
     [\<lparr>u_SubaccountId = ex_id 0, u_AssetUpdates = [\<lparr>au_AssetId = 0, au_BigQuantumsDelta = 50000000\<rparr>],
       u_PerpetualUpdates = [\<lparr>pu_PerpetualId = 0, pu_BigQuantumsDelta = -10000000, pu_BigQuoteBalanceDelta = 0\<rparr>]\<rparr>,
      \<lparr>u_SubaccountId = ex_id 1, u_AssetUpdates = [\<lparr>au_AssetId = 0, au_BigQuantumsDelta = -50000000\<rparr>],
       u_PerpetualUpdates = [\<lparr>pu_PerpetualId = 0, pu_BigQuantumsDelta = 10000000, pu_BigQuoteBalanceDelta = 0\<rparr>]\<rparr>]"

lemma ex_match_run: "fst (UpdateSubaccounts ex_sdk ex_match Match ex_state) = Inr (True, [Success, Success])"
  by code_simp

theorem match_keeps_open_interest_witness:
  "open_interest_inv {ex_id 0, ex_id 1} (snd (UpdateSubaccounts ex_sdk ex_match Match ex_state))"
proof -
  have run: "UpdateSubaccounts ex_sdk ex_match Match ex_state =
      (Inr (True, [Success, Success]), snd (UpdateSubaccounts ex_sdk ex_match Match ex_state))"
    using ex_match_run by (metis prod.collapse)
  have "open_interest_inv {ex_id 0, ex_id 1} ex_state"
    by (auto simp: open_interest_inv_def long_def held_def GetSubaccount_def ex_state_def ex_perps_def ex_defs
        ex_subaccount_def ex_id_def split: if_splits option.splits)
  from match_keeps_open_interest[OF ex_state_ok run this] show ?thesis
    by (simp add: ex_match_def)
qed

section \<open>Leverage\<close>

lemma GetLeverage_SetLeverage: "gm_inv m \<Longrightarrow> GetLeverage (SetLeverage i m s) j = (if j = i then Some m else GetLeverage s j)"
  by (simp add: GetLeverage_def SetLeverage_def gm_rebuild fold_gm_set_same)

lemma gm_inv_fold_set: "gm_inv m \<Longrightarrow> gm_inv (fold (\<lambda>(k, v) m. gm_set k v m) es m)"
  by (induction es arbitrary: m) (auto simp: case_prod_beta)

lemma gm_get_fold_set:
  "gm_inv es \<Longrightarrow> gm_get (fold (\<lambda>(k, v) m. gm_set k v m) es m) k =
    (case gm_get es k of Some v \<Rightarrow> Some v | None \<Rightarrow> gm_get m k)"
proof (induction es arbitrary: m)
  case Nil
  then show ?case by simp
next
  case (Cons e es)
  then have inv: "gm_inv es" and fresh: "\<forall>p \<in> set es. fst e < fst p" by (auto simp: gm_inv_def)
  have "gm_get es (fst e) = None" using fresh by (auto simp: gm_get_None_iff)
  with Cons.IH[OF inv] show ?case
    by (cases e) (auto simp: gm_get_def split: option.splits)
qed

lemma GetLeverage_inv: "GetLeverage s i = Some m \<Longrightarrow> gm_inv m"
  by (auto simp: GetLeverage_def gm_inv_fold_set)

lemma for_res_unit_all:
  "for_res f xs () = Inr () \<longleftrightarrow> (\<forall>x \<in> set xs. f x () = Inr ())"
  by (induction xs) (auto simp: res_simps)

text \<open>
  C31: A leverage update that is accepted stores exactly the old settings overridden by the new ones,
  reads back what it stored, touches no other account's settings and nothing else in the state,
  and accepts no setting below the minimum margin fraction of its market; a rejected update
  changes nothing.
\<close>

theorem UpdateLeverage_spec:
  assumes "gm_inv lev" "UpdateLeverage i lev s = (r, s')"
  shows "case r of
      Inl e \<Rightarrow> s' = s
    | Inr _ \<Rightarrow>
        (\<exists>m. GetLeverage s' i = Some m \<and>
          (\<forall>k. gm_get m k = (case gm_get lev k of Some v \<Rightarrow> Some v
             | None \<Rightarrow> (case GetLeverage s i of None \<Rightarrow> None | Some old \<Rightarrow> gm_get old k)))) \<and>
        (\<forall>j. j \<noteq> i \<longrightarrow> GetLeverage s' j = GetLeverage s j) \<and>
        (\<forall>k v. gm_get lev k = Some v \<longrightarrow> (\<exists>mn. GetMinImfForPerpetual s k = Inr mn \<and> mn \<le> v)) \<and>
        s' = s\<lparr>ks_leverage := ks_leverage s'\<rparr>"
proof (cases r)
  case (Inl e)
  then show ?thesis
    using assms(2) by (auto simp: UpdateLeverage_def step_simps Let_def)
next
  case (Inr u)
  let ?old = "case GetLeverage s i of None \<Rightarrow> [] | Some m \<Rightarrow> m"
  let ?new = "fold (\<lambda>(k, v) m. gm_set k v m) lev ?old"
  have s': "s' = SetLeverage i ?new s"
    and min: "for_res (check_min_imf s lev) (gm_keys lev) () = Inr ()"
    using assms(2) Inr by (auto simp: UpdateLeverage_def step_simps Let_def)
  have old: "gm_inv ?old" using GetLeverage_inv[of s i] by (auto split: option.splits)
  then have new: "gm_inv ?new" by (rule gm_inv_fold_set)
  have imf: "\<exists>mn. GetMinImfForPerpetual s k = Inr mn \<and> mn \<le> v" if v: "gm_get lev k = Some v" for k v
  proof -
    have "k \<in> set (gm_keys lev)" using v assms(1) by (auto simp: dom_gm_get[symmetric])
    then have "check_min_imf s lev k () = Inr ()" using min by (simp add: for_res_unit_all)
    then show ?thesis using v by (auto simp: check_min_imf_def not_less split: sum.splits if_splits)
  qed
  have "GetLeverage s' i = Some ?new" using GetLeverage_SetLeverage[OF new, of i s] s' by simp
  moreover have "gm_get ?new k = (case gm_get lev k of Some v \<Rightarrow> Some v
      | None \<Rightarrow> (case GetLeverage s i of None \<Rightarrow> None | Some old \<Rightarrow> gm_get old k))" for k
    using gm_get_fold_set[OF assms(1)] by (auto split: option.splits)
  moreover have "s' = s\<lparr>ks_leverage := ks_leverage s'\<rparr>" by (simp add: s' SetLeverage_def)
  ultimately show ?thesis
    using Inr imf GetLeverage_SetLeverage[OF new, of i s] s' by auto
qed

definition ex_lev_state :: "unit keeper_state" where
  "ex_lev_state = ex_state\<lparr>
     ks_perps := ex_perps\<lparr>ps_perpetuals := [0 \<mapsto> ex_perpetual 0 PERPETUAL_MARKET_TYPE_CROSS,
       1 \<mapsto> ex_perpetual 1 PERPETUAL_MARKET_TYPE_CROSS]\<rparr>,
     ks_subaccounts := [ex_id 0 \<mapsto> \<lparr>sa_Id = ex_id 0,
       sa_AssetPositions = [\<lparr>ap_AssetId = 0, ap_Quantums = - 49000000000, ap_Index = 0\<rparr>],
       sa_PerpetualPositions = [\<lparr>po_PerpetualId = 0, po_Quantums = 10000000000, po_FundingIndex = 0, po_QuoteBalance = 0\<rparr>,
         \<lparr>po_PerpetualId = 1, po_Quantums = 10000000000, po_FundingIndex = 0, po_QuoteBalance = 0\<rparr>],
       sa_MarginEnabled = True\<rparr>],
     ks_leverage := [ex_id 0 \<mapsto> [(0, 800000)]]\<rparr>"

theorem UpdateLeverage_spec_witness:
  "\<exists>m. GetLeverage (snd (UpdateLeverage (ex_id 0) [(1, 500000)] ex_lev_state)) (ex_id 0) = Some m \<and>
     gm_get m 0 = Some 800000 \<and> gm_get m 1 = Some 500000"
proof -
  have "fst (UpdateLeverage (ex_id 0) [(1, 500000)] ex_lev_state) = Inr ()" by code_simp
  then have run: "UpdateLeverage (ex_id 0) [(1, 500000)] ex_lev_state =
      (Inr (), snd (UpdateLeverage (ex_id 0) [(1, 500000)] ex_lev_state))" by (metis prod.collapse)
  have inv: "gm_inv [(1::uint32, 500000::uint32)]" by (simp add: gm_inv_def)
  have "GetLeverage ex_lev_state (ex_id 0) = Some [(0, 800000)]" by code_simp
  with UpdateLeverage_spec[OF inv run] show ?thesis by (auto simp: gm_get_def)
qed

text \<open>
  C32: The margin check of a leverage update looks at the new settings only: here the account keeps an
  earlier setting for another market, the update is accepted, and under the settings that are
  stored the account is below its initial margin requirement.
\<close>

theorem UpdateLeverage_ignores_existing_settings:
  "\<exists>risk. fst (UpdateLeverage (ex_id 0) [(1, 500000)] ex_lev_state) = Inr () \<and>
     GetNetCollateralAndMarginRequirements (snd (UpdateLeverage (ex_id 0) [(1, 500000)] ex_lev_state))
       \<lparr>u_SubaccountId = ex_id 0, u_AssetUpdates = [], u_PerpetualUpdates = []\<rparr> = Inr risk \<and>
     \<not> IsInitialCollateralized risk"
proof -
  have "fst (UpdateLeverage (ex_id 0) [(1, 500000)] ex_lev_state) = Inr ()" by code_simp
  moreover have "GetNetCollateralAndMarginRequirements (snd (UpdateLeverage (ex_id 0) [(1, 500000)] ex_lev_state))
       \<lparr>u_SubaccountId = ex_id 0, u_AssetUpdates = [], u_PerpetualUpdates = []\<rparr> =
       Inr \<lparr>MMR = 3000000000, IMR = 65000000000, NC = 51000000000\<rparr>" by code_simp
  ultimately show ?thesis by simp
qed

end
