(* ===== verification/Epochs.thy ===== *)
theory Epochs
  imports Blocktime
begin

text \<open>
  \<^verbatim>\<open>x/epochs\<close>: epoch infos ticked by the block time (\<^verbatim>\<open>keeper/epoch_info.go\<close>, \<^verbatim>\<open>types/epoch_info.go\<close>,
  \<^verbatim>\<open>types/genesis.go\<close>, \<^verbatim>\<open>abci.go\<close>, \<^verbatim>\<open>genesis.go\<close>). Ticks, durations and epoch numbers are 32-bit
  words; division by a zero duration panics as in Go. Events and metrics are left out.
\<close>

section \<open>Definitions\<close>

record EpochInfo =
  ei_Name :: string
  ei_NextTick :: uint32
  ei_Duration :: uint32
  ei_CurrentEpoch :: uint32
  ei_CurrentEpochStartBlock :: uint32
  ei_IsInitialized :: bool
  ei_FastForwardNextTick :: bool

type_synonym epoch_store = "(string, EpochInfo) gomap"

text \<open>Seconds since 1970 of a time in nanoseconds since Go's zero time.\<close>

definition Unix :: "int \<Rightarrow> int64" where
  "Unix t = word_of_int (t div 1000000000 - 62135596800)"

definition MustConvertIntegerToUint32 :: "int64 \<Rightarrow> uint32 res" where
  "MustConvertIntegerToUint32 value =
     (if sint value < 0 \<or> sint value > 2 ^ 32 - 1 then Inl (Panic ''MustConvertIntegerToUint32'')
      else Inr (ucast value))"

definition div_uint32 :: "uint32 \<Rightarrow> uint32 \<Rightarrow> uint32 res" where
  "div_uint32 a b = (if b = 0 then Inl (Panic ''integer divide by zero'') else Inr (a div b))"

definition EpochInfo_Validate :: "EpochInfo \<Rightarrow> unit res" where
  "EpochInfo_Validate epoch =
     (if ei_Name epoch = '''' then Inl (Err ''ErrEmptyEpochInfoName'')
      else if ei_Duration epoch = 0 then Inl (Err ''ErrDurationIsZero'')
      else if (ei_CurrentEpoch epoch = 0) \<noteq> (ei_CurrentEpochStartBlock epoch = 0)
      then Inl (Err ''ErrInvalidCurrentEpochAndCurrentEpochStartBlockTuple'')
      else Inr ())"

definition setEpochInfo :: "EpochInfo \<Rightarrow> epoch_store \<Rightarrow> epoch_store" where
  "setEpochInfo epochInfo s = gm_set (ei_Name epochInfo) epochInfo s"

definition GetEpochInfo :: "epoch_store \<Rightarrow> string \<Rightarrow> EpochInfo option" where
  "GetEpochInfo s i = gm_get s i"

definition GetAllEpochInfo :: "epoch_store \<Rightarrow> EpochInfo list" where
  "GetAllEpochInfo s = gm_vals s"

text \<open>The initialisation stage: the epoch after it, or \<^const>\<open>None\<close> when it is not ready.\<close>

definition initialize_epoch :: "block_ctx \<Rightarrow> uint32 \<Rightarrow> EpochInfo \<Rightarrow> EpochInfo option res" where
  "initialize_epoch ctx blockTime epoch =
     (if \<not> (sint (ctx_BlockHeight ctx) \<ge> 2 \<and> blockTime \<ge> ei_NextTick epoch) then Inr None
      else let epoch = epoch\<lparr>ei_IsInitialized := True\<rparr>
           in if ei_FastForwardNextTick epoch
              then bindr (div_uint32 (blockTime - ei_NextTick epoch) (ei_Duration epoch)) (\<lambda>q.
                let durationMultiplier = q + 1
                in Inr (Some (epoch\<lparr>ei_NextTick := ei_NextTick epoch + ei_Duration epoch * durationMultiplier\<rparr>)))
              else Inr (Some epoch))"

definition start_next_epoch :: "block_ctx \<Rightarrow> EpochInfo \<Rightarrow> EpochInfo res" where
  "start_next_epoch ctx epoch =
     bindr (MustConvertIntegerToUint32 (ctx_BlockHeight ctx)) (\<lambda>h.
       Inr (epoch\<lparr>ei_NextTick := ei_NextTick epoch + ei_Duration epoch,
         ei_CurrentEpoch := ei_CurrentEpoch epoch + 1, ei_CurrentEpochStartBlock := h\<rparr>))"

definition tick_epoch :: "block_ctx \<Rightarrow> uint32 \<Rightarrow> EpochInfo \<Rightarrow> (epoch_store, bool) step" where
  "tick_epoch ctx blockTime epoch =
     (if blockTime < ei_NextTick epoch then retM False
      else bindM (liftM (\<lambda>_. start_next_epoch ctx epoch)) (\<lambda>epoch.
           bindM (modifyM (setEpochInfo epoch)) (\<lambda>_. retM True)))"

definition MaybeStartNextEpoch :: "block_ctx \<Rightarrow> string \<Rightarrow> (epoch_store, bool) step" where
  "MaybeStartNextEpoch ctx i =
     bindM (liftM (\<lambda>s. case GetEpochInfo s i of
                        None \<Rightarrow> Inl (Err ''ErrEpochInfoNotFound'') | Some epoch \<Rightarrow> Inr epoch)) (\<lambda>epoch.
       let blockTime = ucast (Unix (ctx_BlockTime ctx))
       in if \<not> ei_IsInitialized epoch
          then bindM (liftM (\<lambda>_. initialize_epoch ctx blockTime epoch)) (\<lambda>initialized.
                 case initialized of
                   None \<Rightarrow> retM False
                 | Some epoch \<Rightarrow> bindM (modifyM (setEpochInfo epoch)) (\<lambda>_. tick_epoch ctx blockTime epoch))
          else tick_epoch ctx blockTime epoch)"

definition CreateEpochInfo :: "EpochInfo \<Rightarrow> epoch_store \<Rightarrow> epoch_store res" where
  "CreateEpochInfo epochInfo s =
     bindr (EpochInfo_Validate epochInfo) (\<lambda>_.
       if GetEpochInfo s (ei_Name epochInfo) \<noteq> None then Inl (Err ''ErrEpochInfoAlreadyExists'')
       else Inr (setEpochInfo epochInfo s))"

definition NumBlocksSinceEpochStart :: "block_ctx \<Rightarrow> epoch_store \<Rightarrow> string \<Rightarrow> uint32 res" where
  "NumBlocksSinceEpochStart ctx s i =
     (case GetEpochInfo s i of
        None \<Rightarrow> Inl (Err ''ErrEpochInfoNotFound'')
      | Some epoch \<Rightarrow> MustConvertIntegerToUint32 (ctx_BlockHeight ctx - ucast (ei_CurrentEpochStartBlock epoch)))"

definition mustGetEpochInfo :: "epoch_store \<Rightarrow> string \<Rightarrow> EpochInfo res" where
  "mustGetEpochInfo s i =
     (case GetEpochInfo s i of None \<Rightarrow> Inl (Panic ''ErrEpochInfoNotFound'') | Some epoch \<Rightarrow> Inr epoch)"

definition FundingTickEpochInfoName :: string where
  "FundingTickEpochInfoName = ''funding-tick''"

definition FundingSampleEpochInfoName :: string where
  "FundingSampleEpochInfoName = ''funding-sample''"

definition StatsEpochInfoName :: string where
  "StatsEpochInfoName = ''stats-epoch''"

definition begin_block_epoch :: "block_ctx \<Rightarrow> EpochInfo \<Rightarrow> (epoch_store, unit) step" where
  "begin_block_epoch ctx epoch s =
     (case MaybeStartNextEpoch ctx (ei_Name epoch) s of
        (Inl (Err n), s') \<Rightarrow> (Inl (Panic n), s')
      | (Inl (Panic n), s') \<Rightarrow> (Inl (Panic n), s')
      | (Inr _, s') \<Rightarrow> (Inr (), s'))"

definition epochs_BeginBlocker :: "block_ctx \<Rightarrow> (epoch_store, unit) step" where
  "epochs_BeginBlocker ctx =
     bindM (liftM (\<lambda>s. Inr (GetAllEpochInfo s))) (\<lambda>epochs. forM (begin_block_epoch ctx) epochs)"

definition validate_epoch_info :: "EpochInfo \<Rightarrow> string set \<Rightarrow> string set res" where
  "validate_epoch_info epochInfo seen =
     (if ei_Name epochInfo \<in> seen then Inl (Err ''duplicated index for epochInfo'')
      else bindr (EpochInfo_Validate epochInfo) (\<lambda>_. Inr (insert (ei_Name epochInfo) seen)))"

definition epochs_GenesisState_Validate :: "EpochInfo list \<Rightarrow> unit res" where
  "epochs_GenesisState_Validate infos = bindr (for_res validate_epoch_info infos {}) (\<lambda>_. Inr ())"

definition create_genesis_epoch :: "EpochInfo \<Rightarrow> epoch_store \<Rightarrow> epoch_store res" where
  "create_genesis_epoch e s =
     (case CreateEpochInfo e s of Inl (Err n) \<Rightarrow> Inl (Panic n) | Inl (Panic n) \<Rightarrow> Inl (Panic n) | Inr s \<Rightarrow> Inr s)"

definition epochs_InitGenesis :: "EpochInfo list \<Rightarrow> epoch_store \<Rightarrow> epoch_store res" where
  "epochs_InitGenesis infos s = for_res create_genesis_epoch infos s"

text \<open>A run of consecutive blocks as one epoch sees it: the blocks in which it ticked.\<close>

fun epoch_blocks :: "block_ctx list \<Rightarrow> string \<Rightarrow> (epoch_store, bool list) step" where
  "epoch_blocks [] i = retM []"
| "epoch_blocks (ctx # ctxs) i =
     bindM (MaybeStartNextEpoch ctx i) (\<lambda>started.
     bindM (epoch_blocks ctxs i) (\<lambda>later. retM (started # later)))"

definition block_seconds :: "block_ctx \<Rightarrow> uint32" where
  "block_seconds ctx = ucast (Unix (ctx_BlockTime ctx))"

text \<open>Blocks whose height and time leave room for 32-bit arithmetic with a duration \<open>d\<close>.\<close>

definition block_fits :: "uint32 \<Rightarrow> block_ctx \<Rightarrow> bool" where
  "block_fits d ctx \<longleftrightarrow> 0 \<le> sint (ctx_BlockHeight ctx) \<and> sint (ctx_BlockHeight ctx) < 2 ^ 32 \<and>
     uint (block_seconds ctx) + uint d < 2 ^ 32"

section \<open>Ticks\<close>

lemma uint_add_fits: "uint (a :: 'a::len word) + uint b < 2 ^ LENGTH('a) \<Longrightarrow> uint (a + b) = uint a + uint b"
  by (simp add: uint_word_ariths)

lemma GetEpochInfo_setEpochInfo [simp]:
  "GetEpochInfo (setEpochInfo e s) = (GetEpochInfo s)(ei_Name e \<mapsto> e)"
  by (simp add: GetEpochInfo_def setEpochInfo_def fun_eq_iff)

lemma MustConvert_fits:
  "block_fits d ctx \<Longrightarrow> MustConvertIntegerToUint32 (ctx_BlockHeight ctx) = Inr (ucast (ctx_BlockHeight ctx))"
  by (simp add: block_fits_def MustConvertIntegerToUint32_def)

lemma fast_forward_arith:
  fixes n t d :: uint32
  assumes "n \<le> t" "d \<noteq> 0" "uint t + uint d < 2 ^ 32"
  defines "m \<equiv> n + d * ((t - n) div d + 1)"
  shows "uint m = uint n + uint d * ((uint t - uint n) div uint d + 1)"
    and "uint t < uint m" and "uint m \<le> uint t + uint d"
proof -
  let ?q = "(uint t - uint n) div uint d"
  have d: "0 < uint d" using assms(2) by (simp add: uint_pos_iff)
  have nt: "uint n \<le> uint t" using assms(1) by (simp add: word_le_def)
  have q0: "0 \<le> ?q" using d nt by (simp add: pos_imp_zdiv_nonneg_iff)
  have dq: "uint d * ?q \<le> uint t - uint n" "uint t - uint n < uint d * ?q + uint d"
    using d minus_mult_div_eq_mod[of "uint t - uint n" "uint d"]
      pos_mod_bound[of "uint d" "uint t - uint n"] pos_mod_sign[of "uint d" "uint t - uint n"] by linarith+
  have sub: "uint (t - n) = uint t - uint n" using assms(1) uint_minus_simple_alt[of n t] by simp
  have dv: "uint ((t - n) div d) = ?q" by (simp add: uint_div sub)
  have qle: "?q \<le> uint t - uint n"
  proof -
    have "1 * ?q \<le> uint d * ?q" using d q0 by (intro mult_right_mono) simp_all
    with dq(1) show ?thesis by simp
  qed
  have q1: "uint ((t - n) div d + 1) = ?q + 1"
  proof -
    have "?q + 1 < 2 ^ 32" using qle assms(3) d uint_ge_0[of n] by linarith
    then show ?thesis using dv uint_add_fits[of "(t - n) div d" 1] by simp
  qed
  have "uint d * (?q + 1) < 2 ^ 32"
    using dq(1) assms(3) uint_ge_0[of n] unfolding distrib_left mult_1_right by linarith
  then have "uint (d * ((t - n) div d + 1)) = uint d * (?q + 1)"
    using q1 q0 d by (simp add: uint_word_ariths)
  moreover have "uint n + uint d * (?q + 1) < 2 ^ 32"
    using dq(1) assms(3) by (simp add: distrib_left)
  ultimately show "uint m = uint n + uint d * (?q + 1)"
    unfolding m_def by (subst uint_add_fits) simp_all
  then show "uint t < uint m" "uint m \<le> uint t + uint d"
    using dq by (simp_all add: distrib_left)
qed

lemma tick_epoch_run:
  assumes fits: "block_fits (ei_Duration e) ctx"
  shows "tick_epoch ctx (block_seconds ctx) e s =
     (if block_seconds ctx < ei_NextTick e then (Inr False, s)
      else (Inr True, setEpochInfo (e\<lparr>ei_NextTick := ei_NextTick e + ei_Duration e,
         ei_CurrentEpoch := ei_CurrentEpoch e + 1,
         ei_CurrentEpochStartBlock := ucast (ctx_BlockHeight ctx)\<rparr>) s))"
  by (simp add: tick_epoch_def start_next_epoch_def MustConvert_fits[OF fits] bindM_def liftM_def
      modifyM_def retM_def)

lemma MaybeStartNextEpoch_initialized:
  assumes e: "GetEpochInfo s i = Some e" "ei_IsInitialized e"
  shows "MaybeStartNextEpoch ctx i s = tick_epoch ctx (block_seconds ctx) e s"
  using e by (simp add: MaybeStartNextEpoch_def bindM_def liftM_def block_seconds_def Let_def)

text \<open>One tick of an initialised epoch: exactly one period, exactly when the time is reached.\<close>

lemma initialized_step:
  assumes e: "GetEpochInfo s i = Some e" "ei_IsInitialized e" "ei_Name e = i"
    and fits: "block_fits (ei_Duration e) ctx"
  obtains b e' s' where "MaybeStartNextEpoch ctx i s = (Inr b, s')"
    "GetEpochInfo s' = (GetEpochInfo s)(i \<mapsto> e')" "b = (ei_NextTick e \<le> block_seconds ctx)"
    "ei_IsInitialized e'" "ei_Name e' = i" "ei_Duration e' = ei_Duration e"
    "uint (ei_NextTick e') = uint (ei_NextTick e) + (if b then uint (ei_Duration e) else 0)"
    "ei_CurrentEpoch e' = ei_CurrentEpoch e + (if b then 1 else 0)"
proof (cases "block_seconds ctx < ei_NextTick e")
  case True
  then show ?thesis
    using e by (intro that[of False s e])
      (auto simp: MaybeStartNextEpoch_initialized tick_epoch_run[OF fits] fun_eq_iff)
next
  case False
  let ?e = "e\<lparr>ei_NextTick := ei_NextTick e + ei_Duration e,
         ei_CurrentEpoch := ei_CurrentEpoch e + 1,
         ei_CurrentEpochStartBlock := ucast (ctx_BlockHeight ctx)\<rparr>"
  have "uint (ei_NextTick e + ei_Duration e) = uint (ei_NextTick e) + uint (ei_Duration e)"
    using False fits by (intro uint_add_fits) (simp add: block_fits_def word_less_def)
  with False show ?thesis
    using e by (intro that[of True "setEpochInfo ?e s" ?e])
      (auto simp: MaybeStartNextEpoch_initialized tick_epoch_run[OF fits])
qed

text \<open>
  C36: Over any run of blocks whose times and heights fit 32 bits, an initialised epoch never
  fails or panics, and it is known block by block whether it ticks: block \<open>j\<close> starts a new epoch exactly if
  its time has reached the next tick, that is the initial next tick plus one duration for every earlier block
  of the run that started one. After \<open>n\<close> ticks the next tick is exactly \<open>n\<close> durations later and the
  epoch number is \<open>n\<close> larger; other epochs are untouched.
\<close>

theorem epoch_ticks_in_lockstep:
  assumes "GetEpochInfo s i = Some e" "ei_IsInitialized e" "ei_Name e = i"
    and "\<forall>ctx \<in> set ctxs. block_fits (ei_Duration e) ctx"
  shows "\<exists>started s' e'. epoch_blocks ctxs i s = (Inr started, s') \<and> length started = length ctxs \<and>
    (\<forall>j < length ctxs. started ! j \<longleftrightarrow>
       uint (ei_NextTick e) + uint (ei_Duration e) * int (count_list (take j started) True) \<le> uint (block_seconds (ctxs ! j))) \<and>
    GetEpochInfo s' = (GetEpochInfo s)(i \<mapsto> e') \<and> ei_Duration e' = ei_Duration e \<and>
    uint (ei_NextTick e') = uint (ei_NextTick e) + uint (ei_Duration e) * int (count_list started True) \<and>
    ei_CurrentEpoch e' = ei_CurrentEpoch e + of_nat (count_list started True)"
  using assms
proof (induction ctxs arbitrary: s e)
  case Nil
  then show ?case by (auto simp: retM_def fun_eq_iff intro!: exI[of _ e])
next
  case (Cons ctx ctxs)
  have f: "block_fits (ei_Duration e) ctx" using Cons.prems(4) by simp
  obtain b e1 s1 where 1: "MaybeStartNextEpoch ctx i s = (Inr b, s1)"
    "GetEpochInfo s1 = (GetEpochInfo s)(i \<mapsto> e1)" "b = (ei_NextTick e \<le> block_seconds ctx)"
    "ei_IsInitialized e1" "ei_Name e1 = i" "ei_Duration e1 = ei_Duration e"
    "uint (ei_NextTick e1) = uint (ei_NextTick e) + (if b then uint (ei_Duration e) else 0)"
    "ei_CurrentEpoch e1 = ei_CurrentEpoch e + (if b then 1 else 0)"
    by (rule initialized_step[OF Cons.prems(1-3) f])
  have at1: "GetEpochInfo s1 i = Some e1" using 1(2) by simp
  have all1: "\<forall>ctx \<in> set ctxs. block_fits (ei_Duration e1) ctx" using 1(6) Cons.prems(4) by simp
  obtain bs s2 e2 where 2: "epoch_blocks ctxs i s1 = (Inr bs, s2)" "length bs = length ctxs"
    "\<forall>j < length ctxs. bs ! j \<longleftrightarrow>
       uint (ei_NextTick e1) + uint (ei_Duration e1) * int (count_list (take j bs) True) \<le> uint (block_seconds (ctxs ! j))"
    "GetEpochInfo s2 = (GetEpochInfo s1)(i \<mapsto> e2)" "ei_Duration e2 = ei_Duration e1"
    "uint (ei_NextTick e2) = uint (ei_NextTick e1) + uint (ei_Duration e1) * int (count_list bs True)"
    "ei_CurrentEpoch e2 = ei_CurrentEpoch e1 + of_nat (count_list bs True)"
    using Cons.IH[OF at1 1(4,5) all1] by blast
  have run: "epoch_blocks (ctx # ctxs) i s = (Inr (b # bs), s2)"
    using 1(1) 2(1) by (simp add: bindM_def retM_def)
  have due: "(b # bs) ! j \<longleftrightarrow> uint (ei_NextTick e) + uint (ei_Duration e) * int (count_list (take j (b # bs)) True)
      \<le> uint (block_seconds ((ctx # ctxs) ! j))" if "j < length (ctx # ctxs)" for j
  proof (cases j)
    case 0
    then show ?thesis using 1(3) by (simp add: word_le_def)
  next
    case (Suc k)
    then show ?thesis using that 2(3) 1(6,7) by (auto simp: distrib_left)
  qed
  have next_tick: "uint (ei_NextTick e2) = uint (ei_NextTick e) + uint (ei_Duration e) * int (count_list (b # bs) True)"
    using 2(6) 1(6,7) by (simp add: distrib_left)
  have number: "ei_CurrentEpoch e2 = ei_CurrentEpoch e + of_nat (count_list (b # bs) True)"
    using 2(7) 1(8) by simp
  show ?case
  proof (intro exI conjI)
    show "epoch_blocks (ctx # ctxs) i s = (Inr (b # bs), s2)" by (rule run)
    show "GetEpochInfo s2 = (GetEpochInfo s)(i \<mapsto> e2)" using 1(2) 2(4) by (simp add: fun_eq_iff)
  qed (use due next_tick number 1(6) 2(2,5) in auto)
qed

text \<open>
  C37: The first stage. An epoch that is not initialised does nothing before block 2 or before its
  genesis tick; otherwise it becomes initialised, and with \<^verbatim>\<open>FastForwardNextTick\<close> its next tick is
  the first point strictly after the block time on the grid of its duration, and no epoch starts
  in that block.
\<close>

theorem epoch_initialization:
  assumes e: "GetEpochInfo s i = Some e" "\<not> ei_IsInitialized e" "ei_Name e = i" "ei_Duration e \<noteq> 0"
    and fits: "block_fits (ei_Duration e) ctx"
  shows "if sint (ctx_BlockHeight ctx) < 2 \<or> block_seconds ctx < ei_NextTick e
         then MaybeStartNextEpoch ctx i s = (Inr False, s)
         else \<exists>s' e'. MaybeStartNextEpoch ctx i s = (Inr (\<not> ei_FastForwardNextTick e), s') \<and>
           GetEpochInfo s' = (GetEpochInfo s)(i \<mapsto> e') \<and> ei_IsInitialized e' \<and>
           uint (ei_NextTick e') mod uint (ei_Duration e) = uint (ei_NextTick e) mod uint (ei_Duration e) \<and>
           (ei_FastForwardNextTick e \<longrightarrow> ei_CurrentEpoch e' = ei_CurrentEpoch e \<and>
              uint (block_seconds ctx) < uint (ei_NextTick e') \<and>
              uint (ei_NextTick e') \<le> uint (block_seconds ctx) + uint (ei_Duration e)) \<and>
           (\<not> ei_FastForwardNextTick e \<longrightarrow> ei_CurrentEpoch e' = ei_CurrentEpoch e + 1 \<and>
              uint (ei_NextTick e') = uint (ei_NextTick e) + uint (ei_Duration e))"
proof (cases "sint (ctx_BlockHeight ctx) < 2 \<or> block_seconds ctx < ei_NextTick e")
  case True
  then show ?thesis
    using e by (auto simp: MaybeStartNextEpoch_def bindM_def liftM_def retM_def initialize_epoch_def
        block_seconds_def not_le Let_def)
next
  case False
  let ?t = "block_seconds ctx" and ?i = "e\<lparr>ei_IsInitialized := True\<rparr>"
  let ?ff = "?i\<lparr>ei_NextTick := ei_NextTick e + ei_Duration e * ((?t - ei_NextTick e) div ei_Duration e + 1)\<rparr>"
  have le: "ei_NextTick e \<le> ?t" using False by (auto simp: not_less)
  have room: "uint ?t + uint (ei_Duration e) < 2 ^ 32" using fits by (simp add: block_fits_def)
  note ff = fast_forward_arith[OF le e(4) room]
  have sum: "uint (ei_NextTick e + ei_Duration e) = uint (ei_NextTick e) + uint (ei_Duration e)"
    using le room by (intro uint_add_fits) (simp add: word_le_def)
  have run: "MaybeStartNextEpoch ctx i s =
      (let e1 = (if ei_FastForwardNextTick e then ?ff else ?i) in tick_epoch ctx ?t e1 (setEpochInfo e1 s))"
    using e False by (simp add: MaybeStartNextEpoch_def bindM_def liftM_def modifyM_def initialize_epoch_def
        block_seconds_def[symmetric] not_le div_uint32_def Let_def)
  show ?thesis
  proof (cases "ei_FastForwardNextTick e")
    case True
    have "?t < ei_NextTick ?ff" using ff(2) by (simp add: word_less_def)
    then have "MaybeStartNextEpoch ctx i s = (Inr False, setEpochInfo ?ff s)"
      using run True fits by (simp add: tick_epoch_run Let_def)
    then show ?thesis
      using False True ff e by (auto intro!: exI[of _ ?ff])
  next
    case ff: False
    have "\<not> ?t < ei_NextTick ?i" using le by (simp add: not_le)
    then show ?thesis
      using False ff run fits sum e le
      by (auto simp: tick_epoch_run Let_def not_le)
  qed
qed

text \<open>Witnesses: a funding epoch of an hour, at genesis and while running.\<close>

definition ex_epoch :: EpochInfo where
  "ex_epoch = \<lparr>ei_Name = ''funding-tick'', ei_NextTick = 1000, ei_Duration = 3600, ei_CurrentEpoch = 0,
     ei_CurrentEpochStartBlock = 0, ei_IsInitialized = False, ei_FastForwardNextTick = True\<rparr>"

definition ex_block :: "int \<Rightarrow> int \<Rightarrow> block_ctx" where
  "ex_block h t = \<lparr>ctx_BlockHeight = word_of_int h, ctx_BlockTime = (t + 62135596800) * 1000000000\<rparr>"

lemma GetEpochInfo_single [simp]: "GetEpochInfo [(k, e)] k = Some e"
  by (simp add: GetEpochInfo_def gm_get_def)

lemmas ex_epoch_simps = ex_epoch_def ex_block_def block_fits_def block_seconds_def Unix_def

theorem epoch_ticks_in_lockstep_witness:
  "\<exists>s' e'. epoch_blocks [ex_block 5 999, ex_block 6 2000, ex_block 7 4600] ''funding-tick''
       [(''funding-tick'', ex_epoch\<lparr>ei_IsInitialized := True\<rparr>)] = (Inr [False, True, True], s') \<and>
     GetEpochInfo s' ''funding-tick'' = Some e' \<and> uint (ei_NextTick e') = 8200 \<and> ei_CurrentEpoch e' = 2"
proof -
  let ?e = "ex_epoch\<lparr>ei_IsInitialized := True\<rparr>" and ?i = "''funding-tick''"
  let ?ctxs = "[ex_block 5 999, ex_block 6 2000, ex_block 7 4600]"
  obtain bs s' e' where run: "epoch_blocks ?ctxs ?i [(?i, ?e)] = (Inr bs, s')" "length bs = length ?ctxs"
    and due: "\<forall>j < length ?ctxs. bs ! j \<longleftrightarrow>
       uint (ei_NextTick ?e) + uint (ei_Duration ?e) * int (count_list (take j bs) True) \<le> uint (block_seconds (?ctxs ! j))"
    and e': "GetEpochInfo s' = (GetEpochInfo [(?i, ?e)])(?i \<mapsto> e')"
      "uint (ei_NextTick e') = uint (ei_NextTick ?e) + uint (ei_Duration ?e) * int (count_list bs True)"
      "ei_CurrentEpoch e' = ei_CurrentEpoch ?e + of_nat (count_list bs True)"
    using epoch_ticks_in_lockstep[of "[(?i, ?e)]" ?i ?e ?ctxs] by (auto simp: ex_epoch_simps)
  obtain x y z where bs: "bs = [x, y, z]" using run(2) by (auto simp: length_Suc_conv)
  have "\<not> x" using due[rule_format, of 0] by (simp add: bs ex_epoch_simps)
  moreover from this have "y" using due[rule_format, of 1] by (simp add: bs ex_epoch_simps)
  moreover from calculation have "z" using due[rule_format, of 2] by (simp add: bs ex_epoch_simps)
  ultimately have "bs = [False, True, True]" by (simp add: bs)
  then show ?thesis using run(1) e' by (auto simp: ex_epoch_def)
qed

theorem epoch_initialization_witness:
  "\<exists>s' e'. MaybeStartNextEpoch (ex_block 2 9000) ''funding-tick'' [(''funding-tick'', ex_epoch)] = (Inr False, s') \<and>
     GetEpochInfo s' ''funding-tick'' = Some e' \<and> 9000 < uint (ei_NextTick e') \<and> uint (ei_NextTick e') \<le> 12600"
  using epoch_initialization[of "[(''funding-tick'', ex_epoch)]" "''funding-tick''" ex_epoch "ex_block 2 9000"]
  by (auto simp: ex_epoch_simps)

end
