(* ===== verification/Stats.thy ===== *)
theory Stats
  imports Epochs
begin

text \<open>
  \<^verbatim>\<open>x/stats\<close> (\<^verbatim>\<open>keeper/keeper.go\<close>, \<^verbatim>\<open>keeper/params.go\<close>, \<^verbatim>\<open>keeper/msg_server.go\<close>, \<^verbatim>\<open>module.go\<close>): the rolling
  trading volume per user. Fills of a block are recorded in a transient store, added to the stats
  of the running epoch and to the totals per user at the end of the block, and subtracted again
  when their epoch leaves the window. Volumes are 64-bit words that wrap around, as in Go. The
  epochs store and the block context are arguments; the staking keeper is a record of parameters.
\<close>

section \<open>Definitions\<close>

datatype AffiliateAttribution_Role = ROLE_UNSPECIFIED | ROLE_TAKER | ROLE_MAKER

record AffiliateAttribution =
  aa_Role :: AffiliateAttribution_Role
  aa_ReferrerAddress :: string
  aa_ReferredVolumeQuoteQuantums :: uint64

record BlockStats_Fill =
  bf_Taker :: string
  bf_Maker :: string
  bf_Notional :: uint64
  bf_AffiliateFeeGeneratedQuantums :: uint64
  bf_AffiliateAttributions :: "AffiliateAttribution option list"

record UserStats =
  us_TakerNotional :: uint64
  us_MakerNotional :: uint64
  us_Affiliate_30DRevenueGeneratedQuantums :: uint64
  us_Affiliate_30DReferredVolumeQuoteQuantums :: uint64
  us_Affiliate_30DAttributedVolumeQuoteQuantums :: uint64

record EpochStats =
  es_EpochEndTime :: int
  es_Stats :: "(string \<times> UserStats) list"

record CachedStakedBaseTokens =
  cs_StakedBaseTokens :: int
  cs_CachedAt :: int64

record stats_store =
  ss_blockStats :: "BlockStats_Fill list"
  ss_TrailingEpoch :: uint32
  ss_epochStats :: "(uint32, EpochStats) gomap"
  ss_userStats :: "(string, UserStats) gomap"
  ss_NotionalTraded :: uint64
  ss_WindowDuration :: int
  ss_cachedStake :: "string \<Rightarrow> CachedStakedBaseTokens option"

definition empty_UserStats :: UserStats where
  "empty_UserStats = \<lparr>us_TakerNotional = 0, us_MakerNotional = 0, us_Affiliate_30DRevenueGeneratedQuantums = 0,
     us_Affiliate_30DReferredVolumeQuoteQuantums = 0, us_Affiliate_30DAttributedVolumeQuoteQuantums = 0\<rparr>"

text \<open>\<^verbatim>\<open>big.Int.Uint64\<close>: the low 64 bits of the magnitude.\<close>

definition Uint64 :: "int \<Rightarrow> uint64" where
  "Uint64 v = word_of_int \<bar>v\<bar>"

definition RecordFill ::
  "string \<Rightarrow> string \<Rightarrow> int \<Rightarrow> int \<Rightarrow> AffiliateAttribution option list \<Rightarrow> stats_store \<Rightarrow> stats_store" where
  "RecordFill takerAddress makerAddress notional affiliateFeeGenerated affiliateAttributions s =
     s\<lparr>ss_blockStats := ss_blockStats s @
       [\<lparr>bf_Taker = takerAddress, bf_Maker = makerAddress, bf_Notional = Uint64 notional,
         bf_AffiliateFeeGeneratedQuantums = Uint64 affiliateFeeGenerated,
         bf_AffiliateAttributions = affiliateAttributions\<rparr>]\<rparr>"

definition GetEpochStatsOrNil :: "stats_store \<Rightarrow> uint32 \<Rightarrow> EpochStats option" where
  "GetEpochStatsOrNil s epoch = gm_get (ss_epochStats s) epoch"

definition SetEpochStats :: "uint32 \<Rightarrow> EpochStats \<Rightarrow> stats_store \<Rightarrow> stats_store" where
  "SetEpochStats epoch epochStats s = s\<lparr>ss_epochStats := gm_set epoch epochStats (ss_epochStats s)\<rparr>"

definition deleteEpochStats :: "uint32 \<Rightarrow> stats_store \<Rightarrow> stats_store" where
  "deleteEpochStats epoch s = s\<lparr>ss_epochStats := gm_del epoch (ss_epochStats s)\<rparr>"

definition GetUserStats :: "stats_store \<Rightarrow> string \<Rightarrow> UserStats" where
  "GetUserStats s address =
     (case gm_get (ss_userStats s) address of None \<Rightarrow> empty_UserStats | Some st \<Rightarrow> st)"

definition SetUserStats :: "string \<Rightarrow> UserStats \<Rightarrow> stats_store \<Rightarrow> stats_store" where
  "SetUserStats address userStats s = s\<lparr>ss_userStats := gm_set address userStats (ss_userStats s)\<rparr>"

text \<open>Read-modify-write of a user's totals, and of the epoch's entry (created when missing).\<close>

definition add_user :: "string \<Rightarrow> (UserStats \<Rightarrow> UserStats) \<Rightarrow> stats_store \<Rightarrow> stats_store" where
  "add_user address f s = SetUserStats address (f (GetUserStats s address)) s"

definition epoch_entry :: "(string, UserStats) gomap \<Rightarrow> string \<Rightarrow> UserStats" where
  "epoch_entry m address = (case gm_get m address of None \<Rightarrow> empty_UserStats | Some st \<Rightarrow> st)"

definition add_epoch :: "string \<Rightarrow> (UserStats \<Rightarrow> UserStats) \<Rightarrow> (string, UserStats) gomap \<Rightarrow> (string, UserStats) gomap" where
  "add_epoch address f m = gm_set address (f (epoch_entry m address)) m"

definition addTakerNotional :: "uint64 \<Rightarrow> UserStats \<Rightarrow> UserStats" where
  "addTakerNotional v st = st\<lparr>us_TakerNotional := us_TakerNotional st + v\<rparr>"

definition addMakerNotional :: "uint64 \<Rightarrow> UserStats \<Rightarrow> UserStats" where
  "addMakerNotional v st = st\<lparr>us_MakerNotional := us_MakerNotional st + v\<rparr>"

definition addRevenueGenerated :: "uint64 \<Rightarrow> UserStats \<Rightarrow> UserStats" where
  "addRevenueGenerated v st =
     st\<lparr>us_Affiliate_30DRevenueGeneratedQuantums := us_Affiliate_30DRevenueGeneratedQuantums st + v\<rparr>"

definition addReferredVolume :: "uint64 \<Rightarrow> UserStats \<Rightarrow> UserStats" where
  "addReferredVolume v st =
     st\<lparr>us_Affiliate_30DReferredVolumeQuoteQuantums := us_Affiliate_30DReferredVolumeQuoteQuantums st + v\<rparr>"

definition addAttributedVolume :: "uint64 \<Rightarrow> UserStats \<Rightarrow> UserStats" where
  "addAttributedVolume v st =
     st\<lparr>us_Affiliate_30DAttributedVolumeQuoteQuantums := us_Affiliate_30DAttributedVolumeQuoteQuantums st + v\<rparr>"

type_synonym process_state = "stats_store \<times> (string, UserStats) gomap"

definition process_attribution ::
  "BlockStats_Fill \<Rightarrow> AffiliateAttribution option \<Rightarrow> process_state \<Rightarrow> process_state" where
  "process_attribution fill attribution st =
     (case (st, attribution) of
        (_, None) \<Rightarrow> st
      | ((s, userStatsMap), Some a) \<Rightarrow>
          (let referrer = aa_ReferrerAddress a;
               v = aa_ReferredVolumeQuoteQuantums a
           in case (case aa_Role a of ROLE_TAKER \<Rightarrow> Some (bf_Taker fill) | ROLE_MAKER \<Rightarrow> Some (bf_Maker fill)
                    | ROLE_UNSPECIFIED \<Rightarrow> None) of
                None \<Rightarrow> (s, userStatsMap)
              | Some referee \<Rightarrow>
                  (let userStatsMap = add_epoch referrer (addReferredVolume v) userStatsMap;
                       s = add_user referrer (addReferredVolume v) s;
                       userStatsMap = add_epoch referee (addAttributedVolume v) userStatsMap;
                       s = add_user referee (addAttributedVolume v) s
                   in (s, userStatsMap))))"

definition process_fill :: "BlockStats_Fill \<Rightarrow> process_state \<Rightarrow> process_state" where
  "process_fill fill st =
     (case st of (s, userStatsMap) \<Rightarrow>
      let s = add_user (bf_Taker fill)
                (\<lambda>u. addRevenueGenerated (bf_AffiliateFeeGeneratedQuantums fill) (addTakerNotional (bf_Notional fill) u)) s;
          s = add_user (bf_Maker fill) (addMakerNotional (bf_Notional fill)) s;
          userStatsMap = add_epoch (bf_Taker fill) (\<lambda>u. u) userStatsMap;
          userStatsMap = add_epoch (bf_Maker fill) (\<lambda>u. u) userStatsMap;
          userStatsMap = add_epoch (bf_Taker fill) (addTakerNotional (bf_Notional fill)) userStatsMap;
          userStatsMap = add_epoch (bf_Maker fill) (addMakerNotional (bf_Notional fill)) userStatsMap;
          (s, userStatsMap) = fold (process_attribution fill) (bf_AffiliateAttributions fill) (s, userStatsMap);
          userStatsMap = add_epoch (bf_Taker fill)
                (addRevenueGenerated (bf_AffiliateFeeGeneratedQuantums fill)) userStatsMap
      in (s\<lparr>ss_NotionalTraded := ss_NotionalTraded s + bf_Notional fill\<rparr>, userStatsMap))"

definition ProcessBlockStats :: "epoch_store \<Rightarrow> (stats_store, unit) step" where
  "ProcessBlockStats epochs =
     bindM (liftM (\<lambda>_. mustGetEpochInfo epochs StatsEpochInfoName)) (\<lambda>epochInfo.
     modifyM (\<lambda>s.
       if length (ss_blockStats s) = 0 then s
       else let userStatsMap =
                  (case GetEpochStatsOrNil s (ei_CurrentEpoch epochInfo) of
                     None \<Rightarrow> []
                   | Some epochStats \<Rightarrow> fold (\<lambda>(u, st) m. gm_set u st m) (es_Stats epochStats) []);
                (s, userStatsMap) = fold process_fill (ss_blockStats s) (s, userStatsMap)
            in SetEpochStats (ei_CurrentEpoch epochInfo)
                 \<lparr>es_EpochEndTime = (uint (ei_NextTick epochInfo) + 62135596800) * 1000000000,
                  es_Stats = userStatsMap\<rparr> s))"

definition sub_clamped :: "uint64 \<Rightarrow> uint64 \<Rightarrow> uint64" where
  "sub_clamped a b = (if a > b then a - b else 0)"

definition subtract_stats :: "UserStats \<Rightarrow> UserStats \<Rightarrow> UserStats" where
  "subtract_stats removed stats = \<lparr>
     us_TakerNotional = us_TakerNotional stats - us_TakerNotional removed,
     us_MakerNotional = us_MakerNotional stats - us_MakerNotional removed,
     us_Affiliate_30DRevenueGeneratedQuantums =
       sub_clamped (us_Affiliate_30DRevenueGeneratedQuantums stats) (us_Affiliate_30DRevenueGeneratedQuantums removed),
     us_Affiliate_30DReferredVolumeQuoteQuantums =
       sub_clamped (us_Affiliate_30DReferredVolumeQuoteQuantums stats) (us_Affiliate_30DReferredVolumeQuoteQuantums removed),
     us_Affiliate_30DAttributedVolumeQuoteQuantums =
       sub_clamped (us_Affiliate_30DAttributedVolumeQuoteQuantums stats) (us_Affiliate_30DAttributedVolumeQuoteQuantums removed)\<rparr>"

definition expire_user :: "string \<times> UserStats \<Rightarrow> stats_store \<times> uint64 \<Rightarrow> stats_store \<times> uint64" where
  "expire_user removedStats st =
     (case (removedStats, st) of ((user, removed), (s, notionalTraded)) \<Rightarrow>
        (add_user user (subtract_stats removed) s, notionalTraded - us_TakerNotional removed))"

definition ExpireOldStats :: "block_ctx \<Rightarrow> epoch_store \<Rightarrow> (stats_store, unit) step" where
  "ExpireOldStats ctx epochs =
     bindM (liftM (\<lambda>_. mustGetEpochInfo epochs StatsEpochInfoName)) (\<lambda>epochInfo.
     modifyM (\<lambda>s.
       let trailing = ss_TrailingEpoch s
       in if trailing = ei_CurrentEpoch epochInfo then s
          else case GetEpochStatsOrNil s trailing of
            None \<Rightarrow> s\<lparr>ss_TrailingEpoch := trailing + 1\<rparr>
          | Some epochStats \<Rightarrow>
              if \<not> es_EpochEndTime epochStats < ctx_BlockTime ctx - ss_WindowDuration s then s
              else let (s, notionalTraded) = fold expire_user (es_Stats epochStats) (s, ss_NotionalTraded s);
                       s = s\<lparr>ss_NotionalTraded := notionalTraded\<rparr>;
                       s = deleteEpochStats trailing s
                   in s\<lparr>ss_TrailingEpoch := trailing + 1\<rparr>))"

definition stats_EndBlock :: "block_ctx \<Rightarrow> epoch_store \<Rightarrow> (stats_store, unit) step" where
  "stats_EndBlock ctx epochs = bindM (ProcessBlockStats epochs) (\<lambda>_. ExpireOldStats ctx epochs)"

definition stats_SetParams :: "int \<Rightarrow> (stats_store, unit) step" where
  "stats_SetParams windowDuration =
     (if windowDuration \<le> 0 then failM (Err ''ErrNonpositiveDuration'')
      else modifyM (\<lambda>s. s\<lparr>ss_WindowDuration := windowDuration\<rparr>))"

definition stats_UpdateParams :: "string set \<Rightarrow> string \<Rightarrow> int \<Rightarrow> (stats_store, unit) step" where
  "stats_UpdateParams authorities authority windowDuration =
     (if authority \<notin> authorities then failM (Err ''ErrInvalidSigner'') else stats_SetParams windowDuration)"

section \<open>Definitions: staked tokens\<close>

text \<open>The staking keeper: delegations of a delegator, and the validator and token value of one.\<close>

record ('d, 'v) staking =
  x_DelegatorFromBech32 :: "string \<Rightarrow> string res"
  x_GetDelegatorDelegations :: "string \<Rightarrow> 'd list res"
  x_ValAddressFromBech32 :: "'d \<Rightarrow> string res"
  x_GetValidator :: "string \<Rightarrow> 'v res"
  x_TokensFromShares :: "'v \<Rightarrow> 'd \<Rightarrow> int"

definition StakedBaseTokensCacheDurationSeconds :: int where
  "StakedBaseTokensCacheDurationSeconds = 900"

definition must :: "'a res \<Rightarrow> 'a res" where
  "must r = (case r of Inl (Err n) \<Rightarrow> Inl (Panic n) | _ \<Rightarrow> r)"

definition delegation_tokens :: "('d, 'v) staking \<Rightarrow> 'd \<Rightarrow> int" where
  "delegation_tokens sx delegation =
     (case bindr (x_ValAddressFromBech32 sx delegation) (x_GetValidator sx) of
        Inl _ \<Rightarrow> 0
      | Inr validator \<Rightarrow> x_TokensFromShares sx validator delegation)"

definition GetStakedBaseTokens :: "('d, 'v) staking \<Rightarrow> block_ctx \<Rightarrow> string \<Rightarrow> (stats_store, int) step" where
  "GetStakedBaseTokens sx ctx delegatorAddr s =
     (let now = Unix (ctx_BlockTime ctx);
          miss = bindM (liftM (\<lambda>_. bindr (must (x_DelegatorFromBech32 sx delegatorAddr)) (\<lambda>delegator.
                   must (x_GetDelegatorDelegations sx delegator)))) (\<lambda>delegations.
                 let stakedBaseTokens = sum_list (map (delegation_tokens sx) delegations)
                 in bindM (modifyM (\<lambda>s. s\<lparr>ss_cachedStake := (ss_cachedStake s)(delegatorAddr \<mapsto>
                         \<lparr>cs_StakedBaseTokens = stakedBaseTokens, cs_CachedAt = now\<rparr>)\<rparr>))
                      (\<lambda>_. retM stakedBaseTokens))
      in case ss_cachedStake s delegatorAddr of
           None \<Rightarrow> miss s
         | Some cached \<Rightarrow>
             if sint (cs_CachedAt cached) < 0 then (Inl (Panic ''cachedStakedBaseTokens.CachedAt is negative''), s)
             else if sint now < 0 then (Inl (Panic ''BlockTime().Unix() is negative''), s)
             else if sint (cs_CachedAt cached) > sint now then (Inl (Panic ''CachedAt is greater than blocktime''), s)
             else if sint (now - cs_CachedAt cached) \<le> StakedBaseTokensCacheDurationSeconds
             then (Inr (cs_StakedBaseTokens cached), s)
             else miss s)"

definition UnsafeSetCachedStakedBaseTokens :: "string \<Rightarrow> CachedStakedBaseTokens \<Rightarrow> stats_store \<Rightarrow> stats_store" where
  "UnsafeSetCachedStakedBaseTokens delegatorAddr c s = s\<lparr>ss_cachedStake := (ss_cachedStake s)(delegatorAddr \<mapsto> c)\<rparr>"

definition GetAllAddressesWithReferredVolume :: "stats_store \<Rightarrow> string list" where
  "GetAllAddressesWithReferredVolume s =
     map fst (filter (\<lambda>(_, st). us_Affiliate_30DReferredVolumeQuoteQuantums st > 0) (ss_userStats s))"

section \<open>Volumes of the stored epochs\<close>

text \<open>The totals per user are the sums over the stored epochs.\<close>

definition tracked :: "(UserStats \<Rightarrow> uint64) \<Rightarrow> stats_store \<Rightarrow> bool" where
  "tracked sel s \<longleftrightarrow> (\<forall>u. sel (GetUserStats s u) =
     (\<Sum>e\<leftarrow>gm_vals (ss_epochStats s). sel (epoch_entry (es_Stats e) u)))"

definition global_tracked :: "stats_store \<Rightarrow> bool" where
  "global_tracked s \<longleftrightarrow> ss_NotionalTraded s =
     (\<Sum>e\<leftarrow>gm_vals (ss_epochStats s). \<Sum>st\<leftarrow>gm_vals (es_Stats e). us_TakerNotional st)"

definition stats_wf :: "stats_store \<Rightarrow> bool" where
  "stats_wf s \<longleftrightarrow> gm_inv (ss_epochStats s) \<and> (\<forall>e\<in>set (gm_vals (ss_epochStats s)). gm_inv (es_Stats e))"

text \<open>The sums of a field over the epochs fit 64 bits.\<close>

definition no_wrap :: "(UserStats \<Rightarrow> uint64) \<Rightarrow> stats_store \<Rightarrow> bool" where
  "no_wrap sel s \<longleftrightarrow> (\<forall>u. (\<Sum>e\<leftarrow>gm_vals (ss_epochStats s). uint (sel (epoch_entry (es_Stats e) u))) < 2 ^ 64)"

lemma GetUserStats_add_user:
  "GetUserStats (add_user a f s) u = (if u = a then f (GetUserStats s u) else GetUserStats s u)"
  by (auto simp: add_user_def SetUserStats_def GetUserStats_def)

lemma epoch_entry_add_epoch:
  "epoch_entry (add_epoch a f m) u = (if u = a then f (epoch_entry m u) else epoch_entry m u)"
  by (auto simp: add_epoch_def epoch_entry_def)

lemma add_user_frame [simp]:
  "ss_epochStats (add_user a f s) = ss_epochStats s" "ss_NotionalTraded (add_user a f s) = ss_NotionalTraded s"
  "ss_TrailingEpoch (add_user a f s) = ss_TrailingEpoch s"
  by (simp_all add: add_user_def SetUserStats_def)

lemma add_epoch_inv [simp]: "gm_inv m \<Longrightarrow> gm_inv (add_epoch a f m)"
  by (simp add: add_epoch_def)

text \<open>
  A field of the user statistics that every adder shifts by a constant. The difference between a
  user's total and its entry in the running epoch is then the same before and after a fill.
\<close>

locale volume_field =
  fixes sel :: "UserStats \<Rightarrow> uint64" and ct cm cr cf ca :: "uint64 \<Rightarrow> uint64"
  assumes sel_empty [simp]: "sel empty_UserStats = 0"
    and sel_taker [simp]: "sel (addTakerNotional v st) = sel st + ct v"
    and sel_maker [simp]: "sel (addMakerNotional v st) = sel st + cm v"
    and sel_revenue [simp]: "sel (addRevenueGenerated v st) = sel st + cr v"
    and sel_referred [simp]: "sel (addReferredVolume v st) = sel st + cf v"
    and sel_attributed [simp]: "sel (addAttributedVolume v st) = sel st + ca v"
begin

definition gap :: "process_state \<Rightarrow> string \<Rightarrow> uint64" where
  "gap p u = sel (GetUserStats (fst p) u) - sel (epoch_entry (snd p) u)"

lemma gap_attribution: "gap (process_attribution fill a p) u = gap p u"
  by (cases p)
    (auto simp: gap_def process_attribution_def Let_def GetUserStats_add_user epoch_entry_add_epoch
      split: option.split AffiliateAttribution_Role.split)

lemma gap_attributions: "gap (fold (process_attribution fill) as p) u = gap p u"
  by (induction as arbitrary: p) (simp_all add: gap_attribution)

lemma gap_fill: "gap (process_fill fill p) u = gap p u"
proof -
  obtain s m where p: "p = (s, m)" by fastforce
  let ?s = "add_user (bf_Maker fill) (addMakerNotional (bf_Notional fill)) (add_user (bf_Taker fill)
    (\<lambda>u. addRevenueGenerated (bf_AffiliateFeeGeneratedQuantums fill) (addTakerNotional (bf_Notional fill) u)) s)"
  let ?m = "add_epoch (bf_Maker fill) (addMakerNotional (bf_Notional fill)) (add_epoch (bf_Taker fill)
    (addTakerNotional (bf_Notional fill)) (add_epoch (bf_Maker fill) (\<lambda>u. u) (add_epoch (bf_Taker fill) (\<lambda>u. u) m)))"
  obtain s' m' where f: "fold (process_attribution fill) (bf_AffiliateAttributions fill) (?s, ?m) = (s', m')"
    by fastforce
  have "gap (s', m') u = gap (?s, ?m) u" using gap_attributions[of fill _ "(?s, ?m)" u] f by metis
  then have "sel (GetUserStats s' u) - sel (epoch_entry m' u) = gap (s, m) u +
      (if u = bf_Taker fill then cr (bf_AffiliateFeeGeneratedQuantums fill) else 0)"
    by (auto simp: gap_def GetUserStats_add_user epoch_entry_add_epoch)
  moreover have "GetUserStats (s'\<lparr>ss_NotionalTraded := n\<rparr>) u = GetUserStats s' u" for n
    by (simp add: GetUserStats_def)
  ultimately show ?thesis
    using f by (auto simp: p process_fill_def gap_def Let_def epoch_entry_add_epoch diff_diff_eq[symmetric])
qed

lemma gap_fills: "gap (fold process_fill fills p) u = gap p u"
  by (induction fills arbitrary: p) (simp_all add: gap_fill)

end

text \<open>A field that expiry subtracts with wrap-around, and one that it clamps at zero.\<close>

locale wrapped_field = volume_field +
  assumes sel_subtract [simp]: "sel (subtract_stats r st) = sel st - sel r"

locale clamped_field = volume_field +
  assumes sel_subtract [simp]: "sel (subtract_stats r st) = sub_clamped (sel st) (sel r)"

lemmas adders_def = addTakerNotional_def addMakerNotional_def addRevenueGenerated_def addReferredVolume_def
  addAttributedVolume_def subtract_stats_def empty_UserStats_def

interpretation taker: wrapped_field us_TakerNotional "\<lambda>v. v" "\<lambda>_. 0" "\<lambda>_. 0" "\<lambda>_. 0" "\<lambda>_. 0"
  by unfold_locales (simp_all add: adders_def)

interpretation maker: wrapped_field us_MakerNotional "\<lambda>_. 0" "\<lambda>v. v" "\<lambda>_. 0" "\<lambda>_. 0" "\<lambda>_. 0"
  by unfold_locales (simp_all add: adders_def)

interpretation revenue: clamped_field us_Affiliate_30DRevenueGeneratedQuantums
  "\<lambda>_. 0" "\<lambda>_. 0" "\<lambda>v. v" "\<lambda>_. 0" "\<lambda>_. 0"
  by unfold_locales (simp_all add: adders_def)

interpretation referred: clamped_field us_Affiliate_30DReferredVolumeQuoteQuantums
  "\<lambda>_. 0" "\<lambda>_. 0" "\<lambda>_. 0" "\<lambda>v. v" "\<lambda>_. 0"
  by unfold_locales (simp_all add: adders_def)

interpretation attributed: clamped_field us_Affiliate_30DAttributedVolumeQuoteQuantums
  "\<lambda>_. 0" "\<lambda>_. 0" "\<lambda>_. 0" "\<lambda>_. 0" "\<lambda>v. v"
  by unfold_locales (simp_all add: adders_def)

section \<open>Processing a block\<close>

definition taker_sum :: "(string, UserStats) gomap \<Rightarrow> uint64" where
  "taker_sum m = (\<Sum>st\<leftarrow>gm_vals m. us_TakerNotional st)"

lemma taker_sum_add_epoch:
  "gm_inv m \<Longrightarrow> taker_sum (add_epoch a f m) =
     taker_sum m + (us_TakerNotional (f (epoch_entry m a)) - us_TakerNotional (epoch_entry m a))"
  by (auto simp: taker_sum_def add_epoch_def sum_gm_set epoch_entry_def split: option.split)

text \<open>What a fill leaves of the epochs, the map's order and the gap of the global total.\<close>

definition fill_frame :: "process_state \<Rightarrow> process_state \<Rightarrow> bool" where
  "fill_frame p q \<longleftrightarrow> ss_epochStats (fst q) = ss_epochStats (fst p) \<and> (gm_inv (snd p) \<longrightarrow> gm_inv (snd q) \<and>
     ss_NotionalTraded (fst q) - taker_sum (snd q) = ss_NotionalTraded (fst p) - taker_sum (snd p))"

lemma fill_frame_refl [simp]: "fill_frame p p"
  by (simp add: fill_frame_def)

lemma fill_frame_trans: "fill_frame p q \<Longrightarrow> fill_frame q r \<Longrightarrow> fill_frame p r"
  by (auto simp: fill_frame_def)

lemma fill_frame_attribution: "fill_frame p (process_attribution fill a p)"
  by (cases p)
    (auto simp: fill_frame_def process_attribution_def Let_def taker_sum_add_epoch
      split: option.split AffiliateAttribution_Role.split)

lemma fill_frame_attributions: "fill_frame p (fold (process_attribution fill) as p)"
  by (induction as arbitrary: p) (simp, metis fold_simps(2) fill_frame_trans fill_frame_attribution)

lemma fill_frame_fill: "fill_frame p (process_fill fill p)"
proof -
  obtain s m where p: "p = (s, m)" by fastforce
  let ?s = "add_user (bf_Maker fill) (addMakerNotional (bf_Notional fill)) (add_user (bf_Taker fill)
    (\<lambda>u. addRevenueGenerated (bf_AffiliateFeeGeneratedQuantums fill) (addTakerNotional (bf_Notional fill) u)) s)"
  let ?m = "add_epoch (bf_Maker fill) (addMakerNotional (bf_Notional fill)) (add_epoch (bf_Taker fill)
    (addTakerNotional (bf_Notional fill)) (add_epoch (bf_Maker fill) (\<lambda>u. u) (add_epoch (bf_Taker fill) (\<lambda>u. u) m)))"
  obtain s' m' where f: "fold (process_attribution fill) (bf_AffiliateAttributions fill) (?s, ?m) = (s', m')"
    by fastforce
  have "fill_frame (?s, ?m) (s', m')" using fill_frame_attributions[of "(?s, ?m)"] f by metis
  then have s': "ss_epochStats s' = ss_epochStats s" and "gm_inv m \<Longrightarrow> gm_inv m'"
    and "gm_inv m \<Longrightarrow> ss_NotionalTraded s' - taker_sum m' = ss_NotionalTraded s - taker_sum m - bf_Notional fill"
    by (auto simp: fill_frame_def taker_sum_add_epoch diff_diff_eq)
  moreover have "process_fill fill p = (s'\<lparr>ss_NotionalTraded := ss_NotionalTraded s' + bf_Notional fill\<rparr>,
      add_epoch (bf_Taker fill) (addRevenueGenerated (bf_AffiliateFeeGeneratedQuantums fill)) m')"
    using f by (simp add: p process_fill_def Let_def)
  ultimately show ?thesis
    by (simp add: fill_frame_def p taker_sum_add_epoch add_diff_eq[symmetric])
       (simp add: algebra_simps)
qed

lemma fill_frame_fills: "fill_frame p (fold process_fill fills p)"
  by (induction fills arbitrary: p) (simp, metis fold_simps(2) fill_frame_trans fill_frame_fill)

text \<open>The epoch's entries before the block, as the map the loop starts with.\<close>

definition epoch_map :: "stats_store \<Rightarrow> uint32 \<Rightarrow> (string, UserStats) gomap" where
  "epoch_map s k = (case GetEpochStatsOrNil s k of None \<Rightarrow> [] | Some e \<Rightarrow> es_Stats e)"

lemma epoch_map_inv: "stats_wf s \<Longrightarrow> gm_inv (epoch_map s k)"
  by (auto simp: epoch_map_def stats_wf_def GetEpochStatsOrNil_def gm_get_Some_iff gm_vals_def
      split: option.split)

lemma ProcessBlockStats_run:
  assumes "mustGetEpochInfo epochs StatsEpochInfoName = Inr i" "stats_wf s"
  obtains s1 m t where "ProcessBlockStats epochs s =
      (Inr (), if ss_blockStats s = [] then s
       else SetEpochStats (ei_CurrentEpoch i) \<lparr>es_EpochEndTime = t, es_Stats = m\<rparr> s1)"
    "fold process_fill (ss_blockStats s) (s, epoch_map s (ei_CurrentEpoch i)) = (s1, m)"
proof -
  let ?k = "ei_CurrentEpoch i"
  obtain s1 m where 1: "fold process_fill (ss_blockStats s) (s, epoch_map s ?k) = (s1, m)" by fastforce
  have "epoch_map s ?k = (case GetEpochStatsOrNil s ?k of None \<Rightarrow> []
      | Some e \<Rightarrow> fold (\<lambda>(u, st) m. gm_set u st m) (es_Stats e) [])"
    using epoch_map_inv[OF assms(2), of ?k] by (auto simp: epoch_map_def fold_gm_set_same split: option.split)
  then show ?thesis
    using assms(1) 1 by (intro that[where t = "(uint (ei_NextTick i) + 62135596800) * 1000000000", OF _ 1])
      (simp add: ProcessBlockStats_def bindM_def liftM_def modifyM_def)
qed

lemma SetEpochStats_simps [simp]:
  "ss_epochStats (SetEpochStats k e s) = gm_set k e (ss_epochStats s)"
  "GetUserStats (SetEpochStats k e s) = GetUserStats s"
  "ss_NotionalTraded (SetEpochStats k e s) = ss_NotionalTraded s"
  by (auto simp: SetEpochStats_def GetUserStats_def)

lemma sum_replace_epoch:
  fixes g :: "EpochStats \<Rightarrow> 'a::ab_group_add"
  assumes "stats_wf s" "\<And>e e'. es_Stats e = es_Stats e' \<Longrightarrow> g e = g e'" "\<And>t. g \<lparr>es_EpochEndTime = t, es_Stats = []\<rparr> = 0"
  shows "(\<Sum>e\<leftarrow>gm_vals (gm_set k e' (ss_epochStats s)). g e) =
    (\<Sum>e\<leftarrow>gm_vals (ss_epochStats s). g e) - g \<lparr>es_EpochEndTime = 0, es_Stats = epoch_map s k\<rparr> + g e'"
  using assms(1)
  by (auto simp: sum_gm_set stats_wf_def epoch_map_def GetEpochStatsOrNil_def assms(3) split: option.split
      intro: assms(2))

context volume_field
begin

lemma process_tracked:
  assumes "mustGetEpochInfo epochs StatsEpochInfoName = Inr i" "stats_wf s" "tracked sel s"
  shows "tracked sel (snd (ProcessBlockStats epochs s))"
proof -
  let ?k = "ei_CurrentEpoch i"
  obtain s1 m t where 1: "ProcessBlockStats epochs s =
      (Inr (), if ss_blockStats s = [] then s
       else SetEpochStats ?k \<lparr>es_EpochEndTime = t, es_Stats = m\<rparr> s1)"
    and run: "fold process_fill (ss_blockStats s) (s, epoch_map s ?k) = (s1, m)"
    by (rule ProcessBlockStats_run[OF assms(1,2)])
  have gap: "sel (GetUserStats s1 u) - sel (epoch_entry m u) =
      sel (GetUserStats s u) - sel (epoch_entry (epoch_map s ?k) u)" for u
    using gap_fills[of "ss_blockStats s" "(s, epoch_map s ?k)" u] run by (simp add: gap_def)
  have eps: "ss_epochStats s1 = ss_epochStats s"
    using fill_frame_fills[of "(s, epoch_map s ?k)" "ss_blockStats s"] run by (simp add: fill_frame_def)
  have "tracked sel (SetEpochStats ?k \<lparr>es_EpochEndTime = t, es_Stats = m\<rparr> s1)"
    unfolding tracked_def
  proof
    fix u
    have "(\<Sum>e\<leftarrow>gm_vals (gm_set ?k \<lparr>es_EpochEndTime = t, es_Stats = m\<rparr> (ss_epochStats s)). sel (epoch_entry (es_Stats e) u)) =
        sel (GetUserStats s u) - sel (epoch_entry (epoch_map s ?k) u) + sel (epoch_entry m u)"
      using assms(3) sum_replace_epoch[OF assms(2), of "\<lambda>e. sel (epoch_entry (es_Stats e) u)" ?k]
      by (simp add: tracked_def) (simp add: epoch_entry_def)
    then show "sel (GetUserStats (SetEpochStats ?k \<lparr>es_EpochEndTime = t, es_Stats = m\<rparr> s1) u) =
      (\<Sum>e\<leftarrow>gm_vals (ss_epochStats (SetEpochStats ?k \<lparr>es_EpochEndTime = t, es_Stats = m\<rparr> s1)). sel (epoch_entry (es_Stats e) u))"
      using gap[of u] by (simp add: eps) (metis diff_add_cancel)
  qed
  then show ?thesis using 1 assms(3) by simp
qed

end

lemma process_wf_global:
  assumes "mustGetEpochInfo epochs StatsEpochInfoName = Inr i" "stats_wf s" "global_tracked s"
  shows "stats_wf (snd (ProcessBlockStats epochs s)) \<and> global_tracked (snd (ProcessBlockStats epochs s))"
proof -
  let ?k = "ei_CurrentEpoch i"
  obtain s1 m t where 1: "ProcessBlockStats epochs s =
      (Inr (), if ss_blockStats s = [] then s
       else SetEpochStats ?k \<lparr>es_EpochEndTime = t, es_Stats = m\<rparr> s1)"
    and run: "fold process_fill (ss_blockStats s) (s, epoch_map s ?k) = (s1, m)"
    by (rule ProcessBlockStats_run[OF assms(1,2)])
  have eps: "ss_epochStats s1 = ss_epochStats s" and inv: "gm_inv m"
    and glob: "ss_NotionalTraded s1 - taker_sum m = ss_NotionalTraded s - taker_sum (epoch_map s ?k)"
    using fill_frame_fills[of "(s, epoch_map s ?k)" "ss_blockStats s"] run epoch_map_inv[OF assms(2)]
    by (auto simp: fill_frame_def)
  let ?s = "SetEpochStats ?k \<lparr>es_EpochEndTime = t, es_Stats = m\<rparr> s1"
  have "set (gm_vals (gm_set k v mm)) \<subseteq> insert v (set (gm_vals mm))" for k v and mm :: "(uint32, EpochStats) gomap"
    by (induction k v mm rule: gm_set.induct) (auto simp: gm_vals_def)
  then have "stats_wf ?s" using assms(2) inv by (fastforce simp: stats_wf_def eps)
  moreover have "global_tracked ?s"
    using assms(3) glob sum_replace_epoch[OF assms(2), of "\<lambda>e. taker_sum (es_Stats e)" ?k]
    by (simp add: global_tracked_def eps taker_sum_def[symmetric])
       (simp add: taker_sum_def gm_vals_def, metis diff_add_cancel)
  ultimately show ?thesis using 1 assms by simp
qed

section \<open>Expiry\<close>

lemma expire_users:
  assumes "distinct (map fst m)"
  shows "fold expire_user m (s, n) = (s', n') \<Longrightarrow>
     (\<forall>u. GetUserStats s' u = (case map_of m u of None \<Rightarrow> GetUserStats s u
        | Some r \<Rightarrow> subtract_stats r (GetUserStats s u))) \<and> n' = n - taker_sum m \<and>
     ss_epochStats s' = ss_epochStats s"
  using assms
proof (induction m arbitrary: s n)
  case (Cons p m)
  obtain a r where p: "p = (a, r)" by fastforce
  have a: "map_of m a = None" using Cons.prems(2) p by (simp add: map_of_eq_None_iff)
  show ?case
    using Cons.IH[of "add_user a (subtract_stats r) s" "n - us_TakerNotional r"] Cons.prems a
    by (auto simp: p expire_user_def GetUserStats_add_user taker_sum_def gm_vals_def diff_diff_eq split: option.split)
qed (simp add: taker_sum_def gm_vals_def)

lemma ExpireOldStats_run:
  assumes i: "mustGetEpochInfo epochs StatsEpochInfoName = Inr i" and wf: "stats_wf s"
  obtains s' where "ExpireOldStats ctx epochs s = (Inr (), s')"
    "(ss_epochStats s' = ss_epochStats s \<and> GetUserStats s' = GetUserStats s \<and> ss_NotionalTraded s' = ss_NotionalTraded s) \<or>
     (\<exists>e. GetEpochStatsOrNil s (ss_TrailingEpoch s) = Some e \<and> ss_TrailingEpoch s \<noteq> ei_CurrentEpoch i \<and>
       es_EpochEndTime e < ctx_BlockTime ctx - ss_WindowDuration s \<and>
       ss_epochStats s' = gm_del (ss_TrailingEpoch s) (ss_epochStats s) \<and>
       ss_NotionalTraded s' = ss_NotionalTraded s - taker_sum (es_Stats e) \<and>
       (\<forall>u. GetUserStats s' u = (case gm_get (es_Stats e) u of None \<Rightarrow> GetUserStats s u
          | Some r \<Rightarrow> subtract_stats r (GetUserStats s u))))"
proof -
  let ?k = "ss_TrailingEpoch s"
  let ?s' = "snd (ExpireOldStats ctx epochs s)"
  have ok: "ExpireOldStats ctx epochs s = (Inr (), ?s')"
    using i by (simp add: ExpireOldStats_def bindM_def liftM_def modifyM_def)
  show ?thesis
  proof (cases "?k \<noteq> ei_CurrentEpoch i \<and> (\<exists>e. GetEpochStatsOrNil s ?k = Some e \<and>
      es_EpochEndTime e < ctx_BlockTime ctx - ss_WindowDuration s)")
    case True
    then obtain e where e: "?k \<noteq> ei_CurrentEpoch i" "GetEpochStatsOrNil s ?k = Some e"
      "es_EpochEndTime e < ctx_BlockTime ctx - ss_WindowDuration s" by auto
    obtain s1 n1 where f: "fold expire_user (es_Stats e) (s, ss_NotionalTraded s) = (s1, n1)" by fastforce
    have "gm_inv (es_Stats e)" using epoch_map_inv[OF wf, of ?k] e(2) by (simp add: epoch_map_def)
    note u = expire_users[OF gm_inv_distinct[OF this] f]
    have s': "?s' = (deleteEpochStats ?k (s1\<lparr>ss_NotionalTraded := n1\<rparr>))\<lparr>ss_TrailingEpoch := ?k + 1\<rparr>"
      using i e f by (simp add: ExpireOldStats_def bindM_def liftM_def modifyM_def Let_def)
    have "GetUserStats ?s' = GetUserStats s1"
      by (rule ext) (simp add: s' GetUserStats_def deleteEpochStats_def)
    then show ?thesis
      using e u by (intro that[OF ok]) (auto simp: s' deleteEpochStats_def gm_get_def)
  next
    case False
    then show ?thesis
      using i by (intro that[OF ok])
        (auto simp: ExpireOldStats_def bindM_def liftM_def modifyM_def Let_def GetUserStats_def fun_eq_iff split: option.split)
  qed
qed

text \<open>A field that expiry subtracts exactly stays tracked.\<close>

lemma expire_tracked_step:
  assumes e: "GetEpochStatsOrNil s k = Some e" and wf: "stats_wf s" and t: "tracked sel s"
    and u: "sel (GetUserStats s' u) = sel (GetUserStats s u) - sel (epoch_entry (es_Stats e) u)"
    and eps: "ss_epochStats s' = gm_del k (ss_epochStats s)"
  shows "sel (GetUserStats s' u) = (\<Sum>e\<leftarrow>gm_vals (ss_epochStats s'). sel (epoch_entry (es_Stats e) u))"
  using e wf t by (simp add: u eps sum_gm_del stats_wf_def GetEpochStatsOrNil_def tracked_def)

lemma expire_tracked_exact:
  assumes i: "mustGetEpochInfo epochs StatsEpochInfoName = Inr i" and wf: "stats_wf s" and t: "tracked sel s"
    and empty: "sel empty_UserStats = 0"
    and exact: "\<And>k e u. GetEpochStatsOrNil s k = Some e \<Longrightarrow>
      sel (subtract_stats (epoch_entry (es_Stats e) u) (GetUserStats s u)) =
        sel (GetUserStats s u) - sel (epoch_entry (es_Stats e) u)"
  shows "tracked sel (snd (ExpireOldStats ctx epochs s))"
proof (rule ExpireOldStats_run[OF i wf, of ctx])
  fix s' assume run: "ExpireOldStats ctx epochs s = (Inr (), s')"
  assume "(ss_epochStats s' = ss_epochStats s \<and> GetUserStats s' = GetUserStats s \<and> ss_NotionalTraded s' = ss_NotionalTraded s) \<or>
     (\<exists>e. GetEpochStatsOrNil s (ss_TrailingEpoch s) = Some e \<and> ss_TrailingEpoch s \<noteq> ei_CurrentEpoch i \<and>
       es_EpochEndTime e < ctx_BlockTime ctx - ss_WindowDuration s \<and>
       ss_epochStats s' = gm_del (ss_TrailingEpoch s) (ss_epochStats s) \<and>
       ss_NotionalTraded s' = ss_NotionalTraded s - taker_sum (es_Stats e) \<and>
       (\<forall>u. GetUserStats s' u = (case gm_get (es_Stats e) u of None \<Rightarrow> GetUserStats s u
          | Some r \<Rightarrow> subtract_stats r (GetUserStats s u))))"
  then consider "ss_epochStats s' = ss_epochStats s" "GetUserStats s' = GetUserStats s"
    | e where "GetEpochStatsOrNil s (ss_TrailingEpoch s) = Some e"
      "ss_epochStats s' = gm_del (ss_TrailingEpoch s) (ss_epochStats s)"
      "\<forall>u. GetUserStats s' u = (case gm_get (es_Stats e) u of None \<Rightarrow> GetUserStats s u
          | Some r \<Rightarrow> subtract_stats r (GetUserStats s u))"
    by blast
  then have "tracked sel s'"
  proof cases
    case 1
    then show ?thesis using t by (simp add: tracked_def)
  next
    case (2 e)
    have "sel (GetUserStats s' u) = sel (GetUserStats s u) - sel (epoch_entry (es_Stats e) u)" for u
      using 2(3) exact[OF 2(1), of u] by (auto simp: epoch_entry_def empty split: option.splits)
    then show ?thesis
      unfolding tracked_def using expire_tracked_step[OF 2(1) wf t _ 2(2)] by blast
  qed
  then show ?thesis using run by simp
qed

lemma sum_words:
  assumes "(\<Sum>x\<leftarrow>xs. uint (f x :: uint64)) < 2 ^ 64"
  shows "uint (\<Sum>x\<leftarrow>xs. f x) = (\<Sum>x\<leftarrow>xs. uint (f x))"
  using assms
proof (induction xs)
  case (Cons x xs)
  have "0 \<le> (\<Sum>x\<leftarrow>xs. uint (f x))" by (induction xs) simp_all
  with Cons.prems have "(\<Sum>x\<leftarrow>xs. uint (f x)) < 2 ^ 64"
    using uint_ge_0[of "f x"] unfolding list.map sum_list.Cons by linarith
  then show ?case using Cons by (simp add: uint_add_fits)
qed simp

lemma entry_le_total:
  assumes "stats_wf s" "tracked sel s" "no_wrap sel s" "GetEpochStatsOrNil s k = Some e"
  shows "sel (epoch_entry (es_Stats e) u) \<le> sel (GetUserStats s u)"
proof -
  let ?es = "gm_vals (ss_epochStats s)"
  have "e \<in> set ?es"
    using assms(1,4) by (force simp: GetEpochStatsOrNil_def stats_wf_def gm_get_Some_iff gm_vals_def)
  then have "uint (sel (epoch_entry (es_Stats e) u)) \<le> (\<Sum>e\<leftarrow>?es. uint (sel (epoch_entry (es_Stats e) u)))"
    by (intro member_le_sum_list) (auto intro: imageI)
  also have "\<dots> = uint (\<Sum>e\<leftarrow>?es. sel (epoch_entry (es_Stats e) u))"
    using assms(3) by (intro sum_words[symmetric]) (simp add: no_wrap_def)
  also have "\<dots> = uint (sel (GetUserStats s u))" using assms(2) by (simp add: tracked_def)
  finally show ?thesis by (simp add: word_le_def)
qed

context wrapped_field
begin

lemma expire_tracked:
  assumes "mustGetEpochInfo epochs StatsEpochInfoName = Inr i" "stats_wf s" "tracked sel s"
  shows "tracked sel (snd (ExpireOldStats ctx epochs s))"
  by (rule expire_tracked_exact[OF assms]) simp_all

end

context clamped_field
begin

lemma expire_tracked:
  assumes "mustGetEpochInfo epochs StatsEpochInfoName = Inr i" "stats_wf s" "tracked sel s" "no_wrap sel s"
  shows "tracked sel (snd (ExpireOldStats ctx epochs s))"
proof (rule expire_tracked_exact[OF assms(1-3)])
  fix k e u assume e: "GetEpochStatsOrNil s k = Some e"
  show "sel (subtract_stats (epoch_entry (es_Stats e) u) (GetUserStats s u)) =
      sel (GetUserStats s u) - sel (epoch_entry (es_Stats e) u)"
    using entry_le_total[OF assms(2-4) e, of u] by (simp add: sub_clamped_def)
qed simp

end

text \<open>The invariant of the module.\<close>

definition volumes_ok :: "stats_store \<Rightarrow> bool" where
  "volumes_ok s \<longleftrightarrow> stats_wf s \<and> tracked us_TakerNotional s \<and> tracked us_MakerNotional s \<and> global_tracked s"

definition affiliate_fields :: "(UserStats \<Rightarrow> uint64) set" where
  "affiliate_fields = {us_Affiliate_30DRevenueGeneratedQuantums, us_Affiliate_30DReferredVolumeQuoteQuantums,
     us_Affiliate_30DAttributedVolumeQuoteQuantums}"

lemma expire_wf_global:
  assumes i: "mustGetEpochInfo epochs StatsEpochInfoName = Inr i" and wf: "stats_wf s" and g: "global_tracked s"
  shows "stats_wf (snd (ExpireOldStats ctx epochs s)) \<and> global_tracked (snd (ExpireOldStats ctx epochs s))"
proof (rule ExpireOldStats_run[OF i wf, of ctx], elim disjE exE conjE)
  fix s' assume "ExpireOldStats ctx epochs s = (Inr (), s')"
    "ss_epochStats s' = ss_epochStats s" "ss_NotionalTraded s' = ss_NotionalTraded s"
  then show ?thesis using wf g by (simp add: stats_wf_def global_tracked_def)
next
  fix s' e assume s': "ExpireOldStats ctx epochs s = (Inr (), s')" "GetEpochStatsOrNil s (ss_TrailingEpoch s) = Some e"
    "ss_epochStats s' = gm_del (ss_TrailingEpoch s) (ss_epochStats s)"
    "ss_NotionalTraded s' = ss_NotionalTraded s - taker_sum (es_Stats e)"
  have "set (gm_vals (gm_del k m)) \<subseteq> set (gm_vals m)" for k and m :: "(uint32, EpochStats) gomap"
    by (auto simp: gm_vals_def gm_del_def)
  then show ?thesis
    using s' wf g by (auto simp: stats_wf_def global_tracked_def GetEpochStatsOrNil_def sum_gm_del taker_sum_def)
qed

section \<open>Epochs in the window\<close>

text \<open>The trailing epoch falls out of the window.\<close>

definition falls_out :: "block_ctx \<Rightarrow> uint32 \<Rightarrow> stats_store \<Rightarrow> bool" where
  "falls_out ctx current s \<longleftrightarrow> ss_TrailingEpoch s \<noteq> current \<and>
     (case GetEpochStatsOrNil s (ss_TrailingEpoch s) of None \<Rightarrow> False
      | Some e \<Rightarrow> es_EpochEndTime e < ctx_BlockTime ctx - ss_WindowDuration s)"

text \<open>What one field of the statistics of a user grows by in the fills of a block.\<close>

definition traded :: "(BlockStats_Fill \<Rightarrow> string) \<Rightarrow> BlockStats_Fill list \<Rightarrow> string \<Rightarrow> uint64" where
  "traded side fills u = (\<Sum>fill \<leftarrow> fills. if side fill = u then bf_Notional fill else 0)"

lemma expire_fold_frame:
  "ss_epochStats (fst (fold expire_user rs (s, n))) = ss_epochStats s"
  "ss_TrailingEpoch (fst (fold expire_user rs (s, n))) = ss_TrailingEpoch s"
  by (induction rs arbitrary: s n) (auto simp: expire_user_def split: prod.splits)

lemma ExpireOldStats_epochs:
  assumes "mustGetEpochInfo epochs StatsEpochInfoName = Inr i"
  shows "ss_epochStats (snd (ExpireOldStats ctx epochs s)) =
      (if falls_out ctx (ei_CurrentEpoch i) s then gm_del (ss_TrailingEpoch s) (ss_epochStats s) else ss_epochStats s)"
    and "ss_TrailingEpoch (snd (ExpireOldStats ctx epochs s)) =
      (if falls_out ctx (ei_CurrentEpoch i) s \<or>
          ss_TrailingEpoch s \<noteq> ei_CurrentEpoch i \<and> GetEpochStatsOrNil s (ss_TrailingEpoch s) = None
       then ss_TrailingEpoch s + 1 else ss_TrailingEpoch s)"
  using assms expire_fold_frame
  by (auto simp: ExpireOldStats_def falls_out_def bindM_def liftM_def modifyM_def Let_def deleteEpochStats_def
      case_prod_unfold split: option.splits)

lemma attributions_volume:
  "us_TakerNotional (epoch_entry (snd (fold (process_attribution fill) as p)) u) = us_TakerNotional (epoch_entry (snd p) u)"
  "us_MakerNotional (epoch_entry (snd (fold (process_attribution fill) as p)) u) = us_MakerNotional (epoch_entry (snd p) u)"
  by (induction as arbitrary: p)
     (auto simp: process_attribution_def Let_def epoch_entry_add_epoch addReferredVolume_def addAttributedVolume_def
        split: prod.splits option.splits AffiliateAttribution_Role.splits)

lemma fill_volume:
  "us_TakerNotional (epoch_entry (snd (process_fill fill p)) u) =
     us_TakerNotional (epoch_entry (snd p) u) + (if bf_Taker fill = u then bf_Notional fill else 0)"
  "us_MakerNotional (epoch_entry (snd (process_fill fill p)) u) =
     us_MakerNotional (epoch_entry (snd p) u) + (if bf_Maker fill = u then bf_Notional fill else 0)"
  using attributions_volume
  by (auto simp: process_fill_def Let_def case_prod_unfold epoch_entry_add_epoch addTakerNotional_def addMakerNotional_def
      addRevenueGenerated_def)

lemma fills_volume:
  "us_TakerNotional (epoch_entry (snd (fold process_fill fills p)) u) =
     us_TakerNotional (epoch_entry (snd p) u) + traded bf_Taker fills u"
  "us_MakerNotional (epoch_entry (snd (fold process_fill fills p)) u) =
     us_MakerNotional (epoch_entry (snd p) u) + traded bf_Maker fills u"
  by (induction fills arbitrary: p) (simp_all add: traded_def fill_volume add.assoc)

lemma attributions_frame:
  "ss_TrailingEpoch (fst (fold (process_attribution fill) as p)) = ss_TrailingEpoch (fst p)"
  "ss_WindowDuration (fst (fold (process_attribution fill) as p)) = ss_WindowDuration (fst p)"
  by (induction as arbitrary: p)
     (auto simp: process_attribution_def Let_def add_user_def SetUserStats_def
        split: prod.splits option.splits AffiliateAttribution_Role.splits)

lemma fills_frame:
  "ss_TrailingEpoch (fst (fold process_fill fills p)) = ss_TrailingEpoch (fst p)"
  "ss_WindowDuration (fst (fold process_fill fills p)) = ss_WindowDuration (fst p)"
proof -
  have "ss_TrailingEpoch (fst (process_fill fill p)) = ss_TrailingEpoch (fst p)"
    "ss_WindowDuration (fst (process_fill fill p)) = ss_WindowDuration (fst p)" for fill p
    using attributions_frame
    by (auto simp: process_fill_def Let_def case_prod_unfold add_user_def SetUserStats_def)
  then show "ss_TrailingEpoch (fst (fold process_fill fills p)) = ss_TrailingEpoch (fst p)"
    "ss_WindowDuration (fst (fold process_fill fills p)) = ss_WindowDuration (fst p)"
    by (induction fills arbitrary: p) simp_all
qed

lemma ProcessBlockStats_epochs:
  assumes i: "mustGetEpochInfo epochs StatsEpochInfoName = Inr i" and wf: "stats_wf s"
  defines "p \<equiv> snd (ProcessBlockStats epochs s)" and "current \<equiv> ei_CurrentEpoch i"
  shows "k \<noteq> current \<Longrightarrow> GetEpochStatsOrNil p k = GetEpochStatsOrNil s k"
    and "us_TakerNotional (epoch_entry (epoch_map p current) u) =
      us_TakerNotional (epoch_entry (epoch_map s current) u) + traded bf_Taker (ss_blockStats s) u"
    and "us_MakerNotional (epoch_entry (epoch_map p current) u) =
      us_MakerNotional (epoch_entry (epoch_map s current) u) + traded bf_Maker (ss_blockStats s) u"
    and "ss_TrailingEpoch p = ss_TrailingEpoch s" "ss_WindowDuration p = ss_WindowDuration s"
proof -
  obtain s1 m t where run: "ProcessBlockStats epochs s =
      (Inr (), if ss_blockStats s = [] then s else SetEpochStats current \<lparr>es_EpochEndTime = t, es_Stats = m\<rparr> s1)"
    and fold: "fold process_fill (ss_blockStats s) (s, epoch_map s current) = (s1, m)"
    unfolding current_def by (rule ProcessBlockStats_run[OF i wf])
  have eps: "ss_epochStats s1 = ss_epochStats s"
    using fill_frame_fills[of "(s, epoch_map s current)" "ss_blockStats s"] fold by (simp add: fill_frame_def)
  note volume = fills_volume[of "ss_blockStats s" "(s, epoch_map s current)" u, unfolded fold snd_conv]
  note frame = fills_frame[of "ss_blockStats s" "(s, epoch_map s current)", unfolded fold fst_conv]
  show "k \<noteq> current \<Longrightarrow> GetEpochStatsOrNil p k = GetEpochStatsOrNil s k"
    by (simp add: p_def run GetEpochStatsOrNil_def SetEpochStats_def eps)
  show "us_TakerNotional (epoch_entry (epoch_map p current) u) =
      us_TakerNotional (epoch_entry (epoch_map s current) u) + traded bf_Taker (ss_blockStats s) u"
    "us_MakerNotional (epoch_entry (epoch_map p current) u) =
      us_MakerNotional (epoch_entry (epoch_map s current) u) + traded bf_Maker (ss_blockStats s) u"
    using volume by (simp_all add: p_def run epoch_map_def GetEpochStatsOrNil_def SetEpochStats_def traded_def)
  show "ss_TrailingEpoch p = ss_TrailingEpoch s" "ss_WindowDuration p = ss_WindowDuration s"
    using frame by (simp_all add: p_def run SetEpochStats_def)
qed

text \<open>The epochs a block leaves in the window.\<close>

lemma stats_EndBlock_epochs:
  assumes i: "mustGetEpochInfo epochs StatsEpochInfoName = Inr i" and wf: "stats_wf s"
    and run: "stats_EndBlock ctx epochs s = (Inr (), s')"
  shows "(\<forall>k. k \<noteq> ei_CurrentEpoch i \<longrightarrow> GetEpochStatsOrNil s' k =
        (if falls_out ctx (ei_CurrentEpoch i) s \<and> k = ss_TrailingEpoch s then None else GetEpochStatsOrNil s k)) \<and>
    (\<forall>u. us_TakerNotional (epoch_entry (epoch_map s' (ei_CurrentEpoch i)) u) =
        us_TakerNotional (epoch_entry (epoch_map s (ei_CurrentEpoch i)) u) + traded bf_Taker (ss_blockStats s) u \<and>
      us_MakerNotional (epoch_entry (epoch_map s' (ei_CurrentEpoch i)) u) =
        us_MakerNotional (epoch_entry (epoch_map s (ei_CurrentEpoch i)) u) + traded bf_Maker (ss_blockStats s) u) \<and>
    ss_TrailingEpoch s' = (if falls_out ctx (ei_CurrentEpoch i) s \<or>
        ss_TrailingEpoch s \<noteq> ei_CurrentEpoch i \<and> GetEpochStatsOrNil s (ss_TrailingEpoch s) = None
      then ss_TrailingEpoch s + 1 else ss_TrailingEpoch s)"
proof -
  let ?c = "ei_CurrentEpoch i" and ?p = "snd (ProcessBlockStats epochs s)"
  have p: "ProcessBlockStats epochs s = (Inr (), ?p)"
    using i by (simp add: ProcessBlockStats_def bindM_def liftM_def modifyM_def)
  then have s': "s' = snd (ExpireOldStats ctx epochs ?p)"
    using run by (simp add: stats_EndBlock_def)
  note P = ProcessBlockStats_epochs[OF i wf] and E = ExpireOldStats_epochs[OF i, of ctx ?p]
  have out: "falls_out ctx ?c ?p \<longleftrightarrow> falls_out ctx ?c s"
    using P(1)[of "ss_TrailingEpoch s"] by (auto simp: falls_out_def P(4,5) split: option.splits)
  have get: "GetEpochStatsOrNil s' k = (if falls_out ctx ?c s \<and> k = ss_TrailingEpoch s then None else GetEpochStatsOrNil ?p k)" for k
    using E(1) by (simp add: s' out P(4) GetEpochStatsOrNil_def)
  have "falls_out ctx ?c s \<Longrightarrow> ?c \<noteq> ss_TrailingEpoch s" by (auto simp: falls_out_def)
  then have "epoch_map s' ?c = epoch_map ?p ?c" using get[of ?c] by (auto simp: epoch_map_def)
  moreover have "ss_TrailingEpoch s \<noteq> ?c \<Longrightarrow> GetEpochStatsOrNil ?p (ss_TrailingEpoch s) = GetEpochStatsOrNil s (ss_TrailingEpoch s)"
    by (rule P(1))
  ultimately show ?thesis
    using get P(1,2,3) E(2) by (auto simp: out P(4) s'[symmetric])
qed

text \<open>
  C35: The rolling volumes are right. At the end of every block (for any fills recorded in it) the
  processing and expiry of statistics succeed, and afterwards every user's taker and maker volume
  is exactly the sum (modulo \<open>2 ^ 64\<close>) of that user's volume over the stored epochs,
  and the global volume the sum over all users; the three affiliate fields, which expiry clamps
  at zero, are exact too as long as their sums fit 64 bits. The stored epochs are those in the window: the
  current epoch grows by exactly the fills of the block; of the others, only the trailing epoch is dropped, exactly if
  it is not the current one and ended before the start of the window, and all others stay as they are; the
  trailing epoch moves on exactly when its epoch is dropped or has no statistics.
\<close>

theorem rolling_volumes_exact:
  assumes "mustGetEpochInfo epochs StatsEpochInfoName = Inr i" and "volumes_ok s"
  shows "\<exists>s'. stats_EndBlock ctx epochs s = (Inr (), s') \<and> volumes_ok s' \<and>
    (\<forall>sel \<in> affiliate_fields. tracked sel s \<and> no_wrap sel (snd (ProcessBlockStats epochs s)) \<longrightarrow> tracked sel s') \<and>
    (\<forall>k. k \<noteq> ei_CurrentEpoch i \<longrightarrow> GetEpochStatsOrNil s' k =
        (if falls_out ctx (ei_CurrentEpoch i) s \<and> k = ss_TrailingEpoch s then None else GetEpochStatsOrNil s k)) \<and>
    (\<forall>u. us_TakerNotional (epoch_entry (epoch_map s' (ei_CurrentEpoch i)) u) =
        us_TakerNotional (epoch_entry (epoch_map s (ei_CurrentEpoch i)) u) + traded bf_Taker (ss_blockStats s) u \<and>
      us_MakerNotional (epoch_entry (epoch_map s' (ei_CurrentEpoch i)) u) =
        us_MakerNotional (epoch_entry (epoch_map s (ei_CurrentEpoch i)) u) + traded bf_Maker (ss_blockStats s) u) \<and>
    ss_TrailingEpoch s' = (if falls_out ctx (ei_CurrentEpoch i) s \<or>
        ss_TrailingEpoch s \<noteq> ei_CurrentEpoch i \<and> GetEpochStatsOrNil s (ss_TrailingEpoch s) = None
      then ss_TrailingEpoch s + 1 else ss_TrailingEpoch s)"
proof -
  have wf: "stats_wf s" and g: "global_tracked s" using assms(2) by (simp_all add: volumes_ok_def)
  let ?p = "snd (ProcessBlockStats epochs s)"
  let ?e = "snd (ExpireOldStats ctx epochs ?p)"
  have p: "ProcessBlockStats epochs s = (Inr (), ?p)"
    using assms(1) by (simp add: ProcessBlockStats_def bindM_def liftM_def modifyM_def)
  have e: "ExpireOldStats ctx epochs ?p = (Inr (), ?e)"
    using assms(1) by (simp add: ExpireOldStats_def bindM_def liftM_def modifyM_def)
  have run: "stats_EndBlock ctx epochs s = (Inr (), ?e)"
    unfolding stats_EndBlock_def bindM_def using p e by (metis (no_types, lifting) case_prod_conv sum.case(2))
  note p1 = process_wf_global[OF assms(1) wf g]
  note e1 = expire_wf_global[OF assms(1), of ?p ctx]
  have "volumes_ok ?e"
    using assms(2) p1 e1 taker.process_tracked[OF assms(1) wf] maker.process_tracked[OF assms(1) wf]
      taker.expire_tracked[OF assms(1), of ?p ctx] maker.expire_tracked[OF assms(1), of ?p ctx]
    by (simp add: volumes_ok_def)
  moreover have "tracked sel ?e" if "sel \<in> affiliate_fields" "tracked sel s" "no_wrap sel ?p" for sel
    using that p1 revenue.process_tracked[OF assms(1) wf] referred.process_tracked[OF assms(1) wf]
      attributed.process_tracked[OF assms(1) wf] revenue.expire_tracked[OF assms(1), of ?p ctx]
      referred.expire_tracked[OF assms(1), of ?p ctx] attributed.expire_tracked[OF assms(1), of ?p ctx]
    unfolding affiliate_fields_def by blast
  ultimately show ?thesis using run stats_EndBlock_epochs[OF assms(1) wf run] by blast
qed

definition ex_stats :: stats_store where
  "ex_stats = RecordFill ''alice'' ''bob'' 100 3 [Some \<lparr>aa_Role = ROLE_TAKER, aa_ReferrerAddress = ''carl'',
       aa_ReferredVolumeQuoteQuantums = 100\<rparr>] \<lparr>ss_blockStats = [], ss_TrailingEpoch = 0, ss_epochStats = [],
     ss_userStats = [], ss_NotionalTraded = 0, ss_WindowDuration = 1, ss_cachedStake = (\<lambda>_. None)\<rparr>"

theorem rolling_volumes_exact_witness:
  "\<exists>s'. stats_EndBlock (ex_block 5 2000) [(StatsEpochInfoName, ex_epoch\<lparr>ei_Name := StatsEpochInfoName\<rparr>)] ex_stats = (Inr (), s') \<and>
     volumes_ok s' \<and> us_TakerNotional (epoch_entry (epoch_map s' 0) ''alice'') = 100"
proof -
  have "volumes_ok ex_stats"
    by (simp add: volumes_ok_def ex_stats_def RecordFill_def stats_wf_def tracked_def global_tracked_def gm_vals_def
        GetUserStats_def empty_UserStats_def)
  moreover have "mustGetEpochInfo [(StatsEpochInfoName, ex_epoch\<lparr>ei_Name := StatsEpochInfoName\<rparr>)] StatsEpochInfoName =
      Inr (ex_epoch\<lparr>ei_Name := StatsEpochInfoName\<rparr>)"
    by (simp add: mustGetEpochInfo_def)
  moreover have "us_TakerNotional (epoch_entry (epoch_map ex_stats 0) ''alice'') + traded bf_Taker (ss_blockStats ex_stats) ''alice'' = 100"
    by code_simp
  ultimately show ?thesis
    using rolling_volumes_exact[of "[(StatsEpochInfoName, ex_epoch\<lparr>ei_Name := StatsEpochInfoName\<rparr>)]"
        "ex_epoch\<lparr>ei_Name := StatsEpochInfoName\<rparr>" ex_stats "ex_block 5 2000"] by (fastforce simp: ex_epoch_def)
qed

lemma Uint64_id: "0 \<le> x \<Longrightarrow> x < 2 ^ 64 \<Longrightarrow> uint (Uint64 x) = x"
  by (simp add: Uint64_def uint_word_of_int)

end
