(* ===== verification/Affiliates.thy ===== *)
theory Affiliates
  imports Stats
begin

text \<open>
  \<^verbatim>\<open>x/affiliates\<close> (\<^verbatim>\<open>keeper/keeper.go\<close>, \<^verbatim>\<open>keeper/msg_server.go\<close>, \<^verbatim>\<open>genesis.go\<close>): who referred whom, the tiers of
  affiliates by referred volume, overrides, the deprecated whitelist and the parameters. The
  bech32 check of the SDK is a function argument; the indexer event is a list in the store.
\<close>

section \<open>Definitions\<close>

record AffiliateTiers_Tier =
  at_ReqReferredVolumeQuoteQuantums :: uint64
  at_ReqStakedWholeCoins :: uint32
  at_TakerFeeSharePpm :: uint32

record AffiliateWhitelist_Tier =
  aw_Addresses :: "string list"
  aw_TakerFeeSharePpm :: uint32

record AffiliateParameters =
  ap_Maximum_30DAttributableVolume :: uint64
  ap_RefereeMinimumFeeTierIdx :: uint32
  ap_Maximum_30DAffiliateRevenue :: uint64

record affiliate_store =
  af_referredBy :: "string \<Rightarrow> string option"
  af_tiers :: "AffiliateTiers_Tier list"
  af_overrides :: "string list"
  af_whitelist :: "AffiliateWhitelist_Tier list"
  af_params :: AffiliateParameters
  af_events :: "(string \<times> string) list"

definition AffiliatesRevSharePpmCap :: uint32 where
  "AffiliatesRevSharePpmCap = 500000"

definition GetReferredBy :: "affiliate_store \<Rightarrow> string \<Rightarrow> string option" where
  "GetReferredBy s referee = af_referredBy s referee"

definition RegisterAffiliate ::
  "(string \<Rightarrow> string res) \<Rightarrow> string \<Rightarrow> string \<Rightarrow> (affiliate_store, unit) step" where
  "RegisterAffiliate fromBech32 referee affiliateAddr s =
     (if referee = affiliateAddr then (Inl (Err ''ErrSelfReferral''), s)
      else case fromBech32 referee of Inl _ \<Rightarrow> (Inl (Err ''ErrInvalidAddress''), s) | Inr _ \<Rightarrow>
        (case fromBech32 affiliateAddr of Inl _ \<Rightarrow> (Inl (Err ''ErrInvalidAddress''), s) | Inr _ \<Rightarrow>
          if GetReferredBy s referee \<noteq> None then (Inl (Err ''ErrAffiliateAlreadyExistsForReferee''), s)
          else if length (af_tiers s) = 0 then (Inl (Err ''ErrAffiliateTiersNotSet''), s)
          else (Inr (), s\<lparr>af_referredBy := (af_referredBy s)(referee \<mapsto> affiliateAddr),
                         af_events := af_events s @ [(referee, affiliateAddr)]\<rparr>)))"

text \<open>The last index of the longest prefix that meets a requirement, 0 when there is none.\<close>

fun last_qualified :: "('t \<Rightarrow> bool) \<Rightarrow> nat \<Rightarrow> uint32 \<Rightarrow> 't list \<Rightarrow> uint32" where
  "last_qualified ok index currentTier [] = currentTier"
| "last_qualified ok index currentTier (tier # tiers) =
     (if ok tier then last_qualified ok (index + 1) (of_nat index) tiers else currentTier)"

definition GetTierForAffiliate ::
  "affiliate_store \<Rightarrow> stats_store \<Rightarrow> string \<Rightarrow> string set option \<Rightarrow> uint32 \<times> uint32" where
  "GetTierForAffiliate s stats affiliateAddr affiliateOverrides =
     (let tiers = af_tiers s
      in if length tiers = 0 then (0, 0)
         else let maxTierLevel = (of_nat (length tiers) :: uint32) - 1
              in if (case affiliateOverrides of None \<Rightarrow> False | Some m \<Rightarrow> affiliateAddr \<in> m)
                 then (maxTierLevel, at_TakerFeeSharePpm (tiers ! unat maxTierLevel))
                 else let referredVolume = us_Affiliate_30DReferredVolumeQuoteQuantums (GetUserStats stats affiliateAddr);
                          currentTier = last_qualified
                            (\<lambda>tier. \<not> uint referredVolume < uint (at_ReqReferredVolumeQuoteQuantums tier)) 0 0 tiers
                      in (currentTier, at_TakerFeeSharePpm (tiers ! unat currentTier)))"

definition GetTakerFeeShare ::
  "affiliate_store \<Rightarrow> stats_store \<Rightarrow> string \<Rightarrow> string set option \<Rightarrow> (string \<times> uint32) option" where
  "GetTakerFeeShare s stats address affiliateOverrides =
     (case GetReferredBy s address of
        None \<Rightarrow> None
      | Some affiliateAddress \<Rightarrow>
          Some (affiliateAddress, snd (GetTierForAffiliate s stats affiliateAddress affiliateOverrides)))"

fun check_affiliate_tiers :: "AffiliateTiers_Tier \<Rightarrow> AffiliateTiers_Tier list \<Rightarrow> unit res" where
  "check_affiliate_tiers prev [] = Inr ()"
| "check_affiliate_tiers prev (tier # tiers) =
     (if at_TakerFeeSharePpm tier > AffiliatesRevSharePpmCap then Inl (Err ''ErrRevShareSafetyViolation'')
      else if at_ReqReferredVolumeQuoteQuantums tier \<le> at_ReqReferredVolumeQuoteQuantums prev
      then Inl (Err ''ErrInvalidAffiliateTiers'')
      else check_affiliate_tiers tier tiers)"

definition UpdateAffiliateTiers :: "AffiliateTiers_Tier list \<Rightarrow> (affiliate_store, unit) step" where
  "UpdateAffiliateTiers tiers =
     bindM (liftM (\<lambda>_. case tiers of [] \<Rightarrow> Inr () | tier # rest \<Rightarrow> check_affiliate_tiers tier rest))
       (\<lambda>_. modifyM (\<lambda>s. s\<lparr>af_tiers := tiers\<rparr>))"

definition check_whitelist_address :: "(string \<Rightarrow> string res) \<Rightarrow> string \<Rightarrow> string set \<Rightarrow> string set res" where
  "check_whitelist_address fromBech32 address addressSet =
     (case fromBech32 address of
        Inl _ \<Rightarrow> Inl (Err ''ErrInvalidAddress'')
      | Inr _ \<Rightarrow> if address \<in> addressSet then Inl (Err ''ErrDuplicateAffiliateAddressForWhitelist'')
                else Inr (insert address addressSet))"

definition check_whitelist_tier ::
  "(string \<Rightarrow> string res) \<Rightarrow> AffiliateWhitelist_Tier \<Rightarrow> string set \<Rightarrow> string set res" where
  "check_whitelist_tier fromBech32 tier addressSet =
     (if aw_TakerFeeSharePpm tier > AffiliatesRevSharePpmCap then Inl (Err ''ErrRevShareSafetyViolation'')
      else for_res (check_whitelist_address fromBech32) (aw_Addresses tier) addressSet)"

definition SetAffiliateWhitelist ::
  "(string \<Rightarrow> string res) \<Rightarrow> AffiliateWhitelist_Tier list \<Rightarrow> (affiliate_store, unit) step" where
  "SetAffiliateWhitelist fromBech32 whitelist =
     bindM (liftM (\<lambda>_. for_res (check_whitelist_tier fromBech32) whitelist {}))
       (\<lambda>_. modifyM (\<lambda>s. s\<lparr>af_whitelist := whitelist\<rparr>))"

definition GetAffiliateWhitelistMap :: "affiliate_store \<Rightarrow> (string, uint32) gomap" where
  "GetAffiliateWhitelistMap s =
     fold (\<lambda>tier m. fold (\<lambda>address m. gm_set address (aw_TakerFeeSharePpm tier) m) (aw_Addresses tier) m)
       (af_whitelist s) []"

definition UpdateAffiliateParameters :: "AffiliateParameters \<Rightarrow> affiliate_store \<Rightarrow> affiliate_store" where
  "UpdateAffiliateParameters params s = s\<lparr>af_params := params\<rparr>"

definition SetAffiliateOverrides :: "string list \<Rightarrow> affiliate_store \<Rightarrow> affiliate_store" where
  "SetAffiliateOverrides overrides s = s\<lparr>af_overrides := overrides\<rparr>"

definition GetAffiliateOverridesMap :: "affiliate_store \<Rightarrow> string set" where
  "GetAffiliateOverridesMap s = set (af_overrides s)"

text \<open>The governance messages check the authority first.\<close>

definition with_authority :: "string set \<Rightarrow> string \<Rightarrow> ('s, 'a) step \<Rightarrow> ('s, 'a) step" where
  "with_authority authorities authority m =
     (if authority \<notin> authorities then failM (Err ''invalid authority'') else m)"

definition msg_UpdateAffiliateTiers ::
  "string set \<Rightarrow> string \<Rightarrow> AffiliateTiers_Tier list \<Rightarrow> (affiliate_store, unit) step" where
  "msg_UpdateAffiliateTiers authorities authority tiers =
     with_authority authorities authority (UpdateAffiliateTiers tiers)"

definition msg_UpdateAffiliateWhitelist ::
  "string set \<Rightarrow> (string \<Rightarrow> string res) \<Rightarrow> string \<Rightarrow> AffiliateWhitelist_Tier list \<Rightarrow> (affiliate_store, unit) step" where
  "msg_UpdateAffiliateWhitelist authorities fromBech32 authority whitelist =
     with_authority authorities authority (SetAffiliateWhitelist fromBech32 whitelist)"

definition msg_UpdateAffiliateParameters ::
  "string set \<Rightarrow> string \<Rightarrow> AffiliateParameters \<Rightarrow> (affiliate_store, unit) step" where
  "msg_UpdateAffiliateParameters authorities authority params =
     with_authority authorities authority (modifyM (UpdateAffiliateParameters params))"

definition msg_UpdateAffiliateOverrides ::
  "string set \<Rightarrow> string \<Rightarrow> string list \<Rightarrow> (affiliate_store, unit) step" where
  "msg_UpdateAffiliateOverrides authorities authority overrides =
     with_authority authorities authority (modifyM (SetAffiliateOverrides overrides))"

definition affiliates_InitGenesis ::
  "AffiliateTiers_Tier list \<Rightarrow> AffiliateParameters \<Rightarrow> (affiliate_store, unit) step" where
  "affiliates_InitGenesis tiers params s =
     (case UpdateAffiliateTiers tiers s of
        (Inl e, s') \<Rightarrow> (must (Inl e), s')
      | (Inr _, s') \<Rightarrow> (Inr (), UpdateAffiliateParameters params s'))"

section \<open>Tiers\<close>

text \<open>The search returns the last index of the longest qualified prefix.\<close>

lemma last_qualified_general:
  assumes "index + length tiers < 2 ^ 32"
  shows "last_qualified ok index cur tiers =
     (let n = length (takeWhile ok tiers) in if n = 0 then cur else of_nat (index + n - 1))"
  using assms
proof (induction ok index cur tiers rule: last_qualified.induct)
  case (2 ok index cur tier tiers)
  then show ?case by (cases "ok tier") (auto simp: Let_def)
qed simp

lemma last_qualified_index:
  assumes "length tiers < 2 ^ 32"
  shows "unat (last_qualified ok 0 0 tiers) = length (takeWhile ok tiers) - 1"
proof -
  have "length (takeWhile ok tiers) - 1 < 2 ^ 32"
    using assms length_takeWhile_le[of ok tiers] by linarith
  then show ?thesis
    using last_qualified_general[of 0 tiers ok 0] assms by (simp add: Let_def unat_of_nat take_bit_nat_eq_self)
qed

text \<open>Strictly increasing requirements: what the update of tiers checks.\<close>

lemma check_affiliate_tiers_ok:
  "check_affiliate_tiers prev tiers = Inr () \<longleftrightarrow>
     sorted_wrt (<) (map at_ReqReferredVolumeQuoteQuantums (prev # tiers)) \<and>
     (\<forall>t \<in> set tiers. at_TakerFeeSharePpm t \<le> AffiliatesRevSharePpmCap)"
proof (induction tiers arbitrary: prev)
  case (Cons t ts)
  then show ?case by (auto simp: not_le not_less)
qed simp

text \<open>
  After governance has set affiliate tiers, an affiliate that is not overridden gets the highest
  tier whose required referred volume it has reached (a tier above the first one is reached exactly
  when its index is at most the returned one), with that tier's fee share; above the first tier the
  share never exceeds the cap of 50 percent. Rejected tiers leave the store unchanged.
\<close>

theorem affiliate_tier_highest_reached:
  assumes "length tiers < 2 ^ 32" "tiers \<noteq> []" "case overrides of None \<Rightarrow> True | Some m \<Rightarrow> addr \<notin> m"
  shows "case UpdateAffiliateTiers tiers s of
      (Inl e, s') \<Rightarrow> s' = s
    | (Inr _, s') \<Rightarrow> \<exists>n < length tiers. GetTierForAffiliate s' stats addr overrides =
          (of_nat n, at_TakerFeeSharePpm (tiers ! n)) \<and>
        (\<forall>j < length tiers. 0 < j \<longrightarrow> (at_ReqReferredVolumeQuoteQuantums (tiers ! j)
            \<le> us_Affiliate_30DReferredVolumeQuoteQuantums (GetUserStats stats addr)) = (j \<le> n)) \<and>
        (0 < n \<longrightarrow> at_TakerFeeSharePpm (tiers ! n) \<le> AffiliatesRevSharePpmCap)"
proof -
  obtain t ts where tiers: "tiers = t # ts" using assms(2) by (cases tiers) auto
  let ?v = "us_Affiliate_30DReferredVolumeQuoteQuantums (GetUserStats stats addr)"
  let ?ok = "\<lambda>tier. at_ReqReferredVolumeQuoteQuantums tier \<le> ?v"
  let ?k = "length (takeWhile ?ok tiers)"
  show ?thesis
  proof (cases "check_affiliate_tiers t ts")
    case (Inl e)
    then show ?thesis by (simp add: UpdateAffiliateTiers_def tiers bindM_def liftM_def)
  next
    case (Inr u)
    then have sorted: "sorted_wrt (<) (map at_ReqReferredVolumeQuoteQuantums tiers)"
      and cap: "\<forall>t \<in> set ts. at_TakerFeeSharePpm t \<le> AffiliatesRevSharePpmCap"
      using check_affiliate_tiers_ok[of t ts] by (simp_all add: tiers)
    have mono: "i < j \<Longrightarrow> j < length tiers \<Longrightarrow>
        at_ReqReferredVolumeQuoteQuantums (tiers ! i) < at_ReqReferredVolumeQuoteQuantums (tiers ! j)" for i j
      using sorted_wrt_nth_less[OF sorted, of i j] by simp
    have k: "?k \<le> length tiers" by (rule length_takeWhile_le)
    have reached: "?ok (tiers ! j) \<longleftrightarrow> j < ?k" if "j < length tiers" for j
    proof
      assume "j < ?k" then show "?ok (tiers ! j)" by (metis nth_mem set_takeWhileD takeWhile_nth)
    next
      assume ok: "?ok (tiers ! j)"
      show "j < ?k"
      proof (rule ccontr)
        assume "\<not> j < ?k"
        then have "?k < length tiers" "?k \<le> j" using that by simp_all
        moreover have "\<not> ?ok (tiers ! ?k)" using nth_length_takeWhile[of ?ok tiers] \<open>?k < length tiers\<close> by simp
        ultimately show False using mono[of ?k j] ok that by (cases "?k = j") auto
      qed
    qed
    have "?k < 2 ^ 32" using k assms(1) by linarith
    have index: "unat (last_qualified ?ok 0 0 tiers) = ?k - 1" by (rule last_qualified_index[OF assms(1)])
    then have level: "last_qualified ?ok 0 0 tiers = of_nat (?k - 1)"
      unfolding index[symmetric] by simp
    have run: "UpdateAffiliateTiers tiers s = (Inr (), s\<lparr>af_tiers := tiers\<rparr>)"
      using Inr by (simp add: UpdateAffiliateTiers_def tiers bindM_def liftM_def modifyM_def)
    have last: "?k - 1 < length tiers" using k assms(2) by (cases ?k) auto
    moreover have "GetTierForAffiliate (s\<lparr>af_tiers := tiers\<rparr>) stats addr overrides =
        (of_nat (?k - 1), at_TakerFeeSharePpm (tiers ! (?k - 1)))"
      using assms(2,3) index level
      by (simp add: GetTierForAffiliate_def Let_def word_less_def[symmetric] not_less split: option.splits)
    moreover have "0 < ?k - 1 \<Longrightarrow> at_TakerFeeSharePpm (tiers ! (?k - 1)) \<le> AffiliatesRevSharePpmCap"
      using cap last
      by (metis Suc_less_eq Suc_pred gr0_conv_Suc length_Cons nth_Cons_Suc nth_mem tiers)
    moreover have "?ok (tiers ! j) = (j \<le> ?k - 1)" if "j < length tiers" "0 < j" for j
      using reached[OF that(1)] that(2) by auto
    ultimately show ?thesis unfolding run by auto
  qed
qed

text \<open>The default tiers of the chain.\<close>

definition DefaultAffiliateTiers :: "AffiliateTiers_Tier list" where
  "DefaultAffiliateTiers =
     [\<lparr>at_ReqReferredVolumeQuoteQuantums = 0, at_ReqStakedWholeCoins = 0, at_TakerFeeSharePpm = 50000\<rparr>,
      \<lparr>at_ReqReferredVolumeQuoteQuantums = 1000000000000, at_ReqStakedWholeCoins = 200, at_TakerFeeSharePpm = 100000\<rparr>,
      \<lparr>at_ReqReferredVolumeQuoteQuantums = 5000000000000, at_ReqStakedWholeCoins = 1000, at_TakerFeeSharePpm = 125000\<rparr>,
      \<lparr>at_ReqReferredVolumeQuoteQuantums = 25000000000000, at_ReqStakedWholeCoins = 5000, at_TakerFeeSharePpm = 150000\<rparr>,
      \<lparr>at_ReqReferredVolumeQuoteQuantums = 50000000000000, at_ReqStakedWholeCoins = 100000000, at_TakerFeeSharePpm = 250000\<rparr>]"

definition ex_affiliates :: affiliate_store where
  "ex_affiliates = \<lparr>af_referredBy = (\<lambda>_. None), af_tiers = [], af_overrides = [], af_whitelist = [],
     af_params = \<lparr>ap_Maximum_30DAttributableVolume = 0, ap_RefereeMinimumFeeTierIdx = 2,
       ap_Maximum_30DAffiliateRevenue = 0\<rparr>, af_events = []\<rparr>"

theorem affiliate_tier_highest_reached_witness:
  "\<exists>n < 5. \<exists>s'. UpdateAffiliateTiers DefaultAffiliateTiers ex_affiliates = (Inr (), s') \<and>
     GetTierForAffiliate s' ex_stats ''carl'' None = (of_nat n, at_TakerFeeSharePpm (DefaultAffiliateTiers ! n))"
proof -
  have "UpdateAffiliateTiers DefaultAffiliateTiers ex_affiliates = (Inr (), ex_affiliates\<lparr>af_tiers := DefaultAffiliateTiers\<rparr>)"
    by (simp add: UpdateAffiliateTiers_def DefaultAffiliateTiers_def AffiliatesRevSharePpmCap_def bindM_def liftM_def modifyM_def)
  moreover have "length DefaultAffiliateTiers = 5" "DefaultAffiliateTiers \<noteq> []" by (simp_all add: DefaultAffiliateTiers_def)
  ultimately show ?thesis
    using affiliate_tier_highest_reached[where tiers = DefaultAffiliateTiers and overrides = None and addr = "''carl''" and s = ex_affiliates and stats = ex_stats]
    by auto
qed

end
