(* ===== verification/RevShare.thy ===== *)
theory RevShare
  imports Affiliates BigMath
begin

text \<open>
  \<^verbatim>\<open>x/revshare\<close> (\<^verbatim>\<open>keeper/revshare.go\<close>, the message handlers, \<^verbatim>\<open>types/\<close>) and \<^verbatim>\<open>x/feetiers\<close> (\<^verbatim>\<open>keeper/keeper.go\<close>,
  \<^verbatim>\<open>params.go\<close>, \<^verbatim>\<open>per_market_fee_discount.go\<close>, \<^verbatim>\<open>staking_tier.go\<close>, \<^verbatim>\<open>types/\<close>): how the fees of a fill are shared
  and how the fee of a trader is computed. The two keepers call each other, so both stores are
  here. The bech32 codec of the SDK is a pair of function arguments.
\<close>

section \<open>Definitions: revenue shares\<close>

datatype RevShareFeeSource =
    REV_SHARE_FEE_SOURCE_UNSPECIFIED | REV_SHARE_FEE_SOURCE_NET_PROTOCOL_REVENUE
  | REV_SHARE_FEE_SOURCE_TAKER_FEE | REV_SHARE_FEE_SOURCE_MAKER_FEE

datatype RevShareType =
    REV_SHARE_TYPE_UNSPECIFIED | REV_SHARE_TYPE_MARKET_MAPPER | REV_SHARE_TYPE_UNCONDITIONAL
  | REV_SHARE_TYPE_AFFILIATE | REV_SHARE_TYPE_ORDER_ROUTER

record RevShare =
  rs_Recipient :: string
  rs_RevShareFeeSource :: RevShareFeeSource
  rs_RevShareType :: RevShareType
  rs_QuoteQuantums :: int
  rs_RevSharePpm :: uint32

record RevSharesForFill =
  rf_AffiliateRevShare :: "RevShare option"
  rf_FeeSourceToQuoteQuantums :: "RevShareFeeSource \<Rightarrow> int option"
  rf_FeeSourceToRevSharePpm :: "RevShareFeeSource \<Rightarrow> uint32 option"
  rf_AllRevShares :: "RevShare list"

record FillForProcess =
  fp_TakerAddr :: string
  fp_TakerFeeQuoteQuantums :: int
  fp_MakerAddr :: string
  fp_MakerFeeQuoteQuantums :: int
  fp_FillQuoteQuantums :: int
  fp_ProductId :: uint32
  fp_MonthlyRollingTakerVolumeQuantums :: uint64
  fp_MarketId :: uint32
  fp_TakerOrderRouterAddr :: string
  fp_MakerOrderRouterAddr :: string

record MarketMapperRevenueShareParams =
  mm_Address :: string
  mm_RevenueSharePpm :: uint32
  mm_ValidDays :: uint32

record UnconditionalRevShare =
  ur_Address :: string
  ur_SharePpm :: uint32

record revshare_store =
  rv_marketMapperParams :: MarketMapperRevenueShareParams
  rv_marketMapperDetails :: "uint32 \<Rightarrow> uint64 option"
  rv_unconditional :: "UnconditionalRevShare list"
  rv_orderRouter :: "string \<Rightarrow> uint32 option"

definition MaxReferee30dVolumeForAffiliateShareQuantums :: uint64 where
  "MaxReferee30dVolumeForAffiliateShareQuantums = 50000000000000"

definition MarketMapperRevenueShareParams_Validate ::
  "(string \<Rightarrow> string res) \<Rightarrow> MarketMapperRevenueShareParams \<Rightarrow> unit res" where
  "MarketMapperRevenueShareParams_Validate fromBech32 p =
     (case fromBech32 (mm_Address p) of
        Inl _ \<Rightarrow> Inl (Err ''ErrInvalidAddress'')
      | Inr _ \<Rightarrow> if mm_RevenueSharePpm p \<ge> 1000000 then Inl (Err ''ErrInvalidRevenueSharePpm'') else Inr ())"

definition SetMarketMapperRevenueShareParams ::
  "(string \<Rightarrow> string res) \<Rightarrow> MarketMapperRevenueShareParams \<Rightarrow> (revshare_store, unit) step" where
  "SetMarketMapperRevenueShareParams fromBech32 params =
     bindM (liftM (\<lambda>_. MarketMapperRevenueShareParams_Validate fromBech32 params))
       (\<lambda>_. modifyM (\<lambda>s. s\<lparr>rv_marketMapperParams := params\<rparr>))"

definition SetMarketMapperRevShareDetails :: "uint32 \<Rightarrow> uint64 \<Rightarrow> revshare_store \<Rightarrow> revshare_store" where
  "SetMarketMapperRevShareDetails marketId expirationTs s =
     s\<lparr>rv_marketMapperDetails := (rv_marketMapperDetails s)(marketId \<mapsto> expirationTs)\<rparr>"

definition GetMarketMapperRevShareDetails :: "revshare_store \<Rightarrow> uint32 \<Rightarrow> uint64 res" where
  "GetMarketMapperRevShareDetails s marketId =
     (case rv_marketMapperDetails s marketId of
        None \<Rightarrow> Inl (Err ''ErrMarketMapperRevShareDetailsNotFound'') | Some ts \<Rightarrow> Inr ts)"

text \<open>The product of days and seconds is a 32-bit product.\<close>

definition CreateNewMarketRevShare :: "block_ctx \<Rightarrow> uint32 \<Rightarrow> revshare_store \<Rightarrow> revshare_store" where
  "CreateNewMarketRevShare ctx marketId s =
     (let validDurationSeconds = (ucast (mm_ValidDays (rv_marketMapperParams s) * 24 * 60 * 60) :: int64)
      in SetMarketMapperRevShareDetails marketId (Unix (ctx_BlockTime ctx) + validDurationSeconds) s)"

text \<open>A nil address is the empty string.\<close>

definition GetMarketMapperRevenueShareForMarket ::
  "(string \<Rightarrow> string res) \<Rightarrow> block_ctx \<Rightarrow> revshare_store \<Rightarrow> uint32 \<Rightarrow> (string \<times> uint32) res" where
  "GetMarketMapperRevenueShareForMarket fromBech32 ctx s marketId =
     bindr (GetMarketMapperRevShareDetails s marketId) (\<lambda>expirationTs.
       if expirationTs < (Unix (ctx_BlockTime ctx) :: uint64) then Inr ('''', 0)
       else let revShareParams = rv_marketMapperParams s
            in bindr (fromBech32 (mm_Address revShareParams)) (\<lambda>revShareAddr.
                 Inr (revShareAddr, mm_RevenueSharePpm revShareParams)))"

definition GetOrderRouterRevShare ::
  "(string \<Rightarrow> string res) \<Rightarrow> revshare_store \<Rightarrow> string \<Rightarrow> uint32 res" where
  "GetOrderRouterRevShare fromBech32 s orderRouterAddr =
     (if orderRouterAddr = '''' then Inr 0
      else case fromBech32 orderRouterAddr of
        Inl _ \<Rightarrow> Inl (Err ''ErrInvalidAddress'')
      | Inr addr \<Rightarrow> (case rv_orderRouter s addr of
                      None \<Rightarrow> Inl (Err ''ErrOrderRouterRevShareNotFound'') | Some ppm \<Rightarrow> Inr ppm))"

definition SetOrderRouterRevShare ::
  "(string \<Rightarrow> string res) \<Rightarrow> string \<Rightarrow> uint32 \<Rightarrow> (revshare_store, unit) step" where
  "SetOrderRouterRevShare fromBech32 orderRouterAddr revSharePpm s =
     (case fromBech32 orderRouterAddr of
        Inl _ \<Rightarrow> (Inl (Err ''ErrInvalidAddress''), s)
      | Inr addr \<Rightarrow> (Inr (), s\<lparr>rv_orderRouter := (rv_orderRouter s)(addr \<mapsto> revSharePpm)\<rparr>))"

definition SetUnconditionalRevShareConfigParams :: "UnconditionalRevShare list \<Rightarrow> revshare_store \<Rightarrow> revshare_store" where
  "SetUnconditionalRevShareConfigParams config s = s\<lparr>rv_unconditional := config\<rparr>"

text \<open>The sum of the shares wraps at 32 bits; the fees are cast to unsigned before they are added.\<close>

definition ValidateRevShareSafety ::
  "UnconditionalRevShare list \<Rightarrow> MarketMapperRevenueShareParams \<Rightarrow> int32 \<Rightarrow> int32 \<Rightarrow> bool" where
  "ValidateRevShareSafety unconditionalRevShareConfig marketMapperRevShareParams lowestTakerFeePpm lowestMakerFeePpm =
     (let totalUnconditionalRevSharePpm = sum_list (map ur_SharePpm unconditionalRevShareConfig);
          totalMarketMapperRevSharePpm = mm_RevenueSharePpm marketMapperRevShareParams
      in if totalUnconditionalRevSharePpm + totalMarketMapperRevSharePpm \<ge> OneMillion then False
         else let bigNetFee = uint (scast lowestTakerFeePpm + scast lowestMakerFeePpm :: uint64);
                  cap = BigMulPpm (sint lowestTakerFeePpm) (uint AffiliatesRevSharePpmCap) True
              in bigNetFee \<ge> cap)"

definition getAffiliateRevShares ::
  "affiliate_store \<Rightarrow> stats_store \<Rightarrow> FillForProcess \<Rightarrow> string set option \<Rightarrow> AffiliateParameters
   \<Rightarrow> RevShare list \<times> int" where
  "getAffiliateRevShares affs stats fill affiliateOverrides affiliateParams =
     (let takerAddr = fp_TakerAddr fill; takerFee = fp_TakerFeeQuoteQuantums fill
      in if fp_MonthlyRollingTakerVolumeQuantums fill \<ge> MaxReferee30dVolumeForAffiliateShareQuantums \<or> takerFee = 0
         then ([], 0)
         else let revenueGenerated = us_Affiliate_30DRevenueGeneratedQuantums (GetUserStats stats takerAddr);
                  cap = ap_Maximum_30DAffiliateRevenue affiliateParams
              in if cap \<noteq> 0 \<and> revenueGenerated \<ge> cap then ([], 0)
                 else case GetTakerFeeShare affs stats takerAddr affiliateOverrides of
                   None \<Rightarrow> ([], 0)
                 | Some (takerAffiliateAddr, feeSharePpm) \<Rightarrow>
                     let feesShared = BigMulPpm takerFee (uint feeSharePpm) False;
                         feesShared = (if cap \<noteq> 0
                                       then let maxFee = uint (cap - revenueGenerated)
                                            in if feesShared > maxFee then maxFee else feesShared
                                       else feesShared)
                     in ([\<lparr>rs_Recipient = takerAffiliateAddr, rs_RevShareFeeSource = REV_SHARE_FEE_SOURCE_TAKER_FEE,
                           rs_RevShareType = REV_SHARE_TYPE_AFFILIATE, rs_QuoteQuantums = feesShared,
                           rs_RevSharePpm = feeSharePpm\<rparr>], feesShared))"

definition taker_router_shares ::
  "(string \<Rightarrow> string res) \<Rightarrow> revshare_store \<Rightarrow> FillForProcess \<Rightarrow> int \<Rightarrow> int \<Rightarrow> RevShare list" where
  "taker_router_shares fromBech32 s fill takerFees makerFees =
     (case GetOrderRouterRevShare fromBech32 s (fp_TakerOrderRouterAddr fill) of
        Inl _ \<Rightarrow> []
      | Inr takerOrderRouterRevSharePpm \<Rightarrow>
          if fp_TakerOrderRouterAddr fill \<noteq> ''''
          then let takerFeesSide = BigMin takerFees (takerFees + makerFees)
               in [\<lparr>rs_Recipient = fp_TakerOrderRouterAddr fill, rs_RevShareFeeSource = REV_SHARE_FEE_SOURCE_TAKER_FEE,
                    rs_RevShareType = REV_SHARE_TYPE_ORDER_ROUTER,
                    rs_QuoteQuantums = BigMulPpm (uint takerOrderRouterRevSharePpm) takerFeesSide False,
                    rs_RevSharePpm = takerOrderRouterRevSharePpm\<rparr>]
          else [])"

definition maker_router_shares ::
  "(string \<Rightarrow> string res) \<Rightarrow> revshare_store \<Rightarrow> FillForProcess \<Rightarrow> int \<Rightarrow> RevShare list" where
  "maker_router_shares fromBech32 s fill makerFees =
     (case GetOrderRouterRevShare fromBech32 s (fp_MakerOrderRouterAddr fill) of
        Inl _ \<Rightarrow> []
      | Inr makerOrderRouterRevSharePpm \<Rightarrow>
          if fp_MakerOrderRouterAddr fill \<noteq> ''''
          then let makerFeeSide = BigMax 0 makerFees
               in [\<lparr>rs_Recipient = fp_MakerOrderRouterAddr fill, rs_RevShareFeeSource = REV_SHARE_FEE_SOURCE_MAKER_FEE,
                    rs_RevShareType = REV_SHARE_TYPE_ORDER_ROUTER,
                    rs_QuoteQuantums = BigMulPpm makerFeeSide (uint makerOrderRouterRevSharePpm) False,
                    rs_RevSharePpm = makerOrderRouterRevSharePpm\<rparr>]
          else [])"

definition getOrderRouterRevShares ::
  "(string \<Rightarrow> string res) \<Rightarrow> revshare_store \<Rightarrow> FillForProcess \<Rightarrow> int \<Rightarrow> int \<Rightarrow> RevShare list" where
  "getOrderRouterRevShares fromBech32 s fill takerFees makerFees =
     (if fp_TakerOrderRouterAddr fill = '''' \<and> fp_MakerOrderRouterAddr fill = '''' then []
      else taker_router_shares fromBech32 s fill takerFees makerFees
           @ maker_router_shares fromBech32 s fill makerFees)"

definition getUnconditionalRevShares :: "revshare_store \<Rightarrow> int \<Rightarrow> RevShare list" where
  "getUnconditionalRevShares s netFeesSubAffiliateFeesShared =
     map (\<lambda>c. \<lparr>rs_Recipient = ur_Address c, rs_RevShareFeeSource = REV_SHARE_FEE_SOURCE_NET_PROTOCOL_REVENUE,
              rs_RevShareType = REV_SHARE_TYPE_UNCONDITIONAL,
              rs_QuoteQuantums = BigMulPpm netFeesSubAffiliateFeesShared (uint (ur_SharePpm c)) False,
              rs_RevSharePpm = ur_SharePpm c\<rparr>) (rv_unconditional s)"

definition getMarketMapperRevShare ::
  "(string \<Rightarrow> string res) \<Rightarrow> (string \<Rightarrow> string) \<Rightarrow> block_ctx \<Rightarrow> revshare_store \<Rightarrow> uint32 \<Rightarrow> int \<Rightarrow> RevShare list res" where
  "getMarketMapperRevShare fromBech32 toBech32 ctx s marketId netFeesSubAffiliateFeesShared =
     bindr (GetMarketMapperRevenueShareForMarket fromBech32 ctx s marketId) (\<lambda>(addr, revenueSharePpm).
       if revenueSharePpm = 0 then Inr []
       else Inr [\<lparr>rs_Recipient = toBech32 addr, rs_RevShareFeeSource = REV_SHARE_FEE_SOURCE_NET_PROTOCOL_REVENUE,
                  rs_RevShareType = REV_SHARE_TYPE_MARKET_MAPPER,
                  rs_QuoteQuantums = BigMulPpm netFeesSubAffiliateFeesShared (uint revenueSharePpm) False,
                  rs_RevSharePpm = revenueSharePpm\<rparr>])"

definition empty_RevSharesForFill :: RevSharesForFill where
  "empty_RevSharesForFill = \<lparr>rf_AffiliateRevShare = None, rf_FeeSourceToQuoteQuantums = (\<lambda>_. None),
     rf_FeeSourceToRevSharePpm = (\<lambda>_. None), rf_AllRevShares = []\<rparr>"

text \<open>The loop that sums the shares: in total, per fee source, and the ppm per fee source. Writing
  to a fee source that is not in the map is a nil dereference.\<close>

definition tally ::
  "RevShare \<Rightarrow> int \<times> (RevShareFeeSource \<Rightarrow> int option) \<times> (RevShareFeeSource \<Rightarrow> uint32 option)
   \<Rightarrow> (int \<times> (RevShareFeeSource \<Rightarrow> int option) \<times> (RevShareFeeSource \<Rightarrow> uint32 option)) res" where
  "tally revShare st =
     (case st of (totalFeesShared, quantums, ppm) \<Rightarrow>
      let src = rs_RevShareFeeSource revShare
      in case quantums src of
           None \<Rightarrow> Inl (Panic ''nil pointer dereference'')
         | Some q \<Rightarrow> Inr (totalFeesShared + rs_QuoteQuantums revShare,
             quantums(src \<mapsto> q + rs_QuoteQuantums revShare),
             ppm(src \<mapsto> (case ppm src of None \<Rightarrow> 0 | Some p \<Rightarrow> p) + rs_RevSharePpm revShare)))"

definition GetAllRevShares ::
  "(string \<Rightarrow> string res) \<Rightarrow> (string \<Rightarrow> string) \<Rightarrow> block_ctx \<Rightarrow> revshare_store \<Rightarrow> affiliate_store \<Rightarrow> stats_store
   \<Rightarrow> FillForProcess \<Rightarrow> string set option \<Rightarrow> AffiliateParameters \<Rightarrow> RevSharesForFill res" where
  "GetAllRevShares fromBech32 toBech32 ctx s affs stats fill affiliateOverrides affiliateParameters =
     (let zeros = (\<lambda>_. None)(REV_SHARE_FEE_SOURCE_TAKER_FEE \<mapsto> 0, REV_SHARE_FEE_SOURCE_NET_PROTOCOL_REVENUE \<mapsto> 0,
                    REV_SHARE_FEE_SOURCE_MAKER_FEE \<mapsto> 0);
          ppms = (\<lambda>_. None)(REV_SHARE_FEE_SOURCE_TAKER_FEE \<mapsto> 0, REV_SHARE_FEE_SOURCE_NET_PROTOCOL_REVENUE \<mapsto> 0,
                    REV_SHARE_FEE_SOURCE_MAKER_FEE \<mapsto> 0);
          takerFees = fp_TakerFeeQuoteQuantums fill;
          makerFees = fp_MakerFeeQuoteQuantums fill;
          netFees = takerFees + makerFees
      in if netFees = 0 then Inr empty_RevSharesForFill
         else let (affiliateRevShares, affiliateFeesShared) =
                    getAffiliateRevShares affs stats fill affiliateOverrides affiliateParameters;
                  orderRouterRevShares = (if length affiliateRevShares = 0
                    then getOrderRouterRevShares fromBech32 s fill takerFees makerFees else []);
                  netFeesSubRevenueShare = (if length affiliateRevShares = 0
                    then fold (\<lambda>r n. n - rs_QuoteQuantums r) orderRouterRevShares netFees
                    else netFees - affiliateFeesShared)
              in if netFeesSubRevenueShare \<le> 0
                 then Inl (Err ''ErrAffiliateFeesSharedGreaterThanOrEqualToNetFees'')
                 else let unconditionalRevShares = getUnconditionalRevShares s netFeesSubRevenueShare
                      in bindr (getMarketMapperRevShare fromBech32 toBech32 ctx s (fp_MarketId fill) netFeesSubRevenueShare)
                        (\<lambda>marketMapperRevShares.
                          let revShares = affiliateRevShares @ orderRouterRevShares
                                @ unconditionalRevShares @ marketMapperRevShares
                          in bindr (for_res tally revShares (0, zeros, ppms)) (\<lambda>(totalFeesShared, quantums, ppm).
                               if totalFeesShared > netFees then Inl (Err ''ErrTotalFeesSharedExceedsNetFees'')
                               else Inr \<lparr>rf_AffiliateRevShare = (case affiliateRevShares of [] \<Rightarrow> None | r # _ \<Rightarrow> Some r),
                                 rf_FeeSourceToQuoteQuantums = quantums, rf_FeeSourceToRevSharePpm = ppm,
                                 rf_AllRevShares = revShares\<rparr>)))"

section \<open>Definitions: fee tiers\<close>

record PerpetualFeeTier =
  ft_Name :: string
  ft_AbsoluteVolumeRequirement :: uint64
  ft_TotalVolumeShareRequirementPpm :: uint32
  ft_MakerVolumeShareRequirementPpm :: uint32
  ft_MakerFeePpm :: int32
  ft_TakerFeePpm :: int32

record PerMarketFeeDiscountParams =
  fd_ClobPairId :: uint32
  fd_StartTime :: int
  fd_EndTime :: int
  fd_ChargePpm :: uint32

record StakingLevel =
  sl_MinStakedBaseTokens :: int
  sl_FeeDiscountPpm :: uint32

record StakingTier =
  stt_FeeTierName :: string
  stt_Levels :: "StakingLevel list"

record fee_store =
  fe_tiers :: "PerpetualFeeTier list"
  fe_discounts :: "(uint32, PerMarketFeeDiscountParams) gomap"
  fe_stakingTiers :: "(string, StakingTier) gomap"

definition MaxChargePpm :: uint32 where
  "MaxChargePpm = 1000000"

definition MaxFeeDiscountDuration :: int where
  "MaxFeeDiscountDuration = 90 * 24 * 60 * 60"

definition RefereeStartingFeeTier :: uint32 where
  "RefereeStartingFeeTier = 2"

definition MaxInt32 :: int32 where
  "MaxInt32 = 2147483647"

definition min_int32 :: "int32 \<Rightarrow> int32 \<Rightarrow> int32" where
  "min_int32 a b = (if sint b < sint a then b else a)"

definition GetLowestMakerFeeFromTiers :: "PerpetualFeeTier list \<Rightarrow> int32" where
  "GetLowestMakerFeeFromTiers tiers =
     fold (\<lambda>tier lowest. if sint (ft_MakerFeePpm tier) < sint lowest then ft_MakerFeePpm tier else lowest) tiers MaxInt32"

definition lowest_taker_fee :: "PerpetualFeeTier list \<Rightarrow> int32" where
  "lowest_taker_fee tiers =
     fold (\<lambda>tier lowest. if sint (ft_TakerFeePpm tier) < sint lowest then ft_TakerFeePpm tier else lowest) tiers MaxInt32"

definition tier_out_of_order :: "PerpetualFeeTier \<Rightarrow> PerpetualFeeTier \<Rightarrow> bool" where
  "tier_out_of_order prevTier currTier =
     (ft_AbsoluteVolumeRequirement prevTier > ft_AbsoluteVolumeRequirement currTier
      \<or> ft_TotalVolumeShareRequirementPpm prevTier > ft_TotalVolumeShareRequirementPpm currTier
      \<or> ft_MakerVolumeShareRequirementPpm prevTier > ft_MakerVolumeShareRequirementPpm currTier)"

definition PerpetualFeeParams_Validate :: "PerpetualFeeTier list \<Rightarrow> unit res" where
  "PerpetualFeeParams_Validate tiers =
     (case tiers of
        [] \<Rightarrow> Inl (Err ''ErrNoTiersExist'')
      | first # rest \<Rightarrow>
          if ft_AbsoluteVolumeRequirement first \<noteq> 0 \<or> ft_TotalVolumeShareRequirementPpm first \<noteq> 0
             \<or> ft_MakerVolumeShareRequirementPpm first \<noteq> 0
          then Inl (Err ''ErrInvalidFirstTierRequirements'')
          else if list_ex (\<lambda>(p, c). tier_out_of_order p c) (zip tiers rest) then Inl (Err ''ErrTiersOutOfOrder'')
          else if sint (scast (GetLowestMakerFeeFromTiers tiers) + scast (lowest_taker_fee tiers) :: int64) < 0
          then Inl (Err ''ErrInvalidFee'')
          else Inr ())"

fun affiliate_referee_taker_fee :: "int32 \<Rightarrow> PerpetualFeeTier list \<Rightarrow> int32" where
  "affiliate_referee_taker_fee takerFeePpm [] = takerFeePpm"
| "affiliate_referee_taker_fee takerFeePpm (tier # tiers) =
     (if ft_AbsoluteVolumeRequirement tier < MaxReferee30dVolumeForAffiliateShareQuantums
      then affiliate_referee_taker_fee (ft_TakerFeePpm tier) tiers else takerFeePpm)"

definition GetAffiliateRefereeLowestTakerFeeFromTiers :: "PerpetualFeeTier list \<Rightarrow> int32" where
  "GetAffiliateRefereeLowestTakerFeeFromTiers tiers =
     (let takerFeePpm = affiliate_referee_taker_fee MaxInt32 tiers
      in if (of_nat (length tiers) :: uint32) > RefereeStartingFeeTier
         then min_int32 takerFeePpm (ft_TakerFeePpm (tiers ! unat RefereeStartingFeeTier))
         else takerFeePpm)"

definition SetPerpetualFeeParams :: "revshare_store \<Rightarrow> PerpetualFeeTier list \<Rightarrow> (fee_store, unit) step" where
  "SetPerpetualFeeParams rv tiers =
     bindM (liftM (\<lambda>_. PerpetualFeeParams_Validate tiers)) (\<lambda>_.
       if \<not> ValidateRevShareSafety (rv_unconditional rv) (rv_marketMapperParams rv)
            (GetAffiliateRefereeLowestTakerFeeFromTiers tiers) (GetLowestMakerFeeFromTiers tiers)
       then failM (Err ''ErrRevShareSafetyViolation'')
       else modifyM (\<lambda>s. s\<lparr>fe_tiers := tiers\<rparr>))"

definition PerMarketFeeDiscountParams_Validate :: "int \<Rightarrow> PerMarketFeeDiscountParams \<Rightarrow> unit res" where
  "PerMarketFeeDiscountParams_Validate currentTime m =
     (if \<not> fd_StartTime m < fd_EndTime m then Inl (Err ''ErrInvalidTimeRange'')
      else if fd_EndTime m - fd_StartTime m > MaxFeeDiscountDuration * 1000000000 then Inl (Err ''ErrInvalidTimeRange'')
      else if fd_ChargePpm m > MaxChargePpm then Inl (Err ''ErrInvalidChargePpm'')
      else if \<not> fd_EndTime m > currentTime then Inl (Err ''ErrInvalidTimeRange'')
      else Inr ())"

definition GetPerMarketFeeDiscountParams :: "fee_store \<Rightarrow> uint32 \<Rightarrow> PerMarketFeeDiscountParams res" where
  "GetPerMarketFeeDiscountParams s clobPairId =
     (case gm_get (fe_discounts s) clobPairId of None \<Rightarrow> Inl (Err ''ErrMarketFeeDiscountNotFound'') | Some p \<Rightarrow> Inr p)"

definition SetPerMarketFeeDiscountParams :: "block_ctx \<Rightarrow> PerMarketFeeDiscountParams \<Rightarrow> (fee_store, unit) step" where
  "SetPerMarketFeeDiscountParams ctx params =
     bindM (liftM (\<lambda>_. PerMarketFeeDiscountParams_Validate (ctx_BlockTime ctx) params))
       (\<lambda>_. modifyM (\<lambda>s. s\<lparr>fe_discounts := gm_set (fd_ClobPairId params) params (fe_discounts s)\<rparr>))"

definition GetAllMarketFeeDiscountParams :: "fee_store \<Rightarrow> PerMarketFeeDiscountParams list" where
  "GetAllMarketFeeDiscountParams s = gm_vals (fe_discounts s)"

definition GetDiscountedPpm :: "block_ctx \<Rightarrow> fee_store \<Rightarrow> uint32 \<Rightarrow> uint32" where
  "GetDiscountedPpm ctx s clobPairId =
     (case GetPerMarketFeeDiscountParams s clobPairId of
        Inl _ \<Rightarrow> MaxChargePpm
      | Inr marketDiscount \<Rightarrow>
          if fd_StartTime marketDiscount \<le> ctx_BlockTime ctx \<and> ctx_BlockTime ctx < fd_EndTime marketDiscount
          then fd_ChargePpm marketDiscount else MaxChargePpm)"

fun check_staking_levels :: "int option \<Rightarrow> StakingLevel list \<Rightarrow> unit res" where
  "check_staking_levels prevMinStaked [] = Inr ()"
| "check_staking_levels prevMinStaked (level # levels) =
     (let minStaked = sl_MinStakedBaseTokens level
      in if minStaked < 0 then Inl (Err ''min staked tokens cannot be negative'')
         else if (case prevMinStaked of None \<Rightarrow> False | Some p \<Rightarrow> minStaked \<le> p)
         then Inl (Err ''staking levels must be in increasing order'')
         else if sl_FeeDiscountPpm level > 1000000 then Inl (Err ''fee discount cannot exceed 100%'')
         else check_staking_levels (Some minStaked) levels)"

definition check_staking_tier :: "StakingTier \<Rightarrow> string set \<Rightarrow> string set res" where
  "check_staking_tier tier seenTiers =
     (if stt_FeeTierName tier = '''' then Inl (Err ''fee tier name cannot be empty'')
      else if stt_FeeTierName tier \<in> seenTiers then Inl (Err ''duplicate staking tier'')
      else bindr (check_staking_levels None (stt_Levels tier)) (\<lambda>_. Inr (insert (stt_FeeTierName tier) seenTiers)))"

definition validateStakingTiers :: "fee_store \<Rightarrow> StakingTier list \<Rightarrow> unit res" where
  "validateStakingTiers s stakingTiers =
     bindr (for_res check_staking_tier stakingTiers {}) (\<lambda>_.
       if list_all (\<lambda>t. stt_FeeTierName t \<in> ft_Name ` set (fe_tiers s)) stakingTiers then Inr ()
       else Inl (Err ''fee tier does not exist''))"

definition SetStakingTiers :: "StakingTier list \<Rightarrow> (fee_store, unit) step" where
  "SetStakingTiers stakingTiers =
     bindM (liftM (\<lambda>s. validateStakingTiers s stakingTiers))
       (\<lambda>_. modifyM (\<lambda>s. s\<lparr>fe_stakingTiers := fold (\<lambda>t m. gm_set (stt_FeeTierName t) t m) stakingTiers []\<rparr>))"

definition GetStakingTier :: "fee_store \<Rightarrow> string \<Rightarrow> StakingTier option" where
  "GetStakingTier s tierName = gm_get (fe_stakingTiers s) tierName"

definition GetAllStakingTiers :: "fee_store \<Rightarrow> StakingTier list" where
  "GetAllStakingTiers s = gm_vals (fe_stakingTiers s)"

fun max_discount :: "int \<Rightarrow> uint32 \<Rightarrow> StakingLevel list \<Rightarrow> uint32" where
  "max_discount staked maxDiscountPpm [] = maxDiscountPpm"
| "max_discount staked maxDiscountPpm (level # levels) =
     (if staked \<ge> sl_MinStakedBaseTokens level then max_discount staked (sl_FeeDiscountPpm level) levels
      else maxDiscountPpm)"

definition GetStakingDiscountPpm :: "fee_store \<Rightarrow> string \<Rightarrow> int \<Rightarrow> uint32" where
  "GetStakingDiscountPpm s feeTierName stakedBaseTokens =
     (case GetStakingTier s feeTierName of
        None \<Rightarrow> 0
      | Some stakingTier \<Rightarrow> if length (stt_Levels stakingTier) = 0 then 0
                            else max_discount stakedBaseTokens 0 (stt_Levels stakingTier))"

definition IsVault :: "string set \<Rightarrow> string \<Rightarrow> bool" where
  "IsVault vaultAddressStore address = (address \<in> vaultAddressStore)"

definition meets_tier :: "stats_store \<Rightarrow> string \<Rightarrow> PerpetualFeeTier \<Rightarrow> bool" where
  "meets_tier stats address currTier =
     (let userStats = GetUserStats stats address;
          bigUserMakerNotional = uint (us_MakerNotional userStats);
          bigUserTakerNotional = uint (us_TakerNotional userStats);
          bigUserTotalNotional = bigUserMakerNotional + bigUserTakerNotional;
          bigGlobalNotional = uint (ss_NotionalTraded stats)
      in \<not> (bigUserTotalNotional < uint (ft_AbsoluteVolumeRequirement currTier)
            \<or> bigUserTotalNotional < BigIntMulPpm bigGlobalNotional (ft_TotalVolumeShareRequirementPpm currTier)
            \<or> bigUserMakerNotional < BigIntMulPpm bigGlobalNotional (ft_MakerVolumeShareRequirementPpm currTier)))"

definition nth_res :: "'a list \<Rightarrow> uint32 \<Rightarrow> 'a res" where
  "nth_res xs i = (if unat i < length xs then Inr (xs ! unat i) else Inl (Panic ''index out of range''))"

definition getUserFeeTier ::
  "string set \<Rightarrow> fee_store \<Rightarrow> stats_store \<Rightarrow> affiliate_store \<Rightarrow> string \<Rightarrow> uint32 \<Rightarrow> (uint32 \<times> PerpetualFeeTier) res" where
  "getUserFeeTier vaults s stats affs address feeTierOverrideIdx =
     (let tiers = fe_tiers s; maxTierIdx = (of_nat (length tiers) :: uint32) - 1
      in if IsVault vaults address
         then bindr (nth_res tiers maxTierIdx) (\<lambda>t. Inr (maxTierIdx, t))
         else let idx = last_qualified (meets_tier stats address) 0 0 tiers;
                  feeTierOverrideIdx = (if feeTierOverrideIdx > maxTierIdx then maxTierIdx else feeTierOverrideIdx);
                  idx = (if idx < feeTierOverrideIdx \<and> GetReferredBy affs address \<noteq> None
                         then feeTierOverrideIdx else idx)
              in bindr (nth_res tiers idx) (\<lambda>t. Inr (idx, t)))"

text \<open>\<^verbatim>\<open>int32(int64(fee) * int64(ppm) / int64(MaxChargePpm))\<close>.\<close>

definition charge_ppm :: "int32 \<Rightarrow> uint32 \<Rightarrow> int32" where
  "charge_ppm fee ppm = word_of_int (sint (scast fee * ucast ppm :: int64) sdiv sint (ucast MaxChargePpm :: int64))"

definition GetPerpetualFeePpm ::
  "('d, 'v) staking \<Rightarrow> (string \<Rightarrow> string res) \<Rightarrow> string set \<Rightarrow> block_ctx \<Rightarrow> fee_store \<Rightarrow> affiliate_store
   \<Rightarrow> string \<Rightarrow> bool \<Rightarrow> uint32 \<Rightarrow> uint32 \<Rightarrow> (stats_store, int32) step" where
  "GetPerpetualFeePpm sx fromBech32 vaults ctx s affs address isTaker feeTierOverrideIdx clobPairId =
     bindM (liftM (\<lambda>stats. getUserFeeTier vaults s stats affs address feeTierOverrideIdx)) (\<lambda>(_, userTier).
       let baseFee = (if isTaker then ft_TakerFeePpm userTier else ft_MakerFeePpm userTier);
           feeAfterMarketDiscount = charge_ppm baseFee (GetDiscountedPpm ctx s clobPairId)
       in if sint feeAfterMarketDiscount > 0
          then (case fromBech32 address of
                  Inl _ \<Rightarrow> retM feeAfterMarketDiscount
                | Inr _ \<Rightarrow> bindM (GetStakedBaseTokens sx ctx address) (\<lambda>stakedAmount.
                    let stakingDiscountPpm = GetStakingDiscountPpm s (ft_Name userTier) stakedAmount
                    in retM (if stakingDiscountPpm > 0
                             then charge_ppm feeAfterMarketDiscount (MaxChargePpm - stakingDiscountPpm)
                             else feeAfterMarketDiscount)))
          else retM feeAfterMarketDiscount)"

definition GetLowestMakerFee :: "fee_store \<Rightarrow> int32" where
  "GetLowestMakerFee s = GetLowestMakerFeeFromTiers (fe_tiers s)"

definition GetAffiliateRefereeLowestTakerFee :: "fee_store \<Rightarrow> int32" where
  "GetAffiliateRefereeLowestTakerFee s = GetAffiliateRefereeLowestTakerFeeFromTiers (fe_tiers s)"

section \<open>Definitions: message handlers\<close>

definition msg_UpdatePerpetualFeeParams ::
  "string set \<Rightarrow> revshare_store \<Rightarrow> string \<Rightarrow> PerpetualFeeTier list \<Rightarrow> (fee_store, unit) step" where
  "msg_UpdatePerpetualFeeParams authorities rv authority tiers =
     (if authority \<notin> authorities then failM (Err ''ErrInvalidSigner'') else SetPerpetualFeeParams rv tiers)"

definition msg_SetMarketFeeDiscountParams ::
  "string set \<Rightarrow> block_ctx \<Rightarrow> string \<Rightarrow> PerMarketFeeDiscountParams list \<Rightarrow> (fee_store, unit) step" where
  "msg_SetMarketFeeDiscountParams authorities ctx authority params =
     (if authority \<notin> authorities then failM (Err ''ErrInvalidSigner'')
      else forM (\<lambda>p. bindM (liftM (\<lambda>_. PerMarketFeeDiscountParams_Validate (ctx_BlockTime ctx) p))
                       (\<lambda>_. SetPerMarketFeeDiscountParams ctx p)) params)"

definition msg_SetStakingTiers :: "string set \<Rightarrow> string \<Rightarrow> StakingTier list \<Rightarrow> (fee_store, unit) step" where
  "msg_SetStakingTiers authorities authority stakingTiers =
     (if authority \<notin> authorities then failM (Err ''ErrInvalidSigner'') else SetStakingTiers stakingTiers)"

definition feetiers_InitGenesis ::
  "revshare_store \<Rightarrow> PerpetualFeeTier list \<Rightarrow> StakingTier list \<Rightarrow> (fee_store, unit) step" where
  "feetiers_InitGenesis rv tiers stakingTiers s =
     (case bindM (SetPerpetualFeeParams rv tiers) (\<lambda>_. SetStakingTiers stakingTiers) s of (r, s') \<Rightarrow> (must r, s'))"

definition kMaxOrderRouterRevSharePpm :: uint32 where
  "kMaxOrderRouterRevSharePpm = 100000 * 8"

definition msg_SetMarketMapperRevenueShare ::
  "string set \<Rightarrow> (string \<Rightarrow> string res) \<Rightarrow> fee_store \<Rightarrow> string \<Rightarrow> MarketMapperRevenueShareParams
   \<Rightarrow> (revshare_store, unit) step" where
  "msg_SetMarketMapperRevenueShare authorities fromBech32 fees authority params =
     (if authority \<notin> authorities then failM (Err ''ErrInvalidSigner'')
      else bindM (liftM (\<lambda>s. Inr (rv_unconditional s))) (\<lambda>config.
        if \<not> ValidateRevShareSafety config params (GetAffiliateRefereeLowestTakerFee fees) (GetLowestMakerFee fees)
        then failM (Err ''ErrRevShareSafetyViolation'')
        else SetMarketMapperRevenueShareParams fromBech32 params))"

definition msg_SetMarketMapperRevShareDetailsForMarket ::
  "string set \<Rightarrow> string \<Rightarrow> uint32 \<Rightarrow> uint64 \<Rightarrow> (revshare_store, unit) step" where
  "msg_SetMarketMapperRevShareDetailsForMarket authorities authority marketId expirationTs =
     (if authority \<notin> authorities then failM (Err ''ErrInvalidSigner'')
      else modifyM (SetMarketMapperRevShareDetails marketId expirationTs))"

definition msg_SetOrderRouterRevShare ::
  "string set \<Rightarrow> (string \<Rightarrow> string res) \<Rightarrow> string \<Rightarrow> string \<Rightarrow> uint32 \<Rightarrow> (revshare_store, unit) step" where
  "msg_SetOrderRouterRevShare authorities fromBech32 authority address sharePpm =
     (if authority \<notin> authorities then failM (Err ''ErrInvalidSigner'')
      else if sharePpm > kMaxOrderRouterRevSharePpm then failM (Err ''ErrInvalidRevenueSharePpm'')
      else SetOrderRouterRevShare fromBech32 address sharePpm)"

definition MsgUpdateUnconditionalRevShareConfig_ValidateBasic :: "UnconditionalRevShare list \<Rightarrow> unit res" where
  "MsgUpdateUnconditionalRevShareConfig_ValidateBasic config =
     (if sum_list (map ur_SharePpm config) \<ge> OneMillion then Inl (Err ''ErrInvalidRevShareConfig'') else Inr ())"

definition msg_UpdateUnconditionalRevShareConfig ::
  "string set \<Rightarrow> fee_store \<Rightarrow> string \<Rightarrow> UnconditionalRevShare list \<Rightarrow> (revshare_store, unit) step" where
  "msg_UpdateUnconditionalRevShareConfig authorities fees authority config =
     (if authority \<notin> authorities then failM (Err ''ErrInvalidSigner'')
      else bindM (liftM (\<lambda>_. MsgUpdateUnconditionalRevShareConfig_ValidateBasic config)) (\<lambda>_.
           bindM (liftM (\<lambda>s. Inr (rv_marketMapperParams s))) (\<lambda>marketMapperRevShareParams.
             if \<not> ValidateRevShareSafety config marketMapperRevShareParams
                  (GetAffiliateRefereeLowestTakerFee fees) (GetLowestMakerFee fees)
             then failM (Err ''ErrRevShareSafetyViolation'')
             else modifyM (SetUnconditionalRevShareConfigParams config))))"

section \<open>Shares of a fill\<close>

definition source_total :: "(RevShareFeeSource \<Rightarrow> int option) \<Rightarrow> int" where
  "source_total q = (\<Sum>src\<leftarrow>[REV_SHARE_FEE_SOURCE_TAKER_FEE, REV_SHARE_FEE_SOURCE_MAKER_FEE,
     REV_SHARE_FEE_SOURCE_NET_PROTOCOL_REVENUE]. case q src of None \<Rightarrow> 0 | Some v \<Rightarrow> v)"

definition sources_set :: "(RevShareFeeSource \<Rightarrow> int option) \<Rightarrow> bool" where
  "sources_set q \<longleftrightarrow> (\<forall>src. (q src = None) = (src = REV_SHARE_FEE_SOURCE_UNSPECIFIED))"

lemma tally_loop:
  assumes "\<forall>r \<in> set rs. rs_RevShareFeeSource r \<noteq> REV_SHARE_FEE_SOURCE_UNSPECIFIED"
    and "sources_set q" "t = source_total q"
  shows "\<exists>q' p'. for_res tally rs (t, q, p) = Inr (t + (\<Sum>r\<leftarrow>rs. rs_QuoteQuantums r), q', p') \<and>
    sources_set q' \<and> source_total q' = t + (\<Sum>r\<leftarrow>rs. rs_QuoteQuantums r)"
  using assms
proof (induction rs arbitrary: t q p)
  case (Cons r rs)
  let ?src = "rs_RevShareFeeSource r"
  obtain v where v: "q ?src = Some v" using Cons.prems(1,2) by (auto simp: sources_set_def)
  let ?q = "q(?src \<mapsto> v + rs_QuoteQuantums r)"
  obtain p1 where step: "tally r (t, q, p) = Inr (t + rs_QuoteQuantums r, ?q, p1)"
    using v by (simp add: tally_def Let_def)
  have set: "sources_set ?q" using Cons.prems(1,2) by (auto simp: sources_set_def)
  have total: "t + rs_QuoteQuantums r = source_total ?q"
    using Cons.prems v by (cases ?src) (auto simp: source_total_def)
  have rest: "\<forall>r \<in> set rs. rs_RevShareFeeSource r \<noteq> REV_SHARE_FEE_SOURCE_UNSPECIFIED"
    using Cons.prems(1) by simp
  show ?case
    using Cons.IH[OF rest set total, of p1]
    unfolding for_res.simps step bindr_Inr list.map sum_list.Cons add.assoc .
qed (simp add: source_total_def)

lemma share_sources:
  "\<forall>r \<in> set (fst (getAffiliateRevShares affs stats fill ov ps)). rs_RevShareFeeSource r \<noteq> REV_SHARE_FEE_SOURCE_UNSPECIFIED"
  "\<forall>r \<in> set (getOrderRouterRevShares fb s fill tf mf). rs_RevShareFeeSource r \<noteq> REV_SHARE_FEE_SOURCE_UNSPECIFIED"
  "\<forall>r \<in> set (getUnconditionalRevShares s n). rs_RevShareFeeSource r \<noteq> REV_SHARE_FEE_SOURCE_UNSPECIFIED"
  "getMarketMapperRevShare fb tb ctx s m n = Inr rs \<Longrightarrow>
     \<forall>r \<in> set rs. rs_RevShareFeeSource r \<noteq> REV_SHARE_FEE_SOURCE_UNSPECIFIED"
  by (auto simp: getAffiliateRevShares_def getOrderRouterRevShares_def taker_router_shares_def
      maker_router_shares_def getUnconditionalRevShares_def getMarketMapperRevShare_def res_simps Let_def
      split: option.splits sum.splits if_splits)

text \<open>The stages of a computation that returns shares for a fill with non-zero net fees.\<close>

definition shares_stages where
  "shares_stages fb tb ctx s affs stats fill ov ps affiliate router rest mapper \<longleftrightarrow>
     affiliate = fst (getAffiliateRevShares affs stats fill ov ps) \<and>
     router = (if affiliate = [] then getOrderRouterRevShares fb s fill (fp_TakerFeeQuoteQuantums fill)
        (fp_MakerFeeQuoteQuantums fill) else []) \<and>
     rest = fp_TakerFeeQuoteQuantums fill + fp_MakerFeeQuoteQuantums fill
        - (\<Sum>r\<leftarrow>affiliate @ router. rs_QuoteQuantums r) \<and>
     getMarketMapperRevShare fb tb ctx s (fp_MarketId fill) rest = mapper"

lemma affiliate_fees_shared:
  "snd (getAffiliateRevShares affs stats fill ov ps) =
     (\<Sum>r\<leftarrow>fst (getAffiliateRevShares affs stats fill ov ps). rs_QuoteQuantums r)"
  by (auto simp: getAffiliateRevShares_def Let_def split: option.splits)

lemma fold_minus: "fold (\<lambda>r n. n - f r) rs n = n - (\<Sum>r\<leftarrow>rs. f r :: int)"
  by (induction rs arbitrary: n) simp_all

lemma GetAllRevShares_run:
  assumes "fp_TakerFeeQuoteQuantums fill + fp_MakerFeeQuoteQuantums fill \<noteq> 0"
  obtains affiliate router rest mapper where
    "shares_stages fb tb ctx s affs stats fill ov ps affiliate router rest mapper"
    "GetAllRevShares fb tb ctx s affs stats fill ov ps =
       (if rest \<le> 0 then Inl (Err ''ErrAffiliateFeesSharedGreaterThanOrEqualToNetFees'')
        else bindr mapper (\<lambda>mapper.
          let shares = affiliate @ router @ getUnconditionalRevShares s rest @ mapper
          in bindr (for_res tally shares (0, (\<lambda>_. None)(REV_SHARE_FEE_SOURCE_TAKER_FEE \<mapsto> 0,
                  REV_SHARE_FEE_SOURCE_NET_PROTOCOL_REVENUE \<mapsto> 0, REV_SHARE_FEE_SOURCE_MAKER_FEE \<mapsto> 0),
                (\<lambda>_. None)(REV_SHARE_FEE_SOURCE_TAKER_FEE \<mapsto> 0,
                  REV_SHARE_FEE_SOURCE_NET_PROTOCOL_REVENUE \<mapsto> 0, REV_SHARE_FEE_SOURCE_MAKER_FEE \<mapsto> 0)))
             (\<lambda>(t, q, p). if t > fp_TakerFeeQuoteQuantums fill + fp_MakerFeeQuoteQuantums fill
                then Inl (Err ''ErrTotalFeesSharedExceedsNetFees'')
                else Inr \<lparr>rf_AffiliateRevShare = (case affiliate of [] \<Rightarrow> None | r # _ \<Rightarrow> Some r),
                  rf_FeeSourceToQuoteQuantums = q, rf_FeeSourceToRevSharePpm = p, rf_AllRevShares = shares\<rparr>)))"
proof -
  let ?a = "fst (getAffiliateRevShares affs stats fill ov ps)"
  let ?n = "fp_TakerFeeQuoteQuantums fill + fp_MakerFeeQuoteQuantums fill"
  let ?r = "if ?a = [] then getOrderRouterRevShares fb s fill (fp_TakerFeeQuoteQuantums fill)
        (fp_MakerFeeQuoteQuantums fill) else []"
  let ?rest = "?n - (\<Sum>r\<leftarrow>?a @ ?r. rs_QuoteQuantums r)"
  have n: "(if length ?a = 0 then fold (\<lambda>r n. n - rs_QuoteQuantums r) ?r ?n
      else ?n - snd (getAffiliateRevShares affs stats fill ov ps)) = ?rest"
    by (simp add: fold_minus affiliate_fees_shared)
  have len: "(length ?a = 0) = (?a = [])" by simp
  show ?thesis
  proof (rule that[of ?a ?r ?rest "getMarketMapperRevShare fb tb ctx s (fp_MarketId fill) ?rest"])
    show "shares_stages fb tb ctx s affs stats fill ov ps ?a ?r ?rest
        (getMarketMapperRevShare fb tb ctx s (fp_MarketId fill) ?rest)"
      unfolding shares_stages_def by blast
  qed (unfold GetAllRevShares_def Let_def case_prod_beta[of _ "getAffiliateRevShares affs stats fill ov ps"],
       unfold n[unfolded len] len if_not_P[OF assms], rule refl)
qed

text \<open>A list of shares of a positive amount that add up to less than one is worth at most the amount.\<close>

lemma shares_le_amount:
  assumes "0 \<le> n" "(\<Sum>c\<leftarrow>cs. uint (f c)) + w \<le> 1000000" "0 \<le> w"
  shows "(\<Sum>c\<leftarrow>cs. BigMulPpm n (uint (f c)) False) + BigMulPpm n w False \<le> n"
proof -
  have *: "1000000 * (\<Sum>c\<leftarrow>cs. n * uint (f c) div 1000000) \<le> n * (\<Sum>c\<leftarrow>cs. uint (f c))"
    by (induction cs) (auto simp: distrib_left intro!: add_mono)
  have "1000000 * (n * w div 1000000) \<le> n * w" by simp
  with * have "1000000 * ((\<Sum>c\<leftarrow>cs. n * uint (f c) div 1000000) + n * w div 1000000) \<le>
      n * ((\<Sum>c\<leftarrow>cs. uint (f c)) + w)"
    by (simp add: distrib_left)
  also have "\<dots> \<le> n * 1000000" using assms by (intro mult_left_mono) simp_all
  finally show ?thesis by (simp add: big_simps)
qed

definition total_share_ppm :: "revshare_store \<Rightarrow> int" where
  "total_share_ppm s = (\<Sum>c\<leftarrow>rv_unconditional s. uint (ur_SharePpm c)) + uint (mm_RevenueSharePpm (rv_marketMapperParams s))"

lemma mapper_share:
  assumes "getMarketMapperRevShare fb tb ctx s m n = Inr rs" "0 \<le> n" "total_share_ppm s \<le> 1000000"
  shows "(\<Sum>r\<leftarrow>getUnconditionalRevShares s n @ rs. rs_QuoteQuantums r) \<le> n"
proof -
  let ?w = "uint (mm_RevenueSharePpm (rv_marketMapperParams s))"
  have "rs = [] \<or> (\<Sum>r\<leftarrow>rs. rs_QuoteQuantums r) = BigMulPpm n ?w False"
    using assms(1) by (auto simp: getMarketMapperRevShare_def GetMarketMapperRevenueShareForMarket_def res_simps Let_def
        split: if_splits)
  moreover have "(\<Sum>r\<leftarrow>getUnconditionalRevShares s n. rs_QuoteQuantums r) =
      (\<Sum>c\<leftarrow>rv_unconditional s. BigMulPpm n (uint (ur_SharePpm c)) False)"
    by (simp add: getUnconditionalRevShares_def comp_def)
  moreover have "0 \<le> BigMulPpm n ?w False" using assms(2) by (intro BigMulPpm_nonneg) simp_all
  moreover note shares_le_amount[of n ur_SharePpm "rv_unconditional s" ?w]
  ultimately show ?thesis
    using assms(2,3) by (auto simp: total_share_ppm_def)
qed

lemma map_add_option_zero [simp]: "source_total ((\<lambda>_. None)(REV_SHARE_FEE_SOURCE_TAKER_FEE \<mapsto> 0,
    REV_SHARE_FEE_SOURCE_NET_PROTOCOL_REVENUE \<mapsto> 0, REV_SHARE_FEE_SOURCE_MAKER_FEE \<mapsto> 0)) = 0"
  by (simp add: source_total_def)

lemma sources_set_initial [simp]: "sources_set ((\<lambda>_. None)(REV_SHARE_FEE_SOURCE_TAKER_FEE \<mapsto> 0,
    REV_SHARE_FEE_SOURCE_NET_PROTOCOL_REVENUE \<mapsto> 0, REV_SHARE_FEE_SOURCE_MAKER_FEE \<mapsto> 0))"
  unfolding sources_set_def
proof
  fix src show "(((\<lambda>_. None)(REV_SHARE_FEE_SOURCE_TAKER_FEE \<mapsto> 0, REV_SHARE_FEE_SOURCE_NET_PROTOCOL_REVENUE \<mapsto> 0,
      REV_SHARE_FEE_SOURCE_MAKER_FEE \<mapsto> 0)) src = None) = (src = REV_SHARE_FEE_SOURCE_UNSPECIFIED)"
    by (cases src) simp_all
qed

lemma rev_shares_cases:
  fixes fill :: FillForProcess
  defines "netFees \<equiv> fp_TakerFeeQuoteQuantums fill + fp_MakerFeeQuoteQuantums fill"
  assumes "total_share_ppm s \<le> 1000000"
  shows "case GetAllRevShares fb tb ctx s affs stats fill overrides params of
      Inr r \<Rightarrow> source_total (rf_FeeSourceToQuoteQuantums r) = (\<Sum>x\<leftarrow>rf_AllRevShares r. rs_QuoteQuantums x) \<and>
        (\<Sum>x\<leftarrow>rf_AllRevShares r. rs_QuoteQuantums x) \<le> netFees
    | Inl e \<Rightarrow> e = Err ''ErrAffiliateFeesSharedGreaterThanOrEqualToNetFees'' \<or>
        (\<exists>n. getMarketMapperRevShare fb tb ctx s (fp_MarketId fill) n = Inl e)"
proof (cases "netFees = 0")
  case True
  then show ?thesis
    by (simp add: GetAllRevShares_def netFees_def Let_def empty_RevSharesForFill_def source_total_def)
next
  case False
  obtain affiliate router rest mapper where
    st: "shares_stages fb tb ctx s affs stats fill overrides params affiliate router rest mapper" and
    run: "GetAllRevShares fb tb ctx s affs stats fill overrides params =
       (if rest \<le> 0 then Inl (Err ''ErrAffiliateFeesSharedGreaterThanOrEqualToNetFees'')
        else bindr mapper (\<lambda>mapper.
          let shares = affiliate @ router @ getUnconditionalRevShares s rest @ mapper
          in bindr (for_res tally shares (0, (\<lambda>_. None)(REV_SHARE_FEE_SOURCE_TAKER_FEE \<mapsto> 0,
                  REV_SHARE_FEE_SOURCE_NET_PROTOCOL_REVENUE \<mapsto> 0, REV_SHARE_FEE_SOURCE_MAKER_FEE \<mapsto> 0),
                (\<lambda>_. None)(REV_SHARE_FEE_SOURCE_TAKER_FEE \<mapsto> 0,
                  REV_SHARE_FEE_SOURCE_NET_PROTOCOL_REVENUE \<mapsto> 0, REV_SHARE_FEE_SOURCE_MAKER_FEE \<mapsto> 0)))
             (\<lambda>(t, q, p). if t > fp_TakerFeeQuoteQuantums fill + fp_MakerFeeQuoteQuantums fill
                then Inl (Err ''ErrTotalFeesSharedExceedsNetFees'')
                else Inr \<lparr>rf_AffiliateRevShare = (case affiliate of [] \<Rightarrow> None | r # _ \<Rightarrow> Some r),
                  rf_FeeSourceToQuoteQuantums = q, rf_FeeSourceToRevSharePpm = p, rf_AllRevShares = shares\<rparr>)))"
    by (rule GetAllRevShares_run[OF False[unfolded netFees_def]])
  have rest: "rest = netFees - (\<Sum>r\<leftarrow>affiliate @ router. rs_QuoteQuantums r)"
    using st unfolding shares_stages_def netFees_def by blast
  have mapper: "getMarketMapperRevShare fb tb ctx s (fp_MarketId fill) rest = mapper"
    using st unfolding shares_stages_def by blast
  show ?thesis
  proof (cases "rest \<le> 0")
    case True
    then show ?thesis by (simp add: run)
  next
    case pos: False
    show ?thesis
    proof (cases mapper)
      case (Inl e)
      then show ?thesis using mapper pos by (auto simp: run)
    next
      case (Inr ms)
      let ?shares = "affiliate @ router @ getUnconditionalRevShares s rest @ ms"
      have "(\<Sum>r\<leftarrow>getUnconditionalRevShares s rest @ ms. rs_QuoteQuantums r) \<le> rest"
        by (rule mapper_share[OF mapper[unfolded Inr]]) (use pos assms(2) in simp_all)
      then have le: "(\<Sum>r\<leftarrow>?shares. rs_QuoteQuantums r) \<le> netFees" by (simp add: rest)
      have srcs: "\<forall>r \<in> set ?shares. rs_RevShareFeeSource r \<noteq> REV_SHARE_FEE_SOURCE_UNSPECIFIED"
        using st share_sources(1-3) share_sources(4)[OF mapper[unfolded Inr]]
        by (auto simp: shares_stages_def split: if_splits)
      obtain q p where "for_res tally ?shares (0, (\<lambda>_. None)(REV_SHARE_FEE_SOURCE_TAKER_FEE \<mapsto> 0,
                  REV_SHARE_FEE_SOURCE_NET_PROTOCOL_REVENUE \<mapsto> 0, REV_SHARE_FEE_SOURCE_MAKER_FEE \<mapsto> 0),
                (\<lambda>_. None)(REV_SHARE_FEE_SOURCE_TAKER_FEE \<mapsto> 0,
                  REV_SHARE_FEE_SOURCE_NET_PROTOCOL_REVENUE \<mapsto> 0, REV_SHARE_FEE_SOURCE_MAKER_FEE \<mapsto> 0)) =
          Inr (0 + (\<Sum>r\<leftarrow>?shares. rs_QuoteQuantums r), q, p)"
        "source_total q = 0 + (\<Sum>r\<leftarrow>?shares. rs_QuoteQuantums r)"
        using tally_loop[OF srcs sources_set_initial map_add_option_zero[symmetric]] by metis
      then show ?thesis
        using le pos by (simp add: run Inr Let_def netFees_def)
    qed
  qed
qed

text \<open>
  C33: The revenue shares of a fill never exceed its fees. Whenever shares are returned, the amounts
  recorded per fee source add up exactly to the amounts of all shares, which together are at most
  the net fees of the fill. If the configured unconditional and market-mapper shares add up to at
  most 100 percent, the final check against the net fees never fires: computing shares fails only
  when affiliate or order-router shares use up the net fees or when the market mapper's details
  or address are missing, and it never panics unless the address codec does.
\<close>

theorem rev_shares_within_fees:
  fixes fill :: FillForProcess
  defines "netFees \<equiv> fp_TakerFeeQuoteQuantums fill + fp_MakerFeeQuoteQuantums fill"
  assumes "total_share_ppm s \<le> 1000000"
  shows "case GetAllRevShares fb tb ctx s affs stats fill overrides params of
      Inr r \<Rightarrow> source_total (rf_FeeSourceToQuoteQuantums r) = (\<Sum>x\<leftarrow>rf_AllRevShares r. rs_QuoteQuantums x) \<and>
        (\<Sum>x\<leftarrow>rf_AllRevShares r. rs_QuoteQuantums x) \<le> netFees
    | Inl e \<Rightarrow> e = Err ''ErrAffiliateFeesSharedGreaterThanOrEqualToNetFees'' \<or>
        (\<exists>n. getMarketMapperRevShare fb tb ctx s (fp_MarketId fill) n = Inl e)"
  unfolding netFees_def by (rule rev_shares_cases[OF assms(2)])

definition ex_revshare :: revshare_store where
  "ex_revshare = \<lparr>rv_marketMapperParams = \<lparr>mm_Address = ''mapper'', mm_RevenueSharePpm = 100000, mm_ValidDays = 30\<rparr>,
     rv_marketMapperDetails = (\<lambda>_. Some 10000), rv_unconditional = [\<lparr>ur_Address = ''dao'', ur_SharePpm = 200000\<rparr>],
     rv_orderRouter = (\<lambda>_. None)\<rparr>"

definition ex_fill :: FillForProcess where
  "ex_fill = \<lparr>fp_TakerAddr = ''alice'', fp_TakerFeeQuoteQuantums = 500, fp_MakerAddr = ''bob'',
     fp_MakerFeeQuoteQuantums = - 100, fp_FillQuoteQuantums = 1000000, fp_ProductId = 0,
     fp_MonthlyRollingTakerVolumeQuantums = 0, fp_MarketId = 0, fp_TakerOrderRouterAddr = '''',
     fp_MakerOrderRouterAddr = ''''\<rparr>"

theorem rev_shares_within_fees_witness:
  "total_share_ppm ex_revshare \<le> 1000000 \<and>
   (case GetAllRevShares Inr (\<lambda>a. a) (ex_block 5 2000) ex_revshare ex_affiliates ex_stats ex_fill None (af_params ex_affiliates) of
      Inr r \<Rightarrow> map rs_QuoteQuantums (rf_AllRevShares r) = [80, 40] \<and>
        (\<Sum>x\<leftarrow>rf_AllRevShares r. rs_QuoteQuantums x) \<le> 400
    | Inl _ \<Rightarrow> False)"
proof -
  have t: "total_share_ppm ex_revshare \<le> 1000000"
    by (simp add: total_share_ppm_def ex_revshare_def)
  have "case GetAllRevShares Inr (\<lambda>a. a) (ex_block 5 2000) ex_revshare ex_affiliates ex_stats ex_fill None (af_params ex_affiliates) of
      Inr r \<Rightarrow> map rs_QuoteQuantums (rf_AllRevShares r) = [80, 40] | Inl _ \<Rightarrow> False"
    by code_simp
  then show ?thesis
    using t rev_shares_within_fees[OF t, where fb = Inr and tb = "\<lambda>a. a" and ctx = "ex_block 5 2000" and
      affs = ex_affiliates and stats = ex_stats and fill = ex_fill and overrides = None and params = "af_params ex_affiliates"]
    by (auto simp: ex_fill_def split: sum.splits)
qed

text \<open>The check of revenue shares over the integers: both sums are machine sums.\<close>

abbreviation shares_sum :: "UnconditionalRevShare list \<Rightarrow> int" where
  "shares_sum config \<equiv> \<Sum>c\<leftarrow>config. uint (ur_SharePpm c)"

lemma uint_shares_sum: "uint (sum_list (map ur_SharePpm config)) = shares_sum config mod 2 ^ 32"
proof (induction config)
  case (Cons c config)
  have "uint (ur_SharePpm c + sum_list (map ur_SharePpm config)) =
      (uint (ur_SharePpm c) + uint (sum_list (map ur_SharePpm config))) mod 2 ^ 32"
    by (simp add: uint_word_ariths)
  then show ?case using Cons.IH by (simp add: mod_add_right_eq)
qed simp

lemma uint_net_fee:
  fixes t m :: int32
  shows "uint (scast t + scast m :: uint64) = (if 0 \<le> sint t + sint m then sint t + sint m else sint t + sint m + 2 ^ 64)"
proof -
  have b: "- (2 ^ 31) \<le> sint t" "sint t < 2 ^ 31" "- (2 ^ 31) \<le> sint m" "sint m < 2 ^ 31"
    using sint_range_size[of t] sint_range_size[of m] by (simp_all add: word_size)
  have "scast t + scast m = (word_of_int (sint t + sint m) :: uint64)" by simp
  then have "uint (scast t + scast m :: uint64) = (sint t + sint m) mod 2 ^ 64"
    by (simp only: uint_word_of_int) simp
  also have "\<dots> = (if 0 \<le> sint t + sint m then sint t + sint m else sint t + sint m + 2 ^ 64)"
  proof (cases "0 \<le> sint t + sint m")
    case False
    have "(sint t + sint m) mod 2 ^ 64 = (sint t + sint m + 2 ^ 64) mod 2 ^ 64" by simp
    also have "\<dots> = sint t + sint m + 2 ^ 64" using b False by (intro mod_pos_pos_trivial) simp_all
    finally show ?thesis using False by simp
  qed (use b in simp)
  finally show ?thesis .
qed

lemma ValidateRevShareSafety_exact:
  "ValidateRevShareSafety config mm t m \<longleftrightarrow>
     (shares_sum config + uint (mm_RevenueSharePpm mm)) mod 2 ^ 32 < 1000000 \<and>
     (sint t + sint m < 0 \<or> sint t * uint AffiliatesRevSharePpmCap \<le> (sint t + sint m) * 1000000)"
proof -
  let ?cap = "BigMulPpm (sint t) (uint AffiliatesRevSharePpmCap) True" and ?net = "sint t + sint m"
  have shares: "OneMillion \<le> sum_list (map ur_SharePpm config) + mm_RevenueSharePpm mm \<longleftrightarrow>
      \<not> (shares_sum config + uint (mm_RevenueSharePpm mm)) mod 2 ^ 32 < 1000000"
    by (simp add: word_le_def OneMillion_def uint_word_ariths uint_shares_sum mod_add_left_eq not_less)
  have b: "sint t < 2 ^ 31" "- (2 ^ 31) \<le> sint t" "- (2 ^ 31) \<le> sint m"
    using sint_range_size[of t] sint_range_size[of m] by (simp_all add: word_size)
  have cap: "?cap \<le> n \<longleftrightarrow> sint t * uint AffiliatesRevSharePpmCap \<le> n * 1000000" for n
    using BigMulPpm_bounds(3,4)[of "sint t" "uint AffiliatesRevSharePpmCap"]
    by (cases "?cap \<le> n") (auto simp: algebra_simps)
  have "?cap \<le> uint (scast t + scast m :: uint64) \<longleftrightarrow> ?net < 0 \<or> sint t * uint AffiliatesRevSharePpmCap \<le> ?net * 1000000"
  proof (cases "0 \<le> ?net")
    case False
    have "sint t * uint AffiliatesRevSharePpmCap \<le> (?net + 2 ^ 64) * 1000000"
      using b by (simp add: AffiliatesRevSharePpmCap_def)
    then show ?thesis using False by (simp add: uint_net_fee cap)
  qed (simp add: uint_net_fee cap)
  then show ?thesis unfolding ValidateRevShareSafety_def Let_def shares by simp
qed


section \<open>Fees of a trader\<close>

lemma sint_scast_up: "sint (scast (w :: int32) :: int64) = sint w"
  by (simp add: sint_up_scast is_up_def source_size_def target_size_def word_size)

lemma ppm_part_bounds:
  fixes f p :: int
  assumes "0 \<le> p" "p \<le> 1000000"
  shows "0 \<le> f \<Longrightarrow> 0 \<le> (f * p) sdiv 1000000" "0 \<le> f \<Longrightarrow> (f * p) sdiv 1000000 \<le> f"
    and "f \<le> 0 \<Longrightarrow> (f * p) sdiv 1000000 \<le> 0" "f \<le> 0 \<Longrightarrow> f \<le> (f * p) sdiv 1000000"
proof -
  have b: "0 \<le> (g * p) sdiv 1000000 \<and> (g * p) sdiv 1000000 \<le> g" if g: "0 \<le> g" for g
  proof -
    have "g * p \<le> g * 1000000" using assms g by (intro mult_left_mono) simp_all
    then have "g * p div 1000000 \<le> g" by linarith
    then show ?thesis using assms g by (simp add: sdiv_nonneg pos_imp_zdiv_nonneg_iff)
  qed
  show "0 \<le> f \<Longrightarrow> 0 \<le> (f * p) sdiv 1000000" "0 \<le> f \<Longrightarrow> (f * p) sdiv 1000000 \<le> f"
    using b[of f] by simp_all
  show "f \<le> 0 \<Longrightarrow> (f * p) sdiv 1000000 \<le> 0" "f \<le> 0 \<Longrightarrow> f \<le> (f * p) sdiv 1000000"
    using b[of "- f"] sdiv_minus_left[of "f * p" 1000000] by simp_all
qed

lemma charge_ppm_exact:
  assumes "ppm \<le> MaxChargePpm"
  shows "sint (charge_ppm fee ppm) = (sint fee * uint ppm) sdiv 1000000"
proof -
  have p: "uint ppm \<le> 1000000" "0 \<le> uint ppm"
    using assms by (simp_all add: MaxChargePpm_def word_le_def)
  have f: "- (2 ^ 31) \<le> sint fee" "sint fee < 2 ^ 31"
    using sint_ge[of fee] sint_lt[of fee] by simp_all
  have u: "sint (ucast ppm :: int64) = uint ppm"
    using p(1) signed_take_bit_int_eq_self[OF order_trans[OF _ p(2)], of 63]
    by (simp add: sint_uint unsigned_ucast_eq take_bit_int_eq_self)
  have "\<bar>sint fee * uint ppm\<bar> \<le> 2 ^ 31 * 1000000"
    unfolding abs_mult using f p by (intro mult_mono) auto
  then have b: "- (2 ^ 31 * 1000000) \<le> sint fee * uint ppm" "sint fee * uint ppm \<le> 2 ^ 31 * 1000000"
    by linarith+
  have prod: "sint (scast fee * ucast ppm :: int64) = sint fee * uint ppm"
    using b by (simp add: sint_word_ariths sint_scast_up u signed_take_bit_int_eq_self)
  have m: "sint (ucast MaxChargePpm :: int64) = 1000000"
    by (simp add: MaxChargePpm_def)
  let ?q = "(sint fee * uint ppm) sdiv 1000000"
  have "- (2 ^ 31) \<le> ?q" "?q < 2 ^ 31"
    using ppm_part_bounds[OF p(2,1), of "sint fee"] f by (cases "0 \<le> sint fee"; linarith)+
  then have "sint (word_of_int ?q :: int32) = ?q"
    by (simp only: sint_sbintrunc') (simp add: signed_take_bit_int_eq_self)
  then show ?thesis by (simp add: charge_ppm_def prod m)
qed

text \<open>What governance has checked of the stored discounts and staking levels.\<close>

definition discounts_ok :: "fee_store \<Rightarrow> bool" where
  "discounts_ok s \<longleftrightarrow> (\<forall>k p. gm_get (fe_discounts s) k = Some p \<longrightarrow> fd_ChargePpm p \<le> MaxChargePpm) \<and>
     (\<forall>n t. gm_get (fe_stakingTiers s) n = Some t \<longrightarrow> (\<forall>l \<in> set (stt_Levels t). sl_FeeDiscountPpm l \<le> MaxChargePpm))"

lemma SetPerMarketFeeDiscountParams_ok:
  "discounts_ok s \<Longrightarrow> discounts_ok (snd (SetPerMarketFeeDiscountParams ctx p s))"
  by (auto simp: SetPerMarketFeeDiscountParams_def bindM_def liftM_def modifyM_def discounts_ok_def
      PerMarketFeeDiscountParams_Validate_def not_less split: sum.split)

lemma check_staking_levels_ok:
  "check_staking_levels prev ls = Inr () \<Longrightarrow> \<forall>l \<in> set ls. sl_FeeDiscountPpm l \<le> MaxChargePpm"
  by (induction prev ls rule: check_staking_levels.induct)
    (auto simp: Let_def MaxChargePpm_def not_less split: if_splits)

lemma check_staking_tiers_ok:
  "for_res check_staking_tier ts seen = Inr seen' \<Longrightarrow> t \<in> set ts \<Longrightarrow> check_staking_levels None (stt_Levels t) = Inr ()"
  by (induction ts arbitrary: seen) (auto simp: res_simps check_staking_tier_def split: if_splits)

lemma gm_get_fold_entries:
  "gm_get (fold (\<lambda>t m. gm_set (key t) t m) ts m) k = Some t \<Longrightarrow> t \<in> set ts \<or> gm_get m k = Some t"
proof (induction ts arbitrary: m)
  case (Cons a ts)
  then show ?case using Cons.IH[of "gm_set (key a) a m"] by (auto split: if_splits)
qed simp

lemma SetStakingTiers_ok:
  assumes "discounts_ok s"
  shows "discounts_ok (snd (SetStakingTiers ts s))"
proof (cases "validateStakingTiers s ts")
  case (Inl e)
  then show ?thesis using assms by (simp add: SetStakingTiers_def bindM_def liftM_def)
next
  case (Inr u)
  then obtain seen where "for_res check_staking_tier ts {} = Inr seen"
    by (auto simp: validateStakingTiers_def res_simps)
  then have "\<forall>t \<in> set ts. \<forall>l \<in> set (stt_Levels t). sl_FeeDiscountPpm l \<le> MaxChargePpm"
    using check_staking_tiers_ok check_staking_levels_ok by blast
  then show ?thesis
    using Inr assms gm_get_fold_entries[of stt_FeeTierName ts "[]"]
    by (auto simp: SetStakingTiers_def bindM_def liftM_def modifyM_def discounts_ok_def)
qed

lemma max_discount_le:
  "d \<le> MaxChargePpm \<Longrightarrow> \<forall>l \<in> set ls. sl_FeeDiscountPpm l \<le> MaxChargePpm \<Longrightarrow> max_discount n d ls \<le> MaxChargePpm"
  by (induction n d ls rule: max_discount.induct) auto

lemma discount_bounds:
  assumes "discounts_ok s"
  shows "GetDiscountedPpm ctx s c \<le> MaxChargePpm" "GetStakingDiscountPpm s n v \<le> MaxChargePpm"
  using assms max_discount_le
  by (auto simp: GetDiscountedPpm_def GetPerMarketFeeDiscountParams_def GetStakingDiscountPpm_def GetStakingTier_def
      discounts_ok_def split: option.split)

text \<open>A fee lies between zero and the base fee of the trader's tier.\<close>

definition between_zero_and :: "int \<Rightarrow> int \<Rightarrow> bool" where
  "between_zero_and f base \<longleftrightarrow> (if 0 \<le> base then 0 \<le> f \<and> f \<le> base else base \<le> f \<and> f \<le> 0)"

lemma charge_ppm_between:
  assumes "ppm \<le> MaxChargePpm"
  shows "between_zero_and (sint (charge_ppm fee ppm)) (sint fee)"
proof -
  have "0 \<le> uint ppm" "uint ppm \<le> 1000000"
    using assms by (simp_all add: MaxChargePpm_def word_le_def)
  then show ?thesis
    using ppm_part_bounds[of "uint ppm" "sint fee"]
    by (simp add: between_zero_and_def charge_ppm_exact[OF assms])
qed

lemma between_zero_and_trans: "between_zero_and a b \<Longrightarrow> between_zero_and b c \<Longrightarrow> between_zero_and a c"
  by (auto simp: between_zero_and_def split: if_splits)

lemma remaining_ppm: "d \<le> MaxChargePpm \<Longrightarrow> MaxChargePpm - d \<le> MaxChargePpm"
  by (simp add: MaxChargePpm_def word_sub_le)

text \<open>The tier index the code's search amounts to.\<close>

definition user_tier_index :: "string set \<Rightarrow> fee_store \<Rightarrow> stats_store \<Rightarrow> affiliate_store \<Rightarrow> string \<Rightarrow> uint32 \<Rightarrow> nat" where
  "user_tier_index vaults s stats affs address override =
     (let m = length (fe_tiers s) - 1; n = length (takeWhile (meets_tier stats address) (fe_tiers s)) - 1
      in if address \<in> vaults then m
         else if n < min (unat override) m \<and> GetReferredBy affs address \<noteq> None then min (unat override) m else n)"

lemma getUserFeeTier_index:
  assumes tiers: "fe_tiers s \<noteq> []" "length (fe_tiers s) < 2 ^ 32"
  shows "getUserFeeTier vaults s stats affs address override =
     Inr (of_nat (user_tier_index vaults s stats affs address override),
          fe_tiers s ! user_tier_index vaults s stats affs address override)"
proof -
  let ?m = "length (fe_tiers s) - 1" and ?n = "length (takeWhile (meets_tier stats address) (fe_tiers s)) - 1"
  let ?mw = "(of_nat (length (fe_tiers s)) :: uint32) - 1" and ?nw = "last_qualified (meets_tier stats address) 0 0 (fe_tiers s)"
  have len: "0 < length (fe_tiers s)" using tiers(1) by simp
  have mw: "?mw = of_nat ?m" using len by (cases "length (fe_tiers s)") simp_all
  have m: "unat ?mw = ?m" using tiers(2) unfolding mw by (simp add: unat_of_nat take_bit_nat_eq_self)
  have n: "unat ?nw = ?n" by (rule last_qualified_index[OF tiers(2)])
  have nlt: "?n < length (fe_tiers s)"
    using length_takeWhile_le[of "meets_tier stats address" "fe_tiers s"] len by linarith
  let ?o = "if override > ?mw then ?mw else override"
  have o: "unat ?o = min (unat override) ?m" using m by (auto simp: word_less_nat_alt)
  let ?i = "if ?nw < ?o \<and> GetReferredBy affs address \<noteq> None then ?o else ?nw"
  have i: "unat ?i = (if ?n < min (unat override) ?m \<and> GetReferredBy affs address \<noteq> None then min (unat override) ?m else ?n)"
    using o n by (auto simp: word_less_nat_alt)
  have word: "w = of_nat (unat w)" for w :: uint32 by simp
  show ?thesis
  proof (cases "address \<in> vaults")
    case True
    then show ?thesis
      using len unfolding getUserFeeTier_def user_tier_index_def IsVault_def nth_res_def Let_def m
      by (simp only: mw[symmetric] if_True bindr_Inr) simp
  next
    case False
    then have u: "user_tier_index vaults s stats affs address override = unat ?i"
      unfolding i by (auto simp: user_tier_index_def Let_def)
    have "unat ?i < length (fe_tiers s)" using i nlt len by (auto split: if_splits)
    then show ?thesis
      using False word[of ?i] unfolding u by (simp add: getUserFeeTier_def IsVault_def nth_res_def Let_def)
  qed
qed

text \<open>
  C34: The fee of a trader. With stored tiers that passed validation the tier is found without a
  panic; it is the highest tier of a vault, and otherwise the last tier of the longest run of
  tiers whose volume requirements the trader meets, or the override tier when that is higher and
  the trader was referred. Per-market and staking discounts only move the fee towards zero: the
  fee charged lies between zero and the tier's base fee, so a fee never becomes a rebate and a
  rebate never grows.
\<close>

theorem fee_between_zero_and_tier_fee:
  assumes tiers: "fe_tiers s \<noteq> []" "length (fe_tiers s) < 2 ^ 32" and ok: "discounts_ok s"
  shows "case getUserFeeTier vaults s stats affs address override of Inl _ \<Rightarrow> False | Inr (i, tier) \<Rightarrow>
    unat i = user_tier_index vaults s stats affs address override \<and> tier = fe_tiers s ! unat i \<and>
    (\<forall>fee stats'. GetPerpetualFeePpm sx fb vaults ctx s affs address isTaker override clobPairId stats = (Inr fee, stats')
       \<longrightarrow> between_zero_and (sint fee) (sint (if isTaker then ft_TakerFeePpm tier else ft_MakerFeePpm tier)))"
proof -
  let ?i = "user_tier_index vaults s stats affs address override"
  note tier = getUserFeeTier_index[OF tiers, of vaults stats affs address override]
  let ?tier = "fe_tiers s ! ?i"
  let ?base = "if isTaker then ft_TakerFeePpm ?tier else ft_MakerFeePpm ?tier"
  have "?i < length (fe_tiers s)"
    using tiers(1) length_takeWhile_le[of "meets_tier stats address" "fe_tiers s"]
    by (auto simp: user_tier_index_def Let_def min_def less_eq_Suc_le) (cases "fe_tiers s"; simp)+
  then have i: "unat (of_nat ?i :: uint32) = ?i"
    using tiers(2) by (simp add: unat_of_nat take_bit_nat_eq_self)
  have "between_zero_and (sint fee) (sint ?base)"
    if run: "GetPerpetualFeePpm sx fb vaults ctx s affs address isTaker override clobPairId stats = (Inr fee, stats')"
    for fee stats'
  proof -
    let ?f = "charge_ppm ?base (GetDiscountedPpm ctx s clobPairId)"
    have f: "between_zero_and (sint ?f) (sint ?base)"
      by (rule charge_ppm_between[OF discount_bounds(1)[OF ok]])
    have "fee = ?f \<or> (\<exists>d \<le> MaxChargePpm. fee = charge_ppm ?f (MaxChargePpm - d))"
      using run discount_bounds(2)[OF ok] unfolding GetPerpetualFeePpm_def
      by (auto simp: bindM_def liftM_def retM_def tier Let_def split: if_splits sum.splits prod.splits)
    then show ?thesis
      using f charge_ppm_between remaining_ppm between_zero_and_trans by blast
  qed
  then show ?thesis using i unfolding tier by auto
qed

definition ex_fees :: fee_store where
  "ex_fees = \<lparr>fe_tiers =
      [\<lparr>ft_Name = ''1'', ft_AbsoluteVolumeRequirement = 0, ft_TotalVolumeShareRequirementPpm = 0,
        ft_MakerVolumeShareRequirementPpm = 0, ft_MakerFeePpm = - 110, ft_TakerFeePpm = 500\<rparr>,
       \<lparr>ft_Name = ''2'', ft_AbsoluteVolumeRequirement = 1000000, ft_TotalVolumeShareRequirementPpm = 0,
        ft_MakerVolumeShareRequirementPpm = 0, ft_MakerFeePpm = - 110, ft_TakerFeePpm = 450\<rparr>],
     fe_discounts = [(0, \<lparr>fd_ClobPairId = 0, fd_StartTime = 0, fd_EndTime = 100000000000000000000, fd_ChargePpm = 500000\<rparr>)],
     fe_stakingTiers = []\<rparr>"

definition ex_staking :: "(unit, unit) staking" where
  "ex_staking = \<lparr>x_DelegatorFromBech32 = Inr, x_GetDelegatorDelegations = (\<lambda>_. Inr []),
     x_ValAddressFromBech32 = (\<lambda>_. Inr ''''), x_GetValidator = (\<lambda>_. Inr ()), x_TokensFromShares = (\<lambda>_ _. 0)\<rparr>"

theorem fee_between_zero_and_tier_fee_witness:
  "case getUserFeeTier {} ex_fees ex_stats ex_affiliates ''alice'' 0 of Inl _ \<Rightarrow> False | Inr (i, tier) \<Rightarrow>
     unat i = user_tier_index {} ex_fees ex_stats ex_affiliates ''alice'' 0 \<and>
     (\<forall>fee stats'. GetPerpetualFeePpm ex_staking Inr {} (ex_block 5 2000) ex_fees ex_affiliates ''alice'' True 0 0 ex_stats
        = (Inr fee, stats') \<longrightarrow> between_zero_and (sint fee) (sint (ft_TakerFeePpm tier)))"
proof -
  have "discounts_ok ex_fees"
    by (auto simp: discounts_ok_def ex_fees_def gm_get_def MaxChargePpm_def split: if_splits)
  moreover have "fe_tiers ex_fees \<noteq> []" "length (fe_tiers ex_fees) < 2 ^ 32" by (simp_all add: ex_fees_def)
  ultimately show ?thesis
    using fee_between_zero_and_tier_fee[where s = ex_fees and vaults = "{}" and stats = ex_stats and affs = ex_affiliates
        and address = "''alice''" and override = 0 and sx = ex_staking and fb = Inr and ctx = "ex_block 5 2000"
        and isTaker = True and clobPairId = 0]
    by (auto split: sum.splits prod.splits)
qed


end
