(* ===== verification/Transfers.thy ===== *)
theory Transfers
  imports SubaccountSafety RevShare
begin

text \<open>
  Movements of money of the subaccounts keeper (\<^verbatim>\<open>x/subaccounts/keeper/transfer.go\<close>): deposits,
  withdrawals, transfers between accounts, fees, insurance fund payments, builder fees and the
  consolidation of an isolated market's funds. The bank is a parameter (\<open>x_SendCoins\<close>,
  \<open>x_GetBalance\<close>); what the properties use of it is the predicate \<open>bank_law\<close>. Metrics are left out.
\<close>

section \<open>Definitions\<close>

definition usdc_update :: "SubaccountId \<Rightarrow> int \<Rightarrow> Update" where
  "usdc_update subaccountId delta =
     \<lparr>u_SubaccountId = subaccountId,
      u_AssetUpdates = [\<lparr>au_AssetId = AssetUsdcId, au_BigQuantumsDelta = delta\<rparr>], u_PerpetualUpdates = []\<rparr>"

definition getValidSubaccountUpdatesForTransfer ::
  "'b keeper_state \<Rightarrow> SubaccountId \<Rightarrow> uint32 \<Rightarrow> int \<Rightarrow> bool \<Rightarrow> Update list res" where
  "getValidSubaccountUpdatesForTransfer s subaccountId assetId quantums isToSubaccount =
     (let bigBalanceDelta = (if \<not> isToSubaccount then - quantums else quantums)
      in if assetId = 0
         then let updates = [usdc_update subaccountId bigBalanceDelta]
              in bindr (CanUpdateSubaccounts s updates Transfer) (\<lambda>(success, successPerUpdate).
                 bindr (GetErrorFromUpdateResults success successPerUpdate updates) (\<lambda>_. Inr updates))
         else Inl (Err ''ErrAssetTransferThroughBankNotImplemented''))"

definition applyValidSubaccountUpdateForTransfer ::
  "'b sdk \<Rightarrow> Update list \<Rightarrow> UpdateType \<Rightarrow> ('b keeper_state, unit) step" where
  "applyValidSubaccountUpdateForTransfer x updates updateType =
     bindM (UpdateSubaccounts x updates updateType) (\<lambda>(success, successPerUpdate).
       liftM (\<lambda>_. GetErrorFromUpdateResults success successPerUpdate updates))"

definition DepositFundsFromAccountToSubaccount ::
  "'b sdk \<Rightarrow> string \<Rightarrow> SubaccountId \<Rightarrow> uint32 \<Rightarrow> int \<Rightarrow> ('b keeper_state, unit) step" where
  "DepositFundsFromAccountToSubaccount x fromAccount toSubaccountId assetId quantums =
     (if assetId \<noteq> AssetUsdcId then failM (Err ''ErrAssetTransferThroughBankNotImplemented'')
      else if sgn quantums \<le> 0 then failM (Err ''ErrAssetTransferQuantumsNotPositive'')
      else bindM (liftM (\<lambda>s. ConvertAssetToCoin (x_NewCoin x) (ks_assets s) assetId quantums))
        (\<lambda>(convertedQuantums, coinToTransfer).
         bindM (liftM (\<lambda>s. getValidSubaccountUpdatesForTransfer s toSubaccountId assetId convertedQuantums True)) (\<lambda>updates.
         bindM (liftM (\<lambda>s. GetCollateralPoolForSubaccount x s toSubaccountId)) (\<lambda>collateralPoolAddr.
         bindM (on_bank (x_SendCoins x fromAccount collateralPoolAddr [coinToTransfer])) (\<lambda>_.
           applyValidSubaccountUpdateForTransfer x updates Deposit)))))"

definition WithdrawFundsFromSubaccountToAccount ::
  "'b sdk \<Rightarrow> SubaccountId \<Rightarrow> string \<Rightarrow> uint32 \<Rightarrow> int \<Rightarrow> ('b keeper_state, unit) step" where
  "WithdrawFundsFromSubaccountToAccount x fromSubaccountId toAccount assetId quantums =
     (if assetId \<noteq> AssetUsdcId then failM (Err ''ErrAssetTransferThroughBankNotImplemented'')
      else if sgn quantums \<le> 0 then failM (Err ''ErrAssetTransferQuantumsNotPositive'')
      else bindM (liftM (\<lambda>s. ConvertAssetToCoin (x_NewCoin x) (ks_assets s) assetId quantums))
        (\<lambda>(convertedQuantums, coinToTransfer).
         bindM (liftM (\<lambda>s. getValidSubaccountUpdatesForTransfer s fromSubaccountId assetId convertedQuantums False)) (\<lambda>updates.
         bindM (liftM (\<lambda>s. GetCollateralPoolForSubaccount x s fromSubaccountId)) (\<lambda>collateralPoolAddr.
           if x_BlockedAddr x toAccount then failM (Err ''ErrUnauthorized'')
           else bindM (on_bank (x_SendCoins x collateralPoolAddr toAccount [coinToTransfer])) (\<lambda>_.
             applyValidSubaccountUpdateForTransfer x updates Withdrawal)))))"

definition TransferFees ::
  "'b sdk \<Rightarrow> uint32 \<Rightarrow> string \<Rightarrow> string \<Rightarrow> int \<Rightarrow> ('b keeper_state, unit) step" where
  "TransferFees x assetId fromAddr toAddr quantums =
     (if assetId \<noteq> AssetUsdcId then failM (Err ''ErrAssetTransferThroughBankNotImplemented'')
      else if sgn quantums = 0 then retM ()
      else bindM (liftM (\<lambda>s. ConvertAssetToCoin (x_NewCoin x) (ks_assets s) assetId \<bar>quantums\<bar>)) (\<lambda>(_, coinToTransfer).
        let (fromAddr, toAddr) = (if sgn quantums < 0 then (toAddr, fromAddr) else (fromAddr, toAddr))
        in on_bank (x_SendCoins x fromAddr toAddr [coinToTransfer])))"

definition distribute_share :: "'b sdk \<Rightarrow> uint32 \<Rightarrow> string \<Rightarrow> RevShare \<Rightarrow> ('b keeper_state, unit) step" where
  "distribute_share x assetId collateralPoolAddr revShare =
     bindM (liftM (\<lambda>_. x_AccAddressFromBech32 x (rs_Recipient revShare))) (\<lambda>recipientAddress.
       TransferFees x assetId collateralPoolAddr recipientAddress (rs_QuoteQuantums revShare))"

definition source_or_zero :: "(RevShareFeeSource \<Rightarrow> int option) \<Rightarrow> RevShareFeeSource \<Rightarrow> int" where
  "source_or_zero m src = (case m src of Some value \<Rightarrow> value | None \<Rightarrow> 0)"

definition FeeCollectorName :: string where
  "FeeCollectorName = ''fee_collector''"

definition DistributeFees ::
  "'b sdk \<Rightarrow> uint32 \<Rightarrow> RevSharesForFill \<Rightarrow> FillForProcess \<Rightarrow> ('b keeper_state, unit) step" where
  "DistributeFees x assetId revSharesForFill fill =
     (let totalFeeQuoteQuantums = fp_TakerFeeQuoteQuantums fill + fp_MakerFeeQuoteQuantums fill
      in bindM (liftM (\<lambda>s. GetPerpetual (ks_perps s) (fp_ProductId fill))) (\<lambda>perpetual.
         bindM (liftM (\<lambda>s. GetCollateralPoolFromPerpetualId x s (fp_ProductId fill))) (\<lambda>collateralPoolAddr.
         bindM (forM (distribute_share x assetId collateralPoolAddr) (rf_AllRevShares revSharesForFill)) (\<lambda>_.
           let m = rf_FeeSourceToQuoteQuantums revSharesForFill;
               totalRevShareQuoteQuantums =
                 source_or_zero m REV_SHARE_FEE_SOURCE_TAKER_FEE + source_or_zero m REV_SHARE_FEE_SOURCE_MAKER_FEE
                 + source_or_zero m REV_SHARE_FEE_SOURCE_NET_PROTOCOL_REVENUE;
               feeCollectorShare = totalFeeQuoteQuantums - totalRevShareQuoteQuantums
           in if sgn feeCollectorShare < 0 then failM (Panic ''fee collector share is < 0'')
              else TransferFees x assetId collateralPoolAddr (x_NewModuleAddress x FeeCollectorName) feeCollectorShare))))"

definition TransferInsuranceFundPayments :: "'b sdk \<Rightarrow> int \<Rightarrow> uint32 \<Rightarrow> ('b keeper_state, unit) step" where
  "TransferInsuranceFundPayments x insuranceFundDelta perpetualId =
     (if sgn insuranceFundDelta = 0 then retM ()
      else bindM (liftM (\<lambda>s. must (ConvertAssetToCoin (x_NewCoin x) (ks_assets s) AssetUsdcId \<bar>insuranceFundDelta\<bar>)))
        (\<lambda>(_, coinToTransfer).
         bindM (liftM (\<lambda>s. must (GetCollateralPoolFromPerpetualId x s perpetualId))) (\<lambda>fromModule.
         bindM (liftM (\<lambda>s. must (GetInsuranceFundModuleAddress x s perpetualId))) (\<lambda>toModule.
           let (fromModule, toModule) =
                 (if sgn insuranceFundDelta < 0 then (toModule, fromModule) else (fromModule, toModule))
           in on_bank (x_SendCoins x fromModule toModule [coinToTransfer])))))"

definition TransferBuilderFees :: "'b sdk \<Rightarrow> uint32 \<Rightarrow> int \<Rightarrow> string \<Rightarrow> ('b keeper_state, unit) step" where
  "TransferBuilderFees x productId builderFeeQuantums builderAddress =
     bindM (liftM (\<lambda>s. GetCollateralPoolFromPerpetualId x s productId)) (\<lambda>collateralPoolAddr.
       if sgn builderFeeQuantums < 0 then failM (Panic ''builder fee quantums is negative'')
       else bindM (liftM (\<lambda>s. must (ConvertAssetToCoin (x_NewCoin x) (ks_assets s) AssetUsdcId builderFeeQuantums)))
         (\<lambda>(_, coinToTransfer).
          bindM (liftM (\<lambda>_. x_AccAddressFromBech32 x builderAddress)) (\<lambda>recipient.
            if x_BlockedAddr x recipient then failM (Err ''ErrUnauthorized'')
            else on_bank (x_SendCoins x collateralPoolAddr recipient [coinToTransfer]))))"

definition TransferFundsFromSubaccountToSubaccount ::
  "'b sdk \<Rightarrow> SubaccountId \<Rightarrow> SubaccountId \<Rightarrow> uint32 \<Rightarrow> int \<Rightarrow> ('b keeper_state, unit) step" where
  "TransferFundsFromSubaccountToSubaccount x senderSubaccountId recipientSubaccountId assetId quantums =
     (if assetId \<noteq> AssetUsdcId then failM (Err ''ErrAssetTransferThroughBankNotImplemented'')
      else let updates = [usdc_update senderSubaccountId (- quantums), usdc_update recipientSubaccountId quantums]
           in bindM (liftM (\<lambda>s. CanUpdateSubaccounts s updates Transfer)) (\<lambda>(success, successPerUpdate).
              bindM (liftM (\<lambda>_. GetErrorFromUpdateResults success successPerUpdate updates)) (\<lambda>_.
              bindM (liftM (\<lambda>s. ConvertAssetToCoin (x_NewCoin x) (ks_assets s) assetId quantums)) (\<lambda>(_, coinToTransfer).
              bindM (liftM (\<lambda>s. GetCollateralPoolForSubaccount x s senderSubaccountId)) (\<lambda>senderCollateralPoolAddr.
              bindM (liftM (\<lambda>s. GetCollateralPoolForSubaccount x s recipientSubaccountId)) (\<lambda>recipientCollateralPoolAddr.
              bindM (if senderCollateralPoolAddr \<noteq> recipientCollateralPoolAddr
                     then on_bank (x_SendCoins x senderCollateralPoolAddr recipientCollateralPoolAddr [coinToTransfer])
                     else retM ()) (\<lambda>_.
                applyValidSubaccountUpdateForTransfer x updates Transfer)))))))"

text \<open>A nil balance dereferenced by \<^verbatim>\<open>Sign\<close> panics.\<close>

definition TransferIsolatedInsuranceFundToCross :: "'b sdk \<Rightarrow> uint32 \<Rightarrow> ('b keeper_state, unit) step" where
  "TransferIsolatedInsuranceFundToCross x perpetualId =
     bindM (liftM (\<lambda>s. GetPerpetual (ks_perps s) perpetualId)) (\<lambda>_.
     bindM (liftM (\<lambda>s. bindr (GetInsuranceFundBalance x s perpetualId) (\<lambda>b.
              case b of None \<Rightarrow> Inl (Panic ''nil pointer dereference'') | Some v \<Rightarrow> Inr v))) (\<lambda>isolatedInsuranceFundBalance.
       if sgn isolatedInsuranceFundBalance = 0 then retM ()
       else bindM (liftM (\<lambda>s. case GetAsset (ks_assets s) AssetUsdcId of
                    None \<Rightarrow> Inl (Err ''USDC asset not found in state'') | Some a \<Rightarrow> Inr a)) (\<lambda>_.
            bindM (liftM (\<lambda>s. ConvertAssetToCoin (x_NewCoin x) (ks_assets s) AssetUsdcId isolatedInsuranceFundBalance))
              (\<lambda>(_, coinToTransfer).
            bindM (liftM (\<lambda>s. GetInsuranceFundModuleAddress x s perpetualId)) (\<lambda>isolatedInsuranceFundAddr.
              on_bank (x_SendCoins x isolatedInsuranceFundAddr (x_NewModuleAddress x InsuranceFundName)
                 [coinToTransfer]))))))"

definition TransferIsolatedCollateralToCross :: "'b sdk \<Rightarrow> uint32 \<Rightarrow> ('b keeper_state, unit) step" where
  "TransferIsolatedCollateralToCross x perpetualId =
     bindM (liftM (\<lambda>s. GetPerpetual (ks_perps s) perpetualId)) (\<lambda>_.
     bindM (liftM (\<lambda>s. GetCollateralPoolFromPerpetualId x s perpetualId)) (\<lambda>isolatedCollateralPoolAddr.
     bindM (liftM (\<lambda>s. case GetAsset (ks_assets s) AssetUsdcId of
                None \<Rightarrow> Inl (Panic ''TransferIsolatedCollateralToCross: Usdc asset not found in state'')
              | Some a \<Rightarrow> Inr a)) (\<lambda>usdcAsset.
     bindM (liftM (\<lambda>s. Inr (x_GetBalance x (ks_bank s) isolatedCollateralPoolAddr (a_Denom usdcAsset)))) (\<lambda>balance.
       if balance = 0 then retM ()
       else on_bank (x_SendCoins x isolatedCollateralPoolAddr (ModuleAddress x)
              [\<lparr>co_Denom = a_Denom usdcAsset, co_Amount = balance\<rparr>])))))"

section \<open>The bank\<close>

text \<open>A successful transfer of one coin moves its amount and nothing else.\<close>

definition bal :: "'b sdk \<Rightarrow> 'b keeper_state \<Rightarrow> string \<Rightarrow> string \<Rightarrow> int" where
  "bal x s a d = x_GetBalance x (ks_bank s) a d"

definition moved :: "string \<Rightarrow> string \<Rightarrow> string \<Rightarrow> int \<Rightarrow> string \<Rightarrow> string \<Rightarrow> int" where
  "moved from to denom amount a d =
     (if d = denom then (if a = to then amount else 0) - (if a = from then amount else 0) else 0)"

definition bank_law :: "'b sdk \<Rightarrow> bool" where
  "bank_law x \<longleftrightarrow> (\<forall>from to c b b'. x_SendCoins x from to [c] b = (Inr (), b') \<longrightarrow>
     (\<forall>a d. x_GetBalance x b' a d = x_GetBalance x b a d + moved from to (co_Denom c) (co_Amount c) a d))"

lemma SendCoins_bal:
  assumes "bank_law x" "on_bank (x_SendCoins x from to [c]) s = (Inr (), s')"
  shows "\<exists>b. s' = s\<lparr>ks_bank := b\<rparr>"
    and "bal x s' a d = bal x s a d + moved from to (co_Denom c) (co_Amount c) a d"
  using assms by (auto simp: on_bank_def bank_law_def bal_def split: prod.splits)

lemma SendCoins_state:
  assumes "on_bank m s = (r, s')"
  shows "\<exists>b. s' = s\<lparr>ks_bank := b\<rparr>"
  using assms by (auto simp: on_bank_def split: prod.splits)

lemma bank_irrelevant [simp]:
  "GetSubaccount (s\<lparr>ks_bank := b\<rparr>) = GetSubaccount s"
  "keeper_ok (s\<lparr>ks_bank := b\<rparr>) = keeper_ok s"
  "GetAllRelevantPerpetuals (s\<lparr>ks_bank := b\<rparr>) = GetAllRelevantPerpetuals s"
  by (simp_all add: GetSubaccount_def keeper_ok_def GetAllRelevantPerpetuals_def relevant_perp_ids_def fun_eq_iff)

section \<open>Updates of the quote balance\<close>

text \<open>An update of the quote balance only: no collateral changes pool, the balance moves by the delta.\<close>

lemma asset_update_bank:
  assumes "UpdateSubaccounts x us ty s = (Inr (True, rs), s')" "\<forall>u \<in> set us. u_PerpetualUpdates u = []"
  shows "ks_bank s' = ks_bank s"
proof -
  from UpdateSubaccounts_success[OF assms(1)] obtain pis sus fps d nus s1 s2 where
    u: "getSettledUpdates s us pis True = Inr (sus, fps)"
    "modify_open_interest d s = (Inr (), s1)" "map_res (apply_settled_update pis) sus = Inr nus"
    "forM (computeAndExecuteCollateralTransfer x pis) nus s1 = (Inr (), s2)"
    "s' = fold (store_settled_update fps) nus s2" by metis
  have "list_all2 (settled_of s pis) us sus" using getSettledUpdates_settled(1)[OF u(1)] .
  then have "\<forall>su \<in> set sus. su_PerpetualUpdates su = []"
    using assms(2) by (induction rule: list_all2_induct) (auto simp: settled_of_def)
  then have "\<forall>nu \<in> set nus. su_PerpetualUpdates nu = []"
    using u(3) by (induction sus arbitrary: nus) (auto simp: bindr_eq_Inr apply_settled_update_def)
  then have "forM (computeAndExecuteCollateralTransfer x pis) nus s1 = (Inr (), s1)"
    by (induction nus) (auto simp: computeAndExecuteCollateralTransfer_def GetIsolatedPerpetualStateTransition_def
        transferCollateralForIsolatedPerpetual_def bindM_def liftM_def retM_def)
  moreover have "ks_bank s1 = ks_bank s" using modify_open_interest_frame[OF u(2)] by (metis keeper_state.select_convs(8) keeper_state.surjective keeper_state.update_convs(4))
  moreover have "ks_bank (fold (store_settled_update fps) nus s2) = ks_bank s2"
    by (induction nus arbitrary: s2) (auto simp: store_settled_update_def SetSubaccount_def Let_def)
  ultimately show ?thesis using u(4,5) by simp
qed

lemma update_settled:
  assumes ok: "keeper_ok s" and upd: "UpdateSubaccounts x us ty s = (Inr (True, rs), s')" and u: "u \<in> set us"
  shows "\<exists>pis sa0 sa1 f. infos_from (ks_perps s) pis \<and>
    GetSettledSubaccountWithPerpetuals (GetSubaccount s (u_SubaccountId u)) pis = Inr (sa0, f) \<and> sorted_subaccount sa0 \<and>
    sa_AssetPositions sa1 = CalculateUpdatedAssetPositions (sa_AssetPositions sa0) (u_AssetUpdates u) \<and>
    CalculateUpdatedPerpetualPositions (sa_PerpetualPositions sa0) (u_PerpetualUpdates u) pis = Inr (sa_PerpetualPositions sa1) \<and>
    ks_subaccounts s' (u_SubaccountId u) = (if is_empty_account sa1 then None else Some sa1) \<and>
    (\<forall>k. held po_PerpetualId po_Quantums (sa_PerpetualPositions (GetSubaccount s' (u_SubaccountId u))) k =
      held po_PerpetualId po_Quantums (sa_PerpetualPositions (GetSubaccount s (u_SubaccountId u))) k +
      (\<Sum>p\<leftarrow>u_PerpetualUpdates u. if pu_PerpetualId p = k then pu_BigQuantumsDelta p else 0))"
proof -
  obtain pis sus nus where b: "batch_run s us ty rs s' pis sus nus" using UpdateSubaccounts_batch[OF ok upd] by blast
  have all: "GetAllRelevantPerpetuals s us = Inr pis" using b by (simp add: batch_run_def)
  have l: "list_all2 (settled_of s pis) us sus" "list_all2 (\<lambda>su nu. apply_settled_update pis su = Inr nu) sus nus"
    "map (\<lambda>u. sa_Id (su_SettledSubaccount u)) nus = map u_SubaccountId us" using b by (simp_all add: batch_run_def)
  obtain su nu where st: "settled_of s pis u su" "apply_settled_update pis su = Inr nu" "nu \<in> set nus"
    "sa_Id (su_SettledSubaccount nu) = u_SubaccountId u"
    by (rule list_all2_compose_in[OF l u])
  have stored: "ks_subaccounts s' (u_SubaccountId u) =
      (if is_empty_account (su_SettledSubaccount nu) then None else Some (su_SettledSubaccount nu))"
    using b st(3,4) by (auto simp: batch_run_def)
  obtain f where f: "GetSettledSubaccountWithPerpetuals (GetSubaccount s (u_SubaccountId u)) pis = Inr (su_SettledSubaccount su, f)"
    "su_AssetUpdates su = u_AssetUpdates u" "su_PerpetualUpdates su = u_PerpetualUpdates u"
    using st(1) by (auto simp: settled_of_def)
  have sa: "sa_AssetPositions (su_SettledSubaccount nu) =
       CalculateUpdatedAssetPositions (sa_AssetPositions (su_SettledSubaccount su)) (u_AssetUpdates u)"
    "CalculateUpdatedPerpetualPositions (sa_PerpetualPositions (su_SettledSubaccount su)) (u_PerpetualUpdates u) pis =
       Inr (sa_PerpetualPositions (su_SettledSubaccount nu))"
    using st(2) f(2,3) by (auto simp: apply_settled_update_def CalculateUpdatedSubaccount_def res_simps Let_def)
  show ?thesis
    using GetAllRelevantPerpetuals_infos(1)[OF all] f(1) batch_held(1)[OF ok all u st(1,2) stored] sa stored
      batch_held(3)[OF ok all u st(1,2) stored] by blast
qed

lemma GetUsdcPosition_stored:
  "ks_subaccounts s' i = (if is_empty_account sa then None else Some sa) \<Longrightarrow>
   GetUsdcPosition (GetSubaccount s' i) = GetUsdcPosition sa"
  by (auto simp: GetSubaccount_def is_empty_account_def GetUsdcPosition_def getUsdcAssetPosition_def)

lemma updated_usdc:
  assumes "sorted_subaccount sa0"
    and "sa_AssetPositions sa1 =
       CalculateUpdatedAssetPositions (sa_AssetPositions sa0) [\<lparr>au_AssetId = AssetUsdcId, au_BigQuantumsDelta = delta\<rparr>]"
  shows "GetUsdcPosition sa1 = GetUsdcPosition sa0 + delta"
proof -
  have a0: "sorted_wrt (<) (map ap_AssetId (sa_AssetPositions sa0))" using assms(1) by (simp add: sorted_subaccount_def)
  show ?thesis
    using CalculateUpdatedAssetPositions_adds[OF a0] assms(2) by (simp add: GetUsdcPosition_held[OF a0] GetUsdcPosition_held[of sa1])
qed

definition usdc_moved :: "'b keeper_state \<Rightarrow> 'b keeper_state \<Rightarrow> SubaccountId \<Rightarrow> int \<Rightarrow> bool" where
  "usdc_moved s s' i delta \<longleftrightarrow> (\<exists>pis sa0 f. infos_from (ks_perps s) pis \<and>
     GetSettledSubaccountWithPerpetuals (GetSubaccount s i) pis = Inr (sa0, f) \<and>
     GetUsdcPosition (GetSubaccount s' i) = GetUsdcPosition sa0 + delta \<and>
     sa_PerpetualPositions (GetSubaccount s' i) = sa_PerpetualPositions sa0)"

lemma usdc_update_moves:
  assumes ok: "keeper_ok s" and upd: "UpdateSubaccounts x us ty s = (Inr (True, rs), s')"
    and u: "usdc_update i delta \<in> set us"
  shows "usdc_moved s s' i delta"
proof -
  obtain pis sa0 sa1 f where b: "infos_from (ks_perps s) pis"
    "GetSettledSubaccountWithPerpetuals (GetSubaccount s i) pis = Inr (sa0, f)"
    "sorted_subaccount sa0"
    "sa_AssetPositions sa1 = CalculateUpdatedAssetPositions (sa_AssetPositions sa0)
       [\<lparr>au_AssetId = AssetUsdcId, au_BigQuantumsDelta = delta\<rparr>]"
    "CalculateUpdatedPerpetualPositions (sa_PerpetualPositions sa0) [] pis =
       Inr (sa_PerpetualPositions sa1)"
    "ks_subaccounts s' i = (if is_empty_account sa1 then None else Some sa1)"
    using update_settled[OF ok upd u, unfolded usdc_update_def Update.simps] by blast
  have p0: "sorted_wrt (<) (map po_PerpetualId (sa_PerpetualPositions sa0))"
    using b(3) by (simp add: sorted_subaccount_def)
  have "sa_PerpetualPositions sa1 = sa_PerpetualPositions sa0"
    using b(5) gm_vals_of_list[OF p0] by (simp add: CalculateUpdatedPerpetualPositions_def)
  then show ?thesis
    using b(1,2) updated_usdc[OF b(3,4)] GetUsdcPosition_stored[OF b(6)] GetSubaccount_stored[OF b(6)]
    unfolding usdc_moved_def by auto
qed

lemma apply_transfer_success:
  assumes ok: "keeper_ok s" and run: "applyValidSubaccountUpdateForTransfer x us ty s = (Inr (), s')"
    and us: "\<forall>u \<in> set us. u_PerpetualUpdates u = []"
  shows "ks_bank s' = ks_bank s" "keeper_ok s'" "\<And>i d. usdc_update i d \<in> set us \<Longrightarrow> usdc_moved s s' i d"
    "\<And>i. i \<notin> u_SubaccountId ` set us \<Longrightarrow> ks_subaccounts s' i = ks_subaccounts s i"
proof -
  obtain rs where upd: "UpdateSubaccounts x us ty s = (Inr (True, rs), s')"
    using run by (auto simp: applyValidSubaccountUpdateForTransfer_def step_simps GetErrorFromUpdateResults_def
        split: if_splits option.splits)
  show "ks_bank s' = ks_bank s" by (rule asset_update_bank[OF upd us])
  show "keeper_ok s'" by (rule UpdateSubaccounts_keeper_ok_success[OF ok upd])
  show "\<And>i d. usdc_update i d \<in> set us \<Longrightarrow> usdc_moved s s' i d" by (rule usdc_update_moves[OF ok upd])
  obtain pis sus nus where "batch_run s us ty rs s' pis sus nus" using UpdateSubaccounts_batch[OF ok upd] by blast
  then show "\<And>i. i \<notin> u_SubaccountId ` set us \<Longrightarrow> ks_subaccounts s' i = ks_subaccounts s i"
    by (simp add: batch_run_def)
qed

lemma usdc_moved_bank [simp]: "usdc_moved (s\<lparr>ks_bank := b\<rparr>) s' i d = usdc_moved s s' i d"
  by (simp add: usdc_moved_def)

lemma getValid_updates:
  assumes "getValidSubaccountUpdatesForTransfer s i AssetUsdcId q to = Inr us"
  shows "us = [usdc_update i (if to then q else - q)]"
  using assms by (auto simp: getValidSubaccountUpdatesForTransfer_def Let_def res_simps split: if_splits)

text \<open>The effect of sending a coin and then updating quote balances.\<close>

lemma send_then_apply:
  assumes ok: "keeper_ok s" and law: "bank_law x"
    and send: "on_bank (x_SendCoins x from to [c]) s = (Inr (), s1)"
    and run: "applyValidSubaccountUpdateForTransfer x us ty s1 = (Inr (), s')"
    and us: "\<forall>u \<in> set us. u_PerpetualUpdates u = []"
  shows "keeper_ok s'" "bal x s' a d = bal x s a d + moved from to (co_Denom c) (co_Amount c) a d"
    "\<And>i d. usdc_update i d \<in> set us \<Longrightarrow> usdc_moved s s' i d"
    "\<And>i. i \<notin> u_SubaccountId ` set us \<Longrightarrow> ks_subaccounts s' i = ks_subaccounts s i"
proof -
  obtain b where s1: "s1 = s\<lparr>ks_bank := b\<rparr>" using SendCoins_state[OF send] by blast
  have "keeper_ok s1" using ok s1 by simp
  note a = apply_transfer_success[OF this run us]
  show "keeper_ok s'" by (rule a(2))
  have "bal x s' a d = bal x s1 a d" using a(1) by (simp add: bal_def)
  also have "\<dots> = bal x s a d + moved from to (co_Denom c) (co_Amount c) a d" by (rule SendCoins_bal(2)[OF law send])
  finally show "bal x s' a d = bal x s a d + moved from to (co_Denom c) (co_Amount c) a d" .
  show "\<And>i d. usdc_update i d \<in> set us \<Longrightarrow> usdc_moved s s' i d"
    using a(3) unfolding s1 usdc_moved_bank .
  show "\<And>i. i \<notin> u_SubaccountId ` set us \<Longrightarrow> ks_subaccounts s' i = ks_subaccounts s i"
    using a(4) s1 by simp
qed

text \<open>A coin moved in the bank and a quote balance with it; nothing else changed.\<close>

definition cash_moved ::
  "'b sdk \<Rightarrow> 'b keeper_state \<Rightarrow> 'b keeper_state \<Rightarrow> SubaccountId \<Rightarrow> int \<Rightarrow> string \<Rightarrow> string \<Rightarrow> Coin \<Rightarrow> bool" where
  "cash_moved x s s' i delta from to c \<longleftrightarrow>
     (\<forall>a d. bal x s' a d = bal x s a d + moved from to (co_Denom c) (co_Amount c) a d) \<and>
     usdc_moved s s' i delta \<and> (\<forall>j. j \<noteq> i \<longrightarrow> ks_subaccounts s' j = ks_subaccounts s j) \<and> keeper_ok s'"

lemma single_update_moved:
  assumes ok: "keeper_ok s" and law: "bank_law x"
    and send: "on_bank (x_SendCoins x from to [c]) s = (Inr (), s1)"
    and run: "applyValidSubaccountUpdateForTransfer x [usdc_update i delta] ty s1 = (Inr (), s')"
  shows "cash_moved x s s' i delta from to c"
  using send_then_apply[OF ok law send run] by (auto simp: cash_moved_def usdc_update_def)

lemma deposit_run:
  assumes "DepositFundsFromAccountToSubaccount x account i assetId q s = (Inr (), s')"
  obtains cq c us pool s1 where "0 < q" "ConvertAssetToCoin (x_NewCoin x) (ks_assets s) AssetUsdcId q = Inr (cq, c)"
    "getValidSubaccountUpdatesForTransfer s i AssetUsdcId cq True = Inr us"
    "GetCollateralPoolForSubaccount x s i = Inr pool"
    "on_bank (x_SendCoins x account pool [c]) s = (Inr (), s1)"
    "applyValidSubaccountUpdateForTransfer x us Deposit s1 = (Inr (), s')"
  using assms by (auto simp: DepositFundsFromAccountToSubaccount_def step_simps not_le split: if_splits)

lemma withdraw_run:
  assumes "WithdrawFundsFromSubaccountToAccount x i account assetId q s = (Inr (), s')"
  obtains cq c us pool s1 where "0 < q" "ConvertAssetToCoin (x_NewCoin x) (ks_assets s) AssetUsdcId q = Inr (cq, c)"
    "getValidSubaccountUpdatesForTransfer s i AssetUsdcId cq False = Inr us"
    "GetCollateralPoolForSubaccount x s i = Inr pool" "\<not> x_BlockedAddr x account"
    "on_bank (x_SendCoins x pool account [c]) s = (Inr (), s1)"
    "applyValidSubaccountUpdateForTransfer x us Withdrawal s1 = (Inr (), s')"
  using assms by (auto simp: WithdrawFundsFromSubaccountToAccount_def step_simps not_le split: if_splits)

text \<open>
  C14: Deposits and withdrawals are exact. When a deposit succeeds, the amount was positive, the coin
  that the asset converts to moved from the depositor to the collateral pool of the account and
  nowhere else, the account's settled quote balance grew by exactly the quantums the coin stands
  for, its perpetual positions and all other accounts are unchanged and the store invariant holds;
  a withdrawal is the mirror image, and never goes to a blocked address.
\<close>

theorem deposit_withdraw_exact:
  assumes ok: "keeper_ok s" and law: "bank_law x"
    and run: "(r, s') = (if deposit then DepositFundsFromAccountToSubaccount x account i assetId q s
       else WithdrawFundsFromSubaccountToAccount x i account assetId q s)" and "r = Inr ()"
  shows "\<exists>cq c pool. 0 < q \<and> ConvertAssetToCoin (x_NewCoin x) (ks_assets s) AssetUsdcId q = Inr (cq, c) \<and>
    GetCollateralPoolForSubaccount x s i = Inr pool \<and>
    (if deposit then cash_moved x s s' i cq account pool c
     else \<not> x_BlockedAddr x account \<and> cash_moved x s s' i (- cq) pool account c)"
proof (cases deposit)
  case True
  then have "DepositFundsFromAccountToSubaccount x account i assetId q s = (Inr (), s')"
    using run assms(4) by simp
  then show ?thesis
  proof (rule deposit_run)
    fix cq c us pool s1
    assume r: "0 < q" "ConvertAssetToCoin (x_NewCoin x) (ks_assets s) AssetUsdcId q = Inr (cq, c)"
      "getValidSubaccountUpdatesForTransfer s i AssetUsdcId cq True = Inr us"
      "GetCollateralPoolForSubaccount x s i = Inr pool"
      "on_bank (x_SendCoins x account pool [c]) s = (Inr (), s1)"
      "applyValidSubaccountUpdateForTransfer x us Deposit s1 = (Inr (), s')"
    have "us = [usdc_update i cq]" using getValid_updates[OF r(3)] by simp
    from single_update_moved[OF ok law r(5) r(6)[unfolded this]] r(1,2,4) show ?thesis
      using True by simp
  qed
next
  case False
  then have "WithdrawFundsFromSubaccountToAccount x i account assetId q s = (Inr (), s')"
    using run assms(4) by simp
  then show ?thesis
  proof (rule withdraw_run)
    fix cq c us pool s1
    assume r: "0 < q" "ConvertAssetToCoin (x_NewCoin x) (ks_assets s) AssetUsdcId q = Inr (cq, c)"
      "getValidSubaccountUpdatesForTransfer s i AssetUsdcId cq False = Inr us"
      "GetCollateralPoolForSubaccount x s i = Inr pool" "\<not> x_BlockedAddr x account"
      "on_bank (x_SendCoins x pool account [c]) s = (Inr (), s1)"
      "applyValidSubaccountUpdateForTransfer x us Withdrawal s1 = (Inr (), s')"
    have "us = [usdc_update i (- cq)]" using getValid_updates[OF r(3)] by simp
    from single_update_moved[OF ok law r(6) r(7)[unfolded this]] r(1,2,4,5) show ?thesis
      using False by simp
  qed
qed

text \<open>
  C15: A transfer between two accounts conserves money: when it succeeds, the sender's settled quote
  balance drops and the recipient's grows by exactly the same amount, no other account changes,
  and either both accounts share a collateral pool and no coin moves, or the coin the amount
  converts to moves from the sender's pool to the recipient's.
\<close>

theorem subaccount_transfer_conserves:
  assumes ok: "keeper_ok s" and law: "bank_law x"
    and run: "TransferFundsFromSubaccountToSubaccount x i j assetId q s = (Inr (), s')"
  shows "\<exists>c ci pi pj. ConvertAssetToCoin (x_NewCoin x) (ks_assets s) AssetUsdcId q = Inr (ci, c) \<and>
    GetCollateralPoolForSubaccount x s i = Inr pi \<and> GetCollateralPoolForSubaccount x s j = Inr pj \<and>
    (\<forall>a d. bal x s' a d = bal x s a d + (if pi = pj then 0 else moved pi pj (co_Denom c) (co_Amount c) a d)) \<and>
    usdc_moved s s' i (- q) \<and> usdc_moved s s' j q \<and>
    (\<forall>k. k \<noteq> i \<longrightarrow> k \<noteq> j \<longrightarrow> ks_subaccounts s' k = ks_subaccounts s k) \<and> keeper_ok s'"
proof -
  let ?us = "[usdc_update i (- q), usdc_update j q]"
  obtain c ci pi pj s1 where r: "ConvertAssetToCoin (x_NewCoin x) (ks_assets s) AssetUsdcId q = Inr (ci, c)"
    "GetCollateralPoolForSubaccount x s i = Inr pi" "GetCollateralPoolForSubaccount x s j = Inr pj"
    "(if pi \<noteq> pj then on_bank (x_SendCoins x pi pj [c]) else retM ()) s = (Inr (), s1)"
    "applyValidSubaccountUpdateForTransfer x ?us Transfer s1 = (Inr (), s')"
    using run unfolding TransferFundsFromSubaccountToSubaccount_def
    by (cases "assetId = AssetUsdcId")
      (auto simp: bindM_Inr liftM_eq failM_eq Let_def simp del: if_split)
  have p: "\<forall>u \<in> set ?us. u_PerpetualUpdates u = []" by (simp add: usdc_update_def)
  have b: "bal x s' a d = bal x s a d + (if pi = pj then 0 else moved pi pj (co_Denom c) (co_Amount c) a d)"
    and rest: "keeper_ok s'" "\<And>i d. usdc_update i d \<in> set ?us \<Longrightarrow> usdc_moved s s' i d"
      "\<And>i. i \<notin> u_SubaccountId ` set ?us \<Longrightarrow> ks_subaccounts s' i = ks_subaccounts s i" for a d
  proof -
    show "bal x s' a d = bal x s a d + (if pi = pj then 0 else moved pi pj (co_Denom c) (co_Amount c) a d)"
    proof (cases "pi = pj")
      case True
      then have "s1 = s" using r(4) by (simp add: retM_def)
      then show ?thesis using True apply_transfer_success(1)[OF ok r(5)[unfolded \<open>s1 = s\<close>] p] by (simp add: bal_def)
    next
      case False
      then show ?thesis using send_then_apply(2)[OF ok law _ r(5) p] r(4) by simp
    qed
    have "s1 = s\<lparr>ks_bank := ks_bank s\<rparr> \<or> on_bank (x_SendCoins x pi pj [c]) s = (Inr (), s1)"
      using r(4) by (cases "pi = pj") (simp_all add: retM_def)
    then obtain b where s1: "s1 = s\<lparr>ks_bank := b\<rparr>" using SendCoins_state by blast
    have "keeper_ok s1" using ok s1 by simp
    note a = apply_transfer_success[OF this r(5) p]
    show "keeper_ok s'" by (rule a(2))
    show "\<And>i d. usdc_update i d \<in> set ?us \<Longrightarrow> usdc_moved s s' i d" using a(3) unfolding s1 usdc_moved_bank .
    show "\<And>i. i \<notin> u_SubaccountId ` set ?us \<Longrightarrow> ks_subaccounts s' i = ks_subaccounts s i" using a(4) s1 by simp
  qed
  show ?thesis
    by (rule exI[of _ c], rule exI[of _ ci], rule exI[of _ pi], rule exI[of _ pj])
      (use r(1-3) b rest in \<open>auto simp: usdc_update_def\<close>)
qed

section \<open>Distribution of fees\<close>

text \<open>Quote quantums and the base unit of the coin coincide, as for USDC on the chain.\<close>

definition usdc_exact :: "'b sdk \<Rightarrow> 'b keeper_state \<Rightarrow> string \<Rightarrow> bool" where
  "usdc_exact x s denom \<longleftrightarrow> (\<forall>q \<ge> 0. ConvertAssetToCoin (x_NewCoin x) (ks_assets s) AssetUsdcId q =
     Inr (q, \<lparr>co_Denom = denom, co_Amount = q\<rparr>))"

lemma moved_sign: "moved to from denom (- q) a d = moved from to denom q a d"
  by (simp add: moved_def)

lemma TransferFees_moves:
  assumes law: "bank_law x" and ex: "usdc_exact x s denom"
    and run: "TransferFees x AssetUsdcId from to q s = (Inr (), s')"
  shows "bal x s' a d = bal x s a d + moved from to denom q a d" "\<exists>b. s' = s\<lparr>ks_bank := b\<rparr>"
proof -
  consider "q = 0" "s' = s"
    | "0 < q" "on_bank (x_SendCoins x from to [\<lparr>co_Denom = denom, co_Amount = q\<rparr>]) s = (Inr (), s')"
    | "q < 0" "on_bank (x_SendCoins x to from [\<lparr>co_Denom = denom, co_Amount = - q\<rparr>]) s = (Inr (), s')"
    using run ex by (cases q "0 :: int" rule: linorder_cases)
      (auto simp: TransferFees_def step_simps usdc_exact_def sgn_if)
  then have "(bal x s' a d = bal x s a d + moved from to denom q a d) \<and> (\<exists>b. s' = s\<lparr>ks_bank := b\<rparr>)"
  proof cases
    case 1
    then show ?thesis
      by (auto simp: moved_def intro: exI[of _ "ks_bank s"])
  next
    case 2
    then show ?thesis
      using SendCoins_bal[OF law 2(2)] by simp
  next
    case 3
    then show ?thesis
      using SendCoins_bal[OF law 3(2)] by (simp add: moved_sign)
  qed
  then show "bal x s' a d = bal x s a d + moved from to denom q a d" "\<exists>b. s' = s\<lparr>ks_bank := b\<rparr>" by simp_all
qed

text \<open>What an address receives of a list of shares.\<close>

definition credited :: "'b sdk \<Rightarrow> RevShare list \<Rightarrow> string \<Rightarrow> int" where
  "credited x rs a = (\<Sum>r\<leftarrow>rs. if x_AccAddressFromBech32 x (rs_Recipient r) = Inr a then rs_QuoteQuantums r else 0)"

lemma distribute_shares:
  assumes law: "bank_law x"
  shows "usdc_exact x s denom \<Longrightarrow> forM (distribute_share x AssetUsdcId pool) rs s = (Inr (), s') \<Longrightarrow>
    (\<exists>b. s' = s\<lparr>ks_bank := b\<rparr>) \<and> (\<forall>a d. bal x s' a d = bal x s a d + (if d = denom then credited x rs a
      - (if a = pool then \<Sum>r\<leftarrow>rs. rs_QuoteQuantums r else 0) else 0))"
proof (induction rs arbitrary: s)
  case Nil
  then show ?case by (auto simp: retM_def credited_def intro: exI[of _ "ks_bank s"])
next
  case (Cons r rs)
  obtain s1 addr where 1: "x_AccAddressFromBech32 x (rs_Recipient r) = Inr addr"
    "TransferFees x AssetUsdcId pool addr (rs_QuoteQuantums r) s = (Inr (), s1)"
    "forM (distribute_share x AssetUsdcId pool) rs s1 = (Inr (), s')"
    using Cons.prems(2) by (auto simp: distribute_share_def[of x _ pool r] step_simps)
  obtain b where s1: "s1 = s\<lparr>ks_bank := b\<rparr>" using TransferFees_moves(2)[OF law Cons.prems(1) 1(2)] by blast
  have "usdc_exact x s1 denom" using Cons.prems(1) by (simp add: usdc_exact_def s1)
  note IH = Cons.IH[OF this 1(3)]
  have "\<exists>b. s' = s\<lparr>ks_bank := b\<rparr>" using IH s1 by auto
  moreover have "bal x s' a d = bal x s a d + (if d = denom then credited x (r # rs) a
      - (if a = pool then \<Sum>r\<leftarrow>r # rs. rs_QuoteQuantums r else 0) else 0)" for a d
    using IH TransferFees_moves(1)[OF law Cons.prems(1) 1(2), of a d] 1(1)
    by (auto simp: credited_def moved_def)
  ultimately show ?case by blast
qed

lemma source_or_zero_total:
  "source_or_zero m REV_SHARE_FEE_SOURCE_TAKER_FEE + source_or_zero m REV_SHARE_FEE_SOURCE_MAKER_FEE
     + source_or_zero m REV_SHARE_FEE_SOURCE_NET_PROTOCOL_REVENUE = source_total m"
  by (simp add: source_or_zero_def source_total_def split: option.split)

text \<open>The SDK functions return errors, not panics.\<close>

definition sdk_no_panic :: "'b sdk \<Rightarrow> bool" where
  "sdk_no_panic x \<longleftrightarrow> (\<forall>a. \<not> is_panic (x_AccAddressFromBech32 x a)) \<and>
     (\<forall>from to cs b. \<not> is_panic (fst (x_SendCoins x from to cs b)))"

lemma safe_on_bank:
  assumes "\<And>b. \<not> is_panic (fst (m b))" "\<And>s b. I s \<Longrightarrow> I (s\<lparr>ks_bank := b\<rparr>)"
  shows "safe_step I (on_bank m)"
  using assms by (auto simp: safe_step_def on_bank_def split: prod.splits) (metis fst_conv)

lemma TransferFees_safe:
  assumes "sdk_no_panic x"
  shows "safe_step (\<lambda>s. usdc_exact x s denom) (TransferFees x assetId from to q)"
proof -
  have conv: "usdc_exact x s denom \<Longrightarrow> \<not> is_panic (ConvertAssetToCoin (x_NewCoin x) (ks_assets s) AssetUsdcId \<bar>q\<bar>)" for s
    by (simp add: usdc_exact_def)
  have "safe_step (\<lambda>s. usdc_exact x s denom) (on_bank (x_SendCoins x f t cs))" for f t cs
    using assms by (intro safe_on_bank) (auto simp: sdk_no_panic_def usdc_exact_def)
  then show ?thesis
    using conv by (auto simp: TransferFees_def case_prod_beta Let_def intro!: safe_bind)
qed

lemma distribute_share_safe:
  assumes "sdk_no_panic x"
  shows "safe_step (\<lambda>s. usdc_exact x s denom) (distribute_share x assetId pool r)"
  unfolding distribute_share_def
  using assms by (intro safe_bind TransferFees_safe safe_basic(3)) (simp_all add: sdk_no_panic_def)

text \<open>
  C16: The fees of a fill are distributed exactly. For the revenue shares computed for the fill (with
  a share configuration of at most 100 percent) the distribution never panics on a negative
  fee-collector share, and when it succeeds the collateral pool of the product has paid exactly
  the net fees of the fill, every recipient received its shares, the fee collector received the
  rest, and nothing but the bank changed.
\<close>

theorem fees_distributed_exactly:
  assumes law: "bank_law x" and safe: "sdk_no_panic x" and ex: "usdc_exact x s denom"
    and cfg: "total_share_ppm rv \<le> 1000000"
    and rs: "GetAllRevShares fb tb ctx rv affs stats fill overrides params = Inr shares"
    and run: "DistributeFees x AssetUsdcId shares fill s = (r, s')"
  shows "\<not> is_panic r \<and> (r = Inr () \<longrightarrow> (\<exists>b pool. s' = s\<lparr>ks_bank := b\<rparr> \<and>
    GetCollateralPoolFromPerpetualId x s (fp_ProductId fill) = Inr pool \<and>
    (let netFees = fp_TakerFeeQuoteQuantums fill + fp_MakerFeeQuoteQuantums fill;
         shared = (\<Sum>r\<leftarrow>rf_AllRevShares shares. rs_QuoteQuantums r) in
     0 \<le> netFees - shared \<and>
     (\<forall>a d. bal x s' a d = bal x s a d + (if d = denom then credited x (rf_AllRevShares shares) a
         + (if a = x_NewModuleAddress x FeeCollectorName then netFees - shared else 0)
         - (if a = pool then netFees else 0) else 0)))))"
proof -
  let ?net = "fp_TakerFeeQuoteQuantums fill + fp_MakerFeeQuoteQuantums fill"
  let ?shared = "\<Sum>r\<leftarrow>rf_AllRevShares shares. rs_QuoteQuantums r"
  have sh: "source_total (rf_FeeSourceToQuoteQuantums shares) = ?shared" "?shared \<le> ?net"
    using rev_shares_cases[OF cfg, where fb = fb and tb = tb and ctx = ctx and affs = affs and stats = stats
      and fill = fill and overrides = overrides and params = params] rs by simp_all
  have dist: "DistributeFees x AssetUsdcId shares fill = bindM (liftM (\<lambda>s. GetPerpetual (ks_perps s) (fp_ProductId fill))) (\<lambda>_.
     bindM (liftM (\<lambda>s. GetCollateralPoolFromPerpetualId x s (fp_ProductId fill))) (\<lambda>pool.
     bindM (forM (distribute_share x AssetUsdcId pool) (rf_AllRevShares shares)) (\<lambda>_.
       TransferFees x AssetUsdcId pool (x_NewModuleAddress x FeeCollectorName) (?net - ?shared))))"
    using sh by (simp add: DistributeFees_def source_or_zero_total Let_def)
  have safe': "safe_step (\<lambda>s. usdc_exact x s denom) (DistributeFees x AssetUsdcId shares fill)"
    unfolding dist
    by (intro safe_bind safe_forM distribute_share_safe[OF safe] TransferFees_safe[OF safe] safe_basic(3))
      (simp_all add: GetPerpetual_def GetCollateralPoolFromPerpetualId_def is_panic_def bindr_def
        split: option.split sum.split)
  then have "\<not> is_panic r" using run ex unfolding safe_step_def by (metis fst_conv)
  moreover have "\<exists>b pool. s' = s\<lparr>ks_bank := b\<rparr> \<and>
      GetCollateralPoolFromPerpetualId x s (fp_ProductId fill) = Inr pool \<and>
      (\<forall>a d. bal x s' a d = bal x s a d + (if d = denom then credited x (rf_AllRevShares shares) a
         + (if a = x_NewModuleAddress x FeeCollectorName then ?net - ?shared else 0)
         - (if a = pool then ?net else 0) else 0))" if r: "r = Inr ()"
  proof -
    obtain pool s1 where p: "GetCollateralPoolFromPerpetualId x s (fp_ProductId fill) = Inr pool"
      "forM (distribute_share x AssetUsdcId pool) (rf_AllRevShares shares) s = (Inr (), s1)"
      "TransferFees x AssetUsdcId pool (x_NewModuleAddress x FeeCollectorName) (?net - ?shared) s1 = (Inr (), s')"
      using run r unfolding dist by (auto simp: step_simps)
    note d = distribute_shares[OF law ex p(2)]
    then obtain b1 where s1: "s1 = s\<lparr>ks_bank := b1\<rparr>" by blast
    have ex1: "usdc_exact x s1 denom" using ex by (simp add: usdc_exact_def s1)
    note t = TransferFees_moves[OF law ex1 p(3)]
    from t(2) obtain b2 where s': "s' = s\<lparr>ks_bank := b2\<rparr>" by (auto simp: s1)
    have "bal x s' a d = bal x s a d + (if d = denom then credited x (rf_AllRevShares shares) a
         + (if a = x_NewModuleAddress x FeeCollectorName then ?net - ?shared else 0)
         - (if a = pool then ?net else 0) else 0)" for a d
      using d t(1)[of a d] by (auto simp: moved_def)
    then show ?thesis using p(1) s' by blast
  qed
  ultimately show ?thesis using sh(2) by (auto simp: Let_def)
qed

text \<open>Witnesses: a bank that keeps balances, and the example chain with money in it.\<close>

definition ex_bank :: "(string \<Rightarrow> string \<Rightarrow> int) sdk" where
  "ex_bank = \<lparr>x_SendCoins = \<lambda>from to cs b.
       (Inr (), \<lambda>a d. b a d + (\<Sum>c\<leftarrow>cs. moved from to (co_Denom c) (co_Amount c) a d)),
     x_GetBalance = \<lambda>b a d. b a d, x_BlockedAddr = \<lambda>_. False, x_NewModuleAddress = \<lambda>n. n,
     x_AccAddressFromBech32 = \<lambda>a. Inr a, x_NewCoin = \<lambda>d n. Inr \<lparr>co_Denom = d, co_Amount = n\<rparr>\<rparr>"

definition ex_cash :: "(string \<Rightarrow> string \<Rightarrow> int) keeper_state" where
  "ex_cash = \<lparr>ks_subaccounts = [ex_id 0 \<mapsto> ex_subaccount 0 10000000000 10000000000,
       ex_id 1 \<mapsto> ex_subaccount 1 900000000000 (-10000000000)],
     ks_leverage = Map.empty, ks_negTnc = Map.empty, ks_perps = ex_perps,
     ks_assets = [(0, AssetUsdc)], ks_blocktime = ex_genesis_store, ks_ctx = ex_ctx 100 2000,
     ks_bank = (\<lambda>_ _. 1000000), ks_events = []\<rparr>"

lemma ex_bank_law: "bank_law ex_bank"
  by (auto simp: bank_law_def ex_bank_def)

lemma ex_bank_no_panic: "sdk_no_panic ex_bank"
  by (auto simp: sdk_no_panic_def ex_bank_def)

lemma ex_cash_ok: "keeper_ok ex_cash"
  by (auto simp: keeper_ok_def perp_store_ok_def ex_cash_def ex_perps_def ex_defs account_ok_def
      sorted_subaccount_def ex_subaccount_def isolated_ok_def ex_id_def split: if_splits)

lemma ex_cash_runs:
  "fst (DepositFundsFromAccountToSubaccount ex_bank ''alice'' (ex_id 0) 0 500 ex_cash) = Inr ()"
  "fst (TransferFundsFromSubaccountToSubaccount ex_bank (ex_id 1) (ex_id 0) 0 500 ex_cash) = Inr ()"
  by code_simp+

theorem deposit_withdraw_exact_witness:
  "\<exists>cq c pool. cash_moved ex_bank ex_cash
     (snd (DepositFundsFromAccountToSubaccount ex_bank ''alice'' (ex_id 0) 0 500 ex_cash)) (ex_id 0) cq ''alice'' pool c"
proof -
  let ?run = "DepositFundsFromAccountToSubaccount ex_bank ''alice'' (ex_id 0) 0 500 ex_cash"
  have "(Inr (), snd ?run) = (if True then ?run else WithdrawFundsFromSubaccountToAccount ex_bank (ex_id 0) ''alice'' 0 500 ex_cash)"
    using ex_cash_runs(1) by (simp only: if_True prod_eq_iff fst_conv snd_conv simp_thms)
  from deposit_withdraw_exact[OF ex_cash_ok ex_bank_law this refl] show ?thesis by (simp only: if_True) blast
qed

theorem subaccount_transfer_conserves_witness:
  "let s' = snd (TransferFundsFromSubaccountToSubaccount ex_bank (ex_id 1) (ex_id 0) 0 500 ex_cash) in
   usdc_moved ex_cash s' (ex_id 1) (- 500) \<and> usdc_moved ex_cash s' (ex_id 0) 500 \<and> keeper_ok s'"
proof -
  have "TransferFundsFromSubaccountToSubaccount ex_bank (ex_id 1) (ex_id 0) 0 500 ex_cash =
      (Inr (), snd (TransferFundsFromSubaccountToSubaccount ex_bank (ex_id 1) (ex_id 0) 0 500 ex_cash))"
    using ex_cash_runs(2) by (metis prod.collapse)
  from subaccount_transfer_conserves[OF ex_cash_ok ex_bank_law this] show ?thesis by (auto simp: Let_def)
qed

lemma ex_usdc_exact: "usdc_exact ex_bank ex_cash UusdcDenom"
proof -
  have "BigPow10 0 = (1, False)" using BigPow10_eq[of 0] by simp
  then show ?thesis
    by (simp add: usdc_exact_def ConvertAssetToCoin_def ex_cash_def ex_bank_def GetAsset_def gm_get_def AssetUsdcId_def
        AssetUsdc_def MaxAssetUnitExponentAbs_def AbsInt32_def UusdcDenom_def ediv_def
        QuoteCurrencyAtomicResolution_def)
qed

definition ex_shares :: RevSharesForFill where
  "ex_shares = (case GetAllRevShares Inr (\<lambda>a. a) (ex_block 5 2000) ex_revshare ex_affiliates ex_stats ex_fill None
     (af_params ex_affiliates) of Inr r \<Rightarrow> r | Inl _ \<Rightarrow> empty_RevSharesForFill)"

theorem fees_distributed_exactly_witness:
  "\<exists>pool. \<forall>a. bal ex_bank (snd (DistributeFees ex_bank AssetUsdcId ex_shares ex_fill ex_cash)) a UusdcDenom =
     1000000 + credited ex_bank (rf_AllRevShares ex_shares) a +
     (if a = x_NewModuleAddress ex_bank FeeCollectorName
      then 400 - (\<Sum>r\<leftarrow>rf_AllRevShares ex_shares. rs_QuoteQuantums r) else 0) - (if a = pool then 400 else 0)"
proof -
  have cfg: "total_share_ppm ex_revshare \<le> 1000000" by (simp add: total_share_ppm_def ex_revshare_def)
  have rs: "GetAllRevShares Inr (\<lambda>a. a) (ex_block 5 2000) ex_revshare ex_affiliates ex_stats ex_fill None
     (af_params ex_affiliates) = Inr ex_shares"
  proof -
    have "case GetAllRevShares Inr (\<lambda>a. a) (ex_block 5 2000) ex_revshare ex_affiliates ex_stats ex_fill None
       (af_params ex_affiliates) of Inr r \<Rightarrow> True | Inl _ \<Rightarrow> False" by code_simp
    then show ?thesis by (simp add: ex_shares_def split: sum.splits)
  qed
  have run: "DistributeFees ex_bank AssetUsdcId ex_shares ex_fill ex_cash =
      (Inr (), snd (DistributeFees ex_bank AssetUsdcId ex_shares ex_fill ex_cash))"
  proof -
    have "fst (DistributeFees ex_bank AssetUsdcId ex_shares ex_fill ex_cash) = Inr ()" by code_simp
    then show ?thesis by (metis prod.collapse)
  qed
  have "bal ex_bank ex_cash a d = 1000000" for a d by (simp add: bal_def ex_bank_def ex_cash_def)
  with fees_distributed_exactly[OF ex_bank_law ex_bank_no_panic ex_usdc_exact cfg rs run] show ?thesis
    by (auto simp: Let_def ex_fill_def)
qed

end
