(* ===== verification/ClobTypes.thy ===== *)
theory ClobTypes
  imports SubaccountLib "HOL-Library.Product_Lexorder"
begin

unbundle bit_operations_syntax

text \<open>
  The data of \<^verbatim>\<open>x/clob\<close>: the protobuf messages \<^verbatim>\<open>Order\<close>, \<^verbatim>\<open>OrderId\<close>, \<^verbatim>\<open>ClobPair\<close>, the cancel messages and
  liquidation orders as records, their enums as datatypes (with one constructor for the numbers that
  have no name), and the methods of \<^verbatim>\<open>types/order.go\<close>, \<^verbatim>\<open>order_id.go\<close>, \<^verbatim>\<open>clob_pair.go\<close>, \<^verbatim>\<open>quantums.go\<close>,
  \<^verbatim>\<open>price_to_subticks.go\<close>, \<^verbatim>\<open>liquidation_order.go\<close>, \<^verbatim>\<open>match_with_orders.go\<close>, \<^verbatim>\<open>sort_orders.go\<close> and of the
  messages. The SHA-256 hash of an order and the SDK's bech32 decoder are function arguments.
  The deterministic order on order ids is the instance of \<^verbatim>\<open>linorder\<close>.
\<close>

section \<open>Definitions: enums and identifiers\<close>

datatype Order_Side = SIDE_UNSPECIFIED | SIDE_BUY | SIDE_SELL | SIDE_UNNAMED int32

datatype Order_TimeInForce =
    TIME_IN_FORCE_UNSPECIFIED | TIME_IN_FORCE_IOC | TIME_IN_FORCE_POST_ONLY
  | TIME_IN_FORCE_FILL_OR_KILL | TIME_IN_FORCE_UNNAMED int32

datatype Order_ConditionType =
    CONDITION_TYPE_UNSPECIFIED | CONDITION_TYPE_STOP_LOSS | CONDITION_TYPE_TAKE_PROFIT
  | CONDITION_TYPE_UNNAMED int32

datatype ClobPair_Status =
    STATUS_UNSPECIFIED | STATUS_ACTIVE | STATUS_PAUSED | STATUS_CANCEL_ONLY | STATUS_POST_ONLY
  | STATUS_INITIALIZING | STATUS_FINAL_SETTLEMENT

record OrderId =
  oid_SubaccountId :: SubaccountId
  oid_ClientId :: uint32
  oid_OrderFlags :: uint32
  oid_ClobPairId :: uint32

text \<open>The fields in the order in which \<^verbatim>\<open>SortedSubaccountIds.Less\<close> and \<^verbatim>\<open>SortedOrders.Less\<close> compare them.\<close>

definition SubaccountId_key :: "'a SubaccountId_scheme \<Rightarrow> string \<times> uint32 \<times> 'a" where
  "SubaccountId_key s = (sid_Owner s, sid_Number s, SubaccountId.more s)"

lemma SubaccountId_key_inj: "SubaccountId_key s = SubaccountId_key t \<longleftrightarrow> s = t"
  by (cases s; cases t) (auto simp: SubaccountId_key_def)

instantiation SubaccountId_ext :: (linorder) linorder
begin

definition less_eq_SubaccountId_ext :: "'a SubaccountId_scheme \<Rightarrow> 'a SubaccountId_scheme \<Rightarrow> bool" where
  "less_eq_SubaccountId_ext s t \<longleftrightarrow> SubaccountId_key s \<le> SubaccountId_key t"

definition less_SubaccountId_ext :: "'a SubaccountId_scheme \<Rightarrow> 'a SubaccountId_scheme \<Rightarrow> bool" where
  "less_SubaccountId_ext s t \<longleftrightarrow> SubaccountId_key s < SubaccountId_key t"

instance
  by standard (auto simp: less_eq_SubaccountId_ext_def less_SubaccountId_ext_def SubaccountId_key_inj order_less_le)

end

definition OrderId_key :: "'a OrderId_scheme \<Rightarrow> SubaccountId \<times> uint32 \<times> uint32 \<times> uint32 \<times> 'a" where
  "OrderId_key i =
     (oid_SubaccountId i, oid_ClientId i, oid_OrderFlags i, oid_ClobPairId i, OrderId.more i)"

lemma OrderId_key_inj: "OrderId_key s = OrderId_key t \<longleftrightarrow> s = t"
  by (cases s; cases t) (auto simp: OrderId_key_def)

instantiation OrderId_ext :: (linorder) linorder
begin

definition less_eq_OrderId_ext :: "'a OrderId_scheme \<Rightarrow> 'a OrderId_scheme \<Rightarrow> bool" where
  "less_eq_OrderId_ext s t \<longleftrightarrow> OrderId_key s \<le> OrderId_key t"

definition less_OrderId_ext :: "'a OrderId_scheme \<Rightarrow> 'a OrderId_scheme \<Rightarrow> bool" where
  "less_OrderId_ext s t \<longleftrightarrow> OrderId_key s < OrderId_key t"

instance
  by standard (auto simp: less_eq_OrderId_ext_def less_OrderId_ext_def OrderId_key_inj order_less_le)

end

fun Order_Side_num :: "Order_Side \<Rightarrow> int32 \<times> bool" where
  "Order_Side_num SIDE_UNSPECIFIED = (0, False)"
| "Order_Side_num SIDE_BUY = (1, False)"
| "Order_Side_num SIDE_SELL = (2, False)"
| "Order_Side_num (SIDE_UNNAMED n) = (n, True)"

lemma Order_Side_num_inj: "Order_Side_num s = Order_Side_num t \<longleftrightarrow> s = t"
  by (cases s; cases t) auto

instantiation Order_Side :: linorder
begin

definition less_eq_Order_Side :: "Order_Side \<Rightarrow> Order_Side \<Rightarrow> bool" where
  "less_eq_Order_Side s t \<longleftrightarrow> Order_Side_num s \<le> Order_Side_num t"

definition less_Order_Side :: "Order_Side \<Rightarrow> Order_Side \<Rightarrow> bool" where
  "less_Order_Side s t \<longleftrightarrow> Order_Side_num s < Order_Side_num t"

instance
  by standard (auto simp: less_eq_Order_Side_def less_Order_Side_def Order_Side_num_inj order_less_le)

end

section \<open>Definitions: x/clob/types/order_id.go\<close>

definition OrderIdFlags_ShortTerm :: uint32 where "OrderIdFlags_ShortTerm = 0"
definition OrderIdFlags_Conditional :: uint32 where "OrderIdFlags_Conditional = 32"
definition OrderIdFlags_LongTerm :: uint32 where "OrderIdFlags_LongTerm = 64"
definition OrderIdFlags_Twap :: uint32 where "OrderIdFlags_Twap = 128"
definition OrderIdFlags_TwapSuborder :: uint32 where "OrderIdFlags_TwapSuborder = 256"

definition OrderId_IsShortTermOrder :: "OrderId \<Rightarrow> bool" where
  "OrderId_IsShortTermOrder i \<longleftrightarrow> oid_OrderFlags i = OrderIdFlags_ShortTerm"

definition OrderId_IsConditionalOrder :: "OrderId \<Rightarrow> bool" where
  "OrderId_IsConditionalOrder i \<longleftrightarrow> oid_OrderFlags i = OrderIdFlags_Conditional"

definition OrderId_IsTwapOrder :: "OrderId \<Rightarrow> bool" where
  "OrderId_IsTwapOrder i \<longleftrightarrow> oid_OrderFlags i = OrderIdFlags_Twap"

definition OrderId_IsLongTermOrder :: "OrderId \<Rightarrow> bool" where
  "OrderId_IsLongTermOrder i \<longleftrightarrow> oid_OrderFlags i = OrderIdFlags_LongTerm"

definition OrderId_IsTwapSuborder :: "OrderId \<Rightarrow> bool" where
  "OrderId_IsTwapSuborder i \<longleftrightarrow> oid_OrderFlags i = OrderIdFlags_TwapSuborder"

definition OrderId_IsStatefulOrder :: "OrderId \<Rightarrow> bool" where
  "OrderId_IsStatefulOrder i \<longleftrightarrow>
     OrderId_IsLongTermOrder i \<or> OrderId_IsConditionalOrder i \<or>
     OrderId_IsTwapOrder i \<or> OrderId_IsTwapSuborder i"

definition OrderId_MustBeStatefulOrder :: "OrderId \<Rightarrow> unit res" where
  "OrderId_MustBeStatefulOrder i =
     (if \<not> OrderId_IsStatefulOrder i then Inl (Panic ''MustBeStatefulOrder'') else Inr ())"

definition OrderId_MustBeConditionalOrder :: "OrderId \<Rightarrow> unit res" where
  "OrderId_MustBeConditionalOrder i =
     (if \<not> OrderId_IsConditionalOrder i then Inl (Panic ''MustBeConditionalOrder'') else Inr ())"

definition OrderId_MustBeShortTermOrder :: "OrderId \<Rightarrow> unit res" where
  "OrderId_MustBeShortTermOrder i =
     (if OrderId_IsStatefulOrder i then Inl (Panic ''MustBeShortTermOrder'') else Inr ())"

definition SubaccountId_Validate :: "(string \<Rightarrow> 'a res) \<Rightarrow> SubaccountId \<Rightarrow> unit res" where
  "SubaccountId_Validate fb i =
     (case fb (sid_Owner i) of
        Inl e \<Rightarrow> Inl (Err ''ErrInvalidSubaccountIdOwner'')
      | Inr _ \<Rightarrow> if MaxSubaccountIdNumber < sid_Number i then Inl (Err ''ErrInvalidSubaccountIdNumber'')
                else Inr ())"

definition OrderId_Validate :: "(string \<Rightarrow> 'a res) \<Rightarrow> OrderId \<Rightarrow> unit res" where
  "OrderId_Validate fb i =
     bindr (SubaccountId_Validate fb (oid_SubaccountId i)) (\<lambda>_.
       if \<not> OrderId_IsShortTermOrder i \<and> \<not> OrderId_IsStatefulOrder i
       then Inl (Err ''ErrInvalidOrderFlag'') else Inr ())"

text \<open>\<^verbatim>\<open>SortedOrders.Less\<close>, field by field as in the source.\<close>

definition SortedOrders_Less :: "OrderId \<Rightarrow> OrderId \<Rightarrow> bool" where
  "SortedOrders_Less si sj =
     (if sid_Owner (oid_SubaccountId si) \<noteq> sid_Owner (oid_SubaccountId sj)
      then sid_Owner (oid_SubaccountId si) < sid_Owner (oid_SubaccountId sj)
      else if sid_Number (oid_SubaccountId si) \<noteq> sid_Number (oid_SubaccountId sj)
      then sid_Number (oid_SubaccountId si) < sid_Number (oid_SubaccountId sj)
      else if oid_ClientId si \<noteq> oid_ClientId sj then oid_ClientId si < oid_ClientId sj
      else if oid_OrderFlags si \<noteq> oid_OrderFlags sj then oid_OrderFlags si < oid_OrderFlags sj
      else if oid_ClobPairId si \<noteq> oid_ClobPairId sj then oid_ClobPairId si < oid_ClobPairId sj
      else False)"

definition SortedSubaccountIds_Less :: "SubaccountId \<Rightarrow> SubaccountId \<Rightarrow> bool" where
  "SortedSubaccountIds_Less si sj =
     (if sid_Owner si \<noteq> sid_Owner sj then sid_Owner si < sid_Owner sj
      else if sid_Number si \<noteq> sid_Number sj then sid_Number si < sid_Number sj
      else False)"

text \<open>
  The duplicate check, then the sort. \<^verbatim>\<open>sort.Sort\<close> is only specified up to elements that compare
  equal; without duplicates its result is the sorted list.
\<close>

definition MustSortAndHaveNoDuplicates :: "OrderId list \<Rightarrow> OrderId list res" where
  "MustSortAndHaveNoDuplicates orderIds =
     bindr (for_res (\<lambda>orderId orderIdSet.
              if orderId \<in> set orderIdSet then Inl (Panic ''cannot sort orders with duplicate order id'')
              else Inr (orderId # orderIdSet)) orderIds [])
       (\<lambda>_. Inr (sort orderIds))"

section \<open>Definitions: x/clob/types/order.go\<close>

datatype GoodTilOneof = GoodTil_nil | GoodTilBlock uint32 | GoodTilBlockTime uint32

record TwapParameters =
  tw_Duration :: uint32
  tw_Interval :: uint32
  tw_PriceTolerance :: uint32

record BuilderCodeParameters =
  bc_BuilderAddress :: string
  bc_FeePpm :: uint32

record Order =
  o_OrderId :: OrderId
  o_Side :: Order_Side
  o_Quantums :: uint64
  o_Subticks :: uint64
  o_GoodTilOneof :: GoodTilOneof
  o_TimeInForce :: Order_TimeInForce
  o_ReduceOnly :: bool
  o_ClientMetadata :: uint32
  o_ConditionType :: Order_ConditionType
  o_ConditionalOrderTriggerSubticks :: uint64
  o_TwapParameters :: "TwapParameters option"
  o_BuilderCodeParameters :: "BuilderCodeParameters option"
  o_OrderRouterAddress :: string

definition GetGoodTilBlock :: "GoodTilOneof \<Rightarrow> uint32" where
  "GetGoodTilBlock g = (case g of GoodTilBlock b \<Rightarrow> b | _ \<Rightarrow> 0)"

definition GetGoodTilBlockTime :: "GoodTilOneof \<Rightarrow> uint32" where
  "GetGoodTilBlockTime g = (case g of GoodTilBlockTime t \<Rightarrow> t | _ \<Rightarrow> 0)"

definition MustBeValidOrderSide :: "Order \<Rightarrow> unit res" where
  "MustBeValidOrderSide ord =
     (if o_Side ord \<noteq> SIDE_BUY \<and> o_Side ord \<noteq> SIDE_SELL then Inl (Panic ''ErrInvalidOrderSide'') else Inr ())"

definition Order_IsBuy :: "Order \<Rightarrow> bool" where
  "Order_IsBuy ord \<longleftrightarrow> o_Side ord = SIDE_BUY"

definition Order_GetBigQuantums :: "Order \<Rightarrow> int" where
  "Order_GetBigQuantums ord =
     (let bigQuantums = uint (o_Quantums ord) in if \<not> Order_IsBuy ord then - bigQuantums else bigQuantums)"

definition Order_IsShortTermOrder :: "Order \<Rightarrow> bool" where
  "Order_IsShortTermOrder ord = OrderId_IsShortTermOrder (o_OrderId ord)"

definition Order_IsStatefulOrder :: "Order \<Rightarrow> bool" where
  "Order_IsStatefulOrder ord = OrderId_IsStatefulOrder (o_OrderId ord)"

definition Order_IsConditionalOrder :: "Order \<Rightarrow> bool" where
  "Order_IsConditionalOrder ord = OrderId_IsConditionalOrder (o_OrderId ord)"

definition Order_IsTwapOrder :: "Order \<Rightarrow> bool" where
  "Order_IsTwapOrder ord = OrderId_IsTwapOrder (o_OrderId ord)"

definition Order_IsTwapSuborder :: "Order \<Rightarrow> bool" where
  "Order_IsTwapSuborder ord = OrderId_IsTwapSuborder (o_OrderId ord)"

text \<open>\<^verbatim>\<open>bytes.Compare\<close>: lexicographic on bytes.\<close>

type_synonym OrderHash = "8 word list"

definition bytes_Compare :: "8 word list \<Rightarrow> 8 word list \<Rightarrow> int" where
  "bytes_Compare a b = (if a = b then 0 else if a < b then -1 else 1)"

definition MustCmpReplacementOrder :: "(Order \<Rightarrow> OrderHash) \<Rightarrow> Order \<Rightarrow> Order \<Rightarrow> int res" where
  "MustCmpReplacementOrder GetOrderHash x y =
     (if o_OrderId x \<noteq> o_OrderId y then Inl (Panic ''MustCmpReplacementOrder'')
      else
        let (orderXExpiration, orderYExpiration) =
              (if Order_IsShortTermOrder x
               then (GetGoodTilBlock (o_GoodTilOneof x), GetGoodTilBlock (o_GoodTilOneof y))
               else (GetGoodTilBlockTime (o_GoodTilOneof x), GetGoodTilBlockTime (o_GoodTilOneof y)))
        in Inr (if orderYExpiration < orderXExpiration then 1
                else if orderXExpiration < orderYExpiration then -1
                else bytes_Compare (GetOrderHash x) (GetOrderHash y)))"

definition IsTakeProfitOrder :: "Order \<Rightarrow> bool" where
  "IsTakeProfitOrder ord \<longleftrightarrow> Order_IsConditionalOrder ord \<and> o_ConditionType ord = CONDITION_TYPE_TAKE_PROFIT"

definition IsStopLossOrder :: "Order \<Rightarrow> bool" where
  "IsStopLossOrder ord \<longleftrightarrow> Order_IsConditionalOrder ord \<and> o_ConditionType ord = CONDITION_TYPE_STOP_LOSS"

definition RequiresImmediateExecution :: "Order \<Rightarrow> bool" where
  "RequiresImmediateExecution ord \<longleftrightarrow>
     o_TimeInForce ord = TIME_IN_FORCE_IOC \<or> o_TimeInForce ord = TIME_IN_FORCE_FILL_OR_KILL"

definition IsCollateralCheckRequired :: "Order \<Rightarrow> bool \<Rightarrow> bool" where
  "IsCollateralCheckRequired ord isInternalOrder \<longleftrightarrow>
     (\<not> isInternalOrder \<and> \<not> Order_IsConditionalOrder ord) \<or> (isInternalOrder \<and> Order_IsTwapSuborder ord)"

definition IsPostOnlyOrder :: "Order \<Rightarrow> bool" where
  "IsPostOnlyOrder ord \<longleftrightarrow> o_TimeInForce ord = TIME_IN_FORCE_POST_ONLY"

definition CanTrigger :: "Order \<Rightarrow> uint64 \<Rightarrow> bool res" where
  "CanTrigger ord subticks =
     bindr (OrderId_MustBeConditionalOrder (o_OrderId ord)) (\<lambda>_.
       let orderTriggerSubticks = o_ConditionalOrderTriggerSubticks ord
       in if o_ConditionType ord = CONDITION_TYPE_TAKE_PROFIT \<and> Order_IsBuy ord \<or>
             o_ConditionType ord = CONDITION_TYPE_STOP_LOSS \<and> \<not> Order_IsBuy ord
          then Inr (subticks \<le> orderTriggerSubticks)
          else Inr (orderTriggerSubticks \<le> subticks))"

text \<open>Times are seconds since the Unix epoch.\<close>

definition Order_MustGetUnixGoodTilBlockTime :: "Order \<Rightarrow> int res" where
  "Order_MustGetUnixGoodTilBlockTime ord =
     bindr (OrderId_MustBeStatefulOrder (o_OrderId ord)) (\<lambda>_.
       let goodTilBlockTime = GetGoodTilBlockTime (o_GoodTilOneof ord)
       in if goodTilBlockTime = 0 then Inl (Panic ''MustGetUnixGoodTilBlockTime'')
          else Inr (uint goodTilBlockTime))"

definition GetTotalLegsTWAPOrder :: "Order \<Rightarrow> uint32 res" where
  "GetTotalLegsTWAPOrder ord =
     (if Order_IsTwapOrder ord
      then (case o_TwapParameters ord of
              None \<Rightarrow> Inl (Panic ''nil pointer dereference'')
            | Some p \<Rightarrow> if tw_Interval p = 0 then Inl (Panic ''integer divide by zero'')
                       else Inr (tw_Duration p div tw_Interval p))
      else Inr 0)"

text \<open>Big-endian encoding of the trigger time, the prefix of the key of a TWAP trigger.\<close>

definition TriggerTimeToBytes :: "int64 \<Rightarrow> 8 word list" where
  "TriggerTimeToBytes triggerTime = map (\<lambda>i. ucast (drop_bit (8 * i) triggerTime)) (rev [0..<8])"

definition TimeFromTriggerKey :: "8 word list \<Rightarrow> int64 res" where
  "TimeFromTriggerKey triggerKey =
     (if length triggerKey < 8 then Inl (Panic ''slice bounds out of range'')
      else Inr (fold (\<lambda>b w. push_bit 8 w OR ucast b) (take 8 triggerKey) 0))"

definition GetTWAPTriggerKey :: "(OrderId \<Rightarrow> 8 word list) \<Rightarrow> int64 \<Rightarrow> OrderId \<Rightarrow> 8 word list" where
  "GetTWAPTriggerKey ToStateKey triggerTime orderId = TriggerTimeToBytes triggerTime @ ToStateKey orderId"

section \<open>Definitions: x/clob/types/clob_pair.go\<close>

datatype ClobPair_Metadata =
    Metadata_nil
  | PerpetualClobMetadata uint32
  | SpotClobMetadata uint32 uint32

record ClobPair =
  cp_Id :: uint32
  cp_Metadata :: ClobPair_Metadata
  cp_StepBaseQuantums :: uint64
  cp_SubticksPerTick :: uint32
  cp_QuantumConversionExponent :: int32
  cp_Status :: ClobPair_Status

fun SupportedClobPairStatusTransitions :: "ClobPair_Status \<Rightarrow> ClobPair_Status list option" where
  "SupportedClobPairStatusTransitions STATUS_ACTIVE = Some [STATUS_FINAL_SETTLEMENT]"
| "SupportedClobPairStatusTransitions STATUS_INITIALIZING = Some [STATUS_ACTIVE, STATUS_FINAL_SETTLEMENT]"
| "SupportedClobPairStatusTransitions STATUS_FINAL_SETTLEMENT = Some [STATUS_INITIALIZING]"
| "SupportedClobPairStatusTransitions _ = None"

definition IsSupportedClobPairStatus :: "ClobPair_Status \<Rightarrow> bool" where
  "IsSupportedClobPairStatus s \<longleftrightarrow> SupportedClobPairStatusTransitions s \<noteq> None"

definition IsSupportedClobPairStatusTransition :: "ClobPair_Status \<Rightarrow> ClobPair_Status \<Rightarrow> bool" where
  "IsSupportedClobPairStatusTransition from to =
     (if \<not> IsSupportedClobPairStatus from \<or> \<not> IsSupportedClobPairStatus to then False
      else if from = to then True
      else (case SupportedClobPairStatusTransitions from of None \<Rightarrow> False | Some ts \<Rightarrow> to \<in> set ts))"

definition ClobPair_GetPerpetualId :: "ClobPair \<Rightarrow> uint32 res" where
  "ClobPair_GetPerpetualId c =
     (case cp_Metadata c of
        PerpetualClobMetadata perpetualId \<Rightarrow> Inr perpetualId
      | _ \<Rightarrow> Inl (Err ''ErrAssetOrdersNotImplemented''))"

definition ClobPair_MustGetPerpetualId :: "ClobPair \<Rightarrow> uint32 res" where
  "ClobPair_MustGetPerpetualId c =
     (case ClobPair_GetPerpetualId c of
        Inl _ \<Rightarrow> Inl (Panic ''ErrAssetOrdersNotImplemented'')
      | Inr perpetualId \<Rightarrow> Inr perpetualId)"

definition ClobPair_Validate :: "ClobPair \<Rightarrow> unit res" where
  "ClobPair_Validate c =
     (if (case cp_Metadata c of SpotClobMetadata _ _ \<Rightarrow> True | _ \<Rightarrow> False)
      then Inl (Err ''ErrInvalidClobPairParameter'')
      else if \<not> IsSupportedClobPairStatus (cp_Status c) then Inl (Err ''ErrInvalidClobPairParameter'')
      else if cp_StepBaseQuantums c \<le> 0 then Inl (Err ''ErrInvalidClobPairParameter'')
      else if cp_SubticksPerTick c \<le> 0 then Inl (Err ''ErrInvalidClobPairParameter'')
      else Inr ())"

section \<open>Definitions: x/clob/types/quantums.go, price_to_subticks.go, builder_code.go\<close>

definition FillAmountToQuoteQuantums :: "uint64 \<Rightarrow> uint64 \<Rightarrow> int32 \<Rightarrow> int" where
  "FillAmountToQuoteQuantums subticks baseQuantums quantumConversionExponent =
     BigIntMulPow10 (uint subticks * uint baseQuantums) quantumConversionExponent False"

definition GetAveragePriceSubticks :: "int \<Rightarrow> int \<Rightarrow> int32 \<Rightarrow> rat res" where
  "GetAveragePriceSubticks bigQuoteQuantums bigBaseQuantums quantumConversionExponent =
     (if bigBaseQuantums = 0 then Inl (Panic ''GetAveragePriceSubticks: bigBaseQuantums = 0'')
      else let (p10, inverse) = BigPow10 (- quantumConversionExponent)
           in Inr (if inverse then of_int bigQuoteQuantums / of_int (bigBaseQuantums * p10)
                   else of_int (bigQuoteQuantums * p10) / of_int bigBaseQuantums))"

definition PriceToSubticks :: "MarketPrice \<Rightarrow> ClobPair \<Rightarrow> int32 \<Rightarrow> int32 \<Rightarrow> rat" where
  "PriceToSubticks marketPrice clobPair baseAtomicResolution quoteAtomicResolution =
     (let exponent = mp_Exponent marketPrice - cp_QuantumConversionExponent clobPair
                       + baseAtomicResolution - quoteAtomicResolution;
          (p10, inverse) = BigPow10 exponent
      in if inverse then of_int (uint (mp_Price marketPrice)) / of_int p10
         else of_int (uint (mp_Price marketPrice) * p10))"

definition SubticksToPrice :: "uint64 \<Rightarrow> int32 \<Rightarrow> ClobPair \<Rightarrow> int32 \<Rightarrow> int32 \<Rightarrow> uint64 res" where
  "SubticksToPrice subticks marketPriceExponent clobPair baseAtomicResolution quoteAtomicResolution =
     (let exponent = - marketPriceExponent + cp_QuantumConversionExponent clobPair
                       - baseAtomicResolution + quoteAtomicResolution;
          result = BigIntMulPow10 (uint subticks) exponent False
      in if \<not> (0 \<le> result \<and> result < 2 ^ 64) then Inl (Panic ''SubticksToPrice: result is not a uint64'')
         else Inr (word_of_int result))"

definition GetBuilderFee :: "BuilderCodeParameters option \<Rightarrow> int \<Rightarrow> int" where
  "GetBuilderFee bc fillAmount =
     (case bc of None \<Rightarrow> 0 | Some p \<Rightarrow> BigMulPpm fillAmount (BigU (bc_FeePpm p)) True)"

section \<open>Definitions: stateless validation of the messages\<close>

definition ShortBlockWindow :: uint32 where "ShortBlockWindow = 40"
definition MaxMsgBatchCancelBatchSize :: uint32 where "MaxMsgBatchCancelBatchSize = 100"

text \<open>\<^verbatim>\<open>StatefulOrderTimeWindow\<close> in seconds: 95 days.\<close>

definition StatefulOrderTimeWindow :: int where "StatefulOrderTimeWindow = 95 * 24 * 3600"
definition ConditionalOrderTriggerMultiplier :: uint64 where "ConditionalOrderTriggerMultiplier = 5"

definition MinTwapOrderInterval :: uint32 where "MinTwapOrderInterval = 30"
definition MaxTwapOrderInterval :: uint32 where "MaxTwapOrderInterval = 3600"
definition MinTwapOrderDuration :: uint32 where "MinTwapOrderDuration = 300"
definition MaxTwapOrderDuration :: uint32 where "MaxTwapOrderDuration = 86400"
definition MaxTwapOrderPriceTolerance :: uint32 where "MaxTwapOrderPriceTolerance = 1000000"
definition MaxBuilderCodeFeePpm :: uint32 where "MaxBuilderCodeFeePpm = 10000"

definition guard_err :: "bool \<Rightarrow> string \<Rightarrow> unit res" where
  "guard_err c n = (if c then Inl (Err n) else Inr ())"

text \<open>
  \<^verbatim>\<open>MsgPlaceOrder.ValidateBasic\<close>: the checks in the order of the source. The argument \<open>fb\<close> is
  \<^verbatim>\<open>sdk.AccAddressFromBech32\<close>.
\<close>

definition validate_enums :: "Order \<Rightarrow> unit res" where
  "validate_enums ord =
     bindr (guard_err (case o_Side ord of SIDE_UNNAMED n \<Rightarrow> True | _ \<Rightarrow> False) ''ErrInvalidOrderSide'') (\<lambda>_.
     bindr (guard_err (case o_TimeInForce ord of TIME_IN_FORCE_UNNAMED n \<Rightarrow> True | _ \<Rightarrow> False) ''ErrInvalidTimeInForce'') (\<lambda>_.
     guard_err (case o_ConditionType ord of CONDITION_TYPE_UNNAMED n \<Rightarrow> True | _ \<Rightarrow> False) ''ErrInvalidConditionType''))"

definition validate_good_til :: "Order \<Rightarrow> unit res" where
  "validate_good_til ord =
     (if OrderId_IsShortTermOrder (o_OrderId ord)
      then guard_err (GetGoodTilBlock (o_GoodTilOneof ord) = 0) ''ErrInvalidOrderGoodTilBlock''
      else if OrderId_IsStatefulOrder (o_OrderId ord)
      then guard_err (GetGoodTilBlockTime (o_GoodTilOneof ord) = 0) ''ErrInvalidStatefulOrderGoodTilBlockTime''
      else Inl (Err ''ErrInvalidOrderFlag''))"

definition validate_condition :: "Order \<Rightarrow> unit res" where
  "validate_condition ord =
     (if OrderId_IsConditionalOrder (o_OrderId ord)
      then bindr (guard_err (o_ConditionType ord = CONDITION_TYPE_UNSPECIFIED) ''ErrInvalidConditionType'') (\<lambda>_.
           guard_err (o_ConditionalOrderTriggerSubticks ord = 0) ''ErrInvalidConditionalOrderTriggerSubticks'')
      else bindr (guard_err (o_ConditionType ord \<noteq> CONDITION_TYPE_UNSPECIFIED) ''ErrInvalidConditionType'') (\<lambda>_.
           guard_err (o_ConditionalOrderTriggerSubticks ord \<noteq> 0) ''ErrInvalidConditionalOrderTriggerSubticks''))"

definition validate_builder :: "(string \<Rightarrow> 'a res) \<Rightarrow> Order \<Rightarrow> unit res" where
  "validate_builder fb ord =
     (case o_BuilderCodeParameters ord of
        None \<Rightarrow> Inr ()
      | Some p \<Rightarrow>
          (case fb (bc_BuilderAddress p) of
             Inl _ \<Rightarrow> Inl (Err ''ErrInvalidBuilderCode'')
           | Inr _ \<Rightarrow> guard_err (bc_FeePpm p \<le> 0 \<or> MaxBuilderCodeFeePpm < bc_FeePpm p) ''ErrInvalidBuilderCode''))"

definition validate_twap :: "Order \<Rightarrow> unit res" where
  "validate_twap ord =
     (if Order_IsTwapOrder ord
      then (case o_TwapParameters ord of
              None \<Rightarrow> Inl (Err ''ErrInvalidPlaceOrder'')
            | Some p \<Rightarrow>
                if tw_Interval p < MinTwapOrderInterval \<or> MaxTwapOrderInterval < tw_Interval p
                then Inl (Err ''ErrInvalidPlaceOrder'')
                else if tw_Duration p < MinTwapOrderDuration \<or> MaxTwapOrderDuration < tw_Duration p
                then Inl (Err ''ErrInvalidPlaceOrder'')
                else if tw_Duration p mod tw_Interval p \<noteq> 0 then Inl (Err ''ErrInvalidPlaceOrder'')
                else if MaxTwapOrderPriceTolerance \<le> tw_PriceTolerance p then Inl (Err ''ErrInvalidPlaceOrder'')
                else Inr ())
      else Inr ())"

definition MsgPlaceOrder_ValidateBasic :: "(string \<Rightarrow> 'a res) \<Rightarrow> Order \<Rightarrow> unit res" where
  "MsgPlaceOrder_ValidateBasic fb ord =
     bindr (guard_err (o_TimeInForce ord = TIME_IN_FORCE_FILL_OR_KILL) ''ErrDeprecatedField'') (\<lambda>_.
     bindr (SubaccountId_Validate fb (oid_SubaccountId (o_OrderId ord))) (\<lambda>_.
     bindr (validate_enums ord) (\<lambda>_.
     bindr (guard_err (o_Side ord = SIDE_UNSPECIFIED) ''ErrInvalidOrderSide'') (\<lambda>_.
     bindr (guard_err (o_Quantums ord = 0) ''ErrInvalidOrderQuantums'') (\<lambda>_.
     bindr (guard_err (o_OrderRouterAddress ord \<noteq> [] \<and> isl (fb (o_OrderRouterAddress ord)))
              ''ErrInvalidOrderRouterAddress'') (\<lambda>_.
     bindr (validate_good_til ord) (\<lambda>_.
     bindr (guard_err (OrderId_IsLongTermOrder (o_OrderId ord) \<and> RequiresImmediateExecution ord)
              ''ErrLongTermOrdersCannotRequireImmediateExecution'') (\<lambda>_.
     bindr (guard_err (o_ReduceOnly ord \<and> \<not> RequiresImmediateExecution ord) ''ErrReduceOnlyDisabled'') (\<lambda>_.
     bindr (guard_err (o_Subticks ord = 0 \<and> \<not> Order_IsTwapOrder ord) ''ErrInvalidOrderSubticks'') (\<lambda>_.
     bindr (validate_condition ord) (\<lambda>_.
     bindr (validate_builder fb ord) (\<lambda>_.
     validate_twap ord))))))))))))"

record MsgCancelOrder =
  mc_OrderId :: OrderId
  mc_GoodTilOneof :: GoodTilOneof

definition NewMsgCancelOrderShortTerm :: "OrderId \<Rightarrow> uint32 \<Rightarrow> MsgCancelOrder res" where
  "NewMsgCancelOrderShortTerm orderId goodTilBlock =
     bindr (OrderId_MustBeShortTermOrder orderId) (\<lambda>_.
       Inr \<lparr>mc_OrderId = orderId, mc_GoodTilOneof = GoodTilBlock goodTilBlock\<rparr>)"

definition NewMsgCancelOrderStateful :: "OrderId \<Rightarrow> uint32 \<Rightarrow> MsgCancelOrder res" where
  "NewMsgCancelOrderStateful orderId goodTilBlockTime =
     bindr (OrderId_MustBeStatefulOrder orderId) (\<lambda>_.
       Inr \<lparr>mc_OrderId = orderId, mc_GoodTilOneof = GoodTilBlockTime goodTilBlockTime\<rparr>)"

definition MsgCancelOrder_ValidateBasic :: "(string \<Rightarrow> 'a res) \<Rightarrow> MsgCancelOrder \<Rightarrow> unit res" where
  "MsgCancelOrder_ValidateBasic fb msg =
     bindr (OrderId_Validate fb (mc_OrderId msg)) (\<lambda>_.
       if OrderId_IsStatefulOrder (mc_OrderId msg)
       then guard_err (GetGoodTilBlockTime (mc_GoodTilOneof msg) = 0) ''ErrInvalidStatefulOrderGoodTilBlockTime''
       else guard_err (GetGoodTilBlock (mc_GoodTilOneof msg) = 0) ''ErrInvalidOrderGoodTilBlock'')"

definition MsgCancelOrder_MustGetUnixGoodTilBlockTime :: "MsgCancelOrder \<Rightarrow> int res" where
  "MsgCancelOrder_MustGetUnixGoodTilBlockTime msg =
     bindr (OrderId_MustBeStatefulOrder (mc_OrderId msg)) (\<lambda>_.
       let goodTilBlockTime = GetGoodTilBlockTime (mc_GoodTilOneof msg)
       in if goodTilBlockTime = 0 then Inl (Panic ''MustGetUnixGoodTilBlockTime'')
          else Inr (uint goodTilBlockTime))"

record OrderBatch =
  ob_ClobPairId :: uint32
  ob_ClientIds :: "uint32 list"

record MsgBatchCancel =
  mb_SubaccountId :: SubaccountId
  mb_ShortTermCancels :: "OrderBatch list"
  mb_GoodTilBlock :: uint32

text \<open>One iteration of the loop over batches: the state is (clob pair ids seen, number of cancels).\<close>

definition validate_batch :: "OrderBatch \<Rightarrow> uint32 list \<times> nat \<Rightarrow> (uint32 list \<times> nat) res" where
  "validate_batch cancelBatch st =
     (case st of (seenClobPairIds, totalNumberCancels) \<Rightarrow>
      if ob_ClobPairId cancelBatch \<in> set seenClobPairIds then Inl (Err ''ErrInvalidBatchCancel'')
      else if length (ob_ClientIds cancelBatch) = 0 then Inl (Err ''ErrInvalidBatchCancel'')
      else bindr (for_res (\<lambda>clientId seenClientIds.
                    if clientId \<in> set seenClientIds then Inl (Err ''ErrInvalidBatchCancel'')
                    else Inr (clientId # seenClientIds)) (ob_ClientIds cancelBatch) [])
             (\<lambda>_. Inr (ob_ClobPairId cancelBatch # seenClobPairIds,
                       totalNumberCancels + length (ob_ClientIds cancelBatch))))"

definition MsgBatchCancel_ValidateBasic :: "(string \<Rightarrow> 'a res) \<Rightarrow> MsgBatchCancel \<Rightarrow> unit res" where
  "MsgBatchCancel_ValidateBasic fb msg =
     bindr (SubaccountId_Validate fb (mb_SubaccountId msg)) (\<lambda>_.
       if length (mb_ShortTermCancels msg) = 0 then Inl (Err ''ErrInvalidBatchCancel'')
       else bindr (for_res validate_batch (mb_ShortTermCancels msg) ([], 0)) (\<lambda>st.
              if MaxMsgBatchCancelBatchSize < of_nat (snd st) then Inl (Err ''ErrInvalidBatchCancel'')
              else Inr ()))"

section \<open>Definitions: liquidation orders and matchable orders\<close>

record PerpetualLiquidationInfo =
  pli_SubaccountId :: SubaccountId
  pli_PerpetualId :: uint32

record LiquidationOrder =
  lo_perpetualLiquidationInfo :: PerpetualLiquidationInfo
  lo_clobPairId :: uint32
  lo_isBuy :: bool
  lo_quantums :: uint64
  lo_subticks :: uint64

definition NewLiquidationOrder ::
  "SubaccountId \<Rightarrow> ClobPair \<Rightarrow> bool \<Rightarrow> uint64 \<Rightarrow> uint64 \<Rightarrow> LiquidationOrder res" where
  "NewLiquidationOrder subaccountId clobPair isBuy quantums subticks =
     (case cp_Metadata clobPair of
        PerpetualClobMetadata perpetualId \<Rightarrow>
          Inr \<lparr>lo_perpetualLiquidationInfo = \<lparr>pli_SubaccountId = subaccountId, pli_PerpetualId = perpetualId\<rparr>,
               lo_clobPairId = cp_Id clobPair, lo_isBuy = isBuy, lo_quantums = quantums, lo_subticks = subticks\<rparr>
      | _ \<Rightarrow> Inl (Panic ''NewLiquidationOrder''))"

definition LiquidationOrder_GetDeltaQuantums :: "LiquidationOrder \<Rightarrow> int" where
  "LiquidationOrder_GetDeltaQuantums lo = (if \<not> lo_isBuy lo then - uint (lo_quantums lo) else uint (lo_quantums lo))"

text \<open>The interface \<^verbatim>\<open>MatchableOrder\<close> and its two implementations.\<close>

datatype MatchableOrder = MO_Order Order | MO_Liquidation LiquidationOrder

fun mo_GetSubaccountId :: "MatchableOrder \<Rightarrow> SubaccountId" where
  "mo_GetSubaccountId (MO_Order ord) = oid_SubaccountId (o_OrderId ord)"
| "mo_GetSubaccountId (MO_Liquidation lo) = pli_SubaccountId (lo_perpetualLiquidationInfo lo)"

fun mo_GetClobPairId :: "MatchableOrder \<Rightarrow> uint32" where
  "mo_GetClobPairId (MO_Order ord) = oid_ClobPairId (o_OrderId ord)"
| "mo_GetClobPairId (MO_Liquidation lo) = lo_clobPairId lo"

fun mo_IsBuy :: "MatchableOrder \<Rightarrow> bool" where
  "mo_IsBuy (MO_Order ord) = Order_IsBuy ord"
| "mo_IsBuy (MO_Liquidation lo) = lo_isBuy lo"

fun mo_IsLiquidation :: "MatchableOrder \<Rightarrow> bool" where
  "mo_IsLiquidation (MO_Order ord) = False"
| "mo_IsLiquidation (MO_Liquidation lo) = True"

fun mo_MustGetOrder :: "MatchableOrder \<Rightarrow> Order res" where
  "mo_MustGetOrder (MO_Order ord) = Inr ord"
| "mo_MustGetOrder (MO_Liquidation lo) = Inl (Panic ''MustGetOrder: No underlying order on a LiquidationOrder type.'')"

fun mo_MustGetLiquidationOrder :: "MatchableOrder \<Rightarrow> LiquidationOrder res" where
  "mo_MustGetLiquidationOrder (MO_Order ord) = Inl (Panic ''MustGetLiquidationOrder: Order is not a liquidation order'')"
| "mo_MustGetLiquidationOrder (MO_Liquidation lo) = Inr lo"

fun mo_MustGetLiquidatedPerpetualId :: "MatchableOrder \<Rightarrow> uint32 res" where
  "mo_MustGetLiquidatedPerpetualId (MO_Order ord) =
     Inl (Panic ''MustGetLiquidatedPerpetualId: No liquidated perpetual on an Order type.'')"
| "mo_MustGetLiquidatedPerpetualId (MO_Liquidation lo) = Inr (pli_PerpetualId (lo_perpetualLiquidationInfo lo))"

fun mo_GetBaseQuantums :: "MatchableOrder \<Rightarrow> uint64" where
  "mo_GetBaseQuantums (MO_Order ord) = o_Quantums ord"
| "mo_GetBaseQuantums (MO_Liquidation lo) = lo_quantums lo"

fun mo_GetOrderSubticks :: "MatchableOrder \<Rightarrow> uint64" where
  "mo_GetOrderSubticks (MO_Order ord) = o_Subticks ord"
| "mo_GetOrderSubticks (MO_Liquidation lo) = lo_subticks lo"

fun mo_IsReduceOnly :: "MatchableOrder \<Rightarrow> bool" where
  "mo_IsReduceOnly (MO_Order ord) = o_ReduceOnly ord"
| "mo_IsReduceOnly (MO_Liquidation lo) = False"

fun mo_GetOrderRouterAddress :: "MatchableOrder \<Rightarrow> string" where
  "mo_GetOrderRouterAddress (MO_Order ord) = o_OrderRouterAddress ord"
| "mo_GetOrderRouterAddress (MO_Liquidation lo) = []"

section \<open>Definitions: x/clob/types/match_with_orders.go, sort_orders.go, order statuses\<close>

record MatchWithOrders =
  mw_MakerOrder :: MatchableOrder
  mw_TakerOrder :: MatchableOrder
  mw_FillAmount :: uint64
  mw_MakerFee :: int64
  mw_TakerFee :: int64
  mw_MakerBuilderFee :: uint64
  mw_TakerBuilderFee :: uint64
  mw_MakerOrderRouterFee :: uint64
  mw_TakerOrderRouterFee :: uint64

definition MatchWithOrders_Validate :: "MatchWithOrders \<Rightarrow> unit res" where
  "MatchWithOrders_Validate m =
     (let makerOrder = mw_MakerOrder m; takerOrder = mw_TakerOrder m; fillAmount = mw_FillAmount m in
      if mo_GetSubaccountId makerOrder = mo_GetSubaccountId takerOrder
      then Inl (Err ''Match constitutes a self-trade'')
      else if fillAmount = 0 then Inl (Err ''fillAmount must be greater than 0'')
      else if mo_GetClobPairId makerOrder \<noteq> mo_GetClobPairId takerOrder
      then Inl (Err ''ClobPairIds do not match in match'')
      else if mo_IsBuy makerOrder = mo_IsBuy takerOrder
      then Inl (Err ''Orders are not on opposing sides of the book in match'')
      else if (if mo_IsBuy makerOrder then mo_GetOrderSubticks makerOrder < mo_GetOrderSubticks takerOrder
               else mo_GetOrderSubticks takerOrder < mo_GetOrderSubticks makerOrder)
      then Inl (Err ''Orders do not cross in match'')
      else if mo_GetBaseQuantums makerOrder < fillAmount \<or> mo_GetBaseQuantums takerOrder < fillAmount
      then Inl (Err ''Minimum initial order quantums exceeds fill amount'')
      else if mo_IsLiquidation makerOrder
      then Inl (Err ''Liquidation order cannot be matched as a maker order'')
      else bindr (mo_MustGetOrder makerOrder) (\<lambda>unwrappedMakerOrder.
        if RequiresImmediateExecution unwrappedMakerOrder
        then Inl (Err ''IOC order cannot be matched as a maker order'')
        else Inr ()))"

datatype OrderStatus =
    OS_Success | OS_Undercollateralized | OS_InternalError | OS_ImmediateOrCancelWouldRestOnBook
  | OS_ReduceOnlyResized | OS_LiquidationRequiresDeleveraging
  | OS_LiquidationExceededSubaccountMaxNotionalLiquidated
  | OS_LiquidationExceededSubaccountMaxInsuranceLost
  | OS_ViolatesIsolatedSubaccountConstraints | OS_PostOnlyWouldCrossMakerOrder

definition OrderStatus_IsSuccess :: "OrderStatus \<Rightarrow> bool" where
  "OrderStatus_IsSuccess os \<longleftrightarrow> os = OS_Success"

record TakerOrderStatus =
  tos_OrderStatus :: OrderStatus
  tos_RemainingQuantums :: uint64
  tos_OrderOptimisticallyFilledQuantums :: uint64

record PendingOpenOrder =
  poo_RemainingQuantums :: uint64
  poo_IsBuy :: bool
  poo_Subticks :: uint64
  poo_ClobPairId :: uint32
  poo_BuilderCodeParameters :: "BuilderCodeParameters option"

record TransactionOrdering =
  to_BlockHeight :: uint32
  to_TransactionIndex :: uint32

record LongTermOrderPlacement =
  lp_Order :: Order
  lp_PlacementIndex :: TransactionOrdering

record ConditionalOrderPlacement =
  cop_Order :: Order
  cop_PlacementIndex :: TransactionOrdering
  cop_TriggerIndex :: "TransactionOrdering option"

text \<open>The interface \<^verbatim>\<open>StatefulOrderPlacement\<close> and its two implementations.\<close>

datatype StatefulOrderPlacement =
  SP_LongTerm LongTermOrderPlacement | SP_Conditional ConditionalOrderPlacement

fun GetTransactionIndex :: "StatefulOrderPlacement \<Rightarrow> TransactionOrdering" where
  "GetTransactionIndex (SP_LongTerm p) = lp_PlacementIndex p"
| "GetTransactionIndex (SP_Conditional p) =
     (case cop_TriggerIndex p of Some t \<Rightarrow> t | None \<Rightarrow> cop_PlacementIndex p)"

definition ordering_Less :: "TransactionOrdering \<Rightarrow> TransactionOrdering \<Rightarrow> bool res" where
  "ordering_Less si sj =
     (if to_BlockHeight si \<noteq> to_BlockHeight sj then Inr (to_BlockHeight si < to_BlockHeight sj)
      else if to_TransactionIndex si \<noteq> to_TransactionIndex sj
      then Inr (to_TransactionIndex si < to_TransactionIndex sj)
      else Inl (Panic ''Less''))"

definition SortedLongTermOrderPlacements_Less ::
  "LongTermOrderPlacement \<Rightarrow> LongTermOrderPlacement \<Rightarrow> bool res" where
  "SortedLongTermOrderPlacements_Less si sj = ordering_Less (lp_PlacementIndex si) (lp_PlacementIndex sj)"

definition SortedStatefulOrderPlacement_Less ::
  "StatefulOrderPlacement \<Rightarrow> StatefulOrderPlacement \<Rightarrow> bool res" where
  "SortedStatefulOrderPlacement_Less si sj = ordering_Less (GetTransactionIndex si) (GetTransactionIndex sj)"

section \<open>Lemmas: identifiers and orders\<close>

lemma SortedSubaccountIds_Less_iff: "SortedSubaccountIds_Less s t \<longleftrightarrow> s < t"
  by (auto simp: SortedSubaccountIds_Less_def less_SubaccountId_ext_def SubaccountId_key_def)

lemma SubaccountId_eq_iff: "(s :: SubaccountId) = t \<longleftrightarrow> sid_Owner s = sid_Owner t \<and> sid_Number s = sid_Number t"
  by (cases s; cases t) auto

lemma SortedOrders_Less_iff: "SortedOrders_Less s t \<longleftrightarrow> s < t"
proof (cases "oid_SubaccountId s = oid_SubaccountId t")
  case True
  then show ?thesis
    by (auto simp: SortedOrders_Less_def less_OrderId_ext_def OrderId_key_def)
next
  case False
  then have "SortedOrders_Less s t = SortedSubaccountIds_Less (oid_SubaccountId s) (oid_SubaccountId t)"
    by (auto simp: SortedOrders_Less_def SortedSubaccountIds_Less_def SubaccountId_eq_iff)
  with False show ?thesis
    by (auto simp: SortedSubaccountIds_Less_iff less_OrderId_ext_def OrderId_key_def)
qed

lemma no_duplicates_loop:
  "(\<exists>r. for_res (\<lambda>x seen. if x \<in> set seen then Inl e else Inr (x # seen)) xs acc = Inr r) \<longleftrightarrow>
     distinct xs \<and> set xs \<inter> set acc = {}"
  by (induction xs arbitrary: acc) auto

lemma MustSortAndHaveNoDuplicates_iff:
  "MustSortAndHaveNoDuplicates xs = Inr ys \<longleftrightarrow> distinct xs \<and> ys = sort xs"
  using no_duplicates_loop[of "Panic ''cannot sort orders with duplicate order id''" xs "[]"]
  by (auto simp: MustSortAndHaveNoDuplicates_def res_simps)

lemmas OrderIdFlags_defs =
  OrderIdFlags_ShortTerm_def OrderIdFlags_Conditional_def OrderIdFlags_LongTerm_def
  OrderIdFlags_Twap_def OrderIdFlags_TwapSuborder_def

lemmas order_kind_defs =
  OrderId_IsShortTermOrder_def OrderId_IsConditionalOrder_def OrderId_IsTwapOrder_def
  OrderId_IsLongTermOrder_def OrderId_IsTwapSuborder_def OrderIdFlags_defs

lemma stateful_not_short_term: "OrderId_IsStatefulOrder i \<Longrightarrow> \<not> OrderId_IsShortTermOrder i"
  by (auto simp: OrderId_IsStatefulOrder_def order_kind_defs)

lemma guard_err_Inr [simp]: "guard_err c n = Inr () \<longleftrightarrow> \<not> c"
  by (simp add: guard_err_def)

text \<open>
  Replacement: orders with the same id are compared by expiration and then by hash; the comparison is
  antisymmetric, and 0 only for orders with the same hash.
\<close>

lemma MustCmpReplacementOrder_antisym:
  assumes "MustCmpReplacementOrder h x y = Inr c"
  shows "MustCmpReplacementOrder h y x = Inr (- c)"
  using assms
  by (auto simp: MustCmpReplacementOrder_def bytes_Compare_def Let_def Order_IsShortTermOrder_def split: if_splits)

text \<open>What the messages' stateless validation establishes about an order.\<close>

definition valid_order :: "(string \<Rightarrow> 'a res) \<Rightarrow> Order \<Rightarrow> bool" where
  "valid_order fb ord \<longleftrightarrow>
     \<not> isl (fb (sid_Owner (oid_SubaccountId (o_OrderId ord)))) \<and>
     sid_Number (oid_SubaccountId (o_OrderId ord)) \<le> MaxSubaccountIdNumber \<and>
     o_Side ord \<in> {SIDE_BUY, SIDE_SELL} \<and> 0 < o_Quantums ord \<and>
     o_TimeInForce ord \<in> {TIME_IN_FORCE_UNSPECIFIED, TIME_IN_FORCE_IOC, TIME_IN_FORCE_POST_ONLY} \<and>
     (o_OrderRouterAddress ord = [] \<or> \<not> isl (fb (o_OrderRouterAddress ord))) \<and>
     (if Order_IsShortTermOrder ord then \<exists>b > 0. o_GoodTilOneof ord = GoodTilBlock b
      else Order_IsStatefulOrder ord \<and> (\<exists>t > 0. o_GoodTilOneof ord = GoodTilBlockTime t)) \<and>
     (OrderId_IsLongTermOrder (o_OrderId ord) \<longrightarrow> o_TimeInForce ord \<noteq> TIME_IN_FORCE_IOC) \<and>
     (o_ReduceOnly ord \<longrightarrow> o_TimeInForce ord = TIME_IN_FORCE_IOC) \<and>
     (Order_IsTwapOrder ord \<or> 0 < o_Subticks ord) \<and>
     (if Order_IsConditionalOrder ord
      then o_ConditionType ord \<in> {CONDITION_TYPE_STOP_LOSS, CONDITION_TYPE_TAKE_PROFIT} \<and>
           0 < o_ConditionalOrderTriggerSubticks ord
      else o_ConditionType ord = CONDITION_TYPE_UNSPECIFIED \<and> o_ConditionalOrderTriggerSubticks ord = 0) \<and>
     (\<forall>p. o_BuilderCodeParameters ord = Some p \<longrightarrow>
        \<not> isl (fb (bc_BuilderAddress p)) \<and> 0 < bc_FeePpm p \<and> bc_FeePpm p \<le> MaxBuilderCodeFeePpm) \<and>
     (Order_IsTwapOrder ord \<longrightarrow>
        (\<exists>p. o_TwapParameters ord = Some p \<and> 30 \<le> tw_Interval p \<and> tw_Interval p \<le> 3600 \<and>
             300 \<le> tw_Duration p \<and> tw_Duration p \<le> 86400 \<and> uint (tw_Interval p) dvd uint (tw_Duration p) \<and>
             tw_PriceTolerance p < 1000000))"

lemma word_pos_iff: "0 < (w :: 'a::len word) \<longleftrightarrow> w \<noteq> 0"
  by (simp add: word_neq_0_conv)

lemma validate_good_til_iff:
  "validate_good_til ord = Inr () \<longleftrightarrow>
     (if Order_IsShortTermOrder ord then \<exists>b > 0. o_GoodTilOneof ord = GoodTilBlock b
      else Order_IsStatefulOrder ord \<and> (\<exists>t > 0. o_GoodTilOneof ord = GoodTilBlockTime t))"
  by (cases "o_GoodTilOneof ord")
    (auto simp: validate_good_til_def GetGoodTilBlock_def GetGoodTilBlockTime_def Order_IsShortTermOrder_def
      Order_IsStatefulOrder_def word_pos_iff)

lemma validate_condition_iff:
  assumes "validate_enums ord = Inr ()"
  shows "validate_condition ord = Inr () \<longleftrightarrow>
     (if Order_IsConditionalOrder ord
      then o_ConditionType ord \<in> {CONDITION_TYPE_STOP_LOSS, CONDITION_TYPE_TAKE_PROFIT} \<and>
           0 < o_ConditionalOrderTriggerSubticks ord
      else o_ConditionType ord = CONDITION_TYPE_UNSPECIFIED \<and> o_ConditionalOrderTriggerSubticks ord = 0)"
  using assms
  by (cases "o_ConditionType ord")
    (auto simp: validate_condition_def validate_enums_def res_simps Order_IsConditionalOrder_def word_pos_iff)

lemma validate_builder_iff:
  "validate_builder fb ord = Inr () \<longleftrightarrow>
     (\<forall>p. o_BuilderCodeParameters ord = Some p \<longrightarrow>
        \<not> isl (fb (bc_BuilderAddress p)) \<and> 0 < bc_FeePpm p \<and> bc_FeePpm p \<le> MaxBuilderCodeFeePpm)"
  by (auto simp: validate_builder_def word_pos_iff not_less isl_def split: option.splits sum.splits)

lemma dvd_word_iff: "uint a dvd uint b \<longleftrightarrow> b mod a = 0"
  by (metis dvd_eq_mod_eq_0 uint_0_iff uint_mod)

lemma validate_twap_iff:
  "validate_twap ord = Inr () \<longleftrightarrow>
     (Order_IsTwapOrder ord \<longrightarrow>
        (\<exists>p. o_TwapParameters ord = Some p \<and> 30 \<le> tw_Interval p \<and> tw_Interval p \<le> 3600 \<and>
             300 \<le> tw_Duration p \<and> tw_Duration p \<le> 86400 \<and> uint (tw_Interval p) dvd uint (tw_Duration p) \<and>
             tw_PriceTolerance p < 1000000))"
  by (auto simp: validate_twap_def MinTwapOrderInterval_def MaxTwapOrderInterval_def MinTwapOrderDuration_def
      MaxTwapOrderDuration_def MaxTwapOrderPriceTolerance_def not_less not_le dvd_word_iff
      split: option.splits)

lemma SubaccountId_Validate_iff:
  "SubaccountId_Validate fb i = Inr () \<longleftrightarrow> \<not> isl (fb (sid_Owner i)) \<and> sid_Number i \<le> MaxSubaccountIdNumber"
  by (auto simp: SubaccountId_Validate_def not_less isl_def split: sum.splits)

lemma validate_enums_iff:
  "validate_enums ord = Inr () \<longleftrightarrow>
     o_Side ord \<in> {SIDE_UNSPECIFIED, SIDE_BUY, SIDE_SELL} \<and>
     o_TimeInForce ord \<in> {TIME_IN_FORCE_UNSPECIFIED, TIME_IN_FORCE_IOC, TIME_IN_FORCE_POST_ONLY, TIME_IN_FORCE_FILL_OR_KILL} \<and>
     o_ConditionType ord \<in> {CONDITION_TYPE_UNSPECIFIED, CONDITION_TYPE_STOP_LOSS, CONDITION_TYPE_TAKE_PROFIT}"
  by (cases "o_Side ord"; cases "o_TimeInForce ord"; cases "o_ConditionType ord")
    (simp_all add: validate_enums_def res_simps)

lemma ValidateBasic_valid: "MsgPlaceOrder_ValidateBasic fb ord = Inr () \<longleftrightarrow> valid_order fb ord"
proof (cases "validate_enums ord = Inr ()")
  case True
  note enums = True[unfolded validate_enums_iff]
  have "o_Side ord \<noteq> SIDE_UNSPECIFIED \<longleftrightarrow> o_Side ord \<in> {SIDE_BUY, SIDE_SELL}"
    and "o_TimeInForce ord \<noteq> TIME_IN_FORCE_FILL_OR_KILL \<longleftrightarrow>
      o_TimeInForce ord \<in> {TIME_IN_FORCE_UNSPECIFIED, TIME_IN_FORCE_IOC, TIME_IN_FORCE_POST_ONLY}"
    using enums by auto
  with True show ?thesis
    unfolding MsgPlaceOrder_ValidateBasic_def valid_order_def
    by (simp add: res_simps validate_good_til_iff validate_builder_iff validate_twap_iff SubaccountId_Validate_iff
        validate_condition_iff[OF True] RequiresImmediateExecution_def word_pos_iff del: insert_iff) argo
next
  case False
  then have "\<not> valid_order fb ord"
    by (auto simp: valid_order_def validate_enums_iff split: if_splits)
  with False show ?thesis
    by (auto simp: MsgPlaceOrder_ValidateBasic_def res_simps)
qed


lemma twap_legs:
  assumes "valid_order fb ord" "Order_IsTwapOrder ord" "o_TwapParameters ord = Some p"
  shows "\<exists>legs. GetTotalLegsTWAPOrder ord = Inr legs \<and> 1 \<le> legs \<and> legs \<le> 2880 \<and>
    uint legs * uint (tw_Interval p) = uint (tw_Duration p)"
proof -
  have b: "30 \<le> tw_Interval p" "300 \<le> tw_Duration p" "tw_Duration p \<le> 86400"
    and d: "uint (tw_Interval p) dvd uint (tw_Duration p)"
    using assms by (auto simp: valid_order_def)
  let ?i = "uint (tw_Interval p)" and ?d = "uint (tw_Duration p)"
  have u: "30 \<le> ?i" "300 \<le> ?d" "?d \<le> 86400"
    using b by (simp_all add: word_le_def)
  then have "0 < ?d div ?i"
    using zdvd_imp_le[OF d] by (simp add: pos_imp_zdiv_pos_iff)
  then have q: "?d div ?i * ?i = ?d" "1 \<le> ?d div ?i"
    using d by simp_all
  have "?d div ?i \<le> ?d div 30"
    using u by (intro zdiv_mono2) auto
  then have "?d div ?i \<le> 2880" using u by simp
  moreover have "tw_Interval p \<noteq> 0" using u by auto
  ultimately show ?thesis
    using assms(2,3) q by (auto simp: GetTotalLegsTWAPOrder_def word_le_def uint_div_distrib)
qed

definition ex_order :: "Order_Side \<Rightarrow> uint64 \<Rightarrow> uint64 \<Rightarrow> uint32 \<Rightarrow> Order" where
  "ex_order side quantums subticks client = \<lparr>
     o_OrderId = \<lparr>oid_SubaccountId = \<lparr>sid_Owner = ''alice'', sid_Number = 0\<rparr>, oid_ClientId = client,
                 oid_OrderFlags = 0, oid_ClobPairId = 0\<rparr>,
     o_Side = side, o_Quantums = quantums, o_Subticks = subticks, o_GoodTilOneof = GoodTilBlock 20,
     o_TimeInForce = TIME_IN_FORCE_UNSPECIFIED, o_ReduceOnly = False, o_ClientMetadata = 0,
     o_ConditionType = CONDITION_TYPE_UNSPECIFIED, o_ConditionalOrderTriggerSubticks = 0,
     o_TwapParameters = None, o_BuilderCodeParameters = None, o_OrderRouterAddress = []\<rparr>"

definition ex_twap_order :: Order where
  "ex_twap_order = (ex_order SIDE_BUY 1000 0 7)
     \<lparr>o_OrderId := \<lparr>oid_SubaccountId = \<lparr>sid_Owner = ''alice'', sid_Number = 0\<rparr>, oid_ClientId = 7,
                 oid_OrderFlags = 128, oid_ClobPairId = 0\<rparr>,
      o_GoodTilOneof := GoodTilBlockTime 1000,
      o_TwapParameters := Some \<lparr>tw_Duration = 300, tw_Interval = 30, tw_PriceTolerance = 10000\<rparr>\<rparr>"

text \<open>
  C20: An order passes \<^verbatim>\<open>MsgPlaceOrder.ValidateBasic\<close> exactly when it is well formed (a real side, a
  non-zero size, one of the five order kinds with the matching kind of expiry, a limit price unless it
  is a TWAP order, a trigger exactly for conditional orders, immediate execution for reduce-only orders
  and never for long-term orders, a bounded builder fee, a TWAP schedule within its limits); and on a
  well-formed order none of the accessors that panic do: its side is valid, a stateful order has an
  expiry time, and a TWAP order has between 1 and 2880 legs that exactly fill its duration.
\<close>

theorem accepted_orders_well_formed:
  "(MsgPlaceOrder_ValidateBasic fb ord = Inr () \<longleftrightarrow> valid_order fb ord) \<and>
   (valid_order fb ord \<longrightarrow>
      MustBeValidOrderSide ord = Inr () \<and>
      (Order_IsStatefulOrder ord \<longrightarrow> (\<exists>t > 0. Order_MustGetUnixGoodTilBlockTime ord = Inr t)) \<and>
      (Order_IsTwapOrder ord \<longrightarrow>
        (\<exists>p legs. o_TwapParameters ord = Some p \<and> GetTotalLegsTWAPOrder ord = Inr legs \<and> 1 \<le> legs \<and> legs \<le> 2880 \<and>
                  uint legs * uint (tw_Interval p) = uint (tw_Duration p))))"
proof (intro conjI impI)
  assume v: "valid_order fb ord"
  then show "MustBeValidOrderSide ord = Inr ()"
    by (auto simp: valid_order_def MustBeValidOrderSide_def)
  show "\<exists>t > 0. Order_MustGetUnixGoodTilBlockTime ord = Inr t" if "Order_IsStatefulOrder ord"
    using v that stateful_not_short_term[of "o_OrderId ord"]
    by (auto simp: valid_order_def Order_MustGetUnixGoodTilBlockTime_def OrderId_MustBeStatefulOrder_def
        Order_IsShortTermOrder_def Order_IsStatefulOrder_def GetGoodTilBlockTime_def uint_pos_iff)
  show "\<exists>p legs. o_TwapParameters ord = Some p \<and> GetTotalLegsTWAPOrder ord = Inr legs \<and> 1 \<le> legs \<and> legs \<le> 2880 \<and>
      uint legs * uint (tw_Interval p) = uint (tw_Duration p)" if "Order_IsTwapOrder ord"
    using v that twap_legs[OF v that] by (auto simp: valid_order_def)
qed (rule ValidateBasic_valid)

theorem accepted_orders_well_formed_witness:
  "MsgPlaceOrder_ValidateBasic (\<lambda>a. Inr a) ex_twap_order = Inr () \<and>
   (\<exists>p legs. o_TwapParameters ex_twap_order = Some p \<and> GetTotalLegsTWAPOrder ex_twap_order = Inr legs \<and>
      1 \<le> legs \<and> legs \<le> 2880 \<and> uint legs * uint (tw_Interval p) = uint (tw_Duration p))"
proof -
  have v: "MsgPlaceOrder_ValidateBasic (\<lambda>a. Inr a :: string res) ex_twap_order = Inr ()"
    by code_simp
  moreover have "Order_IsTwapOrder ex_twap_order" by code_simp
  ultimately show ?thesis
    using accepted_orders_well_formed[where fb = "\<lambda>a. Inr a :: string res" and ord = ex_twap_order] by blast
qed

end
