(* ===== verification/Orderbook.thy ===== *)
theory Orderbook
  imports ClobTypes
begin

text \<open>
  \<^verbatim>\<open>x/clob/memclob/orderbook.go\<close>: the in-memory order book of one clob pair. A price level is the list
  of its resting orders, oldest first (the generic linked list of the code is used as a sequence); a
  pointer to a list node is the node's value, found in its level by its order id. Go maps are
  key-sorted association lists, so that their size and their iteration are computable. The methods
  change the book, so they are steps on the record \<open>Orderbook\<close>.
\<close>

section \<open>Definitions\<close>

record ClobOrder =
  co_Order :: Order
  co_Signature :: "8 word list"

type_synonym LevelOrder = ClobOrder
type_synonym Level = "ClobOrder list"
type_synonym OrderIdSet = "(OrderId, bool) gomap"

record Orderbook =
  book_SubticksPerTick :: uint32
  book_Bids :: "(uint64, Level) gomap"
  book_Asks :: "(uint64, Level) gomap"
  book_BestBid :: uint64
  book_BestAsk :: uint64
  book_SubaccountOpenClobOrders :: "(SubaccountId, (Order_Side, OrderIdSet) gomap) gomap"
  book_MinOrderBaseQuantums :: uint64
  book_SubaccountOpenReduceOnlyOrders :: "(SubaccountId, OrderIdSet) gomap"
  book_TotalOpenOrders :: uint64
  book_orderIdToLevelOrder :: "(OrderId, LevelOrder) gomap"
  book_blockExpirationsForOrders :: "(uint32, OrderIdSet) gomap"
  book_orderIdToCancelExpiry :: "(OrderId, uint32) gomap"
  book_cancelExpiryToOrderIds :: "(uint32, OrderIdSet) gomap"

definition MaxUint64 :: uint64 where "MaxUint64 = - 1"

definition GetSide :: "Orderbook \<Rightarrow> bool \<Rightarrow> (uint64, Level) gomap" where
  "GetSide b isBuy = (if isBuy then book_Bids b else book_Asks b)"

definition setSide :: "bool \<Rightarrow> (uint64, Level) gomap \<Rightarrow> Orderbook \<Rightarrow> Orderbook" where
  "setSide isBuy levels b = (if isBuy then b\<lparr>book_Bids := levels\<rparr> else b\<lparr>book_Asks := levels\<rparr>)"

definition GetMidPrice :: "Orderbook \<Rightarrow> uint64 \<times> bool" where
  "GetMidPrice b =
     (if book_BestBid b = 0 \<or> book_BestAsk b = MaxUint64 then (0, False)
      else (book_BestBid b + (book_BestAsk b - book_BestBid b) div 2, True))"

text \<open>The scan by ticks: at most \<open>n\<close> iterations, \<^const>\<open>None\<close> when none of them finds a level.\<close>

fun scan_ticks :: "(uint64, Level) gomap \<Rightarrow> uint64 \<Rightarrow> bool \<Rightarrow> nat \<Rightarrow> uint64 \<Rightarrow> uint64 option" where
  "scan_ticks levels perTick isBuy 0 curSubticks = None"
| "scan_ticks levels perTick isBuy (Suc n) curSubticks =
     (let curSubticks = (if isBuy then curSubticks - perTick else curSubticks + perTick)
      in if gm_get levels curSubticks \<noteq> None then Some curSubticks
         else scan_ticks levels perTick isBuy n curSubticks)"

text \<open>The iteration over all levels.\<close>

definition scan_level :: "bool \<Rightarrow> uint64 \<Rightarrow> uint64 \<Rightarrow> uint64 \<times> bool \<Rightarrow> uint64 \<times> bool" where
  "scan_level isBuy startingTicks subtick st =
     (let (nextBestSubtick, found) = st in
      if isBuy \<and> nextBestSubtick < subtick \<and> subtick < startingTicks then (subtick, True)
      else if \<not> isBuy \<and> subtick < nextBestSubtick \<and> startingTicks < subtick then (subtick, True)
      else (nextBestSubtick, found))"

definition findNextBestSubticks :: "Orderbook \<Rightarrow> uint64 \<Rightarrow> bool \<Rightarrow> uint64 \<times> bool" where
  "findNextBestSubticks b startingTicks isBuy =
     (let levels = GetSide b isBuy;
          numLevels = length levels
      in case scan_ticks levels (ucast (book_SubticksPerTick b)) isBuy numLevels startingTicks of
           Some curSubticks \<Rightarrow> (curSubticks, True)
         | None \<Rightarrow> fold (scan_level isBuy startingTicks) (gm_keys levels)
                       (if isBuy then 0 else MaxUint64, False))"

text \<open>\<^verbatim>\<open>list.Node.Next\<close>: the node after the given one in its level.\<close>

fun next_node :: "OrderId \<Rightarrow> Level \<Rightarrow> LevelOrder option" where
  "next_node i [] = None"
| "next_node i (n # ns) =
     (if o_OrderId (co_Order n) = i then (case ns of [] \<Rightarrow> None | m # _ \<Rightarrow> Some m) else next_node i ns)"

definition getFirstOrderAtSideAndSubticks :: "Orderbook \<Rightarrow> bool \<Rightarrow> uint64 \<Rightarrow> LevelOrder option" where
  "getFirstOrderAtSideAndSubticks b isBuy subticks =
     (case gm_get (GetSide b isBuy) subticks of
        None \<Rightarrow> None
      | Some levelOrders \<Rightarrow> (case levelOrders of [] \<Rightarrow> None | front # _ \<Rightarrow> Some front))"

definition findNextBestLevelOrder :: "Orderbook \<Rightarrow> LevelOrder \<Rightarrow> LevelOrder option" where
  "findNextBestLevelOrder b levelOrder =
     (let order = co_Order levelOrder;
          subticks = o_Subticks order;
          isBuy = Order_IsBuy order
      in case (case gm_get (GetSide b isBuy) subticks of
                 None \<Rightarrow> None | Some level \<Rightarrow> next_node (o_OrderId order) level) of
           Some next \<Rightarrow> Some next
         | None \<Rightarrow> let (nextBestSubticks, foundOrder) = findNextBestSubticks b subticks isBuy
                  in if \<not> foundOrder then None else getFirstOrderAtSideAndSubticks b isBuy nextBestSubticks)"

definition getBestOrderOnSide :: "Orderbook \<Rightarrow> bool \<Rightarrow> LevelOrder option" where
  "getBestOrderOnSide b isBuy =
     getFirstOrderAtSideAndSubticks b isBuy (if isBuy then book_BestBid b else book_BestAsk b)"

definition hasOrder :: "Orderbook \<Rightarrow> OrderId \<Rightarrow> bool" where
  "hasOrder b orderId \<longleftrightarrow> gm_get (book_orderIdToLevelOrder b) orderId \<noteq> None"

definition getOrder :: "Orderbook \<Rightarrow> OrderId \<Rightarrow> Order option" where
  "getOrder b orderId = map_option co_Order (gm_get (book_orderIdToLevelOrder b) orderId)"

text \<open>A read of a missing (nil) inner map or list sees the empty one.\<close>

definition gm_at :: "('k, 'v list) gomap \<Rightarrow> 'k \<Rightarrow> 'v list" where
  "gm_at m k = (case gm_get m k of None \<Rightarrow> [] | Some m' \<Rightarrow> m')"

definition getSubaccountOrders :: "Orderbook \<Rightarrow> SubaccountId \<Rightarrow> Order_Side \<Rightarrow> Order list res" where
  "getSubaccountOrders b subaccountId side =
     (if side = SIDE_UNSPECIFIED then Inl (Err ''ErrInvalidOrderSide'')
      else map_res (\<lambda>orderId.
             case getOrder b orderId of
               None \<Rightarrow> Inl (Panic ''Open subaccount order does not exist in memclob'')
             | Some order \<Rightarrow> Inr order)
           (gm_keys (gm_at (gm_at (book_SubaccountOpenClobOrders b) subaccountId) side)))"

definition mustAddShortTermOrderToBlockExpirationsForOrders :: "Order \<Rightarrow> (Orderbook, unit) step" where
  "mustAddShortTermOrderToBlockExpirationsForOrders order =
     (if \<not> OrderId_IsShortTermOrder (o_OrderId order)
      then failM (Panic ''mustAddShortTermOrderToBlockExpirationsForOrders'')
      else modifyM (\<lambda>b.
        let goodTilBlock = GetGoodTilBlock (o_GoodTilOneof order);
            ordersExpiringAtBlock = gm_at (book_blockExpirationsForOrders b) goodTilBlock
        in b\<lparr>book_blockExpirationsForOrders :=
               gm_set goodTilBlock (gm_set (o_OrderId order) True ordersExpiringAtBlock)
                 (book_blockExpirationsForOrders b)\<rparr>))"

definition mustAddOrderToSubaccountOrders :: "Order \<Rightarrow> Orderbook \<Rightarrow> Orderbook" where
  "mustAddOrderToSubaccountOrders order b =
     (let subaccountId = oid_SubaccountId (o_OrderId order);
          subaccountOpenClobOrders = gm_at (book_SubaccountOpenClobOrders b) subaccountId;
          subaccountOpenClobOrdersSide = gm_at subaccountOpenClobOrders (o_Side order)
      in b\<lparr>book_SubaccountOpenClobOrders :=
             gm_set subaccountId
               (gm_set (o_Side order) (gm_set (o_OrderId order) True subaccountOpenClobOrdersSide)
                 subaccountOpenClobOrders)
               (book_SubaccountOpenClobOrders b)\<rparr>)"

definition addReduceOnlyOrder :: "Order \<Rightarrow> Orderbook \<Rightarrow> Orderbook" where
  "addReduceOnlyOrder newOrder b =
     (let subaccountId = oid_SubaccountId (o_OrderId newOrder);
          openReduceOnlyOrders = gm_at (book_SubaccountOpenReduceOnlyOrders b) subaccountId
      in b\<lparr>book_SubaccountOpenReduceOnlyOrders :=
             gm_set subaccountId (gm_set (o_OrderId newOrder) True openReduceOnlyOrders)
               (book_SubaccountOpenReduceOnlyOrders b)\<rparr>)"

definition updateBestOnAdd :: "Order \<Rightarrow> Orderbook \<Rightarrow> Orderbook" where
  "updateBestOnAdd newOrder b =
     (if Order_IsBuy newOrder
      then (if book_BestBid b < o_Subticks newOrder then b\<lparr>book_BestBid := o_Subticks newOrder\<rparr> else b)
      else (if o_Subticks newOrder < book_BestAsk b then b\<lparr>book_BestAsk := o_Subticks newOrder\<rparr> else b))"

text \<open>
  \<^verbatim>\<open>mustAddOrderToOrderbook\<close>. The level is created before the check for a duplicate order id, so the
  panic leaves the new best price and an empty level behind.
\<close>

definition createLevel :: "Order \<Rightarrow> Orderbook \<Rightarrow> Orderbook" where
  "createLevel newOrder b =
     (let isBuy = Order_IsBuy newOrder in
      if gm_get (GetSide b isBuy) (o_Subticks newOrder) = None
      then setSide isBuy (gm_set (o_Subticks newOrder) [] (GetSide b isBuy)) b else b)"

definition pushOrder :: "Order \<Rightarrow> bool \<Rightarrow> Orderbook \<Rightarrow> Orderbook" where
  "pushOrder newOrder forceToFrontOfLevel b =
     (let isBuy = Order_IsBuy newOrder;
          clobOrder = \<lparr>co_Order = newOrder, co_Signature = []\<rparr>;
          level = gm_at (GetSide b isBuy) (o_Subticks newOrder);
          level' = (if forceToFrontOfLevel then clobOrder # level else level @ [clobOrder])
      in (setSide isBuy (gm_set (o_Subticks newOrder) level' (GetSide b isBuy)) b)
           \<lparr>book_orderIdToLevelOrder :=
              gm_set (o_OrderId newOrder) clobOrder (book_orderIdToLevelOrder b)\<rparr>)"

definition mustAddOrderToOrderbook :: "Order \<Rightarrow> bool \<Rightarrow> (Orderbook, unit) step" where
  "mustAddOrderToOrderbook newOrder forceToFrontOfLevel =
     bindM (liftM (\<lambda>_. MustBeValidOrderSide newOrder)) (\<lambda>_.
     bindM (modifyM (\<lambda>b. createLevel newOrder (updateBestOnAdd newOrder b))) (\<lambda>_.
     bindM (liftM (\<lambda>b. if hasOrder b (o_OrderId newOrder)
                       then Inl (Panic ''mustAddOrderToOrderbook'') else Inr ())) (\<lambda>_.
     bindM (modifyM (\<lambda>b. mustAddOrderToSubaccountOrders newOrder (pushOrder newOrder forceToFrontOfLevel b))) (\<lambda>_.
     bindM (modifyM (\<lambda>b. b\<lparr>book_TotalOpenOrders := book_TotalOpenOrders b + 1\<rparr>)) (\<lambda>_.
     bindM (if Order_IsShortTermOrder newOrder
            then mustAddShortTermOrderToBlockExpirationsForOrders newOrder else retM ()) (\<lambda>_.
     if o_ReduceOnly newOrder then modifyM (addReduceOnlyOrder newOrder) else retM ()))))))"

text \<open>Deleting a key from an inner map, and the inner map itself when it becomes empty.\<close>

definition gm_del_in :: "'k::linorder \<Rightarrow> 'l \<Rightarrow> ('k, ('l, 'v) gomap) gomap \<Rightarrow> ('k, ('l, 'v) gomap) gomap" where
  "gm_del_in k l m =
     (let inner = gm_del l (gm_at m k)
      in if inner = [] then gm_del k m else gm_set k inner m)"

definition removeFromMaps :: "Order \<Rightarrow> Orderbook \<Rightarrow> Orderbook" where
  "removeFromMaps order b =
     (let orderId = o_OrderId order;
          subaccountId = oid_SubaccountId orderId;
          b = (if OrderId_IsShortTermOrder orderId
               then b\<lparr>book_blockExpirationsForOrders :=
                      gm_del_in (GetGoodTilBlock (o_GoodTilOneof order)) orderId (book_blockExpirationsForOrders b)\<rparr>
               else b);
          sides = gm_del_in (o_Side order) orderId (gm_at (book_SubaccountOpenClobOrders b) subaccountId);
          b = b\<lparr>book_SubaccountOpenClobOrders :=
                  (if sides = [] then gm_del subaccountId (book_SubaccountOpenClobOrders b)
                   else gm_set subaccountId sides (book_SubaccountOpenClobOrders b))\<rparr>;
          b = b\<lparr>book_orderIdToLevelOrder := gm_del orderId (book_orderIdToLevelOrder b)\<rparr>
      in if o_ReduceOnly order
         then b\<lparr>book_SubaccountOpenReduceOnlyOrders :=
                gm_del_in subaccountId orderId (book_SubaccountOpenReduceOnlyOrders b)\<rparr>
         else b)"

text \<open>\<^verbatim>\<open>list.Remove\<close>: unlinks the node from the level.\<close>

definition removeNode :: "OrderId \<Rightarrow> Level \<Rightarrow> Level" where
  "removeNode orderId level = filter (\<lambda>n. o_OrderId (co_Order n) \<noteq> orderId) level"

definition removeFromLevel :: "Order \<Rightarrow> Level \<Rightarrow> Orderbook \<Rightarrow> Orderbook" where
  "removeFromLevel order level b =
     (let isBuy = Order_IsBuy order;
          subticks = o_Subticks order;
          level' = removeNode (o_OrderId order) level;
          b = b\<lparr>book_TotalOpenOrders := book_TotalOpenOrders b - 1\<rparr>
      in if level' \<noteq> [] then setSide isBuy (gm_set subticks level' (GetSide b isBuy)) b
         else
           let b = setSide isBuy (gm_del subticks (GetSide b isBuy)) b
           in if isBuy
              then (if subticks = book_BestBid b
                    then b\<lparr>book_BestBid := fst (findNextBestSubticks b subticks True)\<rparr> else b)
              else (if subticks = book_BestAsk b
                    then b\<lparr>book_BestAsk := fst (findNextBestSubticks b subticks False)\<rparr> else b))"

definition mustRemoveOrder :: "LevelOrder \<Rightarrow> (Orderbook, unit) step" where
  "mustRemoveOrder levelOrder =
     (let order = co_Order levelOrder in
      bindM (modifyM (removeFromMaps order)) (\<lambda>_.
      bindM (liftM (\<lambda>b. case gm_get (GetSide b (Order_IsBuy order)) (o_Subticks order) of
                           None \<Rightarrow> Inl (Panic ''mustRemoveOrder: Level does not exist for order'')
                         | Some level \<Rightarrow> Inr level)) (\<lambda>level.
      modifyM (removeFromLevel order level))))"

section \<open>Definitions: cancels\<close>

definition getCancel :: "Orderbook \<Rightarrow> OrderId \<Rightarrow> uint32 option" where
  "getCancel b orderId = gm_get (book_orderIdToCancelExpiry b) orderId"

definition addShortTermCancel :: "OrderId \<Rightarrow> uint32 \<Rightarrow> (Orderbook, unit) step" where
  "addShortTermCancel orderId tilBlock =
     bindM (liftM (\<lambda>_. OrderId_MustBeShortTermOrder orderId)) (\<lambda>_.
     bindM (liftM (\<lambda>b. if getCancel b orderId \<noteq> None then Inl (Panic ''mustAddCancel'') else Inr ())) (\<lambda>_.
     bindM (modifyM (\<lambda>b. b\<lparr>book_orderIdToCancelExpiry :=
                              gm_set orderId tilBlock (book_orderIdToCancelExpiry b)\<rparr>)) (\<lambda>_.
     bindM (liftM (\<lambda>b. case gm_get (book_cancelExpiryToOrderIds b) tilBlock of
                          None \<Rightarrow> Inr []
                        | Some orderIdsInBlock \<Rightarrow>
                            if gm_get orderIdsInBlock orderId \<noteq> None then Inl (Panic ''memclobCancels#add'')
                            else Inr orderIdsInBlock)) (\<lambda>orderIdsInBlock.
     modifyM (\<lambda>b. b\<lparr>book_cancelExpiryToOrderIds :=
                       gm_set tilBlock (gm_set orderId True orderIdsInBlock)
                         (book_cancelExpiryToOrderIds b)\<rparr>)))))"

definition mustRemoveCancel :: "OrderId \<Rightarrow> (Orderbook, unit) step" where
  "mustRemoveCancel orderId =
     bindM (liftM (\<lambda>b. case getCancel b orderId of
                          None \<Rightarrow> Inl (Panic ''memclobCancels#remove: orderIdToExpiry'')
                        | Some goodTilBlock \<Rightarrow> Inr goodTilBlock)) (\<lambda>goodTilBlock.
     bindM (liftM (\<lambda>b. case gm_get (book_cancelExpiryToOrderIds b) goodTilBlock of
                          None \<Rightarrow> Inl (Panic ''memclobCancels#remove: expiryToOrderIds'')
                        | Some orderIds \<Rightarrow>
                            if gm_get orderIds orderId = None
                            then Inl (Panic ''memclobCancels#remove: expiryToOrderIds'') else Inr orderIds))
       (\<lambda>expiryToOrderIdsForBlock.
     modifyM (\<lambda>b. b\<lparr>book_orderIdToCancelExpiry := gm_del orderId (book_orderIdToCancelExpiry b),
                     book_cancelExpiryToOrderIds :=
                       (if length expiryToOrderIdsForBlock = 1
                        then gm_del goodTilBlock (book_cancelExpiryToOrderIds b)
                        else gm_set goodTilBlock (gm_del orderId expiryToOrderIdsForBlock)
                               (book_cancelExpiryToOrderIds b))\<rparr>)))"

definition removeAllCancelsAtBlock :: "uint32 \<Rightarrow> (Orderbook, unit) step" where
  "removeAllCancelsAtBlock block =
     bindM (liftM (\<lambda>b. Inr (gm_get (book_cancelExpiryToOrderIds b) block))) (\<lambda>orderIds.
       case orderIds of
         None \<Rightarrow> retM ()
       | Some ids \<Rightarrow> forM mustRemoveCancel (gm_keys ids))"

section \<open>Lemmas: nested maps\<close>

text \<open>Maps of maps in which no inner map is empty; they represent relations.\<close>

definition nested_ok :: "('k::linorder, ('l::linorder, 'v) gomap) gomap \<Rightarrow> bool" where
  "nested_ok m \<longleftrightarrow> gm_inv m \<and> (\<forall>k inner. gm_get m k = Some inner \<longrightarrow> inner \<noteq> [] \<and> gm_inv inner)"

definition holds_at :: "('k, ('l, 'v) gomap) gomap \<Rightarrow> 'k \<Rightarrow> 'l \<Rightarrow> bool" where
  "holds_at m k l \<longleftrightarrow> gm_get (gm_at m k) l \<noteq> None"

lemma gm_set_not_Nil [simp]: "gm_set k v m \<noteq> []"
  by (induction k v m rule: gm_set.induct) auto

lemma gm_at_simps [simp]:
  "gm_at [] k = []" "gm_at (gm_set k v m) k' = (if k' = k then v else gm_at m k')"
  "gm_at (gm_del k m) k' = (if k' = k then [] else gm_at m k')"
  by (simp_all add: gm_at_def)

lemma nested_ok_Nil [simp]: "nested_ok []"
  by (simp add: nested_ok_def)

lemma nested_ok_at: "nested_ok m \<Longrightarrow> gm_inv (gm_at m k)"
  by (auto simp: nested_ok_def gm_at_def split: option.splits)

lemma nested_ok_set [simp]: "nested_ok m \<Longrightarrow> gm_inv inner \<Longrightarrow> inner \<noteq> [] \<Longrightarrow> nested_ok (gm_set k inner m)"
  by (simp add: nested_ok_def)

lemma nested_ok_del [simp]: "nested_ok m \<Longrightarrow> nested_ok (gm_del k m)"
  by (simp add: nested_ok_def)

lemma gm_at_del_in [simp]: "gm_at (gm_del_in k l m) k' = (if k' = k then gm_del l (gm_at m k) else gm_at m k')"
  by (simp add: gm_del_in_def Let_def)

lemma nested_ok_del_in [simp]: "nested_ok m \<Longrightarrow> nested_ok (gm_del_in k l m)"
  using nested_ok_at[of m k] by (simp add: gm_del_in_def Let_def)

lemma nested_ok_add: "nested_ok m \<Longrightarrow> nested_ok (gm_set k (gm_set l v (gm_at m k)) m)"
  by (simp add: nested_ok_at)

lemma holds_at_Nil [simp]: "\<not> holds_at [] k l"
  by (simp add: holds_at_def gm_at_def)

lemma holds_at_add [simp]:
  "holds_at (gm_set k (gm_set l v (gm_at m k)) m) k' l' \<longleftrightarrow> k' = k \<and> l' = l \<or> holds_at m k' l'"
  by (auto simp: holds_at_def)

lemma holds_at_del_in [simp]:
  "holds_at (gm_del_in k l m) k' l' \<longleftrightarrow> holds_at m k' l' \<and> \<not> (k' = k \<and> l' = l)"
  by (auto simp: holds_at_def)

lemma nested_ok_present: "nested_ok m \<Longrightarrow> gm_get m k \<noteq> None \<longleftrightarrow> gm_at m k \<noteq> []"
  by (auto simp: nested_ok_def gm_at_def split: option.splits)

lemma length_gm_set: "gm_get m k = None \<Longrightarrow> length (gm_set k v m) = Suc (length m)"
proof (induction k v m rule: gm_set.induct)
  case (2 k v k' v' m)
  then show ?case by (auto simp: gm_get_def split: if_splits)
qed simp

lemma length_gm_del:
  assumes "gm_inv m" "gm_get m k = Some v"
  shows "Suc (length (gm_del k m)) = length m"
  using assms
proof (induction m)
  case (Cons p m)
  have inv: "gm_inv m" using Cons.prems by (simp add: gm_inv_def)
  show ?case
  proof (cases "fst p = k")
    case True
    have "\<forall>q\<in>set m. fst q \<noteq> k"
      using Cons.prems(1) True by (auto simp: gm_inv_def)
    then have "gm_del k m = m" by (auto simp: gm_del_def filter_id_conv)
    with True show ?thesis by (simp add: gm_del_def)
  next
    case False
    with Cons inv show ?thesis by (auto simp: gm_del_def gm_get_def split: if_splits)
  qed
qed simp

declare set_gm_keys_set [simp] set_gm_keys_del [simp]

lemma gm_keys_mem: "k \<in> set (gm_keys m) \<longleftrightarrow> gm_get m k \<noteq> None"
  using dom_gm_get[of m] by (auto simp: dom_def)

section \<open>Lemmas: the next price level\<close>

text \<open>The next worse price among a set of prices: the reference for both scans.\<close>

definition worse_levels :: "bool \<Rightarrow> uint64 \<Rightarrow> (uint64, Level) gomap \<Rightarrow> uint64 set" where
  "worse_levels isBuy start levels = {s \<in> set (gm_keys levels). if isBuy then s < start else start < s}"

definition next_level :: "bool \<Rightarrow> uint64 \<Rightarrow> (uint64, Level) gomap \<Rightarrow> uint64 option" where
  "next_level isBuy start levels =
     (if worse_levels isBuy start levels = {} then None
      else Some (if isBuy then Max (worse_levels isBuy start levels) else Min (worse_levels isBuy start levels)))"

definition worst_price :: "bool \<Rightarrow> uint64" where
  "worst_price isBuy = (if isBuy then 0 else MaxUint64)"

lemma le_MaxUint64 [simp]: "w \<le> MaxUint64"
  by (simp add: MaxUint64_def)

lemma finite_worse [simp]: "finite (worse_levels isBuy start levels)"
  by (simp add: worse_levels_def)

text \<open>The iteration over all levels finds the best of the worse prices.\<close>

lemma scan_level_simps [simp]:
  "scan_level True start k (best, found) = (if best < k \<and> k < start then (k, True) else (best, found))"
  "scan_level False start k (best, found) = (if k < best \<and> start < k then (k, True) else (best, found))"
  by (simp_all add: scan_level_def)

lemma fold_scan_level_buy:
  "fold (scan_level True start) ks (best, found) =
     (Max (insert best {k \<in> set ks. k < start}), found \<or> (\<exists>k \<in> set ks. k < start \<and> best < k))"
proof (induction ks arbitrary: best found)
  case (Cons k ks)
  have eq: "{k' \<in> set (k # ks). k' < start} = (if k < start then insert k {k' \<in> set ks. k' < start} else {k' \<in> set ks. k' < start})"
    by auto
  have max: "Max (insert best (insert k A)) = Max (insert (max best k) A)" if "finite A" for A :: "uint64 set"
    using that by (cases "A = {}") (simp_all add: max.assoc)
  show ?case
  proof (cases "best < k \<and> k < start")
    case True
    then have "max best k = k" by (simp add: max_absorb2)
    with True show ?thesis
      unfolding eq by (auto simp: Cons max simp del: Max_insert)
  next
    case False
    show ?thesis
    proof (cases "k < start")
      case True
      with False have "max best k = best" "\<not> best < k" by (auto simp: max_def)
      with True show ?thesis
        unfolding eq by (auto simp: Cons max simp del: Max_insert)
    next
      case nk: False
      then show ?thesis unfolding eq by (auto simp: Cons)
    qed
  qed
qed simp

lemma fold_scan_level_sell:
  "fold (scan_level False start) ks (best, found) =
     (Min (insert best {k \<in> set ks. start < k}), found \<or> (\<exists>k \<in> set ks. start < k \<and> k < best))"
proof (induction ks arbitrary: best found)
  case (Cons k ks)
  have eq: "{k' \<in> set (k # ks). start < k'} = (if start < k then insert k {k' \<in> set ks. start < k'} else {k' \<in> set ks. start < k'})"
    by auto
  have min: "Min (insert best (insert k A)) = Min (insert (min best k) A)" if "finite A" for A :: "uint64 set"
    using that by (cases "A = {}") (simp_all add: min.assoc)
  show ?case
  proof (cases "k < best \<and> start < k")
    case True
    then have "min best k = k" by (simp add: min_absorb2)
    with True show ?thesis
      unfolding eq by (auto simp: Cons min simp del: Min_insert)
  next
    case False
    show ?thesis
    proof (cases "start < k")
      case True
      with False have "min best k = best" "\<not> k < best" by (auto simp: min_def)
      with True show ?thesis
        unfolding eq by (auto simp: Cons min simp del: Min_insert)
    next
      case nk: False
      then show ?thesis unfolding eq by (auto simp: Cons)
    qed
  qed
qed simp

text \<open>The position after \<open>k\<close> ticks, and what the scan by ticks has looked at when it stops.\<close>

definition ticks_away :: "bool \<Rightarrow> uint64 \<Rightarrow> uint64 \<Rightarrow> nat \<Rightarrow> uint64" where
  "ticks_away isBuy start t k = (if isBuy then start - of_nat k * t else start + of_nat k * t)"

lemma ticks_away_Suc:
  "ticks_away isBuy (if isBuy then start - t else start + t) t k = ticks_away isBuy start t (Suc k)"
  by (simp add: ticks_away_def algebra_simps)

lemma uint64_of_int: "0 \<le> x \<Longrightarrow> x < 2 ^ 64 \<Longrightarrow> uint (word_of_int x :: uint64) = x"
  by (simp add: uint_word_of_int_eq take_bit_int_eq_self_iff)

lemma uint64_less: "uint (w :: uint64) < 2 ^ 64"
  using uint_lt2p[of w] by simp

lemma uint_ticks_away:
  "isBuy \<Longrightarrow> int k * uint t \<le> uint start \<Longrightarrow> uint (ticks_away isBuy start t k) = uint start - int k * uint t"
  "\<not> isBuy \<Longrightarrow> uint start + int k * uint t < 2 ^ 64 \<Longrightarrow>
     uint (ticks_away isBuy start t k) = uint start + int k * uint t"
proof -
  have pos: "0 \<le> int k * uint t" by simp
  assume a: "isBuy" "int k * uint t \<le> uint start"
  have eq: "ticks_away isBuy start t k = word_of_int (uint start - int k * uint t)"
    using a(1) by (simp add: ticks_away_def)
  show "uint (ticks_away isBuy start t k) = uint start - int k * uint t"
    unfolding eq by (rule uint64_of_int) (use a(2) pos uint64_less[of start] in linarith)+
next
  have pos: "0 \<le> int k * uint t" by simp
  assume a: "\<not> isBuy" "uint start + int k * uint t < 2 ^ 64"
  have eq: "ticks_away isBuy start t k = word_of_int (uint start + int k * uint t)"
    using a(1) by (simp add: ticks_away_def)
  show "uint (ticks_away isBuy start t k) = uint start + int k * uint t"
    unfolding eq by (rule uint64_of_int) (use a(2) pos uint_ge_0[of start] in linarith)+
qed

text \<open>A bid scan that passes below zero continues at the top of the price range.\<close>

lemma uint_ticks_away_wrap:
  assumes "isBuy" "uint start < int k * uint t" "int k * uint t \<le> 2 ^ 64"
  shows "uint (ticks_away isBuy start t k) = 2 ^ 64 + uint start - int k * uint t"
proof -
  have "(2 ^ 64 :: uint64) = 0" by simp
  then have eq: "ticks_away isBuy start t k = word_of_int (2 ^ 64 + uint start - int k * uint t)"
    using assms(1) by (simp add: ticks_away_def)
  show ?thesis
    unfolding eq by (rule uint64_of_int) (use assms(2,3) uint_ge_0[of start] in linarith)+
qed

lemma scan_ticks_Some:
  assumes "scan_ticks levels t isBuy n start = Some s"
  shows "\<exists>k. 1 \<le> k \<and> k \<le> n \<and> s = ticks_away isBuy start t k \<and> gm_get levels s \<noteq> None \<and>
    (\<forall>j. 1 \<le> j \<and> j < k \<longrightarrow> gm_get levels (ticks_away isBuy start t j) = None)"
  using assms
proof (induction n arbitrary: start)
  case (Suc n)
  let ?next = "if isBuy then start - t else start + t"
  have one: "ticks_away isBuy start t 1 = ?next" by (simp add: ticks_away_def)
  show ?case
  proof (cases "gm_get levels ?next = None")
    case False
    with Suc.prems one show ?thesis
      by (intro exI[of _ 1]) (auto simp: Let_def split: if_splits)
  next
    case True
    with Suc.prems have "scan_ticks levels t isBuy n ?next = Some s" by (simp add: Let_def split: if_splits)
    from Suc.IH[OF this] obtain k where k: "1 \<le> k" "k \<le> n" "s = ticks_away isBuy start t (Suc k)"
      "gm_get levels s \<noteq> None" "\<forall>j. 1 \<le> j \<and> j < k \<longrightarrow> gm_get levels (ticks_away isBuy start t (Suc j)) = None"
      unfolding ticks_away_Suc by blast
    have "gm_get levels (ticks_away isBuy start t j) = None" if "1 \<le> j" "j < Suc k" for j
      using that k(5) True one by (cases "j = 1") (auto dest: spec[of _ "j - 1"])
    with k show ?thesis by (intro exI[of _ "Suc k"]) auto
  qed
qed simp

lemma scan_ticks_None:
  assumes "scan_ticks levels t isBuy n start = None" "1 \<le> k" "k \<le> n"
  shows "gm_get levels (ticks_away isBuy start t k) = None"
  using assms
proof (induction n arbitrary: start k)
  case (Suc n)
  let ?next = "if isBuy then start - t else start + t"
  have one: "ticks_away isBuy start t 1 = ?next" by (simp add: ticks_away_def)
  have none: "gm_get levels ?next = None" and rest: "scan_ticks levels t isBuy n ?next = None"
    using Suc.prems(1) by (simp_all add: Let_def split: if_splits)
  show ?case
  proof (cases "k = 1")
    case True
    then show ?thesis using none one by simp
  next
    case False
    then show ?thesis
      using Suc.IH[OF rest, of "k - 1"] Suc.prems(2,3) ticks_away_Suc[of isBuy start t "k - 1"] by simp
  qed
qed simp

text \<open>On a book whose prices are multiples of the tick size the distance to a worse price is whole ticks.\<close>

definition on_ticks :: "uint64 \<Rightarrow> uint64 \<Rightarrow> (uint64, Level) gomap \<Rightarrow> bool" where
  "on_ticks t start levels \<longleftrightarrow> t \<noteq> 0 \<and> uint t dvd uint start \<and> (\<forall>s \<in> set (gm_keys levels). uint t dvd uint s)"

lemma next_level_mem:
  assumes "next_level isBuy start levels = Some m"
  shows "m \<in> worse_levels isBuy start levels"
proof -
  let ?w = "worse_levels isBuy start levels"
  have "?w \<noteq> {}" "m = (if isBuy then Max ?w else Min ?w)"
    using assms by (auto simp: next_level_def split: if_splits)
  then show ?thesis
    using Max_in[OF finite_worse, of isBuy start levels] Min_in[OF finite_worse, of isBuy start levels]
    by (cases isBuy) simp_all
qed

lemma worse_is_ticks_away:
  assumes "on_ticks t start levels" "s \<in> worse_levels isBuy start levels"
  shows "\<exists>d \<ge> 1. s = ticks_away isBuy start t d \<and> \<bar>uint start - uint s\<bar> = int d * uint t"
proof -
  have t: "0 < uint t" using assms(1) by (simp add: on_ticks_def uint_pos_iff)
  have "uint t dvd uint start - uint s"
    using assms by (auto simp: on_ticks_def worse_levels_def)
  then have "uint t dvd \<bar>uint start - uint s\<bar>" by simp
  then obtain z where z: "\<bar>uint start - uint s\<bar> = z * uint t" by (metis dvd_def mult.commute)
  have ne: "uint start \<noteq> uint s" using assms(2) by (auto simp: worse_levels_def word_less_def split: if_splits)
  have "0 < z" using z ne t by (smt (verit, best) mult_nonneg_nonpos mult_nonpos_nonneg)
  then have d: "int (nat z) = z" "1 \<le> nat z" by auto
  have "uint s = uint (ticks_away isBuy start t (nat z))"
  proof (cases isBuy)
    case True
    with assms(2) have "uint s < uint start" by (auto simp: worse_levels_def word_less_def)
    moreover have "int (nat z) * uint t \<le> uint start"
      using z d(1) calculation uint_ge_0[of s] by (simp only:)
    ultimately show ?thesis using z d True by (simp add: uint_ticks_away(1))
  next
    case False
    with assms(2) have "uint start < uint s" by (auto simp: worse_levels_def word_less_def)
    moreover have "uint s < 2 ^ 64" using uint_lt2p[of s] by simp
    moreover have "uint start + int (nat z) * uint t < 2 ^ 64"
      using z d(1) calculation by (simp only:)
    ultimately show ?thesis using z d False by (simp add: uint_ticks_away(2))
  qed
  then show ?thesis using z d by (intro exI[of _ "nat z"]) (auto simp: word_uint_eq_iff)
qed

text \<open>Between the start and the next level the scan moves towards it and sees nothing.\<close>

lemma ticks_before_next:
  assumes "on_ticks t start levels" "next_level isBuy start levels = Some m"
    "m = ticks_away isBuy start t d" "\<bar>uint start - uint m\<bar> = int d * uint t" "1 \<le> j" "j < d"
  shows "gm_get levels (ticks_away isBuy start t j) = None"
proof (rule ccontr)
  let ?s = "ticks_away isBuy start t j"
  assume "gm_get levels ?s \<noteq> None"
  then have key: "?s \<in> set (gm_keys levels)" by (simp add: gm_keys_mem)
  have t: "0 < uint t" using assms(1) by (simp add: on_ticks_def uint_pos_iff)
  have jd: "0 < int j * uint t" "int j * uint t < int d * uint t" using assms(5,6) t by simp_all
  have ne: "worse_levels isBuy start levels \<noteq> {}"
    and m: "m = (if isBuy then Max (worse_levels isBuy start levels) else Min (worse_levels isBuy start levels))"
    using assms(2) by (auto simp: next_level_def split: if_splits)
  note mem = next_level_mem[OF assms(2)]
  show False
  proof (cases isBuy)
    case True
    have u: "uint m < uint start" using mem True by (auto simp: worse_levels_def word_less_def)
    then have "uint ?s = uint start - int j * uint t"
      using assms(4) jd True uint_ge_0[of m] by (intro uint_ticks_away(1)) linarith+
    with u jd assms(4) have "?s < start" "m < ?s" by (auto simp: word_less_def)
    with key True have "?s \<le> m" unfolding m by (auto intro!: Max_ge simp: worse_levels_def)
    with \<open>m < ?s\<close> show False by simp
  next
    case False
    have u: "uint start < uint m" using mem False by (auto simp: worse_levels_def word_less_def)
    have "uint m < 2 ^ 64" using uint_lt2p[of m] by simp
    with u have "uint ?s = uint start + int j * uint t"
      using assms(4) jd False by (intro uint_ticks_away(2)) linarith+
    with u jd assms(4) have "start < ?s" "?s < m" by (auto simp: word_less_def)
    with key False have "m \<le> ?s" unfolding m by (auto intro!: Min_le simp: worse_levels_def)
    with \<open>?s < m\<close> show False by simp
  qed
qed

lemma scan_ticks_next:
  assumes "on_ticks t start levels" "next_level isBuy start levels = Some m"
    "scan_ticks levels t isBuy n start = Some s"
  shows "s = m"
proof -
  note mem = next_level_mem[OF assms(2)]
  then obtain d where d: "1 \<le> d" "m = ticks_away isBuy start t d" "\<bar>uint start - uint m\<bar> = int d * uint t"
    using worse_is_ticks_away[OF assms(1)] by blast
  obtain k where k: "1 \<le> k" "s = ticks_away isBuy start t k" "gm_get levels s \<noteq> None"
    "\<forall>j. 1 \<le> j \<and> j < k \<longrightarrow> gm_get levels (ticks_away isBuy start t j) = None"
    using scan_ticks_Some[OF assms(3)] by blast
  have "\<not> k < d" using ticks_before_next[OF assms(1,2) d(2,3) k(1)] k by auto
  moreover have "\<not> d < k" using k(4) d(1,2) mem by (auto simp: worse_levels_def gm_keys_mem)
  ultimately show ?thesis using k d by simp
qed

text \<open>The iteration over all levels, in terms of the reference.\<close>

lemma scan_all_levels:
  "fold (scan_level isBuy start) (gm_keys levels) (worst_price isBuy, False) =
     (case next_level isBuy start levels of
        None \<Rightarrow> (worst_price isBuy, False)
      | Some m \<Rightarrow> (m, m \<noteq> worst_price isBuy))"
proof (cases isBuy)
  case True
  have w: "worse_levels True start levels = {k \<in> set (gm_keys levels). k < start}" by (auto simp: worse_levels_def)
  have "Max (insert 0 {k \<in> set (gm_keys levels). k < start}) = 0" if "worse_levels True start levels = {}"
    using that w by (metis Max_singleton)
  moreover have "Max (insert 0 A) = Max A" if "finite A" "A \<noteq> {}" for A :: "uint64 set" using that by simp
  moreover have "Max A \<noteq> 0 \<longleftrightarrow> (\<exists>k \<in> A. 0 < k)" if "finite A" "A \<noteq> {}" for A :: "uint64 set"
    using that by (metis Max_ge Max_in word_le_0_iff word_neq_0_conv)
  ultimately show ?thesis
    using True w by (cases "worse_levels True start levels = {}")
      (auto simp: fold_scan_level_buy worst_price_def next_level_def simp del: Max_insert)
next
  case False
  have w: "worse_levels False start levels = {k \<in> set (gm_keys levels). start < k}" by (auto simp: worse_levels_def)
  have "Min (insert MaxUint64 {k \<in> set (gm_keys levels). start < k}) = MaxUint64" if "worse_levels False start levels = {}"
    using that w by (metis Min_singleton)
  moreover have "Min (insert MaxUint64 A) = Min A" if "finite A" "A \<noteq> {}" for A :: "uint64 set"
    using that by (simp add: min_absorb2)
  moreover have "Min A \<noteq> MaxUint64 \<longleftrightarrow> (\<exists>k \<in> A. k < MaxUint64)" if "finite A" "A \<noteq> {}" for A :: "uint64 set"
    using that Min_less_iff[of A MaxUint64] by (simp add: order_less_le)
  ultimately show ?thesis
    using False w by (cases "worse_levels False start levels = {}")
      (auto simp: fold_scan_level_sell worst_price_def next_level_def simp del: Min_insert)
qed

definition next_price :: "bool \<Rightarrow> uint64 \<Rightarrow> (uint64, Level) gomap \<Rightarrow> uint64 \<times> bool" where
  "next_price isBuy start levels =
     (case next_level isBuy start levels of None \<Rightarrow> (worst_price isBuy, False) | Some m \<Rightarrow> (m, True))"

abbreviation tick :: "Orderbook \<Rightarrow> uint64" where
  "tick b \<equiv> ucast (book_SubticksPerTick b)"

lemma findNextBestSubticks_unfold:
  "findNextBestSubticks b start isBuy =
     (case scan_ticks (GetSide b isBuy) (tick b) isBuy (length (GetSide b isBuy)) start of
        Some s \<Rightarrow> (s, True)
      | None \<Rightarrow> (case next_level isBuy start (GetSide b isBuy) of
                  None \<Rightarrow> (worst_price isBuy, False)
                | Some m \<Rightarrow> (m, m \<noteq> worst_price isBuy)))"
  using scan_all_levels[of isBuy start "GetSide b isBuy"]
  by (simp add: findNextBestSubticks_def worst_price_def Let_def split: option.splits if_splits)

text \<open>
  Whenever there is a worse level, or no level at all, the two scans return the price the reference
  gives, whatever the prices are: this is the case when the best level has just been removed.
\<close>

lemma findNextBestSubticks_fst:
  assumes "on_ticks (tick b) start (GetSide b isBuy)"
    and "worse_levels isBuy start (GetSide b isBuy) = {} \<longrightarrow> GetSide b isBuy = []"
  shows "fst (findNextBestSubticks b start isBuy) = fst (next_price isBuy start (GetSide b isBuy))"
proof (cases "next_level isBuy start (GetSide b isBuy)")
  case None
  then have "GetSide b isBuy = []" using assms(2) by (auto simp: next_level_def split: if_splits)
  with None show ?thesis by (simp add: findNextBestSubticks_unfold next_price_def)
next
  case (Some m)
  then show ?thesis
    using scan_ticks_next[OF assms(1) Some, of "length (GetSide b isBuy)"]
    by (auto simp: findNextBestSubticks_unfold next_price_def split: option.split)
qed

text \<open>Prices far enough from the top of the range: the scan of a side cannot run into them by wrapping.\<close>

definition prices_bounded :: "Orderbook \<Rightarrow> bool \<Rightarrow> bool" where
  "prices_bounded b isBuy \<longleftrightarrow>
     (\<forall>s \<in> set (gm_keys (GetSide b isBuy)).
        s \<noteq> worst_price isBuy \<and> uint s + int (length (GetSide b isBuy)) * uint (tick b) < 2 ^ 64)"

lemma scan_ticks_beyond_last:
  assumes "prices_bounded b isBuy" "start \<in> set (gm_keys (GetSide b isBuy))"
    "worse_levels isBuy start (GetSide b isBuy) = {}" "tick b \<noteq> 0"
  shows "scan_ticks (GetSide b isBuy) (tick b) isBuy (length (GetSide b isBuy)) start = None"
proof (rule ccontr)
  let ?levels = "GetSide b isBuy" and ?t = "tick b"
  let ?n = "length ?levels"
  assume "scan_ticks ?levels ?t isBuy ?n start \<noteq> None"
  then obtain k s where k: "1 \<le> k" "k \<le> ?n" "s = ticks_away isBuy start ?t k" "s \<in> set (gm_keys ?levels)"
    using scan_ticks_Some by (fastforce simp: gm_keys_mem)
  have t: "0 < uint ?t" using assms(4) by (simp add: uint_pos_iff)
  have kn: "0 < int k * uint ?t" "int k * uint ?t \<le> int ?n * uint ?t" using k(1,2) t by simp_all
  have b: "uint x + int ?n * uint ?t < 2 ^ 64" if "x \<in> set (gm_keys ?levels)" for x
    using assms(1) that by (simp add: prices_bounded_def)
  have nw: "\<not> (if isBuy then s < start else start < s)"
    using assms(3) k(4) by (auto simp: worse_levels_def)
  show False
  proof (cases isBuy)
    case True
    show False
    proof (cases "int k * uint ?t \<le> uint start")
      case le: True
      then have "uint s < uint start" using kn k(3) True by (simp add: uint_ticks_away(1))
      with nw True show False by (simp add: word_less_def)
    next
      case False
      have "int k * uint ?t \<le> 2 ^ 64" using b[OF k(4)] kn uint_ge_0[of s] by linarith
      then have "uint s = 2 ^ 64 + uint start - int k * uint ?t"
        using uint_ticks_away_wrap[OF True, of start k ?t] False k(3) by simp
      then show False using b[OF k(4)] kn uint_ge_0[of start] by linarith
    qed
  next
    case False
    have "uint start + int k * uint ?t < 2 ^ 64" using b[OF assms(2)] kn by linarith
    then have "uint start < uint s" using kn k(3) False by (simp add: uint_ticks_away(2))
    with nw False show False by (simp add: word_less_def)
  qed
qed

lemma findNextBestSubticks_eq:
  assumes "on_ticks (tick b) start (GetSide b isBuy)" "prices_bounded b isBuy" "start \<in> set (gm_keys (GetSide b isBuy))"
  shows "findNextBestSubticks b start isBuy = next_price isBuy start (GetSide b isBuy)"
proof (cases "next_level isBuy start (GetSide b isBuy)")
  case None
  then have "worse_levels isBuy start (GetSide b isBuy) = {}" by (auto simp: next_level_def split: if_splits)
  moreover have "tick b \<noteq> 0" using assms(1) by (simp add: on_ticks_def)
  ultimately have "scan_ticks (GetSide b isBuy) (tick b) isBuy (length (GetSide b isBuy)) start = None"
    using scan_ticks_beyond_last[OF assms(2,3)] by simp
  with None show ?thesis by (simp add: findNextBestSubticks_unfold next_price_def)
next
  case (Some m)
  have "m \<in> set (gm_keys (GetSide b isBuy))" using next_level_mem[OF Some] by (simp add: worse_levels_def)
  then have "m \<noteq> worst_price isBuy" using assms(2) by (simp add: prices_bounded_def)
  then show ?thesis
    using Some scan_ticks_next[OF assms(1) Some, of "length (GetSide b isBuy)"]
    by (auto simp: findNextBestSubticks_unfold next_price_def split: option.split)
qed

section \<open>The order book invariant\<close>

abbreviation node_id :: "ClobOrder \<Rightarrow> OrderId" where
  "node_id n \<equiv> o_OrderId (co_Order n)"

abbreviation node_price :: "ClobOrder \<Rightarrow> uint64" where
  "node_price n \<equiv> o_Subticks (co_Order n)"

text \<open>
  The map from order ids to nodes (\<open>L\<close>) holds every resting order under its own id. A side holds
  exactly the resting orders of that side, each at the level of its price, no level empty.
\<close>

definition nodes_ok :: "(OrderId, LevelOrder) gomap \<Rightarrow> bool" where
  "nodes_ok L \<longleftrightarrow> gm_inv L \<and>
     (\<forall>i n. gm_get L i = Some n \<longrightarrow> node_id n = i \<and> o_Side (co_Order n) \<in> {SIDE_BUY, SIDE_SELL})"

definition side_ok :: "uint64 \<Rightarrow> (OrderId, LevelOrder) gomap \<Rightarrow> bool \<Rightarrow> (uint64, Level) gomap \<Rightarrow> bool" where
  "side_ok t L isBuy levels \<longleftrightarrow> gm_inv levels \<and>
     (\<forall>s lv. gm_get levels s = Some lv \<longrightarrow> lv \<noteq> [] \<and> distinct (map node_id lv) \<and> uint t dvd uint s) \<and>
     (\<forall>s n. n \<in> set (gm_at levels s) \<longleftrightarrow>
        gm_get L (node_id n) = Some n \<and> Order_IsBuy (co_Order n) = isBuy \<and> node_price n = s)"

definition best_price :: "bool \<Rightarrow> (uint64, Level) gomap \<Rightarrow> uint64" where
  "best_price isBuy levels =
     (if isBuy then Max (insert 0 (set (gm_keys levels))) else Min (insert MaxUint64 (set (gm_keys levels))))"

definition opens_ok ::
  "(OrderId, LevelOrder) gomap \<Rightarrow> (SubaccountId, (Order_Side, OrderIdSet) gomap) gomap \<Rightarrow> bool" where
  "opens_ok L m \<longleftrightarrow> gm_inv m \<and> (\<forall>k inner. gm_get m k = Some inner \<longrightarrow> inner \<noteq> [] \<and> nested_ok inner) \<and>
     (\<forall>k side i. holds_at (gm_at m k) side i \<longleftrightarrow>
        (\<exists>n. gm_get L i = Some n \<and> oid_SubaccountId i = k \<and> o_Side (co_Order n) = side))"

definition reduce_ok :: "(OrderId, LevelOrder) gomap \<Rightarrow> (SubaccountId, OrderIdSet) gomap \<Rightarrow> bool" where
  "reduce_ok L m \<longleftrightarrow> nested_ok m \<and>
     (\<forall>k i. holds_at m k i \<longleftrightarrow> (\<exists>n. gm_get L i = Some n \<and> oid_SubaccountId i = k \<and> o_ReduceOnly (co_Order n)))"

definition expiry_ok :: "(OrderId, LevelOrder) gomap \<Rightarrow> (uint32, OrderIdSet) gomap \<Rightarrow> bool" where
  "expiry_ok L m \<longleftrightarrow> nested_ok m \<and>
     (\<forall>k i. holds_at m k i \<longleftrightarrow>
        (\<exists>n. gm_get L i = Some n \<and> OrderId_IsShortTermOrder i \<and> GetGoodTilBlock (o_GoodTilOneof (co_Order n)) = k))"

definition book_inv :: "Orderbook \<Rightarrow> bool" where
  "book_inv b \<longleftrightarrow>
     (let L = book_orderIdToLevelOrder b in
      book_SubticksPerTick b \<noteq> 0 \<and> nodes_ok L \<and>
      side_ok (tick b) L True (book_Bids b) \<and> side_ok (tick b) L False (book_Asks b) \<and>
      book_BestBid b = best_price True (book_Bids b) \<and> book_BestAsk b = best_price False (book_Asks b) \<and>
      book_TotalOpenOrders b = of_nat (length L) \<and>
      opens_ok L (book_SubaccountOpenClobOrders b) \<and>
      reduce_ok L (book_SubaccountOpenReduceOnlyOrders b) \<and>
      expiry_ok L (book_blockExpirationsForOrders b))"

text \<open>Adding a node to the indices.\<close>

lemma nodes_ok_add:
  "nodes_ok L \<Longrightarrow> o_Side (co_Order n) \<in> {SIDE_BUY, SIDE_SELL} \<Longrightarrow> nodes_ok (gm_set (node_id n) n L)"
  by (auto simp: nodes_ok_def)

lemma side_ok_other:
  assumes "side_ok t L isBuy levels" "gm_get L (node_id n) = None" "Order_IsBuy (co_Order n) \<noteq> isBuy"
  shows "side_ok t (gm_set (node_id n) n L) isBuy levels"
proof -
  have "gm_get (gm_set (node_id n) n L) (node_id m) = Some m \<and> Order_IsBuy (co_Order m) = isBuy \<longleftrightarrow>
      gm_get L (node_id m) = Some m \<and> Order_IsBuy (co_Order m) = isBuy" for m
    using assms(2,3) by (cases "node_id m = node_id n") auto
  then show ?thesis using assms(1) unfolding side_ok_def by metis
qed

lemma side_ok_add:
  assumes "side_ok t L isBuy levels" "gm_get L (node_id n) = None" "Order_IsBuy (co_Order n) = isBuy"
    "uint t dvd uint (node_price n)" "set lv = insert n (set (gm_at levels (node_price n)))"
    "distinct (map node_id lv)"
  shows "side_ok t (gm_set (node_id n) n L) isBuy (gm_set (node_price n) lv levels)"
proof -
  have "m \<in> set (gm_at (gm_set (node_price n) lv levels) s) \<longleftrightarrow>
      gm_get (gm_set (node_id n) n L) (node_id m) = Some m \<and> Order_IsBuy (co_Order m) = isBuy \<and> node_price m = s" for m s
  proof (cases "node_id m = node_id n")
    case True
    then have "m \<notin> set (gm_at levels s')" for s' using assms(1,2) by (auto simp: side_ok_def)
    then show ?thesis using True assms(3,5) by auto
  next
    case False
    then show ?thesis using assms(1,5) by (auto simp: side_ok_def)
  qed
  moreover have "lv \<noteq> []" using assms(5) by auto
  ultimately show ?thesis using assms(1,4,6) by (auto simp: side_ok_def)
qed

lemma opens_ok_add:
  assumes "opens_ok L m" "gm_get L (node_id n) = None"
  shows "opens_ok (gm_set (node_id n) n L)
    (gm_set (oid_SubaccountId (node_id n))
       (gm_set (o_Side (co_Order n))
          (gm_set (node_id n) True (gm_at (gm_at m (oid_SubaccountId (node_id n))) (o_Side (co_Order n))))
          (gm_at m (oid_SubaccountId (node_id n)))) m)"
proof -
  have "nested_ok (gm_at m k)" for k using assms(1) by (auto simp: opens_ok_def gm_at_def split: option.splits)
  then show ?thesis using assms by (auto simp: opens_ok_def nested_ok_add)
qed

lemma reduce_ok_add:
  assumes "reduce_ok L m" "gm_get L (node_id n) = None"
  shows "reduce_ok (gm_set (node_id n) n L)
    (if o_ReduceOnly (co_Order n)
     then gm_set (oid_SubaccountId (node_id n)) (gm_set (node_id n) True (gm_at m (oid_SubaccountId (node_id n)))) m else m)"
  using assms by (auto simp: reduce_ok_def nested_ok_add)

lemma expiry_ok_add:
  assumes "expiry_ok L m" "gm_get L (node_id n) = None"
  shows "expiry_ok (gm_set (node_id n) n L)
    (if OrderId_IsShortTermOrder (node_id n)
     then gm_set (GetGoodTilBlock (o_GoodTilOneof (co_Order n)))
            (gm_set (node_id n) True (gm_at m (GetGoodTilBlock (o_GoodTilOneof (co_Order n))))) m else m)"
  using assms by (auto simp: expiry_ok_def nested_ok_add)

text \<open>Removing a node from the indices.\<close>

lemma nodes_ok_del: "nodes_ok L \<Longrightarrow> nodes_ok (gm_del i L)"
  by (auto simp: nodes_ok_def)

lemma side_ok_del_other:
  assumes "nodes_ok L" "side_ok t L isBuy levels" "gm_get L i = Some n" "Order_IsBuy (co_Order n) \<noteq> isBuy"
  shows "side_ok t (gm_del i L) isBuy levels"
  using assms by (auto simp: side_ok_def nodes_ok_def)

lemma gm_inv_gm_del_id: "gm_get m k = None \<Longrightarrow> gm_del k m = m"
  unfolding gm_del_def gm_get_None_iff by (metis (mono_tags, lifting) filter_True image_eqI)

lemma side_ok_del:
  assumes "nodes_ok L" "side_ok t L isBuy levels" "gm_get L i = Some n" "Order_IsBuy (co_Order n) = isBuy"
    "lv = removeNode i (gm_at levels (node_price n))"
  shows "side_ok t (gm_del i L) isBuy
    (if lv = [] then gm_del (node_price n) levels else gm_set (node_price n) lv levels)" (is "side_ok t _ _ ?levels")
proof -
  have id: "node_id n = i" using assms(1,3) by (auto simp: nodes_ok_def)
  have at: "gm_at ?levels s = (if s = node_price n then lv else gm_at levels s)" for s by simp
  have "m \<in> set (gm_at ?levels s) \<longleftrightarrow>
      gm_get (gm_del i L) (node_id m) = Some m \<and> Order_IsBuy (co_Order m) = isBuy \<and> node_price m = s" for m s
    unfolding at using assms id by (auto simp: side_ok_def removeNode_def)
  moreover have "uint t dvd uint (node_price n)" "distinct (map node_id (gm_at levels (node_price n)))" if "lv \<noteq> []"
    using that assms(2,5) by (auto simp: side_ok_def gm_at_def removeNode_def split: option.splits)
  ultimately show ?thesis
    using assms(2,5) by (auto simp: side_ok_def removeNode_def distinct_map_filter)
qed

lemma opens_ok_del:
  assumes "opens_ok L m" "nodes_ok L" "gm_get L i = Some n" "k = oid_SubaccountId i"
    "sides = gm_del_in (o_Side (co_Order n)) i (gm_at m k)"
  shows "opens_ok (gm_del i L) (if sides = [] then gm_del k m else gm_set k sides m)"
proof -
  have n: "nested_ok (gm_at m k)" for k using assms(1) by (auto simp: opens_ok_def gm_at_def split: option.splits)
  have "gm_at (if sides = [] then gm_del k m else gm_set k sides m) k' = (if k' = k then sides else gm_at m k')" for k'
    by simp
  then show ?thesis
    using assms n[of k] by (auto simp: opens_ok_def)
qed

lemma reduce_ok_del:
  assumes "reduce_ok L m" "gm_get L i = Some n"
  shows "reduce_ok (gm_del i L) (if o_ReduceOnly (co_Order n) then gm_del_in (oid_SubaccountId i) i m else m)"
  using assms by (auto simp: reduce_ok_def)

lemma expiry_ok_del:
  assumes "expiry_ok L m" "gm_get L i = Some n"
  shows "expiry_ok (gm_del i L)
    (if OrderId_IsShortTermOrder i then gm_del_in (GetGoodTilBlock (o_GoodTilOneof (co_Order n))) i m else m)"
  using assms by (auto simp: expiry_ok_def)

text \<open>The best price when a level appears or disappears.\<close>

lemma best_price_add:
  "best_price isBuy (gm_set s lv levels) =
     (if isBuy then max s (best_price isBuy levels) else min s (best_price isBuy levels))"
proof -
  have "insert x (insert s (set (gm_keys levels))) = insert s (insert x (set (gm_keys levels)))" for x by auto
  then show ?thesis by (simp add: best_price_def del: Max_insert Min_insert) (simp add: Max_insert Min_insert)
qed

lemma best_price_bound:
  assumes "s \<in> set (gm_keys levels)"
  shows "if isBuy then s \<le> best_price isBuy levels else best_price isBuy levels \<le> s"
  using assms by (auto simp: best_price_def simp del: Max_insert Min_insert intro!: Max_ge Min_le)

lemma best_price_del_other:
  assumes "s \<noteq> best_price isBuy levels" "s \<in> set (gm_keys levels)"
  shows "best_price isBuy (gm_del s levels) = best_price isBuy levels"
proof (cases isBuy)
  case True
  let ?K = "insert 0 (set (gm_keys levels))"
  have ne: "Max ?K \<noteq> s" using assms(1) True by (simp add: best_price_def)
  have "Max ?K \<in> ?K" by (rule Max_in) auto
  then have mem: "Max ?K \<in> insert 0 (set (gm_keys levels) - {s})" using ne by (metis Diff_iff insert_iff singletonD)
  have "Max (insert 0 (set (gm_keys levels) - {s})) = Max ?K"
  proof (rule Max_eqI)
    show "y \<le> Max ?K" if "y \<in> insert 0 (set (gm_keys levels) - {s})" for y
      using that by (intro Max_ge) auto
  qed (use mem in simp_all)
  with True show ?thesis by (simp add: best_price_def del: Max_insert)
next
  case False
  let ?K = "insert MaxUint64 (set (gm_keys levels))"
  have ne: "Min ?K \<noteq> s" using assms(1) False by (simp add: best_price_def)
  have "Min ?K \<in> ?K" by (rule Min_in) auto
  then have mem: "Min ?K \<in> insert MaxUint64 (set (gm_keys levels) - {s})" using ne by (metis Diff_iff insert_iff singletonD)
  have "Min (insert MaxUint64 (set (gm_keys levels) - {s})) = Min ?K"
  proof (rule Min_eqI)
    show "Min ?K \<le> y" if "y \<in> insert MaxUint64 (set (gm_keys levels) - {s})" for y
      using that by (intro Min_le) auto
  qed (use mem in simp_all)
  with False show ?thesis by (simp add: best_price_def del: Min_insert)
qed

lemma next_price_after_best:
  assumes "s = best_price isBuy levels" "s \<in> set (gm_keys levels)"
  shows "fst (next_price isBuy s (gm_del s levels)) = best_price isBuy (gm_del s levels)"
    and "worse_levels isBuy s (gm_del s levels) = set (gm_keys (gm_del s levels))"
proof -
  have "if isBuy then k \<le> s else s \<le> k" if "k \<in> set (gm_keys levels)" for k
    using best_price_bound[OF that, of isBuy] assms(1) by (cases isBuy) simp_all
  then show w: "worse_levels isBuy s (gm_del s levels) = set (gm_keys (gm_del s levels))"
    by (auto simp: worse_levels_def order_less_le)
  show "fst (next_price isBuy s (gm_del s levels)) = best_price isBuy (gm_del s levels)"
    unfolding next_price_def next_level_def w
    by (cases "set (gm_keys (gm_del s levels)) = {}")
      (simp_all add: best_price_def worst_price_def min_absorb2 del: set_gm_keys_del)
qed

lemma gm_set_set: "gm_set k v (gm_set k v' m) = gm_set k v m"
  by (induction k v m rule: gm_set.induct) auto

lemma length_keys_Nil: "set (gm_keys m) = {} \<longleftrightarrow> m = []"
  by (simp add: gm_keys_def)

lemma GetSide_simps [simp]:
  "GetSide b True = book_Bids b" "GetSide b False = book_Asks b"
  by (simp_all add: GetSide_def)

lemma setSide_simps [simp]:
  "setSide True lv b = b\<lparr>book_Bids := lv\<rparr>" "setSide False lv b = b\<lparr>book_Asks := lv\<rparr>"
  by (simp_all add: setSide_def)

text \<open>The book after an order has been added, in one piece.\<close>

definition new_level :: "Order \<Rightarrow> bool \<Rightarrow> Orderbook \<Rightarrow> Level" where
  "new_level ord front b =
     (let lv = gm_at (GetSide b (Order_IsBuy ord)) (o_Subticks ord); n = \<lparr>co_Order = ord, co_Signature = []\<rparr>
      in if front then n # lv else lv @ [n])"

definition book_added :: "Order \<Rightarrow> bool \<Rightarrow> Orderbook \<Rightarrow> Orderbook" where
  "book_added ord front b =
     (let i = o_OrderId ord; a = oid_SubaccountId i; n = \<lparr>co_Order = ord, co_Signature = []\<rparr>;
          lv = new_level ord front b;
          opens = gm_at (book_SubaccountOpenClobOrders b) a; g = GetGoodTilBlock (o_GoodTilOneof ord);
          R = book_SubaccountOpenReduceOnlyOrders b; E = book_blockExpirationsForOrders b
      in b\<lparr>book_Bids := (if Order_IsBuy ord then gm_set (o_Subticks ord) lv (book_Bids b) else book_Bids b),
           book_Asks := (if Order_IsBuy ord then book_Asks b else gm_set (o_Subticks ord) lv (book_Asks b)),
           book_BestBid := (if Order_IsBuy ord then max (o_Subticks ord) (book_BestBid b) else book_BestBid b),
           book_BestAsk := (if Order_IsBuy ord then book_BestAsk b else min (o_Subticks ord) (book_BestAsk b)),
           book_orderIdToLevelOrder := gm_set i n (book_orderIdToLevelOrder b),
           book_SubaccountOpenClobOrders :=
             gm_set a (gm_set (o_Side ord) (gm_set i True (gm_at opens (o_Side ord))) opens)
               (book_SubaccountOpenClobOrders b),
           book_TotalOpenOrders := book_TotalOpenOrders b + 1,
           book_blockExpirationsForOrders :=
             (if OrderId_IsShortTermOrder i then gm_set g (gm_set i True (gm_at E g)) E else E),
           book_SubaccountOpenReduceOnlyOrders :=
             (if o_ReduceOnly ord then gm_set a (gm_set i True (gm_at R a)) R else R)\<rparr>)"

lemma updateBestOnAdd_eq:
  "updateBestOnAdd ord b =
     b\<lparr>book_BestBid := (if Order_IsBuy ord then max (o_Subticks ord) (book_BestBid b) else book_BestBid b),
       book_BestAsk := (if Order_IsBuy ord then book_BestAsk b else min (o_Subticks ord) (book_BestAsk b))\<rparr>"
  by (auto simp: updateBestOnAdd_def max_def min_def)

lemma mustAddOrderToOrderbook_eq:
  assumes "MustBeValidOrderSide ord = Inr ()" "\<not> hasOrder b (o_OrderId ord)"
  shows "mustAddOrderToOrderbook ord front b = (Inr (), book_added ord front b)"
proof -
  have "\<not> hasOrder (createLevel ord (updateBestOnAdd ord b)) (o_OrderId ord)"
    using assms(2) by (simp add: createLevel_def updateBestOnAdd_eq hasOrder_def setSide_def Let_def)
  moreover have "gm_at lvs s = []" "gm_set s lv (gm_set s [] lvs) = gm_set s lv lvs" if "gm_get lvs s = None"
    for s lv and lvs :: "(uint64, Level) gomap" using that by (simp_all add: gm_at_def gm_set_set)
  ultimately show ?thesis
    using assms(1)
    by (cases "Order_IsBuy ord"; cases "gm_get (GetSide b (Order_IsBuy ord)) (o_Subticks ord)";
        cases "OrderId_IsShortTermOrder (o_OrderId ord)"; cases "o_ReduceOnly ord")
      (simp_all add: mustAddOrderToOrderbook_def bindM_def liftM_def modifyM_def retM_def book_added_def
        pushOrder_def mustAddOrderToSubaccountOrders_def updateBestOnAdd_eq createLevel_def addReduceOnlyOrder_def
        mustAddShortTermOrderToBlockExpirationsForOrders_def Order_IsShortTermOrder_def new_level_def Let_def gm_set_set)
qed

lemma book_inv_added:
  assumes inv: "book_inv b" and side: "MustBeValidOrderSide ord = Inr ()" and new: "\<not> hasOrder b (o_OrderId ord)"
    and t: "uint (tick b) dvd uint (o_Subticks ord)"
  shows "book_inv (book_added ord front b)"
proof -
  let ?n = "\<lparr>co_Order = ord, co_Signature = []\<rparr>" and ?L = "book_orderIdToLevelOrder b"
  have none: "gm_get ?L (node_id ?n) = None" using new by (simp add: hasOrder_def)
  have sd: "o_Side (co_Order ?n) \<in> {SIDE_BUY, SIDE_SELL}"
    using side by (auto simp: MustBeValidOrderSide_def split: if_splits)
  define levels where "levels = GetSide b (Order_IsBuy ord)"
  have so: "side_ok (tick b) ?L (Order_IsBuy ord) levels"
    using inv by (cases "Order_IsBuy ord") (simp_all add: book_inv_def levels_def Let_def)
  have "distinct (map node_id (gm_at levels (o_Subticks ord)))" "\<forall>m \<in> set (gm_at levels (o_Subticks ord)). node_id m \<noteq> o_OrderId ord"
    using so none by (auto simp: side_ok_def gm_at_def split: option.splits)
  then have "distinct (map node_id (new_level ord front b))" "set (new_level ord front b) = insert ?n (set (gm_at levels (o_Subticks ord)))"
    by (auto simp: new_level_def levels_def Let_def)
  then have own: "side_ok (tick b) (gm_set (node_id ?n) ?n ?L) (Order_IsBuy ord)
      (gm_set (o_Subticks ord) (new_level ord front b) levels)"
    using side_ok_add[OF so none] t by simp
  have other: "side_ok (tick b) (gm_set (node_id ?n) ?n ?L) (\<not> Order_IsBuy ord) (GetSide b (\<not> Order_IsBuy ord))"
    using inv none by (intro side_ok_other) (cases "Order_IsBuy ord"; simp add: book_inv_def Let_def)+
  have idx: "opens_ok ?L (book_SubaccountOpenClobOrders b)" "reduce_ok ?L (book_SubaccountOpenReduceOnlyOrders b)"
    "expiry_ok ?L (book_blockExpirationsForOrders b)" "nodes_ok ?L"
    using inv by (simp_all add: book_inv_def Let_def)
  show ?thesis
    using inv own other nodes_ok_add[OF idx(4) sd] opens_ok_add[OF idx(1) none] reduce_ok_add[OF idx(2) none]
      expiry_ok_add[OF idx(3) none] length_gm_set[OF none]
    by (cases "Order_IsBuy ord"; cases "o_ReduceOnly ord"; cases "OrderId_IsShortTermOrder (o_OrderId ord)")
      (simp_all add: book_inv_def book_added_def levels_def best_price_add Let_def)
qed


text \<open>Removing an order.\<close>

definition maps_removed :: "LevelOrder \<Rightarrow> Orderbook \<Rightarrow> Orderbook" where
  "maps_removed n b =
     (let ord = co_Order n; i = o_OrderId ord; a = oid_SubaccountId i;
          S = book_SubaccountOpenClobOrders b; R = book_SubaccountOpenReduceOnlyOrders b;
          E = book_blockExpirationsForOrders b; sides = gm_del_in (o_Side ord) i (gm_at S a)
      in b\<lparr>book_orderIdToLevelOrder := gm_del i (book_orderIdToLevelOrder b),
           book_SubaccountOpenClobOrders := (if sides = [] then gm_del a S else gm_set a sides S),
           book_blockExpirationsForOrders :=
             (if OrderId_IsShortTermOrder i then gm_del_in (GetGoodTilBlock (o_GoodTilOneof ord)) i E else E),
           book_SubaccountOpenReduceOnlyOrders := (if o_ReduceOnly ord then gm_del_in a i R else R)\<rparr>)"

lemma removeFromMaps_eq: "removeFromMaps (co_Order n) b = maps_removed n b"
  by (cases "OrderId_IsShortTermOrder (node_id n)"; cases "o_ReduceOnly (co_Order n)")
    (simp_all add: removeFromMaps_def maps_removed_def Let_def)

definition levels_removed :: "LevelOrder \<Rightarrow> Orderbook \<Rightarrow> (uint64, Level) gomap" where
  "levels_removed n b =
     (let levels = GetSide b (Order_IsBuy (co_Order n)); lv = removeNode (node_id n) (gm_at levels (node_price n))
      in if lv = [] then gm_del (node_price n) levels else gm_set (node_price n) lv levels)"

definition book_removed :: "LevelOrder \<Rightarrow> Orderbook \<Rightarrow> Orderbook" where
  "book_removed n b =
     (let isBuy = Order_IsBuy (co_Order n); levels = levels_removed n b
      in (maps_removed n b)
           \<lparr>book_TotalOpenOrders := book_TotalOpenOrders b - 1,
            book_Bids := (if isBuy then levels else book_Bids b),
            book_Asks := (if isBuy then book_Asks b else levels),
            book_BestBid := (if isBuy then best_price True levels else book_BestBid b),
            book_BestAsk := (if isBuy then book_BestAsk b else best_price False levels)\<rparr>)"

lemma best_price_levels_removed:
  assumes "node_price n \<in> set (gm_keys (GetSide b (Order_IsBuy (co_Order n))))"
    "removeNode (node_id n) (gm_at (GetSide b (Order_IsBuy (co_Order n))) (node_price n)) \<noteq> []"
  shows "best_price isBuy (levels_removed n b) = best_price isBuy (GetSide b (Order_IsBuy (co_Order n)))"
  using assms by (simp add: levels_removed_def best_price_def insert_absorb Let_def del: Max_insert Min_insert)

lemma findNext_after_remove:
  assumes "on_ticks (tick b) s (gm_del s levels)" "s = best_price isBuy levels" "s \<in> set (gm_keys levels)"
    "GetSide b isBuy = gm_del s levels"
  shows "fst (findNextBestSubticks b s isBuy) = best_price isBuy (gm_del s levels)"
proof -
  have "worse_levels isBuy s (GetSide b isBuy) = {} \<longrightarrow> GetSide b isBuy = []"
    unfolding assms(4) next_price_after_best(2)[OF assms(2,3)] length_keys_Nil by simp
  then show ?thesis
    using findNextBestSubticks_fst[of b s isBuy] assms(1,4) next_price_after_best(1)[OF assms(2,3)] by simp
qed

lemma ucast_tick_nonzero: "(w :: uint32) \<noteq> 0 \<Longrightarrow> (ucast w :: uint64) \<noteq> 0"
  by (simp add: word_uint_eq_iff uint_up_ucast is_up)

lemma resting_at_level:
  assumes "book_inv b" "gm_get (book_orderIdToLevelOrder b) i = Some n"
  shows "node_id n = i" "n \<in> set (gm_at (GetSide b (Order_IsBuy (co_Order n))) (node_price n))"
    "node_price n \<in> set (gm_keys (GetSide b (Order_IsBuy (co_Order n))))"
proof -
  show i: "node_id n = i" using assms by (auto simp: book_inv_def nodes_ok_def Let_def)
  then show n: "n \<in> set (gm_at (GetSide b (Order_IsBuy (co_Order n))) (node_price n))"
    using assms by (cases "Order_IsBuy (co_Order n)") (auto simp: book_inv_def side_ok_def Let_def)
  then show "node_price n \<in> set (gm_keys (GetSide b (Order_IsBuy (co_Order n))))"
    by (cases "gm_get (GetSide b (Order_IsBuy (co_Order n))) (node_price n)") (auto simp: gm_keys_mem gm_at_def)
qed

lemma book_inv_on_ticks:
  assumes "book_inv b" "s \<in> set (gm_keys (GetSide b isBuy))"
  shows "on_ticks (tick b) s (GetSide b isBuy)"
proof -
  have "side_ok (tick b) (book_orderIdToLevelOrder b) isBuy (GetSide b isBuy)" "book_SubticksPerTick b \<noteq> 0"
    using assms(1) by (cases isBuy; simp add: book_inv_def Let_def)+
  then show ?thesis
    using assms(2) ucast_tick_nonzero by (auto simp: on_ticks_def gm_keys_mem side_ok_def)
qed

lemma book_inv_best:
  "book_inv b \<Longrightarrow> (if isBuy then book_BestBid b else book_BestAsk b) = best_price isBuy (GetSide b isBuy)"
  by (cases isBuy) (simp_all add: book_inv_def Let_def)

lemma mustRemoveOrder_eq:
  assumes inv: "book_inv b" and n: "gm_get (book_orderIdToLevelOrder b) i = Some n"
  shows "mustRemoveOrder n b = (Inr (), book_removed n b)"
proof -
  note at = resting_at_level[OF inv n]
  let ?levels = "GetSide b (Order_IsBuy (co_Order n))" and ?s = "node_price n"
  have side: "GetSide (maps_removed n b) isBuy = GetSide b isBuy" for isBuy
    by (simp add: maps_removed_def GetSide_def Let_def)
  obtain lv where lv: "gm_get ?levels ?s = Some lv" using at(3) by (auto simp: gm_keys_mem)
  then have lvat: "gm_at ?levels ?s = lv" by (simp add: gm_at_def)
  have run: "mustRemoveOrder n b = (Inr (), removeFromLevel (co_Order n) lv (maps_removed n b))"
    using lv by (simp add: mustRemoveOrder_def bindM_def modifyM_def liftM_def removeFromMaps_eq side Let_def)
  have ticks: "on_ticks (tick b) ?s (gm_del ?s ?levels)"
    using book_inv_on_ticks[OF inv at(3)] by (auto simp: on_ticks_def)
  have bb: "best_price True (book_Bids b) = book_BestBid b" and ba: "best_price False (book_Asks b) = book_BestAsk b"
    using inv by (simp_all add: book_inv_def Let_def)
  have "removeFromLevel (co_Order n) lv (maps_removed n b) = book_removed n b"
  proof (cases "removeNode (node_id n) lv = []")
    case False
    then have "best_price (Order_IsBuy (co_Order n)) (levels_removed n b) = best_price (Order_IsBuy (co_Order n)) ?levels"
      using best_price_levels_removed[OF at(3)] lvat by simp
    with False lvat bb ba show ?thesis
      by (cases "Order_IsBuy (co_Order n)")
        (simp_all add: removeFromLevel_def book_removed_def levels_removed_def maps_removed_def Let_def)
  next
    case True
    show ?thesis
    proof (cases "Order_IsBuy (co_Order n)")
      case buy: True
      let ?b = "(maps_removed n b)\<lparr>book_TotalOpenOrders := book_TotalOpenOrders b - 1, book_Bids := gm_del ?s (book_Bids b)\<rparr>"
      have "?s = book_BestBid b \<Longrightarrow> fst (findNextBestSubticks ?b ?s True) = best_price True (gm_del ?s (book_Bids b))"
        using ticks at(3) buy bb by (intro findNext_after_remove) (simp_all add: maps_removed_def Let_def)
      moreover have "?s \<noteq> book_BestBid b \<Longrightarrow> best_price True (gm_del ?s (book_Bids b)) = book_BestBid b"
        using best_price_del_other[of ?s True "book_Bids b"] at(3) buy bb by simp
      ultimately show ?thesis
        using True buy lvat
        by (cases "?s = book_BestBid b")
          (simp_all add: removeFromLevel_def book_removed_def levels_removed_def maps_removed_def Let_def)
    next
      case sell: False
      let ?b = "(maps_removed n b)\<lparr>book_TotalOpenOrders := book_TotalOpenOrders b - 1, book_Asks := gm_del ?s (book_Asks b)\<rparr>"
      have "?s = book_BestAsk b \<Longrightarrow> fst (findNextBestSubticks ?b ?s False) = best_price False (gm_del ?s (book_Asks b))"
        using ticks at(3) sell ba by (intro findNext_after_remove) (simp_all add: maps_removed_def Let_def)
      moreover have "?s \<noteq> book_BestAsk b \<Longrightarrow> best_price False (gm_del ?s (book_Asks b)) = book_BestAsk b"
        using best_price_del_other[of ?s False "book_Asks b"] at(3) sell ba by simp
      ultimately show ?thesis
        using True sell lvat
        by (cases "?s = book_BestAsk b")
          (simp_all add: removeFromLevel_def book_removed_def levels_removed_def maps_removed_def Let_def)
    qed
  qed
  with run show ?thesis by simp
qed

lemma book_inv_removed:
  assumes inv: "book_inv b" and n: "gm_get (book_orderIdToLevelOrder b) i = Some n"
  shows "book_inv (book_removed n b)"
proof -
  let ?L = "book_orderIdToLevelOrder b"
  have idx: "opens_ok ?L (book_SubaccountOpenClobOrders b)" "reduce_ok ?L (book_SubaccountOpenReduceOnlyOrders b)"
    "expiry_ok ?L (book_blockExpirationsForOrders b)" "nodes_ok ?L"
    using inv by (simp_all add: book_inv_def Let_def)
  have id: "node_id n = i" by (rule resting_at_level[OF inv n])
  have own: "side_ok (tick b) (gm_del i ?L) (Order_IsBuy (co_Order n)) (levels_removed n b)"
    unfolding levels_removed_def Let_def id
    using inv by (intro side_ok_del[OF idx(4) _ n]) (cases "Order_IsBuy (co_Order n)"; simp add: book_inv_def Let_def)+
  have other: "side_ok (tick b) (gm_del i ?L) (\<not> Order_IsBuy (co_Order n)) (GetSide b (\<not> Order_IsBuy (co_Order n)))"
    using inv by (intro side_ok_del_other[OF idx(4) _ n]) (cases "Order_IsBuy (co_Order n)"; simp add: book_inv_def Let_def)+
  have "gm_inv ?L" using idx(4) by (simp add: nodes_ok_def)
  then have "length ?L = Suc (length (gm_del i ?L))" using length_gm_del[OF _ n] by simp
  then show ?thesis
    using inv own other nodes_ok_del[OF idx(4)] opens_ok_del[OF idx(1,4) n refl refl]
      reduce_ok_del[OF idx(2) n] expiry_ok_del[OF idx(3) n] id
    by (cases "Order_IsBuy (co_Order n)"; cases "o_ReduceOnly (co_Order n)"; cases "OrderId_IsShortTermOrder i";
        cases "gm_del_in (o_Side (co_Order n)) i (gm_at (book_SubaccountOpenClobOrders b) (oid_SubaccountId i)) = []")
      (simp_all add: book_inv_def book_removed_def maps_removed_def Let_def)
qed

section \<open>The book as two price-time queues\<close>

text \<open>
  The abstract book: one queue per side, from the best price to the worst and within a price from the
  oldest order to the newest.
\<close>

definition side_queue :: "bool \<Rightarrow> (uint64, Level) gomap \<Rightarrow> ClobOrder list" where
  "side_queue isBuy levels = concat (map snd (if isBuy then rev levels else levels))"

definition at_least_as_good :: "bool \<Rightarrow> uint64 \<Rightarrow> uint64 \<Rightarrow> bool" where
  "at_least_as_good isBuy p q \<longleftrightarrow> (if isBuy then q \<le> p else p \<le> q)"

definition enqueue :: "bool \<Rightarrow> ClobOrder \<Rightarrow> ClobOrder list \<Rightarrow> ClobOrder list" where
  "enqueue isBuy n q =
     [m \<leftarrow> q. at_least_as_good isBuy (node_price m) (node_price n)] @ [n] @
     [m \<leftarrow> q. \<not> at_least_as_good isBuy (node_price m) (node_price n)]"

definition enqueue_front :: "bool \<Rightarrow> ClobOrder \<Rightarrow> ClobOrder list \<Rightarrow> ClobOrder list" where
  "enqueue_front isBuy n q =
     [m \<leftarrow> q. \<not> at_least_as_good isBuy (node_price n) (node_price m)] @ [n] @
     [m \<leftarrow> q. at_least_as_good isBuy (node_price n) (node_price m)]"

lemma gm_set_split:
  "gm_inv m \<Longrightarrow> gm_set k v m = [p \<leftarrow> m. fst p < k] @ [(k, v)] @ [p \<leftarrow> m. k < fst p]"
proof (induction k v m rule: gm_set.induct)
  case (2 k v k' v' m)
  have gt: "\<forall>p \<in> set m. k' < fst p" and inv: "gm_inv m" using 2(2) by (auto simp: gm_inv_def)
  have "[p \<leftarrow> m. fst p < k] = []" if "k \<le> k'" using gt that by (auto simp: filter_empty_conv)
  moreover have "[p \<leftarrow> m. k < fst p] = m" if "k \<le> k'" using gt that by (force simp: filter_id_conv)
  ultimately show ?case using 2(1) inv by auto
qed simp

lemma gm_split:
  assumes "gm_inv m"
  shows "m = [p \<leftarrow> m. fst p < k] @ (case gm_get m k of None \<Rightarrow> [] | Some v \<Rightarrow> [(k, v)]) @ [p \<leftarrow> m. k < fst p]"
  using assms
proof (induction m)
  case (Cons p m)
  have gt: "\<forall>q \<in> set m. fst p < fst q" and inv: "gm_inv m" using Cons.prems by (auto simp: gm_inv_def)
  have none: "gm_get m k = None" if "k \<le> fst p" using gt that by (force simp: gm_get_None_iff)
  have lo: "[q \<leftarrow> m. fst q < k] = []" if "k \<le> fst p" using gt that by (auto simp: filter_empty_conv)
  have hi: "[q \<leftarrow> m. k < fst q] = m" if "k \<le> fst p" using gt that by (force simp: filter_id_conv)
  consider "fst p < k" | "fst p = k" | "k < fst p" by fastforce
  then show ?case
  proof cases
    case 1
    then show ?thesis using Cons.IH[OF inv] by (auto simp: gm_get_def)
  next
    case 2
    then show ?thesis using lo hi by (cases p) (simp add: gm_get_def)
  next
    case 3
    then show ?thesis using lo hi none by (cases p) (auto simp: gm_get_def)
  qed
qed simp


lemma gm_del_split:
  assumes "gm_inv m"
  shows "gm_del k m = [p \<leftarrow> m. fst p < k] @ [p \<leftarrow> m. k < fst p]"
  using assms
proof (induction m)
  case (Cons p m)
  have gt: "\<forall>q \<in> set m. fst p < fst q" and inv: "gm_inv m" using Cons.prems by (auto simp: gm_inv_def)
  have lo: "[q \<leftarrow> m. fst q < k] = []" if "k \<le> fst p" using gt that by (auto simp: filter_empty_conv)
  have hi: "[q \<leftarrow> m. k < fst q] = m" "gm_del k m = m" if "k \<le> fst p"
    using gt that by (force simp: filter_id_conv gm_del_def)+
  consider "fst p < k" | "fst p = k" | "k < fst p" by fastforce
  then show ?case
    using Cons.IH[OF inv] lo hi by cases (auto simp: gm_del_def)
qed (simp add: gm_del_def)

text \<open>The nodes of the levels below, at and above a price.\<close>

definition priced :: "(uint64, Level) gomap \<Rightarrow> bool" where
  "priced levels \<longleftrightarrow> gm_inv levels \<and> (\<forall>p \<in> set levels. \<forall>n \<in> set (snd p). node_price n = fst p)"

lemma side_ok_priced: "side_ok t L isBuy levels \<Longrightarrow> priced levels"
  unfolding priced_def side_ok_def
  by (metis (mono_tags, lifting) gm_at_def gm_get_Some_iff option.case(2) prod.collapse)

lemma filter_concat_levels:
  assumes "\<forall>p \<in> set ps. \<forall>n \<in> set (snd p). node_price n = fst p"
  shows "[n \<leftarrow> concat (map snd ps). P (node_price n)] = concat (map snd [p \<leftarrow> ps. P (fst p)])"
  using assms by (induction ps) (auto simp: filter_id_conv filter_empty_conv)

lemma side_queue_filter:
  assumes "priced levels"
  shows "[n \<leftarrow> side_queue isBuy levels. P (node_price n)] = side_queue isBuy [p \<leftarrow> levels. P (fst p)]"
  using assms filter_concat_levels[of "rev levels" P] filter_concat_levels[of levels P]
  by (simp add: side_queue_def priced_def rev_filter[symmetric])

lemma side_queue_append:
  "side_queue isBuy (xs @ ys) =
     (if isBuy then side_queue isBuy ys @ side_queue isBuy xs else side_queue isBuy xs @ side_queue isBuy ys)"
  by (simp add: side_queue_def)

lemma side_queue_Cons:
  "side_queue isBuy ((s, lv) # xs) = (if isBuy then side_queue isBuy xs @ lv else lv @ side_queue isBuy xs)"
  by (simp add: side_queue_def)

lemma side_queue_single [simp]: "side_queue isBuy [(s, lv)] = lv" "side_queue isBuy [] = []"
  by (simp_all add: side_queue_def)

lemma side_queue_set:
  assumes "priced levels"
  shows "side_queue isBuy (gm_set s lv levels) =
    [n \<leftarrow> side_queue isBuy levels. if isBuy then s < node_price n else node_price n < s] @ lv @
    [n \<leftarrow> side_queue isBuy levels. if isBuy then node_price n < s else s < node_price n]"
  using gm_set_split[of levels s lv] side_queue_filter[OF assms, where isBuy = isBuy and P = "\<lambda>p. p < s"]
    side_queue_filter[OF assms, where isBuy = isBuy and P = "\<lambda>p. s < p"] assms
  by (cases isBuy) (simp_all add: side_queue_append side_queue_Cons priced_def)

lemma side_queue_del:
  assumes "priced levels"
  shows "side_queue isBuy (gm_del s levels) =
    [n \<leftarrow> side_queue isBuy levels. if isBuy then s < node_price n else node_price n < s] @
    [n \<leftarrow> side_queue isBuy levels. if isBuy then node_price n < s else s < node_price n]"
  using gm_del_split[of levels s] side_queue_filter[OF assms, where isBuy = isBuy and P = "\<lambda>p. p < s"]
    side_queue_filter[OF assms, where isBuy = isBuy and P = "\<lambda>p. s < p"] assms
  by (cases isBuy) (simp_all add: side_queue_append side_queue_Cons priced_def)

lemma side_queue_at:
  assumes "priced levels"
  shows "side_queue isBuy levels =
    [n \<leftarrow> side_queue isBuy levels. if isBuy then s < node_price n else node_price n < s] @ gm_at levels s @
    [n \<leftarrow> side_queue isBuy levels. if isBuy then node_price n < s else s < node_price n]"
proof -
  have "side_queue isBuy levels = side_queue isBuy
     ([p \<leftarrow> levels. fst p < s] @ (case gm_get levels s of None \<Rightarrow> [] | Some v \<Rightarrow> [(s, v)]) @ [p \<leftarrow> levels. s < fst p])"
    using gm_split[of levels s] assms by (simp add: priced_def)
  also have "\<dots> = [n \<leftarrow> side_queue isBuy levels. if isBuy then s < node_price n else node_price n < s] @ gm_at levels s @
    [n \<leftarrow> side_queue isBuy levels. if isBuy then node_price n < s else s < node_price n]"
    using side_queue_filter[OF assms, where isBuy = isBuy and P = "\<lambda>p. p < s"] side_queue_filter[OF assms, where isBuy = isBuy and P = "\<lambda>p. s < p"]
    by (cases isBuy; cases "gm_get levels s") (simp_all add: side_queue_append side_queue_Cons gm_at_def)
  finally show ?thesis .
qed

lemma priced_level: "priced levels \<Longrightarrow> n \<in> set (gm_at levels s) \<Longrightarrow> node_price n = s"
  by (cases "gm_get levels s") (force simp: priced_def gm_at_def gm_get_Some_iff)+

text \<open>The queue around a price: the better orders, the level, the worse orders.\<close>

lemma side_queue_around:
  assumes "priced levels"
  obtains B W where "side_queue isBuy levels = B @ gm_at levels s @ W"
    "\<forall>m \<in> set B. if isBuy then s < node_price m else node_price m < s"
    "\<forall>m \<in> set W. if isBuy then node_price m < s else s < node_price m"
    "\<And>lv. side_queue isBuy (gm_set s lv levels) = B @ lv @ W" "side_queue isBuy (gm_del s levels) = B @ W"
proof
  let ?B = "[n \<leftarrow> side_queue isBuy levels. if isBuy then s < node_price n else node_price n < s]"
    and ?W = "[n \<leftarrow> side_queue isBuy levels. if isBuy then node_price n < s else s < node_price n]"
  show "side_queue isBuy levels = ?B @ gm_at levels s @ ?W" by (rule side_queue_at[OF assms])
  show "side_queue isBuy (gm_set s lv levels) = ?B @ lv @ ?W" for lv by (rule side_queue_set[OF assms])
  show "side_queue isBuy (gm_del s levels) = ?B @ ?W" by (rule side_queue_del[OF assms])
qed auto

lemma enqueue_level:
  assumes "priced levels"
  shows "side_queue isBuy (gm_set (node_price n) (gm_at levels (node_price n) @ [n]) levels) =
      enqueue isBuy n (side_queue isBuy levels)"
    and "side_queue isBuy (gm_set (node_price n) (n # gm_at levels (node_price n)) levels) =
      enqueue_front isBuy n (side_queue isBuy levels)"
proof -
  let ?s = "node_price n"
  obtain B W where q: "side_queue isBuy levels = B @ gm_at levels ?s @ W"
    and b: "\<forall>m \<in> set B. if isBuy then ?s < node_price m else node_price m < ?s"
    and w: "\<forall>m \<in> set W. if isBuy then node_price m < ?s else ?s < node_price m"
    and set: "\<And>lv. side_queue isBuy (gm_set ?s lv levels) = B @ lv @ W"
    using side_queue_around[OF assms] by metis
  have lv: "\<forall>m \<in> set (gm_at levels ?s). node_price m = ?s" using priced_level[OF assms] by blast
  have "[m \<leftarrow> B. at_least_as_good isBuy (node_price m) ?s] = B" "[m \<leftarrow> B. \<not> at_least_as_good isBuy ?s (node_price m)] = B"
    "[m \<leftarrow> B. \<not> at_least_as_good isBuy (node_price m) ?s] = []" "[m \<leftarrow> B. at_least_as_good isBuy ?s (node_price m)] = []"
    using b by (cases isBuy; fastforce simp: at_least_as_good_def filter_id_conv filter_empty_conv)+
  moreover have "[m \<leftarrow> W. at_least_as_good isBuy (node_price m) ?s] = []" "[m \<leftarrow> W. \<not> at_least_as_good isBuy ?s (node_price m)] = []"
    "[m \<leftarrow> W. \<not> at_least_as_good isBuy (node_price m) ?s] = W" "[m \<leftarrow> W. at_least_as_good isBuy ?s (node_price m)] = W"
    using w by (cases isBuy; fastforce simp: at_least_as_good_def filter_id_conv filter_empty_conv)+
  moreover have "[m \<leftarrow> gm_at levels ?s. at_least_as_good isBuy (node_price m) ?s] = gm_at levels ?s"
    "[m \<leftarrow> gm_at levels ?s. \<not> at_least_as_good isBuy ?s (node_price m)] = []"
    "[m \<leftarrow> gm_at levels ?s. \<not> at_least_as_good isBuy (node_price m) ?s] = []"
    "[m \<leftarrow> gm_at levels ?s. at_least_as_good isBuy ?s (node_price m)] = gm_at levels ?s"
    using lv by (auto simp: at_least_as_good_def filter_id_conv filter_empty_conv)
  ultimately show "side_queue isBuy (gm_set ?s (gm_at levels ?s @ [n]) levels) = enqueue isBuy n (side_queue isBuy levels)"
    "side_queue isBuy (gm_set ?s (n # gm_at levels ?s) levels) = enqueue_front isBuy n (side_queue isBuy levels)"
    unfolding q set enqueue_def enqueue_front_def by simp_all
qed

lemma remove_level:
  assumes "priced levels" "\<forall>m \<in> set (side_queue isBuy levels). node_id m = i \<longrightarrow> node_price m = s"
    "lv = removeNode i (gm_at levels s)"
  shows "side_queue isBuy (if lv = [] then gm_del s levels else gm_set s lv levels) =
    [m \<leftarrow> side_queue isBuy levels. node_id m \<noteq> i]"
proof -
  obtain B W where q: "side_queue isBuy levels = B @ gm_at levels s @ W"
    and b: "\<forall>m \<in> set B. if isBuy then s < node_price m else node_price m < s"
    and w: "\<forall>m \<in> set W. if isBuy then node_price m < s else s < node_price m"
    and set: "\<And>lv. side_queue isBuy (gm_set s lv levels) = B @ lv @ W" "side_queue isBuy (gm_del s levels) = B @ W"
    using side_queue_around[OF assms(1)] by metis
  have "[m \<leftarrow> B. node_id m \<noteq> i] = B" "[m \<leftarrow> W. node_id m \<noteq> i] = W"
    using assms(2) b w unfolding q by (fastforce simp: filter_id_conv split: if_splits)+
  then show ?thesis using assms(3) unfolding q by (simp add: set removeNode_def)
qed

definition hd_opt :: "'a list \<Rightarrow> 'a option" where
  "hd_opt xs = (case xs of [] \<Rightarrow> None | x # _ \<Rightarrow> Some x)"

lemma hd_opt_simps [simp]: "hd_opt [] = None" "hd_opt (x # xs) = Some x"
  by (simp_all add: hd_opt_def)

lemma hd_opt_append: "hd_opt (xs @ ys) = (if xs = [] then hd_opt ys else hd_opt xs)"
  by (cases xs) simp_all

text \<open>The head of a queue is the oldest order of the best populated level.\<close>

definition best_key :: "bool \<Rightarrow> (uint64, Level) gomap \<Rightarrow> uint64" where
  "best_key isBuy levels = (if isBuy then Max (set (gm_keys levels)) else Min (set (gm_keys levels)))"

lemma sorted_le_last: "sorted xs \<Longrightarrow> x \<in> set xs \<Longrightarrow> x \<le> last xs"
  by (induction xs) auto

lemma best_key_eq:
  assumes "gm_inv levels" "levels \<noteq> []"
  shows "best_key isBuy levels = fst (if isBuy then last levels else hd levels)"
proof -
  have s: "sorted (gm_keys levels)" using assms(1) by (simp add: gm_inv_def gm_keys_def strict_sorted_iff)
  have ne: "gm_keys levels \<noteq> []" using assms(2) by (simp add: gm_keys_def)
  have "Max (set (gm_keys levels)) = last (gm_keys levels)"
    using s ne by (intro Max_eqI) (auto intro: sorted_le_last)
  moreover have "Min (set (gm_keys levels)) = hd (gm_keys levels)"
    using s ne by (intro Min_eqI) (cases "gm_keys levels"; auto)+
  ultimately show ?thesis using assms(2) by (simp add: best_key_def gm_keys_def last_map hd_map)
qed

lemma queue_head:
  assumes "gm_inv levels" "\<forall>s lv. gm_get levels s = Some lv \<longrightarrow> lv \<noteq> []" "levels \<noteq> []"
  shows "gm_at levels (best_key isBuy levels) \<noteq> []"
    "hd_opt (side_queue isBuy levels) = hd_opt (gm_at levels (best_key isBuy levels))"
proof -
  define p where "p = (if isBuy then last levels else hd levels)"
  have "p \<in> set levels" using assms(3) by (simp add: p_def)
  then have get: "gm_get levels (fst p) = Some (snd p)"
    using gm_get_Some_iff[OF assms(1)] by simp
  then have lv: "gm_at levels (best_key isBuy levels) = snd p" "snd p \<noteq> []"
    using assms(2) best_key_eq[OF assms(1,3), of isBuy] unfolding p_def[symmetric] by (simp_all add: gm_at_def)
  then show "gm_at levels (best_key isBuy levels) \<noteq> []" by simp
  have "\<exists>rest. side_queue isBuy levels = snd p @ rest"
  proof (cases isBuy)
    case True
    then show ?thesis using assms(3) by (cases levels rule: rev_cases) (auto simp: side_queue_def p_def)
  next
    case False
    then show ?thesis using assms(3) by (cases levels) (auto simp: side_queue_def p_def)
  qed
  then show "hd_opt (side_queue isBuy levels) = hd_opt (gm_at levels (best_key isBuy levels))"
    using lv by (auto simp: hd_opt_append)
qed

lemma best_price_key: "levels \<noteq> [] \<Longrightarrow> best_price isBuy levels = best_key isBuy levels"
  using length_keys_Nil[of levels] by (simp add: best_price_def best_key_def min_absorb2)

lemma getFirstOrder_eq: "getFirstOrderAtSideAndSubticks b isBuy s = hd_opt (gm_at (GetSide b isBuy) s)"
  by (auto simp: getFirstOrderAtSideAndSubticks_def gm_at_def hd_opt_def split: option.splits)

abbreviation book_queue :: "Orderbook \<Rightarrow> bool \<Rightarrow> ClobOrder list" where
  "book_queue b isBuy \<equiv> side_queue isBuy (GetSide b isBuy)"

lemma book_inv_side: "book_inv b \<Longrightarrow> side_ok (tick b) (book_orderIdToLevelOrder b) isBuy (GetSide b isBuy)"
  by (cases isBuy) (simp_all add: book_inv_def Let_def)

lemma getBestOrderOnSide_queue:
  assumes "book_inv b"
  shows "getBestOrderOnSide b isBuy = hd_opt (book_queue b isBuy)"
proof (cases "GetSide b isBuy = []")
  case True
  then show ?thesis
    by (simp add: getBestOrderOnSide_def getFirstOrder_eq side_queue_def)
next
  case False
  have "getBestOrderOnSide b isBuy = hd_opt (gm_at (GetSide b isBuy) (best_key isBuy (GetSide b isBuy)))"
    using book_inv_best[OF assms, of isBuy] best_price_key[OF False, of isBuy]
    by (simp add: getBestOrderOnSide_def getFirstOrder_eq)
  also have "\<dots> = hd_opt (book_queue b isBuy)"
    using book_inv_side[OF assms, of isBuy] False by (intro queue_head(2)[symmetric]) (auto simp: side_ok_def)
  finally show ?thesis .
qed

text \<open>The orders of a queue have distinct ids, and are the resting orders of that side.\<close>

lemma gm_at_mem: "n \<in> set (gm_at m s) \<longleftrightarrow> (\<exists>lv. gm_get m s = Some lv \<and> n \<in> set lv)"
  by (cases "gm_get m s") (simp_all add: gm_at_def)

lemma set_side_queue:
  assumes "side_ok t L isBuy levels"
  shows "n \<in> set (side_queue isBuy levels) \<longleftrightarrow> gm_get L (node_id n) = Some n \<and> Order_IsBuy (co_Order n) = isBuy"
proof -
  have inv: "gm_inv levels" using assms by (simp add: side_ok_def)
  have "n \<in> set (side_queue isBuy levels) \<longleftrightarrow> (\<exists>s lv. (s, lv) \<in> set levels \<and> n \<in> set lv)"
    by (force simp: side_queue_def)
  also have "\<dots> \<longleftrightarrow> (\<exists>s. n \<in> set (gm_at levels s))"
    unfolding gm_get_Some_iff[OF inv, symmetric] by (auto simp: gm_at_mem)
  also have "\<dots> \<longleftrightarrow> gm_get L (node_id n) = Some n \<and> Order_IsBuy (co_Order n) = isBuy"
    using assms by (auto simp: side_ok_def)
  finally show ?thesis .
qed

lemma distinct_concat_ids:
  assumes "distinct (map fst ps)" "\<forall>p \<in> set ps. distinct (map node_id (snd p)) \<and> (\<forall>n \<in> set (snd p). node_price n = fst p)"
    "\<forall>m \<in> set (concat (map snd ps)). \<forall>n \<in> set (concat (map snd ps)). node_id m = node_id n \<longrightarrow> m = n"
  shows "distinct (map node_id (concat (map snd ps)))"
  using assms
proof (induction ps)
  case (Cons p ps)
  have IH: "distinct (map node_id (concat (map snd ps)))" using Cons by simp
  have "node_id m \<noteq> node_id n" if "m \<in> set (snd p)" "q \<in> set ps" "n \<in> set (snd q)" for m n q
  proof
    assume "node_id m = node_id n"
    then have "m = n" using Cons.prems(3) that by auto
    then have "fst p = fst q" using Cons.prems(2) that by auto
    then show False using Cons.prems(1) that by auto
  qed
  with IH Cons.prems(2) show ?case by auto
qed simp

lemma distinct_side_queue:
  assumes "side_ok t L isBuy levels"
  shows "distinct (map node_id (side_queue isBuy levels))"
proof -
  have inv: "gm_inv levels" using assms by (simp add: side_ok_def)
  let ?ps = "if isBuy then rev levels else levels"
  have d: "distinct (map fst ?ps)" using gm_inv_distinct[OF inv] by (simp add: rev_map[symmetric])
  have p: "\<forall>p \<in> set ?ps. distinct (map node_id (snd p)) \<and> (\<forall>n \<in> set (snd p). node_price n = fst p)"
    using side_ok_priced[OF assms] assms gm_get_Some_iff[OF inv] by (auto simp: priced_def side_ok_def)
  have "\<forall>m \<in> set (concat (map snd ?ps)). \<forall>n \<in> set (concat (map snd ?ps)). node_id m = node_id n \<longrightarrow> m = n"
    using set_side_queue[OF assms] unfolding side_queue_def by (metis option.inject)
  with d p show ?thesis unfolding side_queue_def by (rule distinct_concat_ids)
qed

lemma next_node_at:
  "distinct (map node_id (us @ n # vs)) \<Longrightarrow> next_node (node_id n) (us @ n # vs) = hd_opt vs"
  by (induction us) (auto simp: hd_opt_def split: list.splits)

lemma distinct_split_unique: "distinct (xs @ n # ys) \<Longrightarrow> xs @ n # ys = us @ n # vs \<Longrightarrow> ys = vs"
proof (induction xs arbitrary: us)
  case Nil
  then show ?case by (cases us) auto
next
  case (Cons x xs)
  show ?case
  proof (cases us)
    case us: (Cons u us')
    have "distinct (xs @ n # ys)" using Cons.prems(1) by simp
    moreover have "xs @ n # ys = us' @ n # vs" using Cons.prems(2) us by simp
    ultimately show ?thesis by (rule Cons.IH)
  qed (use Cons.prems in auto)
qed

lemma gm_at_sub: "(\<And>lv. gm_get m k = Some lv \<Longrightarrow> gm_get m' k = Some lv) \<Longrightarrow> gm_at m k \<noteq> [] \<Longrightarrow> gm_at m k = gm_at m' k"
  by (cases "gm_get m k") (simp_all add: gm_at_def)

lemma findNextBestLevelOrder_queue:
  assumes inv: "book_inv b" and bounded: "prices_bounded b isBuy" and q: "book_queue b isBuy = xs @ n # ys"
  shows "findNextBestLevelOrder b n = hd_opt ys"
proof -
  let ?levels = "GetSide b isBuy" and ?s = "node_price n"
  note so = book_inv_side[OF inv, of isBuy]
  have pr: "priced ?levels" and gi: "gm_inv ?levels" using side_ok_priced[OF so] so by (simp_all add: side_ok_def)
  have "n \<in> set (book_queue b isBuy)" using q by simp
  then have n: "gm_get (book_orderIdToLevelOrder b) (node_id n) = Some n" "Order_IsBuy (co_Order n) = isBuy"
    using set_side_queue[OF so] by blast+
  then have at: "n \<in> set (gm_at ?levels ?s)" "?s \<in> set (gm_keys ?levels)"
    using resting_at_level[OF inv n(1)] by simp_all
  then obtain us vs where lv: "gm_at ?levels ?s = us @ n # vs" by (meson split_list)
  let ?better = "\<lambda>m. if isBuy then ?s < node_price m else node_price m < ?s"
    and ?worse = "\<lambda>k. if isBuy then k < ?s else ?s < k"
  let ?lw = "[p \<leftarrow> ?levels. ?worse (fst p)]"
  have W: "[m \<leftarrow> book_queue b isBuy. ?worse (node_price m)] = side_queue isBuy ?lw"
    by (rule side_queue_filter[OF pr])
  obtain B where "book_queue b isBuy = B @ gm_at ?levels ?s @ side_queue isBuy ?lw"
    by (rule that, rule side_queue_at[OF pr, of isBuy ?s, unfolded W])
  then have "book_queue b isBuy = (B @ us) @ n # (vs @ side_queue isBuy ?lw)"
    unfolding lv append_assoc append_Cons .
  then have eq: "xs @ n # ys = (B @ us) @ n # (vs @ side_queue isBuy ?lw)" by (rule trans[OF q[symmetric]])
  have "distinct (xs @ n # ys)" using distinct_side_queue[OF so] unfolding q distinct_map by blast
  then have ys: "ys = vs @ side_queue isBuy ?lw"
    using eq by (rule distinct_split_unique)
  have get: "gm_get ?levels ?s = Some (us @ n # vs)"
    using at(2) lv by (cases "gm_get ?levels ?s") (simp_all add: gm_at_def gm_keys_mem)
  then have dlv: "distinct (map node_id (us @ n # vs))"
    using so unfolding side_ok_def by blast
  have nn: "(case gm_get ?levels ?s of None \<Rightarrow> None | Some level \<Rightarrow> next_node (node_id n) level) = hd_opt vs"
    using next_node_at[OF dlv] get by simp
  have find: "findNextBestSubticks b ?s isBuy = next_price isBuy ?s ?levels"
    using findNextBestSubticks_eq[OF book_inv_on_ticks[OF inv at(2)] bounded at(2)] .
  have keys: "set (gm_keys ?lw) = worse_levels isBuy ?s ?levels" by (auto simp: gm_keys_def worse_levels_def)
  show ?thesis
  proof (cases "vs = []")
    case False
    then show ?thesis using nn n(2) ys by (cases vs) (simp_all add: findNextBestLevelOrder_def Let_def)
  next
    case True
    have run: "findNextBestLevelOrder b n =
      (case next_level isBuy ?s ?levels of None \<Rightarrow> None | Some m \<Rightarrow> hd_opt (gm_at ?levels m))"
      using True nn n(2) find
      by (auto simp: findNextBestLevelOrder_def Let_def next_price_def getFirstOrder_eq split: option.splits)
    show ?thesis
    proof (cases "?lw = []")
      case lw: True
      then have "next_level isBuy ?s ?levels = None" using keys by (simp add: next_level_def gm_keys_def)
      then show ?thesis using run ys True lw by simp
    next
      case False
      have gil: "gm_inv ?lw" using gi by (simp add: gm_inv_def sorted_wrt_filter sorted_wrt_map)
      have sub: "gm_get ?lw k = Some lv \<Longrightarrow> gm_get ?levels k = Some lv" for k lv
        using gm_get_Some_iff[OF gil] gm_get_Some_iff[OF gi] by auto
      have m: "next_level isBuy ?s ?levels = Some (best_key isBuy ?lw)"
        using False length_keys_Nil[of ?lw] unfolding next_level_def best_key_def keys by simp
      have "\<forall>k lv. gm_get ?lw k = Some lv \<longrightarrow> lv \<noteq> []" using sub so unfolding side_ok_def by blast
      note head = queue_head[OF gil this False, of isBuy]
      have "gm_at ?lw (best_key isBuy ?lw) = gm_at ?levels (best_key isBuy ?lw)"
        by (rule gm_at_sub[OF sub head(1)])
      then have "hd_opt (side_queue isBuy ?lw) = hd_opt (gm_at ?levels (best_key isBuy ?lw))"
        using head(2) by (simp only:)
      then show ?thesis unfolding run m ys True by (simp only: append_Nil option.case(2))
    qed
  qed
qed

section \<open>The interface of the book to the matching engine\<close>

text \<open>
  The matching engine reads a side of the book only through the best order and the order after a given
  one. Any book that offers these two over a queue is walked in queue order.
\<close>

fun visit :: "('b \<Rightarrow> bool \<Rightarrow> 'n option) \<Rightarrow> ('b \<Rightarrow> 'n \<Rightarrow> 'n option) \<Rightarrow> 'b \<Rightarrow> bool \<Rightarrow> nat \<Rightarrow> 'n option" where
  "visit best after b isBuy 0 = best b isBuy"
| "visit best after b isBuy (Suc k) = Option.bind (visit best after b isBuy k) (after b)"

locale price_time_book =
  fixes ok :: "'b \<Rightarrow> bool \<Rightarrow> bool"
    and queue :: "'b \<Rightarrow> bool \<Rightarrow> 'n list"
    and best :: "'b \<Rightarrow> bool \<Rightarrow> 'n option"
    and after :: "'b \<Rightarrow> 'n \<Rightarrow> 'n option"
  assumes best_hd: "ok b isBuy \<Longrightarrow> best b isBuy = hd_opt (queue b isBuy)"
    and after_next: "ok b isBuy \<Longrightarrow> queue b isBuy = xs @ n # ys \<Longrightarrow> after b n = hd_opt ys"
begin

lemma after_nth:
  assumes "ok b isBuy" "k < length (queue b isBuy)"
  shows "after b (queue b isBuy ! k) = (if Suc k < length (queue b isBuy) then Some (queue b isBuy ! Suc k) else None)"
proof -
  have "queue b isBuy = take k (queue b isBuy) @ queue b isBuy ! k # drop (Suc k) (queue b isBuy)"
    using assms(2) by (simp add: id_take_nth_drop)
  from after_next[OF assms(1) this] show ?thesis
    by (cases "Suc k < length (queue b isBuy)") (simp_all add: Cons_nth_drop_Suc[symmetric])
qed

lemma visit_queue:
  assumes "ok b isBuy"
  shows "visit best after b isBuy k = (if k < length (queue b isBuy) then Some (queue b isBuy ! k) else None)"
proof (induction k)
  case 0
  then show ?case using best_hd[OF assms] by (cases "queue b isBuy") simp_all
next
  case (Suc k)
  then show ?case using after_nth[OF assms, of k] by simp
qed

end

interpretation book: price_time_book "\<lambda>b isBuy. book_inv b \<and> prices_bounded b isBuy" "\<lambda>b isBuy. book_queue b isBuy"
  getBestOrderOnSide findNextBestLevelOrder
  by unfold_locales (auto intro: getBestOrderOnSide_queue findNextBestLevelOrder_queue)

lemma book_queue_added:
  assumes "book_inv b"
  shows "book_queue (book_added ord front b) (Order_IsBuy ord) =
      (if front then enqueue_front else enqueue) (Order_IsBuy ord) \<lparr>co_Order = ord, co_Signature = []\<rparr> (book_queue b (Order_IsBuy ord))"
    and "book_queue (book_added ord front b) (\<not> Order_IsBuy ord) = book_queue b (\<not> Order_IsBuy ord)"
proof -
  let ?n = "\<lparr>co_Order = ord, co_Signature = []\<rparr>" and ?s = "Order_IsBuy ord"
  have "GetSide (book_added ord front b) ?s = gm_set (o_Subticks ord) (new_level ord front b) (GetSide b ?s)"
    by (cases ?s) (simp_all add: book_added_def Let_def)
  then show "book_queue (book_added ord front b) ?s = (if front then enqueue_front else enqueue) ?s ?n (book_queue b ?s)"
    using enqueue_level[OF side_ok_priced[OF book_inv_side[OF assms]], of ?s ?n ?s] by (simp add: new_level_def Let_def)
  show "book_queue (book_added ord front b) (\<not> ?s) = book_queue b (\<not> ?s)"
    by (cases ?s) (simp_all add: book_added_def Let_def)
qed

lemma book_queue_removed:
  assumes "book_inv b" "gm_get (book_orderIdToLevelOrder b) i = Some n"
  shows "book_queue (book_removed n b) isBuy = [m \<leftarrow> book_queue b isBuy. node_id m \<noteq> i]"
proof -
  note at = resting_at_level[OF assms] and so = book_inv_side[OF assms(1)]
  show ?thesis
  proof (cases "isBuy = Order_IsBuy (co_Order n)")
    case True
    have levels: "GetSide (book_removed n b) isBuy =
        (let lv = removeNode i (gm_at (GetSide b isBuy) (node_price n))
         in if lv = [] then gm_del (node_price n) (GetSide b isBuy) else gm_set (node_price n) lv (GetSide b isBuy))"
      using True at(1) by (cases isBuy) (simp_all add: book_removed_def levels_removed_def Let_def)
    have "\<forall>m \<in> set (book_queue b isBuy). node_id m = i \<longrightarrow> node_price m = node_price n"
      using set_side_queue[OF so] assms(2) by auto
    from remove_level[OF side_ok_priced[OF so] this refl] show ?thesis
      unfolding levels Let_def .
  next
    case False
    have "GetSide (book_removed n b) isBuy = GetSide b isBuy"
      using False by (cases isBuy) (simp_all add: book_removed_def maps_removed_def Let_def)
    moreover have "\<forall>m \<in> set (book_queue b isBuy). node_id m \<noteq> i"
      using set_side_queue[OF so, of _ isBuy] assms(2) False by (metis option.inject)
    ultimately show ?thesis by (simp add: filter_id_conv)
  qed
qed

text \<open>The empty book that the memclob creates for a clob pair.\<close>

definition empty_book :: "uint32 \<Rightarrow> uint64 \<Rightarrow> Orderbook" where
  "empty_book subticksPerTick minOrderBaseQuantums = \<lparr>
     book_SubticksPerTick = subticksPerTick, book_Bids = [], book_Asks = [], book_BestBid = 0,
     book_BestAsk = MaxUint64, book_SubaccountOpenClobOrders = [],
     book_MinOrderBaseQuantums = minOrderBaseQuantums, book_SubaccountOpenReduceOnlyOrders = [],
     book_TotalOpenOrders = 0, book_orderIdToLevelOrder = [], book_blockExpirationsForOrders = [],
     book_orderIdToCancelExpiry = [], book_cancelExpiryToOrderIds = []\<rparr>"

lemma book_inv_empty: "t \<noteq> 0 \<Longrightarrow> book_inv (empty_book t q)"
  by (simp add: book_inv_def empty_book_def nodes_ok_def side_ok_def best_price_def opens_ok_def reduce_ok_def
      expiry_ok_def gm_keys_def)

definition ex_book :: Orderbook where
  "ex_book = snd (mustAddOrderToOrderbook (ex_order SIDE_SELL 5 120 2) False
     (snd (mustAddOrderToOrderbook (ex_order SIDE_SELL 5 100 1) False (empty_book 10 5))))"

lemma ex_book_eq: "ex_book = book_added (ex_order SIDE_SELL 5 120 2) False (book_added (ex_order SIDE_SELL 5 100 1) False (empty_book 10 5))"
proof -
  have a: "MustBeValidOrderSide (ex_order SIDE_SELL q s c) = Inr ()" for q s c
    by (simp add: MustBeValidOrderSide_def ex_order_def)
  have "\<not> hasOrder (empty_book 10 5) (o_OrderId (ex_order SIDE_SELL 5 100 1))"
    by (simp add: hasOrder_def empty_book_def)
  moreover have "\<not> hasOrder (book_added (ex_order SIDE_SELL 5 100 1) False (empty_book 10 5)) (o_OrderId (ex_order SIDE_SELL 5 120 2))"
    by (simp add: hasOrder_def empty_book_def book_added_def ex_order_def Let_def gm_get_def)
  ultimately show ?thesis
    by (simp add: ex_book_def mustAddOrderToOrderbook_eq[OF a])
qed

lemma ex_book_inv: "book_inv ex_book"
proof -
  have a: "MustBeValidOrderSide (ex_order SIDE_SELL q s c) = Inr ()" for q s c
    by (simp add: MustBeValidOrderSide_def ex_order_def)
  show ?thesis
    unfolding ex_book_eq
    by (intro book_inv_added book_inv_empty a)
      (simp_all add: hasOrder_def empty_book_def book_added_def ex_order_def Let_def gm_get_def)
qed

lemma ex_book_levels:
  "book_Asks ex_book =
     [(100, [\<lparr>co_Order = ex_order SIDE_SELL 5 100 1, co_Signature = []\<rparr>]),
      (120, [\<lparr>co_Order = ex_order SIDE_SELL 5 120 2, co_Signature = []\<rparr>])]"
  "tick ex_book = 10"
  unfolding ex_book_eq
  by (simp_all add: book_added_def empty_book_def new_level_def ex_order_def Order_IsBuy_def Let_def gm_at_def gm_get_def)


text \<open>
  C6: The order book implements price-time priority. Seen as one queue per side, best price first and
  oldest first within a price: adding an order with a valid side, a fresh id and a price on the tick
  grid succeeds, inserts it behind all orders at least as good (or, when forced to the front, before all
  orders no better) and leaves the other side alone; removing a resting order succeeds and deletes just
  that order; both keep every index of the book (levels, best prices, order ids, open orders per
  subaccount and side, reduce-only orders, block expirations, the total) exact. The best order of a side
  is the head of its queue, and when prices stay clear of the top of the price range, repeatedly asking
  for the next best order walks the queue to its end.
\<close>

theorem orderbook_price_time_priority:
  assumes "book_inv b"
  shows "(MustBeValidOrderSide ord = Inr () \<and> \<not> hasOrder b (o_OrderId ord) \<and> uint (tick b) dvd uint (o_Subticks ord) \<longrightarrow>
      (\<exists>b'. mustAddOrderToOrderbook ord front b = (Inr (), b') \<and> book_inv b' \<and>
         book_queue b' (Order_IsBuy ord) =
           (if front then enqueue_front else enqueue) (Order_IsBuy ord) \<lparr>co_Order = ord, co_Signature = []\<rparr>
             (book_queue b (Order_IsBuy ord)) \<and>
         book_queue b' (\<not> Order_IsBuy ord) = book_queue b (\<not> Order_IsBuy ord))) \<and>
    (gm_get (book_orderIdToLevelOrder b) i = Some n \<longrightarrow>
      (\<exists>b'. mustRemoveOrder n b = (Inr (), b') \<and> book_inv b' \<and>
         (\<forall>isBuy. book_queue b' isBuy = [m \<leftarrow> book_queue b isBuy. node_id m \<noteq> i]))) \<and>
    getBestOrderOnSide b isBuy = hd_opt (book_queue b isBuy) \<and>
    (prices_bounded b isBuy \<longrightarrow>
      visit getBestOrderOnSide findNextBestLevelOrder b isBuy k =
        (if k < length (book_queue b isBuy) then Some (book_queue b isBuy ! k) else None))"
proof (intro conjI, goal_cases)
  case 1
  then show ?case
    using mustAddOrderToOrderbook_eq book_inv_added[OF assms] book_queue_added[OF assms] by (metis (no_types, lifting))
next
  case 2
  then show ?case
    using mustRemoveOrder_eq[OF assms] book_inv_removed[OF assms] book_queue_removed[OF assms] by blast
next
  case 3
  then show ?case by (rule getBestOrderOnSide_queue[OF assms])
next
  case 4
  then show ?case using book.visit_queue[of b isBuy k] assms by blast
qed

theorem orderbook_price_time_priority_witness:
  "book_inv ex_book \<and> prices_bounded ex_book False \<and>
   visit getBestOrderOnSide findNextBestLevelOrder ex_book False 1 =
     Some \<lparr>co_Order = ex_order SIDE_SELL 5 120 2, co_Signature = []\<rparr> \<and>
   (\<exists>b'. mustAddOrderToOrderbook (ex_order SIDE_SELL 7 100 3) False ex_book = (Inr (), b') \<and> book_inv b' \<and>
      book_queue b' False =
        [\<lparr>co_Order = ex_order SIDE_SELL 5 100 1, co_Signature = []\<rparr>,
         \<lparr>co_Order = ex_order SIDE_SELL 7 100 3, co_Signature = []\<rparr>,
         \<lparr>co_Order = ex_order SIDE_SELL 5 120 2, co_Signature = []\<rparr>])"
proof -
  let ?o = "ex_order SIDE_SELL 7 100 3"
  have bounded: "prices_bounded ex_book False"
    by (simp add: prices_bounded_def ex_book_levels gm_keys_def worst_price_def MaxUint64_def)
  have q: "book_queue ex_book False =
      [\<lparr>co_Order = ex_order SIDE_SELL 5 100 1, co_Signature = []\<rparr>, \<lparr>co_Order = ex_order SIDE_SELL 5 120 2, co_Signature = []\<rparr>]"
    by (simp add: ex_book_levels side_queue_def)
  have buy: "\<not> Order_IsBuy ?o" by (simp add: Order_IsBuy_def ex_order_def)
  have "MustBeValidOrderSide ?o = Inr () \<and> \<not> hasOrder ex_book (o_OrderId ?o) \<and> uint (tick ex_book) dvd uint (o_Subticks ?o)"
    unfolding ex_book_eq
    by (simp add: MustBeValidOrderSide_def hasOrder_def book_added_def empty_book_def ex_order_def Let_def gm_get_def)
  then obtain b' where b': "mustAddOrderToOrderbook ?o False ex_book = (Inr (), b')" "book_inv b'"
    "book_queue b' (Order_IsBuy ?o) = (if False then enqueue_front else enqueue) (Order_IsBuy ?o) \<lparr>co_Order = ?o, co_Signature = []\<rparr>
             (book_queue ex_book (Order_IsBuy ?o))"
    using orderbook_price_time_priority[OF ex_book_inv, THEN conjunct1, of ?o False] by blast
  have "book_queue b' False = enqueue False \<lparr>co_Order = ?o, co_Signature = []\<rparr> (book_queue ex_book False)"
    using b'(3) buy by simp
  moreover have "visit getBestOrderOnSide findNextBestLevelOrder ex_book False 1 =
      Some \<lparr>co_Order = ex_order SIDE_SELL 5 120 2, co_Signature = []\<rparr>"
    using orderbook_price_time_priority[OF ex_book_inv, where isBuy = False and k = 1, THEN conjunct2, THEN conjunct2, THEN conjunct2]
      bounded unfolding q by simp
  ultimately show ?thesis
    using ex_book_inv bounded b'(1,2) unfolding q by (auto simp: enqueue_def at_least_as_good_def ex_order_def)
qed

text \<open>
  C19: The search for the next price level agrees with its reference. For a populated level of a
  well-formed side whose prices stay clear of the top of the price range, scanning tick by tick and then
  falling back to all levels returns exactly the best of the strictly worse populated prices, or nothing
  (with the sentinel 0 or MaxUint64) when there is none.
\<close>

theorem next_price_level_reference:
  assumes "book_inv b" "prices_bounded b isBuy" "start \<in> set (gm_keys (GetSide b isBuy))"
  shows "findNextBestSubticks b start isBuy = next_price isBuy start (GetSide b isBuy)"
  using findNextBestSubticks_eq[OF book_inv_on_ticks[OF assms(1,3)] assms(2,3)] .

theorem next_price_level_reference_witness:
  "book_inv ex_book \<and> findNextBestSubticks ex_book 100 False = (120, True)"
proof -
  have "prices_bounded ex_book False"
    by (simp add: prices_bounded_def ex_book_levels gm_keys_def worst_price_def MaxUint64_def)
  moreover have "100 \<in> set (gm_keys (GetSide ex_book False))" by (simp add: ex_book_levels gm_keys_def)
  moreover have "next_price False 100 (GetSide ex_book False) = (120, True)"
  proof -
    have "worse_levels False 100 (GetSide ex_book False) = {120}"
      by (auto simp: worse_levels_def ex_book_levels gm_keys_def)
    then show ?thesis by (simp add: next_price_def next_level_def)
  qed
  ultimately show ?thesis using next_price_level_reference[OF ex_book_inv, of False 100] ex_book_inv by simp
qed

text \<open>
  Without the bound on prices the scan wraps around: below the last bid it finds the best one, which is
  at a better price. The comment in the code says that this cannot happen.
\<close>

lemma findNextBestSubticks_wraps:
  "findNextBestSubticks
     ((empty_book 1 1)\<lparr>book_Bids := [(1, [\<lparr>co_Order = ex_order SIDE_BUY 5 1 1, co_Signature = []\<rparr>]),
                      (MaxUint64, [\<lparr>co_Order = ex_order SIDE_BUY 5 MaxUint64 2, co_Signature = []\<rparr>])]\<rparr>) 1 True
   = (MaxUint64, True)"
  by code_simp

end
