(* ===== verification/OperationsQueue.thy ===== *)
theory OperationsQueue
  imports ClobTypes
begin

text \<open>
  The operations a proposer collects and the validation every node runs on them:
  \<^verbatim>\<open>x/clob/types/operations_to_propose.go\<close>, \<^verbatim>\<open>internal_operation.go\<close>, \<^verbatim>\<open>matches.go\<close>,
  \<^verbatim>\<open>message_clob_match.go\<close>, \<^verbatim>\<open>match_perpetual_deleveraging.go\<close>, \<^verbatim>\<open>message_proposed_operations.go\<close> and
  \<^verbatim>\<open>operation.go\<close>. The hash of an order, the SDK's transaction decoder, its ante handler and its bech32
  decoder are function arguments. Removal reasons are values of a datatype; the oneofs of the protobuf
  messages are datatypes.
\<close>

section \<open>Definitions: messages\<close>

record MakerFill =
  mf_FillAmount :: uint64
  mf_MakerOrderId :: OrderId

record MakerFillWithOrder =
  mfo_MakerFill :: MakerFill
  mfo_Order :: Order

record MatchOrders =
  mo_TakerOrderId :: OrderId
  mo_Fills :: "MakerFill list"

record MatchPerpetualLiquidation =
  mpl_Liquidated :: SubaccountId
  mpl_ClobPairId :: uint32
  mpl_PerpetualId :: uint32
  mpl_TotalSize :: uint64
  mpl_IsBuy :: bool
  mpl_Fills :: "MakerFill list"

record MatchPerpetualDeleveraging_Fill =
  mdf_OffsettingSubaccountId :: SubaccountId
  mdf_FillAmount :: uint64

record MatchPerpetualDeleveraging =
  mpd_Liquidated :: SubaccountId
  mpd_PerpetualId :: uint32
  mpd_Fills :: "MatchPerpetualDeleveraging_Fill list"
  mpd_IsFinalSettlement :: bool

datatype ClobMatch =
    ClobMatch_MatchOrders MatchOrders
  | ClobMatch_MatchPerpetualLiquidation MatchPerpetualLiquidation
  | ClobMatch_MatchPerpetualDeleveraging MatchPerpetualDeleveraging

datatype RemovalReason =
    REMOVAL_REASON_UNSPECIFIED | REMOVAL_REASON_UNDERCOLLATERALIZED | REMOVAL_REASON_INVALID_REDUCE_ONLY
  | REMOVAL_REASON_POST_ONLY_WOULD_CROSS_MAKER_ORDER | REMOVAL_REASON_INVALID_SELF_TRADE
  | REMOVAL_REASON_CONDITIONAL_FOK_COULD_NOT_BE_FULLY_FILLED
  | REMOVAL_REASON_CONDITIONAL_IOC_WOULD_REST_ON_BOOK | REMOVAL_REASON_FULLY_FILLED
  | REMOVAL_REASON_VIOLATES_ISOLATED_SUBACCOUNT_CONSTRAINTS | REMOVAL_REASON_PERMISSIONED_KEY_EXPIRED

datatype InternalOperation =
    Op_ShortTermOrderPlacement Order
  | Op_PreexistingStatefulOrder OrderId
  | Op_Match ClobMatch
  | Op_OrderRemoval OrderId RemovalReason

type_synonym bytes = "8 word list"

datatype OperationRaw =
    Raw_Match ClobMatch
  | Raw_ShortTermOrderPlacement bytes
  | Raw_OrderRemoval OrderId RemovalReason

definition MakerFillsWithOrderToMakerFills :: "MakerFillWithOrder list \<Rightarrow> MakerFill list" where
  "MakerFillsWithOrderToMakerFills mfos = map mfo_MakerFill mfos"

definition MatchOrders_GetMakerSubaccountIds :: "MatchOrders \<Rightarrow> SubaccountId list" where
  "MatchOrders_GetMakerSubaccountIds m = map (\<lambda>fill. oid_SubaccountId (mf_MakerOrderId fill)) (mo_Fills m)"

definition MatchPerpetualLiquidation_GetMakerSubaccountIds :: "MatchPerpetualLiquidation \<Rightarrow> SubaccountId list" where
  "MatchPerpetualLiquidation_GetMakerSubaccountIds m =
     map (\<lambda>fill. oid_SubaccountId (mf_MakerOrderId fill)) (mpl_Fills m)"

definition GetTotalFilledQuantums :: "MatchPerpetualDeleveraging \<Rightarrow> int" where
  "GetTotalFilledQuantums m = fold (\<lambda>fill total. total + uint (mdf_FillAmount fill)) (mpd_Fills m) 0"

definition GetAllOrderIds :: "ClobMatch \<Rightarrow> OrderId set" where
  "GetAllOrderIds clobMatch =
     (case clobMatch of
        ClobMatch_MatchOrders m \<Rightarrow> insert (mo_TakerOrderId m) (mf_MakerOrderId ` set (mo_Fills m))
      | ClobMatch_MatchPerpetualLiquidation m \<Rightarrow> mf_MakerOrderId ` set (mpl_Fills m)
      | ClobMatch_MatchPerpetualDeleveraging m \<Rightarrow> {})"

definition GetAllSubaccountIds :: "ClobMatch \<Rightarrow> SubaccountId set" where
  "GetAllSubaccountIds clobMatch =
     (case clobMatch of
        ClobMatch_MatchOrders m \<Rightarrow>
          insert (oid_SubaccountId (mo_TakerOrderId m)) (set (MatchOrders_GetMakerSubaccountIds m))
      | ClobMatch_MatchPerpetualLiquidation m \<Rightarrow>
          insert (mpl_Liquidated m) (set (MatchPerpetualLiquidation_GetMakerSubaccountIds m))
      | ClobMatch_MatchPerpetualDeleveraging m \<Rightarrow>
          insert (mpd_Liquidated m) (mdf_OffsettingSubaccountId ` set (mpd_Fills m)))"

definition NewShortTermOrderPlacementInternalOperation :: "Order \<Rightarrow> InternalOperation res" where
  "NewShortTermOrderPlacementInternalOperation order =
     bindr (OrderId_MustBeShortTermOrder (o_OrderId order)) (\<lambda>_. Inr (Op_ShortTermOrderPlacement order))"

definition NewPreexistingStatefulOrderPlacementInternalOperation :: "Order \<Rightarrow> InternalOperation res" where
  "NewPreexistingStatefulOrderPlacementInternalOperation order =
     bindr (OrderId_MustBeStatefulOrder (o_OrderId order)) (\<lambda>_. Inr (Op_PreexistingStatefulOrder (o_OrderId order)))"

definition NewMatchOrdersInternalOperation :: "Order \<Rightarrow> MakerFill list \<Rightarrow> InternalOperation res" where
  "NewMatchOrdersInternalOperation takerOrder makerFills =
     (if makerFills = [] then Inl (Panic ''NewMatchOrdersInternalOperation'')
      else Inr (Op_Match (ClobMatch_MatchOrders \<lparr>mo_TakerOrderId = o_OrderId takerOrder, mo_Fills = makerFills\<rparr>)))"

definition NewMatchPerpetualLiquidationInternalOperation ::
  "MatchableOrder \<Rightarrow> MakerFill list \<Rightarrow> InternalOperation res" where
  "NewMatchPerpetualLiquidationInternalOperation takerLiquidationOrder makerFills =
     (if \<not> mo_IsLiquidation takerLiquidationOrder then Inl (Panic ''NewMatchPerpetualLiquidationInternalOperation'')
      else if makerFills = [] then Inl (Panic ''NewMatchPerpetualLiquidationInternalOperation'')
      else bindr (mo_MustGetLiquidatedPerpetualId takerLiquidationOrder) (\<lambda>perpetualId.
        Inr (Op_Match (ClobMatch_MatchPerpetualLiquidation
          \<lparr>mpl_Liquidated = mo_GetSubaccountId takerLiquidationOrder,
           mpl_ClobPairId = mo_GetClobPairId takerLiquidationOrder, mpl_PerpetualId = perpetualId,
           mpl_TotalSize = mo_GetBaseQuantums takerLiquidationOrder,
           mpl_IsBuy = mo_IsBuy takerLiquidationOrder, mpl_Fills = makerFills\<rparr>))))"

definition NewMatchPerpetualDeleveragingInternalOperation ::
  "SubaccountId \<Rightarrow> uint32 \<Rightarrow> MatchPerpetualDeleveraging_Fill list \<Rightarrow> bool \<Rightarrow> InternalOperation" where
  "NewMatchPerpetualDeleveragingInternalOperation liquidatedSubaccountId perpetualId fills isFinalSettlement =
     Op_Match (ClobMatch_MatchPerpetualDeleveraging
       \<lparr>mpd_Liquidated = liquidatedSubaccountId, mpd_PerpetualId = perpetualId, mpd_Fills = fills,
        mpd_IsFinalSettlement = isFinalSettlement\<rparr>)"

definition NewOrderRemovalInternalOperation :: "OrderId \<Rightarrow> RemovalReason \<Rightarrow> InternalOperation res" where
  "NewOrderRemovalInternalOperation orderId removalReason =
     bindr (OrderId_MustBeStatefulOrder orderId) (\<lambda>_.
       if removalReason = REMOVAL_REASON_UNSPECIFIED then Inl (Panic ''NewOrderRemovalInternalOperation'')
       else Inr (Op_OrderRemoval orderId removalReason))"

section \<open>Definitions: the operations to propose\<close>

record OperationsToPropose =
  otp_OperationsQueue :: "InternalOperation list"
  otp_OrderHashesInOperationsQueue :: "(OrderHash, bool) gomap"
  otp_ShortTermOrderHashToTxBytes :: "(OrderHash, bytes) gomap"
  otp_MatchedOrderIdToOrder :: "(OrderId, Order) gomap"
  otp_OrderRemovalsInOperationsQueue :: "(OrderId, bool) gomap"

definition NewOperationsToPropose :: OperationsToPropose where
  "NewOperationsToPropose =
     \<lparr>otp_OperationsQueue = [], otp_OrderHashesInOperationsQueue = [], otp_ShortTermOrderHashToTxBytes = [],
      otp_MatchedOrderIdToOrder = [], otp_OrderRemovalsInOperationsQueue = []\<rparr>"

definition ClearOperationsQueue :: "OperationsToPropose \<Rightarrow> OperationsToPropose" where
  "ClearOperationsQueue s =
     s\<lparr>otp_OperationsQueue := [], otp_OrderHashesInOperationsQueue := [], otp_MatchedOrderIdToOrder := [],
       otp_OrderRemovalsInOperationsQueue := []\<rparr>"

definition appendOp :: "InternalOperation \<Rightarrow> OperationsToPropose \<Rightarrow> OperationsToPropose" where
  "appendOp op s = s\<lparr>otp_OperationsQueue := otp_OperationsQueue s @ [op]\<rparr>"

definition IsOrderRemovalInOperationsQueue :: "OperationsToPropose \<Rightarrow> OrderId \<Rightarrow> bool" where
  "IsOrderRemovalInOperationsQueue s orderId \<longleftrightarrow> gm_get (otp_OrderRemovalsInOperationsQueue s) orderId \<noteq> None"

definition IsOrderPlacementInOperationsQueue :: "(Order \<Rightarrow> OrderHash) \<Rightarrow> OperationsToPropose \<Rightarrow> Order \<Rightarrow> bool" where
  "IsOrderPlacementInOperationsQueue hash s order \<longleftrightarrow> gm_get (otp_OrderHashesInOperationsQueue s) (hash order) \<noteq> None"

definition panic_if :: "('s \<Rightarrow> bool) \<Rightarrow> string \<Rightarrow> ('s, unit) step" where
  "panic_if c n = liftM (\<lambda>s. if c s then Inl (Panic n) else Inr ())"

definition MustAddShortTermOrderTxBytes :: "(Order \<Rightarrow> OrderHash) \<Rightarrow> Order \<Rightarrow> bytes \<Rightarrow> (OperationsToPropose, unit) step" where
  "MustAddShortTermOrderTxBytes hash order txBytes =
     bindM (liftM (\<lambda>_. OrderId_MustBeShortTermOrder (o_OrderId order))) (\<lambda>_.
     bindM (panic_if (\<lambda>_. length txBytes = 0) ''MustAddShortTermOrderTxBytes: provided TX bytes are empty'') (\<lambda>_.
     bindM (panic_if (\<lambda>s. gm_get (otp_ShortTermOrderHashToTxBytes s) (hash order) \<noteq> None)
              ''MustAddShortTermOrderTxBytes: Order already exists'') (\<lambda>_.
     modifyM (\<lambda>s. s\<lparr>otp_ShortTermOrderHashToTxBytes :=
                       gm_set (hash order) txBytes (otp_ShortTermOrderHashToTxBytes s)\<rparr>))))"

definition MustAddShortTermOrderPlacementToOperationsQueue ::
  "(Order \<Rightarrow> OrderHash) \<Rightarrow> Order \<Rightarrow> (OperationsToPropose, unit) step" where
  "MustAddShortTermOrderPlacementToOperationsQueue hash order =
     bindM (liftM (\<lambda>_. OrderId_MustBeShortTermOrder (o_OrderId order))) (\<lambda>_.
     bindM (panic_if (\<lambda>s. IsOrderPlacementInOperationsQueue hash s order)
              ''MustAddShortTermOrderPlacementToOperationsQueue: already exists'') (\<lambda>_.
     bindM (panic_if (\<lambda>s. gm_get (otp_ShortTermOrderHashToTxBytes s) (hash order) = None)
              ''MustAddShortTermOrderPlacementToOperationsQueue: does not exist'') (\<lambda>_.
     bindM (modifyM (\<lambda>s. s\<lparr>otp_OrderHashesInOperationsQueue :=
                              gm_set (hash order) True (otp_OrderHashesInOperationsQueue s)\<rparr>)) (\<lambda>_.
     bindM (liftM (\<lambda>_. NewShortTermOrderPlacementInternalOperation order)) (\<lambda>op.
     modifyM (appendOp op))))))"

definition RemoveShortTermOrderTxBytes :: "(Order \<Rightarrow> OrderHash) \<Rightarrow> Order \<Rightarrow> (OperationsToPropose, unit) step" where
  "RemoveShortTermOrderTxBytes hash order =
     bindM (liftM (\<lambda>_. OrderId_MustBeShortTermOrder (o_OrderId order))) (\<lambda>_.
     bindM (panic_if (\<lambda>s. IsOrderPlacementInOperationsQueue hash s order) ''RemoveShortTermOrderTxBytes: exists'') (\<lambda>_.
     bindM (panic_if (\<lambda>s. gm_get (otp_ShortTermOrderHashToTxBytes s) (hash order) = None)
              ''RemoveShortTermOrderTxBytes: does not exist'') (\<lambda>_.
     modifyM (\<lambda>s. s\<lparr>otp_ShortTermOrderHashToTxBytes :=
                       gm_del (hash order) (otp_ShortTermOrderHashToTxBytes s)\<rparr>))))"

definition MustAddStatefulOrderPlacementToOperationsQueue ::
  "(Order \<Rightarrow> OrderHash) \<Rightarrow> Order \<Rightarrow> (OperationsToPropose, unit) step" where
  "MustAddStatefulOrderPlacementToOperationsQueue hash order =
     bindM (liftM (\<lambda>_. OrderId_MustBeStatefulOrder (o_OrderId order))) (\<lambda>_.
     bindM (panic_if (\<lambda>s. IsOrderPlacementInOperationsQueue hash s order)
              ''MustAddStatefulOrderPlacementToOperationsQueue'') (\<lambda>_.
     bindM (modifyM (\<lambda>s. s\<lparr>otp_OrderHashesInOperationsQueue :=
                              gm_set (hash order) True (otp_OrderHashesInOperationsQueue s)\<rparr>)) (\<lambda>_.
     bindM (liftM (\<lambda>_. NewPreexistingStatefulOrderPlacementInternalOperation order)) (\<lambda>op.
     modifyM (appendOp op)))))"

definition MustAddMatchToOperationsQueue ::
  "(Order \<Rightarrow> OrderHash) \<Rightarrow> MatchableOrder \<Rightarrow> MakerFillWithOrder list \<Rightarrow> (OperationsToPropose, InternalOperation) step" where
  "MustAddMatchToOperationsQueue hash takerMatchableOrder makerFillsWithOrders =
     (let makerFills = map mfo_MakerFill makerFillsWithOrders;
          makerOrders = map mfo_Order makerFillsWithOrders
      in bindM (liftM (\<lambda>_.
           if mo_IsLiquidation takerMatchableOrder
           then bindr (NewMatchPerpetualLiquidationInternalOperation takerMatchableOrder makerFills) (\<lambda>op.
                  Inr (op, makerOrders))
           else bindr (mo_MustGetOrder takerMatchableOrder) (\<lambda>taker.
                bindr (NewMatchOrdersInternalOperation taker makerFills) (\<lambda>op.
                  Inr (op, makerOrders @ [taker]))))) (\<lambda>(matchOperation, ordersMustBeInOpQueue).
         bindM (panic_if (\<lambda>s. \<exists>order \<in> set ordersMustBeInOpQueue. \<not> IsOrderPlacementInOperationsQueue hash s order)
                  ''MustAddMatchToOperationsQueue'') (\<lambda>_.
         bindM (modifyM (appendOp matchOperation)) (\<lambda>_.
         retM matchOperation))))"

definition AddZeroFillDeleveragingToOperationsQueue ::
  "SubaccountId \<Rightarrow> uint32 \<Rightarrow> OperationsToPropose \<Rightarrow> OperationsToPropose" where
  "AddZeroFillDeleveragingToOperationsQueue liquidatedSubaccountId perpetualId =
     appendOp (NewMatchPerpetualDeleveragingInternalOperation liquidatedSubaccountId perpetualId [] False)"

definition check_deleveraging_fill ::
  "SubaccountId \<Rightarrow> MatchPerpetualDeleveraging_Fill \<Rightarrow> SubaccountId list \<Rightarrow> SubaccountId list res" where
  "check_deleveraging_fill liquidatedSubaccountId fill seenSubaccountIds =
     (if mdf_FillAmount fill = 0 then Inl (Panic ''fill amount is zero'')
      else if mdf_OffsettingSubaccountId fill = liquidatedSubaccountId
      then Inl (Panic ''offsetting subaccount is the same as liquidated subaccount'')
      else if mdf_OffsettingSubaccountId fill \<in> set seenSubaccountIds then Inl (Panic ''duplicated subaccount ids'')
      else Inr (mdf_OffsettingSubaccountId fill # seenSubaccountIds))"

definition MustAddDeleveragingToOperationsQueue ::
  "SubaccountId \<Rightarrow> uint32 \<Rightarrow> MatchPerpetualDeleveraging_Fill list \<Rightarrow> bool \<Rightarrow> (OperationsToPropose, unit) step" where
  "MustAddDeleveragingToOperationsQueue liquidatedSubaccountId perpetualId fills isFinalSettlement =
     bindM (panic_if (\<lambda>_. fills = []) ''MustAddDeleveragingToOperationsQueue: number of fills is zero'') (\<lambda>_.
     bindM (liftM (\<lambda>_. for_res (check_deleveraging_fill liquidatedSubaccountId) fills [])) (\<lambda>_.
     modifyM (appendOp (NewMatchPerpetualDeleveragingInternalOperation liquidatedSubaccountId perpetualId fills
                          isFinalSettlement))))"

definition MustAddOrderRemovalToOperationsQueue :: "OrderId \<Rightarrow> RemovalReason \<Rightarrow> (OperationsToPropose, unit) step" where
  "MustAddOrderRemovalToOperationsQueue orderId removalReason =
     bindM (panic_if (\<lambda>_. removalReason = REMOVAL_REASON_UNSPECIFIED)
              ''MustAddOrderRemovalToOperationsQueue: removal reason unspecified'') (\<lambda>_.
     bindM (panic_if (\<lambda>s. IsOrderRemovalInOperationsQueue s orderId)
              ''MustAddOrderRemovalToOperationsQueue: order removal already exists in operations queue'') (\<lambda>_.
     bindM (liftM (\<lambda>_. NewOrderRemovalInternalOperation orderId removalReason)) (\<lambda>op.
     modifyM (\<lambda>s. (appendOp op s)\<lparr>otp_OrderRemovalsInOperationsQueue :=
                                     gm_set orderId True (otp_OrderRemovalsInOperationsQueue s)\<rparr>))))"

definition MustGetShortTermOrderTxBytes :: "(Order \<Rightarrow> OrderHash) \<Rightarrow> OperationsToPropose \<Rightarrow> Order \<Rightarrow> bytes res" where
  "MustGetShortTermOrderTxBytes hash s order =
     bindr (OrderId_MustBeShortTermOrder (o_OrderId order)) (\<lambda>_.
       case gm_get (otp_ShortTermOrderHashToTxBytes s) (hash order) of
         None \<Rightarrow> Inl (Panic ''MustGetShortTermOrderTxBytes'')
       | Some b \<Rightarrow> Inr b)"

definition replay_op ::
  "(Order \<Rightarrow> OrderHash) \<Rightarrow> OperationsToPropose \<Rightarrow> InternalOperation
   \<Rightarrow> InternalOperation list \<times> (OrderHash, bytes) gomap \<Rightarrow> (InternalOperation list \<times> (OrderHash, bytes) gomap) res" where
  "replay_op hash s operation st =
     (case st of (operations, txBytes) \<Rightarrow>
      case operation of
        Op_ShortTermOrderPlacement order \<Rightarrow>
          (case gm_get (otp_ShortTermOrderHashToTxBytes s) (hash order) of
             None \<Rightarrow> Inl (Panic ''GetOperationsToReplay: does not exist'')
           | Some b \<Rightarrow>
               if length b = 0 then Inl (Panic ''GetOperationsToReplay: empty byte array'')
               else Inr (operations @ [operation], gm_set (hash order) b txBytes))
      | _ \<Rightarrow> Inr (operations @ [operation], txBytes))"

definition GetOperationsToReplay ::
  "(Order \<Rightarrow> OrderHash) \<Rightarrow> OperationsToPropose \<Rightarrow> (InternalOperation list \<times> (OrderHash, bytes) gomap) res" where
  "GetOperationsToReplay hash s = for_res (replay_op hash s) (otp_OperationsQueue s) ([], [])"

definition propose_op ::
  "(Order \<Rightarrow> OrderHash) \<Rightarrow> OperationsToPropose \<Rightarrow> InternalOperation \<Rightarrow> OperationRaw list \<Rightarrow> OperationRaw list res" where
  "propose_op hash s operation operationRaws =
     (case operation of
        Op_Match m \<Rightarrow> Inr (operationRaws @ [Raw_Match m])
      | Op_ShortTermOrderPlacement order \<Rightarrow>
          (case gm_get (otp_ShortTermOrderHashToTxBytes s) (hash order) of
             None \<Rightarrow> Inl (Panic ''GetOperationsToPropose'')
           | Some b \<Rightarrow> Inr (operationRaws @ [Raw_ShortTermOrderPlacement b]))
      | Op_PreexistingStatefulOrder orderId \<Rightarrow> Inr operationRaws
      | Op_OrderRemoval orderId removalReason \<Rightarrow> Inr (operationRaws @ [Raw_OrderRemoval orderId removalReason]))"

definition GetOperationsToPropose :: "(Order \<Rightarrow> OrderHash) \<Rightarrow> OperationsToPropose \<Rightarrow> OperationRaw list res" where
  "GetOperationsToPropose hash s = for_res (propose_op hash s) (otp_OperationsQueue s) []"

section \<open>Definitions: validation of proposed operations\<close>

definition validate_raw_basic :: "OperationRaw \<Rightarrow> unit res" where
  "validate_raw_basic rawOperation =
     (case rawOperation of
        Raw_OrderRemoval orderId removalReason \<Rightarrow>
          if OrderId_IsShortTermOrder orderId then Inl (Err ''ErrInvalidMsgProposedOperations'')
          else if removalReason = REMOVAL_REASON_UNSPECIFIED then Inl (Err ''ErrInvalidMsgProposedOperations'')
          else Inr ()
      | _ \<Rightarrow> Inr ())"

definition MsgProposedOperations_ValidateBasic :: "OperationRaw list \<Rightarrow> unit res" where
  "MsgProposedOperations_ValidateBasic ops = for_res (\<lambda>r _. validate_raw_basic r) ops ()"

text \<open>The messages of a transaction, as far as the decoder of order placements looks at them.\<close>

datatype sdk_msg = SM_PlaceOrder Order | SM_Other

definition decodeOperationRawShortTermOrderPlacementBytes ::
  "(bytes \<Rightarrow> 'tx res) \<Rightarrow> ('tx \<Rightarrow> unit res) \<Rightarrow> ('tx \<Rightarrow> sdk_msg list) \<Rightarrow> bytes \<Rightarrow> Order res" where
  "decodeOperationRawShortTermOrderPlacementBytes decoder anteHandler getMsgs b =
     bindr (decoder b) (\<lambda>tx.
     bindr (anteHandler tx) (\<lambda>_.
       case getMsgs tx of
         [SM_PlaceOrder order] \<Rightarrow> Inr order
       | [SM_Other] \<Rightarrow> Inl (Err ''expected MsgPlaceOrder'')
       | _ \<Rightarrow> Inl (Err ''expected 1 msg'')))"

type_synonym placed_orders = "(OrderId, Order) gomap"

definition verifyOrderPlacementInOperationsQueue :: "placed_orders \<Rightarrow> OrderId \<Rightarrow> unit res" where
  "verifyOrderPlacementInOperationsQueue ordersPlacedInBlock orderId =
     (if OrderId_IsShortTermOrder orderId \<and> gm_get ordersPlacedInBlock orderId = None
      then Inl (Err ''ErrOrderPlacementNotInOperationsQueue'') else Inr ())"

definition validate_fill ::
  "(string \<Rightarrow> 'a res) \<Rightarrow> placed_orders \<Rightarrow> MakerFill \<Rightarrow> OrderId list \<Rightarrow> OrderId list res" where
  "validate_fill fb placed fill makerOrderIdSet =
     (if mf_FillAmount fill = 0 then Inl (Err ''ErrFillAmountIsZero'')
      else bindr (OrderId_Validate fb (mf_MakerOrderId fill)) (\<lambda>_.
        if mf_MakerOrderId fill \<in> set makerOrderIdSet then Inl (Err ''ErrInvalidMatchOrder'')
        else bindr (verifyOrderPlacementInOperationsQueue placed (mf_MakerOrderId fill)) (\<lambda>_.
          Inr (mf_MakerOrderId fill # makerOrderIdSet))))"

definition validateMatchOrdersOperation :: "(string \<Rightarrow> 'a res) \<Rightarrow> placed_orders \<Rightarrow> MatchOrders \<Rightarrow> unit res" where
  "validateMatchOrdersOperation fb placed matchOrders =
     (if mo_Fills matchOrders = [] then Inl (Err ''ErrInvalidMatchOrder'')
      else bindr (for_res (validate_fill fb placed) (mo_Fills matchOrders) []) (\<lambda>_.
           bindr (OrderId_Validate fb (mo_TakerOrderId matchOrders)) (\<lambda>_.
           verifyOrderPlacementInOperationsQueue placed (mo_TakerOrderId matchOrders))))"

definition validate_liquidation_fill ::
  "(string \<Rightarrow> 'a res) \<Rightarrow> placed_orders \<Rightarrow> MakerFill \<Rightarrow> int \<Rightarrow> int res" where
  "validate_liquidation_fill fb placed fill bigQuantumsFilled =
     (if mf_FillAmount fill = 0 then Inl (Err ''ErrFillAmountIsZero'')
      else bindr (OrderId_Validate fb (mf_MakerOrderId fill)) (\<lambda>_.
           bindr (verifyOrderPlacementInOperationsQueue placed (mf_MakerOrderId fill)) (\<lambda>_.
             Inr (bigQuantumsFilled + uint (mf_FillAmount fill)))))"

definition validateMatchPerpetualLiquidationOperation ::
  "(string \<Rightarrow> 'a res) \<Rightarrow> placed_orders \<Rightarrow> MatchPerpetualLiquidation \<Rightarrow> unit res" where
  "validateMatchPerpetualLiquidationOperation fb placed liquidationMatch =
     (if mpl_Fills liquidationMatch = [] then Inl (Err ''ErrInvalidMatchOrder'')
      else if mpl_TotalSize liquidationMatch = 0 then Inl (Err ''ErrInvalidLiquidationOrderTotalSize'')
      else bindr (for_res (validate_liquidation_fill fb placed) (mpl_Fills liquidationMatch) 0) (\<lambda>bigQuantumsFilled.
           bindr (SubaccountId_Validate fb (mpl_Liquidated liquidationMatch)) (\<lambda>_.
             if uint (mpl_TotalSize liquidationMatch) < bigQuantumsFilled
             then Inl (Err ''ErrTotalFillAmountExceedsOrderSize'') else Inr ())))"

definition validate_deleveraging_fill ::
  "(string \<Rightarrow> 'a res) \<Rightarrow> SubaccountId \<Rightarrow> MatchPerpetualDeleveraging_Fill \<Rightarrow> SubaccountId list \<Rightarrow> SubaccountId list res" where
  "validate_deleveraging_fill fb liquidatedSubaccountId fill seen =
     bindr (SubaccountId_Validate fb (mdf_OffsettingSubaccountId fill)) (\<lambda>_.
       if mdf_OffsettingSubaccountId fill = liquidatedSubaccountId then Inl (Err ''ErrDeleveragingAgainstSelf'')
       else if mdf_OffsettingSubaccountId fill \<in> set seen then Inl (Err ''ErrDuplicateDeleveragingFillSubaccounts'')
       else if mdf_FillAmount fill = 0 then Inl (Err ''ErrZeroDeleveragingFillAmount'')
       else Inr (mdf_OffsettingSubaccountId fill # seen))"

definition MatchPerpetualDeleveraging_Validate :: "(string \<Rightarrow> 'a res) \<Rightarrow> MatchPerpetualDeleveraging \<Rightarrow> unit res" where
  "MatchPerpetualDeleveraging_Validate fb m =
     bindr (SubaccountId_Validate fb (mpd_Liquidated m)) (\<lambda>_.
     bindr (for_res (validate_deleveraging_fill fb (mpd_Liquidated m)) (mpd_Fills m) []) (\<lambda>_. Inr ()))"

definition validateMatchOperation :: "(string \<Rightarrow> 'a res) \<Rightarrow> placed_orders \<Rightarrow> ClobMatch \<Rightarrow> unit res" where
  "validateMatchOperation fb placed m =
     (case m of
        ClobMatch_MatchOrders matchOrders \<Rightarrow> validateMatchOrdersOperation fb placed matchOrders
      | ClobMatch_MatchPerpetualLiquidation l \<Rightarrow> validateMatchPerpetualLiquidationOperation fb placed l
      | ClobMatch_MatchPerpetualDeleveraging d \<Rightarrow> MatchPerpetualDeleveraging_Validate fb d)"

definition validateShortTermOrderPlacementOperation ::
  "(string \<Rightarrow> 'a res) \<Rightarrow> (Order \<Rightarrow> OrderHash) \<Rightarrow> placed_orders \<Rightarrow> Order \<Rightarrow> placed_orders res" where
  "validateShortTermOrderPlacementOperation fb hash ordersPlacedInBlock order =
     bindr (MsgPlaceOrder_ValidateBasic fb order) (\<lambda>_.
     bindr (case gm_get ordersPlacedInBlock (o_OrderId order) of
              None \<Rightarrow> Inr ()
            | Some prevOrder \<Rightarrow>
                bindr (MustCmpReplacementOrder hash prevOrder order) (\<lambda>c.
                  if c = 0 then Inl (Err ''ErrInvalidPlaceOrder'')
                  else if c \<noteq> -1 then Inl (Err ''ErrInvalidReplacement'') else Inr ())) (\<lambda>_.
     Inr (gm_set (o_OrderId order) order ordersPlacedInBlock)))"

definition transform_raw ::
  "(string \<Rightarrow> 'a res) \<Rightarrow> (Order \<Rightarrow> OrderHash) \<Rightarrow> (bytes \<Rightarrow> Order res) \<Rightarrow> OperationRaw
   \<Rightarrow> InternalOperation list \<times> placed_orders \<Rightarrow> (InternalOperation list \<times> placed_orders) res" where
  "transform_raw fb hash decode rawOperation st =
     (case st of (operations, placed) \<Rightarrow>
      case rawOperation of
        Raw_Match m \<Rightarrow>
          bindr (validateMatchOperation fb placed m) (\<lambda>_. Inr (operations @ [Op_Match m], placed))
      | Raw_ShortTermOrderPlacement b \<Rightarrow>
          bindr (decode b) (\<lambda>order.
          bindr (validateShortTermOrderPlacementOperation fb hash placed order) (\<lambda>placed'.
            Inr (operations @ [Op_ShortTermOrderPlacement order], placed')))
      | Raw_OrderRemoval orderId removalReason \<Rightarrow>
          bindr (OrderId_Validate fb orderId) (\<lambda>_.
            if removalReason = REMOVAL_REASON_UNSPECIFIED \<or> removalReason = REMOVAL_REASON_FULLY_FILLED
            then Inl (Err ''ErrInvalidOrderRemoval'')
            else Inr (operations @ [Op_OrderRemoval orderId removalReason], placed)))"

definition ValidateAndTransformRawOperations ::
  "(string \<Rightarrow> 'a res) \<Rightarrow> (Order \<Rightarrow> OrderHash) \<Rightarrow> (bytes \<Rightarrow> 'tx res) \<Rightarrow> ('tx \<Rightarrow> unit res) \<Rightarrow> ('tx \<Rightarrow> sdk_msg list)
   \<Rightarrow> OperationRaw list \<Rightarrow> InternalOperation list res" where
  "ValidateAndTransformRawOperations fb hash decoder anteHandler getMsgs rawOperations =
     bindr (for_res (transform_raw fb hash (decodeOperationRawShortTermOrderPlacementBytes decoder anteHandler getMsgs))
              rawOperations ([], [])) (\<lambda>st. Inr (fst st))"

section \<open>The states of the operations queue\<close>

text \<open>
  One step of the memclob on its operations queue. A match is added with the orders it refers to, so
  the order id of every maker fill is that of the order it comes with.
\<close>

inductive otp_step :: "(Order \<Rightarrow> OrderHash) \<Rightarrow> OperationsToPropose \<Rightarrow> OperationsToPropose \<Rightarrow> bool"
  for hash :: "Order \<Rightarrow> OrderHash" where
  add_tx_bytes: "MustAddShortTermOrderTxBytes hash order b s = (Inr (), s') \<Longrightarrow> otp_step hash s s'"
| add_short_term: "MustAddShortTermOrderPlacementToOperationsQueue hash order s = (Inr (), s') \<Longrightarrow> otp_step hash s s'"
| remove_tx_bytes: "RemoveShortTermOrderTxBytes hash order s = (Inr (), s') \<Longrightarrow> otp_step hash s s'"
| add_stateful: "MustAddStatefulOrderPlacementToOperationsQueue hash order s = (Inr (), s') \<Longrightarrow> otp_step hash s s'"
| add_match: "MustAddMatchToOperationsQueue hash taker fills s = (Inr op, s') \<Longrightarrow>
    \<forall>f \<in> set fills. mf_MakerOrderId (mfo_MakerFill f) = o_OrderId (mfo_Order f) \<Longrightarrow> otp_step hash s s'"
| add_zero_fill: "otp_step hash s (AddZeroFillDeleveragingToOperationsQueue liquidated perpetualId s)"
| add_deleveraging: "MustAddDeleveragingToOperationsQueue liquidated perpetualId dfills final s = (Inr (), s') \<Longrightarrow>
    otp_step hash s s'"
| add_removal: "MustAddOrderRemovalToOperationsQueue orderId reason s = (Inr (), s') \<Longrightarrow> otp_step hash s s'"
| clear: "otp_step hash s (ClearOperationsQueue s)"

inductive otp_reachable :: "(Order \<Rightarrow> OrderHash) \<Rightarrow> OperationsToPropose \<Rightarrow> bool"
  for hash :: "Order \<Rightarrow> OrderHash" where
  new: "otp_reachable hash NewOperationsToPropose"
| step: "otp_reachable hash s \<Longrightarrow> otp_step hash s s' \<Longrightarrow> otp_reachable hash s'"

text \<open>The short-term order placements and the order removals of a queue.\<close>

definition op_placed :: "InternalOperation \<Rightarrow> Order list" where
  "op_placed op = (case op of Op_ShortTermOrderPlacement order \<Rightarrow> [order] | _ \<Rightarrow> [])"

definition op_removed :: "InternalOperation \<Rightarrow> OrderId list" where
  "op_removed op = (case op of Op_OrderRemoval orderId reason \<Rightarrow> [orderId] | _ \<Rightarrow> [])"

abbreviation placed_of :: "InternalOperation list \<Rightarrow> Order list" where
  "placed_of q \<equiv> concat (map op_placed q)"

abbreviation removed_of :: "InternalOperation list \<Rightarrow> OrderId list" where
  "removed_of q \<equiv> concat (map op_removed q)"

text \<open>The order ids a match refers to, those of stateful orders apart, must have been placed by then.\<close>

definition op_refs :: "InternalOperation \<Rightarrow> OrderId set" where
  "op_refs op = (case op of Op_Match m \<Rightarrow> {i \<in> GetAllOrderIds m. \<not> OrderId_IsStatefulOrder i} | _ \<Rightarrow> {})"

fun refs_placed :: "OrderId set \<Rightarrow> InternalOperation list \<Rightarrow> bool" where
  "refs_placed P [] \<longleftrightarrow> True"
| "refs_placed P (op # q) \<longleftrightarrow> op_refs op \<subseteq> P \<and> refs_placed (P \<union> o_OrderId ` set (op_placed op)) q"

definition hashes_known :: "(Order \<Rightarrow> OrderHash) \<Rightarrow> OperationsToPropose \<Rightarrow> bool" where
  "hashes_known hash s \<longleftrightarrow>
     (\<forall>h. gm_get (otp_OrderHashesInOperationsQueue s) h \<noteq> None \<longrightarrow>
        h \<in> hash ` (set (placed_of (otp_OperationsQueue s)) \<union> Collect Order_IsStatefulOrder))"

definition otp_inv :: "(Order \<Rightarrow> OrderHash) \<Rightarrow> OperationsToPropose \<Rightarrow> bool" where
  "otp_inv hash s \<longleftrightarrow>
     (\<forall>h b. gm_get (otp_ShortTermOrderHashToTxBytes s) h = Some b \<longrightarrow> b \<noteq> []) \<and>
     (\<forall>order \<in> set (placed_of (otp_OperationsQueue s)).
        \<not> Order_IsStatefulOrder order \<and> gm_get (otp_OrderHashesInOperationsQueue s) (hash order) \<noteq> None \<and>
        gm_get (otp_ShortTermOrderHashToTxBytes s) (hash order) \<noteq> None) \<and>
     distinct (map hash (placed_of (otp_OperationsQueue s))) \<and>
     hashes_known hash s \<and>
     distinct (removed_of (otp_OperationsQueue s)) \<and>
     (\<forall>i. i \<in> set (removed_of (otp_OperationsQueue s)) \<longleftrightarrow> gm_get (otp_OrderRemovalsInOperationsQueue s) i \<noteq> None) \<and>
     (\<forall>i reason. Op_OrderRemoval i reason \<in> set (otp_OperationsQueue s) \<longrightarrow>
        OrderId_IsStatefulOrder i \<and> reason \<noteq> REMOVAL_REASON_UNSPECIFIED) \<and>
     refs_placed {} (otp_OperationsQueue s)"

lemma refs_placed_append:
  "refs_placed P (xs @ ys) \<longleftrightarrow> refs_placed P xs \<and> refs_placed (P \<union> o_OrderId ` set (placed_of xs)) ys"
  by (induction xs arbitrary: P) (simp_all add: Un_assoc image_Un)

lemma panic_if_Inr [step_simps]: "panic_if c n s = (Inr x, s') \<longleftrightarrow> \<not> c s \<and> s' = s"
  by (auto simp: panic_if_def liftM_def)

lemmas otp_op_defs =
  MustAddShortTermOrderTxBytes_def MustAddShortTermOrderPlacementToOperationsQueue_def RemoveShortTermOrderTxBytes_def
  MustAddStatefulOrderPlacementToOperationsQueue_def MustAddMatchToOperationsQueue_def
  AddZeroFillDeleveragingToOperationsQueue_def MustAddDeleveragingToOperationsQueue_def
  MustAddOrderRemovalToOperationsQueue_def ClearOperationsQueue_def appendOp_def
  NewShortTermOrderPlacementInternalOperation_def NewPreexistingStatefulOrderPlacementInternalOperation_def
  NewMatchOrdersInternalOperation_def NewMatchPerpetualLiquidationInternalOperation_def
  NewMatchPerpetualDeleveragingInternalOperation_def NewOrderRemovalInternalOperation_def
  OrderId_MustBeShortTermOrder_def OrderId_MustBeStatefulOrder_def

text \<open>
  What the operations rely on of \<^verbatim>\<open>Order.GetOrderHash\<close>, a SHA-256 digest of the encoded order: orders with
  one hash have one order id.
\<close>

definition hash_identifies :: "(Order \<Rightarrow> OrderHash) \<Rightarrow> bool" where
  "hash_identifies hash \<longleftrightarrow> (\<forall>x y. hash x = hash y \<longrightarrow> o_OrderId x = o_OrderId y)"

lemma placed_ref:
  assumes "hash_identifies hash" "otp_inv hash s" "IsOrderPlacementInOperationsQueue hash s order"
    and "\<not> OrderId_IsStatefulOrder (o_OrderId order)"
  shows "o_OrderId order \<in> o_OrderId ` set (placed_of (otp_OperationsQueue s))"
proof -
  have "hashes_known hash s" using assms(2) by (simp add: otp_inv_def)
  with assms(3) have "hash order \<in> hash ` (set (placed_of (otp_OperationsQueue s)) \<union> Collect Order_IsStatefulOrder)"
    unfolding hashes_known_def IsOrderPlacementInOperationsQueue_def by blast
  then obtain order' where h: "hash order' = hash order"
    and c: "order' \<in> set (placed_of (otp_OperationsQueue s)) \<union> Collect Order_IsStatefulOrder"
    by (metis imageE)
  from h assms(1) have i: "o_OrderId order' = o_OrderId order"
    unfolding hash_identifies_def by blast
  with assms(4) have "\<not> Order_IsStatefulOrder order'"
    by (simp add: Order_IsStatefulOrder_def)
  with c have "order' \<in> set (placed_of (otp_OperationsQueue s))" by blast
  with i show ?thesis by (metis image_eqI)
qed

lemma otp_inv_new: "otp_inv hash NewOperationsToPropose"
  by (simp add: otp_inv_def hashes_known_def NewOperationsToPropose_def)

lemma match_refs:
  assumes "MustAddMatchToOperationsQueue hash taker fills s = (Inr op, s')"
    and "\<forall>f \<in> set fills. mf_MakerOrderId (mfo_MakerFill f) = o_OrderId (mfo_Order f)"
    and "hash_identifies hash" "otp_inv hash s"
  shows "op_refs op \<subseteq> o_OrderId ` set (placed_of (otp_OperationsQueue s))" "s' = appendOp op s" "\<exists>m. op = Op_Match m"
proof -
  have "\<exists>orders. (\<forall>order \<in> set orders. IsOrderPlacementInOperationsQueue hash s order) \<and> s' = appendOp op s \<and>
    (\<exists>m. op = Op_Match m \<and> GetAllOrderIds m \<subseteq> o_OrderId ` set orders)"
  proof (cases taker)
    case (MO_Order order)
    with assms(1,2) show ?thesis
      by (intro exI[where x = "map mfo_Order fills @ [order]"])
        (auto simp: MustAddMatchToOperationsQueue_def NewMatchOrdersInternalOperation_def step_simps res_simps Let_def
          GetAllOrderIds_def split: if_splits)
  next
    case (MO_Liquidation lo)
    with assms(1,2) show ?thesis
      by (intro exI[where x = "map mfo_Order fills"])
        (auto simp: MustAddMatchToOperationsQueue_def NewMatchPerpetualLiquidationInternalOperation_def step_simps
          res_simps Let_def GetAllOrderIds_def split: if_splits)
  qed
  then obtain orders where
    o: "\<forall>order \<in> set orders. IsOrderPlacementInOperationsQueue hash s order"
    and s': "s' = appendOp op s"
    and op: "\<exists>m. op = Op_Match m \<and> GetAllOrderIds m \<subseteq> o_OrderId ` set orders"
    by blast
  show "s' = appendOp op s" by (rule s')
  from op obtain m where m: "op = Op_Match m" "GetAllOrderIds m \<subseteq> o_OrderId ` set orders" by blast
  show "\<exists>m. op = Op_Match m" using m(1) by blast
  show "op_refs op \<subseteq> o_OrderId ` set (placed_of (otp_OperationsQueue s))"
  proof
    fix i assume "i \<in> op_refs op"
    with m obtain order where "order \<in> set orders" "i = o_OrderId order" "\<not> OrderId_IsStatefulOrder i"
      by (auto simp: op_refs_def)
    with o show "i \<in> o_OrderId ` set (placed_of (otp_OperationsQueue s))"
      using placed_ref[OF assms(3,4)] by simp
  qed
qed

lemma otp_inv_append_other:
  assumes "otp_inv hash s" "op_placed op = []" "op_removed op = []"
    and "op_refs op \<subseteq> o_OrderId ` set (placed_of (otp_OperationsQueue s))"
  shows "otp_inv hash (appendOp op s)"
proof -
  have "\<And>i r. op \<noteq> Op_OrderRemoval i r" using assms(3) by (auto simp: op_removed_def)
  with assms show ?thesis
    by (auto simp: otp_inv_def hashes_known_def appendOp_def refs_placed_append)
qed

lemma otp_inv_step:
  assumes "otp_step hash s s'" "otp_inv hash s" "hash_identifies hash"
  shows "otp_inv hash s'"
  using assms
proof (induction rule: otp_step.induct)
  case (add_tx_bytes order b s s')
  then show ?case
    by (auto simp: otp_inv_def hashes_known_def otp_op_defs step_simps res_simps split: if_splits)
next
  case (add_short_term order s s')
  then have s': "s' = (appendOp (Op_ShortTermOrderPlacement order) s)
      \<lparr>otp_OrderHashesInOperationsQueue := gm_set (hash order) True (otp_OrderHashesInOperationsQueue s)\<rparr>"
    and new: "gm_get (otp_OrderHashesInOperationsQueue s) (hash order) = None"
    and tx: "gm_get (otp_ShortTermOrderHashToTxBytes s) (hash order) \<noteq> None"
    and st: "\<not> Order_IsStatefulOrder order"
    by (auto simp: otp_op_defs step_simps res_simps IsOrderPlacementInOperationsQueue_def Order_IsStatefulOrder_def
        split: if_splits)
  have "hash order \<notin> hash ` set (placed_of (otp_OperationsQueue s))"
    using new \<open>otp_inv hash s\<close> by (force simp: otp_inv_def)
  with new tx st \<open>otp_inv hash s\<close> show ?case
    by (auto simp: s' otp_inv_def hashes_known_def appendOp_def refs_placed_append op_placed_def op_removed_def op_refs_def)
next
  case (remove_tx_bytes order s s')
  then have s': "s' = s\<lparr>otp_ShortTermOrderHashToTxBytes := gm_del (hash order) (otp_ShortTermOrderHashToTxBytes s)\<rparr>"
    and absent: "gm_get (otp_OrderHashesInOperationsQueue s) (hash order) = None"
    by (auto simp: otp_op_defs step_simps res_simps IsOrderPlacementInOperationsQueue_def split: if_splits)
  have "\<forall>order' \<in> set (placed_of (otp_OperationsQueue s)). hash order' \<noteq> hash order"
    using absent \<open>otp_inv hash s\<close> by (force simp: otp_inv_def)
  with \<open>otp_inv hash s\<close> show ?case
    by (auto simp: s' otp_inv_def hashes_known_def)
next
  case (add_stateful order s s')
  then have s': "s' = (appendOp (Op_PreexistingStatefulOrder (o_OrderId order)) s)
      \<lparr>otp_OrderHashesInOperationsQueue := gm_set (hash order) True (otp_OrderHashesInOperationsQueue s)\<rparr>"
    and st: "Order_IsStatefulOrder order"
    by (auto simp: otp_op_defs step_simps res_simps Order_IsStatefulOrder_def split: if_splits)
  with \<open>otp_inv hash s\<close> show ?case
    by (auto simp: s' otp_inv_def hashes_known_def appendOp_def refs_placed_append op_placed_def op_removed_def op_refs_def)
next
  case (add_match taker fills s op s')
  from add_match.hyps add_match.prems have m: "op_refs op \<subseteq> o_OrderId ` set (placed_of (otp_OperationsQueue s))"
    "s' = appendOp op s" "\<exists>m. op = Op_Match m"
    using match_refs[OF add_match.hyps] by auto
  then show ?case
    using add_match.prems by (auto simp: op_placed_def op_removed_def intro!: otp_inv_append_other)
next
  case (add_zero_fill s liquidated perpetualId)
  then show ?case
    unfolding AddZeroFillDeleveragingToOperationsQueue_def
    by (intro otp_inv_append_other)
      (auto simp: NewMatchPerpetualDeleveragingInternalOperation_def op_placed_def op_removed_def op_refs_def
        GetAllOrderIds_def)
next
  case (add_deleveraging liquidated perpetualId dfills final s s')
  then have "s' = appendOp (NewMatchPerpetualDeleveragingInternalOperation liquidated perpetualId dfills final) s"
    by (auto simp: MustAddDeleveragingToOperationsQueue_def step_simps)
  then show ?case
    using add_deleveraging.prems
    by (auto simp: NewMatchPerpetualDeleveragingInternalOperation_def op_placed_def op_removed_def op_refs_def
        GetAllOrderIds_def intro!: otp_inv_append_other)
next
  case (add_removal orderId reason s s')
  then have s': "s' = (appendOp (Op_OrderRemoval orderId reason) s)
      \<lparr>otp_OrderRemovalsInOperationsQueue := gm_set orderId True (otp_OrderRemovalsInOperationsQueue s)\<rparr>"
    and c: "gm_get (otp_OrderRemovalsInOperationsQueue s) orderId = None" "OrderId_IsStatefulOrder orderId"
      "reason \<noteq> REMOVAL_REASON_UNSPECIFIED"
    by (auto simp: otp_op_defs step_simps res_simps IsOrderRemovalInOperationsQueue_def split: if_splits)
  have "orderId \<notin> set (removed_of (otp_OperationsQueue s))"
    using c(1) \<open>otp_inv hash s\<close> unfolding otp_inv_def by blast
  with c \<open>otp_inv hash s\<close> show ?case
    by (auto simp: s' otp_inv_def hashes_known_def appendOp_def refs_placed_append op_placed_def op_removed_def op_refs_def)
next
  case (clear s)
  then show ?case by (auto simp: otp_inv_def hashes_known_def ClearOperationsQueue_def)
qed

lemma otp_inv_reachable: "otp_reachable hash s \<Longrightarrow> hash_identifies hash \<Longrightarrow> otp_inv hash s"
  by (induction rule: otp_reachable.induct) (auto intro: otp_inv_new otp_inv_step)

section \<open>Proposals and replays\<close>

definition op_raw :: "(Order \<Rightarrow> OrderHash) \<Rightarrow> OperationsToPropose \<Rightarrow> InternalOperation \<Rightarrow> OperationRaw list" where
  "op_raw hash s op =
     (case op of
        Op_Match m \<Rightarrow> [Raw_Match m]
      | Op_ShortTermOrderPlacement order \<Rightarrow>
          [Raw_ShortTermOrderPlacement (the (gm_get (otp_ShortTermOrderHashToTxBytes s) (hash order)))]
      | Op_PreexistingStatefulOrder orderId \<Rightarrow> []
      | Op_OrderRemoval orderId reason \<Rightarrow> [Raw_OrderRemoval orderId reason])"

definition op_proposed :: "InternalOperation \<Rightarrow> bool" where
  "op_proposed op = (case op of Op_PreexistingStatefulOrder orderId \<Rightarrow> False | _ \<Rightarrow> True)"

lemma op_cases [simp]:
  "op_raw hash s (Op_Match m) = [Raw_Match m]"
  "op_raw hash s (Op_ShortTermOrderPlacement order) =
     [Raw_ShortTermOrderPlacement (the (gm_get (otp_ShortTermOrderHashToTxBytes s) (hash order)))]"
  "op_raw hash s (Op_PreexistingStatefulOrder i) = []"
  "op_raw hash s (Op_OrderRemoval i reason) = [Raw_OrderRemoval i reason]"
  "op_placed (Op_Match m) = []" "op_placed (Op_ShortTermOrderPlacement order) = [order]"
  "op_placed (Op_PreexistingStatefulOrder i) = []" "op_placed (Op_OrderRemoval i reason) = []"
  "op_proposed (Op_Match m)" "op_proposed (Op_ShortTermOrderPlacement order)"
  "\<not> op_proposed (Op_PreexistingStatefulOrder i)" "op_proposed (Op_OrderRemoval i reason)"
  by (simp_all add: op_raw_def op_placed_def op_proposed_def)

lemma propose_ops:
  assumes "\<forall>order \<in> set (placed_of q). gm_get (otp_ShortTermOrderHashToTxBytes s) (hash order) \<noteq> None"
  shows "for_res (propose_op hash s) q acc = Inr (acc @ concat (map (op_raw hash s) q))"
  using assms
proof (induction q arbitrary: acc)
  case (Cons op q)
  then have "propose_op hash s op acc = Inr (acc @ op_raw hash s op)"
    by (cases op) (auto simp: propose_op_def op_raw_def op_placed_def)
  with Cons show ?case by simp
qed simp

lemma propose_reachable:
  assumes "otp_inv hash s"
  shows "GetOperationsToPropose hash s = Inr (concat (map (op_raw hash s) (otp_OperationsQueue s)))"
  unfolding GetOperationsToPropose_def using assms by (subst propose_ops) (auto simp: otp_inv_def)

lemma replay_ops:
  assumes "\<forall>order \<in> set (placed_of q). \<exists>b. gm_get (otp_ShortTermOrderHashToTxBytes s) (hash order) = Some b \<and> b \<noteq> []"
    and "\<forall>h. gm_get m h \<noteq> None \<longrightarrow> gm_get m h = gm_get (otp_ShortTermOrderHashToTxBytes s) h"
  shows "\<exists>m'. for_res (replay_op hash s) q (acc, m) = Inr (acc @ q, m') \<and>
     (\<forall>h. gm_get m' h = (if h \<in> hash ` set (placed_of q) then gm_get (otp_ShortTermOrderHashToTxBytes s) h else gm_get m h))"
  using assms
proof (induction q arbitrary: acc m)
  case (Cons op q)
  then obtain b where "op_placed op \<noteq> [] \<Longrightarrow> gm_get (otp_ShortTermOrderHashToTxBytes s) (hash (hd (op_placed op))) = Some b \<and> b \<noteq> []"
    by (cases op) (auto simp: op_placed_def)
  then obtain m1 where m1: "replay_op hash s op (acc, m) = Inr (acc @ [op], m1)"
    and g: "\<forall>h. gm_get m1 h = (if h \<in> hash ` set (op_placed op) then gm_get (otp_ShortTermOrderHashToTxBytes s) h else gm_get m h)"
    by (cases op) (auto simp: replay_op_def op_placed_def)
  have "\<forall>h. gm_get m1 h \<noteq> None \<longrightarrow> gm_get m1 h = gm_get (otp_ShortTermOrderHashToTxBytes s) h"
    using g Cons.prems(2) by auto
  from Cons.IH[OF _ this, of "acc @ [op]"] Cons.prems(1) obtain m' where
    "for_res (replay_op hash s) q (acc @ [op], m1) = Inr ((acc @ [op]) @ q, m')"
    "\<forall>h. gm_get m' h = (if h \<in> hash ` set (placed_of q) then gm_get (otp_ShortTermOrderHashToTxBytes s) h else gm_get m1 h)"
    by auto
  with m1 g show ?case by (intro exI[where x = m']) (simp add: image_Un)
qed simp

text \<open>The conditions on the operations themselves under which a node accepts them.\<close>

definition fill_valid :: "(string \<Rightarrow> 'a res) \<Rightarrow> MakerFill \<Rightarrow> bool" where
  "fill_valid fb fill \<longleftrightarrow> mf_FillAmount fill \<noteq> 0 \<and> OrderId_Validate fb (mf_MakerOrderId fill) = Inr ()"

definition match_valid :: "(string \<Rightarrow> 'a res) \<Rightarrow> ClobMatch \<Rightarrow> bool" where
  "match_valid fb clobMatch =
     (case clobMatch of
        ClobMatch_MatchOrders m \<Rightarrow>
          mo_Fills m \<noteq> [] \<and> (\<forall>fill \<in> set (mo_Fills m). fill_valid fb fill) \<and>
          distinct (map mf_MakerOrderId (mo_Fills m)) \<and> OrderId_Validate fb (mo_TakerOrderId m) = Inr ()
      | ClobMatch_MatchPerpetualLiquidation m \<Rightarrow>
          mpl_Fills m \<noteq> [] \<and> mpl_TotalSize m \<noteq> 0 \<and> (\<forall>fill \<in> set (mpl_Fills m). fill_valid fb fill) \<and>
          SubaccountId_Validate fb (mpl_Liquidated m) = Inr () \<and>
          (\<Sum>fill \<leftarrow> mpl_Fills m. uint (mf_FillAmount fill)) \<le> uint (mpl_TotalSize m)
      | ClobMatch_MatchPerpetualDeleveraging m \<Rightarrow>
          SubaccountId_Validate fb (mpd_Liquidated m) = Inr () \<and>
          distinct (map mdf_OffsettingSubaccountId (mpd_Fills m)) \<and>
          (\<forall>fill \<in> set (mpd_Fills m). SubaccountId_Validate fb (mdf_OffsettingSubaccountId fill) = Inr () \<and>
             mdf_OffsettingSubaccountId fill \<noteq> mpd_Liquidated m \<and> mdf_FillAmount fill \<noteq> 0))"

definition op_valid :: "(string \<Rightarrow> 'a res) \<Rightarrow> InternalOperation \<Rightarrow> bool" where
  "op_valid fb op =
     (case op of
        Op_ShortTermOrderPlacement order \<Rightarrow> MsgPlaceOrder_ValidateBasic fb order = Inr ()
      | Op_PreexistingStatefulOrder orderId \<Rightarrow> True
      | Op_Match m \<Rightarrow> match_valid fb m
      | Op_OrderRemoval orderId reason \<Rightarrow>
          OrderId_Validate fb orderId = Inr () \<and> reason \<noteq> REMOVAL_REASON_FULLY_FILLED)"

text \<open>An order placed again in one queue replaces the earlier placement of its order id.\<close>

fun replacements_ordered :: "(Order \<Rightarrow> OrderHash) \<Rightarrow> placed_orders \<Rightarrow> Order list \<Rightarrow> bool" where
  "replacements_ordered hash placed [] \<longleftrightarrow> True"
| "replacements_ordered hash placed (order # orders) \<longleftrightarrow>
     (case gm_get placed (o_OrderId order) of
        None \<Rightarrow> True
      | Some prevOrder \<Rightarrow> MustCmpReplacementOrder hash prevOrder order = Inr (-1)) \<and>
     replacements_ordered hash (gm_set (o_OrderId order) order placed) orders"

lemma verify_placed:
  assumes "{i. i = orderId \<and> \<not> OrderId_IsStatefulOrder i} \<subseteq> K" "\<forall>i \<in> K. gm_get placed i \<noteq> None"
  shows "verifyOrderPlacementInOperationsQueue placed orderId = Inr ()"
  using assms stateful_not_short_term by (auto simp: verifyOrderPlacementInOperationsQueue_def)

lemma validate_fills:
  assumes "\<forall>fill \<in> set fills. fill_valid fb fill \<and> verifyOrderPlacementInOperationsQueue placed (mf_MakerOrderId fill) = Inr ()"
    and "distinct (map mf_MakerOrderId fills)" "mf_MakerOrderId ` set fills \<inter> set seen = {}"
  shows "\<exists>r. for_res (validate_fill fb placed) fills seen = Inr r"
  using assms by (induction fills arbitrary: seen) (auto simp: validate_fill_def fill_valid_def res_simps)

lemma validate_liquidation_fills:
  assumes "\<forall>fill \<in> set fills. fill_valid fb fill \<and> verifyOrderPlacementInOperationsQueue placed (mf_MakerOrderId fill) = Inr ()"
  shows "for_res (validate_liquidation_fill fb placed) fills acc = Inr (acc + (\<Sum>fill \<leftarrow> fills. uint (mf_FillAmount fill)))"
  using assms by (induction fills arbitrary: acc) (auto simp: validate_liquidation_fill_def fill_valid_def res_simps add.assoc)

lemma validate_deleveraging_fills:
  assumes "\<forall>fill \<in> set fills. SubaccountId_Validate fb (mdf_OffsettingSubaccountId fill) = Inr () \<and>
      mdf_OffsettingSubaccountId fill \<noteq> liq \<and> mdf_FillAmount fill \<noteq> 0"
    and "distinct (map mdf_OffsettingSubaccountId fills)" "mdf_OffsettingSubaccountId ` set fills \<inter> set seen = {}"
  shows "\<exists>r. for_res (validate_deleveraging_fill fb liq) fills seen = Inr r"
  using assms by (induction fills arbitrary: seen) (auto simp: validate_deleveraging_fill_def res_simps)

lemma validate_match_valid:
  assumes "match_valid fb m" "op_refs (Op_Match m) \<subseteq> K" "\<forall>i \<in> K. gm_get placed i \<noteq> None"
  shows "validateMatchOperation fb placed m = Inr ()"
proof (cases m)
  case (ClobMatch_MatchOrders x)
  then have v: "verifyOrderPlacementInOperationsQueue placed i = Inr ()"
    if "i = mo_TakerOrderId x \<or> i \<in> mf_MakerOrderId ` set (mo_Fills x)" for i
    using assms(2,3) that by (intro verify_placed[of _ K]) (auto simp: op_refs_def GetAllOrderIds_def)
  from assms(1) ClobMatch_MatchOrders v have "\<exists>r. for_res (validate_fill fb placed) (mo_Fills x) [] = Inr r"
    by (intro validate_fills) (auto simp: match_valid_def)
  with assms(1) ClobMatch_MatchOrders v show ?thesis
    by (auto simp: validateMatchOperation_def validateMatchOrdersOperation_def match_valid_def)
next
  case (ClobMatch_MatchPerpetualLiquidation x)
  then have v: "verifyOrderPlacementInOperationsQueue placed i = Inr ()" if "i \<in> mf_MakerOrderId ` set (mpl_Fills x)" for i
    using assms(2,3) that by (intro verify_placed[of _ K]) (auto simp: op_refs_def GetAllOrderIds_def)
  from assms(1) ClobMatch_MatchPerpetualLiquidation v show ?thesis
    by (auto simp: validateMatchOperation_def validateMatchPerpetualLiquidationOperation_def match_valid_def
        validate_liquidation_fills)
next
  case (ClobMatch_MatchPerpetualDeleveraging x)
  with assms(1) have "\<exists>r. for_res (validate_deleveraging_fill fb (mpd_Liquidated x)) (mpd_Fills x) [] = Inr r"
    by (intro validate_deleveraging_fills) (auto simp: match_valid_def)
  with assms(1) ClobMatch_MatchPerpetualDeleveraging show ?thesis
    by (auto simp: validateMatchOperation_def MatchPerpetualDeleveraging_Validate_def match_valid_def)
qed

lemma validate_placement:
  assumes "MsgPlaceOrder_ValidateBasic fb order = Inr ()" "replacements_ordered hash placed [order]"
  shows "validateShortTermOrderPlacementOperation fb hash placed order = Inr (gm_set (o_OrderId order) order placed)"
  using assms by (auto simp: validateShortTermOrderPlacementOperation_def res_simps
      split: option.splits)

lemma transform_ops:
  assumes "\<forall>op \<in> set q. op_valid fb op"
    and "\<forall>i reason. Op_OrderRemoval i reason \<in> set q \<longrightarrow> reason \<noteq> REMOVAL_REASON_UNSPECIFIED"
    and "replacements_ordered hash placed (placed_of q)"
    and "refs_placed K q" "\<forall>i \<in> K. gm_get placed i \<noteq> None"
    and "\<forall>order \<in> set (placed_of q). decode (the (gm_get (otp_ShortTermOrderHashToTxBytes s) (hash order))) = Inr order"
  shows "\<exists>placed'. for_res (transform_raw fb hash decode) (concat (map (op_raw hash s) q)) (acc, placed) =
    Inr (acc @ filter op_proposed q, placed')"
  using assms
proof (induction q arbitrary: acc placed K)
  case (Cons op q)
  show ?case
  proof (cases op)
    case (Op_ShortTermOrderPlacement order)
    let ?placed = "gm_set (o_OrderId order) order placed"
    have "validateShortTermOrderPlacementOperation fb hash placed order = Inr ?placed"
      using Cons.prems(1,3) Op_ShortTermOrderPlacement
      by (intro validate_placement) (auto simp: op_valid_def)
    then have "transform_raw fb hash decode (Raw_ShortTermOrderPlacement
        (the (gm_get (otp_ShortTermOrderHashToTxBytes s) (hash order)))) (acc, placed) = Inr (acc @ [op], ?placed)"
      using Cons.prems(6) Op_ShortTermOrderPlacement by (simp add: transform_raw_def)
    moreover have "\<exists>placed'. for_res (transform_raw fb hash decode) (concat (map (op_raw hash s) q)) (acc @ [op], ?placed) =
        Inr ((acc @ [op]) @ filter op_proposed q, placed')"
      using Cons.prems Op_ShortTermOrderPlacement
      by (intro Cons.IH[of ?placed "K \<union> {o_OrderId order}"]) auto
    ultimately show ?thesis
      using Op_ShortTermOrderPlacement by simp
  next
    case (Op_PreexistingStatefulOrder i)
    with Cons.prems show ?thesis
      using Cons.IH[of placed K acc] by simp
  next
    case (Op_Match m)
    have "validateMatchOperation fb placed m = Inr ()"
      using Cons.prems Op_Match by (intro validate_match_valid[of _ _ K]) (auto simp: op_valid_def)
    then have "transform_raw fb hash decode (Raw_Match m) (acc, placed) = Inr (acc @ [op], placed)"
      using Op_Match by (simp add: transform_raw_def)
    with Cons.prems Op_Match show ?thesis
      using Cons.IH[of placed K "acc @ [op]"] by simp
  next
    case (Op_OrderRemoval i reason)
    with Cons.prems have "transform_raw fb hash decode (Raw_OrderRemoval i reason) (acc, placed) = Inr (acc @ [op], placed)"
      by (auto simp: transform_raw_def op_valid_def)
    with Cons.prems Op_OrderRemoval show ?thesis
      using Cons.IH[of placed K "acc @ [op]"] by auto
  qed
qed simp

section \<open>Queues of accepted messages\<close>

text \<open>
  What the memclob feeds its operations queue: transaction bytes are those of a valid order message that
  decodes to the order; an order placed again replaces the earlier placements of its id; stateful orders
  and liquidated accounts have valid ids; the fills of a match are positive and of distinct makers, those
  of a liquidation within its size; removals have a proper reason. \<open>received\<close> holds the short-term orders received.
\<close>

definition replaces_placed :: "(Order \<Rightarrow> OrderHash) \<Rightarrow> OperationsToPropose \<Rightarrow> Order \<Rightarrow> bool" where
  "replaces_placed hash s order \<longleftrightarrow>
     (\<forall>prev \<in> set (placed_of (otp_OperationsQueue s)). o_OrderId prev = o_OrderId order \<longrightarrow>
        MustCmpReplacementOrder hash prev order = Inr (-1))"

definition match_input :: "(string \<Rightarrow> 'a res) \<Rightarrow> MatchableOrder \<Rightarrow> MakerFillWithOrder list \<Rightarrow> bool" where
  "match_input fb taker fills \<longleftrightarrow>
     (\<forall>f \<in> set fills. mf_MakerOrderId (mfo_MakerFill f) = o_OrderId (mfo_Order f) \<and> mf_FillAmount (mfo_MakerFill f) \<noteq> 0) \<and>
     distinct (map (\<lambda>f. mf_MakerOrderId (mfo_MakerFill f)) fills) \<and>
     (mo_IsLiquidation taker \<longrightarrow> mo_GetBaseQuantums taker \<noteq> 0 \<and>
        SubaccountId_Validate fb (mo_GetSubaccountId taker) = Inr () \<and>
        (\<Sum>f \<leftarrow> fills. uint (mf_FillAmount (mfo_MakerFill f))) \<le> uint (mo_GetBaseQuantums taker))"

inductive otp_accepted ::
  "(string \<Rightarrow> 'a res) \<Rightarrow> (bytes \<Rightarrow> Order res) \<Rightarrow> (Order \<Rightarrow> OrderHash) \<Rightarrow> Order set \<Rightarrow> OperationsToPropose \<Rightarrow> bool"
  for fb decode hash received where
  new: "otp_accepted fb decode hash received NewOperationsToPropose"
| add_tx_bytes: "otp_accepted fb decode hash received s \<Longrightarrow> order \<in> received \<Longrightarrow>
    MsgPlaceOrder_ValidateBasic fb order = Inr () \<Longrightarrow> decode b = Inr order \<Longrightarrow>
    MustAddShortTermOrderTxBytes hash order b s = (Inr (), s') \<Longrightarrow> otp_accepted fb decode hash received s'"
| add_short_term: "otp_accepted fb decode hash received s \<Longrightarrow> order \<in> received \<Longrightarrow> replaces_placed hash s order \<Longrightarrow>
    MustAddShortTermOrderPlacementToOperationsQueue hash order s = (Inr (), s') \<Longrightarrow> otp_accepted fb decode hash received s'"
| remove_tx_bytes: "otp_accepted fb decode hash received s \<Longrightarrow>
    RemoveShortTermOrderTxBytes hash order s = (Inr (), s') \<Longrightarrow> otp_accepted fb decode hash received s'"
| add_stateful: "otp_accepted fb decode hash received s \<Longrightarrow> OrderId_Validate fb (o_OrderId order) = Inr () \<Longrightarrow>
    MustAddStatefulOrderPlacementToOperationsQueue hash order s = (Inr (), s') \<Longrightarrow> otp_accepted fb decode hash received s'"
| add_match: "otp_accepted fb decode hash received s \<Longrightarrow> match_input fb taker fills \<Longrightarrow>
    MustAddMatchToOperationsQueue hash taker fills s = (Inr op, s') \<Longrightarrow> otp_accepted fb decode hash received s'"
| add_zero_fill: "otp_accepted fb decode hash received s \<Longrightarrow> SubaccountId_Validate fb liquidated = Inr () \<Longrightarrow>
    otp_accepted fb decode hash received (AddZeroFillDeleveragingToOperationsQueue liquidated perpetualId s)"
| add_deleveraging: "otp_accepted fb decode hash received s \<Longrightarrow> SubaccountId_Validate fb liquidated = Inr () \<Longrightarrow>
    \<forall>f \<in> set dfills. SubaccountId_Validate fb (mdf_OffsettingSubaccountId f) = Inr () \<Longrightarrow>
    MustAddDeleveragingToOperationsQueue liquidated perpetualId dfills final s = (Inr (), s') \<Longrightarrow>
    otp_accepted fb decode hash received s'"
| add_removal: "otp_accepted fb decode hash received s \<Longrightarrow> OrderId_Validate fb orderId = Inr () \<Longrightarrow>
    reason \<noteq> REMOVAL_REASON_FULLY_FILLED \<Longrightarrow>
    MustAddOrderRemovalToOperationsQueue orderId reason s = (Inr (), s') \<Longrightarrow> otp_accepted fb decode hash received s'"
| clear: "otp_accepted fb decode hash received s \<Longrightarrow> otp_accepted fb decode hash received (ClearOperationsQueue s)"

lemma otp_accepted_reachable: "otp_accepted fb decode hash received s \<Longrightarrow> otp_reachable hash s"
proof (induction rule: otp_accepted.induct)
  case (add_match s taker fills op s')
  then have "otp_step hash s s'" by (intro otp_step.add_match) (auto simp: match_input_def)
  with add_match.IH show ?case by (rule otp_reachable.step)
qed (blast intro: otp_reachable.intros otp_step.intros)+

text \<open>What a queue of accepted messages keeps.\<close>

definition accepted_inv ::
  "(string \<Rightarrow> 'a res) \<Rightarrow> (bytes \<Rightarrow> Order res) \<Rightarrow> (Order \<Rightarrow> OrderHash) \<Rightarrow> Order set \<Rightarrow> OperationsToPropose \<Rightarrow> bool" where
  "accepted_inv fb decode hash received s \<longleftrightarrow>
     (\<forall>h b. gm_get (otp_ShortTermOrderHashToTxBytes s) h = Some b \<longrightarrow>
        (\<exists>order \<in> received. hash order = h \<and> decode b = Inr order \<and> MsgPlaceOrder_ValidateBasic fb order = Inr ())) \<and>
     (\<forall>h. gm_get (otp_OrderHashesInOperationsQueue s) h \<noteq> None \<longrightarrow>
        (\<exists>order. hash order = h \<and> OrderId_Validate fb (o_OrderId order) = Inr ())) \<and>
     set (placed_of (otp_OperationsQueue s)) \<subseteq> received \<and>
     (\<forall>op \<in> set (otp_OperationsQueue s). op_valid fb op) \<and>
     replacements_ordered hash [] (placed_of (otp_OperationsQueue s))"

lemma valid_order_id: "MsgPlaceOrder_ValidateBasic fb order = Inr () \<Longrightarrow> OrderId_Validate fb (o_OrderId order) = Inr ()"
  unfolding ValidateBasic_valid
  by (auto simp: valid_order_def OrderId_Validate_def SubaccountId_Validate_iff Order_IsShortTermOrder_def
      Order_IsStatefulOrder_def res_simps split: if_splits)

lemma replacements_ordered_append:
  "replacements_ordered hash placed (xs @ [x]) \<longleftrightarrow> replacements_ordered hash placed xs \<and>
     replacements_ordered hash (fold (\<lambda>y. gm_set (o_OrderId y) y) xs placed) [x]"
  by (induction xs arbitrary: placed) auto

lemma fold_placed:
  "gm_get (fold (\<lambda>y. gm_set (o_OrderId y) y) xs placed) i = Some p \<Longrightarrow> p \<in> set xs \<and> o_OrderId p = i \<or> gm_get placed i = Some p"
proof (induction xs arbitrary: placed)
  case (Cons x xs)
  then show ?case by (auto dest!: Cons.IH split: if_splits)
qed simp

lemma replacements_placed:
  assumes "replacements_ordered hash [] (placed_of (otp_OperationsQueue s))" "replaces_placed hash s order"
  shows "replacements_ordered hash [] (placed_of (otp_OperationsQueue s) @ [order])"
  using assms fold_placed[where placed = "[]" and i = "o_OrderId order"]
  by (fastforce simp: replacements_ordered_append replaces_placed_def split: option.split)

lemma accepted_inv_append:
  assumes "accepted_inv fb decode hash received s" "op_valid fb op" "op_placed op = []"
  shows "accepted_inv fb decode hash received (appendOp op s)"
  using assms by (simp add: accepted_inv_def appendOp_def)

lemma queued_id_valid:
  assumes "accepted_inv fb decode hash received s" "hash_identifies hash" "IsOrderPlacementInOperationsQueue hash s order"
  shows "OrderId_Validate fb (o_OrderId order) = Inr ()"
proof -
  from assms(1,3) obtain x where "hash x = hash order" "OrderId_Validate fb (o_OrderId x) = Inr ()"
    unfolding accepted_inv_def IsOrderPlacementInOperationsQueue_def by blast
  then show ?thesis using assms(2) unfolding hash_identifies_def by metis
qed

lemma accepted_match:
  assumes inv: "accepted_inv fb decode hash received s" and hash: "hash_identifies hash" and input: "match_input fb taker fills"
    and run: "MustAddMatchToOperationsQueue hash taker fills s = (Inr op, s')"
  shows "op_valid fb op" "op_placed op = []" "s' = appendOp op s"
proof -
  note ids = queued_id_valid[OF inv hash]
  have fills: "fill_valid fb (mfo_MakerFill f)" if "f \<in> set fills" "IsOrderPlacementInOperationsQueue hash s (mfo_Order f)" for f
    using that input ids by (auto simp: fill_valid_def match_input_def)
  have "op_valid fb op \<and> op_placed op = [] \<and> s' = appendOp op s"
  proof (cases taker)
    case (MO_Order order)
    with run have op: "op = Op_Match (ClobMatch_MatchOrders \<lparr>mo_TakerOrderId = o_OrderId order, mo_Fills = map mfo_MakerFill fills\<rparr>)"
      "fills \<noteq> []" "\<forall>f \<in> set fills. IsOrderPlacementInOperationsQueue hash s (mfo_Order f)"
      "IsOrderPlacementInOperationsQueue hash s order" "s' = appendOp op s"
      by (auto simp: MustAddMatchToOperationsQueue_def NewMatchOrdersInternalOperation_def step_simps res_simps Let_def split: if_splits)
    then have "match_valid fb (ClobMatch_MatchOrders \<lparr>mo_TakerOrderId = o_OrderId order, mo_Fills = map mfo_MakerFill fills\<rparr>)"
      using fills ids[OF op(4)] input by (auto simp: match_valid_def match_input_def comp_def)
    with op(1,5) show ?thesis by (simp add: op_valid_def)
  next
    case (MO_Liquidation lo)
    with run obtain p where op: "op = Op_Match (ClobMatch_MatchPerpetualLiquidation
        \<lparr>mpl_Liquidated = mo_GetSubaccountId taker, mpl_ClobPairId = mo_GetClobPairId taker, mpl_PerpetualId = p,
         mpl_TotalSize = mo_GetBaseQuantums taker, mpl_IsBuy = mo_IsBuy taker, mpl_Fills = map mfo_MakerFill fills\<rparr>)"
      "fills \<noteq> []" "\<forall>f \<in> set fills. IsOrderPlacementInOperationsQueue hash s (mfo_Order f)" "s' = appendOp op s"
      "mo_IsLiquidation taker"
      by (auto simp: MustAddMatchToOperationsQueue_def NewMatchPerpetualLiquidationInternalOperation_def step_simps res_simps
          Let_def split: if_splits)
    then show ?thesis using fills input by (auto simp: op_valid_def match_valid_def match_input_def comp_def)
  qed
  then show "op_valid fb op" "op_placed op = []" "s' = appendOp op s" by blast+
qed

lemma checked_deleveraging_fills:
  assumes "for_res (check_deleveraging_fill liq) fills seen = Inr r"
  shows "distinct (map mdf_OffsettingSubaccountId fills) \<and> mdf_OffsettingSubaccountId ` set fills \<inter> set seen = {} \<and>
    (\<forall>f \<in> set fills. mdf_OffsettingSubaccountId f \<noteq> liq \<and> mdf_FillAmount f \<noteq> 0)"
  using assms
proof (induction fills arbitrary: seen)
  case (Cons f fills)
  then have c: "mdf_FillAmount f \<noteq> 0" "mdf_OffsettingSubaccountId f \<noteq> liq" "mdf_OffsettingSubaccountId f \<notin> set seen"
    "for_res (check_deleveraging_fill liq) fills (mdf_OffsettingSubaccountId f # seen) = Inr r"
    by (auto simp: check_deleveraging_fill_def[of liq f seen] split: if_splits)
  with Cons.IH[OF c(4)] show ?case by auto
qed simp

lemma accepted_placement:
  assumes inv: "accepted_inv fb decode hash received s" and inj: "inj_on hash received" and order: "order \<in> received"
    and replaces: "replaces_placed hash s order"
    and run: "MustAddShortTermOrderPlacementToOperationsQueue hash order s = (Inr (), s')"
  shows "accepted_inv fb decode hash received s'"
proof -
  from run have s': "s' = (appendOp (Op_ShortTermOrderPlacement order) s)
      \<lparr>otp_OrderHashesInOperationsQueue := gm_set (hash order) True (otp_OrderHashesInOperationsQueue s)\<rparr>"
    and "gm_get (otp_ShortTermOrderHashToTxBytes s) (hash order) \<noteq> None"
    by (auto simp: otp_op_defs step_simps res_simps split: if_splits)
  with inv obtain x where "x \<in> received" "hash x = hash order" "MsgPlaceOrder_ValidateBasic fb x = Inr ()"
    unfolding accepted_inv_def by blast
  with inj order have valid: "MsgPlaceOrder_ValidateBasic fb order = Inr ()" by (metis inj_onD)
  show ?thesis
    using inv replacements_placed[OF _ replaces] order valid valid_order_id[OF valid]
    by (auto simp: s' accepted_inv_def appendOp_def op_valid_def)
qed

lemma accepted_inv_reachable:
  assumes "otp_accepted fb decode hash received s" "hash_identifies hash" "inj_on hash received"
  shows "accepted_inv fb decode hash received s"
  using assms(1)
proof (induction rule: otp_accepted.induct)
  case new
  then show ?case by (simp add: accepted_inv_def NewOperationsToPropose_def)
next
  case (add_tx_bytes s order b s')
  then have "s' = s\<lparr>otp_ShortTermOrderHashToTxBytes := gm_set (hash order) b (otp_ShortTermOrderHashToTxBytes s)\<rparr>"
    by (auto simp: otp_op_defs step_simps res_simps split: if_splits)
  with add_tx_bytes show ?case by (auto simp: accepted_inv_def)
next
  case (add_short_term s order s')
  then show ?case using accepted_placement[OF _ assms(3)] by blast
next
  case (remove_tx_bytes s order s')
  then have "s' = s\<lparr>otp_ShortTermOrderHashToTxBytes := gm_del (hash order) (otp_ShortTermOrderHashToTxBytes s)\<rparr>"
    by (auto simp: otp_op_defs step_simps res_simps split: if_splits)
  with remove_tx_bytes.IH show ?case by (simp add: accepted_inv_def split: if_splits)
next
  case (add_stateful s order s')
  then have "s' = (appendOp (Op_PreexistingStatefulOrder (o_OrderId order)) s)
      \<lparr>otp_OrderHashesInOperationsQueue := gm_set (hash order) True (otp_OrderHashesInOperationsQueue s)\<rparr>"
    by (auto simp: otp_op_defs step_simps res_simps split: if_splits)
  with add_stateful.IH add_stateful.hyps show ?case
    by (auto simp: accepted_inv_def appendOp_def op_valid_def)
next
  case (add_match s taker fills op s')
  then show ?case using accepted_match[OF add_match.IH assms(2) add_match.hyps(2,3)] accepted_inv_append by blast
next
  case (add_zero_fill s liquidated perpetualId)
  then show ?case unfolding AddZeroFillDeleveragingToOperationsQueue_def
    by (intro accepted_inv_append)
      (auto simp: NewMatchPerpetualDeleveragingInternalOperation_def op_valid_def match_valid_def)
next
  case (add_deleveraging s liquidated dfills perpetualId final s')
  then obtain r where "for_res (check_deleveraging_fill liquidated) dfills [] = Inr r"
    and s': "s' = appendOp (NewMatchPerpetualDeleveragingInternalOperation liquidated perpetualId dfills final) s"
    by (auto simp: MustAddDeleveragingToOperationsQueue_def step_simps)
  then show ?case
    using add_deleveraging checked_deleveraging_fills[of liquidated dfills "[]" r] unfolding s'
    by (intro accepted_inv_append)
      (auto simp: NewMatchPerpetualDeleveragingInternalOperation_def op_valid_def match_valid_def)
next
  case (add_removal s orderId reason s')
  then have "s' = (appendOp (Op_OrderRemoval orderId reason) s)
      \<lparr>otp_OrderRemovalsInOperationsQueue := gm_set orderId True (otp_OrderRemovalsInOperationsQueue s)\<rparr>"
    by (auto simp: otp_op_defs step_simps res_simps split: if_splits)
  with add_removal.IH add_removal.hyps show ?case by (simp add: accepted_inv_def appendOp_def op_valid_def)
next
  case (clear s)
  then show ?case by (simp add: accepted_inv_def ClearOperationsQueue_def)
qed

text \<open>So the stored bytes of every order placed decode to it.\<close>

lemma accepted_decodes:
  assumes inv: "accepted_inv fb decode hash received s" and inj: "inj_on hash received" and ok: "otp_inv hash s"
    and order: "order \<in> set (placed_of (otp_OperationsQueue s))"
  shows "decode (the (gm_get (otp_ShortTermOrderHashToTxBytes s) (hash order))) = Inr order"
proof -
  from ok order obtain b where b: "gm_get (otp_ShortTermOrderHashToTxBytes s) (hash order) = Some b"
    by (fastforce simp: otp_inv_def)
  with inv obtain x where x: "x \<in> received" "hash x = hash order" "decode b = Inr x"
    unfolding accepted_inv_def by blast
  have "order \<in> received" using inv order by (auto simp: accepted_inv_def)
  with x inj have "x = order" by (metis inj_onD)
  with b x(3) show ?thesis by simp
qed

text \<open>
  C17: Whatever the memclob did to its operations queue, building a proposal and building the operations
  to replay never panics. The replay is the queue itself, with the transaction bytes of exactly the
  short-term orders it places, and the proposal passes \<^verbatim>\<open>MsgProposedOperations.ValidateBasic\<close>. And if the
  queue was filled with accepted messages (bytes of valid orders that decode to them, no two with one
  hash, replacements of earlier placements of the same id, positive fills of distinct makers, removals
  with a proper reason), every node that receives the proposal accepts it:
  \<^verbatim>\<open>ValidateAndTransformRawOperations\<close> rebuilds from it the queue without the placements of stateful orders,
  which every node has in state. In particular, every short-term order that a match names was placed
  before that match.
\<close>

theorem operations_queue_round_trip:
  assumes "otp_reachable hash s" "hash_identifies hash"
  shows "(\<exists>txBytes. GetOperationsToReplay hash s = Inr (otp_OperationsQueue s, txBytes) \<and>
           (\<forall>h. gm_get txBytes h = (if h \<in> hash ` set (placed_of (otp_OperationsQueue s))
                                      then gm_get (otp_ShortTermOrderHashToTxBytes s) h else None)) \<and>
           (\<forall>h b. gm_get txBytes h = Some b \<longrightarrow> b \<noteq> [])) \<and>
         (\<exists>raws. GetOperationsToPropose hash s = Inr raws \<and> MsgProposedOperations_ValidateBasic raws = Inr () \<and>
           (otp_accepted fb (decodeOperationRawShortTermOrderPlacementBytes decoder anteHandler getMsgs) hash received s \<and>
            inj_on hash received \<longrightarrow>
            ValidateAndTransformRawOperations fb hash decoder anteHandler getMsgs raws =
              Inr (filter op_proposed (otp_OperationsQueue s))))"
proof -
  let ?q = "otp_OperationsQueue s" and ?decode = "decodeOperationRawShortTermOrderPlacementBytes decoder anteHandler getMsgs"
  let ?raws = "concat (map (op_raw hash s) ?q)"
  have inv: "otp_inv hash s" using assms by (rule otp_inv_reachable)
  then have tx: "\<forall>order \<in> set (placed_of ?q). \<exists>b. gm_get (otp_ShortTermOrderHashToTxBytes s) (hash order) = Some b \<and> b \<noteq> []"
    by (fastforce simp: otp_inv_def)
  obtain m' where m': "GetOperationsToReplay hash s = Inr (?q, m')"
    "\<forall>h. gm_get m' h = (if h \<in> hash ` set (placed_of ?q) then gm_get (otp_ShortTermOrderHashToTxBytes s) h else None)"
    using replay_ops[OF tx, of "[]" "[]"] unfolding GetOperationsToReplay_def by auto
  have "\<forall>h b. gm_get m' h = Some b \<longrightarrow> b \<noteq> []"
    using m'(2) inv by (auto simp: otp_inv_def split: if_splits)
  with m' have replay: "\<exists>txBytes. GetOperationsToReplay hash s = Inr (?q, txBytes) \<and>
      (\<forall>h. gm_get txBytes h = (if h \<in> hash ` set (placed_of ?q) then gm_get (otp_ShortTermOrderHashToTxBytes s) h else None)) \<and>
      (\<forall>h b. gm_get txBytes h = Some b \<longrightarrow> b \<noteq> [])"
    by blast
  have reasons: "\<forall>i reason. Op_OrderRemoval i reason \<in> set ?q \<longrightarrow>
      OrderId_IsStatefulOrder i \<and> reason \<noteq> REMOVAL_REASON_UNSPECIFIED" and refs: "refs_placed {} ?q"
    using inv by (simp_all add: otp_inv_def)
  have raw_ok: "validate_raw_basic r = Inr ()" if r: "r \<in> set ?raws" for r
  proof -
    from r obtain op where op: "op \<in> set ?q" "r \<in> set (op_raw hash s op)" by auto
    then show ?thesis
      using reasons stateful_not_short_term by (cases op rule: InternalOperation.exhaust) (auto simp: validate_raw_basic_def)
  qed
  then have basic: "MsgProposedOperations_ValidateBasic ?raws = Inr ()"
    using for_res_total[where P = "\<lambda>_. True" and f = "\<lambda>r _. validate_raw_basic r" and s = "()"]
    unfolding MsgProposedOperations_ValidateBasic_def by force
  have "ValidateAndTransformRawOperations fb hash decoder anteHandler getMsgs ?raws = Inr (filter op_proposed ?q)"
    if acc: "otp_accepted fb ?decode hash received s" and inj: "inj_on hash received"
  proof -
    have ai: "accepted_inv fb ?decode hash received s" by (rule accepted_inv_reachable[OF acc assms(2) inj])
    then have v: "\<forall>op \<in> set ?q. op_valid fb op" "replacements_ordered hash [] (placed_of ?q)"
      by (simp_all add: accepted_inv_def)
    have "\<forall>order \<in> set (placed_of ?q). ?decode (the (gm_get (otp_ShortTermOrderHashToTxBytes s) (hash order))) = Inr order"
      using accepted_decodes[OF ai inj inv] by blast
    then show ?thesis
      using transform_ops[OF v(1) _ v(2) refs, of ?decode s "[]"] reasons
      by (auto simp: ValidateAndTransformRawOperations_def)
  qed
  with basic replay propose_reachable[OF inv] show ?thesis by blast
qed

text \<open>A queue with two short-term orders and a match between them.\<close>

definition ex_hash :: "Order \<Rightarrow> OrderHash" where
  "ex_hash order =
     (let i = o_OrderId order in
      replicate (unat (oid_ClientId i)) 1 @ 0 # replicate (unat (oid_OrderFlags i)) 1 @ 0 #
      replicate (unat (oid_ClobPairId i)) 1 @ 0 # replicate (unat (sid_Number (oid_SubaccountId i))) 1 @ 0 #
      map of_char (sid_Owner (oid_SubaccountId i)))"

lemma unary_prefix_inject: "replicate m (1 :: 8 word) @ 0 # xs = replicate n 1 @ 0 # ys \<longleftrightarrow> m = n \<and> xs = ys"
proof (induction m arbitrary: n)
  case 0
  then show ?case by (cases n) auto
next
  case (Suc m)
  then show ?case by (cases n) auto
qed

lemma inj_of_char_8: "inj (of_char :: char \<Rightarrow> 8 word)"
proof (rule injI)
  fix c d :: char
  assume "(of_char c :: 8 word) = of_char d"
  then have "unat (of_char c :: 8 word) = unat (of_char d :: 8 word)" by simp
  moreover have "unat (of_char x :: 8 word) = of_char x" for x :: char
  proof -
    have "unat (of_nat (of_char x) :: 8 word) = of_char x" by (simp add: unat_of_nat)
    then show ?thesis by (simp only: of_nat_of_char)
  qed
  ultimately have "(of_char c :: nat) = of_char d" by simp
  then show "c = d" by simp
qed

lemma ex_hash_identifies: "hash_identifies ex_hash"
  using inj_of_char_8
  by (auto simp: hash_identifies_def ex_hash_def Let_def unary_prefix_inject inj_map_eq_map
      SubaccountId_eq_iff unsigned_word_eqI intro!: OrderId.equality intro: unsigned_word_eqI)

definition ex_maker :: Order where
  "ex_maker = ex_order SIDE_BUY 10 5 1"

definition ex_taker :: Order where
  "ex_taker = (ex_order SIDE_SELL 10 5 2)\<lparr>o_OrderId := \<lparr>oid_SubaccountId = \<lparr>sid_Owner = ''bob'', sid_Number = 0\<rparr>,
     oid_ClientId = 2, oid_OrderFlags = 0, oid_ClobPairId = 0\<rparr>\<rparr>"

definition ex_otp_run :: "(OperationsToPropose, InternalOperation) step" where
  "ex_otp_run =
     bindM (MustAddShortTermOrderTxBytes ex_hash ex_maker [1]) (\<lambda>_.
     bindM (MustAddShortTermOrderTxBytes ex_hash ex_taker [2]) (\<lambda>_.
     bindM (MustAddShortTermOrderPlacementToOperationsQueue ex_hash ex_maker) (\<lambda>_.
     bindM (MustAddShortTermOrderPlacementToOperationsQueue ex_hash ex_taker) (\<lambda>_.
       MustAddMatchToOperationsQueue ex_hash (MO_Order ex_taker)
         [\<lparr>mfo_MakerFill = \<lparr>mf_FillAmount = 4, mf_MakerOrderId = o_OrderId ex_maker\<rparr>, mfo_Order = ex_maker\<rparr>]))))"

definition ex_otp :: OperationsToPropose where
  "ex_otp = snd (ex_otp_run NewOperationsToPropose)"

definition ex_decode_tx :: "bytes \<Rightarrow> Order res" where
  "ex_decode_tx b = (if b = [1] then Inr ex_maker else if b = [2] then Inr ex_taker else Inl (Err ''tx parse error''))"

lemma ex_otp_accepted:
  assumes "ex_otp_run NewOperationsToPropose = (Inr op, s)"
  shows "otp_accepted (\<lambda>a. Inr a :: string res) ex_decode_tx ex_hash {ex_maker, ex_taker} s"
proof -
  let ?ok = "otp_accepted (\<lambda>a. Inr a :: string res) ex_decode_tx ex_hash {ex_maker, ex_taker}"
  let ?fills = "[\<lparr>mfo_MakerFill = \<lparr>mf_FillAmount = 4, mf_MakerOrderId = o_OrderId ex_maker\<rparr>, mfo_Order = ex_maker\<rparr>]"
  from assms obtain s1 s2 s3 s4 where
    1: "MustAddShortTermOrderTxBytes ex_hash ex_maker [1] NewOperationsToPropose = (Inr (), s1)" and
    2: "MustAddShortTermOrderTxBytes ex_hash ex_taker [2] s1 = (Inr (), s2)" and
    3: "MustAddShortTermOrderPlacementToOperationsQueue ex_hash ex_maker s2 = (Inr (), s3)" and
    4: "MustAddShortTermOrderPlacementToOperationsQueue ex_hash ex_taker s3 = (Inr (), s4)" and
    5: "MustAddMatchToOperationsQueue ex_hash (MO_Order ex_taker) ?fills s4 = (Inr op, s)"
    unfolding ex_otp_run_def by (auto simp: step_simps)
  have valid: "MsgPlaceOrder_ValidateBasic (\<lambda>a. Inr a :: string res) ex_maker = Inr ()"
    "MsgPlaceOrder_ValidateBasic (\<lambda>a. Inr a :: string res) ex_taker = Inr ()"
    "ex_decode_tx [1] = Inr ex_maker" "ex_decode_tx [2] = Inr ex_taker"
    by code_simp+
  have ids: "o_OrderId ex_maker \<noteq> o_OrderId ex_taker" by code_simp
  have "?ok s1"
    by (rule otp_accepted.add_tx_bytes[where order = ex_maker and b = "[1]", OF otp_accepted.new]) (simp_all add: valid 1)
  then have ok2: "?ok s2"
    by (rule otp_accepted.add_tx_bytes[where order = ex_taker and b = "[2]"]) (simp_all add: valid 2)
  have q: "otp_OperationsQueue s2 = []" "otp_OperationsQueue s3 = [Op_ShortTermOrderPlacement ex_maker]"
    using 1 2 3 by (auto simp: otp_op_defs step_simps res_simps NewOperationsToPropose_def split: if_splits)
  have "?ok s3" by (rule otp_accepted.add_short_term[OF ok2 _ _ 3]) (simp_all add: replaces_placed_def q)
  then have "?ok s4" by (rule otp_accepted.add_short_term[OF _ _ _ 4]) (use ids in \<open>simp_all add: replaces_placed_def q\<close>)
  then show ?thesis by (rule otp_accepted.add_match[OF _ _ 5]) (simp add: match_input_def)
qed

theorem operations_queue_round_trip_witness:
  "\<exists>raws. length raws = 3 \<and> GetOperationsToPropose ex_hash ex_otp = Inr raws \<and>
     ValidateAndTransformRawOperations (\<lambda>a. Inr a :: string res) ex_hash ex_decode_tx (\<lambda>_. Inr ()) (\<lambda>t. [SM_PlaceOrder t]) raws =
       Inr (otp_OperationsQueue ex_otp)"
proof -
  let ?fb = "\<lambda>a. Inr a :: string res" and ?received = "{ex_maker, ex_taker}"
  let ?decode = "decodeOperationRawShortTermOrderPlacementBytes ex_decode_tx (\<lambda>_. Inr ()) (\<lambda>t. [SM_PlaceOrder t])"
  have "isl (fst (ex_otp_run NewOperationsToPropose)) = False" by code_simp
  then have acc: "otp_accepted ?fb ex_decode_tx ex_hash ?received ex_otp"
    using ex_otp_accepted unfolding ex_otp_def by (metis prod.collapse sum.collapse(2))
  moreover have "?decode = ex_decode_tx"
    by (rule ext) (simp add: decodeOperationRawShortTermOrderPlacementBytes_def ex_decode_tx_def)
  moreover have "ex_hash ex_maker \<noteq> ex_hash ex_taker" by code_simp
  then have "inj_on ex_hash ?received" by auto
  ultimately obtain raws where raws: "GetOperationsToPropose ex_hash ex_otp = Inr raws"
    "ValidateAndTransformRawOperations ?fb ex_hash ex_decode_tx (\<lambda>_. Inr ()) (\<lambda>t. [SM_PlaceOrder t]) raws =
       Inr (filter op_proposed (otp_OperationsQueue ex_otp))"
    using operations_queue_round_trip[OF otp_accepted_reachable[OF acc] ex_hash_identifies, of ?fb ex_decode_tx "\<lambda>_. Inr ()"
      "\<lambda>t. [SM_PlaceOrder t]" ?received] by auto
  moreover have "filter op_proposed (otp_OperationsQueue ex_otp) = otp_OperationsQueue ex_otp"
    "case GetOperationsToPropose ex_hash ex_otp of Inl e \<Rightarrow> False | Inr raws \<Rightarrow> length raws = 3"
    by code_simp+
  ultimately show ?thesis by auto
qed

end
