(* ===== verification/MemClob.thy ===== *)
theory MemClob
  imports Orderbook OperationsQueue Epochs "HOL-Library.Sublist"
begin

text \<open>
  \<^verbatim>\<open>x/clob/memclob/memclob.go\<close>: the matching engine. Its state is the order books by clob pair, the
  operations to propose and the store behind the context. The Go interface \<^verbatim>\<open>MemClobKeeper\<close> is a record of
  functions on the store, so the engine is defined for any implementation of it; the hash of an order is
  a function argument. Messages to the indexer, streaming updates, logging and telemetry have no effect
  on this state and are left out. A loop over the book is \<open>walk_book\<close>, with value \<^const>\<open>None\<close> when it
  does not return.
\<close>

section \<open>Definitions: the keeper interface and the state\<close>

type_synonym match_outcome = "bool \<times> UpdateResult \<times> UpdateResult \<times> error option"

record 's MemClobKeeper =
  k_GetOrderFillAmount :: "'s \<Rightarrow> OrderId \<Rightarrow> (uint64 \<times> uint32) option"
  k_ProcessSingleMatch :: "MatchWithOrders \<Rightarrow> ('s, match_outcome) step"
  k_GetStatePosition :: "'s \<Rightarrow> SubaccountId \<Rightarrow> uint32 \<Rightarrow> int"
  k_GetLongTermOrderPlacement :: "'s \<Rightarrow> OrderId \<Rightarrow> LongTermOrderPlacement option"
  k_OffsetSubaccountPerpetualPosition ::
    "SubaccountId \<Rightarrow> uint32 \<Rightarrow> int \<Rightarrow> bool \<Rightarrow> ('s, MatchPerpetualDeleveraging_Fill list \<times> int) step"
  k_AddOrderToOrderbookSubaccountUpdatesCheck :: "'s \<Rightarrow> SubaccountId \<Rightarrow> PendingOpenOrder \<Rightarrow> UpdateResult"
  k_MaybeValidateAuthenticators :: "'s \<Rightarrow> bytes \<Rightarrow> unit res"

record 's MemClob =
  mc_orderbooks :: "(uint32, Orderbook) gomap"
  mc_operationsToPropose :: OperationsToPropose
  mc_store :: 's

record mem_ctx =
  mx_BlockHeight :: int64
  mx_TxBytes :: bytes
  mx_IsCheckTx :: bool
  mx_IsReCheckTx :: bool

record OrderWithRemovalReason =
  orr_Order :: Order
  orr_RemovalReason :: RemovalReason

definition AssertCheckTxMode :: "mem_ctx \<Rightarrow> unit res" where
  "AssertCheckTxMode ctx =
     (if \<not> mx_IsCheckTx ctx \<and> \<not> mx_IsReCheckTx ctx then Inl (Panic ''assert checkTx mode failed'') else Inr ())"

definition NewMemClobPriceTimePriority :: "'s \<Rightarrow> 's MemClob" where
  "NewMemClobPriceTimePriority store =
     \<lparr>mc_orderbooks = [], mc_operationsToPropose = NewOperationsToPropose, mc_store = store\<rparr>"

definition mustGetOrderbook :: "'s MemClob \<Rightarrow> uint32 \<Rightarrow> Orderbook res" where
  "mustGetOrderbook m clobPairId =
     (case gm_get (mc_orderbooks m) clobPairId of
        None \<Rightarrow> Inl (Panic ''No orderbook exists with id'')
      | Some orderbook \<Rightarrow> Inr orderbook)"

text \<open>Calls of methods of an order book and of the operations to propose.\<close>

definition on_book :: "uint32 \<Rightarrow> (Orderbook, 'a) step \<Rightarrow> ('s MemClob, 'a) step" where
  "on_book clobPairId f m =
     (case mustGetOrderbook m clobPairId of
        Inl e \<Rightarrow> (Inl e, m)
      | Inr b \<Rightarrow> (case f b of (r, b') \<Rightarrow> (r, m\<lparr>mc_orderbooks := gm_set clobPairId b' (mc_orderbooks m)\<rparr>)))"

definition on_otp :: "(OperationsToPropose, 'a) step \<Rightarrow> ('s MemClob, 'a) step" where
  "on_otp f m = (case f (mc_operationsToPropose m) of (r, o') \<Rightarrow> (r, m\<lparr>mc_operationsToPropose := o'\<rparr>))"

definition on_store :: "('s, 'a) step \<Rightarrow> ('s MemClob, 'a) step" where
  "on_store f m = (case f (mc_store m) of (r, st') \<Rightarrow> (r, m\<lparr>mc_store := st'\<rparr>))"

definition readM :: "('s \<Rightarrow> 'a) \<Rightarrow> ('s, 'a) step" where
  "readM f = liftM (\<lambda>s. Inr (f s))"

definition whenM :: "bool \<Rightarrow> ('s, unit) step \<Rightarrow> ('s, unit) step" where
  "whenM c f = (if c then f else retM ())"

section \<open>Definitions: order books and cancellations\<close>

definition CreateOrderbook :: "ClobPair \<Rightarrow> ('s MemClob, unit) step" where
  "CreateOrderbook clobPair =
     (let clobPairId = cp_Id clobPair in
      bindM (liftM (\<lambda>m. if gm_get (mc_orderbooks m) clobPairId \<noteq> None then Inl (Panic ''Orderbook already exists'')
                        else if cp_SubticksPerTick clobPair = 0 then Inl (Panic ''subticksPerTick must be greater than zero'')
                        else if cp_StepBaseQuantums clobPair = 0
                        then Inl (Panic ''minOrderBaseQuantums must be greater than zero'') else Inr ())) (\<lambda>_.
      modifyM (\<lambda>m. m\<lparr>mc_orderbooks :=
        gm_set clobPairId (empty_book (cp_SubticksPerTick clobPair) (cp_StepBaseQuantums clobPair)) (mc_orderbooks m)\<rparr>)))"

definition MaybeCreateOrderbook :: "ClobPair \<Rightarrow> ('s MemClob, bool) step" where
  "MaybeCreateOrderbook clobPair =
     bindM (readM (\<lambda>m. gm_get (mc_orderbooks m) (cp_Id clobPair) \<noteq> None)) (\<lambda>exists.
       if exists then retM False else bindM (CreateOrderbook clobPair) (\<lambda>_. retM True))"

definition SyncOrderbookState :: "ClobPair \<Rightarrow> ('s MemClob, unit) step" where
  "SyncOrderbookState clobPair =
     on_book (cp_Id clobPair)
       (bindM (liftM (\<lambda>b.
          let subticksPerTick = cp_SubticksPerTick clobPair; minOrderBaseQuantums = cp_StepBaseQuantums clobPair
          in if subticksPerTick = 0 then Inl (Panic ''subticksPerTick must be greater than zero'')
             else if book_SubticksPerTick b < subticksPerTick \<or> book_SubticksPerTick b mod subticksPerTick \<noteq> 0
             then Inl (Panic ''SubticksPerTick increased and/or not a divisor of the previous'')
             else if minOrderBaseQuantums = 0 then Inl (Panic ''minOrderBaseQuantums must be greater than zero'')
             else if book_MinOrderBaseQuantums b < minOrderBaseQuantums \<or>
                     book_MinOrderBaseQuantums b mod minOrderBaseQuantums \<noteq> 0
             then Inl (Panic ''stepBaseQuantums increased and/or not a divisor of the previous'')
             else Inr ())) (\<lambda>_.
        modifyM (\<lambda>b. b\<lparr>book_SubticksPerTick := cp_SubticksPerTick clobPair,
                        book_MinOrderBaseQuantums := cp_StepBaseQuantums clobPair\<rparr>)))"

definition GetOrder :: "'s MemClob \<Rightarrow> OrderId \<Rightarrow> Order option res" where
  "GetOrder m orderId = bindr (mustGetOrderbook m (oid_ClobPairId orderId)) (\<lambda>b. Inr (getOrder b orderId))"

definition GetCancelOrder :: "'s MemClob \<Rightarrow> OrderId \<Rightarrow> uint32 option res" where
  "GetCancelOrder m orderId = bindr (mustGetOrderbook m (oid_ClobPairId orderId)) (\<lambda>b. Inr (getCancel b orderId))"

definition GetSubaccountOrders :: "'s MemClob \<Rightarrow> uint32 \<Rightarrow> SubaccountId \<Rightarrow> Order_Side \<Rightarrow> Order list res" where
  "GetSubaccountOrders m clobPairId subaccountId side =
     bindr (mustGetOrderbook m clobPairId) (\<lambda>b. getSubaccountOrders b subaccountId side)"

definition InsertZeroFillDeleveragingIntoOperationsQueue :: "SubaccountId \<Rightarrow> uint32 \<Rightarrow> ('s MemClob, unit) step" where
  "InsertZeroFillDeleveragingIntoOperationsQueue subaccountId perpetualId =
     on_otp (modifyM (AddZeroFillDeleveragingToOperationsQueue subaccountId perpetualId))"

definition memclob_mustRemoveOrder :: "(Order \<Rightarrow> OrderHash) \<Rightarrow> OrderId \<Rightarrow> ('s MemClob, unit) step" where
  "memclob_mustRemoveOrder hash orderId =
     bindM (liftM (\<lambda>m. bindr (mustGetOrderbook m (oid_ClobPairId orderId)) (\<lambda>b.
              case gm_get (book_orderIdToLevelOrder b) orderId of
                None \<Rightarrow> Inl (Panic ''mustRemoveOrder: order does not exist'')
              | Some levelOrder \<Rightarrow> Inr levelOrder))) (\<lambda>levelOrder.
     bindM (on_book (oid_ClobPairId orderId) (mustRemoveOrder levelOrder)) (\<lambda>_.
       let order = co_Order levelOrder in
       bindM (readM (\<lambda>m. Order_IsShortTermOrder order \<and>
                \<not> IsOrderPlacementInOperationsQueue hash (mc_operationsToPropose m) order)) (\<lambda>c.
       whenM c (on_otp (RemoveShortTermOrderTxBytes hash order)))))"

text \<open>A resting order that does not outlive the cancel is removed.\<close>

definition cancelResting ::
  "(Order \<Rightarrow> OrderHash) \<Rightarrow> Orderbook \<Rightarrow> OrderId \<Rightarrow> uint32 \<Rightarrow> ('s MemClob, unit) step" where
  "cancelResting hash orderbook orderIdToCancel goodTilBlock =
     (case gm_get (book_orderIdToLevelOrder orderbook) orderIdToCancel of
        None \<Rightarrow> retM ()
      | Some levelOrder \<Rightarrow>
          whenM (GetGoodTilBlock (o_GoodTilOneof (co_Order levelOrder)) \<le> goodTilBlock)
            (memclob_mustRemoveOrder hash orderIdToCancel))"

definition CancelOrder :: "(Order \<Rightarrow> OrderHash) \<Rightarrow> mem_ctx \<Rightarrow> MsgCancelOrder \<Rightarrow> ('s MemClob, unit) step" where
  "CancelOrder hash ctx msgCancelOrder =
     (let orderIdToCancel = mc_OrderId msgCancelOrder;
          clobPairId = oid_ClobPairId orderIdToCancel;
          goodTilBlock = GetGoodTilBlock (mc_GoodTilOneof msgCancelOrder)
      in bindM (liftM (\<lambda>_. AssertCheckTxMode ctx)) (\<lambda>_.
         bindM (liftM (\<lambda>m. mustGetOrderbook m clobPairId)) (\<lambda>orderbook.
         bindM (liftM (\<lambda>_. OrderId_MustBeShortTermOrder orderIdToCancel)) (\<lambda>_.
           case getCancel orderbook orderIdToCancel of
             Some oldCancellationGoodTilBlock \<Rightarrow>
               if goodTilBlock \<le> oldCancellationGoodTilBlock then failM (Err ''ErrMemClobCancelAlreadyExists'')
               else bindM (cancelResting hash orderbook orderIdToCancel goodTilBlock) (\<lambda>_.
                    bindM (on_book clobPairId (mustRemoveCancel orderIdToCancel)) (\<lambda>_.
                    on_book clobPairId (addShortTermCancel orderIdToCancel goodTilBlock)))
           | None \<Rightarrow>
               bindM (cancelResting hash orderbook orderIdToCancel goodTilBlock) (\<lambda>_.
               on_book clobPairId (addShortTermCancel orderIdToCancel goodTilBlock))))))"

section \<open>Definitions: walking one side of a book\<close>

text \<open>What an iteration of a loop decides: to leave the loop or to go on.\<close>

datatype 's loop = Break 's | Continue 's

partial_function (option) walk ::
  "('n \<Rightarrow> 'n option) \<Rightarrow> ('n \<Rightarrow> 's \<Rightarrow> 's loop res) \<Rightarrow> 'n option \<Rightarrow> 's \<Rightarrow> 's res option" where
  [code]: "walk after body cur s =
     (case cur of
        None \<Rightarrow> Some (Inr s)
      | Some n \<Rightarrow>
          (case body n s of
             Inl e \<Rightarrow> Some (Inl e)
           | Inr (Break s') \<Rightarrow> Some (Inr s')
           | Inr (Continue s') \<Rightarrow> walk after body (after n) s'))"

definition walk_book ::
  "Orderbook \<Rightarrow> bool \<Rightarrow> (LevelOrder \<Rightarrow> 's \<Rightarrow> 's loop res) \<Rightarrow> 's \<Rightarrow> 's res option" where
  "walk_book b isBuy body s = walk (findNextBestLevelOrder b) body (getBestOrderOnSide b isBuy) s"

section \<open>Definitions: matching\<close>

definition GetOrderFilledAmount :: "'s MemClobKeeper \<Rightarrow> 's \<Rightarrow> OrderId \<Rightarrow> uint64" where
  "GetOrderFilledAmount k store orderId =
     (case k_GetOrderFillAmount k store orderId of None \<Rightarrow> 0 | Some (orderStateFilledAmount, _) \<Rightarrow> orderStateFilledAmount)"

definition GetOrderRemainingAmount :: "'s MemClobKeeper \<Rightarrow> 's \<Rightarrow> Order \<Rightarrow> uint64 \<times> bool" where
  "GetOrderRemainingAmount k store order =
     (let totalFillAmount = GetOrderFilledAmount k store (o_OrderId order)
      in if o_Quantums order \<le> totalFillAmount then (0, False) else (o_Quantums order - totalFillAmount, True))"

definition updateResultToOrderStatus :: "UpdateResult \<Rightarrow> OrderStatus" where
  "updateResultToOrderStatus updateResult =
     (if IsSuccess updateResult then OS_Success
      else case updateResult of
             UpdateCausedError \<Rightarrow> OS_InternalError
           | ViolatesIsolatedSubaccountConstraints \<Rightarrow> OS_ViolatesIsolatedSubaccountConstraints
           | _ \<Rightarrow> OS_Undercollateralized)"

definition resizeReduceOnlyMatchIfNecessary :: "int \<Rightarrow> uint64 \<Rightarrow> bool \<Rightarrow> uint64" where
  "resizeReduceOnlyMatchIfNecessary currentPositionSize newlyMatchedAmount isBuy =
     (let newMatchSize = (if \<not> isBuy then - uint newlyMatchedAmount else uint newlyMatchedAmount)
      in if sgn currentPositionSize * sgn newMatchSize \<noteq> - 1 then 0
         else word_of_int (BigMin \<bar>currentPositionSize\<bar> \<bar>newMatchSize\<bar>))"

text \<open>The variables of the matching loop, the branched store among them.\<close>

record 's match_state =
  ms_store :: 's
  ms_takerRemainingSize :: uint64
  ms_newMakerFills :: "MakerFill list"
  ms_matchedOrderHashToOrder :: "(OrderHash, MatchableOrder) gomap"
  ms_matchedMakerOrderIdToOrder :: "(OrderId, Order) gomap"
  ms_makerOrdersToRemove :: "OrderWithRemovalReason list"
  ms_OrderStatus :: OrderStatus
  ms_takerOrderHashWasSet :: bool
  ms_bigTotalMatchedAmount :: int

definition takerOrderCrossesMakerOrder :: "MatchableOrder \<Rightarrow> Order \<Rightarrow> bool" where
  "takerOrderCrossesMakerOrder taker makerOrder =
     (if mo_IsBuy taker then o_Subticks makerOrder \<le> mo_GetOrderSubticks taker
      else mo_GetOrderSubticks taker \<le> o_Subticks makerOrder)"

definition isReplacedBy :: "MatchableOrder \<Rightarrow> OrderId \<Rightarrow> bool" where
  "isReplacedBy taker makerOrderId \<longleftrightarrow>
     (case taker of MO_Order order \<Rightarrow> makerOrderId = o_OrderId order | MO_Liquidation _ \<Rightarrow> False)"

definition takerIsPostOnly :: "MatchableOrder \<Rightarrow> bool" where
  "takerIsPostOnly taker \<longleftrightarrow>
     (case taker of MO_Order order \<Rightarrow> o_TimeInForce order = TIME_IN_FORCE_POST_ONLY | MO_Liquidation _ \<Rightarrow> False)"

definition removeMaker :: "Order \<Rightarrow> RemovalReason \<Rightarrow> 's match_state \<Rightarrow> 's match_state" where
  "removeMaker makerOrder reason ms =
     ms\<lparr>ms_makerOrdersToRemove := ms_makerOrdersToRemove ms @ [\<lparr>orr_Order = makerOrder, orr_RemovalReason = reason\<rparr>]\<rparr>"

text \<open>Steps 1 to 4 after a successful match.\<close>

definition recordMatch ::
  "'s MemClobKeeper \<Rightarrow> (MatchableOrder \<Rightarrow> OrderHash) \<Rightarrow> MatchableOrder \<Rightarrow> Order \<Rightarrow> uint64 \<Rightarrow> 's match_state
   \<Rightarrow> 's match_state loop" where
  "recordMatch k mhash taker makerOrder matchedAmount ms =
     (let makerOrderId = o_OrderId makerOrder;
          takerRemainingSize = ms_takerRemainingSize ms - matchedAmount;
          ms = ms\<lparr>ms_takerRemainingSize := takerRemainingSize,
                  ms_bigTotalMatchedAmount :=
                    (if mo_IsBuy taker then ms_bigTotalMatchedAmount ms + uint matchedAmount
                     else ms_bigTotalMatchedAmount ms - uint matchedAmount),
                  ms_matchedOrderHashToOrder :=
                    gm_set (mhash (MO_Order makerOrder)) (MO_Order makerOrder) (ms_matchedOrderHashToOrder ms),
                  ms_matchedMakerOrderIdToOrder := gm_set makerOrderId makerOrder (ms_matchedMakerOrderIdToOrder ms)\<rparr>;
          ms = (if \<not> ms_takerOrderHashWasSet ms
                then ms\<lparr>ms_matchedOrderHashToOrder := gm_set (mhash taker) taker (ms_matchedOrderHashToOrder ms),
                        ms_takerOrderHashWasSet := True\<rparr>
                else ms);
          ms = ms\<lparr>ms_newMakerFills :=
                  ms_newMakerFills ms @ [\<lparr>mf_FillAmount = matchedAmount, mf_MakerOrderId = makerOrderId\<rparr>]\<rparr>
      in if mo_IsReduceOnly taker \<and> 0 < takerRemainingSize \<and>
            sgn (k_GetStatePosition k (ms_store ms) (mo_GetSubaccountId taker) (mo_GetClobPairId taker)) = 0
         then Break (ms\<lparr>ms_OrderStatus := OS_ReduceOnlyResized\<rparr>)
         else if takerRemainingSize = 0 then Break ms else Continue ms)"

text \<open>The outcome of \<^verbatim>\<open>ProcessSingleMatch\<close>.\<close>

definition afterMatch ::
  "'s MemClobKeeper \<Rightarrow> (MatchableOrder \<Rightarrow> OrderHash) \<Rightarrow> MatchableOrder \<Rightarrow> Order \<Rightarrow> uint64 \<Rightarrow> match_outcome
   \<Rightarrow> 's match_state \<Rightarrow> 's match_state loop res" where
  "afterMatch k mhash taker makerOrder matchedAmount outcome ms =
     (case outcome of (success, takerUpdateResult, makerUpdateResult, err) \<Rightarrow>
      if err \<noteq> None \<and> err \<noteq> Some (Err ''ErrFailedToUpdateSubaccounts'') then
        (if err = Some (Err ''ErrLiquidationExceedsSubaccountMaxInsuranceLost'')
         then Inr (Break (ms\<lparr>ms_OrderStatus := OS_LiquidationExceededSubaccountMaxInsuranceLost\<rparr>))
         else if err = Some (Err ''ErrLiquidationExceedsSubaccountMaxNotionalLiquidated'')
         then Inr (Break (ms\<lparr>ms_OrderStatus := OS_LiquidationExceededSubaccountMaxNotionalLiquidated\<rparr>))
         else if err = Some (Err ''ErrInsuranceFundHasInsufficientFunds'')
         then Inr (Break (ms\<lparr>ms_OrderStatus := OS_LiquidationRequiresDeleveraging\<rparr>))
         else Inl (Panic ''Unexpected error from ProcessSingleMatch''))
      else if \<not> success then
        (let makerCollatOkay = OrderStatus_IsSuccess (updateResultToOrderStatus makerUpdateResult);
             takerCollatOkay = mo_IsLiquidation taker \<or>
               OrderStatus_IsSuccess (updateResultToOrderStatus takerUpdateResult);
             ms = (if \<not> makerCollatOkay then removeMaker makerOrder REMOVAL_REASON_UNDERCOLLATERALIZED ms else ms)
         in if \<not> takerCollatOkay
            then Inr (Break (ms\<lparr>ms_OrderStatus := updateResultToOrderStatus takerUpdateResult\<rparr>))
            else Inr (Continue ms))
      else if takerIsPostOnly taker then Inr (Break (ms\<lparr>ms_OrderStatus := OS_PostOnlyWouldCrossMakerOrder\<rparr>))
      else Inr (recordMatch k mhash taker makerOrder matchedAmount ms))"

definition processMatch ::
  "'s MemClobKeeper \<Rightarrow> (MatchableOrder \<Rightarrow> OrderHash) \<Rightarrow> MatchableOrder \<Rightarrow> Order \<Rightarrow> uint64 \<Rightarrow> 's match_state
   \<Rightarrow> 's match_state loop res" where
  "processMatch k mhash taker makerOrder matchedAmount ms =
     (case k_ProcessSingleMatch k
             \<lparr>mw_MakerOrder = MO_Order makerOrder, mw_TakerOrder = taker, mw_FillAmount = matchedAmount,
              mw_MakerFee = 0, mw_TakerFee = 0, mw_MakerBuilderFee = 0, mw_TakerBuilderFee = 0,
              mw_MakerOrderRouterFee = 0, mw_TakerOrderRouterFee = 0\<rparr> (ms_store ms) of
        (Inl e, _) \<Rightarrow> Inl e
      | (Inr outcome, store') \<Rightarrow> afterMatch k mhash taker makerOrder matchedAmount outcome (ms\<lparr>ms_store := store'\<rparr>))"

text \<open>The amount of the match, resized for reduce-only orders.\<close>

definition sizeMatch ::
  "'s MemClobKeeper \<Rightarrow> (MatchableOrder \<Rightarrow> OrderHash) \<Rightarrow> MatchableOrder \<Rightarrow> Order \<Rightarrow> 's match_state
   \<Rightarrow> 's match_state loop res" where
  "sizeMatch k mhash taker makerOrder ms =
     (let clobPairId = mo_GetClobPairId taker;
          (makerRemainingSize, makerHasRemainingSize) = GetOrderRemainingAmount k (ms_store ms) makerOrder
      in if \<not> makerHasRemainingSize
         then Inl (Panic ''mustPerformTakerOrderMatching: maker order has no remaining amount'')
         else
           let matchedAmount = (if makerRemainingSize \<le> ms_takerRemainingSize ms then makerRemainingSize
                                else ms_takerRemainingSize ms);
               matchedAmount = (if o_ReduceOnly makerOrder
                 then resizeReduceOnlyMatchIfNecessary
                        (k_GetStatePosition k (ms_store ms) (oid_SubaccountId (o_OrderId makerOrder)) clobPairId)
                        matchedAmount (\<not> mo_IsBuy taker)
                 else matchedAmount)
           in if o_ReduceOnly makerOrder \<and> matchedAmount = 0
              then Inr (Continue (removeMaker makerOrder REMOVAL_REASON_INVALID_REDUCE_ONLY ms))
              else
                let matchedAmount = (if mo_IsReduceOnly taker
                      then resizeReduceOnlyMatchIfNecessary
                             (k_GetStatePosition k (ms_store ms) (mo_GetSubaccountId taker) clobPairId)
                             matchedAmount (mo_IsBuy taker)
                      else matchedAmount)
                in if mo_IsReduceOnly taker \<and> matchedAmount = 0
                   then Inl (Panic ''mustPerformTakerOrderMatching: taker reduce-only order resized to 0'')
                   else processMatch k mhash taker makerOrder matchedAmount ms)"

definition authenticatorsValid ::
  "'s MemClobKeeper \<Rightarrow> (MatchableOrder \<Rightarrow> OrderHash) \<Rightarrow> OperationsToPropose \<Rightarrow> 's \<Rightarrow> Order \<Rightarrow> bool res" where
  "authenticatorsValid k mhash otp store makerOrder =
     (if Order_IsShortTermOrder makerOrder
      then bindr (MustGetShortTermOrderTxBytes (\<lambda>x. mhash (MO_Order x)) otp makerOrder) (\<lambda>txBytes.
             Inr (\<not> isl (k_MaybeValidateAuthenticators k store txBytes)))
      else Inr True)"

text \<open>One iteration of the matching loop.\<close>

definition matchMaker ::
  "'s MemClobKeeper \<Rightarrow> (MatchableOrder \<Rightarrow> OrderHash) \<Rightarrow> OperationsToPropose \<Rightarrow> MatchableOrder \<Rightarrow> LevelOrder
   \<Rightarrow> 's match_state \<Rightarrow> 's match_state loop res" where
  "matchMaker k mhash otp taker makerLevelOrder ms =
     (let makerOrder = co_Order makerLevelOrder;
          makerOrderId = o_OrderId makerOrder
      in if \<not> takerOrderCrossesMakerOrder taker makerOrder then Inr (Break ms)
         else if isReplacedBy taker makerOrderId then Inr (Continue ms)
         else if oid_SubaccountId makerOrderId = mo_GetSubaccountId taker
         then Inr (Continue (removeMaker makerOrder REMOVAL_REASON_INVALID_SELF_TRADE ms))
         else bindr (authenticatorsValid k mhash otp (ms_store ms) makerOrder) (\<lambda>valid.
           if \<not> valid then Inr (Continue (removeMaker makerOrder REMOVAL_REASON_PERMISSIONED_KEY_EXPIRED ms))
           else sizeMatch k mhash taker makerOrder ms))"

definition takerInitialSize :: "'s MemClobKeeper \<Rightarrow> 's \<Rightarrow> MatchableOrder \<Rightarrow> uint64 res" where
  "takerInitialSize k store taker =
     (case taker of
        MO_Liquidation _ \<Rightarrow> Inr (mo_GetBaseQuantums taker)
      | MO_Order order \<Rightarrow>
          (case GetOrderRemainingAmount k store order of (takerRemainingSize, takerHasRemainingSize) \<Rightarrow>
             if \<not> takerHasRemainingSize
             then Inl (Panic ''mustPerformTakerOrderMatching: order has no remaining amount'')
             else Inr takerRemainingSize))"

definition initialMatchState :: "'s \<Rightarrow> uint64 \<Rightarrow> 's match_state" where
  "initialMatchState store takerRemainingSize =
     \<lparr>ms_store = store, ms_takerRemainingSize = takerRemainingSize, ms_newMakerFills = [],
      ms_matchedOrderHashToOrder = [], ms_matchedMakerOrderIdToOrder = [], ms_makerOrdersToRemove = [],
      ms_OrderStatus = OS_Success, ms_takerOrderHashWasSet = False, ms_bigTotalMatchedAmount = 0\<rparr>"

definition mustPerformTakerOrderMatching ::
  "'s MemClobKeeper \<Rightarrow> (MatchableOrder \<Rightarrow> OrderHash) \<Rightarrow> MatchableOrder \<Rightarrow> 's MemClob
   \<Rightarrow> ('s match_state \<times> TakerOrderStatus) res option" where
  "mustPerformTakerOrderMatching k mhash newTakerOrder m =
     (case bindr (mustGetOrderbook m (mo_GetClobPairId newTakerOrder)) (\<lambda>orderbook.
           bindr (takerInitialSize k (mc_store m) newTakerOrder) (\<lambda>takerRemainingSize.
             Inr (orderbook, takerRemainingSize))) of
        Inl e \<Rightarrow> Some (Inl e)
      | Inr (orderbook, takerRemainingSizeBeforeMatching) \<Rightarrow>
          map_option (\<lambda>r. bindr r (\<lambda>ms. Inr (ms,
              \<lparr>tos_OrderStatus = ms_OrderStatus ms, tos_RemainingQuantums = ms_takerRemainingSize ms,
               tos_OrderOptimisticallyFilledQuantums = takerRemainingSizeBeforeMatching - ms_takerRemainingSize ms\<rparr>)))
            (walk_book orderbook (\<not> mo_IsBuy newTakerOrder)
               (matchMaker k mhash (mc_operationsToPropose m) newTakerOrder)
               (initialMatchState (mc_store m) takerRemainingSizeBeforeMatching)))"

section \<open>Definitions: applying matches\<close>

definition recordMatchedOrder ::
  "(MatchableOrder \<Rightarrow> OrderHash) \<Rightarrow> MatchableOrder \<Rightarrow> (OperationsToPropose, unit) step" where
  "recordMatchedOrder mhash matchedOrder =
     (case matchedOrder of
        MO_Liquidation _ \<Rightarrow> retM ()
      | MO_Order order \<Rightarrow>
          bindM (liftM (\<lambda>otp.
            case gm_get (otp_MatchedOrderIdToOrder otp) (o_OrderId order) of
              None \<Rightarrow> Inr ()
            | Some other \<Rightarrow>
                bindr (MustCmpReplacementOrder (\<lambda>x. mhash (MO_Order x)) order other) (\<lambda>c.
                  if c < 0 then Inl (Panic ''newly matched order is lesser than existing order'') else Inr ()))) (\<lambda>_.
          modifyM (\<lambda>otp. otp\<lparr>otp_MatchedOrderIdToOrder :=
                               gm_set (o_OrderId order) order (otp_MatchedOrderIdToOrder otp)\<rparr>)))"

definition addOrderPlacementToOperationsQueue :: "(Order \<Rightarrow> OrderHash) \<Rightarrow> Order \<Rightarrow> (OperationsToPropose, unit) step" where
  "addOrderPlacementToOperationsQueue hash order =
     (if Order_IsStatefulOrder order then MustAddStatefulOrderPlacementToOperationsQueue hash order
      else MustAddShortTermOrderPlacementToOperationsQueue hash order)"

definition mustUpdateOrderbookStateWithMatchedMakerOrder ::
  "'s MemClobKeeper \<Rightarrow> (Order \<Rightarrow> OrderHash) \<Rightarrow> Order \<Rightarrow> ('s MemClob, unit) step" where
  "mustUpdateOrderbookStateWithMatchedMakerOrder k hash makerOrder =
     bindM (readM (\<lambda>m. GetOrderFilledAmount k (mc_store m) (o_OrderId makerOrder))) (\<lambda>newTotalFilledAmount.
       if o_Quantums makerOrder < newTotalFilledAmount
       then failM (Panic ''Total filled size of maker order greater than the order size'')
       else whenM (newTotalFilledAmount = o_Quantums makerOrder) (memclob_mustRemoveOrder hash (o_OrderId makerOrder)))"

definition addMatchedQuantums ::
  "uint64 \<Rightarrow> MatchableOrder \<Rightarrow> (SubaccountId, int) gomap \<Rightarrow> (SubaccountId, int) gomap" where
  "addMatchedQuantums matchedQuantums order totals =
     (let total = (case gm_get totals (mo_GetSubaccountId order) of None \<Rightarrow> 0 | Some t \<Rightarrow> t)
      in gm_set (mo_GetSubaccountId order)
           (if mo_IsBuy order then total + uint matchedQuantums else total - uint matchedQuantums) totals)"

text \<open>The loop over the new maker fills; it returns the fills with their orders and the totals per subaccount.\<close>

fun applyMakerFills ::
  "'s MemClobKeeper \<Rightarrow> (Order \<Rightarrow> OrderHash) \<Rightarrow> MatchableOrder \<Rightarrow> (OrderId, Order) gomap \<Rightarrow> MakerFill list
   \<Rightarrow> MakerFillWithOrder list \<Rightarrow> (SubaccountId, int) gomap
   \<Rightarrow> ('s MemClob, MakerFillWithOrder list \<times> (SubaccountId, int) gomap) step" where
  "applyMakerFills k hash taker matched [] fillsWithOrders totals = retM (fillsWithOrders, totals)"
| "applyMakerFills k hash taker matched (newFill # fills) fillsWithOrders totals =
     (case gm_get matched (mf_MakerOrderId newFill) of
        None \<Rightarrow> failM (Panic ''matched maker order does not exist in matchedMakerOrderIdToOrder'')
      | Some makerOrder \<Rightarrow>
          bindM (readM (\<lambda>m. IsOrderPlacementInOperationsQueue hash (mc_operationsToPropose m) makerOrder)) (\<lambda>placed.
          bindM (whenM (\<not> placed) (on_otp (addOrderPlacementToOperationsQueue hash makerOrder))) (\<lambda>_.
            if mf_FillAmount newFill = 0 then failM (Panic ''Fill has 0 quantums'')
            else bindM (mustUpdateOrderbookStateWithMatchedMakerOrder k hash makerOrder) (\<lambda>_.
              applyMakerFills k hash taker matched fills
                (fillsWithOrders @ [\<lparr>mfo_MakerFill = newFill, mfo_Order = makerOrder\<rparr>])
                (addMatchedQuantums (mf_FillAmount newFill) taker
                  (addMatchedQuantums (mf_FillAmount newFill) (MO_Order makerOrder) totals))))))"

definition removeStatefulFromState :: "OrderId \<Rightarrow> RemovalReason \<Rightarrow> ('s MemClob, unit) step" where
  "removeStatefulFromState orderId reason =
     bindM (readM (\<lambda>m. OrderId_IsStatefulOrder orderId \<and>
              \<not> IsOrderRemovalInOperationsQueue (mc_operationsToPropose m) orderId)) (\<lambda>c.
     whenM c (on_otp (MustAddOrderRemovalToOperationsQueue orderId reason)))"

definition maybeCancelReduceOnlyOrders ::
  "'s MemClobKeeper \<Rightarrow> (Order \<Rightarrow> OrderHash) \<Rightarrow> SubaccountId \<Rightarrow> uint32 \<Rightarrow> int \<Rightarrow> ('s MemClob, unit) step" where
  "maybeCancelReduceOnlyOrders k hash subaccountId clobPairId totalBigMatchedQuantums =
     bindM (readM (\<lambda>m. k_GetStatePosition k (mc_store m) subaccountId clobPairId)) (\<lambda>newPositionSize.
       let previousPositionSize = newPositionSize - totalBigMatchedQuantums
       in if sgn newPositionSize = sgn previousPositionSize then retM ()
          else bindM (liftM (\<lambda>m. bindr (mustGetOrderbook m clobPairId) (\<lambda>orderbook.
                 case gm_get (book_SubaccountOpenReduceOnlyOrders orderbook) subaccountId of
                   None \<Rightarrow> Inr []
                 | Some openReduceOnlyOrders \<Rightarrow> MustSortAndHaveNoDuplicates (gm_keys openReduceOnlyOrders)))) (\<lambda>orderIds.
               forM (\<lambda>orderId.
                 bindM (memclob_mustRemoveOrder hash orderId) (\<lambda>_.
                 removeStatefulFromState orderId REMOVAL_REASON_INVALID_REDUCE_ONLY)) orderIds))"

definition addTakerPlacement :: "(Order \<Rightarrow> OrderHash) \<Rightarrow> mem_ctx \<Rightarrow> MatchableOrder \<Rightarrow> (OperationsToPropose, unit) step" where
  "addTakerPlacement hash ctx takerOrder =
     (case takerOrder of
        MO_Liquidation _ \<Rightarrow> retM ()
      | MO_Order taker \<Rightarrow>
          if Order_IsStatefulOrder taker then MustAddStatefulOrderPlacementToOperationsQueue hash taker
          else bindM (MustAddShortTermOrderTxBytes hash taker (mx_TxBytes ctx)) (\<lambda>_.
               MustAddShortTermOrderPlacementToOperationsQueue hash taker))"

definition mustUpdateMemclobStateWithMatches ::
  "'s MemClobKeeper \<Rightarrow> (MatchableOrder \<Rightarrow> OrderHash) \<Rightarrow> mem_ctx \<Rightarrow> MatchableOrder \<Rightarrow> MakerFill list
   \<Rightarrow> (OrderHash, MatchableOrder) gomap \<Rightarrow> (OrderId, Order) gomap \<Rightarrow> ('s MemClob, unit) step" where
  "mustUpdateMemclobStateWithMatches k mhash ctx takerOrder newMakerFills matchedOrderHashToOrder
       matchedMakerOrderIdToOrder =
     (let hash = (\<lambda>x. mhash (MO_Order x)) in
      bindM (on_otp (forM (recordMatchedOrder mhash) (gm_vals matchedOrderHashToOrder))) (\<lambda>_.
      bindM (applyMakerFills k hash takerOrder matchedMakerOrderIdToOrder newMakerFills [] []) (\<lambda>r.
        case r of (makerFillWithOrders, subaccountTotalMatchedQuantums) \<Rightarrow>
        bindM (on_otp (addTakerPlacement hash ctx takerOrder)) (\<lambda>_.
        bindM (on_otp (MustAddMatchToOperationsQueue hash takerOrder makerFillWithOrders)) (\<lambda>_.
        forM (\<lambda>(subaccountId, total).
          maybeCancelReduceOnlyOrders k hash subaccountId (mo_GetClobPairId takerOrder) total)
          subaccountTotalMatchedQuantums)))))"

text \<open>The maker orders to remove after matching: those collected, and a resting order the taker replaces.\<close>

definition ordersToRemove :: "MatchableOrder \<Rightarrow> Orderbook \<Rightarrow> OrderWithRemovalReason list \<Rightarrow> OrderWithRemovalReason list" where
  "ordersToRemove taker orderbook makerOrdersToRemove =
     makerOrdersToRemove @
     (case taker of
        MO_Liquidation _ \<Rightarrow> []
      | MO_Order order \<Rightarrow>
          (case getOrder orderbook (o_OrderId order) of
             None \<Rightarrow> []
           | Some orderToBeReplaced \<Rightarrow>
               [\<lparr>orr_Order = orderToBeReplaced, orr_RemovalReason = REMOVAL_REASON_UNSPECIFIED\<rparr>]))"

definition matchingError :: "MatchableOrder \<Rightarrow> OrderStatus \<Rightarrow> error option" where
  "matchingError taker status =
     (if \<not> mo_IsLiquidation taker \<and> status = OS_ViolatesIsolatedSubaccountConstraints
      then Some (Err ''ErrWouldViolateIsolatedSubaccountConstraints'')
      else if \<not> mo_IsLiquidation taker \<and> status = OS_PostOnlyWouldCrossMakerOrder
      then Some (Err ''ErrPostOnlyWouldCrossMakerOrder'') else None)"

text \<open>
  Running on a branch of the store, \<^verbatim>\<open>ctx.CacheContext()\<close>, that is written back when the function
  returns and dropped when it panics.
\<close>

definition onBranch :: "'s \<Rightarrow> ('s MemClob, 'a) step \<Rightarrow> ('s MemClob, 'a) step" where
  "onBranch branched f m =
     (case f (m\<lparr>mc_store := branched\<rparr>) of
        (Inl e, m') \<Rightarrow> (Inl e, m'\<lparr>mc_store := mc_store m\<rparr>)
      | (Inr x, m') \<Rightarrow> (Inr x, m'))"

text \<open>\<^verbatim>\<open>matchOrder\<close>: the status of the taker with the matching error.\<close>

definition matchOrder ::
  "'s MemClobKeeper \<Rightarrow> (MatchableOrder \<Rightarrow> OrderHash) \<Rightarrow> mem_ctx \<Rightarrow> MatchableOrder
   \<Rightarrow> ('s MemClob, TakerOrderStatus \<times> error option) step" where
  "matchOrder k mhash ctx order =
     (let hash = (\<lambda>x. mhash (MO_Order x)) in
      bindM (liftM (\<lambda>m. mustGetOrderbook m (mo_GetClobPairId order))) (\<lambda>orderbook.
      bindM (liftM (\<lambda>m. case mustPerformTakerOrderMatching k mhash order m of
                          None \<Rightarrow> Inl (Panic ''matching does not return'') | Some r \<Rightarrow> r)) (\<lambda>(ms, takerOrderStatus).
      bindM (forM (\<lambda>makerOrderWithRemovalReason.
               let makerOrderId = o_OrderId (orr_Order makerOrderWithRemovalReason) in
               bindM (memclob_mustRemoveOrder hash makerOrderId) (\<lambda>_.
               removeStatefulFromState makerOrderId (orr_RemovalReason makerOrderWithRemovalReason)))
             (ordersToRemove order orderbook (ms_makerOrdersToRemove ms))) (\<lambda>_.
        let matchingErr = matchingError order (tos_OrderStatus takerOrderStatus) in
        bindM (whenM (ms_newMakerFills ms \<noteq> [] \<and> matchingErr = None)
                 (onBranch (ms_store ms)
                    (mustUpdateMemclobStateWithMatches k mhash ctx order (ms_newMakerFills ms)
                       (ms_matchedOrderHashToOrder ms) (ms_matchedMakerOrderIdToOrder ms)))) (\<lambda>_.
        retM (takerOrderStatus, matchingErr))))))"

section \<open>Definitions: placing orders\<close>

definition validateReplacement :: "(Order \<Rightarrow> OrderHash) \<Rightarrow> Order \<Rightarrow> Order \<Rightarrow> unit res" where
  "validateReplacement hash existing new =
     bindr (MustCmpReplacementOrder hash existing new) (\<lambda>c.
       if 0 \<le> c \<or> o_Side existing \<noteq> o_Side new \<or> o_TimeInForce existing \<noteq> o_TimeInForce new \<or>
          o_ReduceOnly existing \<noteq> o_ReduceOnly new
       then Inl (Err ''ErrInvalidReplacement'') else Inr ())"

definition validateIfExists :: "(Order \<Rightarrow> OrderHash) \<Rightarrow> Order option \<Rightarrow> Order \<Rightarrow> unit res" where
  "validateIfExists hash existing order =
     (case existing of None \<Rightarrow> Inr () | Some ex \<Rightarrow> validateReplacement hash ex order)"

definition validateNewOrder ::
  "'s MemClobKeeper \<Rightarrow> (Order \<Rightarrow> OrderHash) \<Rightarrow> 's MemClob \<Rightarrow> Order \<Rightarrow> unit res" where
  "validateNewOrder k hash m order =
     bindr (mustGetOrderbook m (oid_ClobPairId (o_OrderId order))) (\<lambda>orderbook.
       let orderId = o_OrderId order;
           existingRestingOrder = getOrder orderbook orderId;
           existingMatchedOrder = gm_get (otp_MatchedOrderIdToOrder (mc_operationsToPropose m)) orderId;
           (remainingAmount, hasRemainingAmount) = GetOrderRemainingAmount k (mc_store m) order;
           existingPositionSize = k_GetStatePosition k (mc_store m) (oid_SubaccountId orderId) (oid_ClobPairId orderId)
       in bindr (guard_err (OrderId_IsShortTermOrder orderId \<and>
                   (case getCancel orderbook orderId of
                      None \<Rightarrow> False | Some cancelTilBlock \<Rightarrow> GetGoodTilBlock (o_GoodTilOneof order) \<le> cancelTilBlock))
                 ''ErrOrderIsCanceled'') (\<lambda>_.
          bindr (validateIfExists hash existingRestingOrder order) (\<lambda>_.
          bindr (validateIfExists hash existingMatchedOrder order) (\<lambda>_.
          bindr (guard_err (\<not> hasRemainingAmount \<or> remainingAmount < book_MinOrderBaseQuantums orderbook)
                   ''ErrOrderFullyFilled'') (\<lambda>_.
          bindr (guard_err (o_ReduceOnly order \<and> sgn (Order_GetBigQuantums order) * sgn existingPositionSize \<noteq> - 1)
                   ''ErrReduceOnlyWouldIncreasePositionSize'') (\<lambda>_.
          if RequiresImmediateExecution order \<and> remainingAmount < o_Quantums order
          then Inl (Err (if existingRestingOrder \<noteq> None then ''ErrInvalidReplacement''
                         else ''ErrImmediateExecutionOrderAlreadyFilled''))
          else Inr ()))))))"

definition memclob_mustAddOrderToOrderbook ::
  "'s MemClobKeeper \<Rightarrow> Order \<Rightarrow> bool \<Rightarrow> ('s MemClob, unit) step" where
  "memclob_mustAddOrderToOrderbook k newOrder forceToFrontOfLevel =
     bindM (liftM (\<lambda>m. if \<not> snd (GetOrderRemainingAmount k (mc_store m) newOrder)
                       then Inl (Panic ''mustAddOrderToOrderbook: order has no remaining amount'') else Inr ())) (\<lambda>_.
     on_book (oid_ClobPairId (o_OrderId newOrder)) (mustAddOrderToOrderbook newOrder forceToFrontOfLevel))"

definition crossed :: "Orderbook \<Rightarrow> bool" where
  "crossed orderbook =
     (case (getBestOrderOnSide orderbook True, getBestOrderOnSide orderbook False) of
        (Some bestBid, Some bestAsk) \<Rightarrow> o_Subticks (co_Order bestAsk) \<le> o_Subticks (co_Order bestBid)
      | _ \<Rightarrow> False)"

text \<open>The deferred check that the book is not crossed, after a function that returned.\<close>

definition checkNotCrossed :: "uint32 \<Rightarrow> ('s MemClob, 'a) step \<Rightarrow> ('s MemClob, 'a) step" where
  "checkNotCrossed clobPairId f m =
     (case f m of
        (Inl (Panic p), m') \<Rightarrow> (Inl (Panic p), m')
      | (r, m') \<Rightarrow>
          (case mustGetOrderbook m' clobPairId of
             Inl e \<Rightarrow> (Inl e, m')
           | Inr orderbook \<Rightarrow> if crossed orderbook then (Inl (Panic ''PlaceOrder: orderbook is crossed''), m') else (r, m')))"

text \<open>What becomes of an order after it was matched: not added, or resting on the book.\<close>

definition restOrder ::
  "'s MemClobKeeper \<Rightarrow> (Order \<Rightarrow> OrderHash) \<Rightarrow> mem_ctx \<Rightarrow> Order \<Rightarrow> TakerOrderStatus
   \<Rightarrow> ('s MemClob, uint64 \<times> OrderStatus) step" where
  "restOrder k hash ctx order takerOrderStatus =
     (let filled = tos_OrderOptimisticallyFilledQuantums takerOrderStatus;
          status = tos_OrderStatus takerOrderStatus
      in if \<not> OrderStatus_IsSuccess status then
           bindM (whenM (status = OS_Undercollateralized)
                    (removeStatefulFromState (o_OrderId order) REMOVAL_REASON_UNDERCOLLATERALIZED)) (\<lambda>_.
           bindM (whenM (status = OS_ReduceOnlyResized)
                    (removeStatefulFromState (o_OrderId order) REMOVAL_REASON_INVALID_REDUCE_ONLY)) (\<lambda>_.
           retM (filled, status)))
         else if tos_RemainingQuantums takerOrderStatus = 0 then retM (filled, status)
         else if o_TimeInForce order = TIME_IN_FORCE_IOC then
           bindM (removeStatefulFromState (o_OrderId order) REMOVAL_REASON_CONDITIONAL_IOC_WOULD_REST_ON_BOOK) (\<lambda>_.
           retM (filled, OS_ImmediateOrCancelWouldRestOnBook))
         else
           bindM (readM (\<lambda>m. Order_IsShortTermOrder order \<and>
                    \<not> IsOrderPlacementInOperationsQueue hash (mc_operationsToPropose m) order)) (\<lambda>c.
           bindM (whenM c (on_otp (MustAddShortTermOrderTxBytes hash order (mx_TxBytes ctx)))) (\<lambda>_.
           bindM (memclob_mustAddOrderToOrderbook k order False) (\<lambda>_.
           retM (filled, OS_Success)))))"

definition PlaceOrder ::
  "'s MemClobKeeper \<Rightarrow> (MatchableOrder \<Rightarrow> OrderHash) \<Rightarrow> mem_ctx \<Rightarrow> Order
   \<Rightarrow> ('s MemClob, uint64 \<times> OrderStatus) step" where
  "PlaceOrder k mhash ctx order =
     (let hash = (\<lambda>x. mhash (MO_Order x)) in
      bindM (liftM (\<lambda>_. AssertCheckTxMode ctx)) (\<lambda>_.
      bindM (liftM (\<lambda>m. mustGetOrderbook m (oid_ClobPairId (o_OrderId order)))) (\<lambda>_.
      checkNotCrossed (oid_ClobPairId (o_OrderId order))
        (bindM (liftM (\<lambda>m. validateNewOrder k hash m order)) (\<lambda>_.
         bindM (matchOrder k mhash ctx (MO_Order order)) (\<lambda>(takerOrderStatus, err).
           case err of
             Some e \<Rightarrow>
               bindM (removeStatefulFromState (o_OrderId order)
                        (if e = Err ''ErrPostOnlyWouldCrossMakerOrder''
                         then REMOVAL_REASON_POST_ONLY_WOULD_CROSS_MAKER_ORDER
                         else if e = Err ''ErrWouldViolateIsolatedSubaccountConstraints''
                         then REMOVAL_REASON_VIOLATES_ISOLATED_SUBACCOUNT_CONSTRAINTS
                         else REMOVAL_REASON_UNSPECIFIED)) (\<lambda>_.
               failM e)
           | None \<Rightarrow> restOrder k hash ctx order takerOrderStatus))))))"

definition PlacePerpetualLiquidation ::
  "'s MemClobKeeper \<Rightarrow> (MatchableOrder \<Rightarrow> OrderHash) \<Rightarrow> mem_ctx \<Rightarrow> LiquidationOrder
   \<Rightarrow> ('s MemClob, uint64 \<times> OrderStatus) step" where
  "PlacePerpetualLiquidation k mhash ctx liquidationOrder =
     bindM (liftM (\<lambda>_. AssertCheckTxMode ctx)) (\<lambda>_.
     bindM (matchOrder k mhash ctx (MO_Liquidation liquidationOrder)) (\<lambda>(liquidationOrderStatus, err).
       case err of
         Some e \<Rightarrow> failM e
       | None \<Rightarrow> retM (tos_OrderOptimisticallyFilledQuantums liquidationOrderStatus,
                      tos_OrderStatus liquidationOrderStatus)))"

definition DeleverageSubaccount ::
  "'s MemClobKeeper \<Rightarrow> mem_ctx \<Rightarrow> SubaccountId \<Rightarrow> uint32 \<Rightarrow> int \<Rightarrow> bool \<Rightarrow> ('s MemClob, int) step" where
  "DeleverageSubaccount k ctx subaccountId perpetualId deltaQuantums isFinalSettlement =
     bindM (liftM (\<lambda>_. AssertCheckTxMode ctx)) (\<lambda>_.
     bindM (on_store (k_OffsetSubaccountPerpetualPosition k subaccountId perpetualId deltaQuantums isFinalSettlement))
       (\<lambda>(fills, deltaQuantumsRemaining).
     bindM (whenM (fills \<noteq> [])
              (on_otp (MustAddDeleveragingToOperationsQueue subaccountId perpetualId fills isFinalSettlement))) (\<lambda>_.
     retM \<bar>deltaQuantums - deltaQuantumsRemaining\<bar>)))"

section \<open>Definitions: replay and purge\<close>

text \<open>
  \<^verbatim>\<open>ReplayOperations\<close>. The keeper's \<^verbatim>\<open>ReplayPlaceOrder\<close> and \<^verbatim>\<open>AddPreexistingStatefulOrder\<close> place orders back
  into this memclob, so they are arguments that act on the whole state; their errors are logged and
  dropped. A panic ends the replay with the state reached and is recovered.
\<close>

type_synonym 's placer = "mem_ctx \<Rightarrow> Order \<Rightarrow> ('s MemClob, uint64 \<times> OrderStatus) step"

definition dropError :: "('s, 'a) step \<Rightarrow> ('s, unit) step" where
  "dropError f s = (case f s of (Inl (Panic p), s') \<Rightarrow> (Inl (Panic p), s') | (_, s') \<Rightarrow> (Inr (), s'))"

definition recoverPanic :: "('s, unit) step \<Rightarrow> ('s, unit) step" where
  "recoverPanic f s = (case f s of (_, s') \<Rightarrow> (Inr (), s'))"

text \<open>A replayed short-term order; the result is the context with its transaction bytes.\<close>

definition replayShortTerm ::
  "'s placer \<Rightarrow> (Order \<Rightarrow> OrderHash) \<Rightarrow> mem_ctx \<Rightarrow> (OrderHash, bytes) gomap \<Rightarrow> bool \<Rightarrow> Order \<Rightarrow> ('s MemClob, mem_ctx) step" where
  "replayShortTerm replayPlaceOrder hash ctx shortTermOrderTxBytes postOnlyFilter order =
     (if postOnlyFilter \<noteq> IsPostOnlyOrder order then retM ctx
      else case gm_get shortTermOrderTxBytes (hash order) of
             None \<Rightarrow> failM (Panic ''ReplayOperations: Short-Term order TX bytes not found'')
           | Some b \<Rightarrow>
               if length b = 0 then failM (Panic ''ReplayOperations: Short-Term order TX bytes not found'')
               else let ctx = ctx\<lparr>mx_TxBytes := b\<rparr> in
                    bindM (dropError (replayPlaceOrder ctx order)) (\<lambda>_. retM ctx))"

text \<open>
  A replayed stateful order: found in state, not placed before in this replay, and of the kind the
  filter asks for. The result says whether it was placed.
\<close>

definition replayStateful ::
  "'s MemClobKeeper \<Rightarrow> 's placer \<Rightarrow> mem_ctx \<Rightarrow> bool \<Rightarrow> bool \<Rightarrow> OrderId \<Rightarrow> ('s MemClob, bool) step" where
  "replayStateful k place ctx postOnlyFilter alreadyPlaced orderId =
     bindM (readM (\<lambda>m. k_GetLongTermOrderPlacement k (mc_store m) orderId)) (\<lambda>placement.
       case placement of
         None \<Rightarrow> retM False
       | Some statefulOrderPlacement \<Rightarrow>
           if alreadyPlaced then retM False
           else if postOnlyFilter \<noteq> IsPostOnlyOrder (lp_Order statefulOrderPlacement) then retM False
           else bindM (dropError (place ctx (lp_Order statefulOrderPlacement))) (\<lambda>_. retM True))"

fun replayOps ::
  "'s MemClobKeeper \<Rightarrow> 's placer \<Rightarrow> 's placer \<Rightarrow> (MatchableOrder \<Rightarrow> OrderHash) \<Rightarrow> mem_ctx \<Rightarrow> (OrderHash, bytes) gomap
   \<Rightarrow> bool \<Rightarrow> OrderId set \<Rightarrow> OrderId set \<Rightarrow> InternalOperation list \<Rightarrow> ('s MemClob, unit) step" where
  "replayOps k replayPlaceOrder addPreexisting mhash ctx tx filt placedPreexisting placedRemoval [] = retM ()"
| "replayOps k replayPlaceOrder addPreexisting mhash ctx tx filt placedPreexisting placedRemoval (operation # ops) =
     (let rest = (\<lambda>ctx pre rem. replayOps k replayPlaceOrder addPreexisting mhash ctx tx filt pre rem ops) in
      case operation of
        Op_ShortTermOrderPlacement order \<Rightarrow>
          bindM (replayShortTerm replayPlaceOrder (\<lambda>x. mhash (MO_Order x)) ctx tx filt order) (\<lambda>ctx.
          rest ctx placedPreexisting placedRemoval)
      | Op_PreexistingStatefulOrder orderId \<Rightarrow>
          bindM (replayStateful k addPreexisting ctx filt
                   (orderId \<in> placedPreexisting \<or> orderId \<in> placedRemoval) orderId) (\<lambda>placed.
          rest ctx (if placed then insert orderId placedPreexisting else placedPreexisting) placedRemoval)
      | Op_Match _ \<Rightarrow> rest ctx placedPreexisting placedRemoval
      | Op_OrderRemoval orderId _ \<Rightarrow>
          bindM (replayStateful k (PlaceOrder k mhash) ctx filt
                   (orderId \<in> placedPreexisting \<or> orderId \<in> placedRemoval) orderId) (\<lambda>placed.
          rest ctx placedPreexisting (if placed then insert orderId placedRemoval else placedRemoval)))"

definition ReplayOperations ::
  "'s MemClobKeeper \<Rightarrow> 's placer \<Rightarrow> 's placer \<Rightarrow> (MatchableOrder \<Rightarrow> OrderHash) \<Rightarrow> mem_ctx \<Rightarrow> InternalOperation list
   \<Rightarrow> (OrderHash, bytes) gomap \<Rightarrow> bool \<Rightarrow> ('s MemClob, unit) step" where
  "ReplayOperations k replayPlaceOrder addPreexisting mhash ctx localOperations shortTermOrderTxBytes postOnlyFilter =
     bindM (liftM (\<lambda>_. AssertCheckTxMode ctx)) (\<lambda>_.
     recoverPanic (replayOps k replayPlaceOrder addPreexisting mhash ctx shortTermOrderTxBytes postOnlyFilter {} {}
       localOperations))"

definition clearOp :: "(Order \<Rightarrow> OrderHash) \<Rightarrow> InternalOperation \<Rightarrow> ('s MemClob, unit) step" where
  "clearOp hash operation =
     (case operation of
        Op_ShortTermOrderPlacement order \<Rightarrow>
          bindM (liftM (\<lambda>m. GetOrder m (o_OrderId order))) (\<lambda>existingOrder.
            if (case existingOrder of None \<Rightarrow> False | Some ex \<Rightarrow> hash ex = hash order)
            then memclob_mustRemoveOrder hash (o_OrderId order)
            else on_otp (RemoveShortTermOrderTxBytes hash order))
      | Op_PreexistingStatefulOrder orderId \<Rightarrow>
          bindM (liftM (\<lambda>m. GetOrder m orderId)) (\<lambda>existingOrder.
            whenM (existingOrder \<noteq> None) (memclob_mustRemoveOrder hash orderId))
      | _ \<Rightarrow> retM ())"

definition RemoveAndClearOperationsQueue ::
  "(Order \<Rightarrow> OrderHash) \<Rightarrow> mem_ctx \<Rightarrow> InternalOperation list \<Rightarrow> ('s MemClob, unit) step" where
  "RemoveAndClearOperationsQueue hash ctx localValidatorOperationsQueue =
     bindM (liftM (\<lambda>_. AssertCheckTxMode ctx)) (\<lambda>_.
     bindM (on_otp (modifyM ClearOperationsQueue)) (\<lambda>_.
     forM (clearOp hash) localValidatorOperationsQueue))"

definition RemoveOrderIfFilled ::
  "'s MemClobKeeper \<Rightarrow> (Order \<Rightarrow> OrderHash) \<Rightarrow> OrderId \<Rightarrow> ('s MemClob, unit) step" where
  "RemoveOrderIfFilled k hash orderId =
     bindM (liftM (\<lambda>m. bindr (GetOrder m orderId) (\<lambda>order. Inr (order, k_GetOrderFillAmount k (mc_store m) orderId)))) (\<lambda>r.
       case r of
         (Some order, Some (orderStateFillAmount, _)) \<Rightarrow>
           whenM (o_Quantums order \<le> orderStateFillAmount) (memclob_mustRemoveOrder hash (o_OrderId order))
       | _ \<Rightarrow> retM ())"

definition removeStatefulIfExists :: "(Order \<Rightarrow> OrderHash) \<Rightarrow> OrderId \<Rightarrow> ('s MemClob, unit) step" where
  "removeStatefulIfExists hash statefulOrderId =
     bindM (liftM (\<lambda>_. OrderId_MustBeStatefulOrder statefulOrderId)) (\<lambda>_.
     bindM (liftM (\<lambda>m. bindr (mustGetOrderbook m (oid_ClobPairId statefulOrderId)) (\<lambda>b. Inr (hasOrder b statefulOrderId))))
       (\<lambda>exists. whenM exists (memclob_mustRemoveOrder hash statefulOrderId)))"

text \<open>\<^verbatim>\<open>lib.DedupeSlice\<close>: the first occurrences, in order.\<close>

definition DedupeSlice :: "'a list \<Rightarrow> 'a list" where
  "DedupeSlice values = rev (remdups (rev values))"

definition removeExpired :: "(Order \<Rightarrow> OrderHash) \<Rightarrow> uint32 \<Rightarrow> uint32 \<Rightarrow> ('s MemClob, unit) step" where
  "removeExpired hash blockHeight clobPairId =
     bindM (liftM (\<lambda>m. bindr (mustGetOrderbook m clobPairId) (\<lambda>b.
              Inr (gm_keys (gm_at (book_blockExpirationsForOrders b) blockHeight))))) (\<lambda>orderIds.
     forM (memclob_mustRemoveOrder hash) orderIds)"

definition PurgeInvalidMemclobState ::
  "'s MemClobKeeper \<Rightarrow> (Order \<Rightarrow> OrderHash) \<Rightarrow> mem_ctx \<Rightarrow> OrderId list \<Rightarrow> OrderId list \<Rightarrow> OrderId list \<Rightarrow> OrderId list
   \<Rightarrow> ('s MemClob, unit) step" where
  "PurgeInvalidMemclobState k hash ctx filledOrderIds expiredStatefulOrderIds canceledStatefulOrderIds
       removedStatefulOrderIds =
     bindM (liftM (\<lambda>_. AssertCheckTxMode ctx)) (\<lambda>_.
     bindM (liftM (\<lambda>_. MustConvertIntegerToUint32 (mx_BlockHeight ctx))) (\<lambda>blockHeight.
     bindM (forM (RemoveOrderIfFilled k hash) filledOrderIds) (\<lambda>_.
     bindM (forM (removeStatefulIfExists hash) (DedupeSlice canceledStatefulOrderIds)) (\<lambda>_.
     bindM (forM (removeStatefulIfExists hash) (DedupeSlice expiredStatefulOrderIds)) (\<lambda>_.
     bindM (readM (\<lambda>m. gm_keys (mc_orderbooks m))) (\<lambda>clobPairIds.
     bindM (forM (removeExpired hash blockHeight) clobPairIds) (\<lambda>_.
     bindM (forM (removeStatefulIfExists hash) removedStatefulOrderIds) (\<lambda>_.
     forM (\<lambda>clobPairId. on_book clobPairId (removeAllCancelsAtBlock blockHeight)) clobPairIds))))))))"

section \<open>Definitions: prices of the book\<close>

definition memclob_GetMidPrice :: "'s MemClob \<Rightarrow> uint32 \<Rightarrow> (uint64 \<times> Order option \<times> Order option \<times> bool) res" where
  "memclob_GetMidPrice m clobPairId =
     bindr (mustGetOrderbook m clobPairId) (\<lambda>orderbook.
       let (midPrice, exists) = GetMidPrice orderbook
       in Inr (midPrice, map_option co_Order (getBestOrderOnSide orderbook True),
               map_option co_Order (getBestOrderOnSide orderbook False), exists))"

definition hasSufficientCollat ::
  "'s MemClobKeeper \<Rightarrow> 's \<Rightarrow> ClobPair \<Rightarrow> Order \<Rightarrow> uint64 \<Rightarrow> bool" where
  "hasSufficientCollat k store clobPair makerOrder makerOrderRemainingSize \<longleftrightarrow>
     k_AddOrderToOrderbookSubaccountUpdatesCheck k store (oid_SubaccountId (o_OrderId makerOrder))
       \<lparr>poo_RemainingQuantums = makerOrderRemainingSize, poo_IsBuy = Order_IsBuy makerOrder,
        poo_Subticks = o_Subticks makerOrder, poo_ClobPairId = cp_Id clobPair,
        poo_BuilderCodeParameters = o_BuilderCodeParameters makerOrder\<rparr> = Success"

text \<open>One iteration of the impact price loop on (remaining impact notional, accumulated base quantums).\<close>

definition impactStep ::
  "'s MemClobKeeper \<Rightarrow> 's \<Rightarrow> ClobPair \<Rightarrow> LevelOrder \<Rightarrow> int \<times> rat \<Rightarrow> (int \<times> rat) loop res" where
  "impactStep k store clobPair makerLevelOrder st =
     (case st of (remainingImpactQuoteQuantums, accumulatedBaseQuantums) \<Rightarrow>
      let makerOrder = co_Order makerLevelOrder;
          (makerRemainingSize, makerHasRemainingSize) = GetOrderRemainingAmount k store makerOrder;
          quoteQuantumsIfFullyMatched =
            FillAmountToQuoteQuantums (o_Subticks makerOrder) makerRemainingSize (cp_QuantumConversionExponent clobPair)
      in if remainingImpactQuoteQuantums \<le> 0 then Inr (Break st)
         else if \<not> makerHasRemainingSize then Inl (Panic ''getImpactPriceSubticks: maker order has no remaining amount'')
         else if \<not> hasSufficientCollat k store clobPair makerOrder makerRemainingSize then Inr (Continue st)
         else Inr (Continue
           (remainingImpactQuoteQuantums - quoteQuantumsIfFullyMatched,
            accumulatedBaseQuantums +
              (if quoteQuantumsIfFullyMatched < remainingImpactQuoteQuantums then of_int (uint makerRemainingSize)
               else of_int remainingImpactQuoteQuantums / of_int quoteQuantumsIfFullyMatched *
                    of_int (uint makerRemainingSize)))))"

definition impactWalk ::
  "'s MemClobKeeper \<Rightarrow> 's \<Rightarrow> ClobPair \<Rightarrow> Orderbook \<Rightarrow> bool \<Rightarrow> int \<Rightarrow> rat option res option" where
  "impactWalk k store clobPair orderbook isBid impactNotionalQuoteQuantums =
     map_option (\<lambda>r. bindr r (\<lambda>(remainingImpactQuoteQuantums, accumulatedBaseQuantums).
       if 0 < remainingImpactQuoteQuantums then Inr None
       else bindr (GetAveragePriceSubticks impactNotionalQuoteQuantums (BigRatRound accumulatedBaseQuantums True)
                     (cp_QuantumConversionExponent clobPair)) (\<lambda>p. Inr (Some p))))
       (walk_book orderbook isBid (impactStep k store clobPair) (impactNotionalQuoteQuantums, 0))"

text \<open>\<^verbatim>\<open>getImpactPriceSubticks\<close>: the inner \<^const>\<open>None\<close> is the result without enough liquidity.\<close>

definition getImpactPriceSubticks ::
  "'s MemClobKeeper \<Rightarrow> 's \<Rightarrow> ClobPair \<Rightarrow> Orderbook \<Rightarrow> bool \<Rightarrow> int \<Rightarrow> rat option res option" where
  "getImpactPriceSubticks k store clobPair orderbook isBid impactNotionalQuoteQuantums =
     (case getBestOrderOnSide orderbook isBid of
        Some makerLevelOrder \<Rightarrow>
          if impactNotionalQuoteQuantums = 0
          then Some (Inr (Some (of_int (uint (o_Subticks (co_Order makerLevelOrder))))))
          else impactWalk k store clobPair orderbook isBid impactNotionalQuoteQuantums
      | None \<Rightarrow> impactWalk k store clobPair orderbook isBid impactNotionalQuoteQuantums)"

definition getPricePremiumFromSide ::
  "'s MemClobKeeper \<Rightarrow> 's \<Rightarrow> ClobPair \<Rightarrow> Orderbook \<Rightarrow> bool \<Rightarrow> int \<Rightarrow> rat \<Rightarrow> int32 \<Rightarrow> int32 \<Rightarrow> int32 res option" where
  "getPricePremiumFromSide k store clobPair orderbook isBid impactNotionalQuoteQuantums indexPriceSubticks
       minPremiumPpm maxPremiumPpm =
     map_option (\<lambda>r. bindr r (\<lambda>impact.
       case impact of
         None \<Rightarrow> Inr 0
       | Some impactPriceSubticks \<Rightarrow>
           if (\<not> isBid \<and> indexPriceSubticks \<le> impactPriceSubticks) \<or> (isBid \<and> impactPriceSubticks \<le> indexPriceSubticks)
           then Inr 0
           else
             let result = impactPriceSubticks * 1000000 / indexPriceSubticks - 1000000;
                 resultRounded = (if 0 < result then BigRatRound result False else BigRatRound result True)
             in Inr (BigInt32Clamp resultRounded minPremiumPpm maxPremiumPpm)))
       (getImpactPriceSubticks k store clobPair orderbook isBid impactNotionalQuoteQuantums)"

record GetPricePremiumParams =
  gpp_IndexPrice :: MarketPrice
  gpp_BaseAtomicResolution :: int32
  gpp_QuoteAtomicResolution :: int32
  gpp_ImpactNotionalQuoteQuantums :: int
  gpp_MaxAbsPremiumVotePpm :: int

definition GetPricePremium ::
  "'s MemClobKeeper \<Rightarrow> 's MemClob \<Rightarrow> ClobPair \<Rightarrow> GetPricePremiumParams \<Rightarrow> int32 res option" where
  "GetPricePremium k m clobPair params =
     (case bindr (MustConvertBigIntToInt32 (gpp_MaxAbsPremiumVotePpm params)) (\<lambda>maxPremiumPpm.
           bindr (case cp_Metadata clobPair of
                    PerpetualClobMetadata _ \<Rightarrow> Inr () | _ \<Rightarrow> Inl (Err ''ErrPremiumWithNonPerpetualClobPair'')) (\<lambda>_.
           bindr (mustGetOrderbook m (cp_Id clobPair)) (\<lambda>orderbook.
             Inr (maxPremiumPpm, orderbook)))) of
        Inl e \<Rightarrow> Some (Inl e)
      | Inr (maxPremiumPpm, orderbook) \<Rightarrow>
          let indexPriceSubticks = PriceToSubticks (gpp_IndexPrice params) clobPair (gpp_BaseAtomicResolution params)
                (gpp_QuoteAtomicResolution params);
              bestBid = getBestOrderOnSide orderbook True;
              bestAsk = getBestOrderOnSide orderbook False;
              premium = (\<lambda>isBid. getPricePremiumFromSide k (mc_store m) clobPair orderbook isBid
                (gpp_ImpactNotionalQuoteQuantums params) indexPriceSubticks (- maxPremiumPpm) maxPremiumPpm)
          in if indexPriceSubticks = 0 then Some (Inl (Err ''ErrZeroIndexPriceForPremiumCalculation''))
             else if bestBid = None \<and> bestAsk = None then Some (Inr 0)
             else if crossed orderbook then Some (Inl (Panic ''GetPricePremium: crossing orderbook''))
             else if bestBid \<noteq> None \<and> indexPriceSubticks < of_int (uint (o_Subticks (co_Order (the bestBid))))
             then premium True
             else if bestAsk \<noteq> None \<and> of_int (uint (o_Subticks (co_Order (the bestAsk)))) < indexPriceSubticks
             then premium False
             else Some (Inr 0))"

section \<open>Walking a book is walking its queue\<close>

fun walk_list :: "('n \<Rightarrow> 's \<Rightarrow> 's loop res) \<Rightarrow> 'n list \<Rightarrow> 's \<Rightarrow> 's res" where
  "walk_list body [] s = Inr s"
| "walk_list body (n # ns) s =
     (case body n s of
        Inl e \<Rightarrow> Inl e
      | Inr (Break s') \<Rightarrow> Inr s'
      | Inr (Continue s') \<Rightarrow> walk_list body ns s')"

context price_time_book
begin

lemma walk_suffix:
  assumes "ok b isBuy" "queue b isBuy = xs @ ys"
  shows "walk (after b) body (hd_opt ys) s = Some (walk_list body ys s)"
  using assms(2)
proof (induction ys arbitrary: xs s)
  case Nil
  then show ?case by (simp add: walk.simps)
next
  case (Cons n ns)
  have "walk (after b) body (after b n) s' = Some (walk_list body ns s')" for s'
    using Cons.IH[of "xs @ [n]"] Cons.prems after_next[OF assms(1) Cons.prems] by simp
  then show ?case
    by (subst walk.simps) (simp split: sum.split loop.split)
qed

lemma walk_queue:
  assumes "ok b isBuy"
  shows "walk (after b) body (best b isBuy) s = Some (walk_list body (queue b isBuy) s)"
  using walk_suffix[OF assms, of "[]" "queue b isBuy"] best_hd[OF assms] by simp

end

lemma walk_book_queue:
  assumes "book_inv b" "prices_bounded b isBuy"
  shows "walk_book b isBuy body s = Some (walk_list body (book_queue b isBuy) s)"
  unfolding walk_book_def by (rule book.walk_queue) (simp add: assms)

lemma walk_list_inv:
  assumes "walk_list body q s = Inr t" "P pre s"
    and "\<And>pre n post s s'. pre @ n # post = pre0 @ q \<Longrightarrow> P pre s \<Longrightarrow> body n s = Inr (Continue s') \<Longrightarrow> P (pre @ [n]) s'"
    and "\<And>pre n post s s'. pre @ n # post = pre0 @ q \<Longrightarrow> P pre s \<Longrightarrow> body n s = Inr (Break s') \<Longrightarrow> Q pre n s'"
    and "pre = pre0"
  shows "P (pre0 @ q) t \<or> (\<exists>pre n post. pre0 @ q = pre @ n # post \<and> Q pre n t)"
  using assms
proof (induction q arbitrary: pre pre0 s)
  case (Cons n ns)
  from Cons.prems(1) consider (brk) s' where "body n s = Inr (Break s')" "t = s'"
    | (cont) s' where "body n s = Inr (Continue s')" "walk_list body ns s' = Inr t"
    by (auto split: sum.splits loop.splits)
  then show ?case
  proof cases
    case brk
    with Cons.prems(4)[of pre n ns s t] Cons.prems(2,5) show ?thesis by blast
  next
    case cont
    have "P (pre @ [n]) s'" using Cons.prems(3)[of pre n ns s s'] Cons.prems(2,5) cont by simp
    from Cons.IH[OF cont(2) this, of "pre0 @ [n]"] Cons.prems(3,4,5) show ?thesis
      by simp
  qed
qed auto

section \<open>Taker matching\<close>

text \<open>What one iteration of the matching loop can do.\<close>

definition stores_only :: "'s match_state \<Rightarrow> 's match_state \<Rightarrow> bool" where
  "stores_only ms ms' \<longleftrightarrow> (\<exists>st os. ms' = ms\<lparr>ms_store := st, ms_OrderStatus := os\<rparr>)"

lemma resize_bounds:
  "resizeReduceOnlyMatchIfNecessary pos amount isBuy \<le> amount"
proof -
  have "uint (word_of_int (BigMin \<bar>pos\<bar> (uint amount)) :: uint64) \<le> uint amount"
  proof -
    have "0 \<le> BigMin \<bar>pos\<bar> (uint amount)" "BigMin \<bar>pos\<bar> (uint amount) \<le> uint amount"
      by (simp_all add: BigMin_def)
    then show ?thesis using uint64_less[of amount] by (simp add: uint64_of_int)
  qed
  then show ?thesis
    by (simp add: resizeReduceOnlyMatchIfNecessary_def Let_def word_le_def)
qed

lemma remaining_pos:
  assumes "GetOrderRemainingAmount k st order = (r, True)"
  shows "0 < r" "r \<le> o_Quantums order"
proof -
  let ?f = "GetOrderFilledAmount k st (o_OrderId order)"
  from assms have r: "r = o_Quantums order - ?f" "?f < o_Quantums order"
    by (auto simp: GetOrderRemainingAmount_def Let_def split: if_splits)
  then have "unat r = unat (o_Quantums order) - unat ?f"
    by (simp add: unat_sub_if' word_less_nat_alt)
  with r(2) show "0 < r" "r \<le> o_Quantums order"
    by (simp_all add: word_less_nat_alt word_le_nat_alt)
qed

lemma sizeMatch_cases:
  assumes "sizeMatch k mhash taker maker ms = Inr r" "0 < ms_takerRemainingSize ms"
  obtains (resized) "r = Continue (removeMaker maker REMOVAL_REASON_INVALID_REDUCE_ONLY ms)"
  | (process) amount where "processMatch k mhash taker maker amount ms = Inr r"
      "0 < amount" "amount \<le> ms_takerRemainingSize ms" "amount \<le> o_Quantums maker"
      "amount \<le> fst (GetOrderRemainingAmount k (ms_store ms) maker)"
proof -
  obtain mr has where mr: "GetOrderRemainingAmount k (ms_store ms) maker = (mr, has)" by force
  define a0 where "a0 = (if mr \<le> ms_takerRemainingSize ms then mr else ms_takerRemainingSize ms)"
  define a1 where "a1 = (if o_ReduceOnly maker then resizeReduceOnlyMatchIfNecessary
    (k_GetStatePosition k (ms_store ms) (oid_SubaccountId (o_OrderId maker)) (mo_GetClobPairId taker)) a0 (\<not> mo_IsBuy taker) else a0)"
  define a2 where "a2 = (if mo_IsReduceOnly taker then resizeReduceOnlyMatchIfNecessary
    (k_GetStatePosition k (ms_store ms) (mo_GetSubaccountId taker) (mo_GetClobPairId taker)) a1 (mo_IsBuy taker) else a1)"
  have eq: "sizeMatch k mhash taker maker ms =
     (if \<not> has then Inl (Panic ''mustPerformTakerOrderMatching: maker order has no remaining amount'')
      else if o_ReduceOnly maker \<and> a1 = 0 then Inr (Continue (removeMaker maker REMOVAL_REASON_INVALID_REDUCE_ONLY ms))
      else if mo_IsReduceOnly taker \<and> a2 = 0 then Inl (Panic ''mustPerformTakerOrderMatching: taker reduce-only order resized to 0'')
      else processMatch k mhash taker maker a2 ms)"
    by (simp add: sizeMatch_def mr a0_def a1_def a2_def Let_def)
  with assms(1) have has: "has" by (auto split: if_splits)
  have m: "0 < mr" "mr \<le> o_Quantums maker" using remaining_pos[of k "ms_store ms" maker mr] mr has by auto
  have a0: "0 < a0" "a0 \<le> ms_takerRemainingSize ms" "a0 \<le> o_Quantums maker" "a0 \<le> mr"
    using m assms(2) by (auto simp: a0_def)
  have a1: "a1 \<le> a0" and a2: "a2 \<le> a1" by (simp_all add: a1_def a2_def resize_bounds)
  have nz: "a1 \<noteq> 0" if "\<not> (o_ReduceOnly maker \<and> a1 = 0)" using that a0 by (auto simp: a1_def split: if_splits)
  have nz2: "a2 \<noteq> 0" if "a1 \<noteq> 0" "\<not> (mo_IsReduceOnly taker \<and> a2 = 0)" using that by (auto simp: a2_def split: if_splits)
  show thesis
  proof (cases "o_ReduceOnly maker \<and> a1 = 0")
    case True
    then show ?thesis using assms(1) has resized unfolding eq by simp
  next
    case False
    then have "\<not> (mo_IsReduceOnly taker \<and> a2 = 0)" "processMatch k mhash taker maker a2 ms = Inr r"
      using assms(1) has unfolding eq by (auto split: if_splits)
    then show ?thesis
      using process[of a2] nz[OF False] nz2 a0 a1 a2 by (simp add: word_pos_iff mr)
  qed
qed

lemma afterMatch_cases:
  assumes "afterMatch k mhash taker maker amount outcome ms = Inr r"
  obtains (stop) ms' where "r = Break ms'" "stores_only ms ms'" "ms_OrderStatus ms' \<noteq> OS_Success"
  | (stop_remove) ms' where "r = Break ms'" "stores_only (removeMaker maker REMOVAL_REASON_UNDERCOLLATERALIZED ms) ms'"
      "ms_OrderStatus ms' \<noteq> OS_Success"
  | (remove) "r = Continue (removeMaker maker REMOVAL_REASON_UNDERCOLLATERALIZED ms)"
  | (skip) "r = Continue ms" "\<not> fst outcome" "IsSuccess (fst (snd (snd outcome)))"
      "mo_IsLiquidation taker \<or> IsSuccess (fst (snd outcome))"
  | (match) "r = recordMatch k mhash taker maker amount ms"
proof -
  obtain success tr mr err where o: "outcome = (success, tr, mr, err)" by (cases outcome)
  have st: "OrderStatus_IsSuccess (updateResultToOrderStatus u) \<longleftrightarrow> IsSuccess u" for u
    by (cases u) (simp_all add: OrderStatus_IsSuccess_def updateResultToOrderStatus_def IsSuccess_def)
  have nz: "updateResultToOrderStatus u \<noteq> OS_Success" if "\<not> IsSuccess u" for u
    using that st[of u] by (simp add: OrderStatus_IsSuccess_def)
  have so: "stores_only x (x\<lparr>ms_OrderStatus := os\<rparr>)" for x :: "'a match_state" and os
    unfolding stores_only_def by (rule exI[of _ "ms_store x"]) auto
  show thesis
  proof (cases "err \<noteq> None \<and> err \<noteq> Some (Err ''ErrFailedToUpdateSubaccounts'')")
    case True
    with assms show ?thesis
      by (auto simp: afterMatch_def o split: if_splits intro!: stop so)
  next
    case False
    then show ?thesis
    proof (cases success)
      case True
      show ?thesis
      proof (cases "takerIsPostOnly taker")
        case post: True
        with True False assms have "r = Break (ms\<lparr>ms_OrderStatus := OS_PostOnlyWouldCrossMakerOrder\<rparr>)"
          by (auto simp: afterMatch_def o split: if_splits)
        then show ?thesis by (rule stop[OF _ so]) simp
      next
        case npost: False
        with True False assms have "r = recordMatch k mhash taker maker amount ms"
          by (auto simp: afterMatch_def o split: if_splits)
        then show ?thesis by (rule match)
      qed
    next
      case ns: False
      show ?thesis
      proof (cases "IsSuccess mr"; cases "mo_IsLiquidation taker \<or> IsSuccess tr")
        assume a: "IsSuccess mr" "mo_IsLiquidation taker \<or> IsSuccess tr"
        have "r = Continue ms" using False ns assms a by (auto simp: afterMatch_def o st Let_def)
        then show ?thesis using a ns by (intro skip) (simp_all add: o)
      next
        assume a: "IsSuccess mr" "\<not> (mo_IsLiquidation taker \<or> IsSuccess tr)"
        have "r = Break (ms\<lparr>ms_OrderStatus := updateResultToOrderStatus tr\<rparr>)"
          using False ns assms a by (auto simp: afterMatch_def o st Let_def)
        then show ?thesis using a nz[of tr] by (intro stop[OF _ so]) simp_all
      next
        assume a: "\<not> IsSuccess mr" "mo_IsLiquidation taker \<or> IsSuccess tr"
        have "r = Continue (removeMaker maker REMOVAL_REASON_UNDERCOLLATERALIZED ms)"
          using False ns assms a by (auto simp: afterMatch_def o st Let_def)
        then show ?thesis by (rule remove)
      next
        assume a: "\<not> IsSuccess mr" "\<not> (mo_IsLiquidation taker \<or> IsSuccess tr)"
        have "r = Break ((removeMaker maker REMOVAL_REASON_UNDERCOLLATERALIZED ms)\<lparr>ms_OrderStatus := updateResultToOrderStatus tr\<rparr>)"
          using False ns assms a by (auto simp: afterMatch_def o st Let_def)
        then show ?thesis using a nz[of tr] by (intro stop_remove[OF _ so]) simp_all
      qed
    qed
  qed
qed

text \<open>The makers a matching run has filled and those it will remove.\<close>

abbreviation filled_ids :: "'s match_state \<Rightarrow> OrderId list" where
  "filled_ids ms \<equiv> map mf_MakerOrderId (ms_newMakerFills ms)"

abbreviation removed_ids :: "'s match_state \<Rightarrow> OrderId list" where
  "removed_ids ms \<equiv> map (\<lambda>x. o_OrderId (orr_Order x)) (ms_makerOrdersToRemove ms)"

abbreviation filled_amount :: "'s match_state \<Rightarrow> int" where
  "filled_amount ms \<equiv> \<Sum>f \<leftarrow> ms_newMakerFills ms. uint (mf_FillAmount f)"

definition fill_ok :: "MatchableOrder \<Rightarrow> (OrderId, Order) gomap \<Rightarrow> ClobOrder \<Rightarrow> MakerFill \<Rightarrow> bool" where
  "fill_ok taker matched n f \<longleftrightarrow>
     node_id n = mf_MakerOrderId f \<and> 0 < mf_FillAmount f \<and> mf_FillAmount f \<le> o_Quantums (co_Order n) \<and>
     oid_SubaccountId (node_id n) \<noteq> mo_GetSubaccountId taker \<and> \<not> isReplacedBy taker (node_id n) \<and>
     gm_get matched (node_id n) = Some (co_Order n)"

text \<open>The invariant of the loop, after the makers \<open>pre\<close> at the front of the queue.\<close>

definition match_inv :: "MatchableOrder \<Rightarrow> uint64 \<Rightarrow> ClobOrder list \<Rightarrow> 's match_state \<Rightarrow> bool" where
  "match_inv taker whole pre ms \<longleftrightarrow>
     uint (ms_takerRemainingSize ms) + filled_amount ms = uint whole \<and>
     subseq (filled_ids ms) (map node_id pre) \<and> subseq (removed_ids ms) (map node_id pre) \<and>
     set (filled_ids ms) \<inter> set (removed_ids ms) = {} \<and>
     (\<forall>f \<in> set (ms_newMakerFills ms). \<exists>n \<in> set pre. fill_ok taker (ms_matchedMakerOrderIdToOrder ms) n f) \<and>
     (\<forall>n \<in> set pre. takerOrderCrossesMakerOrder taker (co_Order n))"

definition accounted :: "MatchableOrder \<Rightarrow> 's match_state \<Rightarrow> ClobOrder \<Rightarrow> bool" where
  "accounted taker ms n \<longleftrightarrow>
     isReplacedBy taker (node_id n) \<or> node_id n \<in> set (filled_ids ms) \<or> node_id n \<in> set (removed_ids ms)"

text \<open>When a match fails, the keeper reports which of the two updates failed.\<close>

definition reports_failure :: "'s MemClobKeeper \<Rightarrow> bool" where
  "reports_failure k \<longleftrightarrow>
     (\<forall>match st tr mr err st'. k_ProcessSingleMatch k match st = (Inr (False, tr, mr, err), st') \<longrightarrow>
        \<not> (IsSuccess tr \<and> IsSuccess mr))"

lemma removeMaker_simps [simp]:
  "ms_takerRemainingSize (removeMaker m r ms) = ms_takerRemainingSize ms"
  "ms_newMakerFills (removeMaker m r ms) = ms_newMakerFills ms"
  "ms_matchedMakerOrderIdToOrder (removeMaker m r ms) = ms_matchedMakerOrderIdToOrder ms"
  "ms_makerOrdersToRemove (removeMaker m r ms) = ms_makerOrdersToRemove ms @ [\<lparr>orr_Order = m, orr_RemovalReason = r\<rparr>]"
  "ms_OrderStatus (removeMaker m r ms) = ms_OrderStatus ms"
  by (simp_all add: removeMaker_def)

lemma stores_only_simps:
  assumes "stores_only ms ms'"
  shows "ms_takerRemainingSize ms' = ms_takerRemainingSize ms" "ms_newMakerFills ms' = ms_newMakerFills ms"
    "ms_matchedMakerOrderIdToOrder ms' = ms_matchedMakerOrderIdToOrder ms"
    "ms_makerOrdersToRemove ms' = ms_makerOrdersToRemove ms"
  using assms by (auto simp: stores_only_def)

lemma subseq_set: "subseq xs ys \<Longrightarrow> set xs \<subseteq> set ys"
  by (auto elim: list_emb_set)

lemma match_inv_ids:
  assumes "match_inv taker whole pre ms"
  shows "set (filled_ids ms) \<subseteq> node_id ` set pre" "set (removed_ids ms) \<subseteq> node_id ` set pre"
  using assms subseq_set[of "filled_ids ms" "map node_id pre"] subseq_set[of "removed_ids ms" "map node_id pre"]
  by (auto simp: match_inv_def)

lemma match_inv_same:
  assumes "match_inv taker whole pre ms" "takerOrderCrossesMakerOrder taker (co_Order n)"
    and "ms_takerRemainingSize ms' = ms_takerRemainingSize ms" "ms_newMakerFills ms' = ms_newMakerFills ms"
    "ms_matchedMakerOrderIdToOrder ms' = ms_matchedMakerOrderIdToOrder ms"
    "ms_makerOrdersToRemove ms' = ms_makerOrdersToRemove ms"
  shows "match_inv taker whole (pre @ [n]) ms'"
  using assms unfolding match_inv_def by (auto intro: subseq_rev_drop_many)

lemma match_inv_remove:
  assumes "match_inv taker whole pre ms" "takerOrderCrossesMakerOrder taker (co_Order n)" "node_id n \<notin> node_id ` set pre"
    and "ms_takerRemainingSize ms' = ms_takerRemainingSize ms" "ms_newMakerFills ms' = ms_newMakerFills ms"
    "ms_matchedMakerOrderIdToOrder ms' = ms_matchedMakerOrderIdToOrder ms"
    "ms_makerOrdersToRemove ms' = ms_makerOrdersToRemove ms @ [\<lparr>orr_Order = co_Order n, orr_RemovalReason = r\<rparr>]"
  shows "match_inv taker whole (pre @ [n]) ms'"
proof -
  have "node_id n \<notin> set (filled_ids ms)" using match_inv_ids(1)[OF assms(1)] assms(3) by blast
  with assms show ?thesis unfolding match_inv_def by (auto intro: subseq_rev_drop_many)
qed

lemma recordMatch_cases:
  assumes "recordMatch k mhash taker maker amount ms = r"
  obtains ms' where "r = Break ms' \<or> r = Continue ms'"
    "ms_takerRemainingSize ms' = ms_takerRemainingSize ms - amount"
    "ms_newMakerFills ms' = ms_newMakerFills ms @ [\<lparr>mf_FillAmount = amount, mf_MakerOrderId = o_OrderId maker\<rparr>]"
    "ms_matchedMakerOrderIdToOrder ms' = gm_set (o_OrderId maker) maker (ms_matchedMakerOrderIdToOrder ms)"
    "ms_makerOrdersToRemove ms' = ms_makerOrdersToRemove ms"
    "r = Continue ms' \<Longrightarrow> ms_takerRemainingSize ms' \<noteq> 0 \<and> ms_OrderStatus ms' = ms_OrderStatus ms"
    "r = Break ms' \<Longrightarrow> ms_takerRemainingSize ms' = 0 \<or> ms_OrderStatus ms' = OS_ReduceOnlyResized"
  using assms unfolding recordMatch_def Let_def by (auto split: if_splits)

lemma match_inv_match:
  assumes inv: "match_inv taker whole pre ms" and cross: "takerOrderCrossesMakerOrder taker (co_Order n)"
    and fresh: "node_id n \<notin> node_id ` set pre"
    and amount: "0 < amount" "amount \<le> ms_takerRemainingSize ms" "amount \<le> o_Quantums (co_Order n)"
    and other: "oid_SubaccountId (node_id n) \<noteq> mo_GetSubaccountId taker" "\<not> isReplacedBy taker (node_id n)"
    and ms': "ms_takerRemainingSize ms' = ms_takerRemainingSize ms - amount"
    "ms_newMakerFills ms' = ms_newMakerFills ms @ [\<lparr>mf_FillAmount = amount, mf_MakerOrderId = node_id n\<rparr>]"
    "ms_matchedMakerOrderIdToOrder ms' = gm_set (node_id n) (co_Order n) (ms_matchedMakerOrderIdToOrder ms)"
    "ms_makerOrdersToRemove ms' = ms_makerOrdersToRemove ms"
  shows "match_inv taker whole (pre @ [n]) ms'"
proof -
  note rem = match_inv_ids(2)[OF inv]
  have sub: "uint (ms_takerRemainingSize ms - amount) = uint (ms_takerRemainingSize ms) - uint amount"
    using amount(2) by (simp add: uint_sub_if' word_le_def)
  have keep: "fill_ok taker (ms_matchedMakerOrderIdToOrder ms') n' f"
    if "fill_ok taker (ms_matchedMakerOrderIdToOrder ms) n' f" "n' \<in> set pre" for n' f
  proof -
    have "node_id n' \<noteq> node_id n" using that(2) fresh by (metis imageI)
    with that(1) show ?thesis by (auto simp: fill_ok_def ms'(3))
  qed
  have new: "fill_ok taker (ms_matchedMakerOrderIdToOrder ms') n \<lparr>mf_FillAmount = amount, mf_MakerOrderId = node_id n\<rparr>"
    using amount other by (simp add: fill_ok_def ms'(3))
  have "\<forall>f \<in> set (ms_newMakerFills ms'). \<exists>n' \<in> set (pre @ [n]). fill_ok taker (ms_matchedMakerOrderIdToOrder ms') n' f"
    using inv keep new unfolding match_inv_def ms'(2) by fastforce
  moreover have "node_id n \<notin> set (removed_ids ms)" using rem fresh by blast
  ultimately show ?thesis
    using inv cross unfolding match_inv_def
    by (auto simp: ms'(1,2,4) sub intro: subseq_rev_drop_many)
qed

text \<open>The invariant while the loop goes on, and what holds when it is left.\<close>

definition matching :: "'s MemClobKeeper \<Rightarrow> MatchableOrder \<Rightarrow> uint64 \<Rightarrow> ClobOrder list \<Rightarrow> 's match_state \<Rightarrow> bool" where
  "matching k taker whole pre ms \<longleftrightarrow>
     match_inv taker whole pre ms \<and> 0 < ms_takerRemainingSize ms \<and> ms_OrderStatus ms = OS_Success \<and>
     (reports_failure k \<and> \<not> mo_IsLiquidation taker \<longrightarrow> (\<forall>n \<in> set pre. accounted taker ms n))"

definition matching_left :: "'s MemClobKeeper \<Rightarrow> MatchableOrder \<Rightarrow> uint64 \<Rightarrow> ClobOrder list \<Rightarrow> ClobOrder \<Rightarrow> 's match_state \<Rightarrow> bool" where
  "matching_left k taker whole pre n ms \<longleftrightarrow>
     (\<not> takerOrderCrossesMakerOrder taker (co_Order n) \<and> matching k taker whole pre ms) \<or>
     (match_inv taker whole (pre @ [n]) ms \<and> (ms_takerRemainingSize ms = 0 \<or> ms_OrderStatus ms \<noteq> OS_Success))"

lemma accounted_mono:
  assumes "accounted taker ms n"
    and "set (filled_ids ms) \<subseteq> set (filled_ids ms')" "set (removed_ids ms) \<subseteq> set (removed_ids ms')"
  shows "accounted taker ms' n"
  using assms unfolding accounted_def by blast

lemma matching_extend:
  assumes "matching k taker whole pre ms" "match_inv taker whole (pre @ [n]) ms'"
    and "0 < ms_takerRemainingSize ms'" "ms_OrderStatus ms' = OS_Success"
    and "reports_failure k \<and> \<not> mo_IsLiquidation taker \<Longrightarrow> accounted taker ms' n"
    and "set (filled_ids ms) \<subseteq> set (filled_ids ms')" "set (removed_ids ms) \<subseteq> set (removed_ids ms')"
  shows "matching k taker whole (pre @ [n]) ms'"
  using assms accounted_mono[of taker ms _ ms'] unfolding matching_def by auto

lemma matching_remove:
  assumes "matching k taker whole pre ms" "takerOrderCrossesMakerOrder taker (co_Order n)" "node_id n \<notin> node_id ` set pre"
  shows "matching k taker whole (pre @ [n]) (removeMaker (co_Order n) r (ms\<lparr>ms_store := st\<rparr>))"
proof -
  have "match_inv taker whole (pre @ [n]) (removeMaker (co_Order n) r (ms\<lparr>ms_store := st\<rparr>))"
    using assms by (intro match_inv_remove[of _ _ pre ms]) (auto simp: matching_def)
  with assms(1) show ?thesis
    by (rule matching_extend) (use assms(1) in \<open>auto simp: matching_def accounted_def\<close>)
qed

lemma processMatch_step:
  assumes m: "matching k taker whole pre ms" and cross: "takerOrderCrossesMakerOrder taker (co_Order n)"
    and fresh: "node_id n \<notin> node_id ` set pre"
    and other: "oid_SubaccountId (node_id n) \<noteq> mo_GetSubaccountId taker" "\<not> isReplacedBy taker (node_id n)"
    and amount: "0 < amount" "amount \<le> ms_takerRemainingSize ms" "amount \<le> o_Quantums (co_Order n)"
    and run: "processMatch k mhash taker (co_Order n) amount ms = Inr r"
  shows "(\<forall>ms'. r = Continue ms' \<longrightarrow> matching k taker whole (pre @ [n]) ms') \<and>
         (\<forall>ms'. r = Break ms' \<longrightarrow> matching_left k taker whole pre n ms')"
proof -
  let ?match = "\<lparr>mw_MakerOrder = MO_Order (co_Order n), mw_TakerOrder = taker, mw_FillAmount = amount,
      mw_MakerFee = 0, mw_TakerFee = 0, mw_MakerBuilderFee = 0, mw_TakerBuilderFee = 0,
      mw_MakerOrderRouterFee = 0, mw_TakerOrderRouterFee = 0\<rparr>"
  from run obtain outcome st where o: "k_ProcessSingleMatch k ?match (ms_store ms) = (Inr outcome, st)"
    and a: "afterMatch k mhash taker (co_Order n) amount outcome (ms\<lparr>ms_store := st\<rparr>) = Inr r"
    by (auto simp: processMatch_def split: prod.splits sum.splits)
  let ?ms = "ms\<lparr>ms_store := st\<rparr>"
  have inv: "match_inv taker whole pre ms" using m by (simp add: matching_def)
  note same = match_inv_same[OF inv cross] and rem = match_inv_remove[OF inv cross fresh]
  from a show ?thesis
  proof (cases rule: afterMatch_cases)
    case (stop ms')
    have "match_inv taker whole (pre @ [n]) ms'"
      by (rule same) (use stores_only_simps[OF stop(2)] in simp_all)
    with stop show ?thesis by (simp add: matching_left_def)
  next
    case (stop_remove ms')
    have "match_inv taker whole (pre @ [n]) ms'"
      by (rule rem) (use stores_only_simps[OF stop_remove(2)] in simp_all)
    with stop_remove show ?thesis by (simp add: matching_left_def)
  next
    case remove
    then show ?thesis using matching_remove[OF m cross fresh] by simp
  next
    case skip
    have "match_inv taker whole (pre @ [n]) ?ms" by (rule same) simp_all
    moreover have "\<not> (reports_failure k \<and> \<not> mo_IsLiquidation taker)"
    proof -
      obtain tr mr err where oc: "outcome = (False, tr, mr, err)" using skip(2) by (cases outcome) auto
      with skip(3,4) have "IsSuccess mr" "mo_IsLiquidation taker \<or> IsSuccess tr" by simp_all
      with o[unfolded oc] show ?thesis unfolding reports_failure_def by blast
    qed
    ultimately have "matching k taker whole (pre @ [n]) ?ms"
      using m by (intro matching_extend[OF m]) (auto simp: matching_def)
    with skip(1) show ?thesis by simp
  next
    case match
    then obtain ms' where ms': "r = Break ms' \<or> r = Continue ms'"
      and eqs: "ms_takerRemainingSize ms' = ms_takerRemainingSize ms - amount"
      "ms_newMakerFills ms' = ms_newMakerFills ms @ [\<lparr>mf_FillAmount = amount, mf_MakerOrderId = node_id n\<rparr>]"
      "ms_matchedMakerOrderIdToOrder ms' = gm_set (node_id n) (co_Order n) (ms_matchedMakerOrderIdToOrder ms)"
      "ms_makerOrdersToRemove ms' = ms_makerOrdersToRemove ms"
      and cont: "r = Continue ms' \<Longrightarrow> ms_takerRemainingSize ms' \<noteq> 0 \<and> ms_OrderStatus ms' = ms_OrderStatus ms"
      and brk: "r = Break ms' \<Longrightarrow> ms_takerRemainingSize ms' = 0 \<or> ms_OrderStatus ms' = OS_ReduceOnlyResized"
      by (elim recordMatch_cases[OF sym]) simp
    have i: "match_inv taker whole (pre @ [n]) ms'"
      using match_inv_match[OF inv cross fresh amount other eqs] .
    have "matching k taker whole (pre @ [n]) ms'" if "r = Continue ms'"
      using m cont[OF that] by (intro matching_extend[OF m i]) (auto simp: matching_def word_pos_iff accounted_def eqs)
    moreover have "matching_left k taker whole pre n ms'" if "r = Break ms'"
      using i brk[OF that] by (auto simp: matching_left_def)
    ultimately show ?thesis using ms' by auto
  qed
qed

lemma matchMaker_step:
  assumes m: "matching k taker whole pre ms" and fresh: "node_id n \<notin> node_id ` set pre"
    and run: "matchMaker k mhash otp taker n ms = Inr r"
  shows "(\<forall>ms'. r = Continue ms' \<longrightarrow> matching k taker whole (pre @ [n]) ms') \<and>
         (\<forall>ms'. r = Break ms' \<longrightarrow> matching_left k taker whole pre n ms')"
proof (cases "takerOrderCrossesMakerOrder taker (co_Order n)")
  case False
  with run m show ?thesis by (auto simp: matchMaker_def matching_left_def)
next
  case cross: True
  have inv: "match_inv taker whole pre ms" using m by (simp add: matching_def)
  have self: "ms\<lparr>ms_store := ms_store ms\<rparr> = ms" by simp
  note remove = matching_remove[OF m cross fresh, where st = "ms_store ms", unfolded self]
  show ?thesis
  proof (cases "isReplacedBy taker (node_id n)")
    case True
    then have "r = Continue ms" using run cross by (simp add: matchMaker_def)
    moreover have "match_inv taker whole (pre @ [n]) ms" by (rule match_inv_same[OF inv cross]) simp_all
    then have "matching k taker whole (pre @ [n]) ms"
      using m True by (intro matching_extend[OF m]) (auto simp: matching_def accounted_def)
    ultimately show ?thesis by simp
  next
    case nrep: False
    show ?thesis
    proof (cases "oid_SubaccountId (node_id n) = mo_GetSubaccountId taker")
      case True
      then show ?thesis using run cross nrep remove by (auto simp: matchMaker_def)
    next
      case nself: False
      from run obtain valid where v: "authenticatorsValid k mhash otp (ms_store ms) (co_Order n) = Inr valid"
        and r: "(if \<not> valid then Inr (Continue (removeMaker (co_Order n) REMOVAL_REASON_PERMISSIONED_KEY_EXPIRED ms))
                 else sizeMatch k mhash taker (co_Order n) ms) = Inr r"
        using cross nrep nself by (auto simp: matchMaker_def Let_def res_simps)
      show ?thesis
      proof (cases valid)
        case False
        then show ?thesis using r remove by auto
      next
        case True
        then have sz: "sizeMatch k mhash taker (co_Order n) ms = Inr r" using r by simp
        have pos: "0 < ms_takerRemainingSize ms" using m by (simp add: matching_def)
        from sz pos show ?thesis
        proof (cases rule: sizeMatch_cases)
          case resized
          then show ?thesis using remove by auto
        next
          case (process amount)
          then show ?thesis using processMatch_step[OF m cross fresh nself nrep] by blast
        qed
      qed
    qed
  qed
qed

text \<open>The queue of a side is ordered by price, so the makers a taker crosses come first.\<close>

lemma queue_priced_sorted:
  assumes "priced levels"
  shows "sorted_wrt (\<lambda>m n. at_least_as_good isBuy (node_price m) (node_price n)) (side_queue isBuy levels)"
  using assms
proof (induction levels)
  case (Cons p levels)
  obtain s lv where p: "p = (s, lv)" by force
  from Cons.prems have lv: "\<forall>n \<in> set lv. node_price n = s" and rest: "priced levels"
    and less: "\<forall>k \<in> fst ` set levels. s < k"
    by (auto simp: priced_def p gm_inv_def)
  have tail: "s < node_price n" if "n \<in> set (side_queue isBuy levels)" for n
  proof -
    from that obtain q where "q \<in> set levels" "n \<in> set (snd q)" by (auto simp: side_queue_def split: if_splits)
    with rest less show ?thesis by (auto simp: priced_def)
  qed
  have lvs: "sorted_wrt (\<lambda>m n. at_least_as_good isBuy (node_price m) (node_price n)) lv"
    using lv by (induction lv) (auto simp: at_least_as_good_def)
  show ?case
    using Cons.IH[OF rest] lvs lv tail
    by (auto simp: p side_queue_Cons sorted_wrt_append at_least_as_good_def less_imp_le)
qed (simp add: side_queue_def)

lemma crossing_first:
  assumes "book_inv b" "book_queue b (\<not> mo_IsBuy taker) = pre @ n # post"
    and "\<not> takerOrderCrossesMakerOrder taker (co_Order n)" "m \<in> set post"
  shows "\<not> takerOrderCrossesMakerOrder taker (co_Order m)"
proof -
  have "at_least_as_good (\<not> mo_IsBuy taker) (node_price n) (node_price m)"
    using queue_priced_sorted[OF side_ok_priced[OF book_inv_side[OF assms(1), where isBuy = "\<not> mo_IsBuy taker"]],
        where isBuy = "\<not> mo_IsBuy taker"] assms(2,4)
    by (auto simp: sorted_wrt_append)
  with assms(3) show ?thesis
    by (auto simp: takerOrderCrossesMakerOrder_def at_least_as_good_def split: if_splits)
qed

lemma matching_initial:
  assumes "0 < whole"
  shows "matching k taker whole [] (initialMatchState st whole)"
  using assms by (simp add: matching_def match_inv_def initialMatchState_def)

lemma matching_run:
  assumes "book_inv b" "0 < whole"
    and "walk_list (matchMaker k mhash otp taker) (book_queue b (\<not> mo_IsBuy taker)) (initialMatchState st whole) = Inr ms"
  obtains (all) "matching k taker whole (book_queue b (\<not> mo_IsBuy taker)) ms"
  | (left) pre n post where "book_queue b (\<not> mo_IsBuy taker) = pre @ n # post" "matching_left k taker whole pre n ms"
proof -
  let ?q = "book_queue b (\<not> mo_IsBuy taker)"
  have d: "distinct (map node_id ?q)" using distinct_side_queue[OF book_inv_side[OF assms(1)]] .
  have fresh: "node_id n \<notin> node_id ` set pre" if "pre @ n # post = [] @ ?q" for pre n post
    using d unfolding that[symmetric, simplified] by auto
  have "matching k taker whole ([] @ ?q) ms \<or> (\<exists>pre n post. [] @ ?q = pre @ n # post \<and> matching_left k taker whole pre n ms)"
  proof (rule walk_list_inv[where P = "matching k taker whole" and Q = "matching_left k taker whole", OF assms(3) matching_initial[OF assms(2)], where ?pre0.0 = "[]"])
    fix pre n post s s'
    assume q: "pre @ n # post = [] @ ?q" and m: "matching k taker whole pre s"
    show "matching k taker whole (pre @ [n]) s'" if "matchMaker k mhash otp taker n s = Inr (Continue s')"
      using matchMaker_step[OF m fresh[OF q] that] by blast
    show "matching_left k taker whole pre n s'" if "matchMaker k mhash otp taker n s = Inr (Break s')"
      using matchMaker_step[OF m fresh[OF q] that] by blast
  qed simp
  then show thesis using all left by auto
qed

text \<open>
  A match records fills of its own two orders only. With this of the keeper, each maker is matched against
  the size that was left of it when the matching started: the queue holds every order id once, and the
  matches before it touch the fill amounts of other makers and of the taker.
\<close>

definition fills_local :: "'s MemClobKeeper \<Rightarrow> bool" where
  "fills_local k \<longleftrightarrow>
     (\<forall>match st outcome st' i. k_ProcessSingleMatch k match st = (Inr outcome, st') \<longrightarrow>
        \<not> isReplacedBy (mw_MakerOrder match) i \<longrightarrow> \<not> isReplacedBy (mw_TakerOrder match) i \<longrightarrow>
        k_GetOrderFillAmount k st' i = k_GetOrderFillAmount k st i)"

definition within_remaining :: "'s MemClobKeeper \<Rightarrow> 's \<Rightarrow> ClobOrder \<Rightarrow> MakerFill \<Rightarrow> bool" where
  "within_remaining k st n f \<longleftrightarrow> mf_FillAmount f \<le> fst (GetOrderRemainingAmount k st (co_Order n))"

definition fills_within :: "'s MemClobKeeper \<Rightarrow> 's \<Rightarrow> MatchableOrder \<Rightarrow> ClobOrder list \<Rightarrow> 's match_state \<Rightarrow> bool" where
  "fills_within k st taker pre ms \<longleftrightarrow>
     (\<forall>i. i \<notin> node_id ` set pre \<longrightarrow> \<not> isReplacedBy taker i \<longrightarrow>
        k_GetOrderFillAmount k (ms_store ms) i = k_GetOrderFillAmount k st i) \<and>
     (\<forall>f \<in> set (ms_newMakerFills ms). mf_MakerOrderId f \<in> node_id ` set pre \<and>
        (\<forall>n \<in> set pre. node_id n = mf_MakerOrderId f \<longrightarrow> within_remaining k st n f))"

lemma fills_within_extend:
  assumes "fills_within k st taker pre ms" "node_id n \<notin> node_id ` set pre"
    and "\<forall>i. i \<noteq> node_id n \<longrightarrow> \<not> isReplacedBy taker i \<longrightarrow>
      k_GetOrderFillAmount k (ms_store ms') i = k_GetOrderFillAmount k (ms_store ms) i"
    and "set (ms_newMakerFills ms') \<subseteq> insert \<lparr>mf_FillAmount = amount, mf_MakerOrderId = node_id n\<rparr> (set (ms_newMakerFills ms))"
    and "\<lparr>mf_FillAmount = amount, mf_MakerOrderId = node_id n\<rparr> \<in> set (ms_newMakerFills ms') \<longrightarrow>
      within_remaining k st n \<lparr>mf_FillAmount = amount, mf_MakerOrderId = node_id n\<rparr>"
  shows "fills_within k st taker (pre @ [n]) ms'"
proof -
  have "mf_MakerOrderId f \<in> node_id ` set (pre @ [n]) \<and>
      (\<forall>x \<in> set (pre @ [n]). node_id x = mf_MakerOrderId f \<longrightarrow> within_remaining k st x f)"
    if f: "f \<in> set (ms_newMakerFills ms')" for f
  proof (cases "f \<in> set (ms_newMakerFills ms)")
    case True
    then have "mf_MakerOrderId f \<in> node_id ` set pre" "\<forall>x \<in> set pre. node_id x = mf_MakerOrderId f \<longrightarrow> within_remaining k st x f"
      using assms(1) by (auto simp: fills_within_def)
    moreover from this(1) have "node_id n \<noteq> mf_MakerOrderId f" using assms(2) by auto
    ultimately show ?thesis by auto
  next
    case False
    then have eq: "f = \<lparr>mf_FillAmount = amount, mf_MakerOrderId = node_id n\<rparr>" using assms(4) f by blast
    moreover have "node_id x \<noteq> node_id n" if "x \<in> set pre" for x using that assms(2) by (metis imageI)
    ultimately show ?thesis using assms(5) f by auto
  qed
  moreover have "k_GetOrderFillAmount k (ms_store ms') i = k_GetOrderFillAmount k st i"
    if "i \<notin> node_id ` set (pre @ [n])" "\<not> isReplacedBy taker i" for i
    using that assms(1,3) by (auto simp: fills_within_def)
  ultimately show ?thesis unfolding fills_within_def by blast
qed

lemma fills_within_same:
  assumes "fills_within k st taker pre ms" "node_id n \<notin> node_id ` set pre"
    and "ms_store ms' = ms_store ms" "ms_newMakerFills ms' = ms_newMakerFills ms"
  shows "fills_within k st taker (pre @ [n]) ms'"
proof -
  have "\<lparr>mf_FillAmount = 0, mf_MakerOrderId = node_id n\<rparr> \<notin> set (ms_newMakerFills ms)"
    using assms(1,2) by (auto simp: fills_within_def)
  then show ?thesis using assms by (intro fills_within_extend[OF assms(1,2), where amount = 0]) auto
qed

lemma afterMatch_state:
  assumes "afterMatch k mhash taker maker amount outcome ms = Inr r" "r = Continue ms' \<or> r = Break ms'"
  shows "ms_store ms' = ms_store ms"
    "set (ms_newMakerFills ms') \<subseteq> insert \<lparr>mf_FillAmount = amount, mf_MakerOrderId = o_OrderId maker\<rparr> (set (ms_newMakerFills ms))"
  using assms by (auto simp: afterMatch_def recordMatch_def removeMaker_def Let_def split: prod.splits if_splits)

lemma GetOrderRemainingAmount_cong:
  "k_GetOrderFillAmount k st (o_OrderId order) = k_GetOrderFillAmount k st' (o_OrderId order) \<Longrightarrow>
   GetOrderRemainingAmount k st order = GetOrderRemainingAmount k st' order"
  by (simp add: GetOrderRemainingAmount_def GetOrderFilledAmount_def)

lemma fills_within_process:
  assumes loc: "fills_local k" and w: "fills_within k st taker pre ms" and fresh: "node_id n \<notin> node_id ` set pre"
    and other: "\<not> isReplacedBy taker (node_id n)"
    and amount: "amount \<le> fst (GetOrderRemainingAmount k (ms_store ms) (co_Order n))"
    and run: "processMatch k mhash taker (co_Order n) amount ms = Inr r" and r: "r = Continue ms' \<or> r = Break ms'"
  shows "fills_within k st taker (pre @ [n]) ms'"
proof -
  let ?match = "\<lparr>mw_MakerOrder = MO_Order (co_Order n), mw_TakerOrder = taker, mw_FillAmount = amount,
      mw_MakerFee = 0, mw_TakerFee = 0, mw_MakerBuilderFee = 0, mw_TakerBuilderFee = 0,
      mw_MakerOrderRouterFee = 0, mw_TakerOrderRouterFee = 0\<rparr>"
  from run obtain outcome st' where o: "k_ProcessSingleMatch k ?match (ms_store ms) = (Inr outcome, st')"
    and a: "afterMatch k mhash taker (co_Order n) amount outcome (ms\<lparr>ms_store := st'\<rparr>) = Inr r"
    by (auto simp: processMatch_def split: prod.splits sum.splits)
  have "k_GetOrderFillAmount k st' i = k_GetOrderFillAmount k (ms_store ms) i"
    if "i \<noteq> node_id n" "\<not> isReplacedBy taker i" for i
    using loc[unfolded fills_local_def, rule_format, OF o] that by (auto simp: isReplacedBy_def)
  moreover have "k_GetOrderFillAmount k (ms_store ms) (node_id n) = k_GetOrderFillAmount k st (node_id n)"
    using w fresh other by (simp add: fills_within_def)
  then have "within_remaining k st n \<lparr>mf_FillAmount = amount, mf_MakerOrderId = node_id n\<rparr>"
    using amount GetOrderRemainingAmount_cong[of k "ms_store ms" "co_Order n" st] by (simp add: within_remaining_def)
  ultimately show ?thesis
    using afterMatch_state[OF a r] by (intro fills_within_extend[OF w fresh]) auto
qed

lemma fills_within_step:
  assumes loc: "fills_local k" and w: "fills_within k st taker pre ms" and fresh: "node_id n \<notin> node_id ` set pre"
    and pos: "0 < ms_takerRemainingSize ms"
    and run: "matchMaker k mhash otp taker n ms = Inr r" and r: "r = Continue ms' \<or> r = Break ms'"
  shows "fills_within k st taker (pre @ [n]) ms'"
proof -
  note same = fills_within_same[OF w fresh]
  have skip: "?thesis" if "r = Continue (removeMaker (co_Order n) reason ms)" for reason
    using that r by (intro same) (auto simp: removeMaker_def)
  from run consider (unchanged) "r = Break ms \<or> r = Continue ms"
    | (removed) reason where "r = Continue (removeMaker (co_Order n) reason ms)"
    | (sized) "\<not> isReplacedBy taker (node_id n)" "sizeMatch k mhash taker (co_Order n) ms = Inr r"
    by (auto simp: matchMaker_def Let_def res_simps split: if_splits)
  then show ?thesis
  proof cases
    case unchanged
    then show ?thesis using r by (intro same) auto
  next
    case removed
    then show ?thesis by (rule skip)
  next
    case sized
    from sized(2) pos show ?thesis
    proof (cases rule: sizeMatch_cases)
      case resized
      then show ?thesis by (rule skip)
    next
      case (process amount)
      then show ?thesis using fills_within_process[OF loc w fresh sized(1) _ _ r] by blast
    qed
  qed
qed

lemma fills_within_run:
  assumes loc: "fills_local k" and inv: "book_inv b" and pos: "0 < whole"
    and run: "walk_list (matchMaker k mhash otp taker) (book_queue b (\<not> mo_IsBuy taker)) (initialMatchState st whole) = Inr ms"
    and f: "f \<in> set (ms_newMakerFills ms)" and n: "n \<in> set (book_queue b (\<not> mo_IsBuy taker))" "node_id n = mf_MakerOrderId f"
  shows "within_remaining k st n f"
proof -
  let ?q = "book_queue b (\<not> mo_IsBuy taker)"
  let ?P = "\<lambda>pre ms. matching k taker whole pre ms \<and> fills_within k st taker pre ms"
  have d: "distinct (map node_id ?q)" using distinct_side_queue[OF book_inv_side[OF inv]] .
  have fresh: "node_id n \<notin> node_id ` set pre" if "pre @ n # post = [] @ ?q" for pre n post
    using d unfolding that[symmetric, simplified] by auto
  have "?P ([] @ ?q) ms \<or> (\<exists>pre n post. [] @ ?q = pre @ n # post \<and> fills_within k st taker (pre @ [n]) ms)"
  proof (rule walk_list_inv[OF run, where P = ?P and Q = "\<lambda>pre n. fills_within k st taker (pre @ [n])" and ?pre0.0 = "[]"])
    show "?P [] (initialMatchState st whole)"
      using matching_initial[OF pos] by (simp add: fills_within_def initialMatchState_def)
    fix pre n post s s'
    assume q: "pre @ n # post = [] @ ?q" and m: "?P pre s"
    then have pos': "0 < ms_takerRemainingSize s" by (simp add: matching_def)
    show "?P (pre @ [n]) s'" if "matchMaker k mhash otp taker n s = Inr (Continue s')"
      using matchMaker_step[OF _ fresh[OF q] that] fills_within_step[OF loc _ fresh[OF q] pos' that] m by blast
    show "fills_within k st taker (pre @ [n]) s'" if "matchMaker k mhash otp taker n s = Inr (Break s')"
      using fills_within_step[OF loc _ fresh[OF q] pos' that] m by blast
  qed simp
  then obtain pre post where q: "?q = pre @ post" and w: "fills_within k st taker pre ms"
  proof
    assume "?P ([] @ ?q) ms"
    then show thesis using that[of ?q "[]"] by simp
  next
    assume "\<exists>pre n post. [] @ ?q = pre @ n # post \<and> fills_within k st taker (pre @ [n]) ms"
    then obtain pre n post where "?q = pre @ n # post" "fills_within k st taker (pre @ [n]) ms" by auto
    then show thesis using that[of "pre @ [n]" post] by simp
  qed
  obtain x where x: "x \<in> set pre" "node_id x = mf_MakerOrderId f" "within_remaining k st x f"
    using w f by (auto simp: fills_within_def)
  have "x \<in> set ?q" unfolding q using x(1) by simp
  moreover have "inj_on node_id (set ?q)" using d by (simp add: distinct_map)
  ultimately have "x = n" using n x(2) unfolding inj_on_def by (metis (no_types))
  with x(3) show ?thesis by simp
qed

definition books_ok :: "'s MemClob \<Rightarrow> bool" where
  "books_ok m \<longleftrightarrow>
     (\<forall>i b. gm_get (mc_orderbooks m) i = Some b \<longrightarrow> book_inv b \<and> prices_bounded b True \<and> prices_bounded b False)"

lemma books_okD: "books_ok m \<Longrightarrow> gm_get (mc_orderbooks m) i = Some b \<Longrightarrow> book_inv b \<and> prices_bounded b isBuy"
  by (cases isBuy) (auto simp: books_ok_def)

text \<open>
  C7: The loops over the order book end. On well-formed books, matching a taker and computing the price
  premium from the impact price always return, whatever the keeper answers: walking a side with the
  best-order and next-best-order queries of the book performs exactly the iterations of a loop over the
  price-time queue, at most one per resting order.
\<close>

theorem memclob_loops_return:
  assumes "books_ok m"
  shows "(\<exists>r. mustPerformTakerOrderMatching k mhash taker m = Some r) \<and>
         (\<exists>r. GetPricePremium k m clobPair params = Some r) \<and>
         (\<forall>b. gm_get (mc_orderbooks m) i = Some b \<longrightarrow>
            walk_book b isBuy body s = Some (walk_list body (book_queue b isBuy) s))"
proof -
  have w: "walk_book b side f t = Some (walk_list f (book_queue b side) t)"
    if "gm_get (mc_orderbooks m) j = Some b" for b j side and f :: "ClobOrder \<Rightarrow> 't \<Rightarrow> 't loop res" and t
    using books_okD[OF assms that] by (intro walk_book_queue) auto
  have "\<exists>r. mustPerformTakerOrderMatching k mhash taker m = Some r"
    by (auto simp: mustPerformTakerOrderMatching_def mustGetOrderbook_def w res_simps split: sum.split option.split)
  moreover have side: "\<exists>r. getPricePremiumFromSide k (mc_store m) clobPair b isBid v ind lo hi = Some r"
    if "gm_get (mc_orderbooks m) (cp_Id clobPair) = Some b" for b isBid v ind lo hi
    by (auto simp: getPricePremiumFromSide_def getImpactPriceSubticks_def impactWalk_def w[OF that] split: option.split)
  then have "\<exists>r. GetPricePremium k m clobPair params = Some r"
    unfolding GetPricePremium_def mustGetOrderbook_def Let_def
    by (auto simp: res_simps split: sum.split option.split)
  ultimately show ?thesis by (intro conjI allI impI w)
qed


text \<open>A keeper that records fills, and a book with two asks and a buyer that crosses both.\<close>

definition ex_mhash :: "MatchableOrder \<Rightarrow> OrderHash" where
  "ex_mhash mo = (case mo of MO_Order order \<Rightarrow> ex_hash order | MO_Liquidation _ \<Rightarrow> [])"

definition ex_addFill :: "MatchableOrder \<Rightarrow> uint64 \<Rightarrow> (OrderId, uint64) gomap \<Rightarrow> (OrderId, uint64) gomap" where
  "ex_addFill mo amount st =
     (case mo of
        MO_Order order \<Rightarrow> gm_set (o_OrderId order)
          ((case gm_get st (o_OrderId order) of None \<Rightarrow> 0 | Some f \<Rightarrow> f) + amount) st
      | MO_Liquidation _ \<Rightarrow> st)"

definition ex_keeper :: "(OrderId, uint64) gomap MemClobKeeper" where
  "ex_keeper = \<lparr>
     k_GetOrderFillAmount = (\<lambda>st i. map_option (\<lambda>f. (f, 0)) (gm_get st i)),
     k_ProcessSingleMatch = (\<lambda>w st. (Inr (True, Success, Success, None),
        ex_addFill (mw_TakerOrder w) (mw_FillAmount w) (ex_addFill (mw_MakerOrder w) (mw_FillAmount w) st))),
     k_GetStatePosition = (\<lambda>_ _ _. 0),
     k_GetLongTermOrderPlacement = (\<lambda>_ _. None),
     k_OffsetSubaccountPerpetualPosition = (\<lambda>_ _ delta _. retM ([], delta)),
     k_AddOrderToOrderbookSubaccountUpdatesCheck = (\<lambda>_ _ _. Success),
     k_MaybeValidateAuthenticators = (\<lambda>_ _. Inr ())\<rparr>"

definition ex_memclob :: "(OrderId, uint64) gomap MemClob" where
  "ex_memclob = \<lparr>
     mc_orderbooks = [(0, ex_book)],
     mc_operationsToPropose = NewOperationsToPropose\<lparr>otp_ShortTermOrderHashToTxBytes :=
       gm_set (ex_hash (ex_order SIDE_SELL 5 100 1)) [1] (gm_set (ex_hash (ex_order SIDE_SELL 5 120 2)) [2] [])\<rparr>,
     mc_store = []\<rparr>"

definition ex_buyer :: Order where
  "ex_buyer = (ex_order SIDE_BUY 7 130 3)\<lparr>o_OrderId := \<lparr>oid_SubaccountId = \<lparr>sid_Owner = ''bob'', sid_Number = 0\<rparr>,
     oid_ClientId = 3, oid_OrderFlags = 0, oid_ClobPairId = 0\<rparr>\<rparr>"

lemma ex_books_ok: "books_ok ex_memclob"
proof -
  have "prices_bounded ex_book False"
    by (simp add: prices_bounded_def ex_book_levels gm_keys_def worst_price_def MaxUint64_def)
  moreover have "prices_bounded ex_book True"
    unfolding ex_book_eq
    by (simp add: prices_bounded_def book_added_def empty_book_def ex_order_def Order_IsBuy_def Let_def gm_keys_def)
  ultimately show ?thesis
    using ex_book_inv by (auto simp: books_ok_def ex_memclob_def gm_get_def split: if_splits)
qed

theorem memclob_loops_return_witness:
  "\<exists>r. mustPerformTakerOrderMatching ex_keeper ex_mhash (MO_Order ex_buyer) ex_memclob = Some r"
  by (rule memclob_loops_return[OF ex_books_ok, THEN conjunct1])

lemma ex_keeper_fills_local: "fills_local ex_keeper"
  by (auto simp: fills_local_def ex_keeper_def ex_addFill_def isReplacedBy_def split: MatchableOrder.splits)


end
