(* ===== verification/MemClobInvariant.thy ===== *)
theory MemClobInvariant
  imports MemClob
begin

text \<open>
  The invariant of the matching engine and the operations that remove orders. Every order book is well
  formed, its short-term cancels and their expirations agree, an order rests in the book of its own clob
  pair, the operations queue is one the memclob can build, and the transaction bytes of every resting
  short-term order are kept.
\<close>

section \<open>Steps that keep an invariant unless they panic\<close>

definition preserves :: "('s \<Rightarrow> bool) \<Rightarrow> ('s, 'a) step \<Rightarrow> bool" where
  "preserves I f \<longleftrightarrow> (\<forall>s. I s \<longrightarrow> is_panic (fst (f s)) \<or> I (snd (f s)))"

lemma preservesI: "(\<And>s r s'. I s \<Longrightarrow> f s = (r, s') \<Longrightarrow> \<not> is_panic r \<Longrightarrow> I s') \<Longrightarrow> preserves I f"
  unfolding preserves_def by (metis prod.collapse)

lemma preservesD: "preserves I f \<Longrightarrow> I s \<Longrightarrow> f s = (r, s') \<Longrightarrow> \<not> is_panic r \<Longrightarrow> I s'"
  unfolding preserves_def by (metis fst_conv snd_conv)

lemma preserves_basic [intro, simp]:
  "preserves I (retM x)" "preserves I (failM e)" "preserves I (liftM f)" "preserves I (readM g)"
  by (simp_all add: preserves_def retM_def failM_def liftM_def readM_def)

lemma preserves_bind:
  assumes "preserves I f" "\<And>x. preserves I (g x)"
  shows "preserves I (bindM f g)"
proof (rule preservesI)
  fix s r s'
  assume "I s" and b: "bindM f g s = (r, s')" and np: "\<not> is_panic r"
  obtain u t where f: "f s = (u, t)" by fastforce
  show "I s'"
  proof (cases u)
    case (Inl e)
    then have "r = Inl e" "s' = t" using b f by (simp_all add: bindM_def)
    with preservesD[OF assms(1) \<open>I s\<close> f] np Inl show ?thesis by (cases e) auto
  next
    case (Inr x)
    then have "I t" using preservesD[OF assms(1) \<open>I s\<close> f] by simp
    then show ?thesis using preservesD[OF assms(2)] b f Inr np by simp
  qed
qed

lemma preserves_bind_lift:
  assumes "\<And>s x. I s \<Longrightarrow> f s = Inr x \<Longrightarrow> preserves I (g x)"
  shows "preserves I (bindM (liftM f) g)"
proof (rule preservesI)
  fix s r s'
  assume "I s" and b: "bindM (liftM f) g s = (r, s')" and np: "\<not> is_panic r"
  then show "I s'" using preservesD[OF assms[OF \<open>I s\<close>]] by (cases "f s") (auto simp: bindM_def liftM_def)
qed

lemma preserves_forM: "(\<And>x. x \<in> set xs \<Longrightarrow> preserves I (f x)) \<Longrightarrow> preserves I (forM f xs)"
  by (induction xs) (auto intro: preserves_bind)

lemma preserves_whenM [simp]: "(c \<Longrightarrow> preserves I f) \<Longrightarrow> preserves I (whenM c f)"
  by (simp add: whenM_def)

lemma preserves_if [simp]: "(c \<Longrightarrow> preserves I f) \<Longrightarrow> (\<not> c \<Longrightarrow> preserves I g) \<Longrightarrow> preserves I (if c then f else g)"
  by simp

section \<open>Cancels\<close>

definition cancels_ok :: "Orderbook \<Rightarrow> bool" where
  "cancels_ok b \<longleftrightarrow> gm_inv (book_orderIdToCancelExpiry b) \<and> nested_ok (book_cancelExpiryToOrderIds b) \<and>
     (\<forall>t i. holds_at (book_cancelExpiryToOrderIds b) t i \<longleftrightarrow> gm_get (book_orderIdToCancelExpiry b) i = Some t)"

lemma book_inv_cancels [simp]:
  "book_inv (b\<lparr>book_orderIdToCancelExpiry := x, book_cancelExpiryToOrderIds := y\<rparr>) \<longleftrightarrow> book_inv b"
  by (simp add: book_inv_def Let_def)

lemma addShortTermCancel_eq:
  assumes "cancels_ok b" "\<not> OrderId_IsStatefulOrder i" "getCancel b i = None"
  shows "addShortTermCancel i t b = (Inr (), b\<lparr>book_orderIdToCancelExpiry := gm_set i t (book_orderIdToCancelExpiry b),
     book_cancelExpiryToOrderIds := gm_set t (gm_set i True (gm_at (book_cancelExpiryToOrderIds b) t)) (book_cancelExpiryToOrderIds b)\<rparr>)"
proof -
  have "\<not> holds_at (book_cancelExpiryToOrderIds b) t i"
    using assms(1,3) by (simp add: cancels_ok_def getCancel_def)
  with assms(2,3) show ?thesis
    by (auto simp: addShortTermCancel_def bindM_def liftM_def modifyM_def OrderId_MustBeShortTermOrder_def holds_at_def
        gm_at_def split: option.splits)
qed

lemma cancels_ok_add:
  assumes "cancels_ok b" "getCancel b i = None"
  shows "cancels_ok (b\<lparr>book_orderIdToCancelExpiry := gm_set i t (book_orderIdToCancelExpiry b),
     book_cancelExpiryToOrderIds := gm_set t (gm_set i True (gm_at (book_cancelExpiryToOrderIds b) t)) (book_cancelExpiryToOrderIds b)\<rparr>)"
  using assms by (auto simp: cancels_ok_def getCancel_def nested_ok_add)

lemma gm_del_singleton:
  assumes "gm_inv m" "gm_get m k = Some v"
  shows "gm_del k m = [] \<longleftrightarrow> length m = 1"
proof -
  have "length (gm_del k m) = length m - 1" using length_gm_del[of m k] assms by simp
  moreover have "0 < length m" using assms(2) by (cases m) auto
  ultimately show ?thesis unfolding length_0_conv[symmetric] by linarith
qed

lemma mustRemoveCancel_eq:
  assumes "cancels_ok b" "getCancel b i = Some t"
  shows "mustRemoveCancel i b = (Inr (), b\<lparr>book_orderIdToCancelExpiry := gm_del i (book_orderIdToCancelExpiry b),
     book_cancelExpiryToOrderIds := gm_del_in t i (book_cancelExpiryToOrderIds b)\<rparr>)"
proof -
  let ?E = "book_cancelExpiryToOrderIds b"
  have h: "holds_at ?E t i" using assms by (simp add: cancels_ok_def getCancel_def)
  then obtain inner v where inner: "gm_get ?E t = Some inner" "gm_get inner i = Some v"
    by (auto simp: holds_at_def gm_at_def split: option.splits)
  have "nested_ok ?E" using assms(1) by (simp add: cancels_ok_def)
  then have "gm_inv inner" using inner(1) unfolding nested_ok_def by blast
  from gm_del_singleton[OF this inner(2)] have "gm_del i inner = [] \<longleftrightarrow> length inner = 1" .
  then show ?thesis
    using assms(2) inner
    by (simp add: mustRemoveCancel_def bindM_def liftM_def modifyM_def gm_del_in_def gm_at_def Let_def)
qed

lemma cancels_ok_remove:
  assumes "cancels_ok b" "getCancel b i = Some t"
  shows "cancels_ok (b\<lparr>book_orderIdToCancelExpiry := gm_del i (book_orderIdToCancelExpiry b),
     book_cancelExpiryToOrderIds := gm_del_in t i (book_cancelExpiryToOrderIds b)\<rparr>)"
  using assms by (auto simp: cancels_ok_def getCancel_def)

section \<open>The invariant of the memclob\<close>

definition book_ok :: "(uint32 \<Rightarrow> uint32 \<Rightarrow> bool) \<Rightarrow> uint32 \<Rightarrow> Orderbook \<Rightarrow> bool" where
  "book_ok T i b \<longleftrightarrow> book_inv b \<and> cancels_ok b \<and> T i (book_SubticksPerTick b) \<and>
     (\<forall>j n. gm_get (book_orderIdToLevelOrder b) j = Some n \<longrightarrow> oid_ClobPairId j = i)"

definition has_tx :: "(Order \<Rightarrow> OrderHash) \<Rightarrow> OperationsToPropose \<Rightarrow> Orderbook \<Rightarrow> bool" where
  "has_tx hash otp b \<longleftrightarrow>
     (\<forall>j n. gm_get (book_orderIdToLevelOrder b) j = Some n \<longrightarrow> OrderId_IsShortTermOrder j \<longrightarrow>
        gm_get (otp_ShortTermOrderHashToTxBytes otp) (hash (co_Order n)) \<noteq> None)"

text \<open>The parameter \<open>T\<close> is a condition on the tick sizes, which only \<^verbatim>\<open>SyncOrderbookState\<close> changes.\<close>

definition mc_ok :: "(Order \<Rightarrow> OrderHash) \<Rightarrow> (uint32 \<Rightarrow> uint32 \<Rightarrow> bool) \<Rightarrow> 's MemClob \<Rightarrow> bool" where
  "mc_ok hash T m \<longleftrightarrow> hash_identifies hash \<and> otp_inv hash (mc_operationsToPropose m) \<and>
     (\<forall>i b. gm_get (mc_orderbooks m) i = Some b \<longrightarrow> book_ok T i b \<and> has_tx hash (mc_operationsToPropose m) b)"

lemma mc_okD:
  assumes "mc_ok hash T m"
  shows "hash_identifies hash" "otp_inv hash (mc_operationsToPropose m)"
    "gm_get (mc_orderbooks m) i = Some b \<Longrightarrow> book_ok T i b"
    "gm_get (mc_orderbooks m) i = Some b \<Longrightarrow> has_tx hash (mc_operationsToPropose m) b"
    "gm_get (mc_orderbooks m) i = Some b \<Longrightarrow> book_inv b"
    "gm_get (mc_orderbooks m) i = Some b \<Longrightarrow> cancels_ok b"
  using assms by (auto simp: mc_ok_def book_ok_def)

lemma resting_node_id: "book_inv b \<Longrightarrow> gm_get (book_orderIdToLevelOrder b) j = Some n \<Longrightarrow> node_id n = j"
  by (simp add: book_inv_def Let_def nodes_ok_def)

lemma book_removed_simps [simp]:
  "book_orderIdToLevelOrder (book_removed n b) = gm_del (node_id n) (book_orderIdToLevelOrder b)"
  "book_SubticksPerTick (book_removed n b) = book_SubticksPerTick b"
  "book_MinOrderBaseQuantums (book_removed n b) = book_MinOrderBaseQuantums b"
  "book_orderIdToCancelExpiry (book_removed n b) = book_orderIdToCancelExpiry b"
  "book_cancelExpiryToOrderIds (book_removed n b) = book_cancelExpiryToOrderIds b"
  by (simp_all add: book_removed_def maps_removed_def Let_def)

lemma book_ok_removed:
  assumes "book_ok T i b" "gm_get (book_orderIdToLevelOrder b) j = Some n"
  shows "book_ok T i (book_removed n b)"
  using assms book_inv_removed[of b j n] by (auto simp: book_ok_def cancels_ok_def split: if_splits)

definition tx_removed :: "OrderHash \<Rightarrow> OperationsToPropose \<Rightarrow> OperationsToPropose" where
  "tx_removed h otp = otp\<lparr>otp_ShortTermOrderHashToTxBytes := gm_del h (otp_ShortTermOrderHashToTxBytes otp)\<rparr>"

lemma RemoveShortTermOrderTxBytes_eq:
  assumes "\<not> Order_IsStatefulOrder order" "\<not> IsOrderPlacementInOperationsQueue hash otp order"
    and "gm_get (otp_ShortTermOrderHashToTxBytes otp) (hash order) \<noteq> None"
  shows "RemoveShortTermOrderTxBytes hash order otp = (Inr (), tx_removed (hash order) otp)"
  using assms
  by (auto simp: RemoveShortTermOrderTxBytes_def tx_removed_def bindM_def liftM_def modifyM_def panic_if_def
      OrderId_MustBeShortTermOrder_def Order_IsStatefulOrder_def)

definition otp_after_removal :: "(Order \<Rightarrow> OrderHash) \<Rightarrow> Order \<Rightarrow> OperationsToPropose \<Rightarrow> OperationsToPropose" where
  "otp_after_removal hash order otp =
     (if Order_IsShortTermOrder order \<and> \<not> IsOrderPlacementInOperationsQueue hash otp order
      then tx_removed (hash order) otp else otp)"

definition mc_removed :: "(Order \<Rightarrow> OrderHash) \<Rightarrow> uint32 \<Rightarrow> LevelOrder \<Rightarrow> Orderbook \<Rightarrow> 's MemClob \<Rightarrow> 's MemClob" where
  "mc_removed hash i n b m = m\<lparr>mc_orderbooks := gm_set i (book_removed n b) (mc_orderbooks m),
     mc_operationsToPropose := otp_after_removal hash (co_Order n) (mc_operationsToPropose m)\<rparr>"

lemma memclob_mustRemoveOrder_eq:
  assumes ok: "mc_ok hash T m" and b: "gm_get (mc_orderbooks m) (oid_ClobPairId i) = Some b"
    and n: "gm_get (book_orderIdToLevelOrder b) i = Some n"
  shows "memclob_mustRemoveOrder hash i m = (Inr (), mc_removed hash (oid_ClobPairId i) n b m)"
proof -
  have inv: "book_inv b" and tx: "has_tx hash (mc_operationsToPropose m) b" using mc_okD[OF ok] b by blast+
  have i: "node_id n = i" using resting_node_id[OF inv n] .
  have "RemoveShortTermOrderTxBytes hash (co_Order n) (mc_operationsToPropose m) =
      (Inr (), tx_removed (hash (co_Order n)) (mc_operationsToPropose m))"
    if "Order_IsShortTermOrder (co_Order n)" "\<not> IsOrderPlacementInOperationsQueue hash (mc_operationsToPropose m) (co_Order n)"
  proof (rule RemoveShortTermOrderTxBytes_eq)
    show "\<not> Order_IsStatefulOrder (co_Order n)"
      using that(1) stateful_not_short_term by (auto simp: Order_IsShortTermOrder_def Order_IsStatefulOrder_def)
    show "gm_get (otp_ShortTermOrderHashToTxBytes (mc_operationsToPropose m)) (hash (co_Order n)) \<noteq> None"
      using tx n that(1) i unfolding has_tx_def Order_IsShortTermOrder_def by blast
  qed (rule that(2))
  then show ?thesis
    using b n mustRemoveOrder_eq[OF inv n]
    by (auto simp: memclob_mustRemoveOrder_def bindM_def liftM_def mustGetOrderbook_def on_book_def on_otp_def
        readM_def whenM_def retM_def mc_removed_def otp_after_removal_def Let_def)
qed

lemma otp_inv_removal:
  assumes "hash_identifies hash" "otp_inv hash otp"
    and "Order_IsShortTermOrder order \<Longrightarrow> gm_get (otp_ShortTermOrderHashToTxBytes otp) (hash order) \<noteq> None"
  shows "otp_inv hash (otp_after_removal hash order otp)"
proof (cases "Order_IsShortTermOrder order \<and> \<not> IsOrderPlacementInOperationsQueue hash otp order")
  case True
  then have "RemoveShortTermOrderTxBytes hash order otp = (Inr (), tx_removed (hash order) otp)"
    using assms(3) stateful_not_short_term
    by (intro RemoveShortTermOrderTxBytes_eq) (auto simp: Order_IsShortTermOrder_def Order_IsStatefulOrder_def)
  then show ?thesis
    using True otp_inv_step[OF otp_step.remove_tx_bytes assms(2,1)] by (simp add: otp_after_removal_def)
qed (use assms(2) in \<open>auto simp: otp_after_removal_def\<close>)

lemma has_tx_removal:
  assumes "hash_identifies hash" "has_tx hash otp b" "book_inv b"
    and "gm_get (book_orderIdToLevelOrder b) (o_OrderId order) = None"
  shows "has_tx hash (otp_after_removal hash order otp) b"
  unfolding has_tx_def
proof (intro allI impI)
  fix j n assume n: "gm_get (book_orderIdToLevelOrder b) j = Some n" "OrderId_IsShortTermOrder j"
  then have "j \<noteq> o_OrderId order" using assms(4) by auto
  then have "hash (co_Order n) \<noteq> hash order"
    using assms(1) resting_node_id[OF assms(3) n(1)] unfolding hash_identifies_def by metis
  then show "gm_get (otp_ShortTermOrderHashToTxBytes (otp_after_removal hash order otp)) (hash (co_Order n)) \<noteq> None"
    using assms(2) n unfolding has_tx_def by (auto simp: otp_after_removal_def tx_removed_def)
qed

lemma mc_ok_removed:
  assumes ok: "mc_ok hash T m" and b: "gm_get (mc_orderbooks m) (oid_ClobPairId i) = Some b"
    and n: "gm_get (book_orderIdToLevelOrder b) i = Some n"
  shows "mc_ok hash T (mc_removed hash (oid_ClobPairId i) n b m)"
proof -
  note D = mc_okD[OF ok]
  have inv: "book_inv b" using D b by blast
  have i: "node_id n = i" using resting_node_id[OF inv n] .
  have "has_tx hash (otp_after_removal hash (co_Order n) (mc_operationsToPropose m)) (book_removed n b)"
  proof (rule has_tx_removal[OF D(1)])
    show "has_tx hash (mc_operationsToPropose m) (book_removed n b)"
      using D(4)[OF b] by (auto simp: has_tx_def split: if_splits)
  qed (use book_inv_removed[OF inv n] i in simp_all)
  moreover have "has_tx hash (otp_after_removal hash (co_Order n) (mc_operationsToPropose m)) b'"
    if "gm_get (mc_orderbooks m) k = Some b'" "k \<noteq> oid_ClobPairId i" for k b'
  proof (rule has_tx_removal[OF D(1) D(4)[OF that(1)] D(5)[OF that(1)]])
    show "gm_get (book_orderIdToLevelOrder b') (o_OrderId (co_Order n)) = None"
      using D(3)[OF that(1)] that(2) i by (force simp: book_ok_def)
  qed
  moreover have "otp_inv hash (otp_after_removal hash (co_Order n) (mc_operationsToPropose m))"
    using D(4)[OF b] n i by (intro otp_inv_removal[OF D(1,2)]) (auto simp: has_tx_def Order_IsShortTermOrder_def)
  ultimately show ?thesis
    using D(1,3) book_ok_removed[OF D(3)[OF b] n] by (auto simp: mc_ok_def mc_removed_def)
qed

lemma removal_total:
  assumes "mc_ok hash T m" "gm_get (mc_orderbooks m) (oid_ClobPairId i) = Some b"
    and "gm_get (book_orderIdToLevelOrder b) i = Some n"
  shows "\<exists>m'. memclob_mustRemoveOrder hash i m = (Inr (), m') \<and> mc_ok hash T m'"
  using memclob_mustRemoveOrder_eq[OF assms] mc_ok_removed[OF assms] by blast

lemma removal_needs_order:
  assumes "memclob_mustRemoveOrder hash i m = (r, m')" "\<not> is_panic r"
  obtains b n where "gm_get (mc_orderbooks m) (oid_ClobPairId i) = Some b" "gm_get (book_orderIdToLevelOrder b) i = Some n"
  using assms
  by (auto simp: memclob_mustRemoveOrder_def bindM_def liftM_def mustGetOrderbook_def bindr_def split: option.splits)

lemma preserves_removal: "preserves (mc_ok hash T) (memclob_mustRemoveOrder hash i)"
proof (rule preservesI)
  fix m r m'
  assume ok: "mc_ok hash T (m :: 's MemClob)" and run: "memclob_mustRemoveOrder hash i m = (r, m')" "\<not> is_panic r"
  from removal_needs_order[OF run] show "mc_ok hash T m'"
    using memclob_mustRemoveOrder_eq[OF ok] mc_ok_removed[OF ok] run(1) by (metis prod.inject)
qed

section \<open>Operations on the queue\<close>

definition tx_grows :: "OperationsToPropose \<Rightarrow> OperationsToPropose \<Rightarrow> bool" where
  "tx_grows otp otp' \<longleftrightarrow> (\<forall>h. gm_get (otp_ShortTermOrderHashToTxBytes otp) h \<noteq> None \<longrightarrow>
     gm_get (otp_ShortTermOrderHashToTxBytes otp') h \<noteq> None)"

definition otp_good :: "(Order \<Rightarrow> OrderHash) \<Rightarrow> (OperationsToPropose, 'a) step \<Rightarrow> bool" where
  "otp_good hash f \<longleftrightarrow>
     (\<forall>otp r otp'. hash_identifies hash \<longrightarrow> otp_inv hash otp \<longrightarrow> f otp = (r, otp') \<longrightarrow> \<not> is_panic r \<longrightarrow>
        otp_inv hash otp' \<and> tx_grows otp otp')"

lemma preserves_otp:
  assumes "otp_good hash f"
  shows "preserves (mc_ok hash T) (on_otp f)"
proof (rule preservesI)
  fix m r m'
  assume ok: "mc_ok hash T (m :: 's MemClob)" and run: "on_otp f m = (r, m')" "\<not> is_panic r"
  then obtain otp' where f: "f (mc_operationsToPropose m) = (r, otp')" and m': "m' = m\<lparr>mc_operationsToPropose := otp'\<rparr>"
    by (auto simp: on_otp_def split: prod.splits)
  note D = mc_okD[OF ok]
  have g: "otp_inv hash otp'" "tx_grows (mc_operationsToPropose m) otp'"
    using assms f D(1,2) run(2) unfolding otp_good_def by blast+
  have "has_tx hash otp' b" if "gm_get (mc_orderbooks m) i = Some b" for i b
    using D(4)[OF that] g(2) unfolding has_tx_def tx_grows_def by blast
  with D g(1) show "mc_ok hash T m'" by (auto simp: mc_ok_def m')
qed

lemma otp_goodI:
  assumes "\<And>otp e otp'. f otp = (Inl e, otp') \<Longrightarrow> \<exists>p. e = Panic p"
    and "\<And>otp x otp'. f otp = (Inr x, otp') \<Longrightarrow> otp_step hash otp otp' \<and> tx_grows otp otp'"
  shows "otp_good hash f"
  unfolding otp_good_def
proof (intro allI impI)
  fix otp r otp'
  assume h: "hash_identifies hash" "otp_inv hash otp" "f otp = (r, otp')" "\<not> is_panic r"
  obtain x where "r = Inr x"
  proof (cases r)
    case (Inl e)
    then obtain p where "e = Panic p" using assms(1) h(3) by blast
    with Inl h(4) show ?thesis by simp
  qed
  then show "otp_inv hash otp' \<and> tx_grows otp otp'" using assms(2) h otp_inv_step by blast
qed

lemma otp_good_bind:
  assumes "otp_good hash f" "\<And>x. otp_good hash (g x)"
  shows "otp_good hash (bindM f g)"
  unfolding otp_good_def
proof (intro allI impI)
  fix otp r otp'
  assume h: "hash_identifies hash" "otp_inv hash otp" "bindM f g otp = (r, otp')" "\<not> is_panic r"
  obtain u t where f: "f otp = (u, t)" by fastforce
  show "otp_inv hash otp' \<and> tx_grows otp otp'"
  proof (cases u)
    case (Inl e)
    with f h(3) have r: "r = Inl e" "otp' = t" by (simp_all add: bindM_def)
    have "\<not> is_panic u" using h(4) r(1) Inl by (cases e) simp_all
    with f h(1,2) r(2) show ?thesis using assms(1) unfolding otp_good_def by blast
  next
    case (Inr x)
    with f assms(1) h(1,2) have t: "otp_inv hash t" "tx_grows otp t" unfolding otp_good_def by auto
    have "g x t = (r, otp')" using h(3) f Inr by simp
    with assms(2)[of x] t(1) h(1,4) have "otp_inv hash otp' \<and> tx_grows t otp'" unfolding otp_good_def by blast
    with t(2) show ?thesis unfolding tx_grows_def by blast
  qed
qed

lemma otp_good_basic [simp, intro]: "otp_good hash (retM x)" "otp_good hash (liftM f)"
  by (auto simp: otp_good_def retM_def liftM_def tx_grows_def)

lemma otp_good_forM: "(\<And>x. otp_good hash (f x)) \<Longrightarrow> otp_good hash (forM f xs)"
  by (induction xs) (auto intro: otp_good_bind)

lemma MustBe_Inl: "OrderId_MustBeShortTermOrder i = Inl e \<Longrightarrow> \<exists>p. e = Panic p" "OrderId_MustBeStatefulOrder i = Inl e \<Longrightarrow> \<exists>p. e = Panic p"
  by (auto simp: OrderId_MustBeShortTermOrder_def OrderId_MustBeStatefulOrder_def split: if_splits)

lemma panic_if_Inl: "panic_if c n s = (Inl e, s') \<Longrightarrow> e = Panic n"
  by (auto simp: panic_if_def liftM_def split: if_splits)

lemma tx_grows_refl [simp]: "tx_grows otp otp"
  by (simp add: tx_grows_def)

lemma otp_good_place: "otp_good hash (MustAddShortTermOrderPlacementToOperationsQueue hash order)"
proof (rule otp_goodI)
  show "\<exists>p. e = Panic p" if "MustAddShortTermOrderPlacementToOperationsQueue hash order otp = (Inl e, otp')" for otp e otp'
    using that unfolding MustAddShortTermOrderPlacementToOperationsQueue_def
    by (auto simp: step_simps NewShortTermOrderPlacementInternalOperation_def bindr_def dest: MustBe_Inl panic_if_Inl split: sum.splits)
  show "otp_step hash otp otp' \<and> tx_grows otp otp'"
    if "MustAddShortTermOrderPlacementToOperationsQueue hash order otp = (Inr x, otp')" for otp x otp'
    using otp_step.add_short_term[of hash order otp otp'] that
    by (auto simp: otp_op_defs step_simps res_simps tx_grows_def split: if_splits)
qed

lemma otp_good_stateful: "otp_good hash (MustAddStatefulOrderPlacementToOperationsQueue hash order)"
proof (rule otp_goodI)
  show "\<exists>p. e = Panic p" if "MustAddStatefulOrderPlacementToOperationsQueue hash order otp = (Inl e, otp')" for otp e otp'
    using that unfolding MustAddStatefulOrderPlacementToOperationsQueue_def
    by (auto simp: step_simps NewPreexistingStatefulOrderPlacementInternalOperation_def bindr_def dest: MustBe_Inl panic_if_Inl split: sum.splits)
  show "otp_step hash otp otp' \<and> tx_grows otp otp'"
    if "MustAddStatefulOrderPlacementToOperationsQueue hash order otp = (Inr x, otp')" for otp x otp'
    using otp_step.add_stateful[of hash order otp otp'] that
    by (auto simp: otp_op_defs step_simps res_simps tx_grows_def split: if_splits)
qed

lemma otp_good_tx: "otp_good hash (MustAddShortTermOrderTxBytes hash order b)"
proof (rule otp_goodI)
  show "\<exists>p. e = Panic p" if "MustAddShortTermOrderTxBytes hash order b otp = (Inl e, otp')" for otp e otp'
    using that unfolding MustAddShortTermOrderTxBytes_def by (auto simp: step_simps dest: MustBe_Inl panic_if_Inl)
  show "otp_step hash otp otp' \<and> tx_grows otp otp'" if "MustAddShortTermOrderTxBytes hash order b otp = (Inr x, otp')" for otp x otp'
    using otp_step.add_tx_bytes[of hash order b otp otp'] that
    by (auto simp: otp_op_defs step_simps res_simps tx_grows_def split: if_splits)
qed

lemma otp_good_removal: "otp_good hash (MustAddOrderRemovalToOperationsQueue i reason)"
proof (rule otp_goodI)
  show "\<exists>p. e = Panic p" if "MustAddOrderRemovalToOperationsQueue i reason otp = (Inl e, otp')" for otp e otp'
    using that unfolding MustAddOrderRemovalToOperationsQueue_def NewOrderRemovalInternalOperation_def
    by (auto simp: step_simps bindr_def dest: MustBe_Inl panic_if_Inl split: sum.splits if_splits)
  show "otp_step hash otp otp' \<and> tx_grows otp otp'" if "MustAddOrderRemovalToOperationsQueue i reason otp = (Inr x, otp')" for otp x otp'
    using otp_step.add_removal[of i reason otp otp' hash] that
    by (auto simp: otp_op_defs step_simps res_simps tx_grows_def split: if_splits)
qed

lemma check_deleveraging_panics: "for_res (check_deleveraging_fill liq) fills seen = Inl e \<Longrightarrow> \<exists>p. e = Panic p"
  by (induction fills arbitrary: seen) (auto simp: check_deleveraging_fill_def bindr_def split: if_splits)

lemma otp_good_deleveraging: "otp_good hash (MustAddDeleveragingToOperationsQueue liq perp fills final)"
proof (rule otp_goodI)
  show "\<exists>p. e = Panic p" if "MustAddDeleveragingToOperationsQueue liq perp fills final otp = (Inl e, otp')" for otp e otp'
    using that unfolding MustAddDeleveragingToOperationsQueue_def
    by (auto simp: step_simps dest: panic_if_Inl check_deleveraging_panics)
  show "otp_step hash otp otp' \<and> tx_grows otp otp'" if "MustAddDeleveragingToOperationsQueue liq perp fills final otp = (Inr x, otp')" for otp x otp'
    using otp_step.add_deleveraging[of liq perp fills final otp otp' hash] that
    by (auto simp: otp_op_defs step_simps res_simps tx_grows_def split: if_splits)
qed

lemma otp_good_zero_fill: "otp_good hash (modifyM (AddZeroFillDeleveragingToOperationsQueue liq perp))"
  by (rule otp_goodI)
    (auto simp: modifyM_def tx_grows_def AddZeroFillDeleveragingToOperationsQueue_def appendOp_def
      intro: otp_step.add_zero_fill[unfolded AddZeroFillDeleveragingToOperationsQueue_def appendOp_def])

lemma otp_good_clear: "otp_good hash (modifyM ClearOperationsQueue)"
  by (rule otp_goodI)
    (auto simp: modifyM_def tx_grows_def ClearOperationsQueue_def intro: otp_step.clear[unfolded ClearOperationsQueue_def])

lemma match_op_panics:
  assumes "MustAddMatchToOperationsQueue hash taker fills otp = (Inl e, otp')"
  shows "\<exists>p. e = Panic p"
  using assms
  by (cases taker)
    (auto simp: MustAddMatchToOperationsQueue_def NewMatchOrdersInternalOperation_def
      NewMatchPerpetualLiquidationInternalOperation_def step_simps bindr_def Let_def dest: panic_if_Inl split: if_splits sum.splits)

lemma otp_good_match:
  assumes "\<forall>f \<in> set fills. mf_MakerOrderId (mfo_MakerFill f) = o_OrderId (mfo_Order f)"
  shows "otp_good hash (MustAddMatchToOperationsQueue hash taker fills)"
proof (rule otp_goodI)
  show "otp_step hash otp otp' \<and> tx_grows otp otp'" if "MustAddMatchToOperationsQueue hash taker fills otp = (Inr op, otp')" for otp op otp'
  proof
    show "otp_step hash otp otp'" using that assms by (rule otp_step.add_match)
    show "tx_grows otp otp'" using that
      by (auto simp: MustAddMatchToOperationsQueue_def step_simps Let_def appendOp_def tx_grows_def)
  qed
qed (rule match_op_panics)

lemma MustCmp_panics: "MustCmpReplacementOrder h x y = Inl e \<Longrightarrow> \<exists>p. e = Panic p"
  by (auto simp: MustCmpReplacementOrder_def Let_def split: if_splits)

lemma otp_inv_matched [simp]: "otp_inv hash (otp\<lparr>otp_MatchedOrderIdToOrder := x\<rparr>) = otp_inv hash otp"
  by (simp add: otp_inv_def hashes_known_def)

lemma otp_good_matched: "otp_good hash (recordMatchedOrder mhash mo)"
proof (cases mo)
  case (MO_Order order)
  show ?thesis
    unfolding otp_good_def
  proof (intro allI impI)
    fix otp r otp'
    assume h: "otp_inv hash otp" "recordMatchedOrder mhash mo otp = (r, otp')" "\<not> is_panic r"
    then have "otp' = otp \<or> (\<exists>x. otp' = otp\<lparr>otp_MatchedOrderIdToOrder := x\<rparr>)"
      by (auto simp: recordMatchedOrder_def MO_Order bindM_def liftM_def modifyM_def split: sum.splits)
    with h(1) show "otp_inv hash otp' \<and> tx_grows otp otp'"
      by (auto simp: tx_grows_def)
  qed
qed (simp add: recordMatchedOrder_def)

section \<open>Matching and placing orders\<close>

lemma preserves_bind_post:
  assumes "preserves I f" "\<And>s x s'. f s = (Inr x, s') \<Longrightarrow> Q x" "\<And>x. Q x \<Longrightarrow> preserves I (g x)"
  shows "preserves I (bindM f g)"
proof (rule preservesI)
  fix s r s'
  assume "I s" and b: "bindM f g s = (r, s')" and np: "\<not> is_panic r"
  obtain u t where f: "f s = (u, t)" by fastforce
  show "I s'"
  proof (cases u)
    case (Inl e)
    then have "r = Inl e" "s' = t" using b f by (simp_all add: bindM_def)
    with preservesD[OF assms(1) \<open>I s\<close> f] np Inl show ?thesis by (cases e) auto
  next
    case (Inr x)
    then have "I t" using preservesD[OF assms(1) \<open>I s\<close> f] by simp
    have "Q x" using assms(2) f Inr by blast
    then show ?thesis using preservesD[OF assms(3) \<open>I t\<close>] b f Inr np by simp
  qed
qed

lemma preserves_on_store: "preserves (mc_ok hash T) (on_store f)"
  by (rule preservesI) (auto simp: on_store_def mc_ok_def split: prod.splits)

lemma mc_ok_store [simp]: "mc_ok hash T (m\<lparr>mc_store := st\<rparr>) \<longleftrightarrow> mc_ok hash T m"
  by (simp add: mc_ok_def)

lemma preserves_onBranch:
  assumes "preserves (mc_ok hash T) f"
  shows "preserves (mc_ok hash T) (onBranch st f)"
proof (rule preservesI)
  fix m r m'
  assume ok: "mc_ok hash T m" and run: "onBranch st f m = (r, m')" "\<not> is_panic r"
  obtain u m1 where f: "f (m\<lparr>mc_store := st\<rparr>) = (u, m1)" by force
  then have "\<not> is_panic u" "mc_ok hash T m' \<longleftrightarrow> mc_ok hash T m1"
    using run by (auto simp: onBranch_def split: sum.splits)
  then show "mc_ok hash T m'" using preservesD[OF assms _ f] ok by simp
qed

lemma preserves_removeStateful: "preserves (mc_ok hash T) (removeStatefulFromState i reason)"
  unfolding removeStatefulFromState_def
  by (intro preserves_bind preserves_basic preserves_whenM preserves_otp otp_good_removal)

lemma preserves_updateMaker: "preserves (mc_ok hash T) (mustUpdateOrderbookStateWithMatchedMakerOrder k hash maker)"
  unfolding mustUpdateOrderbookStateWithMatchedMakerOrder_def
  by (intro preserves_bind preserves_basic preserves_if preserves_whenM preserves_removal)

lemma preserves_maybeCancelReduceOnly: "preserves (mc_ok hash T) (maybeCancelReduceOnlyOrders k hash a c q)"
  unfolding maybeCancelReduceOnlyOrders_def Let_def
  by (intro preserves_bind preserves_basic preserves_if preserves_forM preserves_removal preserves_removeStateful)

lemma otp_good_addPlacement: "otp_good hash (addOrderPlacementToOperationsQueue hash order)"
  by (simp add: addOrderPlacementToOperationsQueue_def otp_good_stateful otp_good_place)

lemma otp_good_addTaker: "otp_good hash (addTakerPlacement hash ctx taker)"
  by (cases taker) (auto simp: addTakerPlacement_def intro!: otp_good_stateful otp_good_bind otp_good_tx otp_good_place)

lemma preserves_applyMakerFills: "preserves (mc_ok hash T) (applyMakerFills k hash taker mm fills acc totals)"
proof (induction fills arbitrary: acc totals)
  case (Cons f fills)
  then show ?case
    by (auto split: option.split
        intro!: preserves_bind preserves_whenM preserves_otp otp_good_addPlacement preserves_updateMaker)
qed simp

definition fills_named :: "MakerFillWithOrder list \<Rightarrow> bool" where
  "fills_named fw \<longleftrightarrow> (\<forall>f \<in> set fw. mf_MakerOrderId (mfo_MakerFill f) = o_OrderId (mfo_Order f))"

definition ids_ok :: "(OrderId, Order) gomap \<Rightarrow> bool" where
  "ids_ok mm \<longleftrightarrow> (\<forall>i order. gm_get mm i = Some order \<longrightarrow> o_OrderId order = i)"

lemma applyMakerFills_named:
  assumes "applyMakerFills k hash taker mm fills acc totals m = (Inr r, m')" "ids_ok mm" "fills_named acc"
  shows "fills_named (fst r)"
  using assms
proof (induction fills arbitrary: acc totals m)
  case (Cons f fills)
  from Cons.prems(1) obtain maker m1 where
    "gm_get mm (mf_MakerOrderId f) = Some maker"
    and run: "applyMakerFills k hash taker mm fills (acc @ [\<lparr>mfo_MakerFill = f, mfo_Order = maker\<rparr>])
      (addMatchedQuantums (mf_FillAmount f) taker (addMatchedQuantums (mf_FillAmount f) (MO_Order maker) totals)) m1 = (Inr r, m')"
    by (auto simp: step_simps split: option.splits if_splits)
  then have "fills_named (acc @ [\<lparr>mfo_MakerFill = f, mfo_Order = maker\<rparr>])"
    using Cons.prems(2,3) by (auto simp: fills_named_def ids_ok_def)
  from Cons.IH[OF run Cons.prems(2) this] show ?case .
qed (auto simp: step_simps)

lemma preserves_updateMemclob:
  assumes "hash = (\<lambda>x. mhash (MO_Order x))" "ids_ok mm"
  shows "preserves (mc_ok hash T) (mustUpdateMemclobStateWithMatches k mhash ctx taker fills byHash mm)"
  unfolding mustUpdateMemclobStateWithMatches_def Let_def assms(1)[symmetric]
proof (rule preserves_bind[OF preserves_otp[OF otp_good_forM[OF otp_good_matched]]],
    rule preserves_bind_post[OF preserves_applyMakerFills, where Q = "\<lambda>r. fills_named (fst r)"], goal_cases)
  case (1 u s x s')
  have "fills_named []" by (simp add: fills_named_def)
  then show ?case using applyMakerFills_named[OF 1 assms(2)] by blast
next
  case (2 u x)
  then show ?case
    by (auto simp: fills_named_def split: prod.split
        intro!: preserves_bind preserves_otp otp_good_addTaker otp_good_match preserves_forM preserves_maybeCancelReduceOnly)
qed

text \<open>The map of mm makers is keyed by their ids, however far the walk went.\<close>

lemma walk_invariant:
  fixes body :: "'n \<Rightarrow> 's \<Rightarrow> 's loop res"
  assumes run: "walk after body cur s = Some r" and init: "I s"
    and cont: "\<And>n s s'. I s \<Longrightarrow> body n s = Inr (Continue s') \<Longrightarrow> I s'"
    and brk: "\<And>n s s'. I s \<Longrightarrow> body n s = Inr (Break s') \<Longrightarrow> I s'"
  shows "\<forall>t. r = Inr t \<longrightarrow> I t"
proof -
  let ?P = "\<lambda>(aft :: 'n \<Rightarrow> 'n option) bod (cur :: 'n option) s r. bod = body \<longrightarrow> I s \<longrightarrow> (\<forall>t. r = Inr t \<longrightarrow> I t)"
  have "?P after body cur s r"
  proof (rule walk.raw_induct[where P = ?P, OF _ run])
    fix w aft bod c s y
    assume 1: "\<And>a b c d y. w a b c d = Some y \<Longrightarrow> ?P a b c d y"
      "(case c of None \<Rightarrow> Some (Inr s)
        | Some n \<Rightarrow> (case bod n s of Inl e \<Rightarrow> Some (Inl e) | Inr (Break s') \<Rightarrow> Some (Inr s')
            | Inr (Continue s') \<Rightarrow> w aft bod (aft n) s')) = Some y"
    show "?P aft bod c s y"
    proof (intro impI allI)
      fix t assume bod: "bod = body" and s: "I s" and t: "y = Inr t"
      show "I t"
      proof (cases c)
        case None
        with 1 s t show ?thesis by simp
      next
        case (Some n)
        from 1(2) Some t consider (b) "bod n s = Inr (Break t)"
          | (c) s' where "bod n s = Inr (Continue s')" "w aft bod (aft n) s' = Some y"
          by (auto split: sum.splits loop.splits)
        then show ?thesis
        proof cases
          case b
          then show ?thesis using brk s bod by blast
        next
          case c
          then show ?thesis using 1(1) cont s bod t by blast
        qed
      qed
    qed
  qed
  with init show ?thesis by blast
qed

definition step_ids :: "Order \<Rightarrow> 's match_state \<Rightarrow> 's match_state loop \<Rightarrow> bool" where
  "step_ids maker ms r \<longleftrightarrow>
     (\<forall>ms'. r = Continue ms' \<or> r = Break ms' \<longrightarrow>
        ms_matchedMakerOrderIdToOrder ms' = ms_matchedMakerOrderIdToOrder ms \<or>
        ms_matchedMakerOrderIdToOrder ms' = gm_set (o_OrderId maker) maker (ms_matchedMakerOrderIdToOrder ms))"

lemma step_ids_process:
  assumes "processMatch k mhash taker maker amount ms = Inr r"
  shows "step_ids maker ms r"
proof -
  from assms obtain outcome st where
    "afterMatch k mhash taker maker amount outcome (ms\<lparr>ms_store := st\<rparr>) = Inr r"
    by (auto simp: processMatch_def split: prod.splits sum.splits)
  then show ?thesis
  proof (cases rule: afterMatch_cases)
    case (stop ms')
    then show ?thesis using stores_only_simps(3)[OF stop(2)] by (simp add: step_ids_def)
  next
    case (stop_remove ms')
    then show ?thesis using stores_only_simps(3)[OF stop_remove(2)] by (simp add: step_ids_def)
  next
    case remove
    then show ?thesis by (simp add: step_ids_def)
  next
    case skip
    then show ?thesis by (simp add: step_ids_def)
  next
    case match
    then show ?thesis
      by (elim recordMatch_cases[OF sym]) (auto simp: step_ids_def)
  qed
qed

lemma step_ids_matchMaker:
  assumes "matchMaker k mhash otp taker n ms = Inr r"
  shows "step_ids (co_Order n) ms r"
  using assms step_ids_process[of k mhash taker "co_Order n" _ ms r]
  by (auto simp: matchMaker_def sizeMatch_def Let_def res_simps step_ids_def split: if_splits prod.splits)

lemma ids_ok_matchMaker:
  assumes "matchMaker k mhash otp taker n ms = Inr r" "r = Continue ms' \<or> r = Break ms'"
    and "ids_ok (ms_matchedMakerOrderIdToOrder ms)"
  shows "ids_ok (ms_matchedMakerOrderIdToOrder ms')"
proof -
  have "ms_matchedMakerOrderIdToOrder ms' = ms_matchedMakerOrderIdToOrder ms \<or>
      ms_matchedMakerOrderIdToOrder ms' = gm_set (node_id n) (co_Order n) (ms_matchedMakerOrderIdToOrder ms)"
    using step_ids_matchMaker[OF assms(1)] assms(2) unfolding step_ids_def by blast
  with assms(3) show ?thesis by (auto simp: ids_ok_def split: if_splits)
qed

lemma matching_ids_ok:
  assumes "mustPerformTakerOrderMatching k mhash taker m = Some (Inr (ms, status))"
  shows "ids_ok (ms_matchedMakerOrderIdToOrder ms)"
proof -
  from assms obtain b w where run: "walk_book b (\<not> mo_IsBuy taker) (matchMaker k mhash (mc_operationsToPropose m) taker)
      (initialMatchState (mc_store m) w) = Some (Inr ms)"
    by (auto simp: mustPerformTakerOrderMatching_def res_simps split: sum.splits)
  let ?I = "\<lambda>ms. ids_ok (ms_matchedMakerOrderIdToOrder ms)"
  have "\<forall>t. (Inr ms :: 'a match_state res) = Inr t \<longrightarrow> ?I t"
  proof (rule walk_invariant[where I = ?I, OF run[unfolded walk_book_def]])
    show "?I (initialMatchState (mc_store m) w)" by (simp add: initialMatchState_def ids_ok_def)
  qed (rule ids_ok_matchMaker, assumption, simp, assumption)+
  then show ?thesis by simp
qed

lemma preserves_matchOrder:
  assumes "hash = (\<lambda>x. mhash (MO_Order x))"
  shows "preserves (mc_ok hash T) (matchOrder k mhash ctx taker)"
  unfolding matchOrder_def Let_def assms[symmetric]
proof (rule preserves_bind[OF preserves_basic(3)], rule preserves_bind_lift, goal_cases)
  case (1 orderbook m x)
  obtain ms status where x: "x = (ms, status)" by force
  with 1 have "mustPerformTakerOrderMatching k mhash taker m = Some (Inr (ms, status))" by (auto split: option.splits)
  then have "ids_ok (ms_matchedMakerOrderIdToOrder ms)" by (rule matching_ids_ok)
  then show ?case
    unfolding x
    by (auto intro!: preserves_bind preserves_forM preserves_removal preserves_removeStateful preserves_whenM
        preserves_onBranch preserves_updateMemclob[OF assms])
qed

lemma tx_in_queue:
  assumes "hash_identifies hash" "otp_inv hash otp" "IsOrderPlacementInOperationsQueue hash otp order"
    and "Order_IsShortTermOrder order"
  shows "gm_get (otp_ShortTermOrderHashToTxBytes otp) (hash order) \<noteq> None"
proof -
  have "hashes_known hash otp" using assms(2) by (simp add: otp_inv_def)
  with assms(3) have "hash order \<in> hash ` (set (placed_of (otp_OperationsQueue otp)) \<union> Collect Order_IsStatefulOrder)"
    unfolding hashes_known_def IsOrderPlacementInOperationsQueue_def by blast
  then obtain order' where o: "hash order = hash order'"
    "order' \<in> set (placed_of (otp_OperationsQueue otp)) \<union> Collect Order_IsStatefulOrder"
    by blast
  then have "o_OrderId order = o_OrderId order'" using assms(1) unfolding hash_identifies_def by blast
  then have "\<not> Order_IsStatefulOrder order'"
    using assms(4) stateful_not_short_term by (auto simp: Order_IsShortTermOrder_def Order_IsStatefulOrder_def)
  with o(2) have "order' \<in> set (placed_of (otp_OperationsQueue otp))" by blast
  moreover have "\<forall>order \<in> set (placed_of (otp_OperationsQueue otp)).
      gm_get (otp_ShortTermOrderHashToTxBytes otp) (hash order) \<noteq> None"
    using assms(2) unfolding otp_inv_def by blast
  ultimately show ?thesis unfolding o(1) by (rule bspec[rotated])
qed

lemma bindM_retM_outcome:
  assumes "bindM f (\<lambda>_. retM x) m = (r, m')" "\<not> is_panic r"
  obtains v where "f m = (v, m')" "\<not> is_panic v"
proof -
  obtain v m2 where v: "f m = (v, m2)" by force
  show thesis
  proof (cases v)
    case (Inl e)
    with assms v have "m2 = m'" "r = Inl e" by (simp_all add: bindM_def)
    then show ?thesis using that v Inl assms(2) by (cases e) auto
  next
    case (Inr y)
    with assms v show ?thesis using that by (simp add: bindM_def retM_def)
  qed
qed

lemma book_added_simps [simp]:
  "book_orderIdToLevelOrder (book_added ord front b) =
     gm_set (o_OrderId ord) \<lparr>co_Order = ord, co_Signature = []\<rparr> (book_orderIdToLevelOrder b)"
  "book_SubticksPerTick (book_added ord front b) = book_SubticksPerTick b"
  "book_orderIdToCancelExpiry (book_added ord front b) = book_orderIdToCancelExpiry b"
  "book_cancelExpiryToOrderIds (book_added ord front b) = book_cancelExpiryToOrderIds b"
  by (simp_all add: book_added_def Let_def)

lemma cancels_added: "cancels_ok (book_added ord front b) \<longleftrightarrow> cancels_ok b"
  by (simp add: cancels_ok_def)

lemma mustAddOrder_outcome:
  assumes "mustAddOrderToOrderbook ord front b = (r, b')" "\<not> is_panic r"
  shows "MustBeValidOrderSide ord = Inr ()" "\<not> hasOrder b (o_OrderId ord)" "b' = book_added ord front b"
proof -
  show side: "MustBeValidOrderSide ord = Inr ()"
    using assms by (auto simp: mustAddOrderToOrderbook_def bindM_def liftM_def MustBeValidOrderSide_def split: if_splits)
  show new: "\<not> hasOrder b (o_OrderId ord)"
  proof
    assume "hasOrder b (o_OrderId ord)"
    then have "hasOrder (createLevel ord (updateBestOnAdd ord b)) (o_OrderId ord)"
      by (auto simp: hasOrder_def createLevel_def updateBestOnAdd_def setSide_def Let_def)
    with assms side show False by (auto simp: mustAddOrderToOrderbook_def bindM_def liftM_def modifyM_def)
  qed
  show "b' = book_added ord front b" using mustAddOrderToOrderbook_eq[OF side new] assms(1) by simp
qed

lemma on_book_outcome:
  assumes "on_book i f m = (r, m')" "\<not> is_panic r"
  obtains b b' where "gm_get (mc_orderbooks m) i = Some b" "f b = (r, b')"
    "m' = m\<lparr>mc_orderbooks := gm_set i b' (mc_orderbooks m)\<rparr>"
proof (cases "gm_get (mc_orderbooks m) i")
  case None
  with assms show ?thesis by (auto simp: on_book_def mustGetOrderbook_def)
next
  case (Some b)
  obtain r1 b' where f: "f b = (r1, b')" by force
  with Some assms(1) have "r = r1" "m' = m\<lparr>mc_orderbooks := gm_set i b' (mc_orderbooks m)\<rparr>"
    by (simp_all add: on_book_def mustGetOrderbook_def)
  with Some f that show ?thesis by blast
qed

definition aligned :: "Order \<Rightarrow> uint32 \<Rightarrow> uint32 \<Rightarrow> bool" where
  "aligned order i t \<longleftrightarrow>
     (i = oid_ClobPairId (o_OrderId order) \<longrightarrow> uint (ucast t :: uint64) dvd uint (o_Subticks order))"

lemma mc_ok_added:
  assumes ok: "mc_ok hash (aligned order) m"
    and tx: "Order_IsShortTermOrder order \<Longrightarrow>
      gm_get (otp_ShortTermOrderHashToTxBytes (mc_operationsToPropose m)) (hash order) \<noteq> None"
    and run: "memclob_mustAddOrderToOrderbook k order front m = (r, m')" "\<not> is_panic r"
  shows "mc_ok hash (aligned order) m'"
proof -
  let ?i = "oid_ClobPairId (o_OrderId order)"
  have "on_book ?i (mustAddOrderToOrderbook order front) m = (r, m')"
    using run by (cases "snd (GetOrderRemainingAmount k (mc_store m) order)")
      (auto simp: memclob_mustAddOrderToOrderbook_def bindM_def liftM_def)
  then obtain b b' where b: "gm_get (mc_orderbooks m) ?i = Some b"
    and add: "mustAddOrderToOrderbook order front b = (r, b')"
    and m': "m' = m\<lparr>mc_orderbooks := gm_set ?i b' (mc_orderbooks m)\<rparr>"
    using run(2) by (rule on_book_outcome)
  note out = mustAddOrder_outcome[OF add run(2)] and D = mc_okD[OF ok]
  have "uint (tick b) dvd uint (o_Subticks order)" using D(3)[OF b] by (simp add: book_ok_def aligned_def)
  then have "book_inv b'" using book_inv_added[OF D(5)[OF b] out(1,2)] out(3) by simp
  then have "book_ok (aligned order) ?i b'"
    using D(3)[OF b] unfolding out(3) by (auto simp: book_ok_def cancels_added split: if_splits)
  moreover have "has_tx hash (mc_operationsToPropose m) b'"
    using D(4)[OF b] tx unfolding out(3) by (auto simp: has_tx_def Order_IsShortTermOrder_def)
  ultimately have new: "book_ok (aligned order) ?i b' \<and> has_tx hash (mc_operationsToPropose m) b'" by blast
  show ?thesis unfolding mc_ok_def
  proof (intro conjI allI impI)
    fix i c assume "gm_get (mc_orderbooks m') i = Some c"
    then have "i = ?i \<and> c = b' \<or> gm_get (mc_orderbooks m) i = Some c" by (auto simp: m' split: if_splits)
    then show "book_ok (aligned order) i c" "has_tx hash (mc_operationsToPropose m') c"
      using new D(3,4) by (auto simp: m')
  qed (use D(1,2) in \<open>simp_all add: m'\<close>)
qed

lemma preserves_restOrder: "preserves (mc_ok hash (aligned order)) (restOrder k hash ctx order status)"
proof -
  let ?add = "\<lambda>c. bindM (whenM c (on_otp (MustAddShortTermOrderTxBytes hash order (mx_TxBytes ctx)))) (\<lambda>_.
      bindM (memclob_mustAddOrderToOrderbook k order False) (\<lambda>_. retM (tos_OrderOptimisticallyFilledQuantums status, OS_Success)))"
  let ?c = "\<lambda>m. Order_IsShortTermOrder order \<and> \<not> IsOrderPlacementInOperationsQueue hash (mc_operationsToPropose m) order"
  have "preserves (mc_ok hash (aligned order)) (bindM (readM ?c) ?add)"
  proof (rule preservesI)
    fix m r m'
    assume ok: "mc_ok hash (aligned order) (m :: 'a MemClob)" and run: "bindM (readM ?c) ?add m = (r, m')" "\<not> is_panic r"
    note D = mc_okD[OF ok]
    have good: "preserves (mc_ok hash (aligned order)) (whenM (?c m) (on_otp (MustAddShortTermOrderTxBytes hash order (mx_TxBytes ctx))))"
      by (intro preserves_whenM preserves_otp otp_good_tx)
    obtain u m1 where w: "whenM (?c m) (on_otp (MustAddShortTermOrderTxBytes hash order (mx_TxBytes ctx))) m = (u, m1)" by force
    have b: "bindM (readM ?c) ?add m = ?add (?c m) m" by (simp add: bindM_def readM_def liftM_def)
    have u: "u = Inr ()"
    proof (cases u)
      case (Inl e)
      then have "r = Inl e" using run(1) w unfolding b by (simp add: bindM_def)
      moreover have "\<exists>p. e = Panic p"
        using w Inl by (auto simp: whenM_def retM_def on_otp_def MustAddShortTermOrderTxBytes_def step_simps
            dest: MustBe_Inl panic_if_Inl split: if_splits prod.splits)
      ultimately show ?thesis using run(2) by auto
    qed simp
    have ok1: "mc_ok hash (aligned order) m1" using preservesD[OF good ok w] u by simp
    have tx: "gm_get (otp_ShortTermOrderHashToTxBytes (mc_operationsToPropose m1)) (hash order) \<noteq> None"
      if "Order_IsShortTermOrder order"
    proof (cases "?c m")
      case True
      with w u show ?thesis
        by (auto simp: whenM_def on_otp_def MustAddShortTermOrderTxBytes_def step_simps split: prod.splits)
    next
      case False
      with w have "m1 = m" by (simp add: whenM_def retM_def)
      with False that tx_in_queue[OF D(1,2)] show ?thesis by blast
    qed
    have "bindM (memclob_mustAddOrderToOrderbook k order False)
        (\<lambda>_. retM (tos_OrderOptimisticallyFilledQuantums status, OS_Success)) m1 = (r, m')"
      using run(1) w u unfolding b by simp
    then obtain v where v: "memclob_mustAddOrderToOrderbook k order False m1 = (v, m')" "\<not> is_panic v"
      using run(2) by (rule bindM_retM_outcome)
    then show "mc_ok hash (aligned order) m'" using mc_ok_added[OF ok1 tx] by blast
  qed
  then show ?thesis
    unfolding restOrder_def Let_def
    by (auto intro!: preserves_bind preserves_whenM preserves_removeStateful)
qed

lemma preserves_checkNotCrossed:
  assumes "preserves I f"
  shows "preserves I (checkNotCrossed i f)"
proof (rule preservesI)
  fix m r m'
  assume m: "I m" and run: "checkNotCrossed i f m = (r, m')" "\<not> is_panic r"
  obtain u m1 where f: "f m = (u, m1)" by force
  have "m' = m1 \<and> \<not> is_panic u"
    using run f
    by (cases u rule: sum.exhaust; cases "mustGetOrderbook m1 i")
      (auto simp: checkNotCrossed_def split: error.splits if_splits)
  with preservesD[OF assms m f] show "I m'" by blast
qed

lemma preserves_PlaceOrder:
  assumes "hash = (\<lambda>x. mhash (MO_Order x))"
  shows "preserves (mc_ok hash (aligned order)) (PlaceOrder k mhash ctx order)"
  unfolding PlaceOrder_def Let_def assms[symmetric]
proof (intro preserves_bind preserves_basic preserves_checkNotCrossed preserves_matchOrder[OF assms], goal_cases)
  case (1 _ _ _ x)
  then show ?case
    by (cases x) (auto split: option.split intro!: preserves_restOrder preserves_bind preserves_removeStateful)
qed

lemma preserves_liquidation:
  assumes "hash = (\<lambda>x. mhash (MO_Order x))"
  shows "preserves (mc_ok hash T) (PlacePerpetualLiquidation k mhash ctx lo)"
  unfolding PlacePerpetualLiquidation_def
  by (auto split: option.split prod.split intro!: preserves_bind preserves_matchOrder[OF assms])

lemma preserves_deleverage: "preserves (mc_ok hash T) (DeleverageSubaccount k ctx a p delta final)"
  unfolding DeleverageSubaccount_def
  by (auto split: prod.split intro!: preserves_bind preserves_on_store preserves_whenM preserves_otp otp_good_deleveraging)

lemma preserves_on_book:
  assumes "\<And>b r b'. book_ok T i b \<Longrightarrow> f b = (r, b') \<Longrightarrow> \<not> is_panic r \<Longrightarrow>
      book_ok T i b' \<and> book_orderIdToLevelOrder b' = book_orderIdToLevelOrder b"
  shows "preserves (mc_ok hash T) (on_book i f)"
proof (rule preservesI)
  fix m r m'
  assume ok: "mc_ok hash T (m :: 's MemClob)" and run: "on_book i f m = (r, m')" "\<not> is_panic r"
  obtain b b' where b: "gm_get (mc_orderbooks m) i = Some b" "f b = (r, b')"
    and m': "m' = m\<lparr>mc_orderbooks := gm_set i b' (mc_orderbooks m)\<rparr>"
    using run by (rule on_book_outcome)
  note D = mc_okD[OF ok]
  have new: "book_ok T i b'" "has_tx hash (mc_operationsToPropose m) b'"
    using assms[OF D(3)[OF b(1)] b(2) run(2)] D(4)[OF b(1)] by (simp_all add: has_tx_def)
  show "mc_ok hash T m'"
    unfolding mc_ok_def
  proof (intro conjI allI impI)
    fix j c assume "gm_get (mc_orderbooks m') j = Some c"
    then have "j = i \<and> c = b' \<or> gm_get (mc_orderbooks m) j = Some c" by (auto simp: m' split: if_splits)
    then show "book_ok T j c" "has_tx hash (mc_operationsToPropose m') c"
      using new D(3,4) by (auto simp: m')
  qed (use D(1,2) in \<open>simp_all add: m'\<close>)
qed

definition cancel_part :: "(uint32 \<Rightarrow> uint32 \<Rightarrow> bool) \<Rightarrow> uint32 \<Rightarrow> (OrderId, LevelOrder) gomap \<Rightarrow> Orderbook \<Rightarrow> bool" where
  "cancel_part T i L b \<longleftrightarrow> book_ok T i b \<and> book_orderIdToLevelOrder b = L"

lemma preserves_cancel_part:
  assumes "\<And>L. preserves (cancel_part T i L) f"
  shows "preserves (mc_ok hash T) (on_book i f)"
proof (rule preserves_on_book, goal_cases)
  case (1 b r b')
  then have "cancel_part T i (book_orderIdToLevelOrder b) b" by (simp add: cancel_part_def)
  from preservesD[OF assms this 1(2,3)] show ?case by (simp add: cancel_part_def)
qed

lemma preserves_addCancel: "preserves (cancel_part T i L) (addShortTermCancel j t)"
proof (rule preservesI)
  fix b r b'
  assume b: "cancel_part T i L b" and run: "addShortTermCancel j t b = (r, b')" "\<not> is_panic r"
  then have c: "\<not> OrderId_IsStatefulOrder j" "getCancel b j = None"
    by (auto simp: addShortTermCancel_def bindM_def liftM_def OrderId_MustBeShortTermOrder_def split: if_splits)
  have ok: "cancels_ok b" using b by (simp add: cancel_part_def book_ok_def)
  have b': "b' = b\<lparr>book_orderIdToCancelExpiry := gm_set j t (book_orderIdToCancelExpiry b),
     book_cancelExpiryToOrderIds := gm_set t (gm_set j True (gm_at (book_cancelExpiryToOrderIds b) t)) (book_cancelExpiryToOrderIds b)\<rparr>"
    using addShortTermCancel_eq[OF ok c, of t] run(1) by simp
  have "cancels_ok b'" unfolding b' by (rule cancels_ok_add[OF ok c(2)])
  moreover have "book_inv b'" unfolding b' using b by (simp add: cancel_part_def book_ok_def)
  ultimately show "cancel_part T i L b'"
    using b unfolding cancel_part_def book_ok_def by (simp add: b')
qed

lemma preserves_removeCancel: "preserves (cancel_part T i L) (mustRemoveCancel j)"
proof (rule preservesI)
  fix b r b'
  assume b: "cancel_part T i L b" and run: "mustRemoveCancel j b = (r, b')" "\<not> is_panic r"
  then obtain t where t: "getCancel b j = Some t"
    by (auto simp: mustRemoveCancel_def bindM_def liftM_def split: option.splits)
  have ok: "cancels_ok b" using b by (simp add: cancel_part_def book_ok_def)
  have b': "b' = b\<lparr>book_orderIdToCancelExpiry := gm_del j (book_orderIdToCancelExpiry b),
     book_cancelExpiryToOrderIds := gm_del_in t j (book_cancelExpiryToOrderIds b)\<rparr>"
    using mustRemoveCancel_eq[OF ok t] run(1) by simp
  have "cancels_ok b'" unfolding b' by (rule cancels_ok_remove[OF ok t])
  moreover have "book_inv b'" unfolding b' using b by (simp add: cancel_part_def book_ok_def)
  ultimately show "cancel_part T i L b'"
    using b unfolding cancel_part_def book_ok_def by (simp add: b')
qed

lemma preserves_removeAllCancels: "preserves (cancel_part T i L) (removeAllCancelsAtBlock h)"
  unfolding removeAllCancelsAtBlock_def
  by (auto split: option.split intro!: preserves_bind preserves_forM preserves_removeCancel)

lemma preserves_cancelResting: "preserves (mc_ok hash T) (cancelResting hash b j t)"
  by (auto simp: cancelResting_def split: option.split intro!: preserves_whenM preserves_removal)

lemma preserves_CancelOrder: "preserves (mc_ok hash T) (CancelOrder hash ctx msg)"
  unfolding CancelOrder_def Let_def
  by (auto split: option.split
      intro!: preserves_bind preserves_cancelResting preserves_cancel_part preserves_addCancel preserves_removeCancel)

lemma preserves_RemoveOrderIfFilled: "preserves (mc_ok hash T) (RemoveOrderIfFilled k hash i)"
  unfolding RemoveOrderIfFilled_def
  by (auto split: option.split prod.split intro!: preserves_bind preserves_whenM preserves_removal)

lemma preserves_removeStatefulIfExists: "preserves (mc_ok hash T) (removeStatefulIfExists hash i)"
  unfolding removeStatefulIfExists_def
  by (auto intro!: preserves_bind preserves_whenM preserves_removal)

lemma preserves_Purge: "preserves (mc_ok hash T) (PurgeInvalidMemclobState k hash ctx filled expired canceled forced)"
  unfolding PurgeInvalidMemclobState_def removeExpired_def
  by (intro preserves_bind preserves_basic preserves_forM preserves_RemoveOrderIfFilled preserves_removeStatefulIfExists
      preserves_removal preserves_cancel_part preserves_removeAllCancels)

lemma mc_ok_new: "hash_identifies hash \<Longrightarrow> mc_ok hash T (NewMemClobPriceTimePriority st)"
  by (simp add: mc_ok_def NewMemClobPriceTimePriority_def otp_inv_new)

lemma preserves_Create: "preserves (mc_ok hash (\<lambda>_ _. True)) (CreateOrderbook cp)"
proof (rule preservesI)
  fix m r m'
  assume ok: "mc_ok hash (\<lambda>_ _. True) (m :: 's MemClob)" and run: "CreateOrderbook cp m = (r, m')" "\<not> is_panic r"
  then have t: "cp_SubticksPerTick cp \<noteq> 0"
    and m': "m' = m\<lparr>mc_orderbooks := gm_set (cp_Id cp) (empty_book (cp_SubticksPerTick cp) (cp_StepBaseQuantums cp)) (mc_orderbooks m)\<rparr>"
    by (auto simp: CreateOrderbook_def bindM_def liftM_def modifyM_def Let_def split: if_splits)
  have "book_ok (\<lambda>_ _. True) (cp_Id cp) (empty_book (cp_SubticksPerTick cp) (cp_StepBaseQuantums cp))"
    using book_inv_empty[OF t] by (simp add: book_ok_def cancels_ok_def empty_book_def)
  with ok show "mc_ok hash (\<lambda>_ _. True) m'" by (auto simp: mc_ok_def m' has_tx_def empty_book_def split: if_splits)
qed

lemma book_inv_sync:
  assumes "book_inv b" "t \<noteq> 0" "book_SubticksPerTick b mod t = 0"
  shows "book_inv (b\<lparr>book_SubticksPerTick := t, book_MinOrderBaseQuantums := q\<rparr>)"
proof -
  have "uint t dvd uint (book_SubticksPerTick b)" using assms(3) by (simp add: dvd_word_iff)
  then have "uint (ucast t :: uint64) dvd uint (tick b)" by (simp add: uint_up_ucast is_up)
  then have "side_ok (ucast t) L s levels" if "side_ok (tick b) L s levels" for L s levels
  proof -
    have "uint (tick b) dvd uint p \<Longrightarrow> uint (ucast t :: uint64) dvd uint p" for p :: uint64
      using \<open>uint (ucast t :: uint64) dvd uint (tick b)\<close> by (rule dvd_trans)
    with that show ?thesis unfolding side_ok_def by blast
  qed
  with assms(1,2) show ?thesis by (simp add: book_inv_def Let_def)
qed

lemma preserves_Sync: "preserves (mc_ok hash (\<lambda>_ _. True)) (SyncOrderbookState cp)"
  unfolding SyncOrderbookState_def
proof (rule preserves_on_book, goal_cases)
  case (1 b r b')
  then have t: "cp_SubticksPerTick cp \<noteq> 0" "book_SubticksPerTick b mod cp_SubticksPerTick cp = 0"
    and b': "b' = b\<lparr>book_SubticksPerTick := cp_SubticksPerTick cp, book_MinOrderBaseQuantums := cp_StepBaseQuantums cp\<rparr>"
    by (auto simp: bindM_def liftM_def modifyM_def Let_def split: if_splits)
  from 1(1) book_inv_sync[OF _ t] show ?case by (auto simp: b' book_ok_def cancels_ok_def)
qed

lemma preserves_clearOp:
  "preserves (mc_ok hash T) (clearOp hash op)"
proof (cases op)
  case (Op_ShortTermOrderPlacement order)
  show ?thesis
  proof (rule preservesI)
    fix m r m'
    assume ok: "mc_ok hash T (m :: 's MemClob)" and run: "clearOp hash op m = (r, m')" "\<not> is_panic r"
    note D = mc_okD[OF ok]
    from run obtain b where b: "gm_get (mc_orderbooks m) (oid_ClobPairId (o_OrderId order)) = Some b"
      by (auto simp: clearOp_def Op_ShortTermOrderPlacement bindM_def liftM_def GetOrder_def mustGetOrderbook_def
          split: option.splits)
    show "mc_ok hash T m'"
    proof (cases "\<exists>ex. getOrder b (o_OrderId order) = Some ex \<and> hash ex = hash order")
      case True
      then have "memclob_mustRemoveOrder hash (o_OrderId order) m = (r, m')"
        using run(1) b by (auto simp: clearOp_def Op_ShortTermOrderPlacement bindM_def liftM_def GetOrder_def mustGetOrderbook_def)
      then show ?thesis using preservesD[OF preserves_removal ok _ run(2)] by blast
    next
      case False
      then have rm: "on_otp (RemoveShortTermOrderTxBytes hash order) m = (r, m')"
        using run(1) b by (auto simp: clearOp_def Op_ShortTermOrderPlacement bindM_def liftM_def GetOrder_def
            mustGetOrderbook_def split: option.splits if_splits)
      then obtain otp' where otp': "RemoveShortTermOrderTxBytes hash order (mc_operationsToPropose m) = (r, otp')"
        and m': "m' = m\<lparr>mc_operationsToPropose := otp'\<rparr>"
        by (auto simp: on_otp_def split: prod.splits)
      have r: "r = Inr ()"
        using otp' run(2) by (cases r) (auto simp: RemoveShortTermOrderTxBytes_def step_simps dest!: MustBe_Inl panic_if_Inl)
      then have eq: "otp' = tx_removed (hash order) (mc_operationsToPropose m)"
        using otp' by (auto simp: RemoveShortTermOrderTxBytes_def step_simps tx_removed_def)
      have inv: "otp_inv hash otp'"
        using otp_inv_step[OF otp_step.remove_tx_bytes D(2,1)] otp' r by blast
      have "has_tx hash otp' c" if c: "gm_get (mc_orderbooks m) j = Some c" for j c
        unfolding has_tx_def
      proof (intro allI impI)
        fix i n assume n: "gm_get (book_orderIdToLevelOrder c) i = Some n" "OrderId_IsShortTermOrder i"
        have "hash (co_Order n) \<noteq> hash order"
        proof
          assume h: "hash (co_Order n) = hash order"
          then have "i = o_OrderId order"
            using D(1) resting_node_id[OF D(5)[OF c] n(1)] unfolding hash_identifies_def by metis
          moreover have "oid_ClobPairId i = j" using D(3)[OF c] n(1) by (simp add: book_ok_def)
          ultimately have "c = b" using b c by simp
          with False h n(1) \<open>i = o_OrderId order\<close> show False by (auto simp: getOrder_def)
        qed
        then show "gm_get (otp_ShortTermOrderHashToTxBytes otp') (hash (co_Order n)) \<noteq> None"
          using D(4)[OF c] n unfolding has_tx_def eq by (simp add: tx_removed_def)
      qed
      with D inv show ?thesis by (auto simp: mc_ok_def m')
    qed
  qed
next
  case (Op_PreexistingStatefulOrder i)
  then show ?thesis by (auto simp: clearOp_def intro!: preserves_bind preserves_whenM preserves_removal)
qed (auto simp: clearOp_def)

lemma preserves_RemoveAndClear: "preserves (mc_ok hash T) (RemoveAndClearOperationsQueue hash ctx ops)"
  unfolding RemoveAndClearOperationsQueue_def
  by (intro preserves_bind preserves_basic preserves_otp otp_good_clear preserves_forM preserves_clearOp)

section \<open>Reachable states\<close>

text \<open>
  The operations of the memclob, each from a call that does not panic. An order is placed with a price
  on the tick grid of its book, which the keeper validates.
\<close>

inductive memclob_step ::
  "'s MemClobKeeper \<Rightarrow> (MatchableOrder \<Rightarrow> OrderHash) \<Rightarrow> 's MemClob \<Rightarrow> 's MemClob \<Rightarrow> bool"
  for k :: "'s MemClobKeeper" and mhash :: "MatchableOrder \<Rightarrow> OrderHash" where
  create: "CreateOrderbook clobPair m = (r, m') \<Longrightarrow> \<not> is_panic r \<Longrightarrow> memclob_step k mhash m m'"
| sync: "SyncOrderbookState clobPair m = (r, m') \<Longrightarrow> \<not> is_panic r \<Longrightarrow> memclob_step k mhash m m'"
| place: "PlaceOrder k mhash ctx order m = (r, m') \<Longrightarrow> \<not> is_panic r \<Longrightarrow>
    (\<forall>b. gm_get (mc_orderbooks m) (oid_ClobPairId (o_OrderId order)) = Some b \<longrightarrow> uint (tick b) dvd uint (o_Subticks order)) \<Longrightarrow>
    memclob_step k mhash m m'"
| cancel: "CancelOrder (\<lambda>x. mhash (MO_Order x)) ctx msg m = (r, m') \<Longrightarrow> \<not> is_panic r \<Longrightarrow> memclob_step k mhash m m'"
| liquidate: "PlacePerpetualLiquidation k mhash ctx lo m = (r', m') \<Longrightarrow> \<not> is_panic r' \<Longrightarrow> memclob_step k mhash m m'"
| deleverage: "DeleverageSubaccount k ctx a p delta final m = (r'', m') \<Longrightarrow> \<not> is_panic r'' \<Longrightarrow> memclob_step k mhash m m'"
| zero_fill: "InsertZeroFillDeleveragingIntoOperationsQueue a p m = (r, m') \<Longrightarrow> \<not> is_panic r \<Longrightarrow> memclob_step k mhash m m'"
| clear: "RemoveAndClearOperationsQueue (\<lambda>x. mhash (MO_Order x)) ctx ops m = (r, m') \<Longrightarrow> \<not> is_panic r \<Longrightarrow> memclob_step k mhash m m'"
| purge: "PurgeInvalidMemclobState k (\<lambda>x. mhash (MO_Order x)) ctx filled expired canceled forced m = (r, m') \<Longrightarrow>
    \<not> is_panic r \<Longrightarrow> memclob_step k mhash m m'"
| store: "memclob_step k mhash m (m\<lparr>mc_store := st\<rparr>)"

inductive memclob_reachable ::
  "'s MemClobKeeper \<Rightarrow> (MatchableOrder \<Rightarrow> OrderHash) \<Rightarrow> 's MemClob \<Rightarrow> bool"
  for k :: "'s MemClobKeeper" and mhash :: "MatchableOrder \<Rightarrow> OrderHash" where
  new: "memclob_reachable k mhash (NewMemClobPriceTimePriority st)"
| step: "memclob_reachable k mhash m \<Longrightarrow> memclob_step k mhash m m' \<Longrightarrow> memclob_reachable k mhash m'"

lemma mc_ok_weaken: "mc_ok hash T m \<Longrightarrow> mc_ok hash (\<lambda>_ _. True) m"
  by (auto simp: mc_ok_def book_ok_def)

lemma mc_ok_aligned:
  assumes "mc_ok hash (\<lambda>_ _. True) m"
    and "\<forall>b. gm_get (mc_orderbooks m) (oid_ClobPairId (o_OrderId order)) = Some b \<longrightarrow> uint (tick b) dvd uint (o_Subticks order)"
  shows "mc_ok hash (aligned order) m"
  using assms by (auto simp: mc_ok_def book_ok_def aligned_def)

lemma mc_ok_step:
  assumes "memclob_step k mhash m m'" "mc_ok (\<lambda>x. mhash (MO_Order x)) (\<lambda>_ _. True) m"
  shows "mc_ok (\<lambda>x. mhash (MO_Order x)) (\<lambda>_ _. True) m'"
  using assms
proof (induction rule: memclob_step.induct)
  case (create clobPair m r m')
  then show ?case using preservesD[OF preserves_Create] by blast
next
  case (sync clobPair m r m')
  then show ?case using preservesD[OF preserves_Sync] by blast
next
  case (place ctx order m r m')
  from preservesD[OF preserves_PlaceOrder[OF refl] mc_ok_aligned[OF place.prems place.hyps(3)] place.hyps(1,2)]
  show ?case by (rule mc_ok_weaken)
next
  case (cancel ctx msg m r m')
  then show ?case using preservesD[OF preserves_CancelOrder] by blast
next
  case (liquidate ctx lo m r m')
  then show ?case using preservesD[OF preserves_liquidation[OF refl]] by blast
next
  case (deleverage ctx a p delta final m r m')
  then show ?case using preservesD[OF preserves_deleverage] by blast
next
  case (zero_fill a p m r m')
  then show ?case
    using preservesD[OF preserves_otp[OF otp_good_zero_fill]]
    unfolding InsertZeroFillDeleveragingIntoOperationsQueue_def by blast
next
  case (clear ctx ops m r m')
  then show ?case using preservesD[OF preserves_RemoveAndClear] by blast
next
  case (purge ctx filled expired canceled forced m r m')
  then show ?case using preservesD[OF preserves_Purge] by blast
next
  case (store m st)
  then show ?case by (simp add: mc_ok_def)
qed

lemma mc_ok_reachable:
  "memclob_reachable k mhash m \<Longrightarrow> hash_identifies (\<lambda>x. mhash (MO_Order x)) \<Longrightarrow>
     mc_ok (\<lambda>x. mhash (MO_Order x)) (\<lambda>_ _. True) m"
  by (induction rule: memclob_reachable.induct) (auto intro: mc_ok_new mc_ok_step)

lemma map_res_total:
  assumes "\<forall>x \<in> set xs. f x = Inr (g x)"
  shows "map_res f xs = Inr (map g xs)"
  using assms by (induction xs) (auto simp: bindr_def)

lemma getSubaccountOrders_resting:
  assumes "book_inv b" "side \<noteq> SIDE_UNSPECIFIED"
  shows "\<exists>orders. getSubaccountOrders b a side = Inr orders \<and>
     set orders = {co_Order n |n i. gm_get (book_orderIdToLevelOrder b) i = Some n \<and> oid_SubaccountId i = a \<and> o_Side (co_Order n) = side}"
proof -
  let ?L = "book_orderIdToLevelOrder b" and ?ids = "gm_keys (gm_at (gm_at (book_SubaccountOpenClobOrders b) a) side)"
  have ids: "i \<in> set ?ids \<longleftrightarrow> (\<exists>n. gm_get ?L i = Some n \<and> oid_SubaccountId i = a \<and> o_Side (co_Order n) = side)" for i
    using assms(1) unfolding gm_keys_mem by (simp add: book_inv_def Let_def opens_ok_def holds_at_def)
  have "\<forall>i \<in> set ?ids. (case getOrder b i of None \<Rightarrow> Inl (Panic ''Open subaccount order does not exist in memclob'')
      | Some order \<Rightarrow> Inr order) = Inr (co_Order (the (gm_get ?L i)))"
    using ids by (auto simp: getOrder_def)
  from map_res_total[OF this] have run: "getSubaccountOrders b a side = Inr (map (\<lambda>i. co_Order (the (gm_get ?L i))) ?ids)"
    using assms(2) by (simp add: getSubaccountOrders_def)
  have "set (map (\<lambda>i. co_Order (the (gm_get ?L i))) ?ids) = {co_Order (the (gm_get ?L i)) |i. i \<in> set ?ids}" by auto
  also have "\<dots> = {co_Order n |n i. gm_get ?L i = Some n \<and> oid_SubaccountId i = a \<and> o_Side (co_Order n) = side}"
    unfolding ids by (rule Collect_cong) (metis option.sel)
  finally show ?thesis using run by blast
qed

text \<open>
  C5: Whatever operations ran, as long as none of them panicked, the memclob is consistent (the panics that
  \<^verbatim>\<open>ReplayOperations\<close> recovers from are not steps of this relation). Every order
  book is well formed (levels, best prices and all indices agree with the resting orders), cancels and
  their expirations mirror each other, every order rests in the book of its own clob pair, the operations
  queue is one that can be proposed and replayed, and the transaction bytes of every resting short-term
  order are available for a proposal. In particular asking for the open orders of a subaccount never
  panics and returns exactly its resting orders on that side.
\<close>

theorem memclob_reachable_consistent:
  assumes "memclob_reachable k mhash m" "hash_identifies (\<lambda>x. mhash (MO_Order x))"
  shows "mc_ok (\<lambda>x. mhash (MO_Order x)) (\<lambda>_ _. True) m \<and>
    (\<forall>b. gm_get (mc_orderbooks m) i = Some b \<and> side \<noteq> SIDE_UNSPECIFIED \<longrightarrow>
      (\<exists>orders. GetSubaccountOrders m i a side = Inr orders \<and>
         set orders = {co_Order n |n j. gm_get (book_orderIdToLevelOrder b) j = Some n \<and> oid_SubaccountId j = a \<and>
                                        o_Side (co_Order n) = side}))"
proof -
  have ok: "mc_ok (\<lambda>x. mhash (MO_Order x)) (\<lambda>_ _. True) m" using assms by (rule mc_ok_reachable)
  then show ?thesis
    using getSubaccountOrders_resting[OF mc_okD(5)[OF ok]] by (auto simp: GetSubaccountOrders_def mustGetOrderbook_def)
qed

section \<open>Operations that remove orders always return\<close>

text \<open>Orders and cancels only disappear, books stay.\<close>

definition book_shrinks :: "Orderbook \<Rightarrow> Orderbook \<Rightarrow> bool" where
  "book_shrinks b b' \<longleftrightarrow>
     (\<forall>j n. gm_get (book_orderIdToLevelOrder b') j = Some n \<longrightarrow> gm_get (book_orderIdToLevelOrder b) j = Some n) \<and>
     (\<forall>j t. getCancel b' j = Some t \<longrightarrow> getCancel b j = Some t)"

lemma book_shrinks_trans: "book_shrinks b b1 \<Longrightarrow> book_shrinks b1 b2 \<Longrightarrow> book_shrinks b b2"
  unfolding book_shrinks_def by blast

definition shrinks :: "'s MemClob \<Rightarrow> 's MemClob \<Rightarrow> bool" where
  "shrinks m m' \<longleftrightarrow> mc_store m' = mc_store m \<and> (\<forall>i. gm_get (mc_orderbooks m') i = None \<longleftrightarrow> gm_get (mc_orderbooks m) i = None) \<and>
     (\<forall>i b'. gm_get (mc_orderbooks m') i = Some b' \<longrightarrow>
        (\<exists>b. gm_get (mc_orderbooks m) i = Some b \<and> book_shrinks b b'))"

lemma shrinks_refl [simp]: "shrinks m m"
  by (simp add: shrinks_def book_shrinks_def)

lemma shrinks_trans:
  assumes "shrinks m m1" "shrinks m1 m2"
  shows "shrinks m m2"
  unfolding shrinks_def
proof (intro conjI allI impI)
  fix i b2 assume "gm_get (mc_orderbooks m2) i = Some b2"
  then obtain b1 where b1: "gm_get (mc_orderbooks m1) i = Some b1" "book_shrinks b1 b2"
    using assms(2) unfolding shrinks_def by blast
  then obtain b where "gm_get (mc_orderbooks m) i = Some b" "book_shrinks b b1"
    using assms(1) unfolding shrinks_def by blast
  with b1(2) show "\<exists>b. gm_get (mc_orderbooks m) i = Some b \<and> book_shrinks b b2"
    using book_shrinks_trans by blast
qed (use assms in \<open>simp_all add: shrinks_def\<close>)

definition clean_run :: "(Order \<Rightarrow> OrderHash) \<Rightarrow> ('s MemClob, unit) step \<Rightarrow> 's MemClob \<Rightarrow> ('s MemClob \<Rightarrow> bool) \<Rightarrow> bool" where
  "clean_run hash f m Q \<longleftrightarrow>
     (\<exists>m'. f m = (Inr (), m') \<and> mc_ok hash (\<lambda>_ _. True) m' \<and> shrinks m m' \<and> Q m')"

lemma shrinks_resting:
  assumes "shrinks m m'" "gm_get (mc_orderbooks m) i = Some b"
  obtains b' where "gm_get (mc_orderbooks m') i = Some b'" "book_shrinks b b'"
proof -
  have "gm_get (mc_orderbooks m') i \<noteq> None" using assms unfolding shrinks_def by simp
  then obtain b' where b': "gm_get (mc_orderbooks m') i = Some b'" by blast
  then have "book_shrinks b b'" using assms unfolding shrinks_def by force
  with b' show thesis by (rule that)
qed

lemma clean_removal:
  assumes ok: "mc_ok hash (\<lambda>_ _. True) m" and b: "gm_get (mc_orderbooks m) (oid_ClobPairId i) = Some b"
    and n: "gm_get (book_orderIdToLevelOrder b) i = Some n"
  shows "clean_run hash (memclob_mustRemoveOrder hash i) m
    (\<lambda>m'. mc_orderbooks m' = gm_set (oid_ClobPairId i) (book_removed n b) (mc_orderbooks m))"
proof -
  have i: "node_id n = i" using resting_node_id[OF mc_okD(5)[OF ok b] n] .
  have "shrinks m (mc_removed hash (oid_ClobPairId i) n b m)"
    using b by (auto simp: shrinks_def mc_removed_def book_shrinks_def getCancel_def split: if_splits)
  then show ?thesis
    unfolding clean_run_def using memclob_mustRemoveOrder_eq[OF ok b n] mc_ok_removed[OF ok b n]
    by (intro exI[of _ "mc_removed hash (oid_ClobPairId i) n b m"]) (simp add: mc_removed_def)
qed

lemma clean_forM:
  assumes "\<And>x m1. x \<in> set xs \<Longrightarrow> mc_ok hash (\<lambda>_ _. True) m1 \<Longrightarrow> shrinks m m1 \<Longrightarrow> clean_run hash (f x) m1 (Q x)"
    and "\<And>x m1 m2. x \<in> set xs \<Longrightarrow> Q x m1 \<Longrightarrow> shrinks m1 m2 \<Longrightarrow> Q x m2"
    and "mc_ok hash (\<lambda>_ _. True) m"
  shows "clean_run hash (forM f xs) m (\<lambda>m'. \<forall>x \<in> set xs. Q x m')"
  using assms
proof (induction xs arbitrary: m)
  case Nil
  then show ?case by (simp add: clean_run_def retM_def)
next
  case (Cons x xs)
  from Cons.prems(1)[of x m] Cons.prems(3) obtain m1 where m1: "f x m = (Inr (), m1)" "mc_ok hash (\<lambda>_ _. True) m1"
    "shrinks m m1" "Q x m1"
    unfolding clean_run_def by auto
  have "clean_run hash (forM f xs) m1 (\<lambda>m'. \<forall>x \<in> set xs. Q x m')"
    using Cons.prems m1(3) by (intro Cons.IH m1(2)) (auto intro: shrinks_trans)
  then obtain m2 where m2: "forM f xs m1 = (Inr (), m2)" "mc_ok hash (\<lambda>_ _. True) m2" "shrinks m1 m2" "\<forall>x \<in> set xs. Q x m2"
    unfolding clean_run_def by blast
  then show ?case
    unfolding clean_run_def using m1 Cons.prems(2)[of x m1 m2] shrinks_trans[OF m1(3) m2(3)]
    by (intro exI[of _ m2]) (auto simp: bindM_def)
qed

definition not_resting :: "OrderId \<Rightarrow> 's MemClob \<Rightarrow> bool" where
  "not_resting i m \<longleftrightarrow> (\<forall>b. gm_get (mc_orderbooks m) (oid_ClobPairId i) = Some b \<longrightarrow> gm_get (book_orderIdToLevelOrder b) i = None)"

lemma not_resting_shrinks: "not_resting i m \<Longrightarrow> shrinks m m' \<Longrightarrow> not_resting i m'"
  unfolding not_resting_def shrinks_def book_shrinks_def by (metis not_None_eq)

lemma clean_removeStateful:
  assumes ok: "mc_ok hash (\<lambda>_ _. True) m" and b: "gm_get (mc_orderbooks m) (oid_ClobPairId i) \<noteq> None"
    and st: "OrderId_IsStatefulOrder i"
  shows "clean_run hash (removeStatefulIfExists hash i) m (not_resting i)"
proof -
  from b obtain b where b: "gm_get (mc_orderbooks m) (oid_ClobPairId i) = Some b" by blast
  have run: "removeStatefulIfExists hash i m = (if hasOrder b i then memclob_mustRemoveOrder hash i m else (Inr (), m))"
    using b st by (simp add: removeStatefulIfExists_def bindM_def liftM_def mustGetOrderbook_def whenM_def retM_def
        OrderId_MustBeStatefulOrder_def)
  show ?thesis
  proof (cases "hasOrder b i")
    case False
    then show ?thesis using run ok b by (auto simp: clean_run_def not_resting_def hasOrder_def)
  next
    case True
    then obtain n where n: "gm_get (book_orderIdToLevelOrder b) i = Some n" by (auto simp: hasOrder_def)
    have "node_id n = i" using resting_node_id[OF mc_okD(5)[OF ok b] n] .
    with clean_removal[OF ok b n] True run show ?thesis by (auto simp: clean_run_def not_resting_def)
  qed
qed

text \<open>The order \<open>i\<close>, when it still rests on its book, has size left beyond the fill amount in the state.\<close>

definition not_filled :: "'s MemClobKeeper \<Rightarrow> OrderId \<Rightarrow> 's MemClob \<Rightarrow> bool" where
  "not_filled k i m \<longleftrightarrow> (\<forall>b n f p. gm_get (mc_orderbooks m) (oid_ClobPairId i) = Some b \<longrightarrow>
     gm_get (book_orderIdToLevelOrder b) i = Some n \<longrightarrow>
     k_GetOrderFillAmount k (mc_store m) i = Some (f, p) \<longrightarrow> f < o_Quantums (co_Order n))"

lemma not_filled_shrinks: "not_filled k i m \<Longrightarrow> shrinks m m' \<Longrightarrow> not_filled k i m'"
  unfolding not_filled_def shrinks_def book_shrinks_def by metis

lemma clean_RemoveOrderIfFilled:
  assumes ok: "mc_ok hash (\<lambda>_ _. True) m" and b: "gm_get (mc_orderbooks m) (oid_ClobPairId i) \<noteq> None"
  shows "clean_run hash (RemoveOrderIfFilled k hash i) m (not_filled k i)"
proof -
  from b obtain b where b: "gm_get (mc_orderbooks m) (oid_ClobPairId i) = Some b" by blast
  show ?thesis
  proof (cases "gm_get (book_orderIdToLevelOrder b) i")
    case None
    then show ?thesis using b ok
      by (auto simp: clean_run_def RemoveOrderIfFilled_def bindM_def liftM_def GetOrder_def mustGetOrderbook_def getOrder_def retM_def
          not_filled_def)
  next
    case (Some n)
    have i: "node_id n = i" using resting_node_id[OF mc_okD(5)[OF ok b] Some] .
    have "RemoveOrderIfFilled k hash i m =
        (case k_GetOrderFillAmount k (mc_store m) i of
           None \<Rightarrow> (Inr (), m)
         | Some (f, _) \<Rightarrow> if o_Quantums (co_Order n) \<le> f then memclob_mustRemoveOrder hash i m else (Inr (), m))"
      using b Some i by (auto simp: RemoveOrderIfFilled_def bindM_def liftM_def GetOrder_def mustGetOrderbook_def getOrder_def
          retM_def whenM_def split: option.split)
    moreover have "clean_run hash (memclob_mustRemoveOrder hash i) m (not_filled k i)"
      using clean_removal[OF ok b Some] i by (auto simp: clean_run_def not_filled_def)
    moreover have "not_filled k i m"
      if "k_GetOrderFillAmount k (mc_store m) i = None \<or>
        (\<exists>f p. k_GetOrderFillAmount k (mc_store m) i = Some (f, p) \<and> \<not> o_Quantums (co_Order n) \<le> f)"
      using that b Some by (auto simp: not_filled_def)
    ultimately show ?thesis using ok
      by (cases "k_GetOrderFillAmount k (mc_store m) i") (auto simp: clean_run_def split: if_splits)
  qed
qed

lemma clean_remove_all:
  assumes "mc_ok hash (\<lambda>_ _. True) m" "distinct js"
    and "\<forall>j \<in> set js. oid_ClobPairId j = i"
    and "gm_get (mc_orderbooks m) i = Some b" "\<forall>j \<in> set js. gm_get (book_orderIdToLevelOrder b) j \<noteq> None"
  shows "clean_run hash (forM (memclob_mustRemoveOrder hash) js) m (\<lambda>m'. \<forall>j \<in> set js. not_resting j m')"
  using assms
proof (induction js arbitrary: m b)
  case Nil
  then show ?case by (simp add: clean_run_def retM_def)
next
  case (Cons j js)
  from Cons.prems obtain n where n: "gm_get (book_orderIdToLevelOrder b) j = Some n" by auto
  have b: "gm_get (mc_orderbooks m) (oid_ClobPairId j) = Some b" using Cons.prems by simp
  have j: "node_id n = j" using resting_node_id[OF mc_okD(5)[OF Cons.prems(1) b] n] .
  from clean_removal[OF Cons.prems(1) b n] obtain m1 where m1: "memclob_mustRemoveOrder hash j m = (Inr (), m1)"
    "mc_ok hash (\<lambda>_ _. True) m1" "shrinks m m1" "mc_orderbooks m1 = gm_set (oid_ClobPairId j) (book_removed n b) (mc_orderbooks m)"
    unfolding clean_run_def by blast
  have "clean_run hash (forM (memclob_mustRemoveOrder hash) js) m1 (\<lambda>m'. \<forall>j \<in> set js. not_resting j m')"
    using Cons.prems m1(2,4) j by (intro Cons.IH[of m1 "book_removed n b"]) auto
  then obtain m2 where m2: "forM (memclob_mustRemoveOrder hash) js m1 = (Inr (), m2)" "mc_ok hash (\<lambda>_ _. True) m2"
    "shrinks m1 m2" "\<forall>j \<in> set js. not_resting j m2"
    unfolding clean_run_def by blast
  have "not_resting j m1" using m1(4) j by (simp add: not_resting_def)
  then have "not_resting j m2" using m2(3) not_resting_shrinks by blast
  then show ?case
    unfolding clean_run_def using m1(1) m2 shrinks_trans[OF m1(3) m2(3)] by (intro exI[of _ m2]) (auto simp: bindM_def)
qed

definition none_expiring :: "uint32 \<Rightarrow> uint32 \<Rightarrow> 's MemClob \<Rightarrow> bool" where
  "none_expiring h i m \<longleftrightarrow>
     (\<forall>b j n. gm_get (mc_orderbooks m) i = Some b \<longrightarrow> gm_get (book_orderIdToLevelOrder b) j = Some n \<longrightarrow>
        OrderId_IsShortTermOrder j \<longrightarrow> GetGoodTilBlock (o_GoodTilOneof (co_Order n)) \<noteq> h)"

lemma none_expiring_shrinks: "none_expiring h i m \<Longrightarrow> shrinks m m' \<Longrightarrow> none_expiring h i m'"
  unfolding none_expiring_def shrinks_def book_shrinks_def by blast

lemma clean_removeExpired:
  assumes ok: "mc_ok hash (\<lambda>_ _. True) m" and b: "gm_get (mc_orderbooks m) i \<noteq> None"
  shows "clean_run hash (removeExpired hash h i) m (none_expiring h i)"
proof -
  from b obtain b where b: "gm_get (mc_orderbooks m) i = Some b" by blast
  let ?js = "gm_keys (gm_at (book_blockExpirationsForOrders b) h)" and ?L = "book_orderIdToLevelOrder b"
  note D = mc_okD[OF ok]
  have ex: "expiry_ok ?L (book_blockExpirationsForOrders b)" using D(5)[OF b] by (simp add: book_inv_def Let_def)
  have mem: "j \<in> set ?js \<longleftrightarrow> (\<exists>n. gm_get ?L j = Some n \<and> OrderId_IsShortTermOrder j \<and>
      GetGoodTilBlock (o_GoodTilOneof (co_Order n)) = h)" for j
    using ex unfolding gm_keys_mem by (simp add: expiry_ok_def holds_at_def)
  have "gm_inv (gm_at (book_blockExpirationsForOrders b) h)" using ex by (auto simp: expiry_ok_def intro: nested_ok_at)
  then have d: "distinct ?js" using gm_inv_distinct by (simp add: gm_keys_def)
  have "clean_run hash (forM (memclob_mustRemoveOrder hash) ?js) m (\<lambda>m'. \<forall>j \<in> set ?js. not_resting j m')"
  proof (rule clean_remove_all[OF ok d _ b])
    show "\<forall>j \<in> set ?js. oid_ClobPairId j = i" "\<forall>j \<in> set ?js. gm_get ?L j \<noteq> None"
      using mem D(3)[OF b] by (auto simp: book_ok_def)
  qed
  then obtain m' where m': "forM (memclob_mustRemoveOrder hash) ?js m = (Inr (), m')" "mc_ok hash (\<lambda>_ _. True) m'"
    "shrinks m m'" "\<forall>j \<in> set ?js. not_resting j m'"
    unfolding clean_run_def by blast
  have "none_expiring h i m'"
    unfolding none_expiring_def
  proof (intro allI impI notI)
    fix b' j n
    assume a: "gm_get (mc_orderbooks m') i = Some b'" "gm_get (book_orderIdToLevelOrder b') j = Some n"
      "OrderId_IsShortTermOrder j" "GetGoodTilBlock (o_GoodTilOneof (co_Order n)) = h"
    then have "gm_get ?L j = Some n" using m'(3) b unfolding shrinks_def book_shrinks_def by force
    then have "j \<in> set ?js" "oid_ClobPairId j = i" using mem a(3,4) D(3)[OF b] by (auto simp: book_ok_def)
    with m'(4) a(1,2) show False by (auto simp: not_resting_def)
  qed
  with m' b show ?thesis
    unfolding clean_run_def removeExpired_def by (auto simp: bindM_def liftM_def mustGetOrderbook_def)
qed

lemma remove_cancels:
  assumes "distinct js" "cancels_ok b" "\<forall>j \<in> set js. getCancel b j \<noteq> None"
  shows "\<exists>b'. forM mustRemoveCancel js b = (Inr (), b') \<and> (\<forall>j. getCancel b' j = (if j \<in> set js then None else getCancel b j))"
  using assms
proof (induction js arbitrary: b)
  case Nil
  then show ?case by (simp add: retM_def)
next
  case (Cons j js)
  then obtain t where t: "getCancel b j = Some t" by auto
  let ?b = "b\<lparr>book_orderIdToCancelExpiry := gm_del j (book_orderIdToCancelExpiry b),
     book_cancelExpiryToOrderIds := gm_del_in t j (book_cancelExpiryToOrderIds b)\<rparr>"
  have g: "getCancel ?b i = (if i = j then None else getCancel b i)" for i by (simp add: getCancel_def)
  have "\<exists>b'. forM mustRemoveCancel js ?b = (Inr (), b') \<and> (\<forall>j. getCancel b' j = (if j \<in> set js then None else getCancel ?b j))"
    using Cons.prems cancels_ok_remove[OF Cons.prems(2) t] by (intro Cons.IH) (auto simp: g)
  then show ?case
    using mustRemoveCancel_eq[OF Cons.prems(2) t] by (auto simp: bindM_def g)
qed

definition none_canceled_at :: "uint32 \<Rightarrow> uint32 \<Rightarrow> 's MemClob \<Rightarrow> bool" where
  "none_canceled_at h i m \<longleftrightarrow> (\<forall>b j. gm_get (mc_orderbooks m) i = Some b \<longrightarrow> getCancel b j \<noteq> Some h)"

lemma none_canceled_shrinks: "none_canceled_at h i m \<Longrightarrow> shrinks m m' \<Longrightarrow> none_canceled_at h i m'"
  unfolding none_canceled_at_def shrinks_def book_shrinks_def by blast

lemma removeAllCancels_run:
  assumes "cancels_ok b"
  shows "\<exists>b'. removeAllCancelsAtBlock h b = (Inr (), b') \<and>
    (\<forall>j. getCancel b' j = (if getCancel b j = Some h then None else getCancel b j))"
proof -
  let ?E = "book_cancelExpiryToOrderIds b"
  have mem: "j \<in> set (gm_keys (gm_at ?E h)) \<longleftrightarrow> getCancel b j = Some h" for j
    using assms unfolding gm_keys_mem cancels_ok_def getCancel_def holds_at_def by blast
  have "gm_inv (gm_at ?E h)" using assms by (auto simp: cancels_ok_def intro: nested_ok_at)
  then have d: "distinct (gm_keys (gm_at ?E h))" using gm_inv_distinct by (simp add: gm_keys_def)
  from remove_cancels[OF d assms] obtain b' where b': "forM mustRemoveCancel (gm_keys (gm_at ?E h)) b = (Inr (), b')"
    "\<forall>j. getCancel b' j = (if j \<in> set (gm_keys (gm_at ?E h)) then None else getCancel b j)"
    using mem by auto
  show ?thesis
  proof (cases "gm_get ?E h")
    case None
    then have "gm_at ?E h = []" by (simp add: gm_at_def)
    then have "getCancel b j \<noteq> Some h" for j using mem[of j] by (simp add: gm_keys_def)
    with None show ?thesis by (auto simp: removeAllCancelsAtBlock_def bindM_def liftM_def retM_def)
  next
    case (Some ids)
    then have "gm_at ?E h = ids" by (simp add: gm_at_def)
    with b' Some mem show ?thesis by (auto simp: removeAllCancelsAtBlock_def bindM_def liftM_def)
  qed
qed

lemma clean_removeCancels:
  assumes ok: "mc_ok hash (\<lambda>_ _. True) m" and b: "gm_get (mc_orderbooks m) i \<noteq> None"
  shows "clean_run hash (on_book i (removeAllCancelsAtBlock h)) m (none_canceled_at h i)"
proof -
  from b obtain b where b: "gm_get (mc_orderbooks m) i = Some b" by blast
  from removeAllCancels_run[OF mc_okD(6)[OF ok b]] obtain b' where
    b': "removeAllCancelsAtBlock h b = (Inr (), b')"
    "\<forall>j. getCancel b' j = (if getCancel b j = Some h then None else getCancel b j)" by blast
  let ?m = "m\<lparr>mc_orderbooks := gm_set i b' (mc_orderbooks m)\<rparr>"
  have run: "on_book i (removeAllCancelsAtBlock h) m = (Inr (), ?m)"
    using b b'(1) by (simp add: on_book_def mustGetOrderbook_def)
  have "mc_ok hash (\<lambda>_ _. True) ?m"
    using preservesD[OF preserves_cancel_part[OF preserves_removeAllCancels] ok run] by simp
  moreover have "book_orderIdToLevelOrder b' = book_orderIdToLevelOrder b"
    using preservesD[OF preserves_removeAllCancels, of "\<lambda>_ _. True" i "book_orderIdToLevelOrder b" b] b'(1) mc_okD(3)[OF ok b]
    by (force simp: cancel_part_def)
  then have "shrinks m ?m" using b b'(2) by (auto simp: shrinks_def book_shrinks_def split: if_splits)
  moreover have "none_canceled_at h i ?m" using b'(2) by (auto simp: none_canceled_at_def split: if_splits)
  ultimately show ?thesis using run unfolding clean_run_def by blast
qed

lemma shrinks_present: "shrinks m m' \<Longrightarrow> gm_get (mc_orderbooks m) i \<noteq> None \<Longrightarrow> gm_get (mc_orderbooks m') i \<noteq> None"
  unfolding shrinks_def by simp

lemma set_DedupeSlice [simp]: "set (DedupeSlice xs) = set xs"
  by (simp add: DedupeSlice_def)

definition known :: "'s MemClob \<Rightarrow> OrderId list \<Rightarrow> bool" where
  "known m ids \<longleftrightarrow> (\<forall>i \<in> set ids. gm_get (mc_orderbooks m) (oid_ClobPairId i) \<noteq> None)"

lemma clean_removeStatefuls:
  assumes "mc_ok hash (\<lambda>_ _. True) m" "known m ids" "\<forall>i \<in> set ids. OrderId_IsStatefulOrder i"
  shows "clean_run hash (forM (removeStatefulIfExists hash) ids) m (\<lambda>m'. \<forall>i \<in> set ids. not_resting i m')"
proof (rule clean_forM)
  fix i m1
  assume "i \<in> set ids" "mc_ok hash (\<lambda>_ _. True) m1" "shrinks m m1"
  moreover from this have "gm_get (mc_orderbooks m1) (oid_ClobPairId i) \<noteq> None"
    using shrinks_present[of m m1 "oid_ClobPairId i"] assms(2) unfolding known_def by blast
  ultimately show "clean_run hash (removeStatefulIfExists hash i) m1 (not_resting i)"
    using assms(3) by (intro clean_removeStateful) auto
qed (use assms(1) not_resting_shrinks in auto)

lemma known_shrinks: "known m ids \<Longrightarrow> shrinks m m' \<Longrightarrow> known m' ids"
  unfolding known_def using shrinks_present by blast

text \<open>The result of a purge at the block height \<open>h\<close>.\<close>

definition purged :: "'s MemClobKeeper \<Rightarrow> uint32 \<Rightarrow> OrderId list \<Rightarrow> OrderId list \<Rightarrow> 's MemClob \<Rightarrow> bool" where
  "purged k h filled gone m \<longleftrightarrow> (\<forall>i \<in> set filled. not_filled k i m) \<and> (\<forall>i \<in> set gone. not_resting i m) \<and>
     (\<forall>i. none_expiring h i m) \<and> (\<forall>i. none_canceled_at h i m)"

lemma purge_clean:
  assumes ok: "mc_ok hash (\<lambda>_ _. True) m"
    and mode: "AssertCheckTxMode ctx = Inr ()" and h: "MustConvertIntegerToUint32 (mx_BlockHeight ctx) = Inr h"
    and known: "known m (filled @ expired @ canceled @ forced)"
    and stateful: "\<forall>i \<in> set (expired @ canceled @ forced). OrderId_IsStatefulOrder i"
  shows "clean_run hash (PurgeInvalidMemclobState k hash ctx filled expired canceled forced) m
    (purged k h filled (expired @ canceled @ forced))"
proof -
  let ?ok = "mc_ok hash (\<lambda>_ _. True)"
  let ?books = "gm_keys (mc_orderbooks m)"
  have kn: "known m1 filled" "known m1 expired" "known m1 canceled" "known m1 forced" if "shrinks m m1" for m1
    using known_shrinks[OF known that] by (auto simp: known_def)
  have books: "gm_get (mc_orderbooks m1) i \<noteq> None" if "shrinks m m1" "i \<in> set ?books" for m1 i
    using that shrinks_present gm_keys_mem by metis
  have s1: "clean_run hash (forM (RemoveOrderIfFilled k hash) filled) m (\<lambda>m'. \<forall>i \<in> set filled. not_filled k i m')"
  proof (rule clean_forM[OF _ _ ok])
    fix i m1 assume "i \<in> set filled" "?ok m1" "shrinks m m1"
    moreover from this have "gm_get (mc_orderbooks m1) (oid_ClobPairId i) \<noteq> None"
      using kn(1)[of m1] unfolding known_def by blast
    ultimately show "clean_run hash (RemoveOrderIfFilled k hash i) m1 (not_filled k i)"
      by (intro clean_RemoveOrderIfFilled)
  qed (rule not_filled_shrinks)
  have s2: "clean_run hash (forM (removeStatefulIfExists hash) (DedupeSlice canceled)) m1 (\<lambda>m'. \<forall>i \<in> set canceled. not_resting i m')"
    if "?ok m1" "shrinks m m1" for m1
    using clean_removeStatefuls[OF that(1), of "DedupeSlice canceled"] kn(3)[OF that(2)] stateful by (simp add: known_def)
  have s3: "clean_run hash (forM (removeStatefulIfExists hash) (DedupeSlice expired)) m1 (\<lambda>m'. \<forall>i \<in> set expired. not_resting i m')"
    if "?ok m1" "shrinks m m1" for m1
    using clean_removeStatefuls[OF that(1), of "DedupeSlice expired"] kn(2)[OF that(2)] stateful by (simp add: known_def)
  have s4: "clean_run hash (forM (removeExpired hash h) xs) m1 (\<lambda>m'. \<forall>i \<in> set xs. none_expiring h i m')"
    if "?ok m1" "shrinks m m1" "set xs = set ?books" for m1 xs
    by (rule clean_forM)
      (use that clean_removeExpired none_expiring_shrinks books shrinks_trans[OF that(2)] in \<open>blast+\<close>)
  have s5: "clean_run hash (forM (removeStatefulIfExists hash) forced) m1 (\<lambda>m'. \<forall>i \<in> set forced. not_resting i m')"
    if "?ok m1" "shrinks m m1" for m1
    using clean_removeStatefuls[OF that(1)] kn(4)[OF that(2)] stateful by simp
  have s6: "clean_run hash (forM (\<lambda>i. on_book i (removeAllCancelsAtBlock h)) xs) m1 (\<lambda>m'. \<forall>i \<in> set xs. none_canceled_at h i m')"
    if "?ok m1" "shrinks m m1" "set xs = set ?books" for m1 xs
    by (rule clean_forM)
      (use that clean_removeCancels none_canceled_shrinks books shrinks_trans[OF that(2)] in \<open>blast+\<close>)
  from s1 obtain m1 where m1: "forM (RemoveOrderIfFilled k hash) filled m = (Inr (), m1)" "?ok m1" "shrinks m m1"
    "\<forall>i \<in> set filled. not_filled k i m1"
    unfolding clean_run_def by blast
  from s2[OF m1(2,3)] obtain m2 where m2: "forM (removeStatefulIfExists hash) (DedupeSlice canceled) m1 = (Inr (), m2)" "?ok m2"
    "shrinks m1 m2" "\<forall>i \<in> set canceled. not_resting i m2"
    unfolding clean_run_def by blast
  note sh2 = shrinks_trans[OF m1(3) m2(3)]
  from s3[OF m2(2) sh2] obtain m3 where m3: "forM (removeStatefulIfExists hash) (DedupeSlice expired) m2 = (Inr (), m3)" "?ok m3"
    "shrinks m2 m3" "\<forall>i \<in> set expired. not_resting i m3"
    unfolding clean_run_def by blast
  note sh3 = shrinks_trans[OF sh2 m3(3)]
  have keys: "set (gm_keys (mc_orderbooks m3)) = set ?books"
    using sh3 unfolding shrinks_def by (auto simp: gm_keys_mem)
  from s4[OF m3(2) sh3 keys] obtain m4 where m4: "forM (removeExpired hash h) (gm_keys (mc_orderbooks m3)) m3 = (Inr (), m4)" "?ok m4"
    "shrinks m3 m4" "\<forall>i \<in> set (gm_keys (mc_orderbooks m3)). none_expiring h i m4"
    unfolding clean_run_def by blast
  note sh4 = shrinks_trans[OF sh3 m4(3)]
  from s5[OF m4(2) sh4] obtain m5 where m5: "forM (removeStatefulIfExists hash) forced m4 = (Inr (), m5)" "?ok m5"
    "shrinks m4 m5" "\<forall>i \<in> set forced. not_resting i m5"
    unfolding clean_run_def by blast
  note sh5 = shrinks_trans[OF sh4 m5(3)]
  from s6[OF m5(2) sh5 keys] obtain m6 where
    m6: "forM (\<lambda>i. on_book i (removeAllCancelsAtBlock h)) (gm_keys (mc_orderbooks m3)) m5 = (Inr (), m6)" "?ok m6"
    "shrinks m5 m6" "\<forall>i \<in> set (gm_keys (mc_orderbooks m3)). none_canceled_at h i m6"
    unfolding clean_run_def by blast
  note sh6 = shrinks_trans[OF sh5 m6(3)]
  have run: "PurgeInvalidMemclobState k hash ctx filled expired canceled forced m = (Inr (), m6)"
    using mode h m1(1) m2(1) m3(1) m4(1) m5(1) m6(1)
    by (simp add: PurgeInvalidMemclobState_def bindM_def liftM_def readM_def)
  have sh46: "shrinks m4 m6" using shrinks_trans[OF m5(3) m6(3)] .
  have sh36: "shrinks m3 m6" using shrinks_trans[OF m4(3) sh46] .
  have sh16: "shrinks m1 m6" using shrinks_trans[OF shrinks_trans[OF m2(3) m3(3)] sh36] .
  have "\<forall>i \<in> set filled. not_filled k i m6" using m1(4) not_filled_shrinks[OF _ sh16] by blast
  moreover have "not_resting i m6" if "i \<in> set (expired @ canceled @ forced)" for i
    using that m2(4) m3(3,4) m5(4) not_resting_shrinks[OF _ sh36, of i] not_resting_shrinks[OF _ m6(3), of i]
      not_resting_shrinks[OF _ m3(3), of i] by auto
  moreover have "none_expiring h i m6 \<and> none_canceled_at h i m6" for i
  proof (cases "i \<in> set ?books")
    case True
    then show ?thesis using m4(4) m6(4) none_expiring_shrinks[OF _ sh46, of h i] unfolding keys by blast
  next
    case False
    then have "gm_get (mc_orderbooks m6) i = None" using sh6 unfolding shrinks_def gm_keys_mem by simp
    then show ?thesis by (simp add: none_expiring_def none_canceled_at_def)
  qed
  ultimately show ?thesis
    unfolding clean_run_def purged_def using run m6(2) sh6 by blast
qed

text \<open>
  C18: Expired orders leave the book. In any state the memclob can reach, purging it for the block height
  that ends always returns: it never panics, keeps the memclob consistent, and only removes orders and
  cancels. Afterwards no short-term order that expires at this height rests on any book, no cancel that
  expires at this height is left, none of the stateful orders reported as expired, canceled or
  forcefully removed rests on its book, and none of the orders reported as filled in the block that is
  filled up to its size in the state rests on its book.
\<close>

theorem purge_removes_expired:
  assumes "memclob_reachable k mhash m" "hash_identifies (\<lambda>x. mhash (MO_Order x))"
    and "AssertCheckTxMode ctx = Inr ()" "MustConvertIntegerToUint32 (mx_BlockHeight ctx) = Inr h"
    and "known m (filled @ expired @ canceled @ forced)"
    and "\<forall>i \<in> set (expired @ canceled @ forced). OrderId_IsStatefulOrder i"
  shows "\<exists>m'. PurgeInvalidMemclobState k (\<lambda>x. mhash (MO_Order x)) ctx filled expired canceled forced m = (Inr (), m') \<and>
    mc_ok (\<lambda>x. mhash (MO_Order x)) (\<lambda>_ _. True) m' \<and> shrinks m m' \<and>
    purged k h filled (expired @ canceled @ forced) m'"
  using purge_clean[OF mc_ok_reachable[OF assms(1,2)] assms(3-6)] unfolding clean_run_def .

text \<open>A memclob with one book and one resting order that expires at block 20.\<close>

definition ex_ctx :: "int64 \<Rightarrow> mem_ctx" where
  "ex_ctx h = \<lparr>mx_BlockHeight = h, mx_TxBytes = [1], mx_IsCheckTx = True, mx_IsReCheckTx = False\<rparr>"

definition ex_clob_pair :: ClobPair where
  "ex_clob_pair = \<lparr>cp_Id = 0, cp_Metadata = PerpetualClobMetadata 0, cp_StepBaseQuantums = 5, cp_SubticksPerTick = 10,
     cp_QuantumConversionExponent = 0, cp_Status = STATUS_ACTIVE\<rparr>"

definition ex_created :: "(OrderId, uint64) gomap MemClob" where
  "ex_created = snd (CreateOrderbook ex_clob_pair (NewMemClobPriceTimePriority []))"

definition ex_placed :: "(OrderId, uint64) gomap MemClob" where
  "ex_placed = snd (PlaceOrder ex_keeper ex_mhash (ex_ctx 10) (ex_order SIDE_SELL 5 100 1) ex_created)"

lemma ex_placed_reachable: "memclob_reachable ex_keeper ex_mhash ex_placed"
proof -
  have "\<not> is_panic (fst (CreateOrderbook ex_clob_pair (NewMemClobPriceTimePriority ([] :: (OrderId, uint64) gomap))))"
    by code_simp
  then have "memclob_step ex_keeper ex_mhash (NewMemClobPriceTimePriority []) ex_created"
    unfolding ex_created_def by (intro memclob_step.create[of ex_clob_pair _ _ _ _]) auto
  moreover have "\<not> is_panic (fst (PlaceOrder ex_keeper ex_mhash (ex_ctx 10) (ex_order SIDE_SELL 5 100 1) ex_created))"
    by code_simp
  moreover have "gm_get (mc_orderbooks ex_created) (oid_ClobPairId (o_OrderId (ex_order SIDE_SELL 5 100 1))) = Some (empty_book 10 5)"
    by code_simp
  then have "\<forall>b. gm_get (mc_orderbooks ex_created) (oid_ClobPairId (o_OrderId (ex_order SIDE_SELL 5 100 1))) = Some b \<longrightarrow>
      uint (tick b) dvd uint (o_Subticks (ex_order SIDE_SELL 5 100 1))"
    by (simp add: empty_book_def ex_order_def)
  ultimately show ?thesis
    unfolding ex_placed_def
    by (metis memclob_reachable.new memclob_reachable.step memclob_step.place prod.collapse)
qed

lemma ex_mhash_identifies: "hash_identifies (\<lambda>x. ex_mhash (MO_Order x))"
  using ex_hash_identifies by (simp add: ex_mhash_def)

theorem memclob_reachable_consistent_witness:
  "mc_ok (\<lambda>x. ex_mhash (MO_Order x)) (\<lambda>_ _. True) ex_placed \<and>
   (\<exists>orders. GetSubaccountOrders ex_placed 0 \<lparr>sid_Owner = ''alice'', sid_Number = 0\<rparr> SIDE_SELL = Inr orders)"
proof -
  have "gm_get (mc_orderbooks ex_placed) 0 \<noteq> None" by code_simp
  then obtain b where "gm_get (mc_orderbooks ex_placed) 0 = Some b" by blast
  then show ?thesis
    using memclob_reachable_consistent[OF ex_placed_reachable ex_mhash_identifies, of 0 SIDE_SELL "\<lparr>sid_Owner = ''alice'', sid_Number = 0\<rparr>"]
    by blast
qed

theorem purge_removes_expired_witness:
  "GetOrder ex_placed (o_OrderId (ex_order SIDE_SELL 5 100 1)) = Inr (Some (ex_order SIDE_SELL 5 100 1)) \<and>
   (\<exists>m'. PurgeInvalidMemclobState ex_keeper (\<lambda>x. ex_mhash (MO_Order x)) (ex_ctx 20) [o_OrderId (ex_order SIDE_SELL 5 100 1)]
        [] [] [] ex_placed = (Inr (), m') \<and>
      purged ex_keeper 20 [o_OrderId (ex_order SIDE_SELL 5 100 1)] [] m')"
proof -
  let ?i = "o_OrderId (ex_order SIDE_SELL 5 100 1)"
  have "GetOrder ex_placed ?i = Inr (Some (ex_order SIDE_SELL 5 100 1))"
    by code_simp
  moreover have "gm_get (mc_orderbooks ex_placed) (oid_ClobPairId ?i) \<noteq> None"
    by code_simp
  then have "known ex_placed ([?i] @ [] @ [] @ [])" by (simp add: known_def)
  moreover have "AssertCheckTxMode (ex_ctx 20) = Inr ()" "MustConvertIntegerToUint32 (mx_BlockHeight (ex_ctx 20)) = Inr 20"
    by code_simp+
  ultimately have "\<exists>m'. PurgeInvalidMemclobState ex_keeper (\<lambda>x. ex_mhash (MO_Order x)) (ex_ctx 20) [?i] [] [] [] ex_placed = (Inr (), m') \<and>
      mc_ok (\<lambda>x. ex_mhash (MO_Order x)) (\<lambda>_ _. True) m' \<and> shrinks ex_placed m' \<and> purged ex_keeper 20 [?i] ([] @ [] @ []) m'"
    by (intro purge_removes_expired[OF ex_placed_reachable ex_mhash_identifies]) simp_all
  then show ?thesis using \<open>GetOrder ex_placed ?i = Inr (Some (ex_order SIDE_SELL 5 100 1))\<close> by auto
qed

end
