(* ===== verification/Rewards.thy ===== *)
theory Rewards
  imports Transfers
begin

text \<open>
  Trading rewards (\<^verbatim>\<open>x/rewards\<close>): the reward shares a fill earns its taker and maker, and their pay-out
  from the treasury at the end of a block. The shares are the transient store of the module, keyed
  by address. The bank's \<^verbatim>\<open>SendCoinsFromModuleToAccount\<close> and \<^verbatim>\<open>sdk.ValidateDenom\<close> are parameters.
\<close>

section \<open>Definitions\<close>

record rewards_Params =
  rp_TreasuryAccount :: string
  rp_Denom :: string
  rp_DenomExponent :: int32
  rp_MarketId :: uint32
  rp_FeeMultiplierPpm :: uint32

record RewardShare =
  rw_Address :: string
  rw_Weight :: int

record rewards_store =
  rws_Params :: rewards_Params
  rws_Shares :: "(string, RewardShare) gomap"

definition TreasuryAccountName :: string where
  "TreasuryAccountName = ''rewards_treasury''"

definition TreasuryModuleAddress :: "'b sdk \<Rightarrow> string" where
  "TreasuryModuleAddress x = x_NewModuleAddress x TreasuryAccountName"

definition rewards_Params_Validate :: "(string \<Rightarrow> unit res) \<Rightarrow> rewards_Params \<Rightarrow> unit res" where
  "rewards_Params_Validate ValidateDenom p =
     (if rp_TreasuryAccount p = [] then Inl (Err ''ErrInvalidTreasuryAccount'')
      else if OneMillion < rp_FeeMultiplierPpm p then Inl (Err ''ErrInvalidFeeMultiplierPpm'')
      else ValidateDenom (rp_Denom p))"

definition rewards_SetParams :: "(string \<Rightarrow> unit res) \<Rightarrow> rewards_Params \<Rightarrow> (rewards_store, unit) step" where
  "rewards_SetParams ValidateDenom params =
     bindM (liftM (\<lambda>_. rewards_Params_Validate ValidateDenom params)) (\<lambda>_. modifyM (\<lambda>s. s\<lparr>rws_Params := params\<rparr>))"

definition rewards_UpdateParams ::
  "(string \<Rightarrow> unit res) \<Rightarrow> string set \<Rightarrow> string \<Rightarrow> rewards_Params \<Rightarrow> (rewards_store, unit) step" where
  "rewards_UpdateParams ValidateDenom authorities authority params =
     with_authority authorities authority (rewards_SetParams ValidateDenom params)"

definition GetRewardShare :: "rewards_store \<Rightarrow> string \<Rightarrow> RewardShare" where
  "GetRewardShare s address =
     (case gm_get (rws_Shares s) address of
        None \<Rightarrow> \<lparr>rw_Address = address, rw_Weight = 0\<rparr>
      | Some val \<Rightarrow> val)"

definition SetRewardShare :: "RewardShare \<Rightarrow> (rewards_store, unit) step" where
  "SetRewardShare rewardShare =
     (if sgn (rw_Weight rewardShare) \<le> 0 then failM (Err ''ErrNonpositiveWeight'')
      else modifyM (\<lambda>s. s\<lparr>rws_Shares := gm_set (rw_Address rewardShare) rewardShare (rws_Shares s)\<rparr>))"

definition AddRewardShareToAddress :: "string \<Rightarrow> int \<Rightarrow> (rewards_store, unit) step" where
  "AddRewardShareToAddress address weight =
     (if sgn weight \<le> 0 then failM (Err ''ErrNonpositiveWeight'')
      else bindM (liftM (\<lambda>s. Inr (GetRewardShare s address))) (\<lambda>rewardShare.
        SetRewardShare \<lparr>rw_Address = address, rw_Weight = rw_Weight rewardShare + weight\<rparr>))"

text \<open>The last order-router share of a fee source, zero without one: the loops over \<^verbatim>\<open>AllRevShares\<close>.\<close>

definition order_router_share :: "RevShareFeeSource \<Rightarrow> RevSharesForFill \<Rightarrow> int" where
  "order_router_share source revSharesForFill =
     fold (\<lambda>share acc.
         if rs_RevShareFeeSource share = source \<and> rs_RevShareType share = REV_SHARE_TYPE_ORDER_ROUTER
         then rs_QuoteQuantums share else acc)
       (rf_AllRevShares revSharesForFill) 0"

definition taker_weight :: "fee_store \<Rightarrow> FillForProcess \<Rightarrow> RevSharesForFill \<Rightarrow> int" where
  "taker_weight fees fill revSharesForFill =
     (let maxMakerRebatePpm = min_int32 0 (GetLowestMakerFee fees);
          totalNetFeeRevSharePpm =
            (case rf_FeeSourceToRevSharePpm revSharesForFill REV_SHARE_FEE_SOURCE_NET_PROTOCOL_REVENUE of
               Some value \<Rightarrow> value | None \<Rightarrow> 0);
          maxPossibleAffiliateRevShareQuoteQuantum =
            (if fp_MonthlyRollingTakerVolumeQuantums fill < MaxReferee30dVolumeForAffiliateShareQuantums
             then BigMulPpm (fp_TakerFeeQuoteQuantums fill) (BigU AffiliatesRevSharePpmCap) False
             else 0);
          takerOrderRouterRevShare = order_router_share REV_SHARE_FEE_SOURCE_TAKER_FEE revSharesForFill;
          totalFeeSubNetRevSharePpm = OneMillion - totalNetFeeRevSharePpm;
          makerRebateMulTakerVolume = BigMulPpm (fp_FillQuoteQuantums fill) (sint maxMakerRebatePpm) False;
          netTakerFee = fp_TakerFeeQuoteQuantums fill + makerRebateMulTakerVolume
                          - maxPossibleAffiliateRevShareQuoteQuantum - takerOrderRouterRevShare
      in BigMulPpm netTakerFee (BigU totalFeeSubNetRevSharePpm) False)"

definition maker_weight :: "FillForProcess \<Rightarrow> RevSharesForFill \<Rightarrow> int" where
  "maker_weight fill revSharesForFill =
     (let totalNetFeeRevSharePpm =
            (case rf_FeeSourceToRevSharePpm revSharesForFill REV_SHARE_FEE_SOURCE_NET_PROTOCOL_REVENUE of
               Some value \<Rightarrow> value | None \<Rightarrow> 0);
          totalFeeSubNetRevSharePpm = OneMillion - totalNetFeeRevSharePpm;
          makerOrderRouterRevShare = order_router_share REV_SHARE_FEE_SOURCE_MAKER_FEE revSharesForFill;
          netMakerFee = fp_MakerFeeQuoteQuantums fill - makerOrderRouterRevShare
      in BigMulPpm netMakerFee (BigU totalFeeSubNetRevSharePpm) False)"

text \<open>An error of \<^verbatim>\<open>AddRewardShareToAddress\<close> is logged and ignored.\<close>

definition AddRewardSharesForFill :: "fee_store \<Rightarrow> FillForProcess \<Rightarrow> RevSharesForFill \<Rightarrow> rewards_store \<Rightarrow> rewards_store" where
  "AddRewardSharesForFill fees fill revSharesForFill s =
     (let takerWeight = taker_weight fees fill revSharesForFill;
          s = (if 0 < sgn takerWeight then snd (AddRewardShareToAddress (fp_TakerAddr fill) takerWeight s) else s);
          makerWeight = maker_weight fill revSharesForFill
      in if 0 < sgn makerWeight then snd (AddRewardShareToAddress (fp_MakerAddr fill) makerWeight s) else s)"

definition getAllRewardSharesAndTotalWeight :: "rewards_store \<Rightarrow> RewardShare list \<times> int" where
  "getAllRewardSharesAndTotalWeight s =
     fold (\<lambda>val (list, totalWeight). (list @ [val], totalWeight + rw_Weight val)) (gm_vals (rws_Shares s)) ([], 0)"

type_synonym 'b module_send = "string \<Rightarrow> string \<Rightarrow> Coin list \<Rightarrow> ('b, unit) step"

text \<open>
  One round of the pay-out loop; the rewards paid so far are the indexer event. A failed transfer is
  logged; \<^verbatim>\<open>MustAccAddressFromBech32\<close> panics on a bad address.
\<close>

definition distribute_reward ::
  "'b sdk \<Rightarrow> 'b module_send \<Rightarrow> rewards_Params \<Rightarrow> int \<Rightarrow> int \<Rightarrow> RewardShare \<Rightarrow> (string \<times> int) list
     \<Rightarrow> ('b keeper_state, (string \<times> int) list) step" where
  "distribute_reward x SendCoinsFromModuleToAccount params tokensToDistribute totalRewardWeight share rewards =
     (let rewardAmountForAddress = ediv (tokensToDistribute * rw_Weight share) totalRewardWeight
      in if sgn rewardAmountForAddress = 0 then retM rewards
         else bindM (liftM (\<lambda>_. must (x_AccAddressFromBech32 x (rw_Address share)))) (\<lambda>recipient s.
           case on_bank (SendCoinsFromModuleToAccount (rp_TreasuryAccount params) recipient
                  [\<lparr>co_Denom = rp_Denom params, co_Amount = rewardAmountForAddress\<rparr>]) s of
             (Inl (Panic n), s') \<Rightarrow> (Inl (Panic n), s')
           | (Inl (Err _), s') \<Rightarrow> (Inr rewards, s')
           | (Inr _, s') \<Rightarrow> (Inr (rewards @ [(rw_Address share, rewardAmountForAddress)]), s')))"

fun foldM :: "('x \<Rightarrow> 'a \<Rightarrow> ('s, 'a) step) \<Rightarrow> 'x list \<Rightarrow> 'a \<Rightarrow> ('s, 'a) step" where
  "foldM f [] a = retM a"
| "foldM f (x # xs) a = bindM (f x a) (foldM f xs)"

text \<open>The result is the indexer event of the block, \<^const>\<open>None\<close> when there is nothing to distribute.\<close>

definition ProcessRewardsForBlock ::
  "'b sdk \<Rightarrow> 'b module_send \<Rightarrow> rewards_store \<Rightarrow> ('b keeper_state, (string \<times> int) list option) step" where
  "ProcessRewardsForBlock x SendCoinsFromModuleToAccount rewards =
     (let params = rws_Params rewards
      in bindM (liftM (\<lambda>s. GetMarketPrice (ks_perps s) (rp_MarketId params))) (\<lambda>rewardTokenPrice.
         let (allRewardShares, totalRewardWeight) = getAllRewardSharesAndTotalWeight rewards;
             totalRewardWeightPpm = totalRewardWeight * BigU (rp_FeeMultiplierPpm params)
         in bindM (liftM (\<lambda>_. QuoteToBaseQuantums totalRewardWeightPpm (rp_DenomExponent params)
                     (mp_Price rewardTokenPrice) (mp_Exponent rewardTokenPrice))) (\<lambda>rewardTokenAmountPpm.
            let rewardTokenAmount = ediv rewardTokenAmountPpm BigIntOneMillion
            in bindM (liftM (\<lambda>s. Inr (x_GetBalance x (ks_bank s) (TreasuryModuleAddress x) (rp_Denom params)))) (\<lambda>rewardTokenBalance.
               let tokensToDistribute = BigMin rewardTokenBalance rewardTokenAmount
               in if sgn tokensToDistribute = 0 then retM None
                  else bindM (foldM (distribute_reward x SendCoinsFromModuleToAccount params tokensToDistribute totalRewardWeight)
                          allRewardShares [])
                        (\<lambda>rewardIndexerEvent. retM (Some rewardIndexerEvent))))))"

section \<open>Loops over a result\<close>

lemma foldM_invariant:
  assumes "foldM f xs a s = (Inr b, t)" "P a s"
    and "\<And>x a s b t. f x a s = (Inr b, t) \<Longrightarrow> P a s \<Longrightarrow> P b t"
  shows "P b t"
  using assms(1,2)
proof (induction xs arbitrary: a s)
  case Nil
  then show ?case by (simp add: step_simps)
next
  case (Cons x xs)
  from Cons.prems(1) obtain c u where "f x a s = (Inr c, u)" "foldM f xs c u = (Inr b, t)" by (auto simp: step_simps)
  then show ?case using Cons.IH assms(3) Cons.prems(2) by blast
qed

end
