(* ===== verification/OrderState.thy ===== *)
theory OrderState
  imports ClobTypes Epochs
begin

text \<open>
  The small stores of the \<^verbatim>\<open>x/clob\<close> keeper: fill amounts and their pruning (\<^verbatim>\<open>order_state.go\<close>, and
  \<^verbatim>\<open>getUpdatedOrderFillAmount\<close>, \<^verbatim>\<open>setOrderFillAmountsAndPruning\<close> of \<^verbatim>\<open>process_single_match.go\<close>), the trade
  prices of a block (\<^verbatim>\<open>match_state.go\<close>), what was liquidated in a block (\<^verbatim>\<open>liquidations_state.go\<close>) and the
  liquidations configuration. Order ids and subaccount ids stand for their state keys (their
  protobuf encodings, which are injective); a store is iterated in the order of the ids.
  Full-node streaming and logs are not modelled.
\<close>

section \<open>Definitions: x/clob/keeper/order_state.go\<close>

record OrderFillState =
  of_FillAmount :: uint64
  of_PrunableBlockHeight :: uint32

record order_state =
  os_OrderAmountFilled :: "(OrderId, OrderFillState) gomap"
  os_PrunableOrders :: "(uint32 \<times> OrderId, OrderId) gomap"
  os_LegacyPrunableOrders :: "(uint32, OrderId list) gomap"

definition GetAllOrderFillStates :: "order_state \<Rightarrow> (OrderFillState \<times> OrderId) list" where
  "GetAllOrderFillStates s = map (\<lambda>(orderId, orderFillState). (orderFillState, orderId)) (os_OrderAmountFilled s)"

definition SetOrderFillAmount :: "OrderId \<Rightarrow> uint64 \<Rightarrow> uint32 \<Rightarrow> order_state \<Rightarrow> order_state" where
  "SetOrderFillAmount orderId fillAmount prunableBlockHeight s =
     s\<lparr>os_OrderAmountFilled :=
        gm_set orderId \<lparr>of_FillAmount = fillAmount, of_PrunableBlockHeight = prunableBlockHeight\<rparr>
          (os_OrderAmountFilled s)\<rparr>"

definition GetOrderFillAmount :: "order_state \<Rightarrow> OrderId \<Rightarrow> bool \<times> uint64 \<times> uint32" where
  "GetOrderFillAmount s orderId =
     (case gm_get (os_OrderAmountFilled s) orderId of
        None \<Rightarrow> (False, 0, 0)
      | Some orderFillState \<Rightarrow> (True, of_FillAmount orderFillState, of_PrunableBlockHeight orderFillState))"

text \<open>The values of \<^verbatim>\<open>GetPruneableOrdersStore\<close>: the entries whose key starts with the height.\<close>

definition GetPruneableOrdersStore :: "order_state \<Rightarrow> uint32 \<Rightarrow> ((uint32 \<times> OrderId) \<times> OrderId) list" where
  "GetPruneableOrdersStore s height = filter (\<lambda>((h, _), _). h = height) (os_PrunableOrders s)"

definition AddOrdersForPruning :: "OrderId list \<Rightarrow> uint32 \<Rightarrow> order_state \<Rightarrow> order_state" where
  "AddOrdersForPruning orderIds prunableBlockHeight s =
     s\<lparr>os_PrunableOrders :=
        fold (\<lambda>orderId m. gm_set (prunableBlockHeight, orderId) orderId m) orderIds (os_PrunableOrders s)\<rparr>"

definition LegacyAddOrdersForPruning :: "OrderId list \<Rightarrow> uint32 \<Rightarrow> order_state \<Rightarrow> order_state res" where
  "LegacyAddOrdersForPruning orderIds prunableBlockHeight s =
     (let potentiallyPrunableOrderIds =
            (case gm_get (os_LegacyPrunableOrders s) prunableBlockHeight of
               None \<Rightarrow> orderIds
             | Some oldIds \<Rightarrow> oldIds @ orderIds);
          potentiallyPrunableOrdersSet = fold (\<lambda>orderId m. gm_set orderId True m) potentiallyPrunableOrderIds [];
          dedupedOrderIds = gm_keys potentiallyPrunableOrdersSet
      in bindr (MustSortAndHaveNoDuplicates dedupedOrderIds) (\<lambda>sortedIds.
           Inr (s\<lparr>os_LegacyPrunableOrders := gm_set prunableBlockHeight sortedIds (os_LegacyPrunableOrders s)\<rparr>)))"

definition RemoveOrderFillAmount :: "OrderId \<Rightarrow> order_state \<Rightarrow> order_state" where
  "RemoveOrderFillAmount orderId s = s\<lparr>os_OrderAmountFilled := gm_del orderId (os_OrderAmountFilled s)\<rparr>"

text \<open>One round of the loop of \<^verbatim>\<open>PruneOrdersForBlockHeight\<close>; the slice of pruned ids is the loop state.\<close>

definition prune_order ::
  "uint32 \<Rightarrow> (uint32 \<times> OrderId) \<times> OrderId \<Rightarrow> order_state \<times> OrderId list \<Rightarrow> order_state \<times> OrderId list" where
  "prune_order blockHeight entry st =
     (let (s, prunedOrderIds) = st;
          (key, orderId) = entry;
          (exists, _, prunableBlockHeight) = GetOrderFillAmount s orderId;
          (s, prunedOrderIds) =
            (if exists \<and> prunableBlockHeight \<le> blockHeight
             then (RemoveOrderFillAmount orderId s, prunedOrderIds @ [orderId])
             else (s, prunedOrderIds))
      in (s\<lparr>os_PrunableOrders := gm_del key (os_PrunableOrders s)\<rparr>, prunedOrderIds))"

definition PruneOrdersForBlockHeight :: "uint32 \<Rightarrow> order_state \<Rightarrow> order_state \<times> OrderId list" where
  "PruneOrdersForBlockHeight blockHeight s =
     fold (prune_order blockHeight) (GetPruneableOrdersStore s blockHeight) (s, [])"

definition MigratePruneableOrders :: "order_state \<Rightarrow> order_state" where
  "MigratePruneableOrders s =
     fold (\<lambda>(height, orderIds) s.
            (AddOrdersForPruning orderIds height s)
              \<lparr>os_LegacyPrunableOrders := gm_del height (os_LegacyPrunableOrders s)\<rparr>)
       (os_LegacyPrunableOrders s) s"

definition PruneStateFillAmountsForShortTermOrders :: "block_ctx \<Rightarrow> order_state \<Rightarrow> order_state res" where
  "PruneStateFillAmountsForShortTermOrders ctx s =
     bindr (MustConvertIntegerToUint32 (ctx_BlockHeight ctx)) (\<lambda>blockHeight.
       Inr (fst (PruneOrdersForBlockHeight blockHeight s)))"

section \<open>Definitions: fill amounts of a match\<close>

definition getUpdatedOrderFillAmount :: "uint64 \<Rightarrow> uint64 \<Rightarrow> uint64 \<Rightarrow> uint64 res" where
  "getUpdatedOrderFillAmount orderBaseQuantums currentFillAmount fillQuantums =
     (let bigNewFillAmount = uint currentFillAmount + uint fillQuantums
      in if cmp_int bigNewFillAmount (uint orderBaseQuantums) = 1
         then Inl (Err ''ErrInvalidMsgProposedOperations'')
         else Inr (word_of_int bigNewFillAmount))"

definition setOrderFillAmountsAndPruning :: "Order \<Rightarrow> uint64 \<Rightarrow> uint32 \<Rightarrow> order_state \<Rightarrow> order_state" where
  "setOrderFillAmountsAndPruning ord newTotalFillAmount curPruneableBlockHeight s =
     (let (pruneableBlockHeight, s) =
            (if \<not> Order_IsStatefulOrder ord
             then let pruneableBlockHeight =
                        max (GetGoodTilBlock (o_GoodTilOneof ord) + ShortBlockWindow) curPruneableBlockHeight
                  in (pruneableBlockHeight, AddOrdersForPruning [o_OrderId ord] pruneableBlockHeight s)
             else (- 1, s))
      in SetOrderFillAmount (o_OrderId ord) newTotalFillAmount pruneableBlockHeight s)"

section \<open>Definitions: x/clob/keeper/match_state.go\<close>

record trade_prices =
  tp_MinTradePrice :: "(uint32, uint64) gomap"
  tp_MaxTradePrice :: "(uint32, uint64) gomap"

definition getMinTradePriceForPerpetual :: "trade_prices \<Rightarrow> uint32 \<Rightarrow> uint64 \<times> bool" where
  "getMinTradePriceForPerpetual s perpetualId =
     (case gm_get (tp_MinTradePrice s) perpetualId of None \<Rightarrow> (0, False) | Some v \<Rightarrow> (v, True))"

definition getMaxTradePriceForPerpetual :: "trade_prices \<Rightarrow> uint32 \<Rightarrow> uint64 \<times> bool" where
  "getMaxTradePriceForPerpetual s perpetualId =
     (case gm_get (tp_MaxTradePrice s) perpetualId of None \<Rightarrow> (0, False) | Some v \<Rightarrow> (v, True))"

definition GetTradePricesForPerpetual :: "trade_prices \<Rightarrow> uint32 \<Rightarrow> uint64 \<times> uint64 \<times> bool" where
  "GetTradePricesForPerpetual s perpetualId =
     (let (minTradePriceSubticks, found) = getMinTradePriceForPerpetual s perpetualId
      in if \<not> found then (0, 0, False)
         else let (maxTradePriceSubticks, found) = getMaxTradePriceForPerpetual s perpetualId
              in (minTradePriceSubticks, maxTradePriceSubticks, found))"

definition SetTradePricesForPerpetual :: "uint32 \<Rightarrow> uint64 \<Rightarrow> trade_prices \<Rightarrow> trade_prices" where
  "SetTradePricesForPerpetual perpetualId subticks s =
     (let (minTradePriceSubticks, maxTradePriceSubticks, found) = GetTradePricesForPerpetual s perpetualId;
          s = (if \<not> found \<or> subticks < minTradePriceSubticks
               then s\<lparr>tp_MinTradePrice := gm_set perpetualId subticks (tp_MinTradePrice s)\<rparr> else s)
      in if \<not> found \<or> maxTradePriceSubticks < subticks
         then s\<lparr>tp_MaxTradePrice := gm_set perpetualId subticks (tp_MaxTradePrice s)\<rparr> else s)"

section \<open>Definitions: x/clob/keeper/liquidations_state.go\<close>

record SubaccountLiquidationInfo =
  sli_PerpetualsLiquidated :: "uint32 list"
  sli_NotionalLiquidated :: uint64
  sli_QuantumsInsuranceLost :: uint64

type_synonym liquidation_infos = "(SubaccountId, SubaccountLiquidationInfo) gomap"

definition HasPerpetualBeenLiquidatedForSubaccount :: "SubaccountLiquidationInfo \<Rightarrow> uint32 \<Rightarrow> bool" where
  "HasPerpetualBeenLiquidatedForSubaccount sli perpetualId \<longleftrightarrow>
     list_ex (\<lambda>liquidatedPerpetualId. perpetualId = liquidatedPerpetualId) (sli_PerpetualsLiquidated sli)"

definition GetSubaccountLiquidationInfo :: "liquidation_infos \<Rightarrow> SubaccountId \<Rightarrow> SubaccountLiquidationInfo" where
  "GetSubaccountLiquidationInfo m subaccountId =
     (case gm_get m subaccountId of
        None \<Rightarrow> \<lparr>sli_PerpetualsLiquidated = [], sli_NotionalLiquidated = 0, sli_QuantumsInsuranceLost = 0\<rparr>
      | Some info \<Rightarrow> info)"

definition MustUpdateSubaccountPerpetualLiquidated ::
  "SubaccountId \<Rightarrow> uint32 \<Rightarrow> liquidation_infos \<Rightarrow> liquidation_infos res" where
  "MustUpdateSubaccountPerpetualLiquidated subaccountId perpetualId m =
     (let info = GetSubaccountLiquidationInfo m subaccountId
      in if HasPerpetualBeenLiquidatedForSubaccount info perpetualId
         then Inl (Panic ''UpdateSubaccountLiquidationInfo: already liquidated within the last block'')
         else Inr (gm_set subaccountId
                (info\<lparr>sli_PerpetualsLiquidated := sli_PerpetualsLiquidated info @ [perpetualId]\<rparr>) m))"

definition UpdateSubaccountLiquidationInfo ::
  "SubaccountId \<Rightarrow> int \<Rightarrow> int \<Rightarrow> liquidation_infos \<Rightarrow> liquidation_infos res" where
  "UpdateSubaccountLiquidationInfo subaccountId notionalLiquidatedQuoteQuantums insuranceFundDeltaQuoteQuantums m =
     (let info = GetSubaccountLiquidationInfo m subaccountId;
          updatedNotional = \<bar>notionalLiquidatedQuoteQuantums\<bar> + uint (sli_NotionalLiquidated info)
      in if \<not> updatedNotional < 2 ^ 64 then Inl (Panic ''ErrIntegerOverflow'')
         else
           let info = info\<lparr>sli_NotionalLiquidated := word_of_int updatedNotional\<rparr>
           in bindr
                (if sgn insuranceFundDeltaQuoteQuantums = - 1
                 then let updatedLost = \<bar>insuranceFundDeltaQuoteQuantums\<bar> + uint (sli_QuantumsInsuranceLost info)
                      in if \<not> updatedLost < 2 ^ 64 then Inl (Panic ''ErrIntegerOverflow'')
                         else Inr (info\<lparr>sli_QuantumsInsuranceLost := word_of_int updatedLost\<rparr>)
                 else Inr info)
                (\<lambda>info. Inr (gm_set subaccountId info m)))"

section \<open>Definitions: liquidations configuration\<close>

record PositionBlockLimits =
  pl_MinPositionNotionalLiquidated :: uint64
  pl_MaxPositionPortionLiquidatedPpm :: uint32

record SubaccountBlockLimits =
  bl_MaxNotionalLiquidated :: uint64
  bl_MaxQuantumsInsuranceLost :: uint64

record FillablePriceConfig =
  fc_BankruptcyAdjustmentPpm :: uint32
  fc_SpreadToMaintenanceMarginRatioPpm :: uint32

record LiquidationsConfig =
  lc_MaxLiquidationFeePpm :: uint32
  lc_PositionBlockLimits :: PositionBlockLimits
  lc_SubaccountBlockLimits :: SubaccountBlockLimits
  lc_FillablePriceConfig :: FillablePriceConfig

definition LiquidationsConfig_Validate :: "LiquidationsConfig \<Rightarrow> unit res" where
  "LiquidationsConfig_Validate lc =
     (if fc_BankruptcyAdjustmentPpm (lc_FillablePriceConfig lc) < OneMillion
      then Inl (Err ''ErrInvalidLiquidationsConfig'')
      else if fc_SpreadToMaintenanceMarginRatioPpm (lc_FillablePriceConfig lc) = 0
      then Inl (Err ''ErrInvalidLiquidationsConfig'')
      else if lc_MaxLiquidationFeePpm lc = 0 \<or> OneMillion < lc_MaxLiquidationFeePpm lc
      then Inl (Err ''ErrInvalidLiquidationsConfig'')
      else let maxPositionPortionLiquidatedPpm = pl_MaxPositionPortionLiquidatedPpm (lc_PositionBlockLimits lc)
           in if maxPositionPortionLiquidatedPpm = 0 \<or> OneMillion < maxPositionPortionLiquidatedPpm
      then Inl (Err ''ErrInvalidLiquidationsConfig'')
      else if bl_MaxNotionalLiquidated (lc_SubaccountBlockLimits lc) = 0
      then Inl (Err ''ErrInvalidLiquidationsConfig'')
      else if bl_MaxQuantumsInsuranceLost (lc_SubaccountBlockLimits lc) = 0
      then Inl (Err ''ErrInvalidLiquidationsConfig'')
      else Inr ())"

definition GetLiquidationsConfig :: "LiquidationsConfig option \<Rightarrow> LiquidationsConfig res" where
  "GetLiquidationsConfig st =
     (case st of
        None \<Rightarrow> Inl (Panic ''getLiquidationsConfig: LiquidationsConfig was never set in state'')
      | Some config \<Rightarrow> Inr config)"

definition setLiquidationsConfig :: "LiquidationsConfig \<Rightarrow> (LiquidationsConfig option, unit) step" where
  "setLiquidationsConfig config =
     bindM (liftM (\<lambda>_. LiquidationsConfig_Validate config)) (\<lambda>_. modifyM (\<lambda>_. Some config))"

definition UpdateLiquidationsConfig :: "LiquidationsConfig \<Rightarrow> (LiquidationsConfig option, unit) step" where
  "UpdateLiquidationsConfig config = setLiquidationsConfig config"

definition InitializeLiquidationsConfig :: "LiquidationsConfig \<Rightarrow> (LiquidationsConfig option, unit) step" where
  "InitializeLiquidationsConfig config = setLiquidationsConfig config"

section \<open>Pruning\<close>

lemma GetOrderFillAmount_None [simp]:
  "GetOrderFillAmount s i = (False, a, p) \<longleftrightarrow> gm_get (os_OrderAmountFilled s) i = None \<and> a = 0 \<and> p = 0"
  by (auto simp: GetOrderFillAmount_def split: option.splits)

lemma GetOrderFillAmount_Some:
  "GetOrderFillAmount s i = (True, a, p) \<longleftrightarrow>
     (\<exists>f. gm_get (os_OrderAmountFilled s) i = Some f \<and> of_FillAmount f = a \<and> of_PrunableBlockHeight f = p)"
  by (auto simp: GetOrderFillAmount_def split: option.splits)

text \<open>What a round of the pruning loop leaves: the fill of its order unless it is due.\<close>

definition due :: "order_state \<Rightarrow> uint32 \<Rightarrow> OrderId \<Rightarrow> bool" where
  "due s h i \<longleftrightarrow> (case gm_get (os_OrderAmountFilled s) i of None \<Rightarrow> False | Some f \<Rightarrow> of_PrunableBlockHeight f \<le> h)"

lemma prune_order_get:
  "gm_get (os_OrderAmountFilled (fst (prune_order h (k, i) (s, ps)))) j =
     (if j = i \<and> due s h i then None else gm_get (os_OrderAmountFilled s) j)"
  "gm_get (os_PrunableOrders (fst (prune_order h (k, i) (s, ps)))) = (gm_get (os_PrunableOrders s))(k := None)"
  "snd (prune_order h (k, i) (s, ps)) = ps @ (if due s h i then [i] else [])"
  by (auto simp: prune_order_def due_def GetOrderFillAmount_def RemoveOrderFillAmount_def split: option.splits)

lemma fold_prune_order:
  assumes "fold (prune_order h) es (s, ps) = (t, qs)" "distinct (map snd es)"
  shows "(\<forall>j. gm_get (os_OrderAmountFilled t) j =
        (if j \<in> set (map snd es) \<and> due s h j then None else gm_get (os_OrderAmountFilled s) j)) \<and>
      (\<forall>k. gm_get (os_PrunableOrders t) k = (if k \<in> fst ` set es then None else gm_get (os_PrunableOrders s) k)) \<and>
      set qs = set ps \<union> {i \<in> set (map snd es). due s h i}"
  using assms
proof (induction es arbitrary: s ps)
  case (Cons e es)
  obtain k0 i where e: "e = (k0, i)" by fastforce
  obtain s1 ps1 where s1: "prune_order h (k0, i) (s, ps) = (s1, ps1)" by fastforce
  note g = prune_order_get[of h k0 i s ps, unfolded s1 fst_conv snd_conv]
  have run: "fold (prune_order h) es (s1, ps1) = (t, qs)" and d: "distinct (map snd es)" "i \<notin> set (map snd es)"
    using Cons.prems e s1 by auto
  have due: "j \<noteq> i \<Longrightarrow> due s1 h j = due s h j" for j using g(1)[of j] by (auto simp: due_def)
  note IH = Cons.IH[OF run d(1)]
  have "{x \<in> set (map snd es). due s1 h x} = {x \<in> set (map snd es). due s h x}" using due d(2) by metis
  then have "set qs = set ps1 \<union> {x \<in> set (map snd es). due s h x}" using IH by simp
  then have 3: "set qs = set ps \<union> {x \<in> set (map snd (e # es)). due s h x}" using g(3) e by auto
  have 1: "gm_get (os_OrderAmountFilled t) j =
        (if j \<in> set (map snd (e # es)) \<and> due s h j then None else gm_get (os_OrderAmountFilled s) j)" for j
    using IH g(1)[of j] due[of j] d(2) e by auto
  have "gm_get (os_PrunableOrders t) k =
        (if k \<in> fst ` set (e # es) then None else gm_get (os_PrunableOrders s) k)" for k
    using IH g(2) e by (cases k) auto
  then show ?case using 1 3 by blast
qed simp

text \<open>
  The stores are maps in key order, an entry of the pruning store carries the id of its key, and
  every fill of an order that is not stateful is scheduled for the height recorded with it.
\<close>

definition scheduled :: "order_state \<Rightarrow> bool" where
  "scheduled s \<longleftrightarrow> gm_inv (os_OrderAmountFilled s) \<and> gm_inv (os_PrunableOrders s) \<and>
     (\<forall>h i j. gm_get (os_PrunableOrders s) (h, i) = Some j \<longrightarrow> j = i) \<and>
     (\<forall>i f. gm_get (os_OrderAmountFilled s) i = Some f \<longrightarrow> \<not> OrderId_IsStatefulOrder i \<longrightarrow>
        gm_get (os_PrunableOrders s) (of_PrunableBlockHeight f, i) \<noteq> None)"

lemma store_entries:
  assumes "scheduled s"
  shows "distinct (map snd (GetPruneableOrdersStore s h))"
    "set (map snd (GetPruneableOrdersStore s h)) = {i. gm_get (os_PrunableOrders s) (h, i) \<noteq> None}"
    "fst ` set (GetPruneableOrdersStore s h) = {k. fst k = h \<and> gm_get (os_PrunableOrders s) k \<noteq> None}"
proof -
  have inv: "gm_inv (os_PrunableOrders s)" using assms by (simp add: scheduled_def)
  have mem: "(k, j) \<in> set (GetPruneableOrdersStore s h) \<longleftrightarrow> fst k = h \<and> gm_get (os_PrunableOrders s) k = Some j" for k j
    by (cases k) (auto simp: GetPruneableOrdersStore_def gm_get_Some_iff[OF inv])
  have snd: "j = snd k" if "(k, j) \<in> set (GetPruneableOrdersStore s h)" for k j
    using that mem[of k j] assms by (cases k) (auto simp: scheduled_def)
  show "fst ` set (GetPruneableOrdersStore s h) = {k. fst k = h \<and> gm_get (os_PrunableOrders s) k \<noteq> None}"
    using mem by (force simp: image_iff)
  show "set (map snd (GetPruneableOrdersStore s h)) = {i. gm_get (os_PrunableOrders s) (h, i) \<noteq> None}"
  proof (intro set_eqI iffI)
    fix i assume "i \<in> set (map snd (GetPruneableOrdersStore s h))"
    then obtain k where k: "(k, i) \<in> set (GetPruneableOrdersStore s h)" by auto
    then show "i \<in> {i. gm_get (os_PrunableOrders s) (h, i) \<noteq> None}"
      using mem[of k i] snd[OF k] by (cases k) auto
  next
    fix i assume "i \<in> {i. gm_get (os_PrunableOrders s) (h, i) \<noteq> None}"
    then obtain j where "gm_get (os_PrunableOrders s) (h, i) = Some j" by auto
    then have "((h, i), j) \<in> set (GetPruneableOrdersStore s h)" "j = i"
      using mem[of "(h, i)" j] assms by (auto simp: scheduled_def)
    then show "i \<in> set (map snd (GetPruneableOrdersStore s h))" by force
  qed
  have "distinct (map fst (GetPruneableOrdersStore s h))"
    using gm_inv_distinct[OF inv] by (simp add: GetPruneableOrdersStore_def distinct_map_filter)
  then have "inj_on snd (set (GetPruneableOrdersStore s h))"
    using mem snd by (fastforce intro!: inj_onI)
  then show "distinct (map snd (GetPruneableOrdersStore s h))"
    using \<open>distinct (map fst (GetPruneableOrdersStore s h))\<close> by (simp add: distinct_map)
qed

lemma PruneOrders_get:
  assumes "scheduled s" "PruneOrdersForBlockHeight h s = (t, qs)"
  shows "gm_get (os_OrderAmountFilled t) j =
      (if gm_get (os_PrunableOrders s) (h, j) \<noteq> None \<and> due s h j then None else gm_get (os_OrderAmountFilled s) j)"
    and "gm_get (os_PrunableOrders t) k = (if fst k = h then None else gm_get (os_PrunableOrders s) k)"
    and "set qs = {i. gm_get (os_PrunableOrders s) (h, i) \<noteq> None \<and> due s h i}"
proof -
  have run: "fold (prune_order h) (GetPruneableOrdersStore s h) (s, []) = (t, qs)"
    using assms(2) by (simp add: PruneOrdersForBlockHeight_def)
  note f = fold_prune_order[OF run store_entries(1)[OF assms(1)]] and e = store_entries[OF assms(1), of h]
  show "gm_get (os_OrderAmountFilled t) j =
      (if gm_get (os_PrunableOrders s) (h, j) \<noteq> None \<and> due s h j then None else gm_get (os_OrderAmountFilled s) j)"
    using f unfolding e(2) by simp
  show "gm_get (os_PrunableOrders t) k = (if fst k = h then None else gm_get (os_PrunableOrders s) k)"
    using f unfolding e(3) by (cases k) auto
  show "set qs = {i. gm_get (os_PrunableOrders s) (h, i) \<noteq> None \<and> due s h i}"
    using f unfolding e(2) by simp
qed

lemma fold_prune_inv:
  "gm_inv (os_OrderAmountFilled s) \<Longrightarrow> gm_inv (os_PrunableOrders s) \<Longrightarrow> fold (prune_order h) es (s, ps) = (t, qs) \<Longrightarrow>
     gm_inv (os_OrderAmountFilled t) \<and> gm_inv (os_PrunableOrders t)"
proof (induction es arbitrary: s ps)
  case (Cons e es)
  obtain s1 ps1 where s1: "prune_order h e (s, ps) = (s1, ps1)" by fastforce
  then have "gm_inv (os_OrderAmountFilled s1) \<and> gm_inv (os_PrunableOrders s1)"
    using Cons.prems(1,2) by (auto simp: prune_order_def RemoveOrderFillAmount_def split: prod.splits if_splits)
  then show ?case using Cons.IH[of s1 ps1] Cons.prems(3) s1 by simp
qed simp

lemma PruneOrders_scheduled:
  assumes "scheduled s" "PruneOrdersForBlockHeight h s = (t, qs)"
  shows "scheduled t"
proof -
  note g = PruneOrders_get[OF assms]
  have inv: "gm_inv (os_OrderAmountFilled t) \<and> gm_inv (os_PrunableOrders t)"
    using fold_prune_inv[of s h "GetPruneableOrdersStore s h" "[]" t qs] assms
    by (simp add: scheduled_def PruneOrdersForBlockHeight_def)
  have "gm_get (os_PrunableOrders t) (of_PrunableBlockHeight f, i) \<noteq> None"
    if f: "gm_get (os_OrderAmountFilled t) i = Some f" and i: "\<not> OrderId_IsStatefulOrder i" for i f
  proof -
    have sf: "gm_get (os_OrderAmountFilled s) i = Some f" "\<not> (gm_get (os_PrunableOrders s) (h, i) \<noteq> None \<and> due s h i)"
      using f g(1)[of i] by (auto split: if_splits)
    then have at: "gm_get (os_PrunableOrders s) (of_PrunableBlockHeight f, i) \<noteq> None"
      using assms(1) i unfolding scheduled_def by blast
    then have "of_PrunableBlockHeight f \<noteq> h" using sf by (auto simp: due_def)
    then show ?thesis using at g(2) by simp
  qed
  then show ?thesis
    using inv assms(1) g(2) unfolding scheduled_def by (auto split: if_splits)
qed


section \<open>Recording a fill\<close>

lemma AddOrdersForPruning_get [simp]:
  "os_OrderAmountFilled (AddOrdersForPruning [i] h s) = os_OrderAmountFilled s"
  "os_PrunableOrders (AddOrdersForPruning [i] h s) = gm_set (h, i) i (os_PrunableOrders s)"
  by (simp_all add: AddOrdersForPruning_def)

definition prunable_height :: "Order \<Rightarrow> uint32 \<Rightarrow> uint32" where
  "prunable_height ord cur =
     (if Order_IsStatefulOrder ord then - 1 else max (GetGoodTilBlock (o_GoodTilOneof ord) + ShortBlockWindow) cur)"

lemma setOrderFillAmounts_fields:
  "os_OrderAmountFilled (setOrderFillAmountsAndPruning ord new cur s) =
     gm_set (o_OrderId ord) \<lparr>of_FillAmount = new, of_PrunableBlockHeight = prunable_height ord cur\<rparr> (os_OrderAmountFilled s)"
  "os_PrunableOrders (setOrderFillAmountsAndPruning ord new cur s) =
     (if Order_IsStatefulOrder ord then os_PrunableOrders s
      else gm_set (prunable_height ord cur, o_OrderId ord) (o_OrderId ord) (os_PrunableOrders s))"
  by (simp_all add: setOrderFillAmountsAndPruning_def SetOrderFillAmount_def prunable_height_def Let_def)

lemma setOrderFillAmounts_scheduled:
  assumes "scheduled s"
  shows "scheduled (setOrderFillAmountsAndPruning ord new cur s)"
  using assms unfolding scheduled_def setOrderFillAmounts_fields
  by (auto simp: Order_IsStatefulOrder_def)

lemma getUpdatedOrderFillAmount_grows:
  assumes "getUpdatedOrderFillAmount sz cur fill = Inr new"
  shows "uint new = uint cur + uint fill" "cur \<le> new" "new \<le> sz"
proof -
  have le: "uint cur + uint fill \<le> uint sz" and new: "new = word_of_int (uint cur + uint fill)"
    using assms by (auto simp: getUpdatedOrderFillAmount_def Let_def cmp_int_def split: if_splits)
  have "uint sz < 2 ^ 64" using uint_lt2p[of sz] by simp
  then show u: "uint new = uint cur + uint fill"
    using le unfolding new uint_word_of_int by (simp add: take_bit_int_eq_self)
  show "cur \<le> new" "new \<le> sz" using u le by (simp_all add: word_le_def)
qed

text \<open>
  The fill amounts of the chain from block to block: within the block at height \<open>b\<close> a match records
  the new total of an order (one that is not stateful has not expired), a stateful order that is
  removed takes its fill amount with it, and the end of the block prunes. At any time the prunable orders of the
  old storage format may be migrated to the new one.
\<close>

inductive fills_run :: "order_state \<Rightarrow> uint32 \<Rightarrow> order_state \<Rightarrow> uint32 \<Rightarrow> bool" for s h where
  start: "fills_run s h s h"
| fill: "fills_run s h t b \<Longrightarrow>
    Order_IsStatefulOrder ord \<or> b \<le> GetGoodTilBlock (o_GoodTilOneof ord) \<Longrightarrow>
    GetOrderFillAmount t (o_OrderId ord) = (ex, cur, p) \<Longrightarrow>
    getUpdatedOrderFillAmount (o_Quantums ord) cur q = Inr new \<Longrightarrow>
    fills_run s h (setOrderFillAmountsAndPruning ord new p t) b"
| remove: "fills_run s h t b \<Longrightarrow> OrderId_IsStatefulOrder i \<Longrightarrow> fills_run s h (RemoveOrderFillAmount i t) b"
| end_block: "fills_run s h t b \<Longrightarrow> b \<noteq> - 1 \<Longrightarrow>
    fills_run s h (fst (PruneOrdersForBlockHeight b t)) (b + 1)"
| migrate: "fills_run s h t b \<Longrightarrow> fills_run s h (MigratePruneableOrders t) b"

text \<open>A migration only adds prunable orders: no fill and no scheduled pruning is lost.\<close>

lemma gm_get_schedule:
  "gm_get (fold (\<lambda>i m. gm_set (h, i) i m) ids m) k = (if fst k = h \<and> snd k \<in> set ids then Some (snd k) else gm_get m k)"
  by (induction ids arbitrary: m) auto

lemma gm_inv_schedule: "gm_inv m \<Longrightarrow> gm_inv (fold (\<lambda>i m. gm_set (h, i) i m) ids m)"
  by (induction ids arbitrary: m) simp_all

lemma AddOrdersForPruning_scheduled: "scheduled s \<Longrightarrow> scheduled (AddOrdersForPruning ids h s)"
  by (auto simp: scheduled_def AddOrdersForPruning_def gm_get_schedule gm_inv_schedule split: if_splits)

lemma MigratePruneableOrders_keeps:
  assumes "scheduled s"
  shows "scheduled (MigratePruneableOrders s)" "os_OrderAmountFilled (MigratePruneableOrders s) = os_OrderAmountFilled s"
proof -
  let ?step = "\<lambda>(h, ids) s. (AddOrdersForPruning ids h s)\<lparr>os_LegacyPrunableOrders := gm_del h (os_LegacyPrunableOrders s)\<rparr>"
  have "scheduled (fold ?step xs t) \<and> os_OrderAmountFilled (fold ?step xs t) = os_OrderAmountFilled t" if "scheduled t" for xs t
    using that
  proof (induction xs arbitrary: t)
    case (Cons x xs)
    obtain h ids where x: "x = (h, ids)" by (cases x)
    have "scheduled (?step x t)" "os_OrderAmountFilled (?step x t) = os_OrderAmountFilled t"
      using AddOrdersForPruning_scheduled[OF Cons.prems, of ids h]
      by (simp_all add: x scheduled_def) (simp add: AddOrdersForPruning_def)
    with Cons.IH[of "?step x t"] show ?case by simp
  qed simp
  with assms show "scheduled (MigratePruneableOrders s)" "os_OrderAmountFilled (MigratePruneableOrders s) = os_OrderAmountFilled s"
    unfolding MigratePruneableOrders_def by blast+
qed

lemma RemoveOrderFillAmount_scheduled: "scheduled s \<Longrightarrow> scheduled (RemoveOrderFillAmount i s)"
  by (auto simp: scheduled_def RemoveOrderFillAmount_def)

lemma fills_run_scheduled: "fills_run s h t b \<Longrightarrow> scheduled s \<Longrightarrow> scheduled t"
proof (induction rule: fills_run.induct)
  case (end_block t b)
  then show ?case using PruneOrders_scheduled[of t b] by (metis prod.collapse)
qed (auto intro: setOrderFillAmounts_scheduled RemoveOrderFillAmount_scheduled MigratePruneableOrders_keeps(1))

lemma word_less_succ: "b \<noteq> - 1 \<Longrightarrow> b < b + (1 :: uint32)"
proof -
  assume "b \<noteq> - 1"
  then have "1 + b \<noteq> 0" by (metis add.commute eq_neg_iff_add_eq_0)
  then show ?thesis using unatSuc[of b] by (simp add: word_less_nat_alt add.commute)
qed

lemma fills_run_keeps:
  assumes "fills_run s h t b" "scheduled s" "gm_get (os_OrderAmountFilled s) i = Some f"
    "\<not> OrderId_IsStatefulOrder i" "b \<le> of_PrunableBlockHeight f"
  shows "\<exists>f'. gm_get (os_OrderAmountFilled t) i = Some f' \<and> of_FillAmount f \<le> of_FillAmount f' \<and>
    of_PrunableBlockHeight f \<le> of_PrunableBlockHeight f'"
  using assms
proof (induction rule: fills_run.induct)
  case start
  then show ?case by auto
next
  case (fill t b ord ex cur p q new)
  then obtain f' where f': "gm_get (os_OrderAmountFilled t) i = Some f'" "of_FillAmount f \<le> of_FillAmount f'"
    "of_PrunableBlockHeight f \<le> of_PrunableBlockHeight f'" by blast
  show ?case
  proof (cases "o_OrderId ord = i")
    case True
    then have "cur = of_FillAmount f'" "p = of_PrunableBlockHeight f'"
      using fill.hyps(3) f'(1) by (simp_all add: GetOrderFillAmount_def)
    moreover have "cur \<le> new" using getUpdatedOrderFillAmount_grows(2)[OF fill.hyps(4)] .
    ultimately show ?thesis
      using True f' fill.prems(3) by (auto simp: setOrderFillAmounts_fields prunable_height_def Order_IsStatefulOrder_def le_max_iff_disj)
  qed (use f' in \<open>simp add: setOrderFillAmounts_fields\<close>)
next
  case (remove t b j)
  then show ?case by (auto simp: RemoveOrderFillAmount_def)
next
  case (end_block t b)
  have lt: "b < b + 1" by (rule word_less_succ[OF end_block.hyps(2)])
  then have "b \<le> of_PrunableBlockHeight f" using end_block.prems(4) by order
  then obtain f' where f': "gm_get (os_OrderAmountFilled t) i = Some f'" "of_FillAmount f \<le> of_FillAmount f'"
    "of_PrunableBlockHeight f \<le> of_PrunableBlockHeight f'" using end_block.IH end_block.prems by blast
  then have "\<not> due t b i" using lt end_block.prems(4) by (simp add: due_def)
  moreover have "scheduled t" using fills_run_scheduled end_block by blast
  ultimately show ?case
    using f' PruneOrders_get(1)[of t b] by (metis prod.collapse)
next
  case (migrate t b)
  then show ?case using MigratePruneableOrders_keeps(2)[OF fills_run_scheduled[OF migrate.hyps(1) migrate.prems(1)]] by simp
qed

section \<open>Trade prices\<close>

definition prices_ok :: "trade_prices \<Rightarrow> bool" where
  "prices_ok s \<longleftrightarrow> (\<forall>p. (gm_get (tp_MinTradePrice s) p = None) = (gm_get (tp_MaxTradePrice s) p = None))"

lemma SetTradePrices_ok: "prices_ok s \<Longrightarrow> prices_ok (SetTradePricesForPerpetual p x s)"
  by (auto simp: prices_ok_def SetTradePricesForPerpetual_def GetTradePricesForPerpetual_def
      getMinTradePriceForPerpetual_def getMaxTradePriceForPerpetual_def Let_def split: option.splits)

lemma SetTradePrices_bounds:
  assumes "GetTradePricesForPerpetual s p = (lo, hi, True)"
  shows "GetTradePricesForPerpetual (SetTradePricesForPerpetual p x s) p = (min lo x, max hi x, True)"
  using assms
  by (auto simp: SetTradePricesForPerpetual_def GetTradePricesForPerpetual_def
      getMinTradePriceForPerpetual_def getMaxTradePriceForPerpetual_def Let_def min_def max_def
      split: option.splits if_splits)

section \<open>Properties\<close>

text \<open>
  C21: A fill is not forgotten while its order could trade again. Once a match has recorded the
  total \<open>new\<close> of an order that is not stateful, then after any further blocks up to height
  GoodTilBlock + ShortBlockWindow, with any matches, removals of stateful orders, prunings and
  migrations of the prunable orders in them, the amount is still recorded, is at least \<open>new\<close>, and
  whatever size an order with this id has, a further fill is accepted only within what is left of that size after \<open>new\<close>.
\<close>

theorem fill_not_forgotten:
  assumes "scheduled s" "\<not> Order_IsStatefulOrder ord"
    and "fills_run (setOrderFillAmountsAndPruning ord new p s) h t b"
    and "b \<le> GetGoodTilBlock (o_GoodTilOneof ord) + ShortBlockWindow"
  shows "\<exists>a p'. GetOrderFillAmount t (o_OrderId ord) = (True, a, p') \<and> new \<le> a \<and>
    (\<forall>sz q total. getUpdatedOrderFillAmount sz a q = Inr total \<longrightarrow> uint new + uint q \<le> uint sz)"
proof -
  let ?s = "setOrderFillAmountsAndPruning ord new p s"
  have "b \<le> prunable_height ord p" using assms(2,4) by (simp add: prunable_height_def le_max_iff_disj)
  then obtain f where f: "gm_get (os_OrderAmountFilled t) (o_OrderId ord) = Some f" "new \<le> of_FillAmount f"
    using fills_run_keeps[OF assms(3) setOrderFillAmounts_scheduled[OF assms(1)], of "o_OrderId ord"] assms(2)
    by (auto simp: setOrderFillAmounts_fields Order_IsStatefulOrder_def)
  have "uint new + uint q \<le> uint sz" if g: "getUpdatedOrderFillAmount sz (of_FillAmount f) q = Inr total" for sz q total
    using getUpdatedOrderFillAmount_grows(1,3)[OF g] f(2) by (simp add: word_le_def)
  then show ?thesis using f by (auto simp: GetOrderFillAmount_def)
qed

text \<open>
  C22: Pruning at a height removes exactly the fills that are due: the pruned ids are ids whose fill
  had reached its height, all fills of orders that are not stateful scheduled for this height are
  among them, every other fill stays, the entries of this height leave the pruning store, and the
  invariant that every such fill is scheduled is kept.
\<close>

theorem PruneOrdersForBlockHeight_exact:
  assumes "scheduled s" "PruneOrdersForBlockHeight h s = (t, pruned)"
  shows "scheduled t \<and> GetPruneableOrdersStore t h = [] \<and>
    (\<forall>i. GetOrderFillAmount t i = (if i \<in> set pruned then (False, 0, 0) else GetOrderFillAmount s i)) \<and>
    (\<forall>i \<in> set pruned. \<exists>a p. GetOrderFillAmount s i = (True, a, p) \<and> p \<le> h) \<and>
    (\<forall>i a. GetOrderFillAmount s i = (True, a, h) \<longrightarrow> \<not> OrderId_IsStatefulOrder i \<longrightarrow> i \<in> set pruned)"
proof -
  note g = PruneOrders_get[OF assms] and ok = PruneOrders_scheduled[OF assms]
  have "fst ` set (GetPruneableOrdersStore t h) = {}" unfolding store_entries(3)[OF ok] using g(2) by auto
  then have 1: "GetPruneableOrdersStore t h = []" by simp
  have 2: "GetOrderFillAmount t i = (if i \<in> set pruned then (False, 0, 0) else GetOrderFillAmount s i)" for i
    using g(1)[of i] g(3) by (simp add: GetOrderFillAmount_def)
  have 3: "\<exists>a p. GetOrderFillAmount s i = (True, a, p) \<and> p \<le> h" if "i \<in> set pruned" for i
    using that g(3) by (auto simp: due_def GetOrderFillAmount_def split: option.splits)
  have 4: "i \<in> set pruned" if f: "GetOrderFillAmount s i = (True, a, h)" and i: "\<not> OrderId_IsStatefulOrder i" for i a
  proof -
    from f obtain f where "gm_get (os_OrderAmountFilled s) i = Some f" "of_PrunableBlockHeight f = h"
      by (auto simp: GetOrderFillAmount_Some)
    then have "gm_get (os_PrunableOrders s) (h, i) \<noteq> None" "due s h i"
      using assms(1) i unfolding scheduled_def due_def by auto
    then show ?thesis using g(3) by simp
  qed
  show ?thesis using ok 1 2 3 4 by blast
qed

definition ex_short :: Order where
  "ex_short = \<lparr>o_OrderId = \<lparr>oid_SubaccountId = \<lparr>sid_Owner = ''alice'', sid_Number = 0\<rparr>, oid_ClientId = 7,
       oid_OrderFlags = 0, oid_ClobPairId = 0\<rparr>, o_Side = SIDE_BUY, o_Quantums = 10, o_Subticks = 5,
     o_GoodTilOneof = GoodTilBlock 12, o_TimeInForce = TIME_IN_FORCE_UNSPECIFIED, o_ReduceOnly = False,
     o_ClientMetadata = 0, o_ConditionType = CONDITION_TYPE_UNSPECIFIED, o_ConditionalOrderTriggerSubticks = 0,
     o_TwapParameters = None, o_BuilderCodeParameters = None, o_OrderRouterAddress = []\<rparr>"

definition ex_fills :: order_state where
  "ex_fills = \<lparr>os_OrderAmountFilled = [], os_PrunableOrders = [], os_LegacyPrunableOrders = []\<rparr>"

lemma ex_fills_facts:
  "scheduled ex_fills" "\<not> Order_IsStatefulOrder ex_short"
  "getUpdatedOrderFillAmount (o_Quantums ex_short) 0 4 = Inr 4"
  "PruneOrdersForBlockHeight 52 (setOrderFillAmountsAndPruning ex_short 4 0 ex_fills) = (ex_fills, [o_OrderId ex_short])"
  "fills_run (setOrderFillAmountsAndPruning ex_short 4 0 ex_fills) 11
     (fst (PruneOrdersForBlockHeight 11 (setOrderFillAmountsAndPruning ex_short 4 0 ex_fills))) (11 + 1)"
proof -
  show "scheduled ex_fills" by (simp add: scheduled_def ex_fills_def)
  show "\<not> Order_IsStatefulOrder ex_short" by code_simp
  show "getUpdatedOrderFillAmount (o_Quantums ex_short) 0 4 = Inr 4" by code_simp
  show "PruneOrdersForBlockHeight 52 (setOrderFillAmountsAndPruning ex_short 4 0 ex_fills) = (ex_fills, [o_OrderId ex_short])"
    by code_simp
  show "fills_run (setOrderFillAmountsAndPruning ex_short 4 0 ex_fills) 11
     (fst (PruneOrdersForBlockHeight 11 (setOrderFillAmountsAndPruning ex_short 4 0 ex_fills))) (11 + 1)"
    by (rule fills_run.end_block[OF fills_run.start]) simp
qed

theorem fill_not_forgotten_witness:
  "\<exists>a p'. GetOrderFillAmount (fst (PruneOrdersForBlockHeight 11 (setOrderFillAmountsAndPruning ex_short 4 0 ex_fills)))
      (o_OrderId ex_short) = (True, a, p') \<and> 4 \<le> a \<and>
    (\<forall>sz q total. getUpdatedOrderFillAmount sz a q = Inr total \<longrightarrow> uint (4 :: uint64) + uint q \<le> uint sz)"
  by (rule fill_not_forgotten[OF ex_fills_facts(1,2,5)]) code_simp

theorem PruneOrdersForBlockHeight_exact_witness:
  "scheduled ex_fills \<and> GetOrderFillAmount ex_fills (o_OrderId ex_short) = (False, 0, 0)"
  using PruneOrdersForBlockHeight_exact[OF setOrderFillAmounts_scheduled[OF ex_fills_facts(1)] ex_fills_facts(4)]
  by simp

end
