(* ===== verification/StatefulOrders.thy ===== *)
theory StatefulOrders
  imports OrderState
begin

text \<open>
  Stateful orders of the \<^verbatim>\<open>x/clob\<close> keeper (\<^verbatim>\<open>stateful_order_state.go\<close>, \<^verbatim>\<open>uncommitted_stateful_order_state.go\<close>,
  \<^verbatim>\<open>stores.go\<close>, the store operations of \<^verbatim>\<open>twap_order_state.go\<close> and the delivered order ids of
  \<^verbatim>\<open>process_proposer_matches_events.go\<close>): long-term orders, conditional orders before and after their
  trigger, TWAP parents and the triggers of their suborders, expirations, the count of a
  subaccount's open stateful orders, and the uncommitted placements and cancellations of CheckTx.
  Each prefix store is a map keyed by order id, iterated in the order of the ids. Times are
  nanoseconds since the epoch, as in block time.
\<close>

section \<open>Definitions: stores\<close>

record TwapOrderPlacement =
  twp_Order :: Order
  twp_RemainingLegs :: uint32
  twp_RemainingQuantums :: uint64

record ProcessProposerMatchesEvents =
  ppme_ExpiredStatefulOrderIds :: "OrderId list"
  ppme_OrderIdsFilledInLastBlock :: "OrderId list"
  ppme_RemovedStatefulOrderIds :: "OrderId list"
  ppme_ConditionalOrderIdsTriggeredInLastBlock :: "OrderId list"
  ppme_BlockHeight :: uint32

record stateful_state =
  sf_LongTerm :: "(OrderId, LongTermOrderPlacement) gomap"
  sf_Untriggered :: "(OrderId, LongTermOrderPlacement) gomap"
  sf_Triggered :: "(OrderId, LongTermOrderPlacement) gomap"
  sf_Twap :: "(OrderId, TwapOrderPlacement) gomap"
  sf_TwapTriggers :: "(int64 \<times> OrderId, unit) gomap"
  sf_Expirations :: "(int \<times> OrderId, OrderId) gomap"
  sf_Counts :: "(SubaccountId, uint32) gomap"
  sf_NextTransactionIndex :: "uint32 option"
  sf_UncommittedPlacements :: "(OrderId, LongTermOrderPlacement) gomap"
  sf_UncommittedCancellations :: "(OrderId, MsgCancelOrder) gomap"
  sf_UncommittedCounts :: "(SubaccountId, int32) gomap"
  sf_DeliveredCancels :: "(OrderId, OrderId) gomap"
  sf_DeliveredLongTerm :: "OrderId list"
  sf_DeliveredConditional :: "OrderId list"
  sf_ProcessProposerMatchesEvents :: ProcessProposerMatchesEvents

datatype placement_store = LongTermStore | UntriggeredStore | TriggeredStore

definition IsConditionalOrderTriggered :: "stateful_state \<Rightarrow> OrderId \<Rightarrow> bool res" where
  "IsConditionalOrderTriggered s orderId =
     bindr (OrderId_MustBeConditionalOrder orderId) (\<lambda>_. Inr (gm_get (sf_Triggered s) orderId \<noteq> None))"

definition fetchStateStoresForOrder :: "stateful_state \<Rightarrow> OrderId \<Rightarrow> placement_store res" where
  "fetchStateStoresForOrder s orderId =
     bindr (OrderId_MustBeStatefulOrder orderId) (\<lambda>_.
       if OrderId_IsConditionalOrder orderId
       then bindr (IsConditionalOrderTriggered s orderId) (\<lambda>triggered.
              Inr (if triggered then TriggeredStore else UntriggeredStore))
       else if OrderId_IsLongTermOrder orderId \<or> OrderId_IsTwapSuborder orderId then Inr LongTermStore
       else Inl (Panic ''FetchStateStoresForOrder: orderId not supported''))"

definition placement_get :: "stateful_state \<Rightarrow> placement_store \<Rightarrow> (OrderId, LongTermOrderPlacement) gomap" where
  "placement_get s st =
     (case st of LongTermStore \<Rightarrow> sf_LongTerm s | UntriggeredStore \<Rightarrow> sf_Untriggered s | TriggeredStore \<Rightarrow> sf_Triggered s)"

definition placement_update ::
  "placement_store \<Rightarrow> ((OrderId, LongTermOrderPlacement) gomap \<Rightarrow> (OrderId, LongTermOrderPlacement) gomap)
     \<Rightarrow> stateful_state \<Rightarrow> stateful_state" where
  "placement_update st f s =
     (case st of
        LongTermStore \<Rightarrow> s\<lparr>sf_LongTerm := f (sf_LongTerm s)\<rparr>
      | UntriggeredStore \<Rightarrow> s\<lparr>sf_Untriggered := f (sf_Untriggered s)\<rparr>
      | TriggeredStore \<Rightarrow> s\<lparr>sf_Triggered := f (sf_Triggered s)\<rparr>)"

section \<open>Definitions: the count of open stateful orders\<close>

definition GetStatefulOrderCount :: "stateful_state \<Rightarrow> SubaccountId \<Rightarrow> uint32" where
  "GetStatefulOrderCount s subaccountId = (case gm_get (sf_Counts s) subaccountId of None \<Rightarrow> 0 | Some v \<Rightarrow> v)"

definition SetStatefulOrderCount :: "SubaccountId \<Rightarrow> uint32 \<Rightarrow> stateful_state \<Rightarrow> stateful_state" where
  "SetStatefulOrderCount subaccountId count s =
     (if count = 0 then s\<lparr>sf_Counts := gm_del subaccountId (sf_Counts s)\<rparr>
      else s\<lparr>sf_Counts := gm_set subaccountId count (sf_Counts s)\<rparr>)"

definition CheckAndIncrementStatefulOrderCount :: "OrderId \<Rightarrow> stateful_state \<Rightarrow> stateful_state" where
  "CheckAndIncrementStatefulOrderCount orderId s =
     (if OrderId_IsTwapSuborder orderId then s
      else let subaccountId = oid_SubaccountId orderId
           in SetStatefulOrderCount subaccountId (GetStatefulOrderCount s subaccountId + 1) s)"

definition CheckAndDecrementStatefulOrderCount :: "OrderId \<Rightarrow> stateful_state \<Rightarrow> stateful_state" where
  "CheckAndDecrementStatefulOrderCount orderId s =
     (if OrderId_IsTwapSuborder orderId then s
      else let subaccountId = oid_SubaccountId orderId; count = GetStatefulOrderCount s subaccountId
           in if count = 0 then s else SetStatefulOrderCount subaccountId (count - 1) s)"

section \<open>Definitions: long-term and conditional orders\<close>

definition GetNextStatefulOrderTransactionIndex :: "stateful_state \<Rightarrow> uint32 \<times> stateful_state" where
  "GetNextStatefulOrderTransactionIndex s =
     (let oldValue = (case sf_NextTransactionIndex s of None \<Rightarrow> 0 | Some v \<Rightarrow> v)
      in (oldValue, s\<lparr>sf_NextTransactionIndex := Some (oldValue + 1)\<rparr>))"

definition GetTriggeredConditionalOrderPlacement :: "stateful_state \<Rightarrow> OrderId \<Rightarrow> LongTermOrderPlacement option" where
  "GetTriggeredConditionalOrderPlacement s orderId = gm_get (sf_Triggered s) orderId"

definition GetUntriggeredConditionalOrderPlacement :: "stateful_state \<Rightarrow> OrderId \<Rightarrow> LongTermOrderPlacement option" where
  "GetUntriggeredConditionalOrderPlacement s orderId = gm_get (sf_Untriggered s) orderId"

definition GetLongTermOrderPlacement :: "stateful_state \<Rightarrow> OrderId \<Rightarrow> LongTermOrderPlacement option res" where
  "GetLongTermOrderPlacement s orderId =
     bindr (OrderId_MustBeStatefulOrder orderId) (\<lambda>_.
     bindr (fetchStateStoresForOrder s orderId) (\<lambda>st. Inr (gm_get (placement_get s st) orderId)))"

definition SetLongTermOrderPlacement :: "Order \<Rightarrow> uint32 \<Rightarrow> (stateful_state, unit) step" where
  "SetLongTermOrderPlacement ord blockHeight =
     bindM (liftM (\<lambda>_. OrderId_MustBeStatefulOrder (o_OrderId ord))) (\<lambda>_.
     bindM (liftM (\<lambda>s. GetLongTermOrderPlacement s (o_OrderId ord))) (\<lambda>found.
     bindM (\<lambda>s. case GetNextStatefulOrderTransactionIndex s of (i, s') \<Rightarrow> (Inr i, s')) (\<lambda>nextStatefulOrderTransactionIndex.
     let longTermOrderPlacement =
           \<lparr>lp_Order = ord,
            lp_PlacementIndex = \<lparr>to_BlockHeight = blockHeight, to_TransactionIndex = nextStatefulOrderTransactionIndex\<rparr>\<rparr>
     in bindM (liftM (\<lambda>s. fetchStateStoresForOrder s (o_OrderId ord))) (\<lambda>st.
        bindM (modifyM (placement_update st (gm_set (o_OrderId ord) longTermOrderPlacement))) (\<lambda>_.
          if found = None then modifyM (CheckAndIncrementStatefulOrderCount (o_OrderId ord)) else retM ())))))"

definition DeleteLongTermOrderPlacement :: "OrderId \<Rightarrow> (stateful_state, unit) step" where
  "DeleteLongTermOrderPlacement orderId =
     bindM (liftM (\<lambda>_. OrderId_MustBeStatefulOrder orderId)) (\<lambda>_.
     bindM (liftM (\<lambda>s. fetchStateStoresForOrder s orderId)) (\<lambda>st.
     bindM (liftM (\<lambda>s. Inr (gm_get (placement_get s st) orderId \<noteq> None))) (\<lambda>orderExists.
     bindM (modifyM (placement_update st (gm_del orderId))) (\<lambda>_.
       if orderExists then modifyM (CheckAndDecrementStatefulOrderCount orderId) else retM ()))))"

definition MustTriggerConditionalOrder :: "block_ctx \<Rightarrow> OrderId \<Rightarrow> (stateful_state, unit) step" where
  "MustTriggerConditionalOrder ctx orderId =
     bindM (liftM (\<lambda>_. OrderId_MustBeConditionalOrder orderId)) (\<lambda>_.
     bindM (liftM (\<lambda>_. MustConvertIntegerToUint32 (ctx_BlockHeight ctx))) (\<lambda>blockHeight.
     bindM (liftM (\<lambda>s. case gm_get (sf_Untriggered s) orderId of
              None \<Rightarrow> Inl (Panic ''MustTriggerConditionalOrder: conditional order Id does not exist in Untriggered state'')
            | Some p \<Rightarrow> Inr p)) (\<lambda>longTermOrderPlacement.
     bindM (\<lambda>s. case GetNextStatefulOrderTransactionIndex s of (i, s') \<Rightarrow> (Inr i, s')) (\<lambda>nextStatefulOrderTransactionIndex.
       let longTermOrderPlacement = longTermOrderPlacement
             \<lparr>lp_PlacementIndex := \<lparr>to_BlockHeight = blockHeight, to_TransactionIndex = nextStatefulOrderTransactionIndex\<rparr>\<rparr>
       in bindM (modifyM (placement_update TriggeredStore (gm_set orderId longTermOrderPlacement))) (\<lambda>_.
            modifyM (placement_update UntriggeredStore (gm_del orderId)))))))"

text \<open>
  \<^verbatim>\<open>sort.Sort\<close> with \<^verbatim>\<open>SortedLongTermOrderPlacements\<close>: ascending placement index. The comparison panics on
  two equal indexes, so the model does too.
\<close>

definition ordering_key :: "LongTermOrderPlacement \<Rightarrow> uint32 \<times> uint32" where
  "ordering_key p = (to_BlockHeight (lp_PlacementIndex p), to_TransactionIndex (lp_PlacementIndex p))"

definition getStatefulOrders :: "LongTermOrderPlacement list \<Rightarrow> Order list res" where
  "getStatefulOrders ps =
     (if \<not> distinct (map ordering_key ps) then Inl (Panic ''Less'')
      else Inr (map lp_Order (sort_key ordering_key ps)))"

definition GetAllStatefulOrders :: "stateful_state \<Rightarrow> Order list res" where
  "GetAllStatefulOrders s =
     getStatefulOrders (gm_vals (sf_LongTerm s) @ gm_vals (sf_Triggered s) @ gm_vals (sf_Untriggered s))"

definition GetAllPlacedStatefulOrders :: "stateful_state \<Rightarrow> Order list res" where
  "GetAllPlacedStatefulOrders s = getStatefulOrders (gm_vals (sf_LongTerm s) @ gm_vals (sf_Triggered s))"

definition GetAllUntriggeredConditionalOrders :: "stateful_state \<Rightarrow> Order list res" where
  "GetAllUntriggeredConditionalOrders s = getStatefulOrders (gm_vals (sf_Untriggered s))"

section \<open>Definitions: expirations\<close>

text \<open>\<^verbatim>\<open>time.Unix(t, 0)\<close> of a time in seconds.\<close>

definition from_unix :: "int \<Rightarrow> int" where "from_unix secs = secs * 10 ^ 9"

definition GetStatefulOrderIdExpirations :: "stateful_state \<Rightarrow> int \<Rightarrow> OrderId list" where
  "GetStatefulOrderIdExpirations s goodTilBlockTime =
     map snd (filter (\<lambda>((t, _), _). t = goodTilBlockTime) (sf_Expirations s))"

definition RemoveStatefulOrderIdExpiration :: "int \<Rightarrow> OrderId \<Rightarrow> stateful_state \<Rightarrow> stateful_state" where
  "RemoveStatefulOrderIdExpiration goodTilBlockTime orderId s =
     s\<lparr>sf_Expirations := gm_del (goodTilBlockTime, orderId) (sf_Expirations s)\<rparr>"

definition AddStatefulOrderIdExpiration :: "int \<Rightarrow> OrderId \<Rightarrow> stateful_state \<Rightarrow> stateful_state" where
  "AddStatefulOrderIdExpiration goodTilBlockTime orderId s =
     s\<lparr>sf_Expirations := gm_set (goodTilBlockTime, orderId) orderId (sf_Expirations s)\<rparr>"

text \<open>The iterator covers the keys whose time is at most the block time.\<close>

definition RemoveExpiredStatefulOrders :: "int \<Rightarrow> stateful_state \<Rightarrow> OrderId list \<times> stateful_state" where
  "RemoveExpiredStatefulOrders blockTime s =
     fold (\<lambda>(k, orderId) (expiredOrderIds, s).
            (expiredOrderIds @ [orderId], s\<lparr>sf_Expirations := gm_del k (sf_Expirations s)\<rparr>))
       (filter (\<lambda>((t, _), _). t \<le> blockTime) (sf_Expirations s)) ([], s)"

section \<open>Definitions: TWAP orders\<close>

definition twapToSuborderId :: "OrderId \<Rightarrow> OrderId" where
  "twapToSuborderId twapOrderId = twapOrderId\<lparr>oid_OrderFlags := OrderIdFlags_TwapSuborder\<rparr>"

definition parentTwapId :: "OrderId \<Rightarrow> OrderId" where
  "parentTwapId orderId = orderId\<lparr>oid_OrderFlags := OrderIdFlags_Twap\<rparr>"

definition TwapOrderPlacement_IsCompleted :: "TwapOrderPlacement \<Rightarrow> bool" where
  "TwapOrderPlacement_IsCompleted t \<longleftrightarrow> twp_RemainingLegs t = 0"

text \<open>\<^verbatim>\<open>ctx.BlockTime().Unix()\<close>: whole seconds, rounded down, as an \<^verbatim>\<open>int64\<close>.\<close>

definition block_unix :: "block_ctx \<Rightarrow> int64" where
  "block_unix ctx = word_of_int (ctx_BlockTime ctx div 10 ^ 9)"

definition AddSuborderToTriggerStore :: "block_ctx \<Rightarrow> OrderId \<Rightarrow> int64 \<Rightarrow> stateful_state \<Rightarrow> (int64 \<times> OrderId) \<times> stateful_state" where
  "AddSuborderToTriggerStore ctx suborderId triggerOffset s =
     (let triggerKey = (block_unix ctx + triggerOffset, suborderId)
      in (triggerKey, s\<lparr>sf_TwapTriggers := gm_set triggerKey () (sf_TwapTriggers s)\<rparr>))"

definition DeleteSuborderFromTriggerStore :: "int64 \<times> OrderId \<Rightarrow> stateful_state \<Rightarrow> stateful_state" where
  "DeleteSuborderFromTriggerStore triggerKey s = s\<lparr>sf_TwapTriggers := gm_del triggerKey (sf_TwapTriggers s)\<rparr>"

definition SetTWAPOrderPlacement :: "block_ctx \<Rightarrow> Order \<Rightarrow> (stateful_state, unit) step" where
  "SetTWAPOrderPlacement ctx ord =
     bindM (liftM (\<lambda>_. GetTotalLegsTWAPOrder ord)) (\<lambda>total_legs.
     bindM (modifyM (CheckAndIncrementStatefulOrderCount (o_OrderId ord))) (\<lambda>_.
     bindM (modifyM (\<lambda>s. s\<lparr>sf_Twap := gm_set (o_OrderId ord)
              \<lparr>twp_Order = ord, twp_RemainingLegs = total_legs, twp_RemainingQuantums = o_Quantums ord\<rparr> (sf_Twap s)\<rparr>)) (\<lambda>_.
       modifyM (\<lambda>s. snd (AddSuborderToTriggerStore ctx (twapToSuborderId (o_OrderId ord)) 0 s)))))"

definition GetTwapOrderPlacement :: "stateful_state \<Rightarrow> OrderId \<Rightarrow> TwapOrderPlacement option" where
  "GetTwapOrderPlacement s orderId = gm_get (sf_Twap s) orderId"

definition GetTwapTriggerPlacement :: "stateful_state \<Rightarrow> OrderId \<Rightarrow> (OrderId \<times> int64) option" where
  "GetTwapTriggerPlacement s orderId =
     map_option (\<lambda>((t, suborderId), _). (suborderId, t))
       (find (\<lambda>((_, suborderId), _). suborderId = orderId) (sf_TwapTriggers s))"

definition DeleteTWAPOrderPlacement :: "OrderId \<Rightarrow> stateful_state \<Rightarrow> stateful_state" where
  "DeleteTWAPOrderPlacement orderId s =
     (let s = CheckAndDecrementStatefulOrderCount orderId s
      in s\<lparr>sf_Twap := gm_del orderId (sf_Twap s)\<rparr>)"

definition DecrementTwapOrderRemainingLegs :: "TwapOrderPlacement \<Rightarrow> stateful_state \<Rightarrow> stateful_state" where
  "DecrementTwapOrderRemainingLegs twapOrderPlacement s =
     (if TwapOrderPlacement_IsCompleted twapOrderPlacement then s
      else s\<lparr>sf_Twap := gm_set (o_OrderId (twp_Order twapOrderPlacement))
               (twapOrderPlacement\<lparr>twp_RemainingLegs := twp_RemainingLegs twapOrderPlacement - 1\<rparr>) (sf_Twap s)\<rparr>)"

definition UpdateTWAPOrderRemainingQuantityOnFill :: "OrderId \<Rightarrow> uint64 \<Rightarrow> (stateful_state, unit) step" where
  "UpdateTWAPOrderRemainingQuantityOnFill parentOrderId filledQuantums =
     bindM (liftM (\<lambda>s. case GetTwapOrderPlacement s parentOrderId of
              None \<Rightarrow> Inl (Err ''ErrInvalidTwapOrderPlacement'') | Some p \<Rightarrow> Inr p)) (\<lambda>twapOrderPlacement.
       modifyM (\<lambda>s. s\<lparr>sf_Twap := gm_set parentOrderId
         (twapOrderPlacement\<lparr>twp_RemainingQuantums := twp_RemainingQuantums twapOrderPlacement - filledQuantums\<rparr>)
         (sf_Twap s)\<rparr>))"

definition checkAndUpdateTWAPOrderRemainingQuantity :: "OrderId \<Rightarrow> uint64 \<Rightarrow> (stateful_state, unit) step" where
  "checkAndUpdateTWAPOrderRemainingQuantity orderId fillAmount =
     (if OrderId_IsTwapSuborder orderId
      then UpdateTWAPOrderRemainingQuantityOnFill (parentTwapId orderId) fillAmount else retM ())"

definition TWAP_MAX_SUBORDER_CATCHUP_MULTIPLE :: int where
  "TWAP_MAX_SUBORDER_CATCHUP_MULTIPLE = 3"

definition TWAP_SUBORDER_GOOD_TIL_BLOCK_TIME_OFFSET :: int64 where
  "TWAP_SUBORDER_GOOD_TIL_BLOCK_TIME_OFFSET = 3"

definition calculateSuborderQuantums :: "TwapOrderPlacement \<Rightarrow> ClobPair \<Rightarrow> uint64 res" where
  "calculateSuborderQuantums p clobPair =
     bindr (GetTotalLegsTWAPOrder (twp_Order p)) (\<lambda>totalLegs.
     bindr (BigDivCeil (uint (o_Quantums (twp_Order p))) (uint totalLegs)) (\<lambda>originalQuantumsPerLeg.
     bindr (BigDivCeil (uint (twp_RemainingQuantums p)) (uint (twp_RemainingLegs p))) (\<lambda>remainingQuantumsPerLeg.
       let maxSuborderSize = originalQuantumsPerLeg * TWAP_MAX_SUBORDER_CATCHUP_MULTIPLE;
           suborderQuantums = BigMin remainingQuantumsPerLeg maxSuborderSize
       in bindr (BigDivFloor suborderQuantums (uint (cp_StepBaseQuantums clobPair))) (\<lambda>quantumsByStepBaseQuantums.
            if word_of_int quantumsByStepBaseQuantums = (0 :: uint64) then Inr 0
            else Inr (word_of_int (quantumsByStepBaseQuantums * uint (cp_StepBaseQuantums clobPair)))))))"

section \<open>Definitions: uncommitted orders and delivered order ids\<close>

definition GetUncommittedStatefulOrderPlacement :: "stateful_state \<Rightarrow> OrderId \<Rightarrow> LongTermOrderPlacement option res" where
  "GetUncommittedStatefulOrderPlacement s orderId =
     bindr (OrderId_MustBeStatefulOrder orderId) (\<lambda>_. Inr (gm_get (sf_UncommittedPlacements s) orderId))"

definition GetUncommittedStatefulOrderCancellation :: "stateful_state \<Rightarrow> OrderId \<Rightarrow> MsgCancelOrder option res" where
  "GetUncommittedStatefulOrderCancellation s orderId =
     bindr (OrderId_MustBeStatefulOrder orderId) (\<lambda>_. Inr (gm_get (sf_UncommittedCancellations s) orderId))"

text \<open>The argument is whether the context is in CheckTx mode, which the count's store asserts.\<close>

definition AssertCheckTx :: "bool \<Rightarrow> unit res" where
  "AssertCheckTx isCheckTx = (if isCheckTx then Inr () else Inl (Panic ''assert checkTx mode failed''))"

definition GetUncommittedStatefulOrderCount :: "bool \<Rightarrow> stateful_state \<Rightarrow> OrderId \<Rightarrow> int32 res" where
  "GetUncommittedStatefulOrderCount isCheckTx s orderId =
     bindr (OrderId_MustBeStatefulOrder orderId) (\<lambda>_.
     bindr (AssertCheckTx isCheckTx) (\<lambda>_.
       Inr (case gm_get (sf_UncommittedCounts s) (oid_SubaccountId orderId) of None \<Rightarrow> 0 | Some v \<Rightarrow> v)))"

definition SetUncommittedStatefulOrderCount :: "bool \<Rightarrow> OrderId \<Rightarrow> int32 \<Rightarrow> (stateful_state, unit) step" where
  "SetUncommittedStatefulOrderCount isCheckTx orderId count =
     bindM (liftM (\<lambda>_. OrderId_MustBeStatefulOrder orderId)) (\<lambda>_.
     bindM (liftM (\<lambda>_. AssertCheckTx isCheckTx)) (\<lambda>_.
       modifyM (\<lambda>s. s\<lparr>sf_UncommittedCounts := gm_set (oid_SubaccountId orderId) count (sf_UncommittedCounts s)\<rparr>)))"

definition MustAddUncommittedStatefulOrderPlacement :: "bool \<Rightarrow> Order \<Rightarrow> (stateful_state, unit) step" where
  "MustAddUncommittedStatefulOrderPlacement isCheckTx ord =
     bindM (liftM (\<lambda>_. AssertCheckTx isCheckTx)) (\<lambda>_.
     let orderId = o_OrderId ord
     in bindM (liftM (\<lambda>_. OrderId_MustBeStatefulOrder orderId)) (\<lambda>_.
        bindM (liftM (\<lambda>s. GetUncommittedStatefulOrderPlacement s orderId)) (\<lambda>existing.
          if existing \<noteq> None
          then failM (Panic ''MustAddUncommittedStatefulOrderPlacement: order already exists'')
          else bindM (modifyM (\<lambda>s. s\<lparr>sf_UncommittedPlacements := gm_set orderId
                   \<lparr>lp_Order = ord, lp_PlacementIndex = \<lparr>to_BlockHeight = 0, to_TransactionIndex = 0\<rparr>\<rparr>
                   (sf_UncommittedPlacements s)\<rparr>)) (\<lambda>_.
               bindM (liftM (\<lambda>s. GetUncommittedStatefulOrderCount isCheckTx s orderId)) (\<lambda>n.
                 SetUncommittedStatefulOrderCount isCheckTx orderId (n + 1))))))"

definition MustAddUncommittedStatefulOrderCancellation :: "bool \<Rightarrow> MsgCancelOrder \<Rightarrow> (stateful_state, unit) step" where
  "MustAddUncommittedStatefulOrderCancellation isCheckTx msg =
     bindM (liftM (\<lambda>_. AssertCheckTx isCheckTx)) (\<lambda>_.
     let orderId = mc_OrderId msg
     in bindM (liftM (\<lambda>_. OrderId_MustBeStatefulOrder orderId)) (\<lambda>_.
        bindM (liftM (\<lambda>s. GetUncommittedStatefulOrderCancellation s orderId)) (\<lambda>existing.
          if existing \<noteq> None
          then failM (Panic ''MustAddUncommittedStatefulOrderPlacement: order cancellation already exists'')
          else bindM (modifyM (\<lambda>s. s\<lparr>sf_UncommittedCancellations := gm_set orderId msg (sf_UncommittedCancellations s)\<rparr>)) (\<lambda>_.
               bindM (liftM (\<lambda>s. GetUncommittedStatefulOrderCount isCheckTx s orderId)) (\<lambda>n.
                 SetUncommittedStatefulOrderCount isCheckTx orderId (n - 1))))))"

text \<open>
  The ordered delivered ids are appended under increasing indexes; the store is read in index
  order, so it is the list of ids. The index overflows at \<open>2 ^ 32 - 1\<close>.
\<close>

definition AppendOrderedOrderId :: "OrderId \<Rightarrow> OrderId list \<Rightarrow> OrderId list res" where
  "AppendOrderedOrderId orderId ids =
     (if length ids = 2 ^ 32 - 1 then Inl (Panic ''store key index overflow'') else Inr (ids @ [orderId]))"

definition AddDeliveredLongTermOrderId :: "OrderId \<Rightarrow> (stateful_state, unit) step" where
  "AddDeliveredLongTermOrderId orderId =
     bindM (liftM (\<lambda>s. AppendOrderedOrderId orderId (sf_DeliveredLongTerm s))) (\<lambda>ids.
       modifyM (\<lambda>s. s\<lparr>sf_DeliveredLongTerm := ids\<rparr>))"

definition AddDeliveredConditionalOrderId :: "OrderId \<Rightarrow> (stateful_state, unit) step" where
  "AddDeliveredConditionalOrderId orderId =
     bindM (liftM (\<lambda>s. AppendOrderedOrderId orderId (sf_DeliveredConditional s))) (\<lambda>ids.
       modifyM (\<lambda>s. s\<lparr>sf_DeliveredConditional := ids\<rparr>))"

definition AddDeliveredCancelledOrderId :: "OrderId \<Rightarrow> stateful_state \<Rightarrow> stateful_state" where
  "AddDeliveredCancelledOrderId orderId s = s\<lparr>sf_DeliveredCancels := gm_set orderId orderId (sf_DeliveredCancels s)\<rparr>"

definition HasDeliveredCancelledOrderId :: "stateful_state \<Rightarrow> OrderId \<Rightarrow> bool" where
  "HasDeliveredCancelledOrderId s orderId \<longleftrightarrow> gm_get (sf_DeliveredCancels s) orderId \<noteq> None"

definition ResetAllDeliveredOrderIds :: "stateful_state \<Rightarrow> stateful_state" where
  "ResetAllDeliveredOrderIds s =
     s\<lparr>sf_DeliveredCancels := [], sf_DeliveredLongTerm := [], sf_DeliveredConditional := []\<rparr>"

text \<open>
  The deprecated fields of \<^verbatim>\<open>ProcessProposerMatchesEvents\<close> are never set and are left out.
\<close>

definition ValidateProcessProposerMatchesEvents :: "block_ctx \<Rightarrow> ProcessProposerMatchesEvents \<Rightarrow> unit res" where
  "ValidateProcessProposerMatchesEvents ctx ppme =
     (if ctx_BlockHeight ctx \<noteq> ucast (ppme_BlockHeight ppme) then Inl (Err ''block height does not equal current block height'')
      else if \<not> distinct (ppme_ExpiredStatefulOrderIds ppme) then Inl (Err ''duplicate ExpiredStatefulOrderIds'')
      else if \<not> distinct (ppme_OrderIdsFilledInLastBlock ppme) then Inl (Err ''duplicate OrderIdsFilledInLastBlock'')
      else if \<not> distinct (ppme_RemovedStatefulOrderIds ppme) then Inl (Err ''duplicate RemovedStatefulOrderIds'')
      else if \<not> distinct (ppme_ConditionalOrderIdsTriggeredInLastBlock ppme)
      then Inl (Err ''duplicate ConditionalOrderIdsTriggeredInLastBlock'')
      else Inr ())"

definition MustSetProcessProposerMatchesEvents ::
  "bool \<Rightarrow> block_ctx \<Rightarrow> ProcessProposerMatchesEvents \<Rightarrow> (stateful_state, unit) step" where
  "MustSetProcessProposerMatchesEvents isCheckTx ctx ppme =
     bindM (liftM (\<lambda>_. if isCheckTx then Inl (Panic ''assert deliverTx mode failed'') else Inr ())) (\<lambda>_.
     bindM (liftM (\<lambda>_. case ValidateProcessProposerMatchesEvents ctx ppme of Inl (Err n) \<Rightarrow> Inl (Panic n) | r \<Rightarrow> r)) (\<lambda>_.
       modifyM (\<lambda>s. s\<lparr>sf_ProcessProposerMatchesEvents := ppme\<rparr>)))"

definition InitializeProcessProposerMatchesEvents :: "stateful_state \<Rightarrow> stateful_state" where
  "InitializeProcessProposerMatchesEvents s =
     s\<lparr>sf_ProcessProposerMatchesEvents :=
        \<lparr>ppme_ExpiredStatefulOrderIds = [], ppme_OrderIdsFilledInLastBlock = [], ppme_RemovedStatefulOrderIds = [],
         ppme_ConditionalOrderIdsTriggeredInLastBlock = [], ppme_BlockHeight = 1\<rparr>\<rparr>"

section \<open>The size of a TWAP suborder\<close>

text \<open>
  C27: A TWAP order never sells more than it has. While legs remain, the size of the next suborder is
  computed without panic or wrap-around; it is a multiple of the step size, no larger than the
  remaining quantums and at most three times the size of an even leg, and it is the largest such multiple
  below the even share of what remains, so a last leg within the cap is rounded down by less than a step.
\<close>

theorem twap_suborder_size:
  assumes legs: "GetTotalLegsTWAPOrder (twp_Order p) = Inr n" "n \<noteq> 0" and left: "\<not> TwapOrderPlacement_IsCompleted p"
    and step: "cp_StepBaseQuantums clobPair \<noteq> 0"
  shows "\<exists>q share. calculateSuborderQuantums p clobPair = Inr q \<and>
    share = min (ceiling (of_int (uint (twp_RemainingQuantums p)) / of_int (uint (twp_RemainingLegs p)) :: rat))
                (3 * ceiling (of_int (uint (o_Quantums (twp_Order p))) / of_int (uint n) :: rat)) \<and>
    uint (cp_StepBaseQuantums clobPair) dvd uint q \<and> uint q \<le> uint (twp_RemainingQuantums p) \<and>
    uint q \<le> share \<and> share < uint q + uint (cp_StepBaseQuantums clobPair)"
proof -
  let ?step = "uint (cp_StepBaseQuantums clobPair)" and ?rem = "uint (twp_RemainingQuantums p)"
  let ?A = "ceiling (of_int ?rem / of_int (uint (twp_RemainingLegs p)) :: rat)"
  let ?B = "ceiling (of_int (uint (o_Quantums (twp_Order p))) / of_int (uint n) :: rat)"
  define share where "share = min ?A (3 * ?B)"
  have pos: "0 < ?step" "0 < uint (twp_RemainingLegs p)" "0 < uint n"
    using step left legs(2) by (simp_all add: TwapOrderPlacement_IsCompleted_def uint_gt_0_iff)
  have A: "0 \<le> ?A" "?A \<le> ?rem" using ceil_div_bounds[OF uint_ge_0 pos(2)] by blast+
  have B: "0 \<le> ?B" using ceil_div_bounds[OF uint_ge_0 pos(3)] by blast
  have sh: "0 \<le> share" "share \<le> ?rem" using A B unfolding share_def by linarith+
  define k where "k = share div ?step"
  have ks: "0 \<le> k" "k * ?step \<le> share" "share < k * ?step + ?step"
    using sh(1) pos(1) div_step[OF pos(1), of share] by (simp_all add: k_def pos_imp_zdiv_nonneg_iff)
  have k64: "k < 2 ^ 64" "k * ?step < 2 ^ 64"
  proof -
    have "?rem < 2 ^ 64" using uint_lt2p[of "twp_RemainingQuantums p"] by simp
    then show b: "k * ?step < 2 ^ 64" using ks(2) sh(2) by linarith
    have "k * 1 \<le> k * ?step" using ks(1) pos(1) by (intro mult_left_mono) simp_all
    with b show "k < 2 ^ 64" by linarith
  qed
  have run: "calculateSuborderQuantums p clobPair =
      (if word_of_int k = (0 :: uint64) then Inr 0 else Inr (word_of_int (k * ?step)))"
    using legs pos by (simp add: calculateSuborderQuantums_def BigDivCeil_ceiling BigDivFloor_eq BigMinMax_eq Let_def k_def share_def
        TWAP_MAX_SUBORDER_CATCHUP_MULTIPLE_def mult.commute)
  have u: "uint (word_of_int x :: uint64) = x" if "0 \<le> x" "x < 2 ^ 64" for x
    using that by (simp add: uint_word_of_int)
  have "\<exists>q. calculateSuborderQuantums p clobPair = Inr q \<and> uint q = k * ?step"
  proof (cases "k = 0")
    case True
    then show ?thesis using run by simp
  next
    case False
    then have "word_of_int k \<noteq> (0 :: uint64)" using u[OF ks(1) k64(1)] by (metis unsigned_0)
    then show ?thesis using run u[of "k * ?step"] ks(1) pos(1) k64(2) by simp
  qed
  then obtain q where q: "calculateSuborderQuantums p clobPair = Inr q" "uint q = k * ?step" by blast
  then show ?thesis using ks sh(2) by (intro exI[of _ q] exI[of _ share]) (auto simp: share_def)
qed

definition ex_twap :: TwapOrderPlacement where
  "ex_twap = \<lparr>twp_Order = ex_short\<lparr>o_OrderId := (o_OrderId ex_short)\<lparr>oid_OrderFlags := OrderIdFlags_Twap\<rparr>,
       o_Quantums := 100, o_TwapParameters := Some \<lparr>tw_Duration = 300, tw_Interval = 30, tw_PriceTolerance = 0\<rparr>\<rparr>,
     twp_RemainingLegs = 3, twp_RemainingQuantums = 95\<rparr>"

definition ex_pair :: ClobPair where
  "ex_pair = \<lparr>cp_Id = 0, cp_Metadata = PerpetualClobMetadata 0, cp_StepBaseQuantums = 4, cp_SubticksPerTick = 1,
     cp_QuantumConversionExponent = -9, cp_Status = STATUS_ACTIVE\<rparr>"

theorem twap_suborder_size_witness:
  "\<exists>q. calculateSuborderQuantums ex_twap ex_pair = Inr q \<and> 4 dvd uint q \<and> uint q \<le> 95"
proof -
  have "GetTotalLegsTWAPOrder (twp_Order ex_twap) = Inr 10" by code_simp
  moreover have "\<not> TwapOrderPlacement_IsCompleted ex_twap" by code_simp
  ultimately show ?thesis
    using twap_suborder_size[of ex_twap 10 ex_pair]
    by (auto simp: ex_twap_def ex_pair_def)
qed

end
