(* ===== verification/ClobPairs.thy ===== *)
theory ClobPairs
  imports Rewards StatefulOrders MemClob
begin

text \<open>
  The state of the \<^verbatim>\<open>x/clob\<close> keeper and the keeper's CLOB pairs (\<^verbatim>\<open>clob_pair.go\<close>, \<^verbatim>\<open>final_settlement.go\<close> uses
  them). The record \<open>clob_state\<close> holds the keeper's own stores and those of the keepers it calls;
  it is the store that the in-memory order book (\<^verbatim>\<open>MemClob\<close>) runs on, so that an operation that also
  touches the book is a step on \<open>'b clob_state MemClob\<close>. Indexer events, metrics and logs are left out.
\<close>

section \<open>Definitions: the state of the keeper\<close>

record EquityTierLimit =
  et_UsdTncRequired :: int
  et_Limit :: uint32

record 'b clob_state =
  c_sub :: "'b keeper_state"
  c_clobPairs :: "(uint32, ClobPair) gomap"
  c_nextClobPairId :: uint32
  c_perpToClob :: "(uint32, uint32 list) gomap"
  c_staged :: "ClobPair list"
  c_orders :: order_state
  c_stateful :: stateful_state
  c_trades :: trade_prices
  c_liqInfos :: liquidation_infos
  c_liqConfig :: "LiquidationsConfig option"
  c_equityTiers :: "EquityTierLimit list option"
  c_stats :: stats_store
  c_fees :: fee_store
  c_affiliates :: affiliate_store
  c_revshare :: revshare_store
  c_rewards :: rewards_store
  c_checkTx :: bool

text \<open>
  The parameters: the SDK, the staking module, the addresses of vaults, the encoder of addresses,
  the order hash and \<^verbatim>\<open>rand.Intn\<close> of the generator seeded with the previous block time.
\<close>

record ('b, 'd, 'v) clob_env =
  e_sdk :: "'b sdk"
  e_staking :: "('d, 'v) staking"
  e_toBech32 :: "string \<Rightarrow> string"
  e_vaults :: "string set"
  e_orderHash :: "Order \<Rightarrow> OrderHash"
  e_liquidationHash :: "LiquidationOrder \<Rightarrow> OrderHash"
  e_Intn :: "int \<Rightarrow> nat \<Rightarrow> nat"

definition on_sub :: "('b keeper_state, 'a) step \<Rightarrow> ('b clob_state, 'a) step" where
  "on_sub m s = (case m (c_sub s) of (r, k) \<Rightarrow> (r, s\<lparr>c_sub := k\<rparr>))"

definition on_stateful :: "(stateful_state, 'a) step \<Rightarrow> ('b clob_state, 'a) step" where
  "on_stateful m s = (case m (c_stateful s) of (r, k) \<Rightarrow> (r, s\<lparr>c_stateful := k\<rparr>))"

definition on_stats :: "(stats_store, 'a) step \<Rightarrow> ('b clob_state, 'a) step" where
  "on_stats m s = (case m (c_stats s) of (r, k) \<Rightarrow> (r, s\<lparr>c_stats := k\<rparr>))"

definition IsDeliverTxMode :: "'b clob_state \<Rightarrow> bool" where
  "IsDeliverTxMode s \<longleftrightarrow> \<not> c_checkTx s"

definition AssertDeliverTxMode :: "'b clob_state \<Rightarrow> unit res" where
  "AssertDeliverTxMode s = (if IsDeliverTxMode s then Inr () else Inl (Panic ''assert deliverTx mode failed''))"

section \<open>Definitions: reading CLOB pairs\<close>

definition GetClobPair :: "'b clob_state \<Rightarrow> uint32 \<Rightarrow> ClobPair option" where
  "GetClobPair s i = gm_get (c_clobPairs s) i"

definition mustGetClobPair :: "'b clob_state \<Rightarrow> uint32 \<Rightarrow> ClobPair res" where
  "mustGetClobPair s clobPairId =
     (case GetClobPair s clobPairId of
        None \<Rightarrow> Inl (Panic ''mustGetClobPair: ClobPair not found'') | Some clobPair \<Rightarrow> Inr clobPair)"

definition GetClobPairIdForPerpetual :: "'b clob_state \<Rightarrow> uint32 \<Rightarrow> uint32 res" where
  "GetClobPairIdForPerpetual s perpetualId =
     (case gm_get (c_perpToClob s) perpetualId of
        None \<Rightarrow> Inl (Err ''ErrNoClobPairForPerpetual'')
      | Some clobPairIds \<Rightarrow>
          if length clobPairIds = 0
          then Inl (Panic ''GetClobPairIdForPerpetual: Perpetual ID was created without a CLOB pair ID.'')
          else if length clobPairIds > 1
          then Inl (Panic ''GetClobPairIdForPerpetual: Perpetual ID was created with multiple CLOB pair IDs.'')
          else Inr (hd clobPairIds))"

definition mustGetClobPairForPerpetualId :: "'b clob_state \<Rightarrow> uint32 \<Rightarrow> ClobPair res" where
  "mustGetClobPairForPerpetualId s perpetualId =
     bindr (must (GetClobPairIdForPerpetual s perpetualId)) (mustGetClobPair s)"

definition GetAllClobPairs :: "'b clob_state \<Rightarrow> ClobPair list" where
  "GetAllClobPairs s = sort_key cp_Id (gm_vals (c_clobPairs s))"

definition IsPerpetualClobPairActive :: "'b clob_state \<Rightarrow> uint32 \<Rightarrow> bool res" where
  "IsPerpetualClobPairActive s perpetualId =
     bindr (GetClobPairIdForPerpetual s perpetualId) (\<lambda>clobPairId.
       case GetClobPair s clobPairId of
         None \<Rightarrow> Inl (Err ''ErrInvalidClob'') | Some clobPair \<Rightarrow> Inr (cp_Status clobPair = STATUS_ACTIVE))"

definition GetOraclePriceSubticksRat :: "'b clob_state \<Rightarrow> ClobPair \<Rightarrow> rat res" where
  "GetOraclePriceSubticksRat s clobPair =
     bindr (ClobPair_MustGetPerpetualId clobPair) (\<lambda>perpetualId.
     bindr (must (GetPerpetualAndMarketPrice (ks_perps (c_sub s)) perpetualId)) (\<lambda>(perpetual, marketPrice).
       let oraclePriceSubticksRat = PriceToSubticks marketPrice clobPair
             (pp_AtomicResolution (p_Params perpetual)) QuoteCurrencyAtomicResolution
       in if oraclePriceSubticksRat = 0 then Inl (Panic ''ErrZeroPriceForOracle'')
          else Inr oraclePriceSubticksRat))"

section \<open>Definitions: creating CLOB pairs\<close>

definition SetClobPair :: "ClobPair \<Rightarrow> 'b clob_state \<Rightarrow> 'b clob_state" where
  "SetClobPair clobPair s = s\<lparr>c_clobPairs := gm_set (cp_Id clobPair) clobPair (c_clobPairs s)\<rparr>"

definition RemoveClobPair :: "uint32 \<Rightarrow> 'b clob_state \<Rightarrow> 'b clob_state" where
  "RemoveClobPair i s = s\<lparr>c_clobPairs := gm_del i (c_clobPairs s)\<rparr>"

definition SetClobPairIdForPerpetual :: "ClobPair \<Rightarrow> 'b clob_state \<Rightarrow> 'b clob_state" where
  "SetClobPairIdForPerpetual clobPair s =
     (case cp_Metadata clobPair of
        PerpetualClobMetadata perpetualId \<Rightarrow>
          let clobPairIds = (case gm_get (c_perpToClob s) perpetualId of None \<Rightarrow> [] | Some ids \<Rightarrow> ids)
          in if cp_Id clobPair \<in> set clobPairIds then s
             else s\<lparr>c_perpToClob := gm_set perpetualId (clobPairIds @ [cp_Id clobPair]) (c_perpToClob s)\<rparr>
      | _ \<Rightarrow> s)"

definition HydrateClobPairAndPerpetualMapping :: "'b clob_state \<Rightarrow> 'b clob_state" where
  "HydrateClobPairAndPerpetualMapping s = fold SetClobPairIdForPerpetual (GetAllClobPairs s) s"

definition validateClobPair :: "'b clob_state \<Rightarrow> ClobPair \<Rightarrow> unit res" where
  "validateClobPair s clobPair =
     bindr (ClobPair_Validate clobPair) (\<lambda>_.
       case cp_Metadata clobPair of
         PerpetualClobMetadata _ \<Rightarrow>
           bindr (ClobPair_GetPerpetualId clobPair) (\<lambda>perpetualId.
           bindr (GetPerpetual (ks_perps (c_sub s)) perpetualId) (\<lambda>_. Inr ()))
       | _ \<Rightarrow> Inl (Err ''ErrInvalidClobPairParameter''))"

definition ValidateClobPairCreation :: "'b clob_state \<Rightarrow> ClobPair \<Rightarrow> unit res" where
  "ValidateClobPairCreation s clobPair =
     (if GetClobPair s (cp_Id clobPair) \<noteq> None then Inl (Err ''ErrClobPairAlreadyExists'')
      else (case ClobPair_GetPerpetualId clobPair of
              Inl _ \<Rightarrow> Inl (Err ''ErrInvalidClobPairParameter'')
            | Inr perpetualId \<Rightarrow>
                if gm_get (c_perpToClob s) perpetualId \<noteq> None
                then Inl (Err ''ErrPerpetualAssociatedWithExistingClobPair'')
                else validateClobPair s clobPair))"

definition createPerpetualClobPair :: "ClobPair \<Rightarrow> ('b clob_state, ClobPair) step" where
  "createPerpetualClobPair clobPair =
     bindM (liftM (\<lambda>s. ValidateClobPairCreation s clobPair)) (\<lambda>_.
     bindM (modifyM (SetClobPair clobPair)) (\<lambda>_.
     bindM (liftM (\<lambda>_. must (ClobPair_GetPerpetualId clobPair))) (\<lambda>perpetualId.
     bindM (liftM (\<lambda>s. GetPerpetual (ks_perps (c_sub s)) perpetualId)) (\<lambda>_. retM clobPair))))"

definition StageNewClobPairSideEffects :: "ClobPair \<Rightarrow> ('b clob_state, unit) step" where
  "StageNewClobPairSideEffects clobPair =
     bindM (liftM AssertDeliverTxMode) (\<lambda>_. modifyM (\<lambda>s. s\<lparr>c_staged := c_staged s @ [clobPair]\<rparr>))"

text \<open>The arguments of the Go function are the fields of the perpetual CLOB pair it builds.\<close>

definition new_clob_pair :: "uint32 \<Rightarrow> uint32 \<Rightarrow> uint64 \<Rightarrow> int32 \<Rightarrow> uint32 \<Rightarrow> ClobPair_Status \<Rightarrow> ClobPair" where
  "new_clob_pair clobPairId perpetualId stepSizeBaseQuantums quantumConversionExponent subticksPerTick status =
     \<lparr>cp_Id = clobPairId, cp_Metadata = PerpetualClobMetadata perpetualId, cp_StepBaseQuantums = stepSizeBaseQuantums,
      cp_SubticksPerTick = subticksPerTick, cp_QuantumConversionExponent = quantumConversionExponent, cp_Status = status\<rparr>"

definition CreatePerpetualClobPair ::
  "uint32 \<Rightarrow> uint32 \<Rightarrow> uint64 \<Rightarrow> int32 \<Rightarrow> uint32 \<Rightarrow> ClobPair_Status \<Rightarrow> ('b clob_state, ClobPair) step" where
  "CreatePerpetualClobPair clobPairId perpetualId stepSizeBaseQuantums quantumConversionExponent subticksPerTick status =
     bindM (createPerpetualClobPair
              (new_clob_pair clobPairId perpetualId stepSizeBaseQuantums quantumConversionExponent subticksPerTick status)) (\<lambda>clobPair.
     bindM (readM IsDeliverTxMode) (\<lambda>deliver.
     bindM (whenM deliver (StageNewClobPairSideEffects clobPair)) (\<lambda>_. retM clobPair)))"

definition CreatePerpetualClobPairAndMemStructs ::
  "uint32 \<Rightarrow> uint32 \<Rightarrow> uint64 \<Rightarrow> int32 \<Rightarrow> uint32 \<Rightarrow> ClobPair_Status \<Rightarrow> ('b clob_state MemClob, ClobPair) step" where
  "CreatePerpetualClobPairAndMemStructs clobPairId perpetualId stepSizeBaseQuantums quantumConversionExponent subticksPerTick status =
     bindM (on_store (createPerpetualClobPair
              (new_clob_pair clobPairId perpetualId stepSizeBaseQuantums quantumConversionExponent subticksPerTick status))) (\<lambda>clobPair.
     bindM (CreateOrderbook clobPair) (\<lambda>_.
     bindM (on_store (modifyM (SetClobPairIdForPerpetual clobPair))) (\<lambda>_. retM clobPair)))"

definition ApplySideEffectsForNewClobPair :: "ClobPair \<Rightarrow> ('b clob_state MemClob, unit) step" where
  "ApplySideEffectsForNewClobPair clobPair =
     bindM (MaybeCreateOrderbook clobPair) (\<lambda>created.
       whenM created (on_store (modifyM (SetClobPairIdForPerpetual clobPair))))"

definition InitMemClobOrderbooks :: "('b clob_state MemClob, unit) step" where
  "InitMemClobOrderbooks =
     bindM (readM (\<lambda>m. GetAllClobPairs (mc_store m))) (\<lambda>clobPairs.
       forM (\<lambda>clobPair. bindM (MaybeCreateOrderbook clobPair) (\<lambda>_. retM ())) clobPairs)"

definition SetNextClobPairID :: "uint32 \<Rightarrow> 'b clob_state \<Rightarrow> 'b clob_state" where
  "SetNextClobPairID nextID s = s\<lparr>c_nextClobPairId := nextID\<rparr>"

text \<open>The search for a free id: at most \<^verbatim>\<open>maxAttempts\<close> increments, then a panic.\<close>

fun free_clob_pair_id :: "nat \<Rightarrow> 'b clob_state \<Rightarrow> uint32 \<Rightarrow> uint32 res" where
  "free_clob_pair_id attempts s nextID =
     (if GetClobPair s nextID = None then Inr nextID
      else (case attempts of
              0 \<Rightarrow> Inl (Panic ''Exceeded maximum attempts to find a unique clob pair id'')
            | Suc 0 \<Rightarrow> Inl (Panic ''Exceeded maximum attempts to find a unique clob pair id'')
            | Suc n \<Rightarrow> free_clob_pair_id n s (nextID + 1)))"

definition AcquireNextClobPairID :: "('b clob_state, uint32) step" where
  "AcquireNextClobPairID =
     bindM (liftM (\<lambda>s. free_clob_pair_id 1000 s (c_nextClobPairId s))) (\<lambda>nextID.
     bindM (modifyM (SetNextClobPairID (nextID + 1))) (\<lambda>_. retM nextID))"

section \<open>Definitions: orders and operations against the status of a CLOB pair\<close>

definition validateLiquidationAgainstClobPairStatus :: "'b clob_state \<Rightarrow> LiquidationOrder \<Rightarrow> unit res" where
  "validateLiquidationAgainstClobPairStatus s liquidationOrder =
     (case GetClobPair s (lo_clobPairId liquidationOrder) of
        None \<Rightarrow> Inl (Err ''ErrInvalidClob'')
      | Some clobPair \<Rightarrow>
          if \<not> IsSupportedClobPairStatus (cp_Status clobPair)
          then Inl (Panic ''validateLiquidationAgainstClobPairStatus: clob pair status is not supported'')
          else if cp_Status clobPair \<noteq> STATUS_ACTIVE then Inl (Err ''ErrLiquidationConflictsWithClobPairStatus'')
          else Inr ())"

definition validateOrderAgainstClobPairStatus :: "'b clob_state \<Rightarrow> Order \<Rightarrow> ClobPair \<Rightarrow> unit res" where
  "validateOrderAgainstClobPairStatus s ord clobPair =
     (if \<not> IsSupportedClobPairStatus (cp_Status clobPair)
      then Inl (Panic ''validateOrderAgainstClobPairStatus: clob pair status is not supported'')
      else (case cp_Status clobPair of
              STATUS_INITIALIZING \<Rightarrow>
                if Order_IsStatefulOrder ord then Inl (Err ''ErrOrderConflictsWithClobPairStatus'')
                else if o_TimeInForce ord \<noteq> TIME_IN_FORCE_POST_ONLY then Inl (Err ''ErrOrderConflictsWithClobPairStatus'')
                else bindr (GetOraclePriceSubticksRat s clobPair) (\<lambda>currentOraclePriceSubticksRat.
                  let currentOraclePriceSubticks = Uint64 (BigRatRound currentOraclePriceSubticksRat False)
                  in if Order_IsBuy ord \<and> currentOraclePriceSubticks < o_Subticks ord
                     then Inl (Err ''ErrOrderConflictsWithClobPairStatus'')
                     else if \<not> Order_IsBuy ord \<and> o_Subticks ord < currentOraclePriceSubticks
                     then Inl (Err ''ErrOrderConflictsWithClobPairStatus'')
                     else Inr ())
            | STATUS_FINAL_SETTLEMENT \<Rightarrow> Inl (Err ''ErrOrderConflictsWithClobPairStatus'')
            | _ \<Rightarrow> Inr ()))"

definition getInternalOperationClobPairId :: "'b clob_state \<Rightarrow> InternalOperation \<Rightarrow> uint32 res" where
  "getInternalOperationClobPairId s internalOperation =
     (case internalOperation of
        Op_Match (ClobMatch_MatchOrders m) \<Rightarrow> Inr (oid_ClobPairId (mo_TakerOrderId m))
      | Op_Match (ClobMatch_MatchPerpetualLiquidation m) \<Rightarrow> Inr (mpl_ClobPairId m)
      | Op_Match (ClobMatch_MatchPerpetualDeleveraging m) \<Rightarrow> GetClobPairIdForPerpetual s (mpd_PerpetualId m)
      | Op_ShortTermOrderPlacement ord \<Rightarrow> Inr (oid_ClobPairId (o_OrderId ord))
      | Op_OrderRemoval i _ \<Rightarrow> Inr (oid_ClobPairId i)
      | Op_PreexistingStatefulOrder _ \<Rightarrow> Inl (Panic
          ''getInternalOperationClobPairId: should never be called for preexisting stateful order internal operations''))"

definition is_deleveraging :: "InternalOperation \<Rightarrow> bool" where
  "is_deleveraging op = (case op of Op_Match (ClobMatch_MatchPerpetualDeleveraging _) \<Rightarrow> True | _ \<Rightarrow> False)"

definition validateInternalOperationAgainstClobPairStatus :: "'b clob_state \<Rightarrow> InternalOperation \<Rightarrow> unit res" where
  "validateInternalOperationAgainstClobPairStatus s internalOperation =
     bindr (getInternalOperationClobPairId s internalOperation) (\<lambda>clobPairId.
       case GetClobPair s clobPairId of
         None \<Rightarrow> Inl (Err ''ErrInvalidClob'')
       | Some clobPair \<Rightarrow>
           if \<not> IsSupportedClobPairStatus (cp_Status clobPair)
           then Inl (Panic ''validateInternalOperationAgainstClobPairStatus: status is not supported'')
           else (case cp_Status clobPair of
                   STATUS_INITIALIZING \<Rightarrow> Inl (Err ''ErrOperationConflictsWithClobPairStatus'')
                 | STATUS_FINAL_SETTLEMENT \<Rightarrow>
                     if is_deleveraging internalOperation then Inr ()
                     else Inl (Err ''ErrOperationConflictsWithClobPairStatus'')
                 | _ \<Rightarrow> Inr ()))"

section \<open>Witness state\<close>

text \<open>A chain with one market and an empty order book, for the witnesses of the keeper's properties.\<close>

definition ex_stateful :: stateful_state where
  "ex_stateful = \<lparr>sf_LongTerm = [], sf_Untriggered = [], sf_Triggered = [], sf_Twap = [], sf_TwapTriggers = [],
     sf_Expirations = [], sf_Counts = [], sf_NextTransactionIndex = None, sf_UncommittedPlacements = [],
     sf_UncommittedCancellations = [], sf_UncommittedCounts = [], sf_DeliveredCancels = [],
     sf_DeliveredLongTerm = [], sf_DeliveredConditional = [],
     sf_ProcessProposerMatchesEvents = \<lparr>ppme_ExpiredStatefulOrderIds = [], ppme_OrderIdsFilledInLastBlock = [],
       ppme_RemovedStatefulOrderIds = [], ppme_ConditionalOrderIdsTriggeredInLastBlock = [], ppme_BlockHeight = 1\<rparr>\<rparr>"

definition ex_liq_config :: LiquidationsConfig where
  "ex_liq_config = \<lparr>lc_MaxLiquidationFeePpm = 15000,
     lc_PositionBlockLimits = \<lparr>pl_MinPositionNotionalLiquidated = 1000000000, pl_MaxPositionPortionLiquidatedPpm = 100000\<rparr>,
     lc_SubaccountBlockLimits = \<lparr>bl_MaxNotionalLiquidated = 100000000000, bl_MaxQuantumsInsuranceLost = 1000000000000\<rparr>,
     lc_FillablePriceConfig = \<lparr>fc_BankruptcyAdjustmentPpm = 1000000, fc_SpreadToMaintenanceMarginRatioPpm = 1500000\<rparr>\<rparr>"

definition ex_clob :: "unit clob_state" where
  "ex_clob = \<lparr>c_sub = ex_state, c_clobPairs = [(0, ex_pair)], c_nextClobPairId = 1, c_perpToClob = [(0, [0])], c_staged = [],
     c_orders = ex_fills, c_stateful = ex_stateful, c_trades = \<lparr>tp_MinTradePrice = [], tp_MaxTradePrice = []\<rparr>,
     c_liqInfos = [], c_liqConfig = Some ex_liq_config, c_equityTiers = None, c_stats = ex_stats, c_fees = ex_fees,
     c_affiliates = ex_affiliates, c_revshare = ex_revshare,
     c_rewards = \<lparr>rws_Params = \<lparr>rp_TreasuryAccount = ''rewards_treasury'', rp_Denom = ''adv4tnt'', rp_DenomExponent = - 18,
       rp_MarketId = 0, rp_FeeMultiplierPpm = 990000\<rparr>, rws_Shares = []\<rparr>, c_checkTx = False\<rparr>"

definition ex_env :: "(unit, unit, unit) clob_env" where
  "ex_env = \<lparr>e_sdk = ex_sdk, e_staking = ex_staking, e_toBech32 = (\<lambda>a. a), e_vaults = {}, e_orderHash = (\<lambda>_. []),
     e_liquidationHash = (\<lambda>_. []), e_Intn = (\<lambda>_ _. 0)\<rparr>"

end
