(* ===== verification/ClobOrders.thy ===== *)
theory ClobOrders
  imports ClobPairs
begin

text \<open>
  Stateful validation, placement and cancellation of orders by the \<^verbatim>\<open>x/clob\<close> keeper (\<^verbatim>\<open>orders.go\<close>,
  \<^verbatim>\<open>msg_server_place_order.go\<close>, \<^verbatim>\<open>msg_server_cancel_orders.go\<close>, \<^verbatim>\<open>equity_tier_limit.go\<close>, \<^verbatim>\<open>MustRemoveStatefulOrder\<close>,
  \<^verbatim>\<open>final_settlement.go\<close> and \<^verbatim>\<open>UpdateClobPair\<close>), on the state of \<^verbatim>\<open>ClobPairs\<close>. Whether a transaction is
  checked or delivered is the field \<open>c_checkTx\<close>.
\<close>

section \<open>Definitions: positions and reduce-only orders\<close>

definition position_quantums :: "'b clob_state \<Rightarrow> SubaccountId \<Rightarrow> uint32 \<Rightarrow> int" where
  "position_quantums s subaccountId perpetualId =
     (case GetPerpetualPositionForId (GetSubaccount (c_sub s) subaccountId) perpetualId of
        None \<Rightarrow> 0 | Some position \<Rightarrow> po_Quantums position)"

definition GetStatePosition :: "'b clob_state \<Rightarrow> SubaccountId \<Rightarrow> uint32 \<Rightarrow> int res" where
  "GetStatePosition s subaccountId clobPairId =
     (case GetClobPair s clobPairId of
        None \<Rightarrow> Inl (Panic ''GetStatePosition: CLOB pair not found'')
      | Some clobPair \<Rightarrow> bindr (must (ClobPair_GetPerpetualId clobPair)) (\<lambda>perpetualId.
          Inr (position_quantums s subaccountId perpetualId)))"

definition MustValidateReduceOnlyOrder :: "'b clob_state \<Rightarrow> MatchableOrder \<Rightarrow> uint64 \<Rightarrow> unit res" where
  "MustValidateReduceOnlyOrder s ord matchedAmount =
     (if \<not> mo_IsReduceOnly ord then Inl (Panic ''Order is not reduce-only.'')
      else bindr (GetStatePosition s (mo_GetSubaccountId ord) (mo_GetClobPairId ord)) (\<lambda>currentPositionSize.
        if mo_IsBuy ord \<and> sgn currentPositionSize \<noteq> - 1 then Inl (Err ''ErrReduceOnlyWouldIncreasePositionSize'')
        else if \<not> mo_IsBuy ord \<and> sgn currentPositionSize \<noteq> 1 then Inl (Err ''ErrReduceOnlyWouldIncreasePositionSize'')
        else if cmp_int (uint matchedAmount) \<bar>currentPositionSize\<bar> = 1 then Inl (Err ''ErrReduceOnlyWouldChangePositionSide'')
        else Inr ()))"

section \<open>Definitions: stateful validation\<close>

definition validateGoodTilBlock :: "uint32 \<Rightarrow> uint32 \<Rightarrow> unit res" where
  "validateGoodTilBlock goodTilBlock blockHeight =
     (if goodTilBlock < blockHeight then Inl (Err ''ErrHeightExceedsGoodTilBlock'')
      else if ShortBlockWindow + blockHeight < goodTilBlock then Inl (Err ''ErrGoodTilBlockExceedsShortBlockWindow'')
      else Inr ())"

definition getOrderFromStore :: "'b clob_state \<Rightarrow> OrderId \<Rightarrow> Order option res" where
  "getOrderFromStore s orderId =
     (if OrderId_IsTwapOrder orderId
      then Inr (map_option twp_Order (GetTwapOrderPlacement (c_stateful s) orderId))
      else bindr (GetLongTermOrderPlacement (c_stateful s) orderId) (\<lambda>p. Inr (map_option lp_Order p)))"

definition prev_block_time :: "'b clob_state \<Rightarrow> int" where
  "prev_block_time s = bi_Timestamp (bt_PreviousBlockInfo (ks_blocktime (c_sub s)))"

text \<open>
  The two bounds of a \<^verbatim>\<open>GoodTilBlockTime\<close>: after the previous block, and within the window of it. The
  window is given in seconds.
\<close>

definition check_block_time :: "'b clob_state \<Rightarrow> uint32 \<Rightarrow> unit res" where
  "check_block_time s goodTilBlockTimeUnix =
     bindr (MustConvertIntegerToUint32 (Unix (prev_block_time s))) (\<lambda>previousBlockTimeUnix.
       if goodTilBlockTimeUnix \<le> previousBlockTimeUnix then Inl (Err ''ErrTimeExceedsGoodTilBlockTime'')
       else bindr (MustConvertIntegerToUint32 (Unix (prev_block_time s + from_unix StatefulOrderTimeWindow))) (\<lambda>endTimeUnix.
         if endTimeUnix < goodTilBlockTimeUnix
         then Inl (Err ''ErrGoodTilBlockTimeExceedsStatefulOrderTimeWindow'')
         else Inr ()))"

definition PerformOrderCancellationStatefulValidation :: "'b clob_state \<Rightarrow> MsgCancelOrder \<Rightarrow> uint32 \<Rightarrow> unit res" where
  "PerformOrderCancellationStatefulValidation s msg blockHeight =
     (let orderIdToCancel = mc_OrderId msg
      in if OrderId_IsStatefulOrder orderIdToCancel
         then let cancelGoodTilBlockTime = GetGoodTilBlockTime (mc_GoodTilOneof msg)
              in bindr (check_block_time s cancelGoodTilBlockTime) (\<lambda>_.
                 bindr (GetUncommittedStatefulOrderCancellation (c_stateful s) orderIdToCancel) (\<lambda>existingCancellation.
                   if existingCancellation \<noteq> None then Inl (Err ''ErrStatefulOrderCancellationAlreadyExists'')
                   else bindr (getOrderFromStore s orderIdToCancel) (\<lambda>existing.
                        bindr (case existing of
                                 Some ord \<Rightarrow> Inr ord
                               | None \<Rightarrow> bindr (GetUncommittedStatefulOrderPlacement (c_stateful s) orderIdToCancel) (\<lambda>p.
                                   case p of None \<Rightarrow> Inl (Err ''ErrStatefulOrderDoesNotExist'') | Some p \<Rightarrow> Inr (lp_Order p)))
                          (\<lambda>existingStatefulOrder.
                             if cancelGoodTilBlockTime < GetGoodTilBlockTime (o_GoodTilOneof existingStatefulOrder)
                             then Inl (Err ''ErrInvalidStatefulOrderCancellation'') else Inr ()))))
         else validateGoodTilBlock (GetGoodTilBlock (mc_GoodTilOneof msg)) blockHeight)"

text \<open>Go's \<^verbatim>\<open>%\<close> and \<^verbatim>\<open>/\<close> on unsigned integers: a zero divisor panics.\<close>

definition umod :: "uint64 \<Rightarrow> uint64 \<Rightarrow> uint64 res" where
  "umod a b = (if b = 0 then Inl (Panic ''integer divide by zero'') else Inr (a mod b))"

definition validate_stateful_placement :: "'b clob_state \<Rightarrow> Order \<Rightarrow> ClobPair \<Rightarrow> bool \<Rightarrow> unit res" where
  "validate_stateful_placement s ord clobPair isPreexistingStatefulOrder =
     bindr (check_block_time s (GetGoodTilBlockTime (o_GoodTilOneof ord))) (\<lambda>_.
     bindr (GetUncommittedStatefulOrderCancellation (c_stateful s) (o_OrderId ord)) (\<lambda>uncommittedCancel.
       if uncommittedCancel \<noteq> None then Inl (Err ''ErrStatefulOrderPreviouslyCancelled'')
       else bindr (GetUncommittedStatefulOrderPlacement (c_stateful s) (o_OrderId ord)) (\<lambda>placement.
         if \<not> isPreexistingStatefulOrder \<and> placement \<noteq> None then Inl (Err ''ErrStatefulOrderAlreadyExists'')
         else bindr
           (if OrderId_IsTwapOrder (o_OrderId ord)
            then (if GetTwapOrderPlacement (c_stateful s) (o_OrderId ord) \<noteq> None
                  then Inl (Err ''ErrStatefulOrderAlreadyExists'') else Inr ())
            else bindr (GetLongTermOrderPlacement (c_stateful s) (o_OrderId ord)) (\<lambda>found.
              if isPreexistingStatefulOrder \<and> found = None
              then Inl (Panic ''PerformStatefulOrderValidation: Expected pre-existing stateful order to exist in state'')
              else if \<not> isPreexistingStatefulOrder \<and> found \<noteq> None
              then Inl (Err ''ErrStatefulOrderAlreadyExists'') else Inr ()))
           (\<lambda>_. if Order_IsConditionalOrder ord
                 then bindr (umod (o_ConditionalOrderTriggerSubticks ord) (ucast (cp_SubticksPerTick clobPair))) (\<lambda>r.
                   if r \<noteq> 0 then Inl (Err ''ErrInvalidPlaceOrder'') else Inr ())
                 else Inr ()))))"

definition validate_twap_size :: "Order \<Rightarrow> ClobPair \<Rightarrow> unit res" where
  "validate_twap_size ord clobPair =
     (case o_TwapParameters ord of
        None \<Rightarrow> Inl (Panic ''nil pointer dereference'')
      | Some p \<Rightarrow>
          if tw_Interval p = 0 then Inl (Panic ''integer divide by zero'')
          else let num_suborders = ucast (tw_Duration p div tw_Interval p) :: uint64
               in if num_suborders = 0 then Inl (Panic ''integer divide by zero'')
                  else if o_Quantums ord div num_suborders < cp_StepBaseQuantums clobPair
                  then Inl (Err ''ErrInvalidPlaceOrder'') else Inr ())"

definition PerformStatefulOrderValidation :: "'b clob_state \<Rightarrow> Order \<Rightarrow> uint32 \<Rightarrow> bool \<Rightarrow> unit res" where
  "PerformStatefulOrderValidation s ord blockHeight isPreexistingStatefulOrder =
     (case GetClobPair s (oid_ClobPairId (o_OrderId ord)) of
        None \<Rightarrow> Inl (Err ''ErrInvalidClob'')
      | Some clobPair \<Rightarrow>
          bindr (umod (o_Subticks ord) (ucast (cp_SubticksPerTick clobPair))) (\<lambda>r.
            if r \<noteq> 0 then Inl (Err ''ErrInvalidPlaceOrder'')
            else bindr (umod (o_Quantums ord) (cp_StepBaseQuantums clobPair)) (\<lambda>r.
              if r \<noteq> 0 then Inl (Err ''ErrInvalidPlaceOrder'')
              else bindr (validateOrderAgainstClobPairStatus s ord clobPair) (\<lambda>_.
                   bindr (if OrderId_IsShortTermOrder (o_OrderId ord)
                          then validateGoodTilBlock (GetGoodTilBlock (o_GoodTilOneof ord)) blockHeight
                          else validate_stateful_placement s ord clobPair isPreexistingStatefulOrder)
                     (\<lambda>_. if Order_IsTwapOrder ord then validate_twap_size ord clobPair else Inr ())))))"

section \<open>Definitions: equity tiers\<close>

definition GetEquityTierLimitConfiguration :: "'b clob_state \<Rightarrow> EquityTierLimit list res" where
  "GetEquityTierLimitConfiguration s =
     (case c_equityTiers s of
        None \<Rightarrow> Inl (Panic ''GetEquityTierLimitConfiguration: EquityTierLimitConfiguration was never set in state'')
      | Some config \<Rightarrow> Inr config)"

text \<open>The last tier of the prefix whose requirements the collateral meets.\<close>

definition tier_of :: "int \<Rightarrow> EquityTierLimit list \<Rightarrow> EquityTierLimit" where
  "tier_of nc equityTierLimits =
     last (\<lparr>et_UsdTncRequired = 0, et_Limit = 0\<rparr> # takeWhile (\<lambda>limit. \<not> nc < et_UsdTncRequired limit) equityTierLimits)"

definition no_update :: "SubaccountId \<Rightarrow> Update" where
  "no_update subaccountId = \<lparr>u_SubaccountId = subaccountId, u_AssetUpdates = [], u_PerpetualUpdates = []\<rparr>"

definition getEquityTierLimitForSubaccount :: "'b clob_state \<Rightarrow> SubaccountId \<Rightarrow> EquityTierLimit list \<Rightarrow> EquityTierLimit res" where
  "getEquityTierLimitForSubaccount s subaccountId equityTierLimits =
     bindr (GetNetCollateralAndMarginRequirements (c_sub s) (no_update subaccountId)) (\<lambda>risk.
       let equityTierLimit = tier_of (NC risk) equityTierLimits
       in if et_Limit equityTierLimit = 0 then Inl (Err ''ErrOrderWouldExceedMaxOpenOrdersEquityTierLimit'')
          else Inr equityTierLimit)"

definition ValidateSubaccountEquityTierLimitForStatefulOrder :: "'b clob_state \<Rightarrow> Order \<Rightarrow> unit res" where
  "ValidateSubaccountEquityTierLimitForStatefulOrder s ord =
     bindr (GetEquityTierLimitConfiguration s) (\<lambda>equityTierLimits.
       if length equityTierLimits = 0 then Inr ()
       else bindr (getEquityTierLimitForSubaccount s (oid_SubaccountId (o_OrderId ord)) equityTierLimits) (\<lambda>equityTierLimit.
         let equityTierCount = GetStatefulOrderCount (c_stateful s) (oid_SubaccountId (o_OrderId ord))
         in if et_Limit equityTierLimit \<le> equityTierCount
            then Inl (Err ''ErrOrderWouldExceedMaxOpenOrdersEquityTierLimit'') else Inr ()))"

section \<open>Definitions: collateral of an open order\<close>

definition GetSubticksForCollatCheck :: "'b clob_state \<Rightarrow> Order \<Rightarrow> uint64 res" where
  "GetSubticksForCollatCheck s ord =
     (if Order_IsTwapOrder ord \<and> o_Subticks ord = 0
      then (case GetClobPair s (oid_ClobPairId (o_OrderId ord)) of
              None \<Rightarrow> Inl (Err ''ErrInvalidClob'')
            | Some clobPair \<Rightarrow> bindr (GetOraclePriceSubticksRat s clobPair) (\<lambda>oraclePriceSubticksRat.
                Inr (Uint64 (BigRatRound oraclePriceSubticksRat False))))
      else Inr (o_Subticks ord))"

definition clob_fee_ppm :: "('b, 'd, 'v) clob_env \<Rightarrow> string \<Rightarrow> bool \<Rightarrow> uint32 \<Rightarrow> uint32 \<Rightarrow> ('b clob_state, int32) step" where
  "clob_fee_ppm e address isTaker feeTierOverrideIdx clobPairId s =
     on_stats (GetPerpetualFeePpm (e_staking e) (x_AccAddressFromBech32 (e_sdk e)) (e_vaults e) (ks_ctx (c_sub s))
                 (c_fees s) (c_affiliates s) address isTaker feeTierOverrideIdx clobPairId) s"

definition AddOrderToOrderbookSubaccountUpdatesCheck ::
  "('b, 'd, 'v) clob_env \<Rightarrow> SubaccountId \<Rightarrow> PendingOpenOrder \<Rightarrow> ('b clob_state, UpdateResult) step" where
  "AddOrderToOrderbookSubaccountUpdatesCheck e subaccountId ord =
     bindM (liftM (\<lambda>s. case GetClobPair s (poo_ClobPairId ord) of
              None \<Rightarrow> Inl (Panic ''ErrInvalidClob'') | Some clobPair \<Rightarrow> Inr clobPair)) (\<lambda>clobPair.
     bindM (liftM (\<lambda>_. ClobPair_MustGetPerpetualId clobPair)) (\<lambda>perpetualId.
     bindM (readM (\<lambda>s. af_params (c_affiliates s))) (\<lambda>affiliateParameters.
     bindM (clob_fee_ppm e (sid_Owner subaccountId) False (ap_RefereeMinimumFeeTierIdx affiliateParameters)
              (poo_ClobPairId ord)) (\<lambda>makerFeePpm.
       let bigFillQuoteQuantums = FillAmountToQuoteQuantums (poo_Subticks ord) (poo_RemainingQuantums ord)
             (cp_QuantumConversionExponent clobPair);
           quoteDelta = (if poo_IsBuy ord then - bigFillQuoteQuantums else bigFillQuoteQuantums);
           baseDelta = (if poo_IsBuy ord then uint (poo_RemainingQuantums ord) else - uint (poo_RemainingQuantums ord));
           fee = BigMulPpm bigFillQuoteQuantums (sint makerFeePpm) True;
           builderFee = GetBuilderFee (poo_BuilderCodeParameters ord) (uint (poo_RemainingQuantums ord));
           update = \<lparr>u_SubaccountId = subaccountId,
             u_AssetUpdates = [\<lparr>au_AssetId = AssetUsdcId, au_BigQuantumsDelta = quoteDelta - fee - builderFee\<rparr>],
             u_PerpetualUpdates = [\<lparr>pu_PerpetualId = perpetualId, pu_BigQuantumsDelta = baseDelta, pu_BigQuoteBalanceDelta = 0\<rparr>]\<rparr>
       in bindM (liftM (\<lambda>s. must (CanUpdateSubaccounts (c_sub s) [update] CollatCheck))) (\<lambda>(_, updateResults).
            case updateResults of [r] \<Rightarrow> retM r | _ \<Rightarrow> failM (Panic ''Expected exactly one update result''))))))"

section \<open>Definitions: placing stateful orders\<close>

definition collat_check :: "('b, 'd, 'v) clob_env \<Rightarrow> Order \<Rightarrow> ('b clob_state, unit) step" where
  "collat_check e ord =
     bindM (liftM (\<lambda>s. GetSubticksForCollatCheck s ord)) (\<lambda>order_subticks.
     bindM (AddOrderToOrderbookSubaccountUpdatesCheck e (oid_SubaccountId (o_OrderId ord))
              \<lparr>poo_RemainingQuantums = o_Quantums ord, poo_IsBuy = Order_IsBuy ord, poo_Subticks = order_subticks,
               poo_ClobPairId = oid_ClobPairId (o_OrderId ord), poo_BuilderCodeParameters = o_BuilderCodeParameters ord\<rparr>)
       (\<lambda>updateResult.
          if IsSuccess updateResult then retM ()
          else if updateResult = ViolatesIsolatedSubaccountConstraints
          then failM (Err ''ErrWouldViolateIsolatedSubaccountConstraints'')
          else failM (Err ''ErrStatefulOrderCollateralizationCheckFailed'')))"

definition write_placement :: "Order \<Rightarrow> ('b clob_state, unit) step" where
  "write_placement ord =
     bindM (readM (\<lambda>s. ks_ctx (c_sub s))) (\<lambda>ctx.
     bindM (liftM (\<lambda>_. MustConvertIntegerToUint32 (ctx_BlockHeight ctx))) (\<lambda>blockHeight.
       if Order_IsTwapOrder ord then on_stateful (SetTWAPOrderPlacement ctx ord)
       else bindM (on_stateful (SetLongTermOrderPlacement ord blockHeight)) (\<lambda>_.
            bindM (liftM (\<lambda>_. Order_MustGetUnixGoodTilBlockTime ord)) (\<lambda>t.
              on_stateful (modifyM (AddStatefulOrderIdExpiration (from_unix t) (o_OrderId ord)))))))"

definition PlaceStatefulOrder :: "('b, 'd, 'v) clob_env \<Rightarrow> Order \<Rightarrow> bool \<Rightarrow> ('b clob_state, unit) step" where
  "PlaceStatefulOrder e ord isInternalOrder =
     bindM (liftM (\<lambda>_. OrderId_MustBeStatefulOrder (o_OrderId ord))) (\<lambda>_.
     bindM (liftM (\<lambda>s. PerformStatefulOrderValidation s ord 0 False)) (\<lambda>_.
     bindM (if \<not> isInternalOrder then liftM (\<lambda>s. ValidateSubaccountEquityTierLimitForStatefulOrder s ord) else retM ()) (\<lambda>_.
     bindM (liftM (\<lambda>s. GetOrderRouterRevShare (x_AccAddressFromBech32 (e_sdk e)) (c_revshare s) (o_OrderRouterAddress ord))) (\<lambda>_.
     bindM (whenM (IsCollateralCheckRequired ord isInternalOrder) (collat_check e ord)) (\<lambda>_.
     bindM (readM IsDeliverTxMode) (\<lambda>deliver.
       if deliver then write_placement ord
       else on_stateful (MustAddUncommittedStatefulOrderPlacement True ord)))))))"

text \<open>\<^verbatim>\<open>lib.UniqueSliceToSet\<close> panics on a duplicate.\<close>

definition in_unique_slice :: "OrderId list \<Rightarrow> OrderId \<Rightarrow> bool res" where
  "in_unique_slice ids i = (if \<not> distinct ids then Inl (Panic ''UniqueSliceToSet: duplicate value'') else Inr (i \<in> set ids))"

definition HandleMsgPlaceOrder :: "('b, 'd, 'v) clob_env \<Rightarrow> Order \<Rightarrow> bool \<Rightarrow> ('b clob_state, unit) step" where
  "HandleMsgPlaceOrder e ord isInternalOrder =
     bindM (liftM AssertDeliverTxMode) (\<lambda>_.
     bindM (liftM (\<lambda>_. OrderId_MustBeStatefulOrder (o_OrderId ord))) (\<lambda>_.
     bindM (liftM (\<lambda>s. in_unique_slice (gm_vals (sf_DeliveredCancels (c_stateful s))) (o_OrderId ord))) (\<lambda>cancelled.
       if cancelled then failM (Err ''ErrStatefulOrderPreviouslyCancelled'')
       else bindM (liftM (\<lambda>s. in_unique_slice (ppme_RemovedStatefulOrderIds (sf_ProcessProposerMatchesEvents (c_stateful s))) (o_OrderId ord))) (\<lambda>removed.
         if removed then failM (Err ''ErrStatefulOrderPreviouslyRemoved'')
         else bindM (PlaceStatefulOrder e ord isInternalOrder) (\<lambda>_.
           if Order_IsConditionalOrder ord then on_stateful (AddDeliveredConditionalOrderId (o_OrderId ord))
           else if Order_IsTwapOrder ord then retM ()
           else on_stateful (AddDeliveredLongTermOrderId (o_OrderId ord)))))))"

section \<open>Definitions: removing and cancelling stateful orders\<close>

text \<open>
  Removing a TWAP parent cancels its suborder through the cancel handler, and that handler removes
  the suborder; a suborder is never a TWAP parent, so the recursion is unrolled once: the handlers
  take the removal they call as an argument.
\<close>

definition on_orders :: "(order_state \<Rightarrow> order_state) \<Rightarrow> 'b clob_state \<Rightarrow> 'b clob_state" where
  "on_orders f s = s\<lparr>c_orders := f (c_orders s)\<rparr>"

definition get_order_to_remove :: "OrderId \<Rightarrow> 'b clob_state \<Rightarrow> Order res" where
  "get_order_to_remove orderId s =
     bindr (getOrderFromStore s orderId) (\<lambda>r.
       case r of None \<Rightarrow> Inl (Panic ''MustRemoveStatefulOrder: order does not exist'') | Some ord \<Rightarrow> Inr ord)"

definition remove_placed_order :: "OrderId \<Rightarrow> ('b clob_state, unit) step" where
  "remove_placed_order orderId =
     bindM (liftM (\<lambda>_. OrderId_MustBeStatefulOrder orderId)) (\<lambda>_.
     bindM (liftM (get_order_to_remove orderId)) (\<lambda>ord.
     bindM (liftM (\<lambda>_. Order_MustGetUnixGoodTilBlockTime ord)) (\<lambda>goodTilBlockTime.
     bindM (on_stateful (modifyM (RemoveStatefulOrderIdExpiration (from_unix goodTilBlockTime) orderId))) (\<lambda>_.
     bindM (modifyM (on_orders (RemoveOrderFillAmount orderId))) (\<lambda>_.
       on_stateful (DeleteLongTermOrderPlacement orderId))))))"

definition CancelStatefulOrder ::
  "(OrderId \<Rightarrow> ('b clob_state, unit) step) \<Rightarrow> MsgCancelOrder \<Rightarrow> ('b clob_state, unit) step" where
  "CancelStatefulOrder mustRemove msg =
     bindM (liftM (\<lambda>_. OrderId_MustBeStatefulOrder (mc_OrderId msg))) (\<lambda>_.
     bindM (liftM (\<lambda>s. PerformOrderCancellationStatefulValidation s msg 0)) (\<lambda>_.
     bindM (readM IsDeliverTxMode) (\<lambda>deliver.
       if deliver then mustRemove (mc_OrderId msg)
       else on_stateful (MustAddUncommittedStatefulOrderCancellation True msg))))"

text \<open>The deferred function: an order that was removed earlier in the block gets its own error.\<close>

definition rename_cancel_error :: "OrderId \<Rightarrow> ('b clob_state, unit) step \<Rightarrow> ('b clob_state, unit) step" where
  "rename_cancel_error orderId m s =
     (case m s of
        (Inl (Err n), s') \<Rightarrow>
          if n = ''ErrStatefulOrderDoesNotExist''
          then (case in_unique_slice (ppme_RemovedStatefulOrderIds (sf_ProcessProposerMatchesEvents (c_stateful s'))) orderId of
                  Inl p \<Rightarrow> (Inl p, s')
                | Inr found \<Rightarrow>
                    (Inl (Err (if found then ''ErrStatefulOrderCancellationFailedForAlreadyRemovedOrder'' else n)), s'))
          else (Inl (Err n), s')
      | r \<Rightarrow> r)"

definition HandleMsgCancelOrder ::
  "(OrderId \<Rightarrow> ('b clob_state, unit) step) \<Rightarrow> MsgCancelOrder \<Rightarrow> ('b clob_state, unit) step" where
  "HandleMsgCancelOrder mustRemove msg =
     bindM (liftM AssertDeliverTxMode) (\<lambda>_.
       rename_cancel_error (mc_OrderId msg)
         (bindM (liftM (\<lambda>_. OrderId_MustBeStatefulOrder (mc_OrderId msg))) (\<lambda>_.
          bindM (CancelStatefulOrder mustRemove msg) (\<lambda>_.
            on_stateful (modifyM (AddDeliveredCancelledOrderId (mc_OrderId msg)))))))"

definition cancel_suborder :: "OrderId \<Rightarrow> ('b clob_state, unit) step" where
  "cancel_suborder suborderId =
     bindM (readM (\<lambda>s. ks_ctx (c_sub s))) (\<lambda>ctx s.
       case HandleMsgCancelOrder remove_placed_order
              \<lparr>mc_OrderId = suborderId, mc_GoodTilOneof = GoodTilBlockTime (ucast (block_unix ctx + 10))\<rparr> s of
         (Inl (Err n), s') \<Rightarrow>
           if n = ''ErrStatefulOrderDoesNotExist'' then (Inr (), s')
           else (Inl (Panic ''MustRemoveStatefulOrder: error cancelling twap order and suborder''), s')
       | r \<Rightarrow> r)"

definition MustRemoveStatefulOrder :: "OrderId \<Rightarrow> ('b clob_state, unit) step" where
  "MustRemoveStatefulOrder orderId =
     bindM (liftM (\<lambda>_. OrderId_MustBeStatefulOrder orderId)) (\<lambda>_.
     bindM (liftM (get_order_to_remove orderId)) (\<lambda>ord.
       if \<not> OrderId_IsTwapOrder (o_OrderId ord) then remove_placed_order orderId
       else bindM (on_stateful (modifyM (DeleteTWAPOrderPlacement orderId))) (\<lambda>_.
              cancel_suborder (twapToSuborderId (o_OrderId ord)))))"

definition msg_CancelOrder :: "MsgCancelOrder \<Rightarrow> ('b clob_state, unit) step" where
  "msg_CancelOrder msg = HandleMsgCancelOrder MustRemoveStatefulOrder msg"

section \<open>Definitions: final settlement and updates of a CLOB pair\<close>

text \<open>Removing an order of a settled market recovers from a panic; the store keeps the writes made before it.\<close>

definition settle_order :: "uint32 \<Rightarrow> Order \<Rightarrow> OrderId list \<Rightarrow> ('b clob_state, OrderId list) step" where
  "settle_order clobPairId ord removed =
     (if oid_ClobPairId (o_OrderId ord) \<noteq> clobPairId then retM removed
      else bindM (recoverPanic (MustRemoveStatefulOrder (o_OrderId ord))) (\<lambda>_. retM (removed @ [o_OrderId ord])))"

definition mustCancelStatefulOrdersForFinalSettlement :: "uint32 \<Rightarrow> ('b clob_state, unit) step" where
  "mustCancelStatefulOrdersForFinalSettlement clobPairId =
     bindM (liftM (\<lambda>s. GetAllStatefulOrders (c_stateful s))) (\<lambda>statefulOrders.
     bindM (readM (\<lambda>s. sf_ProcessProposerMatchesEvents (c_stateful s))) (\<lambda>processProposerMatchesEvents.
     bindM (foldM (settle_order clobPairId) statefulOrders (ppme_RemovedStatefulOrderIds processProposerMatchesEvents)) (\<lambda>removed s.
       on_stateful (MustSetProcessProposerMatchesEvents (c_checkTx s) (ks_ctx (c_sub s))
         (processProposerMatchesEvents\<lparr>ppme_RemovedStatefulOrderIds := removed\<rparr>)) s)))"

definition mustTransitionToFinalSettlement :: "uint32 \<Rightarrow> ('b clob_state, unit) step" where
  "mustTransitionToFinalSettlement clobPairId = mustCancelStatefulOrdersForFinalSettlement clobPairId"

text \<open>A finer step or tick: a positive divisor of the old value. Returns whether the value changes.\<close>

definition check_divisor :: "('a::len) word \<Rightarrow> 'a word \<Rightarrow> bool res" where
  "check_divisor old new =
     (if new = old then Inr False
      else if new = 0 \<or> old < new \<or> old mod new \<noteq> 0 then Inl (Err ''ErrInvalidClobPairUpdate'')
      else Inr True)"

definition check_clob_pair_update :: "'b clob_state \<Rightarrow> ClobPair \<Rightarrow> (ClobPair \<times> bool) res" where
  "check_clob_pair_update s clobPair =
     (case GetClobPair s (cp_Id clobPair) of
        None \<Rightarrow> Inl (Err ''ErrInvalidClobPairUpdate'')
      | Some oldClobPair \<Rightarrow>
          (case (ClobPair_GetPerpetualId clobPair, ClobPair_GetPerpetualId oldClobPair) of
             (Inr perpetualId, Inr oldPerpetualId) \<Rightarrow>
               if perpetualId \<noteq> oldPerpetualId then Inl (Err ''ErrInvalidClobPairUpdate'')
               else bindr (check_divisor (cp_StepBaseQuantums oldClobPair) (cp_StepBaseQuantums clobPair)) (\<lambda>step.
                    bindr (check_divisor (cp_SubticksPerTick oldClobPair) (cp_SubticksPerTick clobPair)) (\<lambda>tick.
                      if cp_QuantumConversionExponent clobPair \<noteq> cp_QuantumConversionExponent oldClobPair
                      then Inl (Err ''ErrInvalidClobPairUpdate'')
                      else if \<not> IsSupportedClobPairStatusTransition (cp_Status oldClobPair) (cp_Status clobPair)
                      then Inl (Err ''ErrInvalidClobPairStatusTransition'')
                      else bindr (validateClobPair s clobPair) (\<lambda>_. Inr (oldClobPair, step \<or> tick))))
           | _ \<Rightarrow> Inl (Err ''ErrInvalidClobPairUpdate'')))"

definition UpdateClobPair :: "ClobPair \<Rightarrow> ('b clob_state MemClob, unit) step" where
  "UpdateClobPair clobPair =
     bindM (on_store (liftM (\<lambda>s. check_clob_pair_update s clobPair))) (\<lambda>(oldClobPair, shouldSyncMemClobState).
     bindM (on_store (modifyM (SetClobPair clobPair))) (\<lambda>_.
     bindM (whenM shouldSyncMemClobState (SyncOrderbookState clobPair)) (\<lambda>_.
       whenM (cp_Status clobPair = STATUS_FINAL_SETTLEMENT \<and> cp_Status oldClobPair \<noteq> cp_Status clobPair)
         (on_store (mustTransitionToFinalSettlement (cp_Id clobPair))))))"

section \<open>Definitions: short-term orders and cancels of CheckTx\<close>

text \<open>The context the memclob sees, at the height of the state, and the next block height.\<close>

definition next_block_height :: "'b clob_state \<Rightarrow> uint32 res" where
  "next_block_height s = MustConvertIntegerToUint32 (ctx_BlockHeight (ks_ctx (c_sub s)) + 1)"

definition CancelShortTermOrder :: "('b, 'd, 'v) clob_env \<Rightarrow> mem_ctx \<Rightarrow> MsgCancelOrder \<Rightarrow> ('b clob_state MemClob, unit) step" where
  "CancelShortTermOrder e ctx msg =
     bindM (liftM (\<lambda>_. AssertCheckTxMode ctx)) (\<lambda>_.
     bindM (liftM (\<lambda>m. next_block_height (mc_store m))) (\<lambda>nextBlockHeight.
     bindM (liftM (\<lambda>m. PerformOrderCancellationStatefulValidation (mc_store m) msg nextBlockHeight)) (\<lambda>_.
       CancelOrder (e_orderHash e) ctx msg)))"

definition batch_cancel_msg :: "MsgBatchCancel \<Rightarrow> uint32 \<Rightarrow> uint32 \<Rightarrow> MsgCancelOrder" where
  "batch_cancel_msg msg clobPairId clientId =
     \<lparr>mc_OrderId = \<lparr>oid_SubaccountId = mb_SubaccountId msg, oid_ClientId = clientId,
        oid_OrderFlags = OrderIdFlags_ShortTerm, oid_ClobPairId = clobPairId\<rparr>,
      mc_GoodTilOneof = GoodTilBlock (mb_GoodTilBlock msg)\<rparr>"

text \<open>A failed cancel of the batch is logged and listed; a panic stops the batch.\<close>

definition batch_cancel_one ::
  "('b, 'd, 'v) clob_env \<Rightarrow> mem_ctx \<Rightarrow> MsgBatchCancel \<Rightarrow> uint32 \<times> uint32 \<Rightarrow> uint32 list \<times> uint32 list
     \<Rightarrow> ('b clob_state MemClob, uint32 list \<times> uint32 list) step" where
  "batch_cancel_one e ctx msg = (\<lambda>(clobPairId, clientId) (success, failure) m.
     case CancelShortTermOrder e ctx (batch_cancel_msg msg clobPairId clientId) m of
       (Inl (Panic n), m') \<Rightarrow> (Inl (Panic n), m')
     | (Inl (Err _), m') \<Rightarrow> (Inr (success, failure @ [clientId]), m')
     | (Inr _, m') \<Rightarrow> (Inr (success @ [clientId], failure), m'))"

definition BatchCancelShortTermOrder ::
  "('b, 'd, 'v) clob_env \<Rightarrow> mem_ctx \<Rightarrow> MsgBatchCancel \<Rightarrow> ('b clob_state MemClob, uint32 list \<times> uint32 list) step" where
  "BatchCancelShortTermOrder e ctx msg =
     bindM (liftM (\<lambda>_. AssertCheckTxMode ctx)) (\<lambda>_.
     bindM (liftM (\<lambda>m. next_block_height (mc_store m))) (\<lambda>nextBlockHeight.
     bindM (liftM (\<lambda>_. validateGoodTilBlock (mb_GoodTilBlock msg) nextBlockHeight)) (\<lambda>_.
     bindM (liftM (\<lambda>m. if \<exists>b \<in> set (mb_ShortTermCancels msg). GetClobPair (mc_store m) (ob_ClobPairId b) = None
                        then Inl (Err ''ErrInvalidClobPairParameter'') else Inr ())) (\<lambda>_.
       foldM (batch_cancel_one e ctx msg)
         (concat (map (\<lambda>b. map (Pair (ob_ClobPairId b)) (ob_ClientIds b)) (mb_ShortTermCancels msg))) ([], [])))))"

end
