(* ===== verification/Liquidations.thy ===== *)
theory Liquidations
  imports ClobOrders
begin

text \<open>
  Liquidations by the \<^verbatim>\<open>x/clob\<close> keeper (\<^verbatim>\<open>liquidations.go\<close>): which accounts are liquidatable, the size, price
  and insurance fund payment of a liquidation, the block limits, and the choice and order of the
  liquidation orders of a block. The pseudo-random offset is a parameter of the environment. Orders are sorted
  by one key of three parts; the code computes the quote amount of an order only to break a tie, the model for
  every order.
\<close>

section \<open>Definitions: perpetuals keeper\<close>

definition GetNetNotional :: "'b clob_state \<Rightarrow> uint32 \<Rightarrow> int \<Rightarrow> int res" where
  "GetNetNotional s perpetualId bigQuantums =
     bindr (GetPerpetualAndMarketPrice (ks_perps (c_sub s)) perpetualId) (\<lambda>(perpetual, marketPrice).
       Inr (GetNetNotionalInQuoteQuantums perpetual marketPrice bigQuantums))"

definition GetNotionalInBaseQuantums :: "'b clob_state \<Rightarrow> uint32 \<Rightarrow> int \<Rightarrow> int res" where
  "GetNotionalInBaseQuantums s perpetualId bigQuoteQuantums =
     bindr (GetPerpetualAndMarketPrice (ks_perps (c_sub s)) perpetualId) (\<lambda>(perpetual, marketPrice).
       QuoteToBaseQuantums bigQuoteQuantums (pp_AtomicResolution (p_Params perpetual)) (mp_Price marketPrice)
         (mp_Exponent marketPrice))"

section \<open>Definitions: prices\<close>

definition subaccount_risk :: "'b clob_state \<Rightarrow> SubaccountId \<Rightarrow> Risk res" where
  "subaccount_risk s subaccountId = GetNetCollateralAndMarginRequirements (c_sub s) (no_update subaccountId)"

definition clob_IsLiquidatable :: "'b clob_state \<Rightarrow> SubaccountId \<Rightarrow> bool res" where
  "clob_IsLiquidatable s subaccountId = bindr (subaccount_risk s subaccountId) (\<lambda>risk. Inr (IsLiquidatable risk))"

definition EnsureIsLiquidatable :: "'b clob_state \<Rightarrow> SubaccountId \<Rightarrow> unit res" where
  "EnsureIsLiquidatable s subaccountId =
     bindr (clob_IsLiquidatable s subaccountId) (\<lambda>isLiquidatable.
       if \<not> isLiquidatable then Inl (Err ''ErrSubaccountNotLiquidatable'') else Inr ())"

text \<open>A reduction of a position: of the opposite sign and not larger.\<close>

definition invalid_delta :: "int \<Rightarrow> int \<Rightarrow> bool" where
  "invalid_delta psBig deltaQuantums \<longleftrightarrow> sgn psBig * sgn deltaQuantums \<noteq> - 1 \<or> \<bar>psBig\<bar> < \<bar>deltaQuantums\<bar>"

text \<open>\<^verbatim>\<open>Div\<close> by a zero margin requirement panics.\<close>

definition GetBankruptcyPriceInQuoteQuantums :: "'b clob_state \<Rightarrow> SubaccountId \<Rightarrow> uint32 \<Rightarrow> int \<Rightarrow> int res" where
  "GetBankruptcyPriceInQuoteQuantums s subaccountId perpetualId deltaQuantums =
     bindr (subaccount_risk s subaccountId) (\<lambda>riskTotal.
       let psBig = position_quantums s subaccountId perpetualId
       in if invalid_delta psBig deltaQuantums then Inl (Err ''ErrInvalidPerpetualPositionSizeDelta'')
          else bindr (GetPerpetualAndMarketPriceAndLiquidityTier (ks_perps (c_sub s)) perpetualId)
            (\<lambda>(perpetual, marketPrice, liquidityTier).
             bindr (GetPositionNetNotionalValueAndMarginRequirements perpetual marketPrice liquidityTier psBig 0) (\<lambda>riskPosOld.
             bindr (GetPositionNetNotionalValueAndMarginRequirements perpetual marketPrice liquidityTier
                      (psBig + deltaQuantums) 0) (\<lambda>riskPosNew.
               let deltaNC = NC riskPosNew - NC riskPosOld;
                   deltaMMR = MMR riskPosNew - MMR riskPosOld
               in if sgn deltaMMR = 1 then Inl (Panic ''GetBankruptcyPriceInQuoteQuantums: DMMR is positive'')
                  else let tncMulDmmrBig = NC riskTotal * \<bar>deltaMMR\<bar>
                       in if MMR riskTotal = 0 then Inl (Panic ''division by zero'')
                          else let quoteQuantumsBeforeBankruptcyBig = ediv tncMulDmmrBig (MMR riskTotal)
                               in Inr (- deltaNC - quoteQuantumsBeforeBankruptcyBig)))))"

definition GetFillablePrice :: "'b clob_state \<Rightarrow> SubaccountId \<Rightarrow> uint32 \<Rightarrow> int \<Rightarrow> rat res" where
  "GetFillablePrice s subaccountId perpetualId deltaQuantums =
     (let psBig = position_quantums s subaccountId perpetualId
      in if invalid_delta psBig deltaQuantums then Inl (Err ''ErrInvalidPerpetualPositionSizeDelta'')
         else bindr (GetPerpetualAndMarketPriceAndLiquidityTier (ks_perps (c_sub s)) perpetualId)
           (\<lambda>(perpetual, marketPrice, liquidityTier).
            bindr (GetPositionNetNotionalValueAndMarginRequirements perpetual marketPrice liquidityTier psBig 0) (\<lambda>riskPos.
            bindr (subaccount_risk s subaccountId) (\<lambda>riskTotal.
            bindr (GetLiquidationsConfig (c_liqConfig s)) (\<lambda>liquidationsConfig.
              let ba = fc_BankruptcyAdjustmentPpm (lc_FillablePriceConfig liquidationsConfig);
                  smmr = fc_SpreadToMaintenanceMarginRatioPpm (lc_FillablePriceConfig liquidationsConfig)
              in if MMR riskTotal = 0 then Inl (Panic ''division by zero'')
                 else let tncDivTmmrRat = of_int (NC riskTotal) / of_int (MMR riskTotal);
                          unboundedAbrRat = BigRatMulPpm (1 - tncDivTmmrRat) ba;
                          abrRat = BigRatClamp unboundedAbrRat 0 1;
                          maxLiquidationSpreadQuoteQuantumsRat = BigRatMulPpm (of_int (MMR riskPos)) smmr;
                          fillablePriceQuoteQuantumsRat =
                            of_int (NC riskPos) - abrRat * maxLiquidationSpreadQuoteQuantumsRat;
                          fillablePrice = fillablePriceQuoteQuantumsRat / of_int psBig
                      in if fillablePrice < 0 then Inl (Panic ''GetFillablePrice: Calculated fillable price is negative'')
                         else Inr fillablePrice)))))"

definition ConvertFillablePriceToSubticks :: "rat \<Rightarrow> bool \<Rightarrow> ClobPair \<Rightarrow> uint64 res" where
  "ConvertFillablePriceToSubticks fillablePrice isLiquidatingLong clobPair =
     (if fillablePrice < 0 then Inl (Panic ''ConvertFillablePriceToSubticks: FillablePrice should not be negative'')
      else
        let exponent = cp_QuantumConversionExponent clobPair;
            (p10, inverse) = BigPow10 exponent;
            subticksRat = (if inverse then of_int p10 * fillablePrice else fillablePrice / of_int p10);
            roundUp = isLiquidatingLong;
            roundedSubticksBig = BigRatRound subticksRat roundUp
        in bindr (BigIntRoundToMultiple roundedSubticksBig (uint (cp_SubticksPerTick clobPair)) roundUp)
          (\<lambda>roundedAlignedSubticksBig.
             let subticksPerTick = ucast (cp_SubticksPerTick clobPair) :: uint64;
                 minSubticks = subticksPerTick;
                 maxSubticks = - 1 - (- 1 mod subticksPerTick);
                 boundedSubticks = BigUint64Clamp roundedAlignedSubticksBig minSubticks maxSubticks
             in if boundedSubticks = 0 then Inl (Panic ''ConvertFillablePriceToSubticks: Bounded subticks is 0.'')
                else if boundedSubticks mod subticksPerTick \<noteq> 0
                then Inl (Panic ''ConvertFillablePriceToSubticks: Bounded subticks is not a multiple of SubticksPerTick.'')
                else Inr boundedSubticks))"

section \<open>Definitions: insurance fund\<close>

definition GetLiquidationInsuranceFundDelta ::
  "'b clob_state \<Rightarrow> SubaccountId \<Rightarrow> uint32 \<Rightarrow> bool \<Rightarrow> uint64 \<Rightarrow> uint64 \<Rightarrow> int res" where
  "GetLiquidationInsuranceFundDelta s subaccountId perpetualId isBuy fillAmount subticks =
     (if fillAmount = 0 then Inl (Err ''ErrInvalidQuantumsForInsuranceFundDeltaCalculation'')
      else bindr (mustGetClobPairForPerpetualId s perpetualId) (\<lambda>clobPair.
        let quote = FillAmountToQuoteQuantums subticks fillAmount (cp_QuantumConversionExponent clobPair);
            deltaQuantums = (if isBuy then uint fillAmount else - uint fillAmount);
            deltaQuoteQuantums = (if isBuy then - quote else quote)
        in bindr (GetBankruptcyPriceInQuoteQuantums s subaccountId perpetualId deltaQuantums)
          (\<lambda>bankruptcyPriceInQuoteQuantumsBig.
             let insuranceFundDeltaQuoteQuantumsBig = deltaQuoteQuantums - bankruptcyPriceInQuoteQuantumsBig
             in if sgn insuranceFundDeltaQuoteQuantumsBig \<le> 0 then Inr insuranceFundDeltaQuoteQuantumsBig
                else bindr (GetLiquidationsConfig (c_liqConfig s)) (\<lambda>liquidationsConfig.
                  Inr (BigMin (BigIntMulPpm \<bar>deltaQuoteQuantums\<bar> (lc_MaxLiquidationFeePpm liquidationsConfig))
                         insuranceFundDeltaQuoteQuantumsBig)))))"

text \<open>A nil balance panics in \<^verbatim>\<open>big.Int.Add\<close>.\<close>

definition IsValidInsuranceFundDelta :: "'b sdk \<Rightarrow> 'b clob_state \<Rightarrow> int \<Rightarrow> uint32 \<Rightarrow> bool res" where
  "IsValidInsuranceFundDelta x s insuranceFundDelta perpetualId =
     (if 0 \<le> sgn insuranceFundDelta then Inr True
      else bindr (GetInsuranceFundBalance x (c_sub s) perpetualId) (\<lambda>b.
        case b of
          None \<Rightarrow> Inl (Panic ''nil pointer dereference'')
        | Some currentInsuranceFundBalance \<Rightarrow> Inr (0 \<le> sgn (currentInsuranceFundBalance + insuranceFundDelta))))"

section \<open>Definitions: limits of a block\<close>

definition GetSubaccountMaxNotionalLiquidatable :: "'b clob_state \<Rightarrow> SubaccountId \<Rightarrow> uint32 \<Rightarrow> int res" where
  "GetSubaccountMaxNotionalLiquidatable s subaccountId perpetualId =
     (let info = GetSubaccountLiquidationInfo (c_liqInfos s) subaccountId
      in if HasPerpetualBeenLiquidatedForSubaccount info perpetualId
         then Inl (Err ''ErrSubaccountHasLiquidatedPerpetual'')
         else bindr (GetLiquidationsConfig (c_liqConfig s)) (\<lambda>liquidationConfig.
           let bigTotalNotionalLiquidated = uint (sli_NotionalLiquidated info);
               bigNotionalLiquidatedBlockLimit = uint (bl_MaxNotionalLiquidated (lc_SubaccountBlockLimits liquidationConfig))
           in if cmp_int bigTotalNotionalLiquidated bigNotionalLiquidatedBlockLimit > 0
              then Inl (Panic ''ErrLiquidationExceedsSubaccountMaxNotionalLiquidated'')
              else Inr (bigNotionalLiquidatedBlockLimit - bigTotalNotionalLiquidated)))"

definition GetSubaccountMaxInsuranceLost :: "'b clob_state \<Rightarrow> SubaccountId \<Rightarrow> uint32 \<Rightarrow> int res" where
  "GetSubaccountMaxInsuranceLost s subaccountId perpetualId =
     (let info = GetSubaccountLiquidationInfo (c_liqInfos s) subaccountId
      in if HasPerpetualBeenLiquidatedForSubaccount info perpetualId
         then Inl (Err ''ErrSubaccountHasLiquidatedPerpetual'')
         else bindr (GetLiquidationsConfig (c_liqConfig s)) (\<lambda>liquidationConfig.
           let bigCurrentInsuranceFundLost = uint (sli_QuantumsInsuranceLost info);
               bigInsuranceFundLostBlockLimit = uint (bl_MaxQuantumsInsuranceLost (lc_SubaccountBlockLimits liquidationConfig))
           in if cmp_int bigCurrentInsuranceFundLost bigInsuranceFundLostBlockLimit > 0
              then Inl (Panic ''ErrLiquidationExceedsSubaccountMaxInsuranceLost'')
              else Inr (bigInsuranceFundLostBlockLimit - bigCurrentInsuranceFundLost)))"

definition GetMaxAndMinPositionNotionalLiquidatable :: "'b clob_state \<Rightarrow> PerpetualPosition \<Rightarrow> (int \<times> int) res" where
  "GetMaxAndMinPositionNotionalLiquidatable s positionToLiquidate =
     bindr (GetLiquidationsConfig (c_liqConfig s)) (\<lambda>liquidationConfig.
     bindr (GetNetNotional s (po_PerpetualId positionToLiquidate) (po_Quantums positionToLiquidate)) (\<lambda>bigNetNotionalQuoteQuantums.
       let bigAbsNetNotionalQuoteQuantums = \<bar>bigNetNotionalQuoteQuantums\<bar>;
           limits = lc_PositionBlockLimits liquidationConfig;
           bigMinPosNotionalLiquidatable =
             BigMin (uint (pl_MinPositionNotionalLiquidated limits)) bigAbsNetNotionalQuoteQuantums;
           bigMaxPosNotionalLiquidatable =
             BigMax bigMinPosNotionalLiquidatable
               (BigIntMulPpm bigAbsNetNotionalQuoteQuantums (pl_MaxPositionPortionLiquidatedPpm limits))
       in Inr (bigMinPosNotionalLiquidatable, bigMaxPosNotionalLiquidatable)))"

definition GetLiquidatablePositionSizeDelta :: "'b clob_state \<Rightarrow> SubaccountId \<Rightarrow> uint32 \<Rightarrow> int res" where
  "GetLiquidatablePositionSizeDelta s subaccountId perpetualId =
     (case GetPerpetualPositionForId (GetSubaccount (c_sub s) subaccountId) perpetualId of
        None \<Rightarrow> Inl (Err ''ErrNoPerpetualPositionsToLiquidate'')
      | Some perpetualPosition \<Rightarrow>
          bindr (mustGetClobPairForPerpetualId s perpetualId) (\<lambda>clobPair.
          bindr (GetMaxAndMinPositionNotionalLiquidatable s perpetualPosition) (\<lambda>(_, bigMaxPositionNotionalLiquidatable).
          bindr (GetSubaccountMaxNotionalLiquidatable s subaccountId perpetualId) (\<lambda>bigMaxSubaccountNotionalLiquidatable.
            let bigMaxQuoteQuantumsLiquidatable =
                  BigMin bigMaxPositionNotionalLiquidatable bigMaxSubaccountNotionalLiquidatable;
                step = uint (cp_StepBaseQuantums clobPair);
                quantums = po_Quantums perpetualPosition
            in bindr (must (GetNetNotional s perpetualId quantums)) (\<lambda>bigQuoteQuantums.
                 if \<bar>bigQuoteQuantums\<bar> \<le> \<bar>bigMaxQuoteQuantumsLiquidatable\<bar> \<or> \<bar>quantums\<bar> \<le> \<bar>step\<bar> then Inr (- quantums)
                 else bindr (must (GetNotionalInBaseQuantums s perpetualId bigMaxQuoteQuantumsLiquidatable)) (\<lambda>absDeltaQuantums.
                      bindr (BigIntRoundToMultiple absDeltaQuantums step False) (\<lambda>absDeltaQuantums.
                        let absDeltaQuantums = BigIntClamp absDeltaQuantums step \<bar>quantums\<bar>
                        in if 0 < sgn quantums then Inr (- absDeltaQuantums) else Inr absDeltaQuantums)))))))"

definition validateLiquidationAgainstSubaccountBlockLimits ::
  "'b clob_state \<Rightarrow> SubaccountId \<Rightarrow> uint32 \<Rightarrow> uint64 \<Rightarrow> int \<Rightarrow> unit res" where
  "validateLiquidationAgainstSubaccountBlockLimits s subaccountId perpetualId fillAmount insuranceFundDeltaQuoteQuantums =
     bindr (GetSubaccountMaxNotionalLiquidatable s subaccountId perpetualId) (\<lambda>bigMaxNotionalLiquidatable.
     bindr (GetNetNotional s perpetualId (uint fillAmount)) (\<lambda>bigNotionalLiquidated.
       if cmp_int \<bar>bigNotionalLiquidated\<bar> \<bar>bigMaxNotionalLiquidatable\<bar> > 0
       then Inl (Err ''ErrLiquidationExceedsSubaccountMaxNotionalLiquidated'')
       else if sgn insuranceFundDeltaQuoteQuantums = - 1
       then bindr (GetSubaccountMaxInsuranceLost s subaccountId perpetualId) (\<lambda>bigMaxQuantumsInsuranceLost.
              if cmp_int \<bar>insuranceFundDeltaQuoteQuantums\<bar> \<bar>bigMaxQuantumsInsuranceLost\<bar> > 0
              then Inl (Err ''ErrLiquidationExceedsSubaccountMaxInsuranceLost'') else Inr ())
       else Inr ()))"

definition validateMatchedLiquidation ::
  "'b sdk \<Rightarrow> 'b clob_state \<Rightarrow> MatchableOrder \<Rightarrow> uint32 \<Rightarrow> uint64 \<Rightarrow> uint64 \<Rightarrow> int res" where
  "validateMatchedLiquidation x s ord perpetualId fillAmount makerSubticks =
     (if \<not> mo_IsLiquidation ord
      then Inl (Panic ''Expected validateMatchedLiquidation to be called with a liquidation order'')
      else let liquidatedSubaccountId = mo_GetSubaccountId ord
           in bindr (GetLiquidationInsuranceFundDelta s liquidatedSubaccountId perpetualId (mo_IsBuy ord) fillAmount makerSubticks)
                (\<lambda>insuranceFundDelta.
              bindr (IsValidInsuranceFundDelta x s insuranceFundDelta perpetualId) (\<lambda>valid.
                if \<not> valid then Inl (Err ''ErrInsuranceFundHasInsufficientFunds'')
                else bindr (validateLiquidationAgainstSubaccountBlockLimits s liquidatedSubaccountId perpetualId fillAmount
                              insuranceFundDelta) (\<lambda>_. Inr insuranceFundDelta))))"

section \<open>Definitions: liquidation orders\<close>

definition rotate_from :: "nat \<Rightarrow> 'a list \<Rightarrow> 'a list" where
  "rotate_from off xs = map (\<lambda>i. xs ! ((i + off) mod length xs)) [0..<length xs]"

text \<open>The seed is the previous block time; the offset is \<^verbatim>\<open>Intn\<close> of the number of positions.\<close>

definition GetPerpetualPositionToLiquidate :: "('b, 'd, 'v) clob_env \<Rightarrow> 'b clob_state \<Rightarrow> SubaccountId \<Rightarrow> uint32 res" where
  "GetPerpetualPositionToLiquidate e s subaccountId =
     (let positions = sa_PerpetualPositions (GetSubaccount (c_sub s) subaccountId);
          info = GetSubaccountLiquidationInfo (c_liqInfos s) subaccountId;
          indexOffset = e_Intn e (prev_block_time s) (length positions)
      in case find (\<lambda>position. \<not> HasPerpetualBeenLiquidatedForSubaccount info (po_PerpetualId position))
                (rotate_from indexOffset positions) of
           Some position \<Rightarrow> Inr (po_PerpetualId position)
         | None \<Rightarrow> Inl (Err ''ErrNoPerpetualPositionsToLiquidate''))"

definition GetLiquidationOrderForPerpetual :: "'b clob_state \<Rightarrow> SubaccountId \<Rightarrow> uint32 \<Rightarrow> LiquidationOrder res" where
  "GetLiquidationOrderForPerpetual s subaccountId perpetualId =
     bindr (GetLiquidatablePositionSizeDelta s subaccountId perpetualId) (\<lambda>deltaQuantums.
     bindr (GetFillablePrice s subaccountId perpetualId deltaQuantums) (\<lambda>fillablePriceRat.
       let isLiquidatingLong = (sgn deltaQuantums = - 1)
       in bindr (mustGetClobPairForPerpetualId s perpetualId) (\<lambda>clobPair.
          bindr (ConvertFillablePriceToSubticks fillablePriceRat isLiquidatingLong clobPair) (\<lambda>fillablePriceSubticks.
            NewLiquidationOrder subaccountId clobPair (\<not> isLiquidatingLong) (Uint64 \<bar>deltaQuantums\<bar>) fillablePriceSubticks))))"

definition MaybeGetLiquidationOrder :: "('b, 'd, 'v) clob_env \<Rightarrow> 'b clob_state \<Rightarrow> SubaccountId \<Rightarrow> LiquidationOrder res" where
  "MaybeGetLiquidationOrder e s subaccountId =
     bindr (EnsureIsLiquidatable s subaccountId) (\<lambda>_.
     bindr (GetPerpetualPositionToLiquidate e s subaccountId) (GetLiquidationOrderForPerpetual s subaccountId))"

definition getAbsPercentageDiffFromOraclePrice :: "'b clob_state \<Rightarrow> LiquidationOrder \<Rightarrow> rat res" where
  "getAbsPercentageDiffFromOraclePrice s liquidationOrder =
     bindr (mustGetClobPair s (lo_clobPairId liquidationOrder)) (\<lambda>clobPair.
     bindr (GetOraclePriceSubticksRat s clobPair) (\<lambda>oraclePriceRat.
       Inr \<bar>(of_int (uint (lo_subticks liquidationOrder)) - oraclePriceRat) / oraclePriceRat\<bar>))"

definition getQuoteQuantumsForLiquidationOrder :: "'b clob_state \<Rightarrow> LiquidationOrder \<Rightarrow> int res" where
  "getQuoteQuantumsForLiquidationOrder s liquidationOrder =
     must (GetNetNotional s (pli_PerpetualId (lo_perpetualLiquidationInfo liquidationOrder)) (uint (lo_quantums liquidationOrder)))"

text \<open>
  The keys of the sort: larger distance from the oracle price first, then larger size, then hash.
  The comparison reads the state only, so the keys are computed once per order; an order whose key
  panics panics as soon as it is compared, that is, when there are at least two.
\<close>

definition liquidation_key ::
  "(LiquidationOrder \<Rightarrow> OrderHash) \<Rightarrow> 'b clob_state \<Rightarrow> LiquidationOrder \<Rightarrow> ((rat \<times> int \<times> OrderHash) \<times> LiquidationOrder) res" where
  "liquidation_key GetOrderHash s ord =
     bindr (getAbsPercentageDiffFromOraclePrice s ord) (\<lambda>diff.
     bindr (getQuoteQuantumsForLiquidationOrder s ord) (\<lambda>quote. Inr ((- diff, - quote, GetOrderHash ord), ord)))"

definition SortLiquidationOrders ::
  "(LiquidationOrder \<Rightarrow> OrderHash) \<Rightarrow> 'b clob_state \<Rightarrow> LiquidationOrder list \<Rightarrow> LiquidationOrder list res" where
  "SortLiquidationOrders GetOrderHash s liquidationOrders =
     (if length liquidationOrders < 2 then Inr liquidationOrders
      else bindr (map_res (liquidation_key GetOrderHash s) liquidationOrders) (\<lambda>keyed. Inr (map snd (sort_key fst keyed))))"

section \<open>The price of a liquidation order\<close>

definition price_subticks :: "rat \<Rightarrow> ClobPair \<Rightarrow> rat" where
  "price_subticks price clobPair =
     (case BigPow10 (cp_QuantumConversionExponent clobPair) of (p10, inv10) \<Rightarrow>
        if inv10 then of_int p10 * price else price / of_int p10)"

definition max_subticks :: "ClobPair \<Rightarrow> int" where
  "max_subticks clobPair = (2 ^ 64 - 1) div uint (cp_SubticksPerTick clobPair) * uint (cp_SubticksPerTick clobPair)"

lemma round_to_tick:
  assumes m: "0 < m" and r: "BigIntRoundToMultiple (BigRatRound x up) m up = Inr r"
  shows "m dvd r" "if up then x \<le> of_int r \<and> of_int r < x + of_int m else of_int r \<le> x \<and> x < of_int r + of_int m"
proof -
  obtain r' where "BigIntRoundToMultiple (BigRatRound x up) m up = Inr r'" "m dvd r'"
    "if up then BigRatRound x up \<le> r' \<and> r' < BigRatRound x up + m else r' \<le> BigRatRound x up \<and> BigRatRound x up < r' + m"
    using BigIntRoundToMultiple_spec[OF m] by blast
  then have s: "m dvd r" "if up then BigRatRound x up \<le> r \<and> r < BigRatRound x up + m
      else r \<le> BigRatRound x up \<and> BigRatRound x up < r + m" using r by auto
  show "m dvd r" by (rule s(1))
  show "if up then x \<le> of_int r \<and> of_int r < x + of_int m else of_int r \<le> x \<and> x < of_int r + of_int m"
  proof (cases up)
    case True
    then have "\<lceil>x\<rceil> \<le> r" "r < \<lceil>x\<rceil> + m" using s(2) by (simp_all add: BigRatRound_ceiling)
    then have "x \<le> of_int r" "r - m < \<lceil>x\<rceil>" by (simp_all add: ceiling_le_iff)
    then have "of_int (r - m) < x" by (simp add: less_ceiling_iff)
    then show ?thesis using True \<open>x \<le> of_int r\<close> by simp
  next
    case False
    then have "r \<le> \<lfloor>x\<rfloor>" "\<lfloor>x\<rfloor> < r + m" using s(2) by (simp_all add: BigRatRound_floor)
    then have "of_int r \<le> x" "x < of_int (r + m)" by (simp_all add: le_floor_iff floor_less_iff)
    then show ?thesis using False by simp
  qed
qed

lemma max_tick_word:
  fixes t :: uint32
  assumes "t \<noteq> 0"
  shows "uint (- 1 - (- 1 mod ucast t) :: uint64) = (2 ^ 64 - 1) div uint t * uint t"
proof -
  have u: "uint (ucast t :: uint64) = uint t" using uint_lt2p[of t] by (simp add: uint_up_ucast is_up)
  have md: "uint (- 1 mod ucast t :: uint64) = (2 ^ 64 - 1) mod uint t"
    using u by (simp add: uint_mod unsigned_minus_1_eq_mask mask_eq_exp_minus_1)
  have "uint (- 1 - (- 1 mod ucast t) :: uint64) = 2 ^ 64 - 1 - (2 ^ 64 - 1) mod uint t"
    using md by (subst uint_minus_simple_alt[THEN iffD1]) (simp_all add: unsigned_minus_1_eq_mask mask_eq_exp_minus_1)
  then show ?thesis by (simp add: minus_mod_eq_div_mult)
qed


lemma uint64_clamp:
  "uint lo \<le> uint hi \<Longrightarrow> uint (BigUint64Clamp n lo hi) = min (max n (uint lo)) (uint hi)"
proof -
  assume le: "uint lo \<le> uint hi"
  have "uint (word_of_int n :: uint64) = n" if "uint lo \<le> n" "n \<le> uint hi"
  proof -
    have "0 \<le> n" using that(1) uint_ge_0[of lo] by linarith
    moreover have "n < 2 ^ 64" using that(2) uint_lt2p[of hi] by simp
    ultimately show ?thesis by (simp add: uint_word_of_int)
  qed
  then show ?thesis using le by (auto simp: BigUint64Clamp_def cmp_int_def)
qed

lemma ConvertFillablePriceToSubticks_spec:
  assumes price: "0 \<le> price" and t: "cp_SubticksPerTick cp \<noteq> 0"
  shows "\<exists>q r. ConvertFillablePriceToSubticks price up cp = Inr q \<and> q \<noteq> 0 \<and>
    uint (cp_SubticksPerTick cp) dvd uint q \<and> uint q = min (max r (uint (cp_SubticksPerTick cp))) (max_subticks cp) \<and>
    (if up then price_subticks price cp \<le> of_int r \<and> of_int r < price_subticks price cp + of_int (uint (cp_SubticksPerTick cp))
     else of_int r \<le> price_subticks price cp \<and> price_subticks price cp < of_int r + of_int (uint (cp_SubticksPerTick cp)))"
proof -
  let ?t = "uint (cp_SubticksPerTick cp)" and ?w = "ucast (cp_SubticksPerTick cp) :: uint64"
  have t0: "0 < ?t" using t by (simp add: uint_pos_iff)
  have w: "uint ?w = ?t" using uint_lt2p[of "cp_SubticksPerTick cp"] by (simp add: uint_up_ucast is_up)
  have hi: "uint (- 1 - (- 1 mod ?w)) = max_subticks cp" unfolding max_subticks_def by (rule max_tick_word[OF t])
  have lohi: "?t \<le> max_subticks cp"
  proof -
    have "?t < 2 ^ 32" using uint_lt2p[of "cp_SubticksPerTick cp"] by simp
    then have "0 < (2 ^ 64 - 1) div ?t" using t0 by (subst pos_imp_zdiv_pos_iff) simp_all
    then have "1 \<le> (2 ^ 64 - 1) div ?t" by linarith
    then have "1 * ?t \<le> (2 ^ 64 - 1) div ?t * ?t" using t0 by (intro mult_right_mono) simp_all
    then show ?thesis by (simp add: max_subticks_def)
  qed
  obtain p10 i where p10: "BigPow10 (cp_QuantumConversionExponent cp) = (p10, i)" by fastforce
  let ?x = "price_subticks price cp"
  have x: "?x = (if i then of_int p10 * price else price / of_int p10)" by (simp add: price_subticks_def p10)
  obtain r where r: "BigIntRoundToMultiple (BigRatRound ?x up) ?t up = Inr r"
    using BigIntRoundToMultiple_spec[OF t0] by blast
  note R = round_to_tick[OF t0 r]
  define q where "q = BigUint64Clamp r ?w (- 1 - (- 1 mod ?w))"
  have q: "uint q = min (max r ?t) (max_subticks cp)"
    unfolding q_def using uint64_clamp[of ?w "- 1 - (- 1 mod ?w)" r] lohi unfolding w hi by simp
  have dvd: "?t dvd uint q"
    using R(1) unfolding q by (auto simp: min_def max_def max_subticks_def)
  have "uint q \<noteq> 0" using q lohi t0 by auto
  then have nz: "q \<noteq> 0" by (metis unsigned_0)
  have "uint (q mod ?w) = 0" using dvd by (simp add: uint_mod w dvd_imp_mod_0)
  then have al: "q mod ?w = 0" by (simp add: uint_0_iff)
  have "ConvertFillablePriceToSubticks price up cp = Inr q"
    using price r nz al unfolding ConvertFillablePriceToSubticks_def Let_def p10 prod.case x q_def by simp
  then show ?thesis using nz dvd q R(2) by blast
qed

text \<open>The size: a reduction, all of the position or a multiple of the step size.\<close>

lemma GetLiquidatablePositionSizeDelta_spec:
  assumes run: "GetLiquidatablePositionSizeDelta s i k = Inr d"
    and pair: "mustGetClobPairForPerpetualId s k = Inr cp" "cp_StepBaseQuantums cp \<noteq> 0"
    and nz: "position_quantums s i k \<noteq> 0"
  shows "d = - position_quantums s i k \<or> uint (cp_StepBaseQuantums cp) dvd d \<and>
      0 < \<bar>d\<bar> \<and> \<bar>d\<bar> \<le> \<bar>position_quantums s i k\<bar> \<and> sgn d = - sgn (position_quantums s i k)"
proof -
  let ?p = "position_quantums s i k" and ?st = "uint (cp_StepBaseQuantums cp)"
  have st: "0 < ?st" using pair(2) by (simp add: uint_pos_iff)
  from run obtain pos where pos: "GetPerpetualPositionForId (GetSubaccount (c_sub s) i) k = Some pos" "po_Quantums pos = ?p"
    by (auto simp: GetLiquidatablePositionSizeDelta_def position_quantums_def split: option.splits)
  consider "d = - ?p" | a b where "BigIntRoundToMultiple a ?st False = Inr b" "\<bar>?st\<bar> < \<bar>?p\<bar>"
      "d = (if 0 < ?p then - BigIntClamp b ?st \<bar>?p\<bar> else BigIntClamp b ?st \<bar>?p\<bar>)"
    using run pos pair(1)
    by (auto simp: GetLiquidatablePositionSizeDelta_def res_simps Let_def split: if_splits prod.splits)
  then show ?thesis
  proof cases
    case (2 a b)
    have "?st dvd b" using BigIntRoundToMultiple_spec[OF st] 2(1) by (metis sum.inject(2))
    then have "BigIntClamp b ?st \<bar>?p\<bar> = \<bar>?p\<bar> \<or> ?st dvd BigIntClamp b ?st \<bar>?p\<bar>"
      by (auto simp: BigIntClamp_def bigGenericClamp_def)
    moreover have "0 < BigIntClamp b ?st \<bar>?p\<bar>" "BigIntClamp b ?st \<bar>?p\<bar> \<le> \<bar>?p\<bar>"
      using st 2(2) by (auto simp: BigIntClamp_def bigGenericClamp_def)
    ultimately show ?thesis using 2(3) nz by (cases "0 < ?p") auto
  qed simp
qed


text \<open>The CLOB pair of a perpetual is for that perpetual and has a step size and a tick size.\<close>

definition pairs_ok :: "'b clob_state \<Rightarrow> bool" where
  "pairs_ok s \<longleftrightarrow> (\<forall>k cp. mustGetClobPairForPerpetualId s k = Inr cp \<longrightarrow>
     cp_StepBaseQuantums cp \<noteq> 0 \<and> cp_SubticksPerTick cp \<noteq> 0 \<and> ClobPair_GetPerpetualId cp = Inr k)"

lemma GetPerpetualPositionToLiquidate_spec:
  assumes "GetPerpetualPositionToLiquidate e s i = Inr k"
  shows "k \<in> po_PerpetualId ` set (sa_PerpetualPositions (GetSubaccount (c_sub s) i)) \<and>
    \<not> HasPerpetualBeenLiquidatedForSubaccount (GetSubaccountLiquidationInfo (c_liqInfos s) i) k"
proof -
  let ?ps = "sa_PerpetualPositions (GetSubaccount (c_sub s) i)"
  obtain off pos where f: "find (\<lambda>position. \<not> HasPerpetualBeenLiquidatedForSubaccount (GetSubaccountLiquidationInfo (c_liqInfos s) i)
      (po_PerpetualId position)) (rotate_from off ?ps) = Some pos" "k = po_PerpetualId pos"
    using assms by (auto simp: GetPerpetualPositionToLiquidate_def Let_def split: option.splits)
  then have "pos \<in> set (rotate_from off ?ps)"
    "\<not> HasPerpetualBeenLiquidatedForSubaccount (GetSubaccountLiquidationInfo (c_liqInfos s) i) (po_PerpetualId pos)"
    by (auto simp: find_Some_iff)
  moreover have "set (rotate_from off ?ps) \<subseteq> set ?ps" by (auto simp: rotate_from_def intro!: nth_mem mod_less_divisor)
  ultimately show ?thesis using f(2) by auto
qed

text \<open>
  C12: On well-formed pairs and for positions below \<open>2\<^sup>64\<close> quantums, a liquidation order is only created for an account below its maintenance margin, and it is well
  formed: it closes a position the account holds, one not yet liquidated in this block, on the pair of that
  perpetual; a long position is sold, a short one bought; the size is positive, never larger than the position
  and a multiple of the step size unless it closes the position; the price is a positive multiple of the tick
  size, and it is the fillable price of the account, moved by less than one tick in the account's favour
  (up for a sale, down for a buy) and then clamped to the range from one tick to the largest representable price.
\<close>

theorem liquidation_order_well_formed:
  assumes run: "MaybeGetLiquidationOrder e s i = Inr lo" and pairs: "pairs_ok s"
    and pos: "\<forall>p\<in>set (sa_PerpetualPositions (GetSubaccount (c_sub s) i)). po_Quantums p \<noteq> 0 \<and> \<bar>po_Quantums p\<bar> < 2 ^ 64"
  shows "\<exists>k cp risk price r. subaccount_risk s i = Inr risk \<and> IsLiquidatable risk \<and>
    k \<in> po_PerpetualId ` set (sa_PerpetualPositions (GetSubaccount (c_sub s) i)) \<and>
    \<not> HasPerpetualBeenLiquidatedForSubaccount (GetSubaccountLiquidationInfo (c_liqInfos s) i) k \<and>
    mustGetClobPairForPerpetualId s k = Inr cp \<and> lo_clobPairId lo = cp_Id cp \<and>
    lo_perpetualLiquidationInfo lo = \<lparr>pli_SubaccountId = i, pli_PerpetualId = k\<rparr> \<and>
    (lo_isBuy lo \<longleftrightarrow> position_quantums s i k < 0) \<and> lo_quantums lo \<noteq> 0 \<and>
    uint (lo_quantums lo) \<le> \<bar>position_quantums s i k\<bar> \<and>
    (uint (lo_quantums lo) = \<bar>position_quantums s i k\<bar> \<or> uint (cp_StepBaseQuantums cp) dvd uint (lo_quantums lo)) \<and>
    GetFillablePrice s i k (LiquidationOrder_GetDeltaQuantums lo) = Inr price \<and>
    lo_subticks lo \<noteq> 0 \<and> uint (cp_SubticksPerTick cp) dvd uint (lo_subticks lo) \<and>
    uint (lo_subticks lo) = min (max r (uint (cp_SubticksPerTick cp))) (max_subticks cp) \<and>
    (if lo_isBuy lo
     then of_int r \<le> price_subticks price cp \<and> price_subticks price cp < of_int r + of_int (uint (cp_SubticksPerTick cp))
     else price_subticks price cp \<le> of_int r \<and> of_int r < price_subticks price cp + of_int (uint (cp_SubticksPerTick cp)))"
proof -
  obtain risk k d price cp q where st: "subaccount_risk s i = Inr risk" "IsLiquidatable risk"
    "GetPerpetualPositionToLiquidate e s i = Inr k" "GetLiquidatablePositionSizeDelta s i k = Inr d"
    "GetFillablePrice s i k d = Inr price" "mustGetClobPairForPerpetualId s k = Inr cp"
    "ConvertFillablePriceToSubticks price (sgn d = - 1) cp = Inr q"
    "NewLiquidationOrder i cp (\<not> sgn d = - 1) (Uint64 \<bar>d\<bar>) q = Inr lo"
    using run by (auto simp: MaybeGetLiquidationOrder_def EnsureIsLiquidatable_def clob_IsLiquidatable_def
        GetLiquidationOrderForPerpetual_def res_simps Let_def split: if_splits)
  note K = GetPerpetualPositionToLiquidate_spec[OF st(3)]
  have cp: "cp_StepBaseQuantums cp \<noteq> 0" "cp_SubticksPerTick cp \<noteq> 0" "ClobPair_GetPerpetualId cp = Inr k"
    using pairs st(6) by (auto simp: pairs_ok_def)
  let ?p = "position_quantums s i k"
  from st(4) obtain po where po: "GetPerpetualPositionForId (GetSubaccount (c_sub s) i) k = Some po"
    by (auto simp: GetLiquidatablePositionSizeDelta_def split: option.splits)
  then have "?p = po_Quantums po" by (simp add: position_quantums_def)
  moreover have "po \<in> set (sa_PerpetualPositions (GetSubaccount (c_sub s) i))"
    using po by (auto simp: GetPerpetualPositionForId_def find_Some_iff)
  ultimately have p: "?p \<noteq> 0" "\<bar>?p\<bar> < 2 ^ 64" using pos by auto
  have d: "(d = - ?p \<or> uint (cp_StepBaseQuantums cp) dvd d) \<and> 0 < \<bar>d\<bar> \<and> \<bar>d\<bar> \<le> \<bar>?p\<bar> \<and> sgn d = - sgn ?p"
    using GetLiquidatablePositionSizeDelta_spec[OF st(4,6) cp(1) p(1)] p(1) by auto
  have sz: "uint (Uint64 \<bar>d\<bar>) = \<bar>d\<bar>" using d p(2) by (intro Uint64_id) auto
  have lo: "lo = \<lparr>lo_perpetualLiquidationInfo = \<lparr>pli_SubaccountId = i, pli_PerpetualId = k\<rparr>,
      lo_clobPairId = cp_Id cp, lo_isBuy = (\<not> sgn d = - 1), lo_quantums = Uint64 \<bar>d\<bar>, lo_subticks = q\<rparr>"
    using st(8) cp(3) by (auto simp: NewLiquidationOrder_def ClobPair_GetPerpetualId_def split: ClobPair_Metadata.splits)
  have buy: "sgn d = - 1 \<longleftrightarrow> 0 < ?p" "?p < 0 \<longleftrightarrow> \<not> sgn d = - 1" using d p(1) by (auto simp: sgn_if split: if_splits)
  have delta: "LiquidationOrder_GetDeltaQuantums lo = d"
    unfolding LiquidationOrder_GetDeltaQuantums_def lo using sz d by (auto simp: sgn_if split: if_splits)
  have price: "0 \<le> price" using st(5) by (auto simp: GetFillablePrice_def res_simps Let_def split: if_splits)
  obtain r where r: "q \<noteq> 0" "uint (cp_SubticksPerTick cp) dvd uint q"
    "uint q = min (max r (uint (cp_SubticksPerTick cp))) (max_subticks cp)"
    "if sgn d = - 1 then price_subticks price cp \<le> of_int r \<and> of_int r < price_subticks price cp + of_int (uint (cp_SubticksPerTick cp))
     else of_int r \<le> price_subticks price cp \<and> price_subticks price cp < of_int r + of_int (uint (cp_SubticksPerTick cp))"
    using ConvertFillablePriceToSubticks_spec[OF price cp(2), of "sgn d = - 1"] st(7) by auto
  have nz: "Uint64 \<bar>d\<bar> \<noteq> 0" using sz d by (metis less_irrefl unsigned_0)
  have size: "uint (Uint64 \<bar>d\<bar>) = \<bar>?p\<bar> \<or> uint (cp_StepBaseQuantums cp) dvd uint (Uint64 \<bar>d\<bar>)" using d unfolding sz by auto
  show ?thesis
    using st(1,2,5,6) K buy(2) nz sz d size r delta
    by (intro exI[of _ k] exI[of _ cp] exI[of _ risk] exI[of _ price] exI[of _ r]) (auto simp: lo)
qed


text \<open>An account with one bitcoin bought on credit that is below its maintenance margin.\<close>

definition ex_underwater :: "unit clob_state" where
  "ex_underwater = ex_clob\<lparr>c_sub := ex_state\<lparr>ks_subaccounts :=
     [ex_id 0 \<mapsto> ex_subaccount 0 (- 49000000000) 10000000000]\<rparr>\<rparr>"

lemma ex_underwater_run:
  "MaybeGetLiquidationOrder ex_env ex_underwater (ex_id 0) = Inr
     \<lparr>lo_perpetualLiquidationInfo = \<lparr>pli_SubaccountId = ex_id 0, pli_PerpetualId = 0\<rparr>,
      lo_clobPairId = 0, lo_isBuy = False, lo_quantums = 1000000000, lo_subticks = 4925004500\<rparr>"
  by code_simp

lemma ex_underwater_pairs: "pairs_ok ex_underwater"
  by (auto simp: pairs_ok_def mustGetClobPairForPerpetualId_def GetClobPairIdForPerpetual_def mustGetClobPair_def GetClobPair_def
      gm_get_def ex_underwater_def ex_clob_def ex_pair_def must_def ClobPair_GetPerpetualId_def res_simps split: if_splits)

theorem liquidation_order_well_formed_witness:
  "\<exists>lo risk. MaybeGetLiquidationOrder ex_env ex_underwater (ex_id 0) = Inr lo \<and> \<not> lo_isBuy lo \<and>
     subaccount_risk ex_underwater (ex_id 0) = Inr risk \<and> IsLiquidatable risk"
proof -
  have "GetSubaccount (c_sub ex_underwater) (ex_id 0) = ex_subaccount 0 (- 49000000000) 10000000000"
    by (simp add: GetSubaccount_def ex_underwater_def)
  then have "\<forall>p\<in>set (sa_PerpetualPositions (GetSubaccount (c_sub ex_underwater) (ex_id 0))).
      po_Quantums p \<noteq> 0 \<and> \<bar>po_Quantums p\<bar> < 2 ^ 64" by (simp add: ex_subaccount_def)
  from liquidation_order_well_formed[OF ex_underwater_run ex_underwater_pairs this] ex_underwater_run show ?thesis by auto
qed

end
