(* ===== verification/ProcessMatch.thy ===== *)
theory ProcessMatch
  imports Liquidations
begin

text \<open>
  Execution of one match by the \<^verbatim>\<open>x/clob\<close> keeper (\<^verbatim>\<open>process_single_match.go\<close>): validation, fees, insurance fund
  and builder payments, the update of the two subaccounts, distribution of the fees, statistics,
  rewards and fill amounts. The Go functions return several values next to the error, also when
  they fail, and write to the match they are given; the record \<open>match_run\<close> holds these registers next to
  the state of the keeper.
\<close>

section \<open>Definitions: registers of a run\<close>

record 'b match_run =
  r_state :: "'b clob_state"
  r_match :: MatchWithOrders
  r_takerUpdateResult :: UpdateResult
  r_makerUpdateResult :: UpdateResult
  r_affiliateRevShares :: "int option"

definition on_state :: "('b clob_state, 'a) step \<Rightarrow> ('b match_run, 'a) step" where
  "on_state m r = (case m (r_state r) of (x, s) \<Rightarrow> (x, r\<lparr>r_state := s\<rparr>))"

section \<open>Definitions: attribution of volume to affiliates\<close>

definition getAttributableVolume :: "'b clob_state \<Rightarrow> string \<Rightarrow> uint64 \<Rightarrow> AffiliateParameters \<Rightarrow> uint64" where
  "getAttributableVolume s referee volume affiliateParameters =
     (let refereeUserStats = GetUserStats (c_stats s) referee;
          previouslyAttributedVolume = us_Affiliate_30DAttributedVolumeQuoteQuantums refereeUserStats;
          cap = ap_Maximum_30DAttributableVolume affiliateParameters
      in if cap = 0 then volume
         else if cap \<le> previouslyAttributedVolume then 0
         else if cap < previouslyAttributedVolume + volume then cap - previouslyAttributedVolume
         else volume)"

definition attribution :: "AffiliateAttribution_Role \<Rightarrow> string \<Rightarrow> uint64 \<Rightarrow> AffiliateAttribution option list" where
  "attribution role referrer volume =
     (if volume > 0
      then [Some \<lparr>aa_Role = role, aa_ReferrerAddress = referrer, aa_ReferredVolumeQuoteQuantums = volume\<rparr>] else [])"

definition buildAttributableVolumeAttributions ::
  "'b clob_state \<Rightarrow> RevSharesForFill \<Rightarrow> int \<Rightarrow> MatchWithOrders \<Rightarrow> AffiliateParameters \<Rightarrow> AffiliateAttribution option list" where
  "buildAttributableVolumeAttributions s revSharesForFill bigFillQuoteQuantums m affiliateParameters =
     (let owner = (\<lambda>ord. sid_Owner (mo_GetSubaccountId ord));
          volume = (\<lambda>addr. getAttributableVolume s addr (Uint64 bigFillQuoteQuantums) affiliateParameters);
          takerAttributions =
            (case rf_AffiliateRevShare revSharesForFill of
               None \<Rightarrow> []
             | Some share \<Rightarrow>
                 if rs_Recipient share \<noteq> [] \<and> 0 < sgn bigFillQuoteQuantums
                 then attribution ROLE_TAKER (rs_Recipient share) (volume (owner (mw_TakerOrder m))) else []);
          makerAttributions =
            (case GetReferredBy (c_affiliates s) (owner (mw_MakerOrder m)) of
               None \<Rightarrow> []
             | Some makerReferrer \<Rightarrow>
                 if makerReferrer \<noteq> [] \<and> 0 < sgn bigFillQuoteQuantums
                 then attribution ROLE_MAKER makerReferrer (volume (owner (mw_MakerOrder m))) else [])
      in takerAttributions @ makerAttributions)"

section \<open>Definitions: amounts of a match\<close>

definition taker_quote_delta :: "MatchWithOrders \<Rightarrow> int \<Rightarrow> int \<Rightarrow> int \<Rightarrow> int \<Rightarrow> int" where
  "taker_quote_delta m bigFillQuoteQuantums takerFee insuranceFundDelta takerBuilderFee =
     (if mo_IsBuy (mw_TakerOrder m) then - bigFillQuoteQuantums else bigFillQuoteQuantums)
       - takerFee - (if mo_IsLiquidation (mw_TakerOrder m) then insuranceFundDelta else 0) - takerBuilderFee"

definition maker_quote_delta :: "MatchWithOrders \<Rightarrow> int \<Rightarrow> int \<Rightarrow> int \<Rightarrow> int" where
  "maker_quote_delta m bigFillQuoteQuantums makerFee makerBuilderFee =
     (if mo_IsBuy (mw_TakerOrder m) then bigFillQuoteQuantums else - bigFillQuoteQuantums) - makerFee - makerBuilderFee"

definition taker_perpetual_delta :: "MatchWithOrders \<Rightarrow> int" where
  "taker_perpetual_delta m = (if mo_IsBuy (mw_TakerOrder m) then uint (mw_FillAmount m) else - uint (mw_FillAmount m))"

definition maker_perpetual_delta :: "MatchWithOrders \<Rightarrow> int" where
  "maker_perpetual_delta m = (if mo_IsBuy (mw_TakerOrder m) then - uint (mw_FillAmount m) else uint (mw_FillAmount m))"

definition match_update :: "SubaccountId \<Rightarrow> uint32 \<Rightarrow> int \<Rightarrow> int \<Rightarrow> Update" where
  "match_update subaccountId perpetualId quoteDelta perpetualDelta =
     \<lparr>u_SubaccountId = subaccountId,
      u_AssetUpdates = [\<lparr>au_AssetId = AssetUsdcId, au_BigQuantumsDelta = quoteDelta\<rparr>],
      u_PerpetualUpdates = [\<lparr>pu_PerpetualId = perpetualId, pu_BigQuantumsDelta = perpetualDelta, pu_BigQuoteBalanceDelta = 0\<rparr>]\<rparr>"

definition GetBuilderAddress :: "BuilderCodeParameters option \<Rightarrow> string" where
  "GetBuilderAddress b = (case b of None \<Rightarrow> [] | Some p \<Rightarrow> bc_BuilderAddress p)"

definition router_fee :: "RevSharesForFill \<Rightarrow> MatchableOrder \<Rightarrow> int" where
  "router_fee revSharesForFill ord =
     fold (\<lambda>revShare acc.
         if rs_Recipient revShare = mo_GetOrderRouterAddress ord \<and> rs_RevShareType revShare = REV_SHARE_TYPE_ORDER_ROUTER
         then acc + rs_QuoteQuantums revShare else acc)
       (rf_AllRevShares revSharesForFill) 0"

section \<open>Definitions: persistMatchedOrders\<close>

text \<open>The fee fields of the match; a liquidation pays the insurance fund instead of the taker fee.\<close>

definition set_fee_fields :: "int \<Rightarrow> int \<Rightarrow> int \<Rightarrow> MatchWithOrders \<Rightarrow> MatchWithOrders" where
  "set_fee_fields takerFee makerFee insuranceFundDelta m =
     m\<lparr>mw_MakerFee := word_of_int makerFee,
       mw_TakerFee := word_of_int (if mo_IsLiquidation (mw_TakerOrder m) then insuranceFundDelta else takerFee)\<rparr>"

text \<open>Applying the two updates sets the registers of the results before any of the checks on them.\<close>

definition apply_match_updates :: "'b sdk \<Rightarrow> Update list \<Rightarrow> ('b match_run, unit) step" where
  "apply_match_updates x updates r =
     (case on_state (on_sub (UpdateSubaccounts x updates Match)) r of
        (Inl (Err n), r) \<Rightarrow> (Inl (Err n), r\<lparr>r_takerUpdateResult := UpdateCausedError, r_makerUpdateResult := UpdateCausedError\<rparr>)
      | (Inl (Panic n), r) \<Rightarrow> (Inl (Panic n), r)
      | (Inr (success, successPerUpdate), r) \<Rightarrow>
          (case successPerUpdate of
             taker # maker # _ \<Rightarrow>
               let r = r\<lparr>r_takerUpdateResult := taker, r_makerUpdateResult := maker\<rparr>
               in (case GetErrorFromUpdateResults success successPerUpdate updates of
                     Inl e \<Rightarrow> (Inl e, r)
                   | Inr _ \<Rightarrow>
                       if \<not> success
                       then (Inl (Panic ''persistMatchedOrders: UpdateSubaccounts failed but err == nil''), r)
                       else (Inr (), r))
           | _ \<Rightarrow> (Inl (Panic ''index out of range''), r)))"

definition match_fill :: "'b clob_state \<Rightarrow> MatchWithOrders \<Rightarrow> Perpetual \<Rightarrow> uint32 \<Rightarrow> int \<Rightarrow> int \<Rightarrow> int \<Rightarrow> FillForProcess" where
  "match_fill s m perpetual perpetualId takerFee makerFee bigFillQuoteQuantums =
     \<lparr>fp_TakerAddr = sid_Owner (mo_GetSubaccountId (mw_TakerOrder m)),
      fp_TakerFeeQuoteQuantums = takerFee,
      fp_MakerAddr = sid_Owner (mo_GetSubaccountId (mw_MakerOrder m)),
      fp_MakerFeeQuoteQuantums = makerFee,
      fp_FillQuoteQuantums = bigFillQuoteQuantums,
      fp_ProductId = perpetualId,
      fp_MonthlyRollingTakerVolumeQuantums =
        us_TakerNotional (GetUserStats (c_stats s) (sid_Owner (mo_GetSubaccountId (mw_TakerOrder m)))),
      fp_MarketId = pp_MarketId (p_Params perpetual),
      fp_TakerOrderRouterAddr = mo_GetOrderRouterAddress (mw_TakerOrder m),
      fp_MakerOrderRouterAddr = mo_GetOrderRouterAddress (mw_MakerOrder m)\<rparr>"

text \<open>An error of the revenue shares is logged and leaves none; a panic is one.\<close>

definition rev_shares_for_fill ::
  "('b, 'd, 'v) clob_env \<Rightarrow> 'b clob_state \<Rightarrow> FillForProcess \<Rightarrow> string set option \<Rightarrow> AffiliateParameters \<Rightarrow> RevSharesForFill res" where
  "rev_shares_for_fill e s fill affiliateOverrides affiliateParameters =
     (case GetAllRevShares (x_AccAddressFromBech32 (e_sdk e)) (e_toBech32 e) (ks_ctx (c_sub s)) (c_revshare s) (c_affiliates s)
             (c_stats s) fill affiliateOverrides affiliateParameters of
        Inl (Err _) \<Rightarrow> Inr empty_RevSharesForFill
      | r \<Rightarrow> r)"

text \<open>Distribution of the fees, with the register of the affiliate share set before it.\<close>

definition distribute_match_fees :: "'b sdk \<Rightarrow> RevSharesForFill \<Rightarrow> FillForProcess \<Rightarrow> ('b match_run, unit) step" where
  "distribute_match_fees x revSharesForFill fill r =
     (let r = (case rf_AffiliateRevShare revSharesForFill of
                 None \<Rightarrow> r | Some share \<Rightarrow> r\<lparr>r_affiliateRevShares := Some (rs_QuoteQuantums share)\<rparr>)
      in case on_state (on_sub (DistributeFees x AssetUsdcId revSharesForFill fill)) r of
           (Inl (Err _), r) \<Rightarrow> (Inl (Err ''ErrSubaccountFeeTransferFailed''), r)
         | y \<Rightarrow> y)"

text \<open>Trade prices, rewards and statistics of the fill.\<close>

definition record_fill ::
  "uint32 \<Rightarrow> MatchWithOrders \<Rightarrow> FillForProcess \<Rightarrow> RevSharesForFill \<Rightarrow> int \<Rightarrow> AffiliateParameters \<Rightarrow> 'b clob_state \<Rightarrow> 'b clob_state" where
  "record_fill perpetualId m fill revSharesForFill affiliateRevShares affiliateParameters s =
     (let s = s\<lparr>c_trades := SetTradePricesForPerpetual perpetualId (mo_GetOrderSubticks (mw_MakerOrder m)) (c_trades s)\<rparr>;
          s = s\<lparr>c_rewards := AddRewardSharesForFill (c_fees s) fill revSharesForFill (c_rewards s)\<rparr>;
          attributions = buildAttributableVolumeAttributions s revSharesForFill (fp_FillQuoteQuantums fill) m affiliateParameters
      in s\<lparr>c_stats := RecordFill (fp_TakerAddr fill) (fp_MakerAddr fill) (fp_FillQuoteQuantums fill) affiliateRevShares
                        attributions (c_stats s)\<rparr>)"

definition set_router_fees :: "RevSharesForFill \<Rightarrow> MatchWithOrders \<Rightarrow> MatchWithOrders" where
  "set_router_fees revSharesForFill m =
     m\<lparr>mw_MakerOrderRouterFee := Uint64 (router_fee revSharesForFill (mw_MakerOrder m)),
       mw_TakerOrderRouterFee := Uint64 (router_fee revSharesForFill (mw_TakerOrder m))\<rparr>"

text \<open>The fees of builders: of the maker always, of the taker unless it is a liquidation.\<close>

definition builder_params :: "MatchableOrder \<Rightarrow> BuilderCodeParameters option res" where
  "builder_params ord = bindr (mo_MustGetOrder ord) (\<lambda>ord. Inr (o_BuilderCodeParameters ord))"

definition taker_builder_params :: "MatchableOrder \<Rightarrow> BuilderCodeParameters option res" where
  "taker_builder_params ord = (if mo_IsLiquidation ord then Inr None else builder_params ord)"

definition pay_builder :: "'b sdk \<Rightarrow> uint32 \<Rightarrow> int \<Rightarrow> string \<Rightarrow> ('b match_run, unit) step" where
  "pay_builder x perpetualId fee address =
     whenM (0 < sgn fee) (on_state (on_sub (TransferBuilderFees x perpetualId fee address)))"

definition persistMatchedOrders ::
  "('b, 'd, 'v) clob_env \<Rightarrow> uint32 \<Rightarrow> int32 \<Rightarrow> int32 \<Rightarrow> int \<Rightarrow> int \<Rightarrow> string set option \<Rightarrow> AffiliateParameters
   \<Rightarrow> ('b match_run, unit) step" where
  "persistMatchedOrders e perpetualId takerFeePpm makerFeePpm bigFillQuoteQuantums insuranceFundDelta
       affiliateOverrides affiliateParameters r =
     (let x = e_sdk e;
          m = r_match r;
          takerFee = BigMulPpm bigFillQuoteQuantums (sint takerFeePpm) True;
          makerFee = BigMulPpm bigFillQuoteQuantums (sint makerFeePpm) True
      in bindM (modifyM (\<lambda>r. r\<lparr>r_affiliateRevShares := Some 0,
                                r_match := set_fee_fields takerFee makerFee insuranceFundDelta (r_match r)\<rparr>)) (\<lambda>_.
         if mo_IsLiquidation (mw_TakerOrder m) \<and> sgn takerFee \<noteq> 0
         then failM (Panic ''Taker order is liquidation and should never pay taker fees.'')
         else if mo_IsLiquidation (mw_MakerOrder m) then failM (Panic ''maker order can not be a liquidation order'')
         else
           bindM (liftM (\<lambda>_. builder_params (mw_MakerOrder m))) (\<lambda>makerBuilder.
           bindM (liftM (\<lambda>_. taker_builder_params (mw_TakerOrder m))) (\<lambda>takerBuilder.
             let makerBuilderFee = GetBuilderFee makerBuilder bigFillQuoteQuantums;
                 takerBuilderFee = GetBuilderFee takerBuilder bigFillQuoteQuantums
             in bindM (modifyM (\<lambda>r. r\<lparr>r_match := (r_match r)\<lparr>mw_MakerBuilderFee := Uint64 makerBuilderFee\<rparr>\<rparr>)) (\<lambda>_.
                bindM (whenM (\<not> mo_IsLiquidation (mw_TakerOrder m))
                         (modifyM (\<lambda>r. r\<lparr>r_match := (r_match r)\<lparr>mw_TakerBuilderFee := Uint64 takerBuilderFee\<rparr>\<rparr>))) (\<lambda>_.
                bindM (on_state (on_sub (TransferInsuranceFundPayments x insuranceFundDelta perpetualId))) (\<lambda>_.
                bindM (apply_match_updates x
                         [match_update (mo_GetSubaccountId (mw_TakerOrder m)) perpetualId
                            (taker_quote_delta m bigFillQuoteQuantums takerFee insuranceFundDelta takerBuilderFee)
                            (taker_perpetual_delta m),
                          match_update (mo_GetSubaccountId (mw_MakerOrder m)) perpetualId
                            (maker_quote_delta m bigFillQuoteQuantums makerFee makerBuilderFee)
                            (maker_perpetual_delta m)]) (\<lambda>_.
                bindM (liftM (\<lambda>r. GetPerpetual (ks_perps (c_sub (r_state r))) perpetualId)) (\<lambda>perpetual.
                bindM (pay_builder x perpetualId takerBuilderFee (GetBuilderAddress takerBuilder)) (\<lambda>_.
                bindM (pay_builder x perpetualId makerBuilderFee (GetBuilderAddress makerBuilder)) (\<lambda>_.
                bindM (readM (\<lambda>r. match_fill (r_state r) m perpetual perpetualId takerFee makerFee bigFillQuoteQuantums)) (\<lambda>fill.
                bindM (liftM (\<lambda>r. rev_shares_for_fill e (r_state r) fill affiliateOverrides affiliateParameters)) (\<lambda>revSharesForFill.
                bindM (distribute_match_fees x revSharesForFill fill) (\<lambda>_.
                  modifyM (\<lambda>r. r\<lparr>r_state := record_fill perpetualId m fill revSharesForFill
                                     (case r_affiliateRevShares r of None \<Rightarrow> 0 | Some q \<Rightarrow> q) affiliateParameters (r_state r),
                                  r_match := set_router_fees revSharesForFill (r_match r)\<rparr>))))))))))))))
         r)"

section \<open>Definitions: ProcessSingleMatch\<close>

text \<open>The new fill amount of an order and its pruneable height; nothing for a liquidation.\<close>

definition new_fill :: "'b clob_state \<Rightarrow> MatchableOrder \<Rightarrow> uint64 \<Rightarrow> (Order \<times> uint64 \<times> uint32) res" where
  "new_fill s ord fillAmount =
     bindr (mo_MustGetOrder ord) (\<lambda>order.
       let (_, curFillAmount, curPruneableBlockHeight) = GetOrderFillAmount (c_orders s) (o_OrderId order)
       in bindr (getUpdatedOrderFillAmount (mo_GetBaseQuantums ord) curFillAmount fillAmount) (\<lambda>newTotalFillAmount.
            Inr (order, newTotalFillAmount, curPruneableBlockHeight)))"

definition taker_new_fill :: "'b clob_state \<Rightarrow> MatchableOrder \<Rightarrow> uint64 \<Rightarrow> (Order \<times> uint64 \<times> uint32) option res" where
  "taker_new_fill s ord fillAmount =
     (if mo_IsLiquidation ord then Inr None
      else bindr (new_fill s ord fillAmount) (\<lambda>f. Inr (Some f)))"

definition set_fill :: "Order \<times> uint64 \<times> uint32 \<Rightarrow> 'b clob_state \<Rightarrow> 'b clob_state" where
  "set_fill f = (case f of (order, newTotalFillAmount, curPruneableBlockHeight) \<Rightarrow>
     on_orders (setOrderFillAmountsAndPruning order newTotalFillAmount curPruneableBlockHeight))"

definition update_liquidation_info :: "SubaccountId \<Rightarrow> uint32 \<Rightarrow> uint64 \<Rightarrow> int \<Rightarrow> ('b clob_state, unit) step" where
  "update_liquidation_info subaccountId perpetualId fillAmount insuranceFundDelta =
     bindM (liftM (\<lambda>s. GetNetNotional s perpetualId (uint fillAmount))) (\<lambda>notional s.
       case UpdateSubaccountLiquidationInfo subaccountId notional insuranceFundDelta (c_liqInfos s) of
         Inl e \<Rightarrow> (Inl e, s)
       | Inr m \<Rightarrow> (Inr (), s\<lparr>c_liqInfos := m\<rparr>))"

definition ProcessSingleMatch ::
  "('b, 'd, 'v) clob_env \<Rightarrow> string set option \<Rightarrow> AffiliateParameters \<Rightarrow> ('b match_run, unit) step" where
  "ProcessSingleMatch e affiliateOverrides affiliateParameters r =
     (let m = r_match r;
          maker = mw_MakerOrder m;
          taker = mw_TakerOrder m;
          fillAmount = mw_FillAmount m;
          clobPairId = mo_GetClobPairId maker;
          referreeIndexOverride = ap_RefereeMinimumFeeTierIdx affiliateParameters
      in bindM (liftM (\<lambda>_. MatchWithOrders_Validate m)) (\<lambda>_.
         bindM (liftM (\<lambda>r. case GetClobPair (r_state r) clobPairId of
                             None \<Rightarrow> Inl (Err ''ErrInvalidClob'') | Some clobPair \<Rightarrow> Inr clobPair)) (\<lambda>clobPair.
         bindM (liftM (\<lambda>_. umod fillAmount (cp_StepBaseQuantums clobPair))) (\<lambda>rest.
         if rest \<noteq> 0 then failM (Err ''ErrFillAmountNotDivisibleByStepSize'')
         else
           let bigFillQuoteQuantums =
                 FillAmountToQuoteQuantums (mo_GetOrderSubticks maker) fillAmount (cp_QuantumConversionExponent clobPair)
           in bindM (liftM (\<lambda>_. ClobPair_GetPerpetualId clobPair)) (\<lambda>perpetualId.
              bindM (on_state (clob_fee_ppm e (sid_Owner (mo_GetSubaccountId taker)) True referreeIndexOverride clobPairId)) (\<lambda>takerFeePpm.
              bindM (on_state (clob_fee_ppm e (sid_Owner (mo_GetSubaccountId maker)) False referreeIndexOverride clobPairId)) (\<lambda>makerFeePpm.
              let takerFeePpm = (if mo_IsLiquidation taker then 0 else takerFeePpm);
                  makerFeePpm = (if mo_IsLiquidation taker \<and> sint makerFeePpm < 0 then 0 else makerFeePpm)
              in bindM (liftM (\<lambda>r. if mo_IsLiquidation taker
                                     then validateMatchedLiquidation (e_sdk e) (r_state r) taker perpetualId fillAmount
                                            (mo_GetOrderSubticks maker)
                                     else Inr 0)) (\<lambda>takerInsuranceFundDelta.
                 bindM (liftM (\<lambda>r. taker_new_fill (r_state r) taker fillAmount)) (\<lambda>takerFill.
                 bindM (liftM (\<lambda>r. new_fill (r_state r) maker fillAmount)) (\<lambda>makerFill.
                 bindM (persistMatchedOrders e perpetualId takerFeePpm makerFeePpm bigFillQuoteQuantums
                          takerInsuranceFundDelta affiliateOverrides affiliateParameters) (\<lambda>_.
                 bindM (on_state (whenM (mo_IsLiquidation taker)
                          (update_liquidation_info (mo_GetSubaccountId taker) perpetualId fillAmount takerInsuranceFundDelta))) (\<lambda>_.
                 bindM (on_state (modifyM (\<lambda>s. set_fill makerFill
                          (case takerFill of None \<Rightarrow> s | Some f \<Rightarrow> set_fill f s)))) (\<lambda>_.
                 bindM (on_state (on_stateful (checkAndUpdateTWAPOrderRemainingQuantity
                          (o_OrderId (fst makerFill)) fillAmount))) (\<lambda>_.
                   case takerFill of
                     None \<Rightarrow> retM ()
                   | Some f \<Rightarrow> on_state (on_stateful (checkAndUpdateTWAPOrderRemainingQuantity
                                 (o_OrderId (fst f)) fillAmount))))))))))))))) r)"

definition start_run :: "MatchWithOrders \<Rightarrow> 'b clob_state \<Rightarrow> 'b match_run" where
  "start_run m s = \<lparr>r_state = s, r_match = m, r_takerUpdateResult = Success, r_makerUpdateResult = Success,
                     r_affiliateRevShares = None\<rparr>"

section \<open>The update of an account by a match\<close>

text \<open>The settled account before an update moves by the quote delta.\<close>

definition usdc_delta :: "'b keeper_state \<Rightarrow> 'b keeper_state \<Rightarrow> SubaccountId \<Rightarrow> int \<Rightarrow> bool" where
  "usdc_delta s s' i delta \<longleftrightarrow> (\<exists>pis sa0 f. infos_from (ks_perps s) pis \<and>
     GetSettledSubaccountWithPerpetuals (GetSubaccount s i) pis = Inr (sa0, f) \<and>
     GetUsdcPosition (GetSubaccount s' i) = GetUsdcPosition sa0 + delta)"

lemma match_update_moves:
  assumes ok: "keeper_ok s" and upd: "UpdateSubaccounts x us ty s = (Inr (True, rs), s')"
    and u: "match_update i k q d \<in> set us"
  shows "usdc_delta s s' i q"
    and "held po_PerpetualId po_Quantums (sa_PerpetualPositions (GetSubaccount s' i)) j =
      held po_PerpetualId po_Quantums (sa_PerpetualPositions (GetSubaccount s i)) j + (if j = k then d else 0)"
proof -
  obtain pis sa0 sa1 f where b: "infos_from (ks_perps s) pis"
    "GetSettledSubaccountWithPerpetuals (GetSubaccount s i) pis = Inr (sa0, f)"
    "sorted_subaccount sa0"
    "sa_AssetPositions sa1 = CalculateUpdatedAssetPositions (sa_AssetPositions sa0)
       [\<lparr>au_AssetId = AssetUsdcId, au_BigQuantumsDelta = q\<rparr>]"
    "ks_subaccounts s' i = (if is_empty_account sa1 then None else Some sa1)"
    "held po_PerpetualId po_Quantums (sa_PerpetualPositions (GetSubaccount s' i)) j =
      held po_PerpetualId po_Quantums (sa_PerpetualPositions (GetSubaccount s i)) j + (if j = k then d else 0)"
    using update_settled[OF ok upd u, unfolded match_update_def Update.simps] by auto
  show "usdc_delta s s' i q"
    using b(1,2) updated_usdc[OF b(3,4)] GetUsdcPosition_stored[OF b(5)] unfolding usdc_delta_def by auto
  show "held po_PerpetualId po_Quantums (sa_PerpetualPositions (GetSubaccount s' i)) j =
      held po_PerpetualId po_Quantums (sa_PerpetualPositions (GetSubaccount s i)) j + (if j = k then d else 0)"
    by (rule b(6))
qed


section \<open>Frames of the stages of a match\<close>

text \<open>A step that touches nothing of the keeper but the bank, and not the match.\<close>

definition bank_step :: "'b match_run \<Rightarrow> 'b match_run \<Rightarrow> bool" where
  "bank_step r r' \<longleftrightarrow> r_match r' = r_match r \<and>
     (\<exists>b. r_state r' = (r_state r)\<lparr>c_sub := (c_sub (r_state r))\<lparr>ks_bank := b\<rparr>\<rparr>)"

lemma bank_step_refl: "reflp bank_step"
proof (rule reflpI)
  fix r :: "'b match_run"
  have "r_state r = (r_state r)\<lparr>c_sub := (c_sub (r_state r))\<lparr>ks_bank := ks_bank (c_sub (r_state r))\<rparr>\<rparr>" by simp
  then show "bank_step r r" unfolding bank_step_def by blast
qed

lemma bank_step_trans: "transp bank_step"
proof (rule transpI)
  fix r r' r'' :: "'b match_run"
  assume "bank_step r r'" "bank_step r' r''"
  then obtain b b' where "r_match r' = r_match r" "r_state r' = (r_state r)\<lparr>c_sub := (c_sub (r_state r))\<lparr>ks_bank := b\<rparr>\<rparr>"
    "r_match r'' = r_match r'" "r_state r'' = (r_state r')\<lparr>c_sub := (c_sub (r_state r'))\<lparr>ks_bank := b'\<rparr>\<rparr>"
    unfolding bank_step_def by blast
  then have "r_match r'' = r_match r \<and> r_state r'' = (r_state r)\<lparr>c_sub := (c_sub (r_state r))\<lparr>ks_bank := b'\<rparr>\<rparr>" by simp
  then show "bank_step r r''" unfolding bank_step_def by blast
qed

lemma on_sub_bank:
  fixes m :: "('b keeper_state, 'a) step"
  assumes "keeps bank_only m"
  shows "keeps bank_step (on_state (on_sub m))"
  unfolding keeps_def
proof
  fix r :: "'b match_run"
  let ?k = "c_sub (r_state r)"
  obtain x k where m: "m ?k = (x, k)" by fastforce
  then have k: "k = ?k\<lparr>ks_bank := ks_bank k\<rparr>" using assms unfolding keeps_def bank_only_def by (metis snd_conv)
  have "r_state (snd (on_state (on_sub m) r)) = (r_state r)\<lparr>c_sub := k\<rparr>" "r_match (snd (on_state (on_sub m) r)) = r_match r"
    using m by (simp_all add: on_state_def on_sub_def)
  then show "bank_step r (snd (on_state (on_sub m) r))" unfolding bank_step_def using k by metis
qed

lemma TransferFees_bank_only: "keeps bank_only (TransferFees x a from to q)"
  by (auto simp: TransferFees_def Let_def intro!: keeps_bank_intros split: prod.splits)

lemma transfers_bank_only:
  "keeps bank_only (TransferInsuranceFundPayments x d k)"
  "keeps bank_only (TransferBuilderFees x k q addr)"
  "keeps bank_only (DistributeFees x a rf fill)"
  by (auto simp: TransferInsuranceFundPayments_def TransferBuilderFees_def DistributeFees_def distribute_share_def Let_def
      intro!: keeps_bank_intros TransferFees_bank_only split: prod.splits)

lemma pay_builder_bank: "keeps bank_step (pay_builder x k q addr)"
  unfolding pay_builder_def whenM_def
  by (auto intro: on_sub_bank[OF transfers_bank_only(2)] keeps_basic(1)[OF bank_step_refl])

lemma distribute_match_fees_bank: "distribute_match_fees x rf fill r = (y, r') \<Longrightarrow> bank_step r r'"
proof -
  assume run: "distribute_match_fees x rf fill r = (y, r')"
  define r0 where "r0 = (case rf_AffiliateRevShare rf of
                 None \<Rightarrow> r | Some share \<Rightarrow> r\<lparr>r_affiliateRevShares := Some (rs_QuoteQuantums share)\<rparr>)"
  have same: "r_state r0 = r_state r" "r_match r0 = r_match r" by (simp_all add: r0_def split: option.splits)
  have "r' = snd (on_state (on_sub (DistributeFees x AssetUsdcId rf fill)) r0)"
    using run unfolding distribute_match_fees_def Let_def r0_def[symmetric]
    by (auto split: prod.splits sum.splits error.splits)
  then have "bank_step r0 r'" using on_sub_bank[OF transfers_bank_only(3)] unfolding keeps_def by blast
  then show ?thesis using same unfolding bank_step_def by simp
qed

lemma apply_match_updates_run:
  assumes "apply_match_updates x us r = (Inr (), r')"
  obtains rs k where "UpdateSubaccounts x us Match (c_sub (r_state r)) = (Inr (True, rs), k)"
    "r_state r' = (r_state r)\<lparr>c_sub := k\<rparr>" "r_match r' = r_match r"
  using assms
  by (auto simp: apply_match_updates_def on_state_def on_sub_def Let_def
      split: prod.splits sum.splits error.splits list.splits if_splits)


text \<open>What a match charges, and what it changes of the keeper next to the two accounts and the bank.\<close>

definition match_charges :: "MatchWithOrders \<Rightarrow> int \<Rightarrow> int \<Rightarrow> int \<Rightarrow> int \<Rightarrow> bool" where
  "match_charges m takerFee makerFee takerBuilderFee makerBuilderFee \<longleftrightarrow>
     mw_TakerFee m = word_of_int takerFee \<and> mw_MakerFee m = word_of_int makerFee \<and>
     (\<not> mo_IsLiquidation (mw_TakerOrder m) \<longrightarrow> mw_TakerBuilderFee m = Uint64 takerBuilderFee) \<and>
     (mo_IsLiquidation (mw_TakerOrder m) \<longrightarrow> takerBuilderFee = 0) \<and> mw_MakerBuilderFee m = Uint64 makerBuilderFee"

lemma persistMatchedOrders_run:
  assumes run: "persistMatchedOrders e pid tppm mppm q ins ov ap r = (Inr (), r')"
  obtains k rs k' tb mb where
    "bank_only (c_sub (r_state r)) k"
    "UpdateSubaccounts (e_sdk e)
       [match_update (mo_GetSubaccountId (mw_TakerOrder (r_match r))) pid
          (taker_quote_delta (r_match r) q (BigMulPpm q (sint tppm) True) ins tb) (taker_perpetual_delta (r_match r)),
        match_update (mo_GetSubaccountId (mw_MakerOrder (r_match r))) pid
          (maker_quote_delta (r_match r) q (BigMulPpm q (sint mppm) True) mb) (maker_perpetual_delta (r_match r))]
       Match k = (Inr (True, rs), k')"
    "bank_only k' (c_sub (r_state r'))" "c_orders (r_state r') = c_orders (r_state r)"
    "mw_TakerOrder (r_match r') = mw_TakerOrder (r_match r)"
    "match_charges (r_match r') (if mo_IsLiquidation (mw_TakerOrder (r_match r)) then ins else BigMulPpm q (sint tppm) True)
       (BigMulPpm q (sint mppm) True) tb mb"
    "mo_IsLiquidation (mw_TakerOrder (r_match r)) \<longrightarrow> BigMulPpm q (sint tppm) True = 0"
proof -
  let ?m = "r_match r" and ?x = "e_sdk e"
  let ?tf = "BigMulPpm q (sint tppm) True" and ?mf = "BigMulPpm q (sint mppm) True"
  let ?liq = "mo_IsLiquidation (mw_TakerOrder ?m)"
  define r0 where "r0 = r\<lparr>r_affiliateRevShares := Some 0, r_match := set_fee_fields ?tf ?mf ins ?m\<rparr>"
  have liq: "\<not> (?liq \<and> sgn ?tf \<noteq> 0)" "\<not> mo_IsLiquidation (mw_MakerOrder ?m)"
    using run by (auto simp: persistMatchedOrders_def Let_def step_simps failM_eq split: if_splits)
  obtain mB tB where B: "builder_params (mw_MakerOrder ?m) = Inr mB" "taker_builder_params (mw_TakerOrder ?m) = Inr tB"
    using run liq by (auto simp: persistMatchedOrders_def Let_def step_simps split: if_splits)
  define mb tb where "mb = GetBuilderFee mB q" and "tb = GetBuilderFee tB q"
  define r1 where "r1 = r0\<lparr>r_match := (let m1 = (r_match r0)\<lparr>mw_MakerBuilderFee := Uint64 mb\<rparr>
      in if ?liq then m1 else m1\<lparr>mw_TakerBuilderFee := Uint64 tb\<rparr>)\<rparr>"
  obtain r2 r3 p r4 r5 rf r6 where st:
    "on_state (on_sub (TransferInsuranceFundPayments ?x ins pid)) r1 = (Inr (), r2)"
    "apply_match_updates ?x
       [match_update (mo_GetSubaccountId (mw_TakerOrder ?m)) pid (taker_quote_delta ?m q ?tf ins tb) (taker_perpetual_delta ?m),
        match_update (mo_GetSubaccountId (mw_MakerOrder ?m)) pid (maker_quote_delta ?m q ?mf mb) (maker_perpetual_delta ?m)] r2
       = (Inr (), r3)"
    "pay_builder ?x pid tb (GetBuilderAddress tB) r3 = (Inr (), r4)"
    "pay_builder ?x pid mb (GetBuilderAddress mB) r4 = (Inr (), r5)"
    "distribute_match_fees ?x rf (match_fill (r_state r5) ?m p pid ?tf ?mf q) r5 = (Inr (), r6)"
    "r' = r6\<lparr>r_state := record_fill pid ?m (match_fill (r_state r5) ?m p pid ?tf ?mf q) rf
             (case r_affiliateRevShares r6 of None \<Rightarrow> 0 | Some q \<Rightarrow> q) ap (r_state r6),
           r_match := set_router_fees rf (r_match r6)\<rparr>"
    using run liq B unfolding persistMatchedOrders_def Let_def
    by (auto simp: step_simps readM_def whenM_def r1_def r0_def mb_def tb_def Let_def split: if_splits)
  have 1: "bank_step r1 r2" by (rule keepsD[OF on_sub_bank[OF transfers_bank_only(1)] st(1)])
  obtain rs k' where 2: "UpdateSubaccounts ?x
       [match_update (mo_GetSubaccountId (mw_TakerOrder ?m)) pid (taker_quote_delta ?m q ?tf ins tb) (taker_perpetual_delta ?m),
        match_update (mo_GetSubaccountId (mw_MakerOrder ?m)) pid (maker_quote_delta ?m q ?mf mb) (maker_perpetual_delta ?m)]
       Match (c_sub (r_state r2)) = (Inr (True, rs), k')"
    "r_state r3 = (r_state r2)\<lparr>c_sub := k'\<rparr>" "r_match r3 = r_match r2"
    by (rule apply_match_updates_run[OF st(2)])
  have 3: "bank_step r3 r6"
    using transpD[OF bank_step_trans transpD[OF bank_step_trans keepsD[OF pay_builder_bank st(3)] keepsD[OF pay_builder_bank st(4)]]
        distribute_match_fees_bank[OF st(5)]] .
  have state: "c_sub (r_state r') = c_sub (r_state r6)" "c_orders (r_state r') = c_orders (r_state r6)"
    "r_match r' = set_router_fees rf (r_match r6)"
    unfolding st(6) by (simp_all add: record_fill_def Let_def)
  have r1: "r_state r1 = r_state r" by (simp add: r1_def r0_def)
  have m: "r_match r6 = r_match r1" using 1 2(3) 3 by (simp add: bank_step_def)
  show ?thesis
  proof (rule that[OF _ 2(1)])
    show "bank_only (c_sub (r_state r)) (c_sub (r_state r2))"
      using 1 r1 by (auto simp: bank_step_def bank_only_def)
    show "bank_only k' (c_sub (r_state r'))" using 2(2) 3 state(1) by (auto simp: bank_step_def bank_only_def)
    show "c_orders (r_state r') = c_orders (r_state r)"
      using 1 2(2) 3 state(2) r1 by (auto simp: bank_step_def)
    show "mw_TakerOrder (r_match r') = mw_TakerOrder ?m"
      unfolding state(3) m r1_def r0_def by (simp add: set_router_fees_def set_fee_fields_def)
    show "match_charges (r_match r') (if ?liq then ins else ?tf) ?mf tb mb"
      using B(2) unfolding state(3) m r1_def r0_def
      by (auto simp: match_charges_def set_router_fees_def set_fee_fields_def tb_def taker_builder_params_def GetBuilderFee_def)
    show "?liq \<longrightarrow> ?tf = 0" using liq(1) by (simp add: sgn_0_0)
  qed
qed


section \<open>The effects of a match\<close>

text \<open>The steps around the execution leave accounts, fill amounts and the match alone.\<close>

definition same_core :: "'b match_run \<Rightarrow> 'b match_run \<Rightarrow> bool" where
  "same_core r r' \<longleftrightarrow> c_sub (r_state r') = c_sub (r_state r) \<and> c_orders (r_state r') = c_orders (r_state r) \<and>
     r_match r' = r_match r"

lemma same_core_refl: "reflp same_core" and same_core_trans: "transp same_core"
  by (auto simp: same_core_def intro: reflpI transpI)

lemma fee_same_core: "on_state (clob_fee_ppm e a t i c) r = (x, r') \<Longrightarrow> same_core r r'"
  by (auto simp: on_state_def clob_fee_ppm_def on_stats_def same_core_def split: prod.splits)

lemma stateful_same_core: "on_state (on_stateful m) r = (x, r') \<Longrightarrow> same_core r r'"
  by (auto simp: on_state_def on_stateful_def same_core_def split: prod.splits)

lemma liquidation_info_same_core:
  "on_state (whenM c (update_liquidation_info i k f d)) r = (x, r') \<Longrightarrow> same_core r r'"
  by (auto simp: on_state_def whenM_def update_liquidation_info_def retM_def same_core_def bindM_def liftM_def
      split: prod.splits sum.splits if_splits)

definition order_filled :: "order_state \<Rightarrow> OrderId \<Rightarrow> uint64" where
  "order_filled st i = fst (snd (GetOrderFillAmount st i))"

lemma order_filled_set:
  "order_filled (setOrderFillAmountsAndPruning ord new p st) i = (if i = o_OrderId ord then new else order_filled st i)"
  by (simp add: order_filled_def GetOrderFillAmount_def setOrderFillAmounts_fields split: option.splits)

lemma new_fill_run:
  assumes "new_fill s mo fill = Inr (ord, new, p)"
  shows "mo = MO_Order ord" "uint new = uint (order_filled (c_orders s) (o_OrderId ord)) + uint fill" "new \<le> o_Quantums ord"
proof -
  show mo: "mo = MO_Order ord"
    using assms by (cases mo) (auto simp: new_fill_def res_simps Let_def split: prod.splits)
  obtain cur where c: "cur = order_filled (c_orders s) (o_OrderId ord)" "getUpdatedOrderFillAmount (mo_GetBaseQuantums mo) cur fill = Inr new"
    using assms mo by (auto simp: new_fill_def res_simps Let_def order_filled_def split: prod.splits)
  show "uint new = uint (order_filled (c_orders s) (o_OrderId ord)) + uint fill" "new \<le> o_Quantums ord"
    using getUpdatedOrderFillAmount_grows(1,3)[OF c(2)] c(1) mo by simp_all
qed


lemma ProcessSingleMatch_run:
  assumes run: "ProcessSingleMatch e ov ap r = (Inr (), r')"
  obtains cp pid tppm mppm ins tf mf r1 r2 where
    "MatchWithOrders_Validate (r_match r) = Inr ()"
    "GetClobPair (r_state r) (mo_GetClobPairId (mw_MakerOrder (r_match r))) = Some cp" "ClobPair_GetPerpetualId cp = Inr pid"
    "umod (mw_FillAmount (r_match r)) (cp_StepBaseQuantums cp) = Inr 0"
    "same_core r r1" "\<not> mo_IsLiquidation (mw_TakerOrder (r_match r)) \<longrightarrow> ins = 0"
    "taker_new_fill (r_state r1) (mw_TakerOrder (r_match r)) (mw_FillAmount (r_match r)) = Inr tf"
    "new_fill (r_state r1) (mw_MakerOrder (r_match r)) (mw_FillAmount (r_match r)) = Inr mf"
    "persistMatchedOrders e pid tppm mppm
       (FillAmountToQuoteQuantums (mo_GetOrderSubticks (mw_MakerOrder (r_match r))) (mw_FillAmount (r_match r))
          (cp_QuantumConversionExponent cp)) ins ov ap r1 = (Inr (), r2)"
    "c_sub (r_state r') = c_sub (r_state r2)" "r_match r' = r_match r2"
    "c_orders (r_state r') = c_orders (set_fill mf (case tf of None \<Rightarrow> r_state r2 | Some f \<Rightarrow> set_fill f (r_state r2)))"
proof -
  let ?m = "r_match r"
  let ?maker = "mw_MakerOrder ?m" and ?taker = "mw_TakerOrder ?m" and ?fill = "mw_FillAmount ?m"
  let ?i = "ap_RefereeMinimumFeeTierIdx ap" and ?c = "mo_GetClobPairId ?maker"
  obtain cp pid tp0 mp0 ra rb ins tf mf rc rd re rg where st:
    "MatchWithOrders_Validate ?m = Inr ()" "GetClobPair (r_state r) ?c = Some cp"
    "umod ?fill (cp_StepBaseQuantums cp) = Inr 0" "ClobPair_GetPerpetualId cp = Inr pid"
    "on_state (clob_fee_ppm e (sid_Owner (mo_GetSubaccountId ?taker)) True ?i ?c) r = (Inr tp0, ra)"
    "on_state (clob_fee_ppm e (sid_Owner (mo_GetSubaccountId ?maker)) False ?i ?c) ra = (Inr mp0, rb)"
    "(if mo_IsLiquidation ?taker then validateMatchedLiquidation (e_sdk e) (r_state rb) ?taker pid ?fill (mo_GetOrderSubticks ?maker)
      else Inr 0) = Inr ins"
    "taker_new_fill (r_state rb) ?taker ?fill = Inr tf" "new_fill (r_state rb) ?maker ?fill = Inr mf"
    "persistMatchedOrders e pid (if mo_IsLiquidation ?taker then 0 else tp0)
       (if mo_IsLiquidation ?taker \<and> sint mp0 < 0 then 0 else mp0)
       (FillAmountToQuoteQuantums (mo_GetOrderSubticks ?maker) ?fill (cp_QuantumConversionExponent cp)) ins ov ap rb = (Inr (), rc)"
    "on_state (whenM (mo_IsLiquidation ?taker) (update_liquidation_info (mo_GetSubaccountId ?taker) pid ?fill ins)) rc = (Inr (), rd)"
    "on_state (modifyM (\<lambda>s. set_fill mf (case tf of None \<Rightarrow> s | Some f \<Rightarrow> set_fill f s))) rd = (Inr (), re)"
    "on_state (on_stateful (checkAndUpdateTWAPOrderRemainingQuantity (o_OrderId (fst mf)) ?fill)) re = (Inr (), rg)"
    "(case tf of None \<Rightarrow> retM () | Some f \<Rightarrow>
        on_state (on_stateful (checkAndUpdateTWAPOrderRemainingQuantity (o_OrderId (fst f)) ?fill))) rg = (Inr (), r')"
    using run unfolding ProcessSingleMatch_def Let_def
    by (elim run_elims) (rule that; (assumption | simp split: option.splits))
  have ab: "same_core r rb" using transpD[OF same_core_trans fee_same_core[OF st(5)] fee_same_core[OF st(6)]] .
  have cd: "same_core rc rd" by (rule liquidation_info_same_core[OF st(11)])
  have eg: "same_core re r'"
  proof -
    have "same_core rg r'"
      using st(14) stateful_same_core reflpD[OF same_core_refl] by (cases tf) (auto simp: step_simps)
    then show ?thesis using transpD[OF same_core_trans stateful_same_core[OF st(13)]] by blast
  qed
  have de: "c_sub (r_state re) = c_sub (r_state rd)" "r_match re = r_match rd"
    "c_orders (r_state re) = c_orders (set_fill mf (case tf of None \<Rightarrow> r_state rd | Some f \<Rightarrow> set_fill f (r_state rd)))"
    using st(12) by (auto simp: on_state_def step_simps set_fill_def on_orders_def split: option.splits prod.splits)
  have fills: "c_orders (set_fill f s) = c_orders (set_fill f s')" if "c_orders s = c_orders s'"
    for f and s s' :: "'a clob_state"
    using that by (simp add: set_fill_def on_orders_def split: prod.splits)
  show ?thesis
  proof (rule that[OF st(1,2,4,3) ab _ st(8,9,10)])
    show "\<not> mo_IsLiquidation ?taker \<longrightarrow> ins = 0" using st(7) by auto
    show "c_sub (r_state r') = c_sub (r_state rc)" "r_match r' = r_match rc"
      using cd de(1,2) eg by (simp_all add: same_core_def)
    have o: "c_orders (r_state r') = c_orders (r_state re)" "c_orders (r_state rd) = c_orders (r_state rc)"
      using eg cd by (simp_all add: same_core_def)
    have "c_orders (case tf of None \<Rightarrow> r_state rd | Some f \<Rightarrow> set_fill f (r_state rd)) =
        c_orders (case tf of None \<Rightarrow> r_state rc | Some f \<Rightarrow> set_fill f (r_state rc))"
      using o(2) fills[OF o(2)] by (simp split: option.split)
    from fills[OF this] show
      "c_orders (r_state r') = c_orders (set_fill mf (case tf of None \<Rightarrow> r_state rc | Some f \<Rightarrow> set_fill f (r_state rc)))"
      unfolding o(1) de(3) .
  qed
qed

text \<open>The position of an account in a perpetual.\<close>

definition perp_position :: "'b keeper_state \<Rightarrow> SubaccountId \<Rightarrow> uint32 \<Rightarrow> int" where
  "perp_position s i = held po_PerpetualId po_Quantums (sa_PerpetualPositions (GetSubaccount s i))"

lemma match_batch:
  assumes ok: "keeper_ok s" and b1: "bank_only s k" and b2: "bank_only k' s'" and ne: "i \<noteq> j"
    and upd: "UpdateSubaccounts x [match_update i p qi di, match_update j p qj dj] Match k = (Inr (True, rs), k')"
  shows "keeper_ok s'" "usdc_delta s s' i qi" "usdc_delta s s' j qj"
    "perp_position s' a n = perp_position s a n + (if n = p then if a = i then di else if a = j then dj else 0 else 0)"
    "a \<noteq> i \<Longrightarrow> a \<noteq> j \<Longrightarrow> ks_subaccounts s' a = ks_subaccounts s a"
proof -
  obtain b where k: "k = s\<lparr>ks_bank := b\<rparr>" using b1 by (auto simp: bank_only_def)
  obtain b' where s': "s' = k'\<lparr>ks_bank := b'\<rparr>" using b2 by (auto simp: bank_only_def)
  have ok': "keeper_ok k" using ok k by simp
  have u: "match_update i p qi di \<in> set [match_update i p qi di, match_update j p qj dj]"
    "match_update j p qj dj \<in> set [match_update i p qi di, match_update j p qj dj]" by simp_all
  show "keeper_ok s'" using UpdateSubaccounts_keeper_ok_success[OF ok' upd] s' by simp
  have d: "usdc_delta s s' a q = usdc_delta k k' a q" for a q unfolding k s' usdc_delta_def by simp
  show "usdc_delta s s' i qi" "usdc_delta s s' j qj"
    unfolding d by (rule match_update_moves(1)[OF ok' upd u(1)], rule match_update_moves(1)[OF ok' upd u(2)])
  obtain pis sus nus where "batch_run k [match_update i p qi di, match_update j p qj dj] Match rs k' pis sus nus"
    using UpdateSubaccounts_batch[OF ok' upd] by blast
  then have other: "ks_subaccounts s' a = ks_subaccounts s a" if "a \<noteq> i" "a \<noteq> j" for a
    using that unfolding k s' by (simp add: batch_run_def match_update_def)
  then show "a \<noteq> i \<Longrightarrow> a \<noteq> j \<Longrightarrow> ks_subaccounts s' a = ks_subaccounts s a" by blast
  have p: "perp_position s' a = perp_position k' a" "perp_position s a = perp_position k a" for a unfolding k s' perp_position_def by simp_all
  have "perp_position k' i n = perp_position k i n + (if n = p then di else 0)"
    "perp_position k' j n = perp_position k j n + (if n = p then dj else 0)"
    unfolding perp_position_def by (rule match_update_moves(2)[OF ok' upd u(1)], rule match_update_moves(2)[OF ok' upd u(2)])
  moreover have "perp_position s' a n = perp_position s a n" if "a \<noteq> i" "a \<noteq> j"
    using other[OF that] by (simp add: perp_position_def GetSubaccount_def)
  ultimately show "perp_position s' a n = perp_position s a n + (if n = p then if a = i then di else if a = j then dj else 0 else 0)"
    unfolding p using ne by auto
qed


lemma match_fills:
  assumes maker: "new_fill s maker fill = Inr mf" and taker: "taker_new_fill s taker fill = Inr tf"
    and ne: "mo_GetSubaccountId maker \<noteq> mo_GetSubaccountId taker" and same: "c_orders s2 = c_orders s"
    and s': "c_orders s' = c_orders (set_fill mf (case tf of None \<Rightarrow> s2 | Some f \<Rightarrow> set_fill f s2))"
  shows "(\<forall>i. uint (order_filled (c_orders s') i) = uint (order_filled (c_orders s) i) +
       (if (\<exists>ord\<in>{taker, maker}. \<exists>x. ord = MO_Order x \<and> o_OrderId x = i) then uint fill else 0)) \<and>
    (\<forall>x. MO_Order x \<in> {taker, maker} \<longrightarrow> order_filled (c_orders s') (o_OrderId x) \<le> o_Quantums x)"
proof -
  obtain mo mn mp where mf: "mf = (mo, mn, mp)" by (cases mf)
  note M = new_fill_run[OF maker[unfolded mf]]
  consider (liquidation) lo where "taker = MO_Liquidation lo" "tf = None"
    | (order) to tn tp where "taker = MO_Order to" "tf = Some (to, tn, tp)" "new_fill s taker fill = Inr (to, tn, tp)"
    using taker new_fill_run(1)[of s taker fill]
    by (cases taker) (auto simp: taker_new_fill_def res_simps)
  then show ?thesis
  proof cases
    case liquidation
    have c: "c_orders s' = setOrderFillAmountsAndPruning mo mn mp (c_orders s)"
      using s' same liquidation(2) by (simp add: mf set_fill_def on_orders_def)
    show ?thesis using M liquidation(1) unfolding c order_filled_set by auto
  next
    case (order to tn tp)
    note T = new_fill_run[OF order(3)]
    have ids: "o_OrderId to \<noteq> o_OrderId mo" using ne M(1) T(1) by auto
    have c: "c_orders s' = setOrderFillAmountsAndPruning mo mn mp (setOrderFillAmountsAndPruning to tn tp (c_orders s))"
      using s' same order(2) by (simp add: mf set_fill_def on_orders_def)
    show ?thesis using M T ids order(1) unfolding c order_filled_set by auto
  qed
qed

lemma validated_match:
  assumes "MatchWithOrders_Validate m = Inr ()"
  shows "mo_GetSubaccountId (mw_MakerOrder m) \<noteq> mo_GetSubaccountId (mw_TakerOrder m)" "mw_FillAmount m \<noteq> 0"
    "mo_IsBuy (mw_TakerOrder m) \<noteq> mo_IsBuy (mw_MakerOrder m)"
    "if mo_IsBuy (mw_TakerOrder m) then mo_GetOrderSubticks (mw_MakerOrder m) \<le> mo_GetOrderSubticks (mw_TakerOrder m)
     else mo_GetOrderSubticks (mw_TakerOrder m) \<le> mo_GetOrderSubticks (mw_MakerOrder m)"
  using assms by (auto simp: MatchWithOrders_Validate_def Let_def linorder_not_less split: if_splits)

text \<open>
  C3: What an executed match does. When a match of two orders (or of a liquidation with an order) is
  executed, the two orders were on opposing sides and crossed, the amount is a positive multiple of the
  step size, the positions of taker and maker in the market of the pair move by the fill amount in opposite
  directions, their settled quote balances move by the quote value of the fill at the price of the maker, less
  fees and builder fees, so that together they pay exactly the fees, the insurance fund payment and the builder
  fees that the match records; no other account changes; the fill amounts of the two orders grow by
  exactly the amount and stay within the sizes of the orders; and no other fill amount changes.
\<close>

theorem single_match_effects:
  assumes ok: "keeper_ok (c_sub s)" and run: "ProcessSingleMatch e ov ap (start_run m s) = (Inr (), r)"
  defines "taker \<equiv> mw_TakerOrder m" and "maker \<equiv> mw_MakerOrder m" and "fill \<equiv> mw_FillAmount m"
    and "s' \<equiv> r_state r"
  shows "\<exists>cp pid dT dM fT fM bT bM q.
    GetClobPair s (mo_GetClobPairId maker) = Some cp \<and> ClobPair_GetPerpetualId cp = Inr pid \<and>
    fill \<noteq> 0 \<and> uint (cp_StepBaseQuantums cp) dvd uint fill \<and> mo_IsBuy taker \<noteq> mo_IsBuy maker \<and>
    (if mo_IsBuy taker then mo_GetOrderSubticks maker \<le> mo_GetOrderSubticks taker
     else mo_GetOrderSubticks taker \<le> mo_GetOrderSubticks maker) \<and>
    keeper_ok (c_sub s') \<and>
    (\<forall>a n. perp_position (c_sub s') a n = perp_position (c_sub s) a n +
       (if n \<noteq> pid then 0 else if a = mo_GetSubaccountId taker then (if mo_IsBuy taker then uint fill else - uint fill)
        else if a = mo_GetSubaccountId maker then (if mo_IsBuy taker then - uint fill else uint fill) else 0)) \<and>
    q = FillAmountToQuoteQuantums (mo_GetOrderSubticks maker) fill (cp_QuantumConversionExponent cp) \<and>
    usdc_delta (c_sub s) (c_sub s') (mo_GetSubaccountId taker) dT \<and> dT = (if mo_IsBuy taker then - q else q) - fT - bT \<and>
    usdc_delta (c_sub s) (c_sub s') (mo_GetSubaccountId maker) dM \<and> dM = (if mo_IsBuy taker then q else - q) - fM - bM \<and>
    dT + dM = - (fT + fM + bT + bM) \<and> match_charges (r_match r) fT fM bT bM \<and>
    (\<forall>a. a \<noteq> mo_GetSubaccountId taker \<and> a \<noteq> mo_GetSubaccountId maker \<longrightarrow>
       ks_subaccounts (c_sub s') a = ks_subaccounts (c_sub s) a) \<and>
    (\<forall>i. uint (order_filled (c_orders s') i) = uint (order_filled (c_orders s) i) +
       (if (\<exists>ord\<in>{taker, maker}. \<exists>x. ord = MO_Order x \<and> o_OrderId x = i) then uint fill else 0)) \<and>
    (\<forall>x. MO_Order x \<in> {taker, maker} \<longrightarrow> order_filled (c_orders s') (o_OrderId x) \<le> o_Quantums x)"
proof -
  have m: "r_match (start_run m s) = m" "r_state (start_run m s) = s" by (simp_all add: start_run_def)
  obtain cp pid tppm mppm ins tf mf r1 r2 where st:
    "MatchWithOrders_Validate m = Inr ()" "GetClobPair s (mo_GetClobPairId maker) = Some cp" "ClobPair_GetPerpetualId cp = Inr pid"
    "umod fill (cp_StepBaseQuantums cp) = Inr 0" "same_core (start_run m s) r1" "\<not> mo_IsLiquidation taker \<longrightarrow> ins = 0"
    "taker_new_fill (r_state r1) taker fill = Inr tf" "new_fill (r_state r1) maker fill = Inr mf"
    "persistMatchedOrders e pid tppm mppm (FillAmountToQuoteQuantums (mo_GetOrderSubticks maker) fill
       (cp_QuantumConversionExponent cp)) ins ov ap r1 = (Inr (), r2)"
    "c_sub s' = c_sub (r_state r2)" "r_match r = r_match r2"
    "c_orders s' = c_orders (set_fill mf (case tf of None \<Rightarrow> r_state r2 | Some f \<Rightarrow> set_fill f (r_state r2)))"
    using ProcessSingleMatch_run[OF run] unfolding m taker_def maker_def fill_def s'_def by metis
  have same: "c_sub (r_state r1) = c_sub s" "c_orders (r_state r1) = c_orders s" "r_match r1 = m"
    using st(5) m by (simp_all add: same_core_def)
  let ?q = "FillAmountToQuoteQuantums (mo_GetOrderSubticks maker) fill (cp_QuantumConversionExponent cp)"
  let ?tf = "BigMulPpm ?q (sint tppm) True" and ?mf = "BigMulPpm ?q (sint mppm) True"
  obtain k rs k' tb mb where P: "bank_only (c_sub s) k" "UpdateSubaccounts (e_sdk e)
       [match_update (mo_GetSubaccountId taker) pid (taker_quote_delta m ?q ?tf ins tb) (taker_perpetual_delta m),
        match_update (mo_GetSubaccountId maker) pid (maker_quote_delta m ?q ?mf mb) (maker_perpetual_delta m)]
       Match k = (Inr (True, rs), k')"
    "bank_only k' (c_sub s')" "c_orders (r_state r2) = c_orders s"
    "match_charges (r_match r) (if mo_IsLiquidation taker then ins else ?tf) ?mf tb mb" "mo_IsLiquidation taker \<longrightarrow> ?tf = 0"
    using persistMatchedOrders_run[OF st(9)] same unfolding st(10,11) taker_def maker_def by metis
  note V = validated_match[OF st(1), folded taker_def maker_def fill_def]
  note B = match_batch[OF ok P(1,3) V(1)[symmetric] P(2)]
  have fills: "c_orders (r_state r2) = c_orders (r_state r1)" using P(4) same(2) by simp
  note F = match_fills[OF st(8,7) V(1) fills st(12), unfolded same(2)]
  have dvd: "uint (cp_StepBaseQuantums cp) dvd uint fill"
    using st(4) by (auto simp: umod_def uint_mod dvd_eq_mod_eq_0 simp flip: uint_0_iff split: if_splits)
  have dT: "taker_quote_delta m ?q ?tf ins tb =
      (if mo_IsBuy taker then - ?q else ?q) - (if mo_IsLiquidation taker then ins else ?tf) - tb"
    using P(6) by (simp add: taker_quote_delta_def taker_def)
  have pos: "perp_position (c_sub s') a n = perp_position (c_sub s) a n +
       (if n \<noteq> pid then 0 else if a = mo_GetSubaccountId taker then (if mo_IsBuy taker then uint fill else - uint fill)
        else if a = mo_GetSubaccountId maker then (if mo_IsBuy taker then - uint fill else uint fill) else 0)" for a n
    using B(4)[of a n] by (simp add: taker_perpetual_delta_def maker_perpetual_delta_def taker_def fill_def)
  show ?thesis
    apply (rule exI[of _ cp], rule exI[of _ pid], rule exI[of _ "taker_quote_delta m ?q ?tf ins tb"],
        rule exI[of _ "maker_quote_delta m ?q ?mf mb"], rule exI[of _ "if mo_IsLiquidation taker then ins else ?tf"],
        rule exI[of _ ?mf], rule exI[of _ tb], rule exI[of _ mb], rule exI[of _ ?q])
    apply (intro conjI allI impI st(2,3) V(2-4) dvd B(1-3) pos refl P(5) dT F[THEN conjunct1, rule_format] F[THEN conjunct2, rule_format])
    subgoal by (simp add: maker_quote_delta_def taker_def)
    subgoal unfolding dT by (simp add: maker_quote_delta_def taker_def)
    subgoal using B(5) by blast
    by assumption
qed

definition ex_limit :: "uint32 \<Rightarrow> Order_Side \<Rightarrow> Order" where
  "ex_limit n side = ex_short\<lparr>o_OrderId := (o_OrderId ex_short)\<lparr>oid_SubaccountId := ex_id n\<rparr>, o_Side := side,
     o_Quantums := 20000000, o_Subticks := 5000000000, o_GoodTilOneof := GoodTilBlock 110\<rparr>"

definition ex_trade :: MatchWithOrders where
  "ex_trade = \<lparr>mw_MakerOrder = MO_Order (ex_limit 0 SIDE_SELL), mw_TakerOrder = MO_Order (ex_limit 1 SIDE_BUY),
     mw_FillAmount = 10000000, mw_MakerFee = 0, mw_TakerFee = 0, mw_MakerBuilderFee = 0, mw_TakerBuilderFee = 0,
     mw_MakerOrderRouterFee = 0, mw_TakerOrderRouterFee = 0\<rparr>"

lemma ex_trade_run: "fst (ProcessSingleMatch ex_env None (af_params ex_affiliates) (start_run ex_trade ex_clob)) = Inr ()"
  by code_simp

theorem single_match_effects_witness:
  "\<exists>r. ProcessSingleMatch ex_env None (af_params ex_affiliates) (start_run ex_trade ex_clob) = (Inr (), r) \<and>
     perp_position (c_sub (r_state r)) (ex_id 1) 0 = perp_position ex_state (ex_id 1) 0 + 10000000 \<and>
     perp_position (c_sub (r_state r)) (ex_id 0) 0 = perp_position ex_state (ex_id 0) 0 - 10000000"
proof -
  let ?r = "snd (ProcessSingleMatch ex_env None (af_params ex_affiliates) (start_run ex_trade ex_clob))"
  have run: "ProcessSingleMatch ex_env None (af_params ex_affiliates) (start_run ex_trade ex_clob) = (Inr (), ?r)"
    using ex_trade_run by (metis prod.collapse)
  have sub: "c_sub ex_clob = ex_state" by (simp add: ex_clob_def)
  have pair: "GetClobPair ex_clob (mo_GetClobPairId (mw_MakerOrder ex_trade)) = Some ex_pair" "ClobPair_GetPerpetualId ex_pair = Inr 0"
    by (simp_all add: GetClobPair_def gm_get_def ex_clob_def ex_trade_def ex_limit_def ex_short_def ex_pair_def ClobPair_GetPerpetualId_def)
  have ids: "mo_GetSubaccountId (mw_TakerOrder ex_trade) = ex_id 1" "mo_GetSubaccountId (mw_MakerOrder ex_trade) = ex_id 0"
    "mo_IsBuy (mw_TakerOrder ex_trade)" "uint (mw_FillAmount ex_trade) = 10000000" "ex_id 0 \<noteq> ex_id 1"
    by (simp_all add: ex_trade_def ex_limit_def Order_IsBuy_def ex_id_def)
  have ok: "keeper_ok (c_sub ex_clob)" unfolding sub by (rule ex_state_ok)
  from single_match_effects[OF ok run] pair ids have
    "\<forall>a n. perp_position (c_sub (r_state ?r)) a n = perp_position ex_state a n +
       (if n \<noteq> 0 then 0 else if a = ex_id 1 then 10000000 else if a = ex_id 0 then - 10000000 else 0)"
    unfolding sub by auto
  then show ?thesis using run ids(5) by auto
qed

end
