(* ===== verification/Deleveraging.thy ===== *)
theory Deleveraging
  imports ProcessMatch
begin

text \<open>
  Deleveraging (\<^verbatim>\<open>deleveraging.go\<close>), the drivers of liquidations (\<^verbatim>\<open>liquidations.go\<close>) and the information the
  liquidation daemon keeps for them (\<^verbatim>\<open>daemon_liquidation_info.go\<close>, whose lock makes each method atomic), and
  the implementation of the interface \<^verbatim>\<open>MemClobKeeper\<close> by the keeper.
\<close>

section \<open>Definitions: daemon information\<close>

record SubaccountOpenPositionInfo =
  spi_PerpetualId :: uint32
  spi_SubaccountsWithLongPosition :: "SubaccountId list"
  spi_SubaccountsWithShortPosition :: "SubaccountId list"

record DaemonLiquidationInfo =
  dli_blockHeight :: uint32
  dli_liquidatableSubaccountIds :: "SubaccountId list"
  dli_negativeTncSubaccountIds :: "SubaccountId list"
  dli_subaccountsWithPositions :: "(uint32, SubaccountOpenPositionInfo) gomap"

definition NewDaemonLiquidationInfo :: DaemonLiquidationInfo where
  "NewDaemonLiquidationInfo =
     \<lparr>dli_blockHeight = 0, dli_liquidatableSubaccountIds = [], dli_negativeTncSubaccountIds = [],
      dli_subaccountsWithPositions = []\<rparr>"

definition UpdateBlockHeight :: "uint32 \<Rightarrow> DaemonLiquidationInfo \<Rightarrow> DaemonLiquidationInfo" where
  "UpdateBlockHeight blockHeight ls = ls\<lparr>dli_blockHeight := blockHeight\<rparr>"

definition UpdateLiquidatableSubaccountIds :: "SubaccountId list \<Rightarrow> DaemonLiquidationInfo \<Rightarrow> DaemonLiquidationInfo" where
  "UpdateLiquidatableSubaccountIds updates ls =
     ls\<lparr>dli_liquidatableSubaccountIds := dli_liquidatableSubaccountIds ls @ updates\<rparr>"

definition UpdateNegativeTncSubaccountIds :: "SubaccountId list \<Rightarrow> DaemonLiquidationInfo \<Rightarrow> DaemonLiquidationInfo" where
  "UpdateNegativeTncSubaccountIds updates ls =
     ls\<lparr>dli_negativeTncSubaccountIds := dli_negativeTncSubaccountIds ls @ updates\<rparr>"

definition add_position_info :: "SubaccountOpenPositionInfo \<Rightarrow> DaemonLiquidationInfo \<Rightarrow> DaemonLiquidationInfo" where
  "add_position_info info ls =
     (let old = (case gm_get (dli_subaccountsWithPositions ls) (spi_PerpetualId info) of
                   Some i \<Rightarrow> i
                 | None \<Rightarrow> \<lparr>spi_PerpetualId = spi_PerpetualId info, spi_SubaccountsWithLongPosition = [],
                             spi_SubaccountsWithShortPosition = []\<rparr>);
          new = old\<lparr>spi_SubaccountsWithLongPosition :=
                      spi_SubaccountsWithLongPosition old @ spi_SubaccountsWithLongPosition info,
                    spi_SubaccountsWithShortPosition :=
                      spi_SubaccountsWithShortPosition old @ spi_SubaccountsWithShortPosition info\<rparr>
      in ls\<lparr>dli_subaccountsWithPositions := gm_set (spi_PerpetualId info) new (dli_subaccountsWithPositions ls)\<rparr>)"

definition UpdateSubaccountsWithPositions :: "SubaccountOpenPositionInfo list \<Rightarrow> DaemonLiquidationInfo \<Rightarrow> DaemonLiquidationInfo" where
  "UpdateSubaccountsWithPositions infos ls = fold add_position_info infos ls"

definition DaemonLiquidationInfo_Update ::
  "uint32 \<Rightarrow> SubaccountId list \<Rightarrow> SubaccountId list \<Rightarrow> SubaccountOpenPositionInfo list
   \<Rightarrow> (DaemonLiquidationInfo, unit) step" where
  "DaemonLiquidationInfo_Update blockHeight liquidatable negativeTnc positions ls =
     (if blockHeight < dli_blockHeight ls then (Inl (Panic ''UpdateLiquidatableSubaccountIds: block height''), ls)
      else let ls = (if dli_blockHeight ls < blockHeight
                     then ls\<lparr>dli_liquidatableSubaccountIds := [], dli_negativeTncSubaccountIds := [],
                             dli_subaccountsWithPositions := []\<rparr> else ls);
               ls = UpdateBlockHeight blockHeight ls;
               ls = UpdateLiquidatableSubaccountIds liquidatable ls;
               ls = UpdateNegativeTncSubaccountIds negativeTnc ls
           in (Inr (), UpdateSubaccountsWithPositions positions ls))"

definition GetSubaccountsWithOpenPositions :: "DaemonLiquidationInfo \<Rightarrow> uint32 \<Rightarrow> SubaccountId list" where
  "GetSubaccountsWithOpenPositions ls perpetualId =
     (case gm_get (dli_subaccountsWithPositions ls) perpetualId of
        None \<Rightarrow> []
      | Some info \<Rightarrow> spi_SubaccountsWithLongPosition info @ spi_SubaccountsWithShortPosition info)"

definition GetSubaccountsWithOpenPositionsOnSide :: "DaemonLiquidationInfo \<Rightarrow> uint32 \<Rightarrow> bool \<Rightarrow> SubaccountId list" where
  "GetSubaccountsWithOpenPositionsOnSide ls perpetualId isLong =
     (case gm_get (dli_subaccountsWithPositions ls) perpetualId of
        None \<Rightarrow> []
      | Some info \<Rightarrow> if isLong then spi_SubaccountsWithLongPosition info else spi_SubaccountsWithShortPosition info)"

section \<open>Definitions: keeper flags\<close>

record ClobFlags =
  fl_MaxLiquidationAttemptsPerBlock :: uint32
  fl_MaxDeleveragingAttemptsPerBlock :: uint32
  fl_MaxDeleveragingSubaccountsToIterate :: uint32

section \<open>Definitions: deleveraging of one account\<close>

definition CanDeleverageSubaccount :: "'b clob_state \<Rightarrow> SubaccountId \<Rightarrow> uint32 \<Rightarrow> (bool \<times> bool) res" where
  "CanDeleverageSubaccount s subaccountId perpetualId =
     bindr (subaccount_risk s subaccountId) (\<lambda>risk.
       if sgn (NC risk) = - 1 then Inr (True, False)
       else bindr (GetClobPairIdForPerpetual s perpetualId) (\<lambda>clobPairId.
            bindr (mustGetClobPair s clobPairId) (\<lambda>clobPair.
              Inr (False, cp_Status clobPair = STATUS_FINAL_SETTLEMENT))))"

definition getDeleveragingQuoteQuantumsDelta ::
  "'b clob_state \<Rightarrow> uint32 \<Rightarrow> SubaccountId \<Rightarrow> int \<Rightarrow> bool \<Rightarrow> int res" where
  "getDeleveragingQuoteQuantumsDelta s perpetualId subaccountId deltaQuantums isFinalSettlement =
     (if isFinalSettlement then GetNetNotional s perpetualId (- deltaQuantums)
      else GetBankruptcyPriceInQuoteQuantums s subaccountId perpetualId deltaQuantums)"

definition ProcessDeleveraging ::
  "'b sdk \<Rightarrow> SubaccountId \<Rightarrow> SubaccountId \<Rightarrow> uint32 \<Rightarrow> int \<Rightarrow> int \<Rightarrow> ('b clob_state, unit) step" where
  "ProcessDeleveraging x liquidatedSubaccountId offsettingSubaccountId perpetualId deltaBaseQuantums deltaQuoteQuantums =
     bindM (readM (\<lambda>s. (position_quantums s liquidatedSubaccountId perpetualId,
                        position_quantums s offsettingSubaccountId perpetualId))) (\<lambda>(liquidatedQuantums, offsettingQuantums).
       if sgn liquidatedQuantums * sgn deltaBaseQuantums \<noteq> - 1 \<or> \<bar>liquidatedQuantums\<bar> < \<bar>deltaBaseQuantums\<bar>
          \<or> sgn offsettingQuantums * sgn deltaBaseQuantums \<noteq> 1 \<or> \<bar>offsettingQuantums\<bar> < \<bar>deltaBaseQuantums\<bar>
       then failM (Err ''ErrInvalidPerpetualPositionSizeDelta'')
       else
         let updates = [match_update liquidatedSubaccountId perpetualId deltaQuoteQuantums deltaBaseQuantums,
                        match_update offsettingSubaccountId perpetualId (- deltaQuoteQuantums) (- deltaBaseQuantums)]
         in bindM (on_sub (UpdateSubaccounts x updates Match)) (\<lambda>(success, successPerUpdate).
              liftM (\<lambda>_. GetErrorFromUpdateResults success successPerUpdate updates)))"

text \<open>
  One iteration of the loop over the accounts on the other side. An error leaves the loop state as it
  is and the loop goes on, unless the size of the fill was wrong.
\<close>

definition offset_one ::
  "'b sdk \<Rightarrow> SubaccountId \<Rightarrow> uint32 \<Rightarrow> bool \<Rightarrow> SubaccountId \<Rightarrow> MatchPerpetualDeleveraging_Fill list \<times> int
   \<Rightarrow> ('b clob_state, MatchPerpetualDeleveraging_Fill list \<times> int) step" where
  "offset_one x liquidatedSubaccountId perpetualId isFinalSettlement subaccountId acc s =
     (case acc of (fills, deltaQuantumsRemaining) \<Rightarrow>
        let offsettingQuantums = position_quantums s subaccountId perpetualId
        in if deltaQuantumsRemaining = 0 \<or> sgn deltaQuantumsRemaining \<noteq> sgn offsettingQuantums then (Inr acc, s)
           else
             let deltaBaseQuantums = (if \<bar>offsettingQuantums\<bar> < \<bar>deltaQuantumsRemaining\<bar> then offsettingQuantums
                                      else deltaQuantumsRemaining)
             in (case getDeleveragingQuoteQuantumsDelta s perpetualId liquidatedSubaccountId deltaBaseQuantums isFinalSettlement of
                   Inl (Panic n) \<Rightarrow> (Inl (Panic n), s)
                 | Inl (Err _) \<Rightarrow> (Inr acc, s)
                 | Inr deltaQuoteQuantums \<Rightarrow>
                     (case ProcessDeleveraging x liquidatedSubaccountId subaccountId perpetualId deltaBaseQuantums deltaQuoteQuantums s of
                        (Inr _, s) \<Rightarrow>
                          (Inr (fills @ [\<lparr>mdf_OffsettingSubaccountId = subaccountId,
                                          mdf_FillAmount = Uint64 \<bar>deltaBaseQuantums\<bar>\<rparr>],
                                deltaQuantumsRemaining - deltaBaseQuantums), s)
                      | (Inl (Panic n), s) \<Rightarrow> (Inl (Panic n), s)
                      | (Inl (Err n), s) \<Rightarrow>
                          if n = ''ErrInvalidPerpetualPositionSizeDelta''
                          then (Inl (Panic ''Invalid perpetual position size delta when processing deleveraging.''), s)
                          else (Inr acc, s))))"

text \<open>
  The loop stops when nothing remains to offset or after the maximal number of accounts; an iteration
  with nothing remaining changes nothing.
\<close>

definition OffsetSubaccountPerpetualPosition ::
  "('b, 'd, 'v) clob_env \<Rightarrow> ClobFlags \<Rightarrow> DaemonLiquidationInfo \<Rightarrow> SubaccountId \<Rightarrow> uint32 \<Rightarrow> int \<Rightarrow> bool
   \<Rightarrow> ('b clob_state, MatchPerpetualDeleveraging_Fill list \<times> int) step" where
  "OffsetSubaccountPerpetualPosition e flags daemon liquidatedSubaccountId perpetualId deltaQuantumsTotal isFinalSettlement s =
     (let isDeleveragingLong = (sgn deltaQuantumsTotal = - 1);
          subaccountsWithOpenPositions = GetSubaccountsWithOpenPositionsOnSide daemon perpetualId (\<not> isDeleveragingLong);
          numSubaccounts = length subaccountsWithOpenPositions
      in if numSubaccounts = 0 then (Inr ([], deltaQuantumsTotal), s)
         else
           let indexOffset = e_Intn e (prev_block_time s) numSubaccounts;
               numSubaccountsToIterate = min numSubaccounts (unat (fl_MaxDeleveragingSubaccountsToIterate flags))
           in foldM (offset_one (e_sdk e) liquidatedSubaccountId perpetualId isFinalSettlement)
                (take numSubaccountsToIterate (rotate_from indexOffset subaccountsWithOpenPositions))
                ([], deltaQuantumsTotal) s)"

section \<open>Definitions: the keeper behind the memclob\<close>

text \<open>
  The outcome of a match as the memclob sees it: the registers and the returned error; a panic stays
  one. The overrides and the parameters of the affiliates are read before the match.
\<close>

definition match_outcome_of :: "unit res \<times> 'b match_run \<Rightarrow> match_outcome res \<times> 'b clob_state" where
  "match_outcome_of y =
     (case y of
        (Inr _, r) \<Rightarrow> (Inr (True, r_takerUpdateResult r, r_makerUpdateResult r, None), r_state r)
      | (Inl (Err n), r) \<Rightarrow> (Inr (False, r_takerUpdateResult r, r_makerUpdateResult r, Some (Err n)), r_state r)
      | (Inl (Panic n), r) \<Rightarrow> (Inl (Panic n), r_state r))"

definition keeper_ProcessSingleMatch ::
  "('b, 'd, 'v) clob_env \<Rightarrow> MatchWithOrders \<Rightarrow> ('b clob_state, match_outcome) step" where
  "keeper_ProcessSingleMatch e m s =
     match_outcome_of (ProcessSingleMatch e (Some (GetAffiliateOverridesMap (c_affiliates s))) (af_params (c_affiliates s))
                         (start_run m s))"

text \<open>
  The keeper as the implementation of \<^verbatim>\<open>MemClobKeeper\<close>. The memclob asks for positions and collateralisation of
  pairs it has a book for; the defaults stand for the panics on unknown pairs. Authentication is a parameter.
\<close>

definition clob_keeper ::
  "('b, 'd, 'v) clob_env \<Rightarrow> ClobFlags \<Rightarrow> DaemonLiquidationInfo \<Rightarrow> ('b clob_state \<Rightarrow> bytes \<Rightarrow> unit res) \<Rightarrow> 'b clob_state MemClobKeeper" where
  "clob_keeper e flags daemon auth =
     \<lparr>k_GetOrderFillAmount = (\<lambda>s i. case GetOrderFillAmount (c_orders s) i of
        (exists, fillAmount, height) \<Rightarrow> if exists then Some (fillAmount, height) else None),
      k_ProcessSingleMatch = keeper_ProcessSingleMatch e,
      k_GetStatePosition = (\<lambda>s subaccountId clobPairId. case GetStatePosition s subaccountId clobPairId of Inr q \<Rightarrow> q | Inl _ \<Rightarrow> 0),
      k_GetLongTermOrderPlacement = (\<lambda>s i. case GetLongTermOrderPlacement (c_stateful s) i of Inr p \<Rightarrow> p | Inl _ \<Rightarrow> None),
      k_OffsetSubaccountPerpetualPosition = OffsetSubaccountPerpetualPosition e flags daemon,
      k_AddOrderToOrderbookSubaccountUpdatesCheck = (\<lambda>s subaccountId ord.
        case fst (AddOrderToOrderbookSubaccountUpdatesCheck e subaccountId ord s) of Inr r \<Rightarrow> r | Inl _ \<Rightarrow> UpdateCausedError),
      k_MaybeValidateAuthenticators = auth\<rparr>"

section \<open>Definitions: drivers of liquidation and deleveraging\<close>

text \<open>
  The drivers run on the memclob with any keeper \<open>k\<close> behind it. A ratio of two zeros in the metrics panics
  (\<^verbatim>\<open>big.Float.Quo\<close>), so it is part of the behaviour.
\<close>

definition percent_filled :: "int \<Rightarrow> int \<Rightarrow> unit res" where
  "percent_filled filled whole = (if filled = 0 \<and> whole = 0 then Inl (Panic ''division of zero by zero'') else Inr ())"

definition MaybeDeleverageSubaccount ::
  "'b clob_state MemClobKeeper \<Rightarrow> mem_ctx \<Rightarrow> SubaccountId \<Rightarrow> uint32 \<Rightarrow> ('b clob_state MemClob, int) step" where
  "MaybeDeleverageSubaccount k ctx subaccountId perpetualId =
     bindM (liftM (\<lambda>_. AssertCheckTxMode ctx)) (\<lambda>_.
     bindM (liftM (\<lambda>m. CanDeleverageSubaccount (mc_store m) subaccountId perpetualId)) (\<lambda>(atBankruptcyPrice, atOraclePrice).
       if \<not> atBankruptcyPrice \<and> \<not> atOraclePrice then retM 0
       else bindM (readM (\<lambda>m. GetPerpetualPositionForId (GetSubaccount (c_sub (mc_store m)) subaccountId) perpetualId)) (\<lambda>pos.
         case pos of
           None \<Rightarrow> retM 0
         | Some position \<Rightarrow>
             let deltaQuantums = - po_Quantums position
             in bindM (DeleverageSubaccount k ctx subaccountId perpetualId deltaQuantums atOraclePrice) (\<lambda>quantumsDeleveraged.
                bindM (liftM (\<lambda>_. percent_filled quantumsDeleveraged deltaQuantums)) (\<lambda>_. retM quantumsDeleveraged)))))"

fun find_negative_tnc :: "'b clob_state \<Rightarrow> SubaccountId list \<Rightarrow> SubaccountId option res" where
  "find_negative_tnc s [] = Inr None"
| "find_negative_tnc s (subaccountId # ids) =
     bindr (subaccount_risk s subaccountId) (\<lambda>risk.
       if sgn (NC risk) = - 1 then Inr (Some subaccountId) else find_negative_tnc s ids)"

definition GateWithdrawalsIfNegativeTncSubaccountSeen :: "SubaccountId list \<Rightarrow> ('b clob_state MemClob, unit) step" where
  "GateWithdrawalsIfNegativeTncSubaccountSeen negativeTncSubaccountIds =
     bindM (liftM (\<lambda>m. find_negative_tnc (mc_store m) negativeTncSubaccountIds)) (\<lambda>found.
       case found of
         None \<Rightarrow> retM ()
       | Some negativeTncSubaccountId \<Rightarrow>
           bindM (readM (\<lambda>m. sa_PerpetualPositions (GetSubaccount (c_sub (mc_store m)) negativeTncSubaccountId))) (\<lambda>perpetualPositions.
             case perpetualPositions of
               [] \<Rightarrow> failM (Err ''ErrNoPerpetualPositionsToLiquidate'')
             | position # _ \<Rightarrow> InsertZeroFillDeleveragingIntoOperationsQueue negativeTncSubaccountId (po_PerpetualId position)))"

definition GetSubaccountsWithPositionsInFinalSettlementMarkets ::
  "DaemonLiquidationInfo \<Rightarrow> 'b clob_state \<Rightarrow> (SubaccountId \<times> uint32) list res" where
  "GetSubaccountsWithPositionsInFinalSettlementMarkets daemon s =
     bindr (map_res (\<lambda>clobPair. bindr (ClobPair_MustGetPerpetualId clobPair) (\<lambda>perpetualId.
              Inr (map (\<lambda>subaccountId. (subaccountId, perpetualId)) (GetSubaccountsWithOpenPositions daemon perpetualId))))
            (filter (\<lambda>clobPair. cp_Status clobPair = STATUS_FINAL_SETTLEMENT) (GetAllClobPairs s))) (\<lambda>yss. Inr (concat yss))"

definition DeleverageSubaccounts ::
  "ClobFlags \<Rightarrow> 'b clob_state MemClobKeeper \<Rightarrow> mem_ctx \<Rightarrow> (SubaccountId \<times> uint32) list \<Rightarrow> ('b clob_state MemClob, unit) step" where
  "DeleverageSubaccounts flags k ctx subaccountsToDeleverage =
     forM (\<lambda>(subaccountId, perpetualId). bindM (MaybeDeleverageSubaccount k ctx subaccountId perpetualId) (\<lambda>_. retM ()))
       (take (unat (fl_MaxDeleveragingAttemptsPerBlock flags)) subaccountsToDeleverage)"

definition clob_PlacePerpetualLiquidation ::
  "'b clob_state MemClobKeeper \<Rightarrow> (MatchableOrder \<Rightarrow> OrderHash) \<Rightarrow> mem_ctx \<Rightarrow> LiquidationOrder
   \<Rightarrow> ('b clob_state MemClob, uint64 \<times> OrderStatus) step" where
  "clob_PlacePerpetualLiquidation k mhash ctx liquidationOrder =
     bindM (liftM (\<lambda>_. AssertCheckTxMode ctx)) (\<lambda>_.
     bindM (liftM (\<lambda>m. validateLiquidationAgainstClobPairStatus (mc_store m) liquidationOrder)) (\<lambda>_.
     bindM (PlacePerpetualLiquidation k mhash ctx liquidationOrder) (\<lambda>(filled, orderStatus).
     bindM (on_store (\<lambda>s. case MustUpdateSubaccountPerpetualLiquidated
                                   (pli_SubaccountId (lo_perpetualLiquidationInfo liquidationOrder))
                                   (pli_PerpetualId (lo_perpetualLiquidationInfo liquidationOrder)) (c_liqInfos s) of
                             Inl e \<Rightarrow> (Inl e, s) | Inr i \<Rightarrow> (Inr (), s\<lparr>c_liqInfos := i\<rparr>))) (\<lambda>_.
     bindM (liftM (\<lambda>_. percent_filled (uint filled) (uint (lo_quantums liquidationOrder)))) (\<lambda>_.
       retM (filled, orderStatus))))))"

text \<open>The orders of the accounts that are still liquidatable; other errors end the loop.\<close>

fun liquidation_orders :: "('b, 'd, 'v) clob_env \<Rightarrow> 'b clob_state \<Rightarrow> SubaccountId list \<Rightarrow> LiquidationOrder list res" where
  "liquidation_orders e s [] = Inr []"
| "liquidation_orders e s (subaccountId # ids) =
     (case MaybeGetLiquidationOrder e s subaccountId of
        Inl err \<Rightarrow> if err = Err ''ErrSubaccountNotLiquidatable'' then liquidation_orders e s ids else Inl err
      | Inr ord \<Rightarrow> bindr (liquidation_orders e s ids) (\<lambda>ords. Inr (ord # ords)))"

definition liquidate_one ::
  "('b, 'd, 'v) clob_env \<Rightarrow> 'b clob_state MemClobKeeper \<Rightarrow> (MatchableOrder \<Rightarrow> OrderHash) \<Rightarrow> mem_ctx \<Rightarrow> SubaccountId
   \<Rightarrow> (SubaccountId \<times> uint32) list \<Rightarrow> ('b clob_state MemClob, (SubaccountId \<times> uint32) list) step" where
  "liquidate_one e k mhash ctx subaccountId toDeleverage m =
     (case MaybeGetLiquidationOrder e (mc_store m) subaccountId of
        Inl err \<Rightarrow> if err = Err ''ErrSubaccountNotLiquidatable'' then (Inr toDeleverage, m) else (Inl err, m)
      | Inr ord \<Rightarrow>
          let unfilled = toDeleverage @ [(pli_SubaccountId (lo_perpetualLiquidationInfo ord),
                                          pli_PerpetualId (lo_perpetualLiquidationInfo ord))]
          in (case clob_PlacePerpetualLiquidation k mhash ctx ord m of
                (Inl err, m) \<Rightarrow>
                  if err = Err ''ErrLiquidationConflictsWithClobPairStatus'' then (Inr unfilled, m) else (Inl err, m)
              | (Inr (filled, _), m) \<Rightarrow> (Inr (if filled = 0 then unfilled else toDeleverage), m)))"

definition LiquidateSubaccountsAgainstOrderbook ::
  "('b, 'd, 'v) clob_env \<Rightarrow> ClobFlags \<Rightarrow> 'b clob_state MemClobKeeper \<Rightarrow> (MatchableOrder \<Rightarrow> OrderHash) \<Rightarrow> mem_ctx \<Rightarrow> SubaccountId list
   \<Rightarrow> ('b clob_state MemClob, (SubaccountId \<times> uint32) list) step" where
  "LiquidateSubaccountsAgainstOrderbook e flags k mhash ctx subaccountIds =
     bindM (liftM (\<lambda>_. AssertCheckTxMode ctx)) (\<lambda>_.
       if subaccountIds = [] then retM []
       else
         let numSubaccounts = length subaccountIds;
             numLiqOrders = min numSubaccounts (unat (fl_MaxLiquidationAttemptsPerBlock flags))
         in bindM (liftM (\<lambda>m. liquidation_orders e (mc_store m)
                     (take numLiqOrders (rotate_from (e_Intn e (prev_block_time (mc_store m)) numSubaccounts) subaccountIds)))) (\<lambda>orders.
            bindM (liftM (\<lambda>m. SortLiquidationOrders (e_liquidationHash e) (mc_store m) orders)) (\<lambda>sorted.
              foldM (liquidate_one e k mhash ctx)
                (map (\<lambda>ord. pli_SubaccountId (lo_perpetualLiquidationInfo ord)) sorted) [])))"

section \<open>A match records fills of its own orders\<close>

text \<open>
  The keeper behind the memclob keeps what the matching loop relies on: whatever a match does to the
  accounts, the fees and the statistics, and wherever it stops, the fill amount of every order other than
  its maker and its taker stays.
\<close>

definition same_fill :: "OrderId \<Rightarrow> 'b match_run \<Rightarrow> 'b match_run \<Rightarrow> bool" where
  "same_fill i r r' \<longleftrightarrow> GetOrderFillAmount (c_orders (r_state r')) i = GetOrderFillAmount (c_orders (r_state r)) i"

lemma same_fill_refl: "reflp (same_fill i)" and same_fill_trans: "transp (same_fill i)"
  by (auto simp: same_fill_def intro: reflpI transpI)

lemma same_fill_frames:
  "keeps (same_fill i) (modifyM (\<lambda>r. r\<lparr>r_match := h r\<rparr>))"
  "keeps (same_fill i) (modifyM (\<lambda>r. r\<lparr>r_affiliateRevShares := v, r_match := h r\<rparr>))"
  "keeps (same_fill i) (modifyM (\<lambda>r. r\<lparr>r_state := record_fill p m fill rf (q r) ap (r_state r), r_match := h r\<rparr>))"
  "keeps (same_fill i) (on_state (on_sub sub))"
  "keeps (same_fill i) (on_state (on_stateful stateful))"
  "keeps (same_fill i) (on_state (clob_fee_ppm e addr t j c))"
  "keeps (same_fill i) (on_state (whenM b (update_liquidation_info a p amount d)))"
  "keeps (same_fill i) (readM read)"
  "keeps (same_fill i) (distribute_match_fees x rf fill)"
  by (auto simp: keeps_def same_fill_def modifyM_def record_fill_def Let_def on_state_def on_sub_def on_stateful_def
      clob_fee_ppm_def on_stats_def whenM_def update_liquidation_info_def retM_def bindM_def liftM_def readM_def
      distribute_match_fees_def split: prod.splits sum.splits error.splits if_splits option.splits)

lemma apply_match_updates_fill: "keeps (same_fill i) (apply_match_updates x us)"
  by (auto simp: keeps_def same_fill_def apply_match_updates_def on_state_def on_sub_def Let_def
      split: prod.splits sum.splits error.splits list.splits)

lemma keeps_whenM: "reflp R \<Longrightarrow> keeps R m \<Longrightarrow> keeps R (whenM b m)"
  by (auto simp: whenM_def)

lemmas same_fill_intros = same_fill_frames apply_match_updates_fill keeps_whenM[OF same_fill_refl]
  keeps_basic[OF same_fill_refl] keeps_bind[OF same_fill_trans]

lemma persistMatchedOrders_fill: "keeps (same_fill i) (persistMatchedOrders e pid tppm mppm q ins ov ap)"
  unfolding keeps_def
proof
  fix r
  show "same_fill i r (snd (persistMatchedOrders e pid tppm mppm q ins ov ap r))"
    unfolding persistMatchedOrders_def Let_def
    by (rule keeps_bind_at[OF same_fill_trans])
      (unfold pay_builder_def, (intro same_fill_intros keeps_branches)+)
qed

lemma set_fill_same:
  assumes "o_OrderId (fst f) \<noteq> i"
  shows "GetOrderFillAmount (c_orders (set_fill f s)) i = GetOrderFillAmount (c_orders s) i"
  using assms by (cases f) (simp add: set_fill_def on_orders_def GetOrderFillAmount_def setOrderFillAmounts_fields)

lemma new_fill_order: "new_fill s mo fill = Inr f \<Longrightarrow> \<not> isReplacedBy mo i \<Longrightarrow> o_OrderId (fst f) \<noteq> i"
  by (cases mo) (auto simp: new_fill_def isReplacedBy_def mo_MustGetOrder.simps res_simps split: prod.splits)

lemma taker_new_fill_order: "taker_new_fill s mo fill = Inr (Some f) \<Longrightarrow> \<not> isReplacedBy mo i \<Longrightarrow> o_OrderId (fst f) \<noteq> i"
  using new_fill_order[of s mo fill f i] by (auto simp: taker_new_fill_def res_simps split: if_splits)

lemma set_fills_fill:
  assumes "o_OrderId (fst mf) \<noteq> i" "\<forall>f. tf = Some f \<longrightarrow> o_OrderId (fst f) \<noteq> i"
  shows "keeps (same_fill i) (on_state (modifyM (\<lambda>s. set_fill mf (case tf of None \<Rightarrow> s | Some f \<Rightarrow> set_fill f s))))"
  using assms by (auto simp: keeps_def same_fill_def on_state_def modifyM_def set_fill_same split: option.split)

lemma ProcessSingleMatch_fill:
  assumes "\<not> isReplacedBy (mw_MakerOrder (r_match r)) i" "\<not> isReplacedBy (mw_TakerOrder (r_match r)) i"
  shows "same_fill i r (snd (ProcessSingleMatch e ov ap r))"
  unfolding ProcessSingleMatch_def Let_def
  by (rule keeps_bind_at[OF same_fill_trans])
    (intro keeps_bind_lift[OF same_fill_refl] same_fill_intros keeps_branches persistMatchedOrders_fill set_fills_fill allI impI;
      (erule new_fill_order[OF _ assms(1)] | simp add: taker_new_fill_order[OF _ assms(2)]))+

lemma clob_keeper_fills_local: "fills_local (clob_keeper e flags daemon auth)"
  unfolding fills_local_def
proof (intro allI impI)
  fix m s outcome s' i
  assume run: "k_ProcessSingleMatch (clob_keeper e flags daemon auth) m s = (Inr outcome, s')"
    and i: "\<not> isReplacedBy (mw_MakerOrder m) i" "\<not> isReplacedBy (mw_TakerOrder m) i"
  let ?run = "ProcessSingleMatch e (Some (GetAffiliateOverridesMap (c_affiliates s))) (af_params (c_affiliates s)) (start_run m s)"
  have "s' = r_state (snd ?run)"
    using run by (auto simp: clob_keeper_def keeper_ProcessSingleMatch_def match_outcome_of_def split: prod.splits sum.splits error.splits)
  moreover have "same_fill i (start_run m s) (snd ?run)"
    by (rule ProcessSingleMatch_fill) (simp_all add: start_run_def i)
  ultimately show "k_GetOrderFillAmount (clob_keeper e flags daemon auth) s' i = k_GetOrderFillAmount (clob_keeper e flags daemon auth) s i"
    by (simp add: clob_keeper_def same_fill_def start_run_def)
qed

section \<open>Deleveraging only closes positions\<close>

lemma keeper_ok_perps:
  assumes "keeper_ok s" "perp_store_ok p" "isolated_perp p = isolated_perp (ks_perps s)"
  shows "keeper_ok (s\<lparr>ks_perps := p, ks_bank := b\<rparr>)"
  using assms by (auto simp: keeper_ok_def account_ok_def isolated_ok_def)

lemma UpdateSubaccounts_error_ok:
  assumes ok: "keeper_ok s" and run: "UpdateSubaccounts x us ty s = (Inl err, s')"
  shows "keeper_ok s' \<and> ks_subaccounts s' = ks_subaccounts s"
proof -
  have frame: "s' = s\<lparr>ks_perps := ks_perps s', ks_bank := ks_bank s'\<rparr>" using UpdateSubaccounts_failure[OF run] by blast
  have upd: "modify_open_interest d s = (Inl e, s1) \<Longrightarrow> s1 = s" for d e s1
    by (auto simp: modify_open_interest_def split: option.splits sum.splits)
  from run consider "s' = s"
    | d s1 pis nus where "modify_open_interest d s = (Inr (), s1)"
        "forM (computeAndExecuteCollateralTransfer x pis) nus s1 = (Inl err, s')"
    | d where "modify_open_interest d s = (Inr (), s')"
    by (auto simp: UpdateSubaccounts_def step_simps forM_modify dest: upd split: if_splits)
  then have "perp_store_ok (ks_perps s') \<and> isolated_perp (ks_perps s') = isolated_perp (ks_perps s)"
  proof cases
    case 1
    then show ?thesis using ok by (simp add: keeper_ok_def)
  next
    case 2
    have "ks_perps s' = ks_perps s1"
      using collateral_transfers_bank_only[OF 2(2)] unfolding bank_only_def by (metis keeper_state.select_convs(4) keeper_state.surjective keeper_state.update_convs(8))
    then show ?thesis using modify_open_interest_ok[OF ok 2(1)] by simp
  next
    case 3
    then show ?thesis using modify_open_interest_ok[OF ok 3] by simp
  qed
  then have "keeper_ok (s\<lparr>ks_perps := ks_perps s', ks_bank := ks_bank s'\<rparr>)" using keeper_ok_perps[OF ok] by blast
  then show ?thesis using frame by (metis keeper_state.select_convs(1) keeper_state.surjective keeper_state.update_convs(4,8))
qed

lemma position_quantums_eq: "position_quantums s i k = perp_position (c_sub s) i k"
  by (simp add: position_quantums_def GetPerpetualPositionForId_def perp_position_def held_def)

text \<open>A position moved towards zero and not beyond, and a delta that a position can take.\<close>

definition reduced :: "int \<Rightarrow> int \<Rightarrow> bool" where
  "reduced p p' \<longleftrightarrow> 0 \<le> p' \<and> p' \<le> p \<or> p \<le> p' \<and> p' \<le> 0"

definition offsets :: "int \<Rightarrow> int \<Rightarrow> bool" where
  "offsets d p \<longleftrightarrow> 0 \<le> d \<and> p \<le> - d \<or> d \<le> 0 \<and> - d \<le> p"

lemma reduced_refl: "reduced p p" and reduced_trans: "reduced p q \<Longrightarrow> reduced q r \<Longrightarrow> reduced p r"
  by (auto simp: reduced_def)

lemma ProcessDeleveraging_run:
  assumes ok: "keeper_ok (c_sub s)"
    and run: "ProcessDeleveraging x lid oid k d q s = (r, s')"
  shows "keeper_ok (c_sub s') \<and>
    (case r of
       Inr _ \<Rightarrow> lid \<noteq> oid \<and> offsets d (perp_position (c_sub s) lid k) \<and> offsets (- d) (perp_position (c_sub s) oid k) \<and>
         usdc_delta (c_sub s) (c_sub s') lid q \<and> usdc_delta (c_sub s) (c_sub s') oid (- q) \<and>
         (\<forall>a n. perp_position (c_sub s') a n = perp_position (c_sub s) a n +
            (if n = k then if a = lid then d else if a = oid then - d else 0 else 0))
     | Inl e \<Rightarrow> perp_position (c_sub s') = perp_position (c_sub s))"
proof -
  let ?us = "[match_update lid k q d, match_update oid k (- q) (- d)]"
  let ?bad = "sgn (perp_position (c_sub s) lid k) * sgn d \<noteq> - 1 \<or> \<bar>perp_position (c_sub s) lid k\<bar> < \<bar>d\<bar>
          \<or> sgn (perp_position (c_sub s) oid k) * sgn d \<noteq> 1 \<or> \<bar>perp_position (c_sub s) oid k\<bar> < \<bar>d\<bar>"
  show ?thesis
  proof (cases ?bad)
    case True
    then show ?thesis using ok run by (auto simp: ProcessDeleveraging_def readM_def bindM_def liftM_def failM_def position_quantums_eq)
  next
    case False
    obtain y k' where u: "UpdateSubaccounts x ?us Match (c_sub s) = (y, k')" by fastforce
    have s': "c_sub s' = k'" and r: "r = bindr y (\<lambda>(success, successPerUpdate). GetErrorFromUpdateResults success successPerUpdate ?us)"
      using run False u
      by (auto simp: ProcessDeleveraging_def readM_def bindM_def liftM_def on_sub_def position_quantums_eq bindr_def Let_def
          split: sum.splits prod.splits)
    consider (success) rs where "y = Inr (True, rs)" "r = Inr ()" | (rejected) rs e where "y = Inr (False, rs)" "r = Inl e"
      | (error) e where "y = Inl e" "r = Inl e"
      using r by (cases y) (auto simp: GetErrorFromUpdateResults_def split: if_splits option.splits)
    then show ?thesis
    proof cases
      case success
      obtain pis sus nus where "batch_run (c_sub s) ?us Match rs k' pis sus nus"
        using UpdateSubaccounts_batch[OF ok u[unfolded success(1)]] by blast
      then have ne: "lid \<noteq> oid" by (simp add: batch_run_def match_update_def)
      have b: "bank_only a a" for a :: "'a keeper_state" by (simp add: bank_only_def)
      note m = match_batch[OF ok b b ne u[unfolded success(1)]]
      show ?thesis
        using False ne m success(2) unfolding s' offsets_def
        by (auto simp: sgn_if split: if_splits)
    next
      case rejected
      then have "k' = c_sub s" using UpdateSubaccounts_failure[OF u] by simp
      then show ?thesis using ok rejected s' by simp
    next
      case error
      then have "keeper_ok k' \<and> ks_subaccounts k' = ks_subaccounts (c_sub s)" using UpdateSubaccounts_error_ok[OF ok] u by blast
      then show ?thesis using error(2) s' by (simp add: perp_position_def GetSubaccount_def fun_eq_iff)
    qed
  qed
qed


text \<open>What the loop over the other side has done after some accounts, from a state \<open>s0\<close>.\<close>

definition fills_of :: "SubaccountId \<Rightarrow> MatchPerpetualDeleveraging_Fill list \<Rightarrow> int" where
  "fills_of a fills = (\<Sum>f\<leftarrow>fills. if mdf_OffsettingSubaccountId f = a then uint (mdf_FillAmount f) else 0)"

definition fills_total :: "MatchPerpetualDeleveraging_Fill list \<Rightarrow> int" where
  "fills_total fills = (\<Sum>f\<leftarrow>fills. uint (mdf_FillAmount f))"

definition offset_inv ::
  "SubaccountId \<Rightarrow> uint32 \<Rightarrow> int \<Rightarrow> 'b keeper_state \<Rightarrow> MatchPerpetualDeleveraging_Fill list \<times> int \<Rightarrow> 'b keeper_state \<Rightarrow> bool" where
  "offset_inv lid k whole s0 acc s \<longleftrightarrow> (case acc of (fills, rem) \<Rightarrow>
     keeper_ok s \<and> reduced whole rem \<and> offsets rem (perp_position s lid k) \<and>
     fills_total fills = \<bar>whole - rem\<bar> \<and> (\<forall>f\<in>set fills. mdf_FillAmount f \<noteq> 0 \<and> mdf_OffsettingSubaccountId f \<noteq> lid) \<and>
     (\<forall>a n. reduced (perp_position s0 a n) (perp_position s a n)) \<and>
     (\<forall>a n. perp_position s a n = perp_position s0 a n +
        (if n \<noteq> k then 0 else if a = lid then whole - rem else - sgn whole * fills_of a fills)))"

lemma offset_inv_start:
  "keeper_ok s \<Longrightarrow> offsets whole (perp_position s lid k) \<Longrightarrow> offset_inv lid k whole s ([], whole) s"
  by (auto simp: offset_inv_def reduced_def offsets_def fills_total_def fills_of_def)

lemma offset_step_arith:
  assumes "reduced whole rem" "rem \<noteq> 0" "sgn rem = sgn op" "\<bar>whole\<bar> < 2 ^ 64" "offsets rem p"
    and d: "d = (if \<bar>op\<bar> < \<bar>rem\<bar> then op else rem)"
  shows "reduced whole (rem - d)" "offsets (rem - d) (p + d)" "reduced p (p + d)" "reduced op (op - d)" "d \<noteq> 0"
    "uint (Uint64 \<bar>d\<bar>) = \<bar>d\<bar>" "\<bar>whole - (rem - d)\<bar> = \<bar>whole - rem\<bar> + \<bar>d\<bar>" "d = sgn whole * \<bar>d\<bar>"
proof -
  have pos: "0 < rem \<and> 0 < op \<and> 0 < d \<and> d \<le> rem \<and> d \<le> op \<and> rem \<le> whole \<or>
      rem < 0 \<and> op < 0 \<and> d < 0 \<and> rem \<le> d \<and> op \<le> d \<and> whole \<le> rem"
    using assms by (auto simp: reduced_def sgn_if split: if_splits)
  then show "reduced whole (rem - d)" "offsets (rem - d) (p + d)" "reduced p (p + d)" "reduced op (op - d)" "d \<noteq> 0"
    "\<bar>whole - (rem - d)\<bar> = \<bar>whole - rem\<bar> + \<bar>d\<bar>" "d = sgn whole * \<bar>d\<bar>"
    using assms(5) by (auto simp: reduced_def offsets_def)
  show "uint (Uint64 \<bar>d\<bar>) = \<bar>d\<bar>" using pos assms(4) by (intro Uint64_id) auto
qed

lemma offset_one_inv:
  assumes inv: "offset_inv lid k whole s0 acc (c_sub s)" and big: "\<bar>whole\<bar> < 2 ^ 64"
    and run: "offset_one x lid k fs i acc s = (Inr acc', s')"
  shows "offset_inv lid k whole s0 acc' (c_sub s')"
proof -
  obtain fills rem where acc: "acc = (fills, rem)" by fastforce
  let ?op = "perp_position (c_sub s) i k"
  define d where "d = (if \<bar>?op\<bar> < \<bar>rem\<bar> then ?op else rem)"
  have I: "keeper_ok (c_sub s)" "reduced whole rem" "offsets rem (perp_position (c_sub s) lid k)"
    "fills_total fills = \<bar>whole - rem\<bar>" "\<forall>f\<in>set fills. mdf_FillAmount f \<noteq> 0 \<and> mdf_OffsettingSubaccountId f \<noteq> lid"
    "\<And>a n. reduced (perp_position s0 a n) (perp_position (c_sub s) a n)"
    "\<And>a n. perp_position (c_sub s) a n = perp_position s0 a n +
        (if n \<noteq> k then 0 else if a = lid then whole - rem else - sgn whole * fills_of a fills)"
    using inv unfolding offset_inv_def acc prod.case by blast+
  consider (same) "acc' = acc" "s' = s"
    | (failed) q e where "ProcessDeleveraging x lid i k d q s = (Inl e, s')" "acc' = acc"
    | (offset) q where "ProcessDeleveraging x lid i k d q s = (Inr (), s')" "rem \<noteq> 0" "sgn rem = sgn ?op"
        "acc' = (fills @ [\<lparr>mdf_OffsettingSubaccountId = i, mdf_FillAmount = Uint64 \<bar>d\<bar>\<rparr>], rem - d)"
    using run unfolding offset_one_def acc position_quantums_eq d_def Let_def
    by (auto split: if_splits sum.splits error.splits prod.splits)
  then show ?thesis
  proof cases
    case same
    then show ?thesis using inv by simp
  next
    case failed
    have "keeper_ok (c_sub s') \<and> perp_position (c_sub s') = perp_position (c_sub s)"
      using ProcessDeleveraging_run[OF I(1) failed(1)] by simp
    then show ?thesis using inv failed(2) by (auto simp: offset_inv_def)
  next
    case offset
    note P = ProcessDeleveraging_run[OF I(1) offset(1), simplified]
    note A = offset_step_arith[OF I(2) offset(2,3) big I(3) d_def]
    have new: "perp_position (c_sub s') a n = perp_position (c_sub s) a n +
            (if n = k then if a = lid then d else if a = i then - d else 0 else 0)" for a n using P by blast
    have red: "reduced (perp_position (c_sub s) a n) (perp_position (c_sub s') a n)" for a n
      using A(3,4) unfolding new by (auto simp: reduced_refl)
    have lid: "i \<noteq> lid" using P by blast
    have fills: "fills_of a (fst acc') = fills_of a fills + (if a = i then \<bar>d\<bar> else 0)" for a
      using A(6) by (simp add: fills_of_def offset(4))
    have sum: "perp_position (c_sub s') a n = perp_position s0 a n +
        (if n \<noteq> k then 0 else if a = lid then whole - (rem - d) else - sgn whole * fills_of a (fst acc'))" for a n
      unfolding new I(7) fills using A(8) lid by (auto simp: algebra_simps)
    have nz: "Uint64 \<bar>d\<bar> \<noteq> 0" using A(5,6) by (metis abs_eq_0_iff unsigned_0)
    show ?thesis
      unfolding offset_inv_def offset(4) prod.case
    proof (intro conjI allI ballI)
      show "keeper_ok (c_sub s')" using P by blast
      show "reduced whole (rem - d)" by (rule A(1))
      show "offsets (rem - d) (perp_position (c_sub s') lid k)" using A(2) unfolding new by simp
      show "fills_total (fills @ [\<lparr>mdf_OffsettingSubaccountId = i, mdf_FillAmount = Uint64 \<bar>d\<bar>\<rparr>]) = \<bar>whole - (rem - d)\<bar>"
        using I(4) A(6,7) by (simp add: fills_total_def)
      show "reduced (perp_position s0 a n) (perp_position (c_sub s') a n)" for a n by (rule reduced_trans[OF I(6) red])
      show "perp_position (c_sub s') a n = perp_position s0 a n + (if n \<noteq> k then 0 else if a = lid then whole - (rem - d) else
          - sgn whole * fills_of a (fills @ [\<lparr>mdf_OffsettingSubaccountId = i, mdf_FillAmount = Uint64 \<bar>d\<bar>\<rparr>]))" for a n
        using sum[of a n] by (simp add: offset(4))
    qed (use I(5) nz lid in auto)
  qed
qed


text \<open>
  C11: Deleveraging only closes positions, by exactly the reported amounts. When the position of an account is
  offset against accounts on the other side, by a delta of the opposite sign and no larger than the
  position, then every position of every account moves towards zero and never beyond it; only positions in
  the given perpetual move; the account is reduced by exactly the delta less what remains, each counterparty by
  exactly the fills reported for it; every fill is positive and of another account, the fills add up to what was
  offset, what remains has the sign of the delta and is no larger, and the store invariant is kept.
\<close>

theorem deleveraging_only_closes:
  assumes ok: "keeper_ok (c_sub s)" and delta: "offsets whole (perp_position (c_sub s) lid k)" and big: "\<bar>whole\<bar> < 2 ^ 64"
    and run: "OffsetSubaccountPerpetualPosition e flags daemon lid k whole fs s = (Inr (fills, rem), s')"
  shows "(\<forall>a n. reduced (perp_position (c_sub s) a n) (perp_position (c_sub s') a n)) \<and>
    (\<forall>a n. perp_position (c_sub s') a n = perp_position (c_sub s) a n +
       (if n \<noteq> k then 0 else if a = lid then whole - rem else - sgn whole * fills_of a fills)) \<and>
    (\<forall>f\<in>set fills. mdf_FillAmount f \<noteq> 0 \<and> mdf_OffsettingSubaccountId f \<noteq> lid) \<and>
    fills_total fills = \<bar>whole - rem\<bar> \<and> reduced whole rem \<and> keeper_ok (c_sub s')"
proof -
  have start: "offset_inv lid k whole (c_sub s) ([], whole) (c_sub s)" by (rule offset_inv_start[OF ok delta])
  have "offset_inv lid k whole (c_sub s) (fills, rem) (c_sub s')"
  proof (cases "GetSubaccountsWithOpenPositionsOnSide daemon k (sgn whole \<noteq> - 1) = []")
    case True
    then show ?thesis using run start by (simp add: OffsetSubaccountPerpetualPosition_def Let_def)
  next
    case False
    then obtain accounts where
      "foldM (offset_one (e_sdk e) lid k fs) accounts ([], whole) s = (Inr (fills, rem), s')"
      using run by (auto simp: OffsetSubaccountPerpetualPosition_def Let_def)
    from foldM_invariant[OF this, where P = "\<lambda>acc s'. offset_inv lid k whole (c_sub s) acc (c_sub s')"]
    show ?thesis using start offset_one_inv[OF _ big] by blast
  qed
  then show ?thesis unfolding offset_inv_def prod.case by blast
qed

definition ex_daemon :: DaemonLiquidationInfo where
  "ex_daemon = NewDaemonLiquidationInfo\<lparr>dli_subaccountsWithPositions :=
     [(0, \<lparr>spi_PerpetualId = 0, spi_SubaccountsWithLongPosition = [ex_id 0], spi_SubaccountsWithShortPosition = [ex_id 1]\<rparr>)]\<rparr>"

definition ex_flags :: ClobFlags where
  "ex_flags = \<lparr>fl_MaxLiquidationAttemptsPerBlock = 50, fl_MaxDeleveragingAttemptsPerBlock = 10,
     fl_MaxDeleveragingSubaccountsToIterate = 500\<rparr>"

lemma ex_offset_run:
  "fst (OffsetSubaccountPerpetualPosition ex_env ex_flags ex_daemon (ex_id 0) 0 (- 4000000000) True ex_clob) =
     Inr ([\<lparr>mdf_OffsettingSubaccountId = ex_id 1, mdf_FillAmount = 4000000000\<rparr>], 0)"
  by code_simp

theorem deleveraging_only_closes_witness:
  "\<exists>s'. OffsetSubaccountPerpetualPosition ex_env ex_flags ex_daemon (ex_id 0) 0 (- 4000000000) True ex_clob =
     (Inr ([\<lparr>mdf_OffsettingSubaccountId = ex_id 1, mdf_FillAmount = 4000000000\<rparr>], 0), s') \<and>
     perp_position (c_sub s') (ex_id 0) 0 = perp_position ex_state (ex_id 0) 0 - 4000000000"
proof -
  let ?run = "OffsetSubaccountPerpetualPosition ex_env ex_flags ex_daemon (ex_id 0) 0 (- 4000000000) True ex_clob"
  have run: "?run = (Inr ([\<lparr>mdf_OffsettingSubaccountId = ex_id 1, mdf_FillAmount = 4000000000\<rparr>], 0), snd ?run)"
    using ex_offset_run by (metis prod.collapse)
  have sub: "c_sub ex_clob = ex_state" by (simp add: ex_clob_def)
  have "perp_position ex_state (ex_id 0) 0 = 10000000000" by code_simp
  then have off: "offsets (- 4000000000) (perp_position (c_sub ex_clob) (ex_id 0) 0)" unfolding sub by (simp add: offsets_def)
  have ok: "keeper_ok (c_sub ex_clob)" unfolding sub by (rule ex_state_ok)
  have "perp_position (c_sub (snd ?run)) (ex_id 0) 0 = perp_position ex_state (ex_id 0) 0 - 4000000000"
    using deleveraging_only_closes[OF ok off _ run] unfolding sub by simp
  then show ?thesis using run by blast
qed

end
