(* ===== verification/ConditionalOrders.thy ===== *)
theory ConditionalOrders
  imports ClobOrders
begin

text \<open>
  Conditional orders and TWAP orders at the end of a block: which conditional orders the oracle price and the
  trade prices of the block trigger (\<^verbatim>\<open>untriggered_conditional_orders.go\<close>), and the suborders that TWAP
  orders place (\<^verbatim>\<open>twap_order_state.go\<close>).
\<close>

section \<open>Definitions: untriggered conditional orders\<close>

record UntriggeredConditionalOrders =
  uc_LTE :: "Order list"
  uc_GTE :: "Order list"

definition NewUntriggeredConditionalOrders :: UntriggeredConditionalOrders where
  "NewUntriggeredConditionalOrders = \<lparr>uc_LTE = [], uc_GTE = []\<rparr>"

definition UntriggeredConditionalOrders_IsEmpty :: "UntriggeredConditionalOrders \<Rightarrow> bool" where
  "UntriggeredConditionalOrders_IsEmpty u \<longleftrightarrow> length (uc_LTE u) = 0 \<and> length (uc_GTE u) = 0"

definition AddUntriggeredConditionalOrder :: "Order \<Rightarrow> UntriggeredConditionalOrders \<Rightarrow> UntriggeredConditionalOrders res" where
  "AddUntriggeredConditionalOrder ord u =
     bindr (OrderId_MustBeConditionalOrder (o_OrderId ord)) (\<lambda>_.
       let u = (if IsTakeProfitOrder ord
                then (if Order_IsBuy ord then u\<lparr>uc_LTE := uc_LTE u @ [ord]\<rparr> else u\<lparr>uc_GTE := uc_GTE u @ [ord]\<rparr>)
                else u);
           u = (if IsStopLossOrder ord
                then (if Order_IsBuy ord then u\<lparr>uc_GTE := uc_GTE u @ [ord]\<rparr> else u\<lparr>uc_LTE := uc_LTE u @ [ord]\<rparr>)
                else u)
       in Inr u)"

definition RemoveUntriggeredConditionalOrders ::
  "OrderId list \<Rightarrow> UntriggeredConditionalOrders \<Rightarrow> UntriggeredConditionalOrders res" where
  "RemoveUntriggeredConditionalOrders orderIdsToRemove u =
     (case orderIdsToRemove of
        [] \<Rightarrow> Inr u
      | i # _ \<Rightarrow>
          if list_ex (\<lambda>j. oid_ClobPairId j \<noteq> oid_ClobPairId i) orderIdsToRemove
          then Inl (Panic ''RemoveExpiredUntriggeredConditionalOrders: expected all orders to have the same ClobPairId.'')
          else if \<not> distinct orderIdsToRemove then Inl (Panic ''UniqueSliceToSet: duplicate value'')
          else let keep = filter (\<lambda>ord. o_OrderId ord \<notin> set orderIdsToRemove)
               in Inr \<lparr>uc_LTE = keep (uc_LTE u), uc_GTE = keep (uc_GTE u)\<rparr>)"

text \<open>Split a slice of orders into those that trigger at a price and the rest, in order.\<close>

fun poll :: "uint64 \<Rightarrow> Order list \<Rightarrow> (OrderId list \<times> Order list) res" where
  "poll subticks [] = Inr ([], [])"
| "poll subticks (ord # ords) =
     bindr (CanTrigger ord subticks) (\<lambda>can.
     bindr (poll subticks ords) (\<lambda>(triggered, rest).
       if can then Inr (o_OrderId ord # triggered, rest) else Inr (triggered, ord # rest)))"

definition PollTriggeredConditionalOrders ::
  "rat \<Rightarrow> UntriggeredConditionalOrders \<Rightarrow> (OrderId list \<times> UntriggeredConditionalOrders) res" where
  "PollTriggeredConditionalOrders oraclePriceSubticksRat u =
     bindr (poll (Uint64 (BigRatRound oraclePriceSubticksRat True)) (uc_LTE u)) (\<lambda>(lteTriggered, lte).
     bindr (poll (Uint64 (BigRatRound oraclePriceSubticksRat False)) (uc_GTE u)) (\<lambda>(gteTriggered, gte).
       Inr (lteTriggered @ gteTriggered, \<lparr>uc_LTE = lte, uc_GTE = gte\<rparr>)))"

definition OrganizeUntriggeredConditionalOrdersFromState ::
  "Order list \<Rightarrow> (uint32, UntriggeredConditionalOrders) gomap res" where
  "OrganizeUntriggeredConditionalOrdersFromState orders =
     for_res (\<lambda>ord ret.
         let clobPairId = oid_ClobPairId (o_OrderId ord);
             u = (case gm_get ret clobPairId of None \<Rightarrow> NewUntriggeredConditionalOrders | Some u \<Rightarrow> u)
         in bindr (AddUntriggeredConditionalOrder ord u) (\<lambda>u. Inr (gm_set clobPairId u ret)))
       orders []"

section \<open>Definitions: triggering\<close>

definition TriggerOrdersWithPrice ::
  "UntriggeredConditionalOrders \<Rightarrow> rat \<Rightarrow> ('b clob_state, OrderId list \<times> UntriggeredConditionalOrders) step" where
  "TriggerOrdersWithPrice untriggered price =
     bindM (liftM (\<lambda>_. PollTriggeredConditionalOrders price untriggered)) (\<lambda>(triggeredOrderIds, untriggered).
     bindM (readM (\<lambda>s. ks_ctx (c_sub s))) (\<lambda>ctx.
     bindM (forM (\<lambda>orderId. on_stateful (MustTriggerConditionalOrder ctx orderId)) triggeredOrderIds) (\<lambda>_.
       retM (triggeredOrderIds, untriggered))))"

text \<open>The argument gives the parameter \<^verbatim>\<open>MinPriceChangePpm\<close> of the markets of \<^verbatim>\<open>x/prices\<close>.\<close>

definition getClampedTradePricesForTriggering ::
  "(uint32 \<Rightarrow> uint32 option) \<Rightarrow> 'b clob_state \<Rightarrow> uint32 \<Rightarrow> rat \<Rightarrow> (rat \<times> rat) option res" where
  "getClampedTradePricesForTriggering minPriceChangePpm s perpetualId oraclePrice =
     (let (minTradePriceSubticks, maxTradePriceSubticks, found) = GetTradePricesForPerpetual (c_trades s) perpetualId
      in if \<not> found then Inr None
         else bindr (must (GetPerpetual (ks_perps (c_sub s)) perpetualId)) (\<lambda>perpetual.
           case minPriceChangePpm (pp_MarketId (p_Params perpetual)) of
             None \<Rightarrow> Inl (Panic ''EndBlocker: untriggeredConditionalOrders failed to find marketParam'')
           | Some ppm \<Rightarrow>
               let maxAllowedRange = BigRatMulPpm oraclePrice ppm * of_int (uint ConditionalOrderTriggerMultiplier);
                   upperBound = oraclePrice + maxAllowedRange;
                   lowerBound = oraclePrice - maxAllowedRange
               in Inr (Some (BigRatClamp (of_int (uint minTradePriceSubticks)) lowerBound upperBound,
                             BigRatClamp (of_int (uint maxTradePriceSubticks)) lowerBound upperBound))))"

definition trigger_clob_pair ::
  "(uint32 \<Rightarrow> uint32 option) \<Rightarrow> uint32 \<times> UntriggeredConditionalOrders \<Rightarrow> OrderId list \<Rightarrow> ('b clob_state, OrderId list) step" where
  "trigger_clob_pair minPriceChangePpm entry allTriggeredOrderIds =
     (case entry of (clobPairId, untriggered) \<Rightarrow>
        bindM (readM (\<lambda>s. GetClobPair s clobPairId)) (\<lambda>found.
          case found of
            None \<Rightarrow> retM allTriggeredOrderIds
          | Some clobPair \<Rightarrow>
              bindM (liftM (\<lambda>_. ClobPair_MustGetPerpetualId clobPair)) (\<lambda>perpetualId.
              bindM (liftM (\<lambda>s. GetOraclePriceSubticksRat s clobPair)) (\<lambda>oraclePrice.
              bindM (TriggerOrdersWithPrice untriggered oraclePrice) (\<lambda>(triggered, untriggered).
              bindM (liftM (\<lambda>s. getClampedTradePricesForTriggering minPriceChangePpm s perpetualId oraclePrice)) (\<lambda>clamped.
                case clamped of
                  None \<Rightarrow> retM (allTriggeredOrderIds @ triggered)
                | Some (clampedMinTradePrice, clampedMaxTradePrice) \<Rightarrow>
                    bindM (TriggerOrdersWithPrice untriggered clampedMinTradePrice) (\<lambda>(triggered1, untriggered).
                    bindM (TriggerOrdersWithPrice untriggered clampedMaxTradePrice) (\<lambda>(triggered2, _).
                      retM (allTriggeredOrderIds @ triggered @ triggered1 @ triggered2)))))))))"

definition MaybeTriggerConditionalOrders :: "(uint32 \<Rightarrow> uint32 option) \<Rightarrow> ('b clob_state, OrderId list) step" where
  "MaybeTriggerConditionalOrders minPriceChangePpm =
     bindM (liftM (\<lambda>s. bindr (GetAllUntriggeredConditionalOrders (c_stateful s)) OrganizeUntriggeredConditionalOrdersFromState))
       (\<lambda>clobPairToUntriggeredConditionals. foldM (trigger_clob_pair minPriceChangePpm) clobPairToUntriggeredConditionals [])"

section \<open>Definitions: TWAP suborders\<close>

text \<open>\<^verbatim>\<open>TwapParameters\<close> is read through a pointer.\<close>

definition twap_params :: "Order \<Rightarrow> TwapParameters res" where
  "twap_params ord = (case o_TwapParameters ord of None \<Rightarrow> Inl (Panic ''nil pointer dereference'') | Some p \<Rightarrow> Inr p)"

definition calculateSuborderSubticks :: "'b clob_state \<Rightarrow> ClobPair \<Rightarrow> TwapOrderPlacement \<Rightarrow> uint64 res" where
  "calculateSuborderSubticks s clobPair twapOrderPlacement =
     (let twapOrder = twp_Order twapOrderPlacement
      in if o_Subticks twapOrder \<noteq> 0 then Inr (o_Subticks twapOrder)
         else bindr (GetOraclePriceSubticksRat s clobPair) (\<lambda>oraclePriceSubticksRat.
              bindr (twap_params twapOrder) (\<lambda>params.
                let priceTolerancePpm =
                      (if o_Side twapOrder = SIDE_SELL then - tw_PriceTolerance params else tw_PriceTolerance params) :: int32;
                    adjustment = 1000000 + priceTolerancePpm;
                    adjustedPrice = BigRatMulPpm oraclePriceSubticksRat adjustment
                in bindr (BigRatRoundToMultiple adjustedPrice (uint (cp_SubticksPerTick clobPair)) (0 \<le> sint priceTolerancePpm))
                     (\<lambda>roundedSubticks. Inr (Uint64 roundedSubticks)))))"

definition GenerateSuborder :: "'b clob_state \<Rightarrow> OrderId \<Rightarrow> TwapOrderPlacement \<Rightarrow> int64 \<Rightarrow> Order option res" where
  "GenerateSuborder s suborderId twapOrderPlacement blockTime =
     (if TwapOrderPlacement_IsCompleted twapOrderPlacement then Inr None
      else let parentOrder = twp_Order twapOrderPlacement
           in bindr (mustGetClobPair s (oid_ClobPairId (o_OrderId parentOrder))) (\<lambda>clobPair.
              bindr (calculateSuborderSubticks s clobPair twapOrderPlacement) (\<lambda>subticks.
              bindr (calculateSuborderQuantums twapOrderPlacement clobPair) (\<lambda>quantums.
                Inr (Some \<lparr>o_OrderId = suborderId, o_Side = o_Side parentOrder, o_Quantums = quantums, o_Subticks = subticks,
                  o_GoodTilOneof = GoodTilBlockTime (ucast (blockTime + TWAP_SUBORDER_GOOD_TIL_BLOCK_TIME_OFFSET)),
                  o_TimeInForce = TIME_IN_FORCE_UNSPECIFIED, o_ReduceOnly = o_ReduceOnly parentOrder,
                  o_ClientMetadata = o_ClientMetadata parentOrder, o_ConditionType = CONDITION_TYPE_UNSPECIFIED,
                  o_ConditionalOrderTriggerSubticks = 0, o_TwapParameters = None, o_BuilderCodeParameters = None,
                  o_OrderRouterAddress = []\<rparr>)))))"

text \<open>\<^verbatim>\<open>abci.RunCached\<close>: writes only on success, and a panic becomes an error.\<close>

definition RunCached :: "('s, unit) step \<Rightarrow> ('s, unit) step" where
  "RunCached f s =
     (case f s of
        (Inr x, s') \<Rightarrow> (Inr x, s')
      | (Inl (Err n), _) \<Rightarrow> (Inl (Err n), s)
      | (Inl (Panic n), _) \<Rightarrow> (Inl (Err ''recovered from panic in cached context''), s))"

definition safeHandleMsgPlaceOrder :: "('b, 'd, 'v) clob_env \<Rightarrow> Order \<Rightarrow> bool \<Rightarrow> ('b clob_state, unit) step" where
  "safeHandleMsgPlaceOrder e ord isStateful = RunCached (HandleMsgPlaceOrder e ord isStateful)"

datatype twapOrderOperation =
    parentTwapCompleted "int64 \<times> OrderId" TwapOrderPlacement
  | parentTwapCancelled "int64 \<times> OrderId"
  | createSuborder "int64 \<times> OrderId" Order TwapOrderPlacement

fun twap_key :: "twapOrderOperation \<Rightarrow> int64 \<times> OrderId" where
  "twap_key (parentTwapCompleted k p) = k"
| "twap_key (parentTwapCancelled k) = k"
| "twap_key (createSuborder k ord p) = k"

text \<open>The operations of the triggers that are due; no trigger after the first future one is looked at.\<close>

definition twap_operation :: "'b clob_state \<Rightarrow> int64 \<Rightarrow> int64 \<times> OrderId \<Rightarrow> twapOrderOperation res" where
  "twap_operation s blockTime key =
     (case GetTwapOrderPlacement (c_stateful s) (parentTwapId (snd key)) of
        None \<Rightarrow> Inr (parentTwapCancelled key)
      | Some twapOrderPlacement \<Rightarrow>
          bindr (GenerateSuborder s (snd key) twapOrderPlacement blockTime) (\<lambda>suborder.
            case suborder of
              None \<Rightarrow> Inr (parentTwapCompleted key twapOrderPlacement)
            | Some ord \<Rightarrow> Inr (createSuborder key ord twapOrderPlacement)))"

definition due_triggers :: "stateful_state \<Rightarrow> int64 \<Rightarrow> (int64 \<times> OrderId) list" where
  "due_triggers s blockTime = takeWhile (\<lambda>(t, _). \<not> sint blockTime < sint t) (gm_keys (sf_TwapTriggers s))"

definition process_twap_operation :: "('b, 'd, 'v) clob_env \<Rightarrow> twapOrderOperation \<Rightarrow> ('b clob_state, unit) step" where
  "process_twap_operation e op =
     bindM (on_stateful (modifyM (DeleteSuborderFromTriggerStore (twap_key op)))) (\<lambda>_.
       case op of
         parentTwapCancelled key \<Rightarrow> retM ()
       | parentTwapCompleted key p \<Rightarrow> on_stateful (modifyM (DeleteTWAPOrderPlacement (o_OrderId (twp_Order p))))
       | createSuborder key ord p \<Rightarrow>
           bindM (on_stateful (modifyM (DecrementTwapOrderRemainingLegs p))) (\<lambda>_.
           bindM (liftM (\<lambda>_. twap_params (twp_Order p))) (\<lambda>params.
           bindM (\<lambda>s. case AddSuborderToTriggerStore (ks_ctx (c_sub s)) (o_OrderId ord) (ucast (tw_Interval params)) (c_stateful s) of
                       (triggerKey, st) \<Rightarrow> (Inr triggerKey, s\<lparr>c_stateful := st\<rparr>)) (\<lambda>triggerKey s.
             case safeHandleMsgPlaceOrder e ord True s of
               (Inr _, s) \<Rightarrow> (Inr (), s)
             | (Inl _, s) \<Rightarrow>
                 on_stateful (modifyM (\<lambda>st. DeleteSuborderFromTriggerStore triggerKey
                                (DeleteTWAPOrderPlacement (o_OrderId (twp_Order p)) st))) s))))"

definition GenerateAndPlaceTriggeredTwapSuborders :: "('b, 'd, 'v) clob_env \<Rightarrow> ('b clob_state, unit) step" where
  "GenerateAndPlaceTriggeredTwapSuborders e =
     bindM (liftM (\<lambda>s. let blockTime = block_unix (ks_ctx (c_sub s))
                        in map_res (twap_operation s blockTime) (due_triggers (c_stateful s) blockTime))) (\<lambda>operationsToProcess.
       forM (process_twap_operation e) operationsToProcess)"

section \<open>Which conditional orders a price triggers\<close>

text \<open>
  The abstract meaning of a trigger: a take-profit buy and a stop-loss sell wait for the price to fall
  to the trigger price, the two others for it to rise to it.
\<close>

definition waits_for_fall :: "Order \<Rightarrow> bool" where
  "waits_for_fall ord \<longleftrightarrow> (if IsTakeProfitOrder ord then Order_IsBuy ord else \<not> Order_IsBuy ord)"

definition price_triggers :: "rat \<Rightarrow> Order \<Rightarrow> bool" where
  "price_triggers price ord \<longleftrightarrow>
     (if waits_for_fall ord then price \<le> of_int (uint (o_ConditionalOrderTriggerSubticks ord))
      else of_int (uint (o_ConditionalOrderTriggerSubticks ord)) \<le> price)"

definition has_trigger :: "Order \<Rightarrow> bool" where
  "has_trigger ord \<longleftrightarrow> IsTakeProfitOrder ord \<or> IsStopLossOrder ord"

definition subticks_price :: "rat \<Rightarrow> bool" where
  "subticks_price price \<longleftrightarrow> 0 \<le> price \<and> \<lceil>price\<rceil> < 2 ^ 64"

definition organized :: "UntriggeredConditionalOrders \<Rightarrow> Order list \<Rightarrow> bool" where
  "organized u orders \<longleftrightarrow>
     uc_LTE u = filter waits_for_fall orders \<and> uc_GTE u = filter (\<lambda>ord. \<not> waits_for_fall ord) orders"

lemma CanTrigger_eq:
  assumes "has_trigger ord" "subticks_price price" "up \<longleftrightarrow> waits_for_fall ord"
  shows "CanTrigger ord (Uint64 (BigRatRound price up)) = Inr (price_triggers price ord)"
proof -
  let ?t = "o_ConditionalOrderTriggerSubticks ord"
  have c: "OrderId_IsConditionalOrder (o_OrderId ord)"
    using assms(1) by (auto simp: has_trigger_def IsTakeProfitOrder_def IsStopLossOrder_def Order_IsConditionalOrder_def)
  have fl: "uint (Uint64 \<lfloor>price\<rfloor>) = \<lfloor>price\<rfloor>"
    using assms(2) floor_le_ceiling[of price] by (intro Uint64_id) (simp_all add: subticks_price_def)
  have ce: "uint (Uint64 \<lceil>price\<rceil>) = \<lceil>price\<rceil>"
  proof (rule Uint64_id)
    have "0 \<le> \<lfloor>price\<rfloor>" using assms(2) by (simp add: subticks_price_def)
    then show "0 \<le> \<lceil>price\<rceil>" using floor_le_ceiling[of price] by linarith
  qed (use assms(2) in \<open>simp add: subticks_price_def\<close>)
  have lte: "Uint64 \<lceil>price\<rceil> \<le> ?t \<longleftrightarrow> price \<le> of_int (uint ?t)"
    unfolding word_le_def ce by (rule ceiling_le_iff)
  have gte: "?t \<le> Uint64 \<lfloor>price\<rfloor> \<longleftrightarrow> of_int (uint ?t) \<le> price"
    unfolding word_le_def fl by (rule le_floor_iff)
  have kind: "(o_ConditionType ord = CONDITION_TYPE_TAKE_PROFIT \<and> Order_IsBuy ord \<or>
      o_ConditionType ord = CONDITION_TYPE_STOP_LOSS \<and> \<not> Order_IsBuy ord) \<longleftrightarrow> waits_for_fall ord"
    using assms(1) by (auto simp: has_trigger_def waits_for_fall_def IsTakeProfitOrder_def IsStopLossOrder_def)
  show ?thesis
    unfolding CanTrigger_def kind Let_def price_triggers_def
    using c lte gte assms(3)
    by (cases "waits_for_fall ord")
      (simp_all add: OrderId_MustBeConditionalOrder_def BigRatRound_floor BigRatRound_ceiling del: of_int_uint)
qed

lemma poll_eq:
  assumes "\<forall>ord\<in>set ords. has_trigger ord \<and> (waits_for_fall ord \<longleftrightarrow> up)" "subticks_price price"
  shows "poll (Uint64 (BigRatRound price up)) ords =
    Inr (map o_OrderId (filter (price_triggers price) ords), filter (\<lambda>ord. \<not> price_triggers price ord) ords)"
  using assms(1) by (induction ords) (auto simp: CanTrigger_eq[OF _ assms(2)])

lemma filter_swap: "filter P (filter Q xs) = filter Q (filter P xs)"
  by (induction xs) simp_all

lemma Poll_eq:
  assumes "organized u ords" "\<forall>ord\<in>set ords. has_trigger ord" "subticks_price price"
  shows "\<exists>ids u'. PollTriggeredConditionalOrders price u = Inr (ids, u') \<and>
    set ids = o_OrderId ` {ord \<in> set ords. price_triggers price ord} \<and>
    organized u' (filter (\<lambda>ord. \<not> price_triggers price ord) ords)"
proof -
  have "\<forall>ord\<in>set (uc_LTE u). has_trigger ord \<and> (waits_for_fall ord \<longleftrightarrow> True)"
    "\<forall>ord\<in>set (uc_GTE u). has_trigger ord \<and> (waits_for_fall ord \<longleftrightarrow> False)"
    using assms(1,2) by (auto simp: organized_def)
  note p = this[THEN poll_eq[OF _ assms(3)]]
  show ?thesis
    unfolding PollTriggeredConditionalOrders_def p using assms(1) filter_swap[of _ "\<lambda>ord. \<not> price_triggers price ord" ords]
    by (auto simp: organized_def)
qed


section \<open>Organizing the untriggered orders by CLOB pair\<close>

definition organized_map :: "(uint32, UntriggeredConditionalOrders) gomap \<Rightarrow> Order list \<Rightarrow> bool" where
  "organized_map m orders \<longleftrightarrow> gm_inv m \<and>
     (\<forall>k. let mine = filter (\<lambda>ord. oid_ClobPairId (o_OrderId ord) = k) orders
          in case gm_get m k of None \<Rightarrow> mine = [] | Some u \<Rightarrow> mine \<noteq> [] \<and> organized u mine)"

lemma AddUntriggered_organized:
  assumes "organized u ords" "has_trigger ord"
  shows "\<exists>u'. AddUntriggeredConditionalOrder ord u = Inr u' \<and> organized u' (ords @ [ord])"
  using assms
  by (auto simp: AddUntriggeredConditionalOrder_def organized_def has_trigger_def waits_for_fall_def
      OrderId_MustBeConditionalOrder_def IsTakeProfitOrder_def IsStopLossOrder_def Order_IsConditionalOrder_def Let_def)

lemma organized_Nil: "organized NewUntriggeredConditionalOrders []"
  by (simp add: organized_def NewUntriggeredConditionalOrders_def)

lemma Organize_step:
  assumes "organized_map m ords" "has_trigger ord"
  shows "\<exists>u'. AddUntriggeredConditionalOrder ord
      (case gm_get m (oid_ClobPairId (o_OrderId ord)) of None \<Rightarrow> NewUntriggeredConditionalOrders | Some u \<Rightarrow> u) = Inr u' \<and>
    organized_map (gm_set (oid_ClobPairId (o_OrderId ord)) u' m) (ords @ [ord])"
proof -
  let ?k = "oid_ClobPairId (o_OrderId ord)"
  let ?u = "case gm_get m ?k of None \<Rightarrow> NewUntriggeredConditionalOrders | Some u \<Rightarrow> u"
  have "organized ?u (filter (\<lambda>ord. oid_ClobPairId (o_OrderId ord) = ?k) ords)"
    using assms(1)[unfolded organized_map_def Let_def, THEN conjunct2, THEN spec, of ?k] organized_Nil
    by (cases "gm_get m ?k") auto
  from AddUntriggered_organized[OF this assms(2)] obtain u' where
    u': "AddUntriggeredConditionalOrder ord ?u = Inr u'"
      "organized u' (filter (\<lambda>ord. oid_ClobPairId (o_OrderId ord) = ?k) ords @ [ord])" by blast
  then have "organized_map (gm_set ?k u' m) (ords @ [ord])"
    using assms(1) unfolding organized_map_def Let_def by (simp cong: option.case_cong)
  with u'(1) show ?thesis by blast
qed

lemma Organize_for:
  assumes "organized_map m ords" "\<forall>ord\<in>set todo. has_trigger ord"
  shows "\<exists>m'. for_res (\<lambda>ord ret.
         let clobPairId = oid_ClobPairId (o_OrderId ord);
             u = (case gm_get ret clobPairId of None \<Rightarrow> NewUntriggeredConditionalOrders | Some u \<Rightarrow> u)
         in bindr (AddUntriggeredConditionalOrder ord u) (\<lambda>u. Inr (gm_set clobPairId u ret))) todo m = Inr m' \<and>
     organized_map m' (ords @ todo)"
  using assms
proof (induction todo arbitrary: m ords)
  case (Cons ord todo)
  from Organize_step[OF Cons.prems(1), of ord] Cons.prems(2) obtain u' where
    u': "AddUntriggeredConditionalOrder ord
      (case gm_get m (oid_ClobPairId (o_OrderId ord)) of None \<Rightarrow> NewUntriggeredConditionalOrders | Some u \<Rightarrow> u) = Inr u'"
      "organized_map (gm_set (oid_ClobPairId (o_OrderId ord)) u' m) (ords @ [ord])" by auto
  show ?case using Cons.IH[OF u'(2)] Cons.prems(2) u'(1) by (simp add: Let_def)
qed simp

lemma Organize_eq:
  assumes "\<forall>ord\<in>set orders. has_trigger ord"
  shows "\<exists>m. OrganizeUntriggeredConditionalOrdersFromState orders = Inr m \<and> organized_map m orders"
  unfolding OrganizeUntriggeredConditionalOrdersFromState_def
  using Organize_for[of "[]" "[]" orders] assms by (simp add: organized_map_def)

section \<open>Moving triggered orders between the stores\<close>

text \<open>The orders with these ids, all untriggered before, are in the triggered store and nothing else moved.\<close>

definition orders_moved :: "OrderId set \<Rightarrow> stateful_state \<Rightarrow> stateful_state \<Rightarrow> bool" where
  "orders_moved ids st st' \<longleftrightarrow> ids \<subseteq> dom (gm_get (sf_Untriggered st)) \<and>
     gm_get (sf_Untriggered st') = gm_get (sf_Untriggered st) |` (- ids) \<and>
     (\<forall>i. map_option lp_Order (gm_get (sf_Triggered st') i) =
           map_option lp_Order (if i \<in> ids then gm_get (sf_Untriggered st) i else gm_get (sf_Triggered st) i))"

lemma orders_moved_refl: "orders_moved {} st st"
  by (simp add: orders_moved_def restrict_map_def)

lemma orders_moved_trans:
  assumes "orders_moved ids st st'" "orders_moved ids' st' st''"
  shows "orders_moved (ids \<union> ids') st st''"
proof -
  have "ids' \<subseteq> dom (gm_get (sf_Untriggered st)) - ids"
    using assms by (auto simp: orders_moved_def)
  then show ?thesis
    using assms unfolding orders_moved_def
    by (auto simp: restrict_map_def fun_eq_iff)
qed

lemma MustTrigger_moved:
  assumes "MustTriggerConditionalOrder ctx i st = (Inr u, st')"
  shows "orders_moved {i} st st'"
  using assms
  by (auto simp: MustTriggerConditionalOrder_def step_simps placement_update_def GetNextStatefulOrderTransactionIndex_def
      orders_moved_def restrict_map_def fun_eq_iff Let_def split: option.splits)


definition trigger_step :: "OrderId set \<Rightarrow> 'b clob_state \<Rightarrow> 'b clob_state \<Rightarrow> bool" where
  "trigger_step ids s s' \<longleftrightarrow> orders_moved ids (c_stateful s) (c_stateful s') \<and> s' = s\<lparr>c_stateful := c_stateful s'\<rparr>"

lemma trigger_step_refl: "trigger_step {} s s"
  by (simp add: trigger_step_def orders_moved_refl)

lemma trigger_step_trans: "trigger_step ids s s' \<Longrightarrow> trigger_step ids' s' s'' \<Longrightarrow> trigger_step (ids \<union> ids') s s''"
  by (cases s; cases s') (auto simp: trigger_step_def intro: orders_moved_trans)

lemma trigger_step_untouched:
  assumes "trigger_step ids s s'"
  shows "GetClobPair s' = GetClobPair s" "GetOraclePriceSubticksRat s' = GetOraclePriceSubticksRat s"
    "getClampedTradePricesForTriggering mp s' = getClampedTradePricesForTriggering mp s"
proof -
  obtain st where "s' = s\<lparr>c_stateful := st\<rparr>" using assms unfolding trigger_step_def by blast
  then have eq: "c_sub s' = c_sub s" "c_clobPairs s' = c_clobPairs s" "c_trades s' = c_trades s" by simp_all
  show "GetClobPair s' = GetClobPair s" "GetOraclePriceSubticksRat s' = GetOraclePriceSubticksRat s"
    "getClampedTradePricesForTriggering mp s' = getClampedTradePricesForTriggering mp s"
    by (simp_all only: fun_eq_iff GetClobPair_def GetOraclePriceSubticksRat_def getClampedTradePricesForTriggering_def eq simp_thms)
qed

lemma on_stateful_trigger:
  assumes "on_stateful (MustTriggerConditionalOrder ctx i) s = (Inr u, s')"
  shows "trigger_step {i} s s'"
  using assms MustTrigger_moved[of ctx i "c_stateful s" u] unfolding on_stateful_def trigger_step_def
  by (auto split: prod.splits)

lemma forM_trigger:
  "forM (\<lambda>i. on_stateful (MustTriggerConditionalOrder ctx i)) ids s = (Inr u, s') \<Longrightarrow> trigger_step (set ids) s s'"
proof (induction ids arbitrary: s)
  case Nil
  then show ?case by (simp add: step_simps trigger_step_refl)
next
  case (Cons i ids)
  from Cons.prems obtain v t where "on_stateful (MustTriggerConditionalOrder ctx i) s = (Inr v, t)"
    "forM (\<lambda>i. on_stateful (MustTriggerConditionalOrder ctx i)) ids t = (Inr u, s')"
    by (auto simp: step_simps)
  then show ?case using trigger_step_trans[OF on_stateful_trigger Cons.IH] by fastforce
qed

lemma TriggerOrdersWithPrice_exact:
  assumes "TriggerOrdersWithPrice u price s = (Inr (ids, u'), s')"
    and "organized u ords" "\<forall>ord\<in>set ords. has_trigger ord" "subticks_price price"
  shows "set ids = o_OrderId ` {ord \<in> set ords. price_triggers price ord} \<and>
    organized u' (filter (\<lambda>ord. \<not> price_triggers price ord) ords) \<and> trigger_step (set ids) s s'"
proof -
  from Poll_eq[OF assms(2-4)] obtain ids0 u0 where P: "PollTriggeredConditionalOrders price u = Inr (ids0, u0)"
    "set ids0 = o_OrderId ` {ord \<in> set ords. price_triggers price ord}"
    "organized u0 (filter (\<lambda>ord. \<not> price_triggers price ord) ords)" by blast
  have "forM (\<lambda>i. on_stateful (MustTriggerConditionalOrder (ks_ctx (c_sub s)) i)) ids0 s = (Inr (), s') \<and> ids0 = ids \<and> u0 = u'"
    using assms(1) P(1) by (auto simp: TriggerOrdersWithPrice_def step_simps readM_def)
  then show ?thesis using P(2,3) forM_trigger by blast
qed

text \<open>The prices that an order of a CLOB pair is compared with: the oracle price and the clamped extreme trade prices.\<close>

definition pair_prices :: "(uint32 \<Rightarrow> uint32 option) \<Rightarrow> 'b clob_state \<Rightarrow> uint32 \<Rightarrow> rat list" where
  "pair_prices minPriceChangePpm s clobPairId =
     (case GetClobPair s clobPairId of
        None \<Rightarrow> []
      | Some clobPair \<Rightarrow>
          (case (GetOraclePriceSubticksRat s clobPair, ClobPair_MustGetPerpetualId clobPair) of
             (Inr px, Inr perpetualId) \<Rightarrow>
               px # (case getClampedTradePricesForTriggering minPriceChangePpm s perpetualId px of
                           Inr (Some (lo, hi)) \<Rightarrow> [lo, hi] | _ \<Rightarrow> [])
           | _ \<Rightarrow> []))"

lemma trigger_clob_pair_exact:
  assumes run: "trigger_clob_pair mp (k, u) acc s = (Inr r, s')"
    and u: "organized u ords" and trig: "\<forall>ord\<in>set ords. has_trigger ord"
    and prices: "\<forall>p\<in>set (pair_prices mp s k). subticks_price p"
  shows "\<exists>ids. r = acc @ ids \<and> trigger_step (set ids) s s' \<and>
    set ids = o_OrderId ` {ord \<in> set ords. \<exists>p\<in>set (pair_prices mp s k). price_triggers p ord}"
proof (cases "GetClobPair s k")
  case None
  then show ?thesis using run by (auto simp: trigger_clob_pair_def step_simps readM_def pair_prices_def trigger_step_refl)
next
  case (Some cp)
  then obtain pid px ids1 u1 s1 cl where st:
    "ClobPair_MustGetPerpetualId cp = Inr pid" "GetOraclePriceSubticksRat s cp = Inr px"
    "TriggerOrdersWithPrice u px s = (Inr (ids1, u1), s1)"
    "getClampedTradePricesForTriggering mp s1 pid px = Inr cl"
    "(case cl of None \<Rightarrow> retM (acc @ ids1)
      | Some (lo, hi) \<Rightarrow> bindM (TriggerOrdersWithPrice u1 lo) (\<lambda>(ids2, u2).
          bindM (TriggerOrdersWithPrice u2 hi) (\<lambda>(ids3, _). retM (acc @ ids1 @ ids2 @ ids3)))) s1 = (Inr r, s')"
    using run by (auto simp: trigger_clob_pair_def step_simps readM_def)
  have o: "subticks_price px" using prices Some st(1,2) by (simp add: pair_prices_def)
  note t1 = TriggerOrdersWithPrice_exact[OF st(3) u trig o]
  have cl: "getClampedTradePricesForTriggering mp s pid px = Inr cl"
    using st(4) trigger_step_untouched(3) t1 by metis
  show ?thesis
  proof (cases cl)
    case None
    then show ?thesis
      using t1 st(1,2,5) cl Some by (intro exI[of _ ids1]) (auto simp: step_simps pair_prices_def)
  next
    case (Some lh)
    obtain lo hi where lh: "lh = (lo, hi)" by fastforce
    from st(5) obtain ids2 u2 s2 ids3 u3 where st2:
      "TriggerOrdersWithPrice u1 lo s1 = (Inr (ids2, u2), s2)"
      "TriggerOrdersWithPrice u2 hi s2 = (Inr (ids3, u3), s')" "r = acc @ ids1 @ ids2 @ ids3"
      by (auto simp: step_simps Some lh)
    have pp: "pair_prices mp s k = [px, lo, hi]"
      using \<open>GetClobPair s k = Some cp\<close> st(1,2) cl Some lh by (simp add: pair_prices_def)
    let ?o1 = "filter (\<lambda>ord. \<not> price_triggers px ord) ords"
    have tr1: "\<forall>ord\<in>set ?o1. has_trigger ord" using trig by simp
    have t2: "set ids2 = o_OrderId ` {ord \<in> set ?o1. price_triggers lo ord} \<and>
      organized u2 (filter (\<lambda>ord. \<not> price_triggers lo ord) ?o1) \<and> trigger_step (set ids2) s1 s2"
      by (rule TriggerOrdersWithPrice_exact[OF st2(1) _ tr1]) (use t1 prices pp in auto)
    let ?o2 = "filter (\<lambda>ord. \<not> price_triggers lo ord) ?o1"
    have tr2: "\<forall>ord\<in>set ?o2. has_trigger ord" using trig by simp
    have t3: "set ids3 = o_OrderId ` {ord \<in> set ?o2. price_triggers hi ord} \<and> trigger_step (set ids3) s2 s'"
    proof -
      have "subticks_price hi" using prices pp by simp
      from TriggerOrdersWithPrice_exact[OF st2(2) conjunct1[OF conjunct2[OF t2]] tr2 this] show ?thesis by blast
    qed
    have step: "trigger_step (set (ids1 @ ids2 @ ids3)) s s'"
      using trigger_step_trans[OF conjunct2[OF conjunct2[OF t1]]
          trigger_step_trans[OF conjunct2[OF conjunct2[OF t2]] conjunct2[OF t3]]] by simp
    have "set (ids1 @ ids2 @ ids3) = set ids1 \<union> set ids2 \<union> set ids3" by auto
    also have "\<dots> = o_OrderId ` {ord \<in> set ords. \<exists>p\<in>set [px, lo, hi]. price_triggers p ord}"
      unfolding conjunct1[OF t1] conjunct1[OF t2] conjunct1[OF t3] by auto
    finally show ?thesis using step st2(3) pp by (intro exI[of _ "ids1 @ ids2 @ ids3"]) simp
  qed
qed


lemma pair_prices_untouched:
  assumes "trigger_step ids s s'"
  shows "pair_prices mp s' = pair_prices mp s"
  by (simp only: pair_prices_def fun_eq_iff trigger_step_untouched[OF assms] simp_thms)

lemma foldM_trigger_exact:
  assumes "foldM (trigger_clob_pair mp) entries acc s = (Inr r, s')"
    and "\<forall>(k, u)\<in>set entries. organized u (ords k) \<and> (\<forall>ord\<in>set (ords k). has_trigger ord) \<and>
           (\<forall>p\<in>set (pair_prices mp s k). subticks_price p)"
  shows "\<exists>ids. r = acc @ ids \<and> trigger_step (set ids) s s' \<and>
    set ids = (\<Union>k\<in>fst ` set entries. o_OrderId ` {ord \<in> set (ords k). \<exists>p\<in>set (pair_prices mp s k). price_triggers p ord})"
  using assms
proof (induction entries arbitrary: acc s)
  case Nil
  then show ?case by (simp add: step_simps trigger_step_refl)
next
  case (Cons e entries)
  obtain k u where e: "e = (k, u)" by fastforce
  from Cons.prems(1) obtain acc1 s1 where st: "trigger_clob_pair mp (k, u) acc s = (Inr acc1, s1)"
    "foldM (trigger_clob_pair mp) entries acc1 s1 = (Inr r, s')" by (auto simp: step_simps e)
  have "organized u (ords k)" "\<forall>ord\<in>set (ords k). has_trigger ord" "\<forall>p\<in>set (pair_prices mp s k). subticks_price p"
    using Cons.prems(2) by (auto simp: e)
  from trigger_clob_pair_exact[OF st(1) this] obtain ids where ids: "acc1 = acc @ ids" "trigger_step (set ids) s s1"
    "set ids = o_OrderId ` {ord \<in> set (ords k). \<exists>p\<in>set (pair_prices mp s k). price_triggers p ord}"
    by blast
  note same = pair_prices_untouched[OF ids(2)]
  have "\<forall>(k, u)\<in>set entries. organized u (ords k) \<and> (\<forall>ord\<in>set (ords k). has_trigger ord) \<and>
           (\<forall>p\<in>set (pair_prices mp s1 k). subticks_price p)"
    using Cons.prems(2) unfolding same by simp
  from Cons.IH[OF st(2) this] obtain ids' where ids': "r = acc1 @ ids'" "trigger_step (set ids') s1 s'"
    "set ids' = (\<Union>k\<in>fst ` set entries. o_OrderId ` {ord \<in> set (ords k). \<exists>p\<in>set (pair_prices mp s k). price_triggers p ord})"
    unfolding same by blast
  show ?case
    using trigger_step_trans[OF ids(2) ids'(2)] ids(1,3) ids'(1,3) e by (intro exI[of _ "ids @ ids'"]) simp
qed

text \<open>Untriggered placements are filed under the id of their order and have a trigger condition.\<close>

definition untriggered_ok :: "stateful_state \<Rightarrow> bool" where
  "untriggered_ok st \<longleftrightarrow> gm_inv (sf_Untriggered st) \<and>
     (\<forall>(i, pl)\<in>set (sf_Untriggered st). o_OrderId (lp_Order pl) = i \<and> has_trigger (lp_Order pl))"

text \<open>
  C23: At the end of a block exactly the conditional orders that a price reached are triggered. An
  untriggered take-profit buy or stop-loss sell is triggered iff the oracle price, or one of the extreme trade
  prices of the block clamped around it, is at or below its trigger price, the two other kinds iff such
  a price is at or above it, compared as exact rationals although the code compares rounded integers; the
  triggered orders move to the triggered store with their order unchanged, every other placement stays, and
  no other part of the state changes.
\<close>

theorem conditional_orders_trigger_exactly:
  assumes run: "MaybeTriggerConditionalOrders mp s = (Inr ids, s')" and ok: "untriggered_ok (c_stateful s)"
    and prices: "\<forall>k. \<forall>p\<in>set (pair_prices mp s k). subticks_price p"
  shows "set ids = {i. \<exists>pl. gm_get (sf_Untriggered (c_stateful s)) i = Some pl \<and>
        (\<exists>p\<in>set (pair_prices mp s (oid_ClobPairId i)). price_triggers p (lp_Order pl))} \<and>
    orders_moved (set ids) (c_stateful s) (c_stateful s') \<and> s' = s\<lparr>c_stateful := c_stateful s'\<rparr>"
proof -
  let ?U = "sf_Untriggered (c_stateful s)"
  from run obtain orders m where m: "GetAllUntriggeredConditionalOrders (c_stateful s) = Inr orders"
    "OrganizeUntriggeredConditionalOrdersFromState orders = Inr m" "foldM (trigger_clob_pair mp) m [] s = (Inr ids, s')"
    by (auto simp: MaybeTriggerConditionalOrders_def step_simps res_simps)
  have so: "set orders = lp_Order ` snd ` set ?U"
  proof -
    have "orders = map lp_Order (sort_key ordering_key (map snd ?U))"
      using m(1) by (auto simp: GetAllUntriggeredConditionalOrders_def getStatefulOrders_def gm_vals_def split: if_splits)
    then show ?thesis by simp
  qed
  have trig: "\<forall>ord\<in>set orders. has_trigger ord" using so ok by (auto simp: untriggered_ok_def)
  define ords where "ords k = filter (\<lambda>ord. oid_ClobPairId (o_OrderId ord) = k) orders" for k
  have om: "organized_map m orders" using Organize_eq[OF trig] m(2) by auto
  then have ent: "organized u (ords k)" if "(k, u) \<in> set m" for k u
    using that unfolding organized_map_def Let_def ords_def by (metis (mono_tags, lifting) gm_get_Some_iff option.simps(5))
  have keys: "ords k = [] \<or> k \<in> fst ` set m" for k
    using om unfolding organized_map_def Let_def ords_def by (metis (mono_tags, lifting) gm_get_None_iff option.simps(4))
  have "\<forall>(k, u)\<in>set m. organized u (ords k) \<and> (\<forall>ord\<in>set (ords k). has_trigger ord) \<and>
           (\<forall>p\<in>set (pair_prices mp s k). subticks_price p)"
    using ent trig prices by (auto simp: ords_def)
  from foldM_trigger_exact[OF m(3) this] have r: "trigger_step (set ids) s s'"
    "set ids = (\<Union>k\<in>fst ` set m. o_OrderId ` {ord \<in> set (ords k). \<exists>p\<in>set (pair_prices mp s k). price_triggers p ord})"
    by auto
  have "set ids = o_OrderId ` {ord \<in> set orders. \<exists>p\<in>set (pair_prices mp s (oid_ClobPairId (o_OrderId ord))). price_triggers p ord}"
  proof (rule set_eqI, rule iffI)
    fix i assume "i \<in> o_OrderId ` {ord \<in> set orders. \<exists>p\<in>set (pair_prices mp s (oid_ClobPairId (o_OrderId ord))). price_triggers p ord}"
    then obtain ord p where o: "ord \<in> set orders" "i = o_OrderId ord" "price_triggers p ord"
      "p \<in> set (pair_prices mp s (oid_ClobPairId i))" by blast
    then have "ord \<in> set (ords (oid_ClobPairId i))" by (simp add: ords_def)
    moreover from this have "oid_ClobPairId i \<in> fst ` set m" using keys[of "oid_ClobPairId i"] by auto
    ultimately show "i \<in> set ids" using o unfolding r(2) by blast
  next
    fix i assume "i \<in> set ids"
    then obtain k ord p where "ord \<in> set (ords k)" "i = o_OrderId ord" "p \<in> set (pair_prices mp s k)" "price_triggers p ord"
      unfolding r(2) by blast
    then show "i \<in> o_OrderId ` {ord \<in> set orders. \<exists>p\<in>set (pair_prices mp s (oid_ClobPairId (o_OrderId ord))). price_triggers p ord}"
      by (intro image_eqI[of _ _ ord]) (auto simp: ords_def)
  qed
  also have "\<dots> = {i. \<exists>pl. (i, pl) \<in> set ?U \<and>
        (\<exists>p\<in>set (pair_prices mp s (oid_ClobPairId i)). price_triggers p (lp_Order pl))}"
    unfolding so using ok by (fastforce simp: untriggered_ok_def)
  also have "\<dots> = {i. \<exists>pl. gm_get ?U i = Some pl \<and>
        (\<exists>p\<in>set (pair_prices mp s (oid_ClobPairId i)). price_triggers p (lp_Order pl))}"
    using ok by (simp add: untriggered_ok_def gm_get_Some_iff)
  finally show ?thesis using r(1) by (simp add: trigger_step_def)
qed


definition ex_conditional :: "uint32 \<Rightarrow> uint64 \<Rightarrow> Order" where
  "ex_conditional n trigger = ex_short\<lparr>o_OrderId := (o_OrderId ex_short)\<lparr>oid_ClientId := n, oid_OrderFlags := OrderIdFlags_Conditional\<rparr>,
     o_GoodTilOneof := GoodTilBlockTime 5000, o_ConditionType := CONDITION_TYPE_TAKE_PROFIT,
     o_ConditionalOrderTriggerSubticks := trigger\<rparr>"

text \<open>Two take-profit buys: at the oracle price, which triggers, and just below the lowest trade, which does not.\<close>

definition ex_triggers :: "unit clob_state" where
  "ex_triggers = ex_clob\<lparr>c_trades := \<lparr>tp_MinTradePrice = [(0, 4999000000)], tp_MaxTradePrice = [(0, 5001000000)]\<rparr>,
     c_stateful := ex_stateful\<lparr>sf_Untriggered :=
       [(o_OrderId (ex_conditional 1 5000000000), \<lparr>lp_Order = ex_conditional 1 5000000000,
           lp_PlacementIndex = \<lparr>to_BlockHeight = 9, to_TransactionIndex = 0\<rparr>\<rparr>),
        (o_OrderId (ex_conditional 2 4998999999), \<lparr>lp_Order = ex_conditional 2 4998999999,
           lp_PlacementIndex = \<lparr>to_BlockHeight = 9, to_TransactionIndex = 1\<rparr>\<rparr>)]\<rparr>\<rparr>"

lemma ex_triggers_run:
  "fst (MaybeTriggerConditionalOrders (\<lambda>_. Some 1000) ex_triggers) = Inr [o_OrderId (ex_conditional 1 5000000000)]"
  by code_simp

lemma ex_triggers_prices:
  "pair_prices (\<lambda>_. Some 1000) ex_triggers k = (if k = 0 then [5000000000, 4999000000, 5001000000] else [])"
proof (cases "k = 0")
  case True
  have "pair_prices (\<lambda>_. Some 1000) ex_triggers 0 = [5000000000, 4999000000, 5001000000]" by code_simp
  then show ?thesis using True by simp
qed (simp add: pair_prices_def GetClobPair_def gm_get_def ex_triggers_def ex_clob_def)

theorem conditional_orders_trigger_exactly_witness:
  "\<exists>s'. MaybeTriggerConditionalOrders (\<lambda>_. Some 1000) ex_triggers = (Inr [o_OrderId (ex_conditional 1 5000000000)], s') \<and>
     orders_moved {o_OrderId (ex_conditional 1 5000000000)} (c_stateful ex_triggers) (c_stateful s')"
proof -
  let ?s' = "snd (MaybeTriggerConditionalOrders (\<lambda>_. Some 1000) ex_triggers)"
  have run: "MaybeTriggerConditionalOrders (\<lambda>_. Some 1000) ex_triggers = (Inr [o_OrderId (ex_conditional 1 5000000000)], ?s')"
    using ex_triggers_run by (metis prod.collapse)
  have ok: "untriggered_ok (c_stateful ex_triggers)"
    unfolding untriggered_ok_def gm_inv_def by code_simp
  have "\<forall>k. \<forall>p\<in>set (pair_prices (\<lambda>_. Some 1000) ex_triggers k). subticks_price p"
    by (simp add: ex_triggers_prices subticks_price_def)
  from conditional_orders_trigger_exactly[OF run ok this] run show ?thesis by auto
qed

end
