(* ===== verification/ProcessOperations.thy ===== *)
theory ProcessOperations
  imports Deleveraging ConditionalOrders
begin

text \<open>
  Execution of the operations a proposer sends (\<^verbatim>\<open>process_operations.go\<close> and its stateful validation), and the
  hooks of a block (\<^verbatim>\<open>abci.go\<close>). Matches are replayed against the committed state by every validator, so the
  handlers run in DeliverTx mode and do not touch the memclob.
\<close>

section \<open>Definitions: orders of the operations\<close>

definition fetchOrdersInvolvedInOpQueue :: "InternalOperation list \<Rightarrow> OrderId set" where
  "fetchOrdersInvolvedInOpQueue operations =
     (\<Union>operation \<in> set operations.
        case operation of
          Op_ShortTermOrderPlacement ord \<Rightarrow> {o_OrderId ord}
        | Op_Match clobMatch \<Rightarrow> GetAllOrderIds clobMatch
        | _ \<Rightarrow> {})"

definition FetchOrderFromOrderId :: "'b clob_state \<Rightarrow> OrderId \<Rightarrow> (OrderId, Order) gomap \<Rightarrow> Order res" where
  "FetchOrderFromOrderId s orderId shortTermOrdersMap =
     (if OrderId_IsShortTermOrder orderId
      then (case gm_get shortTermOrdersMap orderId of
              None \<Rightarrow> Inl (Err ''ErrInvalidMatchOrder'') | Some ord \<Rightarrow> Inr ord)
      else if OrderId_IsLongTermOrder orderId \<or> OrderId_IsTwapSuborder orderId
      then bindr (GetLongTermOrderPlacement (c_stateful s) orderId) (\<lambda>p.
             case p of None \<Rightarrow> Inl (Err ''ErrStatefulOrderDoesNotExist'') | Some placement \<Rightarrow> Inr (lp_Order placement))
      else if OrderId_IsConditionalOrder orderId
      then (case GetTriggeredConditionalOrderPlacement (c_stateful s) orderId of
              None \<Rightarrow> Inl (Err ''ErrStatefulOrderDoesNotExist'') | Some placement \<Rightarrow> Inr (lp_Order placement))
      else Inl (Panic ''FetchOrderFromOrderId: unknown order type.''))"

definition MustFetchOrderFromOrderId :: "'b clob_state \<Rightarrow> OrderId \<Rightarrow> (OrderId, Order) gomap \<Rightarrow> Order res" where
  "MustFetchOrderFromOrderId s orderId ordersMap = must (FetchOrderFromOrderId s orderId ordersMap)"

definition ValidateLiquidationOrderAgainstProposedLiquidation :: "LiquidationOrder \<Rightarrow> MatchPerpetualLiquidation \<Rightarrow> unit res" where
  "ValidateLiquidationOrderAgainstProposedLiquidation ord proposedMatch =
     (if lo_clobPairId ord \<noteq> mpl_ClobPairId proposedMatch then Inl (Err ''ErrClobPairAndPerpetualDoNotMatch'')
      else if pli_PerpetualId (lo_perpetualLiquidationInfo ord) \<noteq> mpl_PerpetualId proposedMatch
      then Inl (Err ''ErrClobPairAndPerpetualDoNotMatch'')
      else if lo_quantums ord \<noteq> mpl_TotalSize proposedMatch then Inl (Err ''ErrInvalidLiquidationOrderTotalSize'')
      else if lo_isBuy ord \<noteq> mpl_IsBuy proposedMatch then Inl (Err ''ErrInvalidLiquidationOrderSide'')
      else Inr ())"

section \<open>Definitions: persisting matches\<close>

definition new_match :: "MatchableOrder \<Rightarrow> Order \<Rightarrow> uint64 \<Rightarrow> MatchWithOrders" where
  "new_match taker maker fillAmount =
     \<lparr>mw_MakerOrder = MO_Order maker, mw_TakerOrder = taker, mw_FillAmount = fillAmount, mw_MakerFee = 0, mw_TakerFee = 0,
      mw_MakerBuilderFee = 0, mw_TakerBuilderFee = 0, mw_MakerOrderRouterFee = 0, mw_TakerOrderRouterFee = 0\<rparr>"

text \<open>A match of the proposal: its error ends the processing, and its fills must then be in state.\<close>

definition process_match ::
  "('b, 'd, 'v) clob_env \<Rightarrow> string set option \<Rightarrow> AffiliateParameters \<Rightarrow> MatchWithOrders \<Rightarrow> ('b clob_state, unit) step" where
  "process_match e affiliateOverrides affiliateParameters m s =
     (case ProcessSingleMatch e affiliateOverrides affiliateParameters (start_run m s) of (r, run) \<Rightarrow> (r, r_state run))"

definition fill_exists :: "OrderId \<Rightarrow> ('b clob_state, unit) step" where
  "fill_exists orderId =
     liftM (\<lambda>s. if fst (GetOrderFillAmount (c_orders s) orderId) then Inr ()
                else Inl (Panic ''Order fill amount not found for order''))"

definition persist_order_fill ::
  "('b, 'd, 'v) clob_env \<Rightarrow> (OrderId, Order) gomap \<Rightarrow> string set option \<Rightarrow> AffiliateParameters \<Rightarrow> Order \<Rightarrow> MakerFill
   \<Rightarrow> ('b clob_state, unit) step" where
  "persist_order_fill e ordersMap affiliateOverrides affiliateParameters takerOrder makerFill =
     bindM (liftM (\<lambda>s. FetchOrderFromOrderId s (mf_MakerOrderId makerFill) ordersMap)) (\<lambda>makerOrder.
     bindM (process_match e affiliateOverrides affiliateParameters
              (new_match (MO_Order takerOrder) makerOrder (mf_FillAmount makerFill))) (\<lambda>_.
     bindM (fill_exists (o_OrderId makerOrder)) (\<lambda>_. fill_exists (o_OrderId takerOrder))))"

definition PersistMatchOrdersToState ::
  "('b, 'd, 'v) clob_env \<Rightarrow> MatchOrders \<Rightarrow> (OrderId, Order) gomap \<Rightarrow> string set option \<Rightarrow> AffiliateParameters
   \<Rightarrow> ('b clob_state, unit) step" where
  "PersistMatchOrdersToState e matchOrders ordersMap affiliateOverrides affiliateParameters =
     bindM (liftM (\<lambda>s. FetchOrderFromOrderId s (mo_TakerOrderId matchOrders) ordersMap)) (\<lambda>takerOrder.
       if o_TimeInForce takerOrder = TIME_IN_FORCE_POST_ONLY then failM (Err ''ErrInvalidMatchOrder'')
       else
         bindM (liftM (\<lambda>s. if RequiresImmediateExecution takerOrder
                              \<and> fst (snd (GetOrderFillAmount (c_orders s) (o_OrderId takerOrder))) \<noteq> 0
                           then Inl (Err ''ErrImmediateExecutionOrderAlreadyFilled'') else Inr ())) (\<lambda>_.
           forM (persist_order_fill e ordersMap affiliateOverrides affiliateParameters takerOrder) (mo_Fills matchOrders)))"

definition persist_liquidation_fill ::
  "('b, 'd, 'v) clob_env \<Rightarrow> (OrderId, Order) gomap \<Rightarrow> string set option \<Rightarrow> AffiliateParameters \<Rightarrow> LiquidationOrder \<Rightarrow> MakerFill
   \<Rightarrow> ('b clob_state, unit) step" where
  "persist_liquidation_fill e ordersMap affiliateOverrides affiliateParameters takerOrder fill =
     bindM (liftM (\<lambda>s. FetchOrderFromOrderId s (mf_MakerOrderId fill) ordersMap)) (\<lambda>makerOrder.
     bindM (process_match e affiliateOverrides affiliateParameters
              (new_match (MO_Liquidation takerOrder) makerOrder (mf_FillAmount fill))) (\<lambda>_.
       fill_exists (o_OrderId makerOrder)))"

definition PersistMatchLiquidationToState ::
  "('b, 'd, 'v) clob_env \<Rightarrow> MatchPerpetualLiquidation \<Rightarrow> (OrderId, Order) gomap \<Rightarrow> string set option \<Rightarrow> AffiliateParameters
   \<Rightarrow> ('b clob_state, unit) step" where
  "PersistMatchLiquidationToState e matchLiquidation ordersMap affiliateOverrides affiliateParameters =
     bindM (liftM (\<lambda>s. EnsureIsLiquidatable s (mpl_Liquidated matchLiquidation))) (\<lambda>_.
     bindM (liftM (\<lambda>s. GetLiquidationOrderForPerpetual s (mpl_Liquidated matchLiquidation) (mpl_PerpetualId matchLiquidation))) (\<lambda>takerOrder.
     bindM (liftM (\<lambda>_. ValidateLiquidationOrderAgainstProposedLiquidation takerOrder matchLiquidation)) (\<lambda>_.
     bindM (forM (persist_liquidation_fill e ordersMap affiliateOverrides affiliateParameters takerOrder) (mpl_Fills matchLiquidation)) (\<lambda>_ s.
       case MustUpdateSubaccountPerpetualLiquidated (mpl_Liquidated matchLiquidation) (mpl_PerpetualId matchLiquidation) (c_liqInfos s) of
         Inl err \<Rightarrow> (Inl err, s)
       | Inr i \<Rightarrow> (Inr (), s\<lparr>c_liqInfos := i\<rparr>)))))"

definition persist_deleveraging_fill ::
  "'b sdk \<Rightarrow> MatchPerpetualDeleveraging \<Rightarrow> bool \<Rightarrow> MatchPerpetualDeleveraging_Fill \<Rightarrow> ('b clob_state, unit) step" where
  "persist_deleveraging_fill x m deltaBaseQuantumsIsNegative fill =
     (let deltaBaseQuantums = (if deltaBaseQuantumsIsNegative then - uint (mdf_FillAmount fill) else uint (mdf_FillAmount fill))
      in bindM (liftM (\<lambda>s. getDeleveragingQuoteQuantumsDelta s (mpd_PerpetualId m) (mpd_Liquidated m) deltaBaseQuantums
                 (mpd_IsFinalSettlement m))) (\<lambda>deltaQuoteQuantums s.
           case ProcessDeleveraging x (mpd_Liquidated m) (mdf_OffsettingSubaccountId fill) (mpd_PerpetualId m)
                  deltaBaseQuantums deltaQuoteQuantums s of
             (Inl (Err _), s) \<Rightarrow> (Inl (Err ''ErrInvalidDeleveragingFill''), s)
           | y \<Rightarrow> y))"

definition PersistMatchDeleveragingToState :: "'b sdk \<Rightarrow> MatchPerpetualDeleveraging \<Rightarrow> ('b clob_state, unit) step" where
  "PersistMatchDeleveragingToState x m =
     bindM (liftM (\<lambda>s. must (CanDeleverageSubaccount s (mpd_Liquidated m) (mpd_PerpetualId m)))) (\<lambda>(atBankruptcyPrice, atOraclePrice).
       if \<not> atBankruptcyPrice \<and> \<not> atOraclePrice then failM (Err ''ErrInvalidDeleveragedSubaccount'')
       else if mpd_IsFinalSettlement m \<noteq> atOraclePrice then failM (Err ''ErrDeleveragingIsFinalSettlementFlagMismatch'')
       else
         bindM (readM (\<lambda>s. GetPerpetualPositionForId (GetSubaccount (c_sub s) (mpd_Liquidated m)) (mpd_PerpetualId m))) (\<lambda>pos.
           case pos of
             None \<Rightarrow> failM (Err ''ErrNoOpenPositionForPerpetual'')
           | Some position \<Rightarrow>
               if mpd_Fills m = []
               then (if \<not> atBankruptcyPrice then failM (Err ''ErrZeroFillDeleveragingForNonNegativeTncSubaccount'')
                     else bindM (liftM (\<lambda>s. MustConvertIntegerToUint32 (ctx_BlockHeight (ks_ctx (c_sub s))))) (\<lambda>height.
                            on_sub (SetNegativeTncSubaccountSeenAtBlock (mpd_PerpetualId m) height)))
               else forM (persist_deleveraging_fill x m (0 < po_Quantums position)) (mpd_Fills m)))"

definition PersistMatchToState ::
  "('b, 'd, 'v) clob_env \<Rightarrow> ClobMatch \<Rightarrow> (OrderId, Order) gomap \<Rightarrow> string set option \<Rightarrow> AffiliateParameters
   \<Rightarrow> ('b clob_state, unit) step" where
  "PersistMatchToState e clobMatch ordersMap affiliateOverrides affiliateParameters =
     (case clobMatch of
        ClobMatch_MatchOrders m \<Rightarrow> PersistMatchOrdersToState e m ordersMap affiliateOverrides affiliateParameters
      | ClobMatch_MatchPerpetualLiquidation m \<Rightarrow> PersistMatchLiquidationToState e m ordersMap affiliateOverrides affiliateParameters
      | ClobMatch_MatchPerpetualDeleveraging m \<Rightarrow> PersistMatchDeleveragingToState (e_sdk e) m)"

section \<open>Definitions: persisting removals\<close>

definition has_remaining_amount :: "'b clob_state \<Rightarrow> Order \<Rightarrow> bool" where
  "has_remaining_amount s ord \<longleftrightarrow> fst (snd (GetOrderFillAmount (c_orders s) (o_OrderId ord))) < o_Quantums ord"

definition check_removal_reason :: "'b clob_state \<Rightarrow> OrderId \<Rightarrow> Order \<Rightarrow> RemovalReason \<Rightarrow> unit res" where
  "check_removal_reason s orderId ord reason =
     (case reason of
        REMOVAL_REASON_UNDERCOLLATERALIZED \<Rightarrow> Inr ()
      | REMOVAL_REASON_POST_ONLY_WOULD_CROSS_MAKER_ORDER \<Rightarrow>
          if o_TimeInForce ord \<noteq> TIME_IN_FORCE_POST_ONLY then Inl (Err ''ErrUnexpectedTimeInForce'') else Inr ()
      | REMOVAL_REASON_INVALID_SELF_TRADE \<Rightarrow> Inr ()
      | REMOVAL_REASON_CONDITIONAL_FOK_COULD_NOT_BE_FULLY_FILLED \<Rightarrow>
          if o_TimeInForce ord \<noteq> TIME_IN_FORCE_FILL_OR_KILL then Inl (Err ''ErrUnexpectedTimeInForce'')
          else if \<not> has_remaining_amount s ord then Inl (Err ''ErrOrderFullyFilled'') else Inr ()
      | REMOVAL_REASON_CONDITIONAL_IOC_WOULD_REST_ON_BOOK \<Rightarrow>
          if o_TimeInForce ord \<noteq> TIME_IN_FORCE_IOC then Inl (Err ''ErrUnexpectedTimeInForce'')
          else if \<not> has_remaining_amount s ord then Inl (Err ''ErrOrderFullyFilled'') else Inr ()
      | REMOVAL_REASON_FULLY_FILLED \<Rightarrow> Inl (Err ''ErrInvalidOrderRemovalReason'')
      | REMOVAL_REASON_INVALID_REDUCE_ONLY \<Rightarrow>
          if \<not> o_ReduceOnly ord then Inl (Err ''ErrInvalidOrderRemoval'')
          else bindr (GetStatePosition s (oid_SubaccountId orderId) (oid_ClobPairId (o_OrderId ord))) (\<lambda>currentPositionSize.
            if sgn currentPositionSize = 0 then Inr ()
            else let orderQuantumsToFill = Order_GetBigQuantums ord;
                     orderFillWouldIncreasePositionSize = (sgn orderQuantumsToFill = sgn currentPositionSize);
                     newPositionSize = currentPositionSize + orderQuantumsToFill;
                     orderChangedSide = (sgn currentPositionSize * sgn newPositionSize = - 1)
                 in if \<not> orderFillWouldIncreasePositionSize \<and> \<not> orderChangedSide
                    then Inl (Err ''ErrInvalidOrderRemoval'') else Inr ())
      | REMOVAL_REASON_VIOLATES_ISOLATED_SUBACCOUNT_CONSTRAINTS \<Rightarrow> Inr ()
      | _ \<Rightarrow> Inl (Err ''ErrInvalidOrderRemovalReason''))"

definition PersistOrderRemovalToState :: "OrderId \<Rightarrow> RemovalReason \<Rightarrow> ('b clob_state, unit) step" where
  "PersistOrderRemovalToState orderIdToRemove removalReason =
     bindM (liftM AssertDeliverTxMode) (\<lambda>_.
     bindM (liftM (\<lambda>_. OrderId_MustBeStatefulOrder orderIdToRemove)) (\<lambda>_.
     bindM (liftM (\<lambda>s. FetchOrderFromOrderId s orderIdToRemove [])) (\<lambda>orderToRemove.
     bindM (liftM (\<lambda>s. check_removal_reason s orderIdToRemove orderToRemove removalReason)) (\<lambda>_.
       MustRemoveStatefulOrder orderIdToRemove))))"

section \<open>Definitions: processing the operations\<close>

text \<open>
  The affiliate overrides are read once and kept; nothing the operations do changes them or the affiliate
  parameters, so they are read at the operation. The placed short-term orders are the loop state.
\<close>

definition process_operation ::
  "('b, 'd, 'v) clob_env \<Rightarrow> InternalOperation \<Rightarrow> (OrderId, Order) gomap \<Rightarrow> ('b clob_state, (OrderId, Order) gomap) step" where
  "process_operation e operation placedShortTermOrders =
     bindM (liftM (\<lambda>s. validateInternalOperationAgainstClobPairStatus s operation)) (\<lambda>_.
       case operation of
         Op_Match clobMatch \<Rightarrow>
           bindM (readM (\<lambda>s. c_affiliates s)) (\<lambda>affs.
           bindM (PersistMatchToState e clobMatch placedShortTermOrders (Some (GetAffiliateOverridesMap affs)) (af_params affs)) (\<lambda>_.
             retM placedShortTermOrders))
       | Op_ShortTermOrderPlacement ord \<Rightarrow>
           bindM (liftM (\<lambda>s. bindr (MustConvertIntegerToUint32 (ctx_BlockHeight (ks_ctx (c_sub s)))) (\<lambda>height.
                    PerformStatefulOrderValidation s ord height False))) (\<lambda>_.
             retM (gm_set (o_OrderId ord) ord placedShortTermOrders))
       | Op_OrderRemoval orderId reason \<Rightarrow>
           bindM (\<lambda>s. case PersistOrderRemovalToState orderId reason s of
                       (Inl (Err _), s) \<Rightarrow> (Inl (Err ''ErrInvalidOrderRemoval''), s) | y \<Rightarrow> y) (\<lambda>_.
             retM placedShortTermOrders)
       | Op_PreexistingStatefulOrder _ \<Rightarrow>
           failM (Panic ''ProcessInternalOperations: Preexisting Stateful Orders should not exist in operations queue''))"

definition ProcessInternalOperations :: "('b, 'd, 'v) clob_env \<Rightarrow> InternalOperation list \<Rightarrow> ('b clob_state, unit) step" where
  "ProcessInternalOperations e operations = bindM (foldM (process_operation e) operations []) (\<lambda>_. retM ())"

definition filled_order_ids :: "InternalOperation list \<Rightarrow> OrderId set" where
  "filled_order_ids operations =
     (\<Union>operation \<in> set operations. case operation of Op_Match clobMatch \<Rightarrow> GetAllOrderIds clobMatch | _ \<Rightarrow> {})"

definition removed_order_ids :: "InternalOperation list \<Rightarrow> OrderId set" where
  "removed_order_ids operations =
     (\<Union>operation \<in> set operations. case operation of Op_OrderRemoval orderId _ \<Rightarrow> {orderId} | _ \<Rightarrow> {})"

definition GenerateProcessProposerMatchesEvents ::
  "block_ctx \<Rightarrow> InternalOperation list \<Rightarrow> ProcessProposerMatchesEvents res" where
  "GenerateProcessProposerMatchesEvents ctx operations =
     bindr (MustConvertIntegerToUint32 (ctx_BlockHeight ctx)) (\<lambda>height.
       Inr \<lparr>ppme_ExpiredStatefulOrderIds = [],
            ppme_OrderIdsFilledInLastBlock = sorted_list_of_set (filled_order_ids operations),
            ppme_RemovedStatefulOrderIds = sorted_list_of_set (removed_order_ids operations),
            ppme_ConditionalOrderIdsTriggeredInLastBlock = [], ppme_BlockHeight = height\<rparr>)"

text \<open>Removal of a fully filled stateful order; the loop state is the list of removed orders.\<close>

definition remove_if_filled :: "OrderId \<Rightarrow> OrderId list \<Rightarrow> ('b clob_state, OrderId list) step" where
  "remove_if_filled orderId removed =
     (if OrderId_IsShortTermOrder orderId then retM removed
      else bindM (liftM (\<lambda>s. GetLongTermOrderPlacement (c_stateful s) orderId)) (\<lambda>placement.
        case placement of
          None \<Rightarrow> retM removed
        | Some orderPlacement \<Rightarrow>
            bindM (readM (\<lambda>s. GetOrderFillAmount (c_orders s) orderId)) (\<lambda>(fillAmountExists, fillAmount, _).
              if \<not> fillAmountExists then failM (Panic ''ProcessProposerOperations: Order fill amount does not exist in state'')
              else if o_Quantums (lp_Order orderPlacement) < fillAmount
              then failM (Panic ''ProcessProposerOperations: Order fill amount exceeds order amount'')
              else if fillAmount = o_Quantums (lp_Order orderPlacement)
              then bindM (MustRemoveStatefulOrder orderId) (\<lambda>_. retM (removed @ [orderId]))
              else retM removed)))"

text \<open>The stateless validation of the raw operations is an argument, with its error renamed by the caller.\<close>

definition ProcessProposerOperations ::
  "('b, 'd, 'v) clob_env \<Rightarrow> InternalOperation list res \<Rightarrow> ('b clob_state, unit) step" where
  "ProcessProposerOperations e validated =
     bindM (liftM AssertDeliverTxMode) (\<lambda>_.
     bindM (liftM (\<lambda>_. case validated of Inl (Err _) \<Rightarrow> Inl (Err ''ErrInvalidMsgProposedOperations'') | r \<Rightarrow> r)) (\<lambda>operations.
     bindM (ProcessInternalOperations e operations) (\<lambda>_.
     bindM (readM (\<lambda>s. ks_ctx (c_sub s))) (\<lambda>ctx.
     bindM (liftM (\<lambda>_. GenerateProcessProposerMatchesEvents ctx operations)) (\<lambda>events.
     bindM (foldM remove_if_filled (ppme_OrderIdsFilledInLastBlock events) (ppme_RemovedStatefulOrderIds events)) (\<lambda>removed.
     bindM (readM c_checkTx) (\<lambda>checkTx.
       on_stateful (MustSetProcessProposerMatchesEvents checkTx ctx (events\<lparr>ppme_RemovedStatefulOrderIds := removed\<rparr>)))))))))"

section \<open>Definitions: hooks of a block\<close>

definition BeginBlocker :: "('b clob_state, unit) step" where
  "BeginBlocker =
     bindM (readM (\<lambda>s. ks_ctx (c_sub s))) (\<lambda>ctx.
     bindM (liftM (\<lambda>_. MustConvertIntegerToUint32 (ctx_BlockHeight ctx))) (\<lambda>height.
     bindM (readM c_checkTx) (\<lambda>checkTx.
     bindM (on_stateful (MustSetProcessProposerMatchesEvents checkTx ctx
              \<lparr>ppme_ExpiredStatefulOrderIds = [], ppme_OrderIdsFilledInLastBlock = [], ppme_RemovedStatefulOrderIds = [],
               ppme_ConditionalOrderIdsTriggeredInLastBlock = [], ppme_BlockHeight = height\<rparr>)) (\<lambda>_.
       on_stateful (modifyM ResetAllDeliveredOrderIds)))))"

definition remove_expired :: "OrderId \<Rightarrow> ('b clob_state, unit) step" where
  "remove_expired orderId =
     bindM (modifyM (on_orders (RemoveOrderFillAmount orderId))) (\<lambda>_. on_stateful (DeleteLongTermOrderPlacement orderId))"

definition EndBlocker :: "('b, 'd, 'v) clob_env \<Rightarrow> (uint32 \<Rightarrow> uint32 option) \<Rightarrow> ('b clob_state, unit) step" where
  "EndBlocker e minPriceChangePpm =
     bindM (readM (\<lambda>s. (ks_ctx (c_sub s), sf_ProcessProposerMatchesEvents (c_stateful s)))) (\<lambda>(ctx, events).
     bindM (\<lambda>s. case PruneStateFillAmountsForShortTermOrders ctx (c_orders s) of
                 Inl err \<Rightarrow> (Inl err, s) | Inr os \<Rightarrow> (Inr (), s\<lparr>c_orders := os\<rparr>)) (\<lambda>_.
     bindM (\<lambda>s. case RemoveExpiredStatefulOrders (ctx_BlockTime ctx) (c_stateful s) of
                 (ids, st) \<Rightarrow> (Inr ids, s\<lparr>c_stateful := st\<rparr>)) (\<lambda>expiredStatefulOrderIds.
     bindM (forM remove_expired expiredStatefulOrderIds) (\<lambda>_.
     bindM (GenerateAndPlaceTriggeredTwapSuborders e) (\<lambda>_.
     bindM (MaybeTriggerConditionalOrders minPriceChangePpm) (\<lambda>triggeredConditionalOrderIds.
     bindM (readM c_checkTx) (\<lambda>checkTx.
       on_stateful (MustSetProcessProposerMatchesEvents checkTx ctx
         (events\<lparr>ppme_ExpiredStatefulOrderIds := expiredStatefulOrderIds,
                 ppme_ConditionalOrderIdsTriggeredInLastBlock := triggeredConditionalOrderIds\<rparr>)))))))))"

end
