(* ===== verification/Funding.thy ===== *)
theory Funding
  imports ClobPairs MemClobInvariant Rewards
begin

text \<open>
  The keeper of the perpetuals module as a whole: its store of perpetuals, liquidity tiers, parameters and premium
  stores (\<^verbatim>\<open>x/perpetuals/keeper/perpetual.go\<close>, \<^verbatim>\<open>types/premium_store.go\<close>), the messages and the genesis state, and
  the funding pipeline: proposers vote on the premium of each perpetual, a funding-sample epoch takes the median
  of the votes as one sample, and a funding-tick epoch turns the mean of the samples into a rate and moves the
  funding indices. \<open>perp_view\<close> is what the other keepers see of this store; the operations they share with it
  commute with it. The epochs are those of \<open>Epochs\<close>; the prices are a parameter of the state. Telemetry and
  logs are left out; the results of the two epochs are the events sent to the indexer.

  The lemmas show that every operation keeps \<open>funding_ok\<close>, by rule induction over \<open>funding_reachable\<close>, that the
  end of a block does not panic in a reachable state, and what a funding tick changes.
\<close>

section \<open>Definitions: state\<close>

record MarketPremiums =
  mpr_PerpetualId :: uint32
  mpr_Premiums :: "int32 list"

record PremiumStore =
  prs_AllMarketPremiums :: "MarketPremiums list"
  prs_NumPremiums :: uint32

record FundingPremium =
  fpm_PerpetualId :: uint32
  fpm_PremiumPpm :: int32

record perpetuals_Params =
  ppr_FundingRateClampFactorPpm :: uint32
  ppr_PremiumVoteClampFactorPpm :: uint32
  ppr_MinNumVotesPerSample :: uint32

record funding_store =
  fn_perpetuals :: "(uint32, Perpetual) gomap"
  fn_tiers :: "(uint32, LiquidityTier) gomap"
  fn_samples :: PremiumStore
  fn_votes :: PremiumStore
  fn_params :: perpetuals_Params
  fn_nextPerpetualId :: uint32
  fn_prices :: "uint32 \<Rightarrow> MarketPrice option"
  fn_epochs :: epoch_store

text \<open>The part of the state that the other keepers read, as they see it.\<close>

definition perp_view :: "funding_store \<Rightarrow> perp_store" where
  "perp_view s = \<lparr>ps_perpetuals = gm_get (fn_perpetuals s), ps_tiers = gm_get (fn_tiers s), ps_prices = fn_prices s\<rparr>"

definition empty_PremiumStore :: PremiumStore where
  "empty_PremiumStore = \<lparr>prs_AllMarketPremiums = [], prs_NumPremiums = 0\<rparr>"

text \<open>A caller that panics on the error of a call.\<close>

definition panic_on_error :: "('s, 'a) step \<Rightarrow> ('s, 'a) step" where
  "panic_on_error m s = (case m s of (Inl (Err n), s') \<Rightarrow> (Inl (Panic n), s') | r \<Rightarrow> r)"

section \<open>Definitions: premium stores\<close>

definition GetMarketPremiumsMap :: "PremiumStore \<Rightarrow> (uint32, MarketPremiums) gomap" where
  "GetMarketPremiumsMap ps = gm_of_list mpr_PerpetualId (prs_AllMarketPremiums ps)"

definition NewPremiumStoreFromMarketPremiumMap :: "(uint32, MarketPremiums) gomap \<Rightarrow> uint32 \<Rightarrow> PremiumStore" where
  "NewPremiumStoreFromMarketPremiumMap m numPremiums =
     \<lparr>prs_AllMarketPremiums = sort_key mpr_PerpetualId (gm_vals m), prs_NumPremiums = numPremiums\<rparr>"

definition perpetuals_Params_Validate :: "perpetuals_Params \<Rightarrow> unit res" where
  "perpetuals_Params_Validate params =
     (if ppr_FundingRateClampFactorPpm params = 0 then Inl (Err ''ErrFundingRateClampFactorPpmIsZero'')
      else if ppr_PremiumVoteClampFactorPpm params = 0 then Inl (Err ''ErrPremiumVoteClampFactorPpmIsZero'')
      else if ppr_MinNumVotesPerSample params = 0 then Inl (Err ''ErrMinNumVotesPerSampleIsZero'')
      else Inr ())"

text \<open>The votes of a message are sorted by perpetual id, without duplicates.\<close>

fun MsgAddPremiumVotes_ValidateBasic :: "FundingPremium list \<Rightarrow> unit res" where
  "MsgAddPremiumVotes_ValidateBasic (v # w # vs) =
     (if fpm_PerpetualId w \<le> fpm_PerpetualId v then Inl (Err ''ErrInvalidAddPremiumVotes'')
      else MsgAddPremiumVotes_ValidateBasic (w # vs))"
| "MsgAddPremiumVotes_ValidateBasic vs = Inr ()"

datatype premium_key = PremiumVotesKey | PremiumSamplesKey

definition getPremiumStore :: "funding_store \<Rightarrow> premium_key \<Rightarrow> PremiumStore" where
  "getPremiumStore s key = (case key of PremiumVotesKey \<Rightarrow> fn_votes s | PremiumSamplesKey \<Rightarrow> fn_samples s)"

definition setPremiumStore :: "premium_key \<Rightarrow> PremiumStore \<Rightarrow> funding_store \<Rightarrow> funding_store" where
  "setPremiumStore key ps s =
     (case key of PremiumVotesKey \<Rightarrow> s\<lparr>fn_votes := ps\<rparr> | PremiumSamplesKey \<Rightarrow> s\<lparr>fn_samples := ps\<rparr>)"

definition SetEmptyPremiumSamples :: "funding_store \<Rightarrow> funding_store" where
  "SetEmptyPremiumSamples s = setPremiumStore PremiumSamplesKey empty_PremiumStore s"

definition SetEmptyPremiumVotes :: "funding_store \<Rightarrow> funding_store" where
  "SetEmptyPremiumVotes s = setPremiumStore PremiumVotesKey empty_PremiumStore s"

section \<open>Definitions: perpetuals and liquidity tiers\<close>

definition HasPerpetual :: "funding_store \<Rightarrow> uint32 \<Rightarrow> bool" where
  "HasPerpetual s i \<longleftrightarrow> gm_get (fn_perpetuals s) i \<noteq> None"

definition GetAllPerpetuals :: "funding_store \<Rightarrow> Perpetual list" where
  "GetAllPerpetuals s = sort_key (\<lambda>p. pp_Id (p_Params p)) (gm_vals (fn_perpetuals s))"

definition fn_setPerpetual :: "Perpetual \<Rightarrow> funding_store \<Rightarrow> funding_store" where
  "fn_setPerpetual perpetual s = s\<lparr>fn_perpetuals := gm_set (pp_Id (p_Params perpetual)) perpetual (fn_perpetuals s)\<rparr>"

definition fn_ValidateAndSetPerpetual :: "Perpetual \<Rightarrow> (funding_store, unit) step" where
  "fn_ValidateAndSetPerpetual perpetual =
     bindM (liftM (\<lambda>s. validatePerpetual (perp_view s) perpetual)) (\<lambda>_. modifyM (fn_setPerpetual perpetual))"

definition CreatePerpetual :: "PerpetualParams \<Rightarrow> (funding_store, Perpetual) step" where
  "CreatePerpetual params =
     bindM (liftM (\<lambda>s. if HasPerpetual s (pp_Id params) then Inl (Err ''ErrPerpetualAlreadyExists'') else Inr ())) (\<lambda>_.
       let perpetual = \<lparr>p_Params = params, p_FundingIndex = 0, p_OpenInterest = 0\<rparr>
       in bindM (fn_ValidateAndSetPerpetual perpetual) (\<lambda>_.
          bindM (modifyM SetEmptyPremiumSamples) (\<lambda>_.
          bindM (modifyM SetEmptyPremiumVotes) (\<lambda>_.
            retM perpetual))))"

definition ModifyPerpetual :: "uint32 \<Rightarrow> string \<Rightarrow> uint32 \<Rightarrow> int32 \<Rightarrow> uint32 \<Rightarrow> (funding_store, Perpetual) step" where
  "ModifyPerpetual i ticker marketId defaultFundingPpm liquidityTier =
     bindM (liftM (\<lambda>s. GetPerpetual (perp_view s) i)) (\<lambda>perpetual.
       let perpetual = perpetual\<lparr>p_Params := (p_Params perpetual)\<lparr>pp_Ticker := ticker, pp_MarketId := marketId,
             pp_DefaultFundingPpm := defaultFundingPpm, pp_LiquidityTier := liquidityTier\<rparr>\<rparr>
       in bindM (fn_ValidateAndSetPerpetual perpetual) (\<lambda>_. retM perpetual))"

definition SetPerpetualMarketType :: "uint32 \<Rightarrow> PerpetualMarketType \<Rightarrow> (funding_store, Perpetual) step" where
  "SetPerpetualMarketType perpetualId marketType =
     (if marketType = PERPETUAL_MARKET_TYPE_UNSPECIFIED then failM (Err ''ErrInvalidMarketType'')
      else bindM (liftM (\<lambda>s. GetPerpetual (perp_view s) perpetualId)) (\<lambda>perpetual.
        if pp_MarketType (p_Params perpetual) = PERPETUAL_MARKET_TYPE_CROSS then failM (Err ''ErrInvalidMarketType'')
        else let perpetual = perpetual\<lparr>p_Params := (p_Params perpetual)\<lparr>pp_MarketType := marketType\<rparr>\<rparr>
             in bindM (fn_ValidateAndSetPerpetual perpetual) (\<lambda>_. retM perpetual)))"

definition fn_ModifyFundingIndex :: "uint32 \<Rightarrow> int \<Rightarrow> (funding_store, unit) step" where
  "fn_ModifyFundingIndex perpetualId bigFundingIndexDelta =
     bindM (liftM (\<lambda>s. GetPerpetual (perp_view s) perpetualId)) (\<lambda>perpetual.
       let bigFundingIndex = p_FundingIndex perpetual + bigFundingIndexDelta
       in modifyM (fn_setPerpetual (perpetual\<lparr>p_FundingIndex := bigFundingIndex\<rparr>)))"

text \<open>The open interest is changed as the other keepers see it.\<close>

definition fn_ModifyOpenInterest :: "uint32 \<Rightarrow> int \<Rightarrow> (funding_store, unit) step" where
  "fn_ModifyOpenInterest perpetualId openInterestDeltaBaseQuantums s =
     (case ModifyOpenInterest (perp_view s) perpetualId openInterestDeltaBaseQuantums of
        Inl e \<Rightarrow> (Inl e, s)
      | Inr v \<Rightarrow> (Inr (), case ps_perpetuals v perpetualId of None \<Rightarrow> s | Some perpetual \<Rightarrow> fn_setPerpetual perpetual s))"

definition SetLiquidityTier :: "LiquidityTier \<Rightarrow> (funding_store, LiquidityTier) step" where
  "SetLiquidityTier liquidityTier =
     bindM (liftM (\<lambda>_. LiquidityTier_Validate liquidityTier)) (\<lambda>_.
     bindM (modifyM (\<lambda>s. s\<lparr>fn_tiers := gm_set (lt_Id liquidityTier) liquidityTier (fn_tiers s)\<rparr>)) (\<lambda>_.
       retM liquidityTier))"

definition GetAllLiquidityTiers :: "funding_store \<Rightarrow> LiquidityTier list" where
  "GetAllLiquidityTiers s = sort_key lt_Id (gm_vals (fn_tiers s))"

definition perpetuals_SetParams :: "perpetuals_Params \<Rightarrow> (funding_store, unit) step" where
  "perpetuals_SetParams params =
     bindM (liftM (\<lambda>_. perpetuals_Params_Validate params)) (\<lambda>_. modifyM (\<lambda>s. s\<lparr>fn_params := params\<rparr>))"

definition getLiquidityTiertoMaxAbsPremiumVotePpm :: "funding_store \<Rightarrow> (uint32, int) gomap res" where
  "getLiquidityTiertoMaxAbsPremiumVotePpm s =
     for_res (\<lambda>liquidityTier m.
         bindr (GetMaxAbsFundingClampPpm liquidityTier (ppr_PremiumVoteClampFactorPpm (fn_params s))) (\<lambda>v.
           Inr (gm_set (lt_Id liquidityTier) v m)))
       (GetAllLiquidityTiers s) []"

text \<open>The loop of \<^verbatim>\<open>AcquireNextPerpetualID\<close> gives up after 1000 used ids.\<close>

function find_unused_id :: "funding_store \<Rightarrow> nat \<Rightarrow> uint32 \<Rightarrow> uint32 res" where
  "find_unused_id s attempts nextID =
     (if \<not> HasPerpetual s nextID then Inr nextID
      else if attempts + 1 \<ge> 1000 then Inl (Panic ''Exceeded maximum attempts to find a unique perpetual id'')
      else find_unused_id s (attempts + 1) (nextID + 1))"
  by pat_completeness auto
termination
  by (relation "measure (\<lambda>(_, attempts, _). 1000 - attempts)") auto

declare find_unused_id.simps [simp del]

definition AcquireNextPerpetualID :: "(funding_store, uint32) step" where
  "AcquireNextPerpetualID =
     bindM (liftM (\<lambda>s. find_unused_id s 0 (fn_nextPerpetualId s))) (\<lambda>nextID.
     bindM (modifyM (\<lambda>s. s\<lparr>fn_nextPerpetualId := nextID + 1\<rparr>)) (\<lambda>_. retM nextID))"

section \<open>Definitions: votes and samples\<close>

definition add_premium ::
  "funding_store \<Rightarrow> FundingPremium \<Rightarrow> (uint32, MarketPremiums) gomap \<Rightarrow> (uint32, MarketPremiums) gomap res" where
  "add_premium s sample marketPremiumsMap =
     (if \<not> HasPerpetual s (fpm_PerpetualId sample) then Inl (Err ''ErrPerpetualDoesNotExist'')
      else let premiums = (case gm_get marketPremiumsMap (fpm_PerpetualId sample) of
                 None \<Rightarrow> \<lparr>mpr_PerpetualId = fpm_PerpetualId sample, mpr_Premiums = []\<rparr> | Some premiums \<Rightarrow> premiums);
               premiums = premiums\<lparr>mpr_Premiums := mpr_Premiums premiums @ [fpm_PremiumPpm sample]\<rparr>
           in Inr (gm_set (fpm_PerpetualId sample) premiums marketPremiumsMap))"

definition addToPremiumStore :: "FundingPremium list \<Rightarrow> premium_key \<Rightarrow> (funding_store, unit) step" where
  "addToPremiumStore newSamples key =
     bindM (liftM (\<lambda>s. for_res (add_premium s) newSamples (GetMarketPremiumsMap (getPremiumStore s key)))) (\<lambda>marketPremiumsMap.
       modifyM (\<lambda>s. setPremiumStore key
         (NewPremiumStoreFromMarketPremiumMap marketPremiumsMap (prs_NumPremiums (getPremiumStore s key) + 1)) s))"

definition AddPremiumVotes :: "FundingPremium list \<Rightarrow> (funding_store, unit) step" where
  "AddPremiumVotes newVotes = addToPremiumStore newVotes PremiumVotesKey"

definition AddPremiumSamples :: "FundingPremium list \<Rightarrow> (funding_store, unit) step" where
  "AddPremiumSamples newSamples = addToPremiumStore newSamples PremiumSamplesKey"

text \<open>
  \<^verbatim>\<open>make\<close> panics on a negative length; the length of a slice fits a 64-bit integer.
\<close>

definition summarize_premiums ::
  "uint32 \<Rightarrow> uint32 \<Rightarrow> (int32 list \<Rightarrow> int32 res) \<Rightarrow> (int32 list \<Rightarrow> int32 list res) \<Rightarrow> int32 list \<Rightarrow> int32 res" where
  "summarize_premiums numPremiums minNumPremiumsRequired combineFunc filterFunc premiums =
     (if numPremiums < of_nat (length premiums)
      then Inl (Panic ''marketPremiums has more non-zero premiums than total number of premiums'')
      else let lenPadding = uint (Max_go numPremiums minNumPremiumsRequired) - int (length premiums)
           in if lenPadding < 0 then Inl (Panic ''makeslice: len out of range'')
              else bindr (filterFunc (premiums @ replicate (nat lenPadding) 0)) combineFunc)"

definition processStoredPremiums ::
  "funding_store \<Rightarrow> premium_key \<Rightarrow> uint32 \<Rightarrow> (int32 list \<Rightarrow> int32 res) \<Rightarrow> (int32 list \<Rightarrow> int32 list res)
   \<Rightarrow> (uint32, int32) gomap res" where
  "processStoredPremiums s premiumKey minNumPremiumsRequired combineFunc filterFunc =
     (let premiumStore = getPremiumStore s premiumKey
      in for_res (\<lambda>marketPremiums perpIdToPremium.
           bindr (summarize_premiums (prs_NumPremiums premiumStore) minNumPremiumsRequired combineFunc filterFunc
                    (mpr_Premiums marketPremiums)) (\<lambda>premium.
             Inr (gm_set (mpr_PerpetualId marketPremiums) premium perpIdToPremium)))
         (prs_AllMarketPremiums premiumStore) [])"

definition median_int32 :: "int32 list \<Rightarrow> int32 res" where
  "median_int32 input = bindr (MustGetMedian (SignedT 32) (map sint input)) (\<lambda>m. Inr (word_of_int m))"

text \<open>The result is the indexer event: all samples of the epoch.\<close>

definition processPremiumVotesIntoSamples :: "(funding_store, (uint32 \<times> int32) list) step" where
  "processPremiumVotesIntoSamples =
     bindM (liftM (\<lambda>s. processStoredPremiums s PremiumVotesKey (ppr_MinNumVotesPerSample (fn_params s)) median_int32 Inr))
       (\<lambda>perpIdToSummarizedPremium.
     bindM (readM (\<lambda>s. map (\<lambda>perp. (pp_Id (p_Params perp),
              case gm_get perpIdToSummarizedPremium (pp_Id (p_Params perp)) of None \<Rightarrow> 0 | Some premium \<Rightarrow> premium))
            (GetAllPerpetuals s))) (\<lambda>newSamplesForEvent.
     bindM (panic_on_error (AddPremiumSamples (map (\<lambda>(i, premium). \<lparr>fpm_PerpetualId = i, fpm_PremiumPpm = premium\<rparr>)
                          (filter (\<lambda>(_, premium). premium \<noteq> 0) newSamplesForEvent)))) (\<lambda>_.
     bindM (modifyM SetEmptyPremiumVotes) (\<lambda>_.
       retM newSamplesForEvent))))"

text \<open>\<^const>\<open>None\<close> when the block does not start an epoch.\<close>

definition MaybeProcessNewFundingSampleEpoch :: "block_ctx \<Rightarrow> (funding_store, (uint32 \<times> int32) list option) step" where
  "MaybeProcessNewFundingSampleEpoch ctx =
     bindM (liftM (\<lambda>s. must (NumBlocksSinceEpochStart ctx (fn_epochs s) FundingSampleEpochInfoName))) (\<lambda>numBlocks.
       if numBlocks \<noteq> 0 then retM None
       else bindM (liftM (\<lambda>s. mustGetEpochInfo (fn_epochs s) FundingSampleEpochInfoName)) (\<lambda>_.
            bindM processPremiumVotesIntoSamples (\<lambda>samples. retM (Some samples))))"

text \<open>
  The premium votes of a proposer: the clob keeper is asked for the premium of each perpetual with an
  index price; an error is logged. The result is \<^const>\<open>None\<close> only if the walk over an order book does not return.
\<close>

definition GetPricePremiumForPerpetual ::
  "'b clob_state MemClobKeeper \<Rightarrow> 'b clob_state MemClob \<Rightarrow> uint32 \<Rightarrow> GetPricePremiumParams \<Rightarrow> int32 res option" where
  "GetPricePremiumForPerpetual k m perpetualId params =
     (case bindr (GetClobPairIdForPerpetual (mc_store m) perpetualId) (\<lambda>clobPairId.
             case GetClobPair (mc_store m) clobPairId of None \<Rightarrow> Inl (Err ''ErrInvalidClob'') | Some clobPair \<Rightarrow> Inr clobPair) of
        Inl e \<Rightarrow> Some (Inl e)
      | Inr clobPair \<Rightarrow> if cp_Status clobPair \<noteq> STATUS_ACTIVE then Some (Inr 0) else GetPricePremium k m clobPair params)"

fun sample_perpetuals ::
  "(uint32 \<Rightarrow> GetPricePremiumParams \<Rightarrow> int32 res option) \<Rightarrow> (uint32 \<Rightarrow> MarketPrice option) \<Rightarrow> (uint32, int) gomap
   \<Rightarrow> funding_store \<Rightarrow> Perpetual list \<Rightarrow> FundingPremium list res option" where
  "sample_perpetuals clob_premium indexPrices maxVotes s [] = Some (Inr [])"
| "sample_perpetuals clob_premium indexPrices maxVotes s (perp # perps) =
     (let rest = sample_perpetuals clob_premium indexPrices maxVotes s perps
      in case indexPrices (pp_MarketId (p_Params perp)) of
           None \<Rightarrow> rest
         | Some indexPrice \<Rightarrow>
             (case bindr (must (GetLiquidityTier (perp_view s) (pp_LiquidityTier (p_Params perp)))) (\<lambda>liquidityTier.
                     case gm_get maxVotes (pp_LiquidityTier (p_Params perp)) of
                       None \<Rightarrow> Inl (Panic ''ErrLiquidityTierDoesNotExist'')
                     | Some maxAbsPremiumVotePpm \<Rightarrow> Inr
                         \<lparr>gpp_IndexPrice = indexPrice, gpp_BaseAtomicResolution = pp_AtomicResolution (p_Params perp),
                          gpp_QuoteAtomicResolution = QuoteCurrencyAtomicResolution,
                          gpp_ImpactNotionalQuoteQuantums = uint (lt_ImpactNotional liquidityTier),
                          gpp_MaxAbsPremiumVotePpm = maxAbsPremiumVotePpm\<rparr>) of
                Inl e \<Rightarrow> Some (Inl e)
              | Inr params \<Rightarrow>
                  (case clob_premium (pp_Id (p_Params perp)) params of
                     None \<Rightarrow> None
                   | Some (Inl (Panic n)) \<Rightarrow> Some (Inl (Panic n))
                   | Some (Inl (Err _)) \<Rightarrow> rest
                   | Some (Inr premiumPpm) \<Rightarrow>
                       if premiumPpm = 0 then rest
                       else map_option (\<lambda>r. bindr r (\<lambda>samples.
                              Inr (\<lparr>fpm_PerpetualId = pp_Id (p_Params perp), fpm_PremiumPpm = premiumPpm\<rparr> # samples))) rest)))"

definition sampleAllPerpetuals ::
  "(uint32 \<Rightarrow> GetPricePremiumParams \<Rightarrow> int32 res option) \<Rightarrow> (uint32 \<Rightarrow> MarketPrice option) \<Rightarrow> funding_store
   \<Rightarrow> FundingPremium list res option" where
  "sampleAllPerpetuals clob_premium indexPrices s =
     (case getLiquidityTiertoMaxAbsPremiumVotePpm s of
        Inl e \<Rightarrow> Some (Inl e)
      | Inr maxVotes \<Rightarrow> sample_perpetuals clob_premium indexPrices maxVotes s (GetAllPerpetuals s))"

definition GetAddPremiumVotes ::
  "'b clob_state MemClobKeeper \<Rightarrow> 'b clob_state MemClob \<Rightarrow> (uint32 \<Rightarrow> MarketPrice option) \<Rightarrow> funding_store
   \<Rightarrow> FundingPremium list res option" where
  "GetAddPremiumVotes k m indexPrices s = sampleAllPerpetuals (GetPricePremiumForPerpetual k m) indexPrices s"

definition validate_vote :: "'b clob_state \<Rightarrow> funding_store \<Rightarrow> (uint32, int) gomap \<Rightarrow> FundingPremium \<Rightarrow> unit res" where
  "validate_vote clob s maxVotes vote =
     bindr (case GetPerpetual (perp_view s) (fpm_PerpetualId vote) of
              Inl _ \<Rightarrow> Inl (Err ''ErrPerpetualDoesNotExist'') | Inr perpetual \<Rightarrow> Inr perpetual) (\<lambda>perpetual.
     bindr (IsPerpetualClobPairActive clob (fpm_PerpetualId vote)) (\<lambda>isActive.
       if \<not> isActive then Inl (Err ''ErrPremiumVoteForNonActiveMarket'')
       else case gm_get maxVotes (pp_LiquidityTier (p_Params perpetual)) of
              None \<Rightarrow> Inl (Panic ''ErrLiquidityTierDoesNotExist'')
            | Some maxAbsPremiumVotePpm \<Rightarrow>
                let bigAbsPremiumPpm = uint (AbsInt32 (fpm_PremiumPpm vote))
                in if cmp_int bigAbsPremiumPpm maxAbsPremiumVotePpm > 0 then Inl (Err ''ErrPremiumVoteNotClamped'') else Inr ()))"

definition PerformStatefulPremiumVotesValidation :: "'b clob_state \<Rightarrow> funding_store \<Rightarrow> FundingPremium list \<Rightarrow> unit res" where
  "PerformStatefulPremiumVotesValidation clob s votes =
     bindr (getLiquidityTiertoMaxAbsPremiumVotePpm s) (\<lambda>maxVotes.
       for_res (\<lambda>vote _. validate_vote clob s maxVotes vote) votes ())"

section \<open>Definitions: funding ticks\<close>

definition RemovedTailSampleRatioPpm :: uint32 where
  "RemovedTailSampleRatioPpm = 0"

definition GetRemoveSampleTailsFunc :: "uint32 \<Rightarrow> int32 list \<Rightarrow> int32 list res" where
  "GetRemoveSampleTailsFunc tailRemovalRatePpm premiums =
     bindr (Int64MulPpm (of_nat (length premiums)) (tailRemovalRatePpm * 2)) (\<lambda>totalRemoval.
       if sint totalRemoval = 0 then Inr premiums
       else if int (length premiums) \<le> sint totalRemoval then Inr premiums
       else let bottomRemoval = sint totalRemoval sdiv 2;
                topRemoval = sint totalRemoval - bottomRemoval;
                last = int (length premiums) - topRemoval
            in Inr (drop (nat bottomRemoval) (take (nat last) (sort_key sint premiums))))"

definition funding_rate :: "funding_store \<Rightarrow> perpetuals_Params \<Rightarrow> (uint32, int32) gomap \<Rightarrow> Perpetual \<Rightarrow> int res" where
  "funding_rate s params perpIdToPremiumPpm perp =
     (let premiumPpm = (case gm_get perpIdToPremiumPpm (pp_Id (p_Params perp)) of None \<Rightarrow> 0 | Some p \<Rightarrow> p);
          bigFundingRatePpm = sint premiumPpm + sint (pp_DefaultFundingPpm (p_Params perp))
      in bindr (must (GetLiquidityTier (perp_view s) (pp_LiquidityTier (p_Params perp)))) (\<lambda>liquidityTier.
         if MaxMaintenanceFractionPpm < lt_MaintenanceFractionPpm liquidityTier
         then Inl (Panic ''ErrMaintenanceFractionPpmExceedsMax'')
         else bindr (GetMaxAbsFundingClampPpm liquidityTier (ppr_FundingRateClampFactorPpm params)) (\<lambda>fundingRateUpperBoundPpm.
           let bigFundingRatePpm = BigIntClamp bigFundingRatePpm (- fundingRateUpperBoundPpm) fundingRateUpperBoundPpm
           in if cmp_int bigFundingRatePpm (2 ^ 31 - 1) > 0 then Inl (Panic ''ErrFundingRateInt32Overflow'')
              else Inr bigFundingRatePpm)))"

definition process_funding_tick ::
  "perpetuals_Params \<Rightarrow> uint32 \<Rightarrow> (uint32, int32) gomap \<Rightarrow> Perpetual \<Rightarrow> (uint32 \<times> int32 \<times> int) list
   \<Rightarrow> (funding_store, (uint32 \<times> int32 \<times> int) list) step" where
  "process_funding_tick params duration perpIdToPremiumPpm perp events =
     bindM (liftM (\<lambda>s. funding_rate s params perpIdToPremiumPpm perp)) (\<lambda>bigFundingRatePpm.
     bindM (if sgn bigFundingRatePpm \<noteq> 0
            then bindM (liftM (\<lambda>s. must (GetMarketPrice (perp_view s) (pp_MarketId (p_Params perp))))) (\<lambda>marketPrice.
                   let fundingIndexDelta = GetFundingIndexDelta perp marketPrice bigFundingRatePpm duration
                   in panic_on_error (fn_ModifyFundingIndex (pp_Id (p_Params perp)) fundingIndexDelta))
            else retM ()) (\<lambda>_.
     bindM (liftM (\<lambda>s. must (GetPerpetual (perp_view s) (pp_Id (p_Params perp))))) (\<lambda>perp.
       retM (events @ [(pp_Id (p_Params perp), word_of_int bigFundingRatePpm, p_FundingIndex perp)]))))"

definition MaybeProcessNewFundingTickEpoch ::
  "block_ctx \<Rightarrow> (funding_store, (uint32 \<times> int32 \<times> int) list option) step" where
  "MaybeProcessNewFundingTickEpoch ctx =
     bindM (liftM (\<lambda>s. must (NumBlocksSinceEpochStart ctx (fn_epochs s) FundingTickEpochInfoName))) (\<lambda>numBlocks.
       if numBlocks \<noteq> 0 then retM None
       else
         bindM (readM GetAllPerpetuals) (\<lambda>allPerps.
         bindM (readM fn_params) (\<lambda>params.
         bindM (liftM (\<lambda>s. mustGetEpochInfo (fn_epochs s) FundingTickEpochInfoName)) (\<lambda>fundingTickEpochInfo.
         bindM (liftM (\<lambda>s. mustGetEpochInfo (fn_epochs s) FundingSampleEpochInfoName)) (\<lambda>fundingSampleEpochInfo.
         bindM (liftM (\<lambda>_. MustDivideUint32RoundUp (ei_Duration fundingTickEpochInfo) (ei_Duration fundingSampleEpochInfo)))
           (\<lambda>minSampleRequiredForPremiumRate.
         bindM (liftM (\<lambda>s. processStoredPremiums s PremiumSamplesKey minSampleRequiredForPremiumRate AvgInt32
                             (GetRemoveSampleTailsFunc RemovedTailSampleRatioPpm))) (\<lambda>perpIdToPremiumPpm.
         bindM (foldM (process_funding_tick params (ei_Duration fundingTickEpochInfo) perpIdToPremiumPpm) allPerps []) (\<lambda>events.
         bindM (modifyM SetEmptyPremiumSamples) (\<lambda>_.
           retM (Some events))))))))))"

definition perpetuals_EndBlocker ::
  "block_ctx \<Rightarrow> (funding_store, (uint32 \<times> int32) list option \<times> (uint32 \<times> int32 \<times> int) list option) step" where
  "perpetuals_EndBlocker ctx =
     bindM (MaybeProcessNewFundingSampleEpoch ctx) (\<lambda>samples.
     bindM (MaybeProcessNewFundingTickEpoch ctx) (\<lambda>ticks. retM (samples, ticks)))"

section \<open>Definitions: messages and genesis\<close>

definition msg_AddPremiumVotes :: "'b clob_state \<Rightarrow> FundingPremium list \<Rightarrow> (funding_store, unit) step" where
  "msg_AddPremiumVotes clob votes =
     bindM (panic_on_error (liftM (\<lambda>s. PerformStatefulPremiumVotesValidation clob s votes))) (\<lambda>_.
       panic_on_error (AddPremiumVotes votes))"

definition msg_CreatePerpetual :: "string set \<Rightarrow> string \<Rightarrow> PerpetualParams \<Rightarrow> (funding_store, unit) step" where
  "msg_CreatePerpetual authorities authority params =
     with_authority authorities authority (bindM (CreatePerpetual params) (\<lambda>_. retM ()))"

definition msg_SetLiquidityTier :: "string set \<Rightarrow> string \<Rightarrow> LiquidityTier \<Rightarrow> (funding_store, unit) step" where
  "msg_SetLiquidityTier authorities authority liquidityTier =
     with_authority authorities authority (bindM (SetLiquidityTier liquidityTier) (\<lambda>_. retM ()))"

definition msg_UpdatePerpetualsParams :: "string set \<Rightarrow> string \<Rightarrow> perpetuals_Params \<Rightarrow> (funding_store, unit) step" where
  "msg_UpdatePerpetualsParams authorities authority params =
     with_authority authorities authority (perpetuals_SetParams params)"

definition msg_UpdatePerpetualParams :: "string set \<Rightarrow> string \<Rightarrow> PerpetualParams \<Rightarrow> (funding_store, unit) step" where
  "msg_UpdatePerpetualParams authorities authority p =
     with_authority authorities authority
       (bindM (ModifyPerpetual (pp_Id p) (pp_Ticker p) (pp_MarketId p) (pp_DefaultFundingPpm p) (pp_LiquidityTier p)) (\<lambda>_. retM ()))"

record perpetuals_GenesisState =
  pgs_Perpetuals :: "Perpetual list"
  pgs_LiquidityTiers :: "LiquidityTier list"
  pgs_Params :: perpetuals_Params

fun validate_genesis_perpetuals :: "uint32 set \<Rightarrow> Perpetual list \<Rightarrow> unit res" where
  "validate_genesis_perpetuals keys [] = Inr ()"
| "validate_genesis_perpetuals keys (perp # perps) =
     (if pp_Id (p_Params perp) \<in> keys then Inl (Err ''duplicated perpetual id'')
      else if length (pp_Ticker (p_Params perp)) = 0 then Inl (Err ''ErrTickerEmptyString'')
      else validate_genesis_perpetuals (insert (pp_Id (p_Params perp)) keys) perps)"

fun validate_genesis_tiers :: "uint32 set \<Rightarrow> uint32 \<Rightarrow> LiquidityTier list \<Rightarrow> unit res" where
  "validate_genesis_tiers keys expected [] = Inr ()"
| "validate_genesis_tiers keys expected (liquidityTier # tiers) =
     (if lt_Id liquidityTier \<in> keys then Inl (Err ''duplicated liquidity tier id'')
      else if lt_Id liquidityTier \<noteq> expected then Inl (Err ''found a gap in liquidity tier id'')
      else bindr (LiquidityTier_Validate liquidityTier) (\<lambda>_.
        validate_genesis_tiers (insert (lt_Id liquidityTier) keys) (expected + 1) tiers))"

definition perpetuals_GenesisState_Validate :: "perpetuals_GenesisState \<Rightarrow> unit res" where
  "perpetuals_GenesisState_Validate gs =
     bindr (perpetuals_Params_Validate (pgs_Params gs)) (\<lambda>_.
     bindr (validate_genesis_perpetuals {} (pgs_Perpetuals gs)) (\<lambda>_.
       validate_genesis_tiers {} 0 (pgs_LiquidityTiers gs)))"

definition perpetuals_DefaultParams :: perpetuals_Params where
  "perpetuals_DefaultParams =
     \<lparr>ppr_FundingRateClampFactorPpm = 6 * OneMillion, ppr_PremiumVoteClampFactorPpm = 60 * OneMillion,
      ppr_MinNumVotesPerSample = 15\<rparr>"

definition perpetuals_DefaultGenesis :: perpetuals_GenesisState where
  "perpetuals_DefaultGenesis =
     \<lparr>pgs_Perpetuals = [], pgs_LiquidityTiers = [], pgs_Params = perpetuals_DefaultParams\<rparr>"

definition perpetuals_InitGenesis :: "perpetuals_GenesisState \<Rightarrow> (funding_store, unit) step" where
  "perpetuals_InitGenesis genState =
     bindM (panic_on_error (perpetuals_SetParams (pgs_Params genState))) (\<lambda>_.
     bindM (forM (\<lambda>elem. panic_on_error (bindM (SetLiquidityTier elem) (\<lambda>_. retM ()))) (pgs_LiquidityTiers genState)) (\<lambda>_.
       forM (\<lambda>elem. panic_on_error (fn_ValidateAndSetPerpetual elem)) (pgs_Perpetuals genState)))"

definition perpetuals_ExportGenesis :: "funding_store \<Rightarrow> perpetuals_GenesisState" where
  "perpetuals_ExportGenesis s =
     \<lparr>pgs_Perpetuals = GetAllPerpetuals s, pgs_LiquidityTiers = GetAllLiquidityTiers s, pgs_Params = fn_params s\<rparr>"

section \<open>The state of the keeper\<close>

definition premium_store_ok :: "(uint32 \<Rightarrow> bool) \<Rightarrow> PremiumStore \<Rightarrow> bool" where
  "premium_store_ok exists ps \<longleftrightarrow>
     sorted_wrt (<) (map mpr_PerpetualId (prs_AllMarketPremiums ps)) \<and>
     (\<forall>mp \<in> set (prs_AllMarketPremiums ps). exists (mpr_PerpetualId mp) \<and> mpr_Premiums mp \<noteq> [] \<and>
        length (mpr_Premiums mp) \<le> unat (prs_NumPremiums ps))"

definition funding_ok :: "funding_store \<Rightarrow> bool" where
  "funding_ok s \<longleftrightarrow>
     keyed_ok (\<lambda>p. pp_Id (p_Params p)) (fn_perpetuals s) \<and> keyed_ok lt_Id (fn_tiers s) \<and>
     (\<forall>i p. gm_get (fn_perpetuals s) i = Some p \<longrightarrow> validatePerpetual (perp_view s) p = Inr ()) \<and>
     (\<forall>i t. gm_get (fn_tiers s) i = Some t \<longrightarrow> valid_tier t) \<and>
     premium_store_ok (HasPerpetual s) (fn_votes s) \<and> premium_store_ok (HasPerpetual s) (fn_samples s) \<and>
     perpetuals_Params_Validate (fn_params s) = Inr ()"

lemma premium_store_ok_empty [simp]: "premium_store_ok e empty_PremiumStore"
  by (simp add: premium_store_ok_def empty_PremiumStore_def)

lemma premium_store_ok_mono: "premium_store_ok e ps \<Longrightarrow> (\<And>i. e i \<Longrightarrow> e' i) \<Longrightarrow> premium_store_ok e' ps"
  by (auto simp: premium_store_ok_def)

lemma sort_keyed_vals: "keyed_ok key m \<Longrightarrow> sort_key key (gm_vals m) = gm_vals m"
  by (rule sort_key_id_if_sorted) (rule strict_sorted_imp_sorted[OF keyed_ok_vals_sorted])

lemma in_gm_vals_iff: "gm_inv m \<Longrightarrow> v \<in> set (gm_vals m) \<longleftrightarrow> (\<exists>k. gm_get m k = Some v)"
  by (force simp: gm_vals_def gm_get_Some_iff)

lemma validatePerpetual_mono:
  assumes "validatePerpetual v p = Inr ()" "p_Params q = p_Params p"
    and "dom (ps_prices v) \<subseteq> dom (ps_prices w)" "dom (ps_tiers v) \<subseteq> dom (ps_tiers w)"
  shows "validatePerpetual w q = Inr ()"
  using assms by (auto simp: validatePerpetual_def GetMarketPrice_def res_simps dom_def split: option.splits if_splits)

lemma perp_view_simps [simp]:
  "ps_perpetuals (perp_view s) = gm_get (fn_perpetuals s)" "ps_tiers (perp_view s) = gm_get (fn_tiers s)"
  "ps_prices (perp_view s) = fn_prices s"
  by (simp_all add: perp_view_def)

text \<open>The operations on the perpetuals are those the other keepers know, on their part of the state.\<close>

lemma perp_view_setPerpetual: "perp_view (fn_setPerpetual p s) = setPerpetual (perp_view s) p"
  by (simp add: perp_view_def fn_setPerpetual_def setPerpetual_def)

lemma perp_view_ModifyFundingIndex:
  "map_sum (\<lambda>x. x) (\<lambda>_. perp_view (snd (fn_ModifyFundingIndex i d s))) (fst (fn_ModifyFundingIndex i d s)) =
     ModifyFundingIndex (perp_view s) i d"
  by (cases "GetPerpetual (perp_view s) i")
     (simp_all add: fn_ModifyFundingIndex_def ModifyFundingIndex_def bindM_def liftM_def modifyM_def Let_def perp_view_setPerpetual)

lemma HasPerpetual_set [simp]: "HasPerpetual (fn_setPerpetual p s) i \<longleftrightarrow> i = pp_Id (p_Params p) \<or> HasPerpetual s i"
  by (simp add: HasPerpetual_def fn_setPerpetual_def)

lemma funding_ok_set:
  assumes "funding_ok s" "validatePerpetual (perp_view s) p = Inr ()"
  shows "funding_ok (fn_setPerpetual p s)"
proof -
  have "validatePerpetual (perp_view (fn_setPerpetual p s)) q = Inr ()"
    if "validatePerpetual (perp_view s) q = Inr ()" for q
    by (rule validatePerpetual_mono[OF that refl]) (simp_all add: fn_setPerpetual_def)
  moreover have "keyed_ok (\<lambda>p. pp_Id (p_Params p)) (gm_set (pp_Id (p_Params p)) p (fn_perpetuals s))"
    using assms(1) by (intro keyed_ok_set) (simp_all add: funding_ok_def)
  ultimately show ?thesis
    using assms unfolding funding_ok_def
    by (auto simp: fn_setPerpetual_def HasPerpetual_def split: if_splits elim!: premium_store_ok_mono)
qed

lemma setPremiumStore_frame [simp]:
  "HasPerpetual (setPremiumStore key ps s) = HasPerpetual s" "perp_view (setPremiumStore key ps s) = perp_view s"
  "fn_perpetuals (setPremiumStore key ps s) = fn_perpetuals s" "fn_tiers (setPremiumStore key ps s) = fn_tiers s"
  "fn_params (setPremiumStore key ps s) = fn_params s" "fn_prices (setPremiumStore key ps s) = fn_prices s"
  "fn_epochs (setPremiumStore key ps s) = fn_epochs s"
  by (cases key; simp add: setPremiumStore_def fun_eq_iff HasPerpetual_def perp_view_def)+

lemma funding_ok_setPremiumStore:
  "funding_ok s \<Longrightarrow> premium_store_ok (HasPerpetual s) ps \<Longrightarrow> funding_ok (setPremiumStore key ps s)"
  unfolding funding_ok_def setPremiumStore_frame by (cases key) (simp_all add: setPremiumStore_def)

lemma funding_ok_clear: "funding_ok s \<Longrightarrow> funding_ok (SetEmptyPremiumSamples s)" "funding_ok s \<Longrightarrow> funding_ok (SetEmptyPremiumVotes s)"
  by (simp_all add: SetEmptyPremiumSamples_def SetEmptyPremiumVotes_def funding_ok_setPremiumStore)

lemma GetAllPerpetuals_vals: "funding_ok s \<Longrightarrow> GetAllPerpetuals s = gm_vals (fn_perpetuals s)"
  unfolding GetAllPerpetuals_def by (rule sort_keyed_vals) (simp add: funding_ok_def)

section \<open>Votes and samples\<close>

lemma add_premium_run:
  assumes "for_res (add_premium s) vs m = Inr m'" "keyed_ok mpr_PerpetualId m" "distinct (map fpm_PerpetualId vs)"
    and "\<And>k mp. gm_get m k = Some mp \<Longrightarrow> HasPerpetual s k \<and> mpr_Premiums mp \<noteq> [] \<and>
           length (mpr_Premiums mp) \<le> (if k \<in> fpm_PerpetualId ` set vs then n else Suc n)"
  shows "keyed_ok mpr_PerpetualId m' \<and> (\<forall>k mp. gm_get m' k = Some mp \<longrightarrow>
           HasPerpetual s k \<and> mpr_Premiums mp \<noteq> [] \<and> length (mpr_Premiums mp) \<le> Suc n)"
  using assms
proof (induction vs arbitrary: m)
  case Nil
  then show ?case by auto
next
  case (Cons v vs)
  let ?old = "case gm_get m (fpm_PerpetualId v) of
      None \<Rightarrow> \<lparr>mpr_PerpetualId = fpm_PerpetualId v, mpr_Premiums = []\<rparr> | Some premiums \<Rightarrow> premiums"
  let ?new = "?old\<lparr>mpr_Premiums := mpr_Premiums ?old @ [fpm_PremiumPpm v]\<rparr>"
  from Cons.prems(1) have has: "HasPerpetual s (fpm_PerpetualId v)"
    and run: "for_res (add_premium s) vs (gm_set (fpm_PerpetualId v) ?new m) = Inr m'"
    by (auto simp: add_premium_def[of s v m] Let_def res_simps split: if_splits)
  have id_new: "mpr_PerpetualId ?new = fpm_PerpetualId v"
    using Cons.prems(2) by (auto simp: keyed_ok_def split: option.splits)
  have len: "length (mpr_Premiums ?old) \<le> n"
    using Cons.prems(4)[of "fpm_PerpetualId v"] by (auto split: option.splits)
  show ?case
  proof (rule Cons.IH[OF run])
    show "keyed_ok mpr_PerpetualId (gm_set (fpm_PerpetualId v) ?new m)"
      by (rule keyed_ok_set[OF Cons.prems(2) id_new])
    show "distinct (map fpm_PerpetualId vs)" using Cons.prems(3) by simp
    fix k mp
    assume k: "gm_get (gm_set (fpm_PerpetualId v) ?new m) k = Some mp"
    show "HasPerpetual s k \<and> mpr_Premiums mp \<noteq> [] \<and>
        length (mpr_Premiums mp) \<le> (if k \<in> fpm_PerpetualId ` set vs then n else Suc n)"
    proof (cases "k = fpm_PerpetualId v")
      case True
      then have "mp = ?new" using k by simp
      then show ?thesis using True has len Cons.prems(3) by auto
    next
      case False
      then show ?thesis using k Cons.prems(4)[of k mp] by (auto split: if_splits)
    qed
  qed
qed

lemma add_premium_total:
  "(\<And>v. v \<in> set vs \<Longrightarrow> HasPerpetual s (fpm_PerpetualId v)) \<Longrightarrow> \<exists>m'. for_res (add_premium s) vs m = Inr m'"
  using for_res_total[of "\<lambda>_. True" m vs "add_premium s"] by (auto simp: add_premium_def Let_def)

lemma premium_store_ok_added:
  assumes ok: "premium_store_ok (HasPerpetual s) ps"
    and run: "for_res (add_premium s) vs (GetMarketPremiumsMap ps) = Inr m"
    and "distinct (map fpm_PerpetualId vs)" and room: "uint (prs_NumPremiums ps) + 1 < 2 ^ 32"
  shows "premium_store_ok (HasPerpetual s) (NewPremiumStoreFromMarketPremiumMap m (prs_NumPremiums ps + 1))"
proof -
  have n: "unat (prs_NumPremiums ps + 1) = Suc (unat (prs_NumPremiums ps))"
  proof -
    have "int (unat (prs_NumPremiums ps) + 1) < int (2 ^ 32)" using room by simp
    then have "unat (prs_NumPremiums ps) + 1 < 2 ^ 32" by (simp only: of_nat_less_iff)
    then show ?thesis by (simp add: unat_word_ariths)
  qed
  have old: "HasPerpetual s k \<and> mpr_Premiums mp \<noteq> [] \<and> length (mpr_Premiums mp) \<le> unat (prs_NumPremiums ps)"
    if "gm_get (GetMarketPremiumsMap ps) k = Some mp" for k mp
    using ok that by (auto simp: premium_store_ok_def GetMarketPremiumsMap_def gm_of_list_sorted gm_get_def dest!: map_of_SomeD)
  have keyed: "keyed_ok mpr_PerpetualId (GetMarketPremiumsMap ps)"
    using ok unfolding GetMarketPremiumsMap_def premium_store_ok_def by (intro keyed_ok_of_list) simp
  have "keyed_ok mpr_PerpetualId m \<and> (\<forall>k mp. gm_get m k = Some mp \<longrightarrow>
           HasPerpetual s k \<and> mpr_Premiums mp \<noteq> [] \<and> length (mpr_Premiums mp) \<le> Suc (unat (prs_NumPremiums ps)))"
  proof (rule add_premium_run[OF run keyed assms(3)])
    show "HasPerpetual s k \<and> mpr_Premiums mp \<noteq> [] \<and> length (mpr_Premiums mp) \<le>
        (if k \<in> fpm_PerpetualId ` set vs then unat (prs_NumPremiums ps) else Suc (unat (prs_NumPremiums ps)))"
      if "gm_get (GetMarketPremiumsMap ps) k = Some mp" for k mp using old[OF that] by simp
  qed
  then have m: "keyed_ok mpr_PerpetualId m" "\<And>k mp. gm_get m k = Some mp \<Longrightarrow>
      HasPerpetual s k \<and> mpr_Premiums mp \<noteq> [] \<and> length (mpr_Premiums mp) \<le> Suc (unat (prs_NumPremiums ps))"
    by auto
  have "HasPerpetual s (mpr_PerpetualId mp) \<and> mpr_Premiums mp \<noteq> [] \<and>
      length (mpr_Premiums mp) \<le> Suc (unat (prs_NumPremiums ps))" if "mp \<in> set (gm_vals m)" for mp
  proof -
    from that m(1) obtain k where k: "gm_get m k = Some mp" by (auto simp: keyed_ok_def in_gm_vals_iff)
    with m(1) have "mpr_PerpetualId mp = k" by (simp add: keyed_ok_def)
    with m(2)[OF k] show ?thesis by simp
  qed
  then show ?thesis
    using m(1) by (simp add: premium_store_ok_def NewPremiumStoreFromMarketPremiumMap_def sort_keyed_vals
        keyed_ok_vals_sorted n)
qed

lemma funding_ok_add:
  assumes ok: "funding_ok s" and run: "addToPremiumStore vs key s = (Inr (), s')"
    and "distinct (map fpm_PerpetualId vs)" "uint (prs_NumPremiums (getPremiumStore s key)) + 1 < 2 ^ 32"
  shows "funding_ok s'"
proof -
  obtain m where m: "for_res (add_premium s) vs (GetMarketPremiumsMap (getPremiumStore s key)) = Inr m"
    and s': "s' = setPremiumStore key (NewPremiumStoreFromMarketPremiumMap m (prs_NumPremiums (getPremiumStore s key) + 1)) s"
    using run unfolding addToPremiumStore_def by (elim run_elims) (auto simp: step_simps)
  have "premium_store_ok (HasPerpetual s) (getPremiumStore s key)"
    using ok by (cases key) (simp_all add: funding_ok_def getPremiumStore_def)
  then show ?thesis unfolding s' by (intro funding_ok_setPremiumStore ok premium_store_ok_added[OF _ m assms(3,4)])
qed

lemma ValidateBasic_sorted:
  "MsgAddPremiumVotes_ValidateBasic vs = Inr () \<Longrightarrow> sorted_wrt (<) (map fpm_PerpetualId vs)"
proof (induction vs rule: MsgAddPremiumVotes_ValidateBasic.induct)
  case (1 v w vs)
  then show ?case by (auto split: if_splits)
qed simp_all

section \<open>Combining premiums\<close>

lemma summarize_premiums_total:
  assumes "premiums \<noteq> []" "length premiums \<le> unat num"
    and combine: "\<And>xs. xs \<noteq> [] \<Longrightarrow> length xs \<le> 2 ^ 32 \<Longrightarrow> \<exists>r. combine xs = Inr r"
    and filt: "\<And>xs. length xs \<le> 2 ^ 32 \<Longrightarrow> filt xs = Inr xs"
  shows "\<exists>r. summarize_premiums num least combine filt premiums = Inr r"
proof -
  let ?n = "Max_go num least" and ?len = "length premiums"
  have le: "unat num \<le> unat ?n" by (auto simp: Max_go_def word_less_nat_alt)
  have n: "int (unat ?n) = uint ?n" "unat ?n < 2 ^ 32" using unsigned_less[of ?n, where ?'a = nat] by simp_all
  have "\<not> num < of_nat ?len"
  proof -
    have "?len < 2 ^ 32" using assms(2) unsigned_less[of num, where ?'a = nat] by simp
    then have "unat (of_nat ?len :: uint32) = ?len" by (simp add: unat_of_nat)
    then show ?thesis using assms(2) by (simp add: word_less_nat_alt)
  qed
  moreover have "0 \<le> uint ?n - int ?len" using le n assms(2) by linarith
  moreover have "length (premiums @ replicate (nat (uint ?n - int ?len)) 0) \<le> 2 ^ 32"
    using le n assms(2) by (simp only: length_append length_replicate)
  ultimately show ?thesis
    using assms(1) combine filt unfolding summarize_premiums_def Let_def by (simp del: length_append length_replicate)
qed

lemma for_res_eq:
  "(\<And>x s. x \<in> set xs \<Longrightarrow> f x s = g x s) \<Longrightarrow> for_res f xs s = for_res g xs s"
proof (induction xs arbitrary: s)
  case (Cons x xs)
  then have "for_res f xs = for_res g xs" by (simp add: fun_eq_iff)
  with Cons show ?case by simp
qed simp

lemma fold_set_sorted:
  "sorted_wrt (<) (map k xs) \<Longrightarrow> fold (\<lambda>x m. gm_set (k x) (v x) m) xs [] = map (\<lambda>x. (k x, v x)) xs"
proof (induction xs rule: rev_induct)
  case (snoc x xs)
  then have "gm_set (k x) (v x) (map (\<lambda>x. (k x, v x)) xs) = map (\<lambda>x. (k x, v x)) xs @ [(k x, v x)]"
    by (intro gm_set_append) (auto simp: sorted_wrt_append)
  then show ?case using snoc by (simp add: sorted_wrt_append)
qed simp

lemma processStoredPremiums_run:
  assumes "premium_store_ok e (getPremiumStore s key)"
    and "\<And>mp. mp \<in> set (prs_AllMarketPremiums (getPremiumStore s key)) \<Longrightarrow>
       summarize_premiums (prs_NumPremiums (getPremiumStore s key)) least combine filt (mpr_Premiums mp) = Inr (g mp)"
  shows "processStoredPremiums s key least combine filt =
     Inr (map (\<lambda>mp. (mpr_PerpetualId mp, g mp)) (prs_AllMarketPremiums (getPremiumStore s key)))"
proof -
  let ?ps = "getPremiumStore s key"
  have "processStoredPremiums s key least combine filt =
      for_res (\<lambda>mp m. Inr (gm_set (mpr_PerpetualId mp) (g mp) m)) (prs_AllMarketPremiums ?ps) []"
    unfolding processStoredPremiums_def Let_def by (rule for_res_eq) (simp add: assms(2))
  also have "\<dots> = Inr (map (\<lambda>mp. (mpr_PerpetualId mp, g mp)) (prs_AllMarketPremiums ?ps))"
    using assms(1) by (simp add: for_res_pure fold_set_sorted premium_store_ok_def)
  finally show ?thesis .
qed

lemma tails_kept: "length xs \<le> 2 ^ 32 \<Longrightarrow> GetRemoveSampleTailsFunc RemovedTailSampleRatioPpm xs = Inr xs"
  by (simp add: GetRemoveSampleTailsFunc_def RemovedTailSampleRatioPpm_def Int64MulPpm_def big_simps)

lemma median_int32_total: "xs \<noteq> [] \<Longrightarrow> \<exists>r. median_int32 xs = Inr r"
  by (simp add: median_int32_def MustGetMedian_def Median_def Let_def)

lemma AvgInt32_total: "xs \<noteq> [] \<Longrightarrow> length xs \<le> 2 ^ 32 \<Longrightarrow> \<exists>r. AvgInt32 xs = Inr r"
  using AvgInt32_correct[of xs] by blast

text \<open>The bound of the rates of a valid tier, as a number.\<close>

definition funding_clamp :: "LiquidityTier \<Rightarrow> uint32 \<Rightarrow> int" where
  "funding_clamp t f =
     uint f * (uint (lt_InitialMarginPpm t) - uint (lt_InitialMarginPpm t) * uint (lt_MaintenanceFractionPpm t) div 1000000)
       div 1000000"

lemma GetMaxAbsFundingClampPpm_valid:
  assumes "valid_tier t"
  shows "GetMaxAbsFundingClampPpm t f = Inr (funding_clamp t f)" "0 \<le> funding_clamp t f" "funding_clamp t f \<le> uint f"
proof -
  let ?i = "uint (lt_InitialMarginPpm t)" and ?m = "uint (lt_MaintenanceFractionPpm t)"
  define mm where "mm = ?i * ?m div 1000000"
  have b: "?i \<le> 1000000" "?m \<le> 1000000" "0 \<le> ?i" "0 \<le> ?m"
    using assms by (auto simp: valid_tier_def LiquidityTier_Validate_def MaxInitialMarginPpm_def MaxMaintenanceFractionPpm_def
        OneMillion_def word_le_def not_less word_less_def split: if_splits)
  have "?i * ?m \<le> ?i * 1000000" using b by (intro mult_left_mono)
  then have mm: "0 \<le> mm" "mm \<le> ?i" using b zdiv_mono1[of "?i * ?m" "?i * 1000000" 1000000] by (simp_all add: mm_def pos_imp_zdiv_nonneg_iff)
  have u: "uint (ucast (word_of_int mm :: uint64) :: uint32) = mm"
    using mm b by (simp add: uint_up_ucast is_up unsigned_ucast_eq take_bit_int_eq_self uint_word_of_int)
  have le: "\<not> lt_InitialMarginPpm t < ucast (word_of_int mm :: uint64)" "\<not> 1000000 < lt_MaintenanceFractionPpm t"
    using mm u b by (simp_all add: word_less_def)
  have "uint (lt_InitialMarginPpm t - ucast (word_of_int mm :: uint64)) = ?i - mm"
    using u mm by (simp add: uint_sub_lem[THEN iffD1])
  then show "GetMaxAbsFundingClampPpm t f = Inr (funding_clamp t f)"
    using le b by (simp add: GetMaxAbsFundingClampPpm_def GetMaintenanceMarginPpm_def MaxMaintenanceFractionPpm_def
        OneMillion_def big_simps flip: mm_def) (simp add: funding_clamp_def mm_def)
  show "0 \<le> funding_clamp t f" using mm by (simp add: funding_clamp_def mm_def pos_imp_zdiv_nonneg_iff)
  have "uint f * (?i - mm) \<le> uint f * 1000000" using mm b by (intro mult_left_mono) auto
  then show "funding_clamp t f \<le> uint f"
    using zdiv_mono1[of "uint f * (?i - mm)" "uint f * 1000000" 1000000] by (simp add: funding_clamp_def mm_def)
qed

section \<open>A funding tick\<close>

definition premiums_of :: "PremiumStore \<Rightarrow> uint32 \<Rightarrow> int32 list" where
  "premiums_of ps i = (case map_of (map (\<lambda>mp. (mpr_PerpetualId mp, mpr_Premiums mp)) (prs_AllMarketPremiums ps)) i of
      None \<Rightarrow> [] | Some premiums \<Rightarrow> premiums)"

definition mean_premium :: "PremiumStore \<Rightarrow> uint32 \<Rightarrow> uint32 \<Rightarrow> int" where
  "mean_premium ps least i =
     sum_list (map sint (premiums_of ps i)) sdiv max (uint (prs_NumPremiums ps)) (uint least)"

definition rate_bound :: "funding_store \<Rightarrow> Perpetual \<Rightarrow> int" where
  "rate_bound s p = (case gm_get (fn_tiers s) (pp_LiquidityTier (p_Params p)) of
      None \<Rightarrow> 0 | Some t \<Rightarrow> funding_clamp t (ppr_FundingRateClampFactorPpm (fn_params s)))"

definition tick_rate :: "funding_store \<Rightarrow> uint32 \<Rightarrow> Perpetual \<Rightarrow> int" where
  "tick_rate s least p =
     max (- rate_bound s p) (min (rate_bound s p)
       (mean_premium (fn_samples s) least (pp_Id (p_Params p)) + sint (pp_DefaultFundingPpm (p_Params p))))"

definition ticked :: "funding_store \<Rightarrow> (Perpetual \<Rightarrow> int) \<Rightarrow> uint32 \<Rightarrow> Perpetual \<Rightarrow> Perpetual" where
  "ticked s rate duration p =
     p\<lparr>p_FundingIndex := p_FundingIndex p +
        (case fn_prices s (pp_MarketId (p_Params p)) of None \<Rightarrow> 0
         | Some price \<Rightarrow> GetFundingIndexDelta p price (rate p) duration)\<rparr>"

lemma gm_set_replace: "gm_inv (xs @ (k, v) # ys) \<Longrightarrow> gm_set k w (xs @ (k, v) # ys) = xs @ (k, w) # ys"
  by (induction xs) (auto simp: gm_inv_def)

lemma GetFundingIndexDelta_zero: "GetFundingIndexDelta p price 0 d = 0"
  by (simp add: GetFundingIndexDelta_def)

lemma process_funding_tick_run:
  assumes perps: "fn_perpetuals s = xs @ (i, p) # ys" "gm_inv (fn_perpetuals s)" "pp_Id (p_Params p) = i"
    and rate: "funding_rate s params m p = Inr (rate p)"
    and price: "fn_prices s (pp_MarketId (p_Params p)) = Some price"
  shows "process_funding_tick params duration m p ev s =
     (Inr (ev @ [(i, word_of_int (rate p), p_FundingIndex (ticked s rate duration p))]),
      s\<lparr>fn_perpetuals := xs @ (i, ticked s rate duration p) # ys\<rparr>)"
proof -
  let ?q = "ticked s rate duration p"
  have get: "GetPerpetual (perp_view s) i = Inr p"
    using perps gm_get_Some_iff[of "fn_perpetuals s" i p] by (simp add: GetPerpetual_def)
  have set: "fn_setPerpetual ?q s = s\<lparr>fn_perpetuals := xs @ (i, ?q) # ys\<rparr>"
    using gm_set_replace[of xs i p ys] perps by (simp add: fn_setPerpetual_def ticked_def)
  have "gm_inv (xs @ (i, ?q) # ys)" using perps(1,2) by (simp add: gm_inv_def)
  then have got: "GetPerpetual (perp_view (s\<lparr>fn_perpetuals := xs @ (i, ?q) # ys\<rparr>)) i = Inr ?q"
    using gm_get_Some_iff[of "xs @ (i, ?q) # ys" i ?q] by (simp add: GetPerpetual_def)
  have id: "pp_Id (p_Params ?q) = i" using perps(3) by (simp add: ticked_def)
  show ?thesis
  proof (cases "rate p = 0")
    case True
    then have "?q = p" using price by (simp add: ticked_def GetFundingIndexDelta_zero)
    moreover have "s = s\<lparr>fn_perpetuals := xs @ (i, p) # ys\<rparr>" using perps(1) by simp
    ultimately show ?thesis
      using True rate get perps(3) id
      by (simp add: process_funding_tick_def bindM_def liftM_def retM_def must_def del: perp_view_simps)
  next
    case False
    have "fn_ModifyFundingIndex i (GetFundingIndexDelta p price (rate p) duration) s =
        (Inr (), s\<lparr>fn_perpetuals := xs @ (i, ?q) # ys\<rparr>)"
      using get price unfolding set[symmetric]
      by (simp add: fn_ModifyFundingIndex_def bindM_def liftM_def modifyM_def Let_def ticked_def)
    then show ?thesis
      using False rate price got perps(3) id
      by (simp add: process_funding_tick_def bindM_def liftM_def retM_def must_def panic_on_error_def GetMarketPrice_def
          sgn_if Let_def)
  qed
qed

lemma foldM_tick:
  assumes "fn_perpetuals s = xs @ ys" "gm_inv (fn_perpetuals s)"
    and "\<And>i p t. (i, p) \<in> set ys \<Longrightarrow> perp_view t = perp_view s\<lparr>ps_perpetuals := ps_perpetuals (perp_view t)\<rparr> \<Longrightarrow>
           pp_Id (p_Params p) = i \<and> funding_rate t params m p = Inr (rate p) \<and> fn_prices s (pp_MarketId (p_Params p)) \<noteq> None"
  shows "foldM (process_funding_tick params duration m) (map snd ys) ev s =
     (Inr (ev @ map (\<lambda>(i, p). (i, word_of_int (rate p), p_FundingIndex (ticked s rate duration p))) ys),
      s\<lparr>fn_perpetuals := xs @ map (\<lambda>(i, p). (i, ticked s rate duration p)) ys\<rparr>)"
  using assms
proof (induction ys arbitrary: s xs ev)
  case Nil
  then show ?case by (simp add: retM_def)
next
  case (Cons y ys)
  obtain i p where y: "y = (i, p)" by (cases y)
  have p: "pp_Id (p_Params p) = i" "funding_rate s params m p = Inr (rate p)" "fn_prices s (pp_MarketId (p_Params p)) \<noteq> None"
    using Cons.prems(3)[of i p s] by (simp_all add: y perp_view_def)
  then obtain price where price: "fn_prices s (pp_MarketId (p_Params p)) = Some price" by blast
  let ?q = "ticked s rate duration p" and ?xs = "xs @ [(i, ticked s rate duration p)]"
  let ?s = "s\<lparr>fn_perpetuals := ?xs @ ys\<rparr>"
  have perps: "fn_perpetuals s = xs @ (i, p) # ys" using Cons.prems(1) y by simp
  have one: "process_funding_tick params duration m p ev s =
      (Inr (ev @ [(i, word_of_int (rate p), p_FundingIndex ?q)]), ?s)"
    using process_funding_tick_run[of s xs i p ys params m rate price, OF perps Cons.prems(2) p(1,2) price] by simp
  have same: "ticked ?s rate duration = ticked s rate duration" by (simp add: fun_eq_iff ticked_def)
  have rest: "foldM (process_funding_tick params duration m) (map snd ys) (ev @ [(i, word_of_int (rate p), p_FundingIndex ?q)]) ?s =
      (Inr ((ev @ [(i, word_of_int (rate p), p_FundingIndex ?q)]) @
            map (\<lambda>(i, p). (i, word_of_int (rate p), p_FundingIndex (ticked ?s rate duration p))) ys),
       ?s\<lparr>fn_perpetuals := ?xs @ map (\<lambda>(i, p). (i, ticked ?s rate duration p)) ys\<rparr>)"
  proof (rule Cons.IH)
    show "fn_perpetuals ?s = ?xs @ ys" "gm_inv (fn_perpetuals ?s)" using perps Cons.prems(2) by (simp_all add: gm_inv_def)
    fix j q t
    assume "(j, q) \<in> set ys" "perp_view t = perp_view ?s\<lparr>ps_perpetuals := ps_perpetuals (perp_view t)\<rparr>"
    then show "pp_Id (p_Params q) = j \<and> funding_rate t params m q = Inr (rate q) \<and> fn_prices ?s (pp_MarketId (p_Params q)) \<noteq> None"
      using Cons.prems(3)[of j q t] by (simp add: perp_view_def)
  qed
  show ?case using one rest unfolding same by (simp add: y)
qed

lemma sum_sint_zeros: "sum_list (map sint (xs @ replicate n 0)) = sum_list (map sint (xs :: int32 list))"
  by (simp add: sum_list_replicate)

lemma samples_mean:
  assumes ok: "premium_store_ok e ps" and mp: "mp \<in> set (prs_AllMarketPremiums ps)"
  shows "\<exists>r. summarize_premiums (prs_NumPremiums ps) least AvgInt32 (GetRemoveSampleTailsFunc RemovedTailSampleRatioPpm)
       (mpr_Premiums mp) = Inr r \<and> sint r = mean_premium ps least (mpr_PerpetualId mp)"
proof -
  let ?xs = "mpr_Premiums mp" and ?n = "Max_go (prs_NumPremiums ps) least"
  have len: "?xs \<noteq> []" "length ?xs \<le> unat (prs_NumPremiums ps)" using ok mp by (auto simp: premium_store_ok_def)
  have "\<exists>r. summarize_premiums (prs_NumPremiums ps) least AvgInt32 (GetRemoveSampleTailsFunc RemovedTailSampleRatioPpm) ?xs = Inr r"
    by (rule summarize_premiums_total[OF len]) (rule AvgInt32_total tails_kept; assumption)+
  then obtain r where r: "summarize_premiums (prs_NumPremiums ps) least AvgInt32 (GetRemoveSampleTailsFunc RemovedTailSampleRatioPpm) ?xs = Inr r" ..
  let ?ys = "?xs @ replicate (nat (uint ?n - int (length ?xs))) 0"
  have le: "int (length ?xs) \<le> uint ?n"
  proof -
    have "unat (prs_NumPremiums ps) \<le> unat ?n" by (auto simp: Max_go_def word_less_nat_alt)
    moreover have "int (unat ?n) = uint ?n" by simp
    ultimately show ?thesis using len(2) by linarith
  qed
  then have ylen: "int (length ?ys) = uint ?n" by simp
  have "int (length ?ys) \<le> int (2 ^ 32)" unfolding ylen using uint_lt2p[of ?n] by simp
  then have small: "length ?ys \<le> 2 ^ 32" by (simp only: of_nat_le_iff)
  have "AvgInt32 ?ys = Inr r"
    using r le tails_kept[OF small] unfolding summarize_premiums_def Let_def by (auto split: if_splits)
  moreover have "?ys \<noteq> []" using len by simp
  ultimately have "sint r = sum_list (map sint ?ys) sdiv int (length ?ys)"
    using AvgInt32_correct[of ?ys] small by auto
  moreover have "uint ?n = max (uint (prs_NumPremiums ps)) (uint least)" by (simp add: Max_go_def word_less_def max_def)
  moreover have "premiums_of ps (mpr_PerpetualId mp) = ?xs"
  proof -
    have "distinct (map mpr_PerpetualId (prs_AllMarketPremiums ps))"
      using ok strict_sorted_iff by (auto simp: premium_store_ok_def)
    then have "map_of (map (\<lambda>mp. (mpr_PerpetualId mp, mpr_Premiums mp)) (prs_AllMarketPremiums ps)) (mpr_PerpetualId mp) = Some ?xs"
      using mp by (intro map_of_is_SomeI) (auto simp: comp_def)
    then show ?thesis by (simp add: premiums_of_def)
  qed
  ultimately show ?thesis using r ylen by (simp only: sum_sint_zeros mean_premium_def) blast
qed

lemma processed_samples:
  assumes ok: "premium_store_ok e (fn_samples s)"
  shows "\<exists>m. processStoredPremiums s PremiumSamplesKey least AvgInt32 (GetRemoveSampleTailsFunc RemovedTailSampleRatioPpm) = Inr m \<and>
     (\<forall>i. sint (case gm_get m i of None \<Rightarrow> 0 | Some p \<Rightarrow> p) = mean_premium (fn_samples s) least i)"
proof -
  let ?ps = "fn_samples s" and ?f = "GetRemoveSampleTailsFunc RemovedTailSampleRatioPpm"
  obtain g where g: "\<And>mp. mp \<in> set (prs_AllMarketPremiums ?ps) \<Longrightarrow>
      summarize_premiums (prs_NumPremiums ?ps) least AvgInt32 ?f (mpr_Premiums mp) = Inr (g mp) \<and>
      sint (g mp) = mean_premium ?ps least (mpr_PerpetualId mp)"
    using samples_mean[OF ok, of _ least] by metis
  let ?m = "map (\<lambda>mp. (mpr_PerpetualId mp, g mp)) (prs_AllMarketPremiums ?ps)"
  have run: "processStoredPremiums s PremiumSamplesKey least AvgInt32 ?f = Inr ?m"
    using processStoredPremiums_run[of e s PremiumSamplesKey least AvgInt32 ?f g] ok g by (simp add: getPremiumStore_def)
  have "sint (case gm_get ?m i of None \<Rightarrow> 0 | Some p \<Rightarrow> p) = mean_premium ?ps least i" for i
  proof (cases "gm_get ?m i")
    case None
    then have "premiums_of ?ps i = []" by (auto simp: premiums_of_def gm_get_def map_of_eq_None_iff image_iff split: option.splits dest: map_of_SomeD)
    then show ?thesis using None by (simp add: mean_premium_def)
  next
    case (Some r)
    then have "(i, r) \<in> set ?m" unfolding gm_get_def by (rule map_of_SomeD)
    then show ?thesis using g Some by auto
  qed
  then show ?thesis using run by blast
qed

lemma funding_rate_run:
  assumes ok: "funding_ok s" and p: "gm_get (fn_perpetuals s) i = Some p"
    and view: "perp_view t = perp_view s\<lparr>ps_perpetuals := ps_perpetuals (perp_view t)\<rparr>"
    and clamp: "uint (ppr_FundingRateClampFactorPpm (fn_params s)) < 2 ^ 31"
    and m: "\<And>i. sint (case gm_get m i of None \<Rightarrow> 0 | Some p \<Rightarrow> p) = mean_premium (fn_samples s) least i"
  shows "funding_rate t (fn_params s) m p = Inr (tick_rate s least p)"
    and "\<bar>tick_rate s least p\<bar> \<le> rate_bound s p" and "fn_prices s (pp_MarketId (p_Params p)) \<noteq> None"
proof -
  have valid: "validatePerpetual (perp_view s) p = Inr ()" using ok p by (simp add: funding_ok_def)
  then obtain tier where tier: "gm_get (fn_tiers s) (pp_LiquidityTier (p_Params p)) = Some tier"
    by (auto simp: validatePerpetual_def res_simps split: if_splits)
  show "fn_prices s (pp_MarketId (p_Params p)) \<noteq> None"
    using valid by (auto simp: validatePerpetual_def GetMarketPrice_def res_simps split: option.splits)
  have vt: "valid_tier tier" using ok tier by (auto simp: funding_ok_def)
  note b = GetMaxAbsFundingClampPpm_valid[OF vt, of "ppr_FundingRateClampFactorPpm (fn_params s)"]
  have bound: "rate_bound s p = funding_clamp tier (ppr_FundingRateClampFactorPpm (fn_params s))"
    using tier by (simp add: rate_bound_def)
  then show "\<bar>tick_rate s least p\<bar> \<le> rate_bound s p" using b(2) by (auto simp: tick_rate_def)
  then have small: "tick_rate s least p \<le> 2147483647" using bound b(3) clamp by simp
  have mf: "\<not> MaxMaintenanceFractionPpm < lt_MaintenanceFractionPpm tier"
    using vt by (auto simp: valid_tier_def LiquidityTier_Validate_def split: if_splits)
  have "gm_get (fn_tiers t) = gm_get (fn_tiers s)" using arg_cong[OF view, of ps_tiers] by simp
  then have tier_t: "GetLiquidityTier (perp_view t) (pp_LiquidityTier (p_Params p)) = Inr tier"
    using tier by (simp add: GetLiquidityTier_def)
  have cl: "BigIntClamp (mean_premium (fn_samples s) least (pp_Id (p_Params p)) + sint (pp_DefaultFundingPpm (p_Params p)))
      (- rate_bound s p) (rate_bound s p) = tick_rate s least p"
    using b(2) bound by (auto simp: BigIntClamp_def bigGenericClamp_def tick_rate_def max_def min_def)
  show "funding_rate t (fn_params s) m p = Inr (tick_rate s least p)"
    using small by (simp add: funding_rate_def Let_def must_def tier_t mf b(1) m cl cmp_int_def flip: bound)
qed

lemma MustDivideUint32RoundUp_total: "y \<noteq> 0 \<Longrightarrow> \<exists>r. MustDivideUint32RoundUp x y = Inr r"
proof -
  assume "y \<noteq> 0"
  moreover have "uint (ucast y :: uint64) = uint y" by (simp add: uint_up_ucast is_up)
  ultimately have "uint (ucast y :: uint64) \<noteq> 0" by (simp add: uint_0_iff)
  then have "(ucast y :: uint64) \<noteq> 0" by fastforce
  then show ?thesis by (simp add: MustDivideUint32RoundUp_def Let_def)
qed

lemma funding_tick_run:
  assumes ok: "funding_ok s"
    and start: "NumBlocksSinceEpochStart ctx (fn_epochs s) FundingTickEpochInfoName = Inr 0"
    and epochs: "GetEpochInfo (fn_epochs s) FundingTickEpochInfoName = Some te" "GetEpochInfo (fn_epochs s) FundingSampleEpochInfoName = Some se"
    and least: "MustDivideUint32RoundUp (ei_Duration te) (ei_Duration se) = Inr least"
    and clamp: "uint (ppr_FundingRateClampFactorPpm (fn_params s)) < 2 ^ 31"
  shows "MaybeProcessNewFundingTickEpoch ctx s =
     (Inr (Some (map (\<lambda>(i, p). (i, word_of_int (tick_rate s least p), p_FundingIndex (ticked s (tick_rate s least) (ei_Duration te) p)))
             (fn_perpetuals s))),
      s\<lparr>fn_perpetuals := map (\<lambda>(i, p). (i, ticked s (tick_rate s least) (ei_Duration te) p)) (fn_perpetuals s),
        fn_samples := empty_PremiumStore\<rparr>)"
proof -
  obtain m where m: "processStoredPremiums s PremiumSamplesKey least AvgInt32 (GetRemoveSampleTailsFunc RemovedTailSampleRatioPpm) = Inr m"
    "\<And>i. sint (case gm_get m i of None \<Rightarrow> 0 | Some p \<Rightarrow> p) = mean_premium (fn_samples s) least i"
    using processed_samples[of "HasPerpetual s" s least] ok by (auto simp: funding_ok_def)
  have keyed: "keyed_ok (\<lambda>p. pp_Id (p_Params p)) (fn_perpetuals s)" using ok by (simp add: funding_ok_def)
  have all: "GetAllPerpetuals s = map snd (fn_perpetuals s)" using GetAllPerpetuals_vals[OF ok] by (simp add: gm_vals_def)
  have fold: "foldM (process_funding_tick (fn_params s) (ei_Duration te) m) (map snd (fn_perpetuals s)) [] s =
     (Inr ([] @ map (\<lambda>(i, p). (i, word_of_int (tick_rate s least p), p_FundingIndex (ticked s (tick_rate s least) (ei_Duration te) p)))
             (fn_perpetuals s)),
      s\<lparr>fn_perpetuals := [] @ map (\<lambda>(i, p). (i, ticked s (tick_rate s least) (ei_Duration te) p)) (fn_perpetuals s)\<rparr>)"
  proof (rule foldM_tick)
    show "fn_perpetuals s = [] @ fn_perpetuals s" "gm_inv (fn_perpetuals s)" using keyed by (simp_all add: keyed_ok_def)
    fix i p t
    assume "(i, p) \<in> set (fn_perpetuals s)" and view: "perp_view t = perp_view s\<lparr>ps_perpetuals := ps_perpetuals (perp_view t)\<rparr>"
    then have p: "gm_get (fn_perpetuals s) i = Some p" using keyed by (simp add: keyed_ok_def gm_get_Some_iff)
    then have "pp_Id (p_Params p) = i" using keyed by (simp add: keyed_ok_def)
    with funding_rate_run[OF ok p view clamp m(2)]
    show "pp_Id (p_Params p) = i \<and> funding_rate t (fn_params s) m p = Inr (tick_rate s least p) \<and>
        fn_prices s (pp_MarketId (p_Params p)) \<noteq> None" by blast
  qed
  show ?thesis
    using start epochs least m(1) fold
    by (simp add: MaybeProcessNewFundingTickEpoch_def bindM_def liftM_def readM_def retM_def modifyM_def must_def all
        mustGetEpochInfo_def SetEmptyPremiumSamples_def setPremiumStore_def)
qed

lemma gm_get_map: "gm_get (map (\<lambda>(k, v). (k, f v)) m) k = map_option f (gm_get m k)"
  by (simp add: gm_get_def map_of_map)

lemma keyed_ok_map: "keyed_ok key m \<Longrightarrow> (\<And>v. key (f v) = key v) \<Longrightarrow> keyed_ok key (map (\<lambda>(k, v). (k, f v)) m)"
  unfolding keyed_ok_def by (intro conjI) (simp add: gm_inv_def comp_def case_prod_unfold, auto simp: gm_get_map)

lemma funding_ok_tick:
  assumes ok: "funding_ok s" and "\<And>p. p_Params (f p) = p_Params p"
  shows "funding_ok (s\<lparr>fn_perpetuals := map (\<lambda>(i, p). (i, f p)) (fn_perpetuals s), fn_samples := empty_PremiumStore\<rparr>)"
    (is "funding_ok ?t")
proof -
  have has: "HasPerpetual ?t = HasPerpetual s" by (simp add: fun_eq_iff HasPerpetual_def gm_get_map)
  have valid: "validatePerpetual (perp_view s) p = Inr ()" if "gm_get (fn_perpetuals s) i = Some p" for i p
    using ok that by (simp add: funding_ok_def)
  have "validatePerpetual (perp_view ?t) p = Inr ()"
    if p: "gm_get (fn_perpetuals ?t) i = Some p" for i p
  proof -
    obtain q where "gm_get (fn_perpetuals s) i = Some q" "p_Params p = p_Params q" using p assms(2) by (auto simp: gm_get_map)
    then show ?thesis by (intro validatePerpetual_mono[OF valid]) simp_all
  qed
  moreover have "keyed_ok (\<lambda>p. pp_Id (p_Params p)) (fn_perpetuals ?t)"
    using ok assms(2) by (simp add: funding_ok_def keyed_ok_map)
  ultimately show ?thesis using ok unfolding funding_ok_def has by simp
qed

section \<open>A funding sample\<close>

lemma processed_votes:
  assumes ok: "funding_ok s"
  shows "\<exists>m. processStoredPremiums s PremiumVotesKey least median_int32 Inr = Inr m"
proof -
  let ?ps = "fn_votes s"
  have votes: "premium_store_ok (HasPerpetual s) ?ps" using ok by (simp add: funding_ok_def)
  have "\<exists>r. summarize_premiums (prs_NumPremiums ?ps) least median_int32 Inr (mpr_Premiums mp) = Inr r"
    if "mp \<in> set (prs_AllMarketPremiums ?ps)" for mp
    using that votes unfolding premium_store_ok_def
    by (intro summarize_premiums_total median_int32_total) auto
  then obtain g where "\<And>mp. mp \<in> set (prs_AllMarketPremiums ?ps) \<Longrightarrow>
      summarize_premiums (prs_NumPremiums ?ps) least median_int32 Inr (mpr_Premiums mp) = Inr (g mp)" by metis
  then show ?thesis
    using processStoredPremiums_run[of "HasPerpetual s" s PremiumVotesKey least median_int32 Inr g] votes
    by (simp add: getPremiumStore_def)
qed

lemma funding_sample_run:
  assumes ok: "funding_ok s" and room: "uint (prs_NumPremiums (fn_samples s)) + 1 < 2 ^ 32"
  shows "\<exists>r s'. processPremiumVotesIntoSamples s = (Inr r, s') \<and> funding_ok s' \<and>
     fn_params s' = fn_params s \<and> fn_epochs s' = fn_epochs s"
proof -
  obtain m where m: "processStoredPremiums s PremiumVotesKey (ppr_MinNumVotesPerSample (fn_params s)) median_int32 Inr = Inr m"
    using processed_votes[OF ok] by blast
  let ?ev = "map (\<lambda>perp. (pp_Id (p_Params perp), case gm_get m (pp_Id (p_Params perp)) of None \<Rightarrow> 0 | Some premium \<Rightarrow> premium))
      (GetAllPerpetuals s)"
  let ?vs = "map (\<lambda>(i, premium). \<lparr>fpm_PerpetualId = i, fpm_PremiumPpm = premium\<rparr>) (filter (\<lambda>(_, premium). premium \<noteq> 0) ?ev)"
  have keyed: "keyed_ok (\<lambda>p. pp_Id (p_Params p)) (fn_perpetuals s)" using ok by (simp add: funding_ok_def)
  have k: "map fst ?ev = gm_keys (fn_perpetuals s)"
    using keyed_ok_vals_keys[OF keyed] by (simp add: GetAllPerpetuals_vals[OF ok] comp_def)
  have ids: "fst ` set ?ev = set (gm_keys (fn_perpetuals s))" using arg_cong[OF k, of set] unfolding set_map .
  have "distinct (map fst ?ev)"
    unfolding k gm_keys_def using keyed by (intro gm_inv_distinct) (simp add: keyed_ok_def)
  then have dist: "distinct (map fpm_PerpetualId ?vs)"
    by (simp add: comp_def case_prod_unfold distinct_map_filter)
  have has: "HasPerpetual s (fpm_PerpetualId v)" if "v \<in> set ?vs" for v
  proof -
    from that obtain x where "x \<in> set ?ev" "fpm_PerpetualId v = fst x"
      unfolding set_map set_filter by (elim imageE) (simp add: case_prod_unfold, blast)
    then have "fpm_PerpetualId v \<in> fst ` set ?ev" by (rule rev_image_eqI)
    then show ?thesis unfolding ids by (auto simp: HasPerpetual_def gm_keys_def gm_get_def map_of_eq_None_iff)
  qed
  obtain m' where m': "for_res (add_premium s) ?vs (GetMarketPremiumsMap (getPremiumStore s PremiumSamplesKey)) = Inr m'"
    using add_premium_total[of ?vs s "GetMarketPremiumsMap (getPremiumStore s PremiumSamplesKey)", OF has] by (rule exE)
  define t where "t = setPremiumStore PremiumSamplesKey
      (NewPremiumStoreFromMarketPremiumMap m' (prs_NumPremiums (getPremiumStore s PremiumSamplesKey) + 1)) s"
  have t: "addToPremiumStore ?vs PremiumSamplesKey s = (Inr (), t)"
    using m' by (simp only: addToPremiumStore_def bindM_def liftM_def modifyM_def t_def) simp
  have eq: "fn_params t = fn_params s" "fn_epochs t = fn_epochs s" by (simp_all add: t_def)
  have "funding_ok t"
    using room by (intro funding_ok_add[OF ok t dist]) (simp add: getPremiumStore_def)
  moreover have "processPremiumVotesIntoSamples s = (Inr ?ev, SetEmptyPremiumVotes t)"
    using m t by (simp add: processPremiumVotesIntoSamples_def bindM_def liftM_def readM_def modifyM_def retM_def
        panic_on_error_def AddPremiumSamples_def del: list.map)
  ultimately show ?thesis using eq funding_ok_clear(2)[of t] by (auto simp: SetEmptyPremiumVotes_def)
qed

section \<open>Reachable states\<close>

text \<open>
  The keeper starts from a genesis state over empty stores. The markets of the prices module are never deleted.
\<close>

inductive funding_reachable :: "funding_store \<Rightarrow> bool" where
  genesis: "fn_perpetuals s = [] \<Longrightarrow> fn_tiers s = [] \<Longrightarrow> fn_votes s = empty_PremiumStore \<Longrightarrow>
    fn_samples s = empty_PremiumStore \<Longrightarrow> perpetuals_InitGenesis gs s = (Inr (), s') \<Longrightarrow> funding_reachable s'"
| votes: "funding_reachable s \<Longrightarrow> MsgAddPremiumVotes_ValidateBasic vs = Inr () \<Longrightarrow>
    uint (prs_NumPremiums (fn_votes s)) + 1 < 2 ^ 32 \<Longrightarrow> AddPremiumVotes vs s = (Inr (), s') \<Longrightarrow> funding_reachable s'"
| end_block: "funding_reachable s \<Longrightarrow> uint (prs_NumPremiums (fn_samples s)) + 1 < 2 ^ 32 \<Longrightarrow>
    perpetuals_EndBlocker ctx s = (Inr evs, s') \<Longrightarrow> funding_reachable s'"
| create: "funding_reachable s \<Longrightarrow> CreatePerpetual params s = (Inr p, s') \<Longrightarrow> funding_reachable s'"
| modify: "funding_reachable s \<Longrightarrow> ModifyPerpetual i ticker market fundingPpm tier s = (Inr p, s') \<Longrightarrow> funding_reachable s'"
| market_type: "funding_reachable s \<Longrightarrow> SetPerpetualMarketType i mt s = (Inr p, s') \<Longrightarrow> funding_reachable s'"
| liquidity_tier: "funding_reachable s \<Longrightarrow> SetLiquidityTier t s = (Inr t', s') \<Longrightarrow> funding_reachable s'"
| params: "funding_reachable s \<Longrightarrow> perpetuals_SetParams ps s = (Inr (), s') \<Longrightarrow> funding_reachable s'"
| next_id: "funding_reachable s \<Longrightarrow> AcquireNextPerpetualID s = (Inr i, s') \<Longrightarrow> funding_reachable s'"
| open_interest: "funding_reachable s \<Longrightarrow> fn_ModifyOpenInterest i d s = (Inr (), s') \<Longrightarrow> funding_reachable s'"
| environment: "funding_reachable s \<Longrightarrow> dom (fn_prices s) \<subseteq> dom prices \<Longrightarrow>
    funding_reachable (s\<lparr>fn_prices := prices, fn_epochs := epochs\<rparr>)"

lemma preserves_modify: "(\<And>s. I s \<Longrightarrow> I (f s)) \<Longrightarrow> preserves I (modifyM f)"
  by (rule preservesI) (simp add: step_simps)

lemma preserves_success: "preserves I m \<Longrightarrow> I s \<Longrightarrow> m s = (Inr x, t) \<Longrightarrow> I t"
  using preservesD[of I m s "Inr x" t] by simp

lemma preserves_panic_on_error: "preserves I m \<Longrightarrow> preserves I (panic_on_error m)"
  by (rule preservesI) (auto simp: panic_on_error_def is_panic_def split: prod.splits sum.splits error.splits
      dest: preserves_success)

lemma preserves_ValidateAndSet: "preserves funding_ok (fn_ValidateAndSetPerpetual p)"
proof (rule preservesI)
  fix s r s'
  assume "funding_ok s" "fn_ValidateAndSetPerpetual p s = (r, s')"
  then show "funding_ok s'"
    by (cases "validatePerpetual (perp_view s) p")
       (auto simp: fn_ValidateAndSetPerpetual_def bindM_def liftM_def modifyM_def intro: funding_ok_set)
qed

lemma preserves_perpetual_operations:
  "preserves funding_ok (CreatePerpetual params)"
  "preserves funding_ok (ModifyPerpetual i ticker market fundingPpm tier)"
  "preserves funding_ok (SetPerpetualMarketType i mt)"
  unfolding CreatePerpetual_def ModifyPerpetual_def SetPerpetualMarketType_def Let_def
  by (auto intro!: preserves_bind_lift preserves_bind[OF preserves_ValidateAndSet] preserves_bind preserves_modify funding_ok_clear)

lemma preserves_SetLiquidityTier: "preserves funding_ok (SetLiquidityTier t)"
  unfolding SetLiquidityTier_def
proof (intro preserves_bind_lift preserves_bind preserves_modify)
  fix s u x
  assume "funding_ok s" and v: "LiquidityTier_Validate t = Inr x" and ok: "funding_ok u"
  let ?u = "u\<lparr>fn_tiers := gm_set (lt_Id t) t (fn_tiers u)\<rparr>"
  have has: "HasPerpetual ?u = HasPerpetual u" by (simp add: fun_eq_iff HasPerpetual_def)
  have "validatePerpetual (perp_view ?u) p = Inr ()" if "validatePerpetual (perp_view u) p = Inr ()" for p
    by (rule validatePerpetual_mono[OF that refl]) auto
  moreover have "keyed_ok lt_Id (fn_tiers ?u)" using ok by (simp add: funding_ok_def keyed_ok_set)
  moreover have "\<forall>i t'. gm_get (fn_tiers ?u) i = Some t' \<longrightarrow> valid_tier t'"
    using ok v by (auto simp: funding_ok_def valid_tier_def)
  ultimately show "funding_ok ?u" using ok unfolding funding_ok_def has by simp
qed simp_all

lemma preserves_ModifyFundingIndex: "preserves funding_ok (fn_ModifyFundingIndex i d)"
  unfolding fn_ModifyFundingIndex_def Let_def
proof (rule preservesI)
  fix s r s'
  assume ok: "funding_ok s" and run: "bindM (liftM (\<lambda>s. GetPerpetual (perp_view s) i))
      (\<lambda>p. modifyM (fn_setPerpetual (p\<lparr>p_FundingIndex := p_FundingIndex p + d\<rparr>))) s = (r, s')"
  show "funding_ok s'"
  proof (cases "gm_get (fn_perpetuals s) i")
    case None
    then show ?thesis using ok run by (auto simp: GetPerpetual_def bindM_def liftM_def)
  next
    case (Some p)
    then have "validatePerpetual (perp_view s) p = Inr ()" using ok by (simp add: funding_ok_def)
    then have "validatePerpetual (perp_view s) (p\<lparr>p_FundingIndex := p_FundingIndex p + d\<rparr>) = Inr ()"
      by (rule validatePerpetual_mono) simp_all
    then have "funding_ok (fn_setPerpetual (p\<lparr>p_FundingIndex := p_FundingIndex p + d\<rparr>) s)" by (rule funding_ok_set[OF ok])
    then show ?thesis using run Some by (auto simp: GetPerpetual_def bindM_def liftM_def modifyM_def)
  qed
qed

lemma preserves_foldM: "(\<And>x a. preserves I (f x a)) \<Longrightarrow> preserves I (foldM f xs a)"
  by (induction xs arbitrary: a) (auto intro: preserves_bind)

lemma preserves_funding_tick: "preserves funding_ok (MaybeProcessNewFundingTickEpoch ctx)"
  unfolding MaybeProcessNewFundingTickEpoch_def process_funding_tick_def Let_def
  by (intro preserves_bind_lift preserves_bind preserves_foldM preserves_panic_on_error preserves_ModifyFundingIndex
      preserves_modify funding_ok_clear preserves_if) simp_all

lemma funding_ok_open_interest:
  assumes ok: "funding_ok s" and run: "fn_ModifyOpenInterest i d s = (Inr (), s')"
  shows "funding_ok s'"
proof -
  obtain v where v: "ModifyOpenInterest (perp_view s) i d = Inr v"
    and s': "s' = (case ps_perpetuals v i of None \<Rightarrow> s | Some p \<Rightarrow> fn_setPerpetual p s)"
    using run by (auto simp: fn_ModifyOpenInterest_def split: sum.splits)
  show ?thesis
  proof (cases "ps_perpetuals v i")
    case None
    then show ?thesis using s' ok by simp
  next
    case (Some q)
    with v obtain p where p: "gm_get (fn_perpetuals s) i = Some p" "p_Params q = p_Params p"
      using ok by (auto simp: ModifyOpenInterest_def GetPerpetual_def setPerpetual_def Let_def res_simps funding_ok_def keyed_ok_def
          split: if_splits option.splits)
    then have "validatePerpetual (perp_view s) p = Inr ()" using ok by (simp add: funding_ok_def)
    then have "validatePerpetual (perp_view s) q = Inr ()" using p(2) by (rule validatePerpetual_mono) simp_all
    then show ?thesis using s' Some funding_ok_set[OF ok] by simp
  qed
qed

lemma funding_ok_environment:
  assumes ok: "funding_ok s" and "dom (fn_prices s) \<subseteq> dom prices"
  shows "funding_ok (s\<lparr>fn_prices := prices, fn_epochs := epochs\<rparr>)" (is "funding_ok ?t")
proof -
  have has: "HasPerpetual ?t = HasPerpetual s" by (simp add: fun_eq_iff HasPerpetual_def)
  have "validatePerpetual (perp_view ?t) p = Inr ()" if "validatePerpetual (perp_view s) p = Inr ()" for p
    by (rule validatePerpetual_mono[OF that refl]) (use assms(2) in simp_all)
  then show ?thesis using ok unfolding funding_ok_def has by simp
qed

lemma funding_ok_fields:
  "funding_ok (s\<lparr>fn_nextPerpetualId := n\<rparr>) \<longleftrightarrow> funding_ok s"
  "perpetuals_Params_Validate ps = Inr () \<Longrightarrow> funding_ok s \<Longrightarrow> funding_ok (s\<lparr>fn_params := ps\<rparr>)"
proof -
  have has: "HasPerpetual (s\<lparr>fn_nextPerpetualId := n\<rparr>) = HasPerpetual s" "HasPerpetual (s\<lparr>fn_params := ps\<rparr>) = HasPerpetual s"
    by (simp_all add: fun_eq_iff HasPerpetual_def)
  have view: "perp_view (s\<lparr>fn_nextPerpetualId := n\<rparr>) = perp_view s" "perp_view (s\<lparr>fn_params := ps\<rparr>) = perp_view s"
    by (simp_all add: perp_view_def)
  show "funding_ok (s\<lparr>fn_nextPerpetualId := n\<rparr>) \<longleftrightarrow> funding_ok s"
    "perpetuals_Params_Validate ps = Inr () \<Longrightarrow> funding_ok s \<Longrightarrow> funding_ok (s\<lparr>fn_params := ps\<rparr>)"
    unfolding funding_ok_def has view by simp_all
qed

lemma funding_ok_genesis:
  assumes "fn_perpetuals s = []" "fn_tiers s = []" "fn_votes s = empty_PremiumStore" "fn_samples s = empty_PremiumStore"
    and run: "perpetuals_InitGenesis gs s = (Inr (), s')"
  shows "funding_ok s'"
proof -
  let ?t = "s\<lparr>fn_params := pgs_Params gs\<rparr>"
  let ?rest = "bindM (forM (\<lambda>elem. panic_on_error (bindM (SetLiquidityTier elem) (\<lambda>_. retM ()))) (pgs_LiquidityTiers gs)) (\<lambda>_.
       forM (\<lambda>elem. panic_on_error (fn_ValidateAndSetPerpetual elem)) (pgs_Perpetuals gs))"
  from run obtain u where u: "panic_on_error (perpetuals_SetParams (pgs_Params gs)) s = (Inr (), u)" and r: "?rest u = (Inr (), s')"
    unfolding perpetuals_InitGenesis_def by (elim bind_elim) auto
  from u have t: "u = ?t" "perpetuals_Params_Validate (pgs_Params gs) = Inr ()"
    by (auto simp: panic_on_error_def perpetuals_SetParams_def bindM_def liftM_def modifyM_def split: sum.splits error.splits)
  have "preserves funding_ok ?rest"
    by (intro preserves_bind preserves_forM preserves_panic_on_error preserves_SetLiquidityTier preserves_ValidateAndSet) simp
  moreover have "funding_ok ?t" using assms(1-4) t(2) by (simp add: funding_ok_def keyed_ok_def gm_get_def)
  ultimately show ?thesis using r unfolding t(1) by (rule preserves_success)
qed

lemma funding_sample_total:
  assumes "funding_ok s" "uint (prs_NumPremiums (fn_samples s)) + 1 < 2 ^ 32"
    and "NumBlocksSinceEpochStart ctx (fn_epochs s) FundingSampleEpochInfoName = Inr n"
  shows "\<exists>r s'. MaybeProcessNewFundingSampleEpoch ctx s = (Inr r, s') \<and> funding_ok s' \<and>
     fn_params s' = fn_params s \<and> fn_epochs s' = fn_epochs s"
proof -
  obtain e where e: "GetEpochInfo (fn_epochs s) FundingSampleEpochInfoName = Some e"
    using assms(3) by (auto simp: NumBlocksSinceEpochStart_def split: option.splits)
  obtain r s' where "processPremiumVotesIntoSamples s = (Inr r, s')" "funding_ok s'" "fn_params s' = fn_params s" "fn_epochs s' = fn_epochs s"
    using funding_sample_run[OF assms(1,2)] by blast
  then show ?thesis using assms(1,3) e
    by (cases "n = 0") (simp_all add: MaybeProcessNewFundingSampleEpoch_def bindM_def liftM_def retM_def must_def mustGetEpochInfo_def)
qed

lemma preserves_EndBlocker:
  assumes ok: "funding_ok s" "uint (prs_NumPremiums (fn_samples s)) + 1 < 2 ^ 32"
    and run: "perpetuals_EndBlocker ctx s = (Inr evs, s')"
  shows "funding_ok s'"
proof -
  obtain a t where t: "MaybeProcessNewFundingSampleEpoch ctx s = (Inr a, t)"
    and run': "bindM (MaybeProcessNewFundingTickEpoch ctx) (\<lambda>ticks. retM (a, ticks)) t = (Inr evs, s')"
    using run unfolding perpetuals_EndBlocker_def by (rule bind_elim) blast
  obtain n where "NumBlocksSinceEpochStart ctx (fn_epochs s) FundingSampleEpochInfoName = Inr n"
    using t unfolding MaybeProcessNewFundingSampleEpoch_def
    by (elim bind_lift_elim) (auto simp: must_def split: sum.splits error.splits)
  from funding_sample_total[OF ok this] t have "funding_ok t" by auto
  have "preserves funding_ok (bindM (MaybeProcessNewFundingTickEpoch ctx) (\<lambda>ticks. retM (a, ticks)))"
    by (intro preserves_bind preserves_funding_tick) simp
  then show ?thesis using \<open>funding_ok t\<close> run' by (rule preserves_success)
qed

lemma funding_reachable_ok: "funding_reachable s \<Longrightarrow> funding_ok s"
proof (induction rule: funding_reachable.induct)
  case (votes s vs s')
  show ?case
  proof (rule funding_ok_add[of s vs PremiumVotesKey])
    show "distinct (map fpm_PerpetualId vs)" using ValidateBasic_sorted[OF votes(2)] strict_sorted_iff by blast
  qed (use votes(3,4,5) in \<open>simp_all add: AddPremiumVotes_def getPremiumStore_def\<close>)
next
  case (params s ps s')
  then show ?case by (auto simp: perpetuals_SetParams_def step_simps intro: funding_ok_fields(2))
next
  case (next_id s i s')
  then show ?case by (auto simp: AcquireNextPerpetualID_def step_simps funding_ok_fields(1))
next
  case (genesis s gs s')
  then show ?case by (rule funding_ok_genesis)
next
  case (end_block s ctx evs s')
  show ?case by (rule preserves_EndBlocker[OF end_block(4,2,3)])
next
  case (open_interest s i d s')
  show ?case using open_interest(3,2) by (rule funding_ok_open_interest)
next
  case (environment s prices epochs)
  then show ?case by (intro funding_ok_environment)
qed (erule (1) preserves_success[OF preserves_perpetual_operations(1)] preserves_success[OF preserves_perpetual_operations(2)]
    preserves_success[OF preserves_perpetual_operations(3)] preserves_success[OF preserves_SetLiquidityTier])+

text \<open>
  C9: Whatever genesis state, votes, governance messages and blocks came before, the end of a block at which the two
  funding epochs are known does not panic, so no recorded premium can halt the chain: the check that a market has
  more premiums than were counted never fires, no median or average is taken of an empty list, every tier and
  price that a rate needs is there, and no rate overflows. It needs that the epoch of the samples has a duration, that
  the counter of samples has room for one more, and that the clamp factor is below \<open>2\<^sup>31\<close>, which the validation
  of the parameters does not enforce: with a larger one the panic on a rate above the 32-bit range can be reached.
\<close>

theorem funding_end_block_never_panics:
  assumes reach: "funding_reachable s" and room: "uint (prs_NumPremiums (fn_samples s)) + 1 < 2 ^ 32"
    and blocks: "NumBlocksSinceEpochStart ctx (fn_epochs s) FundingSampleEpochInfoName = Inr m"
      "NumBlocksSinceEpochStart ctx (fn_epochs s) FundingTickEpochInfoName = Inr n"
    and duration: "GetEpochInfo (fn_epochs s) FundingSampleEpochInfoName = Some e" "ei_Duration e \<noteq> 0"
    and clamp: "uint (ppr_FundingRateClampFactorPpm (fn_params s)) < 2 ^ 31"
  shows "\<exists>evs s'. perpetuals_EndBlocker ctx s = (Inr evs, s')"
proof -
  obtain a t where t: "MaybeProcessNewFundingSampleEpoch ctx s = (Inr a, t)" "funding_ok t"
    "fn_params t = fn_params s" "fn_epochs t = fn_epochs s"
    using funding_sample_total[OF funding_reachable_ok[OF reach] room blocks(1)] by blast
  obtain te where te: "GetEpochInfo (fn_epochs s) FundingTickEpochInfoName = Some te"
    using blocks(2) by (auto simp: NumBlocksSinceEpochStart_def split: option.splits)
  obtain least where least: "MustDivideUint32RoundUp (ei_Duration te) (ei_Duration e) = Inr least"
    using MustDivideUint32RoundUp_total[OF duration(2)] by blast
  have "\<exists>b u. MaybeProcessNewFundingTickEpoch ctx t = (Inr b, u)"
  proof (cases "n = 0")
    case True
    then show ?thesis
      using funding_tick_run[of t ctx te e least] t(2-4) te duration(1) least clamp blocks(2) by fastforce
  next
    case False
    then show ?thesis
      using blocks(2) by (simp add: MaybeProcessNewFundingTickEpoch_def bindM_def liftM_def retM_def must_def t(4))
  qed
  then show ?thesis using t(1) by (auto simp: perpetuals_EndBlocker_def retM_def)
qed

text \<open>
  C10: With a clamp factor below \<open>2\<^sup>31\<close>, a funding tick moves the funding index of each perpetual by the index delta of its rate over the epoch, and
  changes nothing else but the samples, which it clears. The rate is the mean of the recorded samples, with a zero
  for each sample that was not recorded, plus the default funding, clamped to the bound of the liquidity tier.
\<close>

theorem funding_tick_moves_indices:
  assumes reach: "funding_reachable s"
    and start: "NumBlocksSinceEpochStart ctx (fn_epochs s) FundingTickEpochInfoName = Inr 0"
    and epochs: "GetEpochInfo (fn_epochs s) FundingTickEpochInfoName = Some te"
      "GetEpochInfo (fn_epochs s) FundingSampleEpochInfoName = Some se"
    and least: "MustDivideUint32RoundUp (ei_Duration te) (ei_Duration se) = Inr least"
    and clamp: "uint (ppr_FundingRateClampFactorPpm (fn_params s)) < 2 ^ 31"
  shows "(\<exists>evs. MaybeProcessNewFundingTickEpoch ctx s = (Inr (Some evs),
        s\<lparr>fn_perpetuals := map (\<lambda>(i, p). (i, ticked s (tick_rate s least) (ei_Duration te) p)) (fn_perpetuals s),
          fn_samples := empty_PremiumStore\<rparr>) \<and>
        map (\<lambda>(i, rate, index). (i, index)) evs =
          map (\<lambda>(i, p). (i, p_FundingIndex (ticked s (tick_rate s least) (ei_Duration te) p))) (fn_perpetuals s)) \<and>
      (\<forall>i p. gm_get (fn_perpetuals s) i = Some p \<longrightarrow> \<bar>tick_rate s least p\<bar> \<le> rate_bound s p)"
proof -
  note ok = funding_reachable_ok[OF reach]
  have "premium_store_ok (HasPerpetual s) (fn_samples s)" using ok by (simp add: funding_ok_def)
  then obtain m :: "(uint32, int32) gomap" where
    "\<And>i. sint (case gm_get m i of None \<Rightarrow> 0 | Some p \<Rightarrow> p) = mean_premium (fn_samples s) least i"
    using processed_samples[of "HasPerpetual s" s least] by blast
  then have "\<forall>i p. gm_get (fn_perpetuals s) i = Some p \<longrightarrow> \<bar>tick_rate s least p\<bar> \<le> rate_bound s p"
    using funding_rate_run(2)[OF ok _ _ clamp, of _ _ s m least] by (simp add: perp_view_def)
  then show ?thesis
    unfolding funding_tick_run[OF ok start epochs least clamp] by (simp add: comp_def case_prod_unfold)
qed

section \<open>An execution\<close>

definition ex_epoch :: "string \<Rightarrow> uint32 \<Rightarrow> uint32 \<Rightarrow> EpochInfo" where
  "ex_epoch name duration start =
     \<lparr>ei_Name = name, ei_NextTick = 0, ei_Duration = duration, ei_CurrentEpoch = 1, ei_CurrentEpochStartBlock = start,
      ei_IsInitialized = True, ei_FastForwardNextTick = True\<rparr>"

definition ex_epochs :: "uint32 \<Rightarrow> uint32 \<Rightarrow> epoch_store" where
  "ex_epochs sampleStart tickStart =
     gm_set FundingSampleEpochInfoName (ex_epoch FundingSampleEpochInfoName 60 sampleStart)
       (gm_set FundingTickEpochInfoName (ex_epoch FundingTickEpochInfoName 3600 tickStart) [])"

definition ex_funding_empty :: funding_store where
  "ex_funding_empty = \<lparr>fn_perpetuals = [], fn_tiers = [], fn_samples = empty_PremiumStore, fn_votes = empty_PremiumStore,
     fn_params = perpetuals_DefaultParams, fn_nextPerpetualId = 0, fn_prices = [0 \<mapsto> ex_price], fn_epochs = ex_epochs 10 5\<rparr>"

definition ex_funding_genesis :: perpetuals_GenesisState where
  "ex_funding_genesis = \<lparr>pgs_Perpetuals = [ex_perpetual 0 PERPETUAL_MARKET_TYPE_CROSS], pgs_LiquidityTiers = [ex_tier],
     pgs_Params = perpetuals_DefaultParams\<lparr>ppr_MinNumVotesPerSample := 1\<rparr>\<rparr>"

text \<open>One vote, sampled in block 10; the next tick starts in block 20.\<close>

definition ex_funding_voted :: funding_store where
  "ex_funding_voted = snd (AddPremiumVotes [\<lparr>fpm_PerpetualId = 0, fpm_PremiumPpm = 60000\<rparr>]
     (snd (perpetuals_InitGenesis ex_funding_genesis ex_funding_empty)))"

definition ex_funding_sampled :: funding_store where
  "ex_funding_sampled =
     (let s = snd (perpetuals_EndBlocker \<lparr>ctx_BlockHeight = 10, ctx_BlockTime = 0\<rparr> ex_funding_voted)
      in s\<lparr>fn_prices := fn_prices s, fn_epochs := ex_epochs 20 20\<rparr>)"

lemma run_of_fst: "fst x = Inr a \<Longrightarrow> x = (Inr a, snd x)"
  "case fst x of Inl _ \<Rightarrow> False | Inr _ \<Rightarrow> True \<Longrightarrow> x = (Inr (projr (fst x)), snd x)"
  by (cases x; auto split: sum.splits)+

lemma ex_funding_voted_reachable: "funding_reachable ex_funding_voted"
proof -
  let ?g = "snd (perpetuals_InitGenesis ex_funding_genesis ex_funding_empty)"
  have "funding_reachable ?g"
  proof (rule funding_reachable.genesis[of ex_funding_empty ex_funding_genesis])
    have "fst (perpetuals_InitGenesis ex_funding_genesis ex_funding_empty) = Inr ()" by code_simp
    then show "perpetuals_InitGenesis ex_funding_genesis ex_funding_empty = (Inr (), ?g)" by (rule run_of_fst)
  qed (simp_all add: ex_funding_empty_def)
  then show ?thesis
  proof (rule funding_reachable.votes)
    show "MsgAddPremiumVotes_ValidateBasic [\<lparr>fpm_PerpetualId = 0, fpm_PremiumPpm = 60000\<rparr>] = Inr ()" by simp
    show "uint (prs_NumPremiums (fn_votes ?g)) + 1 < 2 ^ 32" by code_simp
    have "fst (AddPremiumVotes [\<lparr>fpm_PerpetualId = 0, fpm_PremiumPpm = 60000\<rparr>] ?g) = Inr ()" by code_simp
    then show "AddPremiumVotes [\<lparr>fpm_PerpetualId = 0, fpm_PremiumPpm = 60000\<rparr>] ?g = (Inr (), ex_funding_voted)"
      unfolding ex_funding_voted_def by (rule run_of_fst)
  qed
qed

lemma ex_funding_sampled_reachable: "funding_reachable ex_funding_sampled"
  unfolding ex_funding_sampled_def Let_def
proof (rule funding_reachable.environment)
  let ?ctx = "\<lparr>ctx_BlockHeight = 10, ctx_BlockTime = 0\<rparr> :: block_ctx"
  have run: "case fst (perpetuals_EndBlocker ?ctx ex_funding_voted) of Inl _ \<Rightarrow> False | Inr _ \<Rightarrow> True" by code_simp
  show "funding_reachable (snd (perpetuals_EndBlocker ?ctx ex_funding_voted))"
  proof (rule funding_reachable.end_block[OF ex_funding_voted_reachable])
    show "uint (prs_NumPremiums (fn_samples ex_funding_voted)) + 1 < 2 ^ 32" by code_simp
    show "perpetuals_EndBlocker ?ctx ex_funding_voted =
        (Inr (projr (fst (perpetuals_EndBlocker ?ctx ex_funding_voted))), snd (perpetuals_EndBlocker ?ctx ex_funding_voted))"
      using run by (rule run_of_fst)
  qed
qed simp

theorem funding_end_block_never_panics_witness:
  "\<exists>evs s'. perpetuals_EndBlocker \<lparr>ctx_BlockHeight = 20, ctx_BlockTime = 0\<rparr> ex_funding_sampled = (Inr evs, s')"
proof (rule funding_end_block_never_panics[OF ex_funding_sampled_reachable])
  show "uint (prs_NumPremiums (fn_samples ex_funding_sampled)) + 1 < 2 ^ 32" by code_simp
  show "NumBlocksSinceEpochStart \<lparr>ctx_BlockHeight = 20, ctx_BlockTime = 0\<rparr> (fn_epochs ex_funding_sampled) FundingSampleEpochInfoName = Inr 0"
    by code_simp
  show "NumBlocksSinceEpochStart \<lparr>ctx_BlockHeight = 20, ctx_BlockTime = 0\<rparr> (fn_epochs ex_funding_sampled) FundingTickEpochInfoName = Inr 0"
    by code_simp
  show "GetEpochInfo (fn_epochs ex_funding_sampled) FundingSampleEpochInfoName = Some (ex_epoch FundingSampleEpochInfoName 60 20)"
    by code_simp
  show "ei_Duration (ex_epoch FundingSampleEpochInfoName 60 20) \<noteq> 0" by code_simp
  show "uint (ppr_FundingRateClampFactorPpm (fn_params ex_funding_sampled)) < 2 ^ 31" by code_simp
qed

theorem funding_tick_moves_indices_witness:
  "tick_rate ex_funding_sampled 60 (ex_perpetual 0 PERPETUAL_MARKET_TYPE_CROSS) = 1000 \<and>
   (\<exists>evs s'. MaybeProcessNewFundingTickEpoch \<lparr>ctx_BlockHeight = 20, ctx_BlockTime = 0\<rparr> ex_funding_sampled = (Inr (Some evs), s') \<and>
      map (\<lambda>(i, rate, index). (i, index)) evs = [(0, 625)] \<and> fn_samples s' = empty_PremiumStore)"
proof -
  let ?s = ex_funding_sampled and ?ctx = "\<lparr>ctx_BlockHeight = 20, ctx_BlockTime = 0\<rparr> :: block_ctx"
  have "NumBlocksSinceEpochStart ?ctx (fn_epochs ?s) FundingTickEpochInfoName = Inr 0" by code_simp
  moreover have "GetEpochInfo (fn_epochs ?s) FundingTickEpochInfoName = Some (ex_epoch FundingTickEpochInfoName 3600 20)" by code_simp
  moreover have "GetEpochInfo (fn_epochs ?s) FundingSampleEpochInfoName = Some (ex_epoch FundingSampleEpochInfoName 60 20)" by code_simp
  moreover have "MustDivideUint32RoundUp (ei_Duration (ex_epoch FundingTickEpochInfoName 3600 20))
      (ei_Duration (ex_epoch FundingSampleEpochInfoName 60 20)) = Inr 60" by code_simp
  moreover have "uint (ppr_FundingRateClampFactorPpm (fn_params ?s)) < 2 ^ 31" by code_simp
  ultimately have "\<exists>evs. MaybeProcessNewFundingTickEpoch ?ctx ?s = (Inr (Some evs),
        ?s\<lparr>fn_perpetuals := map (\<lambda>(i, p). (i, ticked ?s (tick_rate ?s 60) (ei_Duration (ex_epoch FundingTickEpochInfoName 3600 20)) p)) (fn_perpetuals ?s),
          fn_samples := empty_PremiumStore\<rparr>) \<and>
        map (\<lambda>(i, rate, index). (i, index)) evs =
          map (\<lambda>(i, p). (i, p_FundingIndex (ticked ?s (tick_rate ?s 60) (ei_Duration (ex_epoch FundingTickEpochInfoName 3600 20)) p))) (fn_perpetuals ?s)"
    using funding_tick_moves_indices[OF ex_funding_sampled_reachable] by blast
  moreover have "map (\<lambda>(i, p). (i, p_FundingIndex (ticked ?s (tick_rate ?s 60) (ei_Duration (ex_epoch FundingTickEpochInfoName 3600 20)) p))) (fn_perpetuals ?s)
      = [(0, 625)]" by code_simp
  moreover have "tick_rate ?s 60 (ex_perpetual 0 PERPETUAL_MARKET_TYPE_CROSS) = 1000" by code_simp
  ultimately show ?thesis by (metis (no_types, lifting) funding_store.select_convs(3) funding_store.surjective funding_store.update_convs(3))
qed

end
