(* ===== verification/Spec2Isabelle.thy ===== *)
theory Spec2Isabelle
  imports Transfers MemClobInvariant ProcessOperations Funding
begin

text \<open>
  \<^bold>\<open>The dYdX v4 chain: subaccounts, fees and the central limit order book.\<close>

  The program is a Cosmos SDK application (\<^verbatim>\<open>src/protocol\<close>). Its modules keep their state in key-value
  stores behind a context and call each other through Go interfaces. A trade flows through all of them: a
  message places an order in the \<^emph>\<open>memclob\<close> of a validator, the memclob matches it against resting orders
  and asks the keepers to update the two subaccounts, the matches are collected in the \<^emph>\<open>operations to
  propose\<close>, and the proposed operations are validated and replayed by the other validators. Subaccounts
  hold asset and perpetual positions; an update is accepted only if the account stays collateralised
  (\<^verbatim>\<open>x/perpetuals\<close> and \<^verbatim>\<open>lib/margin\<close> say by how much). Fees are split between protocol, affiliates and other
  recipients. Epochs, block times and statistics drive the periodic parts.

  \<^bold>\<open>How the code is modelled.\<close> A Go function that can return an error or panic returns
  \<^typ>\<open>'a res\<close>, that is \<open>error + 'a\<close>, with \<^term>\<open>Err\<close> for a returned error and \<^term>\<open>Panic\<close> for a panic. A
  method that changes state is a \<^typ>\<open>('s, 'a) step\<close>: it takes the state and gives the result with the new
  state, also when it fails, so partial effects of failing calls are visible. Go maps and store prefixes
  are key-sorted association lists \<^typ>\<open>('k, 'v) gomap\<close>. Integers of a fixed width are words of that width
  and wrap; \<^verbatim>\<open>big.Int\<close> is \<^typ>\<open>int\<close>, \<^verbatim>\<open>big.Rat\<close> is \<^typ>\<open>rat\<close>. Code outside the repository (the bank
  and staking keepers, bech32, protobuf and hash functions, the transaction decoder) is an argument of the
  definitions that use it, and what a theorem needs of it is a named hypothesis with an instance in its
  witness. Telemetry, logging, indexer events and streaming have no effect on the modelled state and are
  left out.

  \<^bold>\<open>The theories.\<close>
  \<^item> \<open>DydxPrelude\<close>: results, steps, ordered maps, loops over lists, word lemmas.
  \<^item> \<open>BigMath\<close> (\<^verbatim>\<open>lib/big_math.go\<close>, \<^verbatim>\<open>math.go\<close>, \<^verbatim>\<open>quantums.go\<close>): rounding, powers of ten, medians and averages at
    machine width; exactness, round trips and bounds.
  \<^item> \<open>Margin\<close> (\<^verbatim>\<open>lib/margin/risk.go\<close>) and \<open>Perpetuals\<close> (\<^verbatim>\<open>x/perpetuals\<close>): risk of an account, margin
    requirements of a position, the store of markets; the order on risks, bounds of margins.
  \<^item> \<open>SubaccountLib\<close> (\<^verbatim>\<open>x/subaccounts/lib\<close>, \<^verbatim>\<open>types\<close>): funding settlement, position updates, risk.
  \<^item> \<open>SubaccountKeeper\<close> (\<^verbatim>\<open>x/subaccounts/keeper\<close>): the store of subaccounts and the acceptance and execution
    of batches of updates, isolated markets, leverage, negative accounts. \<open>SubaccountSafety\<close> proves
    solvency of accepted updates, the store invariant, the open interest invariant, and the gate on withdrawals.
  \<^item> \<open>Assets\<close>, \<open>Blocktime\<close>, \<open>Epochs\<close>, \<open>Stats\<close>, \<open>Affiliates\<close>, \<open>RevShare\<close> (with \<^verbatim>\<open>x/feetiers\<close>): the modules of
    these names, whole, with their invariants over runs of blocks.
  \<^item> \<open>Transfers\<close> (\<^verbatim>\<open>x/subaccounts/keeper/transfer.go\<close>): movements of coins between accounts, pools and
    fee recipients; conservation and exact distribution of fees.
  \<^item> \<open>ClobTypes\<close> (\<^verbatim>\<open>x/clob/types\<close>): orders, order ids, clob pairs, messages and their validation.
  \<^item> \<open>Orderbook\<close> (\<^verbatim>\<open>x/clob/memclob/orderbook.go\<close>): one book. The locale \<open>price_time_book\<close> states what a book
    promises to its client, a queue ordered by price and time; its interpretation on the code's
    operations is the refinement proof.
  \<^item> \<open>OperationsQueue\<close> (\<^verbatim>\<open>operations_to_propose.go\<close>, \<^verbatim>\<open>message_proposed_operations.go\<close> and their neighbours): the
    queue as a state machine (\<open>otp_step\<close>, \<open>otp_reachable\<close>; \<open>otp_accepted\<close> for queues filled with accepted
    messages), what is proposed and what a receiver accepts.
  \<^item> \<open>MemClob\<close> (\<^verbatim>\<open>memclob.go\<close>): matching, placing, cancelling, replaying and purging, over any implementation of
    the Go interface \<^verbatim>\<open>MemClobKeeper\<close>; matching soundness and termination. \<open>MemClobInvariant\<close>: the
    operations as a step relation, the invariant of all reachable states, and that purging always returns
    and removes what it has to.
  \<^item> \<open>OrderState\<close> (\<^verbatim>\<open>x/clob/keeper/order_state.go\<close>, \<^verbatim>\<open>match_state.go\<close>, \<^verbatim>\<open>liquidations_state.go\<close>): fill amounts and
    their pruning, trade prices, liquidation limits of a block; pruning removes exactly what is due and never a
    fill of an order that could still trade.
  \<^item> \<open>StatefulOrders\<close> (\<^verbatim>\<open>stateful_order_state.go\<close>, \<^verbatim>\<open>twap_order_state.go\<close>): long-term, conditional and TWAP
    placements, their expirations and counts; the size of a TWAP suborder. \<open>ConditionalOrders\<close>: triggering by
    oracle and trade prices, as exact comparisons of rationals.
  \<^item> \<open>ClobPairs\<close> (\<^verbatim>\<open>clob_pair.go\<close>): clob pairs and the state record of the whole clob keeper. \<open>ClobOrders\<close>
    (\<^verbatim>\<open>orders.go\<close>, \<^verbatim>\<open>equity_tier_limit.go\<close>, \<^verbatim>\<open>final_settlement.go\<close>): validation, placement and cancellation.
  \<^item> \<open>Liquidations\<close> (\<^verbatim>\<open>liquidations.go\<close>), \<open>ProcessMatch\<close> (\<^verbatim>\<open>process_single_match.go\<close>), \<open>Deleveraging\<close>
    (\<^verbatim>\<open>deleveraging.go\<close>): liquidation orders, the execution of one match with its fees, and the offsetting of
    underwater positions; what a match changes, and that deleveraging only closes positions.
  \<^item> \<open>ProcessOperations\<close> (\<^verbatim>\<open>process_operations.go\<close>, \<^verbatim>\<open>x/clob/abci.go\<close>): the execution of a proposed queue
    and the blockers of the clob module.
  \<^item> \<open>Rewards\<close> (\<^verbatim>\<open>x/rewards\<close>): reward shares and their payment.
  \<^item> \<open>Funding\<close> (\<^verbatim>\<open>x/perpetuals/keeper\<close>): the keeper of the perpetuals with premium votes, samples and funding
    ticks; the end of a block never panics in a reachable state, and what a tick does to the funding indices.

  \<^bold>\<open>Loops.\<close> Loops over lists are recursion on the list. The loops over a book (matching, impact price)
  are \<open>walk\<close>, a \<^theory_text>\<open>partial_function\<close> whose value is \<^const>\<open>None\<close> when it does not return; that it returns is
  a theorem for every well-formed book, because each iteration goes to the successor in the book's queue. The scan
  for the next price level is bounded by the number of levels, as in the code.

  \<^bold>\<open>Not modelled.\<close> Of \<^verbatim>\<open>x/clob\<close>: the replay of orders when a validator prepares its check state, rate limits, ante
  handlers, MEV telemetry and queries. Of \<^verbatim>\<open>x/subaccounts\<close>: the safety heap and queries over all accounts. The
  modules \<^verbatim>\<open>x/vault\<close>, \<^verbatim>\<open>x/prices\<close>, \<^verbatim>\<open>x/sending\<close>, \<^verbatim>\<open>x/bridge\<close>, \<^verbatim>\<open>x/vest\<close>, \<^verbatim>\<open>x/delaymsg\<close>, \<^verbatim>\<open>x/ratelimit\<close>, \<^verbatim>\<open>x/listing\<close>,
  \<^verbatim>\<open>x/accountplus\<close> and \<^verbatim>\<open>x/govplus\<close>: they are not on the path of a trade; the prices that trading reads are a
  parameter of the state. The daemons other than the liquidation information, the application wiring, command
  lines, streaming and generated protobuf code; the indexer under \<^verbatim>\<open>src/indexer\<close> is a separate program in another
  language.
\<close>

end
